(* ===== verification/Prelude.thy ===== *)
theory Prelude
  imports Main "HOL-Library.Word" "HOL-Library.List_Lexorder" "HOL-Library.Char_ord"
begin

text \<open>
  The types and generic lemmas every component shares: machine integers as words, C++ strings
  as byte lists, and \<open>'a run\<close>, the outcome of a C++ call (it returns, throws, ends the
  process, or never returns), with its sequencing operator. The collection \<open>run_simps\<close>
  holds the rules that evaluate such outcomes. \<open>Undefined\<close> is undefined behaviour (an access
  out of the bounds of an array, a null pointer).
\<close>

named_theorems run_simps \<open>evaluation of outcomes of C++ calls\<close>

type_synonym u8 = "8 word"
type_synonym u16 = "16 word"
type_synonym u32 = "32 word"
type_synonym u64 = "64 word"

type_synonym cxx_string = string

datatype exn = InvalidArgument | OutOfRange | BadRLP | UndersizeRLP | OversizeRLP | RLPException

datatype 'a run = Ret 'a | Throw exn | Exit | Diverge | Undefined

primrec bind_run :: "'a run \<Rightarrow> ('a \<Rightarrow> 'b run) \<Rightarrow> 'b run" where
  "bind_run (Ret x) f = f x"
| "bind_run (Throw e) f = Throw e"
| "bind_run Exit f = Exit"
| "bind_run Diverge f = Diverge"
| "bind_run Undefined f = Undefined"

declare bind_run.simps [run_simps]

lemma bind_run_assoc: "bind_run (bind_run m f) g = bind_run m (\<lambda>x. bind_run (f x) g)"
  by (cases m) simp_all

lemma bind_run_Ret [run_simps]: "bind_run m Ret = m"
  by (cases m) simp_all

lemma bind_run_eq_Ret [run_simps]:
  "bind_run m f = Ret y \<longleftrightarrow> (\<exists>x. m = Ret x \<and> f x = Ret y)"
  by (cases m) simp_all

text \<open>A loop modelled by \<open>partial_function\<close>: no value means that it never returns.\<close>

primrec run_of_option :: "'a option \<Rightarrow> 'a run" where
  "run_of_option (Some x) = Ret x"
| "run_of_option None = Diverge"

declare run_of_option.simps [run_simps]

text \<open>
  A loop over a range whose body may return from the function (\<open>Inl\<close>) or go on with the next
  state (\<open>Inr\<close>), and the values of the counter of \<open>for (i = a; i <= b; ++i)\<close> for a bound
  \<open>b\<close> below the greatest number (with that bound the loop never ends).
\<close>

fun loop_run :: "('s \<Rightarrow> 'a \<Rightarrow> ('r + 's) run) \<Rightarrow> 's \<Rightarrow> 'a list \<Rightarrow> ('r + 's) run" where
  "loop_run body s [] = Ret (Inr s)"
| "loop_run body s (x # xs) =
     bind_run (body s x) (\<lambda>r. case r of Inl v \<Rightarrow> Ret (Inl v) | Inr s1 \<Rightarrow> loop_run body s1 xs)"

definition counter_values :: "u64 \<Rightarrow> u64 \<Rightarrow> u64 list" where
  "counter_values a b = map of_nat [unat a ..< Suc (unat b)]"

lemma loop_run_Cons_Inr [run_simps]:
  "loop_run body s (x # xs) = Ret (Inr s') \<longleftrightarrow> (\<exists>s1. body s x = Ret (Inr s1) \<and> loop_run body s1 xs = Ret (Inr s'))"
proof
  assume "loop_run body s (x # xs) = Ret (Inr s')"
  then obtain r where "body s x = Ret r" "(case r of Inl v \<Rightarrow> Ret (Inl v) | Inr s1 \<Rightarrow> loop_run body s1 xs) = Ret (Inr s')"
    by (auto simp: run_simps)
  then show "\<exists>s1. body s x = Ret (Inr s1) \<and> loop_run body s1 xs = Ret (Inr s')" by (cases r) auto
qed (auto simp: run_simps)

text \<open>What holds of every state a loop goes through.\<close>

lemma loop_run_invariant:
  assumes "loop_run body s xs = Ret (Inr s')" "I s"
    and "\<And>s x s1. x \<in> set xs \<Longrightarrow> I s \<Longrightarrow> body s x = Ret (Inr s1) \<Longrightarrow> I s1"
  shows "I s'"
  using assms
proof (induction xs arbitrary: s)
  case (Cons x xs)
  from Cons.prems(1) obtain s1 where b: "body s x = Ret (Inr s1)" and l: "loop_run body s1 xs = Ret (Inr s')"
    by (auto simp: loop_run_Cons_Inr simp del: loop_run.simps)
  have i: "I s1" by (rule Cons.prems(3) [OF _ Cons.prems(2) b]) simp
  show ?case
  proof (rule Cons.IH [OF l i])
    fix y s s1
    assume "y \<in> set xs" "I s" "body s y = Ret (Inr s1)"
    then show "I s1" by (intro Cons.prems(3) [of y s s1]) auto
  qed
qed simp

text \<open>Two loops whose bodies agree up to a view of their states and results agree up to it.\<close>

lemma loop_run_related:
  assumes "\<And>s t x. x \<in> set xs \<Longrightarrow> g s = g' t \<Longrightarrow>
      bind_run (body s x) (\<lambda>r. Ret (map_sum f g r)) = bind_run (body' t x) (\<lambda>r. Ret (map_sum f' g' r))"
    and "g s = g' t"
  shows "bind_run (loop_run body s xs) (\<lambda>r. Ret (map_sum f g r)) = bind_run (loop_run body' t xs) (\<lambda>r. Ret (map_sum f' g' r))"
  using assms
proof (induction xs arbitrary: s t)
  case (Cons x xs)
  note b = Cons.prems(1) [OF _ Cons.prems(2), of x]
  have IH: "g s1 = g' t1 \<Longrightarrow> bind_run (loop_run body s1 xs) (\<lambda>r. Ret (map_sum f g r)) =
      bind_run (loop_run body' t1 xs) (\<lambda>r. Ret (map_sum f' g' r))" for s1 t1
    using Cons.IH Cons.prems(1) by simp
  show ?case
  proof (cases "body s x")
    case (Ret r)
    then obtain q where q: "body' t x = Ret q" "map_sum f g r = map_sum f' g' q"
      using b by (cases "body' t x") auto
    then show ?thesis using Ret IH by (cases r; cases q) auto
  qed (use b in \<open>cases "body' t x"; simp\<close>)+
qed simp

lemma loop_run_append:
  "loop_run body s (xs @ ys) =
   bind_run (loop_run body s xs) (\<lambda>r. case r of Inl v \<Rightarrow> Ret (Inl v) | Inr s1 \<Rightarrow> loop_run body s1 ys)"
proof (induction xs arbitrary: s)
  case (Cons x xs)
  show ?case
    by (cases "body s x") (auto simp: run_simps Cons split: sum.splits)
qed simp

text \<open>A loop whose body never returns from the function.\<close>

fun each_run :: "('s \<Rightarrow> 'a \<Rightarrow> 's run) \<Rightarrow> 's \<Rightarrow> 'a list \<Rightarrow> 's run" where
  "each_run body s [] = Ret s"
| "each_run body s (x # xs) = bind_run (body s x) (\<lambda>s1. each_run body s1 xs)"

subsection \<open>What a call guarantees when it returns\<close>

definition ensures :: "'a run \<Rightarrow> ('a \<Rightarrow> bool) \<Rightarrow> bool" where
  "ensures m Q \<longleftrightarrow> (\<forall>x. m = Ret x \<longrightarrow> Q x)"

lemma ensures_simps [simp]:
  "ensures (Ret x) Q \<longleftrightarrow> Q x" "ensures (Throw e) Q" "ensures Exit Q" "ensures Diverge Q" "ensures Undefined Q"
  "ensures (bind_run m f) Q \<longleftrightarrow> ensures m (\<lambda>x. ensures (f x) Q)"
  by (auto simp: ensures_def run_simps)

lemma ensures_mono: "ensures m P \<Longrightarrow> (\<And>x. P x \<Longrightarrow> Q x) \<Longrightarrow> ensures m Q"
  by (auto simp: ensures_def)

lemma ensures_True: "(\<And>x. Q x) \<Longrightarrow> ensures m Q"
  by (simp add: ensures_def)

lemma ensures_any: "(\<And>x. ensures (f x) Q) \<Longrightarrow> ensures m (\<lambda>x. ensures (f x) Q)"
  by (simp add: ensures_def)

lemma ensures_bind: "(\<And>x. ensures (f x) Q) \<Longrightarrow> ensures (bind_run m f) Q"
  by (auto simp: ensures_def run_simps)

lemma ensures_bind2: "ensures m P \<Longrightarrow> (\<And>x. P x \<Longrightarrow> ensures (f x) Q) \<Longrightarrow> ensures (bind_run m f) Q"
  by (auto intro: ensures_mono)

lemma ensures_loop:
  assumes "\<And>s x. x \<in> set xs \<Longrightarrow> I s \<Longrightarrow> ensures (body s x) (\<lambda>r. case r of Inl v \<Rightarrow> E v | Inr s1 \<Rightarrow> I s1)" and "I s"
  shows "ensures (loop_run body s xs) (\<lambda>r. case r of Inl v \<Rightarrow> E v | Inr s1 \<Rightarrow> I s1)"
  using assms
proof (induction xs arbitrary: s)
  case (Cons x xs)
  have b: "ensures (body s x) (\<lambda>r. case r of Inl v \<Rightarrow> E v | Inr s1 \<Rightarrow> I s1)" using Cons.prems by simp
  have "ensures (case r of Inl v \<Rightarrow> Ret (Inl v) | Inr s1 \<Rightarrow> loop_run body s1 xs) (\<lambda>r. case r of Inl v \<Rightarrow> E v | Inr s1 \<Rightarrow> I s1)"
    if "case r of Inl v \<Rightarrow> E v | Inr s1 \<Rightarrow> I s1" for r
    using that Cons.IH Cons.prems(1) by (cases r) auto
  with b show ?case by (auto intro: ensures_mono)
qed simp

lemma ensures_each:
  assumes "\<And>s x. x \<in> set xs \<Longrightarrow> I s \<Longrightarrow> ensures (body s x) I" and "I s"
  shows "ensures (each_run body s xs) I"
  using assms
proof (induction xs arbitrary: s)
  case (Cons x xs)
  have "ensures (body s x) I" using Cons.prems by simp
  moreover have "ensures (each_run body s1 xs) I" if "I s1" for s1
    using that Cons.IH Cons.prems(1) by simp
  ultimately show ?case by (auto intro: ensures_mono)
qed simp

subsection \<open>Lists\<close>

lemma takeWhile_neq_absent: "d \<notin> set s \<Longrightarrow> takeWhile (\<lambda>c. c \<noteq> d) s = s"
  by (induction s) auto

lemma length_takeWhile_neq_less:
  "d \<in> set s \<Longrightarrow> length (takeWhile (\<lambda>c. c \<noteq> d) s) < length s"
  by (induction s) auto

lemma drop_takeWhile_neq:
  "d \<in> set s \<Longrightarrow>
   drop (length (takeWhile (\<lambda>c. c \<noteq> d) s)) s = d # drop (Suc (length (takeWhile (\<lambda>c. c \<noteq> d) s))) s"
  by (induction s) auto

lemma take_takeWhile_neq:
  "take (length (takeWhile P s)) s = takeWhile P s"
  by (induction s) auto

text \<open>
  \<open>std::remove\<close>/\<open>erase\<close> of every occurrence, and membership after appending.
\<close>

lemma removeAll_notin [simp]: "x \<notin> set xs \<Longrightarrow> removeAll x xs = xs"
  by (induction xs) auto

lemma prefix_differs:
  "i < length p \<Longrightarrow> i < length q \<Longrightarrow> p ! i \<noteq> q ! i \<Longrightarrow> p @ x \<noteq> q @ y"
  by (metis nth_append)

subsection \<open>std::set with its own comparison\<close>

text \<open>
  A \<open>std::set\<close> with a comparison \<open>cmp\<close> is the list of its elements in that order. An element
  that compares neither less nor greater than one in the set is not inserted.
\<close>

fun set_insert :: "('a \<Rightarrow> 'a \<Rightarrow> bool) \<Rightarrow> 'a \<Rightarrow> 'a list \<Rightarrow> 'a list" where
  "set_insert cmp x [] = [x]"
| "set_insert cmp x (y # ys) =
     (if cmp x y then x # y # ys else if cmp y x then y # set_insert cmp x ys else y # ys)"

lemma set_insert_subset: "set (set_insert cmp x ys) \<subseteq> insert x (set ys)"
  by (induction cmp x ys rule: set_insert.induct) auto

lemma set_insert_keeps: "set ys \<subseteq> set (set_insert cmp x ys)"
  by (induction cmp x ys rule: set_insert.induct) auto

lemma set_insert_equivalent:
  "x \<in> set (set_insert cmp x ys) \<or> (\<exists>y\<in>set ys. \<not> cmp x y \<and> \<not> cmp y x)"
  by (induction cmp x ys rule: set_insert.induct) auto

subsection \<open>std::map\<close>

text \<open>
  A \<open>std::map\<close> is the list of its entries in iteration order, that is with strictly
  ascending keys (\<open>ordered_map\<close>); \<open>map_of\<close> is \<open>find\<close>, \<open>map_assign\<close> is
  assignment through \<open>operator[]\<close>, \<open>map_erase\<close> is \<open>erase\<close> by key.
\<close>

type_synonym ('k, 'v) std_map = "('k \<times> 'v) list"

definition ordered_map :: "('k::linorder, 'v) std_map \<Rightarrow> bool" where
  "ordered_map m \<longleftrightarrow> sorted_wrt (<) (map fst m)"

fun map_assign :: "'k::linorder \<Rightarrow> 'v \<Rightarrow> ('k, 'v) std_map \<Rightarrow> ('k, 'v) std_map" where
  "map_assign k v [] = [(k, v)]"
| "map_assign k v ((k', v') # m) =
     (if k < k' then (k, v) # (k', v') # m
      else if k = k' then (k, v) # m
      else (k', v') # map_assign k v m)"

definition map_erase :: "'k \<Rightarrow> ('k, 'v) std_map \<Rightarrow> ('k, 'v) std_map" where
  "map_erase k m = filter (\<lambda>e. fst e \<noteq> k) m"

lemma map_of_assign [simp]: "map_of (map_assign k v m) = (map_of m)(k \<mapsto> v)"
  by (induction k v m rule: map_assign.induct) auto

lemma map_of_erase [simp]: "map_of (map_erase k m) = (map_of m)(k := None)"
  by (induction m) (auto simp: map_erase_def)

lemma set_keys_assign: "fst ` set (map_assign k v m) = insert k (fst ` set m)"
  by (induction k v m rule: map_assign.induct) auto

lemma ordered_map_Nil [simp]: "ordered_map []"
  by (simp add: ordered_map_def)

lemma ordered_map_Cons:
  "ordered_map ((k, v) # m) \<longleftrightarrow> (\<forall>k'\<in>fst ` set m. k < k') \<and> ordered_map m"
  by (auto simp: ordered_map_def)

lemma ordered_map_assign [simp]: "ordered_map m \<Longrightarrow> ordered_map (map_assign k v m)"
proof (induction k v m rule: map_assign.induct)
  case (2 k v k' v' m)
  then show ?case by (auto simp: ordered_map_Cons set_keys_assign)
qed (simp add: ordered_map_def)

lemma ordered_map_erase [simp]: "ordered_map m \<Longrightarrow> ordered_map (map_erase k m)"
  by (induction m) (auto simp: map_erase_def ordered_map_Cons)

lemma ordered_map_distinct: "ordered_map m \<Longrightarrow> distinct (map fst m)"
  by (induction m) (fastforce simp: ordered_map_Cons)+

lemma set_assign_subset: "set (map_assign k v m) \<subseteq> insert (k, v) (set m)"
  by (induction k v m rule: map_assign.induct) auto

lemma set_ordered_assign:
  "ordered_map m \<Longrightarrow> set (map_assign k v m) = insert (k, v) {e \<in> set m. fst e \<noteq> k}"
proof (induction k v m rule: map_assign.induct)
  case (2 k v k' v' m)
  have o: "\<forall>x\<in>fst ` set m. k' < x" "ordered_map m" using 2(2) by (simp_all add: ordered_map_Cons)
  consider "k < k'" | "k = k'" | "k' < k" by (metis linorder_less_linear)
  then show ?case
  proof cases
    case 1
    then have "\<forall>e\<in>set ((k', v') # m). fst e \<noteq> k" using o(1) by fastforce
    then show ?thesis using 1 by auto
  next
    case c: 2
    then have "\<forall>e\<in>set m. fst e \<noteq> k" using o(1) by fastforce
    then show ?thesis using c by auto
  next
    case 3
    then have n: "\<not> k < k'" "k \<noteq> k'" by auto
    then show ?thesis using 2(1) [OF n o(2)] by auto
  qed
qed simp

end
