(* ===== verification/CxxString.thy ===== *)
theory CxxString
  imports Prelude
begin

text \<open>
  The string utilities of \<open>utils/string_util.cpp\<close> and the conversions of the C++
  standard library that the database layer relies on: \<open>std::to_string\<close>,
  \<open>std::stoul\<close>/\<open>std::stoull\<close> and \<open>std::stol\<close>.
\<close>

subsection \<open>Decimal conversion\<close>

definition digit_char :: "nat \<Rightarrow> char" where
  "digit_char n = char_of (48 + n)"

definition is_digit :: "char \<Rightarrow> bool" where
  "is_digit c \<longleftrightarrow> 48 \<le> (of_char c :: nat) \<and> (of_char c :: nat) \<le> 57"

definition digit_val :: "char \<Rightarrow> nat" where
  "digit_val c = of_char c - 48"

fun nat_to_string :: "nat \<Rightarrow> cxx_string" where
  "nat_to_string n =
     (if n < 10 then [digit_char n] else nat_to_string (n div 10) @ [digit_char (n mod 10)])"

declare nat_to_string.simps [simp del]

definition dec_val :: "cxx_string \<Rightarrow> nat" where
  "dec_val ds = foldl (\<lambda>n c. 10 * n + digit_val c) 0 ds"

text \<open>\<open>std::to_string\<close> on unsigned and on signed values.\<close>

definition to_string :: "'a::len word \<Rightarrow> cxx_string" where
  "to_string w = nat_to_string (unat w)"

definition to_string_signed :: "'a::len word \<Rightarrow> cxx_string" where
  "to_string_signed w =
     (if sint w < 0 then CHR ''-'' # nat_to_string (nat (- sint w)) else nat_to_string (nat (sint w)))"

definition is_space :: "char \<Rightarrow> bool" where
  "is_space c \<longleftrightarrow> (of_char c :: nat) \<in> {32, 9, 10, 11, 12, 13}"

text \<open>
  The common part of the \<open>sto...\<close> functions in base 10: skip white space, read an
  optional sign, then the longest run of digits; the rest of the string is ignored, and no
  digit at all is \<open>std::invalid_argument\<close>.
\<close>

definition split_sign :: "cxx_string \<Rightarrow> bool \<times> cxx_string" where
  "split_sign s = (case s of
      [] \<Rightarrow> (False, [])
    | c # cs \<Rightarrow> if c = CHR ''-'' then (True, cs) else if c = CHR ''+'' then (False, cs) else (False, s))"

definition stox :: "cxx_string \<Rightarrow> (bool \<times> nat) run" where
  "stox s =
     (let (neg, t) = split_sign (dropWhile is_space s);
          ds = takeWhile is_digit t
      in if ds = [] then Throw InvalidArgument else Ret (neg, dec_val ds))"

text \<open>
  \<open>std::stoul\<close> and \<open>std::stoull\<close> (both 64 bits wide on the supported Linux targets): a
  magnitude above \<open>2^64 - 1\<close> throws \<open>std::out_of_range\<close>, a minus sign negates modulo
  \<open>2^64\<close>.
\<close>

definition stoull :: "cxx_string \<Rightarrow> u64 run" where
  "stoull s = bind_run (stox s) (\<lambda>(neg, n).
     if 2 ^ 64 \<le> n then Throw OutOfRange else Ret (if neg then - of_nat n else of_nat n))"

definition stol :: "cxx_string \<Rightarrow> 64 word run" where
  "stol s = bind_run (stox s) (\<lambda>(neg, n).
     if (if neg then 2 ^ 63 < n else 2 ^ 63 \<le> n) then Throw OutOfRange
     else Ret (if neg then - of_nat n else of_nat n))"

lemma digit_char_props:
  assumes "n < 10"
  shows "is_digit (digit_char n)" "digit_val (digit_char n) = n" "\<not> is_space (digit_char n)"
    "digit_char n \<noteq> CHR ''-''" "digit_char n \<noteq> CHR ''+''" "digit_char n \<noteq> CHR ''_''"
proof -
  have of: "(of_char (digit_char n) :: nat) = 48 + n"
    using assms by (simp add: digit_char_def take_bit_eq_mod)
  then show "is_digit (digit_char n)" "digit_val (digit_char n) = n" "\<not> is_space (digit_char n)"
    using assms by (auto simp: is_digit_def digit_val_def is_space_def)
  have "(of_char (CHR ''-'') :: nat) = 45" "(of_char (CHR ''+'') :: nat) = 43"
    "(of_char (CHR ''_'') :: nat) = 95" by simp_all
  moreover have "(of_char (digit_char n) :: nat) \<noteq> 45" "(of_char (digit_char n) :: nat) \<noteq> 43"
    "(of_char (digit_char n) :: nat) \<noteq> 95" using of assms by linarith+
  ultimately show "digit_char n \<noteq> CHR ''-''" "digit_char n \<noteq> CHR ''+''"
    "digit_char n \<noteq> CHR ''_''" by metis+
qed

lemma nat_to_string_digits: "c \<in> set (nat_to_string n) \<Longrightarrow> is_digit c"
  by (induction n rule: nat_to_string.induct)
     (subst (asm) (2) nat_to_string.simps, auto split: if_splits intro: digit_char_props)

lemma nat_to_string_nonempty [simp]: "nat_to_string n \<noteq> []"
  by (subst nat_to_string.simps) simp

lemma dec_val_snoc: "dec_val (ds @ [c]) = 10 * dec_val ds + digit_val c"
  by (simp add: dec_val_def)

lemma dec_val_nat_to_string [simp]: "dec_val (nat_to_string n) = n"
proof (induction n rule: nat_to_string.induct)
  case (1 n)
  show ?case
  proof (cases "n < 10")
    case True
    then show ?thesis
      by (subst nat_to_string.simps) (simp add: dec_val_def digit_char_props)
  next
    case False
    with 1 show ?thesis
      by (subst nat_to_string.simps) (simp add: dec_val_snoc digit_char_props)
  qed
qed

lemma nat_to_string_inject [simp]: "nat_to_string m = nat_to_string n \<longleftrightarrow> m = n"
  by (metis dec_val_nat_to_string)

lemma to_string_inject [simp]: "to_string v = to_string w \<longleftrightarrow> v = w"
  by (simp add: to_string_def word_unat_eq_iff)

lemma is_digit_not:
  assumes "is_digit c"
  shows "\<not> is_space c" "c \<noteq> CHR ''-''" "c \<noteq> CHR ''+''" "c \<noteq> CHR ''_''"
  using assms by (auto simp: is_digit_def is_space_def)

lemma to_string_nonempty [simp]: "to_string w \<noteq> []"
  by (simp add: to_string_def)

lemma to_string_no_sep [simp]: "CHR ''_'' \<notin> set (to_string w)"
  using nat_to_string_digits is_digit_not(4) by (auto simp: to_string_def)

lemma stox_digits:
  assumes "ds \<noteq> []" "\<And>c. c \<in> set ds \<Longrightarrow> is_digit c"
  shows "stox ds = Ret (False, dec_val ds)"
proof -
  from assms obtain c cs where ds: "ds = c # cs" and c: "is_digit c"
    by (cases ds) auto
  have "dropWhile is_space ds = ds" using is_digit_not(1) [OF c] ds by simp
  moreover have "split_sign ds = (False, ds)"
    using is_digit_not(2,3) [OF c] by (simp add: split_sign_def ds)
  moreover have "takeWhile is_digit ds = ds" using assms(2) by (simp add: takeWhile_eq_all_conv)
  ultimately show ?thesis using assms(1)
    by (simp only: stox_def Let_def prod.case if_False)
qed

lemma stox_nat_to_string [simp]: "stox (nat_to_string n) = Ret (False, n)"
  using stox_digits [of "nat_to_string n"] nat_to_string_digits by simp

lemma stoull_to_string [simp]:
  assumes "LENGTH('a::len) \<le> 64"
  shows "stoull (to_string (w :: 'a word)) = Ret (ucast w)"
proof -
  have "unat w < 2 ^ LENGTH('a)" by (rule unsigned_less)
  also have "(2::nat) ^ LENGTH('a) \<le> 2 ^ 64" using assms by (intro power_increasing) auto
  finally have "\<not> 2 ^ 64 \<le> unat w" by simp
  then show ?thesis
    by (simp add: stoull_def to_string_def)
qed

lemma takeWhile_nat_to_string [simp]: "takeWhile is_digit (nat_to_string n) = nat_to_string n"
  using nat_to_string_digits by (simp add: takeWhile_eq_all_conv)

lemma stox_minus [simp]: "stox (CHR ''-'' # nat_to_string n) = Ret (True, n)"
  by (simp add: stox_def split_sign_def is_space_def)

lemma stol_to_string_signed [simp]: "stol (to_string_signed w) = Ret (w :: 64 word)"
proof (cases "sint w < 0")
  case True
  have lo: "- (2 ^ 63) \<le> sint w" using sint_greater_eq [of w] by simp
  have "(of_nat (nat (- sint w)) :: 64 word) = of_int (- sint w)"
    using True by (intro of_nat_nat) simp
  then have "(of_nat (nat (- sint w)) :: 64 word) = - w" by simp
  moreover have "\<not> 2 ^ 63 < nat (- sint w)" using lo by (simp add: zless_nat_eq_int_zless)
  ultimately show ?thesis using True
    by (simp add: stol_def to_string_signed_def)
next
  case False
  have hi: "sint w < 2 ^ 63" using sint_lt [of w] by simp
  have "(of_nat (nat (sint w)) :: 64 word) = of_int (sint w)"
    using False by (intro of_nat_nat) simp
  then have "(of_nat (nat (sint w)) :: 64 word) = w" by simp
  moreover have "\<not> 2 ^ 63 \<le> nat (sint w)" using hi False by (simp add: le_nat_iff)
  ultimately show ?thesis using False
    by (simp add: stol_def to_string_signed_def)
qed

subsection \<open>std::string::find and the splitters of StringUtil\<close>

text \<open>
  \<open>s.find(c, pos)\<close>: the first position at or after \<open>pos\<close> where \<open>c\<close> occurs,
  \<open>None\<close> for \<open>npos\<close>.
\<close>

function find_from :: "cxx_string \<Rightarrow> cxx_string \<Rightarrow> nat \<Rightarrow> nat option" where
  "find_from s c pos =
     (if length s < pos + length c then None
      else if take (length c) (drop pos s) = c then Some pos
      else find_from s c (Suc pos))"
  by pat_completeness auto
termination
  by (relation "measure (\<lambda>(s, c, pos). Suc (length s) - pos)") auto

declare find_from.simps [simp del]

text \<open>
  \<open>SplitString(s, c, v)\<close> appends to \<open>v\<close> the non-empty pieces of \<open>s\<close> between occurrences
  of \<open>c\<close>. The loop carries \<open>pos1\<close>, \<open>pos2\<close> and \<open>v\<close>; with an empty delimiter
  it never returns, which is the value \<open>None\<close>.
\<close>

definition push_nonempty :: "cxx_string list \<Rightarrow> cxx_string \<Rightarrow> cxx_string list" where
  "push_nonempty v str = (if str \<noteq> [] then v @ [str] else v)"

partial_function (option) SplitString_loop ::
    "cxx_string \<Rightarrow> cxx_string \<Rightarrow> nat \<Rightarrow> nat option \<Rightarrow> cxx_string list \<Rightarrow> cxx_string list option" where
  "SplitString_loop s c pos1 pos2 v =
     (case pos2 of
        Some p2 \<Rightarrow>
          SplitString_loop s c (p2 + length c) (find_from s c (p2 + length c))
            (push_nonempty v (take (p2 - pos1) (drop pos1 s)))
      | None \<Rightarrow>
          Some (if pos1 \<noteq> length s then push_nonempty v (drop pos1 s) else v))"

definition SplitString :: "cxx_string \<Rightarrow> cxx_string \<Rightarrow> cxx_string list \<Rightarrow> cxx_string list option" where
  "SplitString s c v = SplitString_loop s c 0 (find_from s c 0) v"

text \<open>\<open>SplitStringToSet\<close> is the same loop, inserting into a set.\<close>

definition insert_nonempty :: "cxx_string set \<Rightarrow> cxx_string \<Rightarrow> cxx_string set" where
  "insert_nonempty v str = (if str \<noteq> [] then insert str v else v)"

partial_function (option) SplitStringToSet_loop ::
    "cxx_string \<Rightarrow> cxx_string \<Rightarrow> nat \<Rightarrow> nat option \<Rightarrow> cxx_string set \<Rightarrow> cxx_string set option" where
  "SplitStringToSet_loop s c pos1 pos2 v =
     (case pos2 of
        Some p2 \<Rightarrow>
          SplitStringToSet_loop s c (p2 + length c) (find_from s c (p2 + length c))
            (insert_nonempty v (take (p2 - pos1) (drop pos1 s)))
      | None \<Rightarrow>
          Some (if pos1 \<noteq> length s then insert_nonempty v (drop pos1 s) else v))"

definition SplitStringToSet :: "cxx_string \<Rightarrow> cxx_string \<Rightarrow> cxx_string set \<Rightarrow> cxx_string set option" where
  "SplitStringToSet s c v = SplitStringToSet_loop s c 0 (find_from s c 0) v"

text \<open>
  The overload into a \<open>std::multimap\<close>: each piece is cut at its first hyphen; without a
  hyphen both halves are the whole piece (\<open>npos + 1\<close> is 0). The piece after the last
  delimiter is read only when there is no delimiter at all. A multimap is the list of its
  entries in iteration order: ascending keys, equal keys in insertion order.
\<close>

type_synonym multimap = "(cxx_string \<times> cxx_string) list"

fun insert_multimap :: "cxx_string \<times> cxx_string \<Rightarrow> multimap \<Rightarrow> multimap" where
  "insert_multimap kv [] = [kv]"
| "insert_multimap kv (e # es) =
     (if fst kv < fst e then kv # e # es else e # insert_multimap kv es)"

definition cut_hyphen :: "cxx_string \<Rightarrow> cxx_string \<times> cxx_string" where
  "cut_hyphen keyValue = (case find_from keyValue ''-'' 0 of
      None \<Rightarrow> (keyValue, keyValue)
    | Some h \<Rightarrow> (take h keyValue, drop (Suc h) keyValue))"

partial_function (option) SplitString_mm_loop ::
    "cxx_string \<Rightarrow> cxx_string \<Rightarrow> nat \<Rightarrow> nat option \<Rightarrow> nat \<Rightarrow> multimap \<Rightarrow> multimap option" where
  "SplitString_mm_loop str delim pos1 pos2 count result =
     (case pos2 of
        Some p2 \<Rightarrow>
          SplitString_mm_loop str delim (p2 + length delim) (find_from str delim (p2 + length delim))
            (Suc count) (insert_multimap (cut_hyphen (take (p2 - pos1) (drop pos1 str))) result)
      | None \<Rightarrow>
          Some (if count = 0 then insert_multimap (cut_hyphen (drop pos1 str)) result else result))"

definition SplitString_mm :: "cxx_string \<Rightarrow> cxx_string \<Rightarrow> multimap \<Rightarrow> multimap option" where
  "SplitString_mm str delim result = SplitString_mm_loop str delim 0 (find_from str delim 0) 0 result"

subsection \<open>The specification: cutting a string at a character\<close>

fun pieces :: "char \<Rightarrow> cxx_string \<Rightarrow> cxx_string list" where
  "pieces d [] = [[]]"
| "pieces d (x # xs) =
     (if x = d then [] # pieces d xs
      else case pieces d xs of [] \<Rightarrow> [[x]] | p # ps \<Rightarrow> (x # p) # ps)"

definition tokens :: "char \<Rightarrow> cxx_string \<Rightarrow> cxx_string list" where
  "tokens d s = filter (\<lambda>p. p \<noteq> []) (pieces d s)"

lemma pieces_nonempty [simp]: "pieces d s \<noteq> []"
  by (cases s) (auto split: list.splits)

lemma pieces_absent: "d \<notin> set s \<Longrightarrow> pieces d s = [s]"
  by (induction s) auto

lemma pieces_append:
  "d \<notin> set p \<Longrightarrow> pieces d (p @ d # s) = p # pieces d s"
  by (induction p) auto

lemma pieces_unfold:
  "pieces d s =
     (if d \<in> set s
      then takeWhile (\<lambda>c. c \<noteq> d) s # pieces d (drop (Suc (length (takeWhile (\<lambda>c. c \<noteq> d) s))) s)
      else [s])"
proof (cases "d \<in> set s")
  case True
  let ?p = "takeWhile (\<lambda>c. c \<noteq> d) s"
  have "s = ?p @ drop (length ?p) s"
    by (metis take_takeWhile_neq append_take_drop_id)
  with drop_takeWhile_neq [OF True] have "s = ?p @ d # drop (Suc (length ?p)) s" by simp
  moreover have "d \<notin> set ?p" by (auto dest: set_takeWhileD)
  ultimately show ?thesis using True pieces_append [of d ?p] by metis
qed (simp add: pieces_absent)

lemma find_from_char:
  assumes "pos \<le> length s"
  shows "find_from s [d] pos =
    (if d \<in> set (drop pos s) then Some (pos + length (takeWhile (\<lambda>c. c \<noteq> d) (drop pos s))) else None)"
  using assms
proof (induction s "[d]" pos rule: find_from.induct)
  case (1 s pos)
  show ?case
  proof (cases "pos = length s")
    case True
    then show ?thesis by (simp add: find_from.simps)
  next
    case False
    with "1.prems" have less: "pos < length s" by simp
    then have drop: "drop pos s = s ! pos # drop (Suc pos) s" by (rule Cons_nth_drop_Suc [symmetric])
    show ?thesis
      using 1 less by (subst find_from.simps) (auto simp: drop take_Suc)
  qed
qed

lemma find_from_char_le:
  "pos \<le> length s \<Longrightarrow> find_from s [d] pos = Some p \<Longrightarrow> pos \<le> p \<and> p < length s"
  using length_takeWhile_neq_less [of d "drop pos s"]
  by (auto simp: find_from_char split: if_splits)

lemma SplitString_loop_char:
  assumes "pos \<le> length s"
  shows "SplitString_loop s [d] pos (find_from s [d] pos) v = Some (v @ tokens d (drop pos s))"
  using assms
proof (induction "length s - pos" arbitrary: pos v rule: less_induct)
  case less
  let ?t = "drop pos s" and ?w = "takeWhile (\<lambda>c. c \<noteq> d) (drop pos s)"
  show ?case
  proof (cases "d \<in> set ?t")
    case True
    have lt: "pos + length ?w < length s"
      using length_takeWhile_neq_less [OF True] less.prems by simp
    have "SplitString_loop s [d] pos (find_from s [d] pos) v =
        SplitString_loop s [d] (Suc (pos + length ?w)) (find_from s [d] (Suc (pos + length ?w)))
          (push_nonempty v ?w)"
      using True less.prems
      by (subst SplitString_loop.simps) (simp add: find_from_char take_takeWhile_neq)
    also have "\<dots> = Some (push_nonempty v ?w @ tokens d (drop (Suc (pos + length ?w)) s))"
      using lt by (intro less.hyps) auto
    also have "drop (Suc (pos + length ?w)) s = drop (Suc (length ?w)) ?t"
      by (simp add: add.commute)
    finally show ?thesis
      using True by (simp add: push_nonempty_def tokens_def pieces_unfold [of d ?t])
  next
    case False
    then show ?thesis using less.prems
      by (subst SplitString_loop.simps)
         (auto simp: find_from_char push_nonempty_def tokens_def pieces_absent)
  qed
qed

lemma SplitString_char [simp]: "SplitString s [d] v = Some (v @ tokens d s)"
  using SplitString_loop_char [of 0 s d v] by (simp add: SplitString_def)

lemma SplitStringToSet_loop_char:
  assumes "pos \<le> length s"
  shows "SplitStringToSet_loop s [d] pos (find_from s [d] pos) v = Some (v \<union> set (tokens d (drop pos s)))"
  using assms
proof (induction "length s - pos" arbitrary: pos v rule: less_induct)
  case less
  let ?t = "drop pos s" and ?w = "takeWhile (\<lambda>c. c \<noteq> d) (drop pos s)"
  show ?case
  proof (cases "d \<in> set ?t")
    case True
    have lt: "pos + length ?w < length s"
      using length_takeWhile_neq_less [OF True] less.prems by simp
    have "SplitStringToSet_loop s [d] pos (find_from s [d] pos) v =
        SplitStringToSet_loop s [d] (Suc (pos + length ?w)) (find_from s [d] (Suc (pos + length ?w)))
          (insert_nonempty v ?w)"
      using True less.prems
      by (subst SplitStringToSet_loop.simps) (simp add: find_from_char take_takeWhile_neq)
    also have "\<dots> = Some (insert_nonempty v ?w \<union> set (tokens d (drop (Suc (pos + length ?w)) s)))"
      using lt by (intro less.hyps) auto
    also have "drop (Suc (pos + length ?w)) s = drop (Suc (length ?w)) ?t"
      by (simp add: add.commute)
    finally show ?thesis
      using True by (auto simp: insert_nonempty_def tokens_def pieces_unfold [of d ?t])
  next
    case False
    then show ?thesis using less.prems
      by (subst SplitStringToSet_loop.simps)
         (auto simp: find_from_char insert_nonempty_def tokens_def pieces_absent)
  qed
qed

lemma SplitStringToSet_char [simp]: "SplitStringToSet s [d] v = Some (v \<union> set (tokens d s))"
  using SplitStringToSet_loop_char [of 0 s d v] by (simp add: SplitStringToSet_def)

text \<open>With an empty delimiter the loop never returns: \<open>find\<close> keeps finding it.\<close>

lemma find_from_empty: "pos \<le> length s \<Longrightarrow> find_from s [] pos = Some pos"
  by (simp add: find_from.simps)

lemma SplitString_empty_diverges: "SplitString s [] v = None"
proof (rule ccontr)
  assume "SplitString s [] v \<noteq> None"
  then obtain r where r: "SplitString_loop s [] 0 (Some 0) v = Some r"
    by (auto simp: SplitString_def find_from_empty)
  have "[] = ([] :: cxx_string) \<longrightarrow> (\<forall>p. Some 0 = Some p \<longrightarrow> p \<le> length s) \<longrightarrow> Some (0::nat) = None"
  proof (rule SplitString_loop.raw_induct
      [where P = "\<lambda>s c pos1 pos2 v r.
         c = [] \<longrightarrow> (\<forall>p. pos2 = Some p \<longrightarrow> p \<le> length s) \<longrightarrow> pos2 = None", OF _ r])
    fix f :: "cxx_string \<Rightarrow> cxx_string \<Rightarrow> nat \<Rightarrow> nat option \<Rightarrow> cxx_string list \<Rightarrow> cxx_string list option"
      and s c pos1 pos2 v r
    assume IH: "\<And>s c pos1 pos2 v r. f s c pos1 pos2 v = Some r \<Longrightarrow>
        c = [] \<longrightarrow> (\<forall>p. pos2 = Some p \<longrightarrow> p \<le> length s) \<longrightarrow> pos2 = None"
      and eq: "(case pos2 of
          Some p2 \<Rightarrow> f s c (p2 + length c) (find_from s c (p2 + length c))
            (push_nonempty v (take (p2 - pos1) (drop pos1 s)))
        | None \<Rightarrow> Some (if pos1 \<noteq> length s then push_nonempty v (drop pos1 s) else v)) = Some r"
    show "c = [] \<longrightarrow> (\<forall>p. pos2 = Some p \<longrightarrow> p \<le> length s) \<longrightarrow> pos2 = None"
    proof (cases pos2)
      case (Some p2)
      from IH [of s c "p2 + length c" "find_from s c (p2 + length c)"] eq Some
      show ?thesis by (auto simp: find_from_empty)
    qed simp
  qed
  then show False by simp
qed

subsection \<open>Values separated by a trailing delimiter\<close>

text \<open>
  The value format of the database lists: every non-empty element followed by an underscore.
  It is what the rewriting loop of \<open>RocksDBReadWriter\<close> produces.
\<close>

fun join_us :: "cxx_string list \<Rightarrow> cxx_string" where
  "join_us [] = []"
| "join_us (v # vs) = (if v = [] then join_us vs else v @ CHR ''_'' # join_us vs)"

lemma tokens_join_us:
  "(\<And>v. v \<in> set vs \<Longrightarrow> CHR ''_'' \<notin> set v) \<Longrightarrow>
   tokens (CHR ''_'') (join_us vs) = filter (\<lambda>v. v \<noteq> []) vs"
  by (induction vs) (auto simp: tokens_def pieces_append)

lemma pieces_no_sep: "p \<in> set (pieces d s) \<Longrightarrow> d \<notin> set p"
proof (induction d s arbitrary: p rule: pieces.induct)
  case (2 d x xs)
  then show ?case by (cases "pieces d xs") (auto split: if_splits)
qed simp

lemma tokens_props: "p \<in> set (tokens d s) \<Longrightarrow> p \<noteq> [] \<and> d \<notin> set p"
  by (auto simp: tokens_def dest: pieces_no_sep)

lemma tokens_absent: "d \<notin> set s \<Longrightarrow> s \<noteq> [] \<Longrightarrow> tokens d s = [s]"
  by (simp add: tokens_def pieces_absent)

lemma join_us_eq_Nil: "join_us vs = [] \<longleftrightarrow> (\<forall>v\<in>set vs. v = [])"
  by (induction vs) auto

lemma tokens_Nil [simp]: "tokens d [] = []"
  by (simp add: tokens_def)

text \<open>The multimap splitter: every piece but the last, or the only one.\<close>

definition mm_pieces :: "char \<Rightarrow> cxx_string \<Rightarrow> cxx_string list" where
  "mm_pieces d s = (if d \<in> set s then butlast (pieces d s) else [s])"

lemma SplitString_mm_loop_char:
  assumes "pos \<le> length s"
  shows "SplitString_mm_loop s [d] pos (find_from s [d] pos) n res =
    Some (fold insert_multimap
      (map cut_hyphen (if n = 0 \<and> d \<notin> set (drop pos s) then [drop pos s]
                       else butlast (pieces d (drop pos s)))) res)"
  using assms
proof (induction "length s - pos" arbitrary: pos n res rule: less_induct)
  case less
  let ?t = "drop pos s" and ?w = "takeWhile (\<lambda>c. c \<noteq> d) (drop pos s)"
  show ?case
  proof (cases "d \<in> set ?t")
    case True
    let ?r = "drop (Suc (pos + length ?w)) s"
    have lt: "pos + length ?w < length s"
      using length_takeWhile_neq_less [OF True] less.prems by simp
    have "SplitString_mm_loop s [d] pos (find_from s [d] pos) n res =
        SplitString_mm_loop s [d] (Suc (pos + length ?w)) (find_from s [d] (Suc (pos + length ?w)))
          (Suc n) (insert_multimap (cut_hyphen ?w) res)"
      using True less.prems
      by (subst SplitString_mm_loop.simps) (simp add: find_from_char take_takeWhile_neq)
    also have "\<dots> = Some (fold insert_multimap
        (map cut_hyphen (if Suc n = 0 \<and> d \<notin> set ?r then [?r] else butlast (pieces d ?r)))
        (insert_multimap (cut_hyphen ?w) res))"
      using lt by (intro less.hyps) auto
    also have "?r = drop (Suc (length ?w)) ?t"
      by (simp add: add.commute)
    finally show ?thesis
      using True by (simp add: pieces_unfold [of d ?t])
  next
    case False
    then show ?thesis using less.prems
      by (subst SplitString_mm_loop.simps) (auto simp: find_from_char pieces_absent)
  qed
qed

lemma SplitString_mm_char [simp]:
  "SplitString_mm s [d] res = Some (fold insert_multimap (map cut_hyphen (mm_pieces d s)) res)"
  using SplitString_mm_loop_char [of 0 s d 0 res] by (simp add: SplitString_mm_def mm_pieces_def)

lemma pieces_join_us:
  "(\<And>v. v \<in> set vs \<Longrightarrow> CHR ''_'' \<notin> set v) \<Longrightarrow>
   pieces (CHR ''_'') (join_us vs) = filter (\<lambda>v. v \<noteq> []) vs @ [[]]"
  by (induction vs) (auto simp: pieces_append)

lemma mm_pieces_join_us:
  assumes "\<And>v. v \<in> set vs \<Longrightarrow> CHR ''_'' \<notin> set v" and "join_us vs \<noteq> []"
  shows "mm_pieces (CHR ''_'') (join_us vs) = tokens (CHR ''_'') (join_us vs)"
proof -
  have "CHR ''_'' \<in> set (join_us vs)"
    using assms(2) by (induction vs) auto
  then show ?thesis using assms(1)
    by (simp add: mm_pieces_def pieces_join_us tokens_join_us)
qed

lemma cut_hyphen_append:
  assumes "CHR ''-'' \<notin> set a"
  shows "cut_hyphen (a @ CHR ''-'' # b) = (a, b)"
proof -
  have "takeWhile (\<lambda>c. c \<noteq> CHR ''-'') (a @ CHR ''-'' # b) = a"
    using assms by (induction a) auto
  then have "find_from (a @ CHR ''-'' # b) ''-'' 0 = Some (length a)"
    by (simp add: find_from_char)
  then show ?thesis by (simp add: cut_hyphen_def)
qed

lemma set_insert_multimap [simp]: "set (insert_multimap kv es) = insert kv (set es)"
  by (induction es) auto

lemma set_fold_insert_multimap [simp]:
  "set (fold insert_multimap kvs es) = set kvs \<union> set es"
  by (induction kvs arbitrary: es) auto

lemma sorted_insert_multimap:
  "sorted (map fst es) \<Longrightarrow> sorted (map fst (insert_multimap kv es))"
proof (induction es)
  case (Cons e es)
  then show ?case by (auto intro: less_imp_le order.strict_implies_order)
qed simp

text \<open>The remaining two functions of the file.\<close>

definition Trim :: "cxx_string \<Rightarrow> bool \<Rightarrow> bool \<Rightarrow> cxx_string" where
  "Trim str bLeft bRight =
     (let delims = '' '' @ [char_of (9::nat), char_of (13::nat), char_of (10::nat)];
          str1 = (if bRight then rev (dropWhile (\<lambda>c. c \<in> set delims) (rev str)) else str)
      in if bLeft then dropWhile (\<lambda>c. c \<in> set delims) str1 else str1)"

definition char_signed :: "char \<Rightarrow> int" where
  "char_signed c = sint (word_of_int (of_char c) :: 8 word)"

definition StringToNumber :: "cxx_string \<Rightarrow> 64 word" where
  "StringToNumber s = foldl (\<lambda>number c. number + word_of_int (char_signed c)) 0 s"

end
