(* ===== verification/DbKeys.thy ===== *)
theory DbKeys
  imports CxxString
begin

text \<open>
  The key prefixes of \<open>db/db_api.cpp\<close>. Every record of the node's database is stored under
  one of these prefixes followed by its index; \<open>key_families\<close> lists them. No prefix is a prefix
  of another, so records of two families never share a key.
\<close>

named_theorems db_key_defs \<open>the key prefixes, unfolded\<close>

definition KAssetType :: cxx_string where "KAssetType = ''assetType_''"
definition KRevokeTxHash :: cxx_string where "KRevokeTxHash = ''revokeTxHash_''"
definition approveVote :: cxx_string where "approveVote = ''approveVote_''"
definition againstVoteFlag :: cxx_string where "againstVoteFlag = ''againstVote_''"
definition KVoteTxHash :: cxx_string where "KVoteTxHash = ''voteTxHash_''"
definition kLockAddrKey :: cxx_string where "kLockAddrKey = ''Lockaddr_''"
definition KAssetInfo :: cxx_string where "KAssetInfo = ''assetInfo_''"
definition KRevokeProposalInfo :: cxx_string where "KRevokeProposalInfo = ''revokeProposalInfo_''"
definition PROPOSAL_VOTES :: cxx_string where "PROPOSAL_VOTES = ''proposalVotes_''"
definition KRevokeProposalVotes :: cxx_string where "KRevokeProposalVotes = ''revokeProposalVotes_''"
definition KAddrAssetType :: cxx_string where "KAddrAssetType = ''addrAssetType_''"
definition PROPOSAL_CONTRACT_ADDRESS :: cxx_string where "PROPOSAL_CONTRACT_ADDRESS = ''proposalContractAddr_''"
definition KVoteName :: cxx_string where "KVoteName = ''voteName_''"
definition KTurnout :: cxx_string where "KTurnout = ''turnout_''"
definition BLOCK_HASH_TO_BLOCK_HEIGHT_KEY :: cxx_string where "BLOCK_HASH_TO_BLOCK_HEIGHT_KEY = ''blkhs2blkht_''"
definition kBlockHeightToBlockHashKey :: cxx_string where "kBlockHeightToBlockHashKey = ''blkht2blkhs_''"
definition BLOCK_HEIGHT_TO_SUM_HASH :: cxx_string where "BLOCK_HEIGHT_TO_SUM_HASH = ''blkht2sumhs_''"
definition K_TOP_THOUSAND_SUM_HASH_KEY :: cxx_string where "K_TOP_THOUSAND_SUM_HASH_KEY = ''topthousandsumhs_''"
definition kBlockHeight_2000_Sum_Hash :: cxx_string where "kBlockHeight_2000_Sum_Hash = ''thousandsblkht2sumhs_''"
definition K_BLOCK_HASH_TO_BLOCK_RAW_KEY :: cxx_string where "K_BLOCK_HASH_TO_BLOCK_RAW_KEY = ''blkhs2blkraw_''"
definition BLOCK_TOP_KEY_VALUE :: cxx_string where "BLOCK_TOP_KEY_VALUE = ''blktop_''"
definition ADDRESS_TO_UTXO_KEY :: cxx_string where "ADDRESS_TO_UTXO_KEY = ''addr2utxo_''"
definition TRANSACTION_HASH_TO_TRANSACTION_RAW_KEY :: cxx_string where "TRANSACTION_HASH_TO_TRANSACTION_RAW_KEY = ''txhs2txraw_''"
definition TRANSACTION_HASH_TO_BLOCK_HASH_KEY :: cxx_string where "TRANSACTION_HASH_TO_BLOCK_HASH_KEY = ''txhs2blkhs_''"
definition ADDRESS_TO_TRANSACTION_RAW_KEY :: cxx_string where "ADDRESS_TO_TRANSACTION_RAW_KEY = ''addr2txraw_''"
definition ADDRESS_TO_BLOCK_HASH_KEY :: cxx_string where "ADDRESS_TO_BLOCK_HASH_KEY = ''addr2blkhs_''"
definition ADDRESS_TO_TRANSACTION_TOP_KEY :: cxx_string where "ADDRESS_TO_TRANSACTION_TOP_KEY = ''addr2txtop_''"
definition kTimeTypeGasamountKey :: cxx_string where "kTimeTypeGasamountKey = ''timetypegasamount_''"
definition kTimeTypePackageCountKey :: cxx_string where "kTimeTypePackageCountKey = ''timetypepackagecount_''"
definition kTimeTypePackagerKey :: cxx_string where "kTimeTypePackagerKey = ''timetypepackager_''"
definition kTimeTxHashExchequerKey :: cxx_string where "kTimeTxHashExchequerKey = ''timetxhashexchequer_''"
definition ADDRESS_TO_BALANCE_KEY :: cxx_string where "ADDRESS_TO_BALANCE_KEY = ''addr2bal_''"
definition kStakeAddressKey :: cxx_string where "kStakeAddressKey = ''stakeaddr_''"
definition kMultiSignKey :: cxx_string where "kMultiSignKey = ''mutlisign_''"
definition BONUS_UTXO_KEY :: cxx_string where "BONUS_UTXO_KEY = ''bonusutxo_''"
definition kFundUtxoKey :: cxx_string where "kFundUtxoKey = ''fundutxo_''"
definition BONUS_ADDR_KEY :: cxx_string where "BONUS_ADDR_KEY = ''bonusaddr_''"
definition kBonusAddr2DelegatingAddrKey :: cxx_string where "kBonusAddr2DelegatingAddrKey = ''bonusaddr2delegatingaddr_''"
definition kDelegatingAddr2BonusAddrKey :: cxx_string where "kDelegatingAddr2BonusAddrKey = ''delegatingaddr2bonusaddr_''"
definition kBonusAddrDelegatingAddr2DelegatingAddrUtxo :: cxx_string where "kBonusAddrDelegatingAddr2DelegatingAddrUtxo = ''delegating_nodeaddr2delegatingaddrutxo_''"
definition kDelegatingUtxoKey :: cxx_string where "kDelegatingUtxoKey = ''delegatingutxo_''"
definition KDelegatingAddr2AssetTypeBalance :: cxx_string where "KDelegatingAddr2AssetTypeBalance = ''delegatingaddr2assettypebalance_''"
definition kDM :: cxx_string where "kDM = ''DM_''"
definition kTotaldelegateAmount :: cxx_string where "kTotaldelegateAmount = ''totaldelegateAmount_''"
definition kTotalLockedAmount :: cxx_string where "kTotalLockedAmount = ''totallockedamount_''"
definition kInitializationVersionKey :: cxx_string where "kInitializationVersionKey = ''initver_''"
definition kSignatureNumberKey :: cxx_string where "kSignatureNumberKey = ''signnumber_''"
definition BLOCK_NUMBER_KEY :: cxx_string where "BLOCK_NUMBER_KEY = ''blocknumber_''"
definition SIGN_ADDR_KEY :: cxx_string where "SIGN_ADDR_KEY = ''signaddr_''"
definition BURN_AMOUNT_KEY :: cxx_string where "BURN_AMOUNT_KEY = ''burnamount_''"
definition kEvmAllDeployerAddress :: cxx_string where "kEvmAllDeployerAddress = ''allevmdeployeraddr_''"
definition DEPLOYER_ADDR_TO_CONTRACT_ADDR :: cxx_string where "DEPLOYER_ADDR_TO_CONTRACT_ADDR = ''deployeraddr2contractaddr_''"
definition kContractAddrToContractCode :: cxx_string where "kContractAddrToContractCode = ''contractaddr2contractcode_''"
definition K_CONTRACT_ADDR_TO_DEPLOY_UTXO :: cxx_string where "K_CONTRACT_ADDR_TO_DEPLOY_UTXO = ''contractaddr2deployutxo_''"
definition kContractAddrToLatestUtxo :: cxx_string where "kContractAddrToLatestUtxo = ''contractaddr2latestutxo_''"
definition LATEST_CONTRACT_BLOCK_HASH :: cxx_string where "LATEST_CONTRACT_BLOCK_HASH = ''latestcontractblockhash_''"
definition kContractMptKey :: cxx_string where "kContractMptKey = ''contractmpt_''"

lemmas db_keys [db_key_defs] =
  KAssetType_def
  KRevokeTxHash_def
  approveVote_def
  againstVoteFlag_def
  KVoteTxHash_def
  kLockAddrKey_def
  KAssetInfo_def
  KRevokeProposalInfo_def
  PROPOSAL_VOTES_def
  KRevokeProposalVotes_def
  KAddrAssetType_def
  PROPOSAL_CONTRACT_ADDRESS_def
  KVoteName_def
  KTurnout_def
  BLOCK_HASH_TO_BLOCK_HEIGHT_KEY_def
  kBlockHeightToBlockHashKey_def
  BLOCK_HEIGHT_TO_SUM_HASH_def
  K_TOP_THOUSAND_SUM_HASH_KEY_def
  kBlockHeight_2000_Sum_Hash_def
  K_BLOCK_HASH_TO_BLOCK_RAW_KEY_def
  BLOCK_TOP_KEY_VALUE_def
  ADDRESS_TO_UTXO_KEY_def
  TRANSACTION_HASH_TO_TRANSACTION_RAW_KEY_def
  TRANSACTION_HASH_TO_BLOCK_HASH_KEY_def
  ADDRESS_TO_TRANSACTION_RAW_KEY_def
  ADDRESS_TO_BLOCK_HASH_KEY_def
  ADDRESS_TO_TRANSACTION_TOP_KEY_def
  kTimeTypeGasamountKey_def
  kTimeTypePackageCountKey_def
  kTimeTypePackagerKey_def
  kTimeTxHashExchequerKey_def
  ADDRESS_TO_BALANCE_KEY_def
  kStakeAddressKey_def
  kMultiSignKey_def
  BONUS_UTXO_KEY_def
  kFundUtxoKey_def
  BONUS_ADDR_KEY_def
  kBonusAddr2DelegatingAddrKey_def
  kDelegatingAddr2BonusAddrKey_def
  kBonusAddrDelegatingAddr2DelegatingAddrUtxo_def
  kDelegatingUtxoKey_def
  KDelegatingAddr2AssetTypeBalance_def
  kDM_def
  kTotaldelegateAmount_def
  kTotalLockedAmount_def
  kInitializationVersionKey_def
  kSignatureNumberKey_def
  BLOCK_NUMBER_KEY_def
  SIGN_ADDR_KEY_def
  BURN_AMOUNT_KEY_def
  kEvmAllDeployerAddress_def
  DEPLOYER_ADDR_TO_CONTRACT_ADDR_def
  kContractAddrToContractCode_def
  K_CONTRACT_ADDR_TO_DEPLOY_UTXO_def
  kContractAddrToLatestUtxo_def
  LATEST_CONTRACT_BLOCK_HASH_def
  kContractMptKey_def

definition key_families :: "cxx_string list" where
  "key_families = [
   KAssetType, KRevokeTxHash, approveVote,
   againstVoteFlag, KVoteTxHash, kLockAddrKey,
   KAssetInfo, KRevokeProposalInfo, PROPOSAL_VOTES,
   KRevokeProposalVotes, KAddrAssetType, PROPOSAL_CONTRACT_ADDRESS,
   KVoteName, KTurnout, BLOCK_HASH_TO_BLOCK_HEIGHT_KEY,
   kBlockHeightToBlockHashKey, BLOCK_HEIGHT_TO_SUM_HASH, K_TOP_THOUSAND_SUM_HASH_KEY,
   kBlockHeight_2000_Sum_Hash, K_BLOCK_HASH_TO_BLOCK_RAW_KEY, BLOCK_TOP_KEY_VALUE,
   ADDRESS_TO_UTXO_KEY, TRANSACTION_HASH_TO_TRANSACTION_RAW_KEY, TRANSACTION_HASH_TO_BLOCK_HASH_KEY,
   ADDRESS_TO_TRANSACTION_RAW_KEY, ADDRESS_TO_BLOCK_HASH_KEY, ADDRESS_TO_TRANSACTION_TOP_KEY,
   kTimeTypeGasamountKey, kTimeTypePackageCountKey, kTimeTypePackagerKey,
   kTimeTxHashExchequerKey, ADDRESS_TO_BALANCE_KEY, kStakeAddressKey,
   kMultiSignKey, BONUS_UTXO_KEY, kFundUtxoKey,
   BONUS_ADDR_KEY, kBonusAddr2DelegatingAddrKey, kDelegatingAddr2BonusAddrKey,
   kBonusAddrDelegatingAddr2DelegatingAddrUtxo, kDelegatingUtxoKey, KDelegatingAddr2AssetTypeBalance,
   kDM, kTotaldelegateAmount, kTotalLockedAmount,
   kInitializationVersionKey, kSignatureNumberKey, BLOCK_NUMBER_KEY,
   SIGN_ADDR_KEY, BURN_AMOUNT_KEY, kEvmAllDeployerAddress,
   DEPLOYER_ADDR_TO_CONTRACT_ADDR, kContractAddrToContractCode, K_CONTRACT_ADDR_TO_DEPLOY_UTXO,
   kContractAddrToLatestUtxo, LATEST_CONTRACT_BLOCK_HASH, kContractMptKey]"

subsection \<open>Families do not overlap\<close>

fun is_prefix :: "cxx_string \<Rightarrow> cxx_string \<Rightarrow> bool" where
  "is_prefix [] ys = True"
| "is_prefix (x # xs) [] = False"
| "is_prefix (x # xs) (y # ys) = (x = y \<and> is_prefix xs ys)"

lemma is_prefix_append: "p @ x = q @ y \<Longrightarrow> is_prefix p q \<or> is_prefix q p"
  by (induction p q rule: is_prefix.induct) auto

fun prefix_free :: "cxx_string list \<Rightarrow> bool" where
  "prefix_free [] = True"
| "prefix_free (p # ps) = (list_all (\<lambda>q. \<not> is_prefix p q \<and> \<not> is_prefix q p) ps \<and> prefix_free ps)"

lemma prefix_free_nth:
  "prefix_free ps \<Longrightarrow> i < j \<Longrightarrow> j < length ps \<Longrightarrow>
   \<not> is_prefix (ps ! i) (ps ! j) \<and> \<not> is_prefix (ps ! j) (ps ! i)"
proof (induction ps arbitrary: i j)
  case (Cons p ps)
  then show ?case by (cases i; cases j) (auto simp: list_all_iff)
qed simp

lemma prefix_free_families: "prefix_free key_families"
  unfolding key_families_def db_key_defs by code_simp

lemma family_keys_differ:
  assumes "i < length key_families" "j < length key_families" "i \<noteq> j"
  shows "key_families ! i @ x \<noteq> key_families ! j @ y"
proof -
  have "\<not> is_prefix (key_families ! i) (key_families ! j) \<and> \<not> is_prefix (key_families ! j) (key_families ! i)"
    using prefix_free_nth [OF prefix_free_families] assms by (metis linorder_neqE_nat)
  then show ?thesis using is_prefix_append by blast
qed

end
