(* ===== verification/RocksRw.thy ===== *)
theory RocksRw
  imports CxxString
begin

text \<open>
  \<open>db/rocksdb_read_write.cpp\<close> and \<open>db/rocksdb_read.cpp\<close>: the transactional
  reader/writer and the read-only reader over RocksDB. RocksDB itself is not part of the
  repository: it is the record \<open>'t rocks\<close> of its operations on a backend state \<open>'t\<close>
  (a database handle together with its open transaction), an argument of every definition.
  What the code relies on is the locale \<open>rocksdb\<close> at the end of the theory.
\<close>

subsection \<open>The RocksDB interface\<close>

text \<open>The distinctions the code makes on \<open>rocksdb::Status\<close>.\<close>

datatype rstatus = SOk | SNotFound | SAborted | SIOError | SOther

text \<open>
  A read answers a status and, when it assigns the output string, the string. \<open>rk_begin\<close> is
  \<open>None\<close> where \<open>BeginTransaction\<close> returns \<open>nullptr\<close>.
\<close>

record 't rocks =
  rk_begin :: "'t \<Rightarrow> 't option"
  rk_get :: "'t \<Rightarrow> cxx_string \<Rightarrow> rstatus \<times> cxx_string option"
  rk_get_for_update :: "'t \<Rightarrow> cxx_string \<Rightarrow> rstatus \<times> cxx_string option \<times> 't"
  rk_multi_get :: "'t \<Rightarrow> cxx_string list \<Rightarrow> rstatus list \<times> cxx_string list"
  rk_put :: "'t \<Rightarrow> cxx_string \<Rightarrow> cxx_string \<Rightarrow> rstatus \<times> 't"
  rk_delete :: "'t \<Rightarrow> cxx_string \<Rightarrow> rstatus \<times> 't"
  rk_commit :: "'t \<Rightarrow> rstatus \<times> 't"
  rk_rollback :: "'t \<Rightarrow> rstatus \<times> 't"
  rk_db_get :: "'t \<Rightarrow> cxx_string \<Rightarrow> rstatus \<times> cxx_string option"
  rk_db_multi_get :: "'t \<Rightarrow> cxx_string list \<Rightarrow> rstatus list \<times> cxx_string list"

definition assign_out :: "cxx_string option \<Rightarrow> cxx_string \<Rightarrow> cxx_string" where
  "assign_out out value = (case out of Some v \<Rightarrow> v | None \<Rightarrow> value)"

subsection \<open>RocksDBReadWriter\<close>

text \<open>
  The state of a \<open>RocksDBReadWriter\<close>: \<open>isInitSuccess()\<close> of the database it points to,
  whether \<open>txn_\<close> is non-null, and the backend.
\<close>

record 't rw =
  inited :: bool
  txn_open :: bool
  rk :: 't

definition transactionInit :: "'t rocks \<Rightarrow> 't rw \<Rightarrow> bool \<times> 't rw" where
  "transactionInit ops s = (case rk_begin ops (rk s) of
      None \<Rightarrow> (False, s\<lparr>txn_open := False\<rparr>)
    | Some t \<Rightarrow> (True, s\<lparr>txn_open := True, rk := t\<rparr>))"

definition transactionCommit :: "'t rocks \<Rightarrow> 't rw \<Rightarrow> bool \<times> rstatus \<times> 't rw" where
  "transactionCommit ops s =
     (if \<not> inited s then (False, SAborted, s)
      else if \<not> txn_open s then (False, SAborted, s)
      else let (st, t) = rk_commit ops (rk s)
           in if st \<noteq> SOk then (False, st, s\<lparr>rk := t\<rparr>)
              else (True, st, s\<lparr>rk := t, txn_open := False\<rparr>))"

text \<open>
  On success and on a failed rollback \<open>retStatus\<close> is left as the caller passed it: the code
  keeps the rollback's status in a local.
\<close>

definition transactionRollBack :: "'t rocks \<Rightarrow> 't rw \<Rightarrow> rstatus \<Rightarrow> bool \<times> rstatus \<times> 't rw" where
  "transactionRollBack ops s retStatus =
     (if \<not> inited s then (False, SAborted, s)
      else if \<not> txn_open s then (False, SAborted, s)
      else let (st, t) = rk_rollback ops (rk s)
           in if st \<noteq> SOk then (False, retStatus, s\<lparr>rk := t\<rparr>)
              else (True, retStatus, s\<lparr>rk := t, txn_open := False\<rparr>))"

text \<open>An input/output error destroys the database object and ends the process.\<close>

fun scan_statuses :: "rstatus list \<Rightarrow> bool \<Rightarrow> bool run" where
  "scan_statuses [] flag = Ret flag"
| "scan_statuses (st # sts) flag =
     (if st = SOk then scan_statuses sts flag
      else if st = SIOError then Exit
      else scan_statuses sts False)"

definition multiReadData ::
    "'t rocks \<Rightarrow> 't rw \<Rightarrow> cxx_string list \<Rightarrow> cxx_string list \<Rightarrow> (bool \<times> cxx_string list \<times> rstatus list) run" where
  "multiReadData ops s keys values =
     (if \<not> inited s then Ret (False, values, [SAborted])
      else if \<not> txn_open s then Ret (False, values, [SAborted])
      else if keys = [] then Ret (False, values, [SAborted])
      else let (sts, vals) = rk_multi_get ops (rk s) keys
           in bind_run (scan_statuses sts True) (\<lambda>flag. Ret (flag, vals, sts)))"

definition readData ::
    "'t rocks \<Rightarrow> 't rw \<Rightarrow> cxx_string \<Rightarrow> cxx_string \<Rightarrow> (bool \<times> cxx_string \<times> rstatus) run" where
  "readData ops s key value =
     (if \<not> inited s then Ret (False, value, SAborted)
      else if \<not> txn_open s then Ret (False, value, SAborted)
      else if key = [] then Ret (False, value, SAborted)
      else let (st, out) = rk_get ops (rk s) key
           in if st = SOk then Ret (True, assign_out out value, st)
              else if st = SIOError then Exit
              else Ret (False, assign_out out value, st))"

definition readForUpdate ::
    "'t rocks \<Rightarrow> 't rw \<Rightarrow> cxx_string \<Rightarrow> cxx_string \<Rightarrow> (bool \<times> cxx_string \<times> rstatus \<times> 't rw) run" where
  "readForUpdate ops s key value =
     (if \<not> inited s then Ret (False, value, SAborted, s)
      else if \<not> txn_open s then Ret (False, value, SAborted, s)
      else if key = [] then Ret (False, value, SAborted, s)
      else let (st, out, t) = rk_get_for_update ops (rk s) key
           in if st = SOk then Ret (True, assign_out out value, st, s\<lparr>rk := t\<rparr>)
              else if st = SIOError then Exit
              else Ret (False, assign_out out value, st, s\<lparr>rk := t\<rparr>))"

definition writeData ::
    "'t rocks \<Rightarrow> 't rw \<Rightarrow> cxx_string \<Rightarrow> cxx_string \<Rightarrow> bool \<times> rstatus \<times> 't rw" where
  "writeData ops s key value =
     (if \<not> inited s then (False, SAborted, s)
      else if \<not> txn_open s then (False, SAborted, s)
      else if key = [] then (False, SAborted, s)
      else if value = [] then (False, SAborted, s)
      else let (st, t) = rk_put ops (rk s) key value in (st = SOk, st, s\<lparr>rk := t\<rparr>))"

definition deleteData :: "'t rocks \<Rightarrow> 't rw \<Rightarrow> cxx_string \<Rightarrow> bool \<times> rstatus \<times> 't rw" where
  "deleteData ops s key =
     (if \<not> inited s then (False, SAborted, s)
      else if \<not> txn_open s then (False, SAborted, s)
      else if key = [] then (False, SAborted, s)
      else let (st, t) = rk_delete ops (rk s) key in (st = SOk, st, s\<lparr>rk := t\<rparr>))"

text \<open>
  \<open>mergeValue\<close> adds a value to the underscore-separated list stored under a key, at the
  front or at the back, unless it is there already; a fresh key stores the bare value.
\<close>

definition merge_list :: "cxx_string list \<Rightarrow> cxx_string \<Rightarrow> bool \<Rightarrow> cxx_string list" where
  "merge_list split_values value firstOrLast =
     (if value \<in> set split_values then split_values
      else if firstOrLast then [value] @ split_values
      else split_values @ [value])"

definition mergeValue ::
    "'t rocks \<Rightarrow> 't rw \<Rightarrow> cxx_string \<Rightarrow> cxx_string \<Rightarrow> bool \<Rightarrow> (bool \<times> rstatus \<times> 't rw) run" where
  "mergeValue ops s key value firstOrLast =
     (if \<not> inited s then Ret (False, SAborted, s)
      else if \<not> txn_open s then Ret (False, SAborted, s)
      else if key = [] then Ret (False, SAborted, s)
      else if value = [] then Ret (False, SAborted, s)
      else bind_run (readForUpdate ops s key []) (\<lambda>(ok, ret_value, st, s1).
        if ok then
          bind_run (run_of_option (SplitString ret_value ''_'' [])) (\<lambda>split_values.
            Ret (writeData ops s1 key (join_us (merge_list split_values value firstOrLast))))
        else if st = SNotFound then Ret (writeData ops s1 key value)
        else Ret (False, st, s1)))"

text \<open>\<open>removeMergeValue\<close> erases every occurrence, one \<open>std::find\<close> at a time.\<close>

function erase_all :: "cxx_string \<Rightarrow> cxx_string list \<Rightarrow> cxx_string list" where
  "erase_all value split_values =
     (if value \<in> set split_values then erase_all value (remove1 value split_values) else split_values)"
  by pat_completeness auto
termination
  by (relation "measure (\<lambda>(v, xs). length xs)") (auto simp: length_remove1 dest: length_pos_if_in_set)

declare erase_all.simps [simp del]

definition removeMergeValue ::
    "'t rocks \<Rightarrow> 't rw \<Rightarrow> cxx_string \<Rightarrow> cxx_string \<Rightarrow> (bool \<times> rstatus \<times> 't rw) run" where
  "removeMergeValue ops s key value =
     (if \<not> inited s then Ret (False, SAborted, s)
      else if \<not> txn_open s then Ret (False, SAborted, s)
      else if key = [] then Ret (False, SAborted, s)
      else if value = [] then Ret (False, SAborted, s)
      else bind_run (readForUpdate ops s key []) (\<lambda>(ok, ret_value, st, s1).
        if ok then
          bind_run (run_of_option (SplitString ret_value ''_'' [])) (\<lambda>split_values.
            let ret = join_us (erase_all value split_values)
            in if ret = [] then Ret (deleteData ops s1 key) else Ret (writeData ops s1 key ret))
        else if st = SNotFound then Ret (True, st, s1)
        else Ret (False, st, s1)))"

subsection \<open>RocksDBDataReader\<close>

definition reader_multiReadData ::
    "'t rocks \<Rightarrow> 't rw \<Rightarrow> cxx_string list \<Rightarrow> cxx_string list \<Rightarrow> (bool \<times> cxx_string list \<times> rstatus list) run" where
  "reader_multiReadData ops s keys values =
     (if \<not> inited s then Ret (False, values, [SAborted])
      else if keys = [] then Ret (False, values, [SAborted])
      else let (sts, vals) = rk_db_multi_get ops (rk s) keys
           in bind_run (scan_statuses sts True) (\<lambda>flag. Ret (flag, vals, sts)))"

definition reader_readData ::
    "'t rocks \<Rightarrow> 't rw \<Rightarrow> cxx_string \<Rightarrow> cxx_string \<Rightarrow> (bool \<times> cxx_string \<times> rstatus) run" where
  "reader_readData ops s key value =
     (if \<not> inited s then Ret (False, value, SAborted)
      else if key = [] then Ret (False, value, SAborted)
      else let (st, out) = rk_db_get ops (rk s) key
           in if st = SOk then Ret (True, assign_out out value, st)
              else if st = SIOError then Exit
              else Ret (False, assign_out out value, st))"

subsection \<open>What the code relies on: the documented behaviour of RocksDB\<close>

text \<open>
  \<open>view t\<close> is what the open transaction reads, \<open>committed t\<close> what the database holds.
  The laws are those of the RocksDB transaction documentation: a read that succeeds answers the
  value the transaction sees, \<open>NotFound\<close> means that there is none, a write that succeeds
  changes one key of the transaction's view and nothing of the database, a failed write changes
  nothing, a commit publishes the view, a rollback returns to the database, and a new transaction
  starts from it. No law says that an operation succeeds.
\<close>

locale rocksdb =
  fixes ops :: "'t rocks"
    and view :: "'t \<Rightarrow> cxx_string \<Rightarrow> cxx_string option"
    and committed :: "'t \<Rightarrow> cxx_string \<Rightarrow> cxx_string option"
  assumes get_law: "rk_get ops t k = (st, out) \<Longrightarrow>
      (st = SOk \<longrightarrow> out \<noteq> None \<and> view t k = out) \<and> (st = SNotFound \<longrightarrow> view t k = None)"
    and get_for_update_law: "rk_get_for_update ops t k = (st, out, t') \<Longrightarrow>
      (st = SOk \<longrightarrow> out \<noteq> None \<and> view t k = out) \<and> (st = SNotFound \<longrightarrow> view t k = None) \<and>
      view t' = view t \<and> committed t' = committed t"
    and put_law: "rk_put ops t k v = (st, t') \<Longrightarrow>
      view t' = (if st = SOk then (view t)(k \<mapsto> v) else view t) \<and> committed t' = committed t"
    and delete_law: "rk_delete ops t k = (st, t') \<Longrightarrow>
      view t' = (if st = SOk then (view t)(k := None) else view t) \<and> committed t' = committed t"
    and commit_law: "rk_commit ops t = (st, t') \<Longrightarrow>
      view t' = view t \<and> committed t' = (if st = SOk then view t else committed t)"
    and rollback_law: "rk_rollback ops t = (st, t') \<Longrightarrow>
      view t' = (if st = SOk then committed t else view t) \<and> committed t' = committed t"
    and begin_law: "rk_begin ops t = Some t' \<Longrightarrow>
      view t' = committed t \<and> committed t' = committed t"
    and db_get_law: "rk_db_get ops t k = (st, out) \<Longrightarrow>
      (st = SOk \<longrightarrow> out \<noteq> None \<and> committed t k = out) \<and> (st = SNotFound \<longrightarrow> committed t k = None)"

text \<open>
  A reference backend: a committed map and the transaction's own writes over it. It is used
  to show that the laws can hold and to run the model on concrete inputs.
\<close>

record memdb =
  mem_base :: "cxx_string \<Rightarrow> cxx_string option"
  mem_batch :: "cxx_string \<Rightarrow> cxx_string option option"

definition mem_view :: "memdb \<Rightarrow> cxx_string \<Rightarrow> cxx_string option" where
  "mem_view m k = (case mem_batch m k of Some w \<Rightarrow> w | None \<Rightarrow> mem_base m k)"

definition mem_answer :: "cxx_string option \<Rightarrow> rstatus \<times> cxx_string option" where
  "mem_answer w = (if w = None then (SNotFound, None) else (SOk, w))"

definition mem_rocks :: "memdb rocks" where
  "mem_rocks = \<lparr>
     rk_begin = (\<lambda>m. Some (m\<lparr>mem_batch := Map.empty\<rparr>)),
     rk_get = (\<lambda>m k. mem_answer (mem_view m k)),
     rk_get_for_update = (\<lambda>m k. (fst (mem_answer (mem_view m k)), snd (mem_answer (mem_view m k)), m)),
     rk_multi_get = (\<lambda>m ks. (map (\<lambda>k. fst (mem_answer (mem_view m k))) ks,
                             map (\<lambda>k. assign_out (mem_view m k) []) ks)),
     rk_put = (\<lambda>m k v. (SOk, m\<lparr>mem_batch := (mem_batch m)(k := Some (Some v))\<rparr>)),
     rk_delete = (\<lambda>m k. (SOk, m\<lparr>mem_batch := (mem_batch m)(k := Some None)\<rparr>)),
     rk_commit = (\<lambda>m. (SOk, \<lparr>mem_base = mem_view m, mem_batch = Map.empty\<rparr>)),
     rk_rollback = (\<lambda>m. (SOk, m\<lparr>mem_batch := Map.empty\<rparr>)),
     rk_db_get = (\<lambda>m k. mem_answer (mem_base m k)),
     rk_db_multi_get = (\<lambda>m ks. (map (\<lambda>k. fst (mem_answer (mem_base m k))) ks,
                                map (\<lambda>k. assign_out (mem_base m k) []) ks))\<rparr>"

interpretation mem: rocksdb mem_rocks mem_view mem_base
  by unfold_locales
     (auto simp: mem_rocks_def mem_view_def mem_answer_def fun_eq_iff split: if_splits option.splits)

subsection \<open>The lists behind the merged values\<close>

definition list_at :: "('k \<Rightarrow> cxx_string option) \<Rightarrow> 'k \<Rightarrow> cxx_string list" where
  "list_at m k = (case m k of None \<Rightarrow> [] | Some s \<Rightarrow> tokens (CHR ''_'') s)"

lemma erase_all_eq [simp]: "erase_all v xs = removeAll v xs"
proof (induction v xs rule: erase_all.induct)
  case (1 v xs)
  have "removeAll v (remove1 v xs) = removeAll v xs" by (induction xs) auto
  with 1 show ?case by (subst erase_all.simps) auto
qed

lemma tokens_join_tokens:
  assumes "set vs \<subseteq> insert v (set (tokens (CHR ''_'') s))" and "CHR ''_'' \<notin> set v" and "v \<noteq> []"
  shows "tokens (CHR ''_'') (join_us vs) = vs"
proof -
  have *: "w \<noteq> [] \<and> CHR ''_'' \<notin> set w" if "w \<in> set vs" for w
    using assms tokens_props that by blast
  then have "tokens (CHR ''_'') (join_us vs) = filter (\<lambda>w. w \<noteq> []) vs"
    by (intro tokens_join_us) auto
  with * show ?thesis by (simp add: filter_id_conv)
qed

lemma set_merge_list: "set (merge_list vs v f) = insert v (set vs)"
  by (auto simp: merge_list_def)

lemma merge_list_distinct: "distinct vs \<Longrightarrow> distinct (merge_list vs v f)"
  by (auto simp: merge_list_def)

text \<open>
  The values \<open>mergeValue\<close> leaves under a key: a bare element, or elements each followed by
  the separator. On these the two splitters of \<open>StringUtil\<close> see the same elements.
\<close>

definition merged_value :: "cxx_string \<Rightarrow> bool" where
  "merged_value s \<longleftrightarrow> s \<noteq> [] \<and>
     (CHR ''_'' \<notin> set s \<or> s = join_us (tokens (CHR ''_'') s))"

lemma merged_value_bare: "v \<noteq> [] \<Longrightarrow> CHR ''_'' \<notin> set v \<Longrightarrow> merged_value v"
  by (simp add: merged_value_def)

lemma merged_value_join:
  assumes "set vs \<subseteq> insert v (set (tokens (CHR ''_'') s))" and "CHR ''_'' \<notin> set v" and "v \<noteq> []"
    and "vs \<noteq> []"
  shows "merged_value (join_us vs)"
proof -
  have "join_us vs \<noteq> []"
    using assms tokens_props by (fastforce simp: join_us_eq_Nil neq_Nil_conv)
  with tokens_join_tokens [OF assms(1-3)] show ?thesis by (simp add: merged_value_def)
qed

lemma merged_value_splitters_agree:
  assumes "merged_value s"
  shows "mm_pieces (CHR ''_'') s = tokens (CHR ''_'') s"
proof (cases "CHR ''_'' \<in> set s")
  case True
  with assms have "s = join_us (tokens (CHR ''_'') s)" "s \<noteq> []"
    by (auto simp: merged_value_def)
  moreover have "CHR ''_'' \<notin> set v" if "v \<in> set (tokens (CHR ''_'') s)" for v
    using tokens_props that by blast
  ultimately show ?thesis using mm_pieces_join_us [of "tokens (CHR ''_'') s"] by simp
next
  case False
  with assms show ?thesis by (simp add: mm_pieces_def merged_value_def tokens_absent)
qed

subsection \<open>The operations over a lawful RocksDB\<close>

text \<open>
  \<open>same_handle s s'\<close>: the object still points to the same open database and transaction;
  \<open>rw_view\<close> and \<open>rw_base\<close> are what it reads and what is committed.
\<close>

definition same_handle :: "'t rw \<Rightarrow> 't rw \<Rightarrow> bool" where
  "same_handle s s' \<longleftrightarrow> inited s' = inited s \<and> txn_open s' = txn_open s"

lemma same_handle_refl [simp]: "same_handle s s"
  by (simp add: same_handle_def)

lemma same_handle_rk [simp]: "same_handle s (s\<lparr>rk := t\<rparr>)"
  by (simp add: same_handle_def)

lemma same_handle_trans: "same_handle s s' \<Longrightarrow> same_handle s' s'' \<Longrightarrow> same_handle s s''"
  by (simp add: same_handle_def)

text \<open>A merge rewrites one key: to the bare value or to the joined, extended list.\<close>

definition merged_entry :: "cxx_string option \<Rightarrow> cxx_string \<Rightarrow> bool \<Rightarrow> cxx_string" where
  "merged_entry old value first = (case old of
      None \<Rightarrow> value
    | Some r \<Rightarrow> join_us (merge_list (tokens (CHR ''_'') r) value first))"

text \<open>A removal rewrites one key, or drops it when nothing is left.\<close>

definition removed_entry :: "cxx_string option \<Rightarrow> cxx_string \<Rightarrow> cxx_string option" where
  "removed_entry old value = (case old of
      None \<Rightarrow> None
    | Some r \<Rightarrow> (let ret = join_us (removeAll value (tokens (CHR ''_'') r))
               in if ret = [] then None else Some ret))"

context rocksdb
begin

text \<open>
  \<open>changes_to s s' m\<close>: the operation left the transaction with the view \<open>m\<close>, published
  nothing and kept the handle.
\<close>

definition changes_to :: "'t rw \<Rightarrow> 't rw \<Rightarrow> (cxx_string \<Rightarrow> cxx_string option) \<Rightarrow> bool" where
  "changes_to s s' m \<longleftrightarrow>
     view (rk s') = m \<and> committed (rk s') = committed (rk s) \<and> same_handle s s'"

lemma writeData_effect:
  assumes "writeData ops s key value = (ok, st, s')"
  shows "changes_to s s' (if ok then (view (rk s))(key \<mapsto> value) else view (rk s))"
    and "ok \<Longrightarrow> key \<noteq> [] \<and> value \<noteq> [] \<and> inited s \<and> txn_open s"
    and "ok \<longleftrightarrow> st = SOk"
  using assms put_law [of "rk s" key "value"]
  by (auto simp: writeData_def changes_to_def split: if_splits prod.splits)

lemma deleteData_effect:
  assumes "deleteData ops s key = (ok, st, s')"
  shows "changes_to s s' (if ok then (view (rk s))(key := None) else view (rk s))"
    and "ok \<Longrightarrow> key \<noteq> [] \<and> inited s \<and> txn_open s"
  using assms delete_law [of "rk s" key]
  by (auto simp: deleteData_def changes_to_def split: if_splits prod.splits)

lemma readData_effect:
  assumes "readData ops s key value = Ret (ok, value', st)"
  shows "ok \<Longrightarrow> view (rk s) key = Some value' \<and> key \<noteq> []"
    and "st = SNotFound \<Longrightarrow> view (rk s) key = None"
    and "ok \<longleftrightarrow> st = SOk"
  using assms get_law [of "rk s" key]
  by (auto simp: readData_def assign_out_def split: if_splits prod.splits option.splits)

lemma reader_readData_effect:
  assumes "reader_readData ops s key value = Ret (ok, value', st)"
  shows "ok \<Longrightarrow> committed (rk s) key = Some value' \<and> key \<noteq> []"
    and "st = SNotFound \<Longrightarrow> committed (rk s) key = None"
    and "ok \<longleftrightarrow> st = SOk"
  using assms db_get_law [of "rk s" key]
  by (auto simp: reader_readData_def assign_out_def split: if_splits prod.splits option.splits)

lemma readForUpdate_effect:
  assumes "readForUpdate ops s key value = Ret (ok, value', st, s')"
  shows "changes_to s s' (view (rk s))"
    and "ok \<Longrightarrow> view (rk s) key = Some value'"
    and "st = SNotFound \<Longrightarrow> view (rk s) key = None"
    and "ok \<longleftrightarrow> st = SOk"
  using assms get_for_update_law [of "rk s" key]
  by (auto simp: readForUpdate_def assign_out_def changes_to_def split: if_splits prod.splits option.splits)

lemma changes_to_trans:
  "changes_to s s1 m1 \<Longrightarrow> changes_to s1 s2 m2 \<Longrightarrow> changes_to s s2 m2"
  by (auto simp: changes_to_def intro: same_handle_trans)

lemma changes_to_view: "changes_to s s1 m \<Longrightarrow> view (rk s1) = m"
  by (simp add: changes_to_def)

lemma mergeValue_effect:
  assumes "mergeValue ops s key value first = Ret (ok, st, s')"
  shows "changes_to s s' (if ok then (view (rk s))(key \<mapsto> merged_entry (view (rk s) key) value first)
                          else view (rk s))"
    and "ok \<Longrightarrow> key \<noteq> [] \<and> value \<noteq> [] \<and> inited s \<and> txn_open s"
proof -
  show 1: "ok \<Longrightarrow> key \<noteq> [] \<and> value \<noteq> [] \<and> inited s \<and> txn_open s"
    using assms by (auto simp: mergeValue_def split: if_splits)
  show "changes_to s s' (if ok then (view (rk s))(key \<mapsto> merged_entry (view (rk s) key) value first)
                          else view (rk s))"
  proof (cases "inited s \<and> txn_open s \<and> key \<noteq> [] \<and> value \<noteq> []")
    case True
    with assms obtain rok r rst s1 where
      rd: "readForUpdate ops s key [] = Ret (rok, r, rst, s1)" and
      res: "(if rok then Ret (writeData ops s1 key (join_us (merge_list (tokens (CHR ''_'') r) value first)))
             else if rst = SNotFound then Ret (writeData ops s1 key value)
             else Ret (False, rst, s1)) = Ret (ok, st, s')"
      by (auto simp: mergeValue_def run_simps split: prod.splits cong: if_cong)
    note eff = readForUpdate_effect [OF rd]
    show ?thesis
    proof (cases "rok \<or> rst = SNotFound")
      case True
      then have "writeData ops s1 key (merged_entry (view (rk s) key) value first) = (ok, st, s')"
        using res eff(2,3) by (auto simp: merged_entry_def split: if_splits)
      from changes_to_trans [OF eff(1) writeData_effect(1) [OF this]] show ?thesis
        by (simp only: changes_to_view [OF eff(1)])
    next
      case False
      with res eff(1) show ?thesis by auto
    qed
  next
    case False
    with assms show ?thesis by (auto simp: mergeValue_def changes_to_def split: if_splits)
  qed
qed

lemma removeMergeValue_effect:
  assumes "removeMergeValue ops s key value = Ret (ok, st, s')"
  shows "changes_to s s' (if ok then (view (rk s))(key := removed_entry (view (rk s) key) value)
                          else view (rk s))"
    and "ok \<Longrightarrow> key \<noteq> [] \<and> value \<noteq> [] \<and> inited s \<and> txn_open s"
proof -
  show 1: "ok \<Longrightarrow> key \<noteq> [] \<and> value \<noteq> [] \<and> inited s \<and> txn_open s"
    using assms by (auto simp: removeMergeValue_def split: if_splits)
  show "changes_to s s' (if ok then (view (rk s))(key := removed_entry (view (rk s) key) value)
                          else view (rk s))"
  proof (cases "inited s \<and> txn_open s \<and> key \<noteq> [] \<and> value \<noteq> []")
    case True
    with assms obtain rok r rst s1 where
      rd: "readForUpdate ops s key [] = Ret (rok, r, rst, s1)" and
      res: "(if rok then
               (let ret = join_us (removeAll value (tokens (CHR ''_'') r))
                in if ret = [] then Ret (deleteData ops s1 key) else Ret (writeData ops s1 key ret))
             else if rst = SNotFound then Ret (True, rst, s1)
             else Ret (False, rst, s1)) = Ret (ok, st, s')"
      by (auto simp: removeMergeValue_def run_simps split: prod.splits cong: if_cong)
    note eff = readForUpdate_effect [OF rd]
    let ?ret = "join_us (removeAll value (tokens (CHR ''_'') r))"
    consider (empty) "rok" "?ret = []" | (rest) "rok" "?ret \<noteq> []" | (none) "\<not> rok" by blast
    then show ?thesis
    proof cases
      case empty
      then have "deleteData ops s1 key = (ok, st, s')" using res by (simp add: Let_def)
      from deleteData_effect(1) [OF this] eff(1,2) empty show ?thesis
        by (auto simp: removed_entry_def changes_to_view [OF eff(1)] intro: changes_to_trans)
    next
      case rest
      then have "writeData ops s1 key ?ret = (ok, st, s')" using res by (simp add: Let_def)
      from writeData_effect(1) [OF this] eff(1,2) rest show ?thesis
        by (auto simp: removed_entry_def Let_def changes_to_view [OF eff(1)] intro: changes_to_trans)
    next
      case none
      with res eff(1,3) show ?thesis
        by (auto simp: removed_entry_def fun_upd_idem split: if_splits)
    qed
  next
    case False
    with assms show ?thesis by (auto simp: removeMergeValue_def changes_to_def split: if_splits)
  qed
qed

end

end
