(* ===== verification/DbReader.thy ===== *)
theory DbReader
  imports DbKeys RocksRw
begin

text \<open>
  The class \<open>DBReader\<close> of \<open>db/db_api.cpp\<close>. Its getters call the virtual
  \<open>readData\<close> and \<open>multiReadData\<close>, so they take that method as an argument
  (\<open>reader\<close>, \<open>mreader\<close>): \<open>DBReader\<close> supplies the one that reads the committed
  database, \<open>DBReadWriter\<close> (theory \<open>DbWriter\<close>) the one that reads its transaction. An output
  parameter is an argument (what it held before the call) and a component of the result (what it
  holds after); the splitters append to the caller's vector as in the source.
\<close>

datatype DBStatus =
  DB_SUCCESS | DB_ERROR | DB_PARAM_NULL | DB_NOT_FOUND | DB_IS_EXIST | DB_DESERIALIZATION_FAILED

type_synonym reader = "cxx_string \<Rightarrow> cxx_string \<Rightarrow> (DBStatus \<times> cxx_string) run"
type_synonym mreader = "cxx_string list \<Rightarrow> cxx_string list \<Rightarrow> (DBStatus \<times> cxx_string list) run"

subsection \<open>DBReader's own reads\<close>

definition DBReader_readData :: "'t rocks \<Rightarrow> 't rw \<Rightarrow> reader" where
  "DBReader_readData ops s key value =
     (if key = [] then Ret (DB_PARAM_NULL, value)
      else bind_run (reader_readData ops s key value) (\<lambda>(ok, value1, st).
        if ok then Ret (DB_SUCCESS, value1)
        else if st = SNotFound then Ret (DB_NOT_FOUND, [])
        else Ret (DB_ERROR, value1)))"

definition DBReader_multiReadData :: "'t rocks \<Rightarrow> 't rw \<Rightarrow> mreader" where
  "DBReader_multiReadData ops s keys values =
     (if keys = [] then Ret (DB_PARAM_NULL, values)
      else bind_run (reader_multiReadData ops s keys values) (\<lambda>(ok, values1, sts).
        if ok then
          (if length keys \<noteq> length values1 then Ret (DB_ERROR, values1)
           else Ret (DB_SUCCESS, values1))
        else if SNotFound \<in> set sts then Ret (DB_NOT_FOUND, values1)
        else Ret (DB_ERROR, values1)))"

subsection \<open>The shapes of the getters\<close>

text \<open>Read a record and split, parse or copy it into the output when the read succeeds.\<close>

definition read_then ::
    "reader \<Rightarrow> cxx_string \<Rightarrow> (cxx_string \<Rightarrow> 'a run) \<Rightarrow> 'a \<Rightarrow> (DBStatus \<times> 'a) run" where
  "read_then rd db_key convert out =
     bind_run (rd db_key []) (\<lambda>(ret, value).
       if ret = DB_SUCCESS then bind_run (convert value) (\<lambda>x. Ret (ret, x)) else Ret (ret, out))"

definition read_list :: "reader \<Rightarrow> cxx_string \<Rightarrow> cxx_string list \<Rightarrow> (DBStatus \<times> cxx_string list) run" where
  "read_list rd db_key out =
     read_then rd db_key (\<lambda>value. run_of_option (SplitString value ''_'' out)) out"

definition read_set :: "reader \<Rightarrow> cxx_string \<Rightarrow> cxx_string set \<Rightarrow> (DBStatus \<times> cxx_string set) run" where
  "read_set rd db_key out =
     read_then rd db_key (\<lambda>value. run_of_option (SplitStringToSet value ''_'' out)) out"

definition read_multimap :: "reader \<Rightarrow> cxx_string \<Rightarrow> multimap \<Rightarrow> (DBStatus \<times> multimap) run" where
  "read_multimap rd db_key out =
     read_then rd db_key (\<lambda>value. run_of_option (SplitString_mm value ''_'' out)) out"

text \<open>\<open>stoul\<close> and \<open>stoull\<close>, converted to the width of the output variable.\<close>

definition read_unsigned :: "reader \<Rightarrow> cxx_string \<Rightarrow> 'a::len word \<Rightarrow> (DBStatus \<times> 'a word) run" where
  "read_unsigned rd db_key out =
     read_then rd db_key (\<lambda>value. bind_run (stoull value) (\<lambda>n. Ret (ucast n))) out"

definition read_signed :: "reader \<Rightarrow> cxx_string \<Rightarrow> 64 word \<Rightarrow> (DBStatus \<times> 64 word) run" where
  "read_signed rd db_key out = read_then rd db_key stol out"

definition read_version :: "reader \<Rightarrow> cxx_string \<Rightarrow> cxx_string \<Rightarrow> (DBStatus \<times> cxx_string) run" where
  "read_version rd db_key out = read_then rd db_key Ret out"

subsection \<open>Getters over several records\<close>

text \<open>
  The loop over the heights runs on a 64-bit counter; with \<open>endHeight = 2^64 - 1\<close> its guard
  never fails.
\<close>

partial_function (option) height_keys ::
    "u64 \<Rightarrow> u64 \<Rightarrow> cxx_string list \<Rightarrow> cxx_string list option" where
  "height_keys index_height endHeight keys =
     (if index_height \<le> endHeight
      then height_keys (index_height + 1) endHeight
             (keys @ [kBlockHeightToBlockHashKey @ to_string index_height])
      else Some keys)"

lemma height_keys_ends:
  "endHeight \<noteq> - 1 \<Longrightarrow> height_keys h endHeight ks =
     Some (ks @ map (\<lambda>n. kBlockHeightToBlockHashKey @ to_string (of_nat n :: u64)) [unat h ..< Suc (unat endHeight)])"
proof (induction "Suc (unat endHeight) - unat h" arbitrary: h ks rule: less_induct)
  case less
  show ?case
  proof (cases "h \<le> endHeight")
    case True
    have "h \<noteq> - 1" using True less.prems by (auto dest: word_order.extremum_uniqueI)
    then have "h + 1 \<noteq> 0" by (simp add: eq_neg_iff_add_eq_0)
    then have s: "unat (h + 1) = Suc (unat h)" using unatSuc [of h] by (simp add: add.commute)
    have le: "unat h \<le> unat endHeight" using True by (simp add: word_le_nat_alt)
    have "height_keys h endHeight ks = height_keys (h + 1) endHeight (ks @ [kBlockHeightToBlockHashKey @ to_string h])"
      using True by (subst height_keys.simps) simp
    also have "\<dots> = Some ((ks @ [kBlockHeightToBlockHashKey @ to_string h]) @
        map (\<lambda>n. kBlockHeightToBlockHashKey @ to_string (of_nat n :: u64)) [unat (h + 1) ..< Suc (unat endHeight)])"
      using less.prems le s by (intro less.hyps) auto
    also have "[unat h ..< Suc (unat endHeight)] = unat h # [Suc (unat h) ..< Suc (unat endHeight)]"
      using le by (subst upt_conv_Cons) auto
    ultimately show ?thesis by (simp add: s)
  next
    case False
    then have "unat endHeight < unat h" by (simp add: word_le_nat_alt)
    with False show ?thesis by (subst height_keys.simps) simp
  qed
qed

fun split_all :: "cxx_string list \<Rightarrow> cxx_string list \<Rightarrow> cxx_string list run" where
  "split_all [] blockHashes = Ret blockHashes"
| "split_all (value # vs) blockHashes =
     bind_run (run_of_option (SplitString value ''_'' [])) (\<lambda>hashes.
       split_all vs (blockHashes @ hashes))"

definition getBlockHashesByBlockHeight ::
    "mreader \<Rightarrow> u64 \<Rightarrow> u64 \<Rightarrow> cxx_string list \<Rightarrow> (DBStatus \<times> cxx_string list) run" where
  "getBlockHashesByBlockHeight mrd startHeight endHeight blockHashes =
     bind_run (run_of_option (height_keys startHeight endHeight [])) (\<lambda>keys.
     bind_run (mrd keys []) (\<lambda>(ret, values).
       if values = [] \<and> ret \<noteq> DB_SUCCESS then Ret (ret, blockHashes)
       else bind_run (split_all values []) (\<lambda>hs. Ret (ret, hs))))"

definition getBlocksByBlockHash ::
    "mreader \<Rightarrow> cxx_string list \<Rightarrow> cxx_string list \<Rightarrow> (DBStatus \<times> cxx_string list) run" where
  "getBlocksByBlockHash mrd blockHashes blocks =
     mrd (map (\<lambda>hash. K_BLOCK_HASH_TO_BLOCK_RAW_KEY @ hash) blockHashes) blocks"

subsection \<open>Getters of one record\<close>

definition getBlockHeightByBlockHash ::
    "reader \<Rightarrow> cxx_string \<Rightarrow> u32 \<Rightarrow> (DBStatus \<times> u32) run" where
  "getBlockHeightByBlockHash rd blockHash blockHeight =
     (if blockHash = [] then Ret (DB_PARAM_NULL, blockHeight) else let db_key = BLOCK_HASH_TO_BLOCK_HEIGHT_KEY @ blockHash in read_unsigned rd db_key blockHeight)"

definition getBlockHashsByBlockHeight ::
    "reader \<Rightarrow> u64 \<Rightarrow> cxx_string list \<Rightarrow> (DBStatus \<times> cxx_string list) run" where
  "getBlockHashsByBlockHeight rd blockHeight hashes =
     (let db_key = kBlockHeightToBlockHashKey @ to_string blockHeight in read_list rd db_key hashes)"

definition getBlockByBlockHash ::
    "reader \<Rightarrow> cxx_string \<Rightarrow> cxx_string \<Rightarrow> (DBStatus \<times> cxx_string) run" where
  "getBlockByBlockHash rd blockHash block =
     (if blockHash = [] then Ret (DB_PARAM_NULL, block) else let db_key = K_BLOCK_HASH_TO_BLOCK_RAW_KEY @ blockHash in rd db_key block)"

definition getSumHashByHeight ::
    "reader \<Rightarrow> u64 \<Rightarrow> cxx_string \<Rightarrow> (DBStatus \<times> cxx_string) run" where
  "getSumHashByHeight rd height sumHash =
     (if unat height mod 100 \<noteq> 0 \<or> height = 0 then Ret (DB_PARAM_NULL, sumHash) else let db_key = BLOCK_HEIGHT_TO_SUM_HASH @ to_string height in rd db_key sumHash)"

definition getCheckBlockHashsByBlockHeight ::
    "reader \<Rightarrow> u64 \<Rightarrow> cxx_string \<Rightarrow> (DBStatus \<times> cxx_string) run" where
  "getCheckBlockHashsByBlockHeight rd blockHeight sumHash =
     (if unat blockHeight mod 1000 \<noteq> 0 \<or> blockHeight = 0 then Ret (DB_PARAM_NULL, sumHash) else let db_key = kBlockHeight_2000_Sum_Hash @ to_string blockHeight in rd db_key sumHash)"

definition getTopThousandSumHash ::
    "reader \<Rightarrow> u64 \<Rightarrow> (DBStatus \<times> u64) run" where
  "getTopThousandSumHash rd thousandNum =
     (read_unsigned rd K_TOP_THOUSAND_SUM_HASH_KEY thousandNum)"

definition getBlockTop ::
    "reader \<Rightarrow> u64 \<Rightarrow> (DBStatus \<times> u64) run" where
  "getBlockTop rd blockHeight =
     (read_unsigned rd BLOCK_TOP_KEY_VALUE blockHeight)"

definition getUtxoHashsByAddress ::
    "reader \<Rightarrow> cxx_string \<Rightarrow> cxx_string list \<Rightarrow> (DBStatus \<times> cxx_string list) run" where
  "getUtxoHashsByAddress rd address utxoHashesList =
     (let db_key = ADDRESS_TO_UTXO_KEY @ address in read_list rd db_key utxoHashesList)"

definition getUtxoHashsByAddress_asset ::
    "reader \<Rightarrow> cxx_string \<Rightarrow> cxx_string \<Rightarrow> cxx_string list \<Rightarrow> (DBStatus \<times> cxx_string list) run" where
  "getUtxoHashsByAddress_asset rd address assetType utxoHashesList =
     (let db_key = ADDRESS_TO_UTXO_KEY @ address @ assetType in read_list rd db_key utxoHashesList)"

definition getUtxoValueByUtxoHashes ::
    "reader \<Rightarrow> cxx_string \<Rightarrow> cxx_string \<Rightarrow> cxx_string \<Rightarrow> (DBStatus \<times> cxx_string) run" where
  "getUtxoValueByUtxoHashes rd utxoHash address balance =
     (let db_key = address @ ''_'' @ utxoHash in rd db_key balance)"

definition getUtxoValueByUtxoHashes_asset ::
    "reader \<Rightarrow> cxx_string \<Rightarrow> cxx_string \<Rightarrow> cxx_string \<Rightarrow> cxx_string \<Rightarrow> (DBStatus \<times> cxx_string) run" where
  "getUtxoValueByUtxoHashes_asset rd utxoHash address assetType balance =
     (let db_key = address @ ''_'' @ utxoHash @ ''_'' @ assetType in rd db_key balance)"

definition getTransactionByHash ::
    "reader \<Rightarrow> cxx_string \<Rightarrow> cxx_string \<Rightarrow> (DBStatus \<times> cxx_string) run" where
  "getTransactionByHash rd txHash txRaw =
     (let db_key = TRANSACTION_HASH_TO_TRANSACTION_RAW_KEY @ txHash in rd db_key txRaw)"

definition getBlockHashByTransactionHash ::
    "reader \<Rightarrow> cxx_string \<Rightarrow> cxx_string \<Rightarrow> (DBStatus \<times> cxx_string) run" where
  "getBlockHashByTransactionHash rd txHash blockHash =
     (let db_key = TRANSACTION_HASH_TO_BLOCK_HASH_KEY @ txHash in rd db_key blockHash)"

definition getTransactionByAddress ::
    "reader \<Rightarrow> cxx_string \<Rightarrow> u32 \<Rightarrow> cxx_string \<Rightarrow> (DBStatus \<times> cxx_string) run" where
  "getTransactionByAddress rd address txNum txRaw =
     (let db_key = ADDRESS_TO_TRANSACTION_RAW_KEY @ address @ ''_'' @ to_string txNum in rd db_key txRaw)"

definition getBlockHashByAddress ::
    "reader \<Rightarrow> cxx_string \<Rightarrow> u32 \<Rightarrow> cxx_string \<Rightarrow> (DBStatus \<times> cxx_string) run" where
  "getBlockHashByAddress rd address txNum blockHash =
     (let db_key = ADDRESS_TO_BLOCK_HASH_KEY @ address @ ''_'' @ to_string txNum in rd db_key blockHash)"

definition getTransactionTopByAddress ::
    "reader \<Rightarrow> cxx_string \<Rightarrow> u32 \<Rightarrow> (DBStatus \<times> u32) run" where
  "getTransactionTopByAddress rd address txIndex =
     (let db_key = ADDRESS_TO_TRANSACTION_TOP_KEY @ address in read_unsigned rd db_key txIndex)"

definition getBalanceByAddr ::
    "reader \<Rightarrow> cxx_string \<Rightarrow> cxx_string \<Rightarrow> 64 word \<Rightarrow> (DBStatus \<times> 64 word) run" where
  "getBalanceByAddr rd address assetType balance =
     (let db_key = ADDRESS_TO_BALANCE_KEY @ address @ assetType in read_signed rd db_key balance)"

definition getStakeAddr ::
    "reader \<Rightarrow> cxx_string list \<Rightarrow> (DBStatus \<times> cxx_string list) run" where
  "getStakeAddr rd addresses =
     (read_list rd kStakeAddressKey addresses)"

definition getStakeAddrUtxo ::
    "reader \<Rightarrow> cxx_string \<Rightarrow> cxx_string \<Rightarrow> cxx_string list \<Rightarrow> (DBStatus \<times> cxx_string list) run" where
  "getStakeAddrUtxo rd address assetType utxos =
     (let db_key = kStakeAddressKey @ address @ assetType in read_list rd db_key utxos)"

definition getMutliSignAddr ::
    "reader \<Rightarrow> cxx_string list \<Rightarrow> (DBStatus \<times> cxx_string list) run" where
  "getMutliSignAddr rd addresses =
     (read_list rd kMultiSignKey addresses)"

definition getMultiSignAddrUtxo ::
    "reader \<Rightarrow> cxx_string \<Rightarrow> cxx_string list \<Rightarrow> (DBStatus \<times> cxx_string list) run" where
  "getMultiSignAddrUtxo rd address utxos =
     (let db_key = kMultiSignKey @ address in read_list rd db_key utxos)"

definition getBonusAddr ::
    "reader \<Rightarrow> cxx_string list \<Rightarrow> (DBStatus \<times> cxx_string list) run" where
  "getBonusAddr rd bonus_addresses_list =
     (let db_key = BONUS_ADDR_KEY in read_list rd db_key bonus_addresses_list)"

definition getDelegatingAddrByBonusAddr ::
    "reader \<Rightarrow> cxx_string \<Rightarrow> cxx_string list \<Rightarrow> (DBStatus \<times> cxx_string list) run" where
  "getDelegatingAddrByBonusAddr rd bonusAddr addresses =
     (let db_key = kBonusAddr2DelegatingAddrKey @ bonusAddr in read_list rd db_key addresses)"

definition getDelegatingAddrByBonusAddr_mm ::
    "reader \<Rightarrow> cxx_string \<Rightarrow> multimap \<Rightarrow> (DBStatus \<times> multimap) run" where
  "getDelegatingAddrByBonusAddr_mm rd bonusAddr addresses_assetType =
     (let db_key = kBonusAddr2DelegatingAddrKey @ bonusAddr in read_multimap rd db_key addresses_assetType)"

definition getBonusAddrByDelegatingAddr ::
    "reader \<Rightarrow> cxx_string \<Rightarrow> cxx_string list \<Rightarrow> (DBStatus \<times> cxx_string list) run" where
  "getBonusAddrByDelegatingAddr rd address nodes =
     (let db_key = kDelegatingAddr2BonusAddrKey @ address in read_list rd db_key nodes)"

definition getBonusAddrAndAssetTypeByDelegatingAddr ::
    "reader \<Rightarrow> cxx_string \<Rightarrow> cxx_string list \<Rightarrow> (DBStatus \<times> cxx_string list) run" where
  "getBonusAddrAndAssetTypeByDelegatingAddr rd address nodes =
     (let db_key = KDelegatingAddr2AssetTypeBalance @ address in read_list rd db_key nodes)"

definition getBonusAddrDelegatingAddrUtxoByBonusAddr ::
    "reader \<Rightarrow> cxx_string \<Rightarrow> cxx_string \<Rightarrow> cxx_string list \<Rightarrow> (DBStatus \<times> cxx_string list) run" where
  "getBonusAddrDelegatingAddrUtxoByBonusAddr rd addr address utxos =
     (let db_key = kBonusAddrDelegatingAddr2DelegatingAddrUtxo @ addr @ ''_'' @ address in read_list rd db_key utxos)"

definition getBonusAddrDelegatingAddrUtxoByBonusAddr_asset ::
    "reader \<Rightarrow> cxx_string \<Rightarrow> cxx_string \<Rightarrow> cxx_string \<Rightarrow> cxx_string list \<Rightarrow> (DBStatus \<times> cxx_string list) run" where
  "getBonusAddrDelegatingAddrUtxoByBonusAddr_asset rd bonusAddr delegatingAddr assetType utxos =
     (let db_key = kBonusAddrDelegatingAddr2DelegatingAddrUtxo @ bonusAddr @ ''_'' @ delegatingAddr @ ''_'' @ assetType in read_list rd db_key utxos)"

definition getBonusUtxoByPeriod ::
    "reader \<Rightarrow> u64 \<Rightarrow> cxx_string list \<Rightarrow> (DBStatus \<times> cxx_string list) run" where
  "getBonusUtxoByPeriod rd period utxos =
     (read_list rd (BONUS_UTXO_KEY @ to_string period) utxos)"

definition getFundUtxoByPeriod ::
    "reader \<Rightarrow> u64 \<Rightarrow> cxx_string list \<Rightarrow> (DBStatus \<times> cxx_string list) run" where
  "getFundUtxoByPeriod rd period utxos =
     (read_list rd (kFundUtxoKey @ to_string period) utxos)"

definition getDelegatingUtxoByPeriod ::
    "reader \<Rightarrow> u64 \<Rightarrow> cxx_string list \<Rightarrow> (DBStatus \<times> cxx_string list) run" where
  "getDelegatingUtxoByPeriod rd period utxos =
     (read_list rd (kDelegatingUtxoKey @ to_string period) utxos)"

definition getSignNumberByPeriod ::
    "reader \<Rightarrow> u64 \<Rightarrow> cxx_string \<Rightarrow> u64 \<Rightarrow> (DBStatus \<times> u64) run" where
  "getSignNumberByPeriod rd period address SignNumber =
     (read_unsigned rd (kSignatureNumberKey @ to_string period @ address) SignNumber)"

definition getBlockNumberByPeriod ::
    "reader \<Rightarrow> u64 \<Rightarrow> u64 \<Rightarrow> (DBStatus \<times> u64) run" where
  "getBlockNumberByPeriod rd period BlockNumber =
     (read_unsigned rd (BLOCK_NUMBER_KEY @ to_string period) BlockNumber)"

definition getSignAddrByPeriod ::
    "reader \<Rightarrow> u64 \<Rightarrow> cxx_string list \<Rightarrow> (DBStatus \<times> cxx_string list) run" where
  "getSignAddrByPeriod rd period signAddresses =
     (read_list rd (SIGN_ADDR_KEY @ to_string period) signAddresses)"

definition getBurnAmountByPeriod ::
    "reader \<Rightarrow> u64 \<Rightarrow> u64 \<Rightarrow> (DBStatus \<times> u64) run" where
  "getBurnAmountByPeriod rd period burnAmount =
     (read_unsigned rd (BURN_AMOUNT_KEY @ to_string period) burnAmount)"

definition getTotalBurnAmount ::
    "reader \<Rightarrow> u64 \<Rightarrow> (DBStatus \<times> u64) run" where
  "getTotalBurnAmount rd totalBurn =
     (read_unsigned rd kDM totalBurn)"

definition getTotalDelegatingAmount ::
    "reader \<Rightarrow> u64 \<Rightarrow> (DBStatus \<times> u64) run" where
  "getTotalDelegatingAmount rd totalAmount =
     (read_unsigned rd kTotaldelegateAmount totalAmount)"

definition getAllEvmDeployerAddr ::
    "reader \<Rightarrow> cxx_string list \<Rightarrow> (DBStatus \<times> cxx_string list) run" where
  "getAllEvmDeployerAddr rd deployerAddr =
     (read_list rd kEvmAllDeployerAddress deployerAddr)"

definition getContractAddrByDeployerAddr ::
    "reader \<Rightarrow> cxx_string \<Rightarrow> cxx_string list \<Rightarrow> (DBStatus \<times> cxx_string list) run" where
  "getContractAddrByDeployerAddr rd deployerAddr contractAddr =
     (let db_key = DEPLOYER_ADDR_TO_CONTRACT_ADDR @ deployerAddr in read_list rd db_key contractAddr)"

definition getContractCodeByContractAddr ::
    "reader \<Rightarrow> cxx_string \<Rightarrow> cxx_string \<Rightarrow> (DBStatus \<times> cxx_string) run" where
  "getContractCodeByContractAddr rd contractAddr contractCode =
     (let db_key = kContractAddrToContractCode @ contractAddr in rd db_key contractCode)"

definition getContractDeployUtxoByContractAddr ::
    "reader \<Rightarrow> cxx_string \<Rightarrow> cxx_string \<Rightarrow> (DBStatus \<times> cxx_string) run" where
  "getContractDeployUtxoByContractAddr rd contractAddr contractDeploymentUtxo =
     (let db_key = K_CONTRACT_ADDR_TO_DEPLOY_UTXO @ contractAddr in rd db_key contractDeploymentUtxo)"

definition getLatestUtxoByContractAddr ::
    "reader \<Rightarrow> cxx_string \<Rightarrow> cxx_string \<Rightarrow> (DBStatus \<times> cxx_string) run" where
  "getLatestUtxoByContractAddr rd contractAddr Utxo =
     (let db_key = kContractAddrToLatestUtxo @ contractAddr in rd db_key Utxo)"

definition getMptValueByMptKey ::
    "reader \<Rightarrow> cxx_string \<Rightarrow> cxx_string \<Rightarrow> (DBStatus \<times> cxx_string) run" where
  "getMptValueByMptKey rd mptKey MptValue =
     (let db_key = kContractMptKey @ mptKey in rd db_key MptValue)"

definition getAllAssetType ::
    "reader \<Rightarrow> cxx_string list \<Rightarrow> (DBStatus \<times> cxx_string list) run" where
  "getAllAssetType rd assetTypes =
     (read_list rd KAssetType assetTypes)"

definition getRevokeTxHashByAssetType ::
    "reader \<Rightarrow> cxx_string \<Rightarrow> cxx_string list \<Rightarrow> (DBStatus \<times> cxx_string list) run" where
  "getRevokeTxHashByAssetType rd asserType revokeTxHashs =
     (let db_key = KRevokeTxHash @ asserType in read_list rd db_key revokeTxHashs)"

definition getApproveAddrsByAssetHash ::
    "reader \<Rightarrow> cxx_string \<Rightarrow> cxx_string set \<Rightarrow> (DBStatus \<times> cxx_string set) run" where
  "getApproveAddrsByAssetHash rd asserType addrs =
     (let db_key = approveVote @ asserType in read_set rd db_key addrs)"

definition getAgainstAddrsByAssetHash ::
    "reader \<Rightarrow> cxx_string \<Rightarrow> cxx_string set \<Rightarrow> (DBStatus \<times> cxx_string set) run" where
  "getAgainstAddrsByAssetHash rd asserType addrs =
     (let db_key = againstVoteFlag @ asserType in read_set rd db_key addrs)"

definition GetVoteTxHashByAssetHash ::
    "reader \<Rightarrow> cxx_string \<Rightarrow> cxx_string list \<Rightarrow> (DBStatus \<times> cxx_string list) run" where
  "GetVoteTxHashByAssetHash rd asserType txHashs =
     (let db_key = KVoteTxHash @ asserType in read_list rd db_key txHashs)"

definition getAssetInfobyAssetType ::
    "reader \<Rightarrow> cxx_string \<Rightarrow> cxx_string \<Rightarrow> (DBStatus \<times> cxx_string) run" where
  "getAssetInfobyAssetType rd asserType info =
     (rd (KAssetInfo @ asserType) info)"

definition getRevokeProposalInfobyTxHash ::
    "reader \<Rightarrow> cxx_string \<Rightarrow> cxx_string \<Rightarrow> (DBStatus \<times> cxx_string) run" where
  "getRevokeProposalInfobyTxHash rd TxHash info =
     (rd (KRevokeProposalInfo @ TxHash) info)"

definition getVoteNumByAssetHash ::
    "reader \<Rightarrow> cxx_string \<Rightarrow> cxx_string \<Rightarrow> (DBStatus \<times> cxx_string) run" where
  "getVoteNumByAssetHash rd asserType info =
     (rd (PROPOSAL_VOTES @ asserType) info)"

definition getVoteNumByAddr ::
    "reader \<Rightarrow> cxx_string \<Rightarrow> cxx_string \<Rightarrow> u64 \<Rightarrow> (DBStatus \<times> u64) run" where
  "getVoteNumByAddr rd addr assetType num =
     (read_unsigned rd (KVoteName @ assetType @ addr) num)"

definition getTotalNumberOfVotersByAssetHash ::
    "reader \<Rightarrow> cxx_string \<Rightarrow> u64 \<Rightarrow> (DBStatus \<times> u64) run" where
  "getTotalNumberOfVotersByAssetHash rd assetType num =
     (read_unsigned rd (KTurnout @ assetType) num)"

definition getLockAddr ::
    "reader \<Rightarrow> cxx_string list \<Rightarrow> (DBStatus \<times> cxx_string list) run" where
  "getLockAddr rd addresses =
     (read_list rd kLockAddrKey addresses)"

definition getLockAddrUtxo ::
    "reader \<Rightarrow> cxx_string \<Rightarrow> cxx_string \<Rightarrow> cxx_string list \<Rightarrow> (DBStatus \<times> cxx_string list) run" where
  "getLockAddrUtxo rd address assetType asserType =
     (let db_key = kLockAddrKey @ address @ assetType in read_list rd db_key asserType)"

definition getAssetTypeByAddr ::
    "reader \<Rightarrow> cxx_string \<Rightarrow> cxx_string list \<Rightarrow> (DBStatus \<times> cxx_string list) run" where
  "getAssetTypeByAddr rd addr asserType =
     (let db_key = KAddrAssetType @ addr in read_list rd db_key asserType)"

definition getAssetTypeByContractAddr ::
    "reader \<Rightarrow> cxx_string \<Rightarrow> cxx_string \<Rightarrow> (DBStatus \<times> cxx_string) run" where
  "getAssetTypeByContractAddr rd contractAddr asserType =
     (rd (PROPOSAL_CONTRACT_ADDRESS @ contractAddr) asserType)"

definition getGasAmountByPeriod ::
    "reader \<Rightarrow> u64 \<Rightarrow> cxx_string \<Rightarrow> u64 \<Rightarrow> (DBStatus \<times> u64) run" where
  "getGasAmountByPeriod rd period type gasAmount =
     (let db_key = kTimeTypeGasamountKey @ to_string period @ ''_'' @ type in read_unsigned rd db_key gasAmount)"

definition getPackageCountByPeriod ::
    "reader \<Rightarrow> u64 \<Rightarrow> u64 \<Rightarrow> (DBStatus \<times> u64) run" where
  "getPackageCountByPeriod rd period count =
     (let db_key = kTimeTypePackageCountKey @ ''_'' @ to_string period in read_unsigned rd db_key count)"

definition getPackagerTimesByPeriod ::
    "reader \<Rightarrow> u64 \<Rightarrow> cxx_string \<Rightarrow> u64 \<Rightarrow> (DBStatus \<times> u64) run" where
  "getPackagerTimesByPeriod rd period address timesCount =
     (let db_key = kTimeTypePackagerKey @ to_string period @ ''_'' @ address in read_unsigned rd db_key timesCount)"

definition getTotalLockedAmonut ::
    "reader \<Rightarrow> u64 \<Rightarrow> (DBStatus \<times> u64) run" where
  "getTotalLockedAmonut rd TotalLockedAmount =
     (read_unsigned rd kTotalLockedAmount TotalLockedAmount)"

definition getInitVer ::
    "reader \<Rightarrow> cxx_string \<Rightarrow> (DBStatus \<times> cxx_string) run" where
  "getInitVer rd version =
     (read_version rd kInitializationVersionKey version)"

text \<open>The first of the hashes at a height: \<open>mergeValue\<close> puts the main block in front.\<close>

definition getBlockHashByBlockHeight ::
    "reader \<Rightarrow> u64 \<Rightarrow> cxx_string \<Rightarrow> (DBStatus \<times> cxx_string) run" where
  "getBlockHashByBlockHeight rd blockHeight hash =
     bind_run (getBlockHashsByBlockHeight rd blockHeight []) (\<lambda>(ret, hashes).
       case hashes of
         h # _ \<Rightarrow> Ret (ret, if ret = DB_SUCCESS then h else hash)
       | [] \<Rightarrow> Ret (ret, hash))"

end
