(* ===== verification/DbWriter.thy ===== *)
theory DbWriter
  imports DbReader
begin

text \<open>
  The class \<open>DBReadWriter\<close> of \<open>db/db_api.cpp\<close>: the transaction's life cycle, the five
  primitive accesses and the setters and removers of every record family. A \<open>'t dbrw\<close> is the
  object: its \<open>RocksDBReadWriter\<close> member and the flag \<open>autoOperationTrans\<close>.
\<close>

record 't dbrw =
  dbReaderWriter :: "'t rw"
  autoOperationTrans :: bool

subsection \<open>The transaction\<close>

definition DBReadWriter_transactionRollBack :: "'t rocks \<Rightarrow> 't dbrw \<Rightarrow> DBStatus \<times> 't dbrw" where
  "DBReadWriter_transactionRollBack ops d =
     (if autoOperationTrans d then
        let (ok, st, s) = transactionRollBack ops (dbReaderWriter d) SOk;
            d1 = d\<lparr>dbReaderWriter := s\<rparr>
        in if \<not> ok then (DB_ERROR, d1) else (DB_SUCCESS, d1)
      else (DB_SUCCESS, d))"

definition reInitTransaction :: "'t rocks \<Rightarrow> 't dbrw \<Rightarrow> DBStatus \<times> 't dbrw" where
  "reInitTransaction ops d =
     (let (ret, d1) = DBReadWriter_transactionRollBack ops d
      in if ret \<noteq> DB_SUCCESS then (ret, d1)
         else let (ok, s) = transactionInit ops (dbReaderWriter d1);
                  d2 = d1\<lparr>dbReaderWriter := s, autoOperationTrans := True\<rparr>
              in if \<not> ok then (DB_ERROR, d2) else (DB_SUCCESS, d2))"

text \<open>The constructor, over a database that is open or not.\<close>

definition DBReadWriter_new :: "'t rocks \<Rightarrow> bool \<Rightarrow> 't \<Rightarrow> 't dbrw" where
  "DBReadWriter_new ops initSuccess db =
     snd (reInitTransaction ops
       \<lparr>dbReaderWriter = \<lparr>inited = initSuccess, txn_open = False, rk = db\<rparr>, autoOperationTrans = False\<rparr>)"

definition DBReadWriter_transactionCommit :: "'t rocks \<Rightarrow> 't dbrw \<Rightarrow> DBStatus \<times> 't dbrw" where
  "DBReadWriter_transactionCommit ops d =
     (let (ok, st, s) = transactionCommit ops (dbReaderWriter d)
      in if ok then (DB_SUCCESS, d\<lparr>dbReaderWriter := s, autoOperationTrans := False\<rparr>)
         else (DB_ERROR, d\<lparr>dbReaderWriter := s\<rparr>))"

subsection \<open>Primitive accesses\<close>

definition DBReadWriter_multiReadData :: "'t rocks \<Rightarrow> 't dbrw \<Rightarrow> mreader" where
  "DBReadWriter_multiReadData ops d keys values =
     (if keys = [] then Ret (DB_PARAM_NULL, values)
      else bind_run (multiReadData ops (dbReaderWriter d) keys values) (\<lambda>(ok, values1, sts).
        if ok then
          (if length keys \<noteq> length values1 then Ret (DB_ERROR, values1)
           else Ret (DB_SUCCESS, values1))
        else if SNotFound \<in> set sts then Ret (DB_NOT_FOUND, values1)
        else Ret (DB_ERROR, values1)))"

definition DBReadWriter_readData :: "'t rocks \<Rightarrow> 't dbrw \<Rightarrow> reader" where
  "DBReadWriter_readData ops d key value =
     (if key = [] then Ret (DB_PARAM_NULL, value)
      else bind_run (readData ops (dbReaderWriter d) key value) (\<lambda>(ok, value1, st).
        if ok then Ret (DB_SUCCESS, value1)
        else if st = SNotFound then Ret (DB_NOT_FOUND, [])
        else Ret (DB_ERROR, value1)))"

definition db_finish :: "'t dbrw \<Rightarrow> bool \<times> rstatus \<times> 't rw \<Rightarrow> (DBStatus \<times> 't dbrw) run" where
  "db_finish d r = (case r of (ok, st, s) \<Rightarrow>
     Ret (if ok then DB_SUCCESS else DB_ERROR, d\<lparr>dbReaderWriter := s\<rparr>))"

definition DBReadWriter_mergeValue ::
    "'t rocks \<Rightarrow> 't dbrw \<Rightarrow> cxx_string \<Rightarrow> cxx_string \<Rightarrow> bool \<Rightarrow> (DBStatus \<times> 't dbrw) run" where
  "DBReadWriter_mergeValue ops d key value firstOrLast =
     bind_run (mergeValue ops (dbReaderWriter d) key value firstOrLast) (db_finish d)"

definition DBReadWriter_removeMergeValue ::
    "'t rocks \<Rightarrow> 't dbrw \<Rightarrow> cxx_string \<Rightarrow> cxx_string \<Rightarrow> (DBStatus \<times> 't dbrw) run" where
  "DBReadWriter_removeMergeValue ops d key value =
     bind_run (removeMergeValue ops (dbReaderWriter d) key value) (db_finish d)"

definition DBReadWriter_writeData ::
    "'t rocks \<Rightarrow> 't dbrw \<Rightarrow> cxx_string \<Rightarrow> cxx_string \<Rightarrow> (DBStatus \<times> 't dbrw) run" where
  "DBReadWriter_writeData ops d key value = db_finish d (writeData ops (dbReaderWriter d) key value)"

definition DBReadWriter_deleteData ::
    "'t rocks \<Rightarrow> 't dbrw \<Rightarrow> cxx_string \<Rightarrow> (DBStatus \<times> 't dbrw) run" where
  "DBReadWriter_deleteData ops d key = db_finish d (deleteData ops (dbReaderWriter d) key)"

subsection \<open>Setters and removers\<close>

definition setBlockHeightByBlockHash ::
    "'t rocks \<Rightarrow> 't dbrw \<Rightarrow> cxx_string \<Rightarrow> u32 \<Rightarrow> (DBStatus \<times> 't dbrw) run" where
  "setBlockHeightByBlockHash ops d blockHash blockHeight =
     (let db_key = BLOCK_HASH_TO_BLOCK_HEIGHT_KEY @ blockHash in DBReadWriter_writeData ops d db_key (to_string blockHeight))"

definition deleteBlockHeightByBlockHash ::
    "'t rocks \<Rightarrow> 't dbrw \<Rightarrow> cxx_string \<Rightarrow> (DBStatus \<times> 't dbrw) run" where
  "deleteBlockHeightByBlockHash ops d blockHash =
     (let db_key = BLOCK_HASH_TO_BLOCK_HEIGHT_KEY @ blockHash in DBReadWriter_deleteData ops d db_key)"

definition setBlockHashByBlockHeight ::
    "'t rocks \<Rightarrow> 't dbrw \<Rightarrow> u32 \<Rightarrow> cxx_string \<Rightarrow> bool \<Rightarrow> (DBStatus \<times> 't dbrw) run" where
  "setBlockHashByBlockHeight ops d blockHeight blockHash isMainBlock =
     (let db_key = kBlockHeightToBlockHashKey @ to_string blockHeight in DBReadWriter_mergeValue ops d db_key blockHash isMainBlock)"

definition removeBlockHashByBlockHeight ::
    "'t rocks \<Rightarrow> 't dbrw \<Rightarrow> u32 \<Rightarrow> cxx_string \<Rightarrow> (DBStatus \<times> 't dbrw) run" where
  "removeBlockHashByBlockHeight ops d blockHeight blockHash =
     (let db_key = kBlockHeightToBlockHashKey @ to_string blockHeight in DBReadWriter_removeMergeValue ops d db_key blockHash)"

definition setBlockByBlockHash ::
    "'t rocks \<Rightarrow> 't dbrw \<Rightarrow> cxx_string \<Rightarrow> cxx_string \<Rightarrow> (DBStatus \<times> 't dbrw) run" where
  "setBlockByBlockHash ops d blockHash block =
     (let db_key = K_BLOCK_HASH_TO_BLOCK_RAW_KEY @ blockHash in DBReadWriter_writeData ops d db_key block)"

definition deleteBlockByBlockHash ::
    "'t rocks \<Rightarrow> 't dbrw \<Rightarrow> cxx_string \<Rightarrow> (DBStatus \<times> 't dbrw) run" where
  "deleteBlockByBlockHash ops d blockHash =
     (let db_key = K_BLOCK_HASH_TO_BLOCK_RAW_KEY @ blockHash in DBReadWriter_deleteData ops d db_key)"

definition setSumHashByHeight ::
    "'t rocks \<Rightarrow> 't dbrw \<Rightarrow> u64 \<Rightarrow> cxx_string \<Rightarrow> (DBStatus \<times> 't dbrw) run" where
  "setSumHashByHeight ops d height sumHash =
     (let db_key = BLOCK_HEIGHT_TO_SUM_HASH @ to_string height in DBReadWriter_writeData ops d db_key sumHash)"

definition removeSumHashByHeight ::
    "'t rocks \<Rightarrow> 't dbrw \<Rightarrow> u64 \<Rightarrow> (DBStatus \<times> 't dbrw) run" where
  "removeSumHashByHeight ops d height =
     (let db_key = BLOCK_HEIGHT_TO_SUM_HASH @ to_string height in DBReadWriter_deleteData ops d db_key)"

definition setCheckBlockHashsByBlockHeight ::
    "'t rocks \<Rightarrow> 't dbrw \<Rightarrow> u64 \<Rightarrow> cxx_string \<Rightarrow> (DBStatus \<times> 't dbrw) run" where
  "setCheckBlockHashsByBlockHeight ops d blockHeight sumHash =
     (let db_key = kBlockHeight_2000_Sum_Hash @ to_string blockHeight in DBReadWriter_writeData ops d db_key sumHash)"

definition removeCheckBlockHashsByBlockHeight ::
    "'t rocks \<Rightarrow> 't dbrw \<Rightarrow> u64 \<Rightarrow> (DBStatus \<times> 't dbrw) run" where
  "removeCheckBlockHashsByBlockHeight ops d blockHeight =
     (let db_key = kBlockHeight_2000_Sum_Hash @ to_string blockHeight in DBReadWriter_deleteData ops d db_key)"

definition setTopThousandSumHash ::
    "'t rocks \<Rightarrow> 't dbrw \<Rightarrow> u64 \<Rightarrow> (DBStatus \<times> 't dbrw) run" where
  "setTopThousandSumHash ops d thousandNum =
     (DBReadWriter_writeData ops d K_TOP_THOUSAND_SUM_HASH_KEY (to_string thousandNum))"

definition removeTopThousandSumhash ::
    "'t rocks \<Rightarrow> 't dbrw \<Rightarrow> u64 \<Rightarrow> (DBStatus \<times> 't dbrw) run" where
  "removeTopThousandSumhash ops d thousandNum =
     (DBReadWriter_deleteData ops d K_TOP_THOUSAND_SUM_HASH_KEY)"

definition setBlockTop ::
    "'t rocks \<Rightarrow> 't dbrw \<Rightarrow> u32 \<Rightarrow> (DBStatus \<times> 't dbrw) run" where
  "setBlockTop ops d blockHeight =
     (DBReadWriter_writeData ops d BLOCK_TOP_KEY_VALUE (to_string blockHeight))"

definition setUtxoHashesByAddr ::
    "'t rocks \<Rightarrow> 't dbrw \<Rightarrow> cxx_string \<Rightarrow> cxx_string \<Rightarrow> cxx_string \<Rightarrow> (DBStatus \<times> 't dbrw) run" where
  "setUtxoHashesByAddr ops d address assetType utxoHash =
     (let db_key = ADDRESS_TO_UTXO_KEY @ address @ assetType in DBReadWriter_mergeValue ops d db_key utxoHash False)"

definition removeUtxoHashesByAddr ::
    "'t rocks \<Rightarrow> 't dbrw \<Rightarrow> cxx_string \<Rightarrow> cxx_string \<Rightarrow> cxx_string \<Rightarrow> (DBStatus \<times> 't dbrw) run" where
  "removeUtxoHashesByAddr ops d address assetType utxoHash =
     (let db_key = ADDRESS_TO_UTXO_KEY @ address @ assetType in DBReadWriter_removeMergeValue ops d db_key utxoHash)"

definition setUtxoValueByUtxoHashes ::
    "'t rocks \<Rightarrow> 't dbrw \<Rightarrow> cxx_string \<Rightarrow> cxx_string \<Rightarrow> cxx_string \<Rightarrow> cxx_string \<Rightarrow> (DBStatus \<times> 't dbrw) run" where
  "setUtxoValueByUtxoHashes ops d utxoHash address assetType balance =
     (let db_key = address @ ''_'' @ utxoHash @ ''_'' @ assetType in DBReadWriter_writeData ops d db_key balance)"

definition removeUtxoValueByUtxoHashes ::
    "'t rocks \<Rightarrow> 't dbrw \<Rightarrow> cxx_string \<Rightarrow> cxx_string \<Rightarrow> cxx_string \<Rightarrow> cxx_string \<Rightarrow> (DBStatus \<times> 't dbrw) run" where
  "removeUtxoValueByUtxoHashes ops d utxoHash address assetType balance =
     (let db_key = address @ ''_'' @ utxoHash @ ''_'' @ assetType in DBReadWriter_deleteData ops d db_key)"

definition setTransactionByHash ::
    "'t rocks \<Rightarrow> 't dbrw \<Rightarrow> cxx_string \<Rightarrow> cxx_string \<Rightarrow> (DBStatus \<times> 't dbrw) run" where
  "setTransactionByHash ops d txHash txRaw =
     (let db_key = TRANSACTION_HASH_TO_TRANSACTION_RAW_KEY @ txHash in DBReadWriter_writeData ops d db_key txRaw)"

definition seleteTransactionByHash ::
    "'t rocks \<Rightarrow> 't dbrw \<Rightarrow> cxx_string \<Rightarrow> (DBStatus \<times> 't dbrw) run" where
  "seleteTransactionByHash ops d txHash =
     (let db_key = TRANSACTION_HASH_TO_TRANSACTION_RAW_KEY @ txHash in DBReadWriter_deleteData ops d db_key)"

definition setBlockHashByTransactionHash ::
    "'t rocks \<Rightarrow> 't dbrw \<Rightarrow> cxx_string \<Rightarrow> cxx_string \<Rightarrow> (DBStatus \<times> 't dbrw) run" where
  "setBlockHashByTransactionHash ops d txHash blockHash =
     (let db_key = TRANSACTION_HASH_TO_BLOCK_HASH_KEY @ txHash in DBReadWriter_writeData ops d db_key blockHash)"

definition seleteBlockHashByTransactionHash ::
    "'t rocks \<Rightarrow> 't dbrw \<Rightarrow> cxx_string \<Rightarrow> (DBStatus \<times> 't dbrw) run" where
  "seleteBlockHashByTransactionHash ops d txHash =
     (let db_key = TRANSACTION_HASH_TO_BLOCK_HASH_KEY @ txHash in DBReadWriter_deleteData ops d db_key)"

definition setTransactionByAddress ::
    "'t rocks \<Rightarrow> 't dbrw \<Rightarrow> cxx_string \<Rightarrow> u32 \<Rightarrow> cxx_string \<Rightarrow> (DBStatus \<times> 't dbrw) run" where
  "setTransactionByAddress ops d address txNum txRaw =
     (let db_key = ADDRESS_TO_TRANSACTION_RAW_KEY @ address @ ''_'' @ to_string txNum in DBReadWriter_writeData ops d db_key txRaw)"

definition deleteTransactionByAddress ::
    "'t rocks \<Rightarrow> 't dbrw \<Rightarrow> cxx_string \<Rightarrow> u32 \<Rightarrow> (DBStatus \<times> 't dbrw) run" where
  "deleteTransactionByAddress ops d address txNum =
     (let db_key = ADDRESS_TO_TRANSACTION_RAW_KEY @ address @ ''_'' @ to_string txNum in DBReadWriter_deleteData ops d db_key)"

definition setBlockHashByAddress ::
    "'t rocks \<Rightarrow> 't dbrw \<Rightarrow> cxx_string \<Rightarrow> u32 \<Rightarrow> cxx_string \<Rightarrow> (DBStatus \<times> 't dbrw) run" where
  "setBlockHashByAddress ops d address txNum blockHash =
     (let db_key = ADDRESS_TO_BLOCK_HASH_KEY @ address @ ''_'' @ to_string txNum in DBReadWriter_writeData ops d db_key blockHash)"

definition deleteBlockHashByAddress ::
    "'t rocks \<Rightarrow> 't dbrw \<Rightarrow> cxx_string \<Rightarrow> u32 \<Rightarrow> (DBStatus \<times> 't dbrw) run" where
  "deleteBlockHashByAddress ops d address txNum =
     (let db_key = ADDRESS_TO_BLOCK_HASH_KEY @ address @ ''_'' @ to_string txNum in DBReadWriter_deleteData ops d db_key)"

definition setTransactionTopByAddress ::
    "'t rocks \<Rightarrow> 't dbrw \<Rightarrow> cxx_string \<Rightarrow> u32 \<Rightarrow> (DBStatus \<times> 't dbrw) run" where
  "setTransactionTopByAddress ops d address txIndex =
     (let db_key = ADDRESS_TO_TRANSACTION_TOP_KEY @ address in DBReadWriter_writeData ops d db_key (to_string txIndex))"

definition setBalanceByAddr ::
    "'t rocks \<Rightarrow> 't dbrw \<Rightarrow> cxx_string \<Rightarrow> cxx_string \<Rightarrow> 64 word \<Rightarrow> (DBStatus \<times> 't dbrw) run" where
  "setBalanceByAddr ops d address assetType balance =
     (let db_key = ADDRESS_TO_BALANCE_KEY @ address @ assetType in DBReadWriter_writeData ops d db_key (to_string_signed balance))"

definition deleteBalanceByAddr ::
    "'t rocks \<Rightarrow> 't dbrw \<Rightarrow> cxx_string \<Rightarrow> cxx_string \<Rightarrow> (DBStatus \<times> 't dbrw) run" where
  "deleteBalanceByAddr ops d address assetType =
     (let db_key = ADDRESS_TO_BALANCE_KEY @ address @ assetType in DBReadWriter_deleteData ops d db_key)"

definition setStakeAddr ::
    "'t rocks \<Rightarrow> 't dbrw \<Rightarrow> cxx_string \<Rightarrow> (DBStatus \<times> 't dbrw) run" where
  "setStakeAddr ops d address =
     (DBReadWriter_mergeValue ops d kStakeAddressKey address False)"

definition removeStakeAddr ::
    "'t rocks \<Rightarrow> 't dbrw \<Rightarrow> cxx_string \<Rightarrow> (DBStatus \<times> 't dbrw) run" where
  "removeStakeAddr ops d address =
     (DBReadWriter_removeMergeValue ops d kStakeAddressKey address)"

definition setMutliSignAddr ::
    "'t rocks \<Rightarrow> 't dbrw \<Rightarrow> cxx_string \<Rightarrow> (DBStatus \<times> 't dbrw) run" where
  "setMutliSignAddr ops d address =
     (DBReadWriter_mergeValue ops d kMultiSignKey address False)"

definition removeMutliSignAddr ::
    "'t rocks \<Rightarrow> 't dbrw \<Rightarrow> cxx_string \<Rightarrow> (DBStatus \<times> 't dbrw) run" where
  "removeMutliSignAddr ops d address =
     (DBReadWriter_removeMergeValue ops d kMultiSignKey address)"

definition setStakeAddrUtxo ::
    "'t rocks \<Rightarrow> 't dbrw \<Rightarrow> cxx_string \<Rightarrow> cxx_string \<Rightarrow> cxx_string \<Rightarrow> (DBStatus \<times> 't dbrw) run" where
  "setStakeAddrUtxo ops d stakeAddr assetType utxo =
     (let db_key = kStakeAddressKey @ stakeAddr @ assetType in DBReadWriter_mergeValue ops d db_key utxo False)"

definition removeStakeAddrUtxo ::
    "'t rocks \<Rightarrow> 't dbrw \<Rightarrow> cxx_string \<Rightarrow> cxx_string \<Rightarrow> cxx_string \<Rightarrow> (DBStatus \<times> 't dbrw) run" where
  "removeStakeAddrUtxo ops d stakeAddr assetType utxo =
     (let db_key = kStakeAddressKey @ stakeAddr @ assetType in DBReadWriter_removeMergeValue ops d db_key utxo)"

definition setMultiSignAddrUtxo ::
    "'t rocks \<Rightarrow> 't dbrw \<Rightarrow> cxx_string \<Rightarrow> cxx_string \<Rightarrow> (DBStatus \<times> 't dbrw) run" where
  "setMultiSignAddrUtxo ops d address utxo =
     (let db_key = kMultiSignKey @ address in DBReadWriter_mergeValue ops d db_key utxo False)"

definition removeMultiSignAddrUtxo ::
    "'t rocks \<Rightarrow> 't dbrw \<Rightarrow> cxx_string \<Rightarrow> cxx_string \<Rightarrow> (DBStatus \<times> 't dbrw) run" where
  "removeMultiSignAddrUtxo ops d address utxos =
     (let db_key = kMultiSignKey @ address in DBReadWriter_removeMergeValue ops d db_key utxos)"

definition setBonusAddr ::
    "'t rocks \<Rightarrow> 't dbrw \<Rightarrow> cxx_string \<Rightarrow> (DBStatus \<times> 't dbrw) run" where
  "setBonusAddr ops d bonusAddr =
     (let db_key = BONUS_ADDR_KEY in DBReadWriter_mergeValue ops d db_key bonusAddr False)"

definition removeBonusAddr ::
    "'t rocks \<Rightarrow> 't dbrw \<Rightarrow> cxx_string \<Rightarrow> (DBStatus \<times> 't dbrw) run" where
  "removeBonusAddr ops d bonusAddr =
     (let db_key = BONUS_ADDR_KEY in DBReadWriter_removeMergeValue ops d db_key bonusAddr)"

definition setDelegatingAddrByBonusAddr ::
    "'t rocks \<Rightarrow> 't dbrw \<Rightarrow> cxx_string \<Rightarrow> cxx_string \<Rightarrow> cxx_string \<Rightarrow> (DBStatus \<times> 't dbrw) run" where
  "setDelegatingAddrByBonusAddr ops d bonusAddr delegatingAddr assetType =
     (let db_key = kBonusAddr2DelegatingAddrKey @ bonusAddr in let value = delegatingAddr @ ''-'' @ assetType in DBReadWriter_mergeValue ops d db_key value False)"

definition removeDelegatingAddrByBonusAddr ::
    "'t rocks \<Rightarrow> 't dbrw \<Rightarrow> cxx_string \<Rightarrow> cxx_string \<Rightarrow> cxx_string \<Rightarrow> (DBStatus \<times> 't dbrw) run" where
  "removeDelegatingAddrByBonusAddr ops d bonusAddr delegatingAddr assetType =
     (let db_key = kBonusAddr2DelegatingAddrKey @ bonusAddr in let value = delegatingAddr @ ''-'' @ assetType in DBReadWriter_removeMergeValue ops d db_key value)"

definition setBonusAddrByDelegatingAddr ::
    "'t rocks \<Rightarrow> 't dbrw \<Rightarrow> cxx_string \<Rightarrow> cxx_string \<Rightarrow> (DBStatus \<times> 't dbrw) run" where
  "setBonusAddrByDelegatingAddr ops d delegatingAddr bonusAddr =
     (let db_key = kDelegatingAddr2BonusAddrKey @ delegatingAddr in DBReadWriter_mergeValue ops d db_key bonusAddr False)"

definition setBonusAddrAndAssetTypeByDelegatingAddr ::
    "'t rocks \<Rightarrow> 't dbrw \<Rightarrow> cxx_string \<Rightarrow> cxx_string \<Rightarrow> cxx_string \<Rightarrow> (DBStatus \<times> 't dbrw) run" where
  "setBonusAddrAndAssetTypeByDelegatingAddr ops d delegatingAddr assetType bonusAddr =
     (let db_key = KDelegatingAddr2AssetTypeBalance @ delegatingAddr in let value = bonusAddr @ ''-'' @ assetType in DBReadWriter_mergeValue ops d db_key value False)"

definition removeBonusAddrAndAssetTypeByDelegatingAddr ::
    "'t rocks \<Rightarrow> 't dbrw \<Rightarrow> cxx_string \<Rightarrow> cxx_string \<Rightarrow> cxx_string \<Rightarrow> (DBStatus \<times> 't dbrw) run" where
  "removeBonusAddrAndAssetTypeByDelegatingAddr ops d delegatingAddr assetType bonusAddr =
     (let db_key = KDelegatingAddr2AssetTypeBalance @ delegatingAddr in let value = bonusAddr @ ''-'' @ assetType in DBReadWriter_removeMergeValue ops d db_key value)"

definition setBonusAddrDelegatingAddrUtxoByBonusAddr ::
    "'t rocks \<Rightarrow> 't dbrw \<Rightarrow> cxx_string \<Rightarrow> cxx_string \<Rightarrow> cxx_string \<Rightarrow> cxx_string \<Rightarrow> (DBStatus \<times> 't dbrw) run" where
  "setBonusAddrDelegatingAddrUtxoByBonusAddr ops d bonusAddr delegatingAddr assetType utxo =
     (let db_key = kBonusAddrDelegatingAddr2DelegatingAddrUtxo @ bonusAddr @ ''_'' @ delegatingAddr @ ''_'' @ assetType in DBReadWriter_mergeValue ops d db_key utxo False)"

definition removeBonusAddrDelegatingAddrUtxoByBonusAddr ::
    "'t rocks \<Rightarrow> 't dbrw \<Rightarrow> cxx_string \<Rightarrow> cxx_string \<Rightarrow> cxx_string \<Rightarrow> cxx_string \<Rightarrow> (DBStatus \<times> 't dbrw) run" where
  "removeBonusAddrDelegatingAddrUtxoByBonusAddr ops d bonusAddr delegatingAddr assetType utxo =
     (let db_key = kBonusAddrDelegatingAddr2DelegatingAddrUtxo @ bonusAddr @ ''_'' @ delegatingAddr @ ''_'' @ assetType in DBReadWriter_removeMergeValue ops d db_key utxo)"

definition setBonusUtxoByPeriod ::
    "'t rocks \<Rightarrow> 't dbrw \<Rightarrow> u64 \<Rightarrow> cxx_string \<Rightarrow> (DBStatus \<times> 't dbrw) run" where
  "setBonusUtxoByPeriod ops d period utxo =
     (DBReadWriter_mergeValue ops d (BONUS_UTXO_KEY @ to_string period) utxo False)"

definition removeBonusUtxoByPeriod ::
    "'t rocks \<Rightarrow> 't dbrw \<Rightarrow> u64 \<Rightarrow> cxx_string \<Rightarrow> (DBStatus \<times> 't dbrw) run" where
  "removeBonusUtxoByPeriod ops d period utxo =
     (DBReadWriter_removeMergeValue ops d (BONUS_UTXO_KEY @ to_string period) utxo)"

definition setFundUtxoByPeriod ::
    "'t rocks \<Rightarrow> 't dbrw \<Rightarrow> u64 \<Rightarrow> cxx_string \<Rightarrow> (DBStatus \<times> 't dbrw) run" where
  "setFundUtxoByPeriod ops d period utxo =
     (DBReadWriter_mergeValue ops d (kFundUtxoKey @ to_string period) utxo False)"

definition removeFundUtxoByPeriod ::
    "'t rocks \<Rightarrow> 't dbrw \<Rightarrow> u64 \<Rightarrow> cxx_string \<Rightarrow> (DBStatus \<times> 't dbrw) run" where
  "removeFundUtxoByPeriod ops d period utxo =
     (DBReadWriter_removeMergeValue ops d (kFundUtxoKey @ to_string period) utxo)"

definition setDelegatingUtxoByPeriod ::
    "'t rocks \<Rightarrow> 't dbrw \<Rightarrow> u64 \<Rightarrow> cxx_string \<Rightarrow> (DBStatus \<times> 't dbrw) run" where
  "setDelegatingUtxoByPeriod ops d period utxo =
     (DBReadWriter_mergeValue ops d (kDelegatingUtxoKey @ to_string period) utxo False)"

definition removeDelegatingUtxoByPeriod ::
    "'t rocks \<Rightarrow> 't dbrw \<Rightarrow> u64 \<Rightarrow> cxx_string \<Rightarrow> (DBStatus \<times> 't dbrw) run" where
  "removeDelegatingUtxoByPeriod ops d period utxo =
     (DBReadWriter_removeMergeValue ops d (kDelegatingUtxoKey @ to_string period) utxo)"

definition setEvmDeployerAddr ::
    "'t rocks \<Rightarrow> 't dbrw \<Rightarrow> cxx_string \<Rightarrow> (DBStatus \<times> 't dbrw) run" where
  "setEvmDeployerAddr ops d deployerAddr =
     (DBReadWriter_mergeValue ops d kEvmAllDeployerAddress deployerAddr False)"

definition removeEvmDeployerAddr ::
    "'t rocks \<Rightarrow> 't dbrw \<Rightarrow> cxx_string \<Rightarrow> (DBStatus \<times> 't dbrw) run" where
  "removeEvmDeployerAddr ops d deployerAddr =
     (DBReadWriter_removeMergeValue ops d kEvmAllDeployerAddress deployerAddr)"

definition setContractAddrByDeployerAddr ::
    "'t rocks \<Rightarrow> 't dbrw \<Rightarrow> cxx_string \<Rightarrow> cxx_string \<Rightarrow> (DBStatus \<times> 't dbrw) run" where
  "setContractAddrByDeployerAddr ops d deployerAddr contractAddr =
     (let db_key = DEPLOYER_ADDR_TO_CONTRACT_ADDR @ deployerAddr in DBReadWriter_mergeValue ops d db_key contractAddr False)"

definition removeContractAddrByDeployerAddr ::
    "'t rocks \<Rightarrow> 't dbrw \<Rightarrow> cxx_string \<Rightarrow> cxx_string \<Rightarrow> (DBStatus \<times> 't dbrw) run" where
  "removeContractAddrByDeployerAddr ops d deployerAddr contractAddr =
     (let db_key = DEPLOYER_ADDR_TO_CONTRACT_ADDR @ deployerAddr in DBReadWriter_removeMergeValue ops d db_key contractAddr)"

definition setContractCodeByContractAddr ::
    "'t rocks \<Rightarrow> 't dbrw \<Rightarrow> cxx_string \<Rightarrow> cxx_string \<Rightarrow> (DBStatus \<times> 't dbrw) run" where
  "setContractCodeByContractAddr ops d contractAddr contractCode =
     (let db_key = kContractAddrToContractCode @ contractAddr in DBReadWriter_writeData ops d db_key contractCode)"

definition removeContractCodeByContractAddr ::
    "'t rocks \<Rightarrow> 't dbrw \<Rightarrow> cxx_string \<Rightarrow> (DBStatus \<times> 't dbrw) run" where
  "removeContractCodeByContractAddr ops d contractAddr =
     (let db_key = kContractAddrToContractCode @ contractAddr in DBReadWriter_deleteData ops d db_key)"

definition setContractDeployUtxoByContractAddr ::
    "'t rocks \<Rightarrow> 't dbrw \<Rightarrow> cxx_string \<Rightarrow> cxx_string \<Rightarrow> (DBStatus \<times> 't dbrw) run" where
  "setContractDeployUtxoByContractAddr ops d contractAddr contractDeploymentUtxo =
     (let db_key = K_CONTRACT_ADDR_TO_DEPLOY_UTXO @ contractAddr in DBReadWriter_writeData ops d db_key contractDeploymentUtxo)"

definition removeContractDeployUtxoByContractAddr ::
    "'t rocks \<Rightarrow> 't dbrw \<Rightarrow> cxx_string \<Rightarrow> (DBStatus \<times> 't dbrw) run" where
  "removeContractDeployUtxoByContractAddr ops d contractAddr =
     (let db_key = K_CONTRACT_ADDR_TO_DEPLOY_UTXO @ contractAddr in DBReadWriter_deleteData ops d db_key)"

definition setLatestUtxoByContractAddr ::
    "'t rocks \<Rightarrow> 't dbrw \<Rightarrow> cxx_string \<Rightarrow> cxx_string \<Rightarrow> (DBStatus \<times> 't dbrw) run" where
  "setLatestUtxoByContractAddr ops d contractAddr utxo =
     (let db_key = kContractAddrToLatestUtxo @ contractAddr in DBReadWriter_writeData ops d db_key utxo)"

definition removeLatestUtxoByContractAddr ::
    "'t rocks \<Rightarrow> 't dbrw \<Rightarrow> cxx_string \<Rightarrow> (DBStatus \<times> 't dbrw) run" where
  "removeLatestUtxoByContractAddr ops d contractAddr =
     (let db_key = kContractAddrToLatestUtxo @ contractAddr in DBReadWriter_deleteData ops d db_key)"

definition setMptValueByMptKey ::
    "'t rocks \<Rightarrow> 't dbrw \<Rightarrow> cxx_string \<Rightarrow> cxx_string \<Rightarrow> (DBStatus \<times> 't dbrw) run" where
  "setMptValueByMptKey ops d mptKey MptValue =
     (let db_key = kContractMptKey @ mptKey in DBReadWriter_writeData ops d db_key MptValue)"

definition removeMptValueByMptKey ::
    "'t rocks \<Rightarrow> 't dbrw \<Rightarrow> cxx_string \<Rightarrow> (DBStatus \<times> 't dbrw) run" where
  "removeMptValueByMptKey ops d mptKey =
     (let db_key = kContractMptKey @ mptKey in DBReadWriter_deleteData ops d db_key)"

definition setSignNumberByPeriod ::
    "'t rocks \<Rightarrow> 't dbrw \<Rightarrow> u64 \<Rightarrow> cxx_string \<Rightarrow> u64 \<Rightarrow> (DBStatus \<times> 't dbrw) run" where
  "setSignNumberByPeriod ops d period address SignNumber =
     (let db_key = kSignatureNumberKey @ to_string period @ address in DBReadWriter_writeData ops d db_key (to_string SignNumber))"

definition removeSignNumberByPeriod ::
    "'t rocks \<Rightarrow> 't dbrw \<Rightarrow> u64 \<Rightarrow> cxx_string \<Rightarrow> (DBStatus \<times> 't dbrw) run" where
  "removeSignNumberByPeriod ops d period address =
     (let db_key = kSignatureNumberKey @ to_string period @ address in DBReadWriter_deleteData ops d db_key)"

definition setBlockNumberByPeriod ::
    "'t rocks \<Rightarrow> 't dbrw \<Rightarrow> u64 \<Rightarrow> u64 \<Rightarrow> (DBStatus \<times> 't dbrw) run" where
  "setBlockNumberByPeriod ops d period BlockNumber =
     (let db_key = BLOCK_NUMBER_KEY @ to_string period in DBReadWriter_writeData ops d db_key (to_string BlockNumber))"

definition removeBlockNumberByPeriod ::
    "'t rocks \<Rightarrow> 't dbrw \<Rightarrow> u64 \<Rightarrow> (DBStatus \<times> 't dbrw) run" where
  "removeBlockNumberByPeriod ops d period =
     (let db_key = BLOCK_NUMBER_KEY @ to_string period in DBReadWriter_deleteData ops d db_key)"

definition setSignAddrByPeriod ::
    "'t rocks \<Rightarrow> 't dbrw \<Rightarrow> u64 \<Rightarrow> cxx_string \<Rightarrow> (DBStatus \<times> 't dbrw) run" where
  "setSignAddrByPeriod ops d period addr =
     (DBReadWriter_mergeValue ops d (SIGN_ADDR_KEY @ to_string period) addr False)"

definition removeSignAddrByPeriod ::
    "'t rocks \<Rightarrow> 't dbrw \<Rightarrow> u64 \<Rightarrow> cxx_string \<Rightarrow> (DBStatus \<times> 't dbrw) run" where
  "removeSignAddrByPeriod ops d period addr =
     (DBReadWriter_removeMergeValue ops d (SIGN_ADDR_KEY @ to_string period) addr)"

definition setBurnAmountByPeriod ::
    "'t rocks \<Rightarrow> 't dbrw \<Rightarrow> u64 \<Rightarrow> u64 \<Rightarrow> (DBStatus \<times> 't dbrw) run" where
  "setBurnAmountByPeriod ops d period burnAmount =
     (DBReadWriter_writeData ops d (BURN_AMOUNT_KEY @ to_string period) (to_string burnAmount))"

definition removeBurnAmountByPeriod ::
    "'t rocks \<Rightarrow> 't dbrw \<Rightarrow> u64 \<Rightarrow> u64 \<Rightarrow> (DBStatus \<times> 't dbrw) run" where
  "removeBurnAmountByPeriod ops d period burnAmount =
     (DBReadWriter_deleteData ops d (BURN_AMOUNT_KEY @ to_string period))"

definition setTotalBurnAmount ::
    "'t rocks \<Rightarrow> 't dbrw \<Rightarrow> u64 \<Rightarrow> (DBStatus \<times> 't dbrw) run" where
  "setTotalBurnAmount ops d totalBurn =
     (DBReadWriter_writeData ops d kDM (to_string totalBurn))"

definition setTotalDelegatingAmount ::
    "'t rocks \<Rightarrow> 't dbrw \<Rightarrow> u64 \<Rightarrow> (DBStatus \<times> 't dbrw) run" where
  "setTotalDelegatingAmount ops d delegatingCount =
     (DBReadWriter_writeData ops d kTotaldelegateAmount (to_string delegatingCount))"

definition setInitVer ::
    "'t rocks \<Rightarrow> 't dbrw \<Rightarrow> cxx_string \<Rightarrow> (DBStatus \<times> 't dbrw) run" where
  "setInitVer ops d version =
     (DBReadWriter_writeData ops d kInitializationVersionKey version)"

definition setAssetType ::
    "'t rocks \<Rightarrow> 't dbrw \<Rightarrow> cxx_string \<Rightarrow> (DBStatus \<times> 't dbrw) run" where
  "setAssetType ops d asserType =
     (DBReadWriter_mergeValue ops d KAssetType asserType False)"

definition removeAssetType ::
    "'t rocks \<Rightarrow> 't dbrw \<Rightarrow> cxx_string \<Rightarrow> (DBStatus \<times> 't dbrw) run" where
  "removeAssetType ops d asserType =
     (DBReadWriter_removeMergeValue ops d KAssetType asserType)"

definition setRevokeTxHashByAssetType ::
    "'t rocks \<Rightarrow> 't dbrw \<Rightarrow> cxx_string \<Rightarrow> cxx_string \<Rightarrow> (DBStatus \<times> 't dbrw) run" where
  "setRevokeTxHashByAssetType ops d asserType revokeTransactionHashValue =
     (let db_key = KRevokeTxHash @ asserType in DBReadWriter_mergeValue ops d db_key revokeTransactionHashValue False)"

definition removeRevokeTxHashByAssetType ::
    "'t rocks \<Rightarrow> 't dbrw \<Rightarrow> cxx_string \<Rightarrow> cxx_string \<Rightarrow> (DBStatus \<times> 't dbrw) run" where
  "removeRevokeTxHashByAssetType ops d asserType revokeTransactionHashValue =
     (let db_key = KRevokeTxHash @ asserType in DBReadWriter_removeMergeValue ops d db_key revokeTransactionHashValue)"

definition setApproveVoteByAssetHash ::
    "'t rocks \<Rightarrow> 't dbrw \<Rightarrow> cxx_string \<Rightarrow> cxx_string \<Rightarrow> (DBStatus \<times> 't dbrw) run" where
  "setApproveVoteByAssetHash ops d asserType addr =
     (let db_key = approveVote @ asserType in DBReadWriter_mergeValue ops d db_key addr False)"

definition removeApproveVoteByAssetHash ::
    "'t rocks \<Rightarrow> 't dbrw \<Rightarrow> cxx_string \<Rightarrow> cxx_string \<Rightarrow> (DBStatus \<times> 't dbrw) run" where
  "removeApproveVoteByAssetHash ops d asserType addr =
     (let db_key = approveVote @ asserType in DBReadWriter_removeMergeValue ops d db_key addr)"

definition setAgainstVoteByAssetHash ::
    "'t rocks \<Rightarrow> 't dbrw \<Rightarrow> cxx_string \<Rightarrow> cxx_string \<Rightarrow> (DBStatus \<times> 't dbrw) run" where
  "setAgainstVoteByAssetHash ops d asserType addr =
     (let db_key = againstVoteFlag @ asserType in DBReadWriter_mergeValue ops d db_key addr False)"

definition removeAgainstVoteByAssetHash ::
    "'t rocks \<Rightarrow> 't dbrw \<Rightarrow> cxx_string \<Rightarrow> cxx_string \<Rightarrow> (DBStatus \<times> 't dbrw) run" where
  "removeAgainstVoteByAssetHash ops d asserType addr =
     (let db_key = againstVoteFlag @ asserType in DBReadWriter_removeMergeValue ops d db_key addr)"

definition setVoteTxHashByAssetHash ::
    "'t rocks \<Rightarrow> 't dbrw \<Rightarrow> cxx_string \<Rightarrow> cxx_string \<Rightarrow> (DBStatus \<times> 't dbrw) run" where
  "setVoteTxHashByAssetHash ops d asserType voteTxHash =
     (let db_key = KVoteTxHash @ asserType in DBReadWriter_mergeValue ops d db_key voteTxHash False)"

definition removeVoteTxHashByAssetHash ::
    "'t rocks \<Rightarrow> 't dbrw \<Rightarrow> cxx_string \<Rightarrow> cxx_string \<Rightarrow> (DBStatus \<times> 't dbrw) run" where
  "removeVoteTxHashByAssetHash ops d asserType voteTxHash =
     (let db_key = KVoteTxHash @ asserType in DBReadWriter_removeMergeValue ops d db_key voteTxHash)"

definition setAssetInfobyAssetType ::
    "'t rocks \<Rightarrow> 't dbrw \<Rightarrow> cxx_string \<Rightarrow> cxx_string \<Rightarrow> (DBStatus \<times> 't dbrw) run" where
  "setAssetInfobyAssetType ops d asserType info =
     (DBReadWriter_writeData ops d (KAssetInfo @ asserType) info)"

definition removeAssetInfobyAssetType ::
    "'t rocks \<Rightarrow> 't dbrw \<Rightarrow> cxx_string \<Rightarrow> (DBStatus \<times> 't dbrw) run" where
  "removeAssetInfobyAssetType ops d asserType =
     (DBReadWriter_deleteData ops d (KAssetInfo @ asserType))"

definition setRevokeProposalInfobyTxHash ::
    "'t rocks \<Rightarrow> 't dbrw \<Rightarrow> cxx_string \<Rightarrow> cxx_string \<Rightarrow> (DBStatus \<times> 't dbrw) run" where
  "setRevokeProposalInfobyTxHash ops d TxHash info =
     (DBReadWriter_writeData ops d (KRevokeProposalInfo @ TxHash) info)"

definition removeRevokeProposalInfobyTxHash ::
    "'t rocks \<Rightarrow> 't dbrw \<Rightarrow> cxx_string \<Rightarrow> (DBStatus \<times> 't dbrw) run" where
  "removeRevokeProposalInfobyTxHash ops d TxHash =
     (DBReadWriter_deleteData ops d (KRevokeProposalInfo @ TxHash))"

definition setVoteNumByAssetHash ::
    "'t rocks \<Rightarrow> 't dbrw \<Rightarrow> cxx_string \<Rightarrow> cxx_string \<Rightarrow> (DBStatus \<times> 't dbrw) run" where
  "setVoteNumByAssetHash ops d asserType info =
     (DBReadWriter_writeData ops d (PROPOSAL_VOTES @ asserType) info)"

definition deleteVoteNumByAssetHash ::
    "'t rocks \<Rightarrow> 't dbrw \<Rightarrow> cxx_string \<Rightarrow> (DBStatus \<times> 't dbrw) run" where
  "deleteVoteNumByAssetHash ops d asserType =
     (DBReadWriter_deleteData ops d (PROPOSAL_VOTES @ asserType))"

definition setVoteNumByAddr ::
    "'t rocks \<Rightarrow> 't dbrw \<Rightarrow> cxx_string \<Rightarrow> cxx_string \<Rightarrow> u64 \<Rightarrow> (DBStatus \<times> 't dbrw) run" where
  "setVoteNumByAddr ops d addr asserType voteNum =
     (DBReadWriter_writeData ops d (KVoteName @ asserType @ addr) (to_string voteNum))"

definition seleteVoteNumByAddr ::
    "'t rocks \<Rightarrow> 't dbrw \<Rightarrow> cxx_string \<Rightarrow> cxx_string \<Rightarrow> (DBStatus \<times> 't dbrw) run" where
  "seleteVoteNumByAddr ops d addr asserType =
     (DBReadWriter_deleteData ops d (KVoteName @ asserType @ addr))"

definition setTotalNumberOfVotersByAssetHash ::
    "'t rocks \<Rightarrow> 't dbrw \<Rightarrow> cxx_string \<Rightarrow> u64 \<Rightarrow> (DBStatus \<times> 't dbrw) run" where
  "setTotalNumberOfVotersByAssetHash ops d asserType voteNum =
     (DBReadWriter_writeData ops d (KTurnout @ asserType) (to_string voteNum))"

definition deleteTotalNumberOfVotersByAssetHash ::
    "'t rocks \<Rightarrow> 't dbrw \<Rightarrow> cxx_string \<Rightarrow> (DBStatus \<times> 't dbrw) run" where
  "deleteTotalNumberOfVotersByAssetHash ops d asserType =
     (DBReadWriter_deleteData ops d (KTurnout @ asserType))"

definition setLockAddr ::
    "'t rocks \<Rightarrow> 't dbrw \<Rightarrow> cxx_string \<Rightarrow> (DBStatus \<times> 't dbrw) run" where
  "setLockAddr ops d address =
     (DBReadWriter_mergeValue ops d kLockAddrKey address False)"

definition removeLockAddr ::
    "'t rocks \<Rightarrow> 't dbrw \<Rightarrow> cxx_string \<Rightarrow> (DBStatus \<times> 't dbrw) run" where
  "removeLockAddr ops d address =
     (DBReadWriter_removeMergeValue ops d kLockAddrKey address)"

definition setLockAddrUtxo ::
    "'t rocks \<Rightarrow> 't dbrw \<Rightarrow> cxx_string \<Rightarrow> cxx_string \<Rightarrow> cxx_string \<Rightarrow> (DBStatus \<times> 't dbrw) run" where
  "setLockAddrUtxo ops d LockAddr assetType utxo =
     (let db_key = kLockAddrKey @ LockAddr @ assetType in DBReadWriter_mergeValue ops d db_key utxo False)"

definition removeLockAddrUtxo ::
    "'t rocks \<Rightarrow> 't dbrw \<Rightarrow> cxx_string \<Rightarrow> cxx_string \<Rightarrow> cxx_string \<Rightarrow> (DBStatus \<times> 't dbrw) run" where
  "removeLockAddrUtxo ops d LockAddr assetType utxo =
     (let db_key = kLockAddrKey @ LockAddr @ assetType in DBReadWriter_removeMergeValue ops d db_key utxo)"

definition setTotalLockedAmonut ::
    "'t rocks \<Rightarrow> 't dbrw \<Rightarrow> u64 \<Rightarrow> (DBStatus \<times> 't dbrw) run" where
  "setTotalLockedAmonut ops d TotalLockedAmount =
     (DBReadWriter_writeData ops d kTotalLockedAmount (to_string TotalLockedAmount))"

definition setAssetTypeByAddr ::
    "'t rocks \<Rightarrow> 't dbrw \<Rightarrow> cxx_string \<Rightarrow> cxx_string \<Rightarrow> (DBStatus \<times> 't dbrw) run" where
  "setAssetTypeByAddr ops d addr asserType =
     (let db_key = KAddrAssetType @ addr in DBReadWriter_mergeValue ops d db_key asserType False)"

definition removeAssetTypeByAddr ::
    "'t rocks \<Rightarrow> 't dbrw \<Rightarrow> cxx_string \<Rightarrow> cxx_string \<Rightarrow> (DBStatus \<times> 't dbrw) run" where
  "removeAssetTypeByAddr ops d addr asserType =
     (let db_key = KAddrAssetType @ addr in DBReadWriter_removeMergeValue ops d db_key asserType)"

definition setAssetTypeByContractAddr ::
    "'t rocks \<Rightarrow> 't dbrw \<Rightarrow> cxx_string \<Rightarrow> cxx_string \<Rightarrow> (DBStatus \<times> 't dbrw) run" where
  "setAssetTypeByContractAddr ops d contractAddr asserType =
     (DBReadWriter_writeData ops d (PROPOSAL_CONTRACT_ADDRESS @ contractAddr) asserType)"

definition removeAssetTypeByContractAddr ::
    "'t rocks \<Rightarrow> 't dbrw \<Rightarrow> cxx_string \<Rightarrow> (DBStatus \<times> 't dbrw) run" where
  "removeAssetTypeByContractAddr ops d contractAddr =
     (DBReadWriter_deleteData ops d (PROPOSAL_CONTRACT_ADDRESS @ contractAddr))"

definition setGasAmountByPeriod ::
    "'t rocks \<Rightarrow> 't dbrw \<Rightarrow> u64 \<Rightarrow> cxx_string \<Rightarrow> u64 \<Rightarrow> (DBStatus \<times> 't dbrw) run" where
  "setGasAmountByPeriod ops d period type gasAmount =
     (let db_key = kTimeTypeGasamountKey @ to_string period @ ''_'' @ type in DBReadWriter_writeData ops d db_key (to_string gasAmount))"

definition setPackageCountByPeriod ::
    "'t rocks \<Rightarrow> 't dbrw \<Rightarrow> u64 \<Rightarrow> cxx_string \<Rightarrow> u64 \<Rightarrow> (DBStatus \<times> 't dbrw) run" where
  "setPackageCountByPeriod ops d period assetType count =
     (let db_key = kTimeTypePackageCountKey @ to_string period @ ''_'' @ assetType in DBReadWriter_writeData ops d db_key (to_string count))"

definition setBonusExchequerByTxHashAndPeriod ::
    "'t rocks \<Rightarrow> 't dbrw \<Rightarrow> cxx_string \<Rightarrow> u64 \<Rightarrow> u64 \<Rightarrow> (DBStatus \<times> 't dbrw) run" where
  "setBonusExchequerByTxHashAndPeriod ops d txHash time bonusExchequer =
     (let timeStr = to_string time in let db_key = kTimeTxHashExchequerKey @ txHash @ ''_'' @ timeStr in DBReadWriter_mergeValue ops d db_key (to_string bonusExchequer) False)"

definition removeBonusExchequerByTxHashAndPeriod ::
    "'t rocks \<Rightarrow> 't dbrw \<Rightarrow> cxx_string \<Rightarrow> u64 \<Rightarrow> u64 \<Rightarrow> (DBStatus \<times> 't dbrw) run" where
  "removeBonusExchequerByTxHashAndPeriod ops d txHash time bonusExchequer =
     (let timeStr = to_string time in let db_key = kTimeTxHashExchequerKey @ txHash @ ''_'' @ timeStr in DBReadWriter_removeMergeValue ops d db_key (to_string bonusExchequer))"

definition setPackagerTimesByPeriod ::
    "'t rocks \<Rightarrow> 't dbrw \<Rightarrow> u64 \<Rightarrow> cxx_string \<Rightarrow> u64 \<Rightarrow> (DBStatus \<times> 't dbrw) run" where
  "setPackagerTimesByPeriod ops d period address timesCount =
     (let db_key = kTimeTypePackagerKey @ to_string period @ ''_'' @ address in DBReadWriter_writeData ops d db_key (to_string timesCount))"

end
