(* ===== verification/StoreFacts.thy ===== *)
theory StoreFacts
  imports DbWriter
begin

text \<open>
  The interface between the getters of \<open>DBReader\<close> and the \<open>readData\<close> they call, as the
  locale \<open>kv_reader\<close>; both \<open>readData\<close> methods satisfy it over a lawful RocksDB. Then the
  runs of a \<open>RocksDBReadWriter\<close>: sequences of its operations, what they leave invisible to
  other readers and which values they keep under list keys.
\<close>

subsection \<open>The interface of a reader\<close>

text \<open>
  \<open>m\<close> is the key-value map the reader sees: a successful read answers its value, "not found"
  means that it has none and clears the output, and the empty key is refused.
\<close>

locale kv_reader =
  fixes rd :: reader
    and m :: "cxx_string \<Rightarrow> cxx_string option"
  assumes rd_success: "rd k v0 = Ret (DB_SUCCESS, v) \<Longrightarrow> k \<noteq> [] \<and> m k = Some v"
    and rd_not_found: "rd k v0 = Ret (DB_NOT_FOUND, v) \<Longrightarrow> k \<noteq> [] \<and> m k = None \<and> v = []"
    and rd_empty: "rd [] v0 = Ret (DB_PARAM_NULL, v0)"
begin

lemma read_then_success:
  assumes "read_then rd k conv out = Ret (DB_SUCCESS, x)"
  shows "\<exists>v. m k = Some v \<and> conv v = Ret x"
  using assms rd_success [of k "[]"] by (auto simp: read_then_def run_simps split: if_splits)

lemma read_then_not_found:
  assumes "read_then rd k conv out = Ret (DB_NOT_FOUND, x)"
  shows "m k = None \<and> x = out"
  using assms rd_not_found [of k "[]"] by (auto simp: read_then_def run_simps split: if_splits)

lemma read_list_success:
  "read_list rd k out = Ret (DB_SUCCESS, x) \<Longrightarrow> m k \<noteq> None \<and> x = out @ list_at m k"
  by (auto simp: read_list_def list_at_def run_simps dest!: read_then_success)

lemma read_list_not_found:
  "read_list rd k out = Ret (DB_NOT_FOUND, x) \<Longrightarrow> list_at m k = [] \<and> x = out"
  by (auto simp: read_list_def list_at_def dest!: read_then_not_found)

lemma read_set_success:
  "read_set rd k out = Ret (DB_SUCCESS, x) \<Longrightarrow> x = out \<union> set (list_at m k)"
  by (auto simp: read_set_def list_at_def run_simps dest!: read_then_success)

lemma read_unsigned_success:
  "read_unsigned rd k out = Ret (DB_SUCCESS, x) \<Longrightarrow>
   \<exists>v n. m k = Some v \<and> stoull v = Ret n \<and> x = ucast n"
  by (auto simp: read_unsigned_def run_simps dest!: read_then_success)

lemma read_signed_success:
  "read_signed rd k out = Ret (DB_SUCCESS, x) \<Longrightarrow> \<exists>v. m k = Some v \<and> stol v = Ret x"
  by (auto simp: read_signed_def dest!: read_then_success)

text \<open>Where the multimap splitter and the vector splitter see the same elements.\<close>

lemma read_multimap_success:
  assumes "read_multimap rd k out = Ret (DB_SUCCESS, x)" and "\<And>v. m k = Some v \<Longrightarrow> merged_value v"
  shows "x = fold insert_multimap (map cut_hyphen (list_at m k)) out"
  using assms
  by (auto simp: read_multimap_def list_at_def run_simps merged_value_splitters_agree
      dest!: read_then_success)

end

sublocale rocksdb \<subseteq> db_reader: kv_reader "DBReader_readData ops s" "committed (rk s)" for s
proof
  fix k v0 v
  show "DBReader_readData ops s k v0 = Ret (DB_SUCCESS, v) \<Longrightarrow> k \<noteq> [] \<and> committed (rk s) k = Some v"
    using reader_readData_effect(1,3) [of s k v0]
    by (auto simp: DBReader_readData_def run_simps split: if_splits)
  show "DBReader_readData ops s k v0 = Ret (DB_NOT_FOUND, v) \<Longrightarrow> k \<noteq> [] \<and> committed (rk s) k = None \<and> v = []"
    using reader_readData_effect(2) [of s k v0]
    by (auto simp: DBReader_readData_def run_simps split: if_splits)
qed (simp add: DBReader_readData_def)

sublocale rocksdb \<subseteq> db_writer: kv_reader "DBReadWriter_readData ops d" "view (rk (dbReaderWriter d))" for d
proof
  fix k v0 v
  show "DBReadWriter_readData ops d k v0 = Ret (DB_SUCCESS, v) \<Longrightarrow>
      k \<noteq> [] \<and> view (rk (dbReaderWriter d)) k = Some v"
    using readData_effect(1,3) [of "dbReaderWriter d" k v0]
    by (auto simp: DBReadWriter_readData_def run_simps split: if_splits)
  show "DBReadWriter_readData ops d k v0 = Ret (DB_NOT_FOUND, v) \<Longrightarrow>
      k \<noteq> [] \<and> view (rk (dbReaderWriter d)) k = None \<and> v = []"
    using readData_effect(2) [of "dbReaderWriter d" k v0]
    by (auto simp: DBReadWriter_readData_def run_simps split: if_splits)
qed (simp add: DBReadWriter_readData_def)

subsection \<open>Runs of a RocksDBReadWriter\<close>

datatype rw_op =
    WriteOp cxx_string cxx_string
  | DeleteOp cxx_string
  | MergeOp cxx_string cxx_string bool
  | RemoveOp cxx_string cxx_string
  | CommitOp
  | RollbackOp
  | InitOp

fun rw_exec :: "'t rocks \<Rightarrow> 't rw \<Rightarrow> rw_op \<Rightarrow> (bool \<times> 't rw) run" where
  "rw_exec ops s (WriteOp k v) = (case writeData ops s k v of (ok, st, s') \<Rightarrow> Ret (ok, s'))"
| "rw_exec ops s (DeleteOp k) = (case deleteData ops s k of (ok, st, s') \<Rightarrow> Ret (ok, s'))"
| "rw_exec ops s (MergeOp k v b) = bind_run (mergeValue ops s k v b) (\<lambda>(ok, st, s'). Ret (ok, s'))"
| "rw_exec ops s (RemoveOp k v) = bind_run (removeMergeValue ops s k v) (\<lambda>(ok, st, s'). Ret (ok, s'))"
| "rw_exec ops s CommitOp = (case transactionCommit ops s of (ok, st, s') \<Rightarrow> Ret (ok, s'))"
| "rw_exec ops s RollbackOp = (case transactionRollBack ops s SOk of (ok, st, s') \<Rightarrow> Ret (ok, s'))"
| "rw_exec ops s InitOp = Ret (transactionInit ops s)"

text \<open>
  The states a run can reach: any operation may follow any other, whether it succeeded or not.
\<close>

inductive rw_reach :: "'t rocks \<Rightarrow> 't rw \<Rightarrow> rw_op list \<Rightarrow> 't rw \<Rightarrow> bool" for ops where
  start: "rw_reach ops s [] s"
| step: "rw_reach ops s opl s1 \<Longrightarrow> rw_exec ops s1 x = Ret (ok, s2) \<Longrightarrow> rw_reach ops s (opl @ [x]) s2"

inductive_cases rw_reach_startE: "rw_reach ops s [] s'"

lemma rw_reach_snoc:
  "rw_reach ops s (opl @ [x]) s2 \<longleftrightarrow>
   (\<exists>s1 ok. rw_reach ops s opl s1 \<and> rw_exec ops s1 x = Ret (ok, s2))"
  by (subst rw_reach.simps) auto

text \<open>A run as a function, to build reachable states by evaluation.\<close>

fun rw_run :: "'t rocks \<Rightarrow> 't rw \<Rightarrow> rw_op list \<Rightarrow> 't rw run" where
  "rw_run ops s [] = Ret s"
| "rw_run ops s (x # xs) = bind_run (rw_exec ops s x) (\<lambda>(ok, s'). rw_run ops s' xs)"

lemma rw_reach_run:
  "rw_reach ops s0 opl s \<Longrightarrow> rw_run ops s xs = Ret s' \<Longrightarrow> rw_reach ops s0 (opl @ xs) s'"
proof (induction xs arbitrary: opl s)
  case (Cons x xs)
  from Cons.prems(2) obtain ok s1 where
    e: "rw_exec ops s x = Ret (ok, s1)" and r: "rw_run ops s1 xs = Ret s'"
    by (auto simp: run_simps)
  from Cons.IH [OF rw_reach.step [OF Cons.prems(1) e] r] show ?case by simp
qed simp

lemmas rw_run_reach = rw_reach_run [OF rw_reach.start, simplified append_Nil]

text \<open>An operation that respects the list keys \<open>K\<close>: they only see separator-free merges.\<close>

fun respects_lists :: "cxx_string set \<Rightarrow> rw_op \<Rightarrow> bool" where
  "respects_lists K (WriteOp k v) = (k \<notin> K)"
| "respects_lists K (DeleteOp k) = (k \<notin> K)"
| "respects_lists K (MergeOp k v b) = (k \<in> K \<longrightarrow> CHR ''_'' \<notin> set v)"
| "respects_lists K (RemoveOp k v) = (k \<in> K \<longrightarrow> CHR ''_'' \<notin> set v)"
| "respects_lists K _ = True"

definition lists_ok :: "cxx_string set \<Rightarrow> (cxx_string \<Rightarrow> cxx_string option) \<Rightarrow> bool" where
  "lists_ok K m \<longleftrightarrow>
     (\<forall>k\<in>K. \<forall>v. m k = Some v \<longrightarrow> merged_value v \<and> distinct (tokens (CHR ''_'') v))"

lemma merged_entry_tokens:
  assumes "CHR ''_'' \<notin> set v" "v \<noteq> []"
  shows "tokens (CHR ''_'') (merged_entry old v b) =
         merge_list (case old of None \<Rightarrow> [] | Some r \<Rightarrow> tokens (CHR ''_'') r) v b"
proof (cases old)
  case (Some r)
  then show ?thesis
    using tokens_join_tokens [of "merge_list (tokens (CHR ''_'') r) v b" v r] assms
    by (simp add: merged_entry_def set_merge_list)
qed (use assms in \<open>simp add: merged_entry_def merge_list_def tokens_absent\<close>)

lemma merged_entry_merged:
  assumes "CHR ''_'' \<notin> set v" "v \<noteq> []"
  shows "merged_value (merged_entry old v b)"
proof (cases old)
  case (Some r)
  have "merge_list (tokens (CHR ''_'') r) v b \<noteq> []"
    using set_merge_list [of "tokens (CHR ''_'') r" v b] by force
  then show ?thesis
    using merged_value_join [of "merge_list (tokens (CHR ''_'') r) v b" v r] assms Some
    by (simp add: merged_entry_def set_merge_list)
qed (use assms in \<open>simp add: merged_entry_def merged_value_bare\<close>)

lemma merged_value_tokens: "merged_value v \<Longrightarrow> tokens (CHR ''_'') v \<noteq> []"
  by (cases "CHR ''_'' \<in> set v") (auto simp: merged_value_def tokens_absent)

lemma removeAll_tokens_join:
  "tokens (CHR ''_'') (join_us (removeAll v (tokens (CHR ''_'') r))) = removeAll v (tokens (CHR ''_'') r)"
proof -
  have *: "w \<noteq> [] \<and> CHR ''_'' \<notin> set w" if "w \<in> set (removeAll v (tokens (CHR ''_'') r))" for w
    using that tokens_props by auto
  then have "tokens (CHR ''_'') (join_us (removeAll v (tokens (CHR ''_'') r))) =
      filter (\<lambda>w. w \<noteq> []) (removeAll v (tokens (CHR ''_'') r))"
    by (intro tokens_join_us) auto
  with * show ?thesis by (simp add: filter_id_conv)
qed

lemma removed_entry_Some:
  assumes "removed_entry old v = Some r'"
  shows "merged_value r' \<and>
         tokens (CHR ''_'') r' = removeAll v (case old of None \<Rightarrow> [] | Some r \<Rightarrow> tokens (CHR ''_'') r)"
  using assms removeAll_tokens_join [of v]
  by (auto simp: removed_entry_def Let_def merged_value_def split: option.splits if_splits)

lemma removed_entry_None:
  assumes "removed_entry old v = None"
  shows "removeAll v (case old of None \<Rightarrow> [] | Some r \<Rightarrow> tokens (CHR ''_'') r) = []"
  using assms removeAll_tokens_join [of v]
  by (auto simp: removed_entry_def Let_def split: option.splits if_splits) (metis tokens_Nil)

lemma lists_ok_merge:
  "lists_ok K m \<Longrightarrow> v \<noteq> [] \<Longrightarrow> (k \<in> K \<longrightarrow> CHR ''_'' \<notin> set v) \<Longrightarrow>
   lists_ok K (m(k \<mapsto> merged_entry (m k) v b))"
  by (auto simp: lists_ok_def merged_entry_merged merged_entry_tokens merge_list_distinct
      intro!: merge_list_distinct split: option.splits)

lemma lists_ok_remove:
  "lists_ok K m \<Longrightarrow> lists_ok K (m(k := removed_entry (m k) v))"
  by (auto simp: lists_ok_def distinct_removeAll split: option.splits dest!: removed_entry_Some)

lemma lists_ok_other: "lists_ok K m \<Longrightarrow> k \<notin> K \<Longrightarrow> lists_ok K (m(k := w))"
  by (auto simp: lists_ok_def)

context rocksdb
begin

lemma commit_effect:
  assumes "transactionCommit ops s = (ok, st, s')"
  shows "view (rk s') = view (rk s)"
    and "committed (rk s') = (if ok then view (rk s) else committed (rk s))"
    and "ok \<Longrightarrow> \<not> txn_open s'"
  using assms commit_law [of "rk s"]
  by (auto simp: transactionCommit_def split: if_splits prod.splits)

lemma rollback_effect:
  assumes "transactionRollBack ops s st0 = (ok, st, s')"
  shows "view (rk s') = (if ok then committed (rk s) else view (rk s))"
    and "committed (rk s') = committed (rk s)"
    and "ok \<Longrightarrow> \<not> txn_open s'"
  using assms rollback_law [of "rk s"]
  by (auto simp: transactionRollBack_def split: if_splits prod.splits)

lemma init_effect:
  assumes "transactionInit ops s = (ok, s')"
  shows "committed (rk s') = committed (rk s)"
    and "view (rk s') = (if ok then committed (rk s) else view (rk s))"
    and "txn_open s' = ok" "inited s' = inited s"
  using assms begin_law [of "rk s"]
  by (auto simp: transactionInit_def split: if_splits option.splits)

lemmas op_effects =
  writeData_effect(1) deleteData_effect(1) mergeValue_effect(1) removeMergeValue_effect(1)

lemma exec_committed:
  assumes "rw_exec ops s x = Ret (ok, s')" "x \<noteq> CommitOp"
  shows "committed (rk s') = committed (rk s)"
  using assms
  by (cases x) (auto simp: run_simps changes_to_def split: prod.splits
      dest!: op_effects rollback_effect(2) init_effect(1))

lemma reach_committed:
  "rw_reach ops s opl s' \<Longrightarrow> CommitOp \<notin> set opl \<Longrightarrow> committed (rk s') = committed (rk s)"
proof (induction rule: rw_reach.induct)
  case (step s opl s1 x ok s2)
  then show ?case using exec_committed [OF step.hyps(2)] by auto
qed simp

lemma exec_lists_ok:
  assumes "rw_exec ops s x = Ret (ok, s')" "respects_lists K x"
    and "lists_ok K (view (rk s))" "lists_ok K (committed (rk s))"
  shows "lists_ok K (view (rk s')) \<and> lists_ok K (committed (rk s'))"
proof (cases x)
  case (WriteOp k v)
  with assms obtain st where e: "writeData ops s k v = (ok, st, s')"
    by (auto split: prod.splits)
  show ?thesis using writeData_effect(1) [OF e] assms WriteOp
    by (auto simp: changes_to_def lists_ok_other split: if_splits)
next
  case (DeleteOp k)
  with assms obtain st where e: "deleteData ops s k = (ok, st, s')"
    by (auto split: prod.splits)
  show ?thesis using deleteData_effect(1) [OF e] assms DeleteOp
    by (auto simp: changes_to_def lists_ok_other split: if_splits)
next
  case (MergeOp k v b)
  with assms obtain st where e: "mergeValue ops s k v b = Ret (ok, st, s')"
    by (auto simp: run_simps split: prod.splits)
  show ?thesis using mergeValue_effect [OF e] assms MergeOp
    by (auto simp: changes_to_def lists_ok_merge split: if_splits)
next
  case (RemoveOp k v)
  with assms obtain st where e: "removeMergeValue ops s k v = Ret (ok, st, s')"
    by (auto simp: run_simps split: prod.splits)
  show ?thesis using removeMergeValue_effect [OF e] assms RemoveOp
    by (auto simp: changes_to_def lists_ok_remove split: if_splits)
next
  case CommitOp
  with assms obtain st where e: "transactionCommit ops s = (ok, st, s')"
    by (auto split: prod.splits)
  show ?thesis using commit_effect(1,2) [OF e] assms by (auto split: if_splits)
next
  case RollbackOp
  with assms obtain st where e: "transactionRollBack ops s SOk = (ok, st, s')"
    by (auto split: prod.splits)
  show ?thesis using rollback_effect(1,2) [OF e] assms by (auto split: if_splits)
next
  case InitOp
  with assms have e: "transactionInit ops s = (ok, s')" by simp
  show ?thesis using init_effect(1,2) [OF e] assms by (auto split: if_splits)
qed

lemma reach_lists_ok:
  "rw_reach ops s opl s' \<Longrightarrow> \<forall>x\<in>set opl. respects_lists K x \<Longrightarrow>
   lists_ok K (view (rk s)) \<Longrightarrow> lists_ok K (committed (rk s)) \<Longrightarrow>
   lists_ok K (view (rk s')) \<and> lists_ok K (committed (rk s'))"
proof (induction rule: rw_reach.induct)
  case (step s opl s1 x ok s2)
  then show ?case using exec_lists_ok [OF step.hyps(2)] by auto
qed simp

text \<open>The same effects for the methods of \<open>DBReadWriter\<close>; \<open>dview d\<close> is what the object reads.\<close>

abbreviation dview :: "'t dbrw \<Rightarrow> cxx_string \<Rightarrow> cxx_string option" where
  "dview d \<equiv> view (rk (dbReaderWriter d))"

lemma db_writeData_effect:
  assumes "DBReadWriter_writeData ops d key v = Ret (DB_SUCCESS, d')"
  shows "dview d' = (dview d)(key \<mapsto> v)" "committed (rk (dbReaderWriter d')) = committed (rk (dbReaderWriter d))"
  using assms writeData_effect(1) [of "dbReaderWriter d" key v]
  by (auto simp: DBReadWriter_writeData_def db_finish_def changes_to_def split: prod.splits if_splits)

lemma db_deleteData_effect:
  assumes "DBReadWriter_deleteData ops d key = Ret (DB_SUCCESS, d')"
  shows "dview d' = (dview d)(key := None)" "committed (rk (dbReaderWriter d')) = committed (rk (dbReaderWriter d))"
  using assms deleteData_effect(1) [of "dbReaderWriter d" key]
  by (auto simp: DBReadWriter_deleteData_def db_finish_def changes_to_def split: prod.splits if_splits)

lemma db_mergeValue_effect:
  assumes "DBReadWriter_mergeValue ops d key v b = Ret (DB_SUCCESS, d')"
  shows "dview d' = (dview d)(key \<mapsto> merged_entry (dview d key) v b)" "v \<noteq> []"
  using assms mergeValue_effect [of "dbReaderWriter d" key v b]
  by (auto simp: DBReadWriter_mergeValue_def db_finish_def changes_to_def run_simps
      split: prod.splits if_splits)

lemma db_removeMergeValue_effect:
  assumes "DBReadWriter_removeMergeValue ops d key v = Ret (DB_SUCCESS, d')"
  shows "dview d' = (dview d)(key := removed_entry (dview d key) v)"
  using assms removeMergeValue_effect(1) [of "dbReaderWriter d" key v]
  by (auto simp: DBReadWriter_removeMergeValue_def db_finish_def changes_to_def run_simps
      split: prod.splits if_splits)

lemmas reader_reads =
  db_reader.rd_success db_reader.read_list_success db_reader.read_set_success
  db_reader.read_unsigned_success db_reader.read_signed_success db_reader.read_multimap_success

lemmas writer_reads =
  db_writer.rd_success db_writer.read_list_success db_writer.read_set_success
  db_writer.read_unsigned_success db_writer.read_signed_success db_writer.read_multimap_success

lemma db_commit_effect:
  assumes "DBReadWriter_transactionCommit ops d = (DB_SUCCESS, d')"
  shows "dview d' = dview d" "committed (rk (dbReaderWriter d')) = dview d"
    "\<not> autoOperationTrans d'" "\<not> txn_open (dbReaderWriter d')"
  using assms commit_effect [of "dbReaderWriter d"]
  by (auto simp: DBReadWriter_transactionCommit_def split: prod.splits if_splits)

lemma db_rollback_effect:
  assumes "DBReadWriter_transactionRollBack ops d = (DB_SUCCESS, d')" "autoOperationTrans d"
  shows "dview d' = committed (rk (dbReaderWriter d))"
    "committed (rk (dbReaderWriter d')) = committed (rk (dbReaderWriter d))"
  using assms rollback_effect(1,2) [of "dbReaderWriter d"]
  by (auto simp: DBReadWriter_transactionRollBack_def Let_def split: prod.splits if_splits)

end

end
