(* ===== verification/DbProps.thy ===== *)
theory DbProps
  imports StoreFacts
begin

text \<open>
  What the database layer promises, over any backend that behaves as RocksDB is documented to
  (hypothesis \<open>rocksdb ops view committed\<close>); the witnesses run the model on the reference
  backend of theory \<open>RocksRw\<close>.
\<close>

subsection \<open>A concrete database for the witnesses\<close>

definition mem_empty :: memdb where
  "mem_empty = \<lparr>mem_base = Map.empty, mem_batch = Map.empty\<rparr>"

definition mem_writer :: "memdb rw" where
  "mem_writer = \<lparr>inited = True, txn_open = True, rk = mem_empty\<rparr>"

definition mem_object :: "memdb dbrw" where
  "mem_object = \<lparr>dbReaderWriter = mem_writer, autoOperationTrans = True\<rparr>"

definition mem_with :: "cxx_string \<Rightarrow> cxx_string \<Rightarrow> memdb rw" where
  "mem_with k v = \<lparr>inited = True, txn_open = True,
     rk = \<lparr>mem_base = Map.empty, mem_batch = [k \<mapsto> Some v]\<rparr>\<rparr>"

lemmas mem_defs = mem_empty_def mem_writer_def mem_object_def mem_with_def mem_rocks_def
  mem_view_def mem_answer_def assign_out_def

lemmas rw_defs = mergeValue_def removeMergeValue_def readForUpdate_def writeData_def deleteData_def
  readData_def reader_readData_def merge_list_def

text \<open>On the reference backend every call on an open object succeeds.\<close>

definition mem_live :: "memdb dbrw \<Rightarrow> bool" where
  "mem_live d \<longleftrightarrow> inited (dbReaderWriter d) \<and> txn_open (dbReaderWriter d)"

abbreviation mview :: "memdb dbrw \<Rightarrow> cxx_string \<Rightarrow> cxx_string option" where
  "mview d \<equiv> mem_view (rk (dbReaderWriter d))"

lemma mem_object_live [simp]: "mem_live mem_object"
  by (simp add: mem_live_def mem_defs)

lemma mview_object [simp]: "mview mem_object = Map.empty"
  by (simp add: fun_eq_iff mem_defs)

lemma mem_rw_write:
  "\<lbrakk>inited s; txn_open s; k \<noteq> []; v \<noteq> []\<rbrakk> \<Longrightarrow>
   \<exists>s'. writeData mem_rocks s k v = (True, SOk, s') \<and> mem_view (rk s') = (mem_view (rk s))(k \<mapsto> v)
      \<and> inited s' \<and> txn_open s'"
  by (simp add: writeData_def mem_rocks_def mem_view_def fun_eq_iff split: option.splits)

lemma mem_write:
  assumes "mem_live d" "k \<noteq> []" "v \<noteq> []"
  shows "\<exists>d'. DBReadWriter_writeData mem_rocks d k v = Ret (DB_SUCCESS, d')
            \<and> mview d' = (mview d)(k \<mapsto> v) \<and> mem_live d'"
  using assms mem_rw_write [of "dbReaderWriter d" k v]
  by (auto simp: DBReadWriter_writeData_def db_finish_def mem_live_def)

lemma mem_delete:
  assumes "mem_live d" "k \<noteq> []"
  shows "\<exists>d'. DBReadWriter_deleteData mem_rocks d k = Ret (DB_SUCCESS, d')
            \<and> mview d' = (mview d)(k := None) \<and> mem_live d'"
  using assms
  by (simp add: DBReadWriter_deleteData_def db_finish_def mem_live_def deleteData_def mem_rocks_def
      mem_view_def fun_eq_iff split: option.splits)

lemma mem_merge:
  assumes "mem_live d" "k \<noteq> []" "v \<noteq> []"
  shows "\<exists>d'. DBReadWriter_mergeValue mem_rocks d k v b = Ret (DB_SUCCESS, d')
            \<and> mview d' = (mview d)(k \<mapsto> merged_entry (mview d k) v b) \<and> mem_live d'"
proof -
  have "\<exists>d' st. mergeValue mem_rocks (dbReaderWriter d) k v b = Ret (True, st, d')
      \<and> inited d' \<and> txn_open d'"
    using assms set_merge_list [of _ v b]
    by (auto simp: mergeValue_def readForUpdate_def writeData_def mem_rocks_def mem_answer_def mem_live_def
        assign_out_def join_us_eq_Nil split: option.splits)
  then obtain d' st where d': "mergeValue mem_rocks (dbReaderWriter d) k v b = Ret (True, st, d')"
    "inited d'" "txn_open d'" by blast
  from mem.mergeValue_effect(1) [OF this(1)] this show ?thesis
    by (auto simp: DBReadWriter_mergeValue_def db_finish_def mem_live_def mem.changes_to_def)
qed

lemma mem_read:
  assumes "mem_live d" "k \<noteq> []" "mview d k = Some v"
  shows "DBReadWriter_readData mem_rocks d k v0 = Ret (DB_SUCCESS, v)"
  using assms by (simp add: DBReadWriter_readData_def readData_def mem_live_def mem_rocks_def
      mem_answer_def assign_out_def)

subsection \<open>Lists behind merged values\<close>

lemma list_at_upd [simp]: "list_at (m(k \<mapsto> v)) k = tokens (CHR ''_'') v"
  by (simp add: list_at_def)

lemma list_at_other [simp]: "k' \<noteq> k \<Longrightarrow> list_at (m(k := w)) k' = list_at m k'"
  by (simp add: list_at_def)

lemma list_at_case: "(case m k of None \<Rightarrow> [] | Some r \<Rightarrow> tokens (CHR ''_'') r) = list_at m k"
  by (simp add: list_at_def)

text \<open>
  C1. \<open>mergeValue\<close> of a separator-free value refines adding it to a list without repetition: a
  value that is there already leaves the list alone, a new one goes to the front or to the back as
  asked; no other key changes, nothing is published, and a failed call changes nothing.
\<close>

theorem mergeValue_refines_insert:
  assumes "rocksdb ops view committed"
    and "mergeValue ops s key v firstOrLast = Ret (ok, st, s')"
    and "CHR ''_'' \<notin> set v"
  shows "(\<not> ok \<longrightarrow> view (rk s') = view (rk s))
    \<and> (ok \<longrightarrow> v \<in> set (list_at (view (rk s)) key) \<longrightarrow>
          list_at (view (rk s')) key = list_at (view (rk s)) key)
    \<and> (ok \<longrightarrow> v \<notin> set (list_at (view (rk s)) key) \<longrightarrow>
          list_at (view (rk s')) key =
            (if firstOrLast then v # list_at (view (rk s)) key else list_at (view (rk s)) key @ [v]))
    \<and> (\<forall>k. k \<noteq> key \<longrightarrow> view (rk s') k = view (rk s) k)
    \<and> committed (rk s') = committed (rk s)"
proof -
  note e = rocksdb.mergeValue_effect [OF assms(1,2)]
  show ?thesis
    using e merged_entry_tokens [OF assms(3), of "view (rk s) key" firstOrLast]
    by (auto simp: rocksdb.changes_to_def [OF assms(1)] list_at_case merge_list_def)
qed

theorem mergeValue_refines_insert_witness:
  "list_at (mem_view (rk (snd (snd (case mergeValue mem_rocks (mem_with ''k'' ''a_b_'') ''k'' ''c'' True of Ret r \<Rightarrow> r)))))
     ''k'' = [''c'', ''a'', ''b'']"
proof -
  obtain ok st s' where r: "mergeValue mem_rocks (mem_with ''k'' ''a_b_'') ''k'' ''c'' True = Ret (ok, st, s')"
    and ok: "ok"
    by (simp add: rw_defs mem_defs tokens_def)
  have "list_at (mem_view (rk (mem_with ''k'' ''a_b_''))) ''k'' = [''a'', ''b'']"
    by (simp add: list_at_def mem_defs tokens_def)
  with mergeValue_refines_insert [OF mem.rocksdb_axioms r] ok r show ?thesis by simp
qed

text \<open>
  C2. \<open>removeMergeValue\<close> refines removing every occurrence of the value from the list; a list that
  becomes empty loses its key, no other key changes and nothing is published.
\<close>

theorem removeMergeValue_refines_removeAll:
  assumes "rocksdb ops view committed"
    and "removeMergeValue ops s key v = Ret (True, st, s')"
  shows "list_at (view (rk s')) key = removeAll v (list_at (view (rk s)) key)
    \<and> (view (rk s') key = None \<longleftrightarrow> removeAll v (list_at (view (rk s)) key) = [])
    \<and> (\<forall>k. k \<noteq> key \<longrightarrow> view (rk s') k = view (rk s) k)
    \<and> committed (rk s') = committed (rk s)"
proof -
  have c: "view (rk s') = (view (rk s))(key := removed_entry (view (rk s) key) v)"
    "committed (rk s') = committed (rk s)"
    using rocksdb.removeMergeValue_effect(1) [OF assms] by (auto simp: rocksdb.changes_to_def [OF assms(1)])
  show ?thesis
  proof (cases "removed_entry (view (rk s) key) v")
    case None
    then show ?thesis using c removed_entry_None [OF None] by (simp add: list_at_def)
  next
    case (Some r)
    from removed_entry_Some [OF Some] have r: "merged_value r"
      "tokens (CHR ''_'') r = removeAll v (list_at (view (rk s)) key)"
      by (simp_all add: list_at_def)
    then show ?thesis using c Some by (auto simp: merged_value_tokens)
  qed
qed

theorem removeMergeValue_refines_removeAll_witness:
  "list_at (mem_view (rk (snd (snd (case removeMergeValue mem_rocks (mem_with ''k'' ''a_b_a_'') ''k'' ''a'' of Ret r \<Rightarrow> r)))))
     ''k'' = [''b'']"
proof -
  obtain st s' where r: "removeMergeValue mem_rocks (mem_with ''k'' ''a_b_a_'') ''k'' ''a'' = Ret (True, st, s')"
    by (simp add: rw_defs mem_defs tokens_def Let_def)
  have "list_at (mem_view (rk (mem_with ''k'' ''a_b_a_''))) ''k'' = [''a'', ''b'', ''a'']"
    by (simp add: list_at_def mem_defs tokens_def)
  with removeMergeValue_refines_removeAll [OF mem.rocksdb_axioms r] r show ?thesis by simp
qed

text \<open>
  The list keys keep their format: whatever operations a \<open>RocksDBReadWriter\<close> goes through
  (failed ones, commits, rollbacks and re-initialisations included), a key that only ever receives
  separator-free merges and removals holds, both in the transaction and in the database, a
  duplicate-free list in the form that both splitters read back.
\<close>

theorem list_keys_invariant:
  assumes "rocksdb ops view committed"
    and "rw_reach ops s opl s'" and "list_all (respects_lists K) opl"
    and "lists_ok K (view (rk s))" and "lists_ok K (committed (rk s))"
  shows "lists_ok K (view (rk s')) \<and> lists_ok K (committed (rk s'))"
  using rocksdb.reach_lists_ok [OF assms(1,2)] assms(3-5) by (simp add: list_all_iff)

definition mem_run :: "rw_op list" where
  "mem_run = [MergeOp ''l'' ''a'' True, MergeOp ''l'' ''b'' True, CommitOp, InitOp, RemoveOp ''l'' ''a'']"

lemma mem_run_reach:
  "\<exists>s'. rw_run mem_rocks mem_writer mem_run = Ret s' \<and> mem_view (rk s') ''l'' = Some ''b_''"
  by (simp add: mem_run_def rw_defs mem_defs tokens_def run_simps transactionCommit_def transactionInit_def Let_def)

theorem list_keys_invariant_witness:
  "\<exists>s'. rw_run mem_rocks mem_writer mem_run = Ret s' \<and> mem_view (rk s') ''l'' = Some ''b_''
     \<and> lists_ok {''l''} (mem_view (rk s'))"
proof -
  obtain s' where s': "rw_run mem_rocks mem_writer mem_run = Ret s'" "mem_view (rk s') ''l'' = Some ''b_''"
    using mem_run_reach by blast
  have "list_all (respects_lists {''l''}) mem_run" by (simp add: mem_run_def)
  moreover have "lists_ok {''l''} (mem_view (rk mem_writer))" "lists_ok {''l''} (mem_base (rk mem_writer))"
    by (simp_all add: lists_ok_def mem_defs)
  ultimately show ?thesis
    using list_keys_invariant [OF mem.rocksdb_axioms rw_run_reach [OF s'(1)]] s' by blast
qed

text \<open>
  C3. Isolation: as long as a \<open>RocksDBReadWriter\<close> has not committed, nothing it does changes what
  a \<open>DBReader\<close> answers, which stays what the database held when the run began.
\<close>

theorem uncommitted_writes_invisible:
  assumes "rocksdb ops view committed"
    and "rw_reach ops s opl s'" and "CommitOp \<notin> set opl"
    and "DBReader_readData ops s' key v0 = Ret (DB_SUCCESS, v)"
  shows "committed (rk s) key = Some v"
  using rocksdb.reader_reads(1) [OF assms(1,4)] rocksdb.reach_committed [OF assms(1-3)] by simp

definition mem_stored :: "memdb rw" where
  "mem_stored = \<lparr>inited = True, txn_open = True,
     rk = \<lparr>mem_base = [''k'' \<mapsto> ''old''], mem_batch = Map.empty\<rparr>\<rparr>"

theorem uncommitted_writes_invisible_witness:
  "\<exists>s'. rw_run mem_rocks mem_stored [WriteOp ''k'' ''new'', DeleteOp ''k''] = Ret s'
     \<and> mem_view (rk s') ''k'' = None \<and> DBReader_readData mem_rocks s' ''k'' [] = Ret (DB_SUCCESS, ''old'')
     \<and> mem_base (rk mem_stored) ''k'' = Some ''old''"
proof -
  obtain s' where s': "rw_run mem_rocks mem_stored [WriteOp ''k'' ''new'', DeleteOp ''k''] = Ret s'"
    and v: "mem_view (rk s') ''k'' = None"
    and r: "DBReader_readData mem_rocks s' ''k'' [] = Ret (DB_SUCCESS, ''old'')"
    by (auto simp: mem_stored_def rw_defs mem_defs DBReader_readData_def)
  show ?thesis
    using uncommitted_writes_invisible [OF mem.rocksdb_axioms rw_run_reach [OF s'] _ r] s' v r by simp
qed

text \<open>
  A unit of work is all or nothing: after a successful commit the database holds exactly what
  the transaction saw and the destructor's rollback no longer touches it; after a rollback of an
  open transaction instead, the object sees the database again, which has not changed.
\<close>

theorem commit_or_rollback:
  assumes "rocksdb ops view committed"
  shows "(DBReadWriter_transactionCommit ops d = (DB_SUCCESS, d1) \<longrightarrow>
       committed (rk (dbReaderWriter d1)) = view (rk (dbReaderWriter d)) \<and>
       DBReadWriter_transactionRollBack ops d1 = (DB_SUCCESS, d1))
   \<and> (autoOperationTrans d \<longrightarrow> DBReadWriter_transactionRollBack ops d = (DB_SUCCESS, d2) \<longrightarrow>
       view (rk (dbReaderWriter d2)) = committed (rk (dbReaderWriter d)) \<and>
       committed (rk (dbReaderWriter d2)) = committed (rk (dbReaderWriter d)))"
  using rocksdb.db_commit_effect [OF assms, of d d1] rocksdb.db_rollback_effect [OF assms, of d d2]
  by (auto simp: DBReadWriter_transactionRollBack_def)

theorem commit_or_rollback_witness:
  "\<exists>d1 d2. DBReadWriter_transactionCommit mem_rocks (mem_object\<lparr>dbReaderWriter := mem_with ''k'' ''v''\<rparr>) = (DB_SUCCESS, d1)
     \<and> mem_base (rk (dbReaderWriter d1)) ''k'' = Some ''v''
     \<and> DBReadWriter_transactionRollBack mem_rocks (mem_object\<lparr>dbReaderWriter := mem_with ''k'' ''v''\<rparr>) = (DB_SUCCESS, d2)
     \<and> mem_view (rk (dbReaderWriter d2)) ''k'' = None"
proof -
  let ?d = "mem_object\<lparr>dbReaderWriter := mem_with ''k'' ''v''\<rparr>"
  obtain d1 where c: "DBReadWriter_transactionCommit mem_rocks ?d = (DB_SUCCESS, d1)"
    by (simp add: DBReadWriter_transactionCommit_def transactionCommit_def mem_defs)
  obtain d2 where r: "DBReadWriter_transactionRollBack mem_rocks ?d = (DB_SUCCESS, d2)"
    by (simp add: DBReadWriter_transactionRollBack_def transactionRollBack_def mem_defs)
  have "mem_view (rk (dbReaderWriter ?d)) ''k'' = Some ''v''" "mem_base (rk (dbReaderWriter ?d)) ''k'' = None"
    "autoOperationTrans ?d"
    by (simp_all add: mem_defs)
  with commit_or_rollback [OF mem.rocksdb_axioms, of ?d d1 d2] c r show ?thesis by auto
qed

text \<open>
  Two records of different families never share a key: no family name of
  \<open>db_api.cpp\<close> is a prefix of another one, so the keys differ whatever follows the name.
\<close>

theorem key_families_disjoint:
  assumes "i < length key_families" "j < length key_families" "i \<noteq> j"
  shows "key_families ! i @ x \<noteq> key_families ! j @ y"
  using family_keys_differ [OF assms] .

theorem key_families_disjoint_witness: "\<forall>x y. kStakeAddressKey @ x \<noteq> kLockAddrKey @ y"
proof -
  have "key_families ! 32 = kStakeAddressKey" "key_families ! 5 = kLockAddrKey" "length key_families = 57"
    by (simp_all add: key_families_def)
  with key_families_disjoint [of 32 5] show ?thesis by simp
qed

lemma package_count_keys_differ:
  "kTimeTypePackageCountKey @ to_string p @ ''_'' @ assetType \<noteq> kTimeTypePackageCountKey @ ''_'' @ to_string q"
proof -
  have "hd (to_string p) \<noteq> CHR ''_''"
    using to_string_no_sep [of p] to_string_nonempty [of p] by (metis hd_in_set)
  then show ?thesis using to_string_nonempty [of p] by (cases "to_string p") auto
qed

text \<open>
  The package counter is never found again: \<open>setPackageCountByPeriod\<close> and
  \<open>getPackageCountByPeriod\<close> build keys that differ for all periods and assets, so a
  successful write makes no successful read possible where there was no record before.
\<close>

theorem package_count_unreadable:
  assumes "rocksdb ops view committed"
    and "setPackageCountByPeriod ops d period assetType n = Ret (DB_SUCCESS, d')"
    and "view (rk (dbReaderWriter d)) (kTimeTypePackageCountKey @ ''_'' @ to_string q) = None"
  shows "getPackageCountByPeriod (DBReadWriter_readData ops d') q c0 \<noteq> Ret (DB_SUCCESS, c)"
proof
  assume "getPackageCountByPeriod (DBReadWriter_readData ops d') q c0 = Ret (DB_SUCCESS, c)"
  then have "view (rk (dbReaderWriter d')) (kTimeTypePackageCountKey @ ''_'' @ to_string q) \<noteq> None"
    using rocksdb.writer_reads(4) [OF assms(1)] by (fastforce simp: getPackageCountByPeriod_def)
  moreover have "view (rk (dbReaderWriter d')) =
      (view (rk (dbReaderWriter d)))(kTimeTypePackageCountKey @ to_string period @ ''_'' @ assetType \<mapsto> to_string n)"
    using rocksdb.db_writeData_effect(1) [OF assms(1)] assms(2) by (simp add: setPackageCountByPeriod_def)
  ultimately show False
    using assms(3) package_count_keys_differ [of period assetType q] by (auto simp: fun_upd_def)
qed

theorem package_count_unreadable_witness:
  "\<exists>d'. setPackageCountByPeriod mem_rocks mem_object 3 ''Vote'' 5 = Ret (DB_SUCCESS, d')
      \<and> getPackageCountByPeriod (DBReadWriter_readData mem_rocks d') 3 0 \<noteq> Ret (DB_SUCCESS, 5)"
proof -
  obtain d' where r: "setPackageCountByPeriod mem_rocks mem_object 3 ''Vote'' 5 = Ret (DB_SUCCESS, d')"
    using mem_write [of mem_object "kTimeTypePackageCountKey @ to_string (3::u64) @ ''_'' @ ''Vote''" "to_string (5::u64)"]
    by (auto simp: setPackageCountByPeriod_def)
  have "mview mem_object (kTimeTypePackageCountKey @ ''_'' @ to_string (3::u64)) = None"
    by simp
  with package_count_unreadable [OF mem.rocksdb_axioms r] r show ?thesis by blast
qed

text \<open>
  The main block of a height: once \<open>setBlockHashByBlockHeight\<close> has recorded a new hash as the
  main block, a successful \<open>getBlockHashByBlockHeight\<close> for that height answers it, whatever
  hashes were there before.
\<close>

theorem main_block_answered:
  assumes "rocksdb ops view committed"
    and "setBlockHashByBlockHeight ops d h blockHash True = Ret (DB_SUCCESS, d')"
    and "CHR ''_'' \<notin> set blockHash"
    and "blockHash \<notin> set (list_at (view (rk (dbReaderWriter d))) (kBlockHeightToBlockHashKey @ to_string h))"
    and "getBlockHashByBlockHeight (DBReadWriter_readData ops d') (ucast h) hash0 = Ret (DB_SUCCESS, hash)"
  shows "hash = blockHash"
proof -
  let ?k = "kBlockHeightToBlockHashKey @ to_string h"
  have "unat h < 2 ^ LENGTH(32)" by (rule unsigned_less)
  then have k: "to_string (ucast h :: u64) = to_string (h :: u32)"
    by (simp add: to_string_def unsigned_ucast_eq take_bit_nat_eq_self)
  have e: "view (rk (dbReaderWriter d')) = (view (rk (dbReaderWriter d)))
      (?k \<mapsto> merged_entry (view (rk (dbReaderWriter d)) ?k) blockHash True)" "blockHash \<noteq> []"
    using rocksdb.db_mergeValue_effect [OF assms(1)] assms(2) by (simp_all add: setBlockHashByBlockHeight_def)
  then have l: "list_at (view (rk (dbReaderWriter d'))) ?k =
      blockHash # list_at (view (rk (dbReaderWriter d))) ?k"
    using assms(3,4) by (simp add: merged_entry_tokens list_at_case merge_list_def)
  from assms(5) obtain r where
    r: "read_list (DBReadWriter_readData ops d') ?k [] = Ret r" and
    c: "(case r of (ret, h # _) \<Rightarrow> Ret (ret, if ret = DB_SUCCESS then h else hash0)
         | (ret, []) \<Rightarrow> Ret (ret, hash0)) = Ret (DB_SUCCESS, hash)"
    unfolding getBlockHashByBlockHeight_def getBlockHashsByBlockHeight_def k Let_def bind_run_eq_Ret
    by blast
  obtain ret hs where rh: "r = (ret, hs)" by (cases r)
  with c have "ret = DB_SUCCESS" by (auto split: list.splits)
  with r c l rh rocksdb.writer_reads(2) [OF assms(1), of d' ?k "[]" hs] show ?thesis by simp
qed

theorem main_block_answered_witness:
  "\<exists>d1 d2. setBlockHashByBlockHeight mem_rocks mem_object 7 ''ab'' False = Ret (DB_SUCCESS, d1)
     \<and> setBlockHashByBlockHeight mem_rocks d1 7 ''cd'' True = Ret (DB_SUCCESS, d2)
     \<and> (\<forall>hash. getBlockHashByBlockHeight (DBReadWriter_readData mem_rocks d2) (ucast (7::u32)) [] = Ret (DB_SUCCESS, hash)
            \<longrightarrow> hash = ''cd'')"
proof -
  let ?k = "kBlockHeightToBlockHashKey @ to_string (7::u32)"
  have k: "?k \<noteq> []" by simp
  obtain d1 where r1: "DBReadWriter_mergeValue mem_rocks mem_object ?k ''ab'' False = Ret (DB_SUCCESS, d1)"
    and v: "mview d1 ?k = Some ''ab''" and o: "mem_live d1"
    using mem_merge [OF mem_object_live k, of "''ab''" False] by (auto simp: merged_entry_def)
  obtain d2 where r2: "DBReadWriter_mergeValue mem_rocks d1 ?k ''cd'' True = Ret (DB_SUCCESS, d2)"
    using mem_merge [OF o k, of "''cd''" True] by auto
  have l: "list_at (mview d1) ?k = [''ab'']" by (simp add: list_at_def v tokens_def)
  have s: "setBlockHashByBlockHeight mem_rocks mem_object 7 ''ab'' False = Ret (DB_SUCCESS, d1)"
    "setBlockHashByBlockHeight mem_rocks d1 7 ''cd'' True = Ret (DB_SUCCESS, d2)"
    using r1 r2 by (simp_all add: setBlockHashByBlockHeight_def)
  show ?thesis
    using main_block_answered [OF mem.rocksdb_axioms s(2)] l s by auto
qed

text \<open>
  A failed start of a transaction is final: when \<open>BeginTransaction\<close> fails once, the object keeps
  \<open>autoOperationTrans\<close> set without a transaction, so every later \<open>reInitTransaction\<close> fails in its
  rollback and never asks RocksDB for a transaction again, even where it would get one.
\<close>

theorem failed_begin_is_final:
  assumes "reInitTransaction ops d = (DB_ERROR, d1)"
    and "rk_begin ops (rk (dbReaderWriter d)) = None" and "\<not> autoOperationTrans d"
  shows "reInitTransaction ops' d1 = (DB_ERROR, d1)"
  using assms
  by (auto simp: reInitTransaction_def DBReadWriter_transactionRollBack_def transactionInit_def
      transactionRollBack_def)

definition mem_failing :: "memdb rocks" where
  "mem_failing = mem_rocks\<lparr>rk_begin := (\<lambda>m. None)\<rparr>"

theorem failed_begin_is_final_witness:
  "\<exists>d1. reInitTransaction mem_failing \<lparr>dbReaderWriter = \<lparr>inited = True, txn_open = False, rk = mem_empty\<rparr>,
        autoOperationTrans = False\<rparr> = (DB_ERROR, d1) \<and> reInitTransaction mem_rocks d1 = (DB_ERROR, d1)"
proof -
  let ?d = "\<lparr>dbReaderWriter = \<lparr>inited = True, txn_open = False, rk = mem_empty\<rparr>, autoOperationTrans = False\<rparr>"
  obtain d1 where r: "reInitTransaction mem_failing ?d = (DB_ERROR, d1)"
    by (simp add: reInitTransaction_def DBReadWriter_transactionRollBack_def transactionInit_def mem_failing_def)
  show ?thesis using failed_begin_is_final [OF r, of mem_rocks] r by (simp add: mem_failing_def)
qed

text \<open>
  Balances: a stored balance is read back as it was, negative ones included, whatever the
  output variable held; deleting it leaves no balance to read.
\<close>

theorem balance_round_trip:
  assumes "rocksdb ops view committed"
    and "setBalanceByAddr ops d address assetType balance = Ret (DB_SUCCESS, d1)"
  shows "(getBalanceByAddr (DBReadWriter_readData ops d1) address assetType b0 = Ret (DB_SUCCESS, b)
            \<longrightarrow> b = balance)
     \<and> (deleteBalanceByAddr ops d1 address assetType = Ret (DB_SUCCESS, d2) \<longrightarrow>
          getBalanceByAddr (DBReadWriter_readData ops d2) address assetType b0 \<noteq> Ret (DB_SUCCESS, b))"
proof -
  have v1: "view (rk (dbReaderWriter d1)) (ADDRESS_TO_BALANCE_KEY @ address @ assetType) =
      Some (to_string_signed balance)"
    using rocksdb.db_writeData_effect(1) [OF assms(1)] assms(2) by (simp add: setBalanceByAddr_def)
  have v2: "view (rk (dbReaderWriter d2)) (ADDRESS_TO_BALANCE_KEY @ address @ assetType) = None"
    if "deleteBalanceByAddr ops d1 address assetType = Ret (DB_SUCCESS, d2)"
    using rocksdb.db_deleteData_effect(1) [OF assms(1)] that by (simp add: deleteBalanceByAddr_def)
  show ?thesis
    using v1 v2 by (auto simp: getBalanceByAddr_def dest!: rocksdb.writer_reads(5) [OF assms(1)])
qed

theorem balance_round_trip_witness:
  "\<exists>d1 d2. setBalanceByAddr mem_rocks mem_object ''a'' ''t'' (- 5) = Ret (DB_SUCCESS, d1)
     \<and> deleteBalanceByAddr mem_rocks d1 ''a'' ''t'' = Ret (DB_SUCCESS, d2)
     \<and> (\<forall>b. getBalanceByAddr (DBReadWriter_readData mem_rocks d1) ''a'' ''t'' 0 = Ret (DB_SUCCESS, b) \<longrightarrow> b = - 5)
     \<and> (\<forall>b. getBalanceByAddr (DBReadWriter_readData mem_rocks d2) ''a'' ''t'' 0 \<noteq> Ret (DB_SUCCESS, b))"
proof -
  let ?k = "ADDRESS_TO_BALANCE_KEY @ ''a'' @ ''t''"
  have k: "?k \<noteq> []" by simp
  have v: "to_string_signed (- 5 :: 64 word) \<noteq> []" by (simp add: to_string_signed_def)
  obtain d1 where r1: "DBReadWriter_writeData mem_rocks mem_object ?k (to_string_signed (- 5 :: 64 word)) = Ret (DB_SUCCESS, d1)"
    and o: "mem_live d1"
    using mem_write [OF mem_object_live k v] by auto
  obtain d2 where r2: "DBReadWriter_deleteData mem_rocks d1 ?k = Ret (DB_SUCCESS, d2)"
    using mem_delete [OF o k] by auto
  have s: "setBalanceByAddr mem_rocks mem_object ''a'' ''t'' (- 5) = Ret (DB_SUCCESS, d1)"
    "deleteBalanceByAddr mem_rocks d1 ''a'' ''t'' = Ret (DB_SUCCESS, d2)"
    using r1 r2 by (simp_all add: setBalanceByAddr_def deleteBalanceByAddr_def)
  show ?thesis
    using balance_round_trip [OF mem.rocksdb_axioms s(1), of 0] s by blast
qed

text \<open>
  Signature counters: the counter of a period and an address reads back as it was written,
  and writing it leaves alone the counter of every other period and every other address of the same
  length; the key puts no separator between period and address, so the length matters.
\<close>

lemma period_address_inject:
  "to_string p @ a = to_string q @ b \<Longrightarrow> length a = length b \<Longrightarrow> p = q \<and> a = b"
  by (metis append_eq_append_conv to_string_inject)

theorem sign_counter_frame:
  assumes "rocksdb ops view committed"
    and "setSignNumberByPeriod ops d p a n = Ret (DB_SUCCESS, d')" and "length b = length a"
    and "getSignNumberByPeriod (DBReadWriter_readData ops d') q b out = Ret (DB_SUCCESS, m)"
  shows "if p = q \<and> a = b then m = n
         else \<exists>v. view (rk (dbReaderWriter d)) (kSignatureNumberKey @ to_string q @ b) = Some v
                \<and> stoull v = Ret m"
proof -
  let ?m = "view (rk (dbReaderWriter d))" and ?k = "kSignatureNumberKey @ to_string p @ a"
  have "view (rk (dbReaderWriter d')) = ?m(?k \<mapsto> to_string n)"
    using rocksdb.db_writeData_effect(1) [OF assms(1)] assms(2) by (simp add: setSignNumberByPeriod_def)
  moreover obtain v w where "view (rk (dbReaderWriter d')) (kSignatureNumberKey @ to_string q @ b) = Some v"
    "stoull v = Ret w" "m = ucast w"
    using rocksdb.writer_reads(4) [OF assms(1)] assms(4) by (fastforce simp: getSignNumberByPeriod_def)
  moreover have "kSignatureNumberKey @ to_string q @ b = ?k \<longleftrightarrow> p = q \<and> a = b"
    using period_address_inject [of q b p a] assms(3) by auto
  ultimately show ?thesis
    by (cases "p = q \<and> a = b") (auto simp: fun_upd_def)
qed

theorem sign_counter_frame_witness:
  "\<exists>d'. setSignNumberByPeriod mem_rocks mem_object 3 ''ab'' 9 = Ret (DB_SUCCESS, d')
      \<and> getSignNumberByPeriod (DBReadWriter_readData mem_rocks d') 3 ''ab'' 0 = Ret (DB_SUCCESS, 9)"
proof -
  let ?k = "kSignatureNumberKey @ to_string (3::u64) @ ''ab''"
  have k: "?k \<noteq> []" by simp
  obtain d' where r: "DBReadWriter_writeData mem_rocks mem_object ?k (to_string (9::u64)) = Ret (DB_SUCCESS, d')"
    and v: "mview d' ?k = Some (to_string (9::u64))" and o: "mem_live d'"
    using mem_write [OF mem_object_live k, of "to_string (9::u64)"] by auto
  have w: "setSignNumberByPeriod mem_rocks mem_object 3 ''ab'' 9 = Ret (DB_SUCCESS, d')"
    using r by (simp add: setSignNumberByPeriod_def)
  obtain m where g: "getSignNumberByPeriod (DBReadWriter_readData mem_rocks d') 3 ''ab'' 0 = Ret (DB_SUCCESS, m)"
    using mem_read [OF o k v, of "[]"]
    by (simp add: getSignNumberByPeriod_def read_unsigned_def read_then_def)
  show ?thesis using sign_counter_frame [OF mem.rocksdb_axioms w _ g] w g by simp
qed

text \<open>
  Delegations: after \<open>setDelegatingAddrByBonusAddr\<close> the multimap getter reports the pair of
  the delegating address and its asset type, for hyphen-free addresses, and reports the pairs the list held before
  and nothing else, provided the key was only ever written through merges.
\<close>

theorem delegation_reported:
  assumes "rocksdb ops view committed"
    and "setDelegatingAddrByBonusAddr ops d bonusAddr addr assetType = Ret (DB_SUCCESS, d')"
    and "CHR ''-'' \<notin> set addr" and "CHR ''_'' \<notin> set addr" and "CHR ''_'' \<notin> set assetType"
    and "getDelegatingAddrByBonusAddr_mm (DBReadWriter_readData ops d') bonusAddr [] = Ret (DB_SUCCESS, mm)"
  shows "set mm = insert (addr, assetType)
           (cut_hyphen ` set (list_at (view (rk (dbReaderWriter d))) (kBonusAddr2DelegatingAddrKey @ bonusAddr)))"
proof -
  let ?k = "kBonusAddr2DelegatingAddrKey @ bonusAddr" and ?v = "addr @ CHR ''-'' # assetType"
  let ?m = "view (rk (dbReaderWriter d))"
  have e: "view (rk (dbReaderWriter d')) = ?m(?k \<mapsto> merged_entry (?m ?k) ?v False)"
    using rocksdb.db_mergeValue_effect(1) [OF assms(1)] assms(2) by (simp add: setDelegatingAddrByBonusAddr_def)
  have v: "CHR ''_'' \<notin> set ?v" "?v \<noteq> []" using assms(4,5) by auto
  have "mm = fold insert_multimap (map cut_hyphen (list_at (view (rk (dbReaderWriter d'))) ?k)) []"
  proof (rule rocksdb.writer_reads(6) [OF assms(1)])
    show "read_multimap (DBReadWriter_readData ops d') ?k [] = Ret (DB_SUCCESS, mm)"
      using assms(6) by (simp add: getDelegatingAddrByBonusAddr_mm_def)
  qed (use e merged_entry_merged [OF v] in auto)
  then have "set mm = cut_hyphen ` insert ?v (set (list_at ?m ?k))"
    using e by (simp add: merged_entry_tokens [OF v] list_at_case set_merge_list)
  then show ?thesis by (simp add: cut_hyphen_append [OF assms(3)])
qed

theorem delegation_reported_witness:
  "\<exists>d' mm. setDelegatingAddrByBonusAddr mem_rocks mem_object ''b'' ''a'' ''Vote'' = Ret (DB_SUCCESS, d')
      \<and> getDelegatingAddrByBonusAddr_mm (DBReadWriter_readData mem_rocks d') ''b'' [] = Ret (DB_SUCCESS, mm)
      \<and> set mm = {(''a'', ''Vote'')}"
proof -
  let ?k = "kBonusAddr2DelegatingAddrKey @ ''b''"
  have k: "?k \<noteq> []" by simp
  obtain d' where r: "DBReadWriter_mergeValue mem_rocks mem_object ?k ''a-Vote'' False = Ret (DB_SUCCESS, d')"
    and v: "mview d' ?k = Some ''a-Vote''" and o: "mem_live d'"
    using mem_merge [OF mem_object_live k, of "''a-Vote''" False] by (auto simp: merged_entry_def)
  have w: "setDelegatingAddrByBonusAddr mem_rocks mem_object ''b'' ''a'' ''Vote'' = Ret (DB_SUCCESS, d')"
    using r by (simp add: setDelegatingAddrByBonusAddr_def)
  obtain mm where g: "getDelegatingAddrByBonusAddr_mm (DBReadWriter_readData mem_rocks d') ''b'' [] = Ret (DB_SUCCESS, mm)"
    using mem_read [OF o k v, of "[]"]
    by (simp add: getDelegatingAddrByBonusAddr_mm_def read_multimap_def read_then_def)
  have "list_at (mview mem_object) ?k = []" by (simp add: list_at_def)
  with delegation_reported [OF mem.rocksdb_axioms w _ _ _ g] w g show ?thesis by auto
qed

lemma height_keys_never_ends: "height_keys h (- 1) ks = None"
proof (rule ccontr)
  assume "height_keys h (- 1) ks \<noteq> None"
  then obtain r where r: "height_keys h (- 1) ks = Some r" by blast
  have "(- 1 :: u64) = - 1 \<longrightarrow> False"
  proof (rule height_keys.raw_induct [where P = "\<lambda>h endHeight ks r. endHeight = - 1 \<longrightarrow> False", OF _ r])
    fix f :: "u64 \<Rightarrow> u64 \<Rightarrow> cxx_string list \<Rightarrow> cxx_string list option" and h e ks r
    assume IH: "\<And>h e ks r. f h e ks = Some r \<Longrightarrow> e = - 1 \<longrightarrow> False"
      and eq: "(if h \<le> e then f (h + 1) e (ks @ [kBlockHeightToBlockHashKey @ to_string h]) else Some ks) = Some r"
    show "e = - 1 \<longrightarrow> False"
      using IH eq by (auto split: if_splits)
  qed
  then show False by simp
qed

text \<open>
  The loop over block heights of \<open>getBlockHashesByBlockHeight\<close>: for every range it ends and
  asks for exactly the keys of the heights from start to end in order, except for a range that ends
  at the largest 64-bit height, where the call never returns.
\<close>

theorem height_range_keys:
  "if endHeight = - 1 then getBlockHashesByBlockHeight mrd startHeight endHeight out = Diverge
   else height_keys startHeight endHeight [] =
     Some (map (\<lambda>n. kBlockHeightToBlockHashKey @ to_string (of_nat n :: u64))
            [unat startHeight ..< Suc (unat endHeight)])"
  using height_keys_ends [of endHeight startHeight "[]"]
  by (simp add: getBlockHashesByBlockHeight_def height_keys_never_ends)

text \<open>
  The stored list format reads back: splitting what the rewriting loop of
  \<open>mergeValue\<close> wrote gives the elements it wrote, for separator-free, non-empty elements; an
  empty delimiter makes \<open>SplitString\<close> loop for ever on every string.
\<close>

theorem split_join_round_trip:
  assumes "list_all (\<lambda>v. v \<noteq> [] \<and> CHR ''_'' \<notin> set v) vs"
  shows "SplitString (join_us vs) ''_'' acc = Some (acc @ vs)
    \<and> SplitStringToSet (join_us vs) ''_'' S = Some (S \<union> set vs)
    \<and> SplitString s [] acc = None"
proof -
  have "tokens (CHR ''_'') (join_us vs) = filter (\<lambda>v. v \<noteq> []) vs"
    using assms by (intro tokens_join_us) (auto simp: list_all_iff)
  also have "\<dots> = vs" using assms by (simp add: filter_id_conv list_all_iff)
  finally show ?thesis by (simp add: SplitString_empty_diverges)
qed

theorem split_join_round_trip_witness:
  "SplitString (join_us [''ab'', ''c'']) ''_'' [''x''] = Some [''x'', ''ab'', ''c'']"
  using split_join_round_trip [of "[''ab'', ''c'']" "[''x'']" "{}" "[]"] by simp

end
