(* ===== verification/NetFrame.thy ===== *)
theory NetFrame
  imports CxxString
begin

text \<open>
  Message framing: \<open>Util::adler32\<close> (\<open>utils/util.cpp\<close>), the packing of a
  \<open>NetPack\<close> (\<open>net/pack.cpp\<close>, \<open>net/define.h\<close>) and the receive side of a
  \<open>SocketBuf\<close> (\<open>net/socket_buf.cpp\<close>), which cuts the byte stream of a socket back
  into messages. Strings are byte strings; \<open>memcpy\<close> of a 32-bit integer is little-endian, as
  on the supported targets.
\<close>

subsection \<open>Bytes\<close>

definition byte :: "char \<Rightarrow> nat" where
  "byte c = of_char c"

text \<open>\<open>*(uint32_t *)(s.data() + i)\<close> and the bytes \<open>memcpy\<close> writes for a \<open>uint32_t\<close>.\<close>

definition load_u32 :: "cxx_string \<Rightarrow> nat \<Rightarrow> u32" where
  "load_u32 s i = of_nat (byte (s ! i) + 256 * byte (s ! (i + 1)) + 65536 * byte (s ! (i + 2))
                          + 16777216 * byte (s ! (i + 3)))"

definition bytes_u32 :: "u32 \<Rightarrow> cxx_string" where
  "bytes_u32 w = (let n = unat w in
     [char_of (n mod 256), char_of (n div 256 mod 256), char_of (n div 65536 mod 256),
      char_of (n div 16777216 mod 256)])"

subsection \<open>Adler-32\<close>

definition MOD_ADLER :: u32 where
  "MOD_ADLER = 65521"

fun adler32_loop :: "cxx_string \<Rightarrow> u32 \<Rightarrow> u32 \<Rightarrow> u32 \<times> u32" where
  "adler32_loop [] a b = (a, b)"
| "adler32_loop (c # cs) a b =
     (let a' = (a + of_nat (byte c)) mod MOD_ADLER; b' = (b + a') mod MOD_ADLER
      in adler32_loop cs a' b')"

definition adler32 :: "cxx_string \<Rightarrow> nat \<Rightarrow> u32" where
  "adler32 data len = (let (a, b) = adler32_loop (take len data) 1 0 in or (push_bit 16 b) a)"

subsection \<open>NetPack\<close>

definition END_FLAG :: u32 where
  "END_FLAG = 7777777"

record NetPack =
  pk_len :: u32
  pk_data :: cxx_string
  pk_checkSum :: u32
  pk_flag :: u32
  pk_endFlag :: u32

text \<open>
  \<open>packedCommonMessage\<close>; the serialised message is an argument (protobuf is not modelled),
  the priority is an \<open>int8_t\<close>.
\<close>

definition packedCommonMessage :: "cxx_string \<Rightarrow> 8 word \<Rightarrow> NetPack" where
  "packedCommonMessage serialized priority =
     \<lparr>pk_len = of_nat (length serialized + 4 + 4 + 4), pk_data = serialized,
      pk_checkSum = adler32 serialized (length serialized),
      pk_flag = and (scast priority) 15, pk_endFlag = END_FLAG\<rparr>"

text \<open>
  \<open>bufferedPackage\<close> copies the parts into a caller's buffer. Writing past its end is
  undefined behaviour, the value \<open>None\<close>.
\<close>

definition put_bytes :: "cxx_string \<Rightarrow> nat \<Rightarrow> cxx_string \<Rightarrow> cxx_string option" where
  "put_bytes bs off buff =
     (if length buff < off + length bs then None
      else Some (take off buff @ bs @ drop (off + length bs) buff))"

definition bufferedPackage :: "NetPack \<Rightarrow> cxx_string \<Rightarrow> cxx_string option" where
  "bufferedPackage pack buff =
     (let n = length (pk_data pack) in
      case put_bytes (bytes_u32 (pk_len pack)) 0 buff of None \<Rightarrow> None | Some b1 \<Rightarrow>
      case put_bytes (pk_data pack) 4 b1 of None \<Rightarrow> None | Some b2 \<Rightarrow>
      case put_bytes (bytes_u32 (pk_checkSum pack)) (4 + n) b2 of None \<Rightarrow> None | Some b3 \<Rightarrow>
      case put_bytes (bytes_u32 (pk_flag pack)) (4 + n + 4) b3 of None \<Rightarrow> None | Some b4 \<Rightarrow>
      put_bytes (bytes_u32 (pk_endFlag pack)) (4 + n + 4 + 4) b4)"

text \<open>
  The buffer has \<open>(int)(pack.len + 4)\<close> zero bytes; a size that is negative as an \<open>int\<close> makes
  \<open>new\<close> throw, which is also the value \<open>None\<close>.
\<close>

definition packageToString :: "NetPack \<Rightarrow> cxx_string option" where
  "packageToString pack =
     (let buffSize = unat (pk_len pack) + 4
      in if 2 ^ 31 \<le> buffSize \<and> buffSize < 2 ^ 32 then None
         else bufferedPackage pack (replicate (buffSize mod 2 ^ 32) (char_of (0::nat))))"

definition apartPackData :: "NetPack \<Rightarrow> cxx_string \<Rightarrow> bool \<times> NetPack" where
  "apartPackData pk pack =
     (let packLen = length pack in
      if packLen < 12 then (False, pk)
      else let n = packLen - 4 * 3 in
        (True, \<lparr>pk_len = of_nat packLen, pk_data = take n pack, pk_checkSum = load_u32 pack n,
                pk_flag = load_u32 pack (n + 4), pk_endFlag = load_u32 pack (n + 4 + 4)\<rparr>))"

subsection \<open>The receive side of a SocketBuf\<close>

text \<open>The position after the first end flag in the cache.\<close>

function find_end_flag :: "cxx_string \<Rightarrow> nat \<Rightarrow> nat option" where
  "find_end_flag cache i =
     (if length cache < i + 4 then None
      else if load_u32 cache i = END_FLAG then Some i
      else find_end_flag cache (i + 1))"
  by pat_completeness auto
termination
  by (relation "measure (\<lambda>(cache, i). Suc (length cache) - i)") auto

declare find_end_flag.simps [simp del]

definition CorrectCache :: "cxx_string \<Rightarrow> cxx_string" where
  "CorrectCache cache =
     (if length cache < 4 then []
      else case find_end_flag cache 0 of Some i \<Rightarrow> drop (i + 4) cache | None \<Rightarrow> [])"

definition VerifyCache :: "nat \<Rightarrow> cxx_string \<Rightarrow> cxx_string" where
  "VerifyCache current_message_length cache =
     (if 100 * 1000 * 1000 < current_message_length then CorrectCache cache else cache)"

lemma length_CorrectCache: "length (CorrectCache cache) \<le> length cache"
  by (simp add: CorrectCache_def split: option.splits)

lemma length_VerifyCache: "length (VerifyCache n cache) \<le> length cache"
  by (simp add: VerifyCache_def length_CorrectCache)

text \<open>
  The loop of \<open>add_data_to_read_buffer\<close>: it answers the value the function returns, the cache
  and the messages it handed to \<open>sendPacketToMessageQueue\<close>, in order. The length it works with
  stays what was read before \<open>VerifyCache\<close> changed the cache.
\<close>

function read_loop ::
    "nat \<Rightarrow> cxx_string \<Rightarrow> cxx_string list \<Rightarrow> bool \<times> cxx_string \<times> cxx_string list" where
  "read_loop current_message_length cache sent =
     (if length cache < 4 + current_message_length then (True, cache, sent)
      else let cache1 = drop 4 cache; data = take current_message_length cache1 in
        if length data < 4 * 3 then (False, CorrectCache cache1, sent)
        else if adler32 data (length data - 4 * 3) \<noteq> load_u32 cache1 (length data - 4 * 3)
        then (False, CorrectCache cache1, sent)
        else let cache2 = drop current_message_length cache1; sent' = sent @ [data] in
          if length cache2 < 4 then (True, cache2, sent')
          else let len' = unat (load_u32 cache2 0)
               in read_loop len' (VerifyCache len' cache2) sent')"
  by pat_completeness auto
termination
  by (relation "measure (\<lambda>(n, cache, sent). length cache)")
     (auto simp: Let_def intro: le_less_trans [OF length_VerifyCache])

declare read_loop.simps [simp del]

definition add_data_to_cache :: "cxx_string \<Rightarrow> cxx_string \<Rightarrow> bool \<times> cxx_string \<times> cxx_string list" where
  "add_data_to_cache cache data =
     (if data = [] then (False, cache, [])
      else let cache1 = cache @ data in
        if length cache1 < 4 then (True, cache1, [])
        else let len = unat (load_u32 cache1 0) in read_loop len (VerifyCache len cache1) [])"

subsection \<open>Reading back what was written\<close>

lemma byte_char_of [simp]: "byte (char_of (n::nat)) = n mod 256"
  by (simp add: byte_def take_bit_eq_mod)

lemma byte_less [simp]: "byte c < 256"
  by (simp add: byte_def)

lemma length_bytes_u32 [simp]: "length (bytes_u32 w) = 4"
  by (simp add: bytes_u32_def Let_def)

lemma bytes_u32_nonempty [simp]: "bytes_u32 w \<noteq> []"
  by (simp add: bytes_u32_def Let_def)

lemma four_bytes:
  "n < 4294967296 \<Longrightarrow>
   n mod 256 + 256 * (n div 256 mod 256) + 65536 * (n div 65536 mod 256)
     + 16777216 * (n div 16777216 mod 256) = (n::nat)"
proof -
  assume n: "n < 4294967296"
  define a b c where "a = n mod 256" and "b = n div 256 mod 256" and "c = n div 256 div 256 mod 256"
  define p q r where "p = n div 256" and "q = n div 256 div 256" and "r = n div 256 div 256 div 256"
  have d: "n div 65536 mod 256 = c" "n div 16777216 = r"
    by (simp_all add: div_mult2_eq [symmetric] c_def r_def)
  have m: "r mod 256 = r"
    using n by (simp add: r_def div_mult2_eq [symmetric] less_mult_imp_div_less)
  have e: "a + 256 * p = n" "b + 256 * q = p" "c + 256 * r = q"
    by (simp_all add: a_def b_def c_def p_def q_def r_def)
  show ?thesis
    unfolding d m a_def [symmetric] b_def [symmetric] using e by linarith
qed

lemma unat_of_nat_u32: "n < 4294967296 \<Longrightarrow> unat (of_nat n :: u32) = n"
  by (simp add: unsigned_of_nat take_bit_nat_eq_self)

lemma load_u32_bytes [simp]: "load_u32 (bytes_u32 w @ r) 0 = w"
proof -
  have "unat w < 2 ^ LENGTH(32)" by (rule unsigned_less)
  then have "unat w < 4294967296" by simp
  note four_bytes [OF this]
  moreover have "load_u32 (bytes_u32 w @ r) 0 = of_nat (unat w mod 256 + 256 * (unat w div 256 mod 256)
      + 65536 * (unat w div 65536 mod 256) + 16777216 * (unat w div 16777216 mod 256))"
    by (simp only: load_u32_def bytes_u32_def Let_def append_Cons nth_Cons_0 nth_Cons_Suc One_nat_def
        numeral_2_eq_2 numeral_3_eq_3 add_0 byte_char_of mod_mod_trivial)
  ultimately have "load_u32 (bytes_u32 w @ r) 0 = of_nat (unat w)" by (simp only:)
  then show ?thesis by simp
qed

lemma load_u32_append: "load_u32 (p @ s) (length p + i) = load_u32 s i"
  by (simp add: load_u32_def nth_append add.assoc)

lemma load_u32_at:
  "i = length p \<Longrightarrow> load_u32 (p @ bytes_u32 w @ r) i = w"
  using load_u32_append [of p "bytes_u32 w @ r" 0] by simp

lemma load_u32_prefix: "4 \<le> length s \<Longrightarrow> load_u32 (s @ r) 0 = load_u32 s 0"
  by (auto simp: load_u32_def nth_append)

text \<open>The bytes of a message on the wire: length, payload, checksum, flag and end flag.\<close>

definition body :: "cxx_string \<Rightarrow> 8 word \<Rightarrow> cxx_string" where
  "body ser priority = ser @ bytes_u32 (adler32 ser (length ser))
     @ bytes_u32 (and (scast priority) 15) @ bytes_u32 END_FLAG"

definition wire :: "cxx_string \<Rightarrow> 8 word \<Rightarrow> cxx_string" where
  "wire ser priority = bytes_u32 (of_nat (length ser + 12)) @ body ser priority"

lemma length_body [simp]: "length (body ser priority) = length ser + 12"
  by (simp add: body_def)

lemma length_wire [simp]: "length (wire ser priority) = length ser + 16"
  by (simp add: wire_def)

lemma put_bytes_append:
  "length a = off \<Longrightarrow> length bs \<le> n \<Longrightarrow>
   put_bytes bs off (a @ replicate n z) = Some ((a @ bs) @ replicate (n - length bs) z)"
  by (simp add: put_bytes_def)

lemma packageToString_wire:
  assumes "length ser + 16 < 2 ^ 31"
  shows "packageToString (packedCommonMessage ser priority) = Some (wire ser priority)"
proof -
  let ?z = "char_of (0::nat)" and ?n = "length ser"
  define w where "w = (of_nat (?n + 12) :: u32)"
  have n: "unat w = ?n + 12" using assms by (simp add: w_def del: of_nat_add add: unat_of_nat_u32)
  have pk: "packedCommonMessage ser priority = \<lparr>pk_len = w, pk_data = ser,
      pk_checkSum = adler32 ser (length ser), pk_flag = and (scast priority) 15, pk_endFlag = END_FLAG\<rparr>"
    by (simp add: packedCommonMessage_def w_def)
  have p0: "put_bytes bs 0 (replicate m ?z) = Some (bs @ replicate (m - length bs) ?z)"
    if "length bs \<le> m" for bs m
    using put_bytes_append [of "[]" 0 bs m ?z] that by simp
  show ?thesis
    using assms n
    by (simp add: packageToString_def pk bufferedPackage_def Let_def p0 put_bytes_append wire_def body_def
        w_def [symmetric] append_assoc [symmetric] del: of_nat_add append_assoc)
qed

lemma apart_body:
  assumes "length ser + 16 < 2 ^ 31"
  shows "apartPackData pk (body ser priority) = (True, packedCommonMessage ser priority)"
proof -
  have "load_u32 (body ser priority) (length ser) = adler32 ser (length ser)"
    by (simp add: body_def load_u32_at)
  moreover have "load_u32 (body ser priority) (length ser + 4) = and (scast priority) 15"
    using load_u32_at [of "length ser + 4" "ser @ bytes_u32 (adler32 ser (length ser))"]
    by (simp add: body_def)
  moreover have "load_u32 (body ser priority) (length ser + 8) = END_FLAG"
    using load_u32_at [of "length ser + 8" "ser @ bytes_u32 (adler32 ser (length ser)) @ bytes_u32 (and (scast priority) 15)" END_FLAG "[]"]
    by (simp add: body_def)
  ultimately show ?thesis
    using assms by (simp add: apartPackData_def packedCommonMessage_def Let_def add.commute)
      (simp add: body_def)
qed

subsection \<open>Cutting the stream\<close>

lemma wire_length_word:
  "length ser + 16 < 2 ^ 31 \<Longrightarrow> unat (load_u32 (wire ser priority @ r) 0) = length ser + 12"
  using unat_of_nat_u32 [of "length ser + 12"] by (simp add: wire_def)

lemma read_loop_wire:
  assumes "length ser + 12 \<le> 100000000"
  shows "read_loop (length ser + 12) (wire ser priority @ r) sent =
     (if length r < 4 then (True, r, sent @ [body ser priority])
      else let n = unat (load_u32 r 0) in read_loop n (VerifyCache n r) (sent @ [body ser priority]))"
proof -
  have "drop 4 (wire ser priority @ r) = body ser priority @ r" by (simp add: wire_def)
  moreover have "load_u32 (body ser priority @ r) (length ser) = adler32 ser (length ser)"
    by (simp add: body_def load_u32_at)
  moreover have "adler32 (body ser priority) (length ser) = adler32 ser (length ser)"
    by (simp add: adler32_def body_def)
  ultimately show ?thesis
    by (subst read_loop.simps) (simp add: Let_def)
qed

definition sendable :: "cxx_string \<times> 8 word \<Rightarrow> bool" where
  "sendable m \<longleftrightarrow> length (fst m) + 12 \<le> 100000000"

definition wires :: "(cxx_string \<times> 8 word) list \<Rightarrow> cxx_string" where
  "wires ms = concat (map (\<lambda>(ser, pr). wire ser pr) ms)"

definition bodies :: "(cxx_string \<times> 8 word) list \<Rightarrow> cxx_string list" where
  "bodies ms = map (\<lambda>(ser, pr). body ser pr) ms"

lemma wires_simps [simp]: "wires [] = []" "wires ((ser, pr) # ms) = wire ser pr @ wires ms"
  "wires (ms @ ns) = wires ms @ wires ns"
  by (simp_all add: wires_def)

lemma bodies_simps [simp]: "bodies [] = []" "bodies ((ser, pr) # ms) = body ser pr # bodies ms"
  "bodies (ms @ ns) = bodies ms @ bodies ns"
  by (simp_all add: bodies_def)

text \<open>A cache that holds no complete message, and whose length field, if there, is accepted.\<close>

definition incomplete :: "cxx_string \<Rightarrow> bool" where
  "incomplete r \<longleftrightarrow> length r < 4 \<or>
     unat (load_u32 r 0) \<le> 100000000 \<and> length r < 4 + unat (load_u32 r 0)"

lemma read_loop_incomplete:
  "incomplete r \<Longrightarrow> 4 \<le> length r \<Longrightarrow> n = unat (load_u32 r 0) \<Longrightarrow>
   read_loop n (VerifyCache n r) sent = (True, r, sent)"
  by (subst read_loop.simps) (auto simp: incomplete_def VerifyCache_def)

lemma read_loop_wires:
  assumes "list_all sendable ((ser, pr) # ms)" and "incomplete r"
  shows "read_loop (length ser + 12) (wires ((ser, pr) # ms) @ r) sent =
           (True, r, sent @ bodies ((ser, pr) # ms))"
  using assms
proof (induction ms arbitrary: ser pr sent)
  case Nil
  then show ?case
    using read_loop_wire [of ser pr r sent] read_loop_incomplete [OF Nil.prems(2)]
    by (auto simp: sendable_def Let_def)
next
  case (Cons m ms)
  obtain ser' pr' where m: "m = (ser', pr')" by (cases m)
  from Cons.prems m have s: "length ser + 12 \<le> 100000000" "length ser' + 12 \<le> 100000000"
    by (simp_all add: sendable_def)
  have n: "unat (load_u32 (wire ser' pr' @ wires ms @ r) 0) = length ser' + 12"
    using s by (intro wire_length_word) simp
  have "read_loop (length ser + 12) (wires ((ser, pr) # m # ms) @ r) sent =
      read_loop (length ser' + 12) (wires (m # ms) @ r) (sent @ [body ser pr])"
    using read_loop_wire [OF s(1), of pr "wires (m # ms) @ r" sent] s n
    by (simp add: m Let_def VerifyCache_def)
  with Cons.IH [of ser' pr' "sent @ [body ser pr]"] Cons.prems m show ?case by simp
qed

lemma add_data_wires:
  assumes "cache @ data = wires ms @ r" "data \<noteq> []" "list_all sendable ms" "incomplete r"
  shows "add_data_to_cache cache data = (True, r, bodies ms)"
proof (cases ms)
  case Nil
  with assms show ?thesis
    by (simp add: add_data_to_cache_def Let_def read_loop_incomplete)
next
  case (Cons m ns)
  obtain ser pr where m: "m = (ser, pr)" by (cases m)
  then have s: "length ser + 12 \<le> 100000000" using assms(3) Cons by (simp add: sendable_def)
  have "unat (load_u32 (wire ser pr @ wires ns @ r) 0) = length ser + 12"
    using s by (intro wire_length_word) simp
  with assms s read_loop_wires [of ser pr ns r "[]"] Cons m show ?thesis
    by (simp add: add_data_to_cache_def Let_def VerifyCache_def)
qed

text \<open>Every prefix of a stream of messages is complete messages and an incomplete rest.\<close>

lemma prefix_wires:
  assumes "p @ rest = wires ms" "list_all sendable ms"
  shows "\<exists>k r. p = wires (take k ms) @ r \<and> incomplete r \<and> r @ rest = wires (drop k ms)"
  using assms
proof (induction ms arbitrary: p)
  case Nil
  then show ?case by (auto simp: incomplete_def)
next
  case (Cons m ms)
  obtain ser pr where m: "m = (ser, pr)" by (cases m)
  show ?case
  proof (cases "length p < length (wire ser pr)")
    case True
    have "p = take (length p) (p @ rest)" by simp
    also have "\<dots> = take (length p) (wire ser pr)" using Cons.prems(1) m True by simp
    finally have p: "p = take (length p) (wire ser pr)" .
    have "incomplete p"
    proof (cases "length p < 4")
      case False
      have "wire ser pr = p @ drop (length p) (wire ser pr)" using p by (metis append_take_drop_id)
      then have "load_u32 (wire ser pr @ []) 0 = load_u32 p 0"
        using False load_u32_prefix [of p "drop (length p) (wire ser pr)"] by simp
      then have "unat (load_u32 p 0) = length ser + 12"
        using wire_length_word [of ser pr "[]"] Cons.prems(2) m by (simp add: sendable_def)
      then show ?thesis using True Cons.prems(2) m by (simp add: incomplete_def sendable_def)
    qed (simp add: incomplete_def)
    with Cons.prems(1) show ?thesis by (intro exI [of _ 0] exI [of _ p]) simp
  next
    case False
    with Cons.prems(1) m have "p = wire ser pr @ drop (length (wire ser pr)) p"
      by (metis append_eq_append_conv_if append_take_drop_id not_less wires_simps(2))
    then obtain p' where p': "p = wire ser pr @ p'" ..
    with Cons.prems m have "p' @ rest = wires ms" "list_all sendable ms" by simp_all
    from Cons.IH [OF this] obtain k r where
      "p' = wires (take k ms) @ r" "incomplete r" "r @ rest = wires (drop k ms)" by blast
    then show ?thesis using p' m by (intro exI [of _ "Suc k"] exI [of _ r]) simp
  qed
qed

subsection \<open>A SocketBuf and the messages it queues\<close>

definition dataPackPortAndIp :: "u16 \<Rightarrow> u32 \<Rightarrow> u64" where
  "dataPackPortAndIp port ip = or (push_bit 32 (ucast port)) (ucast ip)"

definition convertDataPackPortAndIpToInt :: "u64 \<Rightarrow> u16 \<times> u32" where
  "convertDataPackPortAndIpToInt portAndIp =
     (ucast (drop_bit 32 portAndIp), ucast (drop_bit 32 (push_bit 32 portAndIp)))"

datatype DataType = E_READ | E_WORK | E_WRITE

record MsgData =
  md_type :: DataType
  md_fd :: int
  md_port :: u16
  md_ip :: u32
  md_data :: cxx_string
  md_pack :: NetPack
  md_id :: cxx_string

record SocketBuf =
  sb_fd :: int
  sb_portAndIp :: u64
  sb_cache :: cxx_string
  sb_sendCache :: cxx_string

definition NetPack_default :: NetPack where
  "NetPack_default = \<lparr>pk_len = 0, pk_data = [], pk_checkSum = 0, pk_flag = 0, pk_endFlag = END_FLAG\<rparr>"

definition sendPacketToMessageQueue :: "SocketBuf \<Rightarrow> cxx_string \<Rightarrow> MsgData" where
  "sendPacketToMessageQueue b data =
     (let (port, ip) = convertDataPackPortAndIpToInt (sb_portAndIp b)
      in \<lparr>md_type = E_WORK, md_fd = sb_fd b, md_port = port, md_ip = ip, md_data = data,
          md_pack = snd (apartPackData NetPack_default data), md_id = []\<rparr>)"

text \<open>
  \<open>add_data_to_read_buffer\<close>: its result, the changed object and the messages pushed on the
  work queue in order. \<open>None\<close> is a null \<open>data\<close> pointer.
\<close>

definition add_data_to_read_buffer ::
    "SocketBuf \<Rightarrow> cxx_string option \<Rightarrow> bool \<times> SocketBuf \<times> MsgData list" where
  "add_data_to_read_buffer b data =
     (case data of
        None \<Rightarrow> (False, b, [])
      | Some d \<Rightarrow>
          let (ok, cache, sent) = add_data_to_cache (sb_cache b) d
          in (ok, b\<lparr>sb_cache := cache\<rparr>, map (sendPacketToMessageQueue b) sent))"

text \<open>The send side.\<close>

definition isSendCacheEmpty :: "SocketBuf \<Rightarrow> bool" where
  "isSendCacheEmpty b \<longleftrightarrow> length (sb_sendCache b) = 0"

definition PushSendMsg :: "SocketBuf \<Rightarrow> cxx_string \<Rightarrow> SocketBuf" where
  "PushSendMsg b data = b\<lparr>sb_sendCache := sb_sendCache b @ data\<rparr>"

text \<open>
  The size is compared as an \<open>int\<close>; a negative count becomes a huge one in \<open>erase\<close>.
\<close>

definition popAndSendMessageRequest :: "SocketBuf \<Rightarrow> 32 word \<Rightarrow> SocketBuf" where
  "popAndSendMessageRequest b n =
     (let sz = length (sb_sendCache b) in
      if sint n \<le> sint (of_nat sz :: 32 word)
      then b\<lparr>sb_sendCache := drop (unat (scast n :: u64)) (sb_sendCache b)\<rparr>
      else b\<lparr>sb_sendCache := drop sz (sb_sendCache b)\<rparr>)"

lemma port_ip_round_trip: "convertDataPackPortAndIpToInt (dataPackPortAndIp port ip) = (port, ip)"
proof -
  have "ucast (drop_bit 32 (dataPackPortAndIp port ip)) = port"
    by (rule bit_word_eqI) (auto simp: dataPackPortAndIp_def bit_simps dest: bit_imp_le_length)
  moreover have "ucast (drop_bit 32 (push_bit 32 (dataPackPortAndIp port ip))) = ip"
    by (rule bit_word_eqI) (auto simp: dataPackPortAndIp_def bit_simps)
  ultimately show ?thesis by (simp add: convertDataPackPortAndIpToInt_def)
qed

text \<open>Reads of a socket, one after the other.\<close>

fun receive :: "SocketBuf \<Rightarrow> cxx_string list \<Rightarrow> bool \<times> SocketBuf \<times> MsgData list" where
  "receive b [] = (True, b, [])"
| "receive b (d # ds) =
     (let (ok, b1, out) = add_data_to_read_buffer b (Some d);
          (ok', b2, out') = receive b1 ds
      in (ok \<and> ok', b2, out @ out'))"

lemma receive_wires:
  assumes "sb_cache b @ concat ds = wires ms" "list_all sendable ms" "list_all (\<lambda>d. d \<noteq> []) ds"
    and "incomplete (sb_cache b)"
  shows "receive b ds = (True, b\<lparr>sb_cache := []\<rparr>, map (sendPacketToMessageQueue b) (bodies ms))"
  using assms
proof (induction ds arbitrary: b ms)
  case Nil
  have "ms = []"
  proof (cases ms)
    case (Cons m ns)
    obtain ser pr where m: "m = (ser, pr)" by (cases m)
    have "unat (load_u32 (wire ser pr @ wires ns) 0) = length ser + 12"
      using Nil.prems(2) Cons m by (intro wire_length_word) (simp add: sendable_def)
    with Nil.prems Cons m show ?thesis by (simp add: incomplete_def)
  qed simp
  with Nil show ?case by simp
next
  case (Cons d ds)
  have "(sb_cache b @ d) @ concat ds = wires ms" using Cons.prems(1) by simp
  from prefix_wires [OF this Cons.prems(2)] obtain k r where
    k: "sb_cache b @ d = wires (take k ms) @ r" "incomplete r" "r @ concat ds = wires (drop k ms)" by blast
  have s: "list_all sendable (take k ms)" "list_all sendable (drop k ms)"
    using Cons.prems(2) by (auto simp: list_all_iff dest: in_set_takeD in_set_dropD)
  have a: "add_data_to_cache (sb_cache b) d = (True, r, bodies (take k ms))"
    using add_data_wires [OF k(1) _ s(1) k(2)] Cons.prems(3) by simp
  have "receive (b\<lparr>sb_cache := r\<rparr>) ds =
      (True, b\<lparr>sb_cache := []\<rparr>, map (sendPacketToMessageQueue (b\<lparr>sb_cache := r\<rparr>)) (bodies (drop k ms)))"
    using Cons.IH [of "b\<lparr>sb_cache := r\<rparr>" "drop k ms"] k s Cons.prems(3) by simp
  moreover have "sendPacketToMessageQueue (b\<lparr>sb_cache := r\<rparr>) = sendPacketToMessageQueue b"
    by (simp add: fun_eq_iff sendPacketToMessageQueue_def)
  moreover have "bodies (take k ms) @ bodies (drop k ms) = bodies ms"
    by (metis append_take_drop_id bodies_simps(3))
  ultimately show ?case
    using a by (simp add: add_data_to_read_buffer_def flip: map_append)
qed

subsection \<open>What the checksum detects\<close>

lemma unat_adler_step:
  assumes "unat (a :: u32) < 65521" "x < 65536"
  shows "unat ((a + of_nat x) mod MOD_ADLER) = (unat a + x) mod 65521"
proof -
  have "unat (of_nat x :: u32) = x" using assms by (intro unat_of_nat_u32) simp
  then have "unat (a + of_nat x) = unat a + x"
    using assms by (simp add: unat_word_ariths)
  then show ?thesis by (simp add: MOD_ADLER_def unat_mod_distrib)
qed

lemma adler32_loop_sum:
  assumes "unat a < 65521"
  shows "unat (fst (adler32_loop cs a b)) = (unat a + sum_list (map byte cs)) mod 65521"
  using assms
proof (induction cs arbitrary: a b)
  case (Cons c cs)
  let ?a = "(a + of_nat (byte c)) mod MOD_ADLER"
  have "byte c < 65536" using byte_less [of c] by linarith
  then have a: "unat ?a = (unat a + byte c) mod 65521"
    using unat_adler_step [OF Cons.prems] by simp
  then have "unat ?a < 65521" by simp
  from Cons.IH [OF this] a show ?case
    by (simp add: Let_def mod_add_left_eq add.assoc)
qed simp

lemma adler32_low_half:
  "take_bit 16 (unat (adler32 data n)) = (1 + sum_list (map byte (take n data))) mod 65521"
proof -
  obtain a b where ab: "adler32_loop (take n data) 1 0 = (a, b)" by force
  then have a: "unat a = (1 + sum_list (map byte (take n data))) mod 65521"
    using adler32_loop_sum [of 1 "take n data" 0] by simp
  then have lt: "unat a < 65536" by (simp add: order.strict_trans)
  have "take_bit 16 (or (push_bit 16 b) a) = take_bit 16 a"
    by (rule bit_word_eqI) (auto simp: bit_simps)
  then have "take_bit 16 (unat (adler32 data n)) = take_bit 16 (unat a)"
    using ab by (simp add: adler32_def flip: unsigned_take_bit_eq)
  with a lt show ?thesis by (simp add: take_bit_nat_eq_self)
qed

lemma sum_list_update:
  "i < length xs \<Longrightarrow> sum_list (map f (xs[i := c])) + f (xs ! i) = sum_list (map f xs) + (f c :: nat)"
  by (induction xs arbitrary: i) (auto split: nat.splits)

lemma byte_inject: "byte c = byte c' \<longleftrightarrow> c = c'"
  by (simp add: byte_def)

lemma mod_shift_neq:
  assumes "s + x = t + (y::nat)" "x < m" "y < m" "s mod m = t mod m"
  shows "x = y"
proof -
  have "m * (s div m) + s mod m + x = m * (t div m) + t mod m + y"
    using assms(1) by (simp only: mult_div_mod_eq)
  with assms(4) have "m * (s div m) + x = m * (t div m) + y" by linarith
  then have "(m * (s div m) + x) mod m = (m * (t div m) + y) mod m" by (rule arg_cong)
  then have "x mod m = y mod m" by (simp only: mod_mult_self4)
  then show ?thesis using assms(2,3) by simp
qed

lemma adler32_detects:
  assumes "i < length data" "c \<noteq> data ! i"
  shows "adler32 (data[i := c]) (length data) \<noteq> adler32 data (length data)"
proof
  assume "adler32 (data[i := c]) (length data) = adler32 data (length data)"
  then have "(1 + sum_list (map byte (data[i := c]))) mod 65521 = (1 + sum_list (map byte data)) mod 65521"
    using adler32_low_half [of data "length data"] adler32_low_half [of "data[i := c]" "length data"]
    by simp
  moreover have "(1 + sum_list (map byte (data[i := c]))) + byte (data ! i) = (1 + sum_list (map byte data)) + byte c"
    using sum_list_update [OF assms(1), of byte c] by simp
  moreover have "byte (data ! i) < 65521" "byte c < 65521"
    using byte_less [of "data ! i"] byte_less [of c] by linarith+
  ultimately have "byte (data ! i) = byte c" using mod_shift_neq by blast
  with assms(2) show False by (simp add: byte_inject)
qed

subsection \<open>Recovery after a damaged message\<close>

lemma find_end_flag_first:
  assumes "load_u32 s k = END_FLAG" "k + 4 \<le> length s" "\<And>j. i \<le> j \<Longrightarrow> j < k \<Longrightarrow> load_u32 s j \<noteq> END_FLAG" "i \<le> k"
  shows "find_end_flag s i = Some k"
  using assms(3,4)
proof (induction "k - i" arbitrary: i)
  case 0
  then show ?case using assms(1,2) by (subst find_end_flag.simps) simp
next
  case (Suc n)
  have "find_end_flag s (i + 1) = Some k" using Suc.hyps Suc.prems by (intro Suc.hyps(1)) auto
  then show ?case using Suc.hyps Suc.prems assms(2) by (subst find_end_flag.simps) auto
qed

lemma find_end_flag_range: "find_end_flag s i = Some k \<Longrightarrow> i \<le> k \<and> k + 4 \<le> length s \<and> load_u32 s k = END_FLAG"
proof (induction s i rule: find_end_flag.induct)
  case (1 s i)
  from 1(2) show ?case
    by (subst (asm) find_end_flag.simps) (use 1(1) in \<open>auto split: if_splits\<close>)
qed

lemma load_u32_prefix_at: "j + 4 \<le> length s \<Longrightarrow> load_u32 (s @ r) j = load_u32 s j"
  by (auto simp: load_u32_def nth_append)

lemma body_update: "i < length ser \<Longrightarrow> (body ser pr)[i := c] = ser[i := c] @ drop (length ser) (body ser pr)"
  by (simp add: body_def list_update_append1)

lemma wire_update: "(wire ser pr)[4 + i := c] = bytes_u32 (of_nat (length ser + 12)) @ (body ser pr)[i := c]"
  by (simp add: wire_def list_update_append)

lemma damaged_read:
  assumes "sendable (ser, pr)" "i < length ser" "c \<noteq> ser ! i"
  shows "add_data_to_cache [] ((wire ser pr)[4 + i := c] @ rest) =
           (False, CorrectCache ((body ser pr)[i := c] @ rest), [])"
proof -
  let ?bad = "(body ser pr)[i := c]" and ?n = "length ser + 12"
  let ?s = "bytes_u32 (of_nat ?n) @ ?bad @ rest"
  have n: "unat (load_u32 ?s 0) = ?n" "?n \<le> 100000000"
    using assms(1) unat_of_nat_u32 [of ?n] by (simp_all add: sendable_def)
  have tail: "load_u32 (?bad @ rest) (length ser) = adler32 ser (length ser)"
    using body_update [OF assms(2), of pr c] load_u32_at [of "length ser" "ser[i := c]"]
    by (simp add: body_def)
  have "take (length ser) (take ?n (?bad @ rest)) = ser[i := c]"
    using body_update [OF assms(2), of pr c] by simp
  then have "adler32 (take ?n (?bad @ rest)) (length ser) = adler32 (ser[i := c]) (length ser)"
    by (simp add: adler32_def)
  also have "\<dots> \<noteq> adler32 ser (length ser)" using adler32_detects [OF assms(2,3)] by simp
  finally have "read_loop ?n ?s [] = (False, CorrectCache (?bad @ rest), [])"
    using tail by (subst read_loop.simps) (simp add: Let_def)
  with n show ?thesis
    unfolding wire_update by (simp add: add_data_to_cache_def Let_def VerifyCache_def)
qed

lemma damaged_recovery:
  assumes "i < length ser"
    and "\<And>j. j < length ser + 8 \<Longrightarrow> load_u32 ((body ser pr)[i := c]) j \<noteq> END_FLAG"
  shows "CorrectCache ((body ser pr)[i := c] @ rest) = rest"
proof -
  let ?bad = "(body ser pr)[i := c]"
  have "?bad = (ser[i := c] @ bytes_u32 (adler32 ser (length ser)) @ bytes_u32 (and (scast pr) 15)) @ bytes_u32 END_FLAG @ []"
    using body_update [OF assms(1), of pr c] by (simp add: body_def)
  then have "load_u32 ?bad (length ser + 8) = END_FLAG"
    by (metis (no_types, lifting) load_u32_at length_append length_bytes_u32 length_list_update numeral_Bit0)
  then have "load_u32 (?bad @ rest) (length ser + 8) = END_FLAG" by (simp add: load_u32_prefix_at)
  moreover have "load_u32 (?bad @ rest) j \<noteq> END_FLAG" if "j < length ser + 8" for j
    using assms(2) [OF that] that by (simp add: load_u32_prefix_at)
  ultimately have "find_end_flag (?bad @ rest) 0 = Some (length ser + 8)"
    by (intro find_end_flag_first) auto
  then show ?thesis by (simp add: CorrectCache_def)
qed

end
