(* ===== verification/NetBuffers.thy ===== *)
theory NetBuffers
  imports NetFrame
begin

text \<open>
  \<open>bufferControl\<close> (\<open>net/socket_buf.cpp\<close>): the socket buffers of all connections, in a
  \<open>std::map\<close> keyed by port and address. The \<open>shared_ptr\<close>s are owned by the map alone as
  far as these operations go, so an entry is the buffer itself.
\<close>

type_synonym buffers = "(u64, SocketBuf) std_map"

definition SocketBuf_new :: SocketBuf where
  "SocketBuf_new = \<lparr>sb_fd = 0, sb_portAndIp = 0, sb_cache = [], sb_sendCache = []\<rparr>"

definition writeBufferQueue :: "buffers \<Rightarrow> u64 \<Rightarrow> cxx_string" where
  "writeBufferQueue m portAndIp = (case map_of m portAndIp of None \<Rightarrow> [] | Some b \<Rightarrow> sb_sendCache b)"

definition addReadBufferToQueue ::
    "buffers \<Rightarrow> u64 \<Rightarrow> cxx_string option \<Rightarrow> bool \<times> buffers \<times> MsgData list" where
  "addReadBufferToQueue m portAndIp buf =
     (if buf = None \<or> buf = Some [] then (False, m, [])
      else case map_of m portAndIp of
        None \<Rightarrow> (False, m, [])
      | Some b \<Rightarrow> let (ok, b', out) = add_data_to_read_buffer b buf
                  in (ok, map_assign portAndIp b' m, out))"

definition addReadBufferToQueue_ip ::
    "buffers \<Rightarrow> u32 \<Rightarrow> u16 \<Rightarrow> cxx_string option \<Rightarrow> bool \<times> buffers \<times> MsgData list" where
  "addReadBufferToQueue_ip m ip port buf = addReadBufferToQueue m (dataPackPortAndIp port ip) buf"

definition AddBuffer :: "buffers \<Rightarrow> u64 \<Rightarrow> int \<Rightarrow> bool \<times> buffers" where
  "AddBuffer m portAndIp fd =
     (if portAndIp = 0 \<or> fd \<le> 0 then (False, m)
      else if map_of m portAndIp \<noteq> None then (False, m)
      else (True, map_assign portAndIp (SocketBuf_new\<lparr>sb_fd := fd, sb_portAndIp := portAndIp\<rparr>) m))"

definition AddBuffer_ip :: "buffers \<Rightarrow> u32 \<Rightarrow> u16 \<Rightarrow> int \<Rightarrow> bool \<times> buffers" where
  "AddBuffer_ip m ip port fd = AddBuffer m (dataPackPortAndIp port ip) fd"

definition DeleteBuffer :: "buffers \<Rightarrow> u64 \<Rightarrow> bool \<times> buffers" where
  "DeleteBuffer m portAndIp =
     (if portAndIp = 0 then (False, m)
      else if map_of m portAndIp \<noteq> None then (True, map_erase portAndIp m)
      else (False, m))"

definition DeleteBuffer_ip :: "buffers \<Rightarrow> u32 \<Rightarrow> u16 \<Rightarrow> bool \<times> buffers" where
  "DeleteBuffer_ip m ip port = DeleteBuffer m (dataPackPortAndIp port ip)"

text \<open>By descriptor: the first entry in key order with that descriptor.\<close>

definition DeleteBuffer_fd :: "buffers \<Rightarrow> int \<Rightarrow> bool \<times> buffers" where
  "DeleteBuffer_fd m fd =
     (if fd \<le> 0 then (False, m)
      else case find (\<lambda>e. sb_fd (snd e) = fd) m of
        None \<Rightarrow> (False, m)
      | Some e \<Rightarrow> (True, map_erase (fst e) m))"

definition PopAndWriteBufferQueue :: "buffers \<Rightarrow> u64 \<Rightarrow> 32 word \<Rightarrow> buffers" where
  "PopAndWriteBufferQueue m portAndIp n =
     (case map_of m portAndIp of
        None \<Rightarrow> m
      | Some b \<Rightarrow> map_assign portAndIp (popAndSendMessageRequest b n) m)"

definition IsExists :: "buffers \<Rightarrow> u64 \<Rightarrow> bool" where
  "IsExists m portAndIp \<longleftrightarrow> map_of m portAndIp \<noteq> None"

definition IsExists_ip :: "buffers \<Rightarrow> u32 \<Rightarrow> u16 \<Rightarrow> bool" where
  "IsExists_ip m ip port \<longleftrightarrow> IsExists m (dataPackPortAndIp port ip)"

definition GetSocketBuf :: "buffers \<Rightarrow> u32 \<Rightarrow> u16 \<Rightarrow> SocketBuf option" where
  "GetSocketBuf m ip port = map_of m (dataPackPortAndIp port ip)"

definition addWritePack :: "buffers \<Rightarrow> u64 \<Rightarrow> cxx_string \<Rightarrow> bool \<times> buffers" where
  "addWritePack m portAndIp iosMsg =
     (if length iosMsg = 0 then (False, m)
      else case map_of m portAndIp of
        None \<Rightarrow> (False, m)
      | Some b \<Rightarrow> (True, map_assign portAndIp (PushSendMsg b iosMsg) m))"

text \<open>The overload on address and port drops the result and answers true.\<close>

definition addWritePack_ip :: "buffers \<Rightarrow> u32 \<Rightarrow> u16 \<Rightarrow> cxx_string \<Rightarrow> bool \<times> buffers" where
  "addWritePack_ip m ip port iosMsg = (True, snd (addWritePack m (dataPackPortAndIp port ip) iosMsg))"

definition IsCacheEmpty :: "buffers \<Rightarrow> u32 \<Rightarrow> u16 \<Rightarrow> bool" where
  "IsCacheEmpty m ip port =
     (case map_of m (dataPackPortAndIp port ip) of None \<Rightarrow> True | Some b \<Rightarrow> isSendCacheEmpty b)"

subsection \<open>The invariant of the table\<close>

text \<open>
  Ascending keys, every entry under its own key, with a non-zero key and a positive descriptor.
\<close>

definition buffers_ok :: "buffers \<Rightarrow> bool" where
  "buffers_ok m \<longleftrightarrow> ordered_map m \<and>
     (\<forall>k b. map_of m k = Some b \<longrightarrow> sb_portAndIp b = k \<and> k \<noteq> 0 \<and> 0 < sb_fd b)"

datatype buf_op =
    AddB u64 int
  | DelB u64
  | DelFd int
  | ReadB u64 "cxx_string option"
  | WriteB u64 cxx_string
  | PopB u64 "32 word"

fun buf_exec :: "buffers \<Rightarrow> buf_op \<Rightarrow> buffers \<times> MsgData list" where
  "buf_exec m (AddB k fd) = (snd (AddBuffer m k fd), [])"
| "buf_exec m (DelB k) = (snd (DeleteBuffer m k), [])"
| "buf_exec m (DelFd fd) = (snd (DeleteBuffer_fd m fd), [])"
| "buf_exec m (ReadB k d) = snd (addReadBufferToQueue m k d)"
| "buf_exec m (WriteB k s) = (snd (addWritePack m k s), [])"
| "buf_exec m (PopB k n) = (PopAndWriteBufferQueue m k n, [])"

fun buf_run :: "buffers \<Rightarrow> buf_op list \<Rightarrow> buffers \<times> MsgData list" where
  "buf_run m [] = (m, [])"
| "buf_run m (x # xs) =
     (let (m1, out) = buf_exec m x; (m2, out') = buf_run m1 xs in (m2, out @ out'))"

lemma add_data_keeps:
  "add_data_to_read_buffer b d = (ok, b', out) \<Longrightarrow>
   sb_portAndIp b' = sb_portAndIp b \<and> sb_fd b' = sb_fd b \<and> sb_sendCache b' = sb_sendCache b"
  by (auto simp: add_data_to_read_buffer_def split: option.splits prod.splits)

lemma pop_keeps:
  "sb_portAndIp (popAndSendMessageRequest b n) = sb_portAndIp b \<and>
   sb_fd (popAndSendMessageRequest b n) = sb_fd b \<and> sb_cache (popAndSendMessageRequest b n) = sb_cache b"
  by (simp add: popAndSendMessageRequest_def Let_def)

lemma buffers_ok_assign:
  "buffers_ok m \<Longrightarrow> sb_portAndIp b = k \<Longrightarrow> k \<noteq> 0 \<Longrightarrow> 0 < sb_fd b \<Longrightarrow> buffers_ok (map_assign k b m)"
  by (auto simp: buffers_ok_def)

lemma buffers_ok_erase: "buffers_ok m \<Longrightarrow> buffers_ok (map_erase k m)"
  by (auto simp: buffers_ok_def split: if_splits)

lemma buf_exec_ok: "buffers_ok m \<Longrightarrow> buffers_ok (fst (buf_exec m x))"
proof (cases x)
  case (ReadB k d)
  assume ok: "buffers_ok m"
  show ?thesis
  proof (cases "d = None \<or> d = Some [] \<or> map_of m k = None")
    case False
    then obtain b where b: "map_of m k = Some b" by blast
    obtain okb b' out where a: "add_data_to_read_buffer b d = (okb, b', out)" by (metis prod_cases3)
    have "buffers_ok (map_assign k b' m)"
      using ok b add_data_keeps [OF a] by (intro buffers_ok_assign) (auto simp: buffers_ok_def)
    with False b a ReadB show ?thesis by (auto simp: addReadBufferToQueue_def)
  qed (use ok ReadB in \<open>auto simp: addReadBufferToQueue_def split: option.splits\<close>)
next
  case (AddB k fd)
  then show "buffers_ok m \<Longrightarrow> ?thesis"
    by (auto simp: AddBuffer_def SocketBuf_new_def intro: buffers_ok_assign)
next
  case (WriteB k s)
  then show "buffers_ok m \<Longrightarrow> ?thesis"
    by (auto simp: addWritePack_def PushSendMsg_def buffers_ok_def intro!: buffers_ok_assign split: option.splits)
next
  case (PopB k n)
  then show "buffers_ok m \<Longrightarrow> ?thesis"
    by (auto simp: PopAndWriteBufferQueue_def buffers_ok_def pop_keeps split: option.splits)
qed (auto simp: DeleteBuffer_def DeleteBuffer_fd_def intro: buffers_ok_erase split: option.splits)

lemma buf_run_ok: "buffers_ok m \<Longrightarrow> buffers_ok (fst (buf_run m xs))"
proof (induction xs arbitrary: m)
  case (Cons x xs)
  from Cons.IH [OF buf_exec_ok [OF Cons.prems]] show ?case by (simp add: split_beta Let_def)
qed simp

subsection \<open>Interleaved reads of several connections\<close>

text \<open>The chunks of one connection in a run of reads, and the messages it queued.\<close>

definition chunks_of :: "u64 \<Rightarrow> (u64 \<times> cxx_string) list \<Rightarrow> cxx_string list" where
  "chunks_of k rs = map snd (filter (\<lambda>r. fst r = k) rs)"

definition messages_of :: "u64 \<Rightarrow> MsgData list \<Rightarrow> MsgData list" where
  "messages_of k ms = filter (\<lambda>m. (md_port m, md_ip m) = convertDataPackPortAndIpToInt k) ms"

fun read_all :: "buffers \<Rightarrow> (u64 \<times> cxx_string) list \<Rightarrow> buffers \<times> MsgData list" where
  "read_all m [] = (m, [])"
| "read_all m ((k, d) # rs) =
     (let (ok, m1, out) = addReadBufferToQueue m k (Some d); (m2, out') = read_all m1 rs
      in (m2, out @ out'))"

definition port_ip_key :: "u64 \<Rightarrow> bool" where
  "port_ip_key k \<longleftrightarrow> (\<exists>port ip. k = dataPackPortAndIp port ip)"

lemma port_ip_key_inject:
  "port_ip_key k \<Longrightarrow> port_ip_key k' \<Longrightarrow>
   convertDataPackPortAndIpToInt k = convertDataPackPortAndIpToInt k' \<Longrightarrow> k = k'"
  by (auto simp: port_ip_key_def port_ip_round_trip)

lemma messages_of_append [simp]: "messages_of k (xs @ ys) = messages_of k xs @ messages_of k ys"
  by (simp add: messages_of_def)

lemma sent_port_ip:
  "md \<in> set (map (sendPacketToMessageQueue b) ds) \<Longrightarrow>
   (md_port md, md_ip md) = convertDataPackPortAndIpToInt (sb_portAndIp b)"
  by (auto simp: sendPacketToMessageQueue_def split: prod.splits)

lemma add_data_messages:
  assumes "add_data_to_read_buffer b d = (ok, b', out)"
  shows "messages_of k out =
    (if convertDataPackPortAndIpToInt (sb_portAndIp b) = convertDataPackPortAndIpToInt k then out else [])"
proof -
  have "(md_port md, md_ip md) = convertDataPackPortAndIpToInt (sb_portAndIp b)" if "md \<in> set out" for md
    using assms that sent_port_ip [of md b]
    by (auto simp: add_data_to_read_buffer_def split: option.splits prod.splits)
  then show ?thesis by (auto simp: messages_of_def filter_id_conv filter_empty_conv)
qed

lemma read_all_projects:
  assumes "buffers_ok m" "map_of m k = Some b" "port_ip_key k"
    and "\<forall>(k', d)\<in>set rs. port_ip_key k' \<and> d \<noteq> []"
  shows "\<exists>ok b'. receive b (chunks_of k rs) = (ok, b', messages_of k (snd (read_all m rs)))
           \<and> map_of (fst (read_all m rs)) k = Some b'"
  using assms
proof (induction rs arbitrary: m b)
  case Nil
  then show ?case by (auto simp: chunks_of_def messages_of_def)
next
  case (Cons r rs)
  obtain k' d where r: "r = (k', d)" by (cases r)
  have d: "d \<noteq> []" and pk: "port_ip_key k'" using Cons.prems(4) r by auto
  obtain ok1 m1 out1 where a: "addReadBufferToQueue m k' (Some d) = (ok1, m1, out1)" by (metis prod_cases3)
  have ok1: "buffers_ok m1"
    using buf_exec_ok [OF Cons.prems(1), of "ReadB k' (Some d)"] a by simp
  have rest: "\<forall>(k', d)\<in>set rs. port_ip_key k' \<and> d \<noteq> []" using Cons.prems(4) by auto
  show ?case
  proof (cases "k' = k")
    case True
    obtain okb b1 out where ad: "add_data_to_read_buffer b (Some d) = (okb, b1, out)" by (metis prod_cases3)
    with a True d Cons.prems(2) have m1: "m1 = map_assign k b1 m" "out1 = out"
      by (auto simp: addReadBufferToQueue_def)
    have "sb_portAndIp b = k" using Cons.prems(1,2) by (auto simp: buffers_ok_def)
    then have o: "messages_of k out = out" using add_data_messages [OF ad] by simp
    have "map_of m1 k = Some b1" using m1 by simp
    from Cons.IH [OF ok1 this Cons.prems(3) rest] show ?thesis
      using r True a ad o m1(2) by (auto simp: chunks_of_def split_beta Let_def)
  next
    case False
    have "messages_of k out1 = [] \<and> map_of m1 k = Some b"
    proof (cases "map_of m k'")
      case None
      with a d Cons.prems(2) show ?thesis by (auto simp: addReadBufferToQueue_def messages_of_def)
    next
      case (Some c)
      obtain okb c1 out where ad: "add_data_to_read_buffer c (Some d) = (okb, c1, out)" by (metis prod_cases3)
      have "sb_portAndIp c = k'" using Cons.prems(1) Some by (auto simp: buffers_ok_def)
      then have "messages_of k out = []"
        using add_data_messages [OF ad, of k] False port_ip_key_inject [OF pk Cons.prems(3)] by auto
      with a ad d Some False Cons.prems(2) show ?thesis by (auto simp: addReadBufferToQueue_def)
    qed
    with Cons.IH [OF ok1 _ Cons.prems(3) rest, of b] show ?thesis
      using r a False by (auto simp: chunks_of_def split_beta Let_def)
  qed
qed

end
