(* ===== verification/NetQueue.thy ===== *)
theory NetQueue
  imports NetFrame "HOL-Library.Multiset"
begin

text \<open>
  The two hand-over structures between threads: the bounded priority queue \<open>MsgQueue\<close>
  (\<open>net/msg_queue.h\<close>) and the response collector \<open>GlobalDataManager\<close>
  (\<open>common/global_data.cpp\<close>). Every method holds the structure's mutex, so a run is a
  sequence of whole method calls.
\<close>

subsection \<open>MsgQueue\<close>

text \<open>
  \<open>std::priority_queue\<close> with \<open>compareMessageDataRequest\<close>: the top is some message that no
  other one outranks; which of several equals it is depends on the heap, so the queue is a
  multiset and the pop a relation. A call that blocks takes no step.
\<close>

definition compareMessageDataRequest :: "MsgData \<Rightarrow> MsgData \<Rightarrow> bool" where
  "compareMessageDataRequest a b \<longleftrightarrow> and (pk_flag (md_pack a)) 15 < and (pk_flag (md_pack b)) 15"

record MsgQueue =
  msgQueue :: "MsgData multiset"
  maxSize :: nat

definition MsgQueue_new :: MsgQueue where
  "MsgQueue_new = \<lparr>msgQueue = {#}, maxSize = 10000 * 5\<rparr>"

definition IsFull :: "MsgQueue \<Rightarrow> bool" where
  "IsFull q \<longleftrightarrow> size (msgQueue q) = maxSize q"

definition IsEmpty :: "MsgQueue \<Rightarrow> bool" where
  "IsEmpty q \<longleftrightarrow> msgQueue q = {#}"

definition is_top :: "MsgData \<Rightarrow> MsgQueue \<Rightarrow> bool" where
  "is_top m q \<longleftrightarrow> m \<in># msgQueue q \<and> (\<forall>x\<in>#msgQueue q. \<not> compareMessageDataRequest m x)"

datatype mq_event = Pushed MsgData | Popped MsgData

inductive mq_step :: "MsgQueue \<Rightarrow> mq_event \<Rightarrow> MsgQueue \<Rightarrow> bool" where
  Push: "\<not> IsFull q \<Longrightarrow> mq_step q (Pushed m) (q\<lparr>msgQueue := add_mset m (msgQueue q)\<rparr>)"
| tryWaitTop: "\<not> IsEmpty q \<Longrightarrow> is_top m q \<Longrightarrow>
    mq_step q (Popped m) (q\<lparr>msgQueue := msgQueue q - {#m#}\<rparr>)"

inductive mq_run :: "MsgQueue \<Rightarrow> mq_event list \<Rightarrow> MsgQueue \<Rightarrow> bool" where
  mq_start: "mq_run q [] q"
| mq_next: "mq_run q es q1 \<Longrightarrow> mq_step q1 e q2 \<Longrightarrow> mq_run q (es @ [e]) q2"

inductive_cases mq_pushE: "mq_step q (Pushed m) q'"
inductive_cases mq_popE: "mq_step q (Popped m) q'"

fun pushed_of :: "mq_event list \<Rightarrow> MsgData multiset" where
  "pushed_of [] = {#}"
| "pushed_of (Pushed m # es) = add_mset m (pushed_of es)"
| "pushed_of (Popped m # es) = pushed_of es"

fun popped_of :: "mq_event list \<Rightarrow> MsgData multiset" where
  "popped_of [] = {#}"
| "popped_of (Popped m # es) = add_mset m (popped_of es)"
| "popped_of (Pushed m # es) = popped_of es"

lemma pushed_of_append: "pushed_of (es @ fs) = pushed_of es + pushed_of fs"
  by (induction es rule: pushed_of.induct) auto

lemma popped_of_append: "popped_of (es @ fs) = popped_of es + popped_of fs"
  by (induction es rule: popped_of.induct) auto

lemma mq_step_facts:
  assumes "mq_step q e q'" "size (msgQueue q) \<le> maxSize q"
  shows "maxSize q' = maxSize q \<and> size (msgQueue q') \<le> maxSize q'
    \<and> msgQueue q + pushed_of [e] = msgQueue q' + popped_of [e]"
  using assms
proof cases
  case (Push m)
  with assms(2) show ?thesis by (auto simp: IsFull_def)
next
  case (tryWaitTop m)
  then have "m \<in># msgQueue q" by (simp add: is_top_def)
  with tryWaitTop assms(2) show ?thesis by (auto simp: size_Diff_singleton)
qed

lemma mq_run_facts:
  "mq_run q es q' \<Longrightarrow> size (msgQueue q) \<le> maxSize q \<Longrightarrow>
   maxSize q' = maxSize q \<and> size (msgQueue q') \<le> maxSize q'
    \<and> msgQueue q + pushed_of es = msgQueue q' + popped_of es"
proof (induction rule: mq_run.induct)
  case (mq_next q es q1 e q2)
  with mq_step_facts [OF mq_next.hyps(2)] show ?case
    by (auto simp: pushed_of_append popped_of_append)
       (metis union_assoc union_commute)
qed simp

subsection \<open>GlobalDataManager\<close>

record GlobalData =
  gd_timeOutSec :: u32
  gd_retNum :: u32
  gd_data :: "cxx_string list"
  gd_res_ids :: "cxx_string set"

type_synonym global_data = "(cxx_string, GlobalData) std_map"

text \<open>
  The message id is the hash of the current time stamp; the hash function and the clock are
  arguments. \<open>insert\<close> keeps an entry that is there already.
\<close>

definition CreateWait ::
    "(cxx_string \<Rightarrow> cxx_string) \<Rightarrow> u64 \<Rightarrow> global_data \<Rightarrow> u32 \<Rightarrow> u32 \<Rightarrow> bool \<times> cxx_string \<times> global_data" where
  "CreateWait sha256 now g timeOutSec retNum =
     (let outMsgId = sha256 (to_string now);
          dataPtr = \<lparr>gd_timeOutSec = timeOutSec, gd_retNum = retNum, gd_data = [], gd_res_ids = {}\<rparr>
      in (True, outMsgId, if map_of g outMsgId = None then map_assign outMsgId dataPtr g else g))"

definition AddResNode :: "global_data \<Rightarrow> cxx_string \<Rightarrow> cxx_string \<Rightarrow> bool \<times> global_data" where
  "AddResNode g msgId resId =
     (case map_of g msgId of
        None \<Rightarrow> (False, g)
      | Some d \<Rightarrow> (True, map_assign msgId (d\<lparr>gd_res_ids := insert resId (gd_res_ids d)\<rparr>) g))"

text \<open>The third component: whether the waiting thread is notified.\<close>

definition waitDataToAdd ::
    "global_data \<Rightarrow> cxx_string \<Rightarrow> cxx_string \<Rightarrow> cxx_string \<Rightarrow> bool \<times> global_data \<times> bool" where
  "waitDataToAdd g msgId resId data =
     (case map_of g msgId of
        None \<Rightarrow> (False, g, False)
      | Some d \<Rightarrow>
          if resId \<notin> gd_res_ids d then (False, g, False)
          else let d' = d\<lparr>gd_res_ids := gd_res_ids d - {resId}, gd_data := gd_data d @ [data]\<rparr>
               in (True, map_assign msgId d' g, unat (gd_retNum d') \<le> length (gd_data d')))"

text \<open>
  \<open>WaitData\<close> up to its \<open>wait_for\<close>: \<open>None\<close> when it returns at once with false, otherwise
  whether it waits; and what it does after the wait has ended, for whatever reason (the entry is
  the one it looked up: nobody but the waiter of a message id erases it).
\<close>

definition WaitData_waits :: "global_data \<Rightarrow> cxx_string \<Rightarrow> bool option" where
  "WaitData_waits g msgId =
     (case map_of g msgId of None \<Rightarrow> None | Some d \<Rightarrow> Some (length (gd_data d) < unat (gd_retNum d)))"

definition WaitData_finish :: "global_data \<Rightarrow> cxx_string \<Rightarrow> bool \<times> cxx_string list \<times> global_data" where
  "WaitData_finish g msgId =
     (case map_of g msgId of
        None \<Rightarrow> (False, [], g)
      | Some d \<Rightarrow> (unat (gd_retNum d) \<le> length (gd_data d), gd_data d, map_erase msgId g))"

text \<open>Registering nodes and receiving responses, one call after the other.\<close>

fun register :: "global_data \<Rightarrow> cxx_string \<Rightarrow> cxx_string list \<Rightarrow> global_data" where
  "register g msgId [] = g"
| "register g msgId (r # rs) = register (snd (AddResNode g msgId r)) msgId rs"

fun respond :: "global_data \<Rightarrow> (cxx_string \<times> cxx_string \<times> cxx_string) list \<Rightarrow> global_data" where
  "respond g [] = g"
| "respond g ((msgId, resId, data) # xs) = respond (fst (snd (waitDataToAdd g msgId resId data))) xs"

text \<open>What should be collected: the first response of every registered node, in order of arrival.\<close>

fun first_responses :: "cxx_string set \<Rightarrow> (cxx_string \<times> cxx_string) list \<Rightarrow> cxx_string list" where
  "first_responses ids [] = []"
| "first_responses ids ((r, d) # xs) =
     (if r \<in> ids then d # first_responses (ids - {r}) xs else first_responses ids xs)"

definition responses_to :: "cxx_string \<Rightarrow> (cxx_string \<times> cxx_string \<times> cxx_string) list \<Rightarrow> (cxx_string \<times> cxx_string) list" where
  "responses_to msgId xs = map snd (filter (\<lambda>x. fst x = msgId) xs)"

lemma register_entry:
  "map_of g msgId = Some d \<Longrightarrow>
   map_of (register g msgId rs) msgId = Some (d\<lparr>gd_res_ids := gd_res_ids d \<union> set rs\<rparr>)"
  by (induction rs arbitrary: g d) (auto simp: AddResNode_def Un_commute insert_commute)

lemma respond_entry:
  "map_of g msgId = Some d \<Longrightarrow>
   \<exists>ids. map_of (respond g xs) msgId =
     Some (d\<lparr>gd_data := gd_data d @ first_responses (gd_res_ids d) (responses_to msgId xs), gd_res_ids := ids\<rparr>)"
proof (induction xs arbitrary: g d)
  case Nil
  then show ?case by (auto simp: responses_to_def intro!: exI [of _ "gd_res_ids d"])
next
  case (Cons x xs)
  obtain m r v where x: "x = (m, r, v)" by (cases x)
  show ?case
  proof (cases "m = msgId \<and> r \<in> gd_res_ids d")
    case True
    let ?d = "d\<lparr>gd_res_ids := gd_res_ids d - {r}, gd_data := gd_data d @ [v]\<rparr>"
    have "map_of (fst (snd (waitDataToAdd g m r v))) msgId = Some ?d"
      using True Cons.prems by (simp add: waitDataToAdd_def Let_def)
    from Cons.IH [OF this] True show ?thesis by (auto simp: x responses_to_def)
  next
    case False
    have "map_of (fst (snd (waitDataToAdd g m r v))) msgId = Some d"
      using False Cons.prems by (auto simp: waitDataToAdd_def Let_def split: option.splits)
    from Cons.IH [OF this] False show ?thesis by (auto simp: x responses_to_def)
  qed
qed

lemma length_first_responses: "finite ids \<Longrightarrow> length (first_responses ids xs) \<le> card ids"
proof (induction ids xs rule: first_responses.induct)
  case (2 ids r d xs)
  then show ?case using card_Suc_Diff1 [of ids r] by auto
qed simp

end
