(* ===== verification/NetProps.thy ===== *)
theory NetProps
  imports NetBuffers NetQueue
begin

text \<open>
  What the network layer promises: messages cross the byte stream intact, in order and whatever
  the segmentation; corrupted ones do not; connections do not disturb each other; the queues
  between threads lose and invent nothing.
\<close>

subsection \<open>Framing\<close>

definition hello :: "(cxx_string \<times> 8 word) list" where
  "hello = [(''ab'', 3), (''c'', 1)]"

definition peer :: SocketBuf where
  "peer = SocketBuf_new\<lparr>sb_fd := 5, sb_portAndIp := dataPackPortAndIp 80 7\<rparr>"

lemma hello_sendable [simp]: "list_all sendable hello"
  by (simp add: hello_def sendable_def)

lemma peer_incomplete [simp]: "incomplete (sb_cache peer)"
  by (simp add: peer_def SocketBuf_new_def incomplete_def)

text \<open>
  A message crosses the wire intact: for every payload below 2 gigabytes the packed message is
  sixteen bytes longer than the payload, its length field counts what follows it, and taking the
  rest apart gives back the very \<open>NetPack\<close> that was sent, checksum, flag and end flag included.
\<close>

theorem pack_apart_round_trip:
  assumes "length ser + 16 < 2 ^ 31"
  shows "\<exists>msg. packageToString (packedCommonMessage ser priority) = Some msg
     \<and> length msg = length ser + 16 \<and> unat (load_u32 msg 0) = length msg - 4
     \<and> apartPackData pk (drop 4 msg) = (True, packedCommonMessage ser priority)"
  using packageToString_wire [OF assms] apart_body [OF assms] wire_length_word [OF assms, of priority "[]"]
  by (simp add: wire_def)

theorem pack_apart_round_trip_witness:
  "\<exists>msg. packageToString (packedCommonMessage ''abc'' 2) = Some msg \<and> length msg = 19"
  using pack_apart_round_trip [of "''abc''" 2] by auto

text \<open>
  C4. The byte stream is cut back into messages: however the network splits the concatenation of
  any messages of acceptable size into reads, a socket buffer that starts at a message boundary accepts every
  read, queues exactly those messages in the order they were sent, each one as the \<open>NetPack\<close>
  its sender built, and ends at a message boundary again.
\<close>

theorem stream_delivers_messages:
  assumes "list_all sendable ms" and "concat reads = wires ms" and "list_all (\<lambda>d. d \<noteq> []) reads"
    and "sb_cache b = []"
  shows "\<exists>out. receive b reads = (True, b, out)
     \<and> map md_pack out = map (\<lambda>(ser, pr). packedCommonMessage ser pr) ms
     \<and> list_all (\<lambda>m. md_fd m = sb_fd b \<and> md_type m = E_WORK) out"
proof -
  have p: "snd (apartPackData NetPack_default (body ser pr)) = packedCommonMessage ser pr"
    if "(ser, pr) \<in> set ms" for ser pr
    using assms(1) that apart_body [of ser NetPack_default pr] by (auto simp: list_all_iff sendable_def)
  have "receive b reads = (True, b, map (sendPacketToMessageQueue b) (bodies ms))"
    using receive_wires [of b reads ms] assms by (simp add: incomplete_def)
  moreover have "map md_pack (map (sendPacketToMessageQueue b) (bodies ms)) = map (\<lambda>(ser, pr). packedCommonMessage ser pr) ms"
    using p by (auto simp: bodies_def sendPacketToMessageQueue_def split_beta)
  moreover have "list_all (\<lambda>m. md_fd m = sb_fd b \<and> md_type m = E_WORK) (map (sendPacketToMessageQueue b) (bodies ms))"
    by (auto simp: sendPacketToMessageQueue_def split_beta list_all_iff)
  ultimately show ?thesis by blast
qed

theorem stream_delivers_messages_witness:
  "\<exists>out. receive peer (map (\<lambda>c. [c]) (wires hello)) = (True, peer, out)
     \<and> map md_pack out = [packedCommonMessage ''ab'' 3, packedCommonMessage ''c'' 1]"
proof -
  have "concat (map (\<lambda>c. [c]) (wires hello)) = wires hello" by (induction "wires hello") auto
  moreover have "list_all (\<lambda>d. d \<noteq> []) (map (\<lambda>c. [c]) (wires hello))" by (simp add: list_all_iff)
  moreover have "sb_cache peer = []" by (simp add: peer_def SocketBuf_new_def)
  ultimately obtain out where
    "receive peer (map (\<lambda>c. [c]) (wires hello)) = (True, peer, out)"
    "map md_pack out = map (\<lambda>(ser, pr). packedCommonMessage ser pr) hello"
    using stream_delivers_messages [OF hello_sendable] by blast
  then show ?thesis by (simp add: hello_def)
qed

text \<open>
  C5. Connections are isolated: in any interleaving of reads from any number of connections, the
  messages queued for one connection are exactly those its own reads would queue alone, so with
  C16 a peer's messages arrive complete and in order whatever the others send.
\<close>

theorem interleaved_connections:
  assumes "buffers_ok m" and "map_of m k = Some b" and "port_ip_key k"
    and "list_all (\<lambda>(k', d). port_ip_key k' \<and> d \<noteq> []) rs"
  shows "\<exists>ok b'. receive b (chunks_of k rs) = (ok, b', messages_of k (snd (read_all m rs)))
           \<and> map_of (fst (read_all m rs)) k = Some b'"
  using read_all_projects [OF assms(1-3)] assms(4) by (simp add: list_all_iff)

theorem interleaved_connections_witness:
  "\<exists>ok b'. receive peer [''ab'', ''cd''] = (ok, b',
     messages_of (dataPackPortAndIp 80 7)
       (snd (read_all (map_assign (dataPackPortAndIp 80 7) peer (map_assign (dataPackPortAndIp 81 7)
          (peer\<lparr>sb_portAndIp := dataPackPortAndIp 81 7\<rparr>) []))
          [(dataPackPortAndIp 80 7, ''ab''), (dataPackPortAndIp 81 7, ''x''), (dataPackPortAndIp 80 7, ''cd'')])))"
proof -
  let ?k = "dataPackPortAndIp 80 7" and ?l = "dataPackPortAndIp 81 7"
  let ?m = "map_assign ?k peer (map_assign ?l (peer\<lparr>sb_portAndIp := ?l\<rparr>) [])"
  have n: "?k \<noteq> ?l" "?k \<noteq> 0" "?l \<noteq> 0" by (simp_all add: dataPackPortAndIp_def)
  have "buffers_ok ?m"
    using n by (intro buffers_ok_assign) (simp_all add: buffers_ok_def peer_def SocketBuf_new_def)
  moreover have "map_of ?m ?k = Some peer" by simp
  moreover have "port_ip_key ?k" by (auto simp: port_ip_key_def)
  moreover have "list_all (\<lambda>(k', d). port_ip_key k' \<and> d \<noteq> []) [(?k, ''ab''), (?l, ''x''), (?k, ''cd'')]"
    by (auto simp: port_ip_key_def)
  ultimately show ?thesis
    using interleaved_connections [of ?m ?k peer "[(?k, ''ab''), (?l, ''x''), (?k, ''cd'')]"] n
    by (auto simp: chunks_of_def)
qed

text \<open>
  Corruption is caught and the stream recovers: one changed payload byte makes the read fail
  and queues nothing, whatever follows in the same read; when no earlier four bytes look like the end flag, the
  cache continues right after the damaged message.
\<close>

theorem corrupted_message_dropped:
  assumes "sendable (ser, pr)" and "i < length ser" and "c \<noteq> ser ! i" and "sb_cache b = []"
  shows "\<exists>b'. add_data_to_read_buffer b (Some ((wire ser pr)[4 + i := c] @ rest)) = (False, b', [])
    \<and> ((\<forall>j<length ser + 8. load_u32 ((body ser pr)[i := c]) j \<noteq> END_FLAG) \<longrightarrow> sb_cache b' = rest)"
  using damaged_read [OF assms(1-3), of rest] damaged_recovery [OF assms(2), of pr c rest] assms(4)
  by (auto simp: add_data_to_read_buffer_def)

theorem corrupted_message_dropped_witness:
  "\<exists>b'. add_data_to_read_buffer peer (Some ((wire ''ab'' 3)[4 := CHR ''z''] @ wire ''c'' 1)) = (False, b', [])"
  using corrupted_message_dropped [of "''ab''" 3 0 "CHR ''z''" peer "wire ''c'' 1"]
  by (auto simp: sendable_def peer_def SocketBuf_new_def)

text \<open>
  An absurd length field cannot stall the connection: a length above 100 million bytes queues
  nothing, the read succeeds, and the cache goes on after the first end flag in it, or is emptied.
\<close>

theorem oversized_length_resyncs:
  assumes "sb_cache b = []" and "4 \<le> length d" and "100000000 < unat (load_u32 d 0)"
    and "length d < 4 + unat (load_u32 d 0)"
  shows "add_data_to_read_buffer b (Some d) = (True, b\<lparr>sb_cache := CorrectCache d\<rparr>, [])
    \<and> (CorrectCache d = [] \<or> (\<exists>k. load_u32 d k = END_FLAG \<and> CorrectCache d = drop (k + 4) d))"
proof -
  have "length (CorrectCache d) < 4 + unat (load_u32 d 0)"
    using length_CorrectCache [of d] assms(4) by linarith
  then have "read_loop (unat (load_u32 d 0)) (CorrectCache d) [] = (True, CorrectCache d, [])"
    by (subst read_loop.simps) simp
  moreover have "d \<noteq> []" using assms(2) by auto
  ultimately show ?thesis
    using assms(1-3)
    by (auto simp: add_data_to_read_buffer_def add_data_to_cache_def Let_def VerifyCache_def
        CorrectCache_def [of d] split: option.splits dest: find_end_flag_range)
qed

theorem oversized_length_resyncs_witness:
  "\<exists>c. add_data_to_read_buffer peer (Some (bytes_u32 4294967295 @ ''xy'')) = (True, peer\<lparr>sb_cache := c\<rparr>, [])"
  using oversized_length_resyncs [of peer "bytes_u32 4294967295 @ ''xy''"]
  by (auto simp: peer_def SocketBuf_new_def)

text \<open>
  The key of a connection determines it: packing port and address into 64 bits and taking them
  apart gives them back, and every operation sequence keeps the buffer table well formed, each
  buffer under the key it carries.
\<close>

theorem buffer_table_invariant:
  assumes "buffers_ok m"
  shows "buffers_ok (fst (buf_run m ops)) \<and>
    convertDataPackPortAndIpToInt (dataPackPortAndIp port ip) = (port, ip)"
  using buf_run_ok [OF assms] port_ip_round_trip by simp

theorem buffer_table_invariant_witness:
  "buffers_ok (fst (buf_run [] [AddB 7 3, AddB 7 4, WriteB 7 ''x'', DelFd 3]))"
  using buffer_table_invariant [of "[]" "[AddB 7 3, AddB 7 4, WriteB 7 ''x'', DelFd 3]"]
  by (simp add: buffers_ok_def)

text \<open>
  The work queue: in every run the queue stays within its 50000 places, and what was pushed is
  what was popped together with what is still waiting; every popped message is one that no waiting
  message outranks.
\<close>

theorem work_queue_conserves:
  assumes "mq_run MsgQueue_new es q"
  shows "size (msgQueue q) \<le> 50000 \<and> pushed_of es = msgQueue q + popped_of es
    \<and> (mq_step q (Popped m) q' \<longrightarrow>
         (\<forall>x\<in>#msgQueue q'. \<not> and (pk_flag (md_pack m)) 15 < and (pk_flag (md_pack x)) 15))"
  using mq_run_facts [OF assms]
  by (auto simp: MsgQueue_new_def is_top_def compareMessageDataRequest_def elim!: mq_popE)
     (meson in_diffD)

theorem work_queue_conserves_witness:
  "\<exists>q m. mq_run MsgQueue_new [Pushed m] q \<and> size (msgQueue q) \<le> 50000 \<and> msgQueue q = {#m#}"
proof -
  let ?m = "sendPacketToMessageQueue peer (body ''ab'' 3)"
  have "mq_step MsgQueue_new (Pushed ?m) (MsgQueue_new\<lparr>msgQueue := add_mset ?m (msgQueue MsgQueue_new)\<rparr>)"
    by (rule mq_step.Push) (simp add: IsFull_def MsgQueue_new_def)
  from mq_next [OF mq_start this]
  have r: "mq_run MsgQueue_new [Pushed ?m] (MsgQueue_new\<lparr>msgQueue := add_mset ?m (msgQueue MsgQueue_new)\<rparr>)" by simp
  from work_queue_conserves [OF this] r show ?thesis by (force simp: MsgQueue_new_def)
qed

text \<open>
  The response collector: whatever responses arrive, for this request and for others and in
  whatever order, the request collects the first response of each registered node and nothing
  else, in order of arrival, so at most one per node; finishing the wait answers them, says whether
  there are as many as asked for, and forgets the request.
\<close>

theorem responses_collected:
  assumes "map_of g msgId = Some d" and "gd_data d = []" and "gd_res_ids d = {}"
  shows "let g' = respond (register g msgId nodes) xs;
             got = first_responses (set nodes) (responses_to msgId xs)
         in WaitData_finish g' msgId = (unat (gd_retNum d) \<le> length got, got, map_erase msgId g')
            \<and> length got \<le> card (set nodes)
            \<and> waitDataToAdd (map_erase msgId g') msgId r v = (False, map_erase msgId g', False)"
proof -
  have "map_of (register g msgId nodes) msgId = Some (d\<lparr>gd_res_ids := set nodes\<rparr>)"
    using register_entry [OF assms(1), of nodes] assms(3) by simp
  from respond_entry [OF this, of xs] assms(2) show ?thesis
    by (auto simp: WaitData_finish_def waitDataToAdd_def Let_def length_first_responses)
qed

theorem responses_collected_witness:
  "\<exists>g. snd (CreateWait id 5 [] 10 2) = (to_string (5::u64), g)
     \<and> fst (snd (WaitData_finish (respond (register g (to_string (5::u64)) [''a'', ''b''])
          [(to_string (5::u64), ''b'', ''1''), (to_string (5::u64), ''b'', ''2''),
           (to_string (5::u64), ''c'', ''3''), (to_string (5::u64), ''a'', ''4'')])
         (to_string (5::u64)))) = [''1'', ''4'']"
proof -
  let ?i = "to_string (5::u64)"
  let ?d = "\<lparr>gd_timeOutSec = 10, gd_retNum = 2, gd_data = [], gd_res_ids = {}\<rparr>"
  have "map_of [(?i, ?d)] ?i = Some ?d" by simp
  from responses_collected [OF this, of "[''a'', ''b'']"
      "[(?i, ''b'', ''1''), (?i, ''b'', ''2''), (?i, ''c'', ''3''), (?i, ''a'', ''4'')]"]
  show ?thesis by (simp add: CreateWait_def Let_def responses_to_def)
qed

end
