(* ===== verification/Trie.thy ===== *)
theory Trie
  imports Prelude
begin

text \<open>
  The Merkle Patricia trie that stores contract state (\<open>mpt/trie.cpp\<close>, \<open>mpt/node.h\<close>): the
  nodes and the operations \<open>Get\<close>, \<open>Insert\<close> and \<open>Update\<close>. A node object is a
  value of the datatype \<open>node\<close>, a \<open>nodePtr\<close> an option of it; the trie owns its nodes, so a
  method that changes a node in place answers the changed node. \<open>ResolveHash\<close>, which loads a
  node from the store, is the argument \<open>rs\<close> of the operations (theory \<open>TrieStore\<close> has the
  code's own).
\<close>

subsection \<open>Nodes\<close>

record NodeFlag =
  nf_hash :: cxx_string
  nf_dirty :: bool

datatype node =
    HashNode cxx_string
  | ValueNode cxx_string
  | ShortNode cxx_string "node option" NodeFlag
  | FullNode "node option list" NodeFlag

type_synonym resolver = "cxx_string \<Rightarrow> node option run"

definition newFlag :: NodeFlag where
  "newFlag = \<lparr>nf_hash = [], nf_dirty = True\<rparr>"

subsection \<open>Keys\<close>

text \<open>The last character doubled, then the terminator; no last character is undefined behaviour.\<close>

definition wrapperKey :: "cxx_string \<Rightarrow> cxx_string run" where
  "wrapperKey str = (if str = [] then Undefined else Ret (str @ [last str] @ ''z''))"

definition HasTerm :: "cxx_string \<Rightarrow> bool" where
  "HasTerm s \<longleftrightarrow> 0 < length s \<and> s ! (length s - 1) = CHR ''z''"

fun PrefixLen :: "cxx_string \<Rightarrow> cxx_string \<Rightarrow> nat" where
  "PrefixLen (x # xs) (y # ys) = (if x \<noteq> y then 0 else Suc (PrefixLen xs ys))"
| "PrefixLen _ _ = 0"

text \<open>The number of a character; \<open>char\<close> is signed.\<close>

definition Toint :: "char \<Rightarrow> int" where
  "Toint c =
     (let b = of_char c; n = (if b < 128 then b else b - 256)
      in if 48 \<le> n \<and> n \<le> 57 then n - 48 else n - 87)"

text \<open>Indexing the array of 17 children: out of its bounds is undefined behaviour.\<close>

definition child_index :: "char \<Rightarrow> nat option" where
  "child_index c = (if 0 \<le> Toint c \<and> Toint c < 17 then Some (nat (Toint c)) else None)"

subsection \<open>Get\<close>

text \<open>
  The pair \<open>ReturnNode\<close>: the value node found and the node that replaces the argument, both
  possibly null. \<open>None\<close> as a whole is a recursion that never ends.
\<close>

partial_function (option) Get_node ::
    "resolver \<Rightarrow> node option \<Rightarrow> cxx_string \<Rightarrow> nat \<Rightarrow> (node option \<times> node option) run option" where
  "Get_node rs n key pos = (case n of
      None \<Rightarrow> Some (Ret (None, None))
    | Some (ValueNode d) \<Rightarrow> Some (Ret (n, n))
    | Some (ShortNode nodeKey nodeVal flags) \<Rightarrow>
        if length key < pos then Some (Throw OutOfRange)
        else if length key - pos < length nodeKey \<or> nodeKey \<noteq> take (length nodeKey) (drop pos key)
        then Some (Ret (None, None))
        else Option.bind (Get_node rs nodeVal key (pos + length nodeKey)) (\<lambda>r.
          Some (bind_run r (\<lambda>(valueNode, newNode).
            Ret (valueNode,
              Some (ShortNode nodeKey (if newNode \<noteq> None then newNode else nodeVal) flags)))))
    | Some (FullNode children flags) \<Rightarrow>
        if length key \<le> pos then Some Undefined
        else (case child_index (key ! pos) of
            None \<Rightarrow> Some Undefined
          | Some i \<Rightarrow>
              Option.bind (Get_node rs (children ! i) key (pos + 1)) (\<lambda>r.
                Some (bind_run r (\<lambda>(valueNode, newNode).
                  Ret (valueNode,
                    Some (FullNode (if newNode \<noteq> None then children[i := newNode] else children) flags))))))
    | Some (HashNode h) \<Rightarrow>
        (case rs h of
            Ret child \<Rightarrow> Get_node rs child key pos
          | Throw e \<Rightarrow> Some (Throw e)
          | Exit \<Rightarrow> Some Exit
          | Diverge \<Rightarrow> None
          | Undefined \<Rightarrow> Some Undefined))"

subsection \<open>Insert\<close>

record ReturnVal =
  rv_dirty :: bool
  rv_node :: "node option"
  rv_err :: int

text \<open>\<open>Insert\<close> under a null node.\<close>

definition Insert_null :: "cxx_string \<Rightarrow> node option \<Rightarrow> ReturnVal" where
  "Insert_null key val = \<lparr>rv_dirty = True, rv_node = Some (ShortNode key val newFlag), rv_err = 0\<rparr>"

text \<open>
  The branch that replaces a short node whose key departs from the inserted key at
  \<open>matchlen\<close>.
\<close>

definition split_short :: "cxx_string \<Rightarrow> node option \<Rightarrow> nat \<Rightarrow> cxx_string \<Rightarrow> node \<Rightarrow> ReturnVal run" where
  "split_short nodeKey nodeVal matchlen key val =
     (let r = Insert_null (drop (matchlen + 1) nodeKey) nodeVal in
      case child_index (nodeKey ! matchlen) of None \<Rightarrow> Undefined | Some i \<Rightarrow>
      if length key < matchlen + 1 then Throw OutOfRange
      else let r1 = Insert_null (drop (matchlen + 1) key) (Some val) in
      case child_index (key ! matchlen) of None \<Rightarrow> Undefined | Some j \<Rightarrow>
      let branch = FullNode ((replicate 17 None)[i := rv_node r, j := rv_node r1]) newFlag in
      if matchlen = 0 then Ret \<lparr>rv_dirty = True, rv_node = Some branch, rv_err = 0\<rparr>
      else Ret \<lparr>rv_dirty = True, rv_node = Some (ShortNode (take matchlen nodeKey) (Some branch) newFlag),
                rv_err = 0\<rparr>)"

text \<open>
  \<open>Insert\<close>; its \<open>prefix\<close> argument is only handed to \<open>ResolveHash\<close>, which ignores it.
\<close>

partial_function (option) Insert_node ::
    "resolver \<Rightarrow> node option \<Rightarrow> cxx_string \<Rightarrow> node \<Rightarrow> ReturnVal run option" where
  "Insert_node rs n key val = (case n of
      None \<Rightarrow> Some (Ret (Insert_null key (Some val)))
    | Some (ShortNode nodeKey nodeVal flags) \<Rightarrow>
        (let matchlen = PrefixLen key nodeKey in
         if matchlen = length nodeKey then
           Option.bind (Insert_node rs nodeVal (drop matchlen key) val) (\<lambda>r.
             Some (bind_run r (\<lambda>r.
               if \<not> rv_dirty r \<or> rv_err r \<noteq> 0
               then Ret \<lparr>rv_dirty = False, rv_node = n, rv_err = rv_err r\<rparr>
               else Ret \<lparr>rv_dirty = True, rv_node = Some (ShortNode nodeKey (rv_node r) newFlag), rv_err = 0\<rparr>)))
         else Some (split_short nodeKey nodeVal matchlen key val))
    | Some (FullNode children flags) \<Rightarrow>
        if key = [] then Some Undefined
        else (case child_index (hd key) of
            None \<Rightarrow> Some Undefined
          | Some i \<Rightarrow>
              Option.bind (Insert_node rs (children ! i) (tl key) val) (\<lambda>r.
                Some (bind_run r (\<lambda>r.
                  if \<not> rv_dirty r \<or> rv_err r \<noteq> 0
                  then Ret \<lparr>rv_dirty = False, rv_node = n, rv_err = rv_err r\<rparr>
                  else Ret \<lparr>rv_dirty = True, rv_node = Some (FullNode (children[i := rv_node r]) newFlag),
                            rv_err = 0\<rparr>))))
    | Some (HashNode h) \<Rightarrow>
        (case rs h of
            Ret rn \<Rightarrow>
              Option.bind (Insert_node rs rn key val) (\<lambda>r.
                Some (bind_run r (\<lambda>r.
                  if \<not> rv_dirty r \<or> rv_err r \<noteq> 0
                  then Ret \<lparr>rv_dirty = False, rv_node = rn, rv_err = rv_err r\<rparr>
                  else Ret \<lparr>rv_dirty = True, rv_node = rv_node r, rv_err = 0\<rparr>)))
          | Throw e \<Rightarrow> Some (Throw e)
          | Exit \<Rightarrow> Some Exit
          | Diverge \<Rightarrow> None
          | Undefined \<Rightarrow> Some Undefined)
    | Some (ValueNode va) \<Rightarrow>
        if length key = 0 then
          (case val of
              ValueNode vb \<Rightarrow>
                if va = vb then Some (Ret \<lparr>rv_dirty = False, rv_node = Some val, rv_err = 0\<rparr>)
                else Some (Ret \<lparr>rv_dirty = True, rv_node = Some val, rv_err = 0\<rparr>)
            | _ \<Rightarrow> Some Undefined)
        else Some (Ret \<lparr>rv_dirty = True, rv_node = None, rv_err = 0\<rparr>))"

subsection \<open>The Trie object\<close>

record trie =
  tr_root :: "node option"
  tr_contractAddr :: cxx_string
  tr_dirtyHash :: "(cxx_string, cxx_string) std_map"

text \<open>
  \<open>Get\<close> replaces the root when it found a value; when it did not, a short or full root has
  still been changed in place (\<open>newNode\<close> is that object), any other root has not.
\<close>

definition Get :: "resolver \<Rightarrow> trie \<Rightarrow> cxx_string \<Rightarrow> (cxx_string \<times> trie) run" where
  "Get rs t key =
     bind_run (wrapperKey key) (\<lambda>k.
     bind_run (case Get_node rs (tr_root t) k 0 of None \<Rightarrow> Diverge | Some r \<Rightarrow> r) (\<lambda>(valueNode, newNode).
       case valueNode of
         Some (ValueNode d) \<Rightarrow> Ret (d, t\<lparr>tr_root := newNode\<rparr>)
       | Some _ \<Rightarrow> Undefined
       | None \<Rightarrow>
           Ret ([], case tr_root t of
               Some (HashNode _) \<Rightarrow> t
             | _ \<Rightarrow> if newNode \<noteq> None then t\<lparr>tr_root := newNode\<rparr> else t)))"

definition Update :: "resolver \<Rightarrow> trie \<Rightarrow> cxx_string \<Rightarrow> cxx_string \<Rightarrow> trie run" where
  "Update rs t key val =
     bind_run (wrapperKey key) (\<lambda>k.
       if length val \<noteq> 0 then
         bind_run (case Insert_node rs (tr_root t) k (ValueNode val) of None \<Rightarrow> Diverge | Some r \<Rightarrow> r) (\<lambda>r.
           Ret (t\<lparr>tr_root := rv_node r\<rparr>))
       else Ret t)"

subsection \<open>What a trie holds\<close>

text \<open>\<open>entry rs n ks d\<close>: below node \<open>n\<close> the rest \<open>ks\<close> of a key leads to the value \<open>d\<close>.\<close>

inductive entry :: "resolver \<Rightarrow> node \<Rightarrow> cxx_string \<Rightarrow> cxx_string \<Rightarrow> bool" for rs where
  entry_value: "entry rs (ValueNode d) [] d"
| entry_short: "entry rs v ks d \<Longrightarrow> entry rs (ShortNode k (Some v) fl) (k @ ks) d"
| entry_full: "child_index c = Some i \<Longrightarrow> i < length cs \<Longrightarrow> cs ! i = Some n \<Longrightarrow> entry rs n ks d \<Longrightarrow>
    entry rs (FullNode cs fl) (c # ks) d"
| entry_hash: "rs h = Ret (Some n) \<Longrightarrow> entry rs n ks d \<Longrightarrow> entry rs (HashNode h) ks d"

inductive_simps entry_simps:
  "entry rs (ValueNode d') ks d"
  "entry rs (ShortNode k v fl) ks d"
  "entry rs (FullNode cs fl) ks d"
  "entry rs (HashNode h) ks d"

text \<open>A full node by the character it branches on.\<close>

lemma entry_full_Nil [simp]: "\<not> entry rs (FullNode cs fl) [] d"
  by (auto simp: entry_simps)

lemma entry_full_Cons [simp]:
  "entry rs (FullNode cs fl) (c # ks) d \<longleftrightarrow>
   (\<exists>i n. child_index c = Some i \<and> i < length cs \<and> cs ! i = Some n \<and> entry rs n ks d)"
  by (auto simp: entry_simps)

lemma entry_unique: "entry rs n ks d \<Longrightarrow> entry rs n ks d' \<Longrightarrow> d = d'"
  by (induction arbitrary: d' rule: entry.induct) (auto simp: entry_simps)

text \<open>
  The keys of a contract: hexadecimal digits followed by the terminator. \<open>key_ok m k\<close>: the
  characters \<open>k\<close> are well placed in a key of which \<open>m\<close> characters are left.
\<close>

definition is_hex :: "char \<Rightarrow> bool" where
  "is_hex c \<longleftrightarrow> c \<in> set ''0123456789abcdef''"

definition key_ok :: "nat \<Rightarrow> cxx_string \<Rightarrow> bool" where
  "key_ok m k \<longleftrightarrow> length k \<le> m \<and>
     (\<forall>i<length k. if Suc i = m then k ! i = CHR ''z'' else is_hex (k ! i))"

inductive wf_node :: "resolver \<Rightarrow> nat \<Rightarrow> node \<Rightarrow> bool" for rs where
  wf_value: "wf_node rs 0 (ValueNode d)"
| wf_short: "key_ok m k \<Longrightarrow> wf_node rs (m - length k) v \<Longrightarrow> wf_node rs m (ShortNode k (Some v) fl)"
| wf_full: "length cs = 17 \<Longrightarrow> 2 \<le> m \<Longrightarrow> (\<And>n. Some n \<in> set cs \<Longrightarrow> wf_node rs (m - 1) n) \<Longrightarrow>
    wf_node rs m (FullNode cs fl)"
| wf_hash: "rs h = Ret (Some n) \<Longrightarrow> wf_node rs m n \<Longrightarrow> wf_node rs m (HashNode h)"

inductive_simps wf_simps:
  "wf_node rs m (ValueNode d)"
  "wf_node rs m (ShortNode k v fl)"
  "wf_node rs m (FullNode cs fl)"
  "wf_node rs m (HashNode h)"

lemma child_index_table:
  assumes "is_hex c"
  shows "\<exists>i<16. c = ''0123456789abcdef'' ! i \<and> child_index c = Some i"
proof -
  have "list_all (\<lambda>i. child_index (''0123456789abcdef'' ! i) = Some i) [0..<16]"
    by (simp add: child_index_def Toint_def upt_rec)
  then have t: "child_index (''0123456789abcdef'' ! i) = Some i" if "i < 16" for i
    using that by (simp add: list_all_iff)
  from assms obtain i where "i < length ''0123456789abcdef''" "c = ''0123456789abcdef'' ! i"
    unfolding is_hex_def in_set_conv_nth by blast
  then show ?thesis using t by auto
qed

lemma child_index_hex: "is_hex c \<Longrightarrow> \<exists>i<16. child_index c = Some i"
  using child_index_table by blast

lemma child_index_inj: "is_hex c \<Longrightarrow> is_hex c' \<Longrightarrow> child_index c = child_index c' \<Longrightarrow> c = c'"
  using child_index_table [of c] child_index_table [of c'] by auto

subsection \<open>Get finds what is there\<close>

lemma key_ok_hex: "key_ok m k \<Longrightarrow> i < length k \<Longrightarrow> Suc i \<noteq> m \<Longrightarrow> is_hex (k ! i)"
  by (auto simp: key_ok_def split: if_splits)

lemma key_ok_last: "key_ok m k \<Longrightarrow> Suc i = m \<Longrightarrow> i < length k \<Longrightarrow> k ! i = CHR ''z''"
  by (auto simp: key_ok_def split: if_splits)

lemma key_ok_drop: "key_ok m k \<Longrightarrow> key_ok (m - i) (drop i k)"
  by (auto simp: key_ok_def)

lemma key_ok_take: "key_ok m k \<Longrightarrow> key_ok m (take i k)"
  by (auto simp: key_ok_def)

lemma key_ok_append: "key_ok m (k @ ks) \<Longrightarrow> key_ok m k \<and> key_ok (m - length k) ks"
  using key_ok_drop [of m "k @ ks" "length k"] key_ok_take [of m "k @ ks" "length k"] by simp

lemma key_ok_length: "key_ok m k \<Longrightarrow> length k \<le> m"
  by (simp add: key_ok_def)

text \<open>What \<open>Get\<close> and \<open>Insert\<close> keep: a well-formed node with the same, or given, entries.\<close>

definition same_entries :: "resolver \<Rightarrow> node \<Rightarrow> node \<Rightarrow> bool" where
  "same_entries rs n n' \<longleftrightarrow> (\<forall>ks d. entry rs n' ks d \<longleftrightarrow> entry rs n ks d)"

definition get_ok :: "resolver \<Rightarrow> nat \<Rightarrow> node \<Rightarrow> cxx_string \<Rightarrow> node option \<times> node option \<Rightarrow> bool" where
  "get_ok rs m n ks r \<longleftrightarrow>
     (case fst r of None \<Rightarrow> \<forall>d. \<not> entry rs n ks d | Some v \<Rightarrow> \<exists>d. v = ValueNode d \<and> entry rs n ks d) \<and>
     (snd r = None \<longrightarrow> fst r = None) \<and>
     (\<forall>n'. snd r = Some n' \<longrightarrow> wf_node rs m n' \<and> same_entries rs n n')"

lemma same_entries_refl [simp]: "same_entries rs n n"
  by (simp add: same_entries_def)

lemma get_ok_short:
  assumes "get_ok rs (m - length k) v ks (val, nn)" "key_ok m k" "wf_node rs (m - length k) v"
  shows "get_ok rs m (ShortNode k (Some v) fl) (k @ ks)
    (val, Some (ShortNode k (if nn \<noteq> None then nn else Some v) fl))"
proof -
  have "wf_node rs m (ShortNode k (if nn \<noteq> None then nn else Some v) fl)"
    using assms by (auto simp: get_ok_def wf_simps)
  moreover have "same_entries rs (ShortNode k (Some v) fl) (ShortNode k (if nn \<noteq> None then nn else Some v) fl)"
    using assms(1) by (auto simp: get_ok_def same_entries_def entry_simps)
  ultimately show ?thesis
    using assms(1) by (auto simp: get_ok_def entry_simps split: option.splits)
qed

lemma get_ok_full:
  assumes "case cs ! i of None \<Rightarrow> val = None \<and> nn = None | Some v \<Rightarrow> get_ok rs (m - 1) v ks (val, nn)"
    and "child_index c = Some i" "i < 17" "wf_node rs m (FullNode cs fl)"
  shows "get_ok rs m (FullNode cs fl) (c # ks)
    (val, Some (FullNode (if nn \<noteq> None then cs[i := nn] else cs) fl))"
proof -
  have len: "length cs = 17" and m: "2 \<le> m"
    and w: "\<And>n. Some n \<in> set cs \<Longrightarrow> wf_node rs (m - 1) n"
    using assms(4) by (auto simp: wf_simps)
  show ?thesis
  proof (cases "nn")
    case None
    then show ?thesis using assms len
      by (auto simp: get_ok_def entry_simps split: option.splits)
  next
    case (Some n')
    then obtain v where v: "cs ! i = Some v" and g: "get_ok rs (m - 1) v ks (val, Some n')"
      using assms(1) by (auto split: option.splits)
    have "wf_node rs m (FullNode (cs[i := Some n']) fl)"
    proof (rule wf_node.wf_full)
      fix n assume "Some n \<in> set (cs[i := Some n'])"
      then show "wf_node rs (m - 1) n"
        using w g set_update_subset_insert [of cs i "Some n'"] by (auto simp: get_ok_def)
    qed (use len m in auto)
    moreover have "same_entries rs (FullNode cs fl) (FullNode (cs[i := Some n']) fl)"
      unfolding same_entries_def
    proof (intro allI)
      fix ks d
      show "entry rs (FullNode (cs[i := Some n']) fl) ks d \<longleftrightarrow> entry rs (FullNode cs fl) ks d"
        using g v len assms(3)
        by (cases ks) (auto simp: same_entries_def get_ok_def nth_list_update split: if_splits)
    qed
    ultimately show ?thesis
      using Some g v assms(2,3) len by (auto simp: get_ok_def entry_simps split: option.splits)
  qed
qed

lemma drop_eq_append: "drop pos key = k @ r \<Longrightarrow> drop (pos + length k) key = r"
  by (metis add.commute append_eq_conv_conj drop_drop)

lemma Get_node_correct:
  "wf_node rs m n \<Longrightarrow> pos + m = length key \<Longrightarrow> key_ok m (drop pos key) \<Longrightarrow>
   \<exists>r. Get_node rs (Some n) key pos = Some (Ret r) \<and> get_ok rs m n (drop pos key) r"
proof (induction arbitrary: pos rule: wf_node.induct)
  case (wf_value d)
  then show ?case
    by (subst Get_node.simps) (auto simp: get_ok_def entry_simps wf_simps)
next
  case (wf_short m k v fl)
  show ?case
  proof (cases "k = take (length k) (drop pos key)")
    case True
    have lk: "length k \<le> m" using wf_short.hyps(1) by (rule key_ok_length)
    obtain ks where ks: "drop pos key = k @ ks" using True by (metis append_take_drop_id)
    have ks': "drop (pos + length k) key = ks" using drop_eq_append [OF ks] .
    have "key_ok (m - length k) (drop (pos + length k) key)"
      using wf_short.prems(2) ks ks' key_ok_append by auto
    then obtain r where r: "Get_node rs (Some v) key (pos + length k) = Some (Ret r)"
      "get_ok rs (m - length k) v ks r"
      using wf_short.IH [of "pos + length k"] wf_short.prems(1) lk ks' by auto
    obtain val nn where vn: "r = (val, nn)" by (cases r)
    have c: "\<not> (length key - pos < length k \<or> k \<noteq> take (length k) (drop pos key))" "\<not> length key < pos"
      using wf_short.prems(1) lk True by auto
    have "Get_node rs (Some (ShortNode k (Some v) fl)) key pos =
        Some (Ret (val, Some (ShortNode k (if nn \<noteq> None then nn else Some v) fl)))"
      by (subst Get_node.simps) (use c r(1) vn in simp)
    with get_ok_short [OF r(2) [unfolded vn] wf_short.hyps(1,2), of fl] ks show ?thesis by auto
  next
    case False
    have "\<not> entry rs (ShortNode k (Some v) fl) (drop pos key) d" for d
      using False by (auto simp: entry_simps)
    moreover have "Get_node rs (Some (ShortNode k (Some v) fl)) key pos = Some (Ret (None, None))"
      by (subst Get_node.simps) (use False wf_short.prems(1) in simp)
    ultimately show ?thesis by (auto simp: get_ok_def)
  qed
next
  case (wf_full cs m fl)
  have pos: "pos < length key" using wf_full.hyps(2) wf_full.prems(1) by linarith
  let ?c = "key ! pos" and ?ks = "drop (pos + 1) key"
  have d: "drop pos key = ?c # ?ks" using pos by (simp add: Cons_nth_drop_Suc)
  have "is_hex ?c"
    using key_ok_hex [OF wf_full.prems(2), of 0] wf_full.hyps(2) pos by simp
  then obtain i where "child_index ?c = Some i" "i < 16"
    using child_index_hex [of ?c] by blast
  then have i: "child_index ?c = Some i" "i < 17" by simp_all
  have ok: "key_ok (m - 1) ?ks" using key_ok_drop [OF wf_full.prems(2), of 1] by (simp add: add.commute)
  obtain val nn where r: "Get_node rs (cs ! i) key (pos + 1) = Some (Ret (val, nn))"
    and g: "case cs ! i of None \<Rightarrow> val = None \<and> nn = None | Some v \<Rightarrow> get_ok rs (m - 1) v ?ks (val, nn)"
  proof (cases "cs ! i")
    case None
    then have "Get_node rs (cs ! i) key (pos + 1) = Some (Ret (None, None))" by (subst Get_node.simps) simp
    with None show ?thesis using that by simp
  next
    case (Some v)
    then have "Some v \<in> set cs" using i(2) wf_full.hyps(1) nth_mem by metis
    then obtain r where "Get_node rs (Some v) key (pos + 1) = Some (Ret r)" "get_ok rs (m - 1) v ?ks r"
      using wf_full.IH [of v "pos + 1"] wf_full.prems(1) wf_full.hyps(2) ok by fastforce
    with Some show ?thesis using that by (cases r) auto
  qed
  have "Get_node rs (Some (FullNode cs fl)) key pos =
      Some (Ret (val, Some (FullNode (if nn \<noteq> None then cs[i := nn] else cs) fl)))"
    by (subst Get_node.simps) (use pos i r in simp)
  moreover have "wf_node rs m (FullNode cs fl)"
    using wf_full.hyps by (auto simp: wf_simps)
  ultimately show ?case
    using get_ok_full [OF g i] d by auto
next
  case (wf_hash h n m)
  then obtain r where "Get_node rs (Some n) key pos = Some (Ret r)" "get_ok rs m n (drop pos key) r" by blast
  moreover have "Get_node rs (Some (HashNode h)) key pos = Get_node rs (Some n) key pos"
    by (subst Get_node.simps) (simp add: wf_hash.hyps)
  ultimately show ?case using wf_hash.hyps
    by (auto simp: get_ok_def entry_simps same_entries_def split: option.splits)
qed

subsection \<open>Insert adds one entry\<close>

definition entry_opt :: "resolver \<Rightarrow> node option \<Rightarrow> cxx_string \<Rightarrow> cxx_string \<Rightarrow> bool" where
  "entry_opt rs n ks d \<longleftrightarrow> (\<exists>v. n = Some v \<and> entry rs v ks d)"

definition wf_opt :: "resolver \<Rightarrow> nat \<Rightarrow> node option \<Rightarrow> bool" where
  "wf_opt rs m n \<longleftrightarrow> (\<forall>v. n = Some v \<longrightarrow> wf_node rs m v)"

lemma entry_opt_simps [simp]: "\<not> entry_opt rs None ks d" "entry_opt rs (Some v) ks d = entry rs v ks d"
  by (simp_all add: entry_opt_def)

lemma wf_opt_simps [simp]: "wf_opt rs m None" "wf_opt rs m (Some v) = wf_node rs m v"
  by (simp_all add: wf_opt_def)

text \<open>\<open>n'\<close> holds what \<open>n\<close> holds, and \<open>d\<close> under \<open>key\<close>.\<close>

definition adds :: "resolver \<Rightarrow> nat \<Rightarrow> node option \<Rightarrow> cxx_string \<Rightarrow> cxx_string \<Rightarrow> node option \<Rightarrow> bool" where
  "adds rs m n key d n' \<longleftrightarrow> wf_opt rs m n' \<and>
     (\<forall>ks d'. key_ok m ks \<longrightarrow> length ks = m \<longrightarrow>
        (entry_opt rs n' ks d' \<longleftrightarrow> (if ks = key then d' = d else entry_opt rs n ks d')))"

definition ins_ok :: "resolver \<Rightarrow> nat \<Rightarrow> node option \<Rightarrow> cxx_string \<Rightarrow> cxx_string \<Rightarrow> ReturnVal \<Rightarrow> bool" where
  "ins_ok rs m n key d r \<longleftrightarrow> rv_node r \<noteq> None \<and> rv_err r = 0 \<and> adds rs m n key d (rv_node r) \<and>
     (\<not> rv_dirty r \<longrightarrow> adds rs m n key d n)"

lemma PrefixLen_take: "take (PrefixLen a b) a = take (PrefixLen a b) b"
  by (induction a b rule: PrefixLen.induct) auto

lemma PrefixLen_le: "PrefixLen a b \<le> length a" "PrefixLen a b \<le> length b"
  by (induction a b rule: PrefixLen.induct) auto

lemma PrefixLen_differ:
  "PrefixLen a b < length a \<Longrightarrow> PrefixLen a b < length b \<Longrightarrow> a ! PrefixLen a b \<noteq> b ! PrefixLen a b"
  by (induction a b rule: PrefixLen.induct) (auto split: if_splits)

lemma adds_at:
  assumes "adds rs m n key d n'" "key_ok m key" "length key = m"
  shows "entry_opt rs n' key d"
proof -
  have "entry_opt rs n' key d \<longleftrightarrow> (if key = key then d = d else entry_opt rs n key d)"
    using assms unfolding adds_def by blast
  then show ?thesis by simp
qed

lemma ins_null:
  assumes "key_ok m key" "length key = m"
  shows "ins_ok rs m None key d (Insert_null key (Some (ValueNode d)))"
  using assms by (auto simp: ins_ok_def adds_def Insert_null_def wf_simps entry_simps)

lemma adds_short:
  assumes "adds rs (m - length k) v (drop (length k) key) d v'" "v' \<noteq> None" "key_ok m k"
    and "take (length k) key = k"
  shows "adds rs m (Some (ShortNode k v fl)) key d (Some (ShortNode k v' fl'))"
proof -
  obtain n' where v': "v' = Some n'" using assms(2) by blast
  have key: "key = k @ drop (length k) key" using assms(4) by (metis append_take_drop_id)
  show ?thesis
    unfolding adds_def
  proof (intro conjI allI impI)
    show "wf_opt rs m (Some (ShortNode k v' fl'))"
      using assms v' by (auto simp: adds_def wf_simps)
    fix ks d' assume ks: "key_ok m ks" "length ks = m"
    show "entry_opt rs (Some (ShortNode k v' fl')) ks d' \<longleftrightarrow>
        (if ks = key then d' = d else entry_opt rs (Some (ShortNode k v fl)) ks d')"
    proof (cases "\<exists>r. ks = k @ r")
      case True
      then obtain r where r: "ks = k @ r" by blast
      then have "key_ok (m - length k) r" "length r = m - length k"
        using ks key_ok_append by auto
      with assms(1) have "entry_opt rs v' r d' \<longleftrightarrow> (if r = drop (length k) key then d' = d else entry_opt rs v r d')"
        by (simp add: adds_def)
      moreover have "ks = key \<longleftrightarrow> r = drop (length k) key" using r key by (metis same_append_eq)
      ultimately show ?thesis using r v' by (auto simp: entry_simps entry_opt_def)
    next
      case False
      then have "ks \<noteq> key" using key by metis
      then show ?thesis using False by (auto simp: entry_simps)
    qed
  qed
qed

lemma adds_full:
  assumes "adds rs (m - 1) (cs ! i) ks0 d v'" "v' \<noteq> None" "child_index c = Some i" "i < 17" "is_hex c"
    and "wf_node rs m (FullNode cs fl)"
  shows "adds rs m (Some (FullNode cs fl)) (c # ks0) d (Some (FullNode (cs[i := v']) fl'))"
proof -
  have len: "length cs = 17" and m: "2 \<le> m" and w: "\<And>n. Some n \<in> set cs \<Longrightarrow> wf_node rs (m - 1) n"
    using assms(6) by (auto simp: wf_simps)
  have "wf_node rs m (FullNode (cs[i := v']) fl')"
  proof (rule wf_node.wf_full)
    fix n assume "Some n \<in> set (cs[i := v'])"
    then show "wf_node rs (m - 1) n"
      using w assms(1) set_update_subset_insert [of cs i v'] by (auto simp: adds_def)
  qed (use len m in auto)
  moreover have "entry rs (FullNode (cs[i := v']) fl') ks d' \<longleftrightarrow>
      (if ks = c # ks0 then d' = d else entry rs (FullNode cs fl) ks d')"
    if ks: "key_ok m ks" "length ks = m" for ks d'
  proof -
    obtain c' r where r: "ks = c' # r" using ks m by (cases ks) auto
    have hex: "is_hex c'" using key_ok_hex [OF ks(1), of 0] ks(2) m r by auto
    have kr: "key_ok (m - 1) r" "length r = m - 1" using key_ok_drop [OF ks(1), of 1] ks(2) r by auto
    obtain j where j: "child_index c' = Some j" "j < 16" using child_index_hex [OF hex] by blast
    show ?thesis
    proof (cases "c' = c")
      case True
      then have "entry_opt rs v' r d' \<longleftrightarrow> (if r = ks0 then d' = d else entry_opt rs (cs ! i) r d')"
        using assms(1) kr by (simp add: adds_def)
      then show ?thesis using True r assms(3,4) len by (auto simp: entry_opt_def)
    next
      case False
      then have "j \<noteq> i" using child_index_inj [OF hex assms(5)] j assms(3) by auto
      then show ?thesis using False r j by auto
    qed
  qed
  ultimately show ?thesis by (simp add: adds_def)
qed

lemma ins_split:
  assumes "key_ok m k" "wf_node rs (m - length k) v" "key_ok m key" "length key = m"
    and "PrefixLen key k \<noteq> length k"
  shows "\<exists>r. split_short k (Some v) (PrefixLen key k) key (ValueNode d) = Ret r
     \<and> ins_ok rs m (Some (ShortNode k (Some v) fl)) key d r"
proof -
  let ?i = "PrefixLen key k"
  define i where "i = ?i"
  have lk: "length k \<le> m" using assms(1) by (rule key_ok_length)
  have i: "i < length k" "i < length key" "take i key = take i k"
    using PrefixLen_le [of key k] assms(4,5) lk PrefixLen_take [of key k] by (simp_all add: i_def)
  have ne: "key ! i \<noteq> k ! i" using PrefixLen_differ [of key k] i by (simp add: i_def)
  have last: "Suc i \<noteq> m"
    using key_ok_last [OF assms(1), of i] key_ok_last [OF assms(3), of i] i ne by auto
  have hex: "is_hex (k ! i)" "is_hex (key ! i)"
    using key_ok_hex [OF assms(1) i(1)] key_ok_hex [OF assms(3) i(2)] last by auto
  obtain a where a: "child_index (k ! i) = Some a" "a < 16" using child_index_hex [OF hex(1)] by blast
  obtain b where b: "child_index (key ! i) = Some b" "b < 16" using child_index_hex [OF hex(2)] by blast
  have ab: "a \<noteq> b" using child_index_inj [OF hex] a b ne by auto
  define old where "old = ShortNode (drop (Suc i) k) (Some v) newFlag"
  define new where "new = ShortNode (drop (Suc i) key) (Some (ValueNode d)) newFlag"
  define full0 where "full0 = FullNode ((replicate 17 None)[a := Some old]) newFlag"
  define full where "full = FullNode ((replicate 17 None)[a := Some old, b := Some new]) newFlag"
  have mi: "2 \<le> m - i" using i(2) assms(4) last by linarith
  have wold: "wf_node rs (m - i - 1) old"
    using key_ok_drop [OF assms(1), of "Suc i"] assms(2) i(1) lk
    by (simp add: old_def wf_simps)
  have w0: "wf_node rs (m - i) full0"
    unfolding full0_def
  proof (rule wf_node.wf_full)
    fix n assume "Some n \<in> set ((replicate 17 None)[a := Some old])"
    then show "wf_node rs (m - i - 1) n"
      using wold set_update_subset_insert [of "replicate 17 None" a "Some old"] by auto
  qed (use mi in auto)
  have "adds rs (m - i - 1) None (drop (Suc i) key) d (Some new)"
    using ins_null [OF key_ok_drop [OF assms(3), of "Suc i"], of rs d] assms(4)
    by (simp add: ins_ok_def Insert_null_def new_def)
  moreover have "(replicate 17 None)[a := Some old] ! b = None" using ab b by simp
  ultimately have "adds rs (m - i) (Some full0) (key ! i # drop (Suc i) key) d (Some full)"
    unfolding full_def full0_def
    using adds_full [of rs "m - i" "(replicate 17 None)[a := Some old]" b "drop (Suc i) key" d "Some new" "key ! i"]
      b hex(2) w0 by (simp add: full0_def)
  moreover have dk: "key ! i # drop (Suc i) key = drop i key" using i(2) by (simp add: Cons_nth_drop_Suc)
  ultimately have ad: "adds rs (m - i) (Some full0) (drop i key) d (Some full)" by simp
  have same: "entry rs (ShortNode (take i k) (Some full0) fl) ks d' \<longleftrightarrow> entry rs (ShortNode k (Some v) fl) ks d'"
    if ks: "key_ok m ks" "length ks = m" for ks d'
  proof -
    have sub: "entry rs full0 r d' \<longleftrightarrow> (\<exists>s. r = drop i k @ s \<and> entry rs v s d')"
      if r: "key_ok (m - i) r" "length r = m - i" for r
    proof -
      obtain c r' where cr: "r = c # r'" using r mi by (cases r) auto
      have "is_hex c" using key_ok_hex [OF r(1), of 0] r(2) mi cr by auto
      then obtain j where j: "child_index c = Some j" "j < 16" using child_index_hex by blast
      have "drop i k = k ! i # drop (Suc i) k" using i(1) by (simp add: Cons_nth_drop_Suc)
      moreover have "c = k ! i \<longleftrightarrow> j = a" using child_index_inj [OF \<open>is_hex c\<close> hex(1)] j a by auto
      ultimately show ?thesis using cr j a
        by (auto simp: full0_def old_def entry_simps nth_list_update)
    qed
    show ?thesis
    proof (cases "\<exists>r. ks = take i k @ r")
      case True
      then obtain r where r: "ks = take i k @ r" by blast
      have "length (take i k) = i" using i(1) by simp
      then have "key_ok (m - i) r" "length r = m - i"
        using ks r key_ok_append [of m "take i k" r] by auto
      note s = sub [OF this]
      have "k = take i k @ drop i k" by simp
      then have "(\<exists>s. ks = k @ s \<and> entry rs v s d') \<longleftrightarrow> (\<exists>s. r = drop i k @ s \<and> entry rs v s d')"
        by (metis append.assoc r same_append_eq)
      with s r show ?thesis by (auto simp: entry_simps)
    next
      case False
      then have "\<nexists>s. ks = k @ s" by (metis append.assoc append_take_drop_id)
      with False show ?thesis by (auto simp: entry_simps)
    qed
  qed
  have nodes: "split_short k (Some v) ?i key (ValueNode d) =
      Ret \<lparr>rv_dirty = True, rv_node = Some (if i = 0 then full else ShortNode (take i k) (Some full) newFlag), rv_err = 0\<rparr>"
    using a b i(2) by (simp add: split_short_def Let_def Insert_null_def full_def old_def new_def flip: i_def)
  have "adds rs m (Some (ShortNode (take i k) (Some full0) fl)) key d (Some (ShortNode (take i k) (Some full) newFlag))"
    using adds_short [of rs m "take i k" "Some full0" key d "Some full" fl newFlag] ad i key_ok_take [OF assms(1), of i]
    by simp
  then have ad': "adds rs m (Some (ShortNode k (Some v) fl)) key d (Some (ShortNode (take i k) (Some full) newFlag))"
    using same by (simp add: adds_def)
  moreover have "adds rs m (Some (ShortNode k (Some v) fl)) key d (Some full)" if "i = 0"
    using ad' that by (auto simp: adds_def entry_simps wf_simps)
  ultimately show ?thesis
    using nodes by (auto simp: ins_ok_def)
qed

lemma PrefixLen_full: "PrefixLen key k = length k \<longleftrightarrow> take (length k) key = k"
proof
  assume "PrefixLen key k = length k"
  then show "take (length k) key = k" using PrefixLen_take [of key k] by simp
next
  assume t: "take (length k) key = k"
  show "PrefixLen key k = length k"
  proof (rule ccontr)
    assume "PrefixLen key k \<noteq> length k"
    moreover have "length k \<le> length key" using arg_cong [OF t, of length] by simp
    ultimately have lt: "PrefixLen key k < length k" "PrefixLen key k < length key"
      using PrefixLen_le(2) [of key k] by auto
    then have "take (length k) key ! PrefixLen key k \<noteq> k ! PrefixLen key k"
      using PrefixLen_differ [of key k] by simp
    with t show False by simp
  qed
qed

lemma Insert_null_node: "Insert_node rs None key val = Some (Ret (Insert_null key (Some val)))"
  by (subst Insert_node.simps) simp

lemma ins_ok_err: "ins_ok rs m n key d r \<Longrightarrow> rv_err r = 0"
  by (simp add: ins_ok_def)

lemma Insert_node_correct:
  "wf_node rs m n \<Longrightarrow> key_ok m key \<Longrightarrow> length key = m \<Longrightarrow>
   \<exists>r. Insert_node rs (Some n) key (ValueNode d) = Some (Ret r) \<and> ins_ok rs m (Some n) key d r"
proof (induction arbitrary: key rule: wf_node.induct)
  case (wf_value d0)
  then show ?case
    by (subst Insert_node.simps) (auto simp: ins_ok_def adds_def wf_simps entry_simps)
next
  case (wf_short m k v fl)
  show ?case
  proof (cases "PrefixLen key k = length k")
    case True
    have t: "take (length k) key = k" using True PrefixLen_full by blast
    have "key_ok (m - length k) (drop (length k) key)" "length (drop (length k) key) = m - length k"
      using key_ok_drop [OF wf_short.prems(1)] wf_short.prems(2) by auto
    from wf_short.IH [OF this] obtain r where
      r: "Insert_node rs (Some v) (drop (length k) key) (ValueNode d) = Some (Ret r)"
      and ok: "ins_ok rs (m - length k) (Some v) (drop (length k) key) d r" by blast
    let ?r = "if rv_dirty r then \<lparr>rv_dirty = True, rv_node = Some (ShortNode k (rv_node r) newFlag), rv_err = 0\<rparr>
        else \<lparr>rv_dirty = False, rv_node = Some (ShortNode k (Some v) fl), rv_err = 0\<rparr>"
    have "Insert_node rs (Some (ShortNode k (Some v) fl)) key (ValueNode d) = Some (Ret ?r)"
      by (subst Insert_node.simps) (simp add: True r ins_ok_err [OF ok] Let_def)
    moreover have "ins_ok rs m (Some (ShortNode k (Some v) fl)) key d ?r"
      using ok adds_short [OF _ _ wf_short.hyps(1) t] by (auto simp: ins_ok_def)
    ultimately show ?thesis by blast
  next
    case False
    from ins_split [OF wf_short.hyps(1,2) wf_short.prems False] obtain r where
      "split_short k (Some v) (PrefixLen key k) key (ValueNode d) = Ret r"
      "ins_ok rs m (Some (ShortNode k (Some v) fl)) key d r" by blast
    with False show ?thesis by (subst Insert_node.simps) (simp add: Let_def)
  qed
next
  case (wf_full cs m fl)
  obtain c ks where ks: "key = c # ks" using wf_full.hyps(2) wf_full.prems(2) by (cases key) auto
  have hex: "is_hex c" using key_ok_hex [OF wf_full.prems(1), of 0] wf_full.hyps(2) wf_full.prems(2) ks by auto
  obtain i where i: "child_index c = Some i" "i < 16" using child_index_hex [OF hex] by blast
  have ok: "key_ok (m - 1) ks" "length ks = m - 1"
    using key_ok_drop [OF wf_full.prems(1), of 1] wf_full.prems(2) ks by auto
  have w: "wf_node rs m (FullNode cs fl)" using wf_full.hyps by (intro wf_node.wf_full) auto
  obtain r where r: "Insert_node rs (cs ! i) ks (ValueNode d) = Some (Ret r)"
    and okr: "ins_ok rs (m - 1) (cs ! i) ks d r"
  proof (cases "cs ! i")
    case None
    then show ?thesis using that ins_null [OF ok] Insert_null_node by simp
  next
    case (Some v)
    then have "Some v \<in> set cs" using i(2) wf_full.hyps(1) nth_mem [of i cs] by simp
    from wf_full.IH [OF this ok] Some show ?thesis using that by auto
  qed
  let ?r = "if rv_dirty r then \<lparr>rv_dirty = True, rv_node = Some (FullNode (cs[i := rv_node r]) newFlag), rv_err = 0\<rparr>
      else \<lparr>rv_dirty = False, rv_node = Some (FullNode cs fl), rv_err = 0\<rparr>"
  have "Insert_node rs (Some (FullNode cs fl)) key (ValueNode d) = Some (Ret ?r)"
    by (subst Insert_node.simps) (simp add: ks i r ins_ok_err [OF okr])
  moreover have "adds rs m (Some (FullNode cs fl)) key d (Some (FullNode cs fl))" if "\<not> rv_dirty r"
  proof -
    have a: "adds rs (m - 1) (cs ! i) ks d (cs ! i)" using okr that by (simp add: ins_ok_def)
    from adds_at [OF this ok] have "entry_opt rs (cs ! i) ks d" .
    then have "cs ! i \<noteq> None" by (auto simp: entry_opt_def)
    from adds_full [OF a this i(1) _ hex w, of fl] i(2) ks show ?thesis by simp
  qed
  then have "ins_ok rs m (Some (FullNode cs fl)) key d ?r"
    using okr adds_full [of rs m cs i ks d "rv_node r" c fl newFlag] i hex w ks by (auto simp: ins_ok_def)
  with calculation show ?case by blast
next
  case (wf_hash h n m)
  from wf_hash.IH [OF wf_hash.prems] obtain r where
    r: "Insert_node rs (Some n) key (ValueNode d) = Some (Ret r)" and ok: "ins_ok rs m (Some n) key d r" by blast
  let ?r = "if rv_dirty r then \<lparr>rv_dirty = True, rv_node = rv_node r, rv_err = 0\<rparr>
      else \<lparr>rv_dirty = False, rv_node = Some n, rv_err = 0\<rparr>"
  have "Insert_node rs (Some (HashNode h)) key (ValueNode d) = Some (Ret ?r)"
    by (subst Insert_node.simps) (simp add: wf_hash.hyps r ins_ok_err [OF ok])
  moreover have "ins_ok rs m (Some (HashNode h)) key d ?r"
    using ok wf_hash.hyps by (auto simp: ins_ok_def adds_def entry_simps wf_simps)
  ultimately show ?case by blast
qed

subsection \<open>The trie object as a map\<close>

definition hex_key :: "nat \<Rightarrow> cxx_string \<Rightarrow> bool" where
  "hex_key n key \<longleftrightarrow> length key = n \<and> 0 < n \<and> list_all is_hex key"

text \<open>\<open>trie_holds rs n t m\<close>: a well-formed trie over keys of length \<open>n\<close> with the contents \<open>m\<close>.\<close>

definition trie_holds :: "resolver \<Rightarrow> nat \<Rightarrow> trie \<Rightarrow> (cxx_string \<Rightarrow> cxx_string option) \<Rightarrow> bool" where
  "trie_holds rs n t m \<longleftrightarrow> wf_opt rs (n + 2) (tr_root t) \<and>
     (\<forall>key d. hex_key n key \<longrightarrow> (entry_opt rs (tr_root t) (key @ [last key] @ ''z'') d \<longleftrightarrow> m key = Some d))"

lemma wrapped_key_ok:
  assumes "hex_key n key"
  shows "key_ok (n + 2) (key @ [last key] @ ''z'')"
proof -
  have "key \<noteq> []" "list_all is_hex key" "length key = n" using assms by (auto simp: hex_key_def)
  then show ?thesis
    by (auto simp: key_ok_def nth_append list_all_length nth_Cons' last_conv_nth)
qed

lemma wrapped_inject: "key @ [last key] @ ''z'' = key' @ [last key'] @ ''z'' \<longleftrightarrow> key = key'"
  by auto

lemma wrapperKey_hex: "hex_key n key \<Longrightarrow> wrapperKey key = Ret (key @ [last key] @ ''z'')"
  by (auto simp: wrapperKey_def hex_key_def)

lemma Update_holds:
  assumes "trie_holds rs n t m" "hex_key n key" "val \<noteq> []"
  shows "\<exists>t'. Update rs t key val = Ret t' \<and> trie_holds rs n t' (m(key \<mapsto> val))
     \<and> tr_contractAddr t' = tr_contractAddr t \<and> tr_dirtyHash t' = tr_dirtyHash t"
proof -
  let ?k = "key @ [last key] @ ''z''"
  have k: "key_ok (n + 2) ?k" "length ?k = n + 2"
    using wrapped_key_ok [OF assms(2)] assms(2) by (simp_all add: hex_key_def)
  have "\<exists>r. Insert_node rs (tr_root t) ?k (ValueNode val) = Some (Ret r) \<and> ins_ok rs (n + 2) (tr_root t) ?k val r"
  proof (cases "tr_root t")
    case None
    then show ?thesis using ins_null [OF k] Insert_null_node by auto
  next
    case (Some v)
    then have "wf_node rs (n + 2) v" using assms(1) by (simp add: trie_holds_def)
    from Insert_node_correct [OF this k] Some show ?thesis by simp
  qed
  then obtain r where r: "Insert_node rs (tr_root t) ?k (ValueNode val) = Some (Ret r)"
    and ok: "ins_ok rs (n + 2) (tr_root t) ?k val r" by blast
  have "Update rs t key val = Ret (t\<lparr>tr_root := rv_node r\<rparr>)"
    using r assms(3) by (simp add: Update_def wrapperKey_hex [OF assms(2)])
  moreover have "entry_opt rs (rv_node r) (key' @ [last key'] @ ''z'') d \<longleftrightarrow> (m(key \<mapsto> val)) key' = Some d"
    if k': "hex_key n key'" for key' d
  proof -
    have "entry_opt rs (rv_node r) (key' @ [last key'] @ ''z'') d \<longleftrightarrow>
        (if key' @ [last key'] @ ''z'' = ?k then d = val else entry_opt rs (tr_root t) (key' @ [last key'] @ ''z'') d)"
      using ok wrapped_key_ok [OF k'] k' by (simp add: ins_ok_def adds_def hex_key_def)
    then show ?thesis using assms(1) k' wrapped_inject [of key' key] by (auto simp: trie_holds_def)
  qed
  ultimately show ?thesis
    using ok by (auto simp: trie_holds_def ins_ok_def adds_def)
qed

lemma Get_holds:
  assumes "trie_holds rs n t m" "hex_key n key"
  shows "\<exists>t'. Get rs t key = Ret (case m key of None \<Rightarrow> [] | Some d \<Rightarrow> d, t') \<and> trie_holds rs n t' m"
proof -
  let ?k = "key @ [last key] @ ''z''"
  have k: "key_ok (n + 2) ?k" "length ?k = n + 2"
    using wrapped_key_ok [OF assms(2)] assms(2) by (simp_all add: hex_key_def)
  show ?thesis
  proof (cases "tr_root t")
    case None
    then have "Get_node rs (tr_root t) ?k 0 = Some (Ret (None, None))" by (subst Get_node.simps) simp
    moreover have "m key = None"
      using assms None by (auto simp: trie_holds_def)
    ultimately show ?thesis using assms None by (simp add: Get_def wrapperKey_hex [OF assms(2)])
  next
    case (Some v)
    then have "wf_node rs (n + 2) v" using assms(1) by (simp add: trie_holds_def)
    from Get_node_correct [OF this, of 0 ?k] k Some obtain val nn where
      r: "Get_node rs (tr_root t) ?k 0 = Some (Ret (val, nn))" and ok: "get_ok rs (n + 2) v ?k (val, nn)"
      by auto
    have same: "trie_holds rs n (t\<lparr>tr_root := Some n'\<rparr>) m" if "nn = Some n'" for n'
      using ok that assms(1) Some by (simp add: get_ok_def same_entries_def trie_holds_def)
    have e: "entry rs v ?k d \<longleftrightarrow> m key = Some d" for d
      using assms Some by (simp add: trie_holds_def)
    show ?thesis
    proof (cases val)
      case None
      then have "m key = None" using ok e by (auto simp: get_ok_def)
      then show ?thesis
        using r None assms(1) Some same
        by (auto simp: Get_def wrapperKey_hex [OF assms(2)] split: node.splits option.splits)
    next
      case (Some w)
      then obtain d where "w = ValueNode d" "m key = Some d" and nn: "nn \<noteq> None"
        using ok e by (auto simp: get_ok_def)
      with r Some same show ?thesis by (auto simp: Get_def wrapperKey_hex [OF assms(2)])
    qed
  qed
qed

end
