(* ===== verification/Rlp.thy ===== *)
theory Rlp
  imports NetFrame
begin

text \<open>
  Recursive length prefix encoding (\<open>mpt/rlp.cpp\<close>, \<open>mpt/rlp.h\<close>) and hexadecimal
  strings (\<open>mpt/commondata.cpp\<close>), as the trie uses them. Byte vectors are strings; sizes are
  natural numbers: a \<open>size_t\<close> cannot overflow on data that fits into memory. An \<open>RLP\<close> object
  is the bytes it refers to; the position \<open>operator[]\<close> remembers between calls only saves it
  from walking again.
\<close>

subsection \<open>Hexadecimal\<close>

definition hex_digits :: cxx_string where
  "hex_digits = ''0123456789abcdef''"

definition toHex :: "cxx_string \<Rightarrow> cxx_string" where
  "toHex data = concat (map (\<lambda>c. [hex_digits ! (byte c div 16), hex_digits ! (byte c mod 16)]) data)"

text \<open>\<open>None\<close> is the result -1.\<close>

definition fromHexChar :: "char \<Rightarrow> nat option" where
  "fromHexChar c =
     (let n = byte c in
      if 48 \<le> n \<and> n \<le> 57 then Some (n - 48)
      else if 97 \<le> n \<and> n \<le> 102 then Some (n - 97 + 10)
      else if 65 \<le> n \<and> n \<le> 70 then Some (n - 65 + 10)
      else None)"

definition isHex :: "cxx_string \<Rightarrow> bool" where
  "isHex s = list_all (\<lambda>c. fromHexChar c \<noteq> None) (if take 2 s = ''0x'' then drop 2 s else s)"

text \<open>
  The loop over pairs of digits, from an even number of characters on; a bad character makes
  the whole result empty.
\<close>

fun hex_pairs :: "cxx_string \<Rightarrow> cxx_string \<Rightarrow> cxx_string" where
  "hex_pairs (a # b # s) ret =
     (case (fromHexChar a, fromHexChar b) of
        (Some h, Some l) \<Rightarrow> hex_pairs s (ret @ [char_of (h * 16 + l)])
      | _ \<Rightarrow> [])"
| "hex_pairs _ ret = ret"

definition fromHex :: "cxx_string \<Rightarrow> cxx_string" where
  "fromHex str =
     (let s = (if take 2 str = ''0x'' then drop 2 str else str) in
      if odd (length str)
      then (case fromHexChar (hd s) of Some h \<Rightarrow> hex_pairs (tl s) [char_of h] | None \<Rightarrow> [])
      else hex_pairs s [])"

subsection \<open>Writing\<close>

function bytesRequired :: "nat \<Rightarrow> nat" where
  "bytesRequired i = (if i = 0 then 0 else Suc (bytesRequired (i div 256)))"
  by pat_completeness auto
termination
  by (relation "measure id") auto

declare bytesRequired.simps [simp del]

text \<open>The bytes \<open>pushInt\<close> appends: the number in \<open>n\<close> bytes, most significant first.\<close>

fun be_bytes :: "nat \<Rightarrow> nat \<Rightarrow> cxx_string" where
  "be_bytes 0 i = []"
| "be_bytes (Suc n) i = be_bytes n (i div 256) @ [char_of (i mod 256)]"

definition c_rlpMaxLengthBytes :: nat where "c_rlpMaxLengthBytes = 8"
definition c_rlpDataImmLenStart :: nat where "c_rlpDataImmLenStart = 0x80"
definition c_rlpListStart :: nat where "c_rlpListStart = 0xc0"
definition c_rlpDataImmLenCount :: nat where
  "c_rlpDataImmLenCount = c_rlpListStart - c_rlpDataImmLenStart - c_rlpMaxLengthBytes"
definition c_rlpDataIndLenZero :: nat where
  "c_rlpDataIndLenZero = c_rlpDataImmLenStart + c_rlpDataImmLenCount - 1"
definition c_rlpListImmLenCount :: nat where
  "c_rlpListImmLenCount = 256 - c_rlpListStart - c_rlpMaxLengthBytes"
definition c_rlpListIndLenZero :: nat where
  "c_rlpListIndLenZero = c_rlpListStart + c_rlpListImmLenCount - 1"

lemmas rlp_consts = c_rlpMaxLengthBytes_def c_rlpDataImmLenStart_def c_rlpListStart_def
  c_rlpDataImmLenCount_def c_rlpDataIndLenZero_def c_rlpListImmLenCount_def c_rlpListIndLenZero_def

text \<open>The stack of open lists: items still to come and where the list starts, innermost first.\<close>

record RLPStream =
  m_out :: cxx_string
  m_listStack :: "(nat \<times> nat) list"

definition RLPStream_empty :: RLPStream where
  "RLPStream_empty = \<lparr>m_out = [], m_listStack = []\<rparr>"

text \<open>The header put in front of a list that has just been completed.\<close>

definition close_list :: "cxx_string \<Rightarrow> nat \<Rightarrow> cxx_string run" where
  "close_list out p =
     (let s = length out - p; brs = bytesRequired s in
      if s < c_rlpListImmLenCount then Ret (take p out @ [char_of (c_rlpListStart + s)] @ drop p out)
      else if c_rlpListIndLenZero + brs \<le> 0xff
      then Ret (take p out @ [char_of (c_rlpListIndLenZero + brs)] @ be_bytes brs s @ drop p out)
      else Throw RLPException)"

fun note_loop :: "nat \<Rightarrow> cxx_string \<Rightarrow> (nat \<times> nat) list \<Rightarrow> RLPStream run" where
  "note_loop itemCount out [] = Ret \<lparr>m_out = out, m_listStack = []\<rparr>"
| "note_loop itemCount out ((left, p) # stack) =
     (if left < itemCount then Throw RLPException
      else if left - itemCount \<noteq> 0
      then Ret \<lparr>m_out = out, m_listStack = (left - itemCount, p) # stack\<rparr>
      else bind_run (close_list out p) (\<lambda>out'. note_loop 1 out' stack))"

definition noteAppended :: "RLPStream \<Rightarrow> nat \<Rightarrow> RLPStream run" where
  "noteAppended st itemCount =
     (if itemCount = 0 then Ret st else note_loop itemCount (m_out st) (m_listStack st))"

definition push_out :: "RLPStream \<Rightarrow> cxx_string \<Rightarrow> RLPStream" where
  "push_out st bs = st\<lparr>m_out := m_out st @ bs\<rparr>"

definition appendRaw :: "RLPStream \<Rightarrow> cxx_string \<Rightarrow> nat \<Rightarrow> RLPStream run" where
  "appendRaw st s itemCount = noteAppended (push_out st s) itemCount"

definition pushCount :: "RLPStream \<Rightarrow> nat \<Rightarrow> nat \<Rightarrow> RLPStream run" where
  "pushCount st count base =
     (let br = bytesRequired count in
      if 0xff < br + base then Throw RLPException
      else Ret (push_out (push_out st [char_of (br + base)]) (be_bytes br count)))"

definition appendList_rlp :: "RLPStream \<Rightarrow> cxx_string \<Rightarrow> RLPStream run" where
  "appendList_rlp st rlp =
     bind_run (if length rlp < c_rlpListImmLenCount
               then Ret (push_out st [char_of (length rlp + c_rlpListStart)])
               else pushCount st (length rlp) c_rlpListIndLenZero)
       (\<lambda>st1. appendRaw st1 rlp 1)"

definition appendList :: "RLPStream \<Rightarrow> nat \<Rightarrow> RLPStream run" where
  "appendList st items =
     (if items \<noteq> 0 then Ret (st\<lparr>m_listStack := (items, length (m_out st)) # m_listStack st\<rparr>)
      else appendList_rlp st [])"

text \<open>\<open>append\<close> of a byte string, compacted (leading zero bytes dropped) or not.\<close>

definition append_bytes :: "RLPStream \<Rightarrow> cxx_string \<Rightarrow> bool \<Rightarrow> RLPStream run" where
  "append_bytes st bs compact =
     (let d = (if compact then dropWhile (\<lambda>c. byte c = 0) bs else bs); s = length d in
      if s = 1 \<and> byte (hd d) < c_rlpDataImmLenStart
      then noteAppended (push_out st [hd d]) 1
      else bind_run (if s < c_rlpDataImmLenCount
                     then Ret (push_out st [char_of (s + c_rlpDataImmLenStart)])
                     else pushCount st s c_rlpDataIndLenZero) (\<lambda>st1.
           bind_run (appendRaw st1 d 0) (\<lambda>st2. noteAppended st2 1)))"

definition append_bigint :: "RLPStream \<Rightarrow> nat \<Rightarrow> RLPStream run" where
  "append_bigint st i =
     bind_run
       (if i = 0 then Ret (push_out st [char_of c_rlpDataImmLenStart])
        else if i < c_rlpDataImmLenStart then Ret (push_out st [char_of i])
        else let br = bytesRequired i in
          bind_run
            (if br < c_rlpDataImmLenCount then Ret (push_out st [char_of (br + c_rlpDataImmLenStart)])
             else let brbr = bytesRequired br in
               if 0xff < c_rlpDataIndLenZero + brbr then Throw RLPException
               else Ret (push_out (push_out st [char_of (c_rlpDataIndLenZero + brbr)]) (be_bytes brbr br)))
            (\<lambda>st1. Ret (push_out st1 (be_bytes br i))))
       (\<lambda>st2. noteAppended st2 1)"

definition out_stream :: "RLPStream \<Rightarrow> cxx_string run" where
  "out_stream st = (if m_listStack st \<noteq> [] then Throw RLPException else Ret (m_out st))"

subsection \<open>Reading\<close>

definition isNull :: "cxx_string \<Rightarrow> bool" where
  "isNull d \<longleftrightarrow> length d = 0"

definition isEmpty :: "cxx_string \<Rightarrow> bool" where
  "isEmpty d \<longleftrightarrow> \<not> isNull d \<and> (byte (d ! 0) = c_rlpDataImmLenStart \<or> byte (d ! 0) = c_rlpListStart)"

definition isData :: "cxx_string \<Rightarrow> bool" where
  "isData d \<longleftrightarrow> \<not> isNull d \<and> byte (d ! 0) < c_rlpListStart"

definition isList :: "cxx_string \<Rightarrow> bool" where
  "isList d \<longleftrightarrow> \<not> isNull d \<and> c_rlpListStart \<le> byte (d ! 0)"

definition isSingleByte :: "cxx_string \<Rightarrow> bool" where
  "isSingleByte d \<longleftrightarrow> \<not> isNull d \<and> byte (d ! 0) < c_rlpDataImmLenStart"

definition requireGood :: "cxx_string \<Rightarrow> unit run" where
  "requireGood d =
     (if isNull d then Throw BadRLP
      else if byte (d ! 0) \<noteq> c_rlpDataImmLenStart + 1 then Ret ()
      else if length d < 2 then Throw BadRLP
      else if byte (d ! 1) < c_rlpDataImmLenStart then Throw BadRLP
      else Ret ())"

definition be_value :: "cxx_string \<Rightarrow> nat" where
  "be_value bs = foldl (\<lambda>n c. n * 256 + byte c) 0 bs"

text \<open>The length of length bytes at the front, with the checks of both branches of \<open>length\<close>.\<close>

definition long_length :: "cxx_string \<Rightarrow> nat \<Rightarrow> nat \<Rightarrow> nat run" where
  "long_length d lengthSize least =
     (if length d \<le> lengthSize then Throw BadRLP
      else if 1 < length d \<and> byte (d ! 1) = 0 then Throw BadRLP
      else if 8 < lengthSize then Throw UndersizeRLP
      else if byte (d ! 1) = 0 then Throw BadRLP
      else let ret = be_value (take lengthSize (drop 1 d)) in
        if ret < least then Throw BadRLP
        else if 2 ^ 64 - 1 - 0x100 \<le> ret then Throw UndersizeRLP
        else Ret ret)"

definition rlp_length :: "cxx_string \<Rightarrow> nat run" where
  "rlp_length d =
     (if isNull d then Ret 0
      else bind_run (requireGood d) (\<lambda>_.
        let n = byte (d ! 0) in
        if n < c_rlpDataImmLenStart then Ret 1
        else if n \<le> c_rlpDataIndLenZero then Ret (n - c_rlpDataImmLenStart)
        else if n < c_rlpListStart
        then long_length d (n - c_rlpDataIndLenZero) (c_rlpListStart - c_rlpDataImmLenStart - c_rlpMaxLengthBytes)
        else if n \<le> c_rlpListIndLenZero then Ret (n - c_rlpListStart)
        else long_length d (n - c_rlpListIndLenZero) (0x100 - c_rlpListStart - c_rlpMaxLengthBytes)))"

definition lengthSize :: "cxx_string \<Rightarrow> nat" where
  "lengthSize d =
     (if isData d \<and> c_rlpDataIndLenZero < byte (d ! 0) then byte (d ! 0) - c_rlpDataIndLenZero
      else if isList d \<and> c_rlpListIndLenZero < byte (d ! 0) then byte (d ! 0) - c_rlpListIndLenZero
      else 0)"

definition payloadOffset :: "cxx_string \<Rightarrow> nat" where
  "payloadOffset d = (if isSingleByte d then 0 else 1 + lengthSize d)"

definition actualSize :: "cxx_string \<Rightarrow> nat run" where
  "actualSize d =
     (if isNull d then Ret 0
      else if isSingleByte d then Ret 1
      else if isData d \<or> isList d then bind_run (rlp_length d) (\<lambda>l. Ret (payloadOffset d + l))
      else Ret 0)"

text \<open>\<open>vector_ref::cropped\<close>: nothing when the range does not fit.\<close>

definition cropped :: "cxx_string \<Rightarrow> nat \<Rightarrow> nat \<Rightarrow> cxx_string" where
  "cropped d start count =
     (if start \<le> length d \<and> count \<le> length d \<and> start + count \<le> length d
      then take count (drop start d) else [])"

definition payload :: "cxx_string \<Rightarrow> cxx_string run" where
  "payload d = bind_run (rlp_length d) (\<lambda>l.
     if length d < l then Throw BadRLP else Ret (cropped d (payloadOffset d) l))"

text \<open>The constructor with its two checks; both throw in the uses of the trie.\<close>

definition RLP_new :: "cxx_string \<Rightarrow> bool \<Rightarrow> bool \<Rightarrow> cxx_string run" where
  "RLP_new d failIfTooBig failIfTooSmall = bind_run (actualSize d) (\<lambda>n.
     if failIfTooBig \<and> n < length d then Throw OversizeRLP
     else if failIfTooSmall \<and> length d < n then Throw UndersizeRLP
     else Ret d)"

definition sizeAsEncoded :: "cxx_string \<Rightarrow> nat run" where
  "sizeAsEncoded d = bind_run (RLP_new d False True) actualSize"

text \<open>\<open>operator[]\<close>: walk over the items in front; past the last item the answer is empty.\<close>

fun nth_item :: "cxx_string \<Rightarrow> nat \<Rightarrow> cxx_string run" where
  "nth_item rest 0 = bind_run (sizeAsEncoded rest) (\<lambda>n. Ret (cropped rest 0 n))"
| "nth_item rest (Suc i) = bind_run (sizeAsEncoded rest) (\<lambda>n.
     if length (cropped rest 0 n) = 0 then Ret [] else nth_item (drop (length (cropped rest 0 n)) rest) i)"

definition rlp_at :: "cxx_string \<Rightarrow> nat \<Rightarrow> cxx_string run" where
  "rlp_at d i = bind_run (payload d) (\<lambda>p. bind_run (nth_item p i) (\<lambda>item. RLP_new item False True))"

function items_loop :: "cxx_string \<Rightarrow> nat \<Rightarrow> nat run" where
  "items_loop d i =
     (if length d = 0 then Ret i
      else case sizeAsEncoded d of
        Ret n \<Rightarrow> if n = 0 then Diverge else items_loop (drop n d) (i + 1)
      | Throw e \<Rightarrow> Throw e | Exit \<Rightarrow> Exit | Diverge \<Rightarrow> Diverge | Undefined \<Rightarrow> Undefined)"
  by pat_completeness auto
termination
  by (relation "measure (\<lambda>(d, i). length d)") auto

declare items_loop.simps [simp del]

definition itemCount :: "cxx_string \<Rightarrow> nat run" where
  "itemCount d = (if isList d then bind_run (payload d) (\<lambda>p. items_loop p 0) else Ret 0)"

definition rlp_size :: "cxx_string \<Rightarrow> nat run" where
  "rlp_size d = (if isData d then rlp_length d else Ret 0)"

definition toString :: "cxx_string \<Rightarrow> cxx_string run" where
  "toString d =
     (if \<not> isData d then Ret []
      else bind_run (payload d) (\<lambda>p. bind_run (rlp_length d) (\<lambda>l. Ret (cropped p 0 l))))"

subsection \<open>Numbers in bytes\<close>

lemma length_be_bytes [simp]: "length (be_bytes n i) = n"
  by (induction n arbitrary: i) auto

lemma be_value_snoc [simp]: "be_value (bs @ [c]) = be_value bs * 256 + byte c"
  by (simp add: be_value_def)

lemma be_value_be_bytes: "i < 256 ^ n \<Longrightarrow> be_value (be_bytes n i) = i"
proof (induction n arbitrary: i)
  case (Suc n)
  have "i div 256 < 256 ^ n" using Suc.prems by (simp add: less_mult_imp_div_less)
  from Suc.IH [OF this] show ?case by simp
qed (simp add: be_value_def)

lemma bytesRequired_bound: "i < 256 ^ bytesRequired i"
proof (induction i rule: bytesRequired.induct)
  case (1 i)
  show ?case
  proof (cases "i = 0")
    case False
    then have "i div 256 < 256 ^ bytesRequired (i div 256)" using 1 by simp
    then have "i < 256 * 256 ^ bytesRequired (i div 256)" by (simp add: div_less_iff_less_mult mult.commute)
    then show ?thesis using False by (subst bytesRequired.simps) simp
  qed (subst bytesRequired.simps, simp)
qed

lemma bytesRequired_le: "i < 256 ^ n \<Longrightarrow> bytesRequired i \<le> n"
proof (induction n arbitrary: i)
  case 0
  then show ?case by (subst bytesRequired.simps) simp
next
  case (Suc n)
  show ?case
  proof (cases "i = 0")
    case False
    have "i div 256 < 256 ^ n" using Suc.prems by (simp add: less_mult_imp_div_less)
    from Suc.IH [OF this] False show ?thesis by (subst bytesRequired.simps) simp
  qed (subst bytesRequired.simps, simp)
qed

text \<open>No leading zero byte.\<close>

lemma be_bytes_head:
  "i \<noteq> 0 \<Longrightarrow> \<exists>c cs. be_bytes (bytesRequired i) i = c # cs \<and> byte c \<noteq> 0"
proof (induction i rule: bytesRequired.induct)
  case (1 i)
  have b: "bytesRequired i = Suc (bytesRequired (i div 256))"
    using 1(2) by (subst bytesRequired.simps) simp
  show ?case
  proof (cases "i div 256 = 0")
    case True
    have "bytesRequired (0::nat) = 0" by (subst bytesRequired.simps) simp
    then show ?thesis using b True 1(2) by simp
  next
    case False
    from 1(1) [OF 1(2) False] b show ?thesis by auto
  qed
qed

subsection \<open>The encoding of an item\<close>

definition header :: "nat \<Rightarrow> nat \<Rightarrow> cxx_string" where
  "header base n = (if n < 56 then [char_of (base + n)]
     else char_of (base + 55 + bytesRequired n) # be_bytes (bytesRequired n) n)"

definition rlp_str :: "cxx_string \<Rightarrow> cxx_string" where
  "rlp_str s = (if length s = 1 \<and> byte (hd s) < 128 then s else header 128 (length s) @ s)"

definition rlp_list :: "cxx_string \<Rightarrow> cxx_string" where
  "rlp_list p = header 192 (length p) @ p"

text \<open>\<open>encodes e p data\<close>: \<open>e\<close> is the encoding of the payload \<open>p\<close>, as a string or as a list.\<close>

definition encodes :: "cxx_string \<Rightarrow> cxx_string \<Rightarrow> bool \<Rightarrow> bool" where
  "encodes e p data \<longleftrightarrow> length p < 256 ^ 7 \<and> e = (if data then rlp_str p else rlp_list p)"

lemma header_byte:
  assumes "n < 256 ^ 7" "base = 128 \<or> base = 192"
  shows "\<exists>h hs. header base n = h # hs \<and>
     (if n < 56 then hs = [] \<and> byte h = base + n
      else hs = be_bytes (bytesRequired n) n \<and> byte h = base + 55 + bytesRequired n
        \<and> bytesRequired n \<le> 7 \<and> 0 < bytesRequired n)"
proof -
  have "bytesRequired n \<le> 7" using bytesRequired_le [OF assms(1)] .
  moreover have "0 < bytesRequired n" if "56 \<le> n"
    using that by (subst bytesRequired.simps) simp
  ultimately show ?thesis using assms(2) by (auto simp: header_def)
qed

lemma long_length_header:
  assumes "56 \<le> n" "n < 256 ^ 7"
  shows "long_length (h # be_bytes (bytesRequired n) n @ r) (bytesRequired n) 56 = Ret n"
proof -
  obtain c cs where c: "be_bytes (bytesRequired n) n = c # cs" "byte c \<noteq> 0"
    using be_bytes_head [of n] assms(1) by auto
  have l: "length cs + 1 = bytesRequired n" using c(1) by (metis length_be_bytes list.size(4) One_nat_def)
  have v: "be_value (take (bytesRequired n) (c # cs @ r)) = n"
    using be_value_be_bytes [OF bytesRequired_bound [of n]] c(1) l by (metis append_Cons append_eq_conv_conj length_be_bytes)
  have "bytesRequired n \<le> 7" using bytesRequired_le [OF assms(2)] .
  moreover have "\<not> 2 ^ 64 - 1 - 0x100 \<le> n" using assms(2) by simp
  ultimately show ?thesis
    using c l v assms(1) by (simp add: long_length_def Let_def)
qed

lemma encodes_facts:
  assumes "encodes e p data"
  shows "rlp_length (e @ r) = Ret (length p)" "payload (e @ r) = Ret p"
    "actualSize (e @ r) = Ret (length e)" "isData (e @ r) = data" "isList (e @ r) = (\<not> data)" "e \<noteq> []"
proof -
  let ?n = "length p"
  have n: "?n < 256 ^ 7" using assms by (simp add: encodes_def)
  consider (single) c where "data" "p = [c]" "e = [c]" "byte c < 128"
    | (head) base where "base = (if data then 128 else 192 :: nat)" "e = header base ?n @ p"
        "data \<longrightarrow> \<not> (?n = 1 \<and> byte (hd p) < 128)"
    using assms by (cases p) (auto simp: encodes_def rlp_str_def rlp_list_def split: if_splits)
  then have "rlp_length (e @ r) = Ret (length p) \<and> payload (e @ r) = Ret p \<and>
    actualSize (e @ r) = Ret (length e) \<and> isData (e @ r) = data \<and> isList (e @ r) = (\<not> data) \<and> e \<noteq> []"
  proof cases
    case single
    then show ?thesis
      by (auto simp: rlp_length_def payload_def actualSize_def isData_def isList_def isNull_def
          requireGood_def isSingleByte_def payloadOffset_def cropped_def rlp_consts Let_def)
  next
    case head
    have base: "base = 128 \<or> base = 192" using head(1) by simp
    obtain h hs where h: "header base ?n = h # hs" and hh: "if ?n < 56 then hs = [] \<and> byte h = base + ?n
      else hs = be_bytes (bytesRequired ?n) ?n \<and> byte h = base + 55 + bytesRequired ?n
        \<and> bytesRequired ?n \<le> 7 \<and> 0 < bytesRequired ?n"
      using header_byte [OF n base] by blast
    have e: "e = h # hs @ p" using head(2) h by simp
    have kind: "isData (e @ r) = data" "isList (e @ r) = (\<not> data)" "\<not> isSingleByte (e @ r)" "\<not> isNull (e @ r)"
      using hh head(1) by (auto simp: e isData_def isList_def isSingleByte_def isNull_def rlp_consts split: if_splits)
    have good: "requireGood (e @ r) = Ret ()"
    proof (cases "byte h = 129")
      case True
      then have "?n = 1" "data" using hh head(1) byte_less [of h] by (auto split: if_splits)
      then obtain c where "p = [c]" "128 \<le> byte c" using head(3) by (cases p) auto
      then show ?thesis using hh e True by (auto simp: requireGood_def isNull_def rlp_consts split: if_splits)
    qed (use e in \<open>simp add: requireGood_def isNull_def rlp_consts\<close>)
    have len: "rlp_length (e @ r) = Ret ?n"
    proof (cases "?n < 56")
      case True
      then show ?thesis using hh head(1) kind(4) good
        by (auto simp: rlp_length_def e rlp_consts Let_def split: if_splits)
    next
      case False
      then have l: "long_length (e @ r) (bytesRequired ?n) 56 = Ret ?n"
        using long_length_header [of ?n h "p @ r"] hh n e by simp
      have b: "byte h = base + 55 + bytesRequired ?n" "bytesRequired ?n \<le> 7" "0 < bytesRequired ?n"
        using hh False by simp_all
      show ?thesis using b head(1) kind(4) good l
        by (auto simp: rlp_length_def e rlp_consts Let_def split: if_splits)
    qed
    have off: "payloadOffset (e @ r) = length (h # hs)"
      using hh head(1) kind by (auto simp: payloadOffset_def lengthSize_def e rlp_consts split: if_splits)
    have "actualSize (e @ r) = Ret (length e)"
      using len off kind by (auto simp: actualSize_def e)
    moreover have "payload (e @ r) = Ret p"
      using len off by (simp add: payload_def cropped_def e)
    ultimately show ?thesis using len kind e by simp
  qed
  then show "rlp_length (e @ r) = Ret (length p)" "payload (e @ r) = Ret p"
    "actualSize (e @ r) = Ret (length e)" "isData (e @ r) = data" "isList (e @ r) = (\<not> data)" "e \<noteq> []" by auto
qed

lemma encodes_whole:
  assumes "encodes e p data"
  shows "rlp_length e = Ret (length p)" "payload e = Ret p"
    "actualSize e = Ret (length e)" "isData e = data" "isList e = (\<not> data)" "e \<noteq> []"
  using encodes_facts(1-5) [OF assms, of "[]"] encodes_facts(6) [OF assms] by simp_all

lemma encodes_size: "encodes e p data \<Longrightarrow> sizeAsEncoded (e @ r) = Ret (length e)"
  by (simp add: sizeAsEncoded_def RLP_new_def encodes_facts)

lemma encodes_new: "encodes e p data \<Longrightarrow> RLP_new e a b = Ret e"
  by (simp add: RLP_new_def encodes_whole)

lemma encodes_toString: "encodes e p True \<Longrightarrow> toString e = Ret p"
  by (simp add: toString_def encodes_whole cropped_def)

lemma sizeAsEncoded_Nil [simp]: "sizeAsEncoded [] = Ret 0"
  by (simp add: sizeAsEncoded_def RLP_new_def actualSize_def isNull_def)

text \<open>A list of encoded items: counting them and reading one.\<close>

definition encodes_all :: "cxx_string list \<Rightarrow> (cxx_string \<times> bool) list \<Rightarrow> bool" where
  "encodes_all es ps \<longleftrightarrow> list_all2 (\<lambda>e (p, data). encodes e p data) es ps"

lemma nth_item_concat:
  "encodes_all es ps \<Longrightarrow> i < length es \<Longrightarrow> nth_item (concat es) i = Ret (es ! i)"
proof (induction es arbitrary: ps i)
  case (Cons e es)
  then obtain p d ps' where "encodes e p d" "encodes_all es ps'"
    by (auto simp: encodes_all_def list_all2_Cons1)
  note e = encodes_size [OF this(1), of "concat es"] encodes_whole(6) [OF this(1)] and rest = this(2)
  show ?case
  proof (cases i)
    case 0
    then show ?thesis using e by (simp add: cropped_def)
  next
    case (Suc j)
    then show ?thesis using e Cons.IH [OF rest, of j] Cons.prems(2) by (simp add: cropped_def)
  qed
qed simp

lemma items_loop_concat: "encodes_all es ps \<Longrightarrow> items_loop (concat es) k = Ret (k + length es)"
proof (induction es arbitrary: ps k)
  case Nil
  then show ?case by (subst items_loop.simps) simp
next
  case (Cons e es)
  then obtain p d ps' where "encodes e p d" "encodes_all es ps'"
    by (auto simp: encodes_all_def list_all2_Cons1)
  note e = encodes_size [OF this(1), of "concat es"] encodes_whole(6) [OF this(1)]
    and rest = Cons.IH [OF this(2), of "k + 1"]
  show ?case using e rest by (subst items_loop.simps) simp
qed

lemma rlp_at_list:
  assumes "encodes_all es ps" "i < length es" "length (concat es) < 256 ^ 7"
  shows "rlp_at (rlp_list (concat es)) i = Ret (es ! i)"
    and "itemCount (rlp_list (concat es)) = Ret (length es)"
proof -
  have l: "encodes (rlp_list (concat es)) (concat es) False" using assms(3) by (simp add: encodes_def)
  obtain p d where "encodes (es ! i) p d"
    using assms(1,2) by (auto simp: encodes_all_def list_all2_conv_all_nth split: prod.splits)
       (metis surj_pair)
  then show "rlp_at (rlp_list (concat es)) i = Ret (es ! i)"
    using nth_item_concat [OF assms(1,2)] by (simp add: rlp_at_def encodes_whole [OF l] encodes_new)
  show "itemCount (rlp_list (concat es)) = Ret (length es)"
    using items_loop_concat [OF assms(1), of 0] by (simp add: itemCount_def encodes_whole [OF l])
qed

subsection \<open>Hexadecimal round trip\<close>

lemma hex_digit_value:
  assumes "n < 16"
  shows "fromHexChar (hex_digits ! n) = Some n" "hex_digits ! n \<noteq> CHR ''x''"
proof -
  have "list_all (\<lambda>n. fromHexChar (hex_digits ! n) = Some n \<and> hex_digits ! n \<noteq> CHR ''x'') [0..<16]"
    by (simp add: hex_digits_def fromHexChar_def byte_def upt_rec)
  then show "fromHexChar (hex_digits ! n) = Some n" "hex_digits ! n \<noteq> CHR ''x''"
    using assms by (simp_all add: list_all_iff)
qed

lemma toHex_simps [simp]: "toHex [] = []"
  "toHex (c # cs) = hex_digits ! (byte c div 16) # hex_digits ! (byte c mod 16) # toHex cs"
  by (simp_all add: toHex_def)

lemma length_toHex [simp]: "length (toHex s) = 2 * length s"
  by (induction s) auto

lemma hex_pairs_toHex: "hex_pairs (toHex s) ret = ret @ s"
proof (induction s arbitrary: ret)
  case (Cons c cs)
  have "byte c div 16 < 16" using byte_less [of c] by (simp add: less_mult_imp_div_less)
  moreover have "char_of (byte c div 16 * 16 + byte c mod 16) = c"
    by (simp add: byte_def)
  ultimately show ?case using Cons.IH by (simp add: hex_digit_value)
qed simp

lemma fromHex_toHex: "fromHex (toHex s) = s"
proof -
  have "take 2 (toHex s) \<noteq> ''0x''"
    using hex_digit_value(2) by (cases s) auto
  then show ?thesis by (simp add: fromHex_def hex_pairs_toHex)
qed

end
