(* ===== verification/TrieStore.thy ===== *)
theory TrieStore
  imports Trie Rlp DbReader
begin

text \<open>
  The trie and its store (\<open>mpt/trie.cpp\<close>): encoding and hashing of nodes, committing the
  changed nodes into \<open>dirtyHash\<close>, and loading nodes back. SHA-256 is the argument
  \<open>sha\<close> (it comes from OpenSSL), the database the argument \<open>rd\<close>.
\<close>

subsection \<open>Encode\<close>

text \<open>
  The children of a full node are encoded with the loop over the whole array; a child is appended
  as the byte string of its own encoding.
\<close>

fun encode_node :: "node \<Rightarrow> RLPStream run"
  and encode_kids :: "node option list \<Rightarrow> RLPStream \<Rightarrow> RLPStream run" where
  "encode_node (ShortNode nodeKey nodeVal flags) =
     bind_run (appendList RLPStream_empty 2) (\<lambda>rlp.
     bind_run (append_bytes rlp nodeKey False) (\<lambda>rlp1.
       case nodeVal of
         None \<Rightarrow> Undefined
       | Some c \<Rightarrow> bind_run (bind_run (encode_node c) out_stream) (\<lambda>bs. append_bytes rlp1 bs False)))"
| "encode_node (FullNode children flags) =
     bind_run (appendList RLPStream_empty 17) (\<lambda>rlp. encode_kids children rlp)"
| "encode_node (ValueNode d) = append_bytes RLPStream_empty d False"
| "encode_node (HashNode d) = append_bytes RLPStream_empty d False"
| "encode_kids [] rlp = Ret rlp"
| "encode_kids (None # cs) rlp = bind_run (append_bytes rlp [] False) (encode_kids cs)"
| "encode_kids (Some c # cs) rlp =
     bind_run (bind_run (encode_node c) out_stream) (\<lambda>bs.
     bind_run (append_bytes rlp bs False) (\<lambda>rlp1. encode_kids cs rlp1))"

definition Encode :: "node \<Rightarrow> cxx_string run" where
  "Encode n = bind_run (encode_node n) out_stream"

subsection \<open>Hashing\<close>

type_synonym sha256 = "cxx_string \<Rightarrow> cxx_string"

definition ToHash :: "sha256 \<Rightarrow> node \<Rightarrow> cxx_string run" where
  "ToHash sha n = bind_run (Encode n) (\<lambda>data. Ret (sha (toHex data)))"

fun is_short_or_full :: "node \<Rightarrow> bool" where
  "is_short_or_full (ShortNode k v fl) = True"
| "is_short_or_full (FullNode cs fl) = True"
| "is_short_or_full _ = False"

text \<open>
  \<open>hash\<close> answers the hash node and the node with the hash noted in its flags. A short node is
  encoded as it is, a full node with its first sixteen children collapsed to hash nodes and
  without the seventeenth.
\<close>

fun hash_node :: "sha256 \<Rightarrow> node \<Rightarrow> (node \<times> node) run"
  and hash_kids :: "sha256 \<Rightarrow> nat \<Rightarrow> node option list \<Rightarrow> (node option list \<times> node option list) run" where
  "hash_node sha (ShortNode nodeKey nodeVal flags) =
     (if nf_hash flags \<noteq> [] then Ret (HashNode (nf_hash flags), ShortNode nodeKey nodeVal flags)
      else case nodeVal of
        None \<Rightarrow> Undefined
      | Some vn \<Rightarrow>
          bind_run (if is_short_or_full vn then bind_run (hash_node sha vn) (\<lambda>(h, vn'). Ret vn') else Ret vn) (\<lambda>vn'.
          bind_run (ToHash sha (ShortNode nodeKey (Some vn') flags)) (\<lambda>h.
            Ret (HashNode h, ShortNode nodeKey (Some vn') (flags\<lparr>nf_hash := h\<rparr>)))))"
| "hash_node sha (FullNode children flags) =
     (if nf_hash flags \<noteq> [] then Ret (HashNode (nf_hash flags), FullNode children flags)
      else bind_run (hash_kids sha 16 children) (\<lambda>(collapsed, children').
           bind_run (ToHash sha (FullNode collapsed \<lparr>nf_hash = [], nf_dirty = False\<rparr>)) (\<lambda>h.
             Ret (HashNode h, FullNode children' (flags\<lparr>nf_hash := h\<rparr>)))))"
| "hash_node sha n = Ret (n, n)"
| "hash_kids sha 0 cs = Ret (replicate (length cs) None, cs)"
| "hash_kids sha (Suc i) [] = Ret ([], [])"
| "hash_kids sha (Suc i) (None # cs) =
     bind_run (hash_kids sha i cs) (\<lambda>(hs, cs'). Ret (None # hs, None # cs'))"
| "hash_kids sha (Suc i) (Some c # cs) =
     bind_run (hash_node sha c) (\<lambda>(h, c').
     bind_run (hash_kids sha i cs) (\<lambda>(hs, cs'). Ret (Some h # hs, Some c' # cs')))"

subsection \<open>Committing\<close>

type_synonym dirty = "(cxx_string, cxx_string) std_map"

definition Store :: "node \<Rightarrow> dirty \<Rightarrow> (node \<times> dirty) run" where
  "Store n dirtyHash =
     (case n of
        ShortNode k v fl \<Rightarrow> bind_run (Encode n) (\<lambda>data.
          Ret (HashNode (nf_hash fl), map_assign (nf_hash fl) (toHex data) dirtyHash))
      | FullNode cs fl \<Rightarrow> bind_run (Encode n) (\<lambda>data.
          Ret (HashNode (nf_hash fl), map_assign (nf_hash fl) (toHex data) dirtyHash))
      | _ \<Rightarrow> Ret (n, dirtyHash))"

text \<open>
  \<open>Commit\<close> replaces a node by its hash node; of a short node's child only a full node is
  committed, and a value node becomes null.
\<close>

fun commit_node :: "node \<Rightarrow> dirty \<Rightarrow> (node option \<times> dirty) run"
  and commit_kids :: "nat \<Rightarrow> node option list \<Rightarrow> dirty \<Rightarrow> (node option list \<times> dirty) run" where
  "commit_node (ShortNode nodeKey nodeVal flags) D =
     (if \<not> nf_dirty flags \<and> nf_hash flags \<noteq> [] then Ret (Some (HashNode (nf_hash flags)), D)
      else case nodeVal of
        None \<Rightarrow> Undefined
      | Some (FullNode cs fl) \<Rightarrow>
          bind_run (commit_node (FullNode cs fl) D) (\<lambda>(childV, D1).
          bind_run (Store (ShortNode nodeKey childV flags) D1) (\<lambda>(h, D2). Ret (Some h, D2)))
      | Some vn \<Rightarrow>
          bind_run (Store (ShortNode nodeKey (Some vn) flags) D) (\<lambda>(h, D2). Ret (Some h, D2)))"
| "commit_node (FullNode children flags) D =
     (if \<not> nf_dirty flags \<and> nf_hash flags \<noteq> [] then Ret (Some (HashNode (nf_hash flags)), D)
      else bind_run (commit_kids 16 children D) (\<lambda>(kids, D1).
           bind_run (Store (FullNode kids flags) D1) (\<lambda>(h, D2). Ret (Some h, D2))))"
| "commit_node (HashNode h) D = Ret (Some (HashNode h), D)"
| "commit_node (ValueNode d) D = Ret (None, D)"
| "commit_kids 0 cs D = Ret (cs, D)"
| "commit_kids (Suc i) [] D = Ret ([], D)"
| "commit_kids (Suc i) (None # cs) D =
     bind_run (commit_kids i cs D) (\<lambda>(kids, D1). Ret (None # kids, D1))"
| "commit_kids (Suc i) (Some c # cs) D =
     bind_run (commit_node c D) (\<lambda>(c', D1).
     bind_run (commit_kids i cs D1) (\<lambda>(kids, D2). Ret (c' # kids, D2)))"

definition Save :: "sha256 \<Rightarrow> trie \<Rightarrow> trie run" where
  "Save sha t =
     (case tr_root t of
        None \<Rightarrow> Ret t
      | Some n \<Rightarrow>
          bind_run (hash_node sha n) (\<lambda>(h, n').
          bind_run (commit_node n' (tr_dirtyHash t)) (\<lambda>(r, D). Ret (t\<lparr>tr_root := r, tr_dirtyHash := D\<rparr>))))"

text \<open>
  \<open>GetBlockStorage\<close>: the root's hash and data, and the other changed nodes. The iterator is
  dereferenced before it is compared with \<open>end()\<close>, and the root is taken for a hash node.
  The output \<open>dirtyHash\<close> keeps its old value where the code does not assign it.
\<close>

definition GetBlockStorage ::
    "trie \<Rightarrow> cxx_string \<times> cxx_string \<Rightarrow> dirty \<Rightarrow> ((cxx_string \<times> cxx_string) \<times> dirty \<times> trie) run" where
  "GetBlockStorage t rootHash dirtyHash =
     (case tr_root t of
        None \<Rightarrow> Ret (rootHash, dirtyHash, t)
      | Some (HashNode h) \<Rightarrow>
          if tr_dirtyHash t = [] then Ret ((h, []), dirtyHash, t)
          else (case map_of (tr_dirtyHash t) h of
              None \<Rightarrow> Undefined
            | Some data \<Rightarrow>
                let D = map_erase h (tr_dirtyHash t) in Ret ((h, data), D, t\<lparr>tr_dirtyHash := D\<rparr>))
      | Some _ \<Rightarrow> Undefined)"

subsection \<open>Loading\<close>

text \<open>The decoders take \<open>DecodeRef\<close> as an argument; it recurses into embedded lists.\<close>

definition DecodeShort :: "(cxx_string \<Rightarrow> node option run) \<Rightarrow> cxx_string \<Rightarrow> cxx_string \<Rightarrow> node option run" where
  "DecodeShort ref hash r =
     (let flag = \<lparr>nf_hash = hash, nf_dirty = False\<rparr> in
      bind_run (bind_run (rlp_at r 0) toString) (\<lambda>kay.
      if \<not> HasTerm kay then
        bind_run (bind_run (rlp_at r 1) ref) (\<lambda>v. Ret (Some (ShortNode kay v flag)))
      else
        bind_run (bind_run (bind_run (rlp_at r 1) (\<lambda>r1. rlp_at r1 0)) toString) (\<lambda>d.
          Ret (Some (ShortNode kay (Some (ValueNode d)) flag)))))"

fun decode_kids ::
    "(cxx_string \<Rightarrow> node option run) \<Rightarrow> cxx_string \<Rightarrow> nat list \<Rightarrow> node option list \<Rightarrow> node option list run" where
  "decode_kids ref r [] cs = Ret cs"
| "decode_kids ref r (i # ixs) cs =
     bind_run (rlp_at r i) (\<lambda>ri.
       if \<not> isEmpty ri then bind_run (ref ri) (\<lambda>v. decode_kids ref r ixs (cs[i := v]))
       else decode_kids ref r ixs cs)"

definition DecodeFull :: "(cxx_string \<Rightarrow> node option run) \<Rightarrow> cxx_string \<Rightarrow> cxx_string \<Rightarrow> node option run" where
  "DecodeFull ref hash r =
     bind_run (decode_kids ref r [0..<16] (replicate 17 None)) (\<lambda>cs.
       Ret (Some (FullNode cs \<lparr>nf_hash = hash, nf_dirty = False\<rparr>)))"

definition DecodeNode :: "(cxx_string \<Rightarrow> node option run) \<Rightarrow> cxx_string \<Rightarrow> cxx_string \<Rightarrow> node option run" where
  "DecodeNode ref hash r =
     bind_run (itemCount r) (\<lambda>n.
       if isList r \<and> n = 2 then DecodeShort ref hash r
       else if isList r \<and> n = 17 then DecodeFull ref hash r
       else Ret None)"

text \<open>
  The depth of the recursion is bounded by the fuel; an embedded list is shorter than the list
  it is in, so the length of the data is enough.
\<close>

fun DecodeRef :: "nat \<Rightarrow> cxx_string \<Rightarrow> node option run" where
  "DecodeRef 0 r = Diverge"
| "DecodeRef (Suc fuel) r =
     bind_run (rlp_size r) (\<lambda>size.
       if isData r \<and> size = 0 then Ret None
       else if isData r \<and> size = 66 then
         bind_run (bind_run (rlp_at r 0) toString) (\<lambda>h. Ret (Some (HashNode h)))
       else if isList r then DecodeNode (DecodeRef fuel) [] r
       else Ret None)"

text \<open>
  \<open>DescendKey\<close>: the value from the contract's cached storage or, when that has none, from the
  database; a missing value is a null node.
\<close>

definition DescendKey ::
    "reader \<Rightarrow> (cxx_string \<Rightarrow> cxx_string option) option \<Rightarrow> cxx_string \<Rightarrow> resolver" where
  "DescendKey rd contractDataStorage contractAddr key =
     (let k = contractAddr @ ''_'' @ key;
          value0 = (case contractDataStorage of
                      None \<Rightarrow> [] | Some m \<Rightarrow> (case m k of None \<Rightarrow> [] | Some v \<Rightarrow> v))
      in bind_run (if value0 = [] then bind_run (getMptValueByMptKey rd k value0) (\<lambda>(ret, v). Ret v)
                   else Ret value0) (\<lambda>value.
         let bs = fromHex value in
         if value = [] then Ret None
         else bind_run (RLP_new bs True True) (\<lambda>r. DecodeNode (DecodeRef (length r + 1)) key r)))"

definition Trie_new :: "cxx_string \<Rightarrow> trie" where
  "Trie_new contractAddr = \<lparr>tr_root = None, tr_contractAddr = contractAddr, tr_dirtyHash = []\<rparr>"

definition Trie_open :: "resolver \<Rightarrow> cxx_string \<Rightarrow> cxx_string \<Rightarrow> trie run" where
  "Trie_open rs roothash contractAddr =
     bind_run (rs roothash) (\<lambda>root. Ret ((Trie_new contractAddr)\<lparr>tr_root := root\<rparr>))"

subsection \<open>What the stream writes\<close>

lemma pushCount_header:
  assumes "56 \<le> n" "n < 256 ^ 7"
  shows "pushCount st n (base + 55) = (if 0xff < bytesRequired n + (base + 55) then Throw RLPException
    else Ret (push_out st (header base n)))"
  using assms by (simp add: pushCount_def header_def push_out_def Let_def add.commute add.left_commute)

lemma append_bytes_note:
  assumes "length s < 256 ^ 7"
  shows "append_bytes st s False = noteAppended (push_out st (rlp_str s)) 1"
proof (cases "length s < 56")
  case True
  then show ?thesis
    by (auto simp: append_bytes_def rlp_str_def header_def rlp_consts Let_def appendRaw_def noteAppended_def
        push_out_def add.commute length_Suc_conv)
next
  case False
  have "bytesRequired (length s) \<le> 7" using bytesRequired_le [OF assms] .
  then show ?thesis
    using False assms pushCount_header [of "length s" st 128]
    by (auto simp: append_bytes_def rlp_str_def rlp_consts Let_def appendRaw_def noteAppended_def push_out_def)
qed

lemma append_top:
  "length s < 256 ^ 7 \<Longrightarrow> m_listStack st = [] \<Longrightarrow>
   append_bytes st s False = Ret \<lparr>m_out = m_out st @ rlp_str s, m_listStack = []\<rparr>"
  by (simp add: append_bytes_note noteAppended_def push_out_def)

lemma append_inner:
  "length s < 256 ^ 7 \<Longrightarrow> 1 < n \<Longrightarrow>
   append_bytes \<lparr>m_out = o0, m_listStack = [(n, 0)]\<rparr> s False =
     Ret \<lparr>m_out = o0 @ rlp_str s, m_listStack = [(n - 1, 0)]\<rparr>"
  by (simp add: append_bytes_note noteAppended_def push_out_def)

lemma close_list_header:
  assumes "length p < 256 ^ 7"
  shows "close_list p 0 = Ret (rlp_list p)"
proof -
  have "bytesRequired (length p) \<le> 7" using bytesRequired_le [OF assms] .
  then show ?thesis by (auto simp: close_list_def rlp_list_def header_def rlp_consts Let_def)
qed

lemma append_last:
  "length s < 256 ^ 7 \<Longrightarrow> length (o0 @ rlp_str s) < 256 ^ 7 \<Longrightarrow>
   append_bytes \<lparr>m_out = o0, m_listStack = [(Suc 0, 0)]\<rparr> s False =
     Ret \<lparr>m_out = rlp_list (o0 @ rlp_str s), m_listStack = []\<rparr>"
  by (simp add: append_bytes_note noteAppended_def push_out_def close_list_header del: length_append)

lemma appendList_open: "n \<noteq> 0 \<Longrightarrow> appendList RLPStream_empty n = Ret \<lparr>m_out = [], m_listStack = [(n, 0)]\<rparr>"
  by (simp add: appendList_def RLPStream_empty_def)

lemma length_header: "length (header base n) \<le> 1 + bytesRequired n"
  by (simp add: header_def)

lemma length_rlp_str: "length s < 256 ^ 7 \<Longrightarrow> length (rlp_str s) \<le> length s + 8"
  using length_header [of 128 "length s"] bytesRequired_le [of "length s" 7] by (auto simp: rlp_str_def)

lemma rlp_str_encodes: "length s < 256 ^ 7 \<Longrightarrow> encodes (rlp_str s) s True"
  by (simp add: encodes_def)

lemma Encode_leaf:
  "length d < 256 ^ 7 \<Longrightarrow> bind_run (encode_node (ValueNode d)) out_stream = Ret (rlp_str d)"
  "length d < 256 ^ 7 \<Longrightarrow> bind_run (encode_node (HashNode d)) out_stream = Ret (rlp_str d)"
  by (simp_all add: append_top RLPStream_empty_def out_stream_def)

subsection \<open>Stored nodes\<close>

text \<open>
  The nodes that \<open>Store\<close> writes: a leaf, a short node over a hash node, a full node of hash
  nodes; \<open>small\<close> bounds every string by 16 MB.
\<close>

definition small :: "cxx_string \<Rightarrow> bool" where
  "small s \<longleftrightarrow> length s < 256 ^ 3"

definition is_digest :: "cxx_string \<Rightarrow> bool" where
  "is_digest h \<longleftrightarrow> length h = 64"

definition hash_child :: "node option \<Rightarrow> bool" where
  "hash_child c \<longleftrightarrow> (case c of None \<Rightarrow> True | Some (HashNode h) \<Rightarrow> is_digest h | _ \<Rightarrow> False)"

fun storable :: "node \<Rightarrow> bool" where
  "storable (ShortNode k (Some (ValueNode d)) fl) \<longleftrightarrow> HasTerm k \<and> small k \<and> small d"
| "storable (ShortNode k (Some (HashNode h)) fl) \<longleftrightarrow> \<not> HasTerm k \<and> small k \<and> is_digest h"
| "storable (FullNode cs fl) \<longleftrightarrow> length cs = 17 \<and> cs ! 16 = None \<and> list_all hash_child cs"
| "storable _ = False"

definition kid_bytes :: "node option \<Rightarrow> cxx_string" where
  "kid_bytes c = (case c of Some (HashNode h) \<Rightarrow> rlp_str h | _ \<Rightarrow> [])"

lemma digest_bytes: "is_digest h \<Longrightarrow> length (rlp_str h) = 66"
proof -
  assume "is_digest h"
  moreover have "bytesRequired 64 = 1" by (simp add: bytesRequired.simps)
  ultimately show ?thesis by (simp add: rlp_str_def header_def is_digest_def)
qed

lemma kid_bytes_size: "hash_child c \<Longrightarrow> length (kid_bytes c) \<le> 66"
  using digest_bytes by (auto simp: hash_child_def kid_bytes_def split: option.splits node.splits)

lemma kid_item_size: "hash_child c \<Longrightarrow> length (rlp_str (kid_bytes c)) \<le> 74"
  using kid_bytes_size [of c] length_rlp_str [of "kid_bytes c"] by simp

lemma encode_kids_stored:
  "list_all hash_child cs \<Longrightarrow> cs \<noteq> [] \<Longrightarrow> length o0 + 74 * length cs < 256 ^ 7 \<Longrightarrow>
   encode_kids cs \<lparr>m_out = o0, m_listStack = [(length cs, 0)]\<rparr> =
     Ret \<lparr>m_out = rlp_list (o0 @ concat (map (\<lambda>c. rlp_str (kid_bytes c)) cs)), m_listStack = []\<rparr>"
proof (induction cs arbitrary: o0)
  case (Cons c cs)
  have hc: "hash_child c" using Cons.prems(1) by simp
  have b: "length (kid_bytes c) < 256 ^ 7" using kid_bytes_size [OF hc] by simp
  have step: "encode_kids (c # cs) st = bind_run (append_bytes st (kid_bytes c) False) (encode_kids cs)" for st
  proof (cases c)
    case (Some v)
    then obtain h where "v = HashNode h" "is_digest h"
      using hc by (auto simp: hash_child_def split: node.splits)
    then show ?thesis
      using Some by (simp add: kid_bytes_def is_digest_def append_top RLPStream_empty_def out_stream_def)
  qed (simp add: kid_bytes_def)
  show ?case
  proof (cases "cs = []")
    case True
    have "length (o0 @ rlp_str (kid_bytes c)) < 256 ^ 7"
      using kid_item_size [OF hc] Cons.prems(3) True by simp
    then have "append_bytes \<lparr>m_out = o0, m_listStack = [(Suc 0, 0)]\<rparr> (kid_bytes c) False =
        Ret \<lparr>m_out = rlp_list (o0 @ rlp_str (kid_bytes c)), m_listStack = []\<rparr>"
      by (intro append_last b)
    with True show ?thesis by (subst step) simp
  next
    case False
    have "length (o0 @ rlp_str (kid_bytes c)) + 74 * length cs < 256 ^ 7"
      using kid_item_size [OF hc] Cons.prems(3) by simp
    from Cons.IH [OF _ False this] Cons.prems(1) False b show ?thesis
      by (subst step) (simp add: append_inner)
  qed
qed simp

lemma Encode_short:
  assumes "length k < 256 ^ 4" "length (rlp_str b) < 256 ^ 4" "length b < 256 ^ 4"
    and "bind_run (encode_node c) out_stream = Ret b"
  shows "Encode (ShortNode k (Some c) fl) = Ret (rlp_list (rlp_str k @ rlp_str b))"
proof -
  have "length (rlp_str k @ rlp_str b) < 256 ^ 7"
    using assms(1,2) length_rlp_str [of k] by simp
  then have "append_bytes \<lparr>m_out = rlp_str k, m_listStack = [(Suc 0, 0)]\<rparr> b False =
      Ret \<lparr>m_out = rlp_list (rlp_str k @ rlp_str b), m_listStack = []\<rparr>"
    using assms(3) by (intro append_last) simp_all
  with assms show ?thesis
    by (simp add: Encode_def appendList_open append_inner out_stream_def)
qed

lemma Encode_full:
  assumes "list_all hash_child cs" "length cs = 17"
  shows "Encode (FullNode cs fl) = Ret (rlp_list (concat (map (\<lambda>c. rlp_str (kid_bytes c)) cs)))"
proof -
  have "cs \<noteq> []" using assms(2) by auto
  from encode_kids_stored [OF assms(1) this, of "[]"] assms(2) show ?thesis
    by (simp add: Encode_def appendList_open out_stream_def)
qed

subsection \<open>Reading stored nodes back\<close>

fun reflag :: "node \<Rightarrow> NodeFlag \<Rightarrow> node" where
  "reflag (ShortNode k v fl) f = ShortNode k v f"
| "reflag (FullNode cs fl) f = FullNode cs f"
| "reflag n f = n"

lemma rlp_at_nested:
  assumes "encodes b p True" "length b < 256 ^ 7"
  shows "rlp_at (rlp_str b) 0 = Ret b"
  using encodes_whole [OF rlp_str_encodes [OF assms(2)]] encodes_size [OF assms(1), of "[]"] assms(1)
  by (simp add: rlp_at_def cropped_def encodes_new)

lemma DecodeRef_digest:
  assumes "is_digest h"
  shows "DecodeRef (Suc f) (rlp_str (rlp_str h)) = Ret (Some (HashNode h))"
proof -
  have b: "length (rlp_str h) = 66" "length (rlp_str h) < 256 ^ 7" using digest_bytes [OF assms] by simp_all
  have h: "encodes (rlp_str h) h True" using assms by (intro rlp_str_encodes) (simp add: is_digest_def)
  note e = encodes_whole [OF rlp_str_encodes [OF b(2)]]
  show ?thesis
    using rlp_at_nested [OF h b(2)] encodes_toString [OF h] e(1,4) b(1) by (simp add: rlp_size_def)
qed

lemma rlp_pair:
  assumes "length k < 256 ^ 4" "length b < 256 ^ 4"
  shows "rlp_at (rlp_list (rlp_str k @ rlp_str b)) 0 = Ret (rlp_str k)"
    "rlp_at (rlp_list (rlp_str k @ rlp_str b)) 1 = Ret (rlp_str b)"
    "itemCount (rlp_list (rlp_str k @ rlp_str b)) = Ret 2"
    "isList (rlp_list (rlp_str k @ rlp_str b))"
proof -
  have a: "encodes_all [rlp_str k, rlp_str b] [(k, True), (b, True)]"
    using assms by (simp add: encodes_all_def rlp_str_encodes)
  have l: "length (concat [rlp_str k, rlp_str b]) < 256 ^ 7"
    using length_rlp_str [of k] length_rlp_str [of b] assms by simp
  show "rlp_at (rlp_list (rlp_str k @ rlp_str b)) 0 = Ret (rlp_str k)"
    "rlp_at (rlp_list (rlp_str k @ rlp_str b)) 1 = Ret (rlp_str b)"
    using rlp_at_list(1) [OF a _ l, of 0] rlp_at_list(1) [OF a _ l, of 1] by simp_all
  show "itemCount (rlp_list (rlp_str k @ rlp_str b)) = Ret 2"
    using rlp_at_list(2) [OF a _ l, of 0] by simp
  have "encodes (rlp_list (rlp_str k @ rlp_str b)) (rlp_str k @ rlp_str b) False"
    using l by (simp add: encodes_def)
  then show "isList (rlp_list (rlp_str k @ rlp_str b))" by (simp add: encodes_whole)
qed

lemma decode_kids_loop:
  assumes "\<And>i. i \<in> set ixs \<Longrightarrow> \<exists>e. rlp_at r i = Ret e \<and>
      (case kids ! i of None \<Rightarrow> isEmpty e | Some v \<Rightarrow> \<not> isEmpty e \<and> ref e = Ret (Some v))"
  shows "\<exists>cs'. decode_kids ref r ixs cs = Ret cs' \<and> length cs' = length cs \<and>
    (\<forall>j<length cs. cs' ! j = (if j \<in> set ixs \<and> kids ! j \<noteq> None then kids ! j else cs ! j))"
  using assms
proof (induction ixs arbitrary: cs)
  case (Cons i rest)
  obtain e where e: "rlp_at r i = Ret e"
    "case kids ! i of None \<Rightarrow> isEmpty e | Some v \<Rightarrow> \<not> isEmpty e \<and> ref e = Ret (Some v)"
    using Cons.prems [of i] by auto
  have rest: "\<exists>e. rlp_at r j = Ret e \<and> (case kids ! j of None \<Rightarrow> isEmpty e | Some v \<Rightarrow> \<not> isEmpty e \<and> ref e = Ret (Some v))"
    if "j \<in> set rest" for j
    using Cons.prems [of j] that by simp
  show ?case
  proof (cases "kids ! i")
    case None
    from Cons.IH [OF rest, of cs] obtain cs' where "decode_kids ref r rest cs = Ret cs'" "length cs' = length cs"
      "\<forall>j<length cs. cs' ! j = (if j \<in> set rest \<and> kids ! j \<noteq> None then kids ! j else cs ! j)" by blast
    with e None show ?thesis by auto
  next
    case (Some v)
    from Cons.IH [OF rest, of "cs[i := Some v]"] obtain cs' where
      "decode_kids ref r rest (cs[i := Some v]) = Ret cs'" "length cs' = length cs"
      "\<forall>j<length cs. cs' ! j = (if j \<in> set rest \<and> kids ! j \<noteq> None then kids ! j else cs[i := Some v] ! j)" by auto
    with e Some show ?thesis
      by (auto simp: nth_list_update) (metis nth_list_update_neq option.distinct(1))
  qed
qed simp

lemma header_empty: "n \<noteq> 0 \<Longrightarrow> n < 256 ^ 7 \<Longrightarrow> \<not> isEmpty (header 128 n @ p)"
  using header_byte [of n 128] by (auto simp: isEmpty_def isNull_def rlp_consts split: if_splits)

lemma decode_full:
  assumes "length cs = 17" "cs ! 16 = None" "list_all hash_child cs"
  shows "DecodeFull (DecodeRef (Suc f)) h (rlp_list (concat (map (\<lambda>c. rlp_str (kid_bytes c)) cs)))
    = Ret (Some (FullNode cs \<lparr>nf_hash = h, nf_dirty = False\<rparr>))"
    "itemCount (rlp_list (concat (map (\<lambda>c. rlp_str (kid_bytes c)) cs))) = Ret 17"
    "isList (rlp_list (concat (map (\<lambda>c. rlp_str (kid_bytes c)) cs)))"
proof -
  let ?es = "map (\<lambda>c. rlp_str (kid_bytes c)) cs"
  have hc: "hash_child c" if "c \<in> set cs" for c using assms(3) that by (simp add: list_all_iff)
  have kb: "length (kid_bytes c) < 256 ^ 7" if "c \<in> set cs" for c
    using kid_bytes_size [OF hc [OF that]] by simp
  have all: "encodes_all ?es (map (\<lambda>c. (kid_bytes c, True)) cs)"
    unfolding encodes_all_def list_all2_conv_all_nth using kb by (simp add: rlp_str_encodes)
  have "length (concat ?es) \<le> 74 * length cs"
    using assms(3)
  proof (induction cs)
    case (Cons c cs)
    then show ?case using kid_item_size [of c] by simp
  qed simp
  then have len: "length (concat ?es) < 256 ^ 7" using assms(1) by simp
  have item: "\<exists>e. rlp_at (rlp_list (concat ?es)) i = Ret e \<and>
      (case cs ! i of None \<Rightarrow> isEmpty e | Some v \<Rightarrow> \<not> isEmpty e \<and> DecodeRef (Suc f) e = Ret (Some v))"
    if "i \<in> set [0..<16]" for i
  proof -
    have i: "i < length ?es" using that assms(1) by simp
    have at: "rlp_at (rlp_list (concat ?es)) i = Ret (rlp_str (kid_bytes (cs ! i)))"
      using rlp_at_list(1) [OF all i len] i by simp
    show ?thesis
    proof (cases "cs ! i")
      case None
      have "isEmpty (rlp_str [])" by (simp add: isEmpty_def isNull_def rlp_str_def header_def rlp_consts)
      with None at show ?thesis by (simp add: kid_bytes_def)
    next
      case (Some v)
      then obtain d where d: "v = HashNode d" "is_digest d"
        using hc [of "cs ! i"] i nth_mem [of i cs] by (auto simp: hash_child_def split: node.splits)
      have "\<not> isEmpty (rlp_str (rlp_str d))"
        using header_empty [of 66 "rlp_str d"] digest_bytes [OF d(2)] by (simp add: rlp_str_def)
      with Some d at DecodeRef_digest [OF d(2), of f] show ?thesis by (simp add: kid_bytes_def)
    qed
  qed
  from decode_kids_loop [where ref = "DecodeRef (Suc f)" and kids = cs and cs = "replicate 17 None" and ixs = "[0..<16]", OF item]
  obtain cs' where cs': "decode_kids (DecodeRef (Suc f)) (rlp_list (concat ?es)) [0..<16] (replicate 17 None) = Ret cs'"
    "length cs' = 17"
    "\<forall>j<17. cs' ! j = (if j \<in> set [0..<16] \<and> cs ! j \<noteq> None then cs ! j else replicate 17 None ! j)"
    by auto
  have "cs' = cs"
  proof (rule nth_equalityI)
    fix j assume "j < length cs'"
    then have j: "j < 17" using cs'(2) by simp
    show "cs' ! j = cs ! j"
    proof (cases "j = 16")
      case True
      then show ?thesis using cs'(3) assms(2) by simp
    next
      case False
      then have "j \<in> set [0..<16]" using j by simp
      then show ?thesis using cs'(3) j by (cases "cs ! j") auto
    qed
  qed (simp add: cs'(2) assms(1))
  with cs'(1) show "DecodeFull (DecodeRef (Suc f)) h (rlp_list (concat ?es)) = Ret (Some (FullNode cs \<lparr>nf_hash = h, nf_dirty = False\<rparr>))"
    by (simp add: DecodeFull_def)
  show "itemCount (rlp_list (concat ?es)) = Ret 17"
    using rlp_at_list(2) [OF all _ len, of 0] assms(1) by simp
  have "encodes (rlp_list (concat ?es)) (concat ?es) False" using len by (simp add: encodes_def)
  then show "isList (rlp_list (concat ?es))" by (simp add: encodes_whole)
qed

lemma decode_stored:
  assumes "storable n"
  shows "\<exists>bs. Encode n = Ret bs \<and> bs \<noteq> [] \<and> RLP_new bs True True = Ret bs \<and>
    DecodeNode (DecodeRef (Suc f)) h bs = Ret (Some (reflag n \<lparr>nf_hash = h, nf_dirty = False\<rparr>))"
proof (cases n rule: storable.cases)
  case (1 k d fl)
  with assms have k: "HasTerm k" "length k < 256 ^ 3" "length d < 256 ^ 3" by (simp_all add: small_def)
  let ?b = "rlp_str d"
  have b: "length ?b < 256 ^ 4" "length (rlp_str ?b) < 256 ^ 4" "length k < 256 ^ 4" "length d < 256 ^ 7"
    using length_rlp_str [of d] length_rlp_str [of ?b] k by simp_all
  have e: "Encode n = Ret (rlp_list (rlp_str k @ rlp_str ?b))"
    using Encode_short [OF b(3,2,1) Encode_leaf(1) [OF b(4)]] 1 by simp
  have d: "encodes ?b d True" "encodes (rlp_str k) k True" using b k by (simp_all add: rlp_str_encodes)
  have "rlp_at (rlp_str ?b) 0 = Ret ?b" using rlp_at_nested [OF d(1)] b by simp
  then have "DecodeNode (DecodeRef (Suc f)) h (rlp_list (rlp_str k @ rlp_str ?b)) =
      Ret (Some (reflag n \<lparr>nf_hash = h, nf_dirty = False\<rparr>))"
    using rlp_pair [OF b(3,1)] encodes_toString [OF d(1)] encodes_toString [OF d(2)] k(1) 1
    by (simp add: DecodeNode_def DecodeShort_def Let_def)
  moreover have "encodes (rlp_list (rlp_str k @ rlp_str ?b)) (rlp_str k @ rlp_str ?b) False"
    using b length_rlp_str [of k] by (simp add: encodes_def)
  ultimately show ?thesis using e by (simp add: encodes_new encodes_whole)
next
  case (2 k hh fl)
  with assms have k: "\<not> HasTerm k" "length k < 256 ^ 3" "is_digest hh" by (simp_all add: small_def)
  let ?b = "rlp_str hh"
  have b: "length ?b < 256 ^ 4" "length (rlp_str ?b) < 256 ^ 4" "length k < 256 ^ 4" "length hh < 256 ^ 7"
    using digest_bytes [OF k(3)] length_rlp_str [of ?b] k by (simp_all add: is_digest_def)
  have e: "Encode n = Ret (rlp_list (rlp_str k @ rlp_str ?b))"
    using Encode_short [OF b(3,2,1) Encode_leaf(2) [OF b(4)]] 2 by simp
  have d: "encodes (rlp_str k) k True" using b by (simp add: rlp_str_encodes)
  have "DecodeNode (DecodeRef (Suc f)) h (rlp_list (rlp_str k @ rlp_str ?b)) =
      Ret (Some (reflag n \<lparr>nf_hash = h, nf_dirty = False\<rparr>))"
    using rlp_pair [OF b(3,1)] encodes_toString [OF d] k DecodeRef_digest [OF k(3), of f] 2
    by (simp add: DecodeNode_def DecodeShort_def Let_def del: DecodeRef.simps)
  moreover have "encodes (rlp_list (rlp_str k @ rlp_str ?b)) (rlp_str k @ rlp_str ?b) False"
    using b length_rlp_str [of k] by (simp add: encodes_def)
  ultimately show ?thesis using e by (simp add: encodes_new encodes_whole del: DecodeRef.simps)
next
  case (3 cs fl)
  with assms have cs: "length cs = 17" "cs ! 16 = None" "list_all hash_child cs" by simp_all
  let ?p = "concat (map (\<lambda>c. rlp_str (kid_bytes c)) cs)"
  have e: "Encode n = Ret (rlp_list ?p)" using Encode_full [OF cs(3,1)] 3 by simp
  note dec = decode_full [OF cs]
  have "length ?p \<le> 74 * length cs"
    using cs(3)
  proof (induction cs)
    case (Cons c cs)
    then show ?case using kid_item_size [of c] by simp
  qed simp
  then have "encodes (rlp_list ?p) ?p False" using cs(1) by (simp add: encodes_def)
  then show ?thesis
    using e dec 3 by (simp add: DecodeNode_def encodes_new encodes_whole del: DecodeRef.simps)
qed (use assms in simp_all)

end
