(* ===== verification/TrieProps.thy ===== *)
theory TrieProps
  imports TrieStore
begin

text \<open>
  What the state trie of contracts promises: it is a map from keys to values, nodes survive the
  round trip through the store, and what happens at the edges of the code's assumptions.
\<close>

subsection \<open>The trie as a map\<close>

fun Updates :: "resolver \<Rightarrow> trie \<Rightarrow> (cxx_string \<times> cxx_string) list \<Rightarrow> trie run" where
  "Updates rs t [] = Ret t"
| "Updates rs t ((k, v) # kvs) = bind_run (Update rs t k v) (\<lambda>t1. Updates rs t1 kvs)"

lemma Updates_holds:
  "trie_holds rs n t m \<Longrightarrow> list_all (\<lambda>(k, v). hex_key n k \<and> v \<noteq> []) kvs \<Longrightarrow>
   \<exists>t'. Updates rs t kvs = Ret t' \<and> trie_holds rs n t' (m ++ map_of (rev kvs))"
proof (induction kvs arbitrary: t m)
  case (Cons kv kvs)
  obtain k v where kv: "kv = (k, v)" by (cases kv)
  with Cons.prems obtain t1 where t1: "Update rs t k v = Ret t1" "trie_holds rs n t1 (m(k \<mapsto> v))"
    using Update_holds [of rs n t m k v] by auto
  have "list_all (\<lambda>(k, v). hex_key n k \<and> v \<noteq> []) kvs" using Cons.prems(2) by simp
  from Cons.IH [OF t1(2) this] obtain t' where
    "Updates rs t1 kvs = Ret t'" "trie_holds rs n t' (m(k \<mapsto> v) ++ map_of (rev kvs))" by blast
  moreover have "m(k \<mapsto> v) ++ map_of (rev kvs) = m ++ map_of (rev (kv # kvs))"
    by (simp only: kv rev.simps map_of_append map_add_assoc map_add_upd map_add_empty map_of.simps fst_conv snd_conv)
  ultimately have "Updates rs t (kv # kvs) = Ret t' \<and> trie_holds rs n t' (m ++ map_of (rev (kv # kvs)))"
    by (simp only: kv Updates.simps t1(1) run_simps simp_thms)
  then show ?case by blast
qed simp

lemma Trie_new_holds: "trie_holds rs n (Trie_new a) Map.empty"
  by (simp add: trie_holds_def Trie_new_def)

text \<open>
  C6. A trie is a map from hexadecimal keys of one length to values: starting from any well-formed
  trie, loaded from the store or built in memory, every sequence of updates with non-empty values
  succeeds, \<open>Get\<close> then answers the last value given to the key, or the one it had before, or the empty
  string, and leaves the contents as they are.
\<close>

theorem trie_refines_map:
  assumes "trie_holds rs n t m" and "list_all (\<lambda>(k, v). hex_key n k \<and> v \<noteq> []) kvs" and "hex_key n key"
  shows "\<exists>t' t''. Updates rs t kvs = Ret t' \<and> trie_holds rs n t' (m ++ map_of (rev kvs))
    \<and> Get rs t' key = Ret (case (m ++ map_of (rev kvs)) key of None \<Rightarrow> [] | Some d \<Rightarrow> d, t'')
    \<and> trie_holds rs n t'' (m ++ map_of (rev kvs))"
proof -
  obtain t' where t': "Updates rs t kvs = Ret t'" "trie_holds rs n t' (m ++ map_of (rev kvs))"
    using Updates_holds [OF assms(1,2)] by blast
  with Get_holds [OF t'(2) assms(3)] show ?thesis by blast
qed

theorem trie_refines_map_witness:
  "\<exists>t' t''. Updates (\<lambda>h. Ret None) (Trie_new ''c'') [(''ab'', ''1''), (''a7'', ''2''), (''ab'', ''3'')] = Ret t'
     \<and> Get (\<lambda>h. Ret None) t' ''ab'' = Ret (''3'', t'')"
proof -
  have "list_all (\<lambda>(k, v). hex_key 2 k \<and> v \<noteq> []) [(''ab'', ''1''), (''a7'', ''2''), (''ab'', ''3'')]"
    "hex_key 2 ''ab''" by (simp_all add: hex_key_def is_hex_def)
  from trie_refines_map [OF Trie_new_holds [of "\<lambda>h. Ret None" 2 "''c''"] this] obtain t' t'' where
    u: "Updates (\<lambda>h. Ret None) (Trie_new ''c'') [(''ab'', ''1''), (''a7'', ''2''), (''ab'', ''3'')] = Ret t'" and
    g: "Get (\<lambda>h. Ret None) t' ''ab'' = Ret (case (Map.empty ++
      map_of (rev [(''ab'', ''1''), (''a7'', ''2''), (''ab'', ''3'')])) ''ab'' of None \<Rightarrow> [] | Some d \<Rightarrow> d, t'')"
    by blast
  have "(case (Map.empty ++ map_of (rev [(''ab'', ''1''), (''a7'', ''2''), (''ab'', ''3'')])) ''ab'' of
      None \<Rightarrow> [] | Some d \<Rightarrow> d) = ''3''" by simp
  with g have "Get (\<lambda>h. Ret None) t' ''ab'' = Ret (''3'', t'')" by (simp only:)
  with u show ?thesis by blast
qed

subsection \<open>Edges of the trie\<close>

text \<open>
  The trie relies on keys of one length: after one update with a key, an update with the same key
  extended by its last character indexes the array of children with the terminator, out of its bounds.
\<close>

theorem mixed_key_lengths_undefined:
  assumes "list_all is_hex k" and "k \<noteq> []" and "v1 \<noteq> []" and "v2 \<noteq> []"
  shows "bind_run (Update rs (Trie_new a) k v1) (\<lambda>t. Update rs t (k @ [last k]) v2) = Undefined"
proof -
  let ?w = "k @ [last k] @ ''z''" and ?w' = "(k @ [last k]) @ [last k] @ ''z''"
  have "is_hex (last k)" "\<not> is_hex (CHR ''z'')"
    using assms(1) last_in_set [OF assms(2)] by (simp_all add: list_all_iff, simp add: is_hex_def)
  then have z: "last k \<noteq> CHR ''z''" "child_index (CHR ''z'') = None"
    by (metis, simp add: child_index_def Toint_def)
  have p: "PrefixLen (xs @ c # ys) (xs @ d # zs) = length xs" if "c \<noteq> d" for xs c d ys zs
    using that by (induction xs) auto
  have "?w' = (k @ [last k]) @ last k # ''z''" "?w = (k @ [last k]) @ CHR ''z'' # []" by simp_all
  then have m: "PrefixLen ?w' ?w = length k + 1" using p [OF z(1), of "k @ [last k]" "''z''" "[]"] by simp
  have "?w ! (length k + 1) = CHR ''z''" by (simp add: nth_append)
  then have "split_short ?w (Some (ValueNode v1)) (PrefixLen ?w' ?w) ?w' (ValueNode v2) = Undefined"
    using m z(2) by (simp add: split_short_def Let_def)
  moreover have "PrefixLen ?w' ?w \<noteq> length ?w" using m by simp
  ultimately have "Insert_node rs (Some (ShortNode ?w (Some (ValueNode v1)) newFlag)) ?w' (ValueNode v2) = Some Undefined"
    by (subst Insert_node.simps) (simp add: Let_def)
  then show ?thesis
    using assms(2-4) by (simp add: Update_def wrapperKey_def Trie_new_def Insert_null_node Insert_null_def)
qed

theorem mixed_key_lengths_undefined_witness:
  "bind_run (Update (\<lambda>h. Ret None) (Trie_new []) ''a'' ''1'') (\<lambda>t. Update (\<lambda>h. Ret None) t ''aa'' ''2'') = Undefined"
  using mixed_key_lengths_undefined [of "''a''" "''1''" "''2''" "\<lambda>h. Ret None" "[]"] by (simp add: is_hex_def)

text \<open>
  A subtree that cannot be loaded counts as empty: when the store has no data for the root, reading
  answers the empty string and updating replaces the whole trie by the one new entry, without an error.
\<close>

theorem lost_root_overwritten:
  assumes "rs h = Ret None" and "tr_root t = Some (HashNode h)" and "key \<noteq> []" and "val \<noteq> []"
  shows "Get rs t key = Ret ([], t)
    \<and> Update rs t key val =
       Ret (t\<lparr>tr_root := Some (ShortNode (key @ [last key] @ ''z'') (Some (ValueNode val)) newFlag)\<rparr>)"
proof -
  have "Get_node rs (Some (HashNode h)) k pos = Some (Ret (None, None))" for k pos
    by (subst Get_node.simps, simp add: assms(1), subst Get_node.simps) simp
  moreover have "Insert_node rs (Some (HashNode h)) k (ValueNode val) =
      Some (Ret (Insert_null k (Some (ValueNode val))))" for k
    by (subst Insert_node.simps) (simp add: assms(1) Insert_null_node Insert_null_def)
  ultimately show ?thesis
    using assms(2-4) by (simp add: Get_def Update_def wrapperKey_def Insert_null_def)
qed

theorem lost_root_overwritten_witness:
  "Get (\<lambda>h. Ret None) \<lparr>tr_root = Some (HashNode ''h''), tr_contractAddr = [], tr_dirtyHash = []\<rparr> ''ab'' =
     Ret ([], \<lparr>tr_root = Some (HashNode ''h''), tr_contractAddr = [], tr_dirtyHash = []\<rparr>)"
  using lost_root_overwritten [of "\<lambda>h. Ret None" "''h''" "\<lparr>tr_root = Some (HashNode ''h''), tr_contractAddr = [], tr_dirtyHash = []\<rparr>" "''ab''" "''1''"]
  by simp

subsection \<open>Nodes in the store\<close>

text \<open>
  C7. Stored nodes are read back: the hexadecimal RLP encoding of every node that \<open>Store\<close> writes, found
  in the contract's storage, decodes to the same node, clean and carrying the hash it was stored under.
\<close>

theorem stored_node_round_trip:
  assumes "storable n"
  shows "\<exists>bs. Encode n = Ret bs \<and> (storage (contractAddr @ ''_'' @ h) = Some (toHex bs) \<longrightarrow>
     DescendKey rd (Some storage) contractAddr h = Ret (Some (reflag n \<lparr>nf_hash = h, nf_dirty = False\<rparr>)))"
proof -
  obtain bs where e: "Encode n = Ret bs" "bs \<noteq> []" "RLP_new bs True True = Ret bs"
    and d: "DecodeNode (DecodeRef (Suc (length bs))) h bs = Ret (Some (reflag n \<lparr>nf_hash = h, nf_dirty = False\<rparr>))"
    using decode_stored [OF assms, of "length bs" h for bs] by (metis decode_stored [OF assms] run.inject)
  have "toHex bs \<noteq> []" using e(2) by (cases bs) auto
  with e d show ?thesis by (auto simp: DescendKey_def fromHex_toHex)
qed

theorem stored_node_round_trip_witness:
  "\<exists>bs. Encode (ShortNode ''abz'' (Some (ValueNode ''1'')) newFlag) = Ret bs
     \<and> DescendKey (\<lambda>k v. Ret (DB_NOT_FOUND, [])) (Some [''c_h'' \<mapsto> toHex bs]) ''c'' ''h''
       = Ret (Some (ShortNode ''abz'' (Some (ValueNode ''1'')) \<lparr>nf_hash = ''h'', nf_dirty = False\<rparr>))"
proof -
  have s: "storable (ShortNode ''abz'' (Some (ValueNode ''1'')) newFlag)" by (simp add: HasTerm_def small_def)
  obtain bs where "Encode (ShortNode ''abz'' (Some (ValueNode ''1'')) newFlag) = Ret bs"
    using stored_node_round_trip [OF s, of "\<lambda>k. None" "[]" "[]" "\<lambda>k v. Exit"] by blast
  with stored_node_round_trip [OF s, of "[''c_h'' \<mapsto> toHex bs]" "''c''" "''h''" "\<lambda>k v. Ret (DB_NOT_FOUND, [])"]
  show ?thesis by auto
qed

text \<open>
  \<open>GetBlockStorage\<close> can be called once: the first call on a saved trie answers the root's hash
  and data and takes them out of the changed nodes; when other changed nodes remain, a second call
  dereferences the end iterator.
\<close>

theorem second_GetBlockStorage_undefined:
  assumes "tr_root t = Some (HashNode h)" and "map_of (tr_dirtyHash t) h = Some data"
    and "map_erase h (tr_dirtyHash t) \<noteq> []"
  shows "\<exists>t1. GetBlockStorage t r0 d0 = Ret ((h, data), map_erase h (tr_dirtyHash t), t1)
     \<and> GetBlockStorage t1 r1 d1 = Undefined"
proof -
  have "tr_dirtyHash t \<noteq> []" using assms(2) by auto
  with assms show ?thesis by (simp add: GetBlockStorage_def Let_def)
qed

theorem second_GetBlockStorage_undefined_witness:
  "\<exists>t1. GetBlockStorage \<lparr>tr_root = Some (HashNode ''h''), tr_contractAddr = [], tr_dirtyHash = [(''g'', ''1''), (''h'', ''2'')]\<rparr>
      ([], []) [] = Ret ((''h'', ''2''), [(''g'', ''1'')], t1) \<and> GetBlockStorage t1 ([], []) [] = Undefined"
  using second_GetBlockStorage_undefined [of "\<lparr>tr_root = Some (HashNode ''h''), tr_contractAddr = [], tr_dirtyHash = [(''g'', ''1''), (''h'', ''2'')]\<rparr>" "''h''" "''2''"]
  by (simp add: map_erase_def)

end
