(* ===== verification/Conflict.thy ===== *)
theory Conflict
  imports CxxString "HOL-Library.Multiset"
begin

text \<open>
  Transactions, and how the node detects that two of them spend the same output: \<open>Checker\<close>
  (\<open>ca/checker.cpp\<close>) and the cache of outputs in use (\<open>ca/double_spend_cache.cpp\<close>). The
  records hold the protobuf fields these functions read (\<open>proto/src/transaction.proto\<close>,
  \<open>proto/src/block.proto\<close>). Three things come from elsewhere and are arguments: \<open>ga\<close>, the
  address of a public key; \<open>ty\<close>, \<open>GetTransactionType\<close>; \<open>hs\<close>, the hash of a transaction
  without hash and signatures.
\<close>

subsection \<open>Transactions\<close>

record CTxPrevOutput =
  po_hash :: cxx_string
  po_n :: u32

record CTxInput =
  vi_prevOut :: "CTxPrevOutput list"
  vi_pub :: cxx_string
  vi_contractAddr :: cxx_string

record CTxOutput =
  vo_value :: "64 word"
  vo_addr :: cxx_string

record CTxUtxos =
  ux_owner :: "cxx_string list"
  ux_vin :: "CTxInput list"
  ux_assetType :: cxx_string
  ux_vout :: "CTxOutput list"
  ux_gasUtxo :: "64 word"

record CTransaction =
  tx_time :: u64
  tx_hash :: cxx_string
  tx_txType :: u32
  tx_utxos :: "CTxUtxos list"
  tx_version :: u32
  tx_identity :: cxx_string
  tx_data :: cxx_string

record CSign =
  sg_sign :: cxx_string
  sg_pub :: cxx_string

record CBlock =
  bl_version :: u32
  bl_time :: u64
  bl_hash :: cxx_string
  bl_prevHash :: cxx_string
  bl_height :: u64
  bl_merkleRoot :: cxx_string
  bl_txs :: "CTransaction list"
  bl_data :: cxx_string
  bl_sign :: "CSign list"

definition CBlock_new :: CBlock where
  "CBlock_new = \<lparr>bl_version = 0, bl_time = 0, bl_hash = [], bl_prevHash = [], bl_height = 0, bl_merkleRoot = [], bl_txs = [],
     bl_data = [], bl_sign = []\<rparr>"

definition kTxTypeUnstake :: u32 where "kTxTypeUnstake = 3"
definition kTxTypeUndelegate :: u32 where "kTxTypeUndelegate = 5"
definition kTxTypeUnLock :: u32 where "kTxTypeUnLock = 10"
definition kTransactionTypeTx :: int where "kTransactionTypeTx = 1"

subsection \<open>Standard algorithms\<close>

fun set_intersection :: "'a::linorder list \<Rightarrow> 'a list \<Rightarrow> 'a list" where
  "set_intersection (x # xs) (y # ys) =
     (if x < y then set_intersection xs (y # ys)
      else if y < x then set_intersection (x # xs) ys
      else x # set_intersection xs ys)"
| "set_intersection _ _ = []"

text \<open>
  \<open>std::sort\<close> on a key promises a sorted permutation and nothing about elements with equal
  keys: the sorting function is an argument with this contract.
\<close>

definition is_std_sort :: "(('a \<Rightarrow> u64) \<Rightarrow> 'a list \<Rightarrow> 'a list) \<Rightarrow> bool" where
  "is_std_sort srt \<longleftrightarrow> (\<forall>f xs. mset (srt f xs) = mset xs \<and> sorted (map f (srt f xs)))"

subsection \<open>Checker\<close>

definition spent_by_input :: "(cxx_string \<Rightarrow> cxx_string) \<Rightarrow> cxx_string \<Rightarrow> CTxInput \<Rightarrow> cxx_string list" where
  "spent_by_input ga currency vin =
     map (\<lambda>prevout. if vi_contractAddr vin \<noteq> [] then po_hash prevout
                    else po_hash prevout @ ''_'' @ ga (vi_pub vin) @ ''_'' @ currency) (vi_prevOut vin)"

definition spent :: "(cxx_string \<Rightarrow> cxx_string) \<Rightarrow> CTransaction \<Rightarrow> cxx_string list" where
  "spent ga tx =
     concat (map (\<lambda>utxo. concat (map (spent_by_input ga (ux_assetType utxo)) (ux_vin utxo))) (tx_utxos tx))"

definition CheckConflict :: "(cxx_string \<Rightarrow> cxx_string) \<Rightarrow> CTransaction \<Rightarrow> CTransaction \<Rightarrow> bool" where
  "CheckConflict ga tx1 tx2 \<longleftrightarrow> set_intersection (sort (spent ga tx1)) (sort (spent ga tx2)) \<noteq> []"

definition CheckConflict_cache :: "(cxx_string \<Rightarrow> cxx_string) \<Rightarrow> CTransaction \<Rightarrow> CTransaction list \<Rightarrow> bool" where
  "CheckConflict_cache ga tx cache = list_ex (\<lambda>c. CheckConflict ga c tx) cache"

definition CheckConflict_tx_blocks ::
    "(cxx_string \<Rightarrow> cxx_string) \<Rightarrow> (CTransaction \<Rightarrow> int) \<Rightarrow> CTransaction \<Rightarrow> CBlock list \<Rightarrow> bool" where
  "CheckConflict_tx_blocks ga ty tx blocks =
     list_ex (\<lambda>block. list_ex (\<lambda>curTx. ty tx = kTransactionTypeTx \<and> CheckConflict ga curTx tx) (bl_txs block)) blocks"

text \<open>Two blocks: the hash of the first transaction of the first block that conflicts.\<close>

definition CheckConflict_blocks ::
    "(cxx_string \<Rightarrow> cxx_string) \<Rightarrow> (CTransaction \<Rightarrow> int) \<Rightarrow> (CTransaction \<Rightarrow> cxx_string) \<Rightarrow> CBlock \<Rightarrow> CBlock \<Rightarrow>
     cxx_string option" where
  "CheckConflict_blocks ga ty hs block1 block2 =
     map_option hs (find (\<lambda>tx1. ty tx1 = kTransactionTypeTx \<and>
       list_ex (\<lambda>tx2. ty tx2 = kTransactionTypeTx \<and> CheckConflict ga tx1 tx2) (bl_txs block2)) (bl_txs block1))"

fun CheckConflict_block_blocks ::
    "(cxx_string \<Rightarrow> cxx_string) \<Rightarrow> (CTransaction \<Rightarrow> int) \<Rightarrow> (CTransaction \<Rightarrow> cxx_string) \<Rightarrow> CBlock \<Rightarrow> CBlock list \<Rightarrow>
     cxx_string option" where
  "CheckConflict_block_blocks ga ty hs block [] = None"
| "CheckConflict_block_blocks ga ty hs block (b # bs) =
     (case CheckConflict_blocks ga ty hs b block of
        Some txHash \<Rightarrow> Some txHash
      | None \<Rightarrow> CheckConflict_block_blocks ga ty hs block bs)"

text \<open>
  Within one block. The outputs are keyed by address and currency whether a contract owns them
  or not, and the condition that skips an output is \<open>(A && B) || C || D\<close>.
\<close>

definition pool_keys :: "(cxx_string \<Rightarrow> cxx_string) \<Rightarrow> CTransaction \<Rightarrow> cxx_string list" where
  "pool_keys ga tx = concat (map (\<lambda>utxo. concat (map (\<lambda>vin.
     map (\<lambda>prevout. po_hash prevout @ ''_'' @ ga (vi_pub vin) @ ''_'' @ ux_assetType utxo) (vi_prevOut vin))
     (ux_vin utxo))) (tx_utxos tx))"

fun pool_add :: "CTransaction \<Rightarrow> cxx_string list \<Rightarrow> (cxx_string, CTransaction list) std_map \<Rightarrow>
    (cxx_string, CTransaction list) std_map" where
  "pool_add tx [] pool = pool"
| "pool_add tx (utxo # keys) pool =
     (if map_of pool utxo \<noteq> None \<and> tx_txType tx = kTxTypeUnstake \<or> tx_txType tx = kTxTypeUndelegate
         \<or> tx_txType tx = kTxTypeUnLock
      then pool_add tx keys pool
      else pool_add tx keys
        (map_assign utxo ((case map_of pool utxo of None \<Rightarrow> [] | Some txs \<Rightarrow> txs) @ [tx]) pool))"

definition transactionPool ::
    "(cxx_string \<Rightarrow> cxx_string) \<Rightarrow> CTransaction list \<Rightarrow> (cxx_string, CTransaction list) std_map" where
  "transactionPool ga txs = foldl (\<lambda>pool tx. pool_add tx (pool_keys ga tx) pool) [] txs"

definition CheckConflict_block ::
    "(cxx_string \<Rightarrow> cxx_string) \<Rightarrow> ((CTransaction \<Rightarrow> u64) \<Rightarrow> CTransaction list \<Rightarrow> CTransaction list) \<Rightarrow>
     CBlock \<Rightarrow> CTransaction list \<Rightarrow> CTransaction list" where
  "CheckConflict_block ga srt block double_spent =
     double_spent @ concat (map (\<lambda>(utxo, txs). if 1 < length txs then drop 1 (srt tx_time txs) else [])
       (transactionPool ga (bl_txs block)))"

subsection \<open>Outputs in use\<close>

record doubleSpendSuccess =
  ds_time :: u64
  ds_utxoVector :: "cxx_string list"

type_synonym pending = "(cxx_string, doubleSpendSuccess) std_map"

definition AddFromAddr :: "pending \<Rightarrow> cxx_string \<Rightarrow> doubleSpendSuccess \<Rightarrow> int \<times> pending" where
  "AddFromAddr m addr usings =
     (case map_of m addr of
        Some p \<Rightarrow>
          if set_intersection (sort (ds_utxoVector usings)) (sort (ds_utxoVector p)) \<noteq> [] then (-1, m) else (0, m)
      | None \<Rightarrow> (0, map_assign addr usings m))"

definition Remove :: "u64 \<Rightarrow> pending \<Rightarrow> pending" where
  "Remove txTimeKey m = filter (\<lambda>e. ds_time (snd e) \<noteq> txTimeKey) m"

definition kTenSecond :: u64 where "kTenSecond = 1000000 * 30"

text \<open>\<open>clock\<close> is the time read while the loop is at an address.\<close>

definition CheckLoop :: "(cxx_string \<Rightarrow> u64) \<Rightarrow> pending \<Rightarrow> pending" where
  "CheckLoop clock m =
     foldl (\<lambda>m txTimeKey. Remove txTimeKey m) m
       (map (ds_time \<circ> snd) (filter (\<lambda>(addr, d). ds_time d + kTenSecond < clock addr) m))"

text \<open>The first output set of a transaction whose owner is pending with the time of the transaction.\<close>

definition pending_time :: "pending \<Rightarrow> CTransaction \<Rightarrow> u64 list" where
  "pending_time m tx =
     (case find (\<lambda>utxo. ux_owner utxo \<noteq> [] \<and>
          (case map_of m (hd (ux_owner utxo)) of Some d \<Rightarrow> tx_time tx = ds_time d | None \<Rightarrow> False)) (tx_utxos tx) of
        Some _ \<Rightarrow> [tx_time tx] | None \<Rightarrow> [])"

definition Detection :: "CBlock \<Rightarrow> pending \<Rightarrow> pending" where
  "Detection block m = foldl (\<lambda>m txTimeKey. Remove txTimeKey m) m (concat (map (pending_time m) (bl_txs block)))"

subsection \<open>Facts\<close>

lemma set_intersection_set:
  "sorted xs \<Longrightarrow> sorted ys \<Longrightarrow> set (set_intersection xs ys) = set xs \<inter> set ys"
  by (induction xs ys rule: set_intersection.induct) auto

lemma set_intersection_nonempty:
  "set_intersection (sort xs) (sort ys) \<noteq> [] \<longleftrightarrow> set xs \<inter> set ys \<noteq> {}"
  using set_intersection_set [of "sort xs" "sort ys"] by (metis set_empty set_sort sorted_sort)

lemma CheckConflict_iff: "CheckConflict ga tx1 tx2 \<longleftrightarrow> set (spent ga tx1) \<inter> set (spent ga tx2) \<noteq> {}"
  by (simp add: CheckConflict_def set_intersection_nonempty)

definition pool_list :: "(cxx_string, CTransaction list) std_map \<Rightarrow> cxx_string \<Rightarrow> CTransaction list" where
  "pool_list pool u = (case map_of pool u of None \<Rightarrow> [] | Some txs \<Rightarrow> txs)"

definition unseen :: "CTransaction \<Rightarrow> bool" where
  "unseen tx \<longleftrightarrow> tx_txType tx = kTxTypeUndelegate \<or> tx_txType tx = kTxTypeUnLock"

definition ordinary :: "CTransaction \<Rightarrow> bool" where
  "ordinary tx \<longleftrightarrow> \<not> unseen tx \<and> tx_txType tx \<noteq> kTxTypeUnstake"

lemma pool_add_unseen: "unseen tx \<Longrightarrow> pool_add tx ks pool = pool"
  by (induction tx ks pool rule: pool_add.induct) (auto simp: unseen_def)

lemma pool_add_ordinary:
  "ordinary tx \<Longrightarrow> pool_list (pool_add tx ks pool) u = pool_list pool u @ replicate (count_list ks u) tx"
proof (induction tx ks pool rule: pool_add.induct)
  case (2 tx utxo keys pool)
  then have "pool_add tx (utxo # keys) pool = pool_add tx keys (map_assign utxo (pool_list pool utxo @ [tx]) pool)"
    by (simp add: ordinary_def unseen_def pool_list_def)
  moreover have "pool_list (pool_add tx keys (map_assign utxo (pool_list pool utxo @ [tx]) pool)) u =
      pool_list (map_assign utxo (pool_list pool utxo @ [tx]) pool) u @ replicate (count_list keys u) tx"
    using 2 by (auto simp: ordinary_def unseen_def pool_list_def)
  ultimately show ?case by (simp add: pool_list_def)
qed simp

lemma ordered_pool_add: "ordered_map pool \<Longrightarrow> ordered_map (pool_add tx ks pool)"
  by (induction tx ks pool rule: pool_add.induct) auto

lemma ordered_pool: "ordered_map (transactionPool ga txs)"
proof -
  have "ordered_map pool \<Longrightarrow> ordered_map (foldl (\<lambda>pool tx. pool_add tx (pool_keys ga tx) pool) pool txs)" for pool
    by (induction txs arbitrary: pool) (auto intro: ordered_pool_add)
  then show ?thesis by (simp add: transactionPool_def)
qed

lemma pool_unseen: "transactionPool ga txs = transactionPool ga (filter (\<lambda>tx. \<not> unseen tx) txs)"
proof -
  have "foldl (\<lambda>pool tx. pool_add tx (pool_keys ga tx) pool) pool txs =
      foldl (\<lambda>pool tx. pool_add tx (pool_keys ga tx) pool) pool (filter (\<lambda>tx. \<not> unseen tx) txs)" for pool
    by (induction txs arbitrary: pool) (auto simp: pool_add_unseen)
  then show ?thesis by (simp add: transactionPool_def)
qed

text \<open>The pool of a block of ordinary transactions: the spenders of an output, once per input.\<close>

lemma pool_spenders:
  assumes "list_all ordinary txs"
  shows "pool_list (transactionPool ga txs) u =
    concat (map (\<lambda>tx. replicate (count_list (pool_keys ga tx) u) tx) txs)"
proof -
  have "list_all ordinary txs \<Longrightarrow> pool_list (foldl (\<lambda>pool tx. pool_add tx (pool_keys ga tx) pool) pool txs) u =
      pool_list pool u @ concat (map (\<lambda>tx. replicate (count_list (pool_keys ga tx) u) tx) txs)" for pool
    by (induction txs arbitrary: pool) (auto simp: pool_add_ordinary)
  with assms show ?thesis by (simp add: transactionPool_def) (simp add: pool_list_def)
qed

lemma reported_iff:
  "tx \<in> set (CheckConflict_block ga srt block ds) \<longleftrightarrow>
   tx \<in> set ds \<or> (\<exists>u txs. map_of (transactionPool ga (bl_txs block)) u = Some txs \<and> 1 < length txs
     \<and> tx \<in> set (drop 1 (srt tx_time txs)))"
  unfolding CheckConflict_block_def
  using map_of_is_SomeI [OF ordered_map_distinct [OF ordered_pool]] map_of_SomeD
  by (fastforce split: if_splits)

lemma sort_rest:
  assumes "is_std_sort srt" "1 < length xs"
  obtains x where "x \<in> set xs" "set xs = insert x (set (drop 1 (srt f xs)))" "\<forall>y\<in>set xs. f x \<le> f y"
proof -
  have s: "mset (srt f xs) = mset xs" "sorted (map f (srt f xs))" using assms(1) by (auto simp: is_std_sort_def)
  have "srt f xs \<noteq> []" using s(1) assms(2) by force
  then obtain x ys where xy: "srt f xs = x # ys" by (cases "srt f xs") auto
  have set: "set xs = insert x (set ys)" using mset_eq_setD [OF s(1)] xy by simp
  with xy s(2) show ?thesis by (intro that [of x]) auto
qed

end
