(* ===== verification/Dispatch.thy ===== *)
theory Dispatch
  imports Conflict
begin

text \<open>
  How a node collects contract transactions and hands them to packagers (\<open>ca/dispatchtx.cpp\<close>,
  \<open>ca/packager_dispatch.cpp\<close>): the dependency manager, the grouping of transactions that share
  contracts, the distribution of the groups, and the gate that holds a transaction back while its
  contracts have unconfirmed ones. An \<open>unordered_map\<close> is a map; where the code iterates over
  one, the order of iteration is an argument, a list of the entries (\<open>enumerates\<close>). Parsing,
  hashing, signatures and the choice of the packager come from elsewhere and are arguments.
\<close>

definition enumerates :: "('k \<times> 'v) list \<Rightarrow> ('k \<Rightarrow> 'v option) \<Rightarrow> bool" where
  "enumerates order m \<longleftrightarrow> distinct (map fst order) \<and> map_of order = m"

subsection \<open>Grouping\<close>

definition HasDuplicate :: "cxx_string list \<Rightarrow> cxx_string list \<Rightarrow> bool" where
  "HasDuplicate vec1 vec2 = list_ex (\<lambda>s. s \<in> set vec1) vec2"

type_synonym deps = "(cxx_string \<times> cxx_string list) list"

definition common_keys :: "deps \<Rightarrow> cxx_string \<Rightarrow> cxx_string list \<Rightarrow> cxx_string set" where
  "common_keys order key vals =
     insert key (set (map fst (filter (\<lambda>(other_key, other_values). key \<noteq> other_key \<and> HasDuplicate vals other_values) order)))"

fun add_group :: "cxx_string set \<Rightarrow> cxx_string set list \<Rightarrow> cxx_string set list" where
  "add_group common [] = [common]"
| "add_group common (item_set # rest) =
     (if item_set \<inter> common \<noteq> {} then (item_set \<union> common) # rest else item_set # add_group common rest)"

definition grouped_deps :: "deps \<Rightarrow> cxx_string set list" where
  "grouped_deps order = foldl (\<lambda>groups (key, vals). add_group (common_keys order key vals) groups) [] order"

subsection \<open>The dependency manager\<close>

record TxMsgReq =
  tm_tx :: cxx_string
  tm_contractStorageList :: "cxx_string list"
  tm_nodeHeight :: u64
  tm_txUtxoHeight :: u64

record dep_manager =
  contract_dep_cache :: "cxx_string \<Rightarrow> cxx_string list option"
  contract_msg_cache :: "cxx_string \<Rightarrow> TxMsgReq option"
  dependency_tx_hashes :: "cxx_string \<Rightarrow> cxx_string list option"

type_synonym dep_info = "cxx_string \<times> cxx_string list"

definition push_unique :: "cxx_string list \<Rightarrow> cxx_string \<Rightarrow> cxx_string list" where
  "push_unique xs x = (if x \<in> set xs then xs else xs @ [x])"

definition existing_hashes :: "(cxx_string \<Rightarrow> cxx_string list option) \<Rightarrow> cxx_string \<Rightarrow> cxx_string list" where
  "existing_hashes m dep_addr = (case m dep_addr of None \<Rightarrow> [] | Some hs \<Rightarrow> hs)"

text \<open>The local part of the broadcast, and the message that is signed and sent when there is one.\<close>

definition BroadcastAddedDependency ::
    "dep_manager \<Rightarrow> cxx_string \<Rightarrow> cxx_string list \<Rightarrow> dep_manager \<times> dep_info list" where
  "BroadcastAddedDependency g contract_hash dependent_addresses =
     (let addrs = filter (\<lambda>a. a \<noteq> []) dependent_addresses
      in (g\<lparr>dependency_tx_hashes :=
            foldl (\<lambda>m dep_addr. m(dep_addr \<mapsto> push_unique (existing_hashes m dep_addr) contract_hash))
              (dependency_tx_hashes g) addrs\<rparr>,
          map (\<lambda>dep_addr. (dep_addr, [contract_hash])) addrs))"

definition AddContractInfo :: "dep_manager \<Rightarrow> cxx_string \<Rightarrow> cxx_string list \<Rightarrow> dep_manager \<times> dep_info list" where
  "AddContractInfo g contract_hash dependent_contracts =
     BroadcastAddedDependency
       (g\<lparr>contract_dep_cache := (contract_dep_cache g)(contract_hash \<mapsto> dependent_contracts)\<rparr>)
       contract_hash dependent_contracts"

definition AddMessageRequest :: "dep_manager \<Rightarrow> cxx_string \<Rightarrow> TxMsgReq \<Rightarrow> dep_manager" where
  "AddMessageRequest g contract_hash txmsg =
     g\<lparr>contract_msg_cache := (contract_msg_cache g)(contract_hash \<mapsto> txmsg)\<rparr>"

definition ClearCaches :: "dep_manager \<Rightarrow> dep_manager" where
  "ClearCaches g = g\<lparr>contract_dep_cache := Map.empty, contract_msg_cache := Map.empty\<rparr>"

definition GetDependentData :: "dep_manager \<Rightarrow> deps \<Rightarrow> TxMsgReq list list" where
  "GetDependentData g order =
     filter (\<lambda>msg_vec. msg_vec \<noteq> [])
       (map (\<lambda>hashes. List.map_filter (contract_msg_cache g) (sorted_list_of_set hashes)) (grouped_deps order))"

text \<open>\<open>GroupData\<close>: at most eight parts; the first one takes the remainder of the division too.\<close>

fun group_parts :: "'a list list \<Rightarrow> nat \<Rightarrow> nat \<Rightarrow> nat \<Rightarrow> nat \<Rightarrow> 'a list list" where
  "group_parts tx_vectors per_part remain index 0 = []"
| "group_parts tx_vectors per_part remain index (Suc parts) =
     (let end_index = index + per_part; part = concat (take per_part (drop index tx_vectors)) in
      if 0 < remain
      then (part @ concat (take remain (drop end_index tx_vectors)))
             # group_parts tx_vectors per_part 0 (end_index + remain) parts
      else part # group_parts tx_vectors per_part 0 end_index parts)"

definition GroupData :: "'a list list \<Rightarrow> 'a list list" where
  "GroupData tx_vectors =
     (let size = length tx_vectors in
      if size \<le> 8 then tx_vectors else group_parts tx_vectors (size div 8) (size mod 8) 0 8)"

definition GetAllUniqueDependencies :: "deps \<Rightarrow> cxx_string set" where
  "GetAllUniqueDependencies order = \<Union> (set ` snd ` set order)"

text \<open>All dependencies with transaction hashes: the cached transactions first, then the registered hashes.\<close>

definition GetAllDependenciesWithTxHashes ::
    "(cxx_string \<Rightarrow> CTransaction option) \<Rightarrow> dep_manager \<Rightarrow> deps \<Rightarrow> deps \<Rightarrow> (cxx_string, cxx_string list) std_map" where
  "GetAllDependenciesWithTxHashes parse g deps_order hashes_order =
     (let m1 = foldl (\<lambda>m (contract_hash, deps).
            case Option.bind (contract_msg_cache g contract_hash) (\<lambda>msg. parse (tm_tx msg)) of
              None \<Rightarrow> m
            | Some tx \<Rightarrow> foldl (\<lambda>m dep_addr. map_assign dep_addr (existing_hashes (map_of m) dep_addr @ [tx_hash tx]) m) m
                (filter (\<lambda>a. a \<noteq> []) deps)) [] deps_order
      in foldl (\<lambda>m (dep_addr, tx_hashes).
            if dep_addr = [] \<or> tx_hashes = [] then m
            else map_assign dep_addr
              (foldl push_unique (existing_hashes (map_of m) dep_addr) (filter (\<lambda>h. h \<noteq> []) tx_hashes)) m) m1 hashes_order)"

subsection \<open>Broadcasts from other nodes\<close>

record dep_broadcast =
  db_version :: cxx_string
  db_sign :: "(cxx_string \<times> cxx_string) option"
  db_dependencies :: "dep_info list"

text \<open>An entry without hashes still creates an empty list for its address.\<close>

definition store_dependency :: "(cxx_string \<Rightarrow> cxx_string list option) \<Rightarrow> dep_info \<Rightarrow> (cxx_string \<Rightarrow> cxx_string list option)" where
  "store_dependency m info =
     (if fst info = [] then m
      else m(fst info \<mapsto> foldl push_unique (existing_hashes m (fst info)) (filter (\<lambda>h. h \<noteq> []) (snd info))))"

definition StoreBroadcastDependencies ::
    "(cxx_string \<Rightarrow> cxx_string) \<Rightarrow> dep_manager \<Rightarrow> dep_broadcast \<Rightarrow> dep_manager" where
  "StoreBroadcastDependencies ga g msg =
     (case db_sign msg of
        None \<Rightarrow> g
      | Some (sign, pub) \<Rightarrow>
          if ga pub = [] then g
          else g\<lparr>dependency_tx_hashes := foldl store_dependency (dependency_tx_hashes g) (db_dependencies msg)\<rparr>)"

record dep_checks =
  dc_version :: "cxx_string \<Rightarrow> int"
  dc_account :: "cxx_string \<Rightarrow> bool"
  dc_verify :: "dep_broadcast \<Rightarrow> cxx_string \<Rightarrow> cxx_string \<Rightarrow> bool"
  dc_address :: "cxx_string \<Rightarrow> cxx_string"

text \<open>\<open>dc_verify msg pub sign\<close>: the signature of the hash of the message without its signature.\<close>

definition HandleContractDependencyBroadcastMsg ::
    "dep_checks \<Rightarrow> dep_manager \<Rightarrow> dep_broadcast option \<Rightarrow> int \<times> dep_manager" where
  "HandleContractDependencyBroadcastMsg c g msg =
     (case msg of
        None \<Rightarrow> (-1, g)
      | Some msg \<Rightarrow>
        (case db_sign msg of
           None \<Rightarrow> (-2, g)
         | Some (sign, pub) \<Rightarrow>
             if dc_version c (db_version msg) \<noteq> 0 then (-3, g)
             else if pub = [] \<or> sign = [] then (-4, g)
             else if \<not> dc_account c pub then (-5, g)
             else if \<not> dc_verify c (msg\<lparr>db_sign := None\<rparr>) pub sign then (-6, g)
             else if dc_address c pub = [] then (-7, g)
             else if db_dependencies msg = [] then (0, g)
             else (0, StoreBroadcastDependencies (dc_address c) g msg)))"

subsection \<open>The gate\<close>

definition CanSendTransaction :: "(cxx_string \<Rightarrow> CTransaction option) \<Rightarrow> dep_manager \<Rightarrow> TxMsgReq \<Rightarrow> bool" where
  "CanSendTransaction parse g msg =
     (if tm_contractStorageList msg = [] then True
      else case parse (tm_tx msg) of
        None \<Rightarrow> False
      | Some contractTx \<Rightarrow>
          tx_hash contractTx \<noteq> [] \<and>
          list_all (\<lambda>dep. dep = [] \<or> existing_hashes (dependency_tx_hashes g) dep = []) (tm_contractStorageList msg))"

definition ClearDependency :: "dep_manager \<Rightarrow> cxx_string \<Rightarrow> dep_manager" where
  "ClearDependency g txhash =
     g\<lparr>dependency_tx_hashes := (\<lambda>a. case dependency_tx_hashes g a of
         None \<Rightarrow> None
       | Some hashes \<Rightarrow> let hashes' = removeAll txhash hashes in if hashes' = [] then None else Some hashes')\<rparr>"

text \<open>\<open>EventManager\<close>; the dependency manager subscribes \<open>ClearDependency\<close> when it is made.\<close>

definition Subscribe ::
    "(cxx_string, (cxx_string \<Rightarrow> 's \<Rightarrow> 's) list) std_map \<Rightarrow> cxx_string \<Rightarrow> (cxx_string \<Rightarrow> 's \<Rightarrow> 's) \<Rightarrow>
     (cxx_string, (cxx_string \<Rightarrow> 's \<Rightarrow> 's) list) std_map" where
  "Subscribe callbacks event cb =
     map_assign event ((case map_of callbacks event of None \<Rightarrow> [] | Some cbs \<Rightarrow> cbs) @ [cb]) callbacks"

definition Publish ::
    "(cxx_string, (cxx_string \<Rightarrow> 's \<Rightarrow> 's) list) std_map \<Rightarrow> cxx_string \<Rightarrow> cxx_string \<Rightarrow> 's \<Rightarrow> 's" where
  "Publish callbacks event block_hash s =
     (case map_of callbacks event of None \<Rightarrow> s | Some cbs \<Rightarrow> foldl (\<lambda>s cb. cb block_hash s) s cbs)"

definition DependencyManager_callbacks :: "(cxx_string, (cxx_string \<Rightarrow> dep_manager \<Rightarrow> dep_manager) list) std_map" where
  "DependencyManager_callbacks = Subscribe [] ''TransactionConfirmed'' (\<lambda>txhash g. ClearDependency g txhash)"

subsection \<open>Distribution\<close>

text \<open>A \<open>multimap\<close> is a list in iteration order; \<open>emplace\<close> adds at the end of the equal keys.\<close>

fun mm_emplace :: "cxx_string \<Rightarrow> 'v \<Rightarrow> (cxx_string \<times> 'v) list \<Rightarrow> (cxx_string \<times> 'v) list" where
  "mm_emplace k v [] = [(k, v)]"
| "mm_emplace k v ((k', v') # m) = (if k < k' then (k, v) # (k', v') # m else (k', v') # mm_emplace k v m)"

text \<open>What the distribution asks of other parts of the program.\<close>

record packagers =
  pk_parse :: "cxx_string \<Rightarrow> CTransaction option"
  pk_sha256 :: "cxx_string \<Rightarrow> cxx_string"
  pk_find :: "cxx_string \<Rightarrow> u64 \<Rightarrow> int \<times> cxx_string"

definition pack_node :: "packagers \<Rightarrow> TxMsgReq list \<Rightarrow> int \<times> cxx_string" where
  "pack_node p msg_container =
     (let txs = List.map_filter (pk_parse p \<circ> tm_tx) msg_container;
          hash_concat = concat (map tx_hash txs);
          max_time = (if txs = [] then 0 else Max (set (map tx_time txs)))
      in pk_find p (pk_sha256 p hash_concat) max_time)"

definition DistributionContractTransactionRequest ::
    "packagers \<Rightarrow> TxMsgReq list list \<Rightarrow> int \<times> (cxx_string \<times> TxMsgReq list) list" where
  "DistributionContractTransactionRequest p grouped_data =
     (let distribution = foldl (\<lambda>d msg_container.
            let (ret, pack_addr) = pack_node p msg_container in
            if ret \<noteq> 0 then d else mm_emplace pack_addr msg_container d) [] grouped_data
      in (if distribution = [] then -3 else 0, distribution))"

subsection \<open>The timer\<close>

record timer_state =
  tp_time_value :: u64
  tp_time_baseline :: u64

definition kContractWaitingTime :: u64 where "kContractWaitingTime = 3 * 1000000"

definition getTimestampPerUnit :: "u64 \<Rightarrow> u64" where
  "getTimestampPerUnit utcTime = (utcTime div 3000000) * 3000000"

definition SetTimeValue :: "timer_state \<Rightarrow> u64 \<Rightarrow> timer_state" where
  "SetTimeValue t val = (if tp_time_value t = 0 then t\<lparr>tp_time_value := val\<rparr> else t)"

text \<open>
  One round of \<open>ProcessingFunc\<close> after its wait of a second: what is sent to which packager, the new
  timer and the new dependency manager.
\<close>

definition ProcessingFunc ::
    "packagers \<Rightarrow> timer_state \<Rightarrow> dep_manager \<Rightarrow> deps \<Rightarrow>
     (cxx_string \<times> TxMsgReq list) list \<times> timer_state \<times> dep_manager" where
  "ProcessingFunc p t0 g order =
     (let t1 = t0\<lparr>tp_time_value := tp_time_value t0 + 1000000\<rparr>;
          t = (if tp_time_baseline t1 = 0
               then t1\<lparr>tp_time_baseline := getTimestampPerUnit (tp_time_value t1)\<rparr> else t1)
      in if tp_time_value t \<ge> tp_time_baseline t + kContractWaitingTime then
           let dependent_data = GetDependentData g order in
           if dependent_data = [] then ([], t, g)
           else let grouped_data = GroupData dependent_data in
             if grouped_data = [] then ([], t, g)
             else let (ret, distribution) = DistributionContractTransactionRequest p grouped_data in
               if ret \<noteq> 0 then ([], t, g)
               else (distribution, t\<lparr>tp_time_baseline := 0, tp_time_value := 0\<rparr>, ClearCaches g)
         else ([], t, g))"

subsection \<open>The packager's own grouping\<close>

record Hash_Depend =
  hd_time :: u64
  hash_dep :: "cxx_string \<Rightarrow> cxx_string list option"
  hash_tx :: "cxx_string \<Rightarrow> CTransaction option"

text \<open>\<open>insert\<close> keeps an entry that is already there.\<close>

definition packDispatch_Add :: "Hash_Depend \<Rightarrow> u64 \<Rightarrow> cxx_string \<Rightarrow> cxx_string list \<Rightarrow> CTransaction \<Rightarrow> Hash_Depend" where
  "packDispatch_Add d now contractHash dependentContracts tx =
     d\<lparr>hd_time := now,
       hash_dep := (case hash_dep d contractHash of
         None \<Rightarrow> (hash_dep d)(contractHash \<mapsto> dependentContracts) | Some _ \<Rightarrow> hash_dep d),
       hash_tx := (case hash_tx d contractHash of
         None \<Rightarrow> (hash_tx d)(contractHash \<mapsto> tx) | Some _ \<Rightarrow> hash_tx d)\<rparr>"

type_synonym dependent_map = "nat \<Rightarrow> cxx_string \<Rightarrow> CTransaction option"
type_synonym tx_map = "cxx_string \<Rightarrow> CTransaction option"

text \<open>One hash of group number \<open>n\<close> with \<open>sz\<close> members; \<open>at\<close> throws when the hash has no transaction.\<close>

definition place_hash :: "Hash_Depend \<Rightarrow> nat \<Rightarrow> nat \<Rightarrow> cxx_string \<Rightarrow> dependent_map \<times> tx_map \<Rightarrow> (dependent_map \<times> tx_map) run" where
  "place_hash d n sz hash r =
     (case hash_tx d hash of
        None \<Rightarrow> Throw OutOfRange
      | Some tx \<Rightarrow>
          if sz = 1 then Ret (fst r, (snd r)(hash \<mapsto> tx))
          else Ret ((fst r)(n := (case fst r n hash of
            None \<Rightarrow> (fst r n)(hash \<mapsto> tx) | Some _ \<Rightarrow> fst r n)), snd r))"

fun place_hashes :: "Hash_Depend \<Rightarrow> nat \<Rightarrow> nat \<Rightarrow> cxx_string list \<Rightarrow> dependent_map \<times> tx_map \<Rightarrow> (dependent_map \<times> tx_map) run" where
  "place_hashes d n sz [] r = Ret r"
| "place_hashes d n sz (h # hs) r = bind_run (place_hash d n sz h r) (place_hashes d n sz hs)"

fun place_groups :: "Hash_Depend \<Rightarrow> nat \<Rightarrow> cxx_string set list \<Rightarrow> dependent_map \<times> tx_map \<Rightarrow> (dependent_map \<times> tx_map) run" where
  "place_groups d n [] r = Ret r"
| "place_groups d n (g # gs) r =
     bind_run (place_hashes d n (card g) (sorted_list_of_set g) r) (place_groups d (n + 1) gs)"

definition packDispatch_GetDependentData ::
    "Hash_Depend \<Rightarrow> deps \<Rightarrow> dependent_map \<times> tx_map \<Rightarrow> (dependent_map \<times> tx_map) run" where
  "packDispatch_GetDependentData d order r = place_groups d 1 (grouped_deps order) r"

subsection \<open>Facts about the grouping\<close>

lemma HasDuplicate_iff: "HasDuplicate v1 v2 \<longleftrightarrow> set v1 \<inter> set v2 \<noteq> {}"
  by (auto simp: HasDuplicate_def list_ex_iff)

lemma common_keys_iff:
  "k \<in> common_keys order key vals \<longleftrightarrow>
   k = key \<or> (\<exists>vs. (k, vs) \<in> set order \<and> k \<noteq> key \<and> set vals \<inter> set vs \<noteq> {})"
  by (force simp: common_keys_def HasDuplicate_iff)

lemma add_group_union: "\<Union> (set (add_group c gs)) = c \<union> \<Union> (set gs)"
  by (induction c gs rule: add_group.induct) auto

lemma add_group_has: "\<exists>g\<in>set (add_group c gs). c \<subseteq> g"
  by (induction c gs rule: add_group.induct) auto

lemma add_group_from: "h \<in> set (add_group c gs) \<Longrightarrow> h = c \<or> h \<in> set gs \<or> (\<exists>g\<in>set gs. h = g \<union> c)"
  by (induction c gs rule: add_group.induct) (auto split: if_splits)

lemma add_group_keeps: "g \<in> set gs \<Longrightarrow> \<exists>g'\<in>set (add_group c gs). g \<subseteq> g'"
  by (induction c gs rule: add_group.induct) auto

text \<open>The groups after a part of the iteration.\<close>

definition groups_of :: "deps \<Rightarrow> deps \<Rightarrow> cxx_string set list" where
  "groups_of order seen = foldl (\<lambda>groups (key, vals). add_group (common_keys order key vals) groups) [] seen"

lemma grouped_deps_of: "grouped_deps order = groups_of order order"
  by (simp add: grouped_deps_def groups_of_def)

lemma groups_of_Nil [simp]: "groups_of order [] = []"
  by (simp add: groups_of_def)

lemma groups_of_snoc [simp]:
  "groups_of order (seen @ [(key, vals)]) = add_group (common_keys order key vals) (groups_of order seen)"
  by (simp add: groups_of_def)

lemma groups_of_union:
  "\<Union> (set (groups_of order seen)) = (\<Union>(key, vals)\<in>set seen. common_keys order key vals)"
proof (induction seen rule: rev_induct)
  case (snoc kv seen)
  then show ?case by (cases kv) (simp add: add_group_union)
qed simp

lemma groups_of_has: "(key, vals) \<in> set seen \<Longrightarrow> \<exists>g\<in>set (groups_of order seen). common_keys order key vals \<subseteq> g"
proof (induction seen rule: rev_induct)
  case (snoc kv seen)
  obtain k v where kv: "kv = (k, v)" by (cases kv)
  show ?case
  proof (cases "(key, vals) \<in> set seen")
    case True
    then obtain g where "g \<in> set (groups_of order seen)" "common_keys order key vals \<subseteq> g"
      using snoc.IH by blast
    with add_group_keeps [of g "groups_of order seen" "common_keys order k v"] kv show ?thesis
      by (auto intro: order_trans)
  qed (use snoc.prems kv add_group_has in auto)
qed simp

lemma common_keys_subset: "(key, vals) \<in> set order \<Longrightarrow> common_keys order key vals \<subseteq> fst ` set order"
  by (force simp: common_keys_iff)

lemma grouped_union: "\<Union> (set (grouped_deps order)) = fst ` set order"
proof -
  have "fst ` set order \<subseteq> (\<Union>(key, vals)\<in>set order. common_keys order key vals)"
    by (force simp: common_keys_iff)
  with common_keys_subset show ?thesis unfolding grouped_deps_of groups_of_union by fast
qed

lemma finite_groups: "g \<in> set (grouped_deps order) \<Longrightarrow> finite g"
  using grouped_union [of order] by (metis Union_upper finite_imageI finite_set finite_subset)

text \<open>When sharing a contract is transitive, the groups are its classes.\<close>

definition shares :: "deps \<Rightarrow> cxx_string \<Rightarrow> cxx_string \<Rightarrow> bool" where
  "shares order a b \<longleftrightarrow> (\<exists>va vb. (a, va) \<in> set order \<and> (b, vb) \<in> set order \<and> set va \<inter> set vb \<noteq> {})"

definition sharing_transitive :: "deps \<Rightarrow> bool" where
  "sharing_transitive order \<longleftrightarrow> (\<forall>a b c. shares order a b \<and> shares order b c \<longrightarrow> shares order a c)"

definition class_of :: "deps \<Rightarrow> cxx_string \<Rightarrow> cxx_string set" where
  "class_of order a = insert a {b. shares order a b}"

lemma shares_sym: "shares order a b \<Longrightarrow> shares order b a"
  unfolding shares_def by blast

lemma common_keys_class:
  assumes "distinct (map fst order)" "(key, vals) \<in> set order"
  shows "common_keys order key vals = class_of order key"
proof -
  have u: "(key, v) \<in> set order \<Longrightarrow> v = vals" for v
    using eq_key_imp_eq_value [OF assms(1) _ assms(2)] .
  have "shares order key k \<longleftrightarrow> (\<exists>vs. (k, vs) \<in> set order \<and> set vals \<inter> set vs \<noteq> {})" for k
    unfolding shares_def using u assms(2) by metis
  then show ?thesis by (simp add: set_eq_iff common_keys_iff class_of_def) metis
qed

lemma class_meets:
  assumes "sharing_transitive order" "class_of order a \<inter> class_of order b \<noteq> {}"
  shows "class_of order a = class_of order b"
proof -
  have t: "shares order x y \<Longrightarrow> shares order y z \<Longrightarrow> shares order x z" for x y z
    using assms(1) unfolding sharing_transitive_def by blast
  from assms(2) obtain x where "x = a \<or> shares order a x" "x = b \<or> shares order b x"
    unfolding class_of_def by auto
  then have ab: "a = b \<or> shares order a b" by (metis t shares_sym)
  have sub: "class_of order x \<subseteq> class_of order y" if "shares order y x" for x y
    unfolding class_of_def using that t [OF that] by auto
  from ab show ?thesis
  proof
    assume ab: "shares order a b"
    show ?thesis by (rule equalityI [OF sub [OF shares_sym [OF ab]] sub [OF ab]])
  qed simp
qed

lemma add_group_class:
  assumes "sharing_transitive order" "sorted_wrt (\<lambda>g h. g \<inter> h = {}) gs"
    "\<And>g. g \<in> set gs \<Longrightarrow> \<exists>a. g = class_of order a"
  shows "sorted_wrt (\<lambda>g h. g \<inter> h = {}) (add_group (class_of order k) gs) \<and>
    (\<forall>g\<in>set (add_group (class_of order k) gs). \<exists>a. g = class_of order a)"
  using assms(2,3)
proof (induction gs)
  case (Cons g gs)
  obtain a where a: "g = class_of order a" using Cons.prems(2) by auto
  show ?case
  proof (cases "g \<inter> class_of order k = {}")
    case True
    have "h \<in> set (add_group (class_of order k) gs) \<Longrightarrow> g \<inter> h = {}" for h
      using Cons.prems(1) True add_group_from [of h "class_of order k" gs] by auto
    with Cons True a show ?thesis by auto
  next
    case False
    then have "class_of order k = g" using class_meets [OF assms(1)] a by blast
    with Cons.prems False show ?thesis by auto
  qed
qed auto

lemma groups_of_classes:
  assumes "distinct (map fst order)" "sharing_transitive order" "set seen \<subseteq> set order"
  shows "sorted_wrt (\<lambda>g h. g \<inter> h = {}) (groups_of order seen) \<and>
    (\<forall>g\<in>set (groups_of order seen). \<exists>a. g = class_of order a)"
  using assms(3)
proof (induction seen rule: rev_induct)
  case (snoc kv seen)
  obtain k v where kv: "kv = (k, v)" by (cases kv)
  then have "common_keys order k v = class_of order k"
    using common_keys_class [OF assms(1)] snoc.prems by auto
  then show ?case using add_group_class [OF assms(2)] snoc kv by auto
qed simp

subsection \<open>Facts about the distribution\<close>

lemma set_map_filter: "set (List.map_filter f xs) = {y. \<exists>x\<in>set xs. f x = Some y}"
  by (auto simp: List.map_filter_def image_iff) (metis option.sel option.distinct(1))

lemma concat_nonempty: "concat (filter (\<lambda>xs. xs \<noteq> []) xss) = concat xss"
  by (induction xss) auto

lemma dependent_messages:
  "set (concat (GetDependentData g order)) = {m. \<exists>h\<in>fst ` set order. contract_msg_cache g h = Some m}"
proof -
  have "set (concat (GetDependentData g order)) =
      (\<Union>hs\<in>set (grouped_deps order). {m. \<exists>h\<in>set (sorted_list_of_set hs). contract_msg_cache g h = Some m})"
    by (simp add: GetDependentData_def concat_nonempty set_map_filter)
  also have "\<dots> = {m. \<exists>h\<in>\<Union> (set (grouped_deps order)). contract_msg_cache g h = Some m}"
    using finite_groups by (simp add: set_eq_iff)
  finally show ?thesis by (simp only: grouped_union)
qed

lemma group_parts_concat:
  "index + per_part * parts + remain = length xs \<Longrightarrow> 0 < parts \<or> remain = 0 \<Longrightarrow>
   concat (group_parts xs per_part remain index parts) = concat (drop index xs)
   \<and> length (group_parts xs per_part remain index parts) = parts"
proof (induction parts arbitrary: index remain)
  case (Suc parts)
  have split: "concat (take n (drop i xs)) @ concat (drop (i + n) xs) = concat (drop i xs)" for n i
    by (metis add.commute append_take_drop_id concat_append drop_drop)
  have "index + per_part + remain + per_part * parts + 0 = length xs" using Suc.prems(1) by (simp add: algebra_simps)
  from Suc.IH [OF this] have "concat (group_parts xs per_part 0 (index + per_part + remain) parts) =
      concat (drop (index + per_part + remain) xs)"
    "length (group_parts xs per_part 0 (index + per_part + remain) parts) = parts" by simp_all
  with split [of remain "index + per_part"] split [of per_part index] show ?case
    by (auto simp: Let_def)
qed simp

lemma GroupData_concat: "concat (GroupData xs) = concat xs"
proof (cases "length xs \<le> 8")
  case False
  have "0 + length xs div 8 * 8 + length xs mod 8 = length xs" by simp
  from group_parts_concat [OF this] False show ?thesis by (simp add: GroupData_def Let_def)
qed (simp add: GroupData_def)

lemma GroupData_length: "length (GroupData xs) = min 8 (length xs)"
proof (cases "length xs \<le> 8")
  case False
  have "0 + length xs div 8 * 8 + length xs mod 8 = length xs" by simp
  from group_parts_concat [OF this] False show ?thesis by (simp add: GroupData_def Let_def)
qed (simp add: GroupData_def)

lemma set_mm_emplace: "set (mm_emplace k v m) = insert (k, v) (set m)"
  by (induction k v m rule: mm_emplace.induct) auto

lemma distribution_set:
  "set (snd (DistributionContractTransactionRequest p gs)) =
   {(snd (pack_node p c), c) | c. c \<in> set gs \<and> fst (pack_node p c) = 0}"
proof -
  have "set (foldl (\<lambda>d c. let (ret, pack_addr) = pack_node p c in if ret \<noteq> 0 then d else mm_emplace pack_addr c d) d gs) =
      set d \<union> {(snd (pack_node p c), c) | c. c \<in> set gs \<and> fst (pack_node p c) = 0}" for d
    by (induction gs arbitrary: d) (auto simp: case_prod_unfold Let_def set_mm_emplace)
  then show ?thesis by (simp add: DistributionContractTransactionRequest_def Let_def)
qed

lemma ProcessingFunc_result:
  assumes "ProcessingFunc p t0 g order = (sent, t, g')"
  shows "sent = [] \<and> g' = g \<or>
    sent = snd (DistributionContractTransactionRequest p (GroupData (GetDependentData g order))) \<and> sent \<noteq> []
      \<and> g' = ClearCaches g \<and> tp_time_value t = 0 \<and> tp_time_baseline t = 0"
  using assms by (auto simp: ProcessingFunc_def Let_def DistributionContractTransactionRequest_def split: if_splits)

subsection \<open>Facts about the gate\<close>

text \<open>The registered pairs of a contract and an unconfirmed transaction.\<close>

definition pending_pairs :: "dep_manager \<Rightarrow> (cxx_string \<times> cxx_string) set" where
  "pending_pairs g = {(a, h). h \<in> set (existing_hashes (dependency_tx_hashes g) a)}"

lemma existing_upd [simp]:
  "existing_hashes (m(k \<mapsto> v)) a = (if a = k then v else existing_hashes m a)"
  by (simp add: existing_hashes_def)

lemma set_push_unique [simp]: "set (push_unique xs x) = insert x (set xs)"
  by (auto simp: push_unique_def)

lemma set_push_all [simp]: "set (foldl push_unique xs ys) = set xs \<union> set ys"
  by (induction ys arbitrary: xs) auto

lemma pending_AddContractInfo:
  "pending_pairs (fst (AddContractInfo g h ds)) = pending_pairs g \<union> (set ds - {[]}) \<times> {h}"
proof -
  have "h' \<in> set (existing_hashes (foldl (\<lambda>m d. m(d \<mapsto> push_unique (existing_hashes m d) h)) m ds) a) \<longleftrightarrow>
      h' \<in> set (existing_hashes m a) \<or> a \<in> set ds \<and> h' = h" for m a h' ds
    by (induction ds arbitrary: m) auto
  then show ?thesis
    by (auto simp: pending_pairs_def AddContractInfo_def BroadcastAddedDependency_def Let_def)
qed

definition stored_pairs :: "dep_info list \<Rightarrow> (cxx_string \<times> cxx_string) set" where
  "stored_pairs deps = {(a, h). a \<noteq> [] \<and> h \<noteq> [] \<and> (\<exists>hs. (a, hs) \<in> set deps \<and> h \<in> set hs)}"

lemma pending_Store:
  "pending_pairs (StoreBroadcastDependencies ga g msg) = pending_pairs g \<union>
     (case db_sign msg of None \<Rightarrow> {} | Some (sign, pub) \<Rightarrow> if ga pub = [] then {} else stored_pairs (db_dependencies msg))"
proof -
  have "h \<in> set (existing_hashes (foldl store_dependency m deps) a) \<longleftrightarrow>
      h \<in> set (existing_hashes m a) \<or> (a, h) \<in> stored_pairs deps" for m a h deps
    by (induction deps arbitrary: m) (auto simp: store_dependency_def stored_pairs_def)
  then show ?thesis
    by (auto simp: pending_pairs_def StoreBroadcastDependencies_def split: option.splits)
qed

lemma existing_Clear [simp]:
  "existing_hashes (dependency_tx_hashes (ClearDependency g h)) a = removeAll h (existing_hashes (dependency_tx_hashes g) a)"
  by (cases "dependency_tx_hashes g a") (simp_all add: ClearDependency_def existing_hashes_def Let_def)

lemma pending_Clear: "pending_pairs (ClearDependency g h) = {(a, h') \<in> pending_pairs g. h' \<noteq> h}"
  by (auto simp: pending_pairs_def)

end
