(* ===== verification/PendingTx.thy ===== *)
theory PendingTx
  imports Dispatch DbReader
begin

text \<open>
  Transactions that wait: the cache of contract transactions that could not be sent
  (\<open>ca/contract_transaction_cache.cpp\<close>) and the cache of transactions that wait for other nodes
  to reach their height (\<open>ca/failed_transaction_cache.cpp\<close>). The clock, the heights of the other nodes
  and the database are arguments; what is handed to the next stage is part of the result.
\<close>

subsection \<open>Contract transactions\<close>

record CachedTransaction =
  ct_tx :: CTransaction
  ct_msg :: TxMsgReq
  ct_timestamp :: u64

type_synonym contract_cache = "(cxx_string, CachedTransaction) std_map"

definition FORCE_SEND_TIMEOUT :: u64 where "FORCE_SEND_TIMEOUT = 15"

definition AddFailedTransaction :: "contract_cache \<Rightarrow> CTransaction \<Rightarrow> TxMsgReq \<Rightarrow> u64 \<Rightarrow> contract_cache" where
  "AddFailedTransaction cache tx msg now =
     (case map_of cache (tx_hash tx) of
        Some _ \<Rightarrow> cache
      | None \<Rightarrow> map_assign (tx_hash tx) \<lparr>ct_tx = tx, ct_msg = msg, ct_timestamp = now\<rparr> cache)"

text \<open>
  The scan under the lock: the entries to send, in order, and the dependency manager after the
  confirmations published for the entries that are forced out.
\<close>

fun scan_cached ::
    "(cxx_string \<Rightarrow> CTransaction option) \<Rightarrow> u64 \<Rightarrow> contract_cache \<Rightarrow> dep_manager \<Rightarrow> contract_cache \<times> dep_manager" where
  "scan_cached parse currentTime [] g = ([], g)"
| "scan_cached parse currentTime ((txHash, cachedTx) # cache) g =
     (let timeInCache = currentTime - ct_timestamp cachedTx in
      if FORCE_SEND_TIMEOUT \<le> timeInCache then
        let (send, g') = scan_cached parse currentTime cache
              (Publish DependencyManager_callbacks ''TransactionConfirmed'' txHash g)
        in ((txHash, cachedTx) # send, g')
      else let (send, g') = scan_cached parse currentTime cache g in
        (if CanSendTransaction parse g (ct_msg cachedTx) then (txHash, cachedTx) # send else send, g'))"

text \<open>What is handed to \<open>_SendCachedTransaction\<close>, the cache, and the dependency manager.\<close>

definition CheckCachedTransactions ::
    "(cxx_string \<Rightarrow> CTransaction option) \<Rightarrow> u64 \<Rightarrow> contract_cache \<Rightarrow> dep_manager \<Rightarrow>
     CachedTransaction list \<times> contract_cache \<times> dep_manager" where
  "CheckCachedTransactions parse currentTime cache g =
     (let (send, g') = scan_cached parse currentTime cache g
      in (map snd send, foldl (\<lambda>m txHash. map_erase txHash m) cache (map fst send), g'))"

subsection \<open>Transactions that wait for a height\<close>

type_synonym tx_pending = "(u64, TxMsgReq list) std_map"

definition Add_pending :: "tx_pending \<Rightarrow> u64 \<Rightarrow> TxMsgReq \<Rightarrow> tx_pending" where
  "Add_pending m height msg =
     map_assign height ((case map_of m height of None \<Rightarrow> [] | Some txs \<Rightarrow> txs) @ [msg]) m"

text \<open>
  Whether a height waits on: less than three quarters of the nodes have reached it (the comparison
  with \<open>size() * 0.75\<close> is exact below two to the 51 nodes), or this node has not.
\<close>

definition waits :: "u64 \<Rightarrow> u32 list \<Rightarrow> u64 \<Rightarrow> bool" where
  "waits blockTop node_heights txHeight \<longleftrightarrow>
     4 * length (filter (\<lambda>h. txHeight \<le> ucast h) node_heights) < 3 * length node_heights \<or> blockTop < txHeight"

text \<open>
  The handled transactions are erased one after the other through iterators taken before; the
  first erasure invalidates the iterators behind it.
\<close>

fun erase_tasks :: "TxMsgReq list \<Rightarrow> TxMsgReq list run" where
  "erase_tasks [] = Ret []"
| "erase_tasks [t] = Ret []"
| "erase_tasks _ = Undefined"

text \<open>The scan: the transactions handed to \<open>handleTransaction\<close>, and the map with the entries to delete gone.\<close>

fun scan_pending :: "u64 \<Rightarrow> u32 list \<Rightarrow> tx_pending \<Rightarrow> (TxMsgReq list \<times> tx_pending) run" where
  "scan_pending blockTop node_heights [] = Ret ([], [])"
| "scan_pending blockTop node_heights ((txHeight, txs) # m) =
     (if waits blockTop node_heights txHeight
      then bind_run (scan_pending blockTop node_heights m) (\<lambda>(tasks, m'). Ret (tasks, (txHeight, txs) # m'))
      else if txs \<noteq> [] \<and> txHeight + 3 < blockTop
      then scan_pending blockTop node_heights m
      else bind_run (erase_tasks txs) (\<lambda>txs'.
        bind_run (scan_pending blockTop node_heights m) (\<lambda>(tasks, m'). Ret (txs @ tasks, (txHeight, txs') # m'))))"

definition Check_pending :: "reader \<Rightarrow> u32 list \<Rightarrow> tx_pending \<Rightarrow> (TxMsgReq list \<times> tx_pending) run" where
  "Check_pending rd node_heights m =
     bind_run (getBlockTop rd 0) (\<lambda>(ret, blockTop).
       if ret \<noteq> DB_SUCCESS then Ret ([], m) else scan_pending blockTop node_heights m)"

subsection \<open>Facts\<close>

lemma Publish_confirmed:
  "Publish DependencyManager_callbacks ''TransactionConfirmed'' h g = ClearDependency g h"
  by (simp add: Publish_def DependencyManager_callbacks_def Subscribe_def)

definition forced :: "u64 \<Rightarrow> CachedTransaction \<Rightarrow> bool" where
  "forced now c \<longleftrightarrow> FORCE_SEND_TIMEOUT \<le> now - ct_timestamp c"

definition forced_keys :: "u64 \<Rightarrow> contract_cache \<Rightarrow> cxx_string set" where
  "forced_keys now cache = fst ` {e \<in> set cache. forced now (snd e)}"

lemma forced_keys_simps [simp]:
  "forced_keys now [] = {}"
  "forced_keys now ((h, c) # cache) = (if forced now c then insert h (forced_keys now cache) else forced_keys now cache)"
  by (auto simp: forced_keys_def image_iff)

lemma scan_cached_facts:
  "scan_cached parse now cache g = (send, g') \<Longrightarrow>
   set send \<subseteq> set cache \<and> (\<forall>e\<in>set cache. forced now (snd e) \<longrightarrow> e \<in> set send) \<and>
   (distinct (map fst cache) \<longrightarrow> distinct (map fst send)) \<and>
   pending_pairs g' = {(a, h) \<in> pending_pairs g. h \<notin> forced_keys now cache}"
proof (induction parse now cache g arbitrary: send g' rule: scan_cached.induct)
  case (2 parse now h c cache g)
  show ?case
  proof (cases "forced now c")
    case True
    then obtain s where s: "scan_cached parse now cache (ClearDependency g h) = (s, g')" "send = (h, c) # s"
      using "2.prems" by (auto simp: forced_def Publish_confirmed Let_def split: prod.splits)
    note ih = "2.IH"(1) [OF refl _ s(1) [folded Publish_confirmed]]
    with True have "set s \<subseteq> set cache \<and> (\<forall>e\<in>set cache. forced now (snd e) \<longrightarrow> e \<in> set s) \<and>
      (distinct (map fst cache) \<longrightarrow> distinct (map fst s)) \<and>
      pending_pairs g' = {(a, h') \<in> pending_pairs (ClearDependency g h). h' \<notin> forced_keys now cache}"
      by (simp add: forced_def Publish_confirmed)
    with True s(2) show ?thesis by (auto simp: pending_Clear)
  next
    case False
    then obtain s where s: "scan_cached parse now cache g = (s, g')"
      "send = (if CanSendTransaction parse g (ct_msg c) then (h, c) # s else s)"
      using "2.prems" by (auto simp: forced_def Let_def split: prod.splits)
    note ih = "2.IH"(2) [OF refl _ s(1)]
    with False have "set s \<subseteq> set cache \<and> (\<forall>e\<in>set cache. forced now (snd e) \<longrightarrow> e \<in> set s) \<and>
      (distinct (map fst cache) \<longrightarrow> distinct (map fst s)) \<and>
      pending_pairs g' = {(a, h') \<in> pending_pairs g. h' \<notin> forced_keys now cache}"
      by (simp add: forced_def)
    with False s(2) show ?thesis by auto
  qed
qed simp

lemma erase_keys: "foldl (\<lambda>m k. map_erase k m) m ks = filter (\<lambda>e. fst e \<notin> set ks) m"
  by (induction ks arbitrary: m) (auto simp: map_erase_def intro: filter_cong)

end
