(* ===== verification/CaProps.thy ===== *)
theory CaProps
  imports PendingTx
begin

text \<open>
  What the transaction layer promises: double spends are found within a block and between blocks,
  with the exceptions that follow from the code, and the cache of outputs in use protects the first
  claim of an address only.
\<close>

subsection \<open>Conflicts between blocks\<close>

text \<open>
  A block conflicts with one of a set of blocks exactly when a normal transaction of it spends an output
  that a normal transaction of the other spends, and the answer does not depend on which of two
  blocks is asked first.
\<close>

theorem block_conflict_iff:
  "(CheckConflict_block_blocks ga ty hs block blocks \<noteq> None \<longleftrightarrow>
     (\<exists>b\<in>set blocks. \<exists>t1\<in>set (bl_txs b). \<exists>t2\<in>set (bl_txs block).
       ty t1 = kTransactionTypeTx \<and> ty t2 = kTransactionTypeTx \<and> set (spent ga t1) \<inter> set (spent ga t2) \<noteq> {}))
   \<and> (CheckConflict_blocks ga ty hs b1 b2 = None \<longleftrightarrow> CheckConflict_blocks ga ty hs b2 b1 = None)"
proof (rule conjI)
  have two: "CheckConflict_blocks ga ty hs x y \<noteq> None \<longleftrightarrow>
      (\<exists>t1\<in>set (bl_txs x). \<exists>t2\<in>set (bl_txs y).
        ty t1 = kTransactionTypeTx \<and> ty t2 = kTransactionTypeTx \<and> set (spent ga t1) \<inter> set (spent ga t2) \<noteq> {})"
    for x y
    by (auto simp: CheckConflict_blocks_def find_None_iff list_ex_iff CheckConflict_iff)
  have "CheckConflict_block_blocks ga ty hs block blocks \<noteq> None \<longleftrightarrow>
      (\<exists>b\<in>set blocks. CheckConflict_blocks ga ty hs b block \<noteq> None)"
    by (induction blocks) (auto split: option.split)
  then show "CheckConflict_block_blocks ga ty hs block blocks \<noteq> None \<longleftrightarrow>
     (\<exists>b\<in>set blocks. \<exists>t1\<in>set (bl_txs b). \<exists>t2\<in>set (bl_txs block).
       ty t1 = kTransactionTypeTx \<and> ty t2 = kTransactionTypeTx \<and> set (spent ga t1) \<inter> set (spent ga t2) \<noteq> {})"
    by (simp only: two)
  show "CheckConflict_blocks ga ty hs b1 b2 = None \<longleftrightarrow> CheckConflict_blocks ga ty hs b2 b1 = None"
    using two [of b1 b2] two [of b2 b1] by (auto simp: Int_commute)
qed

subsection \<open>Double spends within a block\<close>

text \<open>
  C8. In a block without unstake, undelegate and unlock transactions the later one of any two different
  transactions that spend the same output is reported (one of them when their times are equal), and
  every reported transaction spends an output that is spent at least twice in the block.
\<close>

theorem double_spends_reported:
  assumes "is_std_sort srt" and "list_all ordinary (bl_txs b)"
  shows "(\<forall>t1\<in>set (bl_txs b). \<forall>t2\<in>set (bl_txs b).
      t1 \<noteq> t2 \<and> set (pool_keys ga t1) \<inter> set (pool_keys ga t2) \<noteq> {} \<and> tx_time t1 \<le> tx_time t2 \<longrightarrow>
      t2 \<in> set (CheckConflict_block ga srt b []) \<or> tx_time t1 = tx_time t2 \<and> t1 \<in> set (CheckConflict_block ga srt b []))
    \<and> (\<forall>t\<in>set (CheckConflict_block ga srt b []). t \<in> set (bl_txs b) \<and>
      (\<exists>u\<in>set (pool_keys ga t). 2 \<le> sum_list (map (\<lambda>t. count_list (pool_keys ga t) u) (bl_txs b))))"
proof -
  let ?P = "transactionPool ga (bl_txs b)"
  let ?S = "\<lambda>u. concat (map (\<lambda>tx. replicate (count_list (pool_keys ga tx) u) tx) (bl_txs b))"
  have pool: "map_of ?P u = Some txs \<Longrightarrow> txs = ?S u" for u txs
    using pool_spenders [OF assms(2), of ga u] by (simp add: pool_list_def)
  have some: "?S u \<noteq> [] \<Longrightarrow> map_of ?P u = Some (?S u)" for u
    using pool_spenders [OF assms(2), of ga u] by (cases "map_of ?P u") (auto simp: pool_list_def)
  have mem: "t \<in> set (?S u) \<longleftrightarrow> t \<in> set (bl_txs b) \<and> u \<in> set (pool_keys ga t)" for t u
    by (auto simp: count_list_0_iff)
  have len: "length (?S u) = sum_list (map (\<lambda>t. count_list (pool_keys ga t) u) (bl_txs b))" for u
    by (simp add: length_concat comp_def)
  have "t2 \<in> set (CheckConflict_block ga srt b []) \<or> tx_time t1 = tx_time t2 \<and> t1 \<in> set (CheckConflict_block ga srt b [])"
    if t: "t1 \<in> set (bl_txs b)" "t2 \<in> set (bl_txs b)" "t1 \<noteq> t2" "tx_time t1 \<le> tx_time t2"
      "u \<in> set (pool_keys ga t1)" "u \<in> set (pool_keys ga t2)" for t1 t2 u
  proof -
    have in12: "t1 \<in> set (?S u)" "t2 \<in> set (?S u)" using mem t by blast+
    then have "card {t1, t2} \<le> card (set (?S u))" by (intro card_mono) auto
    then have l: "1 < length (?S u)" using t(3) card_length [of "?S u"] by simp
    have "?S u \<noteq> []"
    proof
      assume "?S u = []"
      with l show False by (simp only: list.size not_less_zero)
    qed
    then have m: "map_of ?P u = Some (?S u)" by (rule some)
    obtain x where "x \<in> set (?S u)" and
      x: "set (?S u) = insert x (set (drop 1 (srt tx_time (?S u))))" "\<forall>y\<in>set (?S u). tx_time x \<le> tx_time y"
      by (rule sort_rest [OF assms(1) l, of tx_time])
    have rep: "y \<in> set (CheckConflict_block ga srt b [])" if "y \<in> set (?S u)" "y \<noteq> x" for y
    proof -
      have "y \<in> set (drop 1 (srt tx_time (?S u)))" using x(1) that by (simp only: insert_iff simp_thms)
      with m l show ?thesis by (intro reported_iff [THEN iffD2] disjI2 exI conjI)
    qed
    show ?thesis
    proof (cases "t2 = x")
      case True
      then have "tx_time t2 \<le> tx_time t1" using bspec [OF x(2) in12(1)] by simp
      with t(4) have "tx_time t1 = tx_time t2" by (rule order_antisym)
      with rep [OF in12(1)] True t(3) show ?thesis by simp
    qed (use rep [OF in12(2)] in simp)
  qed
  moreover have "t \<in> set (bl_txs b) \<and>
      (\<exists>u\<in>set (pool_keys ga t). 2 \<le> sum_list (map (\<lambda>t. count_list (pool_keys ga t) u) (bl_txs b)))"
    if r: "t \<in> set (CheckConflict_block ga srt b [])" for t
  proof -
    obtain u txs where v: "map_of ?P u = Some txs" "1 < length txs" "t \<in> set (drop 1 (srt tx_time txs))"
      using r unfolding reported_iff by auto
    have "txs = ?S u" using pool [OF v(1)] .
    note u = v [unfolded this]
    obtain x where x: "set (?S u) = insert x (set (drop 1 (srt tx_time (?S u))))"
      by (rule sort_rest [OF assms(1) u(2), of tx_time])
    have "t \<in> set (?S u)" using u(3) unfolding x by (rule insertI2)
    then have "t \<in> set (bl_txs b)" "u \<in> set (pool_keys ga t)" by (simp_all only: mem)
    moreover have "2 \<le> sum_list (map (\<lambda>t. count_list (pool_keys ga t) u) (bl_txs b))"
      using u(2) unfolding len by simp
    ultimately show ?thesis by blast
  qed
  ultimately show ?thesis by blast
qed

definition spend_once :: "cxx_string \<Rightarrow> u32 \<Rightarrow> u64 \<Rightarrow> CTransaction" where
  "spend_once h ty t = \<lparr>tx_time = t, tx_hash = h, tx_txType = ty,
     tx_utxos = [\<lparr>ux_owner = [''owner''], ux_vin = [\<lparr>vi_prevOut = [\<lparr>po_hash = ''out'', po_n = 0\<rparr>], vi_pub = ''pub'',
       vi_contractAddr = []\<rparr>], ux_assetType = ''MM'', ux_vout = [], ux_gasUtxo = 0\<rparr>],
     tx_version = 0, tx_identity = [], tx_data = []\<rparr>"

lemma is_std_sort_sort_key: "is_std_sort sort_key"
  by (simp add: is_std_sort_def)

theorem double_spends_reported_witness:
  "spend_once ''b'' 1 7 \<in> set (CheckConflict_block (\<lambda>p. p) sort_key
     (CBlock_new\<lparr>bl_time := 9, bl_txs := [spend_once ''b'' 1 7, spend_once ''a'' 1 5]\<rparr>) [])"
proof -
  let ?b = "CBlock_new\<lparr>bl_time := 9, bl_txs := [spend_once ''b'' 1 7, spend_once ''a'' 1 5]\<rparr>"
  have "list_all ordinary (bl_txs ?b)"
    by (simp add: ordinary_def unseen_def spend_once_def kTxTypeUnstake_def kTxTypeUndelegate_def kTxTypeUnLock_def)
  note d = double_spends_reported [OF is_std_sort_sort_key this, of "\<lambda>p. p"]
  have "spend_once ''a'' 1 5 \<in> set (bl_txs ?b)" "spend_once ''b'' 1 7 \<in> set (bl_txs ?b)" by simp_all
  moreover have "spend_once ''a'' 1 5 \<noteq> spend_once ''b'' 1 7" "tx_time (spend_once ''a'' 1 5) < tx_time (spend_once ''b'' 1 7)"
    "set (pool_keys (\<lambda>p. p) (spend_once ''a'' 1 5)) \<inter> set (pool_keys (\<lambda>p. p) (spend_once ''b'' 1 7)) \<noteq> {}"
    by (simp_all add: spend_once_def pool_keys_def)
  ultimately show ?thesis using d by (metis order_less_imp_le order_less_irrefl)
qed

text \<open>
  Undelegate and unlock transactions are never seen: the report on a block is the report on the block
  without them, so two of them that spend the same output go through.
\<close>

theorem undelegate_unlock_unseen:
  "CheckConflict_block ga srt b ds =
     CheckConflict_block ga srt (b\<lparr>bl_txs := filter (\<lambda>tx. tx_txType tx \<noteq> kTxTypeUndelegate \<and> tx_txType tx \<noteq> kTxTypeUnLock) (bl_txs b)\<rparr>) ds
   \<and> CheckConflict_block ga srt (CBlock_new\<lparr>bl_time := t, bl_txs := [spend_once h1 kTxTypeUndelegate t1, spend_once h2 kTxTypeUndelegate t2]\<rparr>) [] = []"
proof (rule conjI)
  have "(\<lambda>tx. \<not> unseen tx) = (\<lambda>tx. tx_txType tx \<noteq> kTxTypeUndelegate \<and> tx_txType tx \<noteq> kTxTypeUnLock)"
    by (auto simp: unseen_def)
  then show "CheckConflict_block ga srt b ds =
     CheckConflict_block ga srt (b\<lparr>bl_txs := filter (\<lambda>tx. tx_txType tx \<noteq> kTxTypeUndelegate \<and> tx_txType tx \<noteq> kTxTypeUnLock) (bl_txs b)\<rparr>) ds"
    using pool_unseen [of ga "bl_txs b"] by (simp add: CheckConflict_block_def)
  show "CheckConflict_block ga srt (CBlock_new\<lparr>bl_time := t, bl_txs := [spend_once h1 kTxTypeUndelegate t1, spend_once h2 kTxTypeUndelegate t2]\<rparr>) [] = []"
    by (simp add: CheckConflict_block_def transactionPool_def pool_add_unseen unseen_def spend_once_def)
qed

subsection \<open>Outputs in use\<close>

fun AddAll :: "pending \<Rightarrow> (cxx_string \<times> doubleSpendSuccess) list \<Rightarrow> pending" where
  "AddAll m [] = m"
| "AddAll m ((addr, d) # ds) = AddAll (snd (AddFromAddr m addr d)) ds"

lemma AddAll_keeps: "map_of m addr = Some d \<Longrightarrow> map_of (AddAll m ds) addr = Some d"
proof (induction m ds rule: AddAll.induct)
  case (2 m a d' ds)
  have "map_of (snd (AddFromAddr m a d')) addr = Some d"
    using 2(2) by (cases "map_of m a") (auto simp: AddFromAddr_def)
  with 2(1) show ?case by simp
qed simp

text \<open>
  While an address is pending, exactly the outputs of its first claim are protected: whatever was
  accepted for the address afterwards, a new claim is accepted if and only if it avoids the first
  claim's outputs. In particular a second claim can be accepted any number of times.
\<close>

theorem first_claim_protected:
  assumes "map_of m addr = None"
  shows "fst (AddFromAddr m addr d) = 0
    \<and> fst (AddFromAddr (AddAll (snd (AddFromAddr m addr d)) ds) addr d2) =
        (if set (ds_utxoVector d2) \<inter> set (ds_utxoVector d) = {} then 0 else - 1)"
proof -
  have "map_of (AddAll (snd (AddFromAddr m addr d)) ds) addr = Some d"
    using assms by (intro AddAll_keeps) (simp add: AddFromAddr_def)
  with assms show ?thesis by (simp add: AddFromAddr_def set_intersection_nonempty)
qed

theorem first_claim_protected_witness:
  "let d = (\<lambda>u. \<lparr>ds_time = 1 :: u64, ds_utxoVector = [u]\<rparr>); m1 = snd (AddFromAddr [] ''a'' (d ''x'')) in
   fst (AddFromAddr (AddAll m1 [(''a'', d ''y'')]) ''a'' (d ''y'')) = 0
   \<and> fst (AddFromAddr (AddAll m1 [(''a'', d ''y'')]) ''a'' (d ''x'')) = - 1"
  using first_claim_protected [of "[]" "''a''" "\<lparr>ds_time = 1, ds_utxoVector = [''x'']\<rparr>" "[(''a'', \<lparr>ds_time = 1, ds_utxoVector = [''y'']\<rparr>)]"
      "\<lparr>ds_time = 1, ds_utxoVector = [''y'']\<rparr>"]
    first_claim_protected [of "[]" "''a''" "\<lparr>ds_time = 1, ds_utxoVector = [''x'']\<rparr>" "[(''a'', \<lparr>ds_time = 1, ds_utxoVector = [''y'']\<rparr>)]"
      "\<lparr>ds_time = 1, ds_utxoVector = [''x'']\<rparr>"]
  by (simp add: Let_def)

subsection \<open>Grouping of contract transactions\<close>

text \<open>
  The groups cover exactly the cached transactions, in whatever order the cache is iterated, and two
  transactions with a common contract are together in some group. When sharing a contract is
  transitive among the cached transactions, no transaction is in two groups.
\<close>

theorem dependents_grouped:
  "\<Union> (set (grouped_deps order)) = fst ` set order
   \<and> (shares order a b \<longrightarrow> (\<exists>g\<in>set (grouped_deps order). a \<in> g \<and> b \<in> g))
   \<and> (distinct (map fst order) \<and> sharing_transitive order \<longrightarrow> sorted_wrt (\<lambda>g h. g \<inter> h = {}) (grouped_deps order))"
proof (intro conjI impI)
  show "\<Union> (set (grouped_deps order)) = fst ` set order" by (rule grouped_union)
  assume "shares order a b"
  then obtain va vb where ab: "(a, va) \<in> set order" "(b, vb) \<in> set order" "set va \<inter> set vb \<noteq> {}"
    unfolding shares_def by blast
  then have "a \<in> common_keys order a va" "b \<in> common_keys order a va" by (auto simp: common_keys_iff)
  with groups_of_has [OF ab(1), of order] show "\<exists>g\<in>set (grouped_deps order). a \<in> g \<and> b \<in> g"
    unfolding grouped_deps_of by blast
next
  assume "distinct (map fst order) \<and> sharing_transitive order"
  then show "sorted_wrt (\<lambda>g h. g \<inter> h = {}) (grouped_deps order)"
    using groups_of_classes [of order order] by (simp add: grouped_deps_of)
qed

theorem dependents_grouped_witness:
  "(\<exists>g\<in>set (grouped_deps [(''a'', [''x'']), (''b'', [''y'']), (''c'', [''y'', ''z''])]). ''b'' \<in> g \<and> ''c'' \<in> g)"
proof -
  have "shares [(''a'', [''x'']), (''b'', [''y'']), (''c'', [''y'', ''z''])] ''b'' ''c''"
    by (auto simp: shares_def)
  with dependents_grouped [of "[(''a'', [''x'']), (''b'', [''y'']), (''c'', [''y'', ''z''])]" "''b''" "''c''"]
  show ?thesis by blast
qed

text \<open>
  Without transitivity a transaction can be dispatched twice: when four cached transactions share contracts
  in a chain and the cache is iterated from both ends inwards, the last two are in two groups.
\<close>

theorem chain_dispatched_twice:
  assumes "sorted_wrt (<) [a, b, c, d]" and "distinct [x, y, z]"
    and "contract_msg_cache g a = Some ma" "contract_msg_cache g b = Some mb"
    and "contract_msg_cache g c = Some mc" "contract_msg_cache g d = Some md"
  shows "GetDependentData g [(a, [x]), (d, [z]), (b, [x, y]), (c, [y, z])] = [[ma, mb, mc, md], [mc, md]]"
proof -
  have lt: "a < b" "a < c" "a < d" "b < c" "b < d" "c < d" using assms(1) by auto
  then have ne: "a \<noteq> b" "a \<noteq> c" "a \<noteq> d" "b \<noteq> c" "b \<noteq> d" "c \<noteq> d" by auto
  have "grouped_deps [(a, [x]), (d, [z]), (b, [x, y]), (c, [y, z])] = [{a, b, c, d}, {c, d}]"
    using assms(2) ne ne [symmetric] by (auto simp: grouped_deps_def common_keys_def HasDuplicate_def)
  moreover have "sorted_list_of_set (set [a, b, c, d]) = [a, b, c, d]" "sorted_list_of_set (set [c, d]) = [c, d]"
    by (rule sorted_list_of_set.idem_if_sorted_distinct; use lt ne in auto)+
  ultimately show ?thesis by (simp add: GetDependentData_def List.map_filter_def assms(3-6))
qed

theorem chain_dispatched_twice_witness:
  "let g = \<lparr>contract_dep_cache = [''1'' \<mapsto> [''x''], ''2'' \<mapsto> [''x'', ''y''], ''3'' \<mapsto> [''y'', ''z''], ''4'' \<mapsto> [''z'']],
      contract_msg_cache = (\<lambda>h. Some \<lparr>tm_tx = h, tm_contractStorageList = [], tm_nodeHeight = 0, tm_txUtxoHeight = 0\<rparr>), dependency_tx_hashes = Map.empty\<rparr>;
     m = (\<lambda>h. \<lparr>tm_tx = h, tm_contractStorageList = [], tm_nodeHeight = 0, tm_txUtxoHeight = 0\<rparr>) in
   GetDependentData g [(''1'', [''x'']), (''4'', [''z'']), (''2'', [''x'', ''y'']), (''3'', [''y'', ''z''])]
     = [[m ''1'', m ''2'', m ''3'', m ''4''], [m ''3'', m ''4'']]"
  unfolding Let_def by (rule chain_dispatched_twice) simp_all

text \<open>
  A round of the timer either sends nothing and keeps the caches, or empties them; then it sent only
  messages of cached transactions, and all of them when a packager was found for every group.
  The parts it sends are at most eight.
\<close>

theorem dispatch_conserves:
  assumes "enumerates order (contract_dep_cache g)" and "ProcessingFunc p t0 g order = (sent, t, g')"
  shows "sent = [] \<and> g' = g \<or>
    g' = ClearCaches g \<and> length (GroupData (GetDependentData g order)) \<le> 8
    \<and> set (concat (map snd sent)) \<subseteq> {m. \<exists>h. contract_dep_cache g h \<noteq> None \<and> contract_msg_cache g h = Some m}
    \<and> ((\<forall>h t. fst (pk_find p h t) = 0) \<longrightarrow>
        set (concat (map snd sent)) = {m. \<exists>h. contract_dep_cache g h \<noteq> None \<and> contract_msg_cache g h = Some m})"
  using ProcessingFunc_result [OF assms(2)]
proof (rule disj_forward, goal_cases)
  case 2
  let ?gs = "GroupData (GetDependentData g order)"
  have "fst ` set order = dom (contract_dep_cache g)"
    using assms(1) dom_map_of_conv_image_fst [of order] by (simp add: enumerates_def)
  then have all: "set (concat ?gs) = {m. \<exists>h. contract_dep_cache g h \<noteq> None \<and> contract_msg_cache g h = Some m}"
    unfolding GroupData_concat dependent_messages by auto
  have sent: "set (concat (map snd sent)) = \<Union> (set ` {c \<in> set ?gs. fst (pack_node p c) = 0})"
    using 2 by (auto simp: distribution_set)
  have "\<Union> (set ` {c \<in> set ?gs. fst (pack_node p c) = 0}) \<subseteq> set (concat ?gs)" by auto
  moreover have "\<Union> (set ` {c \<in> set ?gs. fst (pack_node p c) = 0}) = set (concat ?gs)"
    if "\<forall>h t. fst (pk_find p h t) = 0"
    using that by (auto simp: pack_node_def Let_def)
  ultimately show ?case using 2 all sent by (simp add: GroupData_length)
qed

definition one_contract :: dep_manager where
  "one_contract = \<lparr>contract_dep_cache = [''c'' \<mapsto> [''x'']],
     contract_msg_cache = [''c'' \<mapsto> \<lparr>tm_tx = ''t'', tm_contractStorageList = [''x''], tm_nodeHeight = 0, tm_txUtxoHeight = 0\<rparr>], dependency_tx_hashes = Map.empty\<rparr>"

theorem dispatch_conserves_witness:
  "let p = \<lparr>pk_parse = (\<lambda>s. None), pk_sha256 = (\<lambda>s. s), pk_find = (\<lambda>h t. (0, ''node''))\<rparr>;
       (sent, t, g') = ProcessingFunc p \<lparr>tp_time_value = 5000000, tp_time_baseline = 3000000\<rparr> one_contract [(''c'', [''x''])] in
   g' = ClearCaches one_contract \<and> set (concat (map snd sent)) = {\<lparr>tm_tx = ''t'', tm_contractStorageList = [''x''], tm_nodeHeight = 0, tm_txUtxoHeight = 0\<rparr>}"
proof -
  let ?p = "\<lparr>pk_parse = (\<lambda>s. None), pk_sha256 = (\<lambda>s. s), pk_find = (\<lambda>h t. (0, ''node''))\<rparr>"
  let ?t = "\<lparr>tp_time_value = 5000000, tp_time_baseline = 3000000\<rparr>"
  obtain sent t g' where r: "ProcessingFunc ?p ?t one_contract [(''c'', [''x''])] = (sent, t, g')"
    by (cases "ProcessingFunc ?p ?t one_contract [(''c'', [''x''])]") auto
  have e: "enumerates [(''c'', [''x''])] (contract_dep_cache one_contract)"
    by (simp add: enumerates_def one_contract_def)
  have "sent \<noteq> []"
    using r by (auto simp: ProcessingFunc_def Let_def kContractWaitingTime_def GetDependentData_def grouped_deps_def
        common_keys_def one_contract_def List.map_filter_def GroupData_def DistributionContractTransactionRequest_def
        pack_node_def)
  with dispatch_conserves [OF e r] have "g' = ClearCaches one_contract"
    "set (concat (map snd sent)) = {m. \<exists>h. contract_dep_cache one_contract h \<noteq> None \<and> contract_msg_cache one_contract h = Some m}"
    by simp_all
  with r show ?thesis by (auto simp: one_contract_def split: if_splits)
qed

subsection \<open>The gate for dependent transactions\<close>

datatype dep_op =
    OpInfo cxx_string "cxx_string list"
  | OpMessage cxx_string TxMsgReq
  | OpStore dep_broadcast
  | OpConfirmed cxx_string
  | OpClearCaches

fun dep_step :: "(cxx_string \<Rightarrow> cxx_string) \<Rightarrow> dep_op \<Rightarrow> dep_manager \<Rightarrow> dep_manager" where
  "dep_step ga (OpInfo h ds) g = fst (AddContractInfo g h ds)"
| "dep_step ga (OpMessage h m) g = AddMessageRequest g h m"
| "dep_step ga (OpStore msg) g = StoreBroadcastDependencies ga g msg"
| "dep_step ga (OpConfirmed h) g = Publish DependencyManager_callbacks ''TransactionConfirmed'' h g"
| "dep_step ga OpClearCaches g = ClearCaches g"

text \<open>The same on the set of pairs of a contract and an unconfirmed transaction that uses it.\<close>

fun pair_step :: "(cxx_string \<Rightarrow> cxx_string) \<Rightarrow> dep_op \<Rightarrow> (cxx_string \<times> cxx_string) set \<Rightarrow> (cxx_string \<times> cxx_string) set" where
  "pair_step ga (OpInfo h ds) R = R \<union> (set ds - {[]}) \<times> {h}"
| "pair_step ga (OpMessage h m) R = R"
| "pair_step ga (OpStore msg) R = R \<union> (case db_sign msg of None \<Rightarrow> {} | Some (sign, pub) \<Rightarrow>
     if ga pub = [] then {} else stored_pairs (db_dependencies msg))"
| "pair_step ga (OpConfirmed h) R = {(a, h') \<in> R. h' \<noteq> h}"
| "pair_step ga OpClearCaches R = R"

lemma dep_step_pairs: "pending_pairs (dep_step ga op g) = pair_step ga op (pending_pairs g)"
proof (cases op)
  case (OpConfirmed h)
  have "dep_step ga op g = ClearDependency g h"
    by (simp add: OpConfirmed Publish_def DependencyManager_callbacks_def Subscribe_def)
  with OpConfirmed show ?thesis by (simp add: pending_Clear)
qed (simp_all add: pending_AddContractInfo pending_Store, simp_all add: pending_pairs_def AddMessageRequest_def ClearCaches_def)

text \<open>
  C9. The gate implements a set of pairs: after any sequence of registrations, broadcasts and
  confirmations a parseable transaction with a hash may be sent if and only if none of its contracts
  has an unconfirmed transaction registered, where registering adds the pairs of the transaction and
  its confirmation takes away all pairs of it.
\<close>

theorem gate_refines_pairs:
  "pending_pairs (fold (dep_step ga) ops g) = fold (pair_step ga) ops (pending_pairs g)
   \<and> CanSendTransaction parse (fold (dep_step ga) ops g) msg =
      (tm_contractStorageList msg = [] \<or>
       (\<exists>tx. parse (tm_tx msg) = Some tx \<and> tx_hash tx \<noteq> []) \<and>
       fold (pair_step ga) ops (pending_pairs g) \<inter> (set (tm_contractStorageList msg) - {[]}) \<times> UNIV = {})"
proof -
  have p: "pending_pairs (fold (dep_step ga) ops g) = fold (pair_step ga) ops (pending_pairs g)"
    by (induction ops arbitrary: g) (simp_all add: dep_step_pairs)
  have d: "pending_pairs g' \<inter> (S - {[]}) \<times> UNIV = {} \<longleftrightarrow>
      (\<forall>dep\<in>S. dep = [] \<or> existing_hashes (dependency_tx_hashes g') dep = [])" for g' S
    by (simp add: pending_pairs_def disjoint_iff) (metis list.set_intros(1) list.set(1) empty_iff neq_Nil_conv)
  have "CanSendTransaction parse g' msg =
      (tm_contractStorageList msg = [] \<or>
       (\<exists>tx. parse (tm_tx msg) = Some tx \<and> tx_hash tx \<noteq> []) \<and>
       pending_pairs g' \<inter> (set (tm_contractStorageList msg) - {[]}) \<times> UNIV = {})" for g'
    unfolding d by (cases "parse (tm_tx msg)") (simp_all add: CanSendTransaction_def list_all_iff)
  with p show ?thesis by simp
qed

subsection \<open>Waiting transactions\<close>

text \<open>
  No contract transaction waits longer than the time limit: a check splits the cache into what is sent,
  once each, and what stays; everything that is at least 15 seconds old is sent and its registered
  dependencies are cleared, and those of no other transaction are.
\<close>

theorem forced_out_in_time:
  assumes "ordered_map cache" and "CheckCachedTransactions parse now cache g = (sent, cache', g')"
  shows "mset (map snd cache) = mset sent + mset (map snd cache')
    \<and> (\<forall>e\<in>set cache'. now - ct_timestamp (snd e) < 15)
    \<and> pending_pairs g' = {(a, h) \<in> pending_pairs g. h \<notin> fst ` {e \<in> set cache. 15 \<le> now - ct_timestamp (snd e)}}"
proof -
  have d: "distinct (map fst cache)" using assms(1) by (rule ordered_map_distinct)
  obtain s where s: "scan_cached parse now cache g = (s, g')" "sent = map snd s"
    "cache' = filter (\<lambda>e. fst e \<notin> set (map fst s)) cache"
    using assms(2) by (auto simp: CheckCachedTransactions_def erase_keys split: prod.splits)
  note f = scan_cached_facts [OF s(1)]
  have set_kept: "set cache' = {e \<in> set cache. e \<notin> set s}"
    using d f eq_key_imp_eq_value [OF d] by (auto simp: s(3)) (metis fst_conv imageE in_mono prod.collapse)
  moreover have parts: "mset cache = mset s + mset cache'"
  proof -
    have "distinct s" "distinct cache" using f d by (simp_all add: distinct_map)
    moreover from this have "distinct cache'" by (simp add: s(3))
    ultimately have ds: "distinct s" "distinct cache" "distinct cache'" by simp_all
    from f set_kept have "mset_set (set cache) = mset_set (set s \<union> set cache')" by (intro arg_cong [where f = mset_set]) auto
    also have "\<dots> = mset_set (set s) + mset_set (set cache')" using set_kept by (intro mset_set_Union) auto
    finally show ?thesis using ds by (simp add: mset_set_set)
  qed
  moreover have "{e \<in> set cache. 15 \<le> now - ct_timestamp (snd e)} = {e \<in> set cache. forced now (snd e)}"
    by (simp add: forced_def FORCE_SEND_TIMEOUT_def)
  moreover have "mset (map snd cache) = mset sent + mset (map snd cache')"
    using arg_cong [OF parts, of "image_mset snd"] s(2) by simp
  ultimately show ?thesis
    using f by (auto simp: forced_def FORCE_SEND_TIMEOUT_def forced_keys_def)
qed

theorem forced_out_in_time_witness:
  "let c = (\<lambda>t. \<lparr>ct_tx = spend_once ''h'' 8 1, ct_msg = \<lparr>tm_tx = ''raw'', tm_contractStorageList = [''x''], tm_nodeHeight = 0, tm_txUtxoHeight = 0\<rparr>, ct_timestamp = t\<rparr>);
       g = \<lparr>contract_dep_cache = Map.empty, contract_msg_cache = Map.empty, dependency_tx_hashes = [''x'' \<mapsto> [''other'']]\<rparr>
   in case CheckCachedTransactions (\<lambda>s. None) 120 [(''a'', c 100), (''b'', c 110)] g of
        (sent, cache', g') \<Rightarrow> sent = [c 100] \<and> cache' = [(''b'', c 110)] \<and>
          (\<forall>e\<in>set cache'. 120 - ct_timestamp (snd e) < 15)"
proof -
  let ?c = "\<lambda>t. \<lparr>ct_tx = spend_once ''h'' 8 1, ct_msg = \<lparr>tm_tx = ''raw'', tm_contractStorageList = [''x''], tm_nodeHeight = 0, tm_txUtxoHeight = 0\<rparr>, ct_timestamp = t\<rparr>"
  let ?g = "\<lparr>contract_dep_cache = Map.empty, contract_msg_cache = Map.empty, dependency_tx_hashes = [''x'' \<mapsto> [''other'']]\<rparr>"
  obtain sent cache' g' where
    r: "CheckCachedTransactions (\<lambda>s. None) 120 [(''a'', ?c 100), (''b'', ?c 110)] ?g = (sent, cache', g')"
    by (cases "CheckCachedTransactions (\<lambda>s. None) 120 [(''a'', ?c 100), (''b'', ?c 110)] ?g") auto
  have o: "ordered_map [(''a'', ?c 100), (''b'', ?c 110)]" by (simp add: ordered_map_def)
  have "sent = [?c 100]" "cache' = [(''b'', ?c 110)]"
    using r by (simp_all add: CheckCachedTransactions_def FORCE_SEND_TIMEOUT_def Publish_confirmed ClearDependency_def
        CanSendTransaction_def map_erase_def Let_def)
  with r forced_out_in_time [OF o r] show ?thesis by simp
qed

definition ripe :: "u64 \<Rightarrow> u32 list \<Rightarrow> u64 \<Rightarrow> bool" where
  "ripe blockTop hs h \<longleftrightarrow> \<not> waits blockTop hs h \<and> \<not> h + 3 < blockTop"

text \<open>
  A check of the transactions that wait for a height is undefined as soon as two of them wait for a
  height that is ripe: reached by three quarters of the nodes and at most three below this node's
  own. Otherwise it hands over the ripe transactions, drops without a word those of heights further
  below, and keeps the others.
\<close>

theorem pending_check_result:
  "scan_pending blockTop hs m =
     (if list_ex (\<lambda>(h, txs). ripe blockTop hs h \<and> 2 \<le> length txs) m then Undefined
      else Ret (concat (map snd (filter (\<lambda>(h, txs). ripe blockTop hs h) m)),
        map (\<lambda>(h, txs). (h, if ripe blockTop hs h then [] else txs))
          (filter (\<lambda>(h, txs). waits blockTop hs h \<or> ripe blockTop hs h \<or> txs = []) m)))"
proof (induction m)
  case (Cons e m)
  obtain h txs where e: "e = (h, txs)" by (cases e)
  show ?case
    using Cons by (cases txs rule: erase_tasks.cases) (auto simp: e ripe_def)
qed simp

end
