(* ===== verification/PeerTable.thy ===== *)
theory PeerTable
  imports NetBuffers
begin

text \<open>
  The table of connected nodes (\<open>net/peer_node.cpp\<close>, \<open>net/node.hpp\<close>), with the state its operations
  touch: the socket buffers, the lists of staked and other nodes of the last registration rounds
  (\<open>net/unregister_node.cpp\<close>), and the descriptors taken out of epoll and closed. Building a
  connection, the chain height callback, the check of a node's name and logo and the address of a
  public key are arguments.
\<close>

subsection \<open>Nodes\<close>

datatype ConnKind = NOTYET | dataRateToOutput | PASSIV

record Node =
  nd_address :: cxx_string
  nd_pub :: cxx_string
  nd_sign :: cxx_string
  nd_identity :: cxx_string
  nd_name :: cxx_string
  nd_logo :: cxx_string
  nd_ver :: cxx_string
  nd_listenIp :: u32
  nd_listenPort :: u32
  nd_publicIp :: u32
  nd_publicPort :: u32
  nd_height :: u32
  nd_connKind :: ConnKind
  nd_fd :: int
  nd_pulse :: int

definition HEARTBEAT_CHECKS :: int where "HEARTBEAT_CHECKS = 3"

definition Node_new :: "cxx_string \<Rightarrow> Node" where
  "Node_new nodeAddress = \<lparr>nd_address = nodeAddress, nd_pub = [], nd_sign = [], nd_identity = [], nd_name = [],
     nd_logo = [], nd_ver = [], nd_listenIp = 0, nd_listenPort = 0, nd_publicIp = 0, nd_publicPort = 0,
     nd_height = 0, nd_connKind = NOTYET, nd_fd = -1, nd_pulse = HEARTBEAT_CHECKS\<rparr>"

definition ResetHeart :: "Node \<Rightarrow> Node" where
  "ResetHeart n = n\<lparr>nd_pulse := HEARTBEAT_CHECKS\<rparr>"

definition IsConnected :: "Node \<Rightarrow> bool" where
  "IsConnected n \<longleftrightarrow> 0 < nd_fd n \<or> nd_fd n = -2"

subsection \<open>State\<close>

type_synonym split_list = "(u64, (cxx_string, int) std_map) std_map"

record peers =
  nodeMap :: "(cxx_string, Node) std_map"
  peer_bufs :: buffers
  stake_node_list :: split_list
  unstakeNodeList :: split_list
  closed_fds :: "int list"
  currNode :: Node

definition close_fd :: "int \<Rightarrow> peers \<Rightarrow> peers" where
  "close_fd fd s = s\<lparr>closed_fds := closed_fds s @ [fd]\<rparr>"

subsection \<open>Lists of the registration rounds\<close>

fun erase_in_rounds :: "cxx_string \<Rightarrow> split_list \<Rightarrow> split_list option" where
  "erase_in_rounds addr [] = None"
| "erase_in_rounds addr ((t, m) # rounds) =
     (if map_of m addr \<noteq> None then Some ((t, map_erase addr m) # rounds)
      else map_option (\<lambda>r. (t, m) # r) (erase_in_rounds addr rounds))"

definition deleteSplitNodeList :: "cxx_string \<Rightarrow> peers \<Rightarrow> peers" where
  "deleteSplitNodeList addr s =
     (if stake_node_list s = [] \<or> unstakeNodeList s = [] then s
      else case erase_in_rounds addr (stake_node_list s) of
        Some l \<Rightarrow> s\<lparr>stake_node_list := l\<rparr>
      | None \<Rightarrow> (case erase_in_rounds addr (unstakeNodeList s) of
          Some l \<Rightarrow> s\<lparr>unstakeNodeList := l\<rparr> | None \<Rightarrow> s))"

text \<open>\<open>map::insert\<close> of a range keeps the entries that are there.\<close>

definition map_insert_all :: "(cxx_string, 'v) std_map \<Rightarrow> (cxx_string, 'v) std_map \<Rightarrow> (cxx_string, 'v) std_map" where
  "map_insert_all m xs = foldl (\<lambda>m (k, v). if map_of m k = None then map_assign k v m else m) m xs"

definition get_consensus_stake_node_list :: "peers \<Rightarrow> (cxx_string, int) std_map \<Rightarrow> (cxx_string, int) std_map" where
  "get_consensus_stake_node_list s out =
     (if stake_node_list s = [] then out else map_insert_all out (snd (last (stake_node_list s))))"

definition get_consensus_node_list :: "peers \<Rightarrow> (cxx_string, int) std_map \<Rightarrow> (cxx_string, int) std_map" where
  "get_consensus_node_list s out =
     (if stake_node_list s = [] \<or> unstakeNodeList s = [] then out
      else foldl (\<lambda>m (k, v). map_assign k v m) (map_insert_all out (snd (last (stake_node_list s))))
        (snd (last (unstakeNodeList s))))"

text \<open>The oldest round of both lists goes; erasing from an empty map is undefined.\<close>

definition clear_split_node_list_data :: "peers \<Rightarrow> peers run" where
  "clear_split_node_list_data s =
     (if stake_node_list s = [] \<or> unstakeNodeList s = [] then Undefined
      else Ret (s\<lparr>stake_node_list := tl (stake_node_list s), unstakeNodeList := tl (unstakeNodeList s)\<rparr>))"

subsection \<open>PeerNode\<close>

definition Add :: "bool \<Rightarrow> (Node \<Rightarrow> int) \<Rightarrow> Node \<Rightarrow> peers \<Rightarrow> bool \<times> peers" where
  "Add height_ok verify node s =
     (if \<not> height_ok then (False, s)
      else if length (nd_address node) = 0 then (False, s)
      else if verify node \<noteq> 0 then (False, s)
      else if map_of (nodeMap s) (nd_address node) \<noteq> None then (False, s)
      else (True, s\<lparr>nodeMap := map_assign (nd_address node) node (nodeMap s)\<rparr>))"

definition Update_node :: "bool \<Rightarrow> Node \<Rightarrow> peers \<Rightarrow> bool \<times> peers" where
  "Update_node height_ok node s =
     (if \<not> height_ok then (False, s)
      else if map_of (nodeMap s) (nd_address node) = None then (False, s)
      else (True, s\<lparr>nodeMap := map_assign (nd_address node) node (nodeMap s)\<rparr>))"

definition AddOrUpdate :: "Node \<Rightarrow> peers \<Rightarrow> bool \<times> peers" where
  "AddOrUpdate node s = (True, s\<lparr>nodeMap := map_assign (nd_address node) node (nodeMap s)\<rparr>)"

definition delete_buffer :: "u32 \<Rightarrow> u16 \<Rightarrow> peers \<Rightarrow> peers" where
  "delete_buffer ip port s = s\<lparr>peer_bufs := snd (DeleteBuffer_ip (peer_bufs s) ip port)\<rparr>"

definition delete_buffer_fd :: "int \<Rightarrow> peers \<Rightarrow> peers" where
  "delete_buffer_fd fd s = s\<lparr>peer_bufs := snd (NetBuffers.DeleteBuffer_fd (peer_bufs s) fd)\<rparr>"

definition DeleteNode :: "cxx_string \<Rightarrow> peers \<Rightarrow> peers" where
  "DeleteNode addr s =
     (case map_of (nodeMap s) addr of
        None \<Rightarrow> s
      | Some n \<Rightarrow>
          let s1 = (if 0 < nd_fd n then close_fd (nd_fd n) s else s);
              s2 = delete_buffer (nd_publicIp n) (ucast (nd_publicPort n)) s1;
              s3 = deleteSplitNodeList addr s2
          in s3\<lparr>nodeMap := map_erase addr (nodeMap s3)\<rparr>)"

definition CloseFd :: "int \<Rightarrow> peers \<Rightarrow> peers" where
  "CloseFd fd s = (if fd \<le> 0 then s else close_fd fd (delete_buffer_fd fd s))"

text \<open>
  By descriptor: the first node that has it. Address and port are read through the iterator before
  it is compared with \<open>end()\<close>.
\<close>

definition delete_by_fd :: "int \<Rightarrow> peers \<Rightarrow> peers run" where
  "delete_by_fd fd s =
     (case find (\<lambda>e. nd_fd (snd e) = fd) (nodeMap s) of
        None \<Rightarrow> Undefined
      | Some (addr, n) \<Rightarrow>
          let s1 = delete_buffer (nd_publicIp n) (ucast (nd_publicPort n)) s;
              s2 = deleteSplitNodeList addr s1;
              s3 = s2\<lparr>nodeMap := map_erase addr (nodeMap s2)\<rparr>
          in Ret (if 0 < fd then close_fd fd s3 else s3))"

definition locateNodeByFd :: "peers \<Rightarrow> int \<Rightarrow> Node option" where
  "locateNodeByFd s fd = map_option snd (find (\<lambda>e. nd_fd (snd e) = fd) (nodeMap s))"

definition verifyPeerNodeIdRequest :: "peers \<Rightarrow> int \<Rightarrow> cxx_string \<Rightarrow> bool" where
  "verifyPeerNodeIdRequest s fd peerId =
     (case locateNodeByFd s fd of None \<Rightarrow> False | Some node \<Rightarrow> peerId = nd_address node)"

definition FindNode :: "peers \<Rightarrow> cxx_string \<Rightarrow> Node option" where
  "FindNode s addr = map_of (nodeMap s) addr"

datatype NodeType = NODE_ALL | NODE_PUBLIC

definition GetNodelist :: "peers \<Rightarrow> NodeType \<Rightarrow> bool \<Rightarrow> Node list" where
  "GetNodelist s ty mustAlive =
     map snd (filter (\<lambda>e. (ty = NODE_ALL \<or> ty = NODE_PUBLIC) \<and> (mustAlive \<longrightarrow> IsConnected (snd e))) (nodeMap s))"

definition GetNodelist_addrs ::
    "peers \<Rightarrow> (cxx_string, bool) std_map \<Rightarrow> NodeType \<Rightarrow> bool \<Rightarrow> (cxx_string, bool) std_map" where
  "GetNodelist_addrs s nodeAddrs ty mustAlive =
     foldl (\<lambda>m e. map_assign (fst e) False m) nodeAddrs
       (filter (\<lambda>e. (ty = NODE_ALL \<or> ty = NODE_PUBLIC) \<and> (mustAlive \<longrightarrow> IsConnected (snd e))) (nodeMap s))"

definition GetNodelistSize :: "peers \<Rightarrow> nat" where
  "GetNodelistSize s = length (nodeMap s)"

text \<open>\<open>connect ip port\<close> is \<open>InitConnection\<close>: the descriptor and the local port.\<close>

definition ConnectNode :: "(u32 \<Rightarrow> u16 \<Rightarrow> int \<times> u16) \<Rightarrow> Node \<Rightarrow> peers \<Rightarrow> int \<times> Node \<times> peers" where
  "ConnectNode connect node s =
     (if 0 < nd_fd node then (-1, node, s)
      else let node1 = node\<lparr>nd_connKind := dataRateToOutput\<rparr>;
               (cfd, connectPort) = connect (nd_publicIp node) (ucast (nd_listenPort node))
           in if cfd \<le> 0 then (-2, node1, s)
              else (0, node1\<lparr>nd_fd := cfd, nd_publicPort := ucast connectPort\<rparr>,
                    s\<lparr>peer_bufs := snd (AddBuffer_ip (peer_bufs s) (nd_publicIp node) connectPort cfd)\<rparr>))"

definition DisconnectNode_fd :: "u32 \<Rightarrow> u16 \<Rightarrow> int \<Rightarrow> peers \<Rightarrow> int \<times> peers" where
  "DisconnectNode_fd ip port fd s =
     (if fd \<le> 0 then (-1, s) else (0, delete_buffer ip port (close_fd fd s)))"

definition DisconnectNode :: "Node \<Rightarrow> peers \<Rightarrow> int \<times> peers" where
  "DisconnectNode node s = DisconnectNode_fd (nd_publicIp node) (ucast (nd_publicPort node)) (nd_fd node) s"

definition UpdateAddress ::
    "bool \<Rightarrow> (Node \<Rightarrow> int) \<Rightarrow> (cxx_string \<Rightarrow> cxx_string) \<Rightarrow> cxx_string \<Rightarrow> cxx_string \<Rightarrow> peers \<Rightarrow> int \<times> peers" where
  "UpdateAddress height_ok verify ga oldPub newPub s =
     (if length oldPub = 0 \<or> length newPub = 0 then (-1, s)
      else case FindNode s (ga oldPub) of
        None \<Rightarrow> (-2, s)
      | Some node \<Rightarrow>
          let node1 = node\<lparr>nd_address := ga newPub, nd_identity := newPub\<rparr>;
              (ok, s2) = Add height_ok verify node1 (DeleteNode (ga oldPub) s)
          in if \<not> ok then (-3, s2) else (0, s2))"

subsection \<open>The own node\<close>

definition SetSelfId :: "cxx_string \<Rightarrow> peers \<Rightarrow> peers" where
  "SetSelfId addr s = s\<lparr>currNode := (currNode s)\<lparr>nd_address := addr\<rparr>\<rparr>"

definition SetSelfIdentity :: "cxx_string \<Rightarrow> peers \<Rightarrow> peers" where
  "SetSelfIdentity identity s = s\<lparr>currNode := (currNode s)\<lparr>nd_identity := identity\<rparr>\<rparr>"

definition SetSelfName :: "cxx_string \<Rightarrow> peers \<Rightarrow> peers" where
  "SetSelfName name s = s\<lparr>currNode := (currNode s)\<lparr>nd_name := name\<rparr>\<rparr>"

definition set_user_logo :: "cxx_string \<Rightarrow> peers \<Rightarrow> peers" where
  "set_user_logo logo s = s\<lparr>currNode := (currNode s)\<lparr>nd_logo := logo\<rparr>\<rparr>"

definition set_self_ip_public :: "u32 \<Rightarrow> peers \<Rightarrow> peers" where
  "set_self_ip_public publicIp s = s\<lparr>currNode := (currNode s)\<lparr>nd_publicIp := publicIp\<rparr>\<rparr>"

definition set_self_ip_listen :: "u32 \<Rightarrow> peers \<Rightarrow> peers" where
  "set_self_ip_listen listenIp s = s\<lparr>currNode := (currNode s)\<lparr>nd_listenIp := listenIp\<rparr>\<rparr>"

definition setPublicSelfPort :: "u16 \<Rightarrow> peers \<Rightarrow> peers" where
  "setPublicSelfPort portPublic s = s\<lparr>currNode := (currNode s)\<lparr>nd_publicPort := ucast portPublic\<rparr>\<rparr>"

definition configureSelfPortForListening :: "u16 \<Rightarrow> peers \<Rightarrow> peers" where
  "configureSelfPortForListening portListen s = s\<lparr>currNode := (currNode s)\<lparr>nd_listenPort := ucast portListen\<rparr>\<rparr>"

definition SetSelfHeight :: "u32 \<Rightarrow> peers \<Rightarrow> peers" where
  "SetSelfHeight height s = s\<lparr>currNode := (currNode s)\<lparr>nd_height := height\<rparr>\<rparr>"

text \<open>With the callback: its result and height, when there is one.\<close>

definition SetSelfHeight_callback :: "(int \<times> u32) option \<Rightarrow> peers \<Rightarrow> peers" where
  "SetSelfHeight_callback handler s =
     (case handler of Some (ret, height) \<Rightarrow> if 0 \<le> ret then SetSelfHeight height s else s | None \<Rightarrow> s)"

definition SetSelfVer :: "cxx_string \<Rightarrow> peers \<Rightarrow> peers" where
  "SetSelfVer ver s = s\<lparr>currNode := (currNode s)\<lparr>nd_ver := ver\<rparr>\<rparr>"

definition get_self_chain_height_newest :: "(int \<times> u32) option \<Rightarrow> peers \<Rightarrow> u32 \<times> peers" where
  "get_self_chain_height_newest handler s =
     (let s' = SetSelfHeight_callback handler s in (nd_height (currNode s'), s'))"

subsection \<open>Facts\<close>

definition peers_ok :: "peers \<Rightarrow> bool" where
  "peers_ok s \<longleftrightarrow> ordered_map (nodeMap s) \<and> (\<forall>(addr, n)\<in>set (nodeMap s). nd_address n = addr) \<and> buffers_ok (peer_bufs s)"

lemma set_map_assign: "e \<in> set (map_assign k v m) \<Longrightarrow> e = (k, v) \<or> e \<in> set m"
  by (induction k v m rule: map_assign.induct) (auto split: if_splits)

lemma set_map_erase: "set (map_erase k m) \<subseteq> set m"
  by (auto simp: map_erase_def)

lemma port_key_nonzero: "port \<noteq> 0 \<Longrightarrow> dataPackPortAndIp port ip \<noteq> 0"
proof
  assume "port \<noteq> 0" "dataPackPortAndIp port ip = 0"
  moreover from this have "dataPackPortAndIp port ip = dataPackPortAndIp 0 0" by (simp add: dataPackPortAndIp_def)
  ultimately show False by (metis port_ip_round_trip prod.inject)
qed

lemma DeleteBuffer_ok: "buffers_ok m \<Longrightarrow> buffers_ok (snd (DeleteBuffer_ip m ip port))"
  by (simp add: DeleteBuffer_ip_def DeleteBuffer_def buffers_ok_erase)

lemma DeleteBuffer_ip_lookup:
  "dataPackPortAndIp port ip \<noteq> 0 \<Longrightarrow>
   map_of (snd (DeleteBuffer_ip m ip port)) k = (if k = dataPackPortAndIp port ip then None else map_of m k)"
  by (simp add: DeleteBuffer_ip_def DeleteBuffer_def)

lemma delete_fields [simp]:
  "nodeMap (deleteSplitNodeList a s) = nodeMap s"
  "peer_bufs (deleteSplitNodeList a s) = peer_bufs s"
  "closed_fds (deleteSplitNodeList a s) = closed_fds s"
  "nodeMap (delete_buffer ip port s) = nodeMap s"
  "closed_fds (delete_buffer ip port s) = closed_fds s"
  "peer_bufs (delete_buffer ip port s) = snd (DeleteBuffer_ip (peer_bufs s) ip port)"
  "nodeMap (close_fd fd s) = nodeMap s"
  "peer_bufs (close_fd fd s) = peer_bufs s"
  "closed_fds (close_fd fd s) = closed_fds s @ [fd]"
  by (simp_all add: deleteSplitNodeList_def delete_buffer_def close_fd_def split: option.split)

lemma peers_ok_assign: "peers_ok s \<Longrightarrow> peers_ok (s\<lparr>nodeMap := map_assign (nd_address n) n (nodeMap s)\<rparr>)"
  by (auto simp: peers_ok_def dest!: set_map_assign)

text \<open>The node table, buffers and closed descriptors after a node is taken out.\<close>

lemma DeleteNode_result:
  assumes "map_of (nodeMap s) addr = Some n"
  shows "nodeMap (DeleteNode addr s) = map_erase addr (nodeMap s)"
    "peer_bufs (DeleteNode addr s) = snd (DeleteBuffer_ip (peer_bufs s) (nd_publicIp n) (ucast (nd_publicPort n)))"
    "closed_fds (DeleteNode addr s) = closed_fds s @ (if 0 < nd_fd n then [nd_fd n] else [])"
  using assms by (simp_all add: DeleteNode_def Let_def)

lemma delete_by_fd_is_DeleteNode:
  assumes "ordered_map (nodeMap s)" "find (\<lambda>e. nd_fd (snd e) = fd) (nodeMap s) = Some (addr, n)"
  shows "\<exists>s'. delete_by_fd fd s = Ret s' \<and> nodeMap s' = nodeMap (DeleteNode addr s)
    \<and> peer_bufs s' = peer_bufs (DeleteNode addr s) \<and> closed_fds s' = closed_fds (DeleteNode addr s)"
proof -
  have n: "(addr, n) \<in> set (nodeMap s)" "nd_fd n = fd" using assms(2) unfolding find_Some_iff by (metis nth_mem, metis snd_conv)
  then have "map_of (nodeMap s) addr = Some n" using ordered_map_distinct [OF assms(1)] by simp
  note d = DeleteNode_result [OF this]
  show ?thesis unfolding d using n assms(2) by (simp add: delete_by_fd_def Let_def)
qed

end
