(* ===== verification/PeerProps.thy ===== *)
theory PeerProps
  imports PeerTable
begin

text \<open>What the table of connected nodes promises, and where it fails.\<close>

datatype peer_op =
    OpAdd bool "Node \<Rightarrow> int" Node
  | OpUpdate bool Node
  | OpAddOrUpdate Node
  | OpDelete cxx_string
  | OpDisconnect Node
  | OpConnect "u32 \<Rightarrow> u16 \<Rightarrow> int \<times> u16" Node

fun peer_step :: "peer_op \<Rightarrow> peers \<Rightarrow> peers" where
  "peer_step (OpAdd h v n) s = snd (Add h v n s)"
| "peer_step (OpUpdate h n) s = snd (Update_node h n s)"
| "peer_step (OpAddOrUpdate n) s = snd (AddOrUpdate n s)"
| "peer_step (OpDelete a) s = DeleteNode a s"
| "peer_step (OpDisconnect n) s = snd (DisconnectNode n s)"
| "peer_step (OpConnect c n) s = snd (snd (ConnectNode c n s))"

lemma peer_step_ok: "peers_ok s \<Longrightarrow> peers_ok (peer_step op s)"
proof (cases op)
  case (OpDelete a)
  assume ok: "peers_ok s"
  show ?thesis
  proof (cases "map_of (nodeMap s) a")
    case None
    with ok OpDelete show ?thesis by (simp add: DeleteNode_def)
  next
    case (Some n)
    from ok have "\<forall>(addr, m)\<in>set (map_erase a (nodeMap s)). nd_address m = addr"
      using set_map_erase [of a "nodeMap s"] by (auto simp: peers_ok_def)
    with ok show ?thesis
      by (simp add: OpDelete peers_ok_def DeleteNode_result [OF Some] DeleteBuffer_ok)
  qed
next
  case (OpConnect c n)
  assume "peers_ok s"
  moreover have "buffers_ok (peer_bufs s) \<Longrightarrow> buffers_ok (snd (AddBuffer_ip (peer_bufs s) ip port fd))" for ip port fd
    using buf_exec_ok [of "peer_bufs s" "AddB (dataPackPortAndIp port ip) fd"] by (simp add: AddBuffer_ip_def)
  ultimately show ?thesis
    by (simp add: OpConnect ConnectNode_def Let_def peers_ok_def split: prod.split)
next
  case (OpDisconnect n)
  assume "peers_ok s"
  then show ?thesis
    by (simp add: OpDisconnect DisconnectNode_def DisconnectNode_fd_def peers_ok_def DeleteBuffer_ok)
qed (simp_all add: Add_def Update_node_def AddOrUpdate_def peers_ok_assign)

text \<open>
  Through any sequence of operations the table stays keyed by the nodes' own addresses and the buffer
  table well-formed. Deleting a node by address takes out it alone, with the buffer of its public
  port and address, and closes its descriptor once; deleting by descriptor does the same to the
  first node that has it, and is undefined when there is none.
\<close>

theorem node_removal:
  assumes "peers_ok s0" and "s = fold peer_step ops s0"
  shows "peers_ok s
    \<and> (case FindNode s addr of
        None \<Rightarrow> DeleteNode addr s = s
      | Some n \<Rightarrow>
          FindNode (DeleteNode addr s) = (FindNode s)(addr := None)
          \<and> ((ucast (nd_publicPort n) :: u16) \<noteq> 0 \<longrightarrow>
              map_of (peer_bufs (DeleteNode addr s)) =
                (map_of (peer_bufs s))(dataPackPortAndIp (ucast (nd_publicPort n)) (nd_publicIp n) := None))
          \<and> closed_fds (DeleteNode addr s) = closed_fds s @ (if 0 < nd_fd n then [nd_fd n] else []))
    \<and> (case locateNodeByFd s fd of
        None \<Rightarrow> delete_by_fd fd s = Undefined
      | Some n \<Rightarrow> \<exists>s'. delete_by_fd fd s = Ret s' \<and> nodeMap s' = nodeMap (DeleteNode (nd_address n) s)
          \<and> peer_bufs s' = peer_bufs (DeleteNode (nd_address n) s)
          \<and> closed_fds s' = closed_fds (DeleteNode (nd_address n) s))"
proof -
  have "peers_ok s0 \<Longrightarrow> peers_ok (fold peer_step ops s0)" for s0
    by (induction ops arbitrary: s0) (simp_all add: peer_step_ok)
  then have ok: "peers_ok s" using assms by simp
  have "case FindNode s addr of
        None \<Rightarrow> DeleteNode addr s = s
      | Some n \<Rightarrow>
          FindNode (DeleteNode addr s) = (FindNode s)(addr := None)
          \<and> ((ucast (nd_publicPort n) :: u16) \<noteq> 0 \<longrightarrow>
              map_of (peer_bufs (DeleteNode addr s)) =
                (map_of (peer_bufs s))(dataPackPortAndIp (ucast (nd_publicPort n)) (nd_publicIp n) := None))
          \<and> closed_fds (DeleteNode addr s) = closed_fds s @ (if 0 < nd_fd n then [nd_fd n] else [])"
  proof (cases "map_of (nodeMap s) addr")
    case None
    then show ?thesis by (simp add: FindNode_def DeleteNode_def)
  next
    case (Some n)
    then show ?thesis
      by (simp add: FindNode_def [abs_def] DeleteNode_result [OF Some] DeleteBuffer_ip_lookup port_key_nonzero fun_eq_iff)
  qed
  moreover have "case locateNodeByFd s fd of
        None \<Rightarrow> delete_by_fd fd s = Undefined
      | Some n \<Rightarrow> \<exists>s'. delete_by_fd fd s = Ret s' \<and> nodeMap s' = nodeMap (DeleteNode (nd_address n) s)
          \<and> peer_bufs s' = peer_bufs (DeleteNode (nd_address n) s)
          \<and> closed_fds s' = closed_fds (DeleteNode (nd_address n) s)"
  proof (cases "find (\<lambda>e. nd_fd (snd e) = fd) (nodeMap s)")
    case (Some e)
    obtain a n where e: "e = (a, n)" by (cases e)
    have "(a, n) \<in> set (nodeMap s)" using Some e unfolding find_Some_iff by (metis nth_mem)
    then have a: "nd_address n = a" using ok by (auto simp: peers_ok_def)
    from ok have "ordered_map (nodeMap s)" by (simp add: peers_ok_def)
    from delete_by_fd_is_DeleteNode [OF this Some [unfolded e]] Some e a show ?thesis
      by (simp add: locateNodeByFd_def)
  qed (simp add: locateNodeByFd_def delete_by_fd_def)
  ultimately show ?thesis using ok by blast
qed

definition empty_peers :: peers where
  "empty_peers = \<lparr>nodeMap = [], peer_bufs = [], stake_node_list = [], unstakeNodeList = [], closed_fds = [],
     currNode = Node_new []\<rparr>"

definition peer_a :: Node where
  "peer_a = (Node_new ''a'')\<lparr>nd_fd := 7, nd_publicPort := 9000, nd_publicIp := 16777343\<rparr>"

lemma empty_peers_ok: "peers_ok empty_peers"
  by (simp add: peers_ok_def empty_peers_def buffers_ok_def)

theorem node_removal_witness:
  "let s = fold peer_step [OpAdd True (\<lambda>n. 0) peer_a] empty_peers in
   FindNode s ''a'' = Some peer_a \<and> FindNode (DeleteNode ''a'' s) ''a'' = None \<and> closed_fds (DeleteNode ''a'' s) = [7]
   \<and> delete_by_fd 8 s = Undefined"
proof -
  let ?s = "fold peer_step [OpAdd True (\<lambda>n. 0) peer_a] empty_peers"
  have s: "FindNode ?s ''a'' = Some peer_a" "locateNodeByFd ?s 8 = None" "closed_fds ?s = []"
    by (simp_all add: FindNode_def Add_def empty_peers_def peer_a_def Node_new_def locateNodeByFd_def)
  from node_removal [OF empty_peers_ok refl, of "[OpAdd True (\<lambda>n. 0) peer_a]" "''a''" 8]
  have "FindNode (DeleteNode ''a'' ?s) = (FindNode ?s)(''a'' := None)"
    "closed_fds (DeleteNode ''a'' ?s) = closed_fds ?s @ [7]" "delete_by_fd 8 ?s = Undefined"
    unfolding s by (simp_all add: peer_a_def)
  with s show ?thesis by (simp add: Let_def)
qed

text \<open>
  Changing the address of a connected node breaks its connection: the node is deleted, which closes its
  descriptor and drops its buffer, and is then listed again with the same descriptor as connected.
\<close>

theorem update_address_breaks_connection:
  assumes "peers_ok s" and "FindNode s (ga oldPub) = Some n" and "0 < nd_fd n" and "(ucast (nd_publicPort n) :: u16) \<noteq> 0"
    and "oldPub \<noteq> []" "newPub \<noteq> []" "ga newPub \<noteq> []" and "FindNode s (ga newPub) = None" and "\<And>m. verify m = 0"
  shows "\<exists>s' m. UpdateAddress True verify ga oldPub newPub s = (0, s')
    \<and> FindNode s' (ga newPub) = Some m \<and> IsConnected m \<and> nd_fd m = nd_fd n \<and> last (closed_fds s') = nd_fd n
    \<and> map_of (peer_bufs s') (dataPackPortAndIp (ucast (nd_publicPort m)) (nd_publicIp m)) = None"
proof -
  let ?m = "n\<lparr>nd_address := ga newPub, nd_identity := newPub\<rparr>" and ?d = "DeleteNode (ga oldPub) s"
  have f: "map_of (nodeMap s) (ga oldPub) = Some n" using assms(2) by (simp add: FindNode_def)
  note d = DeleteNode_result [OF f]
  have "map_of (nodeMap ?d) (ga newPub) = None" using assms(8) by (simp add: d FindNode_def)
  then have "Add True verify ?m ?d = (True, ?d\<lparr>nodeMap := map_assign (ga newPub) ?m (nodeMap ?d)\<rparr>)"
    using assms(7,9) by (simp add: Add_def)
  then have u: "UpdateAddress True verify ga oldPub newPub s = (0, ?d\<lparr>nodeMap := map_assign (ga newPub) ?m (nodeMap ?d)\<rparr>)"
    using assms(2,5,6) by (simp add: UpdateAddress_def)
  have "dataPackPortAndIp (ucast (nd_publicPort n)) (nd_publicIp n) \<noteq> 0"
    using assms(4) by (rule port_key_nonzero)
  with u assms(3) show ?thesis
    by (simp add: FindNode_def d DeleteBuffer_ip_lookup IsConnected_def)
qed

theorem update_address_breaks_connection_witness:
  "\<exists>s' m. UpdateAddress True (\<lambda>n. 0) (\<lambda>p. p) ''a'' ''b'' (snd (Add True (\<lambda>n. 0) peer_a empty_peers)) = (0, s')
     \<and> FindNode s' ''b'' = Some m \<and> IsConnected m \<and> last (closed_fds s') = 7"
proof -
  let ?s = "snd (Add True (\<lambda>n. 0) peer_a empty_peers)"
  have "peers_ok ?s" using peer_step_ok [OF empty_peers_ok, of "OpAdd True (\<lambda>n. 0) peer_a"] by simp
  moreover have "FindNode ?s ''a'' = Some peer_a" "FindNode ?s ''b'' = None" "0 < nd_fd peer_a" "nd_fd peer_a = 7"
    "(ucast (nd_publicPort peer_a) :: u16) \<noteq> 0"
    by (simp_all add: FindNode_def Add_def empty_peers_def peer_a_def Node_new_def)
  ultimately show ?thesis
    using update_address_breaks_connection [of ?s "\<lambda>p. p" "''a''" peer_a "''b''" "\<lambda>n. 0"] by auto
qed

end
