(* ===== verification/DoubleArith.thy ===== *)
theory DoubleArith
  imports Prelude
begin

text \<open>
  The products of a count and a decimal fraction with which the node compares votes
  (\<open>successNum * 0.9\<close> and the like) are \<open>double\<close> products. A double is its significand times
  a power of two; here every value is an integer number of units of \<open>2 ^ -53\<close>, and
  \<open>round53\<close> rounds to 53 significant bits, ties to even, as the hardware does. The locale
  \<open>double_const\<close> holds what makes a significand the nearest double of a fraction \<open>a / b\<close>;
  its lemmas show that, for fewer than \<open>2 ^ 40\<close> votes, comparing with the rounded product or
  truncating it is comparing with, or truncating, the exact fraction.
\<close>

subsection \<open>Rounding to 53 bits\<close>

function bit_length :: "nat \<Rightarrow> nat" where
  "bit_length n = (if n = 0 then 0 else Suc (bit_length (n div 2)))"
  by auto
termination by (relation "measure id") auto

declare bit_length.simps [simp del]

definition round53 :: "nat \<Rightarrow> nat" where
  "round53 p =
     (let s = bit_length p - 53; q = p div 2 ^ s; r = p mod 2 ^ s in
      if s = 0 then p
      else if 2 * r < 2 ^ s \<or> (2 * r = 2 ^ s \<and> even q) then q * 2 ^ s
      else (q + 1) * 2 ^ s)"

text \<open>The double product of a count and the constant with significand \<open>m53\<close>, in units of \<open>2 ^ -53\<close>.\<close>

definition double_times :: "nat \<Rightarrow> nat \<Rightarrow> nat" where
  "double_times n m53 = round53 (n * m53)"

definition at_least_times :: "nat \<Rightarrow> nat \<Rightarrow> nat \<Rightarrow> bool" where
  "at_least_times k n m53 \<longleftrightarrow> double_times n m53 \<le> k * 2 ^ 53"

definition trunc_times :: "nat \<Rightarrow> nat \<Rightarrow> nat" where
  "trunc_times n m53 = double_times n m53 div 2 ^ 53"

definition d09 :: nat where "d09 = 8106479329266893"
definition d08 :: nat where "d08 = 7205759403792794"
definition d085 :: nat where "d085 = 7656119366529843"
definition d066 :: nat where "d066 = 5944751508129055"
definition d051 :: nat where "d051 = 4593671619917906"
definition d075 :: nat where "d075 = 6755399441055744"
definition d05 :: nat where "d05 = 4503599627370496"

lemma bit_length_bounds: "n < 2 ^ bit_length n \<and> (0 < n \<longrightarrow> 2 ^ bit_length n \<le> 2 * n)"
proof (induction n rule: bit_length.induct)
  case (1 n)
  show ?case
  proof (cases "n = 0")
    case True
    then show ?thesis by (simp add: bit_length.simps)
  next
    case False
    have IH: "n div 2 < 2 ^ bit_length (n div 2)" "0 < n div 2 \<longrightarrow> 2 ^ bit_length (n div 2) \<le> 2 * (n div 2)"
      using 1 [OF False] by auto
    have e: "bit_length n = Suc (bit_length (n div 2))" using False by (simp add: bit_length.simps [of n])
    show ?thesis
    proof (cases "n div 2 = 0")
      case True
      then show ?thesis using e False by (simp add: bit_length.simps [of 0])
    next
      case nz: False
      then show ?thesis using IH e by auto
    qed
  qed
qed

lemma bit_length_le: "n < 2 ^ k \<Longrightarrow> bit_length n \<le> k"
proof (rule ccontr)
  assume n: "n < 2 ^ k" and "\<not> bit_length n \<le> k"
  then have k: "Suc k \<le> bit_length n" by simp
  have "0 < n" using k by (cases n) (auto simp: bit_length.simps [of 0])
  then have "(2::nat) ^ Suc k \<le> 2 * n"
    using bit_length_bounds [of n] power_increasing [OF k, of "2::nat"] by simp
  then show False using n by simp
qed

lemma round53_dvd: "\<exists>k. round53 p = k * 2 ^ (bit_length p - 53)"
  unfolding round53_def Let_def by (metis mult.right_neutral power_0)

lemma round53_near:
  fixes p :: nat
  defines "s \<equiv> bit_length p - 53"
  shows "2 * round53 p \<le> 2 * p + 2 ^ s" "2 * p \<le> 2 * round53 p + 2 ^ s" "s = 0 \<Longrightarrow> round53 p = p"
proof -
  have p: "p = p div 2 ^ s * 2 ^ s + p mod 2 ^ s" by (rule div_mult_mod_eq [symmetric])
  have r: "p mod 2 ^ s < 2 ^ s" by simp
  have v: "round53 p = p \<or> round53 p = p div 2 ^ s * 2 ^ s \<and> 2 * (p mod 2 ^ s) \<le> 2 ^ s
      \<or> round53 p = p div 2 ^ s * 2 ^ s + 2 ^ s \<and> 2 ^ s \<le> 2 * (p mod 2 ^ s)"
    unfolding round53_def Let_def s_def [symmetric] by auto
  show "2 * round53 p \<le> 2 * p + 2 ^ s" "2 * p \<le> 2 * round53 p + 2 ^ s"
    using v p r by linarith+
  show "s = 0 \<Longrightarrow> round53 p = p" by (simp add: round53_def s_def Let_def)
qed

text \<open>The rounding error is less than the count when the count is small.\<close>

lemma double_times_error:
  assumes "m53 < 2 ^ 53" "n < 2 ^ 40"
  shows "2 * double_times n m53 \<le> 2 * (n * m53) + 2 * n" "2 * (n * m53) \<le> 2 * double_times n m53 + 2 * n"
proof -
  let ?p = "n * m53"
  let ?s = "bit_length ?p - 53"
  have s: "2 ^ ?s \<le> 2 * n \<or> round53 ?p = ?p"
  proof (cases "?s = 0")
    case True
    then show ?thesis using round53_near(3) by blast
  next
    case False
    then have "0 < ?p" by (cases "?p = 0") (auto simp: bit_length.simps [of 0])
    then have "2 ^ bit_length ?p \<le> 2 * ?p" using bit_length_bounds by blast
    moreover have "(2::nat) ^ bit_length ?p = 2 ^ 53 * 2 ^ ?s"
      using False by (metis le_add_diff_inverse nat_le_linear power_add diff_is_0_eq)
    moreover have "2 * ?p \<le> 2 ^ 53 * (2 * n)" using assms(1) mult_le_mono2 [of m53 "2 ^ 53" n] by simp
    ultimately have "2 ^ 53 * 2 ^ ?s \<le> (2 ^ 53 * (2 * n) :: nat)" by linarith
    then show ?thesis by simp
  qed
  show "2 * double_times n m53 \<le> 2 * ?p + 2 * n" "2 * ?p \<le> 2 * double_times n m53 + 2 * n"
    using s round53_near(1,2) [of ?p] unfolding double_times_def by auto
qed

text \<open>Two multiples of the last place that are less than one apart are equal.\<close>

lemma multiples_close:
  fixes x y u :: nat
  assumes "u dvd x" "u dvd y" "x < y + u" "y < x + u"
  shows "x = y"
proof -
  obtain i j where x: "x = u * i" and y: "y = u * j" using assms(1,2) by (auto elim!: dvdE)
  have "u * i < u * (j + 1)" "u * j < u * (i + 1)" using assms(3,4) x y by auto
  then have "i = j" by (metis Suc_eq_plus1 less_Suc_eq_le mult_less_cancel1 order_antisym)
  then show ?thesis using x y by simp
qed

lemma rescale:
  fixes n A b X c m :: nat
  assumes "n * A = b * X" "n * (c * (b * m)) < n * (c * A + b * m)"
  shows "b * (c * (n * m)) < b * (c * X + n * m)"
proof -
  have "b * (c * (n * m)) = n * (c * (b * m))" by (simp add: algebra_simps)
  also have "\<dots> < n * (c * A + b * m)" by (rule assms(2))
  also have "\<dots> = c * (n * A) + b * (n * m)" by (simp add: algebra_simps)
  also have "\<dots> = b * (c * X + n * m)" unfolding assms(1) by (simp add: algebra_simps)
  finally show ?thesis .
qed

lemma rescale':
  fixes n A b X c m :: nat
  assumes "n * A = b * X" "n * (c * A) < n * (c * (b * m) + b * m)"
  shows "b * (c * X) < b * (c * (n * m) + n * m)"
proof -
  have "b * (c * X) = c * (n * A)" unfolding assms(1) by (simp add: algebra_simps)
  also have "\<dots> = n * (c * A)" by (simp add: algebra_simps)
  also have "\<dots> < n * (c * (b * m) + b * m)" by (rule assms(2))
  also have "\<dots> = b * (c * (n * m) + n * m)" by (simp add: algebra_simps)
  finally show ?thesis .
qed

lemma scaled_less:
  fixes p x q u :: nat
  shows "2 ^ 54 * p < 2 ^ 54 * x + q \<Longrightarrow> q \<le> 2 ^ 53 * u \<Longrightarrow> 2 * p < 2 * x + u"
  by simp

subsection \<open>The nearest double of a fraction\<close>

locale double_const =
  fixes m53 a b :: nat
  assumes pos: "0 < b" and small: "b \<le> 100"
    and m53_less: "m53 < 2 ^ 53"
    and near: "b * m53 \<le> a * 2 ^ 53 + 50" "a * 2 ^ 53 \<le> b * m53 + 50"
    and close: "2 ^ 54 * (b * m53) < 2 ^ 54 * (a * 2 ^ 53) + b * m53" "2 ^ 54 * (a * 2 ^ 53) < 2 ^ 54 * (b * m53) + b * m53"
begin

lemma less_case:
  assumes "n < 2 ^ 40" "a * n < b * k"
  shows "double_times n m53 < k * 2 ^ 53"
proof -
  have d: "double_times n m53 \<le> n * m53 + n" using double_times_error(1) [OF m53_less assms(1)] by linarith
  have "b * double_times n m53 \<le> b * (n * m53 + n)" by (rule mult_le_mono2 [OF d])
  also have "\<dots> = n * (b * m53) + b * n" by (simp add: algebra_simps)
  also have "\<dots> \<le> n * (a * 2 ^ 53 + 50) + 100 * n" using near(1) small by (intro add_mono mult_le_mono) auto
  also have "\<dots> = (a * n) * 2 ^ 53 + 150 * n" by (simp add: algebra_simps)
  also have "\<dots> < (a * n) * 2 ^ 53 + 2 ^ 53" using assms(1) by simp
  also have "\<dots> = (a * n + 1) * 2 ^ 53" by simp
  also have "\<dots> \<le> (b * k) * 2 ^ 53" using assms(2) by (intro mult_le_mono1) simp
  finally have "b * double_times n m53 < b * (k * 2 ^ 53)" by (simp only: mult.assoc)
  then show ?thesis using pos by simp
qed

lemma greater_case:
  assumes "n < 2 ^ 40" "b * k < a * n"
  shows "k * 2 ^ 53 < double_times n m53"
proof -
  have d: "n * m53 \<le> double_times n m53 + n" using double_times_error(2) [OF m53_less assms(1)] by linarith
  have "(b * k) * 2 ^ 53 + 2 ^ 53 = (b * k + 1) * 2 ^ 53" by simp
  also have "\<dots> \<le> (a * n) * 2 ^ 53" using assms(2) by (intro mult_le_mono1) simp
  also have "\<dots> = n * (a * 2 ^ 53)" by simp
  also have "\<dots> \<le> n * (b * m53 + 50)" by (rule mult_le_mono2 [OF near(2)])
  also have "\<dots> = b * (n * m53) + 50 * n" by (simp add: algebra_simps)
  also have "\<dots> \<le> b * (double_times n m53 + n) + 50 * n" using d by simp
  also have "\<dots> \<le> b * double_times n m53 + 150 * n" using mult_le_mono1 [OF small, of n] by (simp add: algebra_simps)
  finally have "b * (k * 2 ^ 53) + 2 ^ 53 \<le> b * double_times n m53 + 150 * n" by (simp only: mult.assoc)
  moreover have "150 * n < 2 ^ 53" using assms(1) by simp
  ultimately have "b * (k * 2 ^ 53) < b * double_times n m53" by linarith
  then show ?thesis using pos by simp
qed

lemma product_close:
  assumes "b * k = a * n" "0 < n"
  shows "2 ^ 54 * (n * m53) < 2 ^ 54 * (k * 2 ^ 53) + n * m53" "2 ^ 54 * (k * 2 ^ 53) < 2 ^ 54 * (n * m53) + n * m53"
proof -
  have e: "n * (a * 2 ^ 53) = b * (k * 2 ^ 53)" using assms(1) by (simp add: mult.assoc [symmetric] mult.commute)
  have "n * (2 ^ 54 * (b * m53)) < n * (2 ^ 54 * (a * 2 ^ 53) + b * m53)"
    using close(1) assms(2) by (simp only: mult_less_cancel1)
  then have "b * (2 ^ 54 * (n * m53)) < b * (2 ^ 54 * (k * 2 ^ 53) + n * m53)"
    by (rule rescale [OF e])
  then show "2 ^ 54 * (n * m53) < 2 ^ 54 * (k * 2 ^ 53) + n * m53" by (simp only: mult_less_cancel1)
  have "n * (2 ^ 54 * (a * 2 ^ 53)) < n * (2 ^ 54 * (b * m53) + b * m53)"
    using close(2) assms(2) by (simp only: mult_less_cancel1)
  then have "b * (2 ^ 54 * (k * 2 ^ 53)) < b * (2 ^ 54 * (n * m53) + n * m53)"
    by (rule rescale' [OF e])
  then show "2 ^ 54 * (k * 2 ^ 53) < 2 ^ 54 * (n * m53) + n * m53" by (simp only: mult_less_cancel1)
qed

lemma equal_case:
  assumes "n < 2 ^ 40" "b * k = a * n"
  shows "double_times n m53 = k * 2 ^ 53"
proof (cases "n = 0")
  case True
  then show ?thesis using assms(2) pos by (simp add: double_times_def round53_def Let_def)
next
  case False
  let ?p = "n * m53" and ?x = "k * 2 ^ 53"
  let ?s = "bit_length ?p - 53"
  have c: "2 ^ 54 * ?p < 2 ^ 54 * ?x + ?p" "2 ^ 54 * ?x < 2 ^ 54 * ?p + ?p"
    using product_close [OF assms(2)] False by simp_all
  have b: "?p < 2 ^ bit_length ?p" using bit_length_bounds by blast
  show ?thesis
  proof (cases "?s = 0")
    case True
    then have "?p < 2 ^ 53" using b power_increasing [of "bit_length ?p" 53 "2::nat"] by simp
    then have "?p < 2 ^ 54" by simp
    then have "2 ^ 54 * ?p < 2 ^ 54 * ?x + 2 ^ 54" "2 ^ 54 * ?x < 2 ^ 54 * ?p + 2 ^ 54" using c by linarith+
    then have "2 ^ 54 * ?p < 2 ^ 54 * (?x + 1)" "2 ^ 54 * ?x < 2 ^ 54 * (?p + 1)"
      by (simp_all only: distrib_left mult_1_right)
    then have "?p < ?x + 1" "?x < ?p + 1" by (simp_all only: mult_less_cancel1)
    then have "?p = ?x" by linarith
    then show ?thesis using True round53_near(3) by (simp add: double_times_def)
  next
    case s: False
    have "(2::nat) ^ bit_length ?p = 2 ^ 53 * 2 ^ ?s"
      using s by (metis le_add_diff_inverse nat_le_linear power_add diff_is_0_eq)
    then have q: "?p \<le> 2 ^ 53 * 2 ^ ?s" using b by linarith
    have d: "2 * ?p < 2 * ?x + 2 ^ ?s" "2 * ?x < 2 * ?p + 2 ^ ?s" by (rule scaled_less [OF c(1) q] scaled_less [OF c(2) q])+
    have "?p < 2 ^ 40 * 2 ^ 53" using assms(1) m53_less by (intro mult_strict_mono) auto
    then have "?p < 2 ^ 93" by (simp only: power_add [symmetric]) simp
    then have "bit_length ?p \<le> 93" by (rule bit_length_le)
    then have "2 ^ ?s dvd (2 ^ 53 :: nat)" by (intro le_imp_power_dvd) simp
    then have x: "2 ^ ?s dvd ?x" by (rule dvd_mult)
    have "round53 ?p = ?x"
    proof (rule multiples_close)
      show "2 ^ ?s dvd round53 ?p" using round53_dvd [of ?p] by auto
      show "round53 ?p < ?x + 2 ^ ?s" "?x < round53 ?p + 2 ^ ?s" using round53_near(1,2) [of ?p] d by linarith+
    qed (rule x)
    then show ?thesis by (simp add: double_times_def)
  qed
qed

lemma at_least_iff:
  assumes "n < 2 ^ 40"
  shows "at_least_times k n m53 \<longleftrightarrow> a * n \<le> b * k"
  unfolding at_least_times_def
  using less_case [OF assms, of k] greater_case [OF assms, of k] equal_case [OF assms, of k]
  by (metis leD le_less_linear nat_less_le order_le_less)

lemma trunc_eq:
  assumes "n < 2 ^ 40"
  shows "trunc_times n m53 = a * n div b"
proof -
  have "k * 2 ^ 53 \<le> double_times n m53 \<longleftrightarrow> b * k \<le> a * n" for k
    using less_case [OF assms, of k] greater_case [OF assms, of k] equal_case [OF assms, of k]
    by (metis leD le_less_linear nat_less_le order_le_less)
  then have "k \<le> trunc_times n m53 \<longleftrightarrow> k \<le> a * n div b" for k
    using pos by (simp add: trunc_times_def less_eq_div_iff_mult_less_eq mult.commute)
  then show ?thesis by (meson le_antisym order_refl)
qed

end

interpretation nine_tenths: double_const d09 9 10 by unfold_locales (simp_all add: d09_def)
interpretation four_fifths: double_const d08 4 5 by unfold_locales (simp_all add: d08_def)
interpretation p85: double_const d085 17 20 by unfold_locales (simp_all add: d085_def)
interpretation p66: double_const d066 33 50 by unfold_locales (simp_all add: d066_def)
interpretation p51: double_const d051 51 100 by unfold_locales (simp_all add: d051_def)
interpretation three_quarters: double_const d075 3 4 by unfold_locales (simp_all add: d075_def)
interpretation half: double_const d05 1 2 by unfold_locales (simp_all add: d05_def)

end
