(* ===== verification/Votes.thy ===== *)
theory Votes
  imports Conflict DoubleArith
begin

text \<open>
  Counting the answers of other nodes, as \<open>ca/check_blocks.cpp\<close>, \<open>ca/sync_block.cpp\<close> and
  \<open>ca/block_helper.cpp\<close> do it: one counter per hash in a \<open>std::map\<close>, the entry with the most
  votes by \<open>std::max_element\<close>, \<open>std::set_difference\<close> of sorted ranges. A \<open>std::set\<close> is a set, and
  \<open>sorted_list_of_set\<close> its iteration order. \<open>wait_round\<close> is what one round of questions met:
  whether the wait could be created, which nodes could be registered, whether enough answers came
  in time, and the answers (theory \<open>NetQueue\<close> models how they are collected).
\<close>

record wait_round =
  wr_created :: bool
  wr_added :: "cxx_string \<Rightarrow> bool"
  wr_complete :: bool
  wr_answers :: "cxx_string list"

subsection \<open>Counters\<close>

definition vote_for :: "'k::linorder \<Rightarrow> ('k, nat) std_map \<Rightarrow> ('k, nat) std_map" where
  "vote_for h m = (case map_of m h of None \<Rightarrow> map_assign h 1 m | Some c \<Rightarrow> map_assign h (c + 1) m)"

definition tally :: "'k::linorder list \<Rightarrow> ('k, nat) std_map" where
  "tally hs = foldl (\<lambda>m h. vote_for h m) [] hs"

lemma ordered_vote_for [simp]: "ordered_map m \<Longrightarrow> ordered_map (vote_for h m)"
  by (simp add: vote_for_def split: option.splits)

lemma map_of_vote_for:
  "map_of (vote_for h m) = (map_of m)(h \<mapsto> (case map_of m h of None \<Rightarrow> 1 | Some c \<Rightarrow> c + 1))"
  by (simp add: vote_for_def split: option.splits)

lemma tally_fold:
  "ordered_map m \<Longrightarrow> ordered_map (foldl (\<lambda>m h. vote_for h m) m hs) \<and>
   map_of (foldl (\<lambda>m h. vote_for h m) m hs) h =
     (if h \<in> set hs then Some ((case map_of m h of None \<Rightarrow> 0 | Some c \<Rightarrow> c) + count_list hs h) else map_of m h)"
  by (induction hs arbitrary: m) (auto simp: map_of_vote_for split: option.splits)

lemma ordered_tally [simp]: "ordered_map (tally hs)"
  using tally_fold [of "[]" hs] by (simp add: tally_def)

lemma map_of_tally: "map_of (tally hs) h = (if h \<in> set hs then Some (count_list hs h) else None)"
  using tally_fold [of "[]" hs h] by (simp add: tally_def)

lemma tally_entry: "(h, c) \<in> set (tally hs) \<longleftrightarrow> h \<in> set hs \<and> c = count_list hs h"
proof -
  have "distinct (map fst (tally hs))" by (rule ordered_map_distinct) simp
  then have "(h, c) \<in> set (tally hs) \<longleftrightarrow> map_of (tally hs) h = Some c" by simp
  then show ?thesis by (auto simp: map_of_tally)
qed

lemma tally_Nil_iff [simp]: "tally hs = [] \<longleftrightarrow> hs = []"
proof
  assume "tally hs = []"
  then have "map_of (tally hs) h = None" for h by simp
  then have "\<forall>h. h \<notin> set hs" by (metis map_of_tally option.distinct(1))
  then show "hs = []" by (cases hs) auto
qed (simp add: tally_def)

lemma sum_tally: "sum_list (map snd (tally hs)) = length hs"
proof -
  have d: "distinct (map fst (tally hs))" by (rule ordered_map_distinct) simp
  have s: "set (map fst (tally hs)) = set hs" using tally_entry [of _ _ hs] by force
  have "map snd (tally hs) = map (count_list hs) (map fst (tally hs))"
    using tally_entry [of _ _ hs] by auto
  then have "sum_list (map snd (tally hs)) = sum (count_list hs) (set hs)"
    using sum_list_distinct_conv_sum_set [OF d, of "count_list hs"] s by metis
  then show ?thesis by (simp add: sum_count_set)
qed

subsection \<open>Standard algorithms\<close>

text \<open>\<open>std::max_element\<close> with a comparison of the counters: the first of the greatest entries.\<close>

definition max_element :: "('k \<times> nat) list \<Rightarrow> ('k \<times> nat) option" where
  "max_element xs =
     (case xs of [] \<Rightarrow> None | x # ys \<Rightarrow> Some (foldl (\<lambda>best y. if snd best < snd y then y else best) x ys))"

lemma max_fold:
  "let r = foldl (\<lambda>best y. if snd best < snd y then y else best) x ys
   in r \<in> set (x # ys) \<and> (\<forall>y\<in>set (x # ys). snd y \<le> (snd r :: nat))"
proof (induction ys arbitrary: x)
  case (Cons y ys)
  show ?case using Cons [of x] Cons [of y] by (auto simp: Let_def split: if_splits)
qed (simp add: Let_def)

lemma max_element_Some:
  "max_element xs = Some r \<Longrightarrow> r \<in> set xs \<and> (\<forall>y\<in>set xs. snd y \<le> snd r)"
  using max_fold [of "hd xs" "tl xs"] by (cases xs) (auto simp: max_element_def Let_def)

lemma max_element_None [simp]: "max_element xs = None \<longleftrightarrow> xs = []"
  by (cases xs) (auto simp: max_element_def)

fun set_difference :: "'a::linorder list \<Rightarrow> 'a list \<Rightarrow> 'a list" where
  "set_difference [] ys = []"
| "set_difference (x # xs) [] = x # xs"
| "set_difference (x # xs) (y # ys) =
     (if x < y then x # set_difference xs (y # ys)
      else if y < x then set_difference (x # xs) ys
      else set_difference xs ys)"

lemma set_difference_subset: "set (set_difference xs ys) \<subseteq> set xs"
  by (induction xs ys rule: set_difference.induct) auto

lemma set_difference_sorted:
  assumes "sorted xs" "sorted ys" "distinct xs"
  shows "set (set_difference xs ys) = set xs - set ys"
  using assms
proof (induction xs ys rule: set_difference.induct)
  case (3 x xs y ys)
  then show ?case by (auto dest: leD)
qed auto

end
