(* ===== verification/CheckBlocks.thy ===== *)
theory CheckBlocks
  imports Votes DbWriter PeerTable
begin

text \<open>
  The periodic check that this node's blocks agree with the network (\<open>ca/check_blocks.cpp\<close>):
  every 1000 heights the sum hash is compared with that of the other nodes, and recorded in the
  database once a large majority of the answers has the same. Arguments: the parsers of the
  answers, the sum hash of 1000 heights (\<open>ca_algorithm\<close>), the choice of the nodes to ask (theory
  \<open>SyncNodes\<close>), and per round what the network answered.
\<close>

subsection \<open>State and messages\<close>

record check_blocks =
  topBlockHeight :: u64
  tempTopDate :: "u64 \<times> cxx_string"
  isRunning :: bool

record GetCheckSumHashReq =
  csq_height :: u64
  csq_msg_id :: cxx_string
  csq_self_node_id :: cxx_string

record GetCheckSumHashAck =
  csa_height :: u64
  csa_hash :: cxx_string
  csa_msg_id :: cxx_string
  csa_success :: bool
  csa_self_node_id :: cxx_string

record SyncFromZeroSumHash =
  zsh_height :: u64
  zsh_hash :: cxx_string

record SyncFromZeroGetSumHashAck =
  zsa_code :: int
  zsa_self_node_id :: cxx_string
  zsa_msg_id :: cxx_string
  zsa_sum_hashes :: "SyncFromZeroSumHash list"

definition setTemporaryTopData :: "u64 \<Rightarrow> cxx_string \<Rightarrow> check_blocks \<Rightarrow> check_blocks" where
  "setTemporaryTopData height hash s = s\<lparr>tempTopDate := (height, hash)\<rparr>"

definition fetchTemporaryTopData :: "check_blocks \<Rightarrow> u64 \<times> cxx_string" where
  "fetchTemporaryTopData s = tempTopDate s"

definition CheckBlocks_Init :: "reader \<Rightarrow> check_blocks \<Rightarrow> check_blocks run" where
  "CheckBlocks_Init rd s =
     bind_run (getTopThousandSumHash rd (topBlockHeight s)) (\<lambda>(ret, h).
       Ret (setTemporaryTopData 0 [] (s\<lparr>topBlockHeight := if ret \<noteq> DB_SUCCESS then 0 else h\<rparr>)))"

definition CheckBlocks_new :: "reader \<Rightarrow> check_blocks \<Rightarrow> check_blocks run" where
  "CheckBlocks_new rd uninitialised =
     bind_run (CheckBlocks_Init rd uninitialised) (\<lambda>s. Ret (s\<lparr>isRunning := False\<rparr>))"

text \<open>The addresses of the connected nodes with a stake and a valid bonus address.\<close>

definition fetchPledgeAddress :: "(cxx_string \<Rightarrow> int) \<Rightarrow> (cxx_string \<Rightarrow> int) \<Rightarrow> Node list \<Rightarrow> cxx_string list" where
  "fetchPledgeAddress verify_bonus pledge_time nodelist =
     map nd_address (filter (\<lambda>node. 0 < pledge_time (nd_address node) \<and> verify_bonus (nd_address node) = 0) nodelist)"

subsection \<open>Questions and answers\<close>

definition checksumHashRequest :: "cxx_string \<Rightarrow> cxx_string \<Rightarrow> u64 \<Rightarrow> GetCheckSumHashReq" where
  "checksumHashRequest self_id msgId height =
     \<lparr>csq_height = height, csq_msg_id = msgId, csq_self_node_id = self_id\<rparr>"

definition sendChecksumHashAcknowledgment ::
    "reader \<Rightarrow> check_blocks \<Rightarrow> cxx_string \<Rightarrow> cxx_string \<Rightarrow> u64 \<Rightarrow> GetCheckSumHashAck run" where
  "sendChecksumHashAcknowledgment rd s self_id msgId height =
     bind_run (getCheckBlockHashsByBlockHeight rd height []) (\<lambda>(ret, hash).
       let ack = \<lparr>csa_height = height, csa_hash = [], csa_msg_id = msgId, csa_success = False, csa_self_node_id = self_id\<rparr>;
           (tempHeight, tmpHash) = fetchTemporaryTopData s in
       if ret \<noteq> DB_SUCCESS \<and> tempHeight = height
       then Ret (ack\<lparr>csa_success := True, csa_hash := tmpHash\<rparr>)
       else Ret (ack\<lparr>csa_success := (ret = DB_SUCCESS), csa_hash := hash\<rparr>))"

text \<open>A handler refuses a message whose sender is not the node behind the connection.\<close>

definition handleGetCheckSumHashRequest ::
    "peers \<Rightarrow> int \<Rightarrow> reader \<Rightarrow> check_blocks \<Rightarrow> cxx_string \<Rightarrow> GetCheckSumHashReq \<Rightarrow> (int \<times> GetCheckSumHashAck option) run" where
  "handleGetCheckSumHashRequest p fd rd s self_id msg =
     (if \<not> verifyPeerNodeIdRequest p fd (csq_self_node_id msg) then Ret (-1, None)
      else bind_run (sendChecksumHashAcknowledgment rd s self_id (csq_msg_id msg) (csq_height msg))
             (\<lambda>ack. Ret (0, Some ack)))"

subsection \<open>One round of the check\<close>

text \<open>The loop over the answers: the hashes it counts; their number is \<open>successNum\<close>.\<close>

definition check_vote :: "(cxx_string \<Rightarrow> GetCheckSumHashAck option) \<Rightarrow> cxx_string \<Rightarrow> cxx_string list" where
  "check_vote parse ret_data =
     (case parse ret_data of
        None \<Rightarrow> []
      | Some ack \<Rightarrow> if csa_success ack = False then [] else if csa_hash ack = [] then [] else [csa_hash ack])"

definition check_votes :: "(cxx_string \<Rightarrow> GetCheckSumHashAck option) \<Rightarrow> cxx_string list \<Rightarrow> cxx_string list" where
  "check_votes parse retDatas = concat (map (check_vote parse) retDatas)"

definition commit_check ::
    "'t rocks \<Rightarrow> 't dbrw \<Rightarrow> u64 \<Rightarrow> cxx_string \<Rightarrow> (int \<times> 't dbrw) run" where
  "commit_check ops dbWriter tempHeight tmpHash =
     bind_run (setCheckBlockHashsByBlockHeight ops dbWriter tempHeight tmpHash) (\<lambda>(ret, d1).
       if ret \<noteq> DB_SUCCESS then Ret (-9, d1)
       else bind_run (getTopThousandSumHash (DBReadWriter_readData ops d1) 0) (\<lambda>(ret, h).
         let lastHeight = (if ret \<noteq> DB_SUCCESS then 0 else h) in
         if lastHeight \<noteq> tempHeight - 1000 then Ret (-10, d1)
         else bind_run (setTopThousandSumHash ops d1 tempHeight) (\<lambda>(ret, d2).
           if ret \<noteq> DB_SUCCESS then Ret (-11, d2)
           else case DBReadWriter_transactionCommit ops d2 of
                  (ret, d3) \<Rightarrow> Ret (if ret \<noteq> DB_SUCCESS then -12 else 0, d3))))"

record 't check_round =
  cr_sum1000 :: "u64 \<Rightarrow> cxx_string"
  cr_nodes :: "u64 \<Rightarrow> int \<times> cxx_string list"
  cr_wait :: wait_round
  cr_writer :: "'t dbrw"

text \<open>A round returns from \<open>_ToCheck\<close>, or starts a synchronization or nothing and goes on.\<close>

datatype 't check_step = CheckReturn int "'t dbrw option" | CheckAgain bool

definition check_decision ::
    "'t rocks \<Rightarrow> check_blocks \<Rightarrow> 't check_round \<Rightarrow> cxx_string list \<Rightarrow> nat \<Rightarrow> 't check_step run" where
  "check_decision ops s r votes answers =
     (let successNum = length votes in
      if \<not> at_least_times successNum answers d08 then Ret (CheckReturn (-8) None)
      else case max_element (tally votes) of
        None \<Rightarrow> Ret (CheckAgain False)
      | Some (hash, hits) \<Rightarrow>
          if at_least_times hits successNum d09 then
            let (tempHeight, tmpHash) = fetchTemporaryTopData s in
            if hash = tmpHash then
              bind_run (commit_check ops (cr_writer r) tempHeight tmpHash) (\<lambda>(code, d). Ret (CheckReturn code (Some d)))
            else Ret (CheckAgain True)
          else Ret (CheckAgain True))"

definition ToCheck_round ::
    "'t rocks \<Rightarrow> (cxx_string \<Rightarrow> GetCheckSumHashAck option) \<Rightarrow> check_blocks \<Rightarrow> 't check_round \<Rightarrow>
     (check_blocks \<times> 't check_step) run" where
  "ToCheck_round ops parse s r =
     (let tempHash = cr_sum1000 r (topBlockHeight s + 1000) in
      if tempHash = [] then Ret (s, CheckReturn (-2) None)
      else let s1 = setTemporaryTopData (topBlockHeight s + 1000) tempHash s;
               (ret, node_ids_to_send) = cr_nodes r (topBlockHeight s + 1000);
               sendNum = length node_ids_to_send; w = cr_wait r in
        if ret \<noteq> 0 then Ret (s1, CheckReturn (-4) None)
        else if \<not> wr_created w then Ret (s1, CheckReturn (-5) None)
        else if \<not> list_all (wr_added w) node_ids_to_send then Ret (s1, CheckReturn (-6) None)
        else let retDatas = wr_answers w in
          if \<not> wr_complete w \<and> (retDatas = [] \<or> length retDatas < sendNum div 2) then Ret (s1, CheckReturn (-7) None)
          else bind_run (check_decision ops s1 r (check_votes parse retDatas) (length retDatas)) (\<lambda>step. Ret (s1, step)))"

text \<open>
  The endless loop over the rounds; no result when the given rounds do not end it. The whole
  check first looks at the heights, and always leaves \<open>isRunning\<close> cleared.
\<close>

fun check_rounds ::
    "'t rocks \<Rightarrow> (cxx_string \<Rightarrow> GetCheckSumHashAck option) \<Rightarrow> check_blocks \<Rightarrow> 't check_round list \<Rightarrow>
     (check_blocks \<times> (int \<times> 't dbrw option) option) run" where
  "check_rounds ops parse s [] = Ret (s, None)"
| "check_rounds ops parse s (r # rs) =
     bind_run (ToCheck_round ops parse s r) (\<lambda>(s1, step).
       case step of CheckReturn code d \<Rightarrow> Ret (s1, Some (code, d)) | CheckAgain _ \<Rightarrow> check_rounds ops parse s1 rs)"

definition ToCheck ::
    "'t rocks \<Rightarrow> (cxx_string \<Rightarrow> GetCheckSumHashAck option) \<Rightarrow> reader \<Rightarrow> reader \<Rightarrow> check_blocks \<Rightarrow> 't check_round list \<Rightarrow>
     (check_blocks \<times> (int \<times> 't dbrw option) option) run" where
  "ToCheck ops parse rd rdw s rounds =
     (if isRunning s then Ret (s, Some (0, None))
      else let finish = (\<lambda>(s, r). (case r of None \<Rightarrow> s | Some _ \<Rightarrow> s\<lparr>isRunning := False\<rparr>, r)) in
        bind_run (CheckBlocks_Init rd (s\<lparr>isRunning := True\<rparr>)) (\<lambda>s1.
        bind_run (getBlockTop rdw 0) (\<lambda>(ret, nodeSelfHeight).
          if ret \<noteq> DB_SUCCESS then Ret (finish (s1, Some (-1, None)))
          else if topBlockHeight s1 = 0 \<and> nodeSelfHeight < 1100 then Ret (finish (s1, Some (0, None)))
          else if nodeSelfHeight < topBlockHeight s1 + 1100 then Ret (finish (s1, Some (0, None)))
          else bind_run (check_rounds ops parse s1 rounds) (\<lambda>res. Ret (finish res)))))"

subsection \<open>Which heights to synchronize again\<close>

definition vote_height :: "(u64, (cxx_string, nat) std_map) std_map \<Rightarrow> SyncFromZeroSumHash \<Rightarrow> (u64, (cxx_string, nat) std_map) std_map" where
  "vote_height m e =
     (case map_of m (zsh_height e) of
        None \<Rightarrow> map_assign (zsh_height e) [(zsh_hash e, 1)] m
      | Some content \<Rightarrow> map_assign (zsh_height e) (vote_for (zsh_hash e) content) m)"

definition vote_answer ::
    "(cxx_string \<Rightarrow> SyncFromZeroGetSumHashAck option) \<Rightarrow> (u64, (cxx_string, nat) std_map) std_map \<times> nat \<Rightarrow> cxx_string \<Rightarrow>
     (u64, (cxx_string, nat) std_map) std_map \<times> nat" where
  "vote_answer parse st ret_data =
     (case parse ret_data of
        None \<Rightarrow> st
      | Some ack \<Rightarrow>
          if zsa_code ack = 0 then (fst st, snd st + 1)
          else (foldl vote_height (fst st) (zsa_sum_hashes ack), snd st + 1))"

definition judge_height_sum ::
    "reader \<Rightarrow> nat \<Rightarrow> u64 list \<Rightarrow> u64 \<times> (cxx_string, nat) std_map \<Rightarrow> (unit + u64 list) run" where
  "judge_height_sum rd successCount out e =
     bind_run (getSumHashByHeight rd (fst e) []) (\<lambda>(ret, shelfSumHash).
       if ret \<noteq> DB_SUCCESS then Ret (Inr (out @ [fst e]))
       else case max_element (snd e) of
         Some (hash, hits) \<Rightarrow>
           if at_least_times hits successCount d085 \<and> shelfSumHash = hash then Ret (Inr out)
           else Ret (Inr (out @ [fst e]))
       | None \<Rightarrow> Ret (Inr (out @ [fst e])))"

definition calculateByzantineSumHash ::
    "(cxx_string \<Rightarrow> SyncFromZeroGetSumHashAck option) \<Rightarrow> reader \<Rightarrow> wait_round \<Rightarrow> cxx_string list \<Rightarrow> (int \<times> u64 list) run" where
  "calculateByzantineSumHash parse rd w node_ids_to_send =
     (let sendNum = length node_ids_to_send; retDatas = wr_answers w in
      if \<not> wr_created w then Ret (-1, [])
      else if \<not> list_all (wr_added w) node_ids_to_send then Ret (-2, [])
      else if \<not> wr_complete w \<and> (retDatas = [] \<or> length retDatas < sendNum div 2) then Ret (-3, [])
      else let (hashDataTotal, successCount) = foldl (vote_answer parse) ([], 0) retDatas in
        if successCount < trunc_times sendNum d08 then Ret (-4, [])
        else bind_run (loop_run (judge_height_sum rd successCount) [] hashDataTotal)
               (\<lambda>r. Ret (0, case r of Inl _ \<Rightarrow> [] | Inr out \<Rightarrow> out)))"

end
