(* ===== verification/CheckProps.thy ===== *)
theory CheckProps
  imports CheckBlocks StoreFacts
begin

text \<open>
  Properties of the periodic check of the sum hashes: what a committed hash implies about the
  answers, and what is committed.
\<close>

lemma count_votes_le: "count_list (check_votes parse rs) h \<le> length (check_votes parse rs)"
  by (rule count_le_length)

lemma length_check_votes: "length (check_votes parse rs) \<le> length rs"
proof (induction rs)
  case (Cons r rs)
  have "length (check_vote parse r) \<le> 1" by (auto simp: check_vote_def split: option.splits)
  then show ?case using Cons by (simp add: check_votes_def)
qed (simp add: check_votes_def)

text \<open>What a round that returns 0 has gone through.\<close>

lemma round_zero:
  assumes "ToCheck_round ops parse s r = Ret (s', CheckReturn 0 d)"
  defines "h \<equiv> topBlockHeight s + 1000" and "votes \<equiv> check_votes parse (wr_answers (cr_wait r))"
  shows "cr_sum1000 r h \<noteq> []" "fst (cr_nodes r h) = 0" "s' = setTemporaryTopData h (cr_sum1000 r h) s"
    "wr_complete (cr_wait r) \<or> length (snd (cr_nodes r h)) div 2 \<le> length (wr_answers (cr_wait r))"
    "at_least_times (length votes) (length (wr_answers (cr_wait r))) d08"
    "\<exists>hits d'. max_element (tally votes) = Some (cr_sum1000 r h, hits) \<and> at_least_times hits (length votes) d09 \<and>
       commit_check ops (cr_writer r) h (cr_sum1000 r h) = Ret (0, d') \<and> d = Some d'"
  using assms(1) unfolding h_def votes_def
  by (auto simp: ToCheck_round_def Let_def check_decision_def run_simps setTemporaryTopData_def fetchTemporaryTopData_def
      split: if_splits prod.splits option.splits)

lemma commit_check_zero:
  assumes "commit_check ops d h hash = Ret (0, d')"
  shows "\<exists>d1 d2. setCheckBlockHashsByBlockHeight ops d h hash = Ret (DB_SUCCESS, d1) \<and>
     setTopThousandSumHash ops d1 h = Ret (DB_SUCCESS, d2) \<and> DBReadWriter_transactionCommit ops d2 = (DB_SUCCESS, d') \<and>
     ((\<exists>ret v. getTopThousandSumHash (DBReadWriter_readData ops d1) 0 = Ret (ret, v) \<and>
        (if ret = DB_SUCCESS then v else 0) = h - 1000))"
  using assms
  by (auto simp: commit_check_def Let_def run_simps split: if_splits prod.splits)

text \<open>
  C10. A round of the check commits a hash only when it is this node's own, at least nine tenths of the
  counted answers have it, at least four fifths of all answers were counted (so that at least 18 of 25 answers
  have it), half of the asked nodes answered or the wait was complete, and the recorded top was one thousand
  heights lower; it then commits exactly the hash and the new top.
\<close>

theorem check_commits_majority:
  assumes "rocksdb ops view committed"
    and "ToCheck_round ops parse s r = Ret (s', CheckReturn 0 d)"
    and "length (wr_answers (cr_wait r)) < 2 ^ 40"
  shows "let h = topBlockHeight s + 1000; own = cr_sum1000 r h; answers = wr_answers (cr_wait r);
             votes = check_votes parse answers in
     own \<noteq> [] \<and> 9 * length votes \<le> 10 * count_list votes own \<and> 4 * length answers \<le> 5 * length votes
   \<and> 18 * length answers \<le> 25 * count_list votes own
   \<and> (wr_complete (cr_wait r) \<or> length (snd (cr_nodes r h)) div 2 \<le> length answers)
   \<and> (\<exists>d'. d = Some d' \<and> committed (rk (dbReaderWriter d')) =
        (view (rk (dbReaderWriter (cr_writer r))))(kBlockHeight_2000_Sum_Hash @ to_string h \<mapsto> own,
                                                  K_TOP_THOUSAND_SUM_HASH_KEY \<mapsto> to_string h))
   \<and> (topBlockHeight s \<noteq> 0 \<longrightarrow>
        (\<exists>v. view (rk (dbReaderWriter (cr_writer r))) K_TOP_THOUSAND_SUM_HASH_KEY = Some v \<and> stoull v = Ret (topBlockHeight s)))"
proof -
  note db = rocksdb.db_writeData_effect(1) [OF assms(1)] rocksdb.db_commit_effect(2) [OF assms(1)]
  let ?h = "topBlockHeight s + 1000"
  let ?own = "cr_sum1000 r ?h" and ?answers = "wr_answers (cr_wait r)"
  let ?votes = "check_votes parse ?answers"
  note z = round_zero [OF assms(2)]
  obtain hits d' where m: "max_element (tally ?votes) = Some (?own, hits)" and n: "at_least_times hits (length ?votes) d09"
    and c: "commit_check ops (cr_writer r) ?h ?own = Ret (0, d')" and d: "d = Some d'" using z(6) by auto
  have hits: "hits = count_list ?votes ?own" using max_element_Some [OF m] tally_entry [of ?own hits ?votes] by blast
  have v: "length ?votes < 2 ^ 40" using length_check_votes [of parse ?answers] assms(3) by linarith
  have nine: "9 * length ?votes \<le> 10 * count_list ?votes ?own"
    using n hits nine_tenths.at_least_iff [OF v] by simp
  have four: "4 * length ?answers \<le> 5 * length ?votes"
    using z(5) four_fifths.at_least_iff [OF assms(3)] by simp
  obtain d1 d2 where w1: "setCheckBlockHashsByBlockHeight ops (cr_writer r) ?h ?own = Ret (DB_SUCCESS, d1)"
    and w2: "setTopThousandSumHash ops d1 ?h = Ret (DB_SUCCESS, d2)"
    and w3: "DBReadWriter_transactionCommit ops d2 = (DB_SUCCESS, d')"
    and top0: "\<exists>ret v. getTopThousandSumHash (DBReadWriter_readData ops d1) 0 = Ret (ret, v) \<and>
        (if ret = DB_SUCCESS then v else 0) = topBlockHeight s" using commit_check_zero [OF c] by auto
  have "view (rk (dbReaderWriter d2)) = (view (rk (dbReaderWriter (cr_writer r))))(kBlockHeight_2000_Sum_Hash @ to_string ?h \<mapsto> ?own, K_TOP_THOUSAND_SUM_HASH_KEY \<mapsto> to_string ?h)"
    using db(1) w1 w2 by (simp add: setCheckBlockHashsByBlockHeight_def setTopThousandSumHash_def)
  then have "committed (rk (dbReaderWriter d')) =
      (view (rk (dbReaderWriter (cr_writer r))))(kBlockHeight_2000_Sum_Hash @ to_string ?h \<mapsto> ?own, K_TOP_THOUSAND_SUM_HASH_KEY \<mapsto> to_string ?h)"
    using db(2) [OF w3] by simp
  moreover have "\<exists>v. view (rk (dbReaderWriter (cr_writer r))) K_TOP_THOUSAND_SUM_HASH_KEY = Some v \<and> stoull v = Ret (topBlockHeight s)"
    if nz: "topBlockHeight s \<noteq> 0"
  proof -
    have k: "kBlockHeight_2000_Sum_Hash @ to_string ?h \<noteq> K_TOP_THOUSAND_SUM_HASH_KEY"
      by (simp add: kBlockHeight_2000_Sum_Hash_def K_TOP_THOUSAND_SUM_HASH_KEY_def)
    have v1: "view (rk (dbReaderWriter d1)) K_TOP_THOUSAND_SUM_HASH_KEY = view (rk (dbReaderWriter (cr_writer r))) K_TOP_THOUSAND_SUM_HASH_KEY"
      using db(1) w1 k by (simp add: setCheckBlockHashsByBlockHeight_def)
    have "getTopThousandSumHash (DBReadWriter_readData ops d1) 0 = Ret (DB_SUCCESS, topBlockHeight s)" using top0 nz by (auto split: if_splits)
    then have "read_unsigned (DBReadWriter_readData ops d1) K_TOP_THOUSAND_SUM_HASH_KEY 0 = Ret (DB_SUCCESS, topBlockHeight s)"
      by (simp add: getTopThousandSumHash_def)
    from rocksdb.writer_reads(4) [OF assms(1) this] v1 show ?thesis by auto
  qed
  ultimately show ?thesis using z(1,4) nine four d by (simp add: Let_def)
qed

text \<open>A round in which ten nodes are asked, nine answer and all nine have the own hash.\<close>

definition sample_answer :: "cxx_string \<Rightarrow> GetCheckSumHashAck option" where
  "sample_answer raw = Some \<lparr>csa_height = 1000, csa_hash = raw, csa_msg_id = [], csa_success = True, csa_self_node_id = []\<rparr>"

definition sample_db :: memdb where
  "sample_db = \<lparr>mem_base = Map.empty, mem_batch = Map.empty\<rparr>"

definition sample_round :: "memdb check_round" where
  "sample_round = \<lparr>cr_sum1000 = (\<lambda>_. ''s''), cr_nodes = (\<lambda>_. (0, replicate 10 ''n'')),
     cr_wait = \<lparr>wr_created = True, wr_added = (\<lambda>_. True), wr_complete = True, wr_answers = replicate 9 ''s''\<rparr>,
     cr_writer = \<lparr>dbReaderWriter = \<lparr>inited = True, txn_open = True, rk = sample_db\<rparr>, autoOperationTrans = True\<rparr>\<rparr>"

definition sample_state :: check_blocks where
  "sample_state = \<lparr>topBlockHeight = 0, tempTopDate = (0, []), isRunning = True\<rparr>"

lemma sample_votes: "check_votes sample_answer (replicate 9 ''s'') = replicate 9 ''s''"
  by (simp add: check_votes_def check_vote_def sample_answer_def eval_nat_numeral)

lemma sample_returns:
  "\<exists>s' d. ToCheck_round mem_rocks sample_answer sample_state sample_round = Ret (s', CheckReturn 0 d)"
proof -
  have t: "tally (replicate 9 ''s'') = [(''s'', 9)]" by (simp add: tally_def vote_for_def eval_nat_numeral)
  have a: "at_least_times 9 9 d08" "at_least_times 9 9 d09"
    using four_fifths.at_least_iff [of 9 9] nine_tenths.at_least_iff [of 9 9] by simp_all
  show ?thesis
    using sample_votes t a
    by (simp add: ToCheck_round_def check_decision_def sample_state_def sample_round_def Let_def setTemporaryTopData_def
        fetchTemporaryTopData_def max_element_def commit_check_def setCheckBlockHashsByBlockHeight_def setTopThousandSumHash_def
        getTopThousandSumHash_def read_unsigned_def read_then_def DBReadWriter_readData_def readData_def mem_rocks_def mem_view_def
        mem_answer_def assign_out_def sample_db_def DBReadWriter_writeData_def db_finish_def writeData_def
        kBlockHeight_2000_Sum_Hash_def K_TOP_THOUSAND_SUM_HASH_KEY_def DBReadWriter_transactionCommit_def transactionCommit_def
        to_string_def list_all_iff)
qed

theorem check_commits_majority_witness:
  "\<exists>s' d. ToCheck_round mem_rocks sample_answer sample_state sample_round = Ret (s', CheckReturn 0 (Some d)) \<and>
     mem_base (rk (dbReaderWriter d)) K_TOP_THOUSAND_SUM_HASH_KEY = Some (to_string (1000 :: u64))"
proof -
  obtain s' d where r: "ToCheck_round mem_rocks sample_answer sample_state sample_round = Ret (s', CheckReturn 0 d)"
    using sample_returns by blast
  have l: "length (wr_answers (cr_wait sample_round)) < 2 ^ 40" by (simp add: sample_round_def)
  from check_commits_majority [OF mem.rocksdb_axioms r l] obtain d' where "d = Some d'"
    "mem_base (rk (dbReaderWriter d')) K_TOP_THOUSAND_SUM_HASH_KEY = Some (to_string (1000 :: u64))"
    by (auto simp: Let_def sample_state_def)
  then show ?thesis using r by blast
qed

end
