(* ===== verification/SyncNodes.thy ===== *)
theory SyncNodes
  imports Votes DbReader PeerTable
begin

text \<open>
  Which nodes the synchronization asks (\<open>getSyncNode\<close> and its helpers in
  \<open>ca/sync_block.cpp\<close>) and the chain height the node believes in
  (\<open>BlockHelper::getChainHeight\<close>). \<open>chain_env\<close> holds what comes from outside the repository's
  sources: constants of \<open>ca/global.h\<close> whose values are not in it, \<open>VerifyBonusAddr\<close>, the stake
  time of an address, SHA-256 and two height functions of \<open>ca_algorithm\<close>.
\<close>

record chain_env =
  MIN_SYNC_QUAL_NODES :: u32
  MIN_UNSTAKE_HEIGHT :: u64
  hashRangeSum :: u64
  verify_bonus :: "cxx_string \<Rightarrow> int"
  pledge_time :: "cxx_string \<Rightarrow> int"
  sha256 :: "cxx_string \<Rightarrow> cxx_string"
  sum_hash_floor :: "u64 \<Rightarrow> u64"
  sum_hash_ceiling :: "u64 \<Rightarrow> u64"

definition UINT32_MAX :: u64 where "UINT32_MAX = 4294967295"

definition qualifies :: "chain_env \<Rightarrow> Node \<Rightarrow> bool" where
  "qualifies env node \<longleftrightarrow> 0 < pledge_time env (nd_address node) \<and> verify_bonus env (nd_address node) = 0"

fun status_number :: "DBStatus \<Rightarrow> int" where
  "status_number DB_SUCCESS = 0"
| "status_number DB_ERROR = 1"
| "status_number DB_PARAM_NULL = 2"
| "status_number DB_NOT_FOUND = 3"
| "status_number DB_IS_EXIST = 4"
| "status_number DB_DESERIALIZATION_FAILED = 5"

subsection \<open>The chain height\<close>

definition getChainHeight :: "chain_env \<Rightarrow> reader \<Rightarrow> Node list \<Rightarrow> u64 option run" where
  "getChainHeight env rd nodes =
     bind_run (getBlockTop rd 0) (\<lambda>(ret, top_h).
       if ret \<noteq> DB_SUCCESS then Ret None
       else if nodes = [] then Ret (Some top_h)
       else let qualifyingNode = (if top_h < MIN_UNSTAKE_HEIGHT env then nodes else filter (qualifies env) nodes) in
         if \<not> top_h < MIN_UNSTAKE_HEIGHT env \<and> qualifyingNode = [] then Ret (Some top_h)
         else let nodeHeights = rev (sort (map (\<lambda>n. ucast (nd_height n) :: u64) qualifyingNode));
                  verifyNum = trunc_times (length nodeHeights) d075 in
           if length nodeHeights \<le> verifyNum then Ret None
           else Ret (Some (nodeHeights ! verifyNum)))"

subsection \<open>Choosing nodes at random\<close>

definition remove_nth :: "nat \<Rightarrow> 'a list \<Rightarrow> 'a list" where
  "remove_nth i xs = take i xs @ drop (Suc i) xs"

lemma length_remove_nth: "i < length xs \<Longrightarrow> length (remove_nth i xs) < length xs"
  by (simp add: remove_nth_def)

lemma set_remove_nth: "set (remove_nth i xs) \<subseteq> set xs"
  by (auto simp: remove_nth_def dest: in_set_takeD in_set_dropD)

text \<open>
  The two selection loops: draw an index, skip the node when it is too low, add its address
  otherwise. \<open>rnd k\<close> is the \<open>k\<close>-th number of the generator.
\<close>

function draw_nodes :: "(nat \<Rightarrow> nat) \<Rightarrow> nat \<Rightarrow> u64 \<Rightarrow> nat \<Rightarrow> Node list \<Rightarrow> cxx_string set \<Rightarrow> cxx_string set \<times> nat" where
  "draw_nodes rnd num heightBaseline k nodes chosen =
     (if card chosen < num \<and> nodes \<noteq> [] then
        let index = rnd k mod length nodes; node = nodes ! index in
        if ucast (nd_height node) < heightBaseline
        then draw_nodes rnd num heightBaseline (Suc k) (remove_nth index nodes) chosen
        else draw_nodes rnd num heightBaseline (Suc k) (remove_nth index nodes) (insert (nd_address node) chosen)
      else (chosen, k))"
  by pat_completeness auto
termination
  by (relation "measure (\<lambda>(rnd, num, b, k, nodes, chosen). length nodes)") (auto intro!: length_remove_nth)

declare draw_nodes.simps [simp del]

text \<open>\<open>get_sync_node_basic\<close>; its two comparison functions are never called.\<close>

definition lowest_height :: "chain_env \<Rightarrow> u64 \<Rightarrow> u64 \<Rightarrow> Node list \<Rightarrow> u64" where
  "lowest_height env top_h heightBaseline nodes =
     foldl (\<lambda>m node. if top_h < MIN_UNSTAKE_HEIGHT env \<or> qualifies env node
                     then (if ucast (nd_height node) < m then ucast (nd_height node) else m) else m)
       heightBaseline nodes"

definition get_sync_node_basic ::
    "chain_env \<Rightarrow> (nat \<Rightarrow> nat) \<Rightarrow> reader \<Rightarrow> Node list \<Rightarrow> u32 \<Rightarrow> u64 \<Rightarrow> (int \<times> cxx_string list) run" where
  "get_sync_node_basic env rnd rd nodes num0 heightBaseline0 =
     bind_run (getBlockTop rd 0) (\<lambda>(ret, top_h).
       if ret \<noteq> DB_SUCCESS then Ret (-1, [])
       else let early = top_h < MIN_UNSTAKE_HEIGHT env;
                qualifyingNode = filter (qualifies env) nodes;
                everyone = (ucast num0 \<ge> UINT32_MAX);
                heightBaseline = (if everyone then lowest_height env top_h heightBaseline0 nodes else heightBaseline0);
                num = (if everyone then (if early then of_nat (length nodes) else of_nat (length qualifyingNode))
                       else if num0 < MIN_SYNC_QUAL_NODES env then MIN_SYNC_QUAL_NODES env else num0);
                finish = (\<lambda>chosen. let node_ids_to_send = sorted_list_of_set chosen in
                   if at_least_times (length node_ids_to_send) (unat num) d075 then (0, node_ids_to_send) else (-3, [])) in
         if early then
           (let (chosen, k) = draw_nodes rnd (unat num) heightBaseline 0 qualifyingNode {}
            in Ret (finish (fst (draw_nodes rnd (unat num) heightBaseline k nodes chosen))))
         else if length qualifyingNode < unat (MIN_SYNC_QUAL_NODES env) \<or> num < MIN_SYNC_QUAL_NODES env then Ret (-2, [])
         else Ret (finish (fst (draw_nodes rnd (unat num) heightBaseline 0 qualifyingNode {}))))"

definition getSyncNodeSimplified ::
    "chain_env \<Rightarrow> (nat \<Rightarrow> nat) \<Rightarrow> reader \<Rightarrow> Node list \<Rightarrow> u32 \<Rightarrow> (int \<times> cxx_string list) run" where
  "getSyncNodeSimplified env rnd rd nodes num =
     bind_run (getBlockTop rd 0) (\<lambda>(status, nodeSelfHeight).
       if status \<noteq> DB_SUCCESS then Ret (-10 - status_number status, [])
       else get_sync_node_basic env rnd rd nodes num nodeSelfHeight)"

subsection \<open>The adjustment for a stuck chain\<close>

record SyncNodeHashAck =
  sna_self_node_id :: cxx_string
  sna_msg_id :: cxx_string
  sna_hash :: cxx_string

text \<open>\<open>None\<close> is the early \<open>return false\<close>.\<close>

fun filter_qualifying :: "u64 \<Rightarrow> cxx_string list \<Rightarrow> Node list \<Rightarrow> nat \<Rightarrow> cxx_string list \<Rightarrow> cxx_string list option" where
  "filter_qualifying chainHeight pledgeAddr [] higher out = Some out"
| "filter_qualifying chainHeight pledgeAddr (node # nodes) higher out =
     (if chainHeight < ucast (nd_height node) then
        (if 3 < Suc higher then None else filter_qualifying chainHeight pledgeAddr nodes (Suc higher) out)
      else if ucast (nd_height node) = chainHeight \<and> nd_address node \<in> set pledgeAddr
      then filter_qualifying chainHeight pledgeAddr nodes higher (out @ [nd_address node])
      else filter_qualifying chainHeight pledgeAddr nodes higher out)"

definition checkRequirementAndFilterQualifyingNodes ::
    "u64 \<Rightarrow> cxx_string list \<Rightarrow> Node list \<Rightarrow> cxx_string list option" where
  "checkRequirementAndFilterQualifyingNodes chainHeight pledgeAddr nodes =
     filter_qualifying chainHeight pledgeAddr nodes 0 []"

type_synonym node_hashes = "(cxx_string, u64 \<times> cxx_string list) std_map"

definition collect_node_hash :: "(cxx_string \<Rightarrow> SyncNodeHashAck option) \<Rightarrow> node_hashes \<Rightarrow> cxx_string \<Rightarrow> node_hashes" where
  "collect_node_hash parse sumHash retData =
     (case parse retData of
        None \<Rightarrow> sumHash
      | Some ack \<Rightarrow>
          let (hits, addrs) = (case map_of sumHash (sna_hash ack) of None \<Rightarrow> (0, []) | Some e \<Rightarrow> e)
          in map_assign (sna_hash ack) (hits + 1, addrs @ [sna_self_node_id ack]) sumHash)"

text \<open>The map is a parameter passed by value: the caller's map is not changed.\<close>

definition get_sync_node_hash_info ::
    "(cxx_string \<Rightarrow> SyncNodeHashAck option) \<Rightarrow> wait_round \<Rightarrow> cxx_string list \<Rightarrow> node_hashes \<Rightarrow> bool \<times> node_hashes" where
  "get_sync_node_hash_info parse w stakeQualifyingNodes sumHash =
     (if \<not> wr_created w then (False, sumHash)
      else if \<not> list_all (wr_added w) stakeQualifyingNodes then (False, sumHash)
      else if \<not> wr_complete w then (False, sumHash)
      else (True, foldl (collect_node_hash parse) sumHash (wr_answers w)))"

text \<open>
  The quotients of counters are doubles; for fewer than \<open>2 ^ 26\<close> hits the comparison with 0.34
  and that of two quotients are those of the fractions.
\<close>

definition GetSelectedAddr :: "node_hashes \<Rightarrow> bool \<times> node_hashes \<times> cxx_string list" where
  "GetSelectedAddr sumHash0 =
     (let receiveNum = length sumHash0;
          sumHash = filter (\<lambda>e. \<not> 50 * unat (fst (snd e)) < 17 * receiveNum) sumHash0 in
      if length sumHash = 2 then
        let (h1, hits1, addrs1) = hd sumHash; (h2, hits2, addrs2) = last sumHash in
        if hits1 \<ge> hits2 then (True, map_assign h1 (hits1, []) sumHash, addrs1)
        else (True, map_assign h2 (hits2, []) sumHash, addrs2)
      else (False, sumHash, []))"

definition needByzantineAdjustment ::
    "(cxx_string \<Rightarrow> SyncNodeHashAck option) \<Rightarrow> wait_round \<Rightarrow> u64 \<Rightarrow> cxx_string list \<Rightarrow> Node list \<Rightarrow> bool \<times> cxx_string list" where
  "needByzantineAdjustment parse w chainHeight pledgeAddr nodes =
     (let sumHash = [] in
      case checkRequirementAndFilterQualifyingNodes chainHeight pledgeAddr nodes of
        None \<Rightarrow> (False, [])
      | Some stakeQualifyingNodes \<Rightarrow>
          if \<not> fst (get_sync_node_hash_info parse w stakeQualifyingNodes sumHash) then (False, [])
          else let (ok, m, selectedAddr) = GetSelectedAddr sumHash in (ok, selectedAddr))"

subsection \<open>getSyncNode\<close>

record sync_node_state =
  forceFindBaseChainVar :: bool
  previousEqualHeight :: u64
  heightEqualCount :: u32

definition SYNC_STUCK_OVERTIME_COUNT :: u32 where "SYNC_STUCK_OVERTIME_COUNT = 6"

definition getSyncNode ::
    "chain_env \<Rightarrow> (cxx_string \<Rightarrow> SyncNodeHashAck option) \<Rightarrow> wait_round \<Rightarrow> (nat \<Rightarrow> nat) \<Rightarrow> reader \<Rightarrow> Node list \<Rightarrow>
     u32 \<Rightarrow> u64 \<Rightarrow> cxx_string list \<Rightarrow> sync_node_state \<Rightarrow> ((int \<times> cxx_string list) \<times> sync_node_state) run" where
  "getSyncNode env parse w rnd rd nodes num chainHeight pledgeAddr s =
     bind_run (getBlockTop rd 0) (\<lambda>(status, nodeSelfHeight).
       if status \<noteq> DB_SUCCESS then Ret ((-10 - status_number status, []), s)
       else let
         by_height = (\<lambda>s. if forceFindBaseChainVar s \<or> nodeSelfHeight < chainHeight
            then bind_run (get_sync_node_basic env rnd rd nodes num chainHeight)
                   (\<lambda>r. Ret (r, s\<lparr>forceFindBaseChainVar := False\<rparr>))
            else bind_run (get_sync_node_basic env rnd rd nodes num nodeSelfHeight)
                   (\<lambda>r. Ret (r, s\<lparr>forceFindBaseChainVar := True\<rparr>))) in
       if nodeSelfHeight \<noteq> chainHeight then by_height s
       else if nodeSelfHeight \<noteq> previousEqualHeight s
       then by_height (s\<lparr>heightEqualCount := 0, previousEqualHeight := nodeSelfHeight\<rparr>)
       else let s1 = s\<lparr>heightEqualCount := heightEqualCount s + 1\<rparr> in
         if heightEqualCount s1 < SYNC_STUCK_OVERTIME_COUNT then by_height s1
         else let (need, selectedAddresses) = needByzantineAdjustment parse w chainHeight pledgeAddr nodes in
           if \<not> need then by_height s1
           else bind_run (get_sync_node_basic env rnd rd nodes num chainHeight) (\<lambda>(ret, ids).
             if ret \<noteq> 0 then by_height (s1\<lparr>forceFindBaseChainVar := True\<rparr>) else Ret ((0, ids), s1)))"

subsection \<open>What the selection guarantees\<close>

lemma draw_nodes_from:
  assumes "draw_nodes rnd num b k nodes chosen = (res, k')" "finite chosen"
  shows "finite res \<and> chosen \<subseteq> res \<and> card res \<le> max num (card chosen) \<and>
         res \<subseteq> chosen \<union> nd_address ` {n \<in> set nodes. b \<le> ucast (nd_height n)}"
  using assms
proof (induction rnd num b k nodes chosen rule: draw_nodes.induct)
  case (1 rnd num b k nodes chosen)
  let ?i = "rnd k mod length nodes"
  let ?rest = "remove_nth ?i nodes"
  let ?from = "\<lambda>ns. nd_address ` {n \<in> set ns. b \<le> ucast (nd_height n)}"
  have sub: "?from ?rest \<subseteq> ?from nodes" using set_remove_nth [of ?i nodes] by blast
  show ?case
  proof (cases "card chosen < num \<and> nodes \<noteq> []")
    case False
    then show ?thesis using 1 by (auto simp: draw_nodes.simps [of rnd num b k nodes chosen])
  next
    case True
    then have mem: "nodes ! ?i \<in> set nodes" by simp
    show ?thesis
    proof (cases "ucast (nd_height (nodes ! ?i)) < b")
      case lt: True
      have "draw_nodes rnd num b (Suc k) ?rest chosen = (res, k')"
        using 1(3) True lt by (simp add: draw_nodes.simps [of rnd num b k nodes chosen] Let_def)
      from 1(1) [OF True refl refl lt this 1(4)] sub show ?thesis by blast
    next
      case ge: False
      let ?c = "insert (nd_address (nodes ! ?i)) chosen"
      have "draw_nodes rnd num b (Suc k) ?rest ?c = (res, k')"
        using 1(3) True ge by (simp add: draw_nodes.simps [of rnd num b k nodes chosen] Let_def)
      from 1(2) [OF True refl refl ge this] 1(4) have r: "finite res" "?c \<subseteq> res" "card res \<le> max num (card ?c)"
        "res \<subseteq> ?c \<union> ?from ?rest" by simp_all
      have "card ?c \<le> num" using True 1(4) by (simp add: card_insert_if)
      then have c: "card res \<le> max num (card chosen)" using r(3) by simp
      have "nd_address (nodes ! ?i) \<in> ?from nodes" using mem ge by auto
      then have "res \<subseteq> chosen \<union> ?from nodes" using r(4) sub by blast
      then show ?thesis using r(1,2) c by blast
    qed
  qed
qed

end
