(* ===== verification/SyncReply.thy ===== *)
theory SyncReply
  imports SyncNodes CheckBlocks NetQueue
begin

text \<open>
  The answering side of the block synchronization (second half of \<open>ca/sync_block.cpp\<close>): the
  messages, the functions that build an answer from the database and the handlers that check the
  sender first. A function that sends an answer returns it, and \<open>None\<close> when it returns without
  sending. \<open>parse\<close> is \<open>CBlock::ParseFromString\<close>, \<open>now\<close> the UTC time in microseconds.
\<close>

definition kStabilityTime :: u64 where "kStabilityTime = 60000000"
definition SUBSTR_LEN :: nat where "SUBSTR_LEN = 8"

subsection \<open>Messages\<close>

text \<open>The requests for a range of heights have the same fields.\<close>

record range_req =
  rq_self_node_id :: cxx_string
  rq_msg_id :: cxx_string
  rq_start_height :: u64
  rq_end_height :: u64

type_synonym FastSyncGetHashReq = range_req
type_synonym SyncGetSumHashReq = range_req
type_synonym SyncGetHeightHashReq = range_req
type_synonym SyncGetBlockHeightAndHashReq = range_req

record FastSyncBlockHashs =
  fh_height :: u64
  fh_hashs :: "cxx_string list"

record FastSyncGetHashAck =
  fga_self_node_id :: cxx_string
  fga_msg_id :: cxx_string
  fga_node_block_height :: u64
  fga_hashs :: "FastSyncBlockHashs list"

record FastSyncGetBlockReq =
  fbq_self_node_id :: cxx_string
  fbq_msg_id :: cxx_string
  fbq_hashs :: "FastSyncBlockHashs list"

record FastSyncBlock =
  fb_height :: u64
  fb_blocks :: "cxx_string list"

record FastSyncGetBlockAck =
  fba_msg_id :: cxx_string
  fba_blocks :: "FastSyncBlock list"

record SyncSumHash =
  ssh_start_height :: u64
  ssh_end_height :: u64
  ssh_hash :: cxx_string

record SyncGetSumHashAck =
  ssa_self_node_id :: cxx_string
  ssa_msg_id :: cxx_string
  ssa_node_block_height :: u64
  ssa_sync_sum_hashes :: "SyncSumHash list"

text \<open>\<open>SyncGetHeightHashAck\<close> and \<open>SyncGetBlockHeightAndHashAck\<close> have the same fields.\<close>

record hashes_ack =
  ha_code :: int
  ha_self_node_id :: cxx_string
  ha_msg_id :: cxx_string
  ha_block_hashes :: "cxx_string list"

type_synonym SyncGetHeightHashAck = hashes_ack
type_synonym SyncGetBlockHeightAndHashAck = hashes_ack

definition hashes_ack_new :: hashes_ack where
  "hashes_ack_new = \<lparr>ha_code = 0, ha_self_node_id = [], ha_msg_id = [], ha_block_hashes = []\<rparr>"

record SyncGetBlockReq =
  sbq_self_node_id :: cxx_string
  sbq_msg_id :: cxx_string
  sbq_block_hashes :: "cxx_string list"

record SyncGetBlockAck =
  sba_msg_id :: cxx_string
  sba_blocks :: "cxx_string list"

record SyncFromZeroGetSumHashReq =
  zsq_self_node_id :: cxx_string
  zsq_msg_id :: cxx_string
  zsq_heights :: "u64 list"

record SyncFromZeroGetBlockReq =
  zbq_self_node_id :: cxx_string
  zbq_msg_id :: cxx_string
  zbq_height :: u64

record SyncFromZeroGetBlockAck =
  zba_self_node_id :: cxx_string
  zba_msg_id :: cxx_string
  zba_height :: u64
  zba_blocks :: "cxx_string list"

record GetBlockByUtxoReq =
  ubq_addr :: cxx_string
  ubq_utxo :: cxx_string
  ubq_msg_id :: cxx_string

record GetBlockByUtxoAck =
  uba_addr :: cxx_string
  uba_utxo :: cxx_string
  uba_msg_id :: cxx_string
  uba_block_raw :: cxx_string

record HashType =
  ht_hash :: cxx_string
  ht_tx_or_block :: bool
  ht_block_raw :: cxx_string

record GetBlockByHashReq =
  hbq_addr :: cxx_string
  hbq_missinghashs :: "HashType list"
  hbq_msg_id :: cxx_string

record GetBlockByHashAck =
  hba_addr :: cxx_string
  hba_blocks :: "HashType list"
  hba_msg_id :: cxx_string

record CheckVinReq =
  cvq_msg_id :: cxx_string
  cvq_self_node_id :: cxx_string
  cvq_utxoHash :: "cxx_string list"

record CheckVinAck =
  cva_msg_id :: cxx_string
  cva_self_node_id :: cxx_string
  cva_utxo_ok :: bool

subsection \<open>Requests\<close>

definition range_request :: "cxx_string \<Rightarrow> cxx_string \<Rightarrow> u64 \<Rightarrow> u64 \<Rightarrow> range_req" where
  "range_request self_id msgId startHeight endHeight =
     \<lparr>rq_self_node_id = self_id, rq_msg_id = msgId, rq_start_height = startHeight, rq_end_height = endHeight\<rparr>"

definition fastSyncGetHashRequest :: "cxx_string \<Rightarrow> cxx_string \<Rightarrow> u64 \<Rightarrow> u64 \<Rightarrow> FastSyncGetHashReq" where
  "fastSyncGetHashRequest = range_request"

definition chainSyncGetBlockHeightAndHashRequest :: "cxx_string \<Rightarrow> cxx_string \<Rightarrow> u64 \<Rightarrow> u64 \<Rightarrow> SyncGetBlockHeightAndHashReq" where
  "chainSyncGetBlockHeightAndHashRequest = range_request"

definition sendFastSyncGetBlockRequest :: "cxx_string \<Rightarrow> cxx_string \<Rightarrow> FastSyncBlockHashs list \<Rightarrow> FastSyncGetBlockReq" where
  "sendFastSyncGetBlockRequest self_id msgId requestHashs =
     \<lparr>fbq_self_node_id = self_id, fbq_msg_id = msgId, fbq_hashs = requestHashs\<rparr>"

definition sendSyncGetBlockRequest :: "cxx_string \<Rightarrow> cxx_string \<Rightarrow> cxx_string list \<Rightarrow> SyncGetBlockReq" where
  "sendSyncGetBlockRequest self_id msgId reqHashes =
     \<lparr>sbq_self_node_id = self_id, sbq_msg_id = msgId, sbq_block_hashes = reqHashes\<rparr>"

definition sendSyncSumHashRequest :: "cxx_string \<Rightarrow> cxx_string \<Rightarrow> u64 list \<Rightarrow> SyncFromZeroGetSumHashReq" where
  "sendSyncSumHashRequest self_id msgId heights =
     \<lparr>zsq_self_node_id = self_id, zsq_msg_id = msgId, zsq_heights = heights\<rparr>"

definition sendFromZeroSyncGetBlockRequest :: "cxx_string \<Rightarrow> cxx_string \<Rightarrow> u64 \<Rightarrow> SyncFromZeroGetBlockReq" where
  "sendFromZeroSyncGetBlockRequest self_id msgId height =
     \<lparr>zbq_self_node_id = self_id, zbq_msg_id = msgId, zbq_height = height\<rparr>"

subsection \<open>Hashes of heights\<close>

definition calculateSumHeightHash :: "chain_env \<Rightarrow> cxx_string list \<Rightarrow> cxx_string list \<times> cxx_string" where
  "calculateSumHeightHash env blockHashes =
     (let sorted = sort blockHashes in (sorted, sha256 env (concat sorted)))"

definition sumHeightsHash :: "chain_env \<Rightarrow> (u64, cxx_string list) std_map \<Rightarrow> cxx_string" where
  "sumHeightsHash env heightBlocks =
     snd (calculateSumHeightHash env (map (\<lambda>e. snd (calculateSumHeightHash env (snd e))) heightBlocks))"

definition getHeightBlockHash :: "mreader \<Rightarrow> u64 \<Rightarrow> u64 \<Rightarrow> cxx_string list \<Rightarrow> (bool \<times> cxx_string list) run" where
  "getHeightBlockHash mrd startHeight endHeight blockHashes =
     bind_run (getBlockHashesByBlockHeight mrd startHeight endHeight blockHashes) (\<lambda>(ret, hs). Ret (ret = DB_SUCCESS, hs))"

text \<open>
  The overloads that go height by height up to this node's top; a top of \<open>2 ^ 64 - 1\<close>, which
  \<open>setBlockTop\<close> cannot store, would make the counter wrap and is not followed.
\<close>

definition stable_hashes :: "(cxx_string \<Rightarrow> CBlock option) \<Rightarrow> u64 \<Rightarrow> cxx_string list \<Rightarrow> cxx_string list option" where
  "stable_hashes parse now blocksRaw =
     (if list_all (\<lambda>raw. parse raw \<noteq> None) blocksRaw
      then Some (concat (map (\<lambda>raw. let block = the (parse raw) in
             if now - bl_time block < kStabilityTime then [] else [bl_hash block]) blocksRaw))
      else None)"

definition getHeightBlockHash_fast ::
    "(cxx_string \<Rightarrow> CBlock option) \<Rightarrow> u64 \<Rightarrow> reader \<Rightarrow> mreader \<Rightarrow> u64 \<Rightarrow> u64 \<Rightarrow> FastSyncBlockHashs list option run" where
  "getHeightBlockHash_fast parse now rd mrd startHeight endHeight =
     bind_run (getBlockTop rd 0) (\<lambda>(ret, top_h).
       if ret \<noteq> DB_SUCCESS then Ret None
       else if top_h = - 1 then Diverge
       else bind_run (loop_run (\<lambda>acc h.
           bind_run (getBlockHashsByBlockHeight rd h []) (\<lambda>(ret, hashs).
             if ret \<noteq> DB_SUCCESS then Ret (Inl ())
             else bind_run (getBlocksByBlockHash mrd hashs []) (\<lambda>(ret, blocksRaw).
               if ret \<noteq> DB_SUCCESS then Ret (Inl ())
               else case stable_hashes parse now blocksRaw of
                 None \<Rightarrow> Ret (Inl ())
               | Some hs \<Rightarrow> Ret (Inr (acc @ [\<lparr>fh_height = h, fh_hashs = hs\<rparr>])))))
           [] (counter_values startHeight (min endHeight top_h)))
         (\<lambda>r. Ret (case r of Inl _ \<Rightarrow> None | Inr acc \<Rightarrow> Some acc)))"

definition getHeightBlockHash_map ::
    "reader \<Rightarrow> u64 \<Rightarrow> u64 \<Rightarrow> (u64, cxx_string list) std_map option run" where
  "getHeightBlockHash_map rd startHeight endHeight =
     bind_run (getBlockTop rd 0) (\<lambda>(ret, top_h).
       if ret \<noteq> DB_SUCCESS then Ret None
       else if top_h = - 1 then Diverge
       else bind_run (loop_run (\<lambda>acc h.
           bind_run (getBlockHashsByBlockHeight rd h []) (\<lambda>(ret, hashs).
             if ret \<noteq> DB_SUCCESS then Ret (Inl ()) else Ret (Inr (map_assign h hashs acc))))
           [] (if endHeight = 0 then [] else counter_values startHeight (min (endHeight - 1) top_h)))
         (\<lambda>r. Ret (case r of Inl _ \<Rightarrow> None | Inr acc \<Rightarrow> Some acc)))"

subsection \<open>Answers\<close>

definition fastSyncHashAck ::
    "(cxx_string \<Rightarrow> CBlock option) \<Rightarrow> u64 \<Rightarrow> reader \<Rightarrow> mreader \<Rightarrow> cxx_string \<Rightarrow> cxx_string \<Rightarrow> u64 \<Rightarrow> u64 \<Rightarrow>
     FastSyncGetHashAck option run" where
  "fastSyncHashAck parse now rd mrd self_id msgId startHeight endHeight =
     (if endHeight < startHeight then Ret None
      else if 100000 < endHeight - startHeight then Ret None
      else bind_run (getBlockTop rd 0) (\<lambda>(ret, nodeBlockHeight).
        if ret \<noteq> DB_SUCCESS then Ret None
        else bind_run (getHeightBlockHash_fast parse now rd mrd startHeight endHeight) (\<lambda>hashs.
          Ret (map_option (\<lambda>hs. \<lparr>fga_self_node_id = self_id, fga_msg_id = msgId,
            fga_node_block_height = nodeBlockHeight, fga_hashs = hs\<rparr>) hashs))))"

text \<open>The requested hashes that the database has at their height.\<close>

definition requested_hashes :: "reader \<Rightarrow> FastSyncBlockHashs list \<Rightarrow> (unit + cxx_string list) run" where
  "requested_hashes rd requestHashs =
     loop_run (\<lambda>acc r. bind_run (getBlockHashsByBlockHeight rd (fh_height r) []) (\<lambda>(ret, dbHashs).
       if ret \<noteq> DB_SUCCESS then Ret (Inl ())
       else Ret (Inr (acc @ filter (\<lambda>h. h \<in> set (fh_hashs r)) dbHashs)))) [] requestHashs"

fun add_to_height :: "u64 \<Rightarrow> cxx_string \<Rightarrow> FastSyncBlock list \<Rightarrow> FastSyncBlock list" where
  "add_to_height height raw [] = [\<lparr>fb_height = height, fb_blocks = [raw]\<rparr>]"
| "add_to_height height raw (b # bs) =
     (if fb_height b = height then b\<lparr>fb_blocks := fb_blocks b @ [raw]\<rparr> # bs else b # add_to_height height raw bs)"

definition sendFastSyncBlockAcknowledge ::
    "(cxx_string \<Rightarrow> CBlock option) \<Rightarrow> reader \<Rightarrow> mreader \<Rightarrow> cxx_string \<Rightarrow> FastSyncBlockHashs list \<Rightarrow>
     FastSyncGetBlockAck option run" where
  "sendFastSyncBlockAcknowledge parse rd mrd msgId requestHashs =
     bind_run (requested_hashes rd requestHashs) (\<lambda>r. case r of
       Inl _ \<Rightarrow> Ret None
     | Inr blockHashes \<Rightarrow>
         bind_run (getBlocksByBlockHash mrd blockHashes []) (\<lambda>(ret, blocks).
           if ret \<noteq> DB_SUCCESS then Ret None
           else if \<not> list_all (\<lambda>raw. parse raw \<noteq> None) blocks then Ret None
           else Ret (Some \<lparr>fba_msg_id = msgId,
             fba_blocks = foldl (\<lambda>acc raw. add_to_height (bl_height (the (parse raw))) raw acc) [] blocks\<rparr>)))"

text \<open>
  The loop of \<open>sendSyncSumHashAcknowledgement\<close> from height \<open>i\<close>: \<open>None\<close> when it never ends. It
  stops at the clamped end; started above it, it runs until a height cannot be read.
\<close>

partial_function (option) sum_hash_loop ::
    "chain_env \<Rightarrow> mreader \<Rightarrow> u64 \<Rightarrow> u64 \<Rightarrow> SyncSumHash list \<Rightarrow> SyncSumHash list option run option" where
  "sum_hash_loop env mrd ending i acc =
     (case getHeightBlockHash mrd i i [] of
        Ret (ok, block_hashes) \<Rightarrow>
          (if \<not> ok then Some (Ret None)
           else let acc' = acc @ [\<lparr>ssh_start_height = i, ssh_end_height = i,
                                   ssh_hash = snd (calculateSumHeightHash env block_hashes)\<rparr>];
                    j = (if ending < i + 1 then ending else i + 1) in
             if i = j then Some (Ret (Some acc')) else sum_hash_loop env mrd ending (i + 1) acc')
      | Throw e \<Rightarrow> Some (Throw e)
      | Exit \<Rightarrow> Some Exit
      | Diverge \<Rightarrow> Some Diverge
      | Undefined \<Rightarrow> Some Undefined)"

definition sendSyncSumHashAcknowledgement ::
    "chain_env \<Rightarrow> reader \<Rightarrow> mreader \<Rightarrow> cxx_string \<Rightarrow> cxx_string \<Rightarrow> u64 \<Rightarrow> u64 \<Rightarrow> SyncGetSumHashAck option run" where
  "sendSyncSumHashAcknowledgement env rd mrd self_id msgId startHeight endHeight =
     (if endHeight < startHeight then Ret None
      else if 1000 < endHeight - startHeight then Ret None
      else bind_run (getBlockTop rd 0) (\<lambda>(ret, nodeSelfHeight).
        if ret \<noteq> DB_SUCCESS then Ret None
        else case sum_hash_loop env mrd (if nodeSelfHeight < endHeight then nodeSelfHeight else endHeight) startHeight [] of
          None \<Rightarrow> Diverge
        | Some r \<Rightarrow> bind_run r (\<lambda>hs. Ret (map_option (\<lambda>l. \<lparr>ssa_self_node_id = self_id, ssa_msg_id = msgId,
              ssa_node_block_height = nodeSelfHeight, ssa_sync_sum_hashes = l\<rparr>) hs))))"

definition sendSyncGetHeightHashAcknowledgment ::
    "reader \<Rightarrow> mreader \<Rightarrow> cxx_string \<Rightarrow> cxx_string \<Rightarrow> u64 \<Rightarrow> u64 \<Rightarrow> SyncGetHeightHashAck run" where
  "sendSyncGetHeightHashAcknowledgment rd mrd self_id msgId startHeight endHeight =
     (let ack = hashes_ack_new in
      if endHeight < startHeight then Ret (ack\<lparr>ha_code := -1\<rparr>)
      else if 500 < endHeight - startHeight then Ret (ack\<lparr>ha_code := -2\<rparr>)
      else let ack = ack\<lparr>ha_self_node_id := self_id\<rparr> in
        bind_run (getBlockTop rd 0) (\<lambda>(ret, nodeSelfHeight).
          if ret \<noteq> DB_SUCCESS then Ret (ack\<lparr>ha_code := -3\<rparr>)
          else let ack = ack\<lparr>ha_msg_id := msgId\<rparr>;
                   endHeight = (if nodeSelfHeight < endHeight then nodeSelfHeight else endHeight) in
            if endHeight < startHeight then Ret (ack\<lparr>ha_code := -4\<rparr>)
            else bind_run (getBlockHashesByBlockHeight mrd startHeight endHeight []) (\<lambda>(ret, blockHashes).
              if ret \<noteq> DB_SUCCESS then Ret (ack\<lparr>ha_code := -5\<rparr>)
              else Ret (ack\<lparr>ha_block_hashes := sort blockHashes, ha_code := 0\<rparr>))))"

definition height_prefix :: "u64 \<Rightarrow> cxx_string \<Rightarrow> cxx_string" where
  "height_prefix h hash = to_string h @ ''_'' @ take SUBSTR_LEN hash"

definition getBlockHeightAndHashAcknowledge ::
    "reader \<Rightarrow> mreader \<Rightarrow> cxx_string \<Rightarrow> cxx_string \<Rightarrow> u64 \<Rightarrow> u64 \<Rightarrow> SyncGetBlockHeightAndHashAck run" where
  "getBlockHeightAndHashAcknowledge rd mrd self_id msgId startHeight endHeight =
     (let ack = hashes_ack_new in
      if endHeight < startHeight then Ret (ack\<lparr>ha_code := -1\<rparr>)
      else if 500 < endHeight - startHeight then Ret (ack\<lparr>ha_code := -2\<rparr>)
      else let ack = ack\<lparr>ha_self_node_id := self_id\<rparr> in
        bind_run (getBlockTop rd 0) (\<lambda>(ret, nodeSelfHeight).
          if ret \<noteq> DB_SUCCESS then Ret (ack\<lparr>ha_code := -3\<rparr>)
          else let ack = ack\<lparr>ha_msg_id := msgId\<rparr>;
                   endHeight = (if nodeSelfHeight < endHeight then nodeSelfHeight else endHeight) in
            if endHeight < startHeight then Ret (ack\<lparr>ha_code := -4\<rparr>)
            else if endHeight = - 1 then Diverge
            else bind_run (loop_run (\<lambda>acc i.
                bind_run (getBlockHashesByBlockHeight mrd i i []) (\<lambda>(ret, blockHashesTemp).
                  if ret \<noteq> DB_SUCCESS then Ret (Inl ())
                  else Ret (Inr (acc @ map (height_prefix i) blockHashesTemp))))
                [] (counter_values startHeight endHeight))
              (\<lambda>r. case r of
                 Inl _ \<Rightarrow> Ret (ack\<lparr>ha_code := -5\<rparr>)
               | Inr blockHashes \<Rightarrow> Ret (ack\<lparr>ha_block_hashes := sort blockHashes, ha_code := 0\<rparr>))))"

definition sendSyncGetBlockAcknowledgement ::
    "mreader \<Rightarrow> cxx_string \<Rightarrow> (u64, cxx_string list) std_map \<Rightarrow> SyncGetBlockAck option run" where
  "sendSyncGetBlockAcknowledgement mrd msgId blockHashMap =
     (if 2000 < length blockHashMap then Ret None
      else bind_run (loop_run (\<lambda>acc it.
          bind_run (getBlockHashesByBlockHeight mrd (fst it) (fst it) []) (\<lambda>(ret, blockHashes).
            if ret \<noteq> DB_SUCCESS then Ret (Inl ())
            else Ret (Inr (acc @ concat (map (\<lambda>syncHash. filter (\<lambda>hash. syncHash = take SUBSTR_LEN hash) blockHashes) (snd it))))))
          [] blockHashMap)
        (\<lambda>r. case r of
           Inl _ \<Rightarrow> Ret None
         | Inr reqHashes \<Rightarrow>
             bind_run (getBlocksByBlockHash mrd reqHashes []) (\<lambda>(ret, blocks).
               if ret \<noteq> DB_SUCCESS then Ret None else Ret (Some \<lparr>sba_msg_id = msgId, sba_blocks = blocks\<rparr>))))"

definition syncSumHashAcknowledge ::
    "reader \<Rightarrow> cxx_string \<Rightarrow> cxx_string \<Rightarrow> u64 list \<Rightarrow> SyncFromZeroGetSumHashAck run" where
  "syncSumHashAcknowledge rd self_id msgId heights =
     bind_run (loop_run (\<lambda>acc height.
         bind_run (getSumHashByHeight rd height []) (\<lambda>(ret, sumHash).
           if ret \<noteq> DB_SUCCESS then Ret (Inr acc)
           else Ret (Inr (acc @ [\<lparr>zsh_height = height, zsh_hash = sumHash\<rparr>])))) [] heights)
       (\<lambda>r. let sum_hashes = (case r of Inl () \<Rightarrow> [] | Inr l \<Rightarrow> l) in
          Ret \<lparr>zsa_code = (if length sum_hashes = 0 then 0 else 1), zsa_self_node_id = self_id, zsa_msg_id = msgId,
               zsa_sum_hashes = sum_hashes\<rparr>)"

definition zeroSyncBlockAcknowledge ::
    "chain_env \<Rightarrow> mreader \<Rightarrow> cxx_string \<Rightarrow> cxx_string \<Rightarrow> u64 \<Rightarrow> SyncFromZeroGetBlockAck option run" where
  "zeroSyncBlockAcknowledge env mrd self_id msgId height =
     (if height < hashRangeSum env then Ret None
      else bind_run (getBlockHashesByBlockHeight mrd (height - hashRangeSum env + 1) height []) (\<lambda>(ret, blockhashes).
        if ret \<noteq> DB_SUCCESS then Ret None
        else bind_run (getBlocksByBlockHash mrd blockhashes []) (\<lambda>(ret, blockraws).
          if ret \<noteq> DB_SUCCESS then Ret None
          else Ret (Some \<lparr>zba_self_node_id = self_id, zba_msg_id = msgId, zba_height = height, zba_blocks = blockraws\<rparr>))))"

text \<open>\<open>height_sum from to\<close> is \<open>ca_algorithm::calculate_height_sum_hash\<close> on the database.\<close>

definition sendSynchronizationNodeHashConfirmation ::
    "(u64 \<Rightarrow> u64 \<Rightarrow> cxx_string option) \<Rightarrow> u32 \<Rightarrow> reader \<Rightarrow> cxx_string \<Rightarrow> cxx_string \<Rightarrow> SyncNodeHashAck option run" where
  "sendSynchronizationNodeHashConfirmation height_sum syncHeightCount rd self_id msgId =
     bind_run (getBlockTop rd 0) (\<lambda>(ret, nodeBlockHeight).
       if ret \<noteq> DB_SUCCESS then Ret None
       else Ret (map_option (\<lambda>sumHash. \<lparr>sna_self_node_id = self_id, sna_msg_id = msgId, sna_hash = sumHash\<rparr>)
              (height_sum (nodeBlockHeight - ucast syncHeightCount) nodeBlockHeight)))"

definition sendBlockByUtxoAcknowledge ::
    "reader \<Rightarrow> cxx_string \<Rightarrow> cxx_string \<Rightarrow> cxx_string \<Rightarrow> (int \<times> GetBlockByUtxoAck option) run" where
  "sendBlockByUtxoAcknowledge rd self_id utxo msgId =
     bind_run (getBlockHashByTransactionHash rd utxo []) (\<lambda>(ret, strBlockHash).
       if ret \<noteq> DB_SUCCESS then Ret (-1, None)
       else bind_run (getBlockByBlockHash rd strBlockHash []) (\<lambda>(ret, blockstr).
         if ret \<noteq> DB_SUCCESS then Ret (-2, None)
         else if blockstr = [] then Ret (-3, None)
         else Ret (0, Some \<lparr>uba_addr = self_id, uba_utxo = utxo, uba_msg_id = msgId, uba_block_raw = blockstr\<rparr>)))"

definition SendBlockByHashAck ::
    "reader \<Rightarrow> cxx_string \<Rightarrow> (cxx_string, bool) std_map \<Rightarrow> cxx_string \<Rightarrow> (int \<times> GetBlockByHashAck option) run" where
  "SendBlockByHashAck rd self_id missingHashs msgId =
     bind_run (loop_run (\<lambda>acc it.
         bind_run (if snd it then getBlockHashByTransactionHash rd (fst it) [] else Ret (DB_SUCCESS, fst it)) (\<lambda>(ret, strBlockHash).
           if ret \<noteq> DB_SUCCESS then Ret (Inl (-1))
           else bind_run (getBlockByBlockHash rd strBlockHash []) (\<lambda>(ret, blockstr).
             if ret \<noteq> DB_SUCCESS then Ret (Inl (-2))
             else if blockstr = [] then Ret (Inl (-3))
             else Ret (Inr (acc @ [\<lparr>ht_hash = fst it, ht_tx_or_block = snd it, ht_block_raw = blockstr\<rparr>])))))
         [] missingHashs)
       (\<lambda>r. case r of
          Inl code \<Rightarrow> Ret (code, None)
        | Inr bs \<Rightarrow> Ret (0, Some \<lparr>hba_addr = self_id, hba_blocks = bs, hba_msg_id = msgId\<rparr>))"

subsection \<open>Handlers of requests\<close>

text \<open>Every handler below refuses a message whose sender is not the node behind the connection.\<close>

definition verified :: "peers \<Rightarrow> int \<Rightarrow> cxx_string \<Rightarrow> 'a option run \<Rightarrow> (int \<times> 'a option) run" where
  "verified p fd sender answer =
     (if \<not> verifyPeerNodeIdRequest p fd sender then Ret (-1, None) else bind_run answer (\<lambda>a. Ret (0, a)))"

definition processFastSyncGetHashRequest ::
    "peers \<Rightarrow> int \<Rightarrow> (cxx_string \<Rightarrow> CBlock option) \<Rightarrow> u64 \<Rightarrow> reader \<Rightarrow> mreader \<Rightarrow> cxx_string \<Rightarrow> FastSyncGetHashReq \<Rightarrow>
     (int \<times> FastSyncGetHashAck option) run" where
  "processFastSyncGetHashRequest p fd parse now rd mrd self_id msg = verified p fd (rq_self_node_id msg)
     (fastSyncHashAck parse now rd mrd self_id (rq_msg_id msg) (rq_start_height msg) (rq_end_height msg))"

definition handleFastSyncBlockRequest ::
    "peers \<Rightarrow> int \<Rightarrow> (cxx_string \<Rightarrow> CBlock option) \<Rightarrow> reader \<Rightarrow> mreader \<Rightarrow> FastSyncGetBlockReq \<Rightarrow>
     (int \<times> FastSyncGetBlockAck option) run" where
  "handleFastSyncBlockRequest p fd parse rd mrd msg = verified p fd (fbq_self_node_id msg)
     (sendFastSyncBlockAcknowledge parse rd mrd (fbq_msg_id msg) (fbq_hashs msg))"

definition processSyncSumHashRequest ::
    "peers \<Rightarrow> int \<Rightarrow> chain_env \<Rightarrow> reader \<Rightarrow> mreader \<Rightarrow> cxx_string \<Rightarrow> SyncGetSumHashReq \<Rightarrow> (int \<times> SyncGetSumHashAck option) run" where
  "processSyncSumHashRequest p fd env rd mrd self_id msg = verified p fd (rq_self_node_id msg)
     (sendSyncSumHashAcknowledgement env rd mrd self_id (rq_msg_id msg) (rq_start_height msg) (rq_end_height msg))"

definition handleSyncGetHeightHashRequest ::
    "peers \<Rightarrow> int \<Rightarrow> reader \<Rightarrow> mreader \<Rightarrow> cxx_string \<Rightarrow> SyncGetHeightHashReq \<Rightarrow> (int \<times> SyncGetHeightHashAck option) run" where
  "handleSyncGetHeightHashRequest p fd rd mrd self_id msg = verified p fd (rq_self_node_id msg)
     (bind_run (sendSyncGetHeightHashAcknowledgment rd mrd self_id (rq_msg_id msg) (rq_start_height msg) (rq_end_height msg))
        (\<lambda>ack. Ret (Some ack)))"

definition syncBlockHeightAndHashRequest ::
    "peers \<Rightarrow> int \<Rightarrow> reader \<Rightarrow> mreader \<Rightarrow> cxx_string \<Rightarrow> SyncGetBlockHeightAndHashReq \<Rightarrow>
     (int \<times> SyncGetBlockHeightAndHashAck option) run" where
  "syncBlockHeightAndHashRequest p fd rd mrd self_id msg = verified p fd (rq_self_node_id msg)
     (bind_run (getBlockHeightAndHashAcknowledge rd mrd self_id (rq_msg_id msg) (rq_start_height msg) (rq_end_height msg))
        (\<lambda>ack. Ret (Some ack)))"

text \<open>
  An entry \<open>height_prefix\<close> of a request; \<open>std::stoull\<close> on the height throws, and nothing
  catches it.
\<close>

definition parse_height_prefix :: "cxx_string \<Rightarrow> (u64 \<times> cxx_string) option run" where
  "parse_height_prefix hash =
     bind_run (run_of_option (SplitString hash ''_'' [])) (\<lambda>data_key.
       if length data_key \<noteq> 2 then Ret None
       else bind_run (stoull (data_key ! 0)) (\<lambda>height. Ret (Some (height, data_key ! 1))))"

definition add_at_height :: "u64 \<Rightarrow> 'a \<Rightarrow> (u64, 'a list) std_map \<Rightarrow> (u64, 'a list) std_map" where
  "add_at_height height x m =
     (case map_of m height of None \<Rightarrow> map_assign height [x] m | Some xs \<Rightarrow> map_assign height (xs @ [x]) m)"

fun requested_map :: "cxx_string list \<Rightarrow> (u64, cxx_string list) std_map \<Rightarrow> (u64, cxx_string list) std_map run" where
  "requested_map [] m = Ret m"
| "requested_map (hash # hs) m =
     bind_run (parse_height_prefix hash) (\<lambda>r. case r of
       None \<Rightarrow> requested_map hs m
     | Some (height, prefix) \<Rightarrow> requested_map hs (add_at_height height prefix m))"

definition handleSynchronizationBlockRequest ::
    "peers \<Rightarrow> int \<Rightarrow> mreader \<Rightarrow> SyncGetBlockReq \<Rightarrow> (int \<times> SyncGetBlockAck option) run" where
  "handleSynchronizationBlockRequest p fd mrd msg = verified p fd (sbq_self_node_id msg)
     (bind_run (requested_map (sbq_block_hashes msg) []) (\<lambda>m. sendSyncGetBlockAcknowledgement mrd (sbq_msg_id msg) m))"

definition syncGetSumHashRequest ::
    "peers \<Rightarrow> int \<Rightarrow> reader \<Rightarrow> cxx_string \<Rightarrow> SyncFromZeroGetSumHashReq \<Rightarrow> (int \<times> SyncFromZeroGetSumHashAck option) run" where
  "syncGetSumHashRequest p fd rd self_id msg = verified p fd (zsq_self_node_id msg)
     (bind_run (syncSumHashAcknowledge rd self_id (zsq_msg_id msg) (zsq_heights msg)) (\<lambda>ack. Ret (Some ack)))"

definition handleSyncGetBlockRequest ::
    "peers \<Rightarrow> int \<Rightarrow> chain_env \<Rightarrow> mreader \<Rightarrow> cxx_string \<Rightarrow> SyncFromZeroGetBlockReq \<Rightarrow> (int \<times> SyncFromZeroGetBlockAck option) run" where
  "handleSyncGetBlockRequest p fd env mrd self_id msg = verified p fd (zbq_self_node_id msg)
     (zeroSyncBlockAcknowledge env mrd self_id (zbq_msg_id msg) (zbq_height msg))"

definition syncNodeHashRequest ::
    "peers \<Rightarrow> int \<Rightarrow> (u64 \<Rightarrow> u64 \<Rightarrow> cxx_string option) \<Rightarrow> u32 \<Rightarrow> reader \<Rightarrow> cxx_string \<Rightarrow> cxx_string \<Rightarrow> cxx_string \<Rightarrow>
     (int \<times> SyncNodeHashAck option) run" where
  "syncNodeHashRequest p fd height_sum syncHeightCount rd self_id sender msg_id = verified p fd sender
     (sendSynchronizationNodeHashConfirmation height_sum syncHeightCount rd self_id msg_id)"

definition handleBlockByUtxoRequest ::
    "peers \<Rightarrow> int \<Rightarrow> reader \<Rightarrow> cxx_string \<Rightarrow> GetBlockByUtxoReq \<Rightarrow> (int \<times> GetBlockByUtxoAck option) run" where
  "handleBlockByUtxoRequest p fd rd self_id msg = verified p fd (ubq_addr msg)
     (bind_run (sendBlockByUtxoAcknowledge rd self_id (ubq_utxo msg) (ubq_msg_id msg)) (\<lambda>r. Ret (snd r)))"

definition blockByHashRequest ::
    "peers \<Rightarrow> int \<Rightarrow> reader \<Rightarrow> cxx_string \<Rightarrow> GetBlockByHashReq \<Rightarrow> (int \<times> GetBlockByHashAck option) run" where
  "blockByHashRequest p fd rd self_id msg = verified p fd (hbq_addr msg)
     (bind_run (SendBlockByHashAck rd self_id
        (foldl (\<lambda>m it. map_assign (ht_hash it) (ht_tx_or_block it) m) [] (hbq_missinghashs msg)) (hbq_msg_id msg))
        (\<lambda>r. Ret (snd r)))"

text \<open>The check of a transaction's inputs is answered without looking at the sender.\<close>

definition processCheckVinRequest :: "reader \<Rightarrow> cxx_string \<Rightarrow> CheckVinReq \<Rightarrow> (int \<times> CheckVinAck) run" where
  "processCheckVinRequest rd self_id msg =
     bind_run (getUtxoHashsByAddress rd (cvq_self_node_id msg) []) (\<lambda>(ret, utxoHashesList).
       let ack = \<lparr>cva_msg_id = cvq_msg_id msg, cva_self_node_id = self_id, cva_utxo_ok = False\<rparr> in
       if ret \<noteq> DB_SUCCESS then Ret (0, ack\<lparr>cva_utxo_ok := False\<rparr>)
       else let allContained = list_all (\<lambda>hash. hash \<in> set utxoHashesList) (sorted_list_of_set (set (cvq_utxoHash msg)));
                ack1 = (if \<not> allContained then ack\<lparr>cva_utxo_ok := False\<rparr> else ack)
            in Ret (0, ack1\<lparr>cva_utxo_ok := True\<rparr>))"

subsection \<open>Handlers of answers\<close>

text \<open>They hand the serialized answer to the response collector (theory \<open>NetQueue\<close>).\<close>

definition forward_answer ::
    "peers \<Rightarrow> int \<Rightarrow> global_data \<Rightarrow> cxx_string \<Rightarrow> cxx_string \<Rightarrow> cxx_string \<Rightarrow> int \<times> global_data" where
  "forward_answer p fd g msg_id sender serialized =
     (if \<not> verifyPeerNodeIdRequest p fd sender then (-1, g)
      else (0, fst (snd (waitDataToAdd g msg_id sender serialized))))"

text \<open>Two kinds of answers carry no sender: the node behind the connection is taken.\<close>

definition forward_from_fd ::
    "peers \<Rightarrow> int \<Rightarrow> global_data \<Rightarrow> cxx_string \<Rightarrow> cxx_string \<Rightarrow> int \<times> global_data" where
  "forward_from_fd p fd g msg_id serialized =
     (case locateNodeByFd p fd of
        None \<Rightarrow> (-1, g)
      | Some node \<Rightarrow> (0, fst (snd (waitDataToAdd g msg_id (nd_address node) serialized))))"

definition handleFastSyncHashAcknowledge where
  "handleFastSyncHashAcknowledge p fd g msg s = forward_answer p fd g (fga_msg_id msg) (fga_self_node_id msg) s"

definition handleFastSyncBlockAcknowledge where
  "handleFastSyncBlockAcknowledge p fd g msg s = forward_from_fd p fd g (fba_msg_id msg) s"

definition syncGetSumHashAcknowledge where
  "syncGetSumHashAcknowledge p fd g msg s = forward_answer p fd g (ssa_msg_id msg) (ssa_self_node_id msg) s"

definition processSyncHeightHashAcknowledgement where
  "processSyncHeightHashAcknowledgement p fd g msg s = forward_answer p fd g (ha_msg_id msg) (ha_self_node_id msg) s"

definition syncBlockHeightAndHashAck where
  "syncBlockHeightAndHashAck p fd g msg s = forward_answer p fd g (ha_msg_id msg) (ha_self_node_id msg) s"

definition handleSyncGetBlockAcknowledge where
  "handleSyncGetBlockAcknowledge p fd g msg s = forward_from_fd p fd g (sba_msg_id msg) s"

definition zeroSyncSumHashAcknowledge where
  "zeroSyncSumHashAcknowledge p fd g msg s = forward_answer p fd g (zsa_msg_id msg) (zsa_self_node_id msg) s"

definition handleZeroSyncBlockAcknowledge where
  "handleZeroSyncBlockAcknowledge p fd g msg s = forward_answer p fd g (zba_msg_id msg) (zba_self_node_id msg) s"

definition processSyncNodeHashAcknowledgment where
  "processSyncNodeHashAcknowledgment p fd g msg s = forward_answer p fd g (sna_msg_id msg) (sna_self_node_id msg) s"

definition handleBlockByUtxoAcknowledgment where
  "handleBlockByUtxoAcknowledgment p fd g msg s = forward_answer p fd g (uba_msg_id msg) (uba_addr msg) s"

definition handleBlockByHashAcknowledgment where
  "handleBlockByHashAcknowledgment p fd g msg s = forward_answer p fd g (hba_msg_id msg) (hba_addr msg) s"

definition handleChecksumHashAcknowledge where
  "handleChecksumHashAcknowledge p fd g msg s = forward_answer p fd g (csa_msg_id msg) (csa_self_node_id msg) s"

definition checkVinAcknowledge :: "global_data \<Rightarrow> CheckVinAck \<Rightarrow> cxx_string \<Rightarrow> int \<times> global_data" where
  "checkVinAcknowledge g msg s = (0, fst (snd (waitDataToAdd g (cva_msg_id msg) (cva_self_node_id msg) s)))"

end
