(* ===== verification/SyncVote.thy ===== *)
theory SyncVote
  imports SyncReply
begin

text \<open>
  How this node compares its chain with the others' (\<open>ca/sync_block.cpp\<close>): which stored blocks it
  rolls back, which ones it asks for, and from whom. What the functions hand to \<open>BlockHelper\<close> is
  collected as \<open>helper_call\<close>s. Arguments: the parsers, \<open>block_hash\<close> (the hash of a block without
  its hash and signatures), the clock \<open>now\<close>, the answers of a round of questions.
\<close>

subsection \<open>Blocks by height\<close>

datatype SaveType = SyncNormal | SyncFromZero | Broadcast | Unknow

text \<open>Descending height, then descending time; blocks of one height and time are equivalent.\<close>

definition BlockComparator :: "CBlock \<Rightarrow> CBlock \<Rightarrow> bool" where
  "BlockComparator a b =
     (if bl_height b <s bl_height a then True
      else if bl_height a = bl_height b then (if bl_time b < bl_time a then True else False)
      else False)"

type_synonym block_map = "(u64, CBlock list) std_map"

definition addBlockToMap :: "CBlock \<Rightarrow> block_map \<Rightarrow> block_map" where
  "addBlockToMap block syncBlockData =
     (let m = (if map_of syncBlockData (bl_height block) = None then map_assign (bl_height block) [] syncBlockData
               else syncBlockData)
      in map_assign (bl_height block) (set_insert BlockComparator block (the (map_of m (bl_height block)))) m)"

datatype helper_call =
    CallRollback block_map
  | CallAddSync block_map SaveType
  | CallAddFast block_map SaveType

definition get_save_sync_type :: "chain_env \<Rightarrow> u64 \<Rightarrow> u64 \<Rightarrow> SaveType" where
  "get_save_sync_type env height chainHeight =
     (if chainHeight \<le> hashRangeSum env then SyncNormal
      else if sum_hash_floor env chainHeight - hashRangeSum env \<le> height then SyncNormal
      else SyncFromZero)"

definition level_table :: "(int \<times> int list) list" where
  "level_table =
     [(1, [1]), (2, [2]), (3, [2, 3]), (4, [3, 4]), (5, [3, 4, 5]), (6, [4, 5, 6]), (7, [4, 5, 6, 7]),
      (8, [5, 6, 7, 8]), (9, [5, 6, 7, 8, 9]), (10, [6, 7, 8, 9, 10])]"

definition checkByzantineFault :: "int \<Rightarrow> int \<Rightarrow> bool" where
  "checkByzantineFault receiveCount hitCount =
     (case map_of level_table receiveCount of None \<Rightarrow> False | Some hits \<Rightarrow> hitCount \<in> set hits)"

subsection \<open>Votes for the blocks of a height\<close>

definition RollBackTime :: u64 where "RollBackTime = 15000000"

type_synonym height_votes = "(u64, (cxx_string, cxx_string set) std_map) std_map"

definition vote_block :: "u64 \<Rightarrow> cxx_string \<Rightarrow> cxx_string \<Rightarrow> height_votes \<Rightarrow> height_votes" where
  "vote_block height hash node_id m =
     (case map_of m height of
        None \<Rightarrow> map_assign height [(hash, {node_id})] m
      | Some hm \<Rightarrow> map_assign height
          (case map_of hm hash of None \<Rightarrow> map_assign hash {node_id} hm | Some ids \<Rightarrow> map_assign hash (insert node_id ids) hm) m)"

fun vote_entries :: "cxx_string \<Rightarrow> cxx_string list \<Rightarrow> height_votes \<Rightarrow> height_votes run" where
  "vote_entries node_id [] m = Ret m"
| "vote_entries node_id (e # es) m =
     bind_run (parse_height_prefix e) (\<lambda>r. case r of
       None \<Rightarrow> vote_entries node_id es m
     | Some (height, hash) \<Rightarrow> vote_entries node_id es (vote_block height hash node_id m))"

fun collect_votes ::
    "(cxx_string \<Rightarrow> SyncGetBlockHeightAndHashAck option) \<Rightarrow> cxx_string list \<Rightarrow> height_votes \<Rightarrow> height_votes run" where
  "collect_votes parse_ack [] m = Ret m"
| "collect_votes parse_ack (r # rs) m =
     (case parse_ack r of
        None \<Rightarrow> collect_votes parse_ack rs m
      | Some ack \<Rightarrow>
          if ha_code ack \<noteq> 0 then collect_votes parse_ack rs m
          else bind_run (vote_entries (ha_self_node_id ack) (ha_block_hashes ack) m) (\<lambda>m. collect_votes parse_ack rs m))"

text \<open>This node votes under the name "temp", only for heights that somebody reported.\<close>

definition own_hashes :: "mreader \<Rightarrow> u64 \<Rightarrow> (DBStatus \<times> cxx_string list) run" where
  "own_hashes mrd height = getBlockHashesByBlockHeight mrd height height []"

definition add_own_votes :: "mreader \<Rightarrow> height_votes \<Rightarrow> (int + height_votes) run" where
  "add_own_votes mrd m =
     loop_run (\<lambda>m height.
       bind_run (own_hashes mrd height) (\<lambda>(dbRet, selfBlockHashes).
         if dbRet \<noteq> DB_SUCCESS \<and> dbRet \<noteq> DB_NOT_FOUND then Ret (Inl (-4))
         else Ret (Inr (foldl (\<lambda>m h. vote_block height (take SUBSTR_LEN h) ''temp'' m) m selfBlockHashes))))
       m (map fst m)"

text \<open>
  A hash with too few votes: nothing when this node does not have it, otherwise its block when it
  is older than 15 seconds.
\<close>

definition stale_block ::
    "(cxx_string \<Rightarrow> CBlock option) \<Rightarrow> u64 \<Rightarrow> reader \<Rightarrow> mreader \<Rightarrow> cxx_string list \<Rightarrow> u64 \<Rightarrow> cxx_string \<Rightarrow> (int + CBlock option) run" where
  "stale_block parse now rd mrd prefixes height hash =
     (if hash \<notin> set prefixes then Ret (Inr None)
      else bind_run (own_hashes mrd height) (\<lambda>(dbRet, blockHashes).
        if dbRet \<noteq> DB_SUCCESS then Ret (Inr None)
        else let robackHash = (case find (\<lambda>h. take SUBSTR_LEN h = hash) blockHashes of None \<Rightarrow> [] | Some h \<Rightarrow> h) in
          if robackHash = [] then Ret (Inl (-6))
          else bind_run (getBlockByBlockHash rd robackHash []) (\<lambda>(dbRet, strblock).
            if dbRet \<noteq> DB_SUCCESS then Ret (Inr None)
            else case parse strblock of
              None \<Rightarrow> Ret (Inr None)
            | Some block \<Rightarrow> Ret (Inr (if bl_time block < now - RollBackTime then Some block else None)))))"

record hash_verdict =
  hv_nodes :: "cxx_string set"
  hv_need :: "cxx_string list"
  hv_rollback :: block_map

definition judge_hash ::
    "(cxx_string \<Rightarrow> CBlock option) \<Rightarrow> u64 \<Rightarrow> reader \<Rightarrow> mreader \<Rightarrow> nat \<Rightarrow> cxx_string list \<Rightarrow> u64 \<Rightarrow>
     hash_verdict \<Rightarrow> cxx_string \<times> cxx_string set \<Rightarrow> (int + hash_verdict) run" where
  "judge_hash parse now rd mrd verifyNum prefixes height s hn =
     (case hn of (hash, ids) \<Rightarrow>
        if verifyNum \<le> card ids then
          Ret (Inr (if hash \<in> set prefixes then s
            else s\<lparr>hv_need := hv_need s @ [to_string height @ ''_'' @ hash],
                   hv_nodes := (if hv_nodes s = {} then ids else hv_nodes s \<inter> ids)\<rparr>))
        else bind_run (stale_block parse now rd mrd prefixes height hash) (\<lambda>r.
          Ret (case r of
                 Inl code \<Rightarrow> Inl code
               | Inr None \<Rightarrow> Inr s
               | Inr (Some block) \<Rightarrow> Inr (s\<lparr>hv_rollback := addBlockToMap block (hv_rollback s)\<rparr>))))"

definition judge_height ::
    "(cxx_string \<Rightarrow> CBlock option) \<Rightarrow> u64 \<Rightarrow> reader \<Rightarrow> mreader \<Rightarrow> nat \<Rightarrow>
     hash_verdict \<Rightarrow> u64 \<times> (cxx_string, cxx_string set) std_map \<Rightarrow> (int + hash_verdict) run" where
  "judge_height parse now rd mrd verifyNum s e =
     bind_run (own_hashes mrd (fst e)) (\<lambda>(dbRet, selfBlockHashes).
       if dbRet \<noteq> DB_SUCCESS \<and> dbRet \<noteq> DB_NOT_FOUND then Ret (Inl (-5))
       else loop_run (judge_hash parse now rd mrd verifyNum (map (take SUBSTR_LEN) selfBlockHashes) (fst e)) s (snd e))"

text \<open>
  The votes of a round, this node's included: the part \<open>getSyncBlockHashVerification\<close> and
  \<open>fetchRollbackBlock\<close> have in common. \<open>Inl\<close> is an error code.
\<close>

definition few_answers :: "nat \<Rightarrow> nat \<Rightarrow> bool" where
  "few_answers answers sendNum \<longleftrightarrow> (answers + 1) * 2 ^ 53 < double_times sendNum d08"

definition all_votes ::
    "(cxx_string \<Rightarrow> SyncGetBlockHeightAndHashAck option) \<Rightarrow> mreader \<Rightarrow> wait_round \<Rightarrow> cxx_string list \<Rightarrow> (int + height_votes) run" where
  "all_votes parse_ack mrd w node_ids_to_send =
     (if \<not> wr_created w then Ret (Inl (-1))
      else if \<not> list_all (wr_added w) node_ids_to_send then Ret (Inl (-2))
      else if \<not> wr_complete w \<and> few_answers (length (wr_answers w)) (length node_ids_to_send) then Ret (Inl (-3))
      else bind_run (collect_votes parse_ack (wr_answers w) []) (add_own_votes mrd))"

definition verify_num :: "nat \<Rightarrow> nat" where
  "verify_num answers = trunc_times (answers + 1) d051"

text \<open>
  \<open>getSyncBlockHashVerification\<close>: the error code, the nodes to ask, the hashes to ask for, the
  rollback it starts.
\<close>

definition getSyncBlockHashVerification ::
    "(cxx_string \<Rightarrow> SyncGetBlockHeightAndHashAck option) \<Rightarrow> (cxx_string \<Rightarrow> CBlock option) \<Rightarrow> u64 \<Rightarrow> reader \<Rightarrow> mreader \<Rightarrow>
     wait_round \<Rightarrow> cxx_string list \<Rightarrow> (int \<times> cxx_string list \<times> cxx_string list \<times> helper_call list) run" where
  "getSyncBlockHashVerification parse_ack parse now rd mrd w node_ids_to_send =
     bind_run (all_votes parse_ack mrd w node_ids_to_send) (\<lambda>r. case r of
       Inl code \<Rightarrow> Ret (code, [], [], [])
     | Inr consensusMap \<Rightarrow>
         bind_run (loop_run (judge_height parse now rd mrd (verify_num (length (wr_answers w))))
             \<lparr>hv_nodes = {}, hv_need = [], hv_rollback = []\<rparr> consensusMap) (\<lambda>r. case r of
           Inl code \<Rightarrow> Ret (code, [], [], [])
         | Inr s \<Rightarrow> Ret (0, sorted_list_of_set (hv_nodes s - {''temp''}), hv_need s,
                        if hv_rollback s \<noteq> [] then [CallRollback (hv_rollback s)] else [])))"

text \<open>\<open>fetchRollbackBlock\<close> looks at the same votes and returns the blocks to roll back.\<close>

definition fetch_hash ::
    "(cxx_string \<Rightarrow> CBlock option) \<Rightarrow> u64 \<Rightarrow> reader \<Rightarrow> mreader \<Rightarrow> nat \<Rightarrow> cxx_string list \<Rightarrow> u64 \<Rightarrow>
     CBlock list \<Rightarrow> cxx_string \<times> cxx_string set \<Rightarrow> ((int \<times> CBlock list) + CBlock list) run" where
  "fetch_hash parse now rd mrd verifyNum prefixes height retBlocks hn =
     (case hn of (hash, ids) \<Rightarrow>
        if verifyNum \<le> card ids then Ret (Inr retBlocks)
        else bind_run (stale_block parse now rd mrd prefixes height hash) (\<lambda>r.
          Ret (case r of
                 Inl code \<Rightarrow> Inl (code, retBlocks)
               | Inr None \<Rightarrow> Inr retBlocks
               | Inr (Some block) \<Rightarrow> Inr (retBlocks @ [block]))))"

definition fetch_height ::
    "(cxx_string \<Rightarrow> CBlock option) \<Rightarrow> u64 \<Rightarrow> reader \<Rightarrow> mreader \<Rightarrow> nat \<Rightarrow>
     CBlock list \<Rightarrow> u64 \<times> (cxx_string, cxx_string set) std_map \<Rightarrow> ((int \<times> CBlock list) + CBlock list) run" where
  "fetch_height parse now rd mrd verifyNum retBlocks e =
     bind_run (own_hashes mrd (fst e)) (\<lambda>(dbRet, selfBlockHashes).
       if dbRet \<noteq> DB_SUCCESS \<and> dbRet \<noteq> DB_NOT_FOUND then Ret (Inl (-5, retBlocks))
       else loop_run (fetch_hash parse now rd mrd verifyNum (map (take SUBSTR_LEN) selfBlockHashes) (fst e)) retBlocks (snd e))"

definition fetchRollbackBlock ::
    "(cxx_string \<Rightarrow> SyncGetBlockHeightAndHashAck option) \<Rightarrow> (cxx_string \<Rightarrow> CBlock option) \<Rightarrow> u64 \<Rightarrow> reader \<Rightarrow> mreader \<Rightarrow>
     wait_round \<Rightarrow> cxx_string list \<Rightarrow> (int \<times> CBlock list) run" where
  "fetchRollbackBlock parse_ack parse now rd mrd w node_ids_to_send =
     bind_run (all_votes parse_ack mrd w node_ids_to_send) (\<lambda>r. case r of
       Inl code \<Rightarrow> Ret (code, [])
     | Inr consensusMap \<Rightarrow>
         bind_run (loop_run (fetch_height parse now rd mrd (verify_num (length (wr_answers w)))) [] consensusMap) (\<lambda>r. case r of
           Inl res \<Rightarrow> Ret res
         | Inr retBlocks \<Rightarrow> Ret (0, retBlocks)))"

subsection \<open>Fetching the blocks\<close>

definition usable_block :: "(CBlock \<Rightarrow> cxx_string) \<Rightarrow> cxx_string list \<Rightarrow> CBlock \<Rightarrow> bool" where
  "usable_block block_hash reqHashes block \<longleftrightarrow>
     to_string (bl_height block) @ ''_'' @ take SUBSTR_LEN (bl_hash block) \<in> set reqHashes \<and> bl_hash block = block_hash block"

definition getSyncBlockData ::
    "(cxx_string \<Rightarrow> SyncGetBlockAck option) \<Rightarrow> (cxx_string \<Rightarrow> CBlock option) \<Rightarrow> (CBlock \<Rightarrow> cxx_string) \<Rightarrow>
     (cxx_string list \<Rightarrow> cxx_string list) \<Rightarrow> wait_round \<Rightarrow> cxx_string list \<Rightarrow> cxx_string list \<Rightarrow> int \<times> helper_call list" where
  "getSyncBlockData parse_ack parse block_hash shuffle w node_ids_to_send reqHashes =
     (if reqHashes = [] \<or> node_ids_to_send = [] then (0, [])
      else if \<not> wr_created w then (-1, [])
      else let asked = (if 10 < length node_ids_to_send then take 10 (shuffle node_ids_to_send) else node_ids_to_send) in
        if \<not> list_all (wr_added w) asked then (-2, [])
        else if \<not> wr_complete w \<and> wr_answers w = [] then (-3, [])
        else let raws = concat (map (\<lambda>r. case parse_ack r of None \<Rightarrow> [] | Some ack \<Rightarrow> sba_blocks ack) (wr_answers w));
                 blocks = filter (usable_block block_hash reqHashes) (concat (map (\<lambda>raw. case parse raw of None \<Rightarrow> [] | Some b \<Rightarrow> [b]) raws))
             in (0, [CallAddSync (foldl (\<lambda>m b. addBlockToMap b m) [] blocks) SyncNormal]))"

end
