(* ===== verification/SyncFast.thy ===== *)
theory SyncFast
  imports SyncVote
begin

text \<open>
  The two other kinds of synchronization in \<open>ca/sync_block.cpp\<close>: the fast one, which compares the
  hashes of some heights and fetches missing blocks at once, and the one from height zero, which
  compares sum hashes of 100 heights and fetches whole ranges. \<open>sync_state\<close> holds the file's
  static variables and the members of \<open>SyncBlock\<close>; \<open>helper_calls\<close> is what was handed to
  \<open>BlockHelper\<close>.
\<close>

subsection \<open>State\<close>

record sync_state =
  sync_fail_height :: u64
  runFastSync :: bool
  isFastSyncFailed :: bool
  execute_new_sync :: bool
  initialSyncStartHeight :: u64
  syncHeightCount :: u32
  syncSendNewSyncNumber :: u64
  syncSendFastSyncCount :: u64
  sync_send_zero_sync_num :: u64
  runFastSyncCount :: u32
  runZeroSyncCount :: u32
  fastSyncHeightCount :: u32
  syncFromZeroCache :: "(u64, block_map) std_map"
  syncFromZeroReserveHeights :: "u64 list"
  node_state :: sync_node_state
  helper_calls :: "helper_call list"

definition call_helper :: "helper_call list \<Rightarrow> sync_state \<Rightarrow> sync_state" where
  "call_helper cs s = s\<lparr>helper_calls := helper_calls s @ cs\<rparr>"

definition SetFastSync :: "u64 \<Rightarrow> sync_state \<Rightarrow> sync_state" where
  "SetFastSync syncStartHeight s = s\<lparr>runFastSync := True, sync_fail_height := syncStartHeight\<rparr>"

definition set_new_sync_height :: "u64 \<Rightarrow> sync_state \<Rightarrow> sync_state" where
  "set_new_sync_height height s =
     (let s = s\<lparr>execute_new_sync := True\<rparr>;
          s = (if initialSyncStartHeight s = 0 then s\<lparr>initialSyncStartHeight := height\<rparr> else s)
      in if height < initialSyncStartHeight s then s\<lparr>initialSyncStartHeight := height\<rparr> else s)"

subsection \<open>Fast synchronization: agreeing on hashes\<close>

record FastSynchronizationHelper =
  fsh_hits :: nat
  fsh_ids :: "cxx_string set"
  fsh_height :: u64

type_synonym fast_votes = "(cxx_string, FastSynchronizationHelper) std_map"

definition fast_vote :: "cxx_string \<Rightarrow> u64 \<Rightarrow> cxx_string \<Rightarrow> fast_votes \<Rightarrow> fast_votes" where
  "fast_vote node_id height hash m =
     (let v = (case map_of m hash of None \<Rightarrow> \<lparr>fsh_hits = 0, fsh_ids = {}, fsh_height = height\<rparr> | Some v \<Rightarrow> v)
      in map_assign hash (v\<lparr>fsh_hits := fsh_hits v + 1, fsh_ids := insert node_id (fsh_ids v)\<rparr>) m)"

text \<open>
  The set of hashes of an answer is never emptied between its heights; the map of heights keeps
  what the first answer put there.
\<close>

definition fast_entry ::
    "cxx_string \<Rightarrow> fast_votes \<times> (u64, cxx_string set) std_map \<times> cxx_string set \<Rightarrow> FastSyncBlockHashs \<Rightarrow>
     fast_votes \<times> (u64, cxx_string set) std_map \<times> cxx_string set" where
  "fast_entry node_id st e =
     (case st of (m, fastSyncHashes, heightToHashes) \<Rightarrow>
        let heightToHashes = heightToHashes \<union> set (fh_hashs e);
            m = foldl (\<lambda>m hash. fast_vote node_id (fh_height e) hash m) m (fh_hashs e)
        in (m, if map_of fastSyncHashes (fh_height e) = None then map_assign (fh_height e) heightToHashes fastSyncHashes
               else fastSyncHashes, heightToHashes))"

definition fast_answer ::
    "(cxx_string \<Rightarrow> FastSyncGetHashAck option) \<Rightarrow> fast_votes \<times> (u64, cxx_string set) std_map \<times> nat \<Rightarrow> cxx_string \<Rightarrow>
     fast_votes \<times> (u64, cxx_string set) std_map \<times> nat" where
  "fast_answer parse_ack st retData =
     (case st of (m, fastSyncHashes, ret_num) \<Rightarrow>
      case parse_ack retData of
        None \<Rightarrow> st
      | Some ack \<Rightarrow>
          let (m, fastSyncHashes, _) = foldl (fast_entry (fga_self_node_id ack)) (m, fastSyncHashes, {}) (fga_hashs ack)
          in (m, fastSyncHashes, ret_num + 1))"

definition fast_collect ::
    "(cxx_string \<Rightarrow> FastSyncGetHashAck option) \<Rightarrow> cxx_string list \<Rightarrow> fast_votes \<times> (u64, cxx_string set) std_map \<times> nat" where
  "fast_collect parse_ack retDatas = foldl (fast_answer parse_ack) ([], [], 0) retDatas"

definition fast_agreed :: "nat \<Rightarrow> FastSynchronizationHelper \<Rightarrow> bool" where
  "fast_agreed ret_num v \<longleftrightarrow> at_least_times (fsh_hits v) ret_num d066"

record fast_verdict =
  fv_remaining :: "(cxx_string \<times> FastSynchronizationHelper) list"
  fv_rollback :: block_map
  fv_height :: u64

text \<open>
  The first block of this node at the height that the collected hashes lack and that is more than
  ten below the chain height. \<open>None\<close> is \<open>return false\<close>.
\<close>

fun first_missing ::
    "(cxx_string \<Rightarrow> CBlock option) \<Rightarrow> reader \<Rightarrow> u64 \<Rightarrow> cxx_string list \<Rightarrow> fast_verdict \<Rightarrow> fast_verdict option run" where
  "first_missing parse rd chainHeight [] s = Ret (Some s)"
| "first_missing parse rd chainHeight (diffHash # hs) s =
     bind_run (getBlockByBlockHash rd diffHash []) (\<lambda>(res, strblock).
       if res \<noteq> DB_SUCCESS then Ret None
       else let block = (case parse strblock of None \<Rightarrow> CBlock_new | Some b \<Rightarrow> b); tmp_height = bl_height block in
         if tmp_height < chainHeight \<and> 10 < chainHeight - tmp_height
         then Ret (Some (s\<lparr>fv_rollback := addBlockToMap block (fv_rollback s), fv_height := tmp_height\<rparr>))
         else first_missing parse rd chainHeight hs s)"

text \<open>One hash: \<open>Inl None\<close> is \<open>return false\<close>, \<open>Inl (Some s)\<close> leaves the loop.\<close>

definition judge_fast ::
    "(cxx_string \<Rightarrow> CBlock option) \<Rightarrow> u64 \<Rightarrow> reader \<Rightarrow> mreader \<Rightarrow> u64 \<Rightarrow> nat \<Rightarrow> (u64, cxx_string set) std_map \<Rightarrow>
     (u64, cxx_string list) std_map \<Rightarrow> fast_verdict \<Rightarrow> cxx_string \<times> FastSynchronizationHelper \<Rightarrow>
     (fast_verdict option + fast_verdict) run" where
  "judge_fast parse now rd mrd chainHeight ret_num fastSyncHashes local s it =
     (let h = fsh_height (snd it);
          localHashs = (case map_of local h of None \<Rightarrow> [] | Some l \<Rightarrow> l) in
      if \<not> fast_agreed ret_num (snd it) then
        bind_run (getBlockByBlockHash rd (fst it) []) (\<lambda>(ret, block_raw).
          if ret \<noteq> DB_SUCCESS then Ret (Inr s)
          else case parse block_raw of
            None \<Rightarrow> Ret (Inl None)
          | Some block \<Rightarrow>
              if kStabilityTime < now - bl_time block
              then Ret (Inl (Some (s\<lparr>fv_rollback := addBlockToMap block (fv_rollback s), fv_height := bl_height block\<rparr>)))
              else Ret (Inr s))
      else bind_run (own_hashes mrd h) (\<lambda>(ret, selfBlockHashes).
        if ret \<noteq> DB_SUCCESS then Ret (Inl None)
        else bind_run (case map_of fastSyncHashes h of
                 None \<Rightarrow> Ret (Some s)
               | Some hs \<Rightarrow> first_missing parse rd chainHeight
                   (set_difference (sort selfBlockHashes) (sorted_list_of_set hs)) s) (\<lambda>r.
          case r of
            None \<Rightarrow> Ret (Inl None)
          | Some s \<Rightarrow> Ret (Inr (if fst it \<notin> set localHashs then s\<lparr>fv_remaining := fv_remaining s @ [it]\<rparr> else s)))))"

fun request_hash :: "u64 \<Rightarrow> cxx_string \<Rightarrow> FastSyncBlockHashs list \<Rightarrow> FastSyncBlockHashs list" where
  "request_hash height hash [] = [\<lparr>fh_height = height, fh_hashs = [hash]\<rparr>]"
| "request_hash height hash (e # es) =
     (if height = fh_height e then e\<lparr>fh_hashs := fh_hashs e @ [hash]\<rparr> # es else e # request_hash height hash es)"

definition common_ids :: "(cxx_string \<times> FastSynchronizationHelper) list \<Rightarrow> cxx_string set" where
  "common_ids remaining = foldl (\<lambda>ids it. fsh_ids (snd it) \<inter> ids) (fsh_ids (snd (hd remaining))) (tl remaining)"

text \<open>
  The result: what the function returns, the hashes to request and the nodes that have them all.
\<close>

definition get_fast_sync_sum_hash_node ::
    "chain_env \<Rightarrow> (cxx_string \<Rightarrow> FastSyncGetHashAck option) \<Rightarrow> (cxx_string \<Rightarrow> CBlock option) \<Rightarrow> u64 \<Rightarrow> reader \<Rightarrow> mreader \<Rightarrow>
     Node list \<Rightarrow> wait_round \<Rightarrow> cxx_string list \<Rightarrow> u64 \<Rightarrow> u64 \<Rightarrow> u64 \<Rightarrow> sync_state \<Rightarrow>
     ((bool \<times> FastSyncBlockHashs list \<times> cxx_string list) \<times> sync_state) run" where
  "get_fast_sync_sum_hash_node env parse_ack parse now rd mrd nodes w node_ids_to_send syncInitHeight endSyncHeight chainHeight st =
     (let sendNum = length node_ids_to_send in
      if \<not> wr_created w then Ret ((False, [], []), st)
      else if \<not> list_all (wr_added w) node_ids_to_send then Ret ((False, [], []), st)
      else if \<not> wr_complete w \<and> \<not> at_least_times (length (wr_answers w)) sendNum d05 then Ret ((False, [], []), st)
      else let (syncHashs, fastSyncHashes, ret_num) = fast_collect parse_ack (wr_answers w) in
        bind_run (getHeightBlockHash_map rd syncInitHeight endSyncHeight) (\<lambda>local. case local of
          None \<Rightarrow> Ret ((False, [], []), st)
        | Some local \<Rightarrow>
            bind_run (loop_run (judge_fast parse now rd mrd chainHeight ret_num fastSyncHashes local)
                \<lparr>fv_remaining = [], fv_rollback = [], fv_height = 0\<rparr> syncHashs) (\<lambda>r.
              case (case r of Inl None \<Rightarrow> None | Inl (Some s) \<Rightarrow> Some s | Inr s \<Rightarrow> Some s) of
                None \<Rightarrow> Ret ((False, [], []), st)
              | Some s \<Rightarrow>
                  if fv_rollback s \<noteq> [] then
                    (if syncSendFastSyncCount st < of_nat (length (filter (qualifies env) nodes))
                     then Ret ((False, [], []), st\<lparr>sync_fail_height := fv_height s, isFastSyncFailed := True,
                                                   syncSendFastSyncCount := UINT32_MAX\<rparr>)
                     else Ret ((False, [], []), call_helper [CallRollback (fv_rollback s)] st))
                  else if fv_remaining s = [] then Ret ((False, [], []), st)
                  else let ids = common_ids (fv_remaining s) in
                    Ret ((ids \<noteq> {},
                          foldl (\<lambda>acc it. request_hash (fsh_height (snd it)) (fst it) acc) [] (fv_remaining s),
                          sorted_list_of_set ids), st))))"

definition get_fast_sync_block_data ::
    "chain_env \<Rightarrow> (cxx_string \<Rightarrow> FastSyncGetBlockAck option) \<Rightarrow> (cxx_string \<Rightarrow> CBlock option) \<Rightarrow> (CBlock \<Rightarrow> cxx_string) \<Rightarrow>
     (FastSyncBlock list \<Rightarrow> FastSyncBlock list) \<Rightarrow> reader \<Rightarrow> wait_round \<Rightarrow> cxx_string \<Rightarrow> FastSyncBlockHashs list \<Rightarrow> u64 \<Rightarrow>
     sync_state \<Rightarrow> (bool \<times> sync_state) run" where
  "get_fast_sync_block_data env parse_ack parse block_hash sort_by_height rd w sendNodeId requestHashs chainHeight st =
     (if requestHashs = [] then Ret (True, st)
      else if \<not> wr_created w then Ret (False, st)
      else if \<not> wr_added w sendNodeId then Ret (False, st)
      else if \<not> wr_complete w then Ret (False, st)
      else if wr_answers w = [] then Ret (False, st)
      else case parse_ack (hd (wr_answers w)) of
        None \<Rightarrow> Ret (False, st)
      | Some ack \<Rightarrow>
          let raws = concat (map fb_blocks (sort_by_height (fba_blocks ack)));
              blocks = filter (\<lambda>b. bl_hash b = block_hash b)
                         (concat (map (\<lambda>raw. case parse raw of None \<Rightarrow> [] | Some b \<Rightarrow> [b]) raws)) in
          bind_run (getBlockTop rd 0) (\<lambda>(ret, top_h).
            if ret \<noteq> DB_SUCCESS then Ret (False, st)
            else Ret (True, call_helper [CallAddFast (foldl (\<lambda>m b. addBlockToMap b m) [] blocks)
                                           (get_save_sync_type env top_h chainHeight)] st)))"

subsection \<open>Synchronization from zero: agreeing on sum hashes\<close>

type_synonym zero_votes = "(cxx_string, u64 \<times> cxx_string list) std_map"

text \<open>The node that reports a hash first is not recorded.\<close>

definition zero_vote :: "cxx_string \<Rightarrow> zero_votes \<Rightarrow> SyncFromZeroSumHash \<Rightarrow> zero_votes" where
  "zero_vote node_id m e =
     (case map_of m (zsh_hash e) of
        None \<Rightarrow> map_assign (zsh_hash e) (zsh_height e, []) m
      | Some (height, ids) \<Rightarrow> map_assign (zsh_hash e) (height, ids @ [node_id]) m)"

definition zero_answer ::
    "(cxx_string \<Rightarrow> SyncFromZeroGetSumHashAck option) \<Rightarrow> u64 \<Rightarrow> zero_votes \<times> nat \<Rightarrow> cxx_string \<Rightarrow> zero_votes \<times> nat" where
  "zero_answer parse_ack zero_num st retData =
     (case parse_ack retData of
        None \<Rightarrow> st
      | Some ack \<Rightarrow>
          if zsa_code ack = 0 then (fst st, if UINT32_MAX \<le> zero_num then snd st + 1 else snd st)
          else (foldl (zero_vote (zsa_self_node_id ack)) (fst st) (zsa_sum_hashes ack), snd st + 1))"

definition zero_collect ::
    "(cxx_string \<Rightarrow> SyncFromZeroGetSumHashAck option) \<Rightarrow> u64 \<Rightarrow> cxx_string list \<Rightarrow> zero_votes \<times> nat" where
  "zero_collect parse_ack zero_num retDatas = foldl (zero_answer parse_ack zero_num) ([], 0) retDatas"

text \<open>
  The loop over the hashes: an agreed one is kept with its nodes; when everybody was asked, the
  hash with the most nodes of the lowest heights replaces all, and the loop ends. \<open>by_size\<close> is
  the \<open>std::sort\<close> by descending number of nodes.
\<close>

fun judge_zero ::
    "((cxx_string \<times> cxx_string list) list \<Rightarrow> (cxx_string \<times> cxx_string list) list) \<Rightarrow> u64 \<Rightarrow> nat \<Rightarrow> u64 \<Rightarrow> zero_votes \<Rightarrow>
     zero_votes \<Rightarrow> (u64, cxx_string) std_map \<times> cxx_string set \<Rightarrow> (u64, cxx_string) std_map \<times> cxx_string set" where
  "judge_zero by_size zero_num success_count nodeSelfHeight hashDataTotal [] st = st"
| "judge_zero by_size zero_num success_count nodeSelfHeight hashDataTotal ((hash, height, ids) # rest) st =
     (if at_least_times (length ids) success_count d066
      then judge_zero by_size zero_num success_count nodeSelfHeight hashDataTotal rest (map_assign height hash (fst st), snd st \<union> set ids)
      else if UINT32_MAX \<le> zero_num then
        (if nodeSelfHeight div 100 * 100 + 100 < height
         then judge_zero by_size zero_num success_count nodeSelfHeight hashDataTotal rest st
         else if map_of (fst st) height \<noteq> None
         then judge_zero by_size zero_num success_count nodeSelfHeight hashDataTotal rest st
         else let nodeIds = by_size (map (\<lambda>e. (fst e, snd (snd e))) (filter (\<lambda>e. fst (snd e) = height) hashDataTotal))
              in ([(height, fst (nodeIds ! 0))], set (snd (nodeIds ! 0))))
      else judge_zero by_size zero_num success_count nodeSelfHeight hashDataTotal rest st)"

definition get_from_zero_sync_sum_hash_node ::
    "(cxx_string \<Rightarrow> SyncFromZeroGetSumHashAck option) \<Rightarrow>
     ((cxx_string \<times> cxx_string list) list \<Rightarrow> (cxx_string \<times> cxx_string list) list) \<Rightarrow> u64 \<Rightarrow> wait_round \<Rightarrow> cxx_string list \<Rightarrow> u64 \<Rightarrow>
     int \<times> cxx_string set \<times> (u64, cxx_string) std_map" where
  "get_from_zero_sync_sum_hash_node parse_ack by_size zero_num w node_ids_to_send nodeSelfHeight =
     (let sendNum = length node_ids_to_send; retDatas = wr_answers w in
      if \<not> wr_created w then (-1, {}, [])
      else if \<not> list_all (wr_added w) node_ids_to_send then (-2, {}, [])
      else if \<not> wr_complete w \<and> (retDatas = [] \<or> length retDatas < sendNum div 2) then (-3, {}, [])
      else let (hashDataTotal, success_count) = zero_collect parse_ack zero_num retDatas;
               isByzantineSuccessful =
                 (if UINT32_MAX \<le> zero_num then trunc_times sendNum d08 \<le> success_count
                  else trunc_times sendNum d066 < success_count) in
        if \<not> isByzantineSuccessful then (-4, {}, [])
        else let (sumHashes, node_ids_returned) =
               judge_zero by_size zero_num success_count nodeSelfHeight hashDataTotal hashDataTotal ([], {}) in
          (if sumHashes = [] then -5 else 0, node_ids_returned, sumHashes))"

subsection \<open>Synchronization from zero: fetching ranges\<close>

text \<open>The blocks of an answer up to the first that does not parse.\<close>

fun parsed_prefix :: "(cxx_string \<Rightarrow> CBlock option) \<Rightarrow> cxx_string list \<Rightarrow> CBlock list" where
  "parsed_prefix parse [] = []"
| "parsed_prefix parse (r # rs) = (case parse r of None \<Rightarrow> [] | Some b \<Rightarrow> b # parsed_prefix parse rs)"

definition hashes_by_height :: "CBlock list \<Rightarrow> (u64, cxx_string list) std_map" where
  "hashes_by_height bs = foldl (\<lambda>m b. add_at_height (bl_height b) (bl_hash b) m) [] bs"

text \<open>
  What differs from the stored blocks of one height is rolled back, unless more nodes could be
  asked. \<open>Inl\<close> returns from the function.
\<close>

definition zero_height ::
    "chain_env \<Rightarrow> (cxx_string \<Rightarrow> CBlock option) \<Rightarrow> reader \<Rightarrow> mreader \<Rightarrow> Node list \<Rightarrow> u64 \<Rightarrow>
     sync_state \<Rightarrow> u64 \<times> cxx_string list \<Rightarrow> ((int \<times> sync_state) + sync_state) run" where
  "zero_height env parse rd mrd nodes nodeSelfHeight st e =
     (if nodeSelfHeight < fst e then Ret (Inr st)
      else bind_run (own_hashes mrd (fst e)) (\<lambda>(ret, blockHashes).
        if ret \<noteq> DB_SUCCESS then Ret (Inl (-5, st))
        else let (own_sorted, selfSumHash) = calculateSumHeightHash env blockHashes;
                 (others, otherSumHashValue) = calculateSumHeightHash env (snd e) in
          if selfSumHash = otherSumHashValue then Ret (Inr st)
          else bind_run (loop_run (\<lambda>acc diffHash.
                 bind_run (getBlockByBlockHash rd diffHash []) (\<lambda>(res, strblock).
                   if res \<noteq> DB_SUCCESS then Ret (Inl ())
                   else Ret (Inr (addBlockToMap (case parse strblock of None \<Rightarrow> CBlock_new | Some b \<Rightarrow> b) acc))))
                 [] (set_difference own_sorted others)) (\<lambda>r. case r of
            Inl _ \<Rightarrow> Ret (Inl (-6, st))
          | Inr rollbackBlockData \<Rightarrow>
              if rollbackBlockData = [] then Ret (Inr st)
              else if sync_send_zero_sync_num st < of_nat (length (filter (qualifies env) nodes))
              then Ret (Inl (-7, st\<lparr>sync_send_zero_sync_num := UINT32_MAX\<rparr>))
              else Ret (Inr (call_helper [CallRollback rollbackBlockData] st)))))"

text \<open>One answer; the second component collects the heights that succeeded.\<close>

definition zero_range ::
    "chain_env \<Rightarrow> (cxx_string \<Rightarrow> SyncFromZeroGetBlockAck option) \<Rightarrow> (cxx_string \<Rightarrow> CBlock option) \<Rightarrow> reader \<Rightarrow> mreader \<Rightarrow>
     Node list \<Rightarrow> u64 \<Rightarrow> (u64, cxx_string) std_map \<Rightarrow> sync_state \<times> u64 list \<Rightarrow> cxx_string \<Rightarrow>
     ((int \<times> sync_state) + sync_state \<times> u64 list) run" where
  "zero_range env parse_ack parse rd mrd nodes nodeSelfHeight sumHashes s retData =
     (case s of (st, done_heights) \<Rightarrow>
      case parse_ack retData of
        None \<Rightarrow> Ret (Inr s)
      | Some ack \<Rightarrow>
          let blocks = parsed_prefix parse (zba_blocks ack); sums = hashes_by_height blocks in
          if map_of sumHashes (zba_height ack) \<noteq> Some (sumHeightsHash env sums) then Ret (Inr s)
          else bind_run (loop_run (zero_height env parse rd mrd nodes nodeSelfHeight) st sums) (\<lambda>r. case r of
            Inl x \<Rightarrow> Ret (Inl x)
          | Inr st \<Rightarrow> Ret (Inr (st\<lparr>syncFromZeroCache :=
                map_assign (zba_height ack) (foldl (\<lambda>m b. addBlockToMap b m) [] blocks) (syncFromZeroCache st)\<rparr>,
              done_heights @ [zba_height ack]))))"

text \<open>
  When all ranges have come, a thread hands the cache to \<open>BlockHelper\<close> and empties it; the model
  runs it at once. \<open>remove1\<close> is the erasure of the first occurrence.
\<close>

definition getSyncBlockDataFromZero ::
    "chain_env \<Rightarrow> (cxx_string \<Rightarrow> SyncFromZeroGetBlockAck option) \<Rightarrow> (cxx_string \<Rightarrow> CBlock option) \<Rightarrow>
     (cxx_string list \<Rightarrow> cxx_string list) \<Rightarrow> reader \<Rightarrow> mreader \<Rightarrow> Node list \<Rightarrow> wait_round \<Rightarrow> (u64, cxx_string) std_map \<Rightarrow>
     u64 list \<Rightarrow> cxx_string set \<Rightarrow> u64 \<Rightarrow> sync_state \<Rightarrow> (int \<times> sync_state) run" where
  "getSyncBlockDataFromZero env parse_ack parse shuffle rd mrd nodes w sumHashes heightsForSending set_send_node_ids nodeSelfHeight st =
     (if set_send_node_ids = {} \<or> sumHashes = [] then Ret (-1, st)
      else if card set_send_node_ids < length sumHashes then Ret (-1, st)
      else let node_ids_to_send = take (length sumHashes) (shuffle (sorted_list_of_set set_send_node_ids)) in
        if length node_ids_to_send \<noteq> length sumHashes then Ret (-2, st)
        else if \<not> wr_created w then Ret (-3, st)
        else if \<not> list_all (wr_added w) node_ids_to_send then Ret (-4, st)
        else bind_run (loop_run (zero_range env parse_ack parse rd mrd nodes nodeSelfHeight sumHashes) (st, []) (wr_answers w))
          (\<lambda>r. case r of
             Inl x \<Rightarrow> Ret x
           | Inr (st, successfulHeights) \<Rightarrow>
               if successfulHeights = [] then Ret (-8, st)
               else let left = foldl (\<lambda>hs h. remove1 h hs) heightsForSending successfulHeights;
                        st = st\<lparr>syncFromZeroReserveHeights := left\<rparr> in
                 if left \<noteq> [] then Ret (-9, st)
                 else Ret (0, (call_helper (map (\<lambda>c. CallAddSync (snd c) SyncFromZero) (syncFromZeroCache st)) st)
                                \<lparr>syncFromZeroCache := []\<rparr>)))"

end
