(* ===== verification/SyncLoop.thy ===== *)
theory SyncLoop
  imports SyncFast
begin

text \<open>
  The synchronization thread of \<open>ca/sync_block.cpp\<close>: the three kinds of runs and the body of the
  thread's loop, which decides between them. A \<open>sync_io\<close> is what one turn of the loop meets: the
  database, the connected nodes, the clock, the random choices and the rounds of questions.
  \<open>sync_parsers\<close> are the parsers of the messages.
\<close>

record sync_parsers =
  ps_block :: "cxx_string \<Rightarrow> CBlock option"
  ps_block_hash :: "CBlock \<Rightarrow> cxx_string"
  ps_node_hash :: "cxx_string \<Rightarrow> SyncNodeHashAck option"
  ps_fast_hash :: "cxx_string \<Rightarrow> FastSyncGetHashAck option"
  ps_fast_block :: "cxx_string \<Rightarrow> FastSyncGetBlockAck option"
  ps_hashes :: "cxx_string \<Rightarrow> SyncGetBlockHeightAndHashAck option"
  ps_blocks :: "cxx_string \<Rightarrow> SyncGetBlockAck option"
  ps_sum_hash :: "cxx_string \<Rightarrow> SyncFromZeroGetSumHashAck option"
  ps_range :: "cxx_string \<Rightarrow> SyncFromZeroGetBlockAck option"

record sync_io =
  io_rd :: reader
  io_mrd :: mreader
  io_nodes :: "Node list"
  io_now :: u64
  io_rnd :: "nat \<Rightarrow> nat"
  io_shuffle :: "cxx_string list \<Rightarrow> cxx_string list"
  io_by_height :: "FastSyncBlock list \<Rightarrow> FastSyncBlock list"
  io_by_size :: "(cxx_string \<times> cxx_string list) list \<Rightarrow> (cxx_string \<times> cxx_string list) list"
  io_stuck_round :: wait_round
  io_vote_round :: wait_round
  io_data_round :: wait_round
  io_node_round :: "cxx_string \<Rightarrow> wait_round"

subsection \<open>The three runs\<close>

definition sync_nodes ::
    "chain_env \<Rightarrow> sync_parsers \<Rightarrow> sync_io \<Rightarrow> u32 \<Rightarrow> u64 \<Rightarrow> cxx_string list \<Rightarrow> sync_state \<Rightarrow> ((int \<times> cxx_string list) \<times> sync_state) run" where
  "sync_nodes env ps io num chainHeight pledgeAddr st =
     bind_run (getSyncNode env (ps_node_hash ps) (io_stuck_round io) (io_rnd io) (io_rd io) (io_nodes io) num chainHeight
                 pledgeAddr (node_state st))
       (\<lambda>(r, ns). Ret (r, st\<lparr>node_state := ns\<rparr>))"

fun try_nodes ::
    "chain_env \<Rightarrow> sync_parsers \<Rightarrow> sync_io \<Rightarrow> FastSyncBlockHashs list \<Rightarrow> u64 \<Rightarrow> cxx_string list \<Rightarrow> sync_state \<Rightarrow> (bool \<times> sync_state) run" where
  "try_nodes env ps io requestHashs chainHeight [] st = Ret (False, st)"
| "try_nodes env ps io requestHashs chainHeight (nodeId # ids) st =
     bind_run (get_fast_sync_block_data env (ps_fast_block ps) (ps_block ps) (ps_block_hash ps) (io_by_height io) (io_rd io)
                 (io_node_round io nodeId) nodeId requestHashs chainHeight st)
       (\<lambda>(ok, st). if ok then Ret (True, st) else try_nodes env ps io requestHashs chainHeight ids st)"

definition runFastSyncOnce ::
    "chain_env \<Rightarrow> sync_parsers \<Rightarrow> sync_io \<Rightarrow> cxx_string list \<Rightarrow> u64 \<Rightarrow> u64 \<Rightarrow> u64 \<Rightarrow> u32 \<Rightarrow> sync_state \<Rightarrow> (bool \<times> sync_state) run" where
  "runFastSyncOnce env ps io pledgeAddr chainHeight syncInitHeight endSyncHeight syncNodeCount st =
     (if endSyncHeight < syncInitHeight then Ret (False, st)
      else bind_run (sync_nodes env ps io syncNodeCount chainHeight pledgeAddr st) (\<lambda>((ret, node_ids_to_send), st).
        if ret \<noteq> 0 then Ret (False, st)
        else bind_run (get_fast_sync_sum_hash_node env (ps_fast_hash ps) (ps_block ps) (io_now io) (io_rd io) (io_mrd io)
                 (io_nodes io) (io_vote_round io) node_ids_to_send syncInitHeight endSyncHeight chainHeight st)
          (\<lambda>((ok, requestHashs, node_ids_returned), st).
            if \<not> ok then Ret (False, st) else try_nodes env ps io requestHashs chainHeight node_ids_returned st)))"

definition runNewSyncOnce ::
    "chain_env \<Rightarrow> sync_parsers \<Rightarrow> sync_io \<Rightarrow> cxx_string list \<Rightarrow> u64 \<Rightarrow> u64 \<Rightarrow> u64 \<Rightarrow> u32 \<Rightarrow> sync_state \<Rightarrow> (int \<times> sync_state) run" where
  "runNewSyncOnce env ps io pledgeAddr chainHeight syncInitHeight endSyncHeight syncNodeCount st =
     (if endSyncHeight < syncInitHeight then Ret (-1, st)
      else bind_run (sync_nodes env ps io syncNodeCount chainHeight pledgeAddr st) (\<lambda>((ret, node_ids_to_send), st).
        if ret \<noteq> 0 then Ret (ret - 1000, st)
        else bind_run (getSyncBlockHashVerification (ps_hashes ps) (ps_block ps) (io_now io) (io_rd io) (io_mrd io)
                 (io_vote_round io) node_ids_to_send) (\<lambda>(ret, secretReturnNodeIds, reqHashes, calls).
          let st = call_helper calls st in
          if ret \<noteq> 0 then Ret (-2000, st)
          else if reqHashes = [] then Ret (0, st)
          else let (ret, calls) = getSyncBlockData (ps_blocks ps) (ps_block ps) (ps_block_hash ps) (io_shuffle io)
                                    (io_data_round io) secretReturnNodeIds reqHashes;
                   st = call_helper calls st in
            if ret \<noteq> 0 then (if runFastSync st then Ret (2, st) else Ret (ret - 3000, st)) else Ret (0, st))))"

text \<open>
  The heights asked for from zero: one range per node to ask. The counter starts at the number of
  nodes less one, which for no nodes is the greatest \<open>size_t\<close>.
\<close>

fun more_heights :: "u64 \<Rightarrow> nat \<Rightarrow> u64 \<Rightarrow> u64 \<Rightarrow> u64 list" where
  "more_heights step 0 syncHeight heightCeiling = []"
| "more_heights step (Suc i) syncHeight heightCeiling =
     (let syncHeight = syncHeight + step in
      if heightCeiling < syncHeight then [] else syncHeight # more_heights step i syncHeight heightCeiling)"

definition zero_heights :: "chain_env \<Rightarrow> u64 \<Rightarrow> u64 \<Rightarrow> nat \<Rightarrow> u64 list" where
  "zero_heights env chainHeight nodeSelfHeight n =
     (let heightCeiling = sum_hash_floor env chainHeight - hashRangeSum env;
          syncHeight = sum_hash_ceiling env nodeSelfHeight;
          heightCeiling = (if 1000 < heightCeiling - syncHeight then syncHeight + 1000 else heightCeiling)
      in syncHeight # more_heights (hashRangeSum env) (if n = 0 then 2 ^ 64 - 1 else n - 1) syncHeight heightCeiling)"

definition runFromZeroSyncOnce ::
    "chain_env \<Rightarrow> sync_parsers \<Rightarrow> sync_io \<Rightarrow> u64 \<Rightarrow> u64 \<Rightarrow> u32 \<Rightarrow> sync_state \<Rightarrow> (int \<times> sync_state) run" where
  "runFromZeroSyncOnce env ps io chainHeight nodeSelfHeight syncNodeCount st =
     bind_run (getSyncNodeSimplified env (io_rnd io) (io_rd io) (io_nodes io) syncNodeCount) (\<lambda>(ret, node_ids_to_send).
       if ret \<noteq> 0 then Ret (ret - 1000, st)
       else let reserve = syncFromZeroReserveHeights st;
                heights = (if reserve \<noteq> [] then reserve
                           else zero_heights env chainHeight nodeSelfHeight (length node_ids_to_send));
                st = st\<lparr>syncFromZeroReserveHeights := []\<rparr>;
                (ret, node_ids_returned, sumHashes) = get_from_zero_sync_sum_hash_node (ps_sum_hash ps) (io_by_size io)
                  (sync_send_zero_sync_num st) (io_vote_round io) node_ids_to_send nodeSelfHeight in
         if ret < 0 then Ret (ret - 2000, st)
         else bind_run (getSyncBlockDataFromZero env (ps_range ps) (ps_block ps) (io_shuffle io) (io_rd io) (io_mrd io)
                 (io_nodes io) (io_data_round io) sumHashes heights node_ids_returned nodeSelfHeight st)
           (\<lambda>(ret, st). if ret \<noteq> 0 then Ret (ret - 3000, st) else Ret (0, st)))"

subsection \<open>One turn of the thread\<close>

definition fast_turn ::
    "chain_env \<Rightarrow> sync_parsers \<Rightarrow> sync_io \<Rightarrow> cxx_string list \<Rightarrow> u64 \<Rightarrow> u64 \<Rightarrow> sync_state \<Rightarrow> sync_state run" where
  "fast_turn env ps io pledgeAddr chainHeight nodeSelfHeight st0 =
     (let st = st0\<lparr>runFastSyncCount := runFastSyncCount st0 + 1\<rparr>;
          count = ucast (fastSyncHeightCount st);
          syncInitHeight = (if count < sync_fail_height st then sync_fail_height st - count else sync_fail_height st);
          syncInitHeight = (if nodeSelfHeight < syncInitHeight then nodeSelfHeight + 1 else syncInitHeight) in
      bind_run (runFastSyncOnce env ps io pledgeAddr chainHeight syncInitHeight (syncInitHeight + count)
                  (ucast (syncSendFastSyncCount st)) st) (\<lambda>(if_success, st).
        let st = st\<lparr>syncSendFastSyncCount := if \<not> if_success then UINT32_MAX else ucast (MIN_SYNC_QUAL_NODES env),
                    runFastSync := False\<rparr>
        in Ret (if isFastSyncFailed st then st\<lparr>isFastSyncFailed := False, runFastSync := True\<rparr> else st)))"

definition zero_turn ::
    "chain_env \<Rightarrow> sync_parsers \<Rightarrow> sync_io \<Rightarrow> cxx_string list \<Rightarrow> u64 \<Rightarrow> u64 \<Rightarrow> sync_state \<Rightarrow> sync_state run" where
  "zero_turn env ps io pledgeAddr chainHeight nodeSelfHeight st =
     (let half = of_nat (length pledgeAddr div 2);
          st = (if sync_send_zero_sync_num st < half then st\<lparr>sync_send_zero_sync_num := half\<rparr> else st) in
      bind_run (runFromZeroSyncOnce env ps io chainHeight nodeSelfHeight (ucast (sync_send_zero_sync_num st)) st)
        (\<lambda>(runStatus, st). Ret (if runStatus = 0 then st\<lparr>sync_send_zero_sync_num := ucast (MIN_SYNC_QUAL_NODES env)\<rparr>
           else st\<lparr>sync_send_zero_sync_num := UINT32_MAX, runZeroSyncCount := runZeroSyncCount st + 1\<rparr>)))"

definition new_range :: "u64 \<Rightarrow> sync_state \<Rightarrow> u64 \<times> u64 \<times> sync_state" where
  "new_range nodeSelfHeight0 st =
     (let nodeSelfHeight = (if sync_fail_height st \<noteq> 0 then sync_fail_height st else nodeSelfHeight0);
          count = ucast (syncHeightCount st) in
      if execute_new_sync st then
        let st = (if nodeSelfHeight < initialSyncStartHeight st then st\<lparr>initialSyncStartHeight := nodeSelfHeight\<rparr> else st) in
        (if count < initialSyncStartHeight st then initialSyncStartHeight st - count else 1, initialSyncStartHeight st + count, st)
      else (if count < nodeSelfHeight then (if nodeSelfHeight - count = 0 then 1 else nodeSelfHeight - count) else 1,
            nodeSelfHeight + count, st))"

definition new_turn ::
    "chain_env \<Rightarrow> sync_parsers \<Rightarrow> sync_io \<Rightarrow> cxx_string list \<Rightarrow> u64 \<Rightarrow> u64 \<Rightarrow> sync_state \<Rightarrow> sync_state run" where
  "new_turn env ps io pledgeAddr chainHeight nodeSelfHeight st0 =
     (let (syncInitHeight, endSyncHeight, st) = new_range nodeSelfHeight st0 in
      bind_run (runNewSyncOnce env ps io pledgeAddr chainHeight syncInitHeight endSyncHeight (ucast (syncSendNewSyncNumber st)) st)
        (\<lambda>(runStatus, st).
          let st = (if runStatus < 0 then st\<lparr>sync_fail_height := 0, runFastSync := False\<rparr> else st)
          in Ret (if runStatus = 0 then st\<lparr>runZeroSyncCount := 0, execute_new_sync := False, initialSyncStartHeight := 0,
                                           sync_fail_height := 0, runFastSync := False\<rparr> else st)))"

text \<open>
  The body of the loop once the thread runs and its wait is over; a turn that does \<open>continue\<close>
  early changes nothing.
\<close>

definition sync_turn :: "chain_env \<Rightarrow> sync_parsers \<Rightarrow> sync_io \<Rightarrow> sync_state \<Rightarrow> sync_state run" where
  "sync_turn env ps io st =
     bind_run (getChainHeight env (io_rd io) (io_nodes io)) (\<lambda>ch. case ch of
       None \<Rightarrow> Ret st
     | Some chainHeight \<Rightarrow>
         bind_run (getBlockTop (io_rd io) 0) (\<lambda>(status, nodeSelfHeight).
           if status \<noteq> DB_SUCCESS then Ret st
           else let
             pledgeAddr = map nd_address (filter (qualifies env) (io_nodes io));
             st = st\<lparr>syncFromZeroCache := filter (\<lambda>c. \<not> fst c < nodeSelfHeight) (syncFromZeroCache st)\<rparr>;
             st = (if 5 \<le> runFastSyncCount st \<and> runFastSync st then st\<lparr>runFastSyncCount := 0, runFastSync := False\<rparr> else st);
             st = (if execute_new_sync st then st\<lparr>runFastSyncCount := 0, runFastSync := False\<rparr> else st) in
             if runFastSync st then fast_turn env ps io pledgeAddr chainHeight nodeSelfHeight st
             else let syncType = get_save_sync_type env nodeSelfHeight chainHeight;
                      syncType = (if execute_new_sync st \<or> 2 < runZeroSyncCount st then SyncNormal else syncType) in
               if syncType = SyncFromZero then zero_turn env ps io pledgeAddr chainHeight nodeSelfHeight st
               else new_turn env ps io pledgeAddr chainHeight nodeSelfHeight st))"

definition sync_state_new :: "chain_env \<Rightarrow> sync_state" where
  "sync_state_new env = \<lparr>sync_fail_height = 0, runFastSync = False, isFastSyncFailed = False, execute_new_sync = False,
     initialSyncStartHeight = 0, syncHeightCount = 100, syncSendNewSyncNumber = UINT32_MAX,
     syncSendFastSyncCount = ucast (MIN_SYNC_QUAL_NODES env), sync_send_zero_sync_num = ucast (MIN_SYNC_QUAL_NODES env),
     runFastSyncCount = 0, runZeroSyncCount = 0, fastSyncHeightCount = 0, syncFromZeroCache = [],
     syncFromZeroReserveHeights = [],
     node_state = \<lparr>forceFindBaseChainVar = False, previousEqualHeight = 0, heightEqualCount = 0\<rparr>, helper_calls = []\<rparr>"

subsection \<open>Synchronizing again after a failed check\<close>

text \<open>
  \<open>CheckBlocks::performNewSynchronization\<close>: the ten ranges above the last checked height are
  compared with the network, those that differ are synchronized. \<open>ios\<close> is what each of these
  runs meets.
\<close>

fun sync_ranges ::
    "chain_env \<Rightarrow> sync_parsers \<Rightarrow> (u64 \<Rightarrow> sync_io) \<Rightarrow> cxx_string list \<Rightarrow> u64 \<Rightarrow> u64 list \<Rightarrow> sync_state \<Rightarrow> (int \<times> sync_state) run" where
  "sync_ranges env ps ios pledgeAddr chain_height [] st = Ret (0, st)"
| "sync_ranges env ps ios pledgeAddr chain_height (h # hs) st =
     bind_run (runNewSyncOnce env ps (ios h) pledgeAddr chain_height (h - 100) h (ucast UINT32_MAX) st) (\<lambda>(ret, st).
       if ret \<noteq> 0 then Ret (-3, st) else sync_ranges env ps ios pledgeAddr chain_height hs st)"

definition performNewSynchronization ::
    "chain_env \<Rightarrow> sync_parsers \<Rightarrow> sync_io \<Rightarrow> (u64 \<Rightarrow> sync_io) \<Rightarrow> cxx_string list \<Rightarrow> cxx_string list \<Rightarrow> sync_state \<Rightarrow>
     (int \<times> sync_state) run" where
  "performNewSynchronization env ps io ios node_ids_to_send pledgeAddr st =
     bind_run (calculateByzantineSumHash (ps_sum_hash ps) (io_rd io) (io_vote_round io) node_ids_to_send) (\<lambda>(ret, shouldSyncHeights).
       if ret \<noteq> 0 then Ret (-1, st)
       else bind_run (getChainHeight env (io_rd io) (io_nodes io)) (\<lambda>ch. case ch of
         None \<Rightarrow> Ret (-2, st)
       | Some chain_height \<Rightarrow> sync_ranges env ps ios pledgeAddr chain_height shouldSyncHeights st))"

definition heights_to_check :: "check_blocks \<Rightarrow> u64 list" where
  "heights_to_check s = map (\<lambda>i. topBlockHeight s + of_nat i * 100) [1..<11]"

end
