(* ===== verification/SyncProps.thy ===== *)
theory SyncProps
  imports SyncLoop StoreFacts
begin

text \<open>
  Properties of the block synchronization: which nodes are asked, what the votes for a block mean,
  what is rolled back and requested, and how the thread's turns follow each other.
\<close>

subsection \<open>Nodes to ask\<close>

lemma length_sorted_list: "finite A \<Longrightarrow> length (sorted_list_of_set A) = card A"
  by simp

text \<open>What the two ways of drawing leave, in one form.\<close>

definition chosen_from :: "u64 \<Rightarrow> nat \<Rightarrow> Node list \<Rightarrow> cxx_string set \<Rightarrow> bool" where
  "chosen_from base num nodes chosen \<longleftrightarrow> finite chosen \<and> card chosen \<le> num \<and>
     (\<forall>a\<in>chosen. \<exists>n\<in>set nodes. nd_address n = a \<and> base \<le> ucast (nd_height n))"

lemma draw_chosen: "chosen_from base num nodes (fst (draw_nodes rnd num base k nodes {}))"
  using draw_nodes_from [of rnd num base k nodes "{}"] by (cases "draw_nodes rnd num base k nodes {}") (auto simp: chosen_from_def)

lemma draw_more:
  assumes "chosen_from base num nodes1 chosen" "set nodes1 \<subseteq> set nodes"
  shows "chosen_from base num nodes (fst (draw_nodes rnd num base k nodes chosen))"
proof -
  obtain res k' where d: "draw_nodes rnd num base k nodes chosen = (res, k')" by fastforce
  have r: "finite res" "card res \<le> max num (card chosen)" "res \<subseteq> chosen \<union> nd_address ` {n \<in> set nodes. base \<le> ucast (nd_height n)}"
    using draw_nodes_from [OF d] assms(1) by (auto simp: chosen_from_def)
  have "\<exists>n\<in>set nodes. nd_address n = a \<and> base \<le> ucast (nd_height n)" if a: "a \<in> res" for a
  proof (cases "a \<in> chosen")
    case True
    then show ?thesis using assms unfolding chosen_from_def by blast
  next
    case False
    then show ?thesis using a r(3) by blast
  qed
  then show ?thesis using r(1,2) assms(1) by (simp add: chosen_from_def d)
qed

lemma selection_finishes:
  assumes "chosen_from base num nodes chosen" "num < 2 ^ 40"
    and "(let ids = sorted_list_of_set chosen in if at_least_times (length ids) num d075 then (0, ids) else (-3, [])) = (0 :: int, ids)"
  shows "sorted ids \<and> distinct ids \<and> length ids \<le> num \<and> 3 * num \<le> 4 * length ids \<and>
     (\<forall>a\<in>set ids. \<exists>n\<in>set nodes. nd_address n = a \<and> base \<le> ucast (nd_height n))"
  using assms three_quarters.at_least_iff [of num] by (auto simp: chosen_from_def Let_def split: if_splits)

text \<open>
  A successful selection returns distinct addresses of connected nodes that are high enough, with a stake
  once the chain has passed the unstake height, no more than asked for and at least three quarters of it.
\<close>

theorem sync_nodes_sound:
  assumes "get_sync_node_basic env rnd rd nodes num0 base0 = Ret (0, ids)"
    and "getBlockTop rd 0 = Ret (DB_SUCCESS, top_h)"
  shows "\<exists>num base. sorted ids \<and> distinct ids \<and> length ids \<le> num \<and> 3 * num \<le> 4 * length ids
     \<and> (\<forall>a\<in>set ids. \<exists>n\<in>set nodes. nd_address n = a \<and> base \<le> ucast (nd_height n) \<and>
          (MIN_UNSTAKE_HEIGHT env \<le> top_h \<longrightarrow> qualifies env n))
     \<and> (if ucast num0 \<ge> UINT32_MAX then base = lowest_height env top_h base0 nodes
        else base = base0 \<and> num = max (unat num0) (unat (MIN_SYNC_QUAL_NODES env)))"
proof -
  let ?early = "top_h < MIN_UNSTAKE_HEIGHT env" and ?everyone = "ucast num0 \<ge> UINT32_MAX"
  let ?q = "filter (qualifies env) nodes"
  let ?base = "if ?everyone then lowest_height env top_h base0 nodes else base0"
  let ?num = "if ?everyone then (if ?early then of_nat (length nodes) else of_nat (length ?q))
              else if num0 < MIN_SYNC_QUAL_NODES env then MIN_SYNC_QUAL_NODES env else num0"
  have n: "unat ?num < 2 ^ 40" using unsigned_less [of ?num] by (auto intro: order_less_le_trans)
  have m: "\<not> ?everyone \<Longrightarrow> unat ?num = max (unat num0) (unat (MIN_SYNC_QUAL_NODES env))"
    by (auto simp: word_less_nat_alt max_def)
  note unfold = assms(1) [unfolded get_sync_node_basic_def assms(2), simplified Let_def bind_run.simps prod.case]
  show ?thesis
  proof (cases ?early)
    case True
    obtain c k where d: "draw_nodes rnd (unat ?num) ?base 0 ?q {} = (c, k)" by fastforce
    have c: "chosen_from ?base (unat ?num) ?q c" using draw_chosen [of ?base "unat ?num" ?q rnd 0] by (simp add: d)
    have "chosen_from ?base (unat ?num) nodes (fst (draw_nodes rnd (unat ?num) ?base k nodes c))"
      by (rule draw_more [OF c]) auto
    from selection_finishes [OF this n, of ids] True unfold d
    have "sorted ids \<and> distinct ids \<and> length ids \<le> unat ?num \<and> 3 * unat ?num \<le> 4 * length ids \<and>
        (\<forall>a\<in>set ids. \<exists>n\<in>set nodes. nd_address n = a \<and> ?base \<le> ucast (nd_height n))" by (simp add: Let_def)
    moreover have "MIN_UNSTAKE_HEIGHT env \<le> top_h \<longrightarrow> qualifies env n" for n using True by (metis leD)
    ultimately show ?thesis using m by (intro exI [of _ "unat ?num"] exI [of _ ?base]) (simp add: max.commute)
  next
    case False
    have c: "chosen_from ?base (unat ?num) ?q (fst (draw_nodes rnd (unat ?num) ?base 0 ?q {}))" by (rule draw_chosen)
    from selection_finishes [OF c n, of ids] False unfold
    have s: "sorted ids \<and> distinct ids \<and> length ids \<le> unat ?num \<and> 3 * unat ?num \<le> 4 * length ids"
      and "\<forall>a\<in>set ids. \<exists>n\<in>set ?q. nd_address n = a \<and> ?base \<le> ucast (nd_height n)"
      by (simp_all add: Let_def split: if_splits)
    then have "\<forall>a\<in>set ids. \<exists>n\<in>set nodes. nd_address n = a \<and> ?base \<le> ucast (nd_height n) \<and>
        (MIN_UNSTAKE_HEIGHT env \<le> top_h \<longrightarrow> qualifies env n)" by (metis (no_types, lifting) filter_is_subset in_mono mem_Collect_eq set_filter)
    with s m show ?thesis by (intro exI [of _ "unat ?num"] exI [of _ ?base]) (simp add: max.commute)
  qed
qed

text \<open>
  The table of accepted numbers of answers is a strict majority of the asked nodes, for at most ten of
  them; of more than ten asked nodes no number of answers is ever enough.
\<close>

theorem byzantine_table_majority:
  "checkByzantineFault asked answered \<longleftrightarrow> 1 \<le> asked \<and> asked \<le> 10 \<and> asked < 2 * answered \<and> answered \<le> asked"
proof (cases "1 \<le> asked \<and> asked \<le> 10")
  case True
  then have "asked = 1 \<or> asked = 2 \<or> asked = 3 \<or> asked = 4 \<or> asked = 5 \<or> asked = 6 \<or> asked = 7 \<or> asked = 8 \<or>
      asked = 9 \<or> asked = 10" by presburger
  then show ?thesis by (elim disjE) (auto simp: checkByzantineFault_def level_table_def)
next
  case False
  then show ?thesis by (auto simp: checkByzantineFault_def level_table_def)
qed

lemma needByzantineAdjustment_never: "needByzantineAdjustment parse w chainHeight pledgeAddr nodes = (False, [])"
  by (simp add: needByzantineAdjustment_def Let_def GetSelectedAddr_def split: option.splits)

text \<open>
  The adjustment for a stuck chain never takes place, because the votes are collected in a copy; so
  \<open>getSyncNode\<close> chooses by the heights and its flag alone, which alternates while the node is not behind.
\<close>

theorem no_byzantine_adjustment:
  "fst (needByzantineAdjustment parse w chainHeight pledgeAddr nodes) = False
 \<and> bind_run (getSyncNode env parse w rnd rd nodes num chainHeight pledgeAddr s) (\<lambda>(r, s'). Ret (r, forceFindBaseChainVar s')) =
   bind_run (getBlockTop rd 0) (\<lambda>(status, own).
     if status \<noteq> DB_SUCCESS then Ret ((-10 - status_number status, []), forceFindBaseChainVar s)
     else if forceFindBaseChainVar s \<or> own < chainHeight
     then bind_run (get_sync_node_basic env rnd rd nodes num chainHeight) (\<lambda>r. Ret (r, False))
     else bind_run (get_sync_node_basic env rnd rd nodes num own) (\<lambda>r. Ret (r, True)))"
proof -
  show ?thesis
    unfolding getSyncNode_def bind_run_assoc needByzantineAdjustment_never
    by (cases "getBlockTop rd 0") (auto simp: Let_def bind_run_assoc split: prod.splits)
qed

subsection \<open>Answers about inputs\<close>

text \<open>
  The check of a transaction's inputs answers "ok" for every list of inputs, whether the sender's
  address owns them or not, as soon as the address has a record of unspent outputs.
\<close>

theorem check_vin_always_ok:
  assumes "getUtxoHashsByAddress rd (cvq_self_node_id msg) [] = Ret (DB_SUCCESS, owned)"
  shows "processCheckVinRequest rd self_id msg =
    Ret (0, \<lparr>cva_msg_id = cvq_msg_id msg, cva_self_node_id = self_id, cva_utxo_ok = True\<rparr>)"
  using assms by (simp add: processCheckVinRequest_def Let_def)

theorem check_vin_always_ok_witness:
  "processCheckVinRequest (\<lambda>k v. Ret (DB_SUCCESS, ''u1'')) ''me'' \<lparr>cvq_msg_id = ''m'', cvq_self_node_id = ''a'', cvq_utxoHash = [''stolen'']\<rparr> =
    Ret (0, \<lparr>cva_msg_id = ''m'', cva_self_node_id = ''me'', cva_utxo_ok = True\<rparr>)"
proof -
  have "SplitString ''u1'' ''_'' [] = Some [''u1'']" by (simp add: tokens_absent)
  then have "getUtxoHashsByAddress (\<lambda>k v. Ret (DB_SUCCESS, ''u1'')) ''a'' [] = Ret (DB_SUCCESS, [''u1''])"
    by (simp add: getUtxoHashsByAddress_def read_list_def read_then_def)
  then show ?thesis using check_vin_always_ok [of "\<lambda>k v. Ret (DB_SUCCESS, ''u1'')"
      "\<lparr>cvq_msg_id = ''m'', cvq_self_node_id = ''a'', cvq_utxoHash = [''stolen'']\<rparr>" "[''u1'']" "''me''"] by simp
qed

theorem sync_nodes_sound_witness:
  "\<exists>ids. get_sync_node_basic \<lparr>MIN_SYNC_QUAL_NODES = 1, MIN_UNSTAKE_HEIGHT = 0, hashRangeSum = 100, verify_bonus = (\<lambda>_. 0),
       pledge_time = (\<lambda>_. 1), sha256 = id, sum_hash_floor = id, sum_hash_ceiling = id\<rparr> (\<lambda>_. 0)
       (\<lambda>k v. Ret (DB_SUCCESS, to_string (7 :: u64))) [Node_new ''a''] 1 0 = Ret (0, ids) \<and> set ids \<subseteq> {''a''}"
proof -
  let ?env = "\<lparr>MIN_SYNC_QUAL_NODES = 1, MIN_UNSTAKE_HEIGHT = 0, hashRangeSum = 100, verify_bonus = (\<lambda>_. 0),
       pledge_time = (\<lambda>_. 1), sha256 = id, sum_hash_floor = id, sum_hash_ceiling = id\<rparr>"
  let ?rd = "\<lambda>k v. Ret (DB_SUCCESS, to_string (7 :: u64))"
  have t: "getBlockTop ?rd 0 = Ret (DB_SUCCESS, 7)" by (simp add: getBlockTop_def read_unsigned_def read_then_def)
  have "at_least_times 1 1 d075" using three_quarters.at_least_iff [of 1 1] by simp
  moreover have "\<not> (4294967295 :: u64) \<le> 1" by (simp add: word_le_nat_alt)
  ultimately have r: "get_sync_node_basic ?env (\<lambda>_. 0) ?rd [Node_new ''a''] 1 0 = Ret (0, [''a''])"
    by (simp add: get_sync_node_basic_def t qualifies_def UINT32_MAX_def draw_nodes.simps remove_nth_def Node_new_def Let_def)
  from sync_nodes_sound [OF r t] have "set [''a''] \<subseteq> {''a''}" by (auto simp: Node_new_def)
  with r show ?thesis by blast
qed

subsection \<open>Requests for hashes\<close>

lemma parse_request_key:
  assumes "p \<noteq> []" "CHR ''_'' \<notin> set p"
  shows "parse_height_prefix (to_string h @ ''_'' @ p) = Ret (Some (h, p))"
proof -
  have "tokens CHR ''_'' (to_string h @ CHR ''_'' # p) = [to_string h, p]"
    using assms to_string_nonempty [of h] by (simp add: tokens_def pieces_append [OF to_string_no_sep] pieces_absent)
  then show ?thesis by (simp add: parse_height_prefix_def)
qed

text \<open>
  The hashes one node asks for, each under its height, are read back by the asked node: it looks for exactly
  these prefixes at exactly these heights, in the order of the request.
\<close>

theorem request_keys_roundtrip:
  assumes "\<forall>(h, p)\<in>set keys. p \<noteq> [] \<and> CHR ''_'' \<notin> set p"
  shows "\<exists>m. requested_map (map (\<lambda>(h, p). to_string h @ ''_'' @ p) keys) [] = Ret m \<and> ordered_map m \<and>
    (\<forall>h. map_of m h = (let ps = map snd (filter (\<lambda>k. fst k = h) keys) in if ps = [] then None else Some ps))"
proof -
  have "\<exists>m'. requested_map (map (\<lambda>(h, p). to_string h @ ''_'' @ p) keys) m = Ret m' \<and> ordered_map m' \<and>
      (\<forall>h. map_of m' h = (let ps = (case map_of m h of None \<Rightarrow> [] | Some ps \<Rightarrow> ps) @ map snd (filter (\<lambda>k. fst k = h) keys)
         in if ps = [] then None else Some ps))"
    if "ordered_map m" "\<forall>h. map_of m h \<noteq> Some []" for m
    using assms that
  proof (induction keys arbitrary: m)
    case Nil
    then show ?case by (auto simp: Let_def split: option.splits)
  next
    case (Cons k keys)
    obtain h p where k: "k = (h, p)" by (cases k)
    have "p \<noteq> []" "CHR ''_'' \<notin> set p" using Cons.prems(1) k by auto
    then have s: "requested_map (map (\<lambda>(h, p). to_string h @ ''_'' @ p) (k # keys)) m =
        requested_map (map (\<lambda>(h, p). to_string h @ ''_'' @ p) keys) (add_at_height h p m)"
      using parse_request_key k by simp
    have "ordered_map (add_at_height h p m)" "\<forall>h'. map_of (add_at_height h p m) h' \<noteq> Some []"
      using Cons.prems(2,3) by (auto simp: add_at_height_def split: option.splits)
    from Cons.IH [OF _ this] Cons.prems(1) obtain m' where m': "requested_map (map (\<lambda>(h, p). to_string h @ ''_'' @ p) keys) (add_at_height h p m) = Ret m'"
      "ordered_map m'" "\<And>h'. map_of m' h' = (let ps = (case map_of (add_at_height h p m) h' of None \<Rightarrow> [] | Some ps \<Rightarrow> ps) @
         map snd (filter (\<lambda>k. fst k = h') keys) in if ps = [] then None else Some ps)" by auto
    have "map_of m' h' = (let ps = (case map_of m h' of None \<Rightarrow> [] | Some ps \<Rightarrow> ps) @ map snd (filter (\<lambda>k. fst k = h') (k # keys))
         in if ps = [] then None else Some ps)" for h'
      unfolding m'(3) by (auto simp: k add_at_height_def Let_def split: option.splits)
    then show ?case using s m'(1,2) by auto
  qed
  from this [of "[]"] show ?thesis by simp
qed

theorem request_keys_roundtrip_witness:
  "\<exists>m. requested_map [to_string (5 :: u64) @ ''_'' @ ''abcdefgh''] [] = Ret m \<and> map_of m 5 = Some [''abcdefgh'']"
  using request_keys_roundtrip [of "[(5, ''abcdefgh'')]"] by fastforce

lemma requested_map_throws:
  assumes "\<forall>(h :: u64, p)\<in>set good. p \<noteq> [] \<and> CHR ''_'' \<notin> set p" and "parse_height_prefix bad = Throw e"
  shows "requested_map (map (\<lambda>(h, p). to_string h @ ''_'' @ p) good @ bad # rest) m = Throw e"
  using assms(1)
proof (induction good arbitrary: m)
  case (Cons k good)
  obtain h p where k: "k = (h, p)" by (cases k)
  have "parse_height_prefix (to_string h @ ''_'' @ p) = Ret (Some (h, p))" using Cons.prems k by (intro parse_request_key) auto
  then show ?case using Cons.IH [of "add_at_height h p m"] Cons.prems k by simp
qed (simp add: assms(2))

text \<open>
  A node that has connected can end another's process: a request in which, after any good keys, comes one
  that begins with a letter makes its handler throw an exception that nothing catches.
\<close>

theorem block_request_throws:
  assumes "verifyPeerNodeIdRequest p fd (sbq_self_node_id msg)"
    and "sbq_block_hashes msg = map (\<lambda>(h, p). to_string h @ ''_'' @ p) good @ (''x_'' @ q) # rest"
    and "\<forall>(h :: u64, p)\<in>set good. p \<noteq> [] \<and> CHR ''_'' \<notin> set p" and "q \<noteq> []" "CHR ''_'' \<notin> set q"
  shows "handleSynchronizationBlockRequest p fd mrd msg = Throw InvalidArgument"
proof -
  have "tokens CHR ''_'' (''x_'' @ q) = [''x'', q]"
    using assms(4,5) pieces_append [of "CHR ''_''" "''x''" q] by (simp add: tokens_def pieces_absent)
  moreover have "stoull ''x'' = Throw InvalidArgument"
    by (simp add: stoull_def stox_def split_sign_def is_space_def is_digit_def)
  ultimately have "parse_height_prefix (''x_'' @ q) = Throw InvalidArgument" by (simp add: parse_height_prefix_def)
  from requested_map_throws [OF assms(3) this] show ?thesis
    using assms(1,2) by (simp add: handleSynchronizationBlockRequest_def verified_def)
qed

theorem block_request_throws_witness:
  "handleSynchronizationBlockRequest 
     \<lparr>nodeMap = [(''a'', (Node_new ''a'')\<lparr>nd_fd := 3\<rparr>)], peer_bufs = [], stake_node_list = [], unstakeNodeList = [],
       closed_fds = [], currNode = Node_new ''a''\<rparr> 3 (\<lambda>ks v. Ret (DB_SUCCESS, []))
     \<lparr>sbq_self_node_id = ''a'', sbq_msg_id = [], sbq_block_hashes = [''x_y'']\<rparr> = Throw InvalidArgument"
  by (rule block_request_throws [where good = "[]" and q = "''y''" and rest = "[]"])
     (simp_all add: verifyPeerNodeIdRequest_def locateNodeByFd_def Node_new_def)

subsection \<open>Heights asked for from zero\<close>

lemma more_heights_props:
  "length (more_heights step n h c) \<le> n \<and>
   (\<forall>i < length (more_heights step n h c). more_heights step n h c ! i = h + of_nat (Suc i) * step \<and> more_heights step n h c ! i \<le> c)"
proof (induction n arbitrary: h)
  case (Suc n)
  show ?case
  proof (cases "c < h + step")
    case False
    have "more_heights step (Suc n) h c ! i = h + of_nat (Suc i) * step \<and> more_heights step (Suc n) h c ! i \<le> c"
      if "i < length (more_heights step (Suc n) h c)" for i
    proof (cases i)
      case 0
      then show ?thesis using False by (auto simp: Let_def)
    next
      case (Suc j)
      then have "j < length (more_heights step n (h + step) c)" using that False by (simp add: Let_def)
      then have "more_heights step n (h + step) c ! j = h + step + of_nat (Suc j) * step \<and> more_heights step n (h + step) c ! j \<le> c"
        using Suc.IH [of "h + step"] by blast
      moreover have "more_heights step (Suc n) h c ! i = more_heights step n (h + step) c ! j" using False Suc by (simp add: Let_def)
      moreover have "h + step + of_nat (Suc j) * step = h + of_nat (Suc i) * step" using Suc by (simp add: algebra_simps)
      ultimately show ?thesis by metis
    qed
    moreover have "length (more_heights step (Suc n) h c) \<le> Suc n" using Suc.IH [of "h + step"] by (simp add: Let_def)
    ultimately show ?thesis by blast
  qed simp
qed simp

text \<open>
  The heights asked for from zero: never none and, with nodes to ask, at most one per node; they start at the
  first whole range of this node and step by the size of a range, and none after the first passes the limit,
  which is the ceiling or 1000 above the first.
\<close>

theorem zero_heights_bounds:
  assumes "0 < n"
  shows "let hs = zero_heights env chainHeight self n; first = sum_hash_ceiling env self;
             ceiling = sum_hash_floor env chainHeight - hashRangeSum env;
             limit = (if 1000 < ceiling - first then first + 1000 else ceiling)
         in hs \<noteq> [] \<and> length hs \<le> n \<and> (\<forall>i < length hs. hs ! i = first + of_nat i * hashRangeSum env \<and> (i \<noteq> 0 \<longrightarrow> hs ! i \<le> limit))"
proof -
  let ?first = "sum_hash_ceiling env self" and ?ceiling = "sum_hash_floor env chainHeight - hashRangeSum env"
  let ?limit = "if 1000 < ?ceiling - ?first then ?first + 1000 else ?ceiling"
  let ?more = "more_heights (hashRangeSum env) (n - 1) ?first ?limit"
  have z: "zero_heights env chainHeight self n = ?first # ?more" using assms by (simp add: zero_heights_def Let_def)
  have m: "length ?more \<le> n - 1"
    "\<And>i. i < length ?more \<Longrightarrow> ?more ! i = ?first + of_nat (Suc i) * hashRangeSum env \<and> ?more ! i \<le> ?limit"
    using more_heights_props [of "hashRangeSum env" "n - 1" ?first ?limit] by blast+
  have "(?first # ?more) ! i = ?first + of_nat i * hashRangeSum env \<and> (i \<noteq> 0 \<longrightarrow> (?first # ?more) ! i \<le> ?limit)"
    if "i < length (?first # ?more)" for i
    using m(2) [of "i - 1"] that by (cases i) auto
  moreover have "length (?first # ?more) \<le> n" using m(1) assms by simp
  ultimately show ?thesis unfolding z Let_def by blast
qed

theorem zero_heights_bounds_witness:
  "length (zero_heights \<lparr>MIN_SYNC_QUAL_NODES = 1, MIN_UNSTAKE_HEIGHT = 0, hashRangeSum = 100, verify_bonus = (\<lambda>_. 0),
       pledge_time = (\<lambda>_. 1), sha256 = id, sum_hash_floor = id, sum_hash_ceiling = id\<rparr> 5000 300 3) \<le> 3"
  using zero_heights_bounds [of 3] by (simp add: Let_def)

subsection \<open>Fast synchronization\<close>

definition hits_of :: "cxx_string \<Rightarrow> fast_votes \<Rightarrow> nat" where
  "hits_of hash m = (case map_of m hash of None \<Rightarrow> 0 | Some v \<Rightarrow> fsh_hits v)"

definition listed :: "cxx_string \<Rightarrow> FastSyncGetHashAck \<Rightarrow> nat" where
  "listed hash ack = sum_list (map (\<lambda>e. count_list (fh_hashs e) hash) (fga_hashs ack))"

lemma hits_fast_vote: "hits_of hash (fast_vote node_id h x m) = hits_of hash m + (if x = hash then 1 else 0)"
  by (auto simp: hits_of_def fast_vote_def Let_def split: option.splits)

lemma hits_fast_votes: "hits_of hash (foldl (\<lambda>m x. fast_vote node_id h x m) m xs) = hits_of hash m + count_list xs hash"
  by (induction xs arbitrary: m) (auto simp: hits_fast_vote)

lemma hits_fast_entries:
  "hits_of hash (fst (foldl (fast_entry node_id) st es)) = hits_of hash (fst st) + sum_list (map (\<lambda>e. count_list (fh_hashs e) hash) es)"
proof (induction es arbitrary: st)
  case (Cons e es)
  have "hits_of hash (fst (fast_entry node_id st e)) = hits_of hash (fst st) + count_list (fh_hashs e) hash"
    by (cases st) (simp add: fast_entry_def Let_def hits_fast_votes)
  then show ?case using Cons.IH [of "fast_entry node_id st e"] by simp
qed simp

lemma hits_fast_answers:
  shows "hits_of hash (fst (foldl (fast_answer pa) st rs)) = hits_of hash (fst st) +
     sum_list (map (\<lambda>r. case pa r of None \<Rightarrow> 0 | Some ack \<Rightarrow> listed hash ack) rs)"
    and "snd (snd (foldl (fast_answer pa) st rs)) = snd (snd st) + length (filter (\<lambda>r. pa r \<noteq> None) rs)"
proof -
  have "hits_of hash (fst (foldl (fast_answer pa) st rs)) = hits_of hash (fst st) +
     sum_list (map (\<lambda>r. case pa r of None \<Rightarrow> 0 | Some ack \<Rightarrow> listed hash ack) rs)
   \<and> snd (snd (foldl (fast_answer pa) st rs)) = snd (snd st) + length (filter (\<lambda>r. pa r \<noteq> None) rs)"
  proof (induction rs arbitrary: st)
    case (Cons r rs)
    have "hits_of hash (fst (fast_answer pa st r)) = hits_of hash (fst st) + (case pa r of None \<Rightarrow> 0 | Some ack \<Rightarrow> listed hash ack)"
      using hits_fast_entries [of hash] by (cases st) (auto simp: fast_answer_def Let_def listed_def split_beta split: option.splits)
    moreover have "snd (snd (fast_answer pa st r)) = snd (snd st) + (if pa r = None then 0 else 1)"
      by (cases st) (auto simp: fast_answer_def Let_def split_beta split: option.splits)
    ultimately show ?case using Cons.IH [of "fast_answer pa st r"] by simp
  qed simp
  then show "hits_of hash (fst (foldl (fast_answer pa) st rs)) = hits_of hash (fst st) +
     sum_list (map (\<lambda>r. case pa r of None \<Rightarrow> 0 | Some ack \<Rightarrow> listed hash ack) rs)"
   "snd (snd (foldl (fast_answer pa) st rs)) = snd (snd st) + length (filter (\<lambda>r. pa r \<noteq> None) rs)" by blast+
qed

lemma fast_agreement:
  assumes "fast_collect parse_ack answers = (m, heights, n)" and "length answers < 2 ^ 40"
  shows "map_of m hash = Some v \<Longrightarrow> fast_agreed n v \<longleftrightarrow>
      33 * length (filter (\<lambda>r. parse_ack r \<noteq> None) answers) \<le>
      50 * sum_list (map (\<lambda>r. case parse_ack r of None \<Rightarrow> 0 | Some ack \<Rightarrow> listed hash ack) answers)"
    and "r \<in> set answers \<Longrightarrow> parse_ack r = Some ack \<Longrightarrow> length answers \<le> listed hash ack \<Longrightarrow>
      \<exists>v. map_of m hash = Some v \<and> fast_agreed n v"
proof -
  have f: "hits_of hash m = sum_list (map (\<lambda>r. case parse_ack r of None \<Rightarrow> 0 | Some ack \<Rightarrow> listed hash ack) answers)"
    "n = length (filter (\<lambda>r. parse_ack r \<noteq> None) answers)"
    using assms(1) hits_fast_answers(1) [of hash parse_ack "([], [], 0)" answers] hits_fast_answers(2) [of parse_ack "([], [], 0)" answers]
    by (simp_all add: fast_collect_def) (simp add: hits_of_def)
  have n: "n < 2 ^ 40" "n \<le> length answers"
    unfolding f(2) using assms(2) length_filter_le [of "\<lambda>r. parse_ack r \<noteq> None" answers] by linarith+
  show a: "map_of m hash = Some v \<Longrightarrow> fast_agreed n v \<longleftrightarrow>
      33 * length (filter (\<lambda>r. parse_ack r \<noteq> None) answers) \<le>
      50 * sum_list (map (\<lambda>r. case parse_ack r of None \<Rightarrow> 0 | Some ack \<Rightarrow> listed hash ack) answers)" for v
    using p66.at_least_iff [OF n(1)] f by (simp add: fast_agreed_def hits_of_def)
  assume r: "r \<in> set answers" "parse_ack r = Some ack" "length answers \<le> listed hash ack"
  have "listed hash ack \<le> hits_of hash m"
    unfolding f(1) using r(1,2) member_le_sum_list [of "listed hash ack" "map (\<lambda>r. case parse_ack r of None \<Rightarrow> 0 | Some ack \<Rightarrow> listed hash ack) answers"]
    by force
  then have h: "length answers \<le> hits_of hash m" using r(3) by simp
  have "0 < length answers" using r(1) by (cases answers) auto
  then obtain v where v: "map_of m hash = Some v" using h by (auto simp: hits_of_def split: option.splits)
  have "33 * n \<le> 50 * hits_of hash m" using n(2) h by linarith
  then have "fast_agreed n v" using a [OF v] f by simp
  with v show "\<exists>v. map_of m hash = Some v \<and> fast_agreed n v" by blast
qed

text \<open>
  A hash is agreed on in a fast synchronization when the times it is listed, counted over all answers with
  repetitions, reach 66 percent of the number of answers; so one node that lists a hash as often as there are
  answers makes it agreed, whatever the others answer.
\<close>

theorem fast_agreement_counts_repetitions:
  assumes "fast_collect parse_ack answers = (m, heights, n)" and "length answers < 2 ^ 40"
  shows "(\<forall>v. map_of m hash = Some v \<longrightarrow> (fast_agreed n v \<longleftrightarrow>
      33 * length (filter (\<lambda>r. parse_ack r \<noteq> None) answers) \<le>
      50 * sum_list (map (\<lambda>r. case parse_ack r of None \<Rightarrow> 0 | Some ack \<Rightarrow> listed hash ack) answers)))
   \<and> (\<forall>r\<in>set answers. \<forall>ack. parse_ack r = Some ack \<and> length answers \<le> listed hash ack \<longrightarrow>
      (\<exists>v. map_of m hash = Some v \<and> fast_agreed n v))"
  using fast_agreement [OF assms] by blast

definition repeating_ack :: "cxx_string \<Rightarrow> FastSyncGetHashAck option" where
  "repeating_ack raw = Some \<lparr>fga_self_node_id = raw, fga_msg_id = [], fga_node_block_height = 9,
     fga_hashs = (if raw = ''evil'' then [\<lparr>fh_height = 9, fh_hashs = replicate 3 ''forged''\<rparr>] else [])\<rparr>"

theorem fast_agreement_counts_repetitions_witness:
  "\<exists>v. map_of (fst (fast_collect repeating_ack [''a'', ''evil'', ''b''])) ''forged'' = Some v \<and> fast_agreed 3 v"
proof -
  obtain m hs n where c: "fast_collect repeating_ack [''a'', ''evil'', ''b''] = (m, hs, n)" by (cases "fast_collect repeating_ack [''a'', ''evil'', ''b'']") auto
  have n: "n = 3" using c by (auto simp: fast_collect_def fast_answer_def repeating_ack_def Let_def split_beta)
  have "3 \<le> listed ''forged'' (the (repeating_ack ''evil''))" by (simp add: repeating_ack_def listed_def eval_nat_numeral)
  then have "Suc (Suc (Suc 0)) \<le> listed ''forged'' (the (repeating_ack ''evil''))" by simp
  moreover have "repeating_ack ''evil'' = Some (the (repeating_ack ''evil''))" by (simp add: repeating_ack_def)
  ultimately have "\<exists>v. map_of m ''forged'' = Some v \<and> fast_agreed n v"
    using fast_agreement_counts_repetitions [OF c, of "''forged''"] by auto
  then show ?thesis using c n by simp
qed

end
