(* ===== verification/VoteProps.thy ===== *)
theory VoteProps
  imports SyncLoop
begin

text \<open>
  Properties of the votes on blocks: who is counted for a hash, which stored blocks are rolled
  back, which are requested, and that the two functions that decide on rollbacks agree.
\<close>

subsection \<open>Who voted for what\<close>

definition voters :: "height_votes \<Rightarrow> u64 \<Rightarrow> cxx_string \<Rightarrow> cxx_string set" where
  "voters m h p = (case map_of m h of None \<Rightarrow> {} | Some hm \<Rightarrow> (case map_of hm p of None \<Rightarrow> {} | Some ids \<Rightarrow> ids))"

definition wf_votes :: "height_votes \<Rightarrow> bool" where
  "wf_votes m \<longleftrightarrow> ordered_map m \<and> (\<forall>e\<in>set m. ordered_map (snd e))"

text \<open>The senders of the answers with code 0 that list the prefix at the height.\<close>

definition reports :: "(cxx_string \<Rightarrow> SyncGetBlockHeightAndHashAck option) \<Rightarrow> cxx_string list \<Rightarrow> u64 \<Rightarrow> cxx_string \<Rightarrow> cxx_string set" where
  "reports parse_ack answers h p =
     {ha_self_node_id ack |ack. \<exists>r\<in>set answers. parse_ack r = Some ack \<and> ha_code ack = 0 \<and>
        (\<exists>e\<in>set (ha_block_hashes ack). parse_height_prefix e = Ret (Some (h, p)))}"

definition stored_hashes :: "mreader \<Rightarrow> u64 \<Rightarrow> cxx_string list" where
  "stored_hashes mrd h = (case own_hashes mrd h of Ret (ret, hs) \<Rightarrow> hs | _ \<Rightarrow> [])"

lemma voters_vote_block:
  "voters (vote_block h p node_id m) h' p' = (if h' = h \<and> p' = p then insert node_id (voters m h p) else voters m h' p')"
  by (auto simp: voters_def vote_block_def split: option.splits)

lemma wf_vote_block: "wf_votes m \<Longrightarrow> wf_votes (vote_block h p node_id m)"
proof -
  assume m: "wf_votes m"
  define hm where "hm = (case map_of m h of None \<Rightarrow> [(p, {node_id})]
    | Some hm \<Rightarrow> (case map_of hm p of None \<Rightarrow> map_assign p {node_id} hm | Some ids \<Rightarrow> map_assign p (insert node_id ids) hm))"
  have v: "vote_block h p node_id m = map_assign h hm m" by (simp add: vote_block_def hm_def split: option.splits)
  have "ordered_map hm"
  proof (cases "map_of m h")
    case None
    then show ?thesis by (simp add: hm_def ordered_map_def)
  next
    case (Some x)
    then have "ordered_map x" using m map_of_SomeD [OF Some] by (auto simp: wf_votes_def)
    then show ?thesis using Some by (simp add: hm_def split: option.splits)
  qed
  then show ?thesis using m set_assign_subset [of h hm m] by (auto simp: wf_votes_def v)
qed

lemma keys_vote_block: "fst ` set (vote_block h p node_id m) = insert h (fst ` set m)"
  by (auto simp: vote_block_def set_keys_assign split: option.splits)

lemma voters_entry:
  assumes "wf_votes m" "e \<in> set m" "hn \<in> set (snd e)"
  shows "voters m (fst e) (fst hn) = snd hn"
proof -
  have "map_of m (fst e) = Some (snd e)" using assms(1,2) ordered_map_distinct [of m] by (simp add: wf_votes_def)
  moreover have "map_of (snd e) (fst hn) = Some (snd hn)"
    using assms ordered_map_distinct [of "snd e"] by (simp add: wf_votes_def)
  ultimately show ?thesis by (simp add: voters_def)
qed

lemma vote_entries_result:
  assumes "vote_entries node_id es m = Ret m'" "wf_votes m"
  shows "wf_votes m'"
    and "voters m' h p = voters m h p \<union> (if \<exists>e\<in>set es. parse_height_prefix e = Ret (Some (h, p)) then {node_id} else {})"
    and "fst ` set m' = fst ` set m \<union> {h. \<exists>e\<in>set es. \<exists>p. parse_height_prefix e = Ret (Some (h, p))}"
proof -
  have "wf_votes m' \<and> (\<forall>h p. voters m' h p = voters m h p \<union> (if \<exists>e\<in>set es. parse_height_prefix e = Ret (Some (h, p)) then {node_id} else {}))
    \<and> fst ` set m' = fst ` set m \<union> {h. \<exists>e\<in>set es. \<exists>p. parse_height_prefix e = Ret (Some (h, p))}"
    using assms
  proof (induction es arbitrary: m)
    case (Cons e es)
    from Cons.prems(1) obtain r where r: "parse_height_prefix e = Ret r"
      "(case r of None \<Rightarrow> vote_entries node_id es m | Some (height, hash) \<Rightarrow> vote_entries node_id es (vote_block height hash node_id m)) = Ret m'"
      by (auto simp: run_simps)
    show ?case
    proof (cases r)
      case None
      then show ?thesis using Cons.IH [OF _ Cons.prems(2)] r by simp
    next
      case (Some x)
      obtain k q where x: "x = (k, q)" by (cases x)
      then show ?thesis
        using Cons.IH [OF _ wf_vote_block [OF Cons.prems(2), of k q node_id]] r Some
        by (auto simp: voters_vote_block keys_vote_block)
    qed
  qed simp
  then show "wf_votes m'"
    and "voters m' h p = voters m h p \<union> (if \<exists>e\<in>set es. parse_height_prefix e = Ret (Some (h, p)) then {node_id} else {})"
    and "fst ` set m' = fst ` set m \<union> {h. \<exists>e\<in>set es. \<exists>p. parse_height_prefix e = Ret (Some (h, p))}" by blast+
qed

lemma reports_Cons:
  "reports pa (r # rs) h p = reports pa rs h p \<union>
     (case pa r of None \<Rightarrow> {} | Some ack \<Rightarrow>
        if ha_code ack = 0 \<and> (\<exists>e\<in>set (ha_block_hashes ack). parse_height_prefix e = Ret (Some (h, p))) then {ha_self_node_id ack} else {})"
  by (auto simp: reports_def split: option.splits)

lemma collect_votes_result:
  assumes "collect_votes pa rs m = Ret m'" "wf_votes m"
  shows "wf_votes m' \<and> (\<forall>h p. voters m' h p = voters m h p \<union> reports pa rs h p)
    \<and> fst ` set m' = fst ` set m \<union> {h. \<exists>p. reports pa rs h p \<noteq> {}}"
  using assms
proof (induction rs arbitrary: m)
  case Nil
  then show ?case by (simp add: reports_def)
next
  case (Cons r rs)
  show ?case
  proof (cases "pa r")
    case None
    then show ?thesis using Cons by (simp add: reports_Cons)
  next
    case (Some ack)
    show ?thesis
    proof (cases "ha_code ack = 0")
      case False
      then show ?thesis using Cons Some by (simp add: reports_Cons)
    next
      case True
      with Cons.prems(1) Some obtain m1 where
        v: "vote_entries (ha_self_node_id ack) (ha_block_hashes ack) m = Ret m1" and c: "collect_votes pa rs m1 = Ret m'"
        by (auto simp: run_simps)
      note e = vote_entries_result [OF v Cons.prems(2)]
      from Cons.IH [OF c e(1)] e(2,3) Some True show ?thesis by (auto simp: reports_Cons)
    qed
  qed
qed

lemma own_votes_fold:
  assumes "wf_votes m"
  shows "wf_votes (foldl (\<lambda>m h. vote_block k (take SUBSTR_LEN h) ''temp'' m) m hs)
    \<and> voters (foldl (\<lambda>m h. vote_block k (take SUBSTR_LEN h) ''temp'' m) m hs) h p =
        voters m h p \<union> (if h = k \<and> p \<in> take SUBSTR_LEN ` set hs then {''temp''} else {})
    \<and> fst ` set (foldl (\<lambda>m h. vote_block k (take SUBSTR_LEN h) ''temp'' m) m hs) =
        fst ` set m \<union> (if hs = [] then {} else {k})"
  using assms
proof (induction hs arbitrary: m)
  case (Cons x hs)
  have "wf_votes (vote_block k (take SUBSTR_LEN x) ''temp'' m)" by (rule wf_vote_block [OF Cons.prems])
  from Cons.IH [OF this] show ?case by (auto simp: voters_vote_block keys_vote_block)
qed auto

lemma own_votes_loop:
  assumes "loop_run (\<lambda>m height.
       bind_run (own_hashes mrd height) (\<lambda>(dbRet, selfBlockHashes).
         if dbRet \<noteq> DB_SUCCESS \<and> dbRet \<noteq> DB_NOT_FOUND then Ret (Inl (-4 :: int))
         else Ret (Inr (foldl (\<lambda>m h. vote_block height (take SUBSTR_LEN h) ''temp'' m) m selfBlockHashes)))) m ks = Ret (Inr m')"
    and "wf_votes m"
    and "set ks \<subseteq> fst ` set m"
  shows "wf_votes m' \<and> (\<forall>h p. voters m' h p =
        voters m h p \<union> (if h \<in> set ks \<and> p \<in> take SUBSTR_LEN ` set (stored_hashes mrd h) then {''temp''} else {}))
    \<and> fst ` set m' = fst ` set m"
  using assms
proof (induction ks arbitrary: m)
  case (Cons k ks)
  from Cons.prems(1) obtain m1 where b: "bind_run (own_hashes mrd k) (\<lambda>(dbRet, selfBlockHashes).
         if dbRet \<noteq> DB_SUCCESS \<and> dbRet \<noteq> DB_NOT_FOUND then Ret (Inl (-4 :: int))
         else Ret (Inr (foldl (\<lambda>m h. vote_block k (take SUBSTR_LEN h) ''temp'' m) m selfBlockHashes))) = Ret (Inr m1)"
    and l: "loop_run (\<lambda>m height.
       bind_run (own_hashes mrd height) (\<lambda>(dbRet, selfBlockHashes).
         if dbRet \<noteq> DB_SUCCESS \<and> dbRet \<noteq> DB_NOT_FOUND then Ret (Inl (-4 :: int))
         else Ret (Inr (foldl (\<lambda>m h. vote_block height (take SUBSTR_LEN h) ''temp'' m) m selfBlockHashes)))) m1 ks = Ret (Inr m')"
    unfolding loop_run_Cons_Inr by blast
  from b have m1: "m1 = foldl (\<lambda>m h. vote_block k (take SUBSTR_LEN h) ''temp'' m) m (stored_hashes mrd k)"
    by (auto simp: run_simps stored_hashes_def split: if_splits prod.splits)
  note o = own_votes_fold [OF Cons.prems(2), of k "stored_hashes mrd k", folded m1]
  have k: "fst ` set m1 = fst ` set m" using o Cons.prems(3) by auto
  have "wf_votes m1" "set ks \<subseteq> fst ` set m1" using o Cons.prems(3) by (auto simp: k)
  from Cons.IH [OF l this] o k show ?case by auto
qed simp

lemma all_votes_result:
  assumes "all_votes pa mrd w asked = Ret (Inr m)"
  shows "wf_votes m"
    and "voters m h p = reports pa (wr_answers w) h p \<union>
       (if (\<exists>q. reports pa (wr_answers w) h q \<noteq> {}) \<and> p \<in> take SUBSTR_LEN ` set (stored_hashes mrd h) then {''temp''} else {})"
    and "fst ` set m = {h. \<exists>q. reports pa (wr_answers w) h q \<noteq> {}}"
proof -
  from assms obtain m0 where c: "collect_votes pa (wr_answers w) [] = Ret m0" and a: "add_own_votes mrd m0 = Ret (Inr m)"
    by (auto simp: all_votes_def run_simps split: if_splits)
  have "wf_votes []" by (simp add: wf_votes_def)
  from collect_votes_result [OF c this] have m0: "wf_votes m0"
    "\<And>h p. voters m0 h p = reports pa (wr_answers w) h p" "set (map fst m0) = {h. \<exists>q. reports pa (wr_answers w) h q \<noteq> {}}"
    by (auto simp: voters_def)
  have "set (map fst m0) \<subseteq> fst ` set m0" by simp
  from own_votes_loop [OF a [unfolded add_own_votes_def] m0(1) this] m0(2,3)
  show "wf_votes m"
    and "voters m h p = reports pa (wr_answers w) h p \<union>
       (if (\<exists>q. reports pa (wr_answers w) h q \<noteq> {}) \<and> p \<in> take SUBSTR_LEN ` set (stored_hashes mrd h) then {''temp''} else {})"
    and "fst ` set m = {h. \<exists>q. reports pa (wr_answers w) h q \<noteq> {}}"
    by auto
qed

subsection \<open>What is rolled back and what is requested\<close>

lemma in_addBlockToMap:
  assumes "(h, bs) \<in> set (addBlockToMap block m)" "b \<in> set bs"
  shows "b = block \<or> (\<exists>h' bs'. (h', bs') \<in> set m \<and> b \<in> set bs')"
proof -
  define m1 where "m1 = (if map_of m (bl_height block) = None then map_assign (bl_height block) [] m else m)"
  have a: "addBlockToMap block m = map_assign (bl_height block) (set_insert BlockComparator block (the (map_of m1 (bl_height block)))) m1"
    by (simp add: addBlockToMap_def Let_def m1_def)
  have "(h, bs) = (bl_height block, set_insert BlockComparator block (the (map_of m1 (bl_height block)))) \<or> (h, bs) \<in> set m1"
    using assms(1) set_assign_subset [of "bl_height block" _ m1] unfolding a by blast
  moreover have "set m1 \<subseteq> insert (bl_height block, []) (set m)"
    using set_assign_subset [of "bl_height block" "[]" m] by (auto simp: m1_def)
  moreover have "set (the (map_of m1 (bl_height block))) \<subseteq> {b. \<exists>h' bs'. (h', bs') \<in> set m \<and> b \<in> set bs'}"
  proof (cases "map_of m (bl_height block)")
    case None
    then show ?thesis by (simp add: m1_def)
  next
    case (Some x)
    then show ?thesis using map_of_SomeD [OF Some] by (auto simp: m1_def)
  qed
  ultimately consider "bs = set_insert BlockComparator block (the (map_of m1 (bl_height block)))" | "bs = []" | "(h, bs) \<in> set m"
    by blast
  then show ?thesis
  proof cases
    case 1
    then show ?thesis
      using assms(2) set_insert_subset [of BlockComparator block "the (map_of m1 (bl_height block))"]
        \<open>set (the (map_of m1 (bl_height block))) \<subseteq> _\<close> by blast
  qed (use assms(2) in auto)
qed

text \<open>Why a block is rolled back, and why a key is requested, given the votes.\<close>

definition outvoted ::
    "(cxx_string \<Rightarrow> CBlock option) \<Rightarrow> u64 \<Rightarrow> reader \<Rightarrow> mreader \<Rightarrow> nat \<Rightarrow> height_votes \<Rightarrow> CBlock \<Rightarrow> bool" where
  "outvoted parse now rd mrd vn m b \<longleftrightarrow>
     (\<exists>h\<in>fst ` set m. \<exists>hash\<in>set (stored_hashes mrd h). \<exists>raw. getBlockByBlockHash rd hash [] = Ret (DB_SUCCESS, raw) \<and> parse raw = Some b \<and>
        bl_time b < now - RollBackTime \<and> card (voters m h (take SUBSTR_LEN hash)) < vn)"

definition wanted :: "mreader \<Rightarrow> nat \<Rightarrow> height_votes \<Rightarrow> cxx_string set \<Rightarrow> cxx_string \<Rightarrow> bool" where
  "wanted mrd vn m ids key \<longleftrightarrow>
     (\<exists>h p. key = to_string h @ ''_'' @ p \<and> p \<notin> take SUBSTR_LEN ` set (stored_hashes mrd h) \<and>
        vn \<le> card (voters m h p) \<and> ids \<subseteq> voters m h p)"

definition verdict_ok ::
    "(cxx_string \<Rightarrow> CBlock option) \<Rightarrow> u64 \<Rightarrow> reader \<Rightarrow> mreader \<Rightarrow> nat \<Rightarrow> height_votes \<Rightarrow> hash_verdict \<Rightarrow> bool" where
  "verdict_ok parse now rd mrd vn m s \<longleftrightarrow>
     (\<forall>h bs b. (h, bs) \<in> set (hv_rollback s) \<longrightarrow> b \<in> set bs \<longrightarrow> outvoted parse now rd mrd vn m b) \<and>
     (\<forall>key\<in>set (hv_need s). wanted mrd vn m {} key) \<and>
     (hv_need s \<noteq> [] \<longrightarrow> wanted mrd vn m (hv_nodes s) (last (hv_need s)))"

lemma stale_block_outvoted:
  assumes "stale_block parse now rd mrd prefixes h p = Ret (Inr (Some b))" "card (voters m h p) < vn" "h \<in> fst ` set m"
  shows "outvoted parse now rd mrd vn m b"
proof -
  from assms(1) obtain hs x raw where o: "own_hashes mrd h = Ret (DB_SUCCESS, hs)"
    and f: "find (\<lambda>h. take SUBSTR_LEN h = p) hs = Some x"
    and g: "getBlockByBlockHash rd x [] = Ret (DB_SUCCESS, raw)" "parse raw = Some b" "bl_time b < now - RollBackTime"
    by (auto simp: stale_block_def run_simps Let_def split: if_splits prod.splits option.splits)
  have x: "x \<in> set hs" "take SUBSTR_LEN x = p" using f by (auto simp: find_Some_iff)
  have "stored_hashes mrd h = hs" by (simp add: stored_hashes_def o)
  then have "x \<in> set (stored_hashes mrd h)" using x(1) by simp
  moreover have "card (voters m h (take SUBSTR_LEN x)) < vn" using assms(2) x(2) by simp
  ultimately show ?thesis unfolding outvoted_def using g assms(3) by (intro bexI [of _ h] bexI [of _ x] exI [of _ raw] conjI)
qed

lemma judge_hash_ok:
  assumes "judge_hash parse now rd mrd vn (map (take SUBSTR_LEN) (stored_hashes mrd h)) h s hn = Ret (Inr s')"
    and "verdict_ok parse now rd mrd vn m s" and "voters m h (fst hn) = snd hn" and "h \<in> fst ` set m"
  shows "verdict_ok parse now rd mrd vn m s'"
proof (cases "vn \<le> card (snd hn)")
  case True
  have w: "wanted mrd vn m ids (to_string h @ ''_'' @ fst hn)"
    if "ids \<subseteq> snd hn" "fst hn \<notin> take SUBSTR_LEN ` set (stored_hashes mrd h)" for ids
    unfolding wanted_def by (intro exI [of _ h] exI [of _ "fst hn"] conjI) (use that True assms(3) in simp_all)
  show ?thesis
  proof (cases "fst hn \<in> take SUBSTR_LEN ` set (stored_hashes mrd h)")
    case held: True
    then show ?thesis using assms(1,2) True by (simp add: judge_hash_def split_beta)
  next
    case new: False
    then have s': "s' = s\<lparr>hv_need := hv_need s @ [to_string h @ ''_'' @ fst hn],
        hv_nodes := (if hv_nodes s = {} then snd hn else hv_nodes s \<inter> snd hn)\<rparr>"
      using assms(1) True by (simp add: judge_hash_def split_beta)
    have "hv_nodes s' \<subseteq> snd hn" by (simp add: s')
    then have "wanted mrd vn m {} (to_string h @ ''_'' @ fst hn)" "wanted mrd vn m (hv_nodes s') (to_string h @ ''_'' @ fst hn)"
      using w new by simp_all
    moreover have "hv_rollback s' = hv_rollback s" "hv_need s' = hv_need s @ [to_string h @ ''_'' @ fst hn]" by (simp_all add: s')
    ultimately show ?thesis using assms(2) unfolding verdict_ok_def by simp
  qed
next
  case False
  then have c: "card (voters m h (fst hn)) < vn" using assms(3) by simp
  have j: "judge_hash parse now rd mrd vn (map (take SUBSTR_LEN) (stored_hashes mrd h)) h s hn =
      bind_run (stale_block parse now rd mrd (map (take SUBSTR_LEN) (stored_hashes mrd h)) h (fst hn)) (\<lambda>r.
        Ret (case r of Inl code \<Rightarrow> Inl code | Inr None \<Rightarrow> Inr s
          | Inr (Some block) \<Rightarrow> Inr (s\<lparr>hv_rollback := addBlockToMap block (hv_rollback s)\<rparr>)))"
    using False by (simp add: judge_hash_def split_beta)
  obtain r where r: "stale_block parse now rd mrd (map (take SUBSTR_LEN) (stored_hashes mrd h)) h (fst hn) = Ret r"
    and s': "(case r of Inl code \<Rightarrow> Inl code | Inr None \<Rightarrow> Inr s
      | Inr (Some block) \<Rightarrow> Inr (s\<lparr>hv_rollback := addBlockToMap block (hv_rollback s)\<rparr>)) = Inr s'"
    using assms(1) unfolding j bind_run_eq_Ret by blast
  show ?thesis
  proof (cases "r = Inr None")
    case True
    then show ?thesis using s' assms(2) by simp
  next
    case n: False
    with s' obtain b where b: "r = Inr (Some b)" and s1: "s' = s\<lparr>hv_rollback := addBlockToMap b (hv_rollback s)\<rparr>"
      by (cases r) (auto split: option.splits)
    have o: "outvoted parse now rd mrd vn m b" using stale_block_outvoted [OF r [unfolded b] c assms(4)] .
    have "outvoted parse now rd mrd vn m x" if "(k, bs) \<in> set (addBlockToMap b (hv_rollback s))" "x \<in> set bs" for k bs x
      using in_addBlockToMap [OF that] o assms(2) unfolding verdict_ok_def by blast
    then show ?thesis using assms(2) unfolding s1 verdict_ok_def by simp
  qed
qed

lemma judge_height_ok:
  assumes "judge_height parse now rd mrd vn s e = Ret (Inr s')" "verdict_ok parse now rd mrd vn m s" "wf_votes m" "e \<in> set m"
  shows "verdict_ok parse now rd mrd vn m s'"
proof -
  from assms(1) obtain ret hs where o: "own_hashes mrd (fst e) = Ret (ret, hs)"
    and l: "loop_run (judge_hash parse now rd mrd vn (map (take SUBSTR_LEN) hs) (fst e)) s (snd e) = Ret (Inr s')"
    by (auto simp: judge_height_def run_simps split: if_splits prod.splits)
  have hs: "hs = stored_hashes mrd (fst e)" using o by (simp add: stored_hashes_def)
  show ?thesis
  proof (rule loop_run_invariant [OF l, of "verdict_ok parse now rd mrd vn m"])
    fix s hn s1
    assume h: "hn \<in> set (snd e)" and i: "verdict_ok parse now rd mrd vn m s"
      and b: "judge_hash parse now rd mrd vn (map (take SUBSTR_LEN) hs) (fst e) s hn = Ret (Inr s1)"
    show "verdict_ok parse now rd mrd vn m s1"
      by (rule judge_hash_ok [OF b [unfolded hs] i voters_entry [OF assms(3,4) h]]) (use assms(4) in simp)
  qed (rule assms(2))
qed

lemma judged_ok:
  assumes "loop_run (judge_height parse now rd mrd vn) \<lparr>hv_nodes = {}, hv_need = [], hv_rollback = []\<rparr> m = Ret (Inr s)"
    and "wf_votes m"
  shows "verdict_ok parse now rd mrd vn m s"
proof (rule loop_run_invariant [OF assms(1), of "verdict_ok parse now rd mrd vn m"])
  show "verdict_ok parse now rd mrd vn m \<lparr>hv_nodes = {}, hv_need = [], hv_rollback = []\<rparr>" by (simp add: verdict_ok_def)
qed (rule judge_height_ok [OF _ _ assms(2)])

lemma outvoted_reports:
  assumes "outvoted parse now rd mrd vn m b" "all_votes pa mrd w asked = Ret (Inr m)"
  shows "\<exists>h. \<exists>hash\<in>set (stored_hashes mrd h). \<exists>raw. getBlockByBlockHash rd hash [] = Ret (DB_SUCCESS, raw) \<and> parse raw = Some b \<and>
    (\<exists>q. reports pa (wr_answers w) h q \<noteq> {}) \<and> bl_time b < now - 15000000 \<and>
    card (reports pa (wr_answers w) h (take 8 hash) \<union> {''temp''}) < vn"
proof -
  from assms(1) obtain h hash raw where o: "h \<in> fst ` set m" "hash \<in> set (stored_hashes mrd h)"
    "getBlockByBlockHash rd hash [] = Ret (DB_SUCCESS, raw)" "parse raw = Some b" "bl_time b < now - RollBackTime"
    "card (voters m h (take SUBSTR_LEN hash)) < vn" unfolding outvoted_def by auto
  note a = all_votes_result [OF assms(2)]
  have q: "\<exists>q. reports pa (wr_answers w) h q \<noteq> {}" using o(1) a(3) by simp
  have "voters m h (take SUBSTR_LEN hash) = reports pa (wr_answers w) h (take 8 hash) \<union> {''temp''}"
    using a(2) [of h "take SUBSTR_LEN hash"] q o(2) by (simp add: SUBSTR_LEN_def)
  then have "card (reports pa (wr_answers w) h (take 8 hash) \<union> {''temp''}) < vn" using o(6) by simp
  then show ?thesis using o(2,3,4) o(5) [unfolded RollBackTime_def] q
    by - (rule exI [of _ h], rule bexI [of _ hash], rule exI [of _ raw], intro conjI; assumption)
qed

lemma wanted_reports:
  assumes "wanted mrd vn m ids key" "all_votes pa mrd w asked = Ret (Inr m)"
  shows "\<exists>h p. key = to_string h @ ''_'' @ p \<and> p \<notin> take 8 ` set (stored_hashes mrd h) \<and>
    vn \<le> card (reports pa (wr_answers w) h p) \<and> ids \<subseteq> reports pa (wr_answers w) h p"
proof -
  from assms(1) obtain h p where k: "key = to_string h @ ''_'' @ p" "p \<notin> take SUBSTR_LEN ` set (stored_hashes mrd h)"
    "vn \<le> card (voters m h p)" "ids \<subseteq> voters m h p" unfolding wanted_def by auto
  have "voters m h p = reports pa (wr_answers w) h p" using all_votes_result(2) [OF assms(2), of h p] k(2) by simp
  then show ?thesis using k by (intro exI [of _ h] exI [of _ p] conjI) (simp_all add: SUBSTR_LEN_def)
qed

lemma verification_result:
  assumes "getSyncBlockHashVerification pa parse now rd mrd w asked = Ret (code, ids, req, calls)"
  obtains "ids = []" "req = []" "calls = []"
  | m s where "all_votes pa mrd w asked = Ret (Inr m)" "verdict_ok parse now rd mrd (verify_num (length (wr_answers w))) m s"
      "code = 0" "ids = sorted_list_of_set (hv_nodes s - {''temp''})" "req = hv_need s"
      "calls = (if hv_rollback s \<noteq> [] then [CallRollback (hv_rollback s)] else [])"
proof -
  from assms obtain r where r: "all_votes pa mrd w asked = Ret r" by (auto simp: getSyncBlockHashVerification_def run_simps)
  show ?thesis
  proof (cases r)
    case (Inl c)
    then show ?thesis using assms r that(1) by (simp add: getSyncBlockHashVerification_def run_simps)
  next
    case (Inr m)
    define l where "l = loop_run (judge_height parse now rd mrd (verify_num (length (wr_answers w))))
      \<lparr>hv_nodes = {}, hv_need = [], hv_rollback = []\<rparr> m"
    from assms r Inr obtain x where x: "l = Ret x" by (auto simp: getSyncBlockHashVerification_def run_simps l_def)
    show ?thesis
    proof (cases x)
      case (Inl c)
      then show ?thesis using assms r \<open>r = Inr m\<close> x that(1)
        by (simp add: getSyncBlockHashVerification_def run_simps l_def [symmetric])
    next
      case i: (Inr s)
      have "verdict_ok parse now rd mrd (verify_num (length (wr_answers w))) m s"
        by (rule judged_ok [OF x [unfolded l_def i]]) (rule all_votes_result(1) [OF r [unfolded Inr]])
      then show ?thesis using assms r Inr x i
        by (intro that(2) [of m s]) (simp_all add: getSyncBlockHashVerification_def run_simps l_def [symmetric])
    qed
  qed
qed

lemma verification_majorities:
  assumes "getSyncBlockHashVerification parse_ack parse now rd mrd w asked = Ret (code, ids, req, calls)"
    and "length (wr_answers w) < 2 ^ 39"
  shows "CallRollback m \<in> set calls \<Longrightarrow> (height, bs) \<in> set m \<Longrightarrow> b \<in> set bs \<Longrightarrow>
      \<exists>h. \<exists>hash\<in>set (stored_hashes mrd h). \<exists>raw. getBlockByBlockHash rd hash [] = Ret (DB_SUCCESS, raw) \<and> parse raw = Some b \<and>
        (\<exists>q. reports parse_ack (wr_answers w) h q \<noteq> {}) \<and> bl_time b < now - 15000000 \<and>
        card (reports parse_ack (wr_answers w) h (take 8 hash) \<union> {''temp''}) < 51 * (length (wr_answers w) + 1) div 100"
    and "key \<in> set req \<Longrightarrow>
      \<exists>h p. key = to_string h @ ''_'' @ p \<and> p \<notin> take 8 ` set (stored_hashes mrd h) \<and>
        51 * (length (wr_answers w) + 1) div 100 \<le> card (reports parse_ack (wr_answers w) h p) \<and>
        (key = last req \<longrightarrow> set ids \<subseteq> reports parse_ack (wr_answers w) h p)"
proof -
  have n: "verify_num (length (wr_answers w)) = 51 * (length (wr_answers w) + 1) div 100"
    using p51.trunc_eq [of "length (wr_answers w) + 1"] assms(2) by (simp add: verify_num_def)
  show "CallRollback m \<in> set calls \<Longrightarrow> (height, bs) \<in> set m \<Longrightarrow> b \<in> set bs \<Longrightarrow>
      \<exists>h. \<exists>hash\<in>set (stored_hashes mrd h). \<exists>raw. getBlockByBlockHash rd hash [] = Ret (DB_SUCCESS, raw) \<and> parse raw = Some b \<and>
        (\<exists>q. reports parse_ack (wr_answers w) h q \<noteq> {}) \<and> bl_time b < now - 15000000 \<and>
        card (reports parse_ack (wr_answers w) h (take 8 hash) \<union> {''temp''}) < 51 * (length (wr_answers w) + 1) div 100"
  proof (rule verification_result [OF assms(1)])
    fix m' s
    assume c: "CallRollback m \<in> set calls" "(height, bs) \<in> set m" "b \<in> set bs"
      and v: "all_votes parse_ack mrd w asked = Ret (Inr m')" "verdict_ok parse now rd mrd (verify_num (length (wr_answers w))) m' s"
      and d: "calls = (if hv_rollback s \<noteq> [] then [CallRollback (hv_rollback s)] else [])"
    from c(1) d have "m = hv_rollback s" by (simp split: if_splits)
    with v(2) c(2,3) have "outvoted parse now rd mrd (verify_num (length (wr_answers w))) m' b"
      unfolding verdict_ok_def by blast
    from outvoted_reports [OF this v(1)] show ?thesis unfolding n .
  qed simp
  show "key \<in> set req \<Longrightarrow>
      \<exists>h p. key = to_string h @ ''_'' @ p \<and> p \<notin> take 8 ` set (stored_hashes mrd h) \<and>
        51 * (length (wr_answers w) + 1) div 100 \<le> card (reports parse_ack (wr_answers w) h p) \<and>
        (key = last req \<longrightarrow> set ids \<subseteq> reports parse_ack (wr_answers w) h p)"
  proof (rule verification_result [OF assms(1)])
    fix m' s
    assume k: "key \<in> set req"
      and v: "all_votes parse_ack mrd w asked = Ret (Inr m')" "verdict_ok parse now rd mrd (verify_num (length (wr_answers w))) m' s"
      and d: "ids = sorted_list_of_set (hv_nodes s - {''temp''})" "req = hv_need s"
    have i: "set ids \<subseteq> hv_nodes s" unfolding d(1) by (cases "finite (hv_nodes s - {''temp''})") auto
    show ?thesis
    proof (cases "key = last req")
      case True
      have "wanted mrd (verify_num (length (wr_answers w))) m' (hv_nodes s) key"
        using v(2) k d(2) unfolding verdict_ok_def True by auto
      from wanted_reports [OF this v(1)] obtain h p where
        "key = to_string h @ ''_'' @ p" "p \<notin> take 8 ` set (stored_hashes mrd h)"
        "51 * (length (wr_answers w) + 1) div 100 \<le> card (reports parse_ack (wr_answers w) h p)"
        "hv_nodes s \<subseteq> reports parse_ack (wr_answers w) h p" unfolding n by auto
      with i show ?thesis by (intro exI [of _ h] exI [of _ p] conjI impI; blast)
    next
      case False
      have "wanted mrd (verify_num (length (wr_answers w))) m' {} key"
        using v(2) k d(2) unfolding verdict_ok_def by blast
      from wanted_reports [OF this v(1)] False show ?thesis unfolding n by blast
    qed
  qed simp
qed

text \<open>
  C11. The verification of hashes with \<open>n\<close> answers has the threshold of 51 hundredths of \<open>n + 1\<close>, the answering nodes and
  this one, rounded down: one of three voters reaches it. A rollback it starts takes back only stored blocks older
  than 15 seconds, at a height that somebody reported, whose hash was reported by fewer, this node
  counted. A requested hash is not stored and was reported by that many answering nodes or more, among them, for the
  last one, every node that will be asked.
\<close>

theorem rollback_needs_minority:
  assumes "getSyncBlockHashVerification parse_ack parse now rd mrd w asked = Ret (code, ids, req, calls)"
    and "length (wr_answers w) < 2 ^ 39"
  shows "(\<forall>m height bs b. CallRollback m \<in> set calls \<and> (height, bs) \<in> set m \<and> b \<in> set bs \<longrightarrow>
      (\<exists>h. \<exists>hash\<in>set (stored_hashes mrd h). \<exists>raw. getBlockByBlockHash rd hash [] = Ret (DB_SUCCESS, raw) \<and> parse raw = Some b \<and>
        (\<exists>q. reports parse_ack (wr_answers w) h q \<noteq> {}) \<and> bl_time b < now - 15000000 \<and>
        card (reports parse_ack (wr_answers w) h (take 8 hash) \<union> {''temp''}) < 51 * (length (wr_answers w) + 1) div 100))
   \<and> (\<forall>key\<in>set req.
      \<exists>h p. key = to_string h @ ''_'' @ p \<and> p \<notin> take 8 ` set (stored_hashes mrd h) \<and>
        51 * (length (wr_answers w) + 1) div 100 \<le> card (reports parse_ack (wr_answers w) h p) \<and>
        (key = last req \<longrightarrow> set ids \<subseteq> reports parse_ack (wr_answers w) h p))"
  using verification_majorities [OF assms] by blast

text \<open>Four voters: three nodes report one block of height 5, this node holds another.\<close>

definition sample_ack :: "cxx_string \<Rightarrow> SyncGetBlockHeightAndHashAck option" where
  "sample_ack raw = Some (hashes_ack_new\<lparr>ha_self_node_id := raw, ha_block_hashes := [''5_abcdefgh'']\<rparr>)"

definition sample_votes_round :: wait_round where
  "sample_votes_round = \<lparr>wr_created = True, wr_added = (\<lambda>_. True), wr_complete = True, wr_answers = [''a'', ''b'', ''c'']\<rparr>"

definition sample_block :: CBlock where "sample_block = CBlock_new\<lparr>bl_height := 5, bl_hash := ''12345678xyz''\<rparr>"

definition sample_verification :: "(int \<times> cxx_string list \<times> cxx_string list \<times> helper_call list) run" where
  "sample_verification = getSyncBlockHashVerification sample_ack (\<lambda>_. Some sample_block) 20000000
     (\<lambda>k v. Ret (DB_SUCCESS, [])) (\<lambda>ks v. Ret (DB_SUCCESS, [''12345678xyz''])) sample_votes_round [''a'', ''b'', ''c'']"

lemma sample_entry: "parse_height_prefix ''5_abcdefgh'' = Ret (Some (5, ''abcdefgh''))"
proof -
  have "to_string (5 :: u64) = ''5''" by code_simp
  then have "stoull ''5'' = Ret (5 :: u64)" using stoull_to_string [of "5 :: u64"] by simp
  then show ?thesis by (simp add: parse_height_prefix_def tokens_def)
qed

lemma sample_hashes: "own_hashes (\<lambda>ks v. Ret (DB_SUCCESS, [''12345678xyz''])) 5 = Ret (DB_SUCCESS, [''12345678xyz''])"
  by (simp add: own_hashes_def getBlockHashesByBlockHeight_def height_keys_ends tokens_def)

lemma sample_all_votes:
  "all_votes sample_ack (\<lambda>ks v. Ret (DB_SUCCESS, [''12345678xyz''])) sample_votes_round [''a'', ''b'', ''c''] =
     Ret (Inr [(5, [(''12345678'', {''temp''}), (''abcdefgh'', {''a'', ''b'', ''c''})])])"
  by (simp add: all_votes_def sample_votes_round_def sample_ack_def hashes_ack_new_def sample_entry vote_block_def add_own_votes_def
      sample_hashes SUBSTR_LEN_def insert_commute)

lemma sample_verification_result:
  "sample_verification = Ret (0, [''a'', ''b'', ''c''], [''5_abcdefgh''], [CallRollback [(5, [sample_block])]])"
proof -
  have n: "verify_num 3 = 2" using p51.trunc_eq [of 4] by (simp add: verify_num_def)
  have k: "to_string (5 :: u64) = ''5''" by code_simp
  have l: "length (wr_answers sample_votes_round) = 3" by (simp add: sample_votes_round_def)
  show ?thesis
    by (simp add: sample_verification_def getSyncBlockHashVerification_def sample_all_votes judge_height_def sample_hashes
        judge_hash_def stale_block_def n k l SUBSTR_LEN_def getBlockByBlockHash_def sample_block_def
        RollBackTime_def CBlock_new_def addBlockToMap_def)
qed

theorem rollback_needs_minority_witness:
  "\<exists>h. \<exists>hash\<in>set (stored_hashes (\<lambda>ks v. Ret (DB_SUCCESS, [''12345678xyz''])) h).
     card (reports sample_ack [''a'', ''b'', ''c''] h (take 8 hash) \<union> {''temp''}) < 2"
proof -
  have "length (wr_answers sample_votes_round) < 2 ^ 39" by (simp add: sample_votes_round_def)
  from rollback_needs_minority [OF sample_verification_result [unfolded sample_verification_def] this]
  have "\<exists>h. \<exists>hash\<in>set (stored_hashes (\<lambda>ks v. Ret (DB_SUCCESS, [''12345678xyz''])) h).
      card (reports sample_ack (wr_answers sample_votes_round) h (take 8 hash) \<union> {''temp''}) <
      51 * (length (wr_answers sample_votes_round) + 1) div 100"
    by (auto simp del: Un_insert_right)
  then show ?thesis by (simp add: sample_votes_round_def)
qed

subsection \<open>The two functions that decide on rollbacks\<close>

lemma stale_block_code: "stale_block parse now rd mrd prefixes h p = Ret (Inl code) \<Longrightarrow> code = -6"
  by (auto simp: stale_block_def run_simps Let_def split: if_splits prod.splits option.splits)

lemma map_assign_nonempty: "map_assign k v m \<noteq> []"
  by (cases m) (auto split: if_splits)

lemma addBlockToMap_nonempty: "addBlockToMap b m \<noteq> []"
  by (simp add: addBlockToMap_def Let_def map_assign_nonempty)

abbreviation rollback_map :: "CBlock list \<Rightarrow> block_map" where
  "rollback_map bs \<equiv> foldl (\<lambda>m b. addBlockToMap b m) [] bs"

lemma rollback_map_nonempty: "rollback_map bs \<noteq> [] \<longleftrightarrow> bs \<noteq> []"
  by (cases bs rule: rev_cases) (simp_all add: addBlockToMap_nonempty)

abbreviation started :: "int \<times> CBlock list \<Rightarrow> int \<times> helper_call list" where
  "started r \<equiv> (fst r, if fst r = 0 \<and> snd r \<noteq> [] then [CallRollback (rollback_map (snd r))] else [])"

lemma hash_agrees:
  assumes "hv_rollback s = rollback_map bs"
  shows "bind_run (judge_hash parse now rd mrd vn prefixes h s hn) (\<lambda>r. Ret (map_sum (\<lambda>code. (code, [])) hv_rollback r)) =
    bind_run (fetch_hash parse now rd mrd vn prefixes h bs hn) (\<lambda>r. Ret (map_sum started rollback_map r))"
proof (cases "vn \<le> card (snd hn)")
  case True
  then show ?thesis using assms by (simp add: judge_hash_def fetch_hash_def split_beta)
next
  case False
  then show ?thesis using assms stale_block_code [of parse now rd mrd prefixes h "fst hn"]
    by (cases "stale_block parse now rd mrd prefixes h (fst hn)")
       (auto simp: judge_hash_def fetch_hash_def split_beta split: sum.splits option.splits)
qed

lemma height_agrees:
  assumes "hv_rollback s = rollback_map bs"
  shows "bind_run (judge_height parse now rd mrd vn s e) (\<lambda>r. Ret (map_sum (\<lambda>code. (code, [])) hv_rollback r)) =
    bind_run (fetch_height parse now rd mrd vn bs e) (\<lambda>r. Ret (map_sum started rollback_map r))"
proof (cases "own_hashes mrd (fst e)")
  case (Ret r)
  then show ?thesis
    using loop_run_related [of "snd e" hv_rollback rollback_map _ "\<lambda>code. (code, [])" _ started, OF hash_agrees assms]
    by (auto simp: judge_height_def fetch_height_def split_beta)
qed (simp_all add: judge_height_def fetch_height_def)

lemma votes_agree:
  "bind_run (loop_run (judge_height parse now rd mrd vn) \<lparr>hv_nodes = {}, hv_need = [], hv_rollback = []\<rparr> m)
     (\<lambda>r. Ret (map_sum (\<lambda>code. (code, [])) hv_rollback r)) =
   bind_run (loop_run (fetch_height parse now rd mrd vn) [] m) (\<lambda>r. Ret (map_sum started rollback_map r))"
  by (rule loop_run_related) (simp_all add: height_agrees)

text \<open>
  C12. The function that only looks for blocks to roll back and the one that also requests blocks agree on every
  input: same error code, and the rollback the second starts is of the blocks the first returns.
\<close>

theorem rollback_decisions_agree:
  "bind_run (getSyncBlockHashVerification parse_ack parse now rd mrd w asked) (\<lambda>(code, ids, req, calls). Ret (code, calls)) =
   bind_run (fetchRollbackBlock parse_ack parse now rd mrd w asked) (\<lambda>(code, blocks).
     Ret (code, if code = 0 \<and> blocks \<noteq> [] then [CallRollback (foldl (\<lambda>m b. addBlockToMap b m) [] blocks)] else []))"
proof (cases "all_votes parse_ack mrd w asked")
  case (Ret r)
  show ?thesis
  proof (cases r)
    case (Inl code)
    then show ?thesis using Ret by (simp add: getSyncBlockHashVerification_def fetchRollbackBlock_def)
  next
    case (Inr m)
    let ?vn = "verify_num (length (wr_answers w))"
    let ?j = "loop_run (judge_height parse now rd mrd ?vn) \<lparr>hv_nodes = {}, hv_need = [], hv_rollback = []\<rparr> m"
    let ?f = "loop_run (fetch_height parse now rd mrd ?vn) [] m"
    have "bind_run (getSyncBlockHashVerification parse_ack parse now rd mrd w asked) (\<lambda>(code, ids, req, calls). Ret (code, calls)) =
        bind_run (bind_run ?j (\<lambda>r. Ret (map_sum (\<lambda>code. (code, [])) hv_rollback r)))
          (\<lambda>r. Ret (case r of Inl x \<Rightarrow> x | Inr m \<Rightarrow> (0, if m \<noteq> [] then [CallRollback m] else [])))"
      using Ret Inr by (cases ?j) (auto simp: getSyncBlockHashVerification_def split: sum.splits)
    also have "\<dots> = bind_run (bind_run ?f (\<lambda>r. Ret (map_sum started rollback_map r)))
          (\<lambda>r. Ret (case r of Inl x \<Rightarrow> x | Inr m \<Rightarrow> (0, if m \<noteq> [] then [CallRollback m] else [])))"
      unfolding votes_agree ..
    also have "\<dots> = bind_run (fetchRollbackBlock parse_ack parse now rd mrd w asked) (\<lambda>(code, blocks).
        Ret (code, if code = 0 \<and> blocks \<noteq> [] then [CallRollback (rollback_map blocks)] else []))"
      using Ret Inr by (cases ?f) (auto simp: fetchRollbackBlock_def rollback_map_nonempty split: sum.splits)
    finally show ?thesis .
  qed
qed (simp_all add: getSyncBlockHashVerification_def fetchRollbackBlock_def)

subsection \<open>Blocks by height\<close>

definition wf_block_map :: "block_map \<Rightarrow> bool" where
  "wf_block_map m \<longleftrightarrow> ordered_map m \<and>
     (\<forall>(h, bs)\<in>set m. bs \<noteq> [] \<and> (\<forall>b\<in>set bs. bl_height b = h) \<and> sorted_wrt (\<lambda>a b. bl_time b < bl_time a) bs)"

definition blocks_of :: "block_map \<Rightarrow> CBlock set" where
  "blocks_of m = (\<Union>e\<in>set m. set (snd e))"

lemma set_insert_times:
  assumes "\<forall>c\<in>set bs. bl_height c = bl_height b" "sorted_wrt (\<lambda>a b. bl_time b < bl_time a) bs"
  shows "sorted_wrt (\<lambda>a b. bl_time b < bl_time a) (set_insert BlockComparator b bs)
    \<and> set (set_insert BlockComparator b bs) = (if \<exists>c\<in>set bs. bl_time c = bl_time b then set bs else insert b (set bs))"
  using assms
proof (induction bs)
  case (Cons y ys)
  have h: "bl_height y = bl_height b" "\<forall>c\<in>set ys. bl_height c = bl_height b" using Cons.prems(1) by simp_all
  have t: "\<forall>c\<in>set ys. bl_time c < bl_time y" "sorted_wrt (\<lambda>a b. bl_time b < bl_time a) ys" using Cons.prems(2) by simp_all
  have c: "BlockComparator b y \<longleftrightarrow> bl_time y < bl_time b" "BlockComparator y b \<longleftrightarrow> bl_time b < bl_time y"
    using h(1) by (simp_all add: BlockComparator_def)
  consider "bl_time y < bl_time b" | "bl_time b < bl_time y" | "bl_time b = bl_time y" by (metis linorder_less_linear)
  then show ?case
  proof cases
    case 1
    then have lt: "\<forall>c\<in>set (y # ys). bl_time c < bl_time b" using t(1) by (metis order_less_trans set_ConsD)
    then have "\<not> (\<exists>c\<in>set (y # ys). bl_time c = bl_time b)" by (metis order_less_irrefl)
    moreover have "set_insert BlockComparator b (y # ys) = b # y # ys" using 1 c by simp
    ultimately show ?thesis using lt Cons.prems(2) by simp
  next
    case 2
    then have "\<not> bl_time y < bl_time b" by (metis order_less_asym)
    then have i: "set_insert BlockComparator b (y # ys) = y # set_insert BlockComparator b ys" using 2 c by simp
    have "bl_time y \<noteq> bl_time b" using 2 by (metis order_less_irrefl)
    moreover have "\<forall>d\<in>set (set_insert BlockComparator b ys). bl_time d < bl_time y"
      using set_insert_subset [of BlockComparator b ys] t(1) 2 by blast
    ultimately show ?thesis using Cons.IH [OF h(2) t(2)] unfolding i by auto
  next
    case 3
    then have "set_insert BlockComparator b (y # ys) = y # ys" using c by simp
    then show ?thesis using Cons.prems(2) 3 by (metis list.set_intros(1))
  qed
qed simp

lemma blocks_of_at:
  assumes "wf_block_map m"
  shows "blocks_of m = (case map_of m h of None \<Rightarrow> {} | Some bs \<Rightarrow> set bs) \<union> {b \<in> blocks_of m. bl_height b \<noteq> h}"
    and "map_of m h = Some bs \<Longrightarrow> (\<forall>b\<in>set bs. bl_height b = h) \<and> sorted_wrt (\<lambda>a b. bl_time b < bl_time a) bs"
proof -
  have d: "distinct (map fst m)" using assms ordered_map_distinct by (auto simp: wf_block_map_def)
  have h: "\<And>e b. e \<in> set m \<Longrightarrow> b \<in> set (snd e) \<Longrightarrow> bl_height b = fst e" using assms by (auto simp: wf_block_map_def)
  show "blocks_of m = (case map_of m h of None \<Rightarrow> {} | Some bs \<Rightarrow> set bs) \<union> {b \<in> blocks_of m. bl_height b \<noteq> h}"
  proof (intro set_eqI iffI)
    fix b
    assume "b \<in> blocks_of m"
    then obtain e where e: "e \<in> set m" "b \<in> set (snd e)" by (auto simp: blocks_of_def)
    show "b \<in> (case map_of m h of None \<Rightarrow> {} | Some bs \<Rightarrow> set bs) \<union> {b \<in> blocks_of m. bl_height b \<noteq> h}"
    proof (cases "bl_height b = h")
      case True
      then have "map_of m h = Some (snd e)" using h [OF e] e(1) d by auto
      then show ?thesis using e by simp
    qed (use \<open>b \<in> blocks_of m\<close> in simp)
  next
    fix b
    assume "b \<in> (case map_of m h of None \<Rightarrow> {} | Some bs \<Rightarrow> set bs) \<union> {b \<in> blocks_of m. bl_height b \<noteq> h}"
    then show "b \<in> blocks_of m" by (auto simp: blocks_of_def dest!: map_of_SomeD split: option.splits) force
  qed
  show "map_of m h = Some bs \<Longrightarrow> (\<forall>b\<in>set bs. bl_height b = h) \<and> sorted_wrt (\<lambda>a b. bl_time b < bl_time a) bs"
    using assms by (auto simp: wf_block_map_def dest!: map_of_SomeD)
qed

text \<open>
  C13. The blocks handed to the helper are grouped by height, ascending, each group by descending time; adding a
  block keeps that and loses no block, but the block is left out exactly when another block of its
  height and time is there.
\<close>

theorem block_map_insert:
  assumes "wf_block_map m"
  shows "wf_block_map (addBlockToMap b m)
    \<and> blocks_of (addBlockToMap b m) =
        (if \<exists>c\<in>blocks_of m. bl_height c = bl_height b \<and> bl_time c = bl_time b then blocks_of m else insert b (blocks_of m))"
proof -
  define old where "old = (case map_of m (bl_height b) of None \<Rightarrow> [] | Some bs \<Rightarrow> bs)"
  let ?new = "set_insert BlockComparator b old"
  have o: "ordered_map m" using assms by (simp add: wf_block_map_def)
  have a: "set (addBlockToMap b m) = insert (bl_height b, ?new) {e \<in> set m. fst e \<noteq> bl_height b}" "ordered_map (addBlockToMap b m)"
    using o by (auto simp: addBlockToMap_def Let_def set_ordered_assign old_def split: option.splits)
  have m: "blocks_of m = set old \<union> {c \<in> blocks_of m. bl_height c \<noteq> bl_height b}"
    "\<forall>c\<in>set old. bl_height c = bl_height b" "sorted_wrt (\<lambda>a b. bl_time b < bl_time a) old"
    using blocks_of_at [OF assms, of "bl_height b"] by (auto simp: old_def split: option.splits)
  have h: "\<And>e c. e \<in> set m \<Longrightarrow> c \<in> set (snd e) \<Longrightarrow> bl_height c = fst e" using assms by (auto simp: wf_block_map_def)
  note s = set_insert_times [OF m(2,3)]
  have ne: "?new \<noteq> []" by (cases old) auto
  have "wf_block_map (addBlockToMap b m)"
    using a assms s ne m(2) set_insert_subset [of BlockComparator b old] by (auto simp: wf_block_map_def)
  moreover have "{c \<in> blocks_of m. bl_height c \<noteq> bl_height b} = (\<Union>e\<in>{e \<in> set m. fst e \<noteq> bl_height b}. set (snd e))"
    using h by (auto simp: blocks_of_def)
  then have "blocks_of (addBlockToMap b m) = set ?new \<union> {c \<in> blocks_of m. bl_height c \<noteq> bl_height b}"
    by (simp add: blocks_of_def a(1))
  moreover have "(\<exists>c\<in>blocks_of m. bl_height c = bl_height b \<and> bl_time c = bl_time b) \<longleftrightarrow> (\<exists>c\<in>set old. bl_time c = bl_time b)"
    using m(1,2) by blast
  ultimately show ?thesis using s m(1) by auto
qed

theorem block_map_insert_witness:
  "blocks_of (addBlockToMap (sample_block\<lparr>bl_hash := ''other''\<rparr>) [(5, [sample_block])]) = {sample_block}"
proof -
  have "wf_block_map [(5, [sample_block])]" by (simp add: wf_block_map_def ordered_map_def sample_block_def CBlock_new_def)
  from block_map_insert [OF this, of "sample_block\<lparr>bl_hash := ''other''\<rparr>"] show ?thesis
    by (simp add: blocks_of_def sample_block_def CBlock_new_def)
qed

end
