(* ===== verification/TurnProps.thy ===== *)
theory TurnProps
  imports SyncLoop
begin

text \<open>
  Properties of the synchronization thread as a whole: what the kinds of turns may change, the
  states it can reach, and that fast turns do not keep the normal ones from happening.
\<close>

subsection \<open>Turns of the thread\<close>

text \<open>What a run may not touch: the count of fast turns and, outside the fast run, its failure flag.\<close>

definition keeps_count :: "sync_state \<Rightarrow> sync_state \<Rightarrow> bool" where
  "keeps_count st st' \<longleftrightarrow> runFastSyncCount st' = runFastSyncCount st \<and> execute_new_sync st' = execute_new_sync st"

definition keeps_flags :: "sync_state \<Rightarrow> sync_state \<Rightarrow> bool" where
  "keeps_flags st st' \<longleftrightarrow> keeps_count st st' \<and> isFastSyncFailed st' = isFastSyncFailed st"

lemma turn_keeps_trans: "keeps_flags a b \<Longrightarrow> keeps_flags b c \<Longrightarrow> keeps_flags a c" "keeps_count a b \<Longrightarrow> keeps_count b c \<Longrightarrow> keeps_count a c"
  by (simp_all add: keeps_flags_def keeps_count_def)

lemma turn_keeps_refl [simp]: "keeps_flags st st" "keeps_count st st"
  by (simp_all add: keeps_flags_def keeps_count_def)

lemma keeps_helper [simp]: "keeps_flags st (call_helper cs st') \<longleftrightarrow> keeps_flags st st'" "keeps_count st (call_helper cs st') \<longleftrightarrow> keeps_count st st'"
  by (simp_all add: keeps_flags_def keeps_count_def call_helper_def)

lemma keeps_flags_count: "keeps_flags a b \<Longrightarrow> keeps_count a b"
  by (simp add: keeps_flags_def)

lemma sync_nodes_keeps: "ensures (sync_nodes env ps io num ch pa st) (\<lambda>(r, st'). keeps_flags st st')"
  by (simp add: sync_nodes_def split_beta keeps_flags_def keeps_count_def ensures_True)

lemma fast_hash_keeps:
  "ensures (get_fast_sync_sum_hash_node env pa parse now rd mrd nodes w asked a b ch st) (\<lambda>(r, st'). keeps_count st st')"
proof -
  have "ensures (m :: 'z run) (\<lambda>x. ensures (f x) (\<lambda>(r, st'). keeps_count st st'))" if "\<And>x. ensures (f x) (\<lambda>(r, st'). keeps_count st st')" for m and f :: "'z \<Rightarrow> ((bool \<times> FastSyncBlockHashs list \<times> cxx_string list) \<times> sync_state) run"
    using that by (rule ensures_True)
  then show ?thesis
    by (auto simp: get_fast_sync_sum_hash_node_def Let_def split_beta keeps_count_def call_helper_def intro!: ensures_True split: option.splits sum.splits)
qed

lemma fast_block_keeps:
  "ensures (get_fast_sync_block_data env pa parse bh srt rd w n req ch st) (\<lambda>(r, st'). keeps_count st st')"
  by (auto simp: get_fast_sync_block_data_def Let_def keeps_count_def call_helper_def split_beta intro!: ensures_True split: option.splits)

lemma keeps_from:
  "ensures m (\<lambda>(r, st'). keeps_count st st') \<Longrightarrow> keeps_count st0 st \<Longrightarrow> ensures m (\<lambda>(r, st'). keeps_count st0 st')"
  by (erule ensures_mono) (auto dest: turn_keeps_trans)

lemma try_nodes_keeps: "keeps_count st0 st \<Longrightarrow> ensures (try_nodes env ps io req ch ids st) (\<lambda>(r, st'). keeps_count st0 st')"
proof (induction ids arbitrary: st)
  case (Cons n ids)
  show ?case
    by (auto intro!: ensures_mono [OF keeps_from [OF fast_block_keeps Cons.prems]] Cons.IH)
qed simp

lemma runFast_keeps: "ensures (runFastSyncOnce env ps io pa ch a b n st) (\<lambda>(r, st'). keeps_count st st')"
  unfolding runFastSyncOnce_def
  by (auto intro!: ensures_mono [OF sync_nodes_keeps] ensures_mono [OF keeps_from [OF fast_hash_keeps]] try_nodes_keeps
      dest: keeps_flags_count)

lemma runNew_keeps: "ensures (runNewSyncOnce env ps io pa ch a b n st) (\<lambda>(r, st'). keeps_flags st st')"
proof (cases "b < a")
  case False
  then show ?thesis
    by (simp add: runNewSyncOnce_def)
      (rule ensures_mono [OF sync_nodes_keeps], auto simp: Let_def split_beta intro!: ensures_True)
qed (simp add: runNewSyncOnce_def)

lemma keeps_zero [simp]:
  "keeps_flags st0 (st\<lparr>syncFromZeroCache := c\<rparr>) \<longleftrightarrow> keeps_flags st0 st"
  "keeps_flags st0 (st\<lparr>syncFromZeroReserveHeights := hs\<rparr>) \<longleftrightarrow> keeps_flags st0 st"
  "keeps_flags (st\<lparr>syncFromZeroReserveHeights := hs\<rparr>) st0 \<longleftrightarrow> keeps_flags st st0"
  "keeps_flags st0 (st\<lparr>sync_send_zero_sync_num := n\<rparr>) \<longleftrightarrow> keeps_flags st0 st"
  "keeps_flags (st\<lparr>sync_send_zero_sync_num := n\<rparr>) st0 \<longleftrightarrow> keeps_flags st st0"
  "keeps_flags st0 (st\<lparr>runZeroSyncCount := k\<rparr>) \<longleftrightarrow> keeps_flags st0 st"
  by (simp_all add: keeps_flags_def keeps_count_def)

lemma zero_height_keeps:
  "keeps_flags st0 st \<Longrightarrow> ensures (zero_height env parse rd mrd nodes self st e)
     (\<lambda>r. case r of Inl v \<Rightarrow> keeps_flags st0 (snd v) | Inr st1 \<Rightarrow> keeps_flags st0 st1)"
  by (auto simp: zero_height_def Let_def split_beta keeps_flags_def keeps_count_def call_helper_def intro!: ensures_True split: sum.splits)

lemma zero_range_keeps:
  "keeps_flags st0 (fst s) \<Longrightarrow> ensures (zero_range env pa parse rd mrd nodes self sums s r)
     (\<lambda>r. case r of Inl v \<Rightarrow> keeps_flags st0 (snd v) | Inr s1 \<Rightarrow> keeps_flags st0 (fst s1))"
proof -
  assume k: "keeps_flags st0 (fst s)"
  obtain st hs where s: "s = (st, hs)" by (cases s)
  have k: "keeps_flags st0 st" using k s by simp
  have l: "ensures (loop_run (zero_height env parse rd mrd nodes self) st es)
     (\<lambda>r. case r of Inl v \<Rightarrow> keeps_flags st0 (snd v) | Inr st1 \<Rightarrow> keeps_flags st0 st1)" for es
    by (rule ensures_loop [OF zero_height_keeps k])
  show ?thesis
  proof (cases "pa r")
    case (Some ack)
    then show ?thesis using k
      by (auto simp: s zero_range_def Let_def intro!: ensures_mono [OF l] split: sum.splits)
  qed (use k in \<open>simp add: s zero_range_def\<close>)
qed

lemma zero_data_keeps:
  "ensures (getSyncBlockDataFromZero env pa parse sh rd mrd nodes w sums hs ids self st) (\<lambda>(r, st'). keeps_flags st st')"
proof -
  have l: "ensures (loop_run (zero_range env pa parse rd mrd nodes self sums) (st, []) rs)
     (\<lambda>r. case r of Inl v \<Rightarrow> keeps_flags st (snd v) | Inr s1 \<Rightarrow> keeps_flags st (fst s1))" for rs
    by (rule ensures_loop [OF zero_range_keeps]) simp_all
  show ?thesis
    by (auto simp: getSyncBlockDataFromZero_def Let_def intro!: ensures_mono [OF l] split: sum.splits)
qed

lemma runZero_keeps: "ensures (runFromZeroSyncOnce env ps io ch self n st) (\<lambda>(r, st'). keeps_flags st st')"
  by (auto simp: runFromZeroSyncOnce_def Let_def intro!: ensures_True ensures_mono [OF zero_data_keeps] split: prod.splits)

inductive sync_reachable :: "chain_env \<Rightarrow> sync_parsers \<Rightarrow> sync_state \<Rightarrow> bool" for env ps where
  start: "sync_reachable env ps (sync_state_new env)"
| turn: "sync_reachable env ps st \<Longrightarrow> sync_turn env ps io st = Ret st' \<Longrightarrow> sync_reachable env ps st'"
| fast: "sync_reachable env ps st \<Longrightarrow> sync_reachable env ps (SetFastSync h st)"
| new: "sync_reachable env ps st \<Longrightarrow> sync_reachable env ps (set_new_sync_height h st)"

lemma fast_turn_counts:
  "ensures (fast_turn env ps io pa ch self st) (\<lambda>st'. runFastSyncCount st' = runFastSyncCount st + 1 \<and> \<not> isFastSyncFailed st')"
  by (auto simp: fast_turn_def Let_def keeps_count_def intro!: ensures_mono [OF runFast_keeps])

lemma zero_turn_counts:
  "ensures (zero_turn env ps io pa ch self st) (\<lambda>st'. keeps_flags st st')"
  by (auto simp: zero_turn_def Let_def keeps_flags_def keeps_count_def intro!: ensures_mono [OF runZero_keeps])

lemma new_turn_counts:
  "ensures (new_turn env ps io pa ch self st) (\<lambda>st'. runFastSyncCount st' = runFastSyncCount st \<and> isFastSyncFailed st' = isFastSyncFailed st)"
  by (auto simp: new_turn_def new_range_def Let_def keeps_flags_def keeps_count_def intro!: ensures_mono [OF runNew_keeps])


text \<open>The turn will be a fast one, and what the turn does with the count otherwise.\<close>

definition fast_next :: "sync_state \<Rightarrow> bool" where
  "fast_next st \<longleftrightarrow> runFastSync st \<and> runFastSyncCount st < 5 \<and> \<not> execute_new_sync st"

lemma sync_turn_counts:
  "ensures (sync_turn env ps io st) (\<lambda>st'. st' = st \<or>
     (isFastSyncFailed st' \<longrightarrow> isFastSyncFailed st) \<and>
     (if fast_next st then runFastSyncCount st' = runFastSyncCount st + 1
      else runFastSyncCount st' = (if execute_new_sync st \<or> 5 \<le> runFastSyncCount st \<and> runFastSync st then 0 else runFastSyncCount st)))"
    (is "ensures _ ?post")
proof -
  show ?thesis
    unfolding sync_turn_def ensures_simps(6)
  proof (rule ensures_True)
    fix ch :: "u64 option"
    let ?rest = "\<lambda>chainHeight (status, nodeSelfHeight). if status \<noteq> DB_SUCCESS then Ret st
           else let
             pledgeAddr = map nd_address (filter (qualifies env) (io_nodes io));
             st = st\<lparr>syncFromZeroCache := filter (\<lambda>c. \<not> fst c < nodeSelfHeight) (syncFromZeroCache st)\<rparr>;
             st = (if 5 \<le> runFastSyncCount st \<and> runFastSync st then st\<lparr>runFastSyncCount := 0, runFastSync := False\<rparr> else st);
             st = (if execute_new_sync st then st\<lparr>runFastSyncCount := 0, runFastSync := False\<rparr> else st) in
             if runFastSync st then fast_turn env ps io pledgeAddr chainHeight nodeSelfHeight st
             else let syncType = get_save_sync_type env nodeSelfHeight chainHeight;
                      syncType = (if execute_new_sync st \<or> 2 < runZeroSyncCount st then SyncNormal else syncType) in
               if syncType = SyncFromZero then zero_turn env ps io pledgeAddr chainHeight nodeSelfHeight st
               else new_turn env ps io pledgeAddr chainHeight nodeSelfHeight st"
    show "ensures (case ch of None \<Rightarrow> Ret st | Some chainHeight \<Rightarrow> bind_run (getBlockTop (io_rd io) 0) (?rest chainHeight)) ?post"
    proof (cases ch)
      case (Some chainHeight)
      have "ensures (?rest chainHeight x) ?post" for x
        by (cases x) (auto simp: Let_def fast_next_def keeps_flags_def keeps_count_def not_le
          intro!: ensures_mono [OF fast_turn_counts] ensures_mono [OF zero_turn_counts] ensures_mono [OF new_turn_counts])
      then show ?thesis unfolding Some option.case ensures_simps(6) by (rule ensures_True)
    qed simp
  qed
qed


lemma reachable_counts: "sync_reachable env ps st \<Longrightarrow> runFastSyncCount st \<le> 5 \<and> \<not> isFastSyncFailed st"
proof (induction rule: sync_reachable.induct)
  case (turn st io st')
  have "st' = st \<or> (isFastSyncFailed st' \<longrightarrow> isFastSyncFailed st) \<and>
     (if fast_next st then runFastSyncCount st' = runFastSyncCount st + 1
      else runFastSyncCount st' = (if execute_new_sync st \<or> 5 \<le> runFastSyncCount st \<and> runFastSync st then 0 else runFastSyncCount st))"
    using sync_turn_counts [of env ps io st] turn(2) by (simp add: ensures_def)
  moreover have "c < 5 \<Longrightarrow> c + 1 \<le> 5" for c :: u32 by (simp add: inc_le)
  ultimately show ?case using turn(3) by (auto simp: fast_next_def split: if_splits)
qed (simp_all add: sync_state_new_def SetFastSync_def set_new_sync_height_def Let_def)

lemma asked_counts:
  "runFastSyncCount (SetFastSync h st) = runFastSyncCount st" "runFastSyncCount (set_new_sync_height h st) = runFastSyncCount st"
  by (simp_all add: SetFastSync_def set_new_sync_height_def Let_def)

text \<open>
  The last \<open>k\<close> turns that did something were all fast; other threads may ask for a fast or a
  normal synchronization between them.
\<close>

inductive fast_streak :: "chain_env \<Rightarrow> sync_parsers \<Rightarrow> nat \<Rightarrow> sync_state \<Rightarrow> bool" for env ps where
  none: "sync_reachable env ps st \<Longrightarrow> fast_streak env ps 0 st"
| again: "fast_streak env ps k st \<Longrightarrow> fast_next st \<Longrightarrow> sync_turn env ps io st = Ret st' \<Longrightarrow> st' \<noteq> st \<Longrightarrow> fast_streak env ps (Suc k) st'"
| idle: "fast_streak env ps k st \<Longrightarrow> sync_turn env ps io st = Ret st \<Longrightarrow> fast_streak env ps k st"
| ask_fast: "fast_streak env ps k st \<Longrightarrow> fast_streak env ps k (SetFastSync h st)"
| ask_new: "fast_streak env ps k st \<Longrightarrow> fast_streak env ps k (set_new_sync_height h st)"

text \<open>
  C14. However often a fast synchronization is asked for, the thread never runs six fast turns in a row: the sixth
  is a normal one or one from zero. And no turn leaves the mark of a failed fast run behind.
\<close>

theorem fast_turns_bounded:
  assumes "fast_streak env ps k st"
  shows "k \<le> 5 \<and> unat (runFastSyncCount st) \<le> 5 \<and> \<not> isFastSyncFailed st"
proof -
  have "k \<le> unat (runFastSyncCount st) \<and> sync_reachable env ps st"
    using assms
  proof (induction rule: fast_streak.induct)
    case (again k st io st')
    have "runFastSyncCount st' = runFastSyncCount st + 1"
      using sync_turn_counts [of env ps io st] again(2,3,4) by (simp add: ensures_def)
    moreover have "unat (runFastSyncCount st) < 5" using again(2) by (simp add: fast_next_def word_less_nat_alt)
    then have "unat (runFastSyncCount st + 1) = Suc (unat (runFastSyncCount st))" by (simp add: unat_word_ariths)
    ultimately show ?case using again(5) sync_reachable.turn [OF _ again(3)] by simp
  qed (auto simp: asked_counts intro: sync_reachable.intros)
  with reachable_counts [of env ps st] show ?thesis by (auto simp: word_le_nat_alt)
qed


text \<open>A fast turn of a node without connections: no node qualifies, the run fails.\<close>

definition lone_env :: chain_env where
  "lone_env = \<lparr>MIN_SYNC_QUAL_NODES = 1, MIN_UNSTAKE_HEIGHT = 0, hashRangeSum = 100, verify_bonus = (\<lambda>_. 0),
       pledge_time = (\<lambda>_. 1), sha256 = id, sum_hash_floor = id, sum_hash_ceiling = id\<rparr>"

definition lone_round :: wait_round where
  "lone_round = \<lparr>wr_created = True, wr_added = (\<lambda>_. True), wr_complete = False, wr_answers = []\<rparr>"

definition lone_io :: sync_io where
  "lone_io = \<lparr>io_rd = (\<lambda>k v. Ret (DB_SUCCESS, to_string (7 :: u64))), io_mrd = (\<lambda>ks v. Ret (DB_SUCCESS, [])), io_nodes = [],
     io_now = 0, io_rnd = (\<lambda>_. 0), io_shuffle = id, io_by_height = id, io_by_size = id, io_stuck_round = lone_round,
     io_vote_round = lone_round, io_data_round = lone_round, io_node_round = (\<lambda>_. lone_round)\<rparr>"

definition lone_parsers :: sync_parsers where
  "lone_parsers = \<lparr>ps_block = (\<lambda>_. None), ps_block_hash = bl_hash, ps_node_hash = (\<lambda>_. None), ps_fast_hash = (\<lambda>_. None),
     ps_fast_block = (\<lambda>_. None), ps_hashes = (\<lambda>_. None), ps_blocks = (\<lambda>_. None), ps_sum_hash = (\<lambda>_. None), ps_range = (\<lambda>_. None)\<rparr>"

lemma lone_turn:
  "\<exists>st. sync_turn lone_env lone_parsers lone_io (SetFastSync 3 (sync_state_new lone_env)) = Ret st \<and> runFastSyncCount st = 1"
proof -
  have t: "getBlockTop (io_rd lone_io) 0 = Ret (DB_SUCCESS, 7)"
    by (simp add: lone_io_def getBlockTop_def read_unsigned_def read_then_def)
  have n: "io_nodes lone_io = []" by (simp add: lone_io_def)
  have c: "getChainHeight lone_env (io_rd lone_io) [] = Ret (Some 7)" by (simp add: getChainHeight_def t)
  have "\<exists>ret. get_sync_node_basic lone_env (io_rnd lone_io) (io_rd lone_io) [] 1 7 = Ret (ret, []) \<and> ret \<noteq> 0"
    by (simp add: get_sync_node_basic_def t lone_env_def Let_def)
  then obtain ret where g: "get_sync_node_basic lone_env (io_rnd lone_io) (io_rd lone_io) [] 1 7 = Ret (ret, [])" "ret \<noteq> 0" by blast
  have m: "MIN_SYNC_QUAL_NODES lone_env = 1" by (simp add: lone_env_def)
  let ?ns = "\<lparr>forceFindBaseChainVar = False, previousEqualHeight = 0, heightEqualCount = 0\<rparr>"
  have y: "sync_nodes lone_env lone_parsers lone_io 1 7 [] st = Ret ((ret, []), st\<lparr>node_state :=
      \<lparr>forceFindBaseChainVar = True, previousEqualHeight = 7, heightEqualCount = 0\<rparr>\<rparr>)"
    if "node_state st = ?ns" for st
    using g by (simp add: sync_nodes_def getSyncNode_def t n that)
  define st where "st = (SetFastSync 3 (sync_state_new lone_env))\<lparr>runFastSyncCount := 1\<rparr>"
  have "node_state st = ?ns" by (simp add: st_def SetFastSync_def sync_state_new_def)
  then obtain ns where y: "sync_nodes lone_env lone_parsers lone_io 1 7 [] st = Ret ((ret, []), st\<lparr>node_state := ns\<rparr>)" using y by blast
  let ?st = "SetFastSync 3 (sync_state_new lone_env)"
  have "fast_turn lone_env lone_parsers lone_io [] 7 7 ?st =
      Ret (st\<lparr>node_state := ns, syncSendFastSyncCount := UINT32_MAX, runFastSync := False\<rparr>)"
    using y g(2) by (simp add: fast_turn_def runFastSyncOnce_def Let_def st_def SetFastSync_def sync_state_new_def m)
  moreover have e: "?st\<lparr>syncFromZeroCache := []\<rparr> = ?st" by (simp add: SetFastSync_def sync_state_new_def)
  have "syncFromZeroCache ?st = []" "runFastSync ?st" "runFastSyncCount ?st = 0" "\<not> execute_new_sync ?st"
    by (simp_all add: SetFastSync_def sync_state_new_def)
  then have "sync_turn lone_env lone_parsers lone_io ?st = fast_turn lone_env lone_parsers lone_io [] 7 7 ?st"
    by (simp add: sync_turn_def n c t Let_def) (simp only: e)
  moreover have "runFastSyncCount (st\<lparr>node_state := ns, syncSendFastSyncCount := UINT32_MAX, runFastSync := False\<rparr>) = 1"
    by (simp add: st_def)
  ultimately show ?thesis by metis
qed

theorem fast_turns_bounded_witness:
  "\<exists>st. fast_streak lone_env lone_parsers 1 st \<and> 1 \<le> (5 :: nat) \<and> unat (runFastSyncCount st) \<le> 5"
proof -
  let ?st = "SetFastSync 3 (sync_state_new lone_env)"
  obtain st where t: "sync_turn lone_env lone_parsers lone_io ?st = Ret st" "runFastSyncCount st = 1" using lone_turn by blast
  have s: "runFastSyncCount ?st = 0" by (simp add: SetFastSync_def sync_state_new_def)
  have "fast_streak lone_env lone_parsers 0 ?st" by (rule fast_streak.none [OF sync_reachable.fast [OF sync_reachable.start]])
  moreover have "fast_next ?st" by (simp add: fast_next_def SetFastSync_def sync_state_new_def)
  ultimately have "fast_streak lone_env lone_parsers (Suc 0) st" using t s by - (rule fast_streak.again [OF _ _ t(1)], auto)
  then have f: "fast_streak lone_env lone_parsers 1 st" by simp
  from fast_turns_bounded [OF f] f show ?thesis by blast
qed

end
