(* ===== verification/BlockQueues.thy ===== *)
theory BlockQueues
  imports SyncLoop
begin

text \<open>
  The queues of blocks that wait to be saved (\<open>ca/block_helper.cpp\<close>): what enters them and under
  which conditions. \<open>block_helper\<close> holds the members of \<open>BlockHelper\<close> and the static variables of its
  file. \<open>helperMutex\<close> is whether the running call owns that mutex: it is not recursive, so locking it
  again is undefined behaviour. Work handed to other threads and components is collected in
  \<open>helper_effects\<close>. \<open>helper_env\<close> holds what comes from elsewhere: the parsers, addresses and kinds of
  transactions, and the JSON of a block's data, given as the keys with their contracts and previous
  hashes, an exception when it does not have that form. A call sees one instant of the clock and one
  list of connected nodes (\<open>helper_io\<close>).
\<close>

subsection \<open>State\<close>

text \<open>
  Entries of \<open>_missingBlocks\<close>; \<open>mb_txOrBlock\<close> tells transactions from blocks. The shared pointers
  are the values they point to: every entry has its own.
\<close>

record MissingBlock =
  mb_hash :: cxx_string
  mb_time :: u64
  mb_txOrBlock :: bool
  mb_triggerCount :: u64

definition MissingBlock_new :: "cxx_string \<Rightarrow> u64 \<Rightarrow> bool \<Rightarrow> MissingBlock" where
  "MissingBlock_new hash time txOrBlock =
     \<lparr>mb_hash = hash, mb_time = time, mb_txOrBlock = txOrBlock, mb_triggerCount = 0\<rparr>"

definition missing_less :: "MissingBlock \<Rightarrow> MissingBlock \<Rightarrow> bool" where
  "missing_less a b = (if mb_hash a = mb_hash b then False else mb_time a < mb_time b)"

text \<open>
  Insertion into the set: the search goes past the entries that are not greater, and the new entry
  is dropped unless the last of these is less. The order is not transitive, but for a clock that
  does not run backwards this is the search in the tree.
\<close>

definition missing_insert :: "MissingBlock \<Rightarrow> MissingBlock list \<Rightarrow> MissingBlock list" where
  "missing_insert x xs =
     (let before = takeWhile (\<lambda>y. \<not> missing_less x y) xs; after = dropWhile (\<lambda>y. \<not> missing_less x y) xs in
      if before = [] \<or> missing_less (last before) x then before @ x # after else xs)"

text \<open>The status of a block, for the node that created it.\<close>

record TxStatus =
  ts_txHash :: cxx_string
  ts_status :: int

record BlockStatus =
  bs_blockHash :: cxx_string
  bs_status :: int
  bs_txStatus :: "TxStatus list"
  bs_id :: cxx_string

datatype helper_effect =
    StatusTask CBlock CBlock
  | SendStatus BlockStatus cxx_string
  | SetNewSyncHeight u64
  | AskMissingUtxo cxx_string
  | BlockSaved CBlock
  | PostTransactionTask CBlock
  | NotifyHeightChange

record block_helper =
  helperMutex :: bool
  missing_prehash :: bool
  missingUtxos :: "cxx_string list"
  broadcastBlocks :: "CBlock list"
  syncBlocks :: "CBlock list"
  fastSyncBlocks :: "CBlock list"
  rollbackBlocks :: block_map
  pendingBlocks :: "(u64, (cxx_string \<times> CBlock) list) std_map"
  hashPendingBlocks :: "(cxx_string, u64 \<times> CBlock) std_map"
  utxoMissingBlocks :: "CBlock list"
  missingBlocks :: "MissingBlock list"
  doubleSpendBlocks :: "(cxx_string, CBlock) std_map"
  duplicateChecker :: "(cxx_string, bool \<times> u64) std_map"
  contractBlocks :: "(cxx_string, cxx_string \<times> CBlock) std_map"
  stopBlocking :: bool
  shouldSendBlockByUtxoReq :: bool
  g_syncType :: SaveType
  processing :: bool
  helper_effects :: "helper_effect list"

definition BlockHelper_new :: block_helper where
  "BlockHelper_new = \<lparr>helperMutex = False, missing_prehash = False, missingUtxos = [], broadcastBlocks = [],
     syncBlocks = [], fastSyncBlocks = [], rollbackBlocks = [], pendingBlocks = [], hashPendingBlocks = [],
     utxoMissingBlocks = [], missingBlocks = [], doubleSpendBlocks = [], duplicateChecker = [], contractBlocks = [],
     stopBlocking = True, shouldSendBlockByUtxoReq = True, g_syncType = Unknow, processing = False,
     helper_effects = []\<rparr>"

type_synonym contract_json = "(cxx_string \<times> (cxx_string \<times> cxx_string) list) list"

record helper_env =
  he_chain :: chain_env
  he_parse :: "cxx_string \<Rightarrow> CBlock option"
  he_parse_hashes :: "cxx_string \<Rightarrow> SyncGetBlockHeightAndHashAck option"
  he_parse_utxo_ack :: "cxx_string \<Rightarrow> GetBlockByUtxoAck option"
  he_parse_hash_ack :: "cxx_string \<Rightarrow> GetBlockByHashAck option"
  he_addr :: "cxx_string \<Rightarrow> cxx_string"
  he_type :: "CTransaction \<Rightarrow> int"
  he_tx_hash :: "CTransaction \<Rightarrow> cxx_string"
  he_json :: "cxx_string \<Rightarrow> contract_json run"
  he_is_contract :: "CBlock \<Rightarrow> bool"
  he_contract_pre :: "CBlock \<Rightarrow> cxx_string set"
  he_contract_addr :: "CTransaction \<Rightarrow> cxx_string"
  he_requires_agent :: "CTransaction \<Rightarrow> bool"
  he_self_addr :: cxx_string
  he_self_id :: cxx_string

record helper_io =
  hi_now :: u64
  hi_nodes :: "Node list"
  hi_rnd :: "nat \<Rightarrow> nat"
  hi_round :: "cxx_string \<Rightarrow> wait_round"

definition with_effect :: "helper_effect \<Rightarrow> block_helper \<Rightarrow> block_helper" where
  "with_effect e h = h\<lparr>helper_effects := helper_effects h @ [e]\<rparr>"

text \<open>\<open>std::lock_guard\<close> on \<open>helperMutex\<close> around a method.\<close>

definition locked :: "(block_helper \<Rightarrow> block_helper run) \<Rightarrow> block_helper \<Rightarrow> block_helper run" where
  "locked act h =
     (if helperMutex h then Undefined
      else bind_run (act (h\<lparr>helperMutex := True\<rparr>)) (\<lambda>h. Ret (h\<lparr>helperMutex := False\<rparr>)))"

text \<open>The order of the queues: height as a signed number, then time.\<close>

definition blockTimeAscending :: "CBlock \<Rightarrow> CBlock \<Rightarrow> bool" where
  "blockTimeAscending a b =
     (if bl_height a = bl_height b then bl_time a < bl_time b
      else if bl_height a <s bl_height b then True else False)"

subsection \<open>Flags and missing outputs\<close>

definition set_missing_prehash :: "block_helper \<Rightarrow> block_helper" where
  "set_missing_prehash h = h\<lparr>missing_prehash := True\<rparr>"

definition resetMissingPrehash :: "block_helper \<Rightarrow> block_helper" where
  "resetMissingPrehash h = h\<lparr>missing_prehash := False\<rparr>"

definition stopSaveBlock :: "block_helper \<Rightarrow> block_helper" where
  "stopSaveBlock h = h\<lparr>stopBlocking := False\<rparr>"

definition MAX_MISSING_UXTO_SIZE :: nat where "MAX_MISSING_UXTO_SIZE = 10"
definition MAX_MISSING_BLOCK_SIZE :: nat where "MAX_MISSING_BLOCK_SIZE = 10"

text \<open>The stack of missing outputs, its top first.\<close>

definition pushMissUtxo :: "cxx_string \<Rightarrow> block_helper \<Rightarrow> block_helper" where
  "pushMissUtxo utxo h =
     (let s = utxo # missingUtxos h in h\<lparr>missingUtxos := if MAX_MISSING_UXTO_SIZE < length s then [] else s\<rparr>)"

definition popMissUtxo :: "block_helper \<Rightarrow> block_helper run" where
  "popMissUtxo = locked (\<lambda>h. Ret (if missingUtxos h = [] then h else h\<lparr>missingUtxos := tl (missingUtxos h)\<rparr>))"

definition getMissingBlock :: "block_helper \<Rightarrow> bool \<times> block_helper" where
  "getMissingBlock h =
     (if missingUtxos h = [] then (False, h) else (True, with_effect (AskMissingUtxo (hd (missingUtxos h))) h))"

subsection \<open>Blocks handed over by the synchronization\<close>

definition insert_all :: "block_map \<Rightarrow> CBlock list \<Rightarrow> CBlock list" where
  "insert_all syncBlockData q =
     foldl (\<lambda>q block. set_insert blockTimeAscending block q) q (concat (map snd syncBlockData))"

definition AddSyncBlock :: "block_map \<Rightarrow> SaveType \<Rightarrow> block_helper \<Rightarrow> block_helper run" where
  "AddSyncBlock syncBlockData type =
     locked (\<lambda>h. Ret (h\<lparr>syncBlocks := insert_all syncBlockData (syncBlocks h), g_syncType := type\<rparr>))"

definition AddFastSyncBlock :: "block_map \<Rightarrow> SaveType \<Rightarrow> block_helper \<Rightarrow> block_helper run" where
  "AddFastSyncBlock syncBlockData type =
     locked (\<lambda>h. Ret (h\<lparr>fastSyncBlocks := insert_all syncBlockData (fastSyncBlocks h), g_syncType := type\<rparr>))"

definition rollback_block :: "block_map \<Rightarrow> block_helper \<Rightarrow> block_helper run" where
  "rollback_block rollbackBlockInfo = locked (\<lambda>h. Ret (h\<lparr>rollbackBlocks := rollbackBlockInfo\<rparr>))"

definition AddMissingBlock :: "CBlock \<Rightarrow> block_helper \<Rightarrow> block_helper run" where
  "AddMissingBlock block = locked (\<lambda>h. Ret (h\<lparr>utxoMissingBlocks := utxoMissingBlocks h @ [block]\<rparr>))"

text \<open>What the synchronization collected as \<open>helper_call\<close>s arrives here.\<close>

fun receive_call :: "block_helper \<Rightarrow> helper_call \<Rightarrow> block_helper run" where
  "receive_call h (CallRollback m) = rollback_block m h"
| "receive_call h (CallAddSync m t) = AddSyncBlock m t h"
| "receive_call h (CallAddFast m t) = AddFastSyncBlock m t h"

definition hash_pending_add :: "u64 \<Rightarrow> CBlock \<Rightarrow> block_helper \<Rightarrow> block_helper" where
  "hash_pending_add now block h =
     (case map_of (hashPendingBlocks h) (bl_hash block) of
        None \<Rightarrow> h\<lparr>hashPendingBlocks := map_assign (bl_hash block) (now, block) (hashPendingBlocks h)\<rparr>
      | Some _ \<Rightarrow> h)"

definition add_seek_block :: "u64 \<Rightarrow> (CBlock \<times> cxx_string) list \<Rightarrow> block_helper \<Rightarrow> block_helper run" where
  "add_seek_block now seekBlocks = locked (\<lambda>h. Ret (foldl (\<lambda>h it. hash_pending_add now (fst it) h) h seekBlocks))"

subsection \<open>Rolling back a block\<close>

text \<open>
  The nodes are asked about the height; the rollback is queued when the block is among those that
  miss the majority.
\<close>

definition pledge_addresses :: "chain_env \<Rightarrow> Node list \<Rightarrow> cxx_string list" where
  "pledge_addresses env nodes = map nd_address (filter (qualifies env) nodes)"

definition RollbackBlock ::
    "helper_env \<Rightarrow> helper_io \<Rightarrow> reader \<Rightarrow> mreader \<Rightarrow> cxx_string \<Rightarrow> u64 \<Rightarrow> block_helper \<Rightarrow> (int \<times> block_helper) run" where
  "RollbackBlock env io rd mrd blockHash height h =
     bind_run (getChainHeight (he_chain env) rd (hi_nodes io)) (\<lambda>ch. case ch of
       None \<Rightarrow> Ret (-1, h)
     | Some chainHeight \<Rightarrow>
         bind_run (getBlockTop rd 0) (\<lambda>(status, nodeSelfHeight).
           if status \<noteq> DB_SUCCESS then Ret (-2, h)
           else let pledgeAddr = pledge_addresses (he_chain env) (hi_nodes io) in
             bind_run (getSyncNodeSimplified (he_chain env) (hi_rnd io) rd (hi_nodes io) (of_nat (length pledgeAddr)))
               (\<lambda>(_, node_ids_to_send).
             bind_run (fetchRollbackBlock (he_parse_hashes env) (he_parse env) (hi_now io) rd mrd (hi_round io blockHash)
                         node_ids_to_send) (\<lambda>(ret, retBlocks).
               if ret \<noteq> 0 then Ret (-3, h)
               else case find (\<lambda>block. bl_hash block = blockHash) retBlocks of
                      None \<Rightarrow> Ret (-4, h)
                    | Some block \<Rightarrow> bind_run (rollback_block [(height, [block])] h) (\<lambda>h. Ret (0, h))))))"

end
