(* ===== verification/BlockEntry.thy ===== *)
theory BlockEntry
  imports BlockQueues
begin

text \<open>
  How a broadcast block enters the queues (\<open>AddBroadcastBlock\<close> in \<open>ca/block_helper.cpp\<close>): the
  duplicate and double-spend filters, the conflict with a queued block, the check of the previous
  hashes of its contracts, and the queue of blocks whose predecessor is missing.
\<close>

datatype CONTRACT_PRE_HASH_STATUS = NormalStatus | DatabaseBlockException | MemoryBlockException | Waiting | Err

text \<open>A call inside \<open>try\<close>: \<open>handler\<close> is the \<open>catch (const std::exception &)\<close>, \<open>act\<close> the rest.\<close>

definition try_run :: "'a run \<Rightarrow> 'b run \<Rightarrow> ('a \<Rightarrow> 'b run) \<Rightarrow> 'b run" where
  "try_run m handler act = (case m of Throw e \<Rightarrow> handler | _ \<Rightarrow> bind_run m act)"

subsection \<open>Conflicts with a queued block\<close>

definition SingleBlock :: int where "SingleBlock = -66"
definition DoubleBlock :: int where "DoubleBlock = -99"

definition blocks_conflict :: "helper_env \<Rightarrow> CBlock \<Rightarrow> CBlock \<Rightarrow> bool" where
  "blocks_conflict env b1 b2 \<longleftrightarrow> CheckConflict_blocks (he_addr env) (he_type env) (he_tx_hash env) b1 b2 \<noteq> None"

text \<open>
  The status sent to the creator of the newer block, with its destination, \<open>None\<close> when that is this
  node. A block without signatures has no creator to read.
\<close>

definition transactionStatusMessage :: "helper_env \<Rightarrow> CBlock \<Rightarrow> CBlock \<Rightarrow> (BlockStatus \<times> cxx_string) option run" where
  "transactionStatusMessage env oldBlock newBlock =
     (let normal = filter (\<lambda>tx. he_type env tx = kTransactionTypeTx);
          statuses = concat (map (\<lambda>tx1. map (\<lambda>tx2. \<lparr>ts_txHash = tx_hash tx2, ts_status = DoubleBlock\<rparr>)
            (filter (CheckConflict (he_addr env) tx1) (normal (bl_txs newBlock)))) (normal (bl_txs oldBlock)));
          blockStatus = \<lparr>bs_blockHash = bl_hash newBlock, bs_status = -99, bs_txStatus = statuses, bs_id = he_self_id env\<rparr> in
      case bl_sign newBlock of
        [] \<Rightarrow> Undefined
      | s # _ \<Rightarrow> let destNode = he_addr env (sg_pub s) in
          Ret (if destNode \<noteq> he_self_addr env then Some (blockStatus, destNode) else None))"

definition older_than :: "CBlock \<Rightarrow> CBlock \<Rightarrow> bool" where
  "older_than cur block \<longleftrightarrow>
     bl_height cur = bl_height block \<and> bl_time cur \<le> bl_time block \<or> bl_height cur <s bl_height block"

text \<open>
  The loop over the queue stops at the first block in conflict: the newer of the two is dropped,
  and the result tells whether the new block stays.
\<close>

definition resolve_conflict :: "helper_env \<Rightarrow> CBlock \<Rightarrow> bool \<Rightarrow> block_helper \<Rightarrow> bool \<times> block_helper" where
  "resolve_conflict env block status h =
     (case find (\<lambda>cur. blocks_conflict env cur block) (broadcastBlocks h) of
        None \<Rightarrow> (True, h)
      | Some cur \<Rightarrow>
          if older_than cur block then (False, if status then with_effect (StatusTask cur block) h else h)
          else (True, (case map_of (duplicateChecker h) (bl_hash cur) of
                         Some (True, _) \<Rightarrow> with_effect (StatusTask block cur) h
                       | _ \<Rightarrow> h)\<lparr>broadcastBlocks := remove1 cur (broadcastBlocks h)\<rparr>))"

subsection \<open>Blocks without their predecessor\<close>

fun multimap_insert :: "'k::linorder \<Rightarrow> 'v \<Rightarrow> ('k \<times> 'v) list \<Rightarrow> ('k \<times> 'v) list" where
  "multimap_insert k v [] = [(k, v)]"
| "multimap_insert k v ((k', v') # m) = (if k < k' then (k, v) # (k', v') # m else (k', v') # multimap_insert k v m)"

definition AddPendingBlock :: "u64 \<Rightarrow> reader \<Rightarrow> CBlock \<Rightarrow> block_helper \<Rightarrow> block_helper run" where
  "AddPendingBlock now rd block h =
     bind_run (getBlockTop rd 0) (\<lambda>(ret, nodeSelfHeight).
       if ret \<noteq> DB_SUCCESS then Ret h
       else let blockHeight = bl_height block;
                waiting = (case map_of (pendingBlocks h) blockHeight of None \<Rightarrow> [] | Some m \<Rightarrow> m);
                h = (if length (pendingBlocks h) < 1000
                     then h\<lparr>pendingBlocks := map_assign blockHeight (multimap_insert (bl_prevHash block) block waiting) (pendingBlocks h)\<rparr>
                     else h) in
         if nodeSelfHeight + 3 < blockHeight then Ret h
         else Ret (h\<lparr>missingBlocks := missing_insert (MissingBlock_new (bl_prevHash block) now False) (missingBlocks h)\<rparr>))"

subsection \<open>Contract blocks\<close>

definition add_contract_block :: "CBlock \<Rightarrow> cxx_string \<Rightarrow> cxx_string \<Rightarrow> block_helper \<Rightarrow> block_helper" where
  "add_contract_block block contractAddr contractTxPreviousHash h =
     (if length (contractBlocks h) < 1000
      then h\<lparr>contractBlocks := map_assign contractTxPreviousHash (contractAddr, block) (contractBlocks h)\<rparr> else h)"

definition contractBlockCacheChecker :: "CBlock \<Rightarrow> cxx_string \<Rightarrow> cxx_string \<Rightarrow> block_helper \<Rightarrow> int \<times> block_helper" where
  "contractBlockCacheChecker block contractAddr contractTxPreviousHash h =
     (case map_of (contractBlocks h) contractTxPreviousHash of
        Some (addr, old) \<Rightarrow>
          if contractAddr = addr then
            (if bl_time block < bl_time old then (0, add_contract_block block contractAddr contractTxPreviousHash h) else (-1, h))
          else (0, add_contract_block block contractAddr contractTxPreviousHash h)
      | None \<Rightarrow> (0, add_contract_block block contractAddr contractTxPreviousHash h))"

definition contractPreHashStatus ::
    "helper_env \<Rightarrow> reader \<Rightarrow> cxx_string \<Rightarrow> cxx_string \<Rightarrow> u64 \<Rightarrow> (CONTRACT_PRE_HASH_STATUS \<times> cxx_string) run" where
  "contractPreHashStatus env rd contractAddr memContractPreHashResponse blockTime =
     (if memContractPreHashResponse = [] \<or> contractAddr = [] then Ret (Err, [])
      else bind_run (getLatestUtxoByContractAddr rd contractAddr []) (\<lambda>(ret, dbContractPreHash).
        if ret \<noteq> DB_SUCCESS then Ret (Err, [])
        else if dbContractPreHash = memContractPreHashResponse then Ret (NormalStatus, [])
        else bind_run (getBlockHashByTransactionHash rd dbContractPreHash []) (\<lambda>(ret, prevBlockHash).
          if ret \<noteq> DB_SUCCESS then Ret (Err, [])
          else bind_run (getBlockByBlockHash rd prevBlockHash []) (\<lambda>(ret, blockRaw).
            if ret \<noteq> DB_SUCCESS then Ret (Err, [])
            else case he_parse env blockRaw of
              None \<Rightarrow> Ret (Err, [])
            | Some block \<Rightarrow> try_run (he_json env (bl_data block)) (Ret (Err, bl_hash block)) (\<lambda>prevData.
                Ret (case map_of prevData dbContractPreHash of
                       None \<Rightarrow> Err
                     | Some items \<Rightarrow> (case map_of items contractAddr of
                         None \<Rightarrow> Waiting
                       | Some value \<Rightarrow>
                           if memContractPreHashResponse = value then NormalStatus
                           else if bl_time block < blockTime then MemoryBlockException
                           else DatabaseBlockException), bl_hash block))))))"

text \<open>The previous hashes a block names, each once, under the transactions that name them.\<close>

definition collect_pre_hashes ::
    "contract_json \<Rightarrow> (cxx_string, (cxx_string \<times> cxx_string) list) std_map \<times> cxx_string set" where
  "collect_pre_hashes dataJson =
     foldl (\<lambda>s (key, items). foldl (\<lambda>(m, seen) (addr, pre).
         if pre \<in> seen then (m, seen)
         else (map_assign key ((case map_of m key of None \<Rightarrow> [] | Some l \<Rightarrow> l) @ [(addr, pre)]) m, insert pre seen)) s items)
       ([], {}) dataJson"

text \<open>The pairs of one transaction: \<open>Inl\<close> a return code, \<open>Inr\<close> the hash to wait for, if any.\<close>

fun check_pairs ::
    "helper_env \<Rightarrow> helper_io \<Rightarrow> reader \<Rightarrow> mreader \<Rightarrow> CBlock \<Rightarrow> (cxx_string \<Rightarrow> bool) \<Rightarrow> (cxx_string \<times> cxx_string) list \<Rightarrow>
     block_helper \<Rightarrow> ((int + cxx_string) \<times> block_helper) run" where
  "check_pairs env io rd mrd block own [] h = Ret (Inr [], h)"
| "check_pairs env io rd mrd block own ((addr, pre) # ps) h =
     (if own pre then check_pairs env io rd mrd block own ps h
      else try_run (contractPreHashStatus env rd addr pre (bl_time block)) (Ret (Inl (-6), h)) (\<lambda>(status, dbBlockHash). case status of
        NormalStatus \<Rightarrow> (case contractBlockCacheChecker block addr pre h of (ret, h) \<Rightarrow>
          if ret \<noteq> 0 then Ret (Inl (-2), h) else check_pairs env io rd mrd block own ps h)
      | MemoryBlockException \<Rightarrow> Ret (Inl (-3), h)
      | DatabaseBlockException \<Rightarrow>
          if dbBlockHash = bl_hash block then check_pairs env io rd mrd block own ps h
          else try_run (getBlockHeightByBlockHash rd dbBlockHash 0) (Ret (Inl (-6), h)) (\<lambda>(ret, height).
            if ret \<noteq> DB_SUCCESS then Ret (Inl (-4), h)
            else try_run (RollbackBlock env io rd mrd dbBlockHash (ucast height) h) (Ret (Inl (-6), h)) (\<lambda>(ret, h).
              if ret \<noteq> 0 then Ret (Inl (-5), h) else check_pairs env io rd mrd block own ps h))
      | Waiting \<Rightarrow> (case contractBlockCacheChecker block addr pre h of (ret, h) \<Rightarrow>
          if ret \<noteq> 0 then Ret (Inl (-6), h) else Ret (Inr pre, h))
      | Err \<Rightarrow> check_pairs env io rd mrd block own ps h))"

fun check_transactions ::
    "helper_env \<Rightarrow> helper_io \<Rightarrow> reader \<Rightarrow> mreader \<Rightarrow> CBlock \<Rightarrow> u64 \<Rightarrow> (cxx_string \<Rightarrow> bool) \<Rightarrow>
     (cxx_string, (cxx_string \<times> cxx_string) list) std_map \<Rightarrow> block_helper \<Rightarrow> ((int \<times> cxx_string) \<times> block_helper) run" where
  "check_transactions env io rd mrd block nodeSelfHeight own [] h = Ret ((0, []), h)"
| "check_transactions env io rd mrd block nodeSelfHeight own ((key, pairs) # m) h =
     bind_run (check_pairs env io rd mrd block own pairs h) (\<lambda>(r, h). case r of
       Inl code \<Rightarrow> Ret ((code, []), h)
     | Inr pre \<Rightarrow>
         if pre \<noteq> [] then
           Ret ((0, pre), if bl_height block \<le> nodeSelfHeight + 3
             then h\<lparr>missingBlocks := missing_insert (MissingBlock_new pre (hi_now io) True) (missingBlocks h)\<rparr> else h)
         else check_transactions env io rd mrd block nodeSelfHeight own m h)"

text \<open>An exception anywhere in the check is the code -6; what was cached before it stays.\<close>

definition check_contract_block ::
    "helper_env \<Rightarrow> helper_io \<Rightarrow> reader \<Rightarrow> mreader \<Rightarrow> CBlock \<Rightarrow> block_helper \<Rightarrow> ((int \<times> cxx_string) \<times> block_helper) run" where
  "check_contract_block env io rd mrd block h =
     bind_run (getBlockTop rd 0) (\<lambda>(ret, nodeSelfHeight).
       if ret \<noteq> DB_SUCCESS then Ret ((-1, []), h)
       else try_run (he_json env (bl_data block)) (Ret ((-6, []), h)) (\<lambda>dataJson.
         let contractTxPreCacheMap = fst (collect_pre_hashes dataJson) in
         check_transactions env io rd mrd block nodeSelfHeight (\<lambda>pre. map_of contractTxPreCacheMap pre \<noteq> None)
           contractTxPreCacheMap h))"

subsection \<open>A broadcast block\<close>

definition queue_broadcast ::
    "helper_io \<Rightarrow> reader \<Rightarrow> u64 \<Rightarrow> DBStatus \<Rightarrow> CBlock \<Rightarrow> block_helper \<Rightarrow> block_helper run" where
  "queue_broadcast io rd nodeSelfHeight prevHashStatus block h =
     (if prevHashStatus = DB_SUCCESS
      then Ret (if bl_height block \<le> nodeSelfHeight + 1000
                then h\<lparr>broadcastBlocks := set_insert blockTimeAscending block (broadcastBlocks h)\<rparr> else h)
      else AddPendingBlock (hi_now io) rd block h)"

definition accept_broadcast ::
    "helper_env \<Rightarrow> helper_io \<Rightarrow> reader \<Rightarrow> mreader \<Rightarrow> CBlock \<Rightarrow> block_helper \<Rightarrow> block_helper run" where
  "accept_broadcast env io rd mrd block h =
     bind_run (getBlockTop rd 0) (\<lambda>(res, nodeSelfHeight).
       if res \<noteq> DB_SUCCESS then Ret h
       else bind_run (getBlockByBlockHash rd (bl_prevHash block) []) (\<lambda>(prevHashStatus, _).
         if he_is_contract env block then
           bind_run (check_contract_block env io rd mrd block h) (\<lambda>((ret, contractTxPreviousHash), h).
             if ret < 0 then Ret h
             else if ret = 0 \<and> contractTxPreviousHash \<noteq> [] then Ret h
             else queue_broadcast io rd nodeSelfHeight prevHashStatus block h)
         else queue_broadcast io rd nodeSelfHeight prevHashStatus block h))"

definition AddBroadcastBlock ::
    "helper_env \<Rightarrow> helper_io \<Rightarrow> reader \<Rightarrow> mreader \<Rightarrow> CBlock \<Rightarrow> bool \<Rightarrow> block_helper \<Rightarrow> block_helper run" where
  "AddBroadcastBlock env io rd mrd block status =
     locked (\<lambda>h.
       if map_of (duplicateChecker h) (bl_hash block) \<noteq> None
       then Ret (if status then h\<lparr>duplicateChecker := map_assign (bl_hash block) (status, bl_time block) (duplicateChecker h)\<rparr> else h)
       else if map_of (doubleSpendBlocks h) (bl_hash block) \<noteq> None then Ret h
       else let h = h\<lparr>duplicateChecker := map_assign (bl_hash block) (status, bl_time block) (duplicateChecker h)\<rparr>;
                (stays, h) = resolve_conflict env block status h in
         if \<not> stays then Ret h else accept_broadcast env io rd mrd block h)"

end
