(* ===== verification/BlockRequest.thy ===== *)
theory BlockRequest
  imports BlockEntry
begin

text \<open>
  Asking other nodes for missing blocks (\<open>ca/block_helper.cpp\<close>): by an output that is not known, by
  the hash of a block or transaction, and for the block of a contract. \<open>wait_round\<close> is the round of
  questions; a block that is found goes to the queues of \<open>BlockQueues\<close>.
\<close>

subsection \<open>A round of questions\<close>

text \<open>
  The part the three requests share: \<open>Inl\<close> is a return code, \<open>Inr\<close> this node's height and the
  answers.
\<close>

definition getUtxoAndFindNode :: "helper_env \<Rightarrow> helper_io \<Rightarrow> reader \<Rightarrow> u32 \<Rightarrow> (int \<times> cxx_string list) run" where
  "getUtxoAndFindNode env io rd num = getSyncNodeSimplified (he_chain env) (hi_rnd io) rd (hi_nodes io) num"

definition ask_nodes :: "helper_env \<Rightarrow> helper_io \<Rightarrow> reader \<Rightarrow> wait_round \<Rightarrow> (int + u64 \<times> cxx_string list) run" where
  "ask_nodes env io rd w =
     bind_run (getChainHeight (he_chain env) rd (hi_nodes io)) (\<lambda>ch. case ch of
       None \<Rightarrow> Ret (Inl (-1))
     | Some chainHeight \<Rightarrow>
         bind_run (getBlockTop rd 0) (\<lambda>(status, nodeSelfHeight).
           if status \<noteq> DB_SUCCESS then Ret (Inl (-2))
           else bind_run (getUtxoAndFindNode env io rd (MIN_SYNC_QUAL_NODES (he_chain env))) (\<lambda>(ret, node_ids_to_send).
             if ret \<noteq> 0 then Ret (Inl (-4))
             else if \<not> wr_created w then Ret (Inl (-5))
             else if \<not> list_all (wr_added w) node_ids_to_send then Ret (Inl (-6))
             else if \<not> wr_complete w \<and>
                     \<not> checkByzantineFault (int (length node_ids_to_send)) (int (length (wr_answers w)))
             then Ret (Inl (-7))
             else Ret (Inr (nodeSelfHeight, wr_answers w)))))"

subsection \<open>By hash\<close>

type_synonym seek_votes = "(cxx_string, cxx_string \<times> nat) std_map"

text \<open>A hash that is new is entered with one vote and counted right after.\<close>

definition seek_vote :: "seek_votes \<Rightarrow> HashType \<Rightarrow> seek_votes" where
  "seek_vote m block =
     (let m = (if map_of m (ht_hash block) = None then map_assign (ht_hash block) (ht_block_raw block, 1) m else m);
          (raw, votes) = the (map_of m (ht_hash block))
      in map_assign (ht_hash block) (raw, votes + 1) m)"

definition collect_seek :: "(cxx_string \<Rightarrow> GetBlockByHashAck option) \<Rightarrow> cxx_string list \<Rightarrow> nat \<times> seek_votes" where
  "collect_seek parse_ack retDatas =
     (let acks = List.map_filter parse_ack retDatas
      in (length acks, foldl seek_vote [] (concat (map hba_blocks acks))))"

text \<open>The blocks with enough votes, \<open>None\<close> when one of them cannot be parsed.\<close>

definition seek_result ::
    "(cxx_string \<Rightarrow> CBlock option) \<Rightarrow> nat \<times> seek_votes \<Rightarrow> (CBlock \<times> cxx_string) list option" where
  "seek_result parse r =
     (case r of (successCounter, blockHashesToSeek) \<Rightarrow>
        let verifyNum = successCounter div 5 * 4;
            chosen = filter (\<lambda>it. verifyNum < snd (snd it)) blockHashesToSeek in
        if list_all (\<lambda>it. parse (fst (snd it)) \<noteq> None) chosen
        then Some (map (\<lambda>it. (the (parse (fst (snd it))), fst it)) chosen) else None)"

text \<open>The return code and the blocks handed to \<open>add_seek_block\<close> on another thread.\<close>

definition sendBlockByHashRequest ::
    "helper_env \<Rightarrow> helper_io \<Rightarrow> reader \<Rightarrow> wait_round \<Rightarrow> (int \<times> (CBlock \<times> cxx_string) list option) run" where
  "sendBlockByHashRequest env io rd w =
     bind_run (ask_nodes env io rd w) (\<lambda>r. case r of
       Inl code \<Rightarrow> Ret (code, None)
     | Inr (_, retDatas) \<Rightarrow>
         (case seek_result (he_parse env) (collect_seek (he_parse_hash_ack env) retDatas) of
            None \<Rightarrow> Ret (-8, None)
          | Some seekBlocks \<Rightarrow> Ret (0, Some seekBlocks)))"

text \<open>
  The thread that looks for what has been missing for more than 15 seconds. \<open>seek_scan\<close> is its loop
  over the set, oldest first: what stays in the set and what is asked for.
\<close>

definition seek_found :: "reader \<Rightarrow> MissingBlock \<Rightarrow> bool run" where
  "seek_found rd b =
     bind_run (if mb_txOrBlock b then getBlockHashByTransactionHash rd (mb_hash b) [] else getBlockByBlockHash rd (mb_hash b) [])
       (\<lambda>(ret, _). Ret (ret = DB_SUCCESS))"

fun seek_scan ::
    "reader \<Rightarrow> u64 \<Rightarrow> MissingBlock list \<Rightarrow> (cxx_string, bool) std_map \<Rightarrow> (MissingBlock list \<times> (cxx_string, bool) std_map) run" where
  "seek_scan rd nowTime [] missingHashs = Ret ([], missingHashs)"
| "seek_scan rd nowTime (b # bs) missingHashs =
     (if 30 * 1000000 < nowTime - mb_time b \<or> 3 < mb_triggerCount b then seek_scan rd nowTime bs missingHashs
      else if 15 * 1000000 < nowTime - mb_time b then
        bind_run (seek_found rd b) (\<lambda>found.
          if found then seek_scan rd nowTime bs missingHashs
          else if map_of missingHashs (mb_hash b) = None then
            bind_run (seek_scan rd nowTime bs (map_assign (mb_hash b) (mb_txOrBlock b) missingHashs)) (\<lambda>(kept, m).
              Ret (b\<lparr>mb_triggerCount := mb_triggerCount b + 1\<rparr> # kept, m))
          else seek_scan rd nowTime bs missingHashs)
      else Ret (b # bs, missingHashs))"

text \<open>The hashes asked for; none when \<open>sendBlockByHashRequest\<close> is not called.\<close>

definition SeekBlockThreadObject ::
    "reader \<Rightarrow> u64 \<Rightarrow> block_helper \<Rightarrow> ((cxx_string, bool) std_map \<times> block_helper) run" where
  "SeekBlockThreadObject rd nowTime h =
     (if missingBlocks h = [] then Ret ([], h)
      else bind_run (seek_scan rd nowTime (missingBlocks h) []) (\<lambda>(kept, missingHashs).
        Ret (missingHashs, h\<lparr>missingBlocks := kept\<rparr>)))"

subsection \<open>By the hash a contract names\<close>

definition seekBlockByContractPreHashRequest ::
    "helper_env \<Rightarrow> helper_io \<Rightarrow> reader \<Rightarrow> wait_round \<Rightarrow> cxx_string \<Rightarrow> (int \<times> cxx_string) run" where
  "seekBlockByContractPreHashRequest env io rd w contractBlockString =
     bind_run (ask_nodes env io rd w) (\<lambda>r. case r of
       Inl code \<Rightarrow> Ret (code, contractBlockString)
     | Inr (_, retDatas) \<Rightarrow>
         (case concat (map hba_blocks (List.map_filter (he_parse_hash_ack env) retDatas)) of
            [] \<Rightarrow> Ret (-8, contractBlockString)
          | b # _ \<Rightarrow> Ret (0, ht_block_raw b)))"

subsection \<open>By output\<close>

text \<open>
  All answers must have the same block, \<open>None\<close> otherwise; the first answer sets it, an answer that
  cannot be parsed is skipped.
\<close>

fun same_raw :: "(cxx_string \<Rightarrow> GetBlockByUtxoAck option) \<Rightarrow> bool \<Rightarrow> cxx_string \<Rightarrow> cxx_string list \<Rightarrow> cxx_string option" where
  "same_raw parse_ack first blockRaw [] = Some blockRaw"
| "same_raw parse_ack first blockRaw (r # rs) =
     (case parse_ack r of
        None \<Rightarrow> same_raw parse_ack False blockRaw rs
      | Some ack \<Rightarrow>
          if first then same_raw parse_ack False (uba_block_raw ack) rs
          else if blockRaw \<noteq> uba_block_raw ack then None
          else same_raw parse_ack False blockRaw rs)"

definition spends_output :: "cxx_string \<Rightarrow> CBlock \<Rightarrow> bool" where
  "spends_output utxo block \<longleftrightarrow>
     list_ex (\<lambda>tx. list_ex (\<lambda>u. list_ex (\<lambda>vin. list_ex (\<lambda>p. po_hash p = utxo) (vi_prevOut vin)) (ux_vin u)) (tx_utxos tx))
       (bl_txs block)"

text \<open>The counter is an \<open>int\<close>: the heights from the last multiple of 100 downwards.\<close>

definition heights_down :: "u64 \<Rightarrow> u64 list" where
  "heights_down shelfHeight =
     map of_nat (rev [1 ..< Suc (nat (sint (ucast (of_nat (unat shelfHeight div 100 * 100) :: u64) :: u32)))])"

fun search_blocks ::
    "(cxx_string \<Rightarrow> CBlock option) \<Rightarrow> reader \<Rightarrow> cxx_string \<Rightarrow> cxx_string \<Rightarrow> cxx_string list \<Rightarrow> (int \<times> u64 option) option run" where
  "search_blocks parse rd utxo blockHash [] = Ret None"
| "search_blocks parse rd utxo blockHash (h # hs) =
     bind_run (getBlockByBlockHash rd h []) (\<lambda>(res, strblock).
       if res \<noteq> DB_SUCCESS then Ret (Some (-4, None))
       else case parse strblock of
         None \<Rightarrow> Ret (Some (-5, None))
       | Some block \<Rightarrow>
           if spends_output utxo block \<and> bl_hash block \<noteq> blockHash then Ret (Some (0, Some (bl_height block)))
           else search_blocks parse rd utxo blockHash hs)"

fun search_heights ::
    "(cxx_string \<Rightarrow> CBlock option) \<Rightarrow> reader \<Rightarrow> mreader \<Rightarrow> cxx_string \<Rightarrow> cxx_string \<Rightarrow> u64 list \<Rightarrow> (int \<times> u64 option) run" where
  "search_heights parse rd mrd utxo blockHash [] = Ret (-6, None)"
| "search_heights parse rd mrd utxo blockHash (i # is) =
     bind_run (getBlockHashesByBlockHeight mrd i i []) (\<lambda>(ret, selfBlockHashes).
       if ret \<noteq> DB_SUCCESS then Ret (-3, None)
       else bind_run (search_blocks parse rd utxo blockHash selfBlockHashes) (\<lambda>r. case r of
         Some res \<Rightarrow> Ret res
       | None \<Rightarrow> search_heights parse rd mrd utxo blockHash is))"

definition rollbackPreviousBlocks ::
    "helper_env \<Rightarrow> helper_io \<Rightarrow> reader \<Rightarrow> mreader \<Rightarrow> cxx_string \<Rightarrow> u64 \<Rightarrow> cxx_string \<Rightarrow> sync_state \<Rightarrow> (int \<times> sync_state) run" where
  "rollbackPreviousBlocks env io rd mrd utxo shelfHeight blockHash st =
     bind_run (getChainHeight (he_chain env) rd (hi_nodes io)) (\<lambda>ch. case ch of
       None \<Rightarrow> Ret (-1, st)
     | Some chainHeight \<Rightarrow>
         if chainHeight < shelfHeight + 50 then Ret (-2, st)
         else bind_run (search_heights (he_parse env) rd mrd utxo blockHash (heights_down shelfHeight)) (\<lambda>(ret, at).
           Ret (ret, case at of None \<Rightarrow> st | Some height \<Rightarrow> SetFastSync height st)))"

definition setWhetherRunSendBlockByUtxoRequest :: "bool \<Rightarrow> block_helper \<Rightarrow> block_helper" where
  "setWhetherRunSendBlockByUtxoRequest flag h = h\<lparr>shouldSendBlockByUtxoReq := flag\<rparr>"

definition utxo_request ::
    "helper_env \<Rightarrow> helper_io \<Rightarrow> reader \<Rightarrow> mreader \<Rightarrow> wait_round \<Rightarrow> cxx_string \<Rightarrow> block_helper \<times> sync_state \<Rightarrow>
     (int \<times> block_helper \<times> sync_state) run" where
  "utxo_request env io rd mrd w utxo s =
     (case s of (h, st) \<Rightarrow>
       bind_run (ask_nodes env io rd w) (\<lambda>r. case r of
         Inl code \<Rightarrow> Ret (code, s)
       | Inr (nodeSelfHeight, retDatas) \<Rightarrow>
           (case same_raw (he_parse_utxo_ack env) True [] retDatas of
              None \<Rightarrow> Ret (-8, s)
            | Some blockRaw \<Rightarrow>
                if blockRaw = [] then Ret (-9, s)
                else case he_parse env blockRaw of
                  None \<Rightarrow> Ret (-10, s)
                | Some block \<Rightarrow>
                    bind_run (getBlockByBlockHash rd (bl_hash block) []) (\<lambda>(ret, _).
                    bind_run (if ret = DB_SUCCESS
                              then rollbackPreviousBlocks env io rd mrd utxo nodeSelfHeight (bl_hash block) st
                              else Ret (0, st)) (\<lambda>(ret, st).
                      if ret \<noteq> 0 then Ret (-11, h, st)
                      else bind_run (AddMissingBlock block h) (\<lambda>h. Ret (0, h, st)))))))"

text \<open>One request at a time; the scope guard pops the stack and allows the next one.\<close>

definition sendBlockByUtxoRequest ::
    "helper_env \<Rightarrow> helper_io \<Rightarrow> reader \<Rightarrow> mreader \<Rightarrow> wait_round \<Rightarrow> cxx_string \<Rightarrow> block_helper \<times> sync_state \<Rightarrow>
     (int \<times> block_helper \<times> sync_state) run" where
  "sendBlockByUtxoRequest env io rd mrd w utxo s =
     (case s of (h, st) \<Rightarrow>
        if \<not> shouldSendBlockByUtxoReq h then Ret (0, s)
        else bind_run (utxo_request env io rd mrd w utxo (setWhetherRunSendBlockByUtxoRequest False h, st)) (\<lambda>(ret, h, st).
          bind_run (popMissUtxo h) (\<lambda>h. Ret (ret, setWhetherRunSendBlockByUtxoRequest True h, st))))"

end
