(* ===== verification/BlockSave.thy ===== *)
theory BlockSave
  imports BlockRequest DbWriter
begin

text \<open>
  Saving blocks (\<open>ca/block_helper.cpp\<close>): the checks before a block is written, what follows a block
  that was written, and the resolution of double spends and contract conflicts. The checks and the
  writes themselves are \<open>ca_algorithm\<close>, whose sources are not in the repository: they are arguments
  (\<open>save_env\<close>) that read the database, write into the transaction they are given and may report a
  missing previous hash or missing outputs to \<open>BlockHelper\<close> on the way (\<open>alg_result\<close>). \<open>save_state\<close>
  is the helper with the database.
\<close>

datatype blockMean = Normal | processByPreHash | ByUtxo

datatype DOUBLE_SPEND_TYPE = repeat_double_spend | isDoubleSpend | previousDoubleSpend | isInvalidDoubleSpend | err_double_spend

record alg_result =
  ar_code :: int
  ar_missing_prehash :: bool
  ar_missing_utxos :: "cxx_string list"

record 't save_env =
  se_helper :: helper_env
  se_ops :: "'t rocks"
  se_open :: bool
  se_version :: u32
  se_sort :: "(CTransaction \<Rightarrow> u64) \<Rightarrow> CTransaction list \<Rightarrow> CTransaction list"
  se_verify_flowed :: "CBlock \<Rightarrow> bool \<Rightarrow> 't \<Rightarrow> int"
  se_verify_block :: "CBlock \<Rightarrow> SaveType \<Rightarrow> 't \<Rightarrow> alg_result"
  se_save_block :: "CBlock \<Rightarrow> SaveType \<Rightarrow> blockMean \<Rightarrow> 't dbrw \<Rightarrow> alg_result \<times> 't dbrw"
  se_verify_pre_save :: "CBlock \<Rightarrow> 't \<Rightarrow> int"
  se_double_spend :: "CTransaction \<Rightarrow> 't \<Rightarrow> int \<times> cxx_string"

record 't save_state =
  ss_helper :: block_helper
  ss_db :: 't

text \<open>Readers outside a transaction, and the object a method creates for its own transaction.\<close>

definition db_reader :: "'t save_env \<Rightarrow> 't \<Rightarrow> reader" where
  "db_reader env db = DBReader_readData (se_ops env) \<lparr>inited = se_open env, txn_open = False, rk = db\<rparr>"

definition db_mreader :: "'t save_env \<Rightarrow> 't \<Rightarrow> mreader" where
  "db_mreader env db = DBReader_multiReadData (se_ops env) \<lparr>inited = se_open env, txn_open = False, rk = db\<rparr>"

definition new_writer :: "'t save_env \<Rightarrow> 't \<Rightarrow> 't dbrw" where
  "new_writer env db = DBReadWriter_new (se_ops env) (se_open env) db"

text \<open>The destructor of \<open>DBReadWriter\<close>.\<close>

definition close_writer :: "'t save_env \<Rightarrow> 't dbrw \<Rightarrow> 't" where
  "close_writer env d = rk (dbReaderWriter (snd (DBReadWriter_transactionRollBack (se_ops env) d)))"

definition report_missing :: "alg_result \<Rightarrow> block_helper \<Rightarrow> block_helper" where
  "report_missing r h =
     foldl (\<lambda>h utxo. pushMissUtxo utxo h) (if ar_missing_prehash r then set_missing_prehash h else h) (ar_missing_utxos r)"

subsection \<open>Double spends\<close>

definition TX_TYPE_TX :: u32 where "TX_TYPE_TX = 1"
definition kTransactionTypeDeploy :: u32 where "kTransactionTypeDeploy = 7"
definition TX_TYPE_INVOKE_CONTRACT :: u32 where "TX_TYPE_INVOKE_CONTRACT = 8"

definition spends_for :: "helper_env \<Rightarrow> cxx_string set \<Rightarrow> cxx_string \<Rightarrow> CBlock \<Rightarrow> bool" where
  "spends_for env setOwner missingUtxo PBlock \<longleftrightarrow>
     list_ex (\<lambda>tx. tx_txType tx = TX_TYPE_TX \<and>
       list_ex (\<lambda>u. list_ex (\<lambda>vin. he_addr env (vi_pub vin) \<in> setOwner \<and>
         list_ex (\<lambda>p. po_hash p = missingUtxo) (vi_prevOut vin)) (ux_vin u)) (tx_utxos tx)) (bl_txs PBlock)"

definition status_effect :: "helper_env \<Rightarrow> CBlock \<Rightarrow> CBlock \<Rightarrow> block_helper \<Rightarrow> block_helper run" where
  "status_effect env oldBlock newBlock h =
     bind_run (transactionStatusMessage env oldBlock newBlock) (\<lambda>m.
       Ret (case m of None \<Rightarrow> h | Some (blockStatus, destNode) \<Rightarrow> with_effect (SendStatus blockStatus destNode) h))"

definition checkDoubleBlooming :: "helper_env \<Rightarrow> DOUBLE_SPEND_TYPE \<Rightarrow> CBlock \<Rightarrow> CBlock \<Rightarrow> block_helper \<Rightarrow> block_helper run" where
  "checkDoubleBlooming env type other block h =
     (if type = isDoubleSpend then
        (case map_of (duplicateChecker h) (bl_hash block) of
           Some (True, _) \<Rightarrow> status_effect env other block h
         | _ \<Rightarrow> Ret h)
      else if type = previousDoubleSpend then
        (case map_of (duplicateChecker h) (bl_hash other) of
           Some (True, _) \<Rightarrow> status_effect env block other h
         | _ \<Rightarrow> Ret h)
      else Ret h)"

text \<open>\<open>insert\<close> does not replace an entry.\<close>

definition note_double_spend :: "CBlock \<Rightarrow> block_helper \<Rightarrow> block_helper" where
  "note_double_spend block h =
     (if map_of (doubleSpendBlocks h) (bl_hash block) = None
      then h\<lparr>doubleSpendBlocks := map_assign (bl_hash block) block (doubleSpendBlocks h)\<rparr> else h)"

text \<open>
  The saved block that spends the output already wins unless it is younger, then it is rolled back.
  The block in the result is moved from and not read by the caller.
\<close>

definition dealDoubleSpend ::
    "helper_env \<Rightarrow> helper_io \<Rightarrow> reader \<Rightarrow> mreader \<Rightarrow> CBlock \<Rightarrow> CTransaction \<Rightarrow> cxx_string \<Rightarrow> block_helper \<Rightarrow>
     (DOUBLE_SPEND_TYPE \<times> block_helper) run" where
  "dealDoubleSpend env io rd mrd block tx missingUtxo h =
     bind_run (getBlockTop rd 0) (\<lambda>(ret, nodeHeight).
       if ret \<noteq> DB_SUCCESS then Ret (err_double_spend, h)
       else let setOwner = set (concat (map ux_owner (tx_utxos tx))) in
         if nodeHeight < bl_height block then Ret (err_double_spend, h)
         else bind_run (getBlockHashesByBlockHeight mrd (bl_height block) nodeHeight []) (\<lambda>(ret, blockHashes).
           if ret \<noteq> DB_SUCCESS then Ret (err_double_spend, h)
           else bind_run (getBlocksByBlockHash mrd blockHashes []) (\<lambda>(ret, blocks).
             if ret \<noteq> DB_SUCCESS then Ret (err_double_spend, h)
             else case find (spends_for env setOwner missingUtxo) (List.map_filter (he_parse env) blocks) of
               None \<Rightarrow> Ret (isInvalidDoubleSpend, note_double_spend block h)
             | Some PBlock \<Rightarrow>
                 if bl_height block = bl_height PBlock \<and> bl_time PBlock \<le> bl_time block \<or> bl_height PBlock < bl_height block
                 then bind_run (checkDoubleBlooming env isDoubleSpend PBlock block (note_double_spend block h))
                        (\<lambda>h. Ret (isDoubleSpend, h))
                 else bind_run (RollbackBlock env io rd mrd (bl_hash PBlock) (bl_height PBlock) h) (\<lambda>(ret, h).
                   if ret \<noteq> 0 then Ret (err_double_spend, h)
                   else bind_run (checkDoubleBlooming env previousDoubleSpend PBlock block h)
                          (\<lambda>h. Ret (previousDoubleSpend, h))))))"

subsection \<open>Before a block is saved\<close>

text \<open>The condition is \<open>A || B || C && D\<close>.\<close>

fun presave_txs ::
    "'t save_env \<Rightarrow> helper_io \<Rightarrow> 't \<Rightarrow> CBlock \<Rightarrow> CTransaction list \<Rightarrow> block_helper \<Rightarrow> (int \<times> block_helper) run" where
  "presave_txs env io db block [] h = Ret (0, h)"
| "presave_txs env io db block (tx # txs) h =
     (if he_type (se_helper env) tx \<noteq> kTransactionTypeTx then presave_txs env io db block txs h
      else case se_double_spend env tx db of (ret, missingUtxo) \<Rightarrow>
        if ret = 0 then presave_txs env io db block txs h
        else if ret = -5 \<or> ret = -7 \<or> ret = -8 \<and> missingUtxo \<noteq> [] then
          bind_run (getBlockHashByTransactionHash (db_reader env db) missingUtxo []) (\<lambda>(found, _).
            if found = DB_SUCCESS then
              bind_run (dealDoubleSpend (se_helper env) io (db_reader env db) (db_mreader env db) block tx missingUtxo h) (\<lambda>(type, h).
                if type = isDoubleSpend then Ret (-7, h)
                else if type = previousDoubleSpend then presave_txs env io db block txs h
                else if type = isInvalidDoubleSpend then Ret (-8, h)
                else Ret (-9, h))
            else Ret (ret, hash_pending_add (hi_now io) block
                   (h\<lparr>missingBlocks := missing_insert (MissingBlock_new missingUtxo (hi_now io) True) (missingBlocks h)\<rparr>)))
        else Ret (ret, hash_pending_add (hi_now io) block h))"

definition PreSaveProcess ::
    "'t save_env \<Rightarrow> helper_io \<Rightarrow> 't \<Rightarrow> CBlock \<Rightarrow> SaveType \<Rightarrow> blockMean \<Rightarrow> block_helper \<Rightarrow> (int \<times> block_helper) run" where
  "PreSaveProcess env io db block saveType computeMeanValue h =
     (case saveType of
        SyncNormal \<Rightarrow>
          (let r = se_verify_block env block saveType db; h = report_missing r (resetMissingPrehash h) in
           if ar_code r = 0 then Ret (0, h)
           else if missing_prehash h then
             Ret (-1, with_effect (SetNewSyncHeight (bl_height block - 1)) (resetMissingPrehash h))
           else if missingUtxos h \<noteq> [] then Ret (-2, snd (getMissingBlock h))
           else Ret (-3, h))
      | Broadcast \<Rightarrow>
          bind_run (getBlockTop (db_reader env db) 0) (\<lambda>(ret, nodeHeight).
            if ret \<noteq> DB_SUCCESS then Ret (-4, h)
            else if computeMeanValue = Normal \<and> bl_height block + 50 < nodeHeight then Ret (-5, h)
            else if se_verify_pre_save env block db < 0 then Ret (-6, h)
            else presave_txs env io db block (bl_txs block) h)
      | _ \<Rightarrow> Ret (0, h))"

subsection \<open>After a block was saved\<close>

datatype post_effect = ContractBlockNotification cxx_string | SetSelfHeight u64 | HttpAddBlock CBlock

definition processPostTransaction :: "helper_env \<Rightarrow> bool \<Rightarrow> CBlock \<Rightarrow> post_effect list" where
  "processPostTransaction env http_running block =
     (if he_is_contract env block then [ContractBlockNotification (bl_hash block)] else [])
     @ [SetSelfHeight (bl_height block)] @ (if http_running then [HttpAddBlock block] else [])"

text \<open>
  The blocks of the same height are rolled back when an owner of the cancelling transaction signed
  this block, the creator counting only for an agent's transaction; once per output and signature,
  and for each transaction of the other block.
\<close>

definition signing_owners :: "helper_env \<Rightarrow> CBlock \<Rightarrow> CTransaction \<Rightarrow> cxx_string list" where
  "signing_owners env block tx =
     concat (map (\<lambda>s. concat (map (\<lambda>u. if he_addr env (sg_pub s) \<in> set (ux_owner u) then [he_addr env (sg_pub s)] else [])
        (tx_utxos tx))) (if he_requires_agent env tx then bl_sign block else tl (bl_sign block)))"

definition cancel_height_block ::
    "'t save_env \<Rightarrow> helper_io \<Rightarrow> 't \<Rightarrow> CBlock \<Rightarrow> CTransaction \<Rightarrow> block_helper \<Rightarrow> CBlock \<Rightarrow> block_helper run" where
  "cancel_height_block env io db block tx h heightBlock =
     (if bl_hash heightBlock = bl_hash block then Ret h
      else each_run (\<lambda>h _. each_run (\<lambda>h _. bind_run
             (RollbackBlock (se_helper env) io (db_reader env db) (db_mreader env db) (bl_hash heightBlock) (bl_height heightBlock) h)
             (\<lambda>r. Ret (snd r))) h (signing_owners (se_helper env) block tx)) h (bl_txs heightBlock))"

definition processPostMembershipCancellation ::
    "'t save_env \<Rightarrow> helper_io \<Rightarrow> 't \<Rightarrow> CBlock \<Rightarrow> block_helper \<Rightarrow> block_helper run" where
  "processPostMembershipCancellation env io db block h =
     each_run (\<lambda>h tx.
       if he_type (se_helper env) tx \<noteq> kTransactionTypeTx then Ret h
       else if tx_txType tx \<noteq> kTxTypeUnstake \<and> tx_txType tx \<noteq> kTxTypeUndelegate then Ret h
       else let d = new_writer env db in
         bind_run (getBlockHashsByBlockHeight (DBReadWriter_readData (se_ops env) d) (bl_height block) []) (\<lambda>(ret, blockHashs).
           if ret \<noteq> DB_SUCCESS then Ret h
           else bind_run (getBlocksByBlockHash (DBReadWriter_multiReadData (se_ops env) d) blockHashs []) (\<lambda>(ret, blocks).
             if ret \<noteq> DB_SUCCESS then Ret h
             else each_run (cancel_height_block env io (close_writer env d) block tx) h
                    (List.map_filter (he_parse (se_helper env)) blocks)))) h (bl_txs block)"

text \<open>
  The contract blocks that waited for this block's transactions. The loop ends at a transaction whose
  type differs from one of two different types, that is at the first. \<open>True\<close> when the method returns
  from inside the loop.
\<close>

fun follow_contracts ::
    "('t save_state \<Rightarrow> CBlock \<Rightarrow> 't save_state run) \<Rightarrow> 't save_env \<Rightarrow> helper_io \<Rightarrow> CTransaction list \<Rightarrow> 't save_state \<Rightarrow>
     (bool \<times> 't save_state) run" where
  "follow_contracts save env io [] s = Ret (False, s)"
| "follow_contracts save env io (tx # txs) s =
     (if tx_txType tx \<noteq> TX_TYPE_INVOKE_CONTRACT \<or> tx_txType tx \<noteq> kTransactionTypeDeploy then Ret (False, s)
      else case map_of (contractBlocks (ss_helper s)) (tx_hash tx) of
        None \<Rightarrow> follow_contracts save env io txs s
      | Some (_, contractBlock) \<Rightarrow>
          (let rd = db_reader env (ss_db s); mrd = db_mreader env (ss_db s) in
           bind_run (check_contract_block (se_helper env) io rd mrd contractBlock (ss_helper s)) (\<lambda>((ret, pre), h).
             let s = s\<lparr>ss_helper := h\<rparr> in
             if ret < 0 then Ret (False, s)
             else if ret = 0 \<and> pre \<noteq> [] then Ret (False, s)
             else if ret = 0 then
               bind_run (getBlockByBlockHash rd (bl_prevHash contractBlock) []) (\<lambda>(ret, _).
                 if ret \<noteq> DB_SUCCESS then
                   bind_run (AddPendingBlock (hi_now io) rd contractBlock h) (\<lambda>h. Ret (True, s\<lparr>ss_helper := h\<rparr>))
                 else bind_run (save s contractBlock) (\<lambda>s. follow_contracts save env io txs s))
             else follow_contracts save env io txs s)))"

definition PostSaveProcess ::
    "('t save_state \<Rightarrow> CBlock \<Rightarrow> 't save_state run) \<Rightarrow> 't save_env \<Rightarrow> helper_io \<Rightarrow> CBlock \<Rightarrow> 't save_state \<Rightarrow> 't save_state run" where
  "PostSaveProcess save env io block s =
     (let s = s\<lparr>ss_helper := with_effect (PostTransactionTask block) (ss_helper s)\<rparr>;
          waiting = (case map_of (pendingBlocks (ss_helper s)) (bl_height block + 1) of None \<Rightarrow> []
                     | Some m \<Rightarrow> map snd (filter (\<lambda>e. fst e = bl_hash block) m)) in
      bind_run (each_run save s waiting) (\<lambda>s.
      bind_run (follow_contracts save env io (bl_txs block) s) (\<lambda>(returned, s).
        if returned then Ret s
        else bind_run (processPostMembershipCancellation env io (ss_db s) block (ss_helper s)) (\<lambda>h.
          Ret (s\<lparr>ss_helper := h\<rparr>)))))"

subsection \<open>Saving a block\<close>

definition save_failed :: "CBlock \<Rightarrow> SaveType \<Rightarrow> block_helper \<Rightarrow> int \<times> block_helper" where
  "save_failed block saveType h =
     (let h = (if saveType = SyncNormal \<or> saveType = SyncFromZero
               then with_effect (SetNewSyncHeight (bl_height block)) h else h) in
      if missing_prehash h then
        (-6, with_effect (SetNewSyncHeight (bl_height block - 1)) (resetMissingPrehash h))
      else if missingUtxos h \<noteq> [] then (-7, snd (getMissingBlock h))
      else (-8, h))"

definition block_committed :: "CBlock \<Rightarrow> block_helper \<Rightarrow> block_helper" where
  "block_committed block h =
     with_effect (BlockSaved block)
       (h\<lparr>contractBlocks := filter (\<lambda>e. bl_hash block \<noteq> bl_hash (snd (snd e))) (contractBlocks h)\<rparr>)"

text \<open>
  A saved block brings the blocks that waited for it along; \<open>fuel\<close> bounds how long a chain of
  waiting blocks is followed.
\<close>

fun SaveBlock ::
    "'t save_env \<Rightarrow> helper_io \<Rightarrow> nat \<Rightarrow> CBlock \<Rightarrow> SaveType \<Rightarrow> blockMean \<Rightarrow> 't save_state \<Rightarrow> (int \<times> 't save_state) run" where
  "SaveBlock env io 0 block saveType computeMeanValue s = Diverge"
| "SaveBlock env io (Suc fuel) block saveType computeMeanValue s =
     (let d = new_writer env (ss_db s); closed = close_writer env d in
      bind_run (getBlockTop (DBReadWriter_readData (se_ops env) d) 0) (\<lambda>(ret, nodeHeight).
        if ret \<noteq> DB_SUCCESS then Ret (-3, s\<lparr>ss_db := closed\<rparr>)
        else if nodeHeight + 2 \<le> bl_height block then Ret (-4, s\<lparr>ss_db := closed\<rparr>)
        else bind_run (getBlockByBlockHash (DBReadWriter_readData (se_ops env) d) (bl_hash block) []) (\<lambda>(ret, _).
          if ret = DB_SUCCESS then Ret (0, s\<lparr>ss_db := closed\<rparr>)
          else bind_run (PreSaveProcess env io (rk (dbReaderWriter d)) block saveType computeMeanValue (ss_helper s)) (\<lambda>(ret, h).
            if ret < 0 then Ret (-5, s\<lparr>ss_helper := h, ss_db := closed\<rparr>)
            else case se_save_block env block saveType computeMeanValue d of (r, d) \<Rightarrow>
              let h = report_missing r (resetMissingPrehash h) in
              if ar_code r \<noteq> 0 then
                (case save_failed block saveType h of (code, h) \<Rightarrow> Ret (code, s\<lparr>ss_helper := h, ss_db := close_writer env d\<rparr>))
              else case DBReadWriter_transactionCommit (se_ops env) d of (ret, d) \<Rightarrow>
                if ret \<noteq> DB_SUCCESS then Ret (-9, s\<lparr>ss_helper := h, ss_db := close_writer env d\<rparr>)
                else bind_run (PostSaveProcess
                       (\<lambda>s b. bind_run (SaveBlock env io fuel b Broadcast processByPreHash s) (\<lambda>r. Ret (snd r)))
                       env io block (s\<lparr>ss_helper := block_committed block h, ss_db := close_writer env d\<rparr>)) (\<lambda>s. Ret (0, s))))))"

declare SaveBlock.simps [simp del]

subsection \<open>Checks of a block that flows through the network\<close>

definition VerifyHeight :: "reader \<Rightarrow> CBlock \<Rightarrow> u64 \<Rightarrow> bool run" where
  "VerifyHeight rd block ownblockHeight =
     bind_run (getBlockHeightByBlockHash rd (bl_prevHash block) 0) (\<lambda>(ret, preheight).
       Ret (ret = DB_SUCCESS \<and> \<not> ucast (preheight + 5) < ownblockHeight))"

text \<open>The first signature is read before anything else is checked.\<close>

definition verifyFlowedBlockStatus ::
    "'t save_env \<Rightarrow> helper_io \<Rightarrow> 't \<Rightarrow> CBlock \<Rightarrow> TxStatus list \<Rightarrow> (int \<times> TxStatus list) run" where
  "verifyFlowedBlockStatus env io db block txStatus =
     (let he = se_helper env; d = new_writer env db; rd = DBReadWriter_readData (se_ops env) d in
      if bl_version block \<noteq> se_version env then Ret (-1, txStatus)
      else case bl_sign block of
        [] \<Rightarrow> Undefined
      | s # _ \<Rightarrow>
          let isVerify = (he_addr he (sg_pub s) \<noteq> he_self_addr he) in
          if bl_hash block = [] then Ret (-2, txStatus)
          else bind_run (getBlockTop rd 0) (\<lambda>(ret, nodeHeight).
            if ret \<noteq> DB_SUCCESS then Ret (-3, txStatus)
            else if 9 < nodeHeight \<and> bl_height block < nodeHeight - 9 then Ret (-4, txStatus)
            else if nodeHeight + 1 < bl_height block then Ret (-5, txStatus)
            else bind_run (getChainHeight (he_chain he) (db_reader env db) (hi_nodes io)) (\<lambda>ch. case ch of
              None \<Rightarrow> Ret (-6, txStatus)
            | Some chainHeight \<Rightarrow>
                if MIN_UNSTAKE_HEIGHT (he_chain he) < chainHeight \<and> bl_height block < chainHeight - 10
                   \<and> kStabilityTime < hi_now io - bl_time block
                then Ret (-7, txStatus)
                else bind_run (getBlockByBlockHash rd (bl_hash block) []) (\<lambda>(status, tempHeader).
                  if status \<noteq> DB_SUCCESS \<and> status \<noteq> DB_NOT_FOUND then Ret (-8, txStatus)
                  else if tempHeader \<noteq> [] then Ret (-9, txStatus)
                  else bind_run (getBlockByBlockHash rd (bl_prevHash block) []) (\<lambda>(status, prev_header_str).
                    if status \<noteq> DB_SUCCESS \<and> status \<noteq> DB_NOT_FOUND then Ret (-10, txStatus)
                    else if prev_header_str = [] then Ret (-11, txStatus)
                    else let double_spent = CheckConflict_block (he_addr he) (se_sort env) block [] in
                      if double_spent \<noteq> [] then
                        Ret (-12, txStatus @ map (\<lambda>tx. \<lparr>ts_txHash = tx_hash tx, ts_status = SingleBlock\<rparr>) double_spent)
                      else if se_verify_flowed env block isVerify db \<noteq> 0 then Ret (-13, txStatus)
                      else Ret (0, txStatus))))))"

end
