(* ===== verification/BlockProcess.thy ===== *)
theory BlockProcess
  imports BlockSave
begin

text \<open>
  One run of the timer that empties the queues (\<open>BlockHelper::Process\<close>): the rollbacks first, then
  the blocks of the fast synchronization, those found for missing outputs, those of the
  synchronization, the broadcast ones, and those that failed a moment ago; at the end the queues are
  cleared. \<open>helper_op\<close> and \<open>helper_step\<close> are the calls the rest of the program makes.
\<close>

subsection \<open>Rollbacks\<close>

definition contract_addresses :: "helper_env \<Rightarrow> CBlock \<Rightarrow> cxx_string set" where
  "contract_addresses env block =
     (if he_is_contract env block
      then he_contract_pre env block \<union> set (filter (\<lambda>a. a \<noteq> []) (map (he_contract_addr env) (bl_txs block))) else {})"

text \<open>The contract addresses up to each transaction, an empty one included, are compared with the set.\<close>

fun touches :: "helper_env \<Rightarrow> cxx_string set \<Rightarrow> cxx_string set \<Rightarrow> CTransaction list \<Rightarrow> bool" where
  "touches env addrMap keys [] = False"
| "touches env addrMap keys (tx # txs) =
     (let keys = insert (he_contract_addr env tx) keys in keys \<inter> addrMap \<noteq> {} \<or> touches env addrMap keys txs)"

text \<open>A stored block that cannot be parsed is read as an empty one.\<close>

definition rollback_also ::
    "helper_env \<Rightarrow> reader \<Rightarrow> cxx_string set \<Rightarrow> cxx_string set \<Rightarrow> block_map \<Rightarrow> cxx_string \<Rightarrow> (int + block_map) run" where
  "rollback_also env rd hashes addrMap m blockHash =
     bind_run (getBlockByBlockHash rd blockHash []) (\<lambda>(ret, blockStr).
       if ret \<noteq> DB_SUCCESS then Ret (Inl (-3))
       else let block = (case he_parse env blockStr of None \<Rightarrow> CBlock_new | Some b \<Rightarrow> b) in
         if bl_hash block \<in> hashes then Ret (Inr m)
         else if he_is_contract env block \<and> touches env addrMap (he_contract_pre env block) (bl_txs block)
         then Ret (Inr (addBlockToMap block m))
         else Ret (Inr m))"

text \<open>The rolled-back contract blocks take the later blocks of the same contracts along.\<close>

definition rollbackContractBlock :: "helper_env \<Rightarrow> reader \<Rightarrow> mreader \<Rightarrow> block_helper \<Rightarrow> (int \<times> block_helper) run" where
  "rollbackContractBlock env rd mrd h =
     (let blocks = concat (map snd (rev (rollbackBlocks h)));
          hashes = bl_hash ` set blocks; addrMap = \<Union> (contract_addresses env ` set blocks) in
      bind_run (getBlockTop rd 0) (\<lambda>(status, nodeSelfHeight).
        if status \<noteq> DB_SUCCESS then Ret (-1, h)
        else case rollbackBlocks h of
          [] \<Rightarrow> Undefined
        | (beginHeight, _) # _ \<Rightarrow>
            bind_run (getBlockHashesByBlockHeight mrd beginHeight nodeSelfHeight []) (\<lambda>(ret, block_hashes).
              if ret \<noteq> DB_SUCCESS then Ret (-2, h)
              else bind_run (loop_run (rollback_also env rd hashes addrMap) (rollbackBlocks h) block_hashes) (\<lambda>r.
                Ret (case r of Inl code \<Rightarrow> (code, h) | Inr m \<Rightarrow> (0, h\<lparr>rollbackBlocks := m\<rparr>))))))"

fun rollback_each ::
    "helper_env \<Rightarrow> helper_io \<Rightarrow> reader \<Rightarrow> mreader \<Rightarrow> CBlock list \<Rightarrow> block_helper \<Rightarrow> (int \<times> block_helper) run" where
  "rollback_each env io rd mrd [] h = Ret (0, h)"
| "rollback_each env io rd mrd (b # bs) h =
     bind_run (RollbackBlock env io rd mrd (bl_hash b) (bl_height b) h) (\<lambda>(ret, h).
       if ret \<noteq> 0 then Ret (-1, h) else rollback_each env io rd mrd bs h)"

definition RollbackBlocks :: "helper_env \<Rightarrow> helper_io \<Rightarrow> reader \<Rightarrow> mreader \<Rightarrow> block_helper \<Rightarrow> (int \<times> block_helper) run" where
  "RollbackBlocks env io rd mrd h =
     (if rollbackBlocks h = [] then Ret (0, h)
      else bind_run (rollbackContractBlock env rd mrd h) (\<lambda>(ret, h).
        if ret \<noteq> 0 then Ret (-1, h)
        else rollback_each env io rd mrd (concat (map snd (rev (rollbackBlocks h)))) h))"

definition RollbackTimeout :: u64 where "RollbackTimeout = 15 * 1000000"

text \<open>
  Blocks younger than the timeout are taken out of the rollbacks, and a height that loses its last
  block this way is removed.
\<close>

definition overdue :: "u64 \<Rightarrow> CBlock \<Rightarrow> bool" where
  "overdue nowTime block \<longleftrightarrow> \<not> nowTime \<le> RollbackTimeout + bl_time block"

definition drop_young :: "u64 \<Rightarrow> block_map \<Rightarrow> block_map" where
  "drop_young nowTime m =
     concat (map (\<lambda>(height, bs). let kept = filter (overdue nowTime) bs in
       if kept = [] \<and> bs \<noteq> [] then [] else [(height, kept)]) m)"

subsection \<open>Saving the queues\<close>

definition on_helper :: "(block_helper \<Rightarrow> block_helper) \<Rightarrow> 't save_state \<Rightarrow> 't save_state" where
  "on_helper f s = s\<lparr>ss_helper := f (ss_helper s)\<rparr>"

text \<open>\<open>True\<close> when \<open>Process\<close> returns.\<close>

fun save_fast :: "'t save_env \<Rightarrow> helper_io \<Rightarrow> nat \<Rightarrow> u64 \<Rightarrow> CBlock list \<Rightarrow> 't save_state \<Rightarrow> (bool \<times> 't save_state) run" where
  "save_fast env io fuel nodeHeight [] s = Ret (False, s)"
| "save_fast env io fuel nodeHeight (block # bs) s =
     bind_run (SaveBlock env io fuel block (g_syncType (ss_helper s))
                 (if bl_height block + 1 = nodeHeight then processByPreHash else Normal) s) (\<lambda>(result, s).
       if result = -2 then Ret (True, on_helper (with_effect (SetNewSyncHeight (bl_height block - 1))) s)
       else if result \<noteq> 0 then Ret (False, s)
       else save_fast env io fuel nodeHeight bs s)"

text \<open>The blocks found for missing outputs; the queue is emptied whether they could be saved or not.\<close>

fun save_found :: "'t save_env \<Rightarrow> helper_io \<Rightarrow> nat \<Rightarrow> CBlock list \<Rightarrow> 't save_state \<Rightarrow> 't save_state run" where
  "save_found env io fuel [] s = Ret s"
| "save_found env io fuel (block # bs) s =
     bind_run (SaveBlock env io fuel block (g_syncType (ss_helper s)) ByUtxo s) (\<lambda>(result, s).
       if result \<noteq> 0 then
         Ret (if MAX_MISSING_BLOCK_SIZE < length (utxoMissingBlocks (ss_helper s))
              then on_helper (\<lambda>h. h\<lparr>utxoMissingBlocks := []\<rparr>) s else s)
       else save_found env io fuel bs s)"

fun save_synced :: "'t save_env \<Rightarrow> helper_io \<Rightarrow> nat \<Rightarrow> CBlock list \<Rightarrow> 't save_state \<Rightarrow> (bool \<times> 't save_state) run" where
  "save_synced env io fuel [] s = Ret (False, s)"
| "save_synced env io fuel (block # bs) s =
     (if \<not> stopBlocking (ss_helper s) then Ret (True, s)
      else bind_run (SaveBlock env io fuel block (g_syncType (ss_helper s)) Normal s) (\<lambda>(result, s).
        if result \<noteq> 0 then Ret (False, s) else save_synced env io fuel bs s))"

definition save_broadcast :: "'t save_env \<Rightarrow> helper_io \<Rightarrow> nat \<Rightarrow> 't save_state \<Rightarrow> CBlock \<Rightarrow> 't save_state run" where
  "save_broadcast env io fuel s block =
     bind_run (getBlockByBlockHash (db_reader env (ss_db s)) (bl_hash block) []) (\<lambda>(ret, _).
       if ret = DB_SUCCESS then Ret s
       else bind_run (SaveBlock env io fuel block Broadcast Normal s) (\<lambda>r. Ret (snd r)))"

text \<open>
  The loop over a map that may grow while it runs: the entry after \<open>cursor\<close> is taken from the
  present map. The result has the keys to remove.
\<close>

fun save_hash_pending ::
    "'t save_env \<Rightarrow> helper_io \<Rightarrow> nat \<Rightarrow> nat \<Rightarrow> cxx_string option \<Rightarrow> cxx_string list \<Rightarrow> 't save_state \<Rightarrow>
     (cxx_string list \<times> 't save_state) run" where
  "save_hash_pending env io fuel 0 cursor remove s = Diverge"
| "save_hash_pending env io fuel (Suc n) cursor remove s =
     (case find (\<lambda>e. case cursor of None \<Rightarrow> True | Some k \<Rightarrow> k < fst e) (hashPendingBlocks (ss_helper s)) of
        None \<Rightarrow> Ret (remove, s)
      | Some (k, time, block) \<Rightarrow>
          if 3 * 1000000 < hi_now io - time then save_hash_pending env io fuel n (Some k) (remove @ [k]) s
          else bind_run (SaveBlock env io fuel block Broadcast ByUtxo s) (\<lambda>(result, s).
            save_hash_pending env io fuel n (Some k) (if result = 0 then remove @ [k] else remove) s))"

definition save_late :: "'t save_env \<Rightarrow> helper_io \<Rightarrow> nat \<Rightarrow> 't save_state \<Rightarrow> 't save_state run" where
  "save_late env io fuel s =
     bind_run (each_run (save_broadcast env io fuel) s (broadcastBlocks (ss_helper s))) (\<lambda>s.
     bind_run (save_hash_pending env io fuel fuel None [] s) (\<lambda>(remove, s).
       Ret (on_helper (\<lambda>h. h\<lparr>hashPendingBlocks := filter (\<lambda>e. fst e \<notin> set remove) (hashPendingBlocks h)\<rparr>) s)))"

definition save_queues :: "'t save_env \<Rightarrow> helper_io \<Rightarrow> nat \<Rightarrow> u64 \<Rightarrow> 't save_state \<Rightarrow> 't save_state run" where
  "save_queues env io fuel nodeHeight s =
     bind_run (save_fast env io fuel nodeHeight (fastSyncBlocks (ss_helper s)) s) (\<lambda>(returned, s).
       if returned then Ret s
       else bind_run (save_found env io fuel (utxoMissingBlocks (ss_helper s)) s) (\<lambda>s.
         let s = on_helper (\<lambda>h. h\<lparr>utxoMissingBlocks := []\<rparr>) s in
         bind_run (save_synced env io fuel (syncBlocks (ss_helper s)) s) (\<lambda>(returned, s).
           if returned then Ret s else save_late env io fuel s)))"

definition process_queues :: "'t save_env \<Rightarrow> helper_io \<Rightarrow> nat \<Rightarrow> u64 \<Rightarrow> 't save_state \<Rightarrow> 't save_state run" where
  "process_queues env io fuel nodeHeight s =
     (let he = se_helper env; rd = db_reader env (ss_db s); mrd = db_mreader env (ss_db s);
          h = (ss_helper s)\<lparr>rollbackBlocks := drop_young (hi_now io) (rollbackBlocks (ss_helper s))\<rparr> in
      bind_run (RollbackBlocks he io rd mrd h) (\<lambda>(result, h).
        let s = s\<lparr>ss_helper := h\<rparr> in
        if result \<noteq> 0 then Ret s
        else bind_run (getChainHeight (he_chain he) rd (hi_nodes io)) (\<lambda>ch. case ch of
          None \<Rightarrow> Ret s
        | Some chainHeight \<Rightarrow> save_queues env io fuel nodeHeight s)))"

subsection \<open>The end of a run\<close>

definition clear_queues :: "u64 \<Rightarrow> u64 \<Rightarrow> block_helper \<Rightarrow> block_helper" where
  "clear_queues nowTime newTop h =
     h\<lparr>fastSyncBlocks := [],
       pendingBlocks := filter (\<lambda>e. \<not> fst e + 20 \<le> newTop) (pendingBlocks h),
       rollbackBlocks := [], syncBlocks := [], broadcastBlocks := [],
       doubleSpendBlocks := filter (\<lambda>e. \<not> bl_time (snd e) + 30 * 1000000 \<le> nowTime) (doubleSpendBlocks h),
       duplicateChecker := filter (\<lambda>e. \<not> snd (snd e) + 60 * 1000000 \<le> nowTime) (duplicateChecker h),
       contractBlocks := filter (\<lambda>e. \<not> (bl_height (snd (snd e)) + 10 \<le> newTop
                                        \<or> bl_time (snd (snd e)) + 30 * 1000000 \<le> nowTime)) (contractBlocks h)\<rparr>"

definition scope_exit :: "'t save_env \<Rightarrow> helper_io \<Rightarrow> u64 \<Rightarrow> 't save_state \<Rightarrow> 't save_state run" where
  "scope_exit env io nodeHeight s =
     bind_run (getBlockTop (db_reader env (ss_db s)) 0) (\<lambda>(ret, newTop).
       let h = (ss_helper s)\<lparr>processing := False\<rparr>;
           h = (if ret = DB_SUCCESS \<and> nodeHeight \<noteq> newTop then with_effect NotifyHeightChange h else h)
       in Ret (s\<lparr>ss_helper := clear_queues (hi_now io) newTop h\<rparr>))"

text \<open>
  \<open>processing\<close> is the static flag; the guard that resets it is set up only after the height was read.
\<close>

definition Process :: "'t save_env \<Rightarrow> helper_io \<Rightarrow> nat \<Rightarrow> 't save_state \<Rightarrow> 't save_state run" where
  "Process env io fuel s =
     (if processing (ss_helper s) then Ret s
      else if helperMutex (ss_helper s) then Undefined
      else let s = on_helper (\<lambda>h. h\<lparr>processing := True, helperMutex := True\<rparr>) s;
               unlock = on_helper (\<lambda>h. h\<lparr>helperMutex := False\<rparr>) in
        bind_run (getBlockTop (db_reader env (ss_db s)) 0) (\<lambda>(ret, nodeHeight).
          if ret \<noteq> DB_SUCCESS then Ret (unlock s)
          else bind_run (process_queues env io fuel nodeHeight s) (\<lambda>s.
               bind_run (scope_exit env io nodeHeight s) (\<lambda>s. Ret (unlock s)))))"

subsection \<open>The calls of the rest of the program\<close>

datatype helper_op =
    OpAddBroadcastBlock CBlock bool
  | OpReceive helper_call
  | OpAddMissingBlock CBlock
  | OpAddSeekBlock "(CBlock \<times> cxx_string) list"
  | OpSeekBlockThread
  | OpPopMissUtxo
  | OpStopSaveBlock
  | OpProcess

text \<open>Each call with what it meets; other components change the database in between.\<close>

definition helper_run :: "(block_helper \<Rightarrow> block_helper run) \<Rightarrow> 't save_state \<Rightarrow> 't save_state run" where
  "helper_run f s = bind_run (f (ss_helper s)) (\<lambda>h. Ret (s\<lparr>ss_helper := h\<rparr>))"

fun helper_call_op :: "'t save_env \<Rightarrow> helper_io \<Rightarrow> nat \<Rightarrow> helper_op \<Rightarrow> 't save_state \<Rightarrow> 't save_state run" where
  "helper_call_op env io fuel (OpAddBroadcastBlock block status) s = helper_run
     (AddBroadcastBlock (se_helper env) io (db_reader env (ss_db s)) (db_mreader env (ss_db s)) block status) s"
| "helper_call_op env io fuel (OpReceive c) s = helper_run (\<lambda>h. receive_call h c) s"
| "helper_call_op env io fuel (OpAddMissingBlock block) s = helper_run (AddMissingBlock block) s"
| "helper_call_op env io fuel (OpAddSeekBlock bs) s = helper_run (add_seek_block (hi_now io) bs) s"
| "helper_call_op env io fuel OpSeekBlockThread s = helper_run
     (\<lambda>h. bind_run (SeekBlockThreadObject (db_reader env (ss_db s)) (hi_now io) h) (\<lambda>r. Ret (snd r))) s"
| "helper_call_op env io fuel OpPopMissUtxo s = helper_run popMissUtxo s"
| "helper_call_op env io fuel OpStopSaveBlock s = Ret (on_helper stopSaveBlock s)"
| "helper_call_op env io fuel OpProcess s = Process env io fuel s"

inductive helper_step :: "'t save_env \<Rightarrow> 't save_state \<Rightarrow> 't save_state \<Rightarrow> bool" for env :: "'t save_env" where
  call: "helper_call_op env io fuel op s = Ret s' \<Longrightarrow> helper_step env s s'"
| database: "helper_step env s (s\<lparr>ss_db := db\<rparr>)"

inductive helper_reachable :: "'t save_env \<Rightarrow> 't save_state \<Rightarrow> bool" for env :: "'t save_env" where
  init: "helper_reachable env \<lparr>ss_helper = BlockHelper_new, ss_db = db\<rparr>"
| step: "helper_reachable env s \<Longrightarrow> helper_step env s s' \<Longrightarrow> helper_reachable env s'"

inductive_cases helper_stepE: "helper_step env s s'"

subsection \<open>The blocks seen lately\<close>

text \<open>\<open>BlockManager\<close>: hashes with the time they were added, on the steady clock in nanoseconds.\<close>

type_synonym block_manager = "cxx_string \<Rightarrow> int option"

definition addBlock :: "int \<Rightarrow> cxx_string \<Rightarrow> block_manager \<Rightarrow> bool \<times> block_manager" where
  "addBlock now blockHash m = (if m blockHash = None then (True, m(blockHash \<mapsto> now)) else (False, m))"

definition hasBlock :: "block_manager \<Rightarrow> cxx_string \<Rightarrow> bool" where
  "hasBlock m blockHash \<longleftrightarrow> m blockHash \<noteq> None"

definition remove_expired_blocks :: "int \<Rightarrow> int \<Rightarrow> block_manager \<Rightarrow> block_manager" where
  "remove_expired_blocks now timeout m =
     (\<lambda>h. case m h of None \<Rightarrow> None | Some t \<Rightarrow> if timeout < now - t then None else Some t)"

end
