(* ===== verification/BlockProps.thy ===== *)
theory BlockProps
  imports BlockProcess
begin

text \<open>
  The invariant of the block queues (\<open>helper_ok\<close>) and what saving a block leaves as it was
  (\<open>keeps\<close>). Everything that saves blocks runs with \<open>helperMutex\<close> held; there a rollback either fails
  or locks the mutex again.
\<close>

subsection \<open>The invariant\<close>

definition pending_ok :: "(u64, (cxx_string \<times> CBlock) list) std_map \<Rightarrow> bool" where
  "pending_ok p \<longleftrightarrow> ordered_map p \<and> length p \<le> 1000 \<and>
     (\<forall>(height, m)\<in>set p. \<forall>(k, b)\<in>set m. bl_height b = height \<and> bl_prevHash b = k)"

definition registered :: "(cxx_string, bool \<times> u64) std_map \<Rightarrow> CBlock list \<Rightarrow> bool" where
  "registered dup bs \<longleftrightarrow> (\<forall>b\<in>set bs. map_of dup (bl_hash b) \<noteq> None)"

definition helper_ok :: "block_helper \<Rightarrow> bool" where
  "helper_ok h \<longleftrightarrow>
     pending_ok (pendingBlocks h) \<and> length (contractBlocks h) \<le> 1000 \<and> length (missingUtxos h) \<le> 10 \<and>
     (\<forall>(k, _, b)\<in>set (hashPendingBlocks h). bl_hash b = k) \<and> (\<forall>e\<in>set (missingBlocks h). mb_triggerCount e \<le> 4) \<and>
     sorted_wrt blockTimeAscending (broadcastBlocks h) \<and> sorted_wrt blockTimeAscending (syncBlocks h) \<and>
     sorted_wrt blockTimeAscending (fastSyncBlocks h) \<and> registered (duplicateChecker h) (broadcastBlocks h)"

text \<open>What saving a block keeps.\<close>

definition keeps :: "block_helper \<Rightarrow> block_helper \<Rightarrow> bool" where
  "keeps h h' \<longleftrightarrow>
     helperMutex h' = helperMutex h \<and> broadcastBlocks h' = broadcastBlocks h \<and> syncBlocks h' = syncBlocks h \<and>
     fastSyncBlocks h' = fastSyncBlocks h \<and> rollbackBlocks h' = rollbackBlocks h \<and> pendingBlocks h' = pendingBlocks h \<and>
     utxoMissingBlocks h' = utxoMissingBlocks h \<and> duplicateChecker h' = duplicateChecker h \<and>
     stopBlocking h' = stopBlocking h \<and> g_syncType h' = g_syncType h \<and> processing h' = processing h \<and>
     (helper_ok h \<longrightarrow> helper_ok h')"

lemma keeps_refl [simp]: "keeps h h"
  by (simp add: keeps_def)

lemma keeps_trans: "keeps h1 h2 \<Longrightarrow> keeps h2 h3 \<Longrightarrow> keeps h1 h3"
  by (simp add: keeps_def)

lemma keeps_ok: "keeps h h' \<Longrightarrow> helper_ok h \<Longrightarrow> helper_ok h'"
  by (simp add: keeps_def)

lemma keeps_mutex: "keeps h h' \<Longrightarrow> helperMutex h' = helperMutex h"
  by (simp add: keeps_def)

subsection \<open>Small steps\<close>

lemma keeps_with_effect [simp]: "keeps h (with_effect e h)"
  by (simp add: keeps_def helper_ok_def with_effect_def)

lemma keeps_reset [simp]: "keeps h (resetMissingPrehash h)"
  by (simp add: keeps_def helper_ok_def resetMissingPrehash_def)

lemma keeps_set_missing [simp]: "keeps h (set_missing_prehash h)"
  by (simp add: keeps_def helper_ok_def set_missing_prehash_def)

lemma keeps_push [simp]: "keeps h (pushMissUtxo utxo h)"
  by (simp add: keeps_def helper_ok_def pushMissUtxo_def MAX_MISSING_UXTO_SIZE_def Let_def)

lemma set_missing_insert: "set (missing_insert x xs) \<subseteq> insert x (set xs)"
  using takeWhile_dropWhile_id [of "\<lambda>y. \<not> missing_less x y" xs]
  by (auto simp: missing_insert_def Let_def dest: set_takeWhileD set_dropWhileD)

lemma keeps_missing:
  assumes "xs = missingBlocks h"
  shows "keeps h (h\<lparr>missingBlocks := missing_insert (MissingBlock_new hash time kind) xs\<rparr>)"
proof -
  let ?new = "missing_insert (MissingBlock_new hash time kind) (missingBlocks h)"
  have "\<forall>e\<in>set ?new. mb_triggerCount e \<le> 4" if "\<forall>e\<in>set (missingBlocks h). mb_triggerCount e \<le> 4"
    using that set_missing_insert [of "MissingBlock_new hash time kind" "missingBlocks h"] by (auto simp: MissingBlock_new_def)
  then show ?thesis using assms by (simp add: keeps_def helper_ok_def)
qed

lemma keeps_getMissingBlock [simp]: "keeps h (snd (getMissingBlock h))"
  by (simp add: getMissingBlock_def)

lemma keeps_foldl: "(\<And>h x. keeps h (f h x)) \<Longrightarrow> keeps h (foldl f h xs)"
proof (induction xs arbitrary: h)
  case (Cons x xs)
  then show ?case using keeps_trans [of h "f h x"] by simp
qed simp

lemma keeps_report [simp]: "keeps h (report_missing r h)"
proof -
  let ?h = "if ar_missing_prehash r then set_missing_prehash h else h"
  have "keeps ?h (report_missing r h)" by (simp add: report_missing_def keeps_foldl)
  moreover have "keeps h ?h" by simp
  ultimately show ?thesis using keeps_trans by blast
qed

lemma keeps_hash_pending_add [simp]: "keeps h (hash_pending_add now block h)"
  using set_assign_subset [of "bl_hash block" "(now, block)" "hashPendingBlocks h"]
  by (fastforce simp: hash_pending_add_def keeps_def helper_ok_def split: option.splits)

lemma keeps_note_double_spend [simp]: "keeps h (note_double_spend block h)"
  by (simp add: note_double_spend_def keeps_def helper_ok_def)

lemma keeps_status_effect: "ensures (status_effect env b1 b2 h) (keeps h)"
  by (auto simp: status_effect_def ensures_def run_simps split: option.splits)

lemma keeps_blooming: "ensures (checkDoubleBlooming env type other block h) (keeps h)"
  by (auto simp: checkDoubleBlooming_def keeps_status_effect split: option.splits bool.splits)

subsection \<open>Rollbacks under the lock\<close>

text \<open>Under the lock a rollback only returns when it failed, and then it changed nothing.\<close>

lemma RollbackBlock_locked:
  "helperMutex h \<Longrightarrow> ensures (RollbackBlock env io rd mrd hash height h) (\<lambda>(ret, h'). ret \<noteq> 0 \<and> h' = h)"
  by (auto simp: RollbackBlock_def rollback_block_def locked_def ensures_def run_simps Let_def split: option.splits if_splits prod.splits)

lemma ensures_locked:
  "ensures (act (h\<lparr>helperMutex := True\<rparr>)) (\<lambda>h'. Q (h'\<lparr>helperMutex := False\<rparr>)) \<Longrightarrow> ensures (locked act h) Q"
  by (auto simp: locked_def)

lemma RollbackBlock_keeps:
  "helperMutex h \<Longrightarrow> ensures (RollbackBlock env io rd mrd hash height h) (\<lambda>(ret, h'). keeps h h')"
  by (rule ensures_mono [OF RollbackBlock_locked]) auto

lemma dealDoubleSpend_keeps:
  assumes "helperMutex h"
  shows "ensures (dealDoubleSpend env io rd mrd block tx missingUtxo h) (\<lambda>(type, h'). keeps h h' \<and> type \<noteq> previousDoubleSpend)"
proof -
  have roll: "ensures (bind_run (RollbackBlock env io rd mrd hash height h) (\<lambda>(ret, h).
      if ret \<noteq> 0 then Ret (err_double_spend, h)
      else bind_run (checkDoubleBlooming env previousDoubleSpend PBlock block h) (\<lambda>h. Ret (previousDoubleSpend, h))))
      (\<lambda>(type, h'). keeps h h' \<and> type \<noteq> previousDoubleSpend)" for hash height PBlock
    unfolding ensures_simps by (rule ensures_mono [OF RollbackBlock_locked [OF assms]]) auto
  have bloom: "ensures (bind_run (checkDoubleBlooming env isDoubleSpend PBlock block (note_double_spend block h)) (\<lambda>h. Ret (isDoubleSpend, h)))
      (\<lambda>(type, h'). keeps h h' \<and> type \<noteq> previousDoubleSpend)" for PBlock
    unfolding ensures_simps
    by (rule ensures_mono [OF keeps_blooming]) (auto intro: keeps_trans [OF keeps_note_double_spend])
  show ?thesis
    unfolding dealDoubleSpend_def Let_def
    by (auto simp: roll bloom simp del: ensures_simps(6) split: option.splits intro!: ensures_bind)
qed

lemma presave_txs_keeps:
  "helperMutex h \<Longrightarrow> ensures (presave_txs env io db block txs h) (\<lambda>(ret, h'). keeps h h')"
proof (induction txs arbitrary: h)
  case (Cons tx txs)
  have IH: "ensures (presave_txs env io db block txs h) (\<lambda>(ret, h'). keeps h h')"
    by (rule Cons.IH) (rule Cons.prems)
  have deal: "ensures (bind_run (dealDoubleSpend (se_helper env) io (db_reader env db) (db_mreader env db) block tx missingUtxo h) (\<lambda>(type, h).
      if type = isDoubleSpend then Ret (-7, h)
      else if type = previousDoubleSpend then presave_txs env io db block txs h
      else if type = isInvalidDoubleSpend then Ret (-8, h) else Ret (-9, h))) (\<lambda>(ret, h'). keeps h h')" for missingUtxo
    unfolding ensures_simps by (rule ensures_mono [OF dealDoubleSpend_keeps [OF Cons.prems]]) auto
  have m: "keeps h (hash_pending_add now b (h\<lparr>missingBlocks := missing_insert (MissingBlock_new x t True) (missingBlocks h)\<rparr>))" for now b x t
    by (rule keeps_trans [OF keeps_missing [OF refl] keeps_hash_pending_add])
  show ?case
    unfolding presave_txs.simps
    by (auto simp: IH deal m simp del: ensures_simps(6) split: prod.splits intro!: ensures_bind)
qed simp

lemma PreSaveProcess_keeps:
  assumes "helperMutex h"
  shows "ensures (PreSaveProcess env io db block saveType mean h) (\<lambda>(ret, h'). keeps h h')"
proof -
  have r: "keeps h (report_missing r (resetMissingPrehash h))" for r
    by (rule keeps_trans [OF keeps_reset keeps_report])
  have a: "keeps h (with_effect e (resetMissingPrehash (report_missing r (resetMissingPrehash h))))" for e r
    using r keeps_trans [OF keeps_reset keeps_with_effect] keeps_trans by blast
  have b: "keeps h (snd (getMissingBlock (report_missing r (resetMissingPrehash h))))" for r
    by (rule keeps_trans [OF r keeps_getMissingBlock])
  show ?thesis
    unfolding PreSaveProcess_def
    by (cases saveType) (auto simp: Let_def r a b presave_txs_keeps assms simp del: ensures_simps(6) intro!: ensures_bind)
qed

subsection \<open>Saving\<close>

lemma each_same: "(\<And>x. x \<in> set xs \<Longrightarrow> ensures (f s x) (\<lambda>s'. s' = s)) \<Longrightarrow> ensures (each_run f s xs) (\<lambda>s'. s' = s)"
  by (rule ensures_each) auto

text \<open>Cancelling a membership rolls nothing back under the lock.\<close>

lemma cancellation_same:
  assumes "helperMutex h"
  shows "ensures (processPostMembershipCancellation env io db block h) (\<lambda>h'. h' = h)"
proof -
  have "ensures (bind_run (RollbackBlock he io rd mrd hash height h) (\<lambda>r. Ret (snd r))) (\<lambda>h'. h' = h)" for he rd mrd hash height
    by (rule ensures_bind2 [OF RollbackBlock_locked [OF assms]]) auto
  then have "ensures (cancel_height_block env io db' block tx h b) (\<lambda>h'. h' = h)" for db' tx b
    unfolding cancel_height_block_def by (auto simp del: ensures_simps(6) intro!: each_same)
  then show ?thesis
    unfolding processPostMembershipCancellation_def Let_def
    by (auto simp del: ensures_simps(6) intro!: each_same ensures_bind)
qed

text \<open>The blocks that wait for a contract transaction are never looked at.\<close>

lemma follow_contracts_dead: "follow_contracts save env io txs s = Ret (False, s)"
  by (cases txs) (auto simp: TX_TYPE_INVOKE_CONTRACT_def kTransactionTypeDeploy_def)

definition ss_keeps :: "'t save_state \<Rightarrow> 't save_state \<Rightarrow> bool" where
  "ss_keeps s s' \<longleftrightarrow> keeps (ss_helper s) (ss_helper s')"

lemma ss_keeps_refl [simp]: "ss_keeps s s"
  by (simp add: ss_keeps_def)

lemma ss_keeps_trans: "ss_keeps s1 s2 \<Longrightarrow> ss_keeps s2 s3 \<Longrightarrow> ss_keeps s1 s3"
  unfolding ss_keeps_def by (rule keeps_trans)

lemma ss_keeps_mutex: "ss_keeps s s' \<Longrightarrow> helperMutex (ss_helper s') = helperMutex (ss_helper s)"
  unfolding ss_keeps_def by (rule keeps_mutex)

lemma PostSaveProcess_keeps:
  assumes save: "\<And>s b. helperMutex (ss_helper s) \<Longrightarrow> ensures (save s b) (ss_keeps s)"
    and h: "helperMutex (ss_helper s)"
  shows "ensures (PostSaveProcess save env io block s) (ss_keeps s)"
proof -
  let ?s = "s\<lparr>ss_helper := with_effect (PostTransactionTask block) (ss_helper s)\<rparr>"
  have k: "ss_keeps s ?s" by (simp add: ss_keeps_def)
  have e: "ensures (each_run save ?s bs) (ss_keeps s)" for bs
  proof (rule ensures_each [where I = "ss_keeps s"])
    fix s1 b
    assume s1: "ss_keeps s s1"
    then have "helperMutex (ss_helper s1)" using ss_keeps_mutex h by metis
    then show "ensures (save s1 b) (ss_keeps s)" by (rule ensures_mono [OF save]) (rule ss_keeps_trans [OF s1])
  qed (rule k)
  have c: "ensures (bind_run (processPostMembershipCancellation env io (ss_db s1) block (ss_helper s1)) (\<lambda>h. Ret (s1\<lparr>ss_helper := h\<rparr>)))
      (ss_keeps s)" if "ss_keeps s s1" for s1
    by (rule ensures_bind2 [OF cancellation_same]) (use that h ss_keeps_mutex [OF that] in auto)
  show ?thesis
    unfolding PostSaveProcess_def Let_def
    by (rule ensures_bind2 [OF e]) (simp add: follow_contracts_dead c del: ensures_simps(6))
qed

lemma keeps_block_committed: "keeps h (block_committed block h)"
proof -
  have "length (filter P (contractBlocks h)) \<le> 1000" if "length (contractBlocks h) \<le> 1000" for P
    using that by (rule order_trans [OF length_filter_le])
  then show ?thesis by (simp add: block_committed_def keeps_def helper_ok_def with_effect_def)
qed

lemma save_failed_keeps: "save_failed block saveType h = (code, h') \<Longrightarrow> keeps h h' \<and> code \<in> {-6, -7, -8}"
proof -
  let ?h = "if saveType = SyncNormal \<or> saveType = SyncFromZero then with_effect (SetNewSyncHeight (bl_height block)) h else h"
  have k: "keeps h ?h" by simp
  have "keeps h (with_effect e (resetMissingPrehash ?h))" for e
    by (rule keeps_trans [OF k keeps_trans [OF keeps_reset keeps_with_effect]])
  moreover have "keeps h (snd (getMissingBlock ?h))" by (rule keeps_trans [OF k keeps_getMissingBlock])
  moreover assume "save_failed block saveType h = (code, h')"
  ultimately show ?thesis using k unfolding save_failed_def Let_def by (auto split: if_splits)
qed

definition save_codes :: "int set" where "save_codes = {0, -3, -4, -5, -6, -7, -8, -9}"

lemma SaveBlock_keeps:
  "helperMutex (ss_helper s) \<Longrightarrow>
   ensures (SaveBlock env io fuel block saveType mean s) (\<lambda>r. ss_keeps s (snd r) \<and> fst r \<in> save_codes)"
proof (induction fuel arbitrary: block saveType mean s)
  case (Suc fuel)
  let ?save = "\<lambda>s b. bind_run (SaveBlock env io fuel b Broadcast processByPreHash s) (\<lambda>r. Ret (snd r))"
  have save: "ensures (?save s b) (ss_keeps s)" if "helperMutex (ss_helper s)" for s b
    by (rule ensures_bind2 [OF Suc.IH [OF that]]) auto
  let ?Q = "\<lambda>r. ss_keeps s (snd r) \<and> fst r \<in> save_codes"
  have done_ok: "ensures (bind_run (PostSaveProcess ?save env io block (s\<lparr>ss_helper := block_committed block h, ss_db := db\<rparr>))
      (\<lambda>s. Ret (0, s))) ?Q" if "keeps (ss_helper s) h" for h db
  proof -
    let ?s = "s\<lparr>ss_helper := block_committed block h, ss_db := db\<rparr>"
    have k: "ss_keeps s ?s" using keeps_trans [OF that keeps_block_committed] by (simp add: ss_keeps_def)
    have m: "helperMutex (ss_helper ?s)" using ss_keeps_mutex [OF k] Suc.prems by simp
    show ?thesis
      by (rule ensures_bind2 [OF PostSaveProcess_keeps [of ?save, OF save m]])
        (use ss_keeps_trans [OF k] in \<open>auto simp: save_codes_def\<close>)
  qed
  have pre: "ensures (PreSaveProcess env io db block saveType mean (ss_helper s)) (\<lambda>(ret, h'). keeps (ss_helper s) h')" for db
    by (rule PreSaveProcess_keeps [OF Suc.prems])
  have rep: "keeps (ss_helper s) (report_missing r (resetMissingPrehash h))" if "keeps (ss_helper s) h" for h r
    by (rule keeps_trans [OF that keeps_trans [OF keeps_reset keeps_report]])
  have fail: "keeps (ss_helper s) h' \<and> code \<in> save_codes"
    if "save_failed block saveType (report_missing r (resetMissingPrehash h)) = (code, h')" "keeps (ss_helper s) h" for r h code h'
    using save_failed_keeps [OF that(1)] keeps_trans [OF rep [OF that(2)]] by (auto simp: save_codes_def)
  have codes: "0 \<in> save_codes" "-3 \<in> save_codes" "-4 \<in> save_codes" "-5 \<in> save_codes" "-9 \<in> save_codes"
    by (simp_all add: save_codes_def)
  show ?case
    unfolding SaveBlock.simps Let_def
    by (auto simp del: ensures_simps(6) simp: ss_keeps_def codes rep
        split: prod.splits intro!: done_ok [unfolded ss_keeps_def] ensures_bind2 [OF pre] ensures_bind [where m = "getBlockTop rd n" for rd n]
        ensures_bind [where m = "getBlockByBlockHash rd k n" for rd k n]) (rule fail [THEN conjunct1] fail [THEN conjunct2], assumption, assumption)+
qed (simp add: SaveBlock.simps)

subsection \<open>The calls keep the invariant\<close>

lemma sorted_set_insert:
  assumes "transp cmp"
  shows "sorted_wrt cmp ys \<Longrightarrow> sorted_wrt cmp (set_insert cmp x ys)"
  using set_insert_subset [of cmp x] assms
  by (induction cmp x ys rule: set_insert.induct) (fastforce elim: transpE)+

lemma transp_blockTimeAscending: "transp blockTimeAscending"
  by (auto simp: transp_def blockTimeAscending_def word_sless_alt split: if_splits)

lemma sorted_insert_all: "sorted_wrt blockTimeAscending q \<Longrightarrow> sorted_wrt blockTimeAscending (insert_all m q)"
proof -
  have "sorted_wrt blockTimeAscending q \<Longrightarrow>
      sorted_wrt blockTimeAscending (foldl (\<lambda>q block. set_insert blockTimeAscending block q) q bs)" for bs
    by (induction bs arbitrary: q) (simp_all add: sorted_set_insert transp_blockTimeAscending)
  then show "sorted_wrt blockTimeAscending q \<Longrightarrow> ?thesis" by (simp add: insert_all_def)
qed

lemma length_map_assign: "length (map_assign k v m) \<le> Suc (length m)"
  by (induction k v m rule: map_assign.induct) auto

lemma set_multimap_insert: "set (multimap_insert k v m) = insert (k, v) (set m)"
  by (induction k v m rule: multimap_insert.induct) auto

text \<open>States of a running call, with the hashes seen so far and the flag of \<open>Process\<close>.\<close>

definition busy :: "(cxx_string, bool \<times> u64) std_map \<times> bool \<Rightarrow> block_helper \<Rightarrow> bool" where
  "busy dup h \<longleftrightarrow> helper_ok h \<and> helperMutex h \<and> (duplicateChecker h, processing h) = dup"

lemma busy_keeps: "busy dup h \<Longrightarrow> keeps h h' \<Longrightarrow> busy dup h'"
  by (simp add: busy_def keeps_def)

lemma pending_ok_add:
  assumes p: "pending_ok p" and n: "length p < 1000"
    and w: "waiting = (case map_of p (bl_height block) of None \<Rightarrow> [] | Some m \<Rightarrow> m)"
  shows "pending_ok (map_assign (bl_height block) (multimap_insert (bl_prevHash block) block waiting) p)"
proof -
  have o: "ordered_map p" using p by (simp add: pending_ok_def)
  have "\<forall>(k, b)\<in>set waiting. bl_height b = bl_height block \<and> bl_prevHash b = k"
    using p w by (fastforce simp: pending_ok_def dest: map_of_SomeD split: option.splits)
  then have "\<forall>(k, b)\<in>set (multimap_insert (bl_prevHash block) block waiting). bl_height b = bl_height block \<and> bl_prevHash b = k"
    by (simp add: set_multimap_insert)
  moreover have "length (map_assign (bl_height block) m p) \<le> 1000" for m
    using n length_map_assign [of "bl_height block" m p] by linarith
  ultimately show ?thesis using p by (auto simp: pending_ok_def set_ordered_assign [OF o] o)
qed

lemma AddPendingBlock_busy:
  assumes "busy dup h"
  shows "ensures (AddPendingBlock now rd block h) (busy dup)"
proof -
  have "busy dup (h\<lparr>pendingBlocks := map_assign (bl_height block) (multimap_insert (bl_prevHash block) block
      (case map_of (pendingBlocks h) (bl_height block) of None \<Rightarrow> [] | Some m \<Rightarrow> m)) (pendingBlocks h)\<rparr>)"
    if "length (pendingBlocks h) < 1000"
    using assms that pending_ok_add [OF _ that refl, of block] by (auto simp: busy_def helper_ok_def)
  then show ?thesis
    unfolding AddPendingBlock_def Let_def
    by (auto simp: assms busy_keeps [OF _ keeps_missing] simp del: ensures_simps(6) intro!: ensures_bind)
qed

lemma add_contract_block_busy: "busy dup h \<Longrightarrow> busy dup (add_contract_block block addr pre h)"
  using length_map_assign [of pre "(addr, block)" "contractBlocks h"]
  by (auto simp: add_contract_block_def busy_def helper_ok_def)

lemma contract_cache_busy: "busy dup h \<Longrightarrow> busy dup (snd (contractBlockCacheChecker block addr pre h))"
  by (auto simp: contractBlockCacheChecker_def add_contract_block_busy split: option.splits)

lemma ensures_try: "ensures handler Q \<Longrightarrow> (\<And>x. ensures (act x) Q) \<Longrightarrow> ensures (try_run m handler act) Q"
  by (cases m) (auto simp: try_run_def)

lemma ensures_try2:
  "ensures m P \<Longrightarrow> ensures handler Q \<Longrightarrow> (\<And>x. P x \<Longrightarrow> ensures (act x) Q) \<Longrightarrow> ensures (try_run m handler act) Q"
  by (cases m) (auto simp: try_run_def)

lemma check_pairs_busy:
  "busy dup h \<Longrightarrow> ensures (check_pairs env io rd mrd block own ps h) (\<lambda>r. busy dup (snd r))"
proof (induction ps arbitrary: h)
  case (Cons p ps)
  obtain addr pre where p: "p = (addr, pre)" by (cases p)
  note b = Cons.prems
  have IH: "busy dup h' \<Longrightarrow> ensures (check_pairs env io rd mrd block own ps h') (\<lambda>r. busy dup (snd r))" for h'
    by (rule Cons.IH)
  have c: "busy dup h'" if "contractBlockCacheChecker block addr pre h = (ret, h')" for ret h'
    using contract_cache_busy [OF b, of block addr pre] that by simp
  have m: "helperMutex h" using b by (simp add: busy_def)
  have roll: "ensures (RollbackBlock env io rd mrd hash height h) (\<lambda>r. snd r = h)" for hash height
    by (rule ensures_mono [OF RollbackBlock_locked [OF m]]) auto
  show ?case
    unfolding p check_pairs.simps
    by (auto simp: b IH c simp del: ensures_simps(6) split: prod.splits CONTRACT_PRE_HASH_STATUS.splits
        intro!: ensures_try2 [OF roll] ensures_try [where m = "contractPreHashStatus e r a q t" for e r a q t]
          ensures_try [where m = "getBlockHeightByBlockHash r k n" for r k n])
qed simp

lemma check_transactions_busy:
  "busy dup h \<Longrightarrow> ensures (check_transactions env io rd mrd block height own m h) (\<lambda>r. busy dup (snd r))"
proof (induction m arbitrary: h)
  case (Cons e m)
  obtain key pairs where e: "e = (key, pairs)" by (cases e)
  show ?case
    unfolding e check_transactions.simps
    by (rule ensures_bind2 [OF check_pairs_busy [OF Cons.prems]])
      (auto simp: Cons.IH busy_keeps [OF _ keeps_missing] split: prod.splits sum.splits)
qed simp

lemma check_contract_block_busy:
  "busy dup h \<Longrightarrow> ensures (check_contract_block env io rd mrd block h) (\<lambda>r. busy dup (snd r))"
  unfolding check_contract_block_def Let_def
  by (auto simp del: ensures_simps(6) intro!: ensures_bind ensures_try check_transactions_busy)

lemma queue_broadcast_busy:
  assumes b: "busy dup h" and r: "map_of (fst dup) (bl_hash block) \<noteq> None"
  shows "ensures (queue_broadcast io rd height status block h) (busy dup)"
proof -
  have "busy dup (h\<lparr>broadcastBlocks := set_insert blockTimeAscending block (broadcastBlocks h)\<rparr>)"
    using b r set_insert_subset [of blockTimeAscending block "broadcastBlocks h"]
    by (auto simp: busy_def helper_ok_def registered_def sorted_set_insert transp_blockTimeAscending)
  then show ?thesis
    unfolding queue_broadcast_def by (auto simp: b AddPendingBlock_busy simp del: ensures_simps(6))
qed

lemma accept_broadcast_busy:
  assumes b: "busy dup h" and r: "map_of (fst dup) (bl_hash block) \<noteq> None"
  shows "ensures (accept_broadcast env io rd mrd block h) (busy dup)"
proof -
  note q = queue_broadcast_busy [OF _ r]
  have "ensures (bind_run (check_contract_block env io rd mrd block h) (\<lambda>((ret, pre), h).
      if ret < 0 then Ret h else if ret = 0 \<and> pre \<noteq> [] then Ret h else queue_broadcast io rd height status block h)) (busy dup)" for height status
    by (rule ensures_bind2 [OF check_contract_block_busy [OF b]]) (auto intro!: q)
  then show ?thesis
    unfolding accept_broadcast_def by (auto simp: b simp del: ensures_simps(6) intro!: ensures_bind q)
qed

lemma sorted_remove1_wrt: "sorted_wrt cmp xs \<Longrightarrow> sorted_wrt cmp (remove1 x xs)"
  using set_remove1_subset [of x] by (induction xs) auto

lemma resolve_conflict_busy:
  assumes "busy dup h" "resolve_conflict env block status h = (stays, h')"
  shows "busy dup h'"
proof -
  have r: "busy dup (h1\<lparr>broadcastBlocks := remove1 cur (broadcastBlocks h)\<rparr>)"
    if "busy dup h1" "broadcastBlocks h1 = broadcastBlocks h" for h1 cur
    using that set_remove1_subset [of cur "broadcastBlocks h"] sorted_remove1_wrt [of _ "broadcastBlocks h" cur]
    by (auto simp: busy_def helper_ok_def registered_def)
  show ?thesis
    using assms busy_keeps [OF assms(1) keeps_with_effect]
    unfolding resolve_conflict_def
    by (auto split: option.splits if_splits bool.splits intro!: r simp: with_effect_def)
qed

lemma registered_assign: "registered dup bs \<Longrightarrow> registered (map_assign k v dup) bs"
  by (auto simp: registered_def)

lemma helper_ok_mutex [simp]: "helper_ok (h\<lparr>helperMutex := x\<rparr>) = helper_ok h"
  by (simp add: helper_ok_def)

lemma helper_ok_register: "helper_ok h \<Longrightarrow> helper_ok (h\<lparr>duplicateChecker := map_assign k v (duplicateChecker h)\<rparr>)"
  by (simp add: helper_ok_def registered_assign)

text \<open>What every call keeps: the invariant, a free mutex, and the flag of \<open>Process\<close>.\<close>

definition call_ok :: "block_helper \<Rightarrow> block_helper \<Rightarrow> bool" where
  "call_ok h h' \<longleftrightarrow> helper_ok h' \<and> \<not> helperMutex h' \<and> processing h' = processing h"

lemma AddBroadcastBlock_ok:
  assumes "helper_ok h"
  shows "ensures (AddBroadcastBlock env io rd mrd block status h) (call_ok h)"
proof -
  let ?h = "h\<lparr>helperMutex := True\<rparr>"
  let ?dup = "map_assign (bl_hash block) (status, bl_time block) (duplicateChecker ?h)"
  let ?Q = "\<lambda>h'. helper_ok h' \<and> processing h' = processing h"
  have reg: "helper_ok (?h\<lparr>duplicateChecker := ?dup\<rparr>)" by (rule helper_ok_register) (simp add: assms)
  then have b: "busy (?dup, processing h) (?h\<lparr>duplicateChecker := ?dup\<rparr>)" by (simp add: busy_def)
  have acc: "ensures (if \<not> stays then Ret h' else accept_broadcast env io rd mrd block h') ?Q"
    if "busy (?dup, processing h) h'" for stays h'
    using ensures_mono [OF accept_broadcast_busy [OF that]] that by (simp add: busy_def)
  have "ensures (case resolve_conflict env block status (?h\<lparr>duplicateChecker := ?dup\<rparr>) of (stays, h') \<Rightarrow>
      if \<not> stays then Ret h' else accept_broadcast env io rd mrd block h') ?Q"
    by (cases "resolve_conflict env block status (?h\<lparr>duplicateChecker := ?dup\<rparr>)")
      (auto simp only: prod.case intro!: acc resolve_conflict_busy [OF b])
  with reg show ?thesis
    unfolding AddBroadcastBlock_def Let_def
    by (intro ensures_locked) (cases status; simp add: assms call_ok_def)
qed

lemma receive_call_ok: "helper_ok h \<Longrightarrow> ensures (receive_call h c) (call_ok h)"
  by (cases c)
    (auto simp: rollback_block_def AddSyncBlock_def AddFastSyncBlock_def helper_ok_def sorted_insert_all call_ok_def
      intro!: ensures_locked)

lemma AddMissingBlock_ok: "helper_ok h \<Longrightarrow> ensures (AddMissingBlock block h) (call_ok h)"
  by (auto simp: AddMissingBlock_def helper_ok_def call_ok_def intro!: ensures_locked)

lemma add_seek_block_ok:
  assumes "helper_ok h"
  shows "ensures (add_seek_block now bs h) (call_ok h)"
proof -
  have k: "keeps (h\<lparr>helperMutex := True\<rparr>) (foldl (\<lambda>h it. hash_pending_add now (fst it) h) (h\<lparr>helperMutex := True\<rparr>) bs)"
    by (rule keeps_foldl) simp
  then have "helper_ok (foldl (\<lambda>h it. hash_pending_add now (fst it) h) (h\<lparr>helperMutex := True\<rparr>) bs)"
    by (rule keeps_ok) (simp add: assms)
  with k show ?thesis by (auto simp: add_seek_block_def locked_def call_ok_def keeps_def)
qed

lemma popMissUtxo_ok: "helper_ok h \<Longrightarrow> ensures (popMissUtxo h) (call_ok h)"
  by (auto simp: popMissUtxo_def locked_def helper_ok_def call_ok_def)

text \<open>The search thread asks at most four times for an entry.\<close>

lemma seek_scan_bound:
  "\<forall>e\<in>set bs. mb_triggerCount e \<le> 4 \<Longrightarrow>
   ensures (seek_scan rd now bs m) (\<lambda>r. \<forall>e\<in>set (fst r). mb_triggerCount e \<le> 4)"
proof (induction bs arbitrary: m)
  case (Cons b bs)
  have IH: "ensures (seek_scan rd now bs m') (\<lambda>r. \<forall>e\<in>set (fst r). mb_triggerCount e \<le> 4)" for m'
    by (rule Cons.IH) (use Cons.prems in simp)
  have n: "mb_triggerCount b + 1 \<le> 4" if "\<not> 3 < mb_triggerCount b"
    using that by unat_arith
  show ?case unfolding seek_scan.simps
    by (auto simp: IH n Cons.prems simp del: ensures_simps(6) split: prod.splits
        intro!: ensures_bind2 [OF IH] ensures_bind [where m = "seek_found rd b"])
qed simp

lemma SeekBlockThread_ok:
  assumes "helper_ok h" "\<not> helperMutex h"
  shows "ensures (SeekBlockThreadObject rd now h) (\<lambda>r. call_ok h (snd r))"
proof (cases "missingBlocks h = []")
  case False
  have "\<forall>e\<in>set (missingBlocks h). mb_triggerCount e \<le> 4" using assms by (simp add: helper_ok_def)
  then have "helper_ok (h\<lparr>missingBlocks := fst r\<rparr>)" if "\<forall>e\<in>set (fst r). mb_triggerCount e \<le> 4" for r :: "MissingBlock list \<times> (cxx_string, bool) std_map"
    using that assms by (simp add: helper_ok_def)
  with \<open>\<forall>e\<in>set (missingBlocks h). mb_triggerCount e \<le> 4\<close> show ?thesis
    using False assms(2) unfolding SeekBlockThreadObject_def
    by (auto simp: call_ok_def simp del: ensures_simps(6) intro!: ensures_bind2 [OF seek_scan_bound])
qed (use assms in \<open>simp add: SeekBlockThreadObject_def call_ok_def\<close>)

subsection \<open>A run of Process\<close>

lemma save_fast_keeps:
  "helperMutex (ss_helper s) \<Longrightarrow> ensures (save_fast env io fuel nodeHeight bs s) (\<lambda>r. ss_keeps s (snd r) \<and> \<not> fst r)"
proof (induction bs arbitrary: s)
  case (Cons b bs)
  show ?case
    unfolding save_fast.simps
  proof (rule ensures_bind2 [OF SaveBlock_keeps [OF Cons.prems]])
    fix r
    assume r: "ss_keeps s (snd r) \<and> fst r \<in> save_codes"
    have "ensures (save_fast env io fuel nodeHeight bs (snd r)) (\<lambda>r'. ss_keeps (snd r) (snd r') \<and> \<not> fst r')"
      by (rule Cons.IH) (use r Cons.prems ss_keeps_mutex in metis)
    then show "ensures (case r of (result, s) \<Rightarrow>
        if result = -2 then Ret (True, on_helper (with_effect (SetNewSyncHeight (bl_height b - 1))) s)
        else if result \<noteq> 0 then Ret (False, s) else save_fast env io fuel nodeHeight bs s)
        (\<lambda>r. ss_keeps s (snd r) \<and> \<not> fst r)"
      using r by (cases r) (auto simp: save_codes_def intro: ss_keeps_trans elim!: ensures_mono)
  qed
qed simp

lemma save_synced_keeps:
  "helperMutex (ss_helper s) \<Longrightarrow> ensures (save_synced env io fuel bs s) (\<lambda>r. ss_keeps s (snd r))"
proof (induction bs arbitrary: s)
  case (Cons b bs)
  have "ensures (bind_run (SaveBlock env io fuel b (g_syncType (ss_helper s)) Normal s) (\<lambda>(result, s).
        if result \<noteq> 0 then Ret (False, s) else save_synced env io fuel bs s)) (\<lambda>r. ss_keeps s (snd r))"
  proof (rule ensures_bind2 [OF SaveBlock_keeps [OF Cons.prems]])
    fix r
    assume r: "ss_keeps s (snd r) \<and> fst r \<in> save_codes"
    have "ensures (save_synced env io fuel bs (snd r)) (\<lambda>r'. ss_keeps (snd r) (snd r'))"
      by (rule Cons.IH) (use r Cons.prems ss_keeps_mutex in metis)
    then show "ensures (case r of (result, s) \<Rightarrow> if result \<noteq> 0 then Ret (False, s) else save_synced env io fuel bs s)
        (\<lambda>r. ss_keeps s (snd r))"
      using r by (cases r) (auto intro: ss_keeps_trans elim!: ensures_mono)
  qed
  then show ?case by (simp del: ensures_simps(6))
qed simp

text \<open>What holds of the state while \<open>Process\<close> runs.\<close>

definition running :: "'t save_state \<Rightarrow> bool" where
  "running s \<longleftrightarrow> helper_ok (ss_helper s) \<and> helperMutex (ss_helper s)"

lemma running_keeps: "running s \<Longrightarrow> ss_keeps s s' \<Longrightarrow> running s'"
  by (simp add: running_def ss_keeps_def keeps_def)

lemma SaveBlock_running: "running s \<Longrightarrow> ensures (SaveBlock env io fuel b t mean s) (\<lambda>r. running (snd r))"
  by (rule ensures_mono [OF SaveBlock_keeps]) (auto simp: running_def ss_keeps_def keeps_def)

lemma running_on_helper:
  "running s \<Longrightarrow> running (on_helper (\<lambda>h. h\<lparr>utxoMissingBlocks := []\<rparr>) s)"
  "running s \<Longrightarrow> running (on_helper (\<lambda>h. h\<lparr>hashPendingBlocks := filter P (hashPendingBlocks h)\<rparr>) s)"
  by (auto simp: running_def on_helper_def helper_ok_def)

lemma save_found_running: "running s \<Longrightarrow> ensures (save_found env io fuel bs s) running"
proof (induction bs arbitrary: s)
  case (Cons b bs)
  show ?case unfolding save_found.simps
    by (rule ensures_bind2 [OF SaveBlock_running [OF Cons.prems]])
      (auto simp: running_on_helper Cons.IH split: prod.splits)
qed simp

lemma save_broadcast_running: "running s \<Longrightarrow> ensures (save_broadcast env io fuel s b) running"
  unfolding save_broadcast_def
  by (auto simp del: ensures_simps(6) intro!: ensures_bind [where m = "getBlockByBlockHash rd k n" for rd k n]
      ensures_bind2 [OF SaveBlock_running])

lemma save_hash_pending_running:
  "running s \<Longrightarrow> ensures (save_hash_pending env io fuel n cursor remove s) (\<lambda>r. running (snd r))"
proof (induction n arbitrary: cursor remove s)
  case (Suc n)
  show ?case unfolding save_hash_pending.simps
    by (auto simp: Suc simp del: ensures_simps(6) split: option.splits prod.splits
        intro!: ensures_bind2 [OF SaveBlock_running [OF Suc.prems]])
qed simp

lemma save_late_running: "running s \<Longrightarrow> ensures (save_late env io fuel s) running"
  unfolding save_late_def
  by (auto simp del: ensures_simps(6) intro!: running_on_helper ensures_bind2 [OF save_hash_pending_running]
      ensures_bind2 [OF ensures_each [where I = running]] save_broadcast_running)

lemma save_queues_running:
  assumes "running s"
  shows "ensures (save_queues env io fuel nodeHeight s) running"
proof -
  have fast: "ensures (save_fast env io fuel nodeHeight bs s) (\<lambda>r. running (snd r))" for bs
    by (rule ensures_mono [OF save_fast_keeps]) (use assms running_keeps in \<open>auto simp: running_def\<close>)
  have synced: "ensures (save_synced env io fuel bs s1) (\<lambda>r. running (snd r))" if "running s1" for s1 bs
    by (rule ensures_mono [OF save_synced_keeps]) (use that running_keeps in \<open>auto simp: running_def\<close>)
  have rest: "ensures (bind_run (save_found env io fuel bs s1) (\<lambda>s.
      let s = on_helper (\<lambda>h. h\<lparr>utxoMissingBlocks := []\<rparr>) s in
      bind_run (save_synced env io fuel (syncBlocks (ss_helper s)) s) (\<lambda>(returned, s).
        if returned then Ret s else save_late env io fuel s))) running" if "running s1" for s1 bs
    unfolding Let_def
    by (rule ensures_bind2 [OF save_found_running [OF that]], rule ensures_bind2 [OF synced [OF running_on_helper(1)]])
      (auto simp: save_late_running split: prod.splits)
  show ?thesis unfolding save_queues_def
    by (rule ensures_bind2 [OF fast]) (auto intro!: rest simp del: ensures_simps(6))
qed

subsection \<open>Rollbacks in Process\<close>

definition in_map :: "CBlock \<Rightarrow> block_map \<Rightarrow> bool" where
  "in_map b m \<longleftrightarrow> (\<exists>height bs. map_of m height = Some bs \<and> b \<in> set bs)"

lemma in_map_add: "in_map b m \<Longrightarrow> in_map b (addBlockToMap b' m)"
proof -
  assume "in_map b m"
  then obtain height bs where b: "map_of m height = Some bs" "b \<in> set bs" by (auto simp: in_map_def)
  have i: "bs' = (case map_of m (bl_height b') of None \<Rightarrow> [] | Some bs \<Rightarrow> bs) \<Longrightarrow>
      map_of (addBlockToMap b' m) = (map_of m)(bl_height b' \<mapsto> set_insert BlockComparator b' bs')" for bs'
    by (auto simp: addBlockToMap_def Let_def split: option.splits)
  show ?thesis
  proof (cases "height = bl_height b'")
    case True
    then have "map_of (addBlockToMap b' m) height = Some (set_insert BlockComparator b' bs)"
      using b i by simp
    then show ?thesis using set_insert_keeps [of bs BlockComparator b'] b by (auto simp: in_map_def)
  next
    case False
    then show ?thesis using b i [OF refl] by (auto simp: in_map_def intro: exI [of _ height])
  qed
qed

lemma in_map_blocks: "in_map b m \<Longrightarrow> b \<in> set (concat (map snd (rev m)))"
  by (force simp: in_map_def dest: map_of_SomeD)

lemma rollback_also_keeps:
  "ensures (loop_run (rollback_also env rd hashes addrMap) m hs)
     (\<lambda>r. case r of Inl code \<Rightarrow> True | Inr m' \<Rightarrow> \<forall>b. in_map b m \<longrightarrow> in_map b m')"
  by (rule ensures_loop)
    (auto simp: rollback_also_def Let_def in_map_add simp del: ensures_simps(6) intro!: ensures_bind)

lemma rollback_each_locked:
  "helperMutex h \<Longrightarrow> ensures (rollback_each env io rd mrd bs h) (\<lambda>(ret, h'). h' = h \<and> (bs \<noteq> [] \<longrightarrow> ret \<noteq> 0))"
proof (cases bs)
  case (Cons b bs')
  assume "helperMutex h"
  show ?thesis unfolding Cons rollback_each.simps
    by (rule ensures_bind2 [OF RollbackBlock_locked [OF \<open>helperMutex h\<close>]]) auto
qed simp

text \<open>With a block to roll back the call fails, whatever the network says.\<close>

lemma RollbackBlocks_locked:
  assumes h: "helperMutex h"
  shows "ensures (RollbackBlocks env io rd mrd h)
    (\<lambda>(ret, h'). (\<exists>m. h' = h\<lparr>rollbackBlocks := m\<rparr>) \<and> (ret = 0 \<longrightarrow> (\<forall>b. \<not> in_map b (rollbackBlocks h))))"
proof -
  let ?Q = "\<lambda>(ret, h'). (\<exists>m. h' = h\<lparr>rollbackBlocks := m\<rparr>) \<and> (ret = 0 \<longrightarrow> (\<forall>b. \<not> in_map b (rollbackBlocks h)))"
  define P :: "int \<times> block_helper \<Rightarrow> bool" where "P = (\<lambda>r. \<exists>m. snd r = h\<lparr>rollbackBlocks := m\<rparr> \<and> (\<forall>b. in_map b (rollbackBlocks h) \<longrightarrow> in_map b m))"
  have self: "\<exists>m. h = h\<lparr>rollbackBlocks := m\<rparr>" by (rule exI [of _ "rollbackBlocks h"]) simp
  have P1: "P (code, h)" for code :: int by (auto simp: P_def intro!: exI [of _ "rollbackBlocks h"])
  have P2: "\<forall>b. in_map b (rollbackBlocks h) \<longrightarrow> in_map b m \<Longrightarrow> P (code, h\<lparr>rollbackBlocks := m\<rparr>)" for code :: int and m
    by (auto simp: P_def)
  have contract: "ensures (rollbackContractBlock env rd mrd h) P"
    unfolding rollbackContractBlock_def Let_def
    by (auto simp: P1 simp del: ensures_simps(6) split: list.splits sum.splits
        intro!: ensures_bind [where m = "getBlockTop rd n" for rd n]
          ensures_bind [where m = "getBlockHashesByBlockHeight mrd a b n" for mrd a b n]
          ensures_bind2 [OF rollback_also_keeps] P2)
  show ?thesis
  proof (cases "rollbackBlocks h = []")
    case True
    then show ?thesis using self by (simp add: RollbackBlocks_def in_map_def)
  next
    case False
    have "ensures (rollback_each env io rd mrd (concat (map snd (rev m))) (h\<lparr>rollbackBlocks := m\<rparr>)) ?Q"
      if "\<forall>b. in_map b (rollbackBlocks h) \<longrightarrow> in_map b m" for m
      by (rule ensures_mono [OF rollback_each_locked]) (use h that in_map_blocks [of _ m] in \<open>fastforce+\<close>)
    with False show ?thesis unfolding RollbackBlocks_def
      by (auto simp: P_def simp del: ensures_simps(6) concat_eq_Nil_conv intro!: ensures_bind2 [OF contract])
  qed
qed

subsection \<open>Process as a whole\<close>

lemma helper_ok_rollback [simp]: "helper_ok (h\<lparr>rollbackBlocks := m\<rparr>) = helper_ok h"
  by (simp add: helper_ok_def)

lemma process_queues_running:
  assumes "running s"
  shows "ensures (process_queues env io fuel nodeHeight s) running"
proof -
  have r: "running (s\<lparr>ss_helper := (ss_helper s)\<lparr>rollbackBlocks := m\<rparr>\<rparr>)" for m
    using assms by (simp add: running_def)
  have m: "helperMutex ((ss_helper s)\<lparr>rollbackBlocks := m\<rparr>)" for m using assms by (simp add: running_def)
  show ?thesis
    unfolding process_queues_def Let_def
    by (rule ensures_bind2 [OF RollbackBlocks_locked [OF m]])
      (auto simp: r simp del: ensures_simps(6) split: option.splits intro!: ensures_bind save_queues_running)
qed

lemma pending_ok_filter: "pending_ok p \<Longrightarrow> pending_ok (filter P p)"
proof -
  assume p: "pending_ok p"
  have "sorted_wrt (<) (map fst (filter P p))"
    using p by (induction p) (auto simp: pending_ok_def ordered_map_def)
  moreover have "length (filter P p) \<le> 1000"
    using p by (auto simp: pending_ok_def intro: order_trans [OF length_filter_le])
  ultimately show ?thesis using p by (auto simp: pending_ok_def ordered_map_def)
qed

lemma helper_ok_clear: "helper_ok h \<Longrightarrow> helper_ok (clear_queues nowTime newTop h)"
proof -
  have "length (filter P (contractBlocks h)) \<le> 1000" if "length (contractBlocks h) \<le> 1000" for P
    using that by (rule order_trans [OF length_filter_le])
  then show "helper_ok h \<Longrightarrow> ?thesis"
    by (auto simp: helper_ok_def clear_queues_def pending_ok_filter registered_def)
qed

lemma Process_ok:
  assumes ok: "helper_ok (ss_helper s)" and free: "\<not> helperMutex (ss_helper s)"
  shows "ensures (Process env io fuel s) (\<lambda>s'. helper_ok (ss_helper s') \<and> \<not> helperMutex (ss_helper s'))"
proof -
  let ?s = "on_helper (\<lambda>h. h\<lparr>processing := True, helperMutex := True\<rparr>) s"
  have r: "running ?s" using ok by (simp add: running_def on_helper_def helper_ok_def)
  have e: "ensures (bind_run (scope_exit env io nodeHeight s1) (\<lambda>s. Ret (on_helper (\<lambda>h. h\<lparr>helperMutex := False\<rparr>) s)))
      (\<lambda>s'. helper_ok (ss_helper s') \<and> \<not> helperMutex (ss_helper s'))" if "running s1" for nodeHeight s1
  proof -
    have "helper_ok ((ss_helper s1)\<lparr>processing := False\<rparr>)" using that by (simp add: running_def helper_ok_def)
    then have w: "helper_ok (if b then with_effect NotifyHeightChange ((ss_helper s1)\<lparr>processing := False\<rparr>)
        else (ss_helper s1)\<lparr>processing := False\<rparr>)" for b
      using keeps_ok [OF keeps_with_effect] by simp
    show ?thesis
      unfolding scope_exit_def Let_def bind_run_assoc
      by (rule ensures_bind) (simp add: on_helper_def helper_ok_clear [OF w] split: prod.split)
  qed
  show ?thesis
    unfolding Process_def Let_def
    by (auto simp: ok free simp del: ensures_simps(6)
        intro!: ensures_bind [where m = "getBlockTop rd n" for rd n] ensures_bind2 [OF process_queues_running [OF r]] e)
      (use ok in \<open>auto simp: on_helper_def helper_ok_def\<close>)
qed

end
