(* ===== verification/SaveChain.thy ===== *)
theory SaveChain
  imports BlockProps StoreFacts
begin

text \<open>
  What saving one block does: a saved block takes along the blocks that waited for it, which ends
  because the heights of waiting blocks are at most 1000 and the chain climbs by one height at a
  time; a block that is not saved leaves the database as it was.
\<close>

subsection \<open>The chain of waiting blocks ends\<close>

lemma bind_run_cong_Ret: "(\<And>x. m = Ret x \<Longrightarrow> f x = g x) \<Longrightarrow> bind_run m f = bind_run m g"
  by (cases m) auto

lemma each_run_cong_inv:
  assumes "\<And>s x. x \<in> set xs \<Longrightarrow> I s \<Longrightarrow> f s x = g s x" and "\<And>s x. x \<in> set xs \<Longrightarrow> I s \<Longrightarrow> ensures (f s x) I" and "I s"
  shows "each_run f s xs = each_run g s xs"
  using assms
proof (induction xs arbitrary: s)
  case (Cons x xs)
  have e: "f s x = g s x" using Cons.prems by simp
  have "each_run f s1 xs = each_run g s1 xs" if "f s x = Ret s1" for s1
  proof (rule Cons.IH)
    show "I s1" using Cons.prems(2) [of x s] Cons.prems(3) that by (auto simp: ensures_def)
  qed (use Cons.prems in auto)
  then have "bind_run (f s x) (\<lambda>s1. each_run f s1 xs) = bind_run (f s x) (\<lambda>s1. each_run g s1 xs)"
    by (rule bind_run_cong_Ret)
  with e show ?case by simp
qed simp

text \<open>The heights above \<open>h\<close> have a gap within \<open>n\<close> steps.\<close>

definition gap_within :: "nat \<Rightarrow> u64 \<Rightarrow> block_helper \<Rightarrow> bool" where
  "gap_within n h b \<longleftrightarrow> (\<exists>k\<le>n. map_of (pendingBlocks b) (h + of_nat (Suc k)) = None)"

lemma gap_within_step:
  assumes "gap_within n h b" "map_of (pendingBlocks b) (h + 1) \<noteq> None"
  shows "\<exists>m. n = Suc m \<and> gap_within m (h + 1) b"
proof -
  from assms(1) obtain k where k: "k \<le> n" "map_of (pendingBlocks b) (h + of_nat (Suc k)) = None" by (auto simp: gap_within_def)
  then obtain j where j: "k = Suc j" using assms(2) by (cases k) auto
  have "h + 1 + of_nat (Suc j) = h + of_nat (Suc k)" by (simp add: j)
  then have "map_of (pendingBlocks b) (h + 1 + of_nat (Suc j)) = None" using k by metis
  moreover obtain m where "n = Suc m" "j \<le> m" using k j by (cases n) auto
  ultimately show ?thesis unfolding gap_within_def by blast
qed

lemma gap_within_1000:
  assumes "pending_ok (pendingBlocks b)"
  shows "gap_within 1000 h b"
proof (rule ccontr)
  let ?f = "\<lambda>k. h + of_nat (Suc k) :: u64"
  assume "\<not> gap_within 1000 h b"
  then have sub: "?f ` {..1000} \<subseteq> set (map fst (pendingBlocks b))"
    by (auto simp: gap_within_def map_of_eq_None_iff)
  have inj: "inj_on ?f {..1000}"
  proof (rule inj_onI)
    fix x y :: nat
    assume x: "x \<in> {..1000}" "y \<in> {..1000}" "?f x = ?f y"
    then have "(of_nat (Suc x) :: u64) = of_nat (Suc y)" by simp
    then have "unat (of_nat (Suc x) :: u64) = unat (of_nat (Suc y) :: u64)" by simp
    then have "Suc x mod 2 ^ 64 = Suc y mod 2 ^ 64" by (simp only: unat_of_nat) simp
    then show "x = y" using x by (simp add: mod_less)
  qed
  have "card (set (map fst (pendingBlocks b))) \<le> 1000"
    using assms card_length [of "map fst (pendingBlocks b)"] by (auto simp: pending_ok_def intro: order_trans)
  moreover have "card {..1000::nat} \<le> card (set (map fst (pendingBlocks b)))"
    by (rule card_inj_on_le [OF inj sub]) simp
  ultimately show False by simp
qed

lemma keeps_pending: "keeps h h' \<Longrightarrow> pendingBlocks h' = pendingBlocks h"
  by (simp add: keeps_def)

definition waiting_for :: "CBlock \<Rightarrow> block_helper \<Rightarrow> CBlock list" where
  "waiting_for block h =
     (case map_of (pendingBlocks h) (bl_height block + 1) of None \<Rightarrow> []
      | Some m \<Rightarrow> map snd (filter (\<lambda>e. fst e = bl_hash block) m))"

lemma waiting_for_height:
  assumes "helper_ok h" "b \<in> set (waiting_for block h)"
  shows "bl_height b = bl_height block + 1 \<and> map_of (pendingBlocks h) (bl_height block + 1) \<noteq> None"
proof -
  from assms(2) obtain m where m: "map_of (pendingBlocks h) (bl_height block + 1) = Some m" "b \<in> snd ` set m"
    by (cases "map_of (pendingBlocks h) (bl_height block + 1)") (force simp: waiting_for_def)+
  then have "(bl_height block + 1, m) \<in> set (pendingBlocks h)" by (simp add: map_of_SomeD)
  then have "\<forall>(k, b)\<in>set m. bl_height b = bl_height block + 1 \<and> bl_prevHash b = k"
    using assms(1) unfolding helper_ok_def pending_ok_def by blast
  with m show ?thesis by auto
qed

text \<open>What follows a saved block: the waiting blocks are saved, nothing else happens to blocks.\<close>

lemma PostSaveProcess_eq:
  "PostSaveProcess save env io block s =
     bind_run (each_run save (on_helper (with_effect (PostTransactionTask block)) s) (waiting_for block (ss_helper s))) (\<lambda>s.
       bind_run (processPostMembershipCancellation env io (ss_db s) block (ss_helper s)) (\<lambda>h. Ret (s\<lparr>ss_helper := h\<rparr>)))"
  by (simp add: PostSaveProcess_def Let_def follow_contracts_dead waiting_for_def on_helper_def with_effect_def)

lemma PostSaveProcess_cong:
  assumes "\<And>b s1. b \<in> set (waiting_for block (ss_helper s)) \<Longrightarrow> ss_keeps s s1 \<Longrightarrow> save s1 b = save' s1 b"
    and "\<And>s b. helperMutex (ss_helper s) \<Longrightarrow> ensures (save s b) (ss_keeps s)"
    and "helperMutex (ss_helper s)"
  shows "PostSaveProcess save env io block s = PostSaveProcess save' env io block s"
proof -
  have "each_run save (on_helper (with_effect (PostTransactionTask block)) s) (waiting_for block (ss_helper s)) =
        each_run save' (on_helper (with_effect (PostTransactionTask block)) s) (waiting_for block (ss_helper s))"
  proof (rule each_run_cong_inv [where I = "ss_keeps s"])
    fix s1 b
    assume s1: "ss_keeps s s1"
    then have "helperMutex (ss_helper s1)" using ss_keeps_mutex assms(3) by metis
    then show "ensures (save s1 b) (ss_keeps s)" by (rule ensures_mono [OF assms(2)]) (rule ss_keeps_trans [OF s1])
  qed (auto simp: assms(1) ss_keeps_def on_helper_def)
  then show ?thesis by (simp add: PostSaveProcess_eq)
qed

lemma SaveBlock_step_cong:
  assumes "\<And>s1. ss_keeps s s1 \<Longrightarrow>
      PostSaveProcess (\<lambda>s b. bind_run (SaveBlock env io f b Broadcast processByPreHash s) (\<lambda>r. Ret (snd r))) env io block s1 =
      PostSaveProcess (\<lambda>s b. bind_run (SaveBlock env io g b Broadcast processByPreHash s) (\<lambda>r. Ret (snd r))) env io block s1"
    and m: "helperMutex (ss_helper s)"
  shows "SaveBlock env io (Suc f) block t mean s = SaveBlock env io (Suc g) block t mean s"
proof -
  have k: "ss_keeps s (s\<lparr>ss_helper := block_committed block (report_missing r (resetMissingPrehash h)), ss_db := db\<rparr>)"
    if "PreSaveProcess env io db' block t mean (ss_helper s) = Ret (ret, h)" for db' ret h r db
  proof -
    have "keeps (ss_helper s) h" using PreSaveProcess_keeps [OF m, of env io db' block t mean] that by (simp add: ensures_def)
    then have "keeps (ss_helper s) (block_committed block (report_missing r (resetMissingPrehash h)))"
      by (rule keeps_trans [OF _ keeps_trans [OF keeps_trans [OF keeps_reset keeps_report] keeps_block_committed]])
    then show ?thesis by (simp add: ss_keeps_def)
  qed
  show ?thesis
    unfolding SaveBlock.simps Let_def
    apply (rule bind_run_cong_Ret)
    subgoal for x
      apply (cases x; simp only: prod.case)
      apply (intro if_cong refl bind_run_cong_Ret)
      subgoal for _ _ y
        apply (cases y; simp only: prod.case)
        apply (intro if_cong refl bind_run_cong_Ret)
        subgoal for _ _ z
          apply (cases z; cases "se_save_block env block t mean (new_writer env (ss_db s))"; simp only: prod.case)
          apply (intro if_cong refl)
          apply (cases "DBReadWriter_transactionCommit (se_ops env) (snd (se_save_block env block t mean (new_writer env (ss_db s))))")
          apply (simp only: prod.case snd_conv assms(1) [OF k])
          done
        done
      done
    done
qed

lemma SaveBlock_fuel:
  assumes "gap_within n (bl_height block) (ss_helper s)" "n < f" "n < g" "running s"
  shows "SaveBlock env io f block t mean s = SaveBlock env io g block t mean s"
  using assms
proof (induction n arbitrary: f g block t mean s rule: less_induct)
  case (less n)
  obtain f' g' where fg: "f = Suc f'" "g = Suc g'" using less.prems by (cases f; cases g) auto
  have m: "helperMutex (ss_helper s)" using less.prems by (simp add: running_def)
  show ?case unfolding fg
  proof (rule SaveBlock_step_cong [OF PostSaveProcess_cong m])
    fix s1 :: "'a save_state" and b s2
    assume s1: "ss_keeps s s1" and b: "b \<in> set (waiting_for block (ss_helper s1))" and s2: "ss_keeps s1 s2"
    have r1: "running s1" by (rule running_keeps [OF less.prems(4) s1])
    have r2: "running s2" by (rule running_keeps [OF r1 s2])
    have p: "pendingBlocks (ss_helper s1) = pendingBlocks (ss_helper s)" "pendingBlocks (ss_helper s2) = pendingBlocks (ss_helper s)"
      using s1 s2 by (simp_all add: ss_keeps_def keeps_def)
    have h: "bl_height b = bl_height block + 1" "map_of (pendingBlocks (ss_helper s)) (bl_height block + 1) \<noteq> None"
      using waiting_for_height [OF _ b] r1 p by (simp_all add: running_def)
    then obtain m' where "n = Suc m'" "gap_within m' (bl_height b) (ss_helper s)"
      using gap_within_step [OF less.prems(1)] by metis
    then have "SaveBlock env io f' b Broadcast processByPreHash s2 = SaveBlock env io g' b Broadcast processByPreHash s2"
      using less.prems fg p by (intro less.IH [of m'] r2) (auto simp: gap_within_def)
    then show "bind_run (SaveBlock env io f' b Broadcast processByPreHash s2) (\<lambda>r. Ret (snd r)) =
        bind_run (SaveBlock env io g' b Broadcast processByPreHash s2) (\<lambda>r. Ret (snd r))" by simp
  next
    fix s1 s2 :: "'a save_state" and b
    assume "helperMutex (ss_helper s2)"
    then show "ensures (bind_run (SaveBlock env io f' b Broadcast processByPreHash s2) (\<lambda>r. Ret (snd r))) (ss_keeps s2)"
      by (rule ensures_bind2 [OF SaveBlock_keeps]) auto
  qed (use m ss_keeps_mutex in metis)
qed

subsection \<open>Saving without a bound\<close>

text \<open>
  What saving does up to and including the commit: the code and state it returns with (\<open>Inl\<close>), or the state after
  the commit (\<open>Inr\<close>), from which the blocks that wait for the saved one are saved.
\<close>

definition save_until_commit ::
    "'t save_env \<Rightarrow> helper_io \<Rightarrow> CBlock \<Rightarrow> SaveType \<Rightarrow> blockMean \<Rightarrow> 't save_state \<Rightarrow> (int \<times> 't save_state + 't save_state) run" where
  "save_until_commit env io block t mean s =
     (let d = new_writer env (ss_db s); stop = (\<lambda>code h db. Ret (Inl (code, s\<lparr>ss_helper := h, ss_db := db\<rparr>))) in
      bind_run (getBlockTop (DBReadWriter_readData (se_ops env) d) 0) (\<lambda>(top, nodeHeight).
        if top \<noteq> DB_SUCCESS then stop (-3) (ss_helper s) (close_writer env d)
        else if nodeHeight + 2 \<le> bl_height block then stop (-4) (ss_helper s) (close_writer env d)
        else bind_run (getBlockByBlockHash (DBReadWriter_readData (se_ops env) d) (bl_hash block) []) (\<lambda>(found, _).
          if found = DB_SUCCESS then stop 0 (ss_helper s) (close_writer env d)
          else bind_run (PreSaveProcess env io (rk (dbReaderWriter d)) block t mean (ss_helper s)) (\<lambda>(pre, h).
            if pre < 0 then stop (-5) h (close_writer env d)
            else case se_save_block env block t mean d of (r, d1) \<Rightarrow>
              let h = report_missing r (resetMissingPrehash h) in
              if ar_code r \<noteq> 0 then (case save_failed block t h of (code, h) \<Rightarrow> stop code h (close_writer env d1))
              else case DBReadWriter_transactionCommit (se_ops env) d1 of (ret, d2) \<Rightarrow>
                if ret \<noteq> DB_SUCCESS then stop (-9) h (close_writer env d2)
                else Ret (Inr (s\<lparr>ss_helper := block_committed block h, ss_db := close_writer env d2\<rparr>))))))"

text \<open>What follows the commit, with \<open>save\<close> for the saving of a waiting block.\<close>

definition save_waiting ::
    "('t save_state \<Rightarrow> CBlock \<Rightarrow> (int \<times> 't save_state) run) \<Rightarrow> 't save_env \<Rightarrow> helper_io \<Rightarrow> CBlock \<Rightarrow> 't save_state \<Rightarrow> (int \<times> 't save_state) run" where
  "save_waiting save env io block s =
     bind_run (each_run (\<lambda>s b. bind_run (save s b) (\<lambda>r. Ret (snd r)))
         (on_helper (with_effect (PostTransactionTask block)) s) (waiting_for block (ss_helper s))) (\<lambda>s.
       bind_run (processPostMembershipCancellation env io (ss_db s) block (ss_helper s)) (\<lambda>h. Ret (0, s\<lparr>ss_helper := h\<rparr>)))"

lemma waiting_for_members:
  assumes "helper_ok h"
  shows "set (waiting_for block h) = {b. bl_height b = bl_height block + 1 \<and> bl_prevHash b = bl_hash block \<and>
    (\<exists>m. map_of (pendingBlocks h) (bl_height block + 1) = Some m \<and> b \<in> snd ` set m)}"
proof (cases "map_of (pendingBlocks h) (bl_height block + 1)")
  case (Some m)
  then have "(bl_height block + 1, m) \<in> set (pendingBlocks h)" by (rule map_of_SomeD)
  then have "\<forall>(k, b)\<in>set m. bl_height b = bl_height block + 1 \<and> bl_prevHash b = k"
    using assms unfolding helper_ok_def pending_ok_def by blast
  with Some show ?thesis by (force simp: waiting_for_def)
qed (simp add: waiting_for_def)

lemma SaveBlock_split:
  "SaveBlock env io (Suc f) block t mean s =
     bind_run (save_until_commit env io block t mean s) (\<lambda>r. case r of
       Inl res \<Rightarrow> Ret res | Inr s1 \<Rightarrow> save_waiting (\<lambda>s b. SaveBlock env io f b Broadcast processByPreHash s) env io block s1)"
  unfolding SaveBlock.simps save_until_commit_def save_waiting_def PostSaveProcess_eq Let_def
  by (auto simp: bind_run_assoc split_beta intro!: bind_run_cong_Ret)

lemma save_until_commit_keeps:
  assumes "helperMutex (ss_helper s)" "save_until_commit env io block t mean s = Ret (Inr s1)"
  shows "ss_keeps s s1"
proof -
  have k: "ss_keeps s (s\<lparr>ss_helper := block_committed block (report_missing r (resetMissingPrehash h)), ss_db := db\<rparr>)"
    if "PreSaveProcess env io db' block t mean (ss_helper s) = Ret (ret, h)" for db' ret h r db
  proof -
    have "keeps (ss_helper s) h" using PreSaveProcess_keeps [OF assms(1), of env io db' block t mean] that by (simp add: ensures_def)
    then have "keeps (ss_helper s) (block_committed block (report_missing r (resetMissingPrehash h)))"
      by (rule keeps_trans [OF _ keeps_trans [OF keeps_trans [OF keeps_reset keeps_report] keeps_block_committed]])
    then show ?thesis by (simp add: ss_keeps_def)
  qed
  obtain ret h r db db' where "PreSaveProcess env io db' block t mean (ss_helper s) = Ret (ret, h)"
    "s1 = s\<lparr>ss_helper := block_committed block (report_missing r (resetMissingPrehash h)), ss_db := db\<rparr>"
    using assms(2) unfolding save_until_commit_def Let_def
    by (auto simp: bind_run_eq_Ret split_beta split: if_splits)
  then show ?thesis using k by simp
qed

text \<open>With enough levels a saved block brings its followers along with as many levels again.\<close>

lemma save_follows_chain:
  assumes "helper_ok (ss_helper s)" "helperMutex (ss_helper s)" "1001 \<le> fuel"
  shows "SaveBlock env io fuel block t mean s =
    bind_run (save_until_commit env io block t mean s) (\<lambda>r. case r of
      Inl res \<Rightarrow> Ret res | Inr s1 \<Rightarrow> save_waiting (\<lambda>s b. SaveBlock env io fuel b Broadcast processByPreHash s) env io block s1)"
proof -
  have r: "running s" using assms by (simp add: running_def)
  have "SaveBlock env io fuel block t mean s = SaveBlock env io (Suc fuel) block t mean s"
    by (rule SaveBlock_fuel [OF gap_within_1000 [of "ss_helper s"] _ _ r]) (use assms in \<open>auto simp: helper_ok_def\<close>)
  then show ?thesis by (simp only: SaveBlock_split)
qed

subsection \<open>Why saving would not return\<close>

lemma bind_run_Diverge: "bind_run m f = Diverge \<longleftrightarrow> m = Diverge \<or> (\<exists>x. m = Ret x \<and> f x = Diverge)"
  by (cases m) auto

lemma each_run_Diverge:
  assumes "each_run f s xs = Diverge" "I s" "\<And>s x. x \<in> set xs \<Longrightarrow> I s \<Longrightarrow> ensures (f s x) I"
  shows "\<exists>s1 x. x \<in> set xs \<and> I s1 \<and> f s1 x = Diverge"
  using assms
proof (induction xs arbitrary: s)
  case (Cons x xs)
  show ?case
  proof (cases "f s x = Diverge")
    case False
    with Cons.prems(1) obtain s1 where s1: "f s x = Ret s1" "each_run f s1 xs = Diverge" by (auto simp: bind_run_Diverge)
    then have "I s1" using Cons.prems(2,3) by (auto simp: ensures_def)
    from Cons.IH [OF s1(2) this] Cons.prems(3) show ?thesis by auto
  qed (use Cons.prems in auto)
qed simp

definition part_hangs :: "'t save_env \<Rightarrow> helper_io \<Rightarrow> 't save_state \<Rightarrow> bool" where
  "part_hangs env io s \<longleftrightarrow> (\<exists>block t mean. save_until_commit env io block t mean s = Diverge \<or>
     processPostMembershipCancellation env io (ss_db s) block (ss_helper s) = Diverge)"

lemma SaveBlock_hangs:
  assumes "SaveBlock env io f block t mean s = Diverge" "gap_within n (bl_height block) (ss_helper s)" "n < f" "running s"
  shows "\<exists>s1. ss_keeps s s1 \<and> part_hangs env io s1"
  using assms
proof (induction n arbitrary: f block t mean s rule: less_induct)
  case (less n)
  obtain f' where f: "f = Suc f'" using less.prems by (cases f) auto
  have m: "helperMutex (ss_helper s)" using less.prems by (simp add: running_def)
  let ?save = "\<lambda>s b. SaveBlock env io f' b Broadcast processByPreHash s"
  from less.prems(1) consider "save_until_commit env io block t mean s = Diverge"
    | s1 where "save_until_commit env io block t mean s = Ret (Inr s1)" "save_waiting ?save env io block s1 = Diverge"
    unfolding f SaveBlock_split bind_run_Diverge by (elim disjE exE conjE) (auto split: sum.splits)
  then show ?case
  proof cases
    case 1
    then show ?thesis unfolding part_hangs_def by (intro exI [of _ s]) (auto simp: ss_keeps_def)
  next
    case (2 s1)
    have k1: "ss_keeps s s1" by (rule save_until_commit_keeps [OF m 2(1)])
    let ?s = "on_helper (with_effect (PostTransactionTask block)) s1"
    have k: "ss_keeps s ?s" by (rule ss_keeps_trans [OF k1]) (simp add: ss_keeps_def on_helper_def)
    have each: "ensures (bind_run (?save s2 b) (\<lambda>r. Ret (snd r))) (ss_keeps s)" if "ss_keeps s s2" for s2 b
    proof (rule ensures_bind2 [OF SaveBlock_keeps])
      show "helperMutex (ss_helper s2)" using ss_keeps_mutex [OF that] m by simp
    qed (use ss_keeps_trans [OF that] in auto)
    from 2(2) consider "each_run (\<lambda>s b. bind_run (?save s b) (\<lambda>r. Ret (snd r))) ?s (waiting_for block (ss_helper s1)) = Diverge"
      | s2 where "each_run (\<lambda>s b. bind_run (?save s b) (\<lambda>r. Ret (snd r))) ?s (waiting_for block (ss_helper s1)) = Ret s2"
          "processPostMembershipCancellation env io (ss_db s2) block (ss_helper s2) = Diverge"
      unfolding save_waiting_def by (auto simp: bind_run_Diverge)
    then show ?thesis
    proof cases
      case 1
      from each_run_Diverge [where I = "ss_keeps s", OF 1 k] each obtain s2 b where b: "b \<in> set (waiting_for block (ss_helper s1))" "ss_keeps s s2"
        "bind_run (?save s2 b) (\<lambda>r. Ret (snd r)) = Diverge" by blast
      then have d: "SaveBlock env io f' b Broadcast processByPreHash s2 = Diverge" by (auto simp: bind_run_Diverge)
      have r2: "running s2" "running s1" using running_keeps [OF less.prems(4)] b(2) k1 by blast+
      have p: "pendingBlocks (ss_helper s1) = pendingBlocks (ss_helper s)" "pendingBlocks (ss_helper s2) = pendingBlocks (ss_helper s)"
        using k1 b(2) by (simp_all add: ss_keeps_def keeps_def)
      have h: "bl_height b = bl_height block + 1" "map_of (pendingBlocks (ss_helper s)) (bl_height block + 1) \<noteq> None"
        using waiting_for_height [OF _ b(1)] r2 p by (simp_all add: running_def)
      then obtain m' where m': "n = Suc m'" "gap_within m' (bl_height b) (ss_helper s)" using gap_within_step [OF less.prems(2)] by metis
      then have "\<exists>s3. ss_keeps s2 s3 \<and> part_hangs env io s3"
        using less.prems f p by (intro less.IH [OF _ d _ _ r2(1)]) (auto simp: gap_within_def)
      then show ?thesis using ss_keeps_trans [OF b(2)] by blast
    next
      case (2 s2)
      have "ensures (each_run (\<lambda>s b. bind_run (?save s b) (\<lambda>r. Ret (snd r))) ?s (waiting_for block (ss_helper s1))) (ss_keeps s)"
        by (rule ensures_each) (use each k in auto)
      then have "ss_keeps s s2" using 2(1) by (simp add: ensures_def)
      then show ?thesis using 2(2) unfolding part_hangs_def by blast
    qed
  qed
qed

subsection \<open>A block that is not saved\<close>

text \<open>
  What \<open>ca_algorithm::SaveBlock\<close>, whose source is not in the repository, leaves of the writer it is given for a
  block. Nothing is assumed of it: the lemma below tells apart what it commits itself.
\<close>

definition algorithm_writer :: "'t save_env \<Rightarrow> CBlock \<Rightarrow> SaveType \<Rightarrow> blockMean \<Rightarrow> 't \<Rightarrow> 't dbrw" where
  "algorithm_writer env block t mean db = snd (se_save_block env block t mean (new_writer env db))"

context rocksdb
begin

lemma close_writer_committed:
  "se_ops env = ops \<Longrightarrow> committed (close_writer env d) = committed (rk (dbReaderWriter d))"
  using rollback_effect(2) [of "dbReaderWriter d" SOk]
  by (auto simp: close_writer_def DBReadWriter_transactionRollBack_def Let_def split: prod.splits)

lemma new_writer_committed:
  "se_ops env = ops \<Longrightarrow> committed (rk (dbReaderWriter (new_writer env db))) = committed db"
  using init_effect(1) [of "\<lparr>inited = se_open env, txn_open = False, rk = db\<rparr>"]
  by (auto simp: new_writer_def DBReadWriter_new_def reInitTransaction_def DBReadWriter_transactionRollBack_def Let_def
      split: prod.splits)

lemma failed_commit:
  "DBReadWriter_transactionCommit ops d = (ret, d') \<Longrightarrow> ret \<noteq> DB_SUCCESS \<Longrightarrow>
   committed (rk (dbReaderWriter d')) = committed (rk (dbReaderWriter d))"
  using commit_effect(2) [of "dbReaderWriter d"]
  by (auto simp: DBReadWriter_transactionCommit_def split: prod.splits if_splits)

definition stops_with :: "'t save_env \<Rightarrow> CBlock \<Rightarrow> SaveType \<Rightarrow> blockMean \<Rightarrow> 't \<Rightarrow> int \<Rightarrow> 't \<Rightarrow> bool" where
  "stops_with env block t mean db code db' \<longleftrightarrow>
     (if code \<in> {0, -3, -4, -5} then committed db' = committed db
      else committed db' = committed (rk (dbReaderWriter (algorithm_writer env block t mean db))))"

lemma stopped_save_committed:
  assumes o: "se_ops env = ops"
  shows "ensures (save_until_commit env io block t mean s)
    (\<lambda>r. case r of Inl res \<Rightarrow> stops_with env block t mean (ss_db s) (fst res) (ss_db (snd res)) | Inr s1 \<Rightarrow> True)"
proof -
  note c = close_writer_committed [OF o] new_writer_committed [OF o]
  let ?Q = "\<lambda>r. case r of Inl res \<Rightarrow> stops_with env block t mean (ss_db s) (fst res) (ss_db (snd res)) | Inr s1 \<Rightarrow> True"
  let ?d = "new_writer env (ss_db s)"
  have early: "stops_with env block t mean (ss_db s) code (close_writer env ?d)" if "code \<in> {0, -3, -4, -5}" for code
    using that by (simp add: stops_with_def c)
  have failed: "stops_with env block t mean (ss_db s) code (close_writer env d)"
    if "save_failed block t h = (code, h')" "se_save_block env block t mean ?d = (r, d)" for h h' d r code
    using save_failed_keeps [OF that(1)] that(2) by (auto simp: stops_with_def c algorithm_writer_def)
  have commit: "stops_with env block t mean (ss_db s) (-9) (close_writer env d2)"
    if "DBReadWriter_transactionCommit ops d1 = (ret, d2)" "se_save_block env block t mean ?d = (r, d1)" "ret \<noteq> DB_SUCCESS" for d1 d2 ret r
    using failed_commit [OF that(1,3)] that(2) by (simp add: stops_with_def c algorithm_writer_def)
  show ?thesis unfolding save_until_commit_def Let_def
    by (auto simp: early o simp del: ensures_simps(6) split: prod.splits intro!: ensures_bind) (rule failed commit, assumption+)+
qed

lemma failed_save_committed:
  assumes o: "se_ops env = ops" and "SaveBlock env io fuel block t mean s = Ret (code, s')" "code \<noteq> 0"
  shows "(if code \<in> {-3, -4, -5} then committed (ss_db s') = committed (ss_db s)
    else committed (ss_db s') = committed (rk (dbReaderWriter (algorithm_writer env block t mean (ss_db s)))))"
proof -
  obtain f where f: "fuel = Suc f" using assms(2) by (cases fuel) (auto simp: SaveBlock.simps)
  obtain r where r: "save_until_commit env io block t mean s = Ret r"
    "(case r of Inl res \<Rightarrow> Ret res | Inr s1 \<Rightarrow> save_waiting (\<lambda>s b. SaveBlock env io f b Broadcast processByPreHash s) env io block s1) = Ret (code, s')"
    using assms(2) unfolding f SaveBlock_split by (auto simp: bind_run_eq_Ret)
  with assms(3) have "r = Inl (code, s')" by (auto simp: save_waiting_def bind_run_eq_Ret split: sum.splits)
  then have "stops_with env block t mean (ss_db s) code (ss_db s')"
    using stopped_save_committed [OF o, of io block t mean s] r(1) by (simp add: ensures_def)
  then show ?thesis using assms(3) by (simp add: stops_with_def)
qed

end

end
