(* ===== verification/HelperProps.thy ===== *)
theory HelperProps
  imports SaveChain
begin

text \<open>
  Properties of the block queues: the invariant over all reachable states, what a rollback and a
  failed read do to the timer, termination and atomicity of saving, the votes for sought blocks.
\<close>

subsection \<open>A concrete node\<close>

text \<open>A database with the height 7 and the block \<open>p\<close>, and a node without neighbours.\<close>

definition tiny_db :: memdb where
  "tiny_db = \<lparr>mem_base = [BLOCK_TOP_KEY_VALUE \<mapsto> to_string (7 :: u64), K_BLOCK_HASH_TO_BLOCK_RAW_KEY @ ''p'' \<mapsto> ''P'',
     kBlockHeightToBlockHashKey @ ''7'' \<mapsto> ''p''], mem_batch = Map.empty\<rparr>"

definition tiny_env :: helper_env where
  "tiny_env = \<lparr>he_chain = \<lparr>MIN_SYNC_QUAL_NODES = 1, MIN_UNSTAKE_HEIGHT = 0, hashRangeSum = 100, verify_bonus = (\<lambda>_. 0),
       pledge_time = (\<lambda>_. 1), sha256 = id, sum_hash_floor = id, sum_hash_ceiling = id\<rparr>,
     he_parse = (\<lambda>raw. Some (CBlock_new\<lparr>bl_hash := raw, bl_height := 7\<rparr>)), he_parse_hashes = (\<lambda>_. None),
     he_parse_utxo_ack = (\<lambda>_. None), he_parse_hash_ack = (\<lambda>_. None), he_addr = id, he_type = (\<lambda>_. kTransactionTypeTx),
     he_tx_hash = tx_hash, he_json = (\<lambda>_. Ret []), he_is_contract = (\<lambda>_. False), he_contract_pre = (\<lambda>_. {}),
     he_contract_addr = (\<lambda>_. []), he_requires_agent = (\<lambda>_. False), he_self_addr = ''me'', he_self_id = ''me''\<rparr>"

definition tiny_save_env :: "memdb save_env" where
  "tiny_save_env = \<lparr>se_helper = tiny_env, se_ops = mem_rocks, se_open = True, se_version = 0, se_sort = (\<lambda>f xs. sort_key f xs),
     se_verify_flowed = (\<lambda>_ _ _. 0), se_verify_block = (\<lambda>_ _ _. \<lparr>ar_code = 0, ar_missing_prehash = False, ar_missing_utxos = []\<rparr>),
     se_save_block = (\<lambda>_ _ _ d. (\<lparr>ar_code = -1, ar_missing_prehash = False, ar_missing_utxos = []\<rparr>, d)),
     se_verify_pre_save = (\<lambda>_ _. 0), se_double_spend = (\<lambda>_ _. (0, []))\<rparr>"

definition tiny_io :: helper_io where
  "tiny_io = \<lparr>hi_now = 100000000, hi_nodes = [], hi_rnd = (\<lambda>_. 0),
     hi_round = (\<lambda>_. \<lparr>wr_created = False, wr_added = (\<lambda>_. True), wr_complete = True, wr_answers = []\<rparr>)\<rparr>"

definition tiny_block :: CBlock where
  "tiny_block = CBlock_new\<lparr>bl_hash := ''b'', bl_prevHash := ''p'', bl_height := 8\<rparr>"

lemmas db_eval = DBReader_readData_def reader_readData_def getBlockTop_def read_unsigned_def read_then_def
  getBlockByBlockHash_def mem_rocks_def mem_answer_def assign_out_def

lemma tiny_top: "getBlockTop (db_reader tiny_save_env tiny_db) 0 = Ret (DB_SUCCESS, 7)"
  by (simp add: db_reader_def tiny_save_env_def tiny_db_def db_eval BLOCK_TOP_KEY_VALUE_def K_BLOCK_HASH_TO_BLOCK_RAW_KEY_def
      kBlockHeightToBlockHashKey_def)

lemma tiny_prev: "getBlockByBlockHash (db_reader tiny_save_env tiny_db) ''p'' [] = Ret (DB_SUCCESS, ''P'')"
  by (simp add: db_reader_def tiny_save_env_def tiny_db_def db_eval BLOCK_TOP_KEY_VALUE_def K_BLOCK_HASH_TO_BLOCK_RAW_KEY_def
      kBlockHeightToBlockHashKey_def)

subsection \<open>Reachable states\<close>

lemma helper_run_ok:
  assumes "ensures (f (ss_helper s)) (call_ok (ss_helper s))" "helper_run f s = Ret s'"
  shows "call_ok (ss_helper s) (ss_helper s')"
  using assms by (auto simp: helper_run_def ensures_def run_simps)

lemma helper_call_ok:
  assumes "helper_ok (ss_helper s)" "\<not> helperMutex (ss_helper s)" "op \<noteq> OpProcess" "helper_call_op env io fuel op s = Ret s'"
  shows "call_ok (ss_helper s) (ss_helper s')"
proof (cases op)
  case OpSeekBlockThread
  have "ensures (bind_run (SeekBlockThreadObject rd now (ss_helper s)) (\<lambda>r. Ret (snd r))) (call_ok (ss_helper s))" for rd now
    by (rule ensures_bind2 [OF SeekBlockThread_ok]) (use assms in auto)
  with OpSeekBlockThread assms(4) show ?thesis by (auto dest: helper_run_ok [rotated])
qed (use assms in \<open>auto dest!: helper_run_ok [rotated] simp: AddBroadcastBlock_ok receive_call_ok AddMissingBlock_ok add_seek_block_ok
  popMissUtxo_ok on_helper_def stopSaveBlock_def call_ok_def helper_ok_def\<close>)

lemma helper_step_ok:
  assumes "helper_step env s s'" "helper_ok (ss_helper s)" "\<not> helperMutex (ss_helper s)"
  shows "helper_ok (ss_helper s') \<and> \<not> helperMutex (ss_helper s')"
proof -
  consider (run) io fuel op where "helper_call_op env io fuel op s = Ret s'" | (db) db where "s' = s\<lparr>ss_db := db\<rparr>"
    using assms(1) by (auto elim: helper_stepE)
  then show ?thesis
  proof cases
    case (run io fuel op)
    show ?thesis
    proof (cases "op = OpProcess")
      case True
      then show ?thesis using run Process_ok [OF assms(2,3), of env io fuel] by (simp add: ensures_def)
    next
      case False
      then show ?thesis using helper_call_ok [OF assms(2,3) False run] by (simp add: call_ok_def)
    qed
  qed (use assms in simp)
qed

lemma helper_reachable_ok: "helper_reachable env s \<Longrightarrow> helper_ok (ss_helper s) \<and> \<not> helperMutex (ss_helper s)"
proof (induction rule: helper_reachable.induct)
  case (init db)
  show ?case by (simp add: BlockHelper_new_def helper_ok_def pending_ok_def registered_def)
next
  case (step s s')
  then show ?case using helper_step_ok by blast
qed

text \<open>
  C15. In every state the calls reach, at most 1000 heights wait for a predecessor, each block under its own height and
  previous hash; at most 1000 contract blocks and 10 outputs are noted; blocks to retry stand under their own hash;
  nothing is searched for more than four times; the three queues ascend strictly by height and time; and a queued
  broadcast block is registered as seen.
\<close>

theorem helper_queues_invariant:
  assumes "helper_reachable env s"
  shows "let h = ss_helper s in
     length (pendingBlocks h) \<le> 1000 \<and> ordered_map (pendingBlocks h) \<and>
     (\<forall>(height, m)\<in>set (pendingBlocks h). \<forall>(k, b)\<in>set m. bl_height b = height \<and> bl_prevHash b = k) \<and>
     length (contractBlocks h) \<le> 1000 \<and> length (missingUtxos h) \<le> 10 \<and>
     (\<forall>(k, _, b)\<in>set (hashPendingBlocks h). bl_hash b = k) \<and> (\<forall>e\<in>set (missingBlocks h). mb_triggerCount e \<le> 4) \<and>
     sorted_wrt blockTimeAscending (broadcastBlocks h) \<and> sorted_wrt blockTimeAscending (syncBlocks h) \<and>
     sorted_wrt blockTimeAscending (fastSyncBlocks h) \<and>
     (\<forall>b\<in>set (broadcastBlocks h). map_of (duplicateChecker h) (bl_hash b) \<noteq> None)"
  using helper_reachable_ok [OF assms] by (simp add: helper_ok_def pending_ok_def registered_def Let_def)

definition queued_state :: "memdb save_state" where
  "queued_state = \<lparr>ss_helper = BlockHelper_new\<lparr>duplicateChecker := [(''b'', False, 0)], broadcastBlocks := [tiny_block]\<rparr>,
     ss_db = tiny_db\<rparr>"

lemma queued_reachable: "helper_reachable tiny_save_env queued_state"
proof -
  have "helper_call_op tiny_save_env tiny_io 1 (OpAddBroadcastBlock tiny_block False) \<lparr>ss_helper = BlockHelper_new, ss_db = tiny_db\<rparr>
      = Ret queued_state"
    using tiny_top tiny_prev
    by (simp add: queued_state_def helper_run_def AddBroadcastBlock_def locked_def BlockHelper_new_def resolve_conflict_def
        accept_broadcast_def queue_broadcast_def tiny_block_def CBlock_new_def tiny_save_env_def tiny_env_def)
  then have "helper_step tiny_save_env \<lparr>ss_helper = BlockHelper_new, ss_db = tiny_db\<rparr> queued_state"
    by (rule helper_step.call)
  with helper_reachable.init show ?thesis by (rule helper_reachable.step)
qed

theorem helper_queues_invariant_witness:
  "broadcastBlocks (ss_helper queued_state) = [tiny_block] \<and>
   map_of (duplicateChecker (ss_helper queued_state)) (bl_hash tiny_block) \<noteq> None"
  using helper_queues_invariant [OF queued_reachable] by (simp add: Let_def queued_state_def)

subsection \<open>Rollbacks stop the timer\<close>

lemma process_queues_rollback:
  assumes "in_map b (drop_young (hi_now io) (rollbackBlocks (ss_helper s)))" "helperMutex (ss_helper s)"
  shows "ensures (process_queues env io fuel nodeHeight s) (\<lambda>s'. ss_db s' = ss_db s)"
proof -
  let ?h = "(ss_helper s)\<lparr>rollbackBlocks := drop_young (hi_now io) (rollbackBlocks (ss_helper s))\<rparr>"
  have m: "helperMutex ?h" using assms(2) by simp
  show ?thesis unfolding process_queues_def Let_def
    by (rule ensures_bind2 [OF RollbackBlocks_locked [OF m]]) (use assms(1) in auto)
qed

text \<open>
  With a rollback that is due the timer saves nothing: its run, if it returns at all, leaves the database as it was and
  empties the queues all the same. (A rollback the network confirms would lock the mutex a second time.)
\<close>

theorem due_rollback_saves_nothing:
  assumes "in_map b (drop_young (hi_now io) (rollbackBlocks (ss_helper s)))" and "\<not> processing (ss_helper s)"
    and "getBlockTop (db_reader env (ss_db s)) 0 = Ret (DB_SUCCESS, nodeHeight)" and "Process env io fuel s = Ret s'"
  shows "ss_db s' = ss_db s \<and> broadcastBlocks (ss_helper s') = [] \<and> syncBlocks (ss_helper s') = [] \<and>
    fastSyncBlocks (ss_helper s') = []"
proof -
  let ?s = "on_helper (\<lambda>h. h\<lparr>processing := True, helperMutex := True\<rparr>) s"
  have "\<not> helperMutex (ss_helper s)" using assms(2,4) by (auto simp: Process_def)
  with assms(2-4) obtain s1 where q: "process_queues env io fuel nodeHeight ?s = Ret s1"
    and e: "bind_run (scope_exit env io nodeHeight s1) (\<lambda>s. Ret (on_helper (\<lambda>h. h\<lparr>helperMutex := False\<rparr>) s)) = Ret s'"
    by (auto simp: Process_def Let_def on_helper_def run_simps)
  have "ss_db s1 = ss_db ?s"
    using process_queues_rollback [of b io ?s env fuel nodeHeight] assms(1) q by (simp add: ensures_def on_helper_def)
  with e show ?thesis by (auto simp: scope_exit_def Let_def on_helper_def clear_queues_def run_simps split: if_splits)
qed

definition rollback_state :: "memdb save_state" where
  "rollback_state = \<lparr>ss_helper = BlockHelper_new\<lparr>rollbackBlocks := [(8, [tiny_block])], broadcastBlocks := [tiny_block]\<rparr>, ss_db = tiny_db\<rparr>"

lemma rollback_due: "in_map tiny_block (drop_young (hi_now tiny_io) (rollbackBlocks (ss_helper rollback_state)))"
  by (simp add: in_map_def drop_young_def rollback_state_def overdue_def RollbackTimeout_def tiny_io_def tiny_block_def CBlock_new_def)

lemma tiny_no_heights: "getBlockHashesByBlockHeight (db_mreader tiny_save_env tiny_db) 8 7 [] = Ret (DB_PARAM_NULL, [])"
  by (simp add: getBlockHashesByBlockHeight_def height_keys_ends db_mreader_def DBReader_multiReadData_def)

lemma rollback_process: "\<exists>s'. Process tiny_save_env tiny_io 1 rollback_state = Ret s'"
proof -
  have h: "drop_young 100000000 [(8, [tiny_block])] = [(8, [tiny_block])]"
    by (simp add: drop_young_def overdue_def RollbackTimeout_def tiny_block_def CBlock_new_def)
  have e: "hi_now tiny_io = 100000000" "se_helper tiny_save_env = tiny_env" by (simp_all add: tiny_io_def tiny_save_env_def)
  show ?thesis
    using tiny_top tiny_no_heights
    by (simp add: Process_def Let_def on_helper_def rollback_state_def BlockHelper_new_def process_queues_def e h RollbackBlocks_def
        rollbackContractBlock_def scope_exit_def)
qed

theorem due_rollback_saves_nothing_witness:
  "\<exists>s'. Process tiny_save_env tiny_io 1 rollback_state = Ret s' \<and> ss_db s' = tiny_db \<and> broadcastBlocks (ss_helper s') = []"
proof -
  obtain s' where p: "Process tiny_save_env tiny_io 1 rollback_state = Ret s'" using rollback_process by blast
  have d: "ss_db rollback_state = tiny_db" "\<not> processing (ss_helper rollback_state)"
    by (simp_all add: rollback_state_def BlockHelper_new_def)
  show ?thesis
    using due_rollback_saves_nothing [OF rollback_due d(2) _ p, of 7] tiny_top p by (simp add: d)
qed

subsection \<open>A failed read stops the timer for ever\<close>

lemma helper_step_processing:
  assumes "helper_step env s s'" "helper_ok (ss_helper s)" "\<not> helperMutex (ss_helper s)" "processing (ss_helper s)"
  shows "processing (ss_helper s')"
proof -
  consider (run) io fuel op where "helper_call_op env io fuel op s = Ret s'" | (db) db where "s' = s\<lparr>ss_db := db\<rparr>"
    using assms(1) by (auto elim: helper_stepE)
  then show ?thesis
  proof cases
    case (run io fuel op)
    show ?thesis
    proof (cases "op = OpProcess")
      case True
      then show ?thesis using run assms(4) by (simp add: Process_def)
    next
      case False
      then show ?thesis using helper_call_ok [OF assms(2,3) False run] assms(4) by (simp add: call_ok_def)
    qed
  qed (use assms in simp)
qed

lemma helper_steps_processing:
  assumes "(helper_step env)\<^sup>*\<^sup>* s s'" "helper_ok (ss_helper s) \<and> \<not> helperMutex (ss_helper s)" "processing (ss_helper s)"
  shows "processing (ss_helper s')"
proof -
  have "helper_ok (ss_helper s') \<and> \<not> helperMutex (ss_helper s') \<and> processing (ss_helper s')"
    using assms(1)
  proof (induction rule: rtranclp_induct)
    case base
    then show ?case using assms by simp
  next
    case (step y z)
    then show ?case using helper_step_ok [OF step.hyps(2)] helper_step_processing [OF step.hyps(2)] by blast
  qed
  then show ?thesis by simp
qed

text \<open>
  One run of the timer in which the height of the chain cannot be read is the last: whatever happens afterwards, every
  later run returns at once and saves nothing, because the flag of the run is never reset.
\<close>

theorem failed_read_stops_process:
  assumes "helper_reachable env s" "\<not> processing (ss_helper s)"
    and "getBlockTop (db_reader env (ss_db s)) 0 = Ret (status, h)" "status \<noteq> DB_SUCCESS"
  shows "\<exists>s1. Process env io fuel s = Ret s1 \<and>
    (\<forall>s2 io' fuel'. (helper_step env)\<^sup>*\<^sup>* s1 s2 \<longrightarrow> Process env io' fuel' s2 = Ret s2)"
proof -
  have ok: "helper_ok (ss_helper s)" "\<not> helperMutex (ss_helper s)" using helper_reachable_ok [OF assms(1)] by auto
  then obtain s1 where p: "Process env io fuel s = Ret s1" "processing (ss_helper s1)"
    using assms(2-4) by (simp add: Process_def Let_def on_helper_def)
  have "helper_ok (ss_helper s1) \<and> \<not> helperMutex (ss_helper s1)"
    using Process_ok [OF ok, of env io fuel] p(1) by (simp add: ensures_def)
  then have "processing (ss_helper s2)" if "(helper_step env)\<^sup>*\<^sup>* s1 s2" for s2
    using helper_steps_processing [OF that] p(2) by blast
  then have "Process env io' fuel' s2 = Ret s2" if "(helper_step env)\<^sup>*\<^sup>* s1 s2" for s2 io' fuel'
    using that by (simp add: Process_def)
  with p(1) show ?thesis by blast
qed

definition empty_state :: "memdb save_state" where
  "empty_state = \<lparr>ss_helper = BlockHelper_new, ss_db = \<lparr>mem_base = Map.empty, mem_batch = Map.empty\<rparr>\<rparr>"

theorem failed_read_stops_process_witness:
  "\<exists>s1. Process tiny_save_env tiny_io 1 empty_state = Ret s1 \<and> Process tiny_save_env tiny_io 1 (s1\<lparr>ss_db := tiny_db\<rparr>) = Ret (s1\<lparr>ss_db := tiny_db\<rparr>)"
proof -
  have r: "helper_reachable tiny_save_env empty_state" unfolding empty_state_def by (rule helper_reachable.init)
  have n: "\<not> processing (ss_helper empty_state)" by (simp add: empty_state_def BlockHelper_new_def)
  have t: "getBlockTop (db_reader tiny_save_env (ss_db empty_state)) 0 = Ret (DB_NOT_FOUND, 0)"
    by (simp add: empty_state_def db_reader_def tiny_save_env_def db_eval BLOCK_TOP_KEY_VALUE_def)
  obtain s1 where s1: "Process tiny_save_env tiny_io 1 empty_state = Ret s1"
      "\<And>s2 io' fuel'. (helper_step tiny_save_env)\<^sup>*\<^sup>* s1 s2 \<Longrightarrow> Process tiny_save_env io' fuel' s2 = Ret s2"
    using failed_read_stops_process [OF r n t, of tiny_io 1] by auto
  have "(helper_step tiny_save_env)\<^sup>*\<^sup>* s1 (s1\<lparr>ss_db := tiny_db\<rparr>)" by (rule r_into_rtranclp) (rule helper_step.database)
  from s1(1) s1(2) [OF this] show ?thesis by blast
qed

subsection \<open>Saving\<close>

text \<open>
  C17. Saving a block follows the chain of waiting blocks to its end. With 1001 levels or more the bound of the model
  plays no part: after the commit of a block, every block that waits at the next height for its hash is saved in
  the same way, with as many levels again, and so are those that wait for these; what becomes of one does not stop
  the others. And saving does not return only if something else than this recursion hangs: a reading or
  check before a commit, or the rollbacks after it.
\<close>

theorem waiting_chain_ends:
  assumes "helper_ok (ss_helper s)" "helperMutex (ss_helper s)" "1001 \<le> fuel"
  shows "SaveBlock env io fuel block t mean s =
      bind_run (save_until_commit env io block t mean s) (\<lambda>r. case r of
        Inl res \<Rightarrow> Ret res
      | Inr s1 \<Rightarrow> bind_run (each_run (\<lambda>s b. bind_run (SaveBlock env io fuel b Broadcast processByPreHash s) (\<lambda>r. Ret (snd r)))
            (on_helper (with_effect (PostTransactionTask block)) s1) (waiting_for block (ss_helper s1))) (\<lambda>s2.
          bind_run (processPostMembershipCancellation env io (ss_db s2) block (ss_helper s2)) (\<lambda>h. Ret (0, s2\<lparr>ss_helper := h\<rparr>)))) \<and>
    (\<forall>s1. save_until_commit env io block t mean s = Ret (Inr s1) \<longrightarrow>
      set (waiting_for block (ss_helper s1)) = {b. bl_height b = bl_height block + 1 \<and> bl_prevHash b = bl_hash block \<and>
        (\<exists>m. map_of (pendingBlocks (ss_helper s)) (bl_height block + 1) = Some m \<and> b \<in> snd ` set m)}) \<and>
    (SaveBlock env io fuel block t mean s = Diverge \<longrightarrow> (\<exists>s1 b t mean. ss_keeps s s1 \<and>
      (save_until_commit env io b t mean s1 = Diverge \<or> processPostMembershipCancellation env io (ss_db s1) b (ss_helper s1) = Diverge)))"
proof -
  have r: "running s" using assms by (simp add: running_def)
  have g: "gap_within 1000 (bl_height block) (ss_helper s)" using assms(1) by (intro gap_within_1000) (simp add: helper_ok_def)
  have w: "set (waiting_for block (ss_helper s1)) = {b. bl_height b = bl_height block + 1 \<and> bl_prevHash b = bl_hash block \<and>
      (\<exists>m. map_of (pendingBlocks (ss_helper s)) (bl_height block + 1) = Some m \<and> b \<in> snd ` set m)}"
    if "save_until_commit env io block t mean s = Ret (Inr s1)" for s1
    using waiting_for_members [of "ss_helper s1" block] save_until_commit_keeps [OF assms(2) that] assms(1)
    by (simp add: ss_keeps_def keeps_def)
  have d: "\<exists>s1. ss_keeps s s1 \<and> part_hangs env io s1" if "SaveBlock env io fuel block t mean s = Diverge"
    using SaveBlock_hangs [OF that g _ r] assms(3) by simp
  from save_follows_chain [OF assms, of env io block t mean] w d show ?thesis
    unfolding save_waiting_def part_hangs_def by blast
qed

definition locked_state :: "memdb save_state" where
  "locked_state = \<lparr>ss_helper = BlockHelper_new\<lparr>helperMutex := True, pendingBlocks := [(9, [(''b'', CBlock_new\<lparr>bl_height := 9, bl_prevHash := ''b''\<rparr>)])]\<rparr>,
     ss_db = tiny_db\<rparr>"

lemma locked_state_ok: "helper_ok (ss_helper locked_state)" "helperMutex (ss_helper locked_state)"
  by (simp_all add: locked_state_def BlockHelper_new_def helper_ok_def pending_ok_def registered_def ordered_map_def CBlock_new_def)

text \<open>
  A node whose save routine writes the block and the new height: a block of height 8 for which one of height 9 waits,
  for which one of height 10 waits.
\<close>

definition write_block :: "CBlock \<Rightarrow> memdb \<Rightarrow> memdb" where
  "write_block b m = snd (rk_put mem_rocks (snd (rk_put mem_rocks m BLOCK_TOP_KEY_VALUE (to_string (bl_height b))))
     (K_BLOCK_HASH_TO_BLOCK_RAW_KEY @ bl_hash b) ''raw'')"

definition chain_env :: "memdb save_env" where
  "chain_env = tiny_save_env\<lparr>se_save_block := (\<lambda>b _ _ d. (\<lparr>ar_code = 0, ar_missing_prehash = False, ar_missing_utxos = []\<rparr>,
     d\<lparr>dbReaderWriter := (dbReaderWriter d)\<lparr>rk := write_block b (rk (dbReaderWriter d))\<rparr>\<rparr>))\<rparr>"

definition stored :: "CBlock \<Rightarrow> memdb \<Rightarrow> memdb" where
  "stored b m = \<lparr>mem_base = (mem_base m)(BLOCK_TOP_KEY_VALUE \<mapsto> to_string (bl_height b),
     K_BLOCK_HASH_TO_BLOCK_RAW_KEY @ bl_hash b \<mapsto> ''raw''), mem_batch = Map.empty\<rparr>"

lemma tiny_new: "new_writer tiny_save_env db =
    \<lparr>dbReaderWriter = \<lparr>inited = True, txn_open = True, rk = db\<lparr>mem_batch := Map.empty\<rparr>\<rparr>, autoOperationTrans = True\<rparr>"
  by (simp add: new_writer_def DBReadWriter_new_def reInitTransaction_def DBReadWriter_transactionRollBack_def transactionInit_def
      mem_rocks_def tiny_save_env_def)

lemma tiny_writer: "DBReadWriter_readData mem_rocks (new_writer tiny_save_env db) key value =
   (if key = [] then Ret (DB_PARAM_NULL, value)
    else case mem_base db key of None \<Rightarrow> Ret (DB_NOT_FOUND, []) | Some v \<Rightarrow> Ret (DB_SUCCESS, v))"
  by (simp add: tiny_new DBReadWriter_readData_def readData_def mem_rocks_def mem_view_def mem_answer_def assign_out_def split: option.splits)

lemma tiny_read: "DBReader_readData mem_rocks \<lparr>inited = True, txn_open = False, rk = db\<rparr> key value =
   (if key = [] then Ret (DB_PARAM_NULL, value)
    else case mem_base db key of None \<Rightarrow> Ret (DB_NOT_FOUND, []) | Some v \<Rightarrow> Ret (DB_SUCCESS, v))"
  by (simp add: DBReader_readData_def reader_readData_def mem_rocks_def mem_answer_def assign_out_def split: option.splits)

lemma key_names: "K_BLOCK_HASH_TO_BLOCK_RAW_KEY @ x \<noteq> BLOCK_TOP_KEY_VALUE" "BLOCK_TOP_KEY_VALUE \<noteq> []" "K_BLOCK_HASH_TO_BLOCK_RAW_KEY @ x \<noteq> []"
  by (simp_all add: BLOCK_TOP_KEY_VALUE_def K_BLOCK_HASH_TO_BLOCK_RAW_KEY_def)

lemma top_read:
  "rd BLOCK_TOP_KEY_VALUE [] = Ret (DB_SUCCESS, to_string (h :: u64)) \<Longrightarrow> getBlockTop rd 0 = Ret (DB_SUCCESS, h)"
  by (simp add: getBlockTop_def read_unsigned_def read_then_def)

lemma stored_top: "mem_base (stored b m) BLOCK_TOP_KEY_VALUE = Some (to_string (bl_height b))"
  using key_names(1) [of "bl_hash b"] by (auto simp: stored_def)

lemma stored_raw: "mem_base (stored b m) (K_BLOCK_HASH_TO_BLOCK_RAW_KEY @ x) =
   (if x = bl_hash b then Some ''raw'' else mem_base m (K_BLOCK_HASH_TO_BLOCK_RAW_KEY @ x))"
  by (simp add: stored_def key_names)

lemma chain_commit:
  assumes "mem_base (ss_db s) BLOCK_TOP_KEY_VALUE = Some (to_string (h :: u64))" "\<not> h + 2 \<le> bl_height b" "bl_txs b = []"
    and "mem_base (ss_db s) (K_BLOCK_HASH_TO_BLOCK_RAW_KEY @ bl_hash b) = None" "bl_hash b \<noteq> []"
  shows "save_until_commit chain_env tiny_io b Broadcast processByPreHash s =
    Ret (Inr (s\<lparr>ss_helper := block_committed b (resetMissingPrehash (ss_helper s)), ss_db := stored b (ss_db s)\<rparr>))"
proof -
  let ?d = "new_writer chain_env (ss_db s)"
  have n: "?d = new_writer tiny_save_env (ss_db s)" by (simp add: chain_env_def new_writer_def tiny_save_env_def)
  have o: "se_ops chain_env = mem_rocks" by (simp add: chain_env_def tiny_save_env_def)
  have rd: "getBlockTop (DBReadWriter_readData mem_rocks ?d) 0 = Ret (DB_SUCCESS, h)"
    by (rule top_read) (simp add: n tiny_writer key_names assms(1))
  have raw: "getBlockByBlockHash (DBReadWriter_readData mem_rocks ?d) (bl_hash b) [] = Ret (DB_NOT_FOUND, [])"
    using assms(4,5) by (simp add: getBlockByBlockHash_def n tiny_writer key_names)
  have "se_open chain_env" by (simp add: chain_env_def tiny_save_env_def)
  then have top: "getBlockTop (db_reader chain_env (rk (dbReaderWriter ?d))) 0 = Ret (DB_SUCCESS, h)"
    by (intro top_read) (simp add: n tiny_new db_reader_def o tiny_read key_names assms(1))
  have pre: "PreSaveProcess chain_env tiny_io (rk (dbReaderWriter ?d)) b Broadcast processByPreHash (ss_helper s) = Ret (0, ss_helper s)"
    using assms(3) by (simp add: PreSaveProcess_def top) (simp add: chain_env_def tiny_save_env_def)
  have save: "se_save_block chain_env b Broadcast processByPreHash ?d =
      (\<lparr>ar_code = 0, ar_missing_prehash = False, ar_missing_utxos = []\<rparr>,
       ?d\<lparr>dbReaderWriter := (dbReaderWriter ?d)\<lparr>rk := write_block b (rk (dbReaderWriter ?d))\<rparr>\<rparr>)"
    by (simp add: chain_env_def)
  have commit: "DBReadWriter_transactionCommit mem_rocks (?d\<lparr>dbReaderWriter := (dbReaderWriter ?d)\<lparr>rk := write_block b (rk (dbReaderWriter ?d))\<rparr>\<rparr>) =
      (DB_SUCCESS, \<lparr>dbReaderWriter = \<lparr>inited = True, txn_open = False, rk = stored b (ss_db s)\<rparr>, autoOperationTrans = False\<rparr>)"
    by (auto simp: n tiny_new DBReadWriter_transactionCommit_def transactionCommit_def write_block_def mem_rocks_def stored_def mem_view_def fun_eq_iff)
  show ?thesis
    using assms(2) by (simp add: save_until_commit_def Let_def o rd raw pre save commit report_missing_def close_writer_def
        DBReadWriter_transactionRollBack_def)
qed

lemma chain_next:
  assumes "SaveBlock chain_env tiny_io fuel b Broadcast processByPreHash s =
      bind_run (save_until_commit chain_env tiny_io b Broadcast processByPreHash s) (\<lambda>r. case r of
        Inl res \<Rightarrow> Ret res | Inr s1 \<Rightarrow> save_waiting (\<lambda>s b. SaveBlock chain_env tiny_io fuel b Broadcast processByPreHash s) chain_env tiny_io b s1)"
    and "running s"
    and "mem_base (ss_db s) BLOCK_TOP_KEY_VALUE = Some (to_string (h :: u64))" "\<not> h + 2 \<le> bl_height b" "bl_txs b = []"
    and "mem_base (ss_db s) (K_BLOCK_HASH_TO_BLOCK_RAW_KEY @ bl_hash b) = None" "bl_hash b \<noteq> []"
    and goes_on: "\<And>s1. running s1 \<Longrightarrow> pendingBlocks (ss_helper s1) = pendingBlocks (ss_helper s) \<Longrightarrow> ss_db s1 = stored b (ss_db s) \<Longrightarrow>
      \<exists>s2. each_run (\<lambda>s b. bind_run (SaveBlock chain_env tiny_io fuel b Broadcast processByPreHash s) (\<lambda>r. Ret (snd r))) s1
        (waiting_for b (ss_helper s)) = Ret s2 \<and> ss_db s2 = db"
  shows "\<exists>s2. SaveBlock chain_env tiny_io fuel b Broadcast processByPreHash s = Ret (0, s2) \<and> ss_db s2 = db"
proof -
  let ?s = "s\<lparr>ss_helper := block_committed b (resetMissingPrehash (ss_helper s)), ss_db := stored b (ss_db s)\<rparr>"
  let ?s1 = "on_helper (with_effect (PostTransactionTask b)) ?s"
  have c: "save_until_commit chain_env tiny_io b Broadcast processByPreHash s = Ret (Inr ?s)" by (rule chain_commit [OF assms(3-7)])
  have "keeps (ss_helper s) (ss_helper ?s1)"
    using keeps_trans [OF keeps_trans [OF keeps_reset keeps_block_committed] keeps_with_effect] by (simp add: on_helper_def)
  then have k: "ss_keeps s ?s1" by (simp add: ss_keeps_def)
  have p: "pendingBlocks (ss_helper ?s1) = pendingBlocks (ss_helper s)" "ss_db ?s1 = stored b (ss_db s)"
    using k by (simp_all add: ss_keeps_def keeps_def) (simp add: on_helper_def)
  have w: "waiting_for b (block_committed b (resetMissingPrehash (ss_helper s))) = waiting_for b (ss_helper s)"
    by (simp add: waiting_for_def block_committed_def with_effect_def resetMissingPrehash_def)
  obtain s2 where s2: "each_run (\<lambda>s b. bind_run (SaveBlock chain_env tiny_io fuel b Broadcast processByPreHash s) (\<lambda>r. Ret (snd r))) ?s1
      (waiting_for b (ss_helper s)) = Ret s2" "ss_db s2 = db"
    using goes_on [OF running_keeps [OF assms(2) k] p] by blast
  show ?thesis unfolding assms(1) c using s2 assms(5) by (simp add: save_waiting_def w processPostMembershipCancellation_def)
qed

definition chain_block :: "u64 \<Rightarrow> cxx_string \<Rightarrow> cxx_string \<Rightarrow> CBlock" where
  "chain_block height prev hash = CBlock_new\<lparr>bl_height := height, bl_prevHash := prev, bl_hash := hash\<rparr>"

definition chain_state :: "memdb save_state" where
  "chain_state = \<lparr>ss_helper = BlockHelper_new\<lparr>helperMutex := True, pendingBlocks := [(9, [(''b'', chain_block 9 ''b'' ''c'')]),
     (10, [(''c'', chain_block 10 ''c'' ''d'')])]\<rparr>, ss_db = tiny_db\<rparr>"

lemma chain_block_fields [simp]:
  "bl_height (chain_block n p h) = n" "bl_prevHash (chain_block n p h) = p" "bl_hash (chain_block n p h) = h" "bl_txs (chain_block n p h) = []"
  by (simp_all add: chain_block_def CBlock_new_def)

lemma tiny_db_reads: "mem_base tiny_db BLOCK_TOP_KEY_VALUE = Some (to_string (7 :: u64))"
  "x \<noteq> ''p'' \<Longrightarrow> mem_base tiny_db (K_BLOCK_HASH_TO_BLOCK_RAW_KEY @ x) = None"
  by (simp_all add: tiny_db_def BLOCK_TOP_KEY_VALUE_def K_BLOCK_HASH_TO_BLOCK_RAW_KEY_def kBlockHeightToBlockHashKey_def)

theorem waiting_chain_ends_witness:
  "\<exists>s'. SaveBlock chain_env tiny_io 5000 (chain_block 8 ''p'' ''b'') Broadcast processByPreHash chain_state = Ret (0, s') \<and>
     ss_db s' = stored (chain_block 10 ''c'' ''d'') (stored (chain_block 9 ''b'' ''c'') (stored (chain_block 8 ''p'' ''b'') tiny_db))"
proof -
  let ?b = "chain_block 8 ''p'' ''b''" and ?c = "chain_block 9 ''b'' ''c''" and ?d = "chain_block 10 ''c'' ''d''"
  let ?save = "\<lambda>s b. SaveBlock chain_env tiny_io 5000 b Broadcast processByPreHash s"
  let ?final = "stored ?d (stored ?c (stored ?b tiny_db))"
  note db = stored_top stored_raw tiny_db_reads
  have r: "helper_ok (ss_helper chain_state)" "helperMutex (ss_helper chain_state)" "running chain_state"
    by (simp_all add: chain_state_def running_def BlockHelper_new_def helper_ok_def pending_ok_def registered_def ordered_map_def)
  have w: "waiting_for ?b (ss_helper chain_state) = [?c]" "waiting_for ?c (ss_helper chain_state) = [?d]" "waiting_for ?d (ss_helper chain_state) = []"
    by (simp_all add: waiting_for_def chain_state_def)
  have wp: "waiting_for b h = waiting_for b h'" if "pendingBlocks h = pendingBlocks h'" for b h h' using that by (simp add: waiting_for_def)
  have eq: "?save s b = bind_run (save_until_commit chain_env tiny_io b Broadcast processByPreHash s) (\<lambda>r. case r of
      Inl res \<Rightarrow> Ret res | Inr s1 \<Rightarrow> save_waiting ?save chain_env tiny_io b s1)" if "running s" for s b
    using that by (intro save_follows_chain) (simp_all add: running_def)
  have d: "\<exists>s2. ?save s ?d = Ret (0, s2) \<and> ss_db s2 = ?final"
    if "running s" "pendingBlocks (ss_helper s) = pendingBlocks (ss_helper chain_state)" "ss_db s = stored ?c (stored ?b tiny_db)" for s
    by (rule chain_next [OF eq [OF that(1)] that(1), where h = 9]) (simp_all add: that(3) db wp [OF that(2), of ?d] w)
  have c: "\<exists>s2. ?save s ?c = Ret (0, s2) \<and> ss_db s2 = ?final"
    if "running s" "pendingBlocks (ss_helper s) = pendingBlocks (ss_helper chain_state)" "ss_db s = stored ?b tiny_db" for s
  proof (rule chain_next [OF eq [OF that(1)] that(1), where h = 8])
    fix s1
    assume "running s1" "pendingBlocks (ss_helper s1) = pendingBlocks (ss_helper s)" "ss_db s1 = stored ?c (ss_db s)"
    then have "\<exists>s2. ?save s1 ?d = Ret (0, s2) \<and> ss_db s2 = ?final" using that(2,3) by (intro d) simp_all
    then obtain s2 where "?save s1 ?d = Ret (0, s2)" "ss_db s2 = ?final" by blast
    then show "\<exists>s2. each_run (\<lambda>s b. bind_run (?save s b) (\<lambda>r. Ret (snd r))) s1 (waiting_for ?c (ss_helper s)) = Ret s2 \<and> ss_db s2 = ?final"
      by (simp add: wp [OF that(2), of ?c] w)
  qed (simp_all add: that(3) db)
  show ?thesis
  proof (rule chain_next [where h = 7])
    show "?save chain_state ?b = bind_run (save_until_commit chain_env tiny_io ?b Broadcast processByPreHash chain_state) (\<lambda>r. case r of
        Inl res \<Rightarrow> Ret res | Inr s1 \<Rightarrow> save_waiting ?save chain_env tiny_io ?b s1)"
      unfolding save_waiting_def by (rule waiting_chain_ends [OF r(1,2), THEN conjunct1]) simp
  next
    fix s1
    assume "running s1" "pendingBlocks (ss_helper s1) = pendingBlocks (ss_helper chain_state)" "ss_db s1 = stored ?b (ss_db chain_state)"
    then obtain s2 where "?save s1 ?c = Ret (0, s2)" "ss_db s2 = ?final" using c [of s1] by (auto simp: chain_state_def)
    then show "\<exists>s2. each_run (\<lambda>s b. bind_run (?save s b) (\<lambda>r. Ret (snd r))) s1 (waiting_for ?b (ss_helper chain_state)) = Ret s2 \<and> ss_db s2 = ?final"
      by (simp add: w)
  qed (use r(3) in \<open>simp_all add: chain_state_def db\<close>)
qed

text \<open>
  A block of the fast synchronization never sends the node back for a new synchronization: the code -2, on which the
  timer would do so, is none of those saving returns, which are 0 and -3 to -9.
\<close>

theorem fast_restart_unreachable:
  assumes "helperMutex (ss_helper s)" "save_fast env io fuel nodeHeight bs s = Ret (returned, s')"
  shows "\<not> returned \<and> (\<forall>block t mean code s1. SaveBlock env io fuel block t mean s = Ret (code, s1) \<longrightarrow> code \<in> {0, -3, -4, -5, -6, -7, -8, -9})"
  using save_fast_keeps [OF assms(1), of env io fuel nodeHeight bs] assms(2) SaveBlock_keeps [OF assms(1), of env io fuel]
  by (fastforce simp: ensures_def save_codes_def)

lemma tiny_save_fails:
  "\<exists>s'. SaveBlock tiny_save_env tiny_io (Suc n) tiny_block Unknow Normal locked_state = Ret (-8, s')"
proof -
  have t: "getBlockTop (DBReadWriter_readData mem_rocks (new_writer tiny_save_env tiny_db)) 0 = Ret (DB_SUCCESS, 7)"
    by (simp add: getBlockTop_def read_unsigned_def read_then_def tiny_writer tiny_db_def BLOCK_TOP_KEY_VALUE_def
        K_BLOCK_HASH_TO_BLOCK_RAW_KEY_def kBlockHeightToBlockHashKey_def)
  have b: "getBlockByBlockHash (DBReadWriter_readData mem_rocks (new_writer tiny_save_env tiny_db)) ''b'' [] = Ret (DB_NOT_FOUND, [])"
    by (simp add: getBlockByBlockHash_def tiny_writer tiny_db_def BLOCK_TOP_KEY_VALUE_def K_BLOCK_HASH_TO_BLOCK_RAW_KEY_def
        kBlockHeightToBlockHashKey_def)
  have e: "se_ops tiny_save_env = mem_rocks" "se_save_block tiny_save_env = (\<lambda>_ _ _ d. (\<lparr>ar_code = -1, ar_missing_prehash = False, ar_missing_utxos = []\<rparr>, d))"
    by (simp_all add: tiny_save_env_def)
  have d: "ss_db locked_state = tiny_db" "bl_height tiny_block = 8" "bl_hash tiny_block = ''b''"
    by (simp_all add: locked_state_def tiny_block_def CBlock_new_def)
  have "fst (save_failed tiny_block Unknow (report_missing \<lparr>ar_code = -1, ar_missing_prehash = False, ar_missing_utxos = []\<rparr>
      (resetMissingPrehash (ss_helper locked_state)))) = -8"
    by (simp add: save_failed_def report_missing_def resetMissingPrehash_def locked_state_def BlockHelper_new_def)
  then show ?thesis
    by (simp add: SaveBlock.simps Let_def e t b d PreSaveProcess_def case_prod_beta)
qed

theorem fast_restart_unreachable_witness:
  "\<exists>s'. save_fast tiny_save_env tiny_io 1 0 [tiny_block] locked_state = Ret (False, s')"
proof -
  have g: "g_syncType (ss_helper locked_state) = Unknow" by (simp add: locked_state_def BlockHelper_new_def)
  have h: "bl_height tiny_block = 8" by (simp add: tiny_block_def CBlock_new_def)
  obtain s1 where s1: "SaveBlock tiny_save_env tiny_io 1 tiny_block Unknow Normal locked_state = Ret (-8, s1)"
    using tiny_save_fails [of 0] by auto
  have r: "save_fast tiny_save_env tiny_io 1 0 [tiny_block] locked_state = Ret (False, s1)"
    by (simp add: g h s1 [simplified])
  with fast_restart_unreachable [OF locked_state_ok(2) r] show ?thesis by simp
qed


text \<open>
  C16. A block that is not saved leaves the committed database as it was when saving stopped before the save routine
  of \<open>ca_algorithm\<close> (codes -3 to -5), and otherwise, when the routine or the commit failed, as that routine left
  it, the transaction it was given having none of its own changes committed at the start: what the routine wrote into
  the transaction without committing it is never committed, and nothing else is.
\<close>

theorem failed_save_keeps_database:
  assumes "rocksdb (se_ops env) view committed" "SaveBlock env io fuel block t mean s = Ret (code, s')" "code \<noteq> 0"
  shows "(if code \<in> {-3, -4, -5} then committed (ss_db s') = committed (ss_db s)
     else committed (ss_db s') = committed (rk (dbReaderWriter (snd (se_save_block env block t mean (new_writer env (ss_db s))))))) \<and>
    committed (rk (dbReaderWriter (new_writer env (ss_db s)))) = committed (ss_db s)"
  using rocksdb.failed_save_committed [OF assms(1) refl assms(2,3)] rocksdb.new_writer_committed [OF assms(1) refl]
  by (simp add: algorithm_writer_def)

text \<open>A routine that writes a key and then fails.\<close>

definition writing_env :: "memdb save_env" where
  "writing_env = tiny_save_env\<lparr>se_save_block := (\<lambda>b _ _ d. (\<lparr>ar_code = -1, ar_missing_prehash = False, ar_missing_utxos = []\<rparr>,
     d\<lparr>dbReaderWriter := (dbReaderWriter d)\<lparr>rk := write_block b (rk (dbReaderWriter d))\<rparr>\<rparr>))\<rparr>"

theorem failed_save_keeps_database_witness:
  "\<exists>s'. SaveBlock writing_env tiny_io 1 tiny_block Unknow Normal locked_state = Ret (-8, s') \<and> mem_base (ss_db s') = mem_base tiny_db \<and>
     mem_view (rk (dbReaderWriter (algorithm_writer writing_env tiny_block Unknow Normal tiny_db))) (K_BLOCK_HASH_TO_BLOCK_RAW_KEY @ ''b'') = Some ''raw''"
proof -
  have n: "new_writer writing_env db = new_writer tiny_save_env db" for db by (simp add: writing_env_def new_writer_def tiny_save_env_def)
  have o: "se_ops writing_env = mem_rocks" by (simp add: writing_env_def tiny_save_env_def)
  let ?r = "\<lparr>ar_code = -1, ar_missing_prehash = False, ar_missing_utxos = []\<rparr>"
  have w: "se_save_block writing_env b t m d = (?r, d\<lparr>dbReaderWriter := (dbReaderWriter d)\<lparr>rk := write_block b (rk (dbReaderWriter d))\<rparr>\<rparr>)" for b t m d
    by (simp add: writing_env_def)
  have b: "ss_db locked_state = tiny_db" "bl_height tiny_block = 8" "bl_hash tiny_block = ''b''"
    by (simp_all add: locked_state_def tiny_block_def CBlock_new_def)
  have t: "getBlockTop (DBReadWriter_readData mem_rocks (new_writer tiny_save_env tiny_db)) 0 = Ret (DB_SUCCESS, 7)"
    by (rule top_read) (simp add: tiny_writer tiny_db_def BLOCK_TOP_KEY_VALUE_def K_BLOCK_HASH_TO_BLOCK_RAW_KEY_def kBlockHeightToBlockHashKey_def)
  have g: "getBlockByBlockHash (DBReadWriter_readData mem_rocks (new_writer tiny_save_env tiny_db)) ''b'' [] = Ret (DB_NOT_FOUND, [])"
    by (simp add: getBlockByBlockHash_def tiny_writer tiny_db_def BLOCK_TOP_KEY_VALUE_def K_BLOCK_HASH_TO_BLOCK_RAW_KEY_def kBlockHeightToBlockHashKey_def)
  have f: "fst (save_failed tiny_block Unknow (report_missing ?r (resetMissingPrehash (ss_helper locked_state)))) = -8"
    by (simp add: save_failed_def report_missing_def resetMissingPrehash_def locked_state_def BlockHelper_new_def)
  obtain s' where s': "SaveBlock writing_env tiny_io 1 tiny_block Unknow Normal locked_state = Ret (-8, s')"
    using f by (simp add: SaveBlock.simps Let_def o n t g b w PreSaveProcess_def case_prod_beta)
  have r: "rocksdb (se_ops writing_env) mem_view mem_base" using mem.rocksdb_axioms by (simp add: o)
  show ?thesis using failed_save_keeps_database [OF r s'] s'
    by (auto simp: b n w algorithm_writer_def tiny_new write_block_def mem_rocks_def mem_view_def)
qed

subsection \<open>Votes for a block that was looked for\<close>

lemma seek_vote_map: "map_of (seek_vote m b) =
   (map_of m)(ht_hash b \<mapsto> (case map_of m (ht_hash b) of None \<Rightarrow> (ht_block_raw b, 2) | Some (raw, n) \<Rightarrow> (raw, n + 1)))"
  by (auto simp: seek_vote_def Let_def fun_eq_iff split: option.splits)

lemma seek_vote_ordered: "ordered_map m \<Longrightarrow> ordered_map (seek_vote m b)"
  by (auto simp: seek_vote_def Let_def split: prod.splits)

lemma seek_votes_ordered: "ordered_map m \<Longrightarrow> ordered_map (foldl seek_vote m bs)"
  by (induction bs arbitrary: m) (simp_all add: seek_vote_ordered)

lemma seek_votes_counted:
  "map_option snd (map_of (foldl seek_vote [] bs) k) =
     (let n = count_list (map ht_hash bs) k in if n = 0 then None else Some (n + 1))"
proof (induction bs rule: rev_induct)
  case (snoc b bs)
  then show ?case by (cases "map_of (foldl seek_vote [] bs) k") (auto simp: seek_vote_map Let_def split: if_splits)
qed simp

text \<open>
  Of the blocks listed in the answers to a request by hash, those are kept that are listed at least as often as four for
  each five answers, the first listing counting twice; so with fewer than five answers a single node decides.
\<close>

theorem seek_threshold:
  assumes "seek_result parse (collect_seek parse_ack retDatas) = Some blocks"
  shows "(\<exists>b. (b, k) \<in> set blocks) \<longleftrightarrow>
    (let acks = List.map_filter parse_ack retDatas; n = count_list (map ht_hash (concat (map hba_blocks acks))) k
     in 0 < n \<and> length acks div 5 * 4 \<le> n)"
proof -
  let ?acks = "List.map_filter parse_ack retDatas"
  let ?bs = "concat (map hba_blocks ?acks)"
  let ?m = "foldl seek_vote [] ?bs" and ?n = "count_list (map ht_hash ?bs) k" and ?t = "length ?acks div 5 * 4"
  have d: "distinct (map fst ?m)" by (rule ordered_map_distinct) (simp add: seek_votes_ordered)
  have "(\<exists>b. (b, k) \<in> set blocks) \<longleftrightarrow> (\<exists>v. (k, v) \<in> set ?m \<and> ?t < snd v)"
    using assms by (force simp: seek_result_def collect_seek_def Let_def split: if_splits)
  also have "\<dots> \<longleftrightarrow> (\<exists>v. map_of ?m k = Some v \<and> ?t < snd v)" by (simp add: map_of_eq_Some_iff [OF d] del: foldl_conv_fold)
  also have "\<dots> \<longleftrightarrow> (\<exists>c. map_option snd (map_of ?m k) = Some c \<and> ?t < c)" by auto
  also have "\<dots> \<longleftrightarrow> 0 < ?n \<and> ?t \<le> ?n" by (auto simp: seek_votes_counted Let_def)
  finally show ?thesis by (simp add: Let_def)
qed

definition one_ack :: GetBlockByHashAck where
  "one_ack = \<lparr>hba_addr = [], hba_blocks = [\<lparr>ht_hash = ''h'', ht_tx_or_block = False, ht_block_raw = ''raw''\<rparr>], hba_msg_id = []\<rparr>"

definition one_round :: "nat \<times> seek_votes" where
  "one_round = collect_seek (\<lambda>raw. if raw = ''ok'' then Some one_ack else None) [''ok'', ''bad'']"

theorem seek_threshold_witness:
  "\<exists>b. (b, ''h'') \<in> set (the (seek_result (\<lambda>_. Some tiny_block) one_round))"
proof -
  have r: "seek_result (\<lambda>_. Some tiny_block) one_round = Some [(tiny_block, ''h'')]"
    by (simp add: one_round_def seek_result_def collect_seek_def List.map_filter_def one_ack_def seek_vote_def)
  from seek_threshold [OF r [unfolded one_round_def], of "''h''"] show ?thesis
    by (simp add: r List.map_filter_def one_ack_def)
qed

subsection \<open>Conflicting broadcast blocks\<close>

text \<open>
  A broadcast block that passes the first checks is registered as seen. It takes the place of the first queued block it
  conflicts with unless that one is older; other conflicting blocks are not looked at and stay queued with it.
\<close>

theorem broadcast_admission:
  assumes "\<not> helperMutex h" "map_of (duplicateChecker h) (bl_hash block) = None" "map_of (doubleSpendBlocks h) (bl_hash block) = None"
    and "getBlockTop rd 0 = Ret (DB_SUCCESS, top_height)" "getBlockByBlockHash rd (bl_prevHash block) [] = Ret (DB_SUCCESS, raw)"
    and "\<not> he_is_contract env block" "bl_height block \<le> top_height + 1000"
  shows "\<exists>h'. AddBroadcastBlock env io rd mrd block status h = Ret h' \<and>
    map_of (duplicateChecker h') (bl_hash block) = Some (status, bl_time block) \<and>
    broadcastBlocks h' = (case find (\<lambda>cur. blocks_conflict env cur block) (broadcastBlocks h) of
      None \<Rightarrow> set_insert blockTimeAscending block (broadcastBlocks h)
    | Some cur \<Rightarrow> if older_than cur block then broadcastBlocks h
        else set_insert blockTimeAscending block (remove1 cur (broadcastBlocks h)))"
  using assms
  by (auto simp: AddBroadcastBlock_def locked_def resolve_conflict_def accept_broadcast_def queue_broadcast_def Let_def with_effect_def
      split: option.splits bool.splits)

definition spending :: "cxx_string \<Rightarrow> cxx_string list \<Rightarrow> u64 \<Rightarrow> CBlock" where
  "spending hash outputs t = tiny_block\<lparr>bl_hash := hash, bl_time := t, bl_txs := [\<lparr>tx_time = 0, tx_hash = hash, tx_txType = 1,
     tx_utxos = [\<lparr>ux_owner = [], ux_vin = [\<lparr>vi_prevOut = map (\<lambda>u. \<lparr>po_hash = u, po_n = 0\<rparr>) outputs, vi_pub = ''a'', vi_contractAddr = []\<rparr>],
       ux_assetType = [], ux_vout = [], ux_gasUtxo = 0\<rparr>], tx_version = 0, tx_identity = [], tx_data = []\<rparr>]\<rparr>"

theorem broadcast_admission_witness:
  "\<exists>h'. AddBroadcastBlock tiny_env tiny_io (db_reader tiny_save_env tiny_db) (db_mreader tiny_save_env tiny_db)
      (spending ''z'' [''u'', ''v''] 1) True
      (BlockHelper_new\<lparr>broadcastBlocks := [spending ''x'' [''u''] 5, spending ''y'' [''v''] 6]\<rparr>) = Ret h' \<and>
    broadcastBlocks h' = [spending ''z'' [''u'', ''v''] 1, spending ''y'' [''v''] 6] \<and>
    blocks_conflict tiny_env (spending ''y'' [''v''] 6) (spending ''z'' [''u'', ''v''] 1)"
proof -
  let ?z = "spending ''z'' [''u'', ''v''] 1" and ?x = "spending ''x'' [''u''] 5" and ?y = "spending ''y'' [''v''] 6"
  let ?h = "BlockHelper_new\<lparr>broadcastBlocks := [?x, ?y]\<rparr>"
  have c: "blocks_conflict tiny_env ?x ?z" "blocks_conflict tiny_env ?y ?z"
    by (simp_all add: blocks_conflict_def CheckConflict_blocks_def CheckConflict_iff spending_def tiny_env_def spent_def
        spent_by_input_def kTransactionTypeTx_def)
  have o: "\<not> older_than ?x ?z" "blockTimeAscending ?z ?y"
    by (simp_all add: older_than_def blockTimeAscending_def spending_def tiny_block_def CBlock_new_def word_le_nat_alt)
  have p: "\<not> helperMutex ?h" "map_of (duplicateChecker ?h) (bl_hash ?z) = None" "map_of (doubleSpendBlocks ?h) (bl_hash ?z) = None"
    "broadcastBlocks ?h = [?x, ?y]" "\<not> he_is_contract tiny_env ?z" "bl_height ?z \<le> 7 + 1000"
    "getBlockByBlockHash (db_reader tiny_save_env tiny_db) (bl_prevHash ?z) [] = Ret (DB_SUCCESS, ''P'')"
    using tiny_prev by (simp_all add: BlockHelper_new_def tiny_env_def spending_def tiny_block_def CBlock_new_def)
  show ?thesis
    using broadcast_admission [OF p(1-3) tiny_top p(7,5,6), of tiny_io "db_mreader tiny_save_env tiny_db" True] c o p(4) by auto
qed

end
