(* ===== verification/Doubles.thy ===== *)
theory Doubles
  imports Complex_Main DoubleArith
begin

text \<open>
  Values of type \<open>double\<close> in general: rational numbers, with every operation rounded to 53
  significant bits, ties to even (\<open>rnd\<close>). The numbers the node computes with are shares of counts and
  heights, far from the ends of the exponent's range, so there is no overflow and no gradual underflow
  here. \<open>DoubleArith\<close> has the special case of an integer times a constant.
\<close>

subsection \<open>Rounding\<close>

definition exponent :: "rat \<Rightarrow> int" where
  "exponent x = (case quotient_of x of (n, d) \<Rightarrow>
     let k = int (bit_length (nat n)) - int (bit_length (nat d)) in if 2 powi k \<le> x then k else k - 1)"

definition round_even :: "rat \<Rightarrow> int" where
  "round_even x =
     (let q = \<lfloor>x\<rfloor>; r = x - of_int q in if r < 1 / 2 \<or> (r = 1 / 2 \<and> even q) then q else q + 1)"

definition rnd_pos :: "rat \<Rightarrow> rat" where
  "rnd_pos x = of_int (round_even (x * 2 powi (52 - exponent x))) * 2 powi (exponent x - 52)"

definition rnd :: "rat \<Rightarrow> rat" where
  "rnd x = (if x = 0 then 0 else if x < 0 then - rnd_pos (- x) else rnd_pos x)"

text \<open>\<open>std::round\<close>: to the nearest integer, halves away from zero.\<close>

definition std_round :: "rat \<Rightarrow> rat" where
  "std_round x = (if x < 0 then - of_int \<lfloor>- x + 1 / 2\<rfloor> else of_int \<lfloor>x + 1 / 2\<rfloor>)"

subsection \<open>Facts\<close>

lemma bit_length_log: "0 < n \<Longrightarrow> 2 powi (int (bit_length n) - 1) \<le> (of_nat n :: rat) \<and> of_nat n < (2 powi int (bit_length n) :: rat)"
proof -
  assume n: "0 < n"
  have b: "n < 2 ^ bit_length n" "2 ^ bit_length n \<le> 2 * n" using bit_length_bounds [of n] n by auto
  have "(of_nat (2 ^ bit_length n) :: rat) \<le> of_nat (2 * n)" using b(2) by (simp only: of_nat_le_iff)
  moreover have "(of_nat n :: rat) < of_nat (2 ^ bit_length n)" using b(1) by (simp only: of_nat_less_iff)
  ultimately show ?thesis by (simp add: power_int_diff power_int_of_nat)
qed

lemma exponent_bounds:
  assumes "0 < x"
  shows "2 powi exponent x \<le> x" "x < 2 powi (exponent x + 1)"
proof -
  obtain n d where q: "quotient_of x = (n, d)" by (cases "quotient_of x")
  have d: "0 < d" using quotient_of_denom_pos [OF q] .
  have x: "x = of_int n / of_int d" using quotient_of_div [OF q] .
  have n: "0 < n" using assms d x by (simp add: zero_less_divide_iff)
  define a b where "a = nat n" "b = nat d"
  have ab: "0 < a" "0 < b" "x = of_nat a / of_nat b" using n d x by (auto simp: a_b_def)
  define i j where "i = int (bit_length a)" "j = int (bit_length b)"
  have A: "2 powi (i - 1) \<le> (of_nat a :: rat)" "of_nat a < (2 powi i :: rat)"
    and B: "2 powi (j - 1) \<le> (of_nat b :: rat)" "of_nat b < (2 powi j :: rat)"
    using bit_length_log [OF ab(1)] bit_length_log [OF ab(2)] by (auto simp: i_j_def)
  have p: "(0::rat) < of_nat a" "(0::rat) < of_nat b" using ab by auto
  have z: "(0::rat) < 2 powi (j - 1)" "(0::rat) < 2 powi j" by simp_all
  have "2 powi (i - 1) / 2 powi j \<le> x" unfolding ab(3) using A(1) B(2) p z by (intro frac_le) auto
  then have lo: "2 powi (i - j - 1) \<le> x" by (simp add: power_int_diff power_int_add field_simps)
  have "x < 2 powi i / 2 powi (j - 1)" unfolding ab(3) using A(2) B(1) p z by (intro frac_less) auto
  then have hi: "x < 2 powi (i - j + 1)" by (simp add: power_int_diff power_int_add field_simps)
  have e: "exponent x = (if 2 powi (i - j) \<le> x then i - j else i - j - 1)"
    by (simp add: exponent_def q a_b_def [symmetric] i_j_def Let_def)
  show "2 powi exponent x \<le> x" using lo by (simp add: e)
  show "x < 2 powi (exponent x + 1)" using hi by (simp add: e)
qed

lemma round_even_near: "\<bar>of_int (round_even x) - x\<bar> \<le> 1 / 2"
proof -
  define q where "q = (of_int \<lfloor>x\<rfloor> :: rat)"
  have "q \<le> x" "x < q + 1" unfolding q_def by linarith+
  then show ?thesis by (auto simp: round_even_def Let_def abs_if q_def [symmetric])
qed

lemma round_even_int [simp]: "round_even (of_int k) = k"
  by (simp add: round_even_def)

lemma round_even_mono: "x \<le> y \<Longrightarrow> round_even x \<le> round_even y"
proof -
  assume xy: "x \<le> y"
  have f: "\<lfloor>x\<rfloor> \<le> \<lfloor>y\<rfloor>" by (rule floor_mono [OF xy])
  have r: "\<lfloor>z\<rfloor> \<le> round_even z \<and> round_even z \<le> \<lfloor>z\<rfloor> + 1" for z by (simp add: round_even_def Let_def)
  show ?thesis
  proof (cases "\<lfloor>x\<rfloor> = \<lfloor>y\<rfloor>")
    case True
    then show ?thesis using xy by (auto simp: round_even_def Let_def)
  next
    case False
    then have "\<lfloor>x\<rfloor> + 1 \<le> \<lfloor>y\<rfloor>" using f by linarith
    then show ?thesis using r [of x] r [of y] by linarith
  qed
qed

text \<open>Rounding keeps the binary order of magnitude, so it is monotone.\<close>

lemma rnd_pos_bounds:
  assumes "0 < x"
  shows "2 powi exponent x \<le> rnd_pos x" "rnd_pos x \<le> 2 powi (exponent x + 1)" "\<bar>rnd_pos x - x\<bar> \<le> x * 2 powi (- 53)"
proof -
  let ?e = "exponent x"
  define u where "u = (2 powi (?e - 52) :: rat)"
  have u: "0 < u" by (simp add: u_def)
  have sc: "2 powi (52 - ?e) = 1 / u" by (simp add: u_def power_int_diff field_simps)
  have r: "rnd_pos x = of_int (round_even (x / u)) * u" by (simp add: rnd_pos_def sc u_def)
  have e2: "2 powi ?e = 2 ^ 52 * u" "2 powi (?e + 1) = 2 ^ 53 * u"
    by (simp_all add: u_def power_int_diff power_int_add field_simps)
  have b: "2 ^ 52 \<le> x / u" "x / u \<le> 2 ^ 53"
    using exponent_bounds [OF assms] u unfolding e2 by (simp_all add: field_simps)
  have "round_even (of_int (2 ^ 52)) \<le> round_even (x / u)" "round_even (x / u) \<le> round_even (of_int (2 ^ 53))"
    by (rule round_even_mono, use b in simp)+
  then have i: "2 ^ 52 \<le> round_even (x / u)" "round_even (x / u) \<le> 2 ^ 53" by (simp_all only: round_even_int)
  have i': "(2 ^ 52 :: rat) \<le> of_int (round_even (x / u))" "(of_int (round_even (x / u)) :: rat) \<le> 2 ^ 53"
    using i by (metis of_int_le_iff of_int_numeral of_int_power)+
  show "2 powi ?e \<le> rnd_pos x" "rnd_pos x \<le> 2 powi (?e + 1)" using i' u unfolding e2 r by simp_all
  have "\<bar>of_int (round_even (x / u)) - x / u\<bar> * u \<le> 1 / 2 * u" using round_even_near u by (intro mult_right_mono) auto
  moreover have "\<bar>of_int (round_even (x / u)) - x / u\<bar> * u = \<bar>(of_int (round_even (x / u)) - x / u) * u\<bar>"
    using u by (simp add: abs_mult)
  moreover have "(of_int (round_even (x / u)) - x / u) * u = rnd_pos x - x" using u by (simp add: r left_diff_distrib)
  moreover have "1 / 2 * u \<le> x * 2 powi (- 53)" using b(1) u by (simp add: power_int_minus field_simps)
  ultimately show "\<bar>rnd_pos x - x\<bar> \<le> x * 2 powi (- 53)" by (metis order_trans)
qed

lemma exponent_mono: "0 < x \<Longrightarrow> x \<le> y \<Longrightarrow> exponent x \<le> exponent y"
proof (rule ccontr)
  assume x: "0 < x" "x \<le> y" and "\<not> exponent x \<le> exponent y"
  then have "exponent y + 1 \<le> exponent x" by simp
  then have "(2 powi (exponent y + 1) :: rat) \<le> 2 powi exponent x" by (intro power_int_increasing) auto
  with exponent_bounds(1) [OF x(1)] exponent_bounds(2) [of y] x show False by linarith
qed

lemma rnd_pos_mono: "0 < x \<Longrightarrow> x \<le> y \<Longrightarrow> rnd_pos x \<le> rnd_pos y"
proof (cases "exponent x = exponent y")
  case True
  assume "x \<le> y"
  then have "x * 2 powi (52 - exponent x) \<le> y * 2 powi (52 - exponent x)" by (intro mult_right_mono) auto
  then show ?thesis unfolding rnd_pos_def True
    by (intro mult_right_mono) (use round_even_mono in \<open>auto simp: True\<close>)
next
  case False
  assume xy: "0 < x" "x \<le> y"
  with False have "exponent x + 1 \<le> exponent y" using exponent_mono by force
  then have "(2 powi (exponent x + 1) :: rat) \<le> 2 powi exponent y" by (intro power_int_increasing) auto
  then show ?thesis using rnd_pos_bounds(2) [OF xy(1)] rnd_pos_bounds(1) [of y] xy by linarith
qed

lemma rnd_0 [simp]: "rnd 0 = 0" by (simp add: rnd_def)

lemma rnd_pos_positive: "0 < x \<Longrightarrow> 0 < rnd_pos x"
  using rnd_pos_bounds(1) [of x] by (rule less_le_trans [rotated]) auto

lemma rnd_nonneg: "0 \<le> x \<Longrightarrow> 0 \<le> rnd x"
  using rnd_pos_positive [of x] by (auto simp: rnd_def less_le)

lemma rnd_mono: "x \<le> y \<Longrightarrow> rnd x \<le> rnd y"
proof -
  assume xy: "x \<le> y"
  consider "0 < x" | "x \<le> 0" "0 \<le> y" | "y < 0" using xy by linarith
  then show ?thesis
  proof cases
    case 1
    then show ?thesis using xy rnd_pos_mono by (simp add: rnd_def)
  next
    case 2
    have "rnd x \<le> 0" using 2 rnd_pos_positive [of "- x"] by (auto simp: rnd_def)
    then show ?thesis using rnd_nonneg [OF 2(2)] by linarith
  next
    case 3
    then show ?thesis using xy rnd_pos_mono [of "- y" "- x"] by (simp add: rnd_def)
  qed
qed

lemma rnd_error: "0 \<le> x \<Longrightarrow> \<bar>rnd x - x\<bar> \<le> x * 2 powi (- 53)"
  using rnd_pos_bounds(3) [of x] by (auto simp: rnd_def)

text \<open>Evaluation on concrete numbers, and the numbers that are doubles themselves.\<close>

lemma exponentI: "2 powi e \<le> x \<Longrightarrow> x < 2 powi (e + 1) \<Longrightarrow> exponent x = e"
proof -
  assume x: "2 powi e \<le> x" "x < 2 powi (e + 1)"
  have p: "0 < x" using x(1) by (rule less_le_trans [rotated]) simp
  have False if "e < exponent x"
    using power_int_increasing [of "e + 1" "exponent x" "2 :: rat"] that exponent_bounds(1) [OF p] x(2) by simp
  moreover have False if "exponent x < e"
    using power_int_increasing [of "exponent x + 1" e "2 :: rat"] that exponent_bounds(2) [OF p] x(1) by simp
  ultimately show ?thesis by (meson linorder_neqE)
qed

lemma rnd_value:
  assumes "2 powi e \<le> x" "x < 2 powi (e + 1)" "\<bar>x * 2 powi (52 - e) - of_int m\<bar> < 1 / 2"
  shows "rnd x = of_int m * 2 powi (e - 52)"
proof -
  let ?y = "x * 2 powi (52 - e)"
  have "\<bar>of_int (round_even ?y) - of_int m :: rat\<bar> < 1" using assms(3) round_even_near [of ?y] by linarith
  then have "\<bar>of_int (round_even ?y - m) :: rat\<bar> < 1" by simp
  then have "round_even ?y = m" by linarith
  moreover have "0 < x" using assms(1) by (rule less_le_trans [rotated]) simp
  ultimately show ?thesis using exponentI [OF assms(1,2)] by (simp add: rnd_def rnd_pos_def)
qed

lemma rnd_exact: "rnd (of_nat n) = of_nat n" if "n \<le> 2 ^ 53"
proof (cases "n = 0")
  case False
  let ?x = "of_nat n :: rat" and ?e = "exponent (of_nat n)"
  have p: "0 < ?x" using False by simp
  have e0: "0 \<le> ?e"
  proof (rule ccontr)
    assume "\<not> 0 \<le> ?e"
    then have "(2 powi (?e + 1) :: rat) \<le> 2 powi 0" by (intro power_int_increasing) auto
    then show False using exponent_bounds(2) [OF p] False by simp
  qed
  have e53: "?e \<le> 53"
  proof (rule ccontr)
    assume "\<not> ?e \<le> 53"
    then have "(2 powi 54 :: rat) \<le> 2 powi ?e" by (intro power_int_increasing) auto
    moreover have "?x \<le> of_nat (2 ^ 53)" using that by (simp only: of_nat_le_iff)
    ultimately show False using exponent_bounds(1) [OF p] by simp
  qed
  show ?thesis
  proof (cases "?e = 53")
    case True
    have "of_nat (2 ^ 53) \<le> ?x" using exponent_bounds(1) [OF p] True by simp
    then have "n = 2 ^ 53" using that by (simp only: of_nat_le_iff)
    then have x: "?x = of_int (2 ^ 52) * 2" by simp
    show ?thesis by (rule trans [OF rnd_value [of 53 _ "2 ^ 52"]]) (simp_all add: x)
  next
    case e: False
    then have "0 \<le> 52 - ?e" using e53 by linarith
    then obtain k where k: "52 - ?e = int k" by (rule nonneg_int_cases)
    then have e: "?e = 52 - int k" by simp
    have "?x * 2 powi (52 - ?e) = of_int (int (n * 2 ^ k))" by (simp add: k)
    then have "round_even (?x * 2 powi (52 - ?e)) = int (n * 2 ^ k)" by (simp only: round_even_int)
    moreover have "rnd ?x = of_int (round_even (?x * 2 powi (52 - ?e))) * 2 powi (?e - 52)"
      using p by (simp add: rnd_def rnd_pos_def)
    moreover have "(2 powi (?e - 52) :: rat) = 1 / 2 ^ k" by (simp add: e power_int_minus field_simps)
    ultimately show ?thesis by simp
  qed
qed simp

end
