(* ===== verification/BlockFlow.thy ===== *)
theory BlockFlow
  imports BlockSave Doubles
begin

text \<open>
  The flow of a new block through the nodes that verify it (\<open>ca/block_stroage.cpp\<close>): the packager
  collects the signed copies of its block, joins a random choice of the signatures into the block it
  broadcasts, counts the rejections the other nodes report and builds the block again without the
  transactions they reject. The second half are the questions for the hash of a preceding block.
\<close>

record BlockMsg =
  bm_nonce :: u64
  bm_version :: cxx_string
  bm_code :: int
  bm_message :: cxx_string
  bm_time :: u64
  bm_block :: cxx_string
  bm_verifyAddrs :: "cxx_string list"

definition BlockMsg_new :: BlockMsg where
  "BlockMsg_new = \<lparr>bm_nonce = 0, bm_version = [], bm_code = 0, bm_message = [], bm_time = 0, bm_block = [], bm_verifyAddrs = []\<rparr>"

datatype BroadcastType = verifyBroadcast | level1BroadcastMessage

record BlockStatusWrapper =
  bw_blockHash :: cxx_string
  bw_block :: CBlock
  bw_broadcastType :: BroadcastType
  bw_nodeVerificationCount :: u32
  bw_level1_node_count :: u32
  bw_blockStatusList :: "BlockStatus list"
  bw_verifyNodes :: "cxx_string set"
  bw_level1Nodes :: "cxx_string set"

text \<open>The members that are not given are zero.\<close>

definition BlockStatusWrapper_new :: "cxx_string \<Rightarrow> CBlock \<Rightarrow> BlockStatusWrapper" where
  "BlockStatusWrapper_new hash block = \<lparr>bw_blockHash = hash, bw_block = block, bw_broadcastType = verifyBroadcast,
     bw_nodeVerificationCount = 0, bw_level1_node_count = 0, bw_blockStatusList = [], bw_verifyNodes = {}, bw_level1Nodes = {}\<rparr>"

text \<open>
  What the component hands to others: a block to broadcast, the task of building a block again, a new
  block for the packager's handler. A future of \<open>preHashMap\<close> is the number of its task in
  \<open>bs_seekTasks\<close>.
\<close>

datatype flow_effect = AddBlockBroadcast cxx_string u64 | RebuildTask cxx_string | HandleBlock BlockMsg

record block_storage =
  bs_blockCnt :: "(cxx_string, BlockMsg list) std_map"
  bs_preHashMap :: "(u64, nat) std_map"
  bs_blockStatusMap :: "(cxx_string, BlockStatusWrapper) std_map"
  bs_seekTasks :: "u64 list"
  bs_effects :: "flow_effect list"

definition BlockStorage_new :: block_storage where
  "BlockStorage_new = \<lparr>bs_blockCnt = [], bs_preHashMap = [], bs_blockStatusMap = [], bs_seekTasks = [], bs_effects = []\<rparr>"

text \<open>
  \<open>fe_parse\<close> is what a block object holds after \<open>ParseFromString\<close>, whose result is not looked at.
  \<open>kConsensus\<close> is a positive constant of the configuration.
\<close>

record flow_env =
  fe_parse :: "cxx_string \<Rightarrow> CBlock"
  fe_serialize :: "CBlock \<Rightarrow> cxx_string"
  fe_addr :: "cxx_string \<Rightarrow> cxx_string"
  fe_type :: "CTransaction \<Rightarrow> int"
  fe_timeout :: "CTransaction \<Rightarrow> int"
  fe_merkle :: "CBlock \<Rightarrow> cxx_string"
  fe_sha256 :: "cxx_string \<Rightarrow> cxx_string"
  fe_block_version :: u32
  fe_node_version :: cxx_string
  fe_log :: bool
  kConsensus :: nat
  KReSend_node_threshold :: u32

definition with_flow :: "flow_effect \<Rightarrow> block_storage \<Rightarrow> block_storage" where
  "with_flow e s = s\<lparr>bs_effects := bs_effects s @ [e]\<rparr>"

subsection \<open>Collecting the signed copies\<close>

definition AddBlock :: "flow_env \<Rightarrow> BlockMsg \<Rightarrow> block_storage \<Rightarrow> int \<times> block_storage" where
  "AddBlock env msg s =
     (let hash = bl_hash (fe_parse env (bm_block msg)) in
      (0, if map_of (bs_blockCnt s) hash = None then s\<lparr>bs_blockCnt := map_assign hash [msg] (bs_blockCnt s)\<rparr> else s))"

text \<open>The log line reads the second signature before their number is checked, if the log is open.\<close>

definition UpdateBlock :: "flow_env \<Rightarrow> BlockMsg \<Rightarrow> block_storage \<Rightarrow> (int \<times> block_storage) run" where
  "UpdateBlock env msg s =
     (let block = fe_parse env (bm_block msg) in
      if fe_log env \<and> length (bl_sign block) < 2 then Undefined
      else if length (bl_sign block) \<noteq> 2 then Ret (-1, s)
      else Ret (0, case map_of (bs_blockCnt s) (bl_hash block) of
        None \<Rightarrow> s
      | Some msgs \<Rightarrow> s\<lparr>bs_blockCnt := map_assign (bl_hash block) (msgs @ [msg]) (bs_blockCnt s)\<rparr>))"

text \<open>\<open>pick n\<close> are the shuffled indices of a vector of length \<open>n\<close>.\<close>

definition getRandomElements :: "(nat \<Rightarrow> nat list) \<Rightarrow> 'a list \<Rightarrow> nat \<Rightarrow> 'a list" where
  "getRandomElements pick vec numElements =
     map (\<lambda>i. vec ! i) (take (min numElements (length vec)) (pick (length vec)))"

fun join_signs :: "flow_env \<Rightarrow> BlockMsg list \<Rightarrow> CBlock \<Rightarrow> CBlock" where
  "join_signs env [] endBlock = endBlock"
| "join_signs env (msg # msgs) endBlock =
     (let block = fe_parse env (bm_block msg) in
      if length (bl_sign block) \<noteq> 2 then join_signs env msgs endBlock
      else join_signs env msgs (endBlock\<lparr>bl_sign := bl_sign endBlock @ [bl_sign block ! 1]\<rparr>))"

definition composeEndBlockMessage ::
    "flow_env \<Rightarrow> (nat \<Rightarrow> nat list) \<Rightarrow> BlockMsg list \<Rightarrow> bool \<Rightarrow> (int \<times> BlockMsg option) run" where
  "composeEndBlockMessage env pick msgVec isVrf =
     (case msgVec of
        [] \<Rightarrow> if isVrf then Throw OutOfRange else Undefined
      | msg # secondMsg \<Rightarrow>
          let vrfMessageVector = (if isVrf then getRandomElements pick secondMsg (kConsensus env - 1) else []) in
          if isVrf \<and> length vrfMessageVector \<noteq> kConsensus env - 1 then Ret (-3, None)
          else let endBlock = join_signs env vrfMessageVector (fe_parse env (bm_block msg)) in
            if bl_sign endBlock = [] then Undefined
            else Ret (0, Some (BlockMsg_new\<lparr>bm_block := fe_serialize env endBlock\<rparr>)))"

text \<open>The distance of two times as \<open>abs\<close> of a signed difference.\<close>

definition lag_time :: "u64 \<Rightarrow> u64 \<Rightarrow> u64" where
  "lag_time nowTime t = (let d = nowTime - t in if d <s 0 then - d else d)"

definition kTenSecond :: u64 where "kTenSecond = 10 * 1000000"

definition Remove :: "cxx_string \<Rightarrow> block_storage \<Rightarrow> block_storage" where
  "Remove hash s = s\<lparr>bs_blockCnt := map_erase hash (bs_blockCnt s)\<rparr>"

text \<open>One entry of the table; the hashes to remove are collected.\<close>

definition check_item ::
    "flow_env \<Rightarrow> (nat \<Rightarrow> nat list) \<Rightarrow> u64 \<Rightarrow> block_storage \<times> cxx_string list \<Rightarrow> cxx_string \<times> BlockMsg list \<Rightarrow>
     (block_storage \<times> cxx_string list) run" where
  "check_item env pick nowTime acc item =
     (case (acc, item) of ((s, hashKey), (_, msgs)) \<Rightarrow>
      if msgs = [] then Throw OutOfRange
      else let temBlock = fe_parse env (bm_block (hd msgs)); lagTime = lag_time nowTime (bl_time temBlock) in
        if kConsensus env \<le> length msgs \<and> lagTime \<le> kTenSecond then
          bind_run (composeEndBlockMessage env pick msgs True) (\<lambda>(ret, outMsg). case outMsg of
            Some out \<Rightarrow>
              let block = fe_parse env (bm_block out);
                  m = bs_blockStatusMap s;
                  m = (if map_of m (bl_hash block) = None
                       then map_assign (bl_hash block) (BlockStatusWrapper_new (bl_hash block) block) m else m) in
              Ret (with_flow (AddBlockBroadcast (bm_block out) (bl_height block)) (s\<lparr>bs_blockStatusMap := m\<rparr>),
                   hashKey @ [bl_hash temBlock])
          | None \<Rightarrow> Ret (s, hashKey @ [bl_hash temBlock]))
        else if kTenSecond < lagTime then Ret (s, hashKey @ [bl_hash temBlock])
        else Ret (s, hashKey))"

definition BlockCheck :: "flow_env \<Rightarrow> (nat \<Rightarrow> nat list) \<Rightarrow> u64 \<Rightarrow> block_storage \<Rightarrow> block_storage run" where
  "BlockCheck env pick nowTime s =
     bind_run (each_run (check_item env pick nowTime) (s, []) (bs_blockCnt s)) (\<lambda>(s, hashKey).
       Ret (foldl (\<lambda>s hash. Remove hash s) s hashKey))"

subsection \<open>The states other nodes report\<close>

text \<open>Double comparisons with the failure rate 0.75.\<close>

definition failure_share :: "u32 \<Rightarrow> nat" where
  "failure_share n = trunc_times (unat n) d075"

definition exceeds_failure_share :: "nat \<Rightarrow> u32 \<Rightarrow> bool" where
  "exceeds_failure_share k n \<longleftrightarrow> double_times (unat n) d075 < k * 2 ^ 53"

definition CheckData :: "u64 \<Rightarrow> BlockStatus \<Rightarrow> block_storage \<Rightarrow> int \<times> block_storage" where
  "CheckData nowTime blockStatus s =
     (if 0 \<le> bs_status blockStatus then (-1, s)
      else let hash = bs_blockHash blockStatus; destNode = bs_id blockStatus in
      case map_of (bs_blockStatusMap s) hash of
        None \<Rightarrow> (-2, s)
      | Some w \<Rightarrow>
          let put = (\<lambda>w. s\<lparr>bs_blockStatusMap := map_assign hash w (bs_blockStatusMap s)\<rparr>);
              late = bl_time (bw_block w) + 5 * 1000000 < nowTime in
          (case bw_broadcastType w of
             verifyBroadcast \<Rightarrow>
               if destNode \<notin> bw_verifyNodes w then (-3, s)
               else let s' = put (w\<lparr>bw_verifyNodes := bw_verifyNodes w - {destNode}\<rparr>) in
                 if unat (bw_nodeVerificationCount w) < length (bw_blockStatusList w) then (-4, s')
                 else if late then (-7, s') else (0, s')
           | level1BroadcastMessage \<Rightarrow>
               if destNode \<notin> bw_level1Nodes w then (-5, s)
               else let s' = put (w\<lparr>bw_level1Nodes := bw_level1Nodes w - {destNode}\<rparr>) in
                 if exceeds_failure_share (length (bw_blockStatusList w)) (bw_level1_node_count w) then (-6, s')
                 else if late then (-7, s') else (0, s')))"

text \<open>The three overloads of \<open>AddBlockStatus\<close>: by the packager, after the broadcast, by a report.\<close>

definition AddBlockStatus_verify ::
    "flow_env \<Rightarrow> cxx_string \<Rightarrow> CBlock \<Rightarrow> cxx_string list \<Rightarrow> block_storage \<Rightarrow> block_storage" where
  "AddBlockStatus_verify env blockHash block verifyNodes s =
     (if map_of (bs_blockStatusMap s) blockHash = None
      then s\<lparr>bs_blockStatusMap := map_assign blockHash ((BlockStatusWrapper_new blockHash block)\<lparr>
             bw_nodeVerificationCount := KReSend_node_threshold env, bw_verifyNodes := set verifyNodes\<rparr>) (bs_blockStatusMap s)\<rparr>
      else s)"

definition AddBlockStatus_level1 :: "cxx_string \<Rightarrow> CBlock \<Rightarrow> cxx_string set \<Rightarrow> block_storage \<Rightarrow> block_storage" where
  "AddBlockStatus_level1 blockHash block level1Nodes s =
     (case map_of (bs_blockStatusMap s) blockHash of
        None \<Rightarrow> s
      | Some w \<Rightarrow> s\<lparr>bs_blockStatusMap := map_assign blockHash (w\<lparr>bw_block := block, bw_broadcastType := level1BroadcastMessage,
            bw_level1_node_count := of_nat (card level1Nodes), bw_blockStatusList := [],
            bw_level1Nodes := bw_level1Nodes w \<union> level1Nodes\<rparr>) (bs_blockStatusMap s)\<rparr>)"

definition AddBlockStatus :: "u64 \<Rightarrow> BlockStatus \<Rightarrow> block_storage \<Rightarrow> block_storage" where
  "AddBlockStatus nowTime blockStatus s =
     (case CheckData nowTime blockStatus s of (ret, s) \<Rightarrow>
      if ret \<noteq> 0 then s
      else let hash = bs_blockHash blockStatus in
      case map_of (bs_blockStatusMap s) hash of
        None \<Rightarrow> s
      | Some w \<Rightarrow>
          let w = w\<lparr>bw_blockStatusList := bw_blockStatusList w @ [blockStatus]\<rparr>;
              s = s\<lparr>bs_blockStatusMap := map_assign hash w (bs_blockStatusMap s)\<rparr>;
              n = length (bw_blockStatusList w) in
          if bw_broadcastType w = level1BroadcastMessage \<and> n = failure_share (bw_level1_node_count w)
             \<or> bw_broadcastType w = verifyBroadcast \<and> n = unat (bw_nodeVerificationCount w)
          then with_flow (RebuildTask hash) s else s)"

definition checkExpiredDelete :: "u64 \<Rightarrow> block_storage \<Rightarrow> block_storage" where
  "checkExpiredDelete nowTime s =
     s\<lparr>bs_blockStatusMap := filter (\<lambda>(_, w). \<not> bl_time (bw_block w) + 15 * 1000000 \<le> nowTime) (bs_blockStatusMap s)\<rparr>"

subsection \<open>Building a block again\<close>

text \<open>
  The transactions that are kept: normal ones that were not rejected by enough nodes and are not too
  old; \<open>None\<close> when a contract transaction ends the attempt.
\<close>

fun kept_txs :: "flow_env \<Rightarrow> nat \<Rightarrow> (cxx_string, nat) std_map \<Rightarrow> CTransaction list \<Rightarrow> CTransaction list option" where
  "kept_txs env FailThreshold txsStatus [] = Some []"
| "kept_txs env FailThreshold txsStatus (tx # txs) =
     (if fe_type env tx \<noteq> kTransactionTypeTx then kept_txs env FailThreshold txsStatus txs
      else if tx_txType tx = TX_TYPE_INVOKE_CONTRACT \<or> tx_txType tx = kTransactionTypeDeploy then None
      else if (case map_of txsStatus (tx_hash tx) of None \<Rightarrow> False | Some n \<Rightarrow> FailThreshold \<le> n)
      then kept_txs env FailThreshold txsStatus txs
      else if fe_timeout env tx \<noteq> 0 then kept_txs env FailThreshold txsStatus txs
      else map_option (Cons tx) (kept_txs env FailThreshold txsStatus txs))"

definition fail_threshold :: "BlockStatusWrapper \<Rightarrow> nat" where
  "fail_threshold w =
     (case bw_broadcastType w of
        verifyBroadcast \<Rightarrow> failure_share (bw_nodeVerificationCount w)
      | level1BroadcastMessage \<Rightarrow> failure_share (bw_level1_node_count w))"

definition rejections :: "BlockStatusWrapper \<Rightarrow> (cxx_string, nat) std_map" where
  "rejections w = tally (concat (map (\<lambda>st. map ts_txHash (bs_txStatus st)) (bw_blockStatusList w)))"

text \<open>The hash is taken while hash and signatures are empty.\<close>

definition InitNewBlock :: "flow_env \<Rightarrow> u64 \<Rightarrow> CBlock \<Rightarrow> CBlock \<Rightarrow> CBlock" where
  "InitNewBlock env now oldBlock newBlock =
     (let b = newBlock\<lparr>bl_version := fe_block_version env, bl_time := now, bl_height := bl_height oldBlock,
                bl_prevHash := bl_prevHash oldBlock\<rparr>;
          b = b\<lparr>bl_merkleRoot := fe_merkle env b\<rparr>
      in b\<lparr>bl_hash := fe_sha256 env (fe_serialize env b)\<rparr>)"

text \<open>The lookup inserts an empty entry when the block has expired meanwhile.\<close>

definition newBuildBlockByBlockStatus :: "flow_env \<Rightarrow> u64 \<Rightarrow> cxx_string \<Rightarrow> block_storage \<Rightarrow> block_storage" where
  "newBuildBlockByBlockStatus env now blockHash s =
     (let w = (case map_of (bs_blockStatusMap s) blockHash of None \<Rightarrow> BlockStatusWrapper_new [] CBlock_new | Some w \<Rightarrow> w);
          s = s\<lparr>bs_blockStatusMap := map_assign blockHash w (bs_blockStatusMap s)\<rparr>;
          oldBlock = bw_block w in
      case kept_txs env (fail_threshold w) (rejections w) (bl_txs oldBlock) of
        None \<Rightarrow> s
      | Some txs \<Rightarrow>
          if txs = [] then s
          else let newBlock = InitNewBlock env now oldBlock (oldBlock\<lparr>bl_txs := txs, bl_sign := [], bl_hash := []\<rparr>) in
            with_flow (HandleBlock (BlockMsg_new\<lparr>bm_version := fe_node_version env, bm_time := now,
              bm_block := fe_serialize env newBlock\<rparr>)) s)"

subsection \<open>Calls\<close>

text \<open>
  What the timer and the handlers do to the component. After a broadcast the addresses the block was
  sent to come back; the height filter in \<open>sendBroadcastAddBlockRequest\<close> fills a list nobody reads.
\<close>

datatype flow_op =
    OpAddBlock BlockMsg
  | OpUpdateBlock BlockMsg
  | OpBlockCheck "nat \<Rightarrow> nat list"
  | OpExpire
  | OpVerifyNodes cxx_string CBlock "cxx_string list"
  | OpBroadcastDone cxx_string "cxx_string set"
  | OpBlockStatus BlockStatus
  | OpRebuild cxx_string

fun flow_call :: "flow_env \<Rightarrow> u64 \<Rightarrow> flow_op \<Rightarrow> block_storage \<Rightarrow> block_storage run" where
  "flow_call env now (OpAddBlock msg) s = Ret (snd (AddBlock env msg s))"
| "flow_call env now (OpUpdateBlock msg) s = bind_run (UpdateBlock env msg s) (\<lambda>r. Ret (snd r))"
| "flow_call env now (OpBlockCheck pick) s = BlockCheck env pick now s"
| "flow_call env now OpExpire s = Ret (checkExpiredDelete now s)"
| "flow_call env now (OpVerifyNodes hash block verifyNodes) s = Ret (AddBlockStatus_verify env hash block verifyNodes s)"
| "flow_call env now (OpBroadcastDone strBlock cast_address) s =
     (let block = fe_parse env strBlock in Ret (AddBlockStatus_level1 (bl_hash block) block cast_address s))"
| "flow_call env now (OpBlockStatus blockStatus) s = Ret (AddBlockStatus now blockStatus s)"
| "flow_call env now (OpRebuild hash) s = Ret (newBuildBlockByBlockStatus env now hash s)"

text \<open>The shuffles of \<open>getRandomElements\<close> are permutations.\<close>

definition is_shuffle :: "(nat \<Rightarrow> nat list) \<Rightarrow> bool" where
  "is_shuffle pick \<longleftrightarrow> (\<forall>n. distinct (pick n) \<and> set (pick n) = {..<n})"

inductive flow_reachable :: "flow_env \<Rightarrow> block_storage \<Rightarrow> bool" for env where
  init: "flow_reachable env BlockStorage_new"
| call: "flow_reachable env s \<Longrightarrow> flow_call env now op s = Ret s' \<Longrightarrow>
    (\<And>pick. op = OpBlockCheck pick \<Longrightarrow> is_shuffle pick) \<Longrightarrow> flow_reachable env s'"

end
