(* ===== verification/FlowProps.thy ===== *)
theory FlowProps
  imports BlockFlow
begin

text \<open>
  Properties of the block flow: what is broadcast, when a collected block is given up, how the reports
  of other nodes are counted and what a block that is built again contains.
\<close>

subsection \<open>The invariant\<close>

definition collected_ok :: "flow_env \<Rightarrow> (cxx_string, BlockMsg list) std_map \<Rightarrow> bool" where
  "collected_ok env m \<longleftrightarrow> ordered_map m \<and> (\<forall>(k, msgs)\<in>set m. msgs \<noteq> [] \<and>
     (\<forall>msg\<in>set msgs. bl_hash (fe_parse env (bm_block msg)) = k) \<and>
     (\<forall>msg\<in>set (tl msgs). length (bl_sign (fe_parse env (bm_block msg))) = 2))"

definition asked_nodes :: "BlockStatusWrapper \<Rightarrow> cxx_string set" where
  "asked_nodes w = (case bw_broadcastType w of verifyBroadcast \<Rightarrow> bw_verifyNodes w | level1BroadcastMessage \<Rightarrow> bw_level1Nodes w)"

definition report_limit :: "BlockStatusWrapper \<Rightarrow> nat" where
  "report_limit w = (case bw_broadcastType w of verifyBroadcast \<Rightarrow> unat (bw_nodeVerificationCount w)
     | level1BroadcastMessage \<Rightarrow> failure_share (bw_level1_node_count w))"

definition reports_ok :: "BlockStatusWrapper \<Rightarrow> bool" where
  "reports_ok w \<longleftrightarrow> distinct (map bs_id (bw_blockStatusList w)) \<and>
     set (map bs_id (bw_blockStatusList w)) \<inter> asked_nodes w = {} \<and> length (bw_blockStatusList w) \<le> report_limit w + 1"

definition flow_ok :: "flow_env \<Rightarrow> block_storage \<Rightarrow> bool" where
  "flow_ok env s \<longleftrightarrow> collected_ok env (bs_blockCnt s) \<and> ordered_map (bs_blockStatusMap s) \<and>
     (\<forall>(k, w)\<in>set (bs_blockStatusMap s). reports_ok w)"

lemma flow_ok_status: "flow_ok env s \<Longrightarrow> map_of (bs_blockStatusMap s) k = Some w \<Longrightarrow> reports_ok w"
  by (auto simp: flow_ok_def dest!: map_of_SomeD)

lemma flow_ok_put:
  "flow_ok env s \<Longrightarrow> reports_ok w \<Longrightarrow> flow_ok env (s\<lparr>bs_blockStatusMap := map_assign k w (bs_blockStatusMap s)\<rparr>)"
  by (auto simp: flow_ok_def set_ordered_assign)

lemma reports_ok_new [simp]: "reports_ok (BlockStatusWrapper_new k b)"
  by (simp add: reports_ok_def BlockStatusWrapper_new_def)

lemma flow_ok_effect [simp]: "flow_ok env (with_flow e s) = flow_ok env s"
  by (simp add: flow_ok_def with_flow_def)

lemma AddBlock_ok: "flow_ok env s \<Longrightarrow> flow_ok env (snd (AddBlock env msg s))"
  by (auto simp: AddBlock_def Let_def flow_ok_def collected_ok_def set_ordered_assign)

lemma UpdateBlock_ok: "flow_ok env s \<Longrightarrow> ensures (UpdateBlock env msg s) (\<lambda>r. flow_ok env (snd r))"
proof -
  assume ok: "flow_ok env s"
  let ?block = "fe_parse env (bm_block msg)"
  have "flow_ok env (s\<lparr>bs_blockCnt := map_assign (bl_hash ?block) (msgs @ [msg]) (bs_blockCnt s)\<rparr>)"
    if m: "map_of (bs_blockCnt s) (bl_hash ?block) = Some msgs" and l: "length (bl_sign ?block) = 2" for msgs
  proof -
    have "(bl_hash ?block, msgs) \<in> set (bs_blockCnt s)" using m by (rule map_of_SomeD)
    then have "msgs \<noteq> []" "\<forall>x\<in>set msgs. bl_hash (fe_parse env (bm_block x)) = bl_hash ?block"
      "\<forall>x\<in>set (tl msgs). length (bl_sign (fe_parse env (bm_block x))) = 2"
      using ok by (auto simp: flow_ok_def collected_ok_def)
    with l ok show ?thesis by (auto simp: flow_ok_def collected_ok_def set_ordered_assign)
  qed
  with ok show ?thesis by (auto simp: UpdateBlock_def Let_def ensures_def split: option.splits)
qed

lemma exceeds_share: "\<not> exceeds_failure_share k n \<Longrightarrow> k \<le> failure_share n"
  by (simp add: exceeds_failure_share_def failure_share_def trunc_times_def less_eq_div_iff_mult_less_eq)

lemma CheckData_ok:
  assumes "flow_ok env s" "CheckData now st s = (ret, s')"
  shows "flow_ok env s'" "ret = 0 \<Longrightarrow> \<exists>w. map_of (bs_blockStatusMap s') (bs_blockHash st) = Some w \<and>
     length (bw_blockStatusList w) \<le> report_limit w \<and> bs_id st \<notin> asked_nodes w \<and> bs_id st \<notin> set (map bs_id (bw_blockStatusList w))"
proof -
  have "flow_ok env s' \<and> (ret = 0 \<longrightarrow> (\<exists>w. map_of (bs_blockStatusMap s') (bs_blockHash st) = Some w \<and>
     length (bw_blockStatusList w) \<le> report_limit w \<and> bs_id st \<notin> asked_nodes w \<and> bs_id st \<notin> set (map bs_id (bw_blockStatusList w))))"
  proof (cases "map_of (bs_blockStatusMap s) (bs_blockHash st)")
    case None
    then show ?thesis using assms by (auto simp: CheckData_def Let_def split: if_splits)
  next
    case (Some w)
    note r = flow_ok_status [OF assms(1) Some]
    have "reports_ok (w\<lparr>bw_verifyNodes := bw_verifyNodes w - X\<rparr>)" "reports_ok (w\<lparr>bw_level1Nodes := bw_level1Nodes w - X\<rparr>)" for X
      using r by (auto simp: reports_ok_def asked_nodes_def report_limit_def split: BroadcastType.splits)
    note p = this [THEN flow_ok_put [OF assms(1)]]
    show ?thesis
    proof (cases "bw_broadcastType w")
      case verifyBroadcast
      then show ?thesis using assms Some p r
        by (auto simp: CheckData_def Let_def asked_nodes_def report_limit_def reports_ok_def split: if_splits)
    next
      case level1BroadcastMessage
      then show ?thesis using assms Some p r
        by (auto simp: CheckData_def Let_def asked_nodes_def report_limit_def reports_ok_def exceeds_share split: if_splits)
    qed
  qed
  then show "flow_ok env s'" "ret = 0 \<Longrightarrow> \<exists>w. map_of (bs_blockStatusMap s') (bs_blockHash st) = Some w \<and>
     length (bw_blockStatusList w) \<le> report_limit w \<and> bs_id st \<notin> asked_nodes w \<and> bs_id st \<notin> set (map bs_id (bw_blockStatusList w))"
    by auto
qed

lemma AddBlockStatus_ok:
  assumes "flow_ok env s"
  shows "flow_ok env (AddBlockStatus now st s)"
proof (cases "CheckData now st s")
  case (Pair ret s')
  note c = CheckData_ok [OF assms Pair]
  show ?thesis
  proof (cases "ret = 0")
    case True
    with c obtain w where w: "map_of (bs_blockStatusMap s') (bs_blockHash st) = Some w"
      "length (bw_blockStatusList w) \<le> report_limit w" "bs_id st \<notin> asked_nodes w" "bs_id st \<notin> set (map bs_id (bw_blockStatusList w))"
      by auto
    let ?w = "w\<lparr>bw_blockStatusList := bw_blockStatusList w @ [st]\<rparr>"
    have "reports_ok w" by (rule flow_ok_status [OF c(1) w(1)])
    with w have "reports_ok ?w"
      by (auto simp: reports_ok_def asked_nodes_def report_limit_def split: BroadcastType.splits)
    from flow_ok_put [OF c(1) this] show ?thesis using True w(1) by (simp add: AddBlockStatus_def Pair Let_def)
  qed (use c in \<open>simp add: AddBlockStatus_def Pair\<close>)
qed

lemma level1_ok: "flow_ok env s \<Longrightarrow> flow_ok env (AddBlockStatus_level1 k b nodes s)"
  using flow_ok_status [of env s k]
  by (auto simp: AddBlockStatus_level1_def reports_ok_def asked_nodes_def intro!: flow_ok_put split: option.splits)

lemma verify_ok: "flow_ok env s \<Longrightarrow> flow_ok env (AddBlockStatus_verify env k b nodes s)"
  by (auto simp: AddBlockStatus_verify_def reports_ok_def BlockStatusWrapper_new_def intro!: flow_ok_put)

lemma rebuild_ok: "flow_ok env s \<Longrightarrow> flow_ok env (newBuildBlockByBlockStatus env now k s)"
  using flow_ok_status [of env s k]
  by (auto simp: newBuildBlockByBlockStatus_def Let_def intro!: flow_ok_put split: option.splits)

lemma ordered_map_filter [simp]: "ordered_map m \<Longrightarrow> ordered_map (filter P m)"
  by (simp add: ordered_map_def sorted_wrt_map sorted_wrt_filter)

lemma expired_ok: "flow_ok env s \<Longrightarrow> flow_ok env (checkExpiredDelete now s)"
  by (auto simp: checkExpiredDelete_def flow_ok_def)

lemma Remove_ok: "flow_ok env s \<Longrightarrow> flow_ok env (Remove k s)"
  by (auto simp: Remove_def flow_ok_def collected_ok_def map_erase_def)

subsection \<open>One run of the check\<close>

lemma shuffle_length: "is_shuffle pick \<Longrightarrow> length (pick n) = n"
  by (metis is_shuffle_def card_lessThan distinct_card)

lemma random_length: "is_shuffle pick \<Longrightarrow> length (getRandomElements pick vec k) = min k (length vec)"
  by (simp add: getRandomElements_def shuffle_length)

lemma random_subset: "is_shuffle pick \<Longrightarrow> mset (getRandomElements pick vec k) \<subseteq># mset vec"
proof -
  assume p: "is_shuffle pick"
  let ?is = "take (min k (length vec)) (pick (length vec))"
  have "distinct (pick (length vec))" "set (pick (length vec)) = {..<length vec}" using p by (auto simp: is_shuffle_def)
  then have "mset (pick (length vec)) = mset [0..<length vec]"
    by (intro set_eq_iff_mset_eq_distinct [THEN iffD1]) (auto simp: lessThan_atLeast0)
  moreover have "mset ?is \<subseteq># mset (pick (length vec))"
    by (metis append_take_drop_id mset_append mset_subset_eq_add_left)
  ultimately have "image_mset ((!) vec) (mset ?is) \<subseteq># image_mset ((!) vec) (mset [0..<length vec])"
    by (simp add: image_mset_subseteq_mono)
  moreover have "image_mset ((!) vec) (mset [0..<length vec]) = mset vec" by (metis map_nth mset_map)
  ultimately show ?thesis by (simp add: getRandomElements_def)
qed

lemma join_signs_two:
  "(\<forall>m\<in>set ms. length (bl_sign (fe_parse env (bm_block m))) = 2) \<Longrightarrow>
   join_signs env ms b = b\<lparr>bl_sign := bl_sign b @ map (\<lambda>m. bl_sign (fe_parse env (bm_block m)) ! 1) ms\<rparr>"
  by (induction env ms b rule: join_signs.induct) (auto simp: Let_def)

text \<open>The block that goes out: the packager's, with the signatures of the chosen copies.\<close>

definition joined :: "flow_env \<Rightarrow> BlockMsg \<Rightarrow> BlockMsg list \<Rightarrow> CBlock" where
  "joined env msg chosen = (let b = fe_parse env (bm_block msg) in
     b\<lparr>bl_sign := bl_sign b @ map (\<lambda>m. bl_sign (fe_parse env (bm_block m)) ! 1) chosen\<rparr>)"

definition lively :: "flow_env \<Rightarrow> u64 \<Rightarrow> BlockMsg list \<Rightarrow> bool" where
  "lively env now msgs \<longleftrightarrow> lag_time now (bl_time (fe_parse env (bm_block (hd msgs)))) \<le> kTenSecond"

definition waits :: "flow_env \<Rightarrow> u64 \<Rightarrow> cxx_string \<times> BlockMsg list \<Rightarrow> bool" where
  "waits env now e \<longleftrightarrow> length (snd e) < kConsensus env \<and> lively env now (snd e)"

definition broadcast_from :: "flow_env \<Rightarrow> u64 \<Rightarrow> (cxx_string \<times> BlockMsg list) list \<Rightarrow> flow_effect \<Rightarrow> bool" where
  "broadcast_from env now items e \<longleftrightarrow> (\<exists>k msg msgs chosen raw. (k, msg # msgs) \<in> set items \<and> kConsensus env \<le> length (msg # msgs) \<and>
     lively env now (msg # msgs) \<and> mset chosen \<subseteq># mset msgs \<and> length chosen = kConsensus env - 1 \<and>
     raw = fe_serialize env (joined env msg chosen) \<and> e = AddBlockBroadcast raw (bl_height (fe_parse env raw)))"

lemma compose_result:
  assumes "is_shuffle pick" "2 \<le> kConsensus env" "kConsensus env \<le> length (msg # msgs)"
    and "\<forall>m\<in>set msgs. length (bl_sign (fe_parse env (bm_block m))) = 2"
  shows "\<exists>chosen. mset chosen \<subseteq># mset msgs \<and> length chosen = kConsensus env - 1 \<and>
    composeEndBlockMessage env pick (msg # msgs) True =
      Ret (0, Some (BlockMsg_new\<lparr>bm_block := fe_serialize env (joined env msg chosen)\<rparr>))"
proof -
  let ?c = "getRandomElements pick msgs (kConsensus env - 1)"
  have "kConsensus env - 1 \<le> length msgs" using assms(3) by simp
  then have l: "length ?c = kConsensus env - 1" using assms(1) by (simp add: random_length)
  have sub: "mset ?c \<subseteq># mset msgs" by (rule random_subset [OF assms(1)])
  then have "set ?c \<subseteq> set msgs" by (metis set_mset_mono set_mset_mset)
  then have j: "join_signs env ?c (fe_parse env (bm_block msg)) = joined env msg ?c"
    using assms(4) by (subst join_signs_two) (auto simp: joined_def Let_def)
  have "bl_sign (joined env msg ?c) \<noteq> []" using l assms(2) by (auto simp: joined_def Let_def)
  with l sub j show ?thesis by (auto simp: composeEndBlockMessage_def Let_def intro!: exI [of _ ?c])
qed

lemma check_item_result:
  assumes "is_shuffle pick" "2 \<le> kConsensus env" "collected_ok env items" "(k, msgs) \<in> set items"
    and st: "ordered_map (bs_blockStatusMap s)" "\<forall>(k, w)\<in>set (bs_blockStatusMap s). reports_ok w"
  shows "\<exists>s1 es. check_item env pick now (s, hk) (k, msgs) =
      Ret (s1, if waits env now (k, msgs) then hk else hk @ [k]) \<and>
    bs_blockCnt s1 = bs_blockCnt s \<and> bs_effects s1 = bs_effects s @ es \<and> (\<forall>e\<in>set es. broadcast_from env now items e) \<and>
    ordered_map (bs_blockStatusMap s1) \<and> (\<forall>(k, w)\<in>set (bs_blockStatusMap s1). reports_ok w)"
proof -
  obtain msg rest where m: "msgs = msg # rest"
    using assms(3,4) by (cases msgs) (auto simp: collected_ok_def)
  have h: "bl_hash (fe_parse env (bm_block msg)) = k" "\<forall>m\<in>set rest. length (bl_sign (fe_parse env (bm_block m))) = 2"
    using assms(3,4) m by (fastforce simp: collected_ok_def)+
  show ?thesis
  proof (cases "kConsensus env \<le> length msgs \<and> lively env now msgs")
    case True
    then obtain chosen where c: "mset chosen \<subseteq># mset rest" "length chosen = kConsensus env - 1"
      "composeEndBlockMessage env pick msgs True = Ret (0, Some (BlockMsg_new\<lparr>bm_block := fe_serialize env (joined env msg chosen)\<rparr>))"
      using compose_result [OF assms(1,2) _ h(2), of msg] m by auto
    let ?raw = "fe_serialize env (joined env msg chosen)"
    have "broadcast_from env now items (AddBlockBroadcast ?raw (bl_height (fe_parse env ?raw)))"
      unfolding broadcast_from_def using assms(4) True c m by blast
    with c(3) True h m st show ?thesis
      by (auto simp: check_item_def Let_def lively_def waits_def BlockMsg_new_def with_flow_def set_ordered_assign)
  next
    case False
    then show ?thesis using h m st by (auto simp: check_item_def Let_def lively_def waits_def not_le)
  qed
qed

lemma check_loop:
  assumes "is_shuffle pick" "2 \<le> kConsensus env" "collected_ok env items" "set xs \<subseteq> set items"
    and "ordered_map (bs_blockStatusMap s)" "\<forall>(k, w)\<in>set (bs_blockStatusMap s). reports_ok w"
  shows "\<exists>s1 es. each_run (check_item env pick now) (s, hk) xs =
      Ret (s1, hk @ map fst (filter (\<lambda>e. \<not> waits env now e) xs)) \<and>
    bs_blockCnt s1 = bs_blockCnt s \<and> bs_effects s1 = bs_effects s @ es \<and> (\<forall>e\<in>set es. broadcast_from env now items e) \<and>
    ordered_map (bs_blockStatusMap s1) \<and> (\<forall>(k, w)\<in>set (bs_blockStatusMap s1). reports_ok w)"
  using assms(4-6)
proof (induction xs arbitrary: s hk)
  case (Cons x xs)
  obtain k msgs where x: "x = (k, msgs)" by (cases x)
  then have i: "(k, msgs) \<in> set items" using Cons.prems by auto
  let ?hk = "if waits env now (k, msgs) then hk else hk @ [k]"
  from check_item_result [OF assms(1-3) i Cons.prems(2,3), of now hk] obtain s1 es where
    1: "check_item env pick now (s, hk) (k, msgs) = Ret (s1, ?hk)" "bs_blockCnt s1 = bs_blockCnt s"
    "bs_effects s1 = bs_effects s @ es" "\<forall>e\<in>set es. broadcast_from env now items e"
    "ordered_map (bs_blockStatusMap s1)" "\<forall>(k, w)\<in>set (bs_blockStatusMap s1). reports_ok w" by blast
  have sub: "set xs \<subseteq> set items" using Cons.prems by auto
  from Cons.IH [OF sub 1(5,6), of ?hk] obtain s2 es2 where
    2: "each_run (check_item env pick now) (s1, ?hk) xs =
      Ret (s2, ?hk @ map fst (filter (\<lambda>e. \<not> waits env now e) xs))"
    "bs_blockCnt s2 = bs_blockCnt s1" "bs_effects s2 = bs_effects s1 @ es2" "\<forall>e\<in>set es2. broadcast_from env now items e"
    "ordered_map (bs_blockStatusMap s2)" "\<forall>(k, w)\<in>set (bs_blockStatusMap s2). reports_ok w" by blast
  have "\<forall>e\<in>set (es @ es2). broadcast_from env now items e" using 1(4) 2(4) by auto
  with 1 2 show ?case unfolding x by (intro exI [of _ s2] exI [of _ "es @ es2"]) auto
qed simp

lemma Remove_all: "bs_blockCnt (foldl (\<lambda>s k. Remove k s) s ks) = filter (\<lambda>e. fst e \<notin> set ks) (bs_blockCnt s) \<and>
   bs_effects (foldl (\<lambda>s k. Remove k s) s ks) = bs_effects s \<and>
   bs_blockStatusMap (foldl (\<lambda>s k. Remove k s) s ks) = bs_blockStatusMap s"
  by (induction ks arbitrary: s) (auto simp: Remove_def map_erase_def intro!: filter_cong)

lemma BlockCheck_result:
  assumes "is_shuffle pick" "2 \<le> kConsensus env" "flow_ok env s"
  shows "\<exists>s' es. BlockCheck env pick now s = Ret s' \<and> flow_ok env s' \<and>
    bs_blockCnt s' = filter (waits env now) (bs_blockCnt s) \<and>
    bs_effects s' = bs_effects s @ es \<and> (\<forall>e\<in>set es. broadcast_from env now (bs_blockCnt s) e)"
proof -
  let ?P = "waits env now"
  let ?ks = "map fst (filter (\<lambda>e. \<not> ?P e) (bs_blockCnt s))"
  have c: "collected_ok env (bs_blockCnt s)" "ordered_map (bs_blockStatusMap s)" "\<forall>(k, w)\<in>set (bs_blockStatusMap s). reports_ok w"
    using assms(3) by (auto simp: flow_ok_def)
  from check_loop [OF assms(1,2) c(1) order_refl c(2,3), of now "[]"] obtain s1 es where
    1: "each_run (check_item env pick now) (s, []) (bs_blockCnt s) = Ret (s1, ?ks)" "bs_blockCnt s1 = bs_blockCnt s"
    "bs_effects s1 = bs_effects s @ es" "\<forall>e\<in>set es. broadcast_from env now (bs_blockCnt s) e"
    "ordered_map (bs_blockStatusMap s1)" "\<forall>(k, w)\<in>set (bs_blockStatusMap s1). reports_ok w"
    unfolding append_Nil by blast
  have d: "distinct (map fst (bs_blockCnt s))" using c(1) by (simp add: collected_ok_def ordered_map_distinct)
  have "fst e \<notin> set ?ks \<longleftrightarrow> ?P e" if e: "e \<in> set (bs_blockCnt s)" for e
  proof -
    have "e' = e" if "e' \<in> set (bs_blockCnt s)" "fst e = fst e'" for e'
      using d e that unfolding distinct_map by (auto dest: inj_onD)
    moreover have "fst e \<in> set ?ks \<longleftrightarrow> (\<exists>e'\<in>set (bs_blockCnt s). \<not> ?P e' \<and> fst e = fst e')"
      unfolding set_map set_filter image_iff by blast
    ultimately show ?thesis using e by blast
  qed
  then have f: "filter (\<lambda>e. fst e \<notin> set ?ks) (bs_blockCnt s) = filter ?P (bs_blockCnt s)" by (rule filter_cong [OF refl])
  moreover have "collected_ok env (filter ?P (bs_blockCnt s))" using c(1) by (auto simp: collected_ok_def)
  ultimately show ?thesis using 1 Remove_all [of s1 ?ks] f
    by (simp add: BlockCheck_def flow_ok_def)
qed

subsection \<open>A concrete run\<close>

text \<open>Two nodes must agree; every message is a block with two signatures.\<close>

definition demo_block :: CBlock where
  "demo_block = CBlock_new\<lparr>bl_hash := ''h'', bl_height := 4, bl_sign := [\<lparr>sg_sign = ''1'', sg_pub = ''p''\<rparr>, \<lparr>sg_sign = ''2'', sg_pub = ''q''\<rparr>],
     bl_txs := [\<lparr>tx_time = 0, tx_hash = ''t'', tx_txType = 1, tx_utxos = [], tx_version = 0, tx_identity = [], tx_data = []\<rparr>, \<lparr>tx_time = 0, tx_hash = ''u'', tx_txType = 1, tx_utxos = [], tx_version = 0, tx_identity = [], tx_data = []\<rparr>]\<rparr>"

definition demo_flow :: flow_env where
  "demo_flow = \<lparr>fe_parse = (\<lambda>_. demo_block), fe_serialize = (\<lambda>_. ''raw''), fe_addr = id, fe_type = (\<lambda>_. kTransactionTypeTx),
     fe_timeout = (\<lambda>_. 0), fe_merkle = (\<lambda>_. ''m''), fe_sha256 = id, fe_block_version = 1, fe_node_version = ''v'', fe_log = True, kConsensus = 2,
     KReSend_node_threshold = 2\<rparr>"

definition demo_collected :: block_storage where
  "demo_collected = BlockStorage_new\<lparr>bs_blockCnt := [(''h'', [BlockMsg_new, BlockMsg_new])]\<rparr>"

lemma demo_reachable: "flow_reachable demo_flow demo_collected"
proof -
  let ?s = "BlockStorage_new\<lparr>bs_blockCnt := [(''h'', [BlockMsg_new])]\<rparr>"
  have "flow_call demo_flow 0 (OpAddBlock BlockMsg_new) BlockStorage_new = Ret ?s"
    by (simp add: AddBlock_def demo_flow_def demo_block_def BlockStorage_new_def)
  with flow_reachable.init have "flow_reachable demo_flow ?s" by (rule flow_reachable.call) simp
  moreover have "flow_call demo_flow 0 (OpUpdateBlock BlockMsg_new) ?s = Ret demo_collected"
    by (simp add: UpdateBlock_def demo_flow_def demo_block_def BlockStorage_new_def demo_collected_def)
  ultimately show ?thesis by (rule flow_reachable.call) simp
qed

lemma in_order: "is_shuffle (\<lambda>n. [0..<n])" "2 \<le> kConsensus demo_flow"
  by (auto simp: is_shuffle_def demo_flow_def)

lemma demo_check: "BlockCheck demo_flow (\<lambda>n. [0..<n]) 0 demo_collected = Ret (demo_collected\<lparr>bs_blockCnt := [],
   bs_blockStatusMap := [(''h'', BlockStatusWrapper_new ''h'' demo_block)], bs_effects := [AddBlockBroadcast ''raw'' 4]\<rparr>)"
  by (simp add: BlockCheck_def demo_collected_def BlockStorage_new_def check_item_def Let_def demo_flow_def demo_block_def CBlock_new_def
      BlockMsg_new_def composeEndBlockMessage_def getRandomElements_def lag_time_def kTenSecond_def with_flow_def Remove_def map_erase_def)

subsection \<open>Properties\<close>

lemma flow_reachable_ok: "flow_reachable env s \<Longrightarrow> 2 \<le> kConsensus env \<Longrightarrow> flow_ok env s"
proof (induction rule: flow_reachable.induct)
  case init
  show ?case by (simp add: flow_ok_def collected_ok_def BlockStorage_new_def)
next
  case (call s now op s')
  then have ok: "flow_ok env s" by blast
  show ?case
  proof (cases op)
    case (OpUpdateBlock msg)
    then show ?thesis using call.hyps(2) UpdateBlock_ok [OF ok, of msg] by (auto simp: ensures_def run_simps)
  next
    case (OpBlockCheck pick)
    then show ?thesis using call.hyps(2,3) BlockCheck_result [OF _ call.prems ok, of pick now] by auto
  qed (use call.hyps(2) ok in \<open>auto simp: Let_def AddBlock_ok expired_ok verify_ok level1_ok AddBlockStatus_ok rebuild_ok\<close>)
qed

text \<open>
  C18. What a run of the check broadcasts is the packager's block of some collected entry, with at least as many copies as
  nodes must agree and no older than ten seconds, with one signature less than that many added, each from a different copy.
\<close>

theorem broadcast_signatures:
  assumes "flow_reachable env s" "2 \<le> kConsensus env" "is_shuffle pick" "BlockCheck env pick now s = Ret s'"
  shows "\<exists>es. bs_effects s' = bs_effects s @ es \<and> (\<forall>e\<in>set es. broadcast_from env now (bs_blockCnt s) e)"
  using BlockCheck_result [OF assms(3,2) flow_reachable_ok [OF assms(1,2)], of now] assms(4) by auto

theorem broadcast_signatures_witness:
  "broadcast_from demo_flow 0 (bs_blockCnt demo_collected) (AddBlockBroadcast ''raw'' 4)"
  using broadcast_signatures [OF demo_reachable in_order(2,1) demo_check] by (simp add: demo_collected_def BlockStorage_new_def)

text \<open>
  C19. A run of the check always returns, and leaves exactly the entries that have too few copies yet and are no more than
  ten seconds away: every other block is broadcast or given up.
\<close>

theorem check_leaves_waiting:
  assumes "flow_reachable env s" "2 \<le> kConsensus env" "is_shuffle pick"
  shows "\<exists>s'. BlockCheck env pick now s = Ret s' \<and> bs_blockCnt s' = filter (waits env now) (bs_blockCnt s)"
  using BlockCheck_result [OF assms(3,2) flow_reachable_ok [OF assms(1,2)], of now] by blast

theorem check_leaves_waiting_witness:
  "\<exists>s'. BlockCheck demo_flow (\<lambda>n. [0..<n]) 0 demo_collected = Ret s' \<and> bs_blockCnt s' = []"
  using check_leaves_waiting [OF demo_reachable in_order(2,1), of 0]
  by (auto simp: demo_collected_def waits_def demo_flow_def)

text \<open>
  In every reachable state the reports held for a block are from different nodes, none of which is still asked, and
  there is at most one more than the number at which the block is built again.
\<close>

theorem one_report_per_node:
  assumes "flow_reachable env s" "2 \<le> kConsensus env" "map_of (bs_blockStatusMap s) hash = Some w"
  shows "distinct (map bs_id (bw_blockStatusList w)) \<and> set (map bs_id (bw_blockStatusList w)) \<inter> asked_nodes w = {} \<and>
    length (bw_blockStatusList w) \<le> report_limit w + 1"
  using flow_ok_status [OF flow_reachable_ok [OF assms(1,2)] assms(3)] by (simp add: reports_ok_def)

definition reported :: "cxx_string list \<Rightarrow> BlockStatus" where
  "reported hs = \<lparr>bs_blockHash = ''h'', bs_status = -1, bs_txStatus = map (\<lambda>h. \<lparr>ts_txHash = h, ts_status = -1\<rparr>) hs, bs_id = ''n''\<rparr>"

definition demo_wrapper :: BlockStatusWrapper where
  "demo_wrapper = (BlockStatusWrapper_new ''h'' demo_block)\<lparr>bw_nodeVerificationCount := 2, bw_verifyNodes := {''o''},
     bw_blockStatusList := [reported [''t'', ''t'']]\<rparr>"

definition demo_reported :: block_storage where
  "demo_reported = BlockStorage_new\<lparr>bs_blockStatusMap := [(''h'', demo_wrapper)]\<rparr>"

lemma demo_reported_reachable: "flow_reachable demo_flow demo_reported"
proof -
  let ?w = "demo_wrapper\<lparr>bw_verifyNodes := {''n'', ''o''}, bw_blockStatusList := []\<rparr>"
  let ?s = "BlockStorage_new\<lparr>bs_blockStatusMap := [(''h'', ?w)]\<rparr>"
  have "flow_call demo_flow 0 (OpVerifyNodes ''h'' demo_block [''n'', ''o'']) BlockStorage_new = Ret ?s"
    by (simp add: AddBlockStatus_verify_def demo_flow_def BlockStorage_new_def demo_wrapper_def BlockStatusWrapper_new_def)
  with flow_reachable.init have "flow_reachable demo_flow ?s" by (rule flow_reachable.call) simp
  moreover have "flow_call demo_flow 0 (OpBlockStatus (reported [''t'', ''t''])) ?s = Ret demo_reported"
    by (simp add: AddBlockStatus_def CheckData_def Let_def reported_def demo_wrapper_def BlockStatusWrapper_new_def demo_reported_def
        BlockStorage_new_def insert_Diff_if)
  ultimately show ?thesis by (rule flow_reachable.call) simp
qed

theorem one_report_per_node_witness:
  "distinct (map bs_id (bw_blockStatusList demo_wrapper)) \<and> ''n'' \<notin> asked_nodes demo_wrapper"
  using one_report_per_node [OF demo_reported_reachable in_order(2), of "''h''" demo_wrapper]
  by (simp add: demo_reported_def) (simp add: demo_wrapper_def reported_def)

lemma kept_txs_filter: "kept_txs env n m txs =
   (if \<exists>tx\<in>set txs. fe_type env tx = kTransactionTypeTx \<and> (tx_txType tx = TX_TYPE_INVOKE_CONTRACT \<or> tx_txType tx = kTransactionTypeDeploy)
    then None
    else Some (filter (\<lambda>tx. fe_type env tx = kTransactionTypeTx \<and> fe_timeout env tx = 0 \<and>
      (case map_of m (tx_hash tx) of None \<Rightarrow> True | Some k \<Rightarrow> k < n)) txs))"
  by (induction env n m txs rule: kept_txs.induct) (auto simp: not_le split: option.splits)

text \<open>
  A block is built again unless it has a contract transaction: with the normal transactions in their order that are not
  too old and are listed in the reports less often than three quarters of the nodes, or not at all. A report may list a
  transaction any number of times, so one node can remove it alone.
\<close>

theorem rebuilt_transactions:
  assumes "map_of (bs_blockStatusMap s) hash = Some w"
    and "\<not> (\<exists>tx\<in>set (bl_txs (bw_block w)). fe_type env tx = kTransactionTypeTx \<and>
       (tx_txType tx = TX_TYPE_INVOKE_CONTRACT \<or> tx_txType tx = kTransactionTypeDeploy))"
    and "kept = filter (\<lambda>tx. fe_type env tx = kTransactionTypeTx \<and> fe_timeout env tx = 0 \<and>
       (let n = count_list (concat (map (\<lambda>st. map ts_txHash (bs_txStatus st)) (bw_blockStatusList w))) (tx_hash tx)
        in n = 0 \<or> n < fail_threshold w)) (bl_txs (bw_block w))"
  shows "bs_effects (newBuildBlockByBlockStatus env now hash s) = bs_effects s @ (if kept = [] then [] else
    [HandleBlock (BlockMsg_new\<lparr>bm_version := fe_node_version env, bm_time := now, bm_block := fe_serialize env
       (InitNewBlock env now (bw_block w) ((bw_block w)\<lparr>bl_txs := kept, bl_sign := [], bl_hash := []\<rparr>))\<rparr>)])"
proof -
  have e: "(case map_of (rejections w) h of None \<Rightarrow> True | Some k \<Rightarrow> k < m) \<longleftrightarrow>
      (let n = count_list (concat (map (\<lambda>st. map ts_txHash (bs_txStatus st)) (bw_blockStatusList w))) h in n = 0 \<or> n < m)" for h m
    by (auto simp: rejections_def map_of_tally Let_def count_list_0_iff)
  have "kept_txs env (fail_threshold w) (rejections w) (bl_txs (bw_block w)) = Some kept"
    unfolding kept_txs_filter assms(3) e using assms(2) by (simp only: if_False)
  then show ?thesis using assms(1) by (simp add: newBuildBlockByBlockStatus_def Let_def with_flow_def)
qed

theorem rebuilt_transactions_witness:
  "bs_effects (newBuildBlockByBlockStatus demo_flow 0 ''h'' demo_reported) =
     [HandleBlock (BlockMsg_new\<lparr>bm_version := ''v'', bm_time := 0, bm_block := ''raw''\<rparr>)]"
proof -
  have d: "d075 = 6755399441055744" "double_times 2 6755399441055744 = 13510798882111488"
    by (simp_all add: d075_def double_times_def round53_def bit_length.simps)
  have t: "fail_threshold demo_wrapper = 1"
    by (simp add: fail_threshold_def demo_wrapper_def BlockStatusWrapper_new_def failure_share_def trunc_times_def d)
  have k: "[bl_txs demo_block ! 1] = filter (\<lambda>tx. fe_type demo_flow tx = kTransactionTypeTx \<and> fe_timeout demo_flow tx = 0 \<and>
       (let n = count_list (concat (map (\<lambda>st. map ts_txHash (bs_txStatus st)) (bw_blockStatusList demo_wrapper))) (tx_hash tx)
        in n = 0 \<or> n < fail_threshold demo_wrapper)) (bl_txs (bw_block demo_wrapper))"
    unfolding t by (simp add: demo_wrapper_def BlockStatusWrapper_new_def demo_block_def demo_flow_def reported_def Let_def)
  have c: "\<not> (\<exists>tx\<in>set (bl_txs (bw_block demo_wrapper)). fe_type demo_flow tx = kTransactionTypeTx \<and>
       (tx_txType tx = TX_TYPE_INVOKE_CONTRACT \<or> tx_txType tx = kTransactionTypeDeploy))"
    by (simp add: demo_wrapper_def BlockStatusWrapper_new_def demo_block_def TX_TYPE_INVOKE_CONTRACT_def kTransactionTypeDeploy_def)
  show ?thesis
    using rebuilt_transactions [OF _ c k, of demo_reported "''h''" 0]
    by (simp add: demo_reported_def BlockStorage_new_def) (simp add: demo_flow_def)
qed

end
