(* ===== verification/BlockSeek.thy ===== *)
theory BlockSeek
  imports BlockFlow "HOL-Library.Signed_Division"
begin

text \<open>
  The questions for the hashes of a height (second half of \<open>ca/block_stroage.cpp\<close>) and the cache of the
  nodes that were asked to sign a block and of those that did (\<open>utils/vrf.hpp\<close>).
\<close>

subsection \<open>Tasks\<close>

definition GetPrehash :: "u64 \<Rightarrow> block_storage \<Rightarrow> nat option" where
  "GetPrehash height s = map_of (bs_preHashMap s) height"

definition isSeekTask :: "u64 \<Rightarrow> block_storage \<Rightarrow> bool" where
  "isSeekTask seekHeight s \<longleftrightarrow> map_of (bs_preHashMap s) seekHeight \<noteq> None"

definition ForceCommitSeekJob :: "u64 \<Rightarrow> block_storage \<Rightarrow> block_storage" where
  "ForceCommitSeekJob seekHeight s =
     s\<lparr>bs_preHashMap := map_assign seekHeight (length (bs_seekTasks s)) (bs_preHashMap s), bs_seekTasks := bs_seekTasks s @ [seekHeight]\<rparr>"

text \<open>With more than 100 entries the code reads through the end iterator of the map.\<close>

definition commitLookupTask :: "u64 \<Rightarrow> block_storage \<Rightarrow> block_storage run" where
  "commitLookupTask seekHeight s =
     (if isSeekTask seekHeight s then Ret s
      else if 100 < length (bs_preHashMap s) then Undefined
      else Ret (ForceCommitSeekJob seekHeight s))"

definition clearPreHashMap :: "block_storage \<Rightarrow> block_storage" where
  "clearPreHashMap s = s\<lparr>bs_preHashMap := []\<rparr>"

subsection \<open>Messages\<close>

record SeekPreHashByHightReq =
  spq_self_node_id :: cxx_string
  spq_msg_id :: cxx_string
  spq_seek_height :: u64

record SeekPreHashByHightAck =
  spa_self_node_id :: cxx_string
  spa_msg_id :: cxx_string
  spa_seek_height :: u64
  spa_prehashes :: "cxx_string list"

definition sendSeekGetPreHashRequest :: "cxx_string \<Rightarrow> cxx_string \<Rightarrow> u64 \<Rightarrow> SeekPreHashByHightReq" where
  "sendSeekGetPreHashRequest self_id msgId seekHeight =
     \<lparr>spq_self_node_id = self_id, spq_msg_id = msgId, spq_seek_height = seekHeight\<rparr>"

text \<open>An answer that cannot be given is sent all the same, as far as it was filled.\<close>

definition sendPreHashAcknowledgment :: "reader \<Rightarrow> cxx_string \<Rightarrow> cxx_string \<Rightarrow> u64 \<Rightarrow> SeekPreHashByHightAck run" where
  "sendPreHashAcknowledgment rd self_id msgId seekHeight =
     (let ack = \<lparr>spa_self_node_id = self_id, spa_msg_id = [], spa_seek_height = 0, spa_prehashes = []\<rparr> in
      bind_run (getBlockTop rd 0) (\<lambda>(ret, nodeSelfHeight).
        if ret \<noteq> DB_SUCCESS then Ret ack
        else let ack = ack\<lparr>spa_msg_id := msgId\<rparr> in
          if nodeSelfHeight < seekHeight then Ret ack
          else bind_run (getBlockHashsByBlockHeight rd seekHeight []) (\<lambda>(ret, blockHashes).
            if ret \<noteq> DB_SUCCESS then Ret ack
            else Ret (ack\<lparr>spa_seek_height := seekHeight, spa_prehashes := blockHashes\<rparr>))))"

definition handleSeekGetPreHashRequest ::
    "peers \<Rightarrow> int \<Rightarrow> reader \<Rightarrow> cxx_string \<Rightarrow> SeekPreHashByHightReq \<Rightarrow> (int \<times> SeekPreHashByHightAck option) run" where
  "handleSeekGetPreHashRequest p fd rd self_id msg = verified p fd (spq_self_node_id msg)
     (bind_run (sendPreHashAcknowledgment rd self_id (spq_msg_id msg) (spq_seek_height msg)) (\<lambda>ack. Ret (Some ack)))"

text \<open>The answer goes to the waiting request as message id, sender and data.\<close>

definition preHashAcknowledgment ::
    "peers \<Rightarrow> int \<Rightarrow> (SeekPreHashByHightAck \<Rightarrow> cxx_string) \<Rightarrow> SeekPreHashByHightAck \<Rightarrow>
     (int \<times> (cxx_string \<times> cxx_string \<times> cxx_string) option) run" where
  "preHashAcknowledgment p fd ser msg = verified p fd (spa_self_node_id msg)
     (Ret (Some (spa_msg_id msg, spa_self_node_id msg, ser msg)))"

definition blockStatusMessageHandler :: "peers \<Rightarrow> int \<Rightarrow> u64 \<Rightarrow> BlockStatus \<Rightarrow> block_storage \<Rightarrow> int \<times> block_storage" where
  "blockStatusMessageHandler p fd now msg s =
     (if \<not> verifyPeerNodeIdRequest p fd (bs_id msg) then (-1, s) else (0, AddBlockStatus now msg s))"

subsection \<open>Counting the answers\<close>

type_synonym prehash_votes = "(u64, (cxx_string, nat) std_map) std_map"

definition seek_answer :: "prehash_votes \<Rightarrow> SeekPreHashByHightAck \<Rightarrow> prehash_votes" where
  "seek_answer m ack =
     foldl (\<lambda>m prehash. map_assign (spa_seek_height ack)
              (vote_for prehash (case map_of m (spa_seek_height ack) of None \<Rightarrow> [] | Some v \<Rightarrow> v)) m) m (spa_prehashes ack)"

definition percentage :: "nat \<Rightarrow> nat \<Rightarrow> rat" where
  "percentage votes successCounter = rnd (rnd (rnd (of_nat votes) / rnd (of_nat successCounter)) * 100)"

text \<open>The best hash of a height with its percentage; a value above \<open>UINT16_MAX\<close> has no conversion.\<close>

fun best_prehash :: "nat \<Rightarrow> nat \<Rightarrow> nat \<times> cxx_string \<Rightarrow> (cxx_string \<times> nat) list \<Rightarrow> (nat \<times> cxx_string) run" where
  "best_prehash successCounter verifyNum best [] = Ret best"
| "best_prehash successCounter verifyNum best ((prehash, votes) # es) =
     (if votes < verifyNum then best_prehash successCounter verifyNum best es
      else let p = nat \<lfloor>percentage votes successCounter\<rfloor> in
        if 65535 < p then Undefined
        else best_prehash successCounter verifyNum (if fst best < p then (p, prehash) else best) es)"

fun seek_heights :: "nat \<Rightarrow> nat \<Rightarrow> prehash_votes \<Rightarrow> (cxx_string \<times> nat) run" where
  "seek_heights successCounter verifyNum [] = Ret ([], 0)"
| "seek_heights successCounter verifyNum ((height, votes) # m) =
     bind_run (best_prehash successCounter verifyNum (0, []) votes) (\<lambda>(maxPercentage, prehash).
       if 70 \<le> maxPercentage then Ret (prehash, maxPercentage) else seek_heights successCounter verifyNum m)"

definition seek_prehashes :: "SeekPreHashByHightAck list \<Rightarrow> (cxx_string \<times> nat) run" where
  "seek_prehashes acks = seek_heights (length acks) (length acks div 5 * 3) (foldl seek_answer [] acks)"

definition seekPreHashByNode ::
    "(cxx_string \<Rightarrow> SeekPreHashByHightAck option) \<Rightarrow> wait_round \<Rightarrow> cxx_string list \<Rightarrow> (cxx_string \<times> nat) run" where
  "seekPreHashByNode parse w node_ids_to_send =
     (if \<not> wr_created w then Ret ([], 0)
      else if \<not> list_all (wr_added w) node_ids_to_send then Ret ([], 0)
      else if \<not> wr_complete w \<and> \<not> at_least_times (length (wr_answers w)) (length node_ids_to_send) d05 then Ret ([], 0)
      else seek_prehashes (List.map_filter parse (wr_answers w)))"

definition get_prehash_find_node ::
    "chain_env \<Rightarrow> (nat \<Rightarrow> nat) \<Rightarrow> reader \<Rightarrow> Node list \<Rightarrow> u32 \<Rightarrow> u64 \<Rightarrow> (int \<times> cxx_string list) run" where
  "get_prehash_find_node env draw rd nodes num seekHeight =
     bind_run (get_sync_node_basic env draw rd nodes num seekHeight) (\<lambda>(ret, ids). Ret (if ret \<noteq> 0 then -1 else 0, ids))"

definition seekPreHashThread ::
    "chain_env \<Rightarrow> (nat \<Rightarrow> nat) \<Rightarrow> reader \<Rightarrow> Node list \<Rightarrow> (cxx_string \<Rightarrow> SeekPreHashByHightAck option) \<Rightarrow> wait_round \<Rightarrow> u64 \<Rightarrow>
     (cxx_string \<times> nat) run" where
  "seekPreHashThread env draw rd nodes parse w seekHeight =
     bind_run (getBlockTop rd 0) (\<lambda>(status, nodeSelfHeight).
       if status \<noteq> DB_SUCCESS then Ret ([], 0)
       else bind_run (get_prehash_find_node env draw rd nodes (MIN_SYNC_QUAL_NODES env) seekHeight) (\<lambda>(ret, node_ids_to_send).
         if ret \<noteq> 0 then Ret ([], 0) else seekPreHashByNode parse w node_ids_to_send))"

subsection \<open>The nodes asked to sign\<close>

text \<open>The data of a \<open>Vrf\<close> message is not looked at here.\<close>

record 'v vrf_cache =
  vrf_cache_data :: "(cxx_string, 'v \<times> u64) std_map"
  tx_vrf_cache :: "(cxx_string, 'v \<times> u64) std_map"
  vrfVerificationNodeRequest :: "(cxx_string, cxx_string list \<times> u64) std_map"
  blockSignatureCacheData :: "(cxx_string, cxx_string set \<times> u64) std_map"

definition cacheExpireTime :: u64 where "cacheExpireTime = 300000000"

definition drop_expired :: "u64 \<Rightarrow> (cxx_string, 'a \<times> u64) std_map \<Rightarrow> (cxx_string, 'a \<times> u64) std_map" where
  "drop_expired now m = filter (\<lambda>(_, _, t). \<not> cacheExpireTime < now - t) m"

definition VRF_clear :: "u64 \<Rightarrow> 'v vrf_cache \<Rightarrow> 'v vrf_cache" where
  "VRF_clear now c = c\<lparr>vrf_cache_data := drop_expired now (vrf_cache_data c), tx_vrf_cache := drop_expired now (tx_vrf_cache c),
     vrfVerificationNodeRequest := drop_expired now (vrfVerificationNodeRequest c),
     blockSignatureCacheData := drop_expired now (blockSignatureCacheData c)\<rparr>"

definition vrfInfoAdder :: "u64 \<Rightarrow> cxx_string \<Rightarrow> 'v \<Rightarrow> 'v vrf_cache \<Rightarrow> 'v vrf_cache" where
  "vrfInfoAdder now TxHash info c = c\<lparr>vrf_cache_data := map_assign TxHash (info, now) (vrf_cache_data c)\<rparr>"

definition addTransactionVerificationInfo :: "u64 \<Rightarrow> cxx_string \<Rightarrow> 'v \<Rightarrow> 'v vrf_cache \<Rightarrow> 'v vrf_cache" where
  "addTransactionVerificationInfo now TxHash info c = c\<lparr>tx_vrf_cache := map_assign TxHash (info, now) (tx_vrf_cache c)\<rparr>"

definition get_vrf_info :: "cxx_string \<Rightarrow> 'v vrf_cache \<Rightarrow> (cxx_string \<times> 'v) option" where
  "get_vrf_info TxHash c = map_option (\<lambda>(info, _). (TxHash, info)) (map_of (vrf_cache_data c) TxHash)"

definition fetchTransactionVrfDetails :: "cxx_string \<Rightarrow> 'v vrf_cache \<Rightarrow> (cxx_string \<times> 'v) option" where
  "fetchTransactionVrfDetails TxHash c = map_option (\<lambda>(info, _). (TxHash, info)) (map_of (tx_vrf_cache c) TxHash)"

definition addVerificationNodes :: "u64 \<Rightarrow> cxx_string \<Rightarrow> cxx_string list \<Rightarrow> 'v vrf_cache \<Rightarrow> 'v vrf_cache" where
  "addVerificationNodes now TxHash AddressVector c =
     c\<lparr>vrfVerificationNodeRequest := map_assign TxHash (AddressVector, now) (vrfVerificationNodeRequest c),
       blockSignatureCacheData := map_assign TxHash ({}, now) (blockSignatureCacheData c)\<rparr>"

definition getBlockFlowSignNodes ::
    "cxx_string \<Rightarrow> cxx_string list \<Rightarrow> cxx_string \<Rightarrow> bool \<Rightarrow> 'v vrf_cache \<Rightarrow> bool \<times> cxx_string list \<times> 'v vrf_cache" where
  "getBlockFlowSignNodes hash signNodes blockSignAddress isverifySign c =
     (let signNodes = (case map_of (vrfVerificationNodeRequest c) hash of None \<Rightarrow> signNodes | Some (ids, _) \<Rightarrow> ids) in
      if \<not> isverifySign then (True, signNodes, c)
      else case map_of (blockSignatureCacheData c) hash of
        None \<Rightarrow> (True, signNodes, c)
      | Some (signers, t) \<Rightarrow>
          if blockSignAddress \<in> signers then (False, signNodes, c)
          else (True, signNodes,
                c\<lparr>blockSignatureCacheData := map_assign hash (insert blockSignAddress signers, t) (blockSignatureCacheData c)\<rparr>))"

text \<open>Characters are signed, so the sum and the remainder can be negative.\<close>

definition stringToll :: "cxx_string \<Rightarrow> int" where
  "stringToll data = sum_list (map char_signed data)"

definition GetRandNum :: "cxx_string \<Rightarrow> u32 \<Rightarrow> int run" where
  "GetRandNum data limit =
     (if limit = 0 then Undefined else Ret (sint (word_of_int (stringToll data smod uint limit) :: 32 word)))"

definition GetRandNum_double :: "cxx_string \<Rightarrow> rat" where
  "GetRandNum_double data = rnd (of_int (stringToll data smod 100) / 100)"

text \<open>A proof is a signature of the hash of the input, the output the hash of the proof.\<close>

definition CreateVRF ::
    "(cxx_string \<Rightarrow> cxx_string) \<Rightarrow> (cxx_string \<Rightarrow> cxx_string option) \<Rightarrow> cxx_string \<Rightarrow> int \<times> (cxx_string \<times> cxx_string) option" where
  "CreateVRF sha signMessage input =
     (case signMessage (sha input) of None \<Rightarrow> (-1, None) | Some p \<Rightarrow> (0, Some (sha p, p)))"

definition VerifyVRF ::
    "(cxx_string \<Rightarrow> cxx_string) \<Rightarrow> (cxx_string \<Rightarrow> cxx_string \<Rightarrow> bool) \<Rightarrow> cxx_string \<Rightarrow> cxx_string \<Rightarrow> int \<times> cxx_string option" where
  "VerifyVRF sha verifyMessage input p =
     (if \<not> verifyMessage (sha input) p then (-1, None) else (0, Some (sha p)))"

definition BlockFlowSignVerifier :: "flow_env \<Rightarrow> cxx_string \<Rightarrow> 'v vrf_cache \<Rightarrow> BlockMsg \<Rightarrow> int" where
  "BlockFlowSignVerifier env defaultaddr c blockMsg =
     (let block = fe_parse env (bm_block blockMsg);
          signNodes = fst (snd (getBlockFlowSignNodes (bl_hash block) [] [] False c));
          verifyNodes = filter (\<lambda>addr. addr \<noteq> defaultaddr) (map (\<lambda>item. fe_addr env (sg_pub item)) (bl_sign block)) in
      if list_all (\<lambda>a. a \<in> set signNodes) verifyNodes then 0 else -1)"

end
