(* ===== verification/SeekProps.thy ===== *)
theory SeekProps
  imports BlockSeek
begin

text \<open>Properties of the search for preceding hashes and of the cache of asked and signing nodes.\<close>

subsection \<open>Percentages in doubles\<close>

lemma rnd_07: "rnd (7 / 10) = of_int 6305039478318694 * 2 powi (- 53)"
  by (rule trans [OF rnd_value [of "-1" _ 6305039478318694]]) (simp_all add: power_int_minus power_int_def)

lemma rnd_70: "rnd (of_int 6305039478318694 * 2 powi (- 53) * 100) = 70"
  by (rule trans [OF rnd_value [of 6 _ 4925812092436480]]) (simp_all add: power_int_def power_divide)

lemma percentage_70:
  assumes n: "0 < n" "n < 2 ^ 40" "c < 2 ^ 40"
  shows "70 \<le> percentage c n \<longleftrightarrow> 7 * n \<le> 10 * c"
proof -
  have e: "percentage c n = rnd (rnd (of_nat c / of_nat n) * 100)"
    using n by (simp add: percentage_def rnd_exact)
  let ?q = "of_nat c / of_nat n :: rat"
  have q: "7 / 10 \<le> ?q \<longleftrightarrow> 7 * n \<le> 10 * c"
  proof -
    have "7 / 10 \<le> ?q \<longleftrightarrow> (7 * of_nat n :: rat) \<le> 10 * of_nat c" using n(1) by (simp add: field_simps)
    also have "\<dots> \<longleftrightarrow> (of_nat (7 * n) :: rat) \<le> of_nat (10 * c)" by simp
    finally show ?thesis by (simp only: of_nat_le_iff)
  qed
  show ?thesis
  proof
    assume "7 * n \<le> 10 * c"
    then have "rnd (7 / 10) * 100 \<le> rnd ?q * 100" using q rnd_mono by simp
    then have "rnd (rnd (7 / 10) * 100) \<le> percentage c n" unfolding e by (rule rnd_mono)
    then show "70 \<le> percentage c n" by (simp only: rnd_07 rnd_70)
  next
    assume p: "70 \<le> percentage c n"
    show "7 * n \<le> 10 * c"
    proof (rule ccontr)
      assume "\<not> 7 * n \<le> 10 * c"
      then have "of_nat (10 * c + 1) \<le> (of_nat (7 * n) :: rat)" by (simp only: of_nat_le_iff)
      then have "?q \<le> 7 / 10 - 1 / (10 * of_nat n)" using n(1) by (simp add: field_simps)
      moreover have "(1 :: rat) / (10 * 2 ^ 40) \<le> 1 / (10 * of_nat n)"
      proof -
        have "(of_nat n :: rat) \<le> of_nat (2 ^ 40)" using n(2) by (simp only: of_nat_le_iff)
        then show ?thesis using n(1) by (intro divide_left_mono) auto
      qed
      ultimately have q: "?q \<le> 7 / 10 - 1 / (10 * 2 ^ 40)" by linarith
      have "0 \<le> ?q" by simp
      then have "rnd ?q \<le> ?q + ?q * 2 powi (- 53)" using rnd_error [of ?q] by linarith
      also have "\<dots> \<le> ?q + 2 powi (- 53)" using q by (simp add: power_int_minus)
      finally have r: "rnd ?q * 100 \<le> 70 - 10 / 2 ^ 40 + 100 * 2 powi (- 53)" using q by linarith
      moreover have "(100 :: rat) * 2 powi (- 53) \<le> 1 / 2 ^ 40" by (simp add: power_int_minus field_simps)
      ultimately have r: "rnd ?q * 100 \<le> 70 - 9 / 2 ^ 40" by (simp add: field_simps)
      have "0 \<le> rnd ?q * 100" using rnd_nonneg [of ?q] by simp
      then have "percentage c n \<le> rnd ?q * 100 + rnd ?q * 100 * 2 powi (- 53)" unfolding e using rnd_error [of "rnd ?q * 100"] by linarith
      also have "\<dots> \<le> rnd ?q * 100 + 70 * 2 powi (- 53)" using r by (simp add: power_int_minus)
      also have "\<dots> < 70" using r by (simp add: power_int_minus)
      finally show False using p by simp
    qed
  qed
qed

subsection \<open>The hash that is answered\<close>

definition listed :: "SeekPreHashByHightAck list \<Rightarrow> u64 \<Rightarrow> cxx_string list" where
  "listed acks height = concat (map spa_prehashes (filter (\<lambda>a. spa_seek_height a = height) acks))"

definition counts :: "SeekPreHashByHightAck list \<Rightarrow> prehash_votes \<Rightarrow> bool" where
  "counts acks m \<longleftrightarrow> ordered_map m \<and>
     (\<forall>height. map_of m height = (if listed acks height = [] then None else Some (tally (listed acks height))))"

lemma vote_tally: "vote_for h (tally xs) = tally (xs @ [h])"
  by (simp add: tally_def)

lemma counts_step:
  assumes "ordered_map m" "\<And>height. map_of m height = (if xs height = [] then None else Some (tally (xs height)))"
  shows "ordered_map (foldl (\<lambda>m p. map_assign g (vote_for p (case map_of m g of None \<Rightarrow> [] | Some v \<Rightarrow> v)) m) m ps) \<and>
    map_of (foldl (\<lambda>m p. map_assign g (vote_for p (case map_of m g of None \<Rightarrow> [] | Some v \<Rightarrow> v)) m) m ps) height =
      (let ys = xs height @ (if height = g then ps else []) in if ys = [] then None else Some (tally ys))"
  using assms
proof (induction ps arbitrary: m xs)
  case (Cons p ps)
  let ?v = "case map_of m g of None \<Rightarrow> [] | Some v \<Rightarrow> v"
  have v: "?v = tally (xs g)" using Cons.prems(2) [of g] by (auto simp: tally_def)
  let ?xs = "xs(g := xs g @ [p])"
  have "ordered_map (map_assign g (vote_for p ?v) m)" using Cons.prems(1) by simp
  moreover have "map_of (map_assign g (vote_for p ?v) m) h = (if ?xs h = [] then None else Some (tally (?xs h)))" for h
    using Cons.prems(2) [of h] by (simp add: v vote_tally)
  ultimately show ?case using Cons.IH [of "map_assign g (vote_for p ?v) m" ?xs] by (auto simp: Let_def)
qed (simp add: Let_def)

lemma listed_snoc: "listed (acks @ [a]) height = listed acks height @ (if height = spa_seek_height a then spa_prehashes a else [])"
  by (simp add: listed_def)

lemma seek_answers_count: "counts acks (foldl seek_answer [] acks)"
proof (induction acks rule: rev_induct)
  case Nil
  show ?case by (simp add: counts_def listed_def)
next
  case (snoc a acks)
  let ?m = "foldl seek_answer [] acks"
  have "ordered_map ?m" "map_of ?m height = (if listed acks height = [] then None else Some (tally (listed acks height)))" for height
    using snoc by (auto simp: counts_def)
  note c = counts_step [OF this, of "spa_seek_height a" "spa_prehashes a"]
  show ?case unfolding counts_def foldl_append foldl.simps seek_answer_def [of ?m] listed_snoc
    using c by (auto simp: Let_def)
qed

lemma floor_70: "70 \<le> nat \<lfloor>x\<rfloor> \<longleftrightarrow> 70 \<le> (x :: rat)"
proof -
  have "70 \<le> nat \<lfloor>x\<rfloor> \<longleftrightarrow> 70 \<le> \<lfloor>x\<rfloor>" by linarith
  then show ?thesis by (simp add: le_floor_iff)
qed

lemma best_prehash_result:
  assumes "best_prehash n v best es = Ret (p, h)"
  shows "(70 \<le> p \<longleftrightarrow> 70 \<le> fst best \<or> (\<exists>(h, c)\<in>set es. v \<le> c \<and> 70 \<le> percentage c n)) \<and>
    (70 \<le> p \<longrightarrow> (p, h) = best \<or> (\<exists>c. (h, c) \<in> set es \<and> 70 \<le> percentage c n))"
  using assms
proof (induction n v best es rule: best_prehash.induct)
  case (2 n v best prehash votes es)
  show ?case
  proof (cases "votes < v")
    case True
    then show ?thesis using 2 by auto
  next
    case False
    let ?p = "nat \<lfloor>percentage votes n\<rfloor>"
    let ?best = "if fst best < ?p then (?p, prehash) else best"
    have b: "best_prehash n v ?best es = Ret (p, h)" using 2(3) False by (auto simp: Let_def split: if_splits)
    have i: "(70 \<le> p \<longleftrightarrow> 70 \<le> fst ?best \<or> (\<exists>(h, c)\<in>set es. v \<le> c \<and> 70 \<le> percentage c n)) \<and>
      (70 \<le> p \<longrightarrow> (p, h) = ?best \<or> (\<exists>c. (h, c) \<in> set es \<and> 70 \<le> percentage c n))"
      using 2(2) [OF False refl _ b] 2(3) False by (simp add: Let_def split: if_splits)
    have f: "70 \<le> fst ?best \<longleftrightarrow> 70 \<le> fst best \<or> 70 \<le> percentage votes n"
      using floor_70 [of "percentage votes n"] by auto
    show ?thesis using i f False floor_70 [of "percentage votes n"] by (auto split: if_splits)
  qed
qed simp

text \<open>A height has a winner when some hash is listed there for seven of ten answers.\<close>

definition wins :: "nat \<Rightarrow> cxx_string list \<Rightarrow> cxx_string \<Rightarrow> bool" where
  "wins n hs h \<longleftrightarrow> h \<in> set hs \<and> 7 * n \<le> 10 * count_list hs h"

lemma best_of_tally:
  assumes n: "0 < n" "n < 2 ^ 40" "length hs < 2 ^ 40" and b: "best_prehash n (n div 5 * 3) (0, []) (tally hs) = Ret (p, h)"
  shows "(70 \<le> p \<longleftrightarrow> (\<exists>h. wins n hs h)) \<and> (70 \<le> p \<longrightarrow> wins n hs h)"
proof -
  have c: "count_list hs x < 2 ^ 40" for x using count_le_length [of hs x] n(3) by linarith
  have w: "(x, y) \<in> set (tally hs) \<and> 70 \<le> percentage y n \<longleftrightarrow> wins n hs x \<and> y = count_list hs x" for x y
    using percentage_70 [OF n(1,2) c] by (auto simp: tally_entry wins_def)
  have v: "n div 5 * 3 \<le> count_list hs x" if "wins n hs x" for x using that by (auto simp: wins_def)
  have "(\<exists>(x, c)\<in>set (tally hs). n div 5 * 3 \<le> c \<and> 70 \<le> percentage c n) \<longleftrightarrow> (\<exists>x. wins n hs x)" (is "?l \<longleftrightarrow> ?r")
  proof
    assume ?r
    then obtain x where "wins n hs x" by blast
    then have "(x, count_list hs x) \<in> set (tally hs)" "70 \<le> percentage (count_list hs x) n" "n div 5 * 3 \<le> count_list hs x"
      using w v by auto
    then show ?l by blast
  qed (use w in blast)
  moreover have "(p, h) = (0, []) \<or> (\<exists>c. (h, c) \<in> set (tally hs) \<and> 70 \<le> percentage c n) \<Longrightarrow> 70 \<le> p \<Longrightarrow> wins n hs h"
    using w by auto
  ultimately show ?thesis using best_prehash_result [OF b] by simp
qed

lemma seek_heights_result:
  assumes "\<forall>(height, votes)\<in>set m. \<exists>hs. votes = tally hs \<and> hs = listed acks height \<and> length hs < 2 ^ 40"
    and "0 < n" "n < 2 ^ 40" "seek_heights n (n div 5 * 3) m = Ret (h, p)"
  shows "(p \<noteq> 0 \<longleftrightarrow> (\<exists>height\<in>fst ` set m. \<exists>h. wins n (listed acks height) h)) \<and> (p \<noteq> 0 \<longrightarrow> (\<exists>height. wins n (listed acks height) h))"
  using assms(1,4)
proof (induction m)
  case (Cons e m)
  obtain height votes where e: "e = (height, votes)" by (cases e)
  have hs: "votes = tally (listed acks height)" "length (listed acks height) < 2 ^ 40" using Cons.prems(1) by (auto simp: e)
  obtain q g where b: "best_prehash n (n div 5 * 3) (0, []) (tally (listed acks height)) = Ret (q, g)"
      "(if 70 \<le> q then Ret (g, q) else seek_heights n (n div 5 * 3) m) = Ret (h, p)"
    using Cons.prems(2) by (auto simp: e hs(1) run_simps)
  note w = best_of_tally [OF assms(2,3) hs(2) b(1)]
  show ?case
  proof (cases "70 \<le> q")
    case True
    then show ?thesis using w b(2) by (auto simp: e)
  next
    case False
    then show ?thesis using w b(2) Cons.IH Cons.prems(1) by (auto simp: e)
  qed
qed simp

lemma majority_answered:
  assumes "acks \<noteq> []" "length acks < 2 ^ 40" "length (concat (map spa_prehashes acks)) < 2 ^ 40" "seek_prehashes acks = Ret (prehash, p)"
  shows "(p \<noteq> 0 \<longleftrightarrow> (\<exists>height h. wins (length acks) (listed acks height) h)) \<and>
    (p \<noteq> 0 \<longrightarrow> (\<exists>height. wins (length acks) (listed acks height) prehash))"
proof -
  let ?m = "foldl seek_answer [] acks"
  have "ordered_map ?m" and m: "\<And>height. map_of ?m height = (if listed acks height = [] then None else Some (tally (listed acks height)))"
    using seek_answers_count [of acks] by (auto simp: counts_def)
  then have d: "distinct (map fst ?m)" by (simp add: ordered_map_distinct)
  have short: "length (listed acks height) < 2 ^ 40" for height
  proof -
    have "length (listed acks height) \<le> length (concat (map spa_prehashes acks))"
      by (induction acks) (auto simp: listed_def)
    then show ?thesis using assms(3) by simp
  qed
  have t: "\<forall>(height, votes)\<in>set ?m. \<exists>hs. votes = tally hs \<and> hs = listed acks height \<and> length hs < 2 ^ 40"
  proof (intro ballI, safe)
    fix height votes
    assume "(height, votes) \<in> set ?m"
    then have "map_of ?m height = Some votes" using d by simp
    then show "\<exists>hs. votes = tally hs \<and> hs = listed acks height \<and> length hs < 2 ^ 40"
      using m [of height] short [of height] by (auto split: if_splits)
  qed
  have k: "height \<in> fst ` set ?m \<longleftrightarrow> listed acks height \<noteq> []" for height
    using m [of height] map_of_eq_None_iff [of ?m height] by auto
  have n: "0 < length acks" using assms(1) by simp
  have "(\<exists>height\<in>fst ` set ?m. \<exists>h. wins (length acks) (listed acks height) h) \<longleftrightarrow> (\<exists>height h. wins (length acks) (listed acks height) h)"
    using k unfolding wins_def by (metis empty_iff list.set(1))
  with seek_heights_result [OF t n assms(2) assms(4) [unfolded seek_prehashes_def]] show ?thesis by blast
qed

text \<open>
  C20. A preceding hash is answered exactly when some height has a hash that is listed for at least seven of ten answers, and
  the answered hash is one of those, at whatever height the answers name: in exact arithmetic, although the code
  compares a truncated percentage in doubles.
\<close>

theorem seek_majority:
  assumes "acks \<noteq> []" "length acks < 2 ^ 40" "length (concat (map spa_prehashes acks)) < 2 ^ 40" "seek_prehashes acks = Ret (prehash, p)"
  shows "(p \<noteq> 0 \<longleftrightarrow> (\<exists>height h. wins (length acks) (listed acks height) h)) \<and>
    (p \<noteq> 0 \<longrightarrow> (\<exists>height. wins (length acks) (listed acks height) prehash))"
  by (rule majority_answered [OF assms])

definition one_answer :: SeekPreHashByHightAck where
  "one_answer = \<lparr>spa_self_node_id = ''n'', spa_msg_id = ''m'', spa_seek_height = 3, spa_prehashes = [''h'']\<rparr>"

lemma percentage_one: "percentage 1 1 = 100"
proof -
  have "rnd 1 = 1" "rnd (of_nat 100) = of_nat 100" using rnd_exact [of 1] rnd_exact [of 100] by simp_all
  then show ?thesis by (simp add: percentage_def)
qed

theorem seek_majority_witness:
  "\<exists>p. seek_prehashes [one_answer] = Ret (''h'', p) \<and> p \<noteq> 0"
proof -
  have "foldl seek_answer [] [one_answer] = [(3, [(''h'', 1)])]" by (simp add: seek_answer_def one_answer_def vote_for_def)
  then have r: "seek_prehashes [one_answer] = Ret (''h'', 100)"
    using percentage_one by (simp add: seek_prehashes_def Let_def)
  have "wins (length [one_answer]) (listed [one_answer] 3) ''h''" by (simp add: wins_def listed_def one_answer_def)
  moreover have "[one_answer] \<noteq> []" "length [one_answer] < 2 ^ 40" "length (concat (map spa_prehashes [one_answer])) < 2 ^ 40"
    by (simp_all add: one_answer_def)
  ultimately have "(100 :: nat) \<noteq> 0" using seek_majority [OF _ _ _ r] by blast
  with r show ?thesis by blast
qed

subsection \<open>Signatures\<close>

text \<open>The answers to a sequence of signatures of a block that come from the given addresses.\<close>

fun sign_all :: "cxx_string \<Rightarrow> 'v vrf_cache \<Rightarrow> cxx_string list \<Rightarrow> bool list" where
  "sign_all hash c [] = []"
| "sign_all hash c (a # as) =
     (let (accepted, _, c') = getBlockFlowSignNodes hash [] a True c in accepted # sign_all hash c' as)"

lemma sign_all_signers:
  "map_of (blockSignatureCacheData c) hash = Some (signers, t) \<Longrightarrow>
   sign_all hash c as = map (\<lambda>i. as ! i \<notin> signers \<union> set (take i as)) [0..<length as]"
proof (induction as arbitrary: c signers)
  case (Cons a as)
  have s: "[0..<length (a # as)] = 0 # map Suc [0..<length as]" by (simp add: upt_conv_Cons map_Suc_upt del: upt_Suc)
  show ?case
  proof (cases "a \<in> signers")
    case True
    then have "sign_all hash c (a # as) = False # sign_all hash c as" using Cons.prems by (simp add: getBlockFlowSignNodes_def Let_def)
    then show ?thesis unfolding s using Cons True by (auto simp del: upt_Suc)
  next
    case False
    let ?c = "c\<lparr>blockSignatureCacheData := map_assign hash (insert a signers, t) (blockSignatureCacheData c)\<rparr>"
    have "sign_all hash c (a # as) = True # sign_all hash ?c as" using Cons.prems False
      by (simp add: getBlockFlowSignNodes_def Let_def)
    moreover have "sign_all hash ?c as = map (\<lambda>i. as ! i \<notin> insert a signers \<union> set (take i as)) [0..<length as]"
      by (rule Cons.IH) simp
    ultimately show ?thesis unfolding s using False by (auto simp del: upt_Suc)
  qed
qed simp

text \<open>
  Once the nodes that are to sign a block are registered, the first signature from each address is accepted and every
  later one is refused, whoever it is from.
\<close>

theorem signature_accepted_once:
  "sign_all hash (addVerificationNodes now hash ids c) as = map (\<lambda>i. as ! i \<notin> set (take i as)) [0..<length as]"
  using sign_all_signers [of "addVerificationNodes now hash ids c" hash "{}" now as] by (simp add: addVerificationNodes_def)

end
