(* ===== verification/VrfConsensus.thy ===== *)
theory VrfConsensus
  imports BlockQueues Doubles
begin

text \<open>
  Agreement on the nodes that package and verify (\<open>ca/vrf_consensus.cpp\<close>). Every ten seconds each node
  broadcasts a signed seed with the hashes of its highest blocks. The nodes that have most of the
  hashes that are frequent in a period count as in step with the chain, and two periods later some of
  them are drawn. The shares are \<open>double\<close>s. Clocks are seconds since the epoch, the table's locks are
  left out; the iteration order of unordered maps is an argument (\<open>ve_order\<close>).
\<close>

definition CYCLE_DURATION_SECONDS :: int where "CYCLE_DURATION_SECONDS = 10"
definition MAX_VRFS_SIZE :: nat where "MAX_VRFS_SIZE = 10"

record VRFBlockInfo =
  vb_blockHash :: cxx_string
  vb_height :: u64

record VRFConsensusInfo =
  vc_vrfSeed :: cxx_string
  vc_blockinfo :: "VRFBlockInfo list"
  vc_sign :: CSign

record VRFStructure =
  vs_seed :: cxx_string
  vs_signature :: cxx_string
  vs_nodeId :: cxx_string
  vs_signatureHash :: cxx_string
  vs_frequency :: rat
  vs_height_hashes :: "(u64, cxx_string list) std_map"

type_synonym vrf_period = "(cxx_string, VRFStructure) std_map"

record vrf_node =
  validatedVRfs :: "(cxx_string, vrf_period) std_map"
  newValidatedVRfs :: "(cxx_string, vrf_period) std_map"

text \<open>\<open>ve_shuffle\<close> is \<open>shuffleMap\<close> (not part of the repository), \<open>ve_verify_sign\<close> checks a signature.\<close>

record vrf_env =
  ve_chain :: chain_env
  ve_addr :: "cxx_string \<Rightarrow> cxx_string"
  ve_sign :: "cxx_string \<Rightarrow> cxx_string \<Rightarrow> CSign option"
  ve_verify_sign :: "CSign \<Rightarrow> cxx_string \<Rightarrow> int"
  ve_order :: "(cxx_string \<times> nat) list \<Rightarrow> (cxx_string \<times> nat) list"
  ve_shuffle :: "vrf_period \<Rightarrow> cxx_string \<Rightarrow> (cxx_string \<times> VRFStructure) list"
  ve_self_addr :: cxx_string
  ve_consensus :: nat
  ve_log :: bool

subsection \<open>What a node broadcasts\<close>

definition VRFStructure_new :: "vrf_env \<Rightarrow> cxx_string \<Rightarrow> cxx_string \<Rightarrow> cxx_string \<Rightarrow> VRFStructure" where
  "VRFStructure_new env seed signature nodeId = \<lparr>vs_seed = seed, vs_signature = signature, vs_nodeId = nodeId,
     vs_signatureHash = sha256 (ve_chain env) signature, vs_frequency = 0, vs_height_hashes = []\<rparr>"

definition addHashForHeight :: "VRFStructure \<Rightarrow> u64 \<Rightarrow> cxx_string \<Rightarrow> VRFStructure" where
  "addHashForHeight v height hash = v\<lparr>vs_height_hashes := map_assign height
     ((case map_of (vs_height_hashes v) height of None \<Rightarrow> [] | Some hs \<Rightarrow> hs) @ [hash]) (vs_height_hashes v)\<rparr>"

text \<open>The hash of the data is signed, with the key of the node's own address.\<close>

definition vrf_sign :: "vrf_env \<Rightarrow> cxx_string \<Rightarrow> CSign option" where
  "vrf_sign env data = ve_sign env (ve_self_addr env) (sha256 (ve_chain env) data)"

text \<open>Block hashes from the top down until there are ten; the function returns from the loop then.\<close>

fun add_block_infos :: "u64 \<Rightarrow> cxx_string list \<Rightarrow> VRFBlockInfo list \<Rightarrow> bool \<times> VRFBlockInfo list" where
  "add_block_infos i [] infos = (False, infos)"
| "add_block_infos i (hash # hs) infos =
     (let infos = infos @ [\<lparr>vb_blockHash = take 8 hash, vb_height = i\<rparr>] in
      if 10 \<le> length infos then (True, infos) else add_block_infos i hs infos)"

fun collect_block_infos :: "reader \<Rightarrow> u64 list \<Rightarrow> VRFBlockInfo list \<Rightarrow> (int \<times> VRFBlockInfo list) run" where
  "collect_block_infos rd [] infos = Ret (0, infos)"
| "collect_block_infos rd (i # is) infos =
     bind_run (getBlockHashsByBlockHeight rd i []) (\<lambda>(ret, block_hashes_temp).
       if ret \<noteq> DB_SUCCESS then Ret (-3, infos)
       else case add_block_infos i block_hashes_temp infos of (full, infos) \<Rightarrow>
         if full then Ret (0, infos) else collect_block_infos rd is infos)"

text \<open>
  The heights the loop counts down, for heights below \<open>2 ^ 31\<close>: none when \<open>top - 10\<close> wraps around. The
  loop has no other end than \<open>top - 10\<close>; at height 10 it goes on below 0, where the database is asked
  for a height it does not have.
\<close>

definition vrf_heights :: "u64 \<Rightarrow> u64 list" where
  "vrf_heights t = (if t < 10 then [] else map (\<lambda>k. t - of_nat k) [0..<11] @ (if t = 10 then [- 1] else []))"

definition generateVRFStructure :: "vrf_env \<Rightarrow> reader \<Rightarrow> cxx_string \<Rightarrow> (int \<times> VRFConsensusInfo) run" where
  "generateVRFStructure env rd seed =
     (let none = \<lparr>vc_vrfSeed = [], vc_blockinfo = [], vc_sign = \<lparr>sg_sign = [], sg_pub = []\<rparr>\<rparr> in
      case vrf_sign env seed of
        None \<Rightarrow> Ret (-1, none)
      | Some sign \<Rightarrow>
          let vrf = none\<lparr>vc_vrfSeed := seed, vc_sign := sign\<rparr> in
          bind_run (getBlockTop rd 0) (\<lambda>(ret, top_height).
            if ret \<noteq> DB_SUCCESS then Ret (-2, vrf)
            else bind_run (collect_block_infos rd (vrf_heights top_height) []) (\<lambda>(ret, infos).
              Ret (ret, vrf\<lparr>vc_blockinfo := infos\<rparr>))))"

definition validate_block_info :: "vrf_env \<Rightarrow> VRFConsensusInfo \<Rightarrow> cxx_string \<Rightarrow> bool" where
  "validate_block_info env vrfInfo nodeId \<longleftrightarrow>
     0 < pledge_time (ve_chain env) nodeId \<and> verify_bonus (ve_chain env) nodeId = 0 \<and>
     length (vc_blockinfo vrfInfo) = 10 \<and> distinct (map vb_blockHash (vc_blockinfo vrfInfo))"

subsection \<open>What a node receives\<close>

text \<open>The smallest seeds go first; the log line looks the present seed up and enters it again.\<close>

definition prune :: "(cxx_string, 'a) std_map \<Rightarrow> (cxx_string, 'a) std_map" where
  "prune m = drop (length m - MAX_VRFS_SIZE) m"

definition pruneOldData :: "vrf_node \<Rightarrow> vrf_node" where
  "pruneOldData s = s\<lparr>validatedVRfs := prune (validatedVRfs s), newValidatedVRfs := prune (newValidatedVRfs s)\<rparr>"

definition period_of :: "cxx_string \<Rightarrow> (cxx_string, vrf_period) std_map \<Rightarrow> vrf_period" where
  "period_of seed m = (case map_of m seed of None \<Rightarrow> [] | Some p \<Rightarrow> p)"

definition addVRFStructure :: "vrf_env \<Rightarrow> VRFConsensusInfo \<Rightarrow> cxx_string \<Rightarrow> vrf_node \<Rightarrow> bool \<times> vrf_node" where
  "addVRFStructure env vrfInfo nodeId s =
     (let seed = vc_vrfSeed vrfInfo; period = period_of seed (validatedVRfs s) in
      if map_of period nodeId \<noteq> None then (False, s)
      else let vrf = foldl (\<lambda>v b. addHashForHeight v (vb_height b) (vb_blockHash b))
                     (VRFStructure_new env seed (sg_sign (vc_sign vrfInfo)) nodeId) (vc_blockinfo vrfInfo);
               s = pruneOldData (s\<lparr>validatedVRfs := map_assign seed (map_assign nodeId vrf period) (validatedVRfs s)\<rparr>) in
        (True, if ve_log env \<and> map_of (validatedVRfs s) seed = None
               then s\<lparr>validatedVRfs := map_assign seed [] (validatedVRfs s)\<rparr> else s))"

definition checkVRFExists :: "cxx_string \<Rightarrow> cxx_string \<Rightarrow> vrf_node \<Rightarrow> bool" where
  "checkVRFExists seed nodeId s \<longleftrightarrow>
     (case map_of (validatedVRfs s) seed of None \<Rightarrow> False | Some p \<Rightarrow> map_of p nodeId \<noteq> None)"

text \<open>
  A seed whose nanoseconds do not fit is not representable as a time. \<open>True\<close> when the message is
  passed on to all nodes. The result of reading the height is not looked at.
\<close>

definition receiveVRRequest :: "vrf_env \<Rightarrow> reader \<Rightarrow> int \<Rightarrow> VRFConsensusInfo \<Rightarrow> vrf_node \<Rightarrow> (bool \<times> vrf_node) run" where
  "receiveVRRequest env rd nowSeconds vrf s =
     (let sign = vc_sign vrf; nodeId = ve_addr env (sg_pub sign); receivedSeed = vc_vrfSeed vrf in
      bind_run (stol receivedSeed) (\<lambda>w.
        if 9223372036 < \<bar>sint w\<bar> then Undefined
        else if 10 < \<bar>nowSeconds - sint w\<bar> then Ret (False, s)
        else bind_run (getBlockTop rd 0) (\<lambda>(_, top_height).
          if MIN_UNSTAKE_HEIGHT (ve_chain env) \<le> top_height \<and> \<not> validate_block_info env vrf nodeId then Ret (False, s)
          else if ve_verify_sign env sign (sha256 (ve_chain env) receivedSeed) \<noteq> 0 then Ret (False, s)
          else Ret (addVRFStructure env vrf nodeId s))))"

definition HandleVRFConsensusInfoReq ::
    "vrf_env \<Rightarrow> peers \<Rightarrow> int \<Rightarrow> reader \<Rightarrow> int \<Rightarrow> VRFConsensusInfo \<Rightarrow> vrf_node \<Rightarrow> (int \<times> bool \<times> vrf_node) run" where
  "HandleVRFConsensusInfoReq env p fd rd nowSeconds msg s =
     (if locateNodeByFd p fd = None then Ret (-1, False, s)
      else bind_run (receiveVRRequest env rd nowSeconds msg s) (\<lambda>r. Ret (0, r)))"

end
