(* ===== verification/VrfSelect.thy ===== *)
theory VrfSelect
  imports VrfConsensus Votes "HOL-Library.Signed_Division"
begin

text \<open>
  Which nodes are in step with the chain and which of them package (the second half of
  \<open>ca/vrf_consensus.cpp\<close>). Shares are \<open>double\<close>s (\<open>rnd\<close>); a node without a usable share (\<open>0.0 / 0\<close> is not
  a number) has \<open>None\<close>. The loop that lowers the threshold has fuel, as it ends by arithmetic; running
  out is \<open>Diverge\<close>.
\<close>

subsection \<open>Frequent hashes\<close>

type_synonym hash_counts = "(u64, (cxx_string \<times> nat) list) std_map"

definition count_hash :: "u64 \<Rightarrow> hash_counts \<Rightarrow> cxx_string \<Rightarrow> hash_counts" where
  "count_hash height m hash = map_assign height (vote_for hash (case map_of m height of None \<Rightarrow> [] | Some c \<Rightarrow> c)) m"

definition heightHashCounts :: "vrf_period \<Rightarrow> hash_counts" where
  "heightHashCounts period =
     foldl (\<lambda>m (_, v). foldl (\<lambda>m (height, hashes). foldl (count_hash height) m hashes) m (vs_height_hashes v)) [] period"

definition hashes_of :: "VRFStructure \<Rightarrow> cxx_string list" where
  "hashes_of v = concat (map snd (vs_height_hashes v))"

text \<open>The nodes that name a hash at all, each with the set of its hashes.\<close>

definition nodeHashes :: "vrf_period \<Rightarrow> (cxx_string, cxx_string set) std_map" where
  "nodeHashes period = map (\<lambda>(id, v). (id, set (hashes_of v))) (filter (\<lambda>(id, v). hashes_of v \<noteq> []) period)"

definition ratio :: "nat \<Rightarrow> nat \<Rightarrow> rat" where
  "ratio votes nodeCount = rnd (of_nat votes / of_nat nodeCount)"

text \<open>The averages are added in the order in which the unordered map of a height is gone through.\<close>

definition averageRatio :: "vrf_env \<Rightarrow> nat \<Rightarrow> (cxx_string \<times> nat) list \<Rightarrow> rat" where
  "averageRatio env nodeCount hashCounts =
     (let ratios = map (\<lambda>(_, votes). ratio votes nodeCount) (ve_order env hashCounts) in
      rnd (foldl (\<lambda>s r. rnd (s + r)) 0 ratios / of_nat (length ratios)))"

definition optimalFrequency :: "vrf_env \<Rightarrow> nat \<Rightarrow> hash_counts \<Rightarrow> rat" where
  "optimalFrequency env nodeCount counts =
     (let (totalWeightedFreq, totalWeight) =
        foldl (\<lambda>(f, w) (height, hashCounts). let h = rnd (of_nat (unat height)) in
          (rnd (f + rnd (averageRatio env nodeCount hashCounts * h)), rnd (w + h))) (0, 0) counts in
      if totalWeight \<noteq> 0 then rnd (totalWeightedFreq / totalWeight) else 0)"

definition optimalHashes :: "vrf_env \<Rightarrow> nat \<Rightarrow> hash_counts \<Rightarrow> cxx_string set" where
  "optimalHashes env nodeCount counts =
     set (map fst (filter (\<lambda>(_, votes). optimalFrequency env nodeCount counts \<le> ratio votes nodeCount) (concat (map snd counts))))"

definition nodeHashCount :: "cxx_string set \<Rightarrow> vrf_period \<Rightarrow> (cxx_string \<times> nat) list" where
  "nodeHashCount optimal period = map (\<lambda>(id, hashes). (id, card (hashes \<inter> optimal))) (nodeHashes period)"

definition frequency_of :: "cxx_string set \<Rightarrow> nat \<Rightarrow> rat option" where
  "frequency_of optimal votes = (if optimal = {} then None else Some (ratio votes (card optimal)))"

subsection \<open>Nodes in step\<close>

text \<open>The share \<open>0.55\<close> of the nodes, and \<open>0.1\<close>.\<close>

definition d055 :: nat where "d055 = 4953959590107546"

definition validateNodeThreshold :: "nat \<Rightarrow> nat" where
  "validateNodeThreshold nodeCount = trunc_times nodeCount d055"

definition tenth :: rat where "tenth = rnd (1 / 10)"

definition to_tenths :: "rat \<Rightarrow> rat" where
  "to_tenths t = rnd (std_round (rnd (t * 10)) / 10)"

definition lower_threshold :: "rat \<Rightarrow> rat" where
  "lower_threshold t = rnd (to_tenths t - tenth)"

definition emplace :: "'k::linorder \<Rightarrow> 'v \<Rightarrow> ('k, 'v) std_map \<Rightarrow> ('k, 'v) std_map" where
  "emplace k v m = (if map_of m k = None then map_assign k v m else m)"

definition qualifies_at :: "cxx_string set \<Rightarrow> rat \<Rightarrow> cxx_string \<times> nat \<Rightarrow> bool" where
  "qualifies_at optimal t e = (case frequency_of optimal (snd e) of None \<Rightarrow> False | Some f \<Rightarrow> t \<le> f)"

text \<open>A node that qualifies_at gets its frequency in the period and is copied to the new ones, if it is not there.\<close>

definition qualify_node :: "cxx_string \<Rightarrow> cxx_string set \<Rightarrow> vrf_node \<Rightarrow> cxx_string \<times> nat \<Rightarrow> vrf_node" where
  "qualify_node seed optimal s e =
     (let period = period_of seed (validatedVRfs s) in
      case map_of period (fst e) of
        None \<Rightarrow> s
      | Some v \<Rightarrow>
          let v = v\<lparr>vs_frequency := the (frequency_of optimal (snd e))\<rparr> in
          s\<lparr>validatedVRfs := map_assign seed (map_assign (fst e) v period) (validatedVRfs s),
            newValidatedVRfs := map_assign seed (emplace (fst e) v (period_of seed (newValidatedVRfs s))) (newValidatedVRfs s)\<rparr>)"

primrec qualify_rounds ::
    "nat \<Rightarrow> cxx_string \<Rightarrow> cxx_string set \<Rightarrow> (cxx_string \<times> nat) list \<Rightarrow> nat \<Rightarrow> rat \<Rightarrow> vrf_node \<Rightarrow> vrf_node run" where
  "qualify_rounds 0 seed optimal counts need t s = Diverge"
| "qualify_rounds (Suc fuel) seed optimal counts need t s =
     (let qualified = filter (qualifies_at optimal t) counts; s = foldl (qualify_node seed optimal) s qualified;
          t = lower_threshold t in
      if length qualified < need \<and> 0 < t then qualify_rounds fuel seed optimal counts need t s else Ret s)"

text \<open>The period of a given seed, or the third of the newest ones.\<close>

definition chosen_seed :: "vrf_node \<Rightarrow> cxx_string \<Rightarrow> cxx_string option" where
  "chosen_seed s seed =
     (if length (validatedVRfs s) < 3 then None
      else if seed = [] then Some (fst (validatedVRfs s ! (length (validatedVRfs s) - 3)))
      else if map_of (validatedVRfs s) seed = None then None else Some seed)"

definition computeMaxHeightWithMinFrequency :: "vrf_env \<Rightarrow> nat \<Rightarrow> cxx_string \<Rightarrow> vrf_node \<Rightarrow> vrf_node run" where
  "computeMaxHeightWithMinFrequency env fuel seed s =
     (case chosen_seed s seed of
        None \<Rightarrow> Ret s
      | Some seed \<Rightarrow>
          let period = period_of seed (validatedVRfs s); nodeCount = length period in
          if nodeHashes period = [] then Ret s
          else let optimal = optimalHashes env nodeCount (heightHashCounts period) in
            qualify_rounds fuel seed optimal (nodeHashCount optimal period) (validateNodeThreshold nodeCount) 1 s)"

subsection \<open>Clocks and seeds\<close>

text \<open>A time of more seconds than fit as nanoseconds is not representable.\<close>

definition representable :: "int \<Rightarrow> bool" where
  "representable seconds \<longleftrightarrow> \<bar>seconds\<bar> \<le> 9223372036"

definition seconds_string :: "int \<Rightarrow> cxx_string" where
  "seconds_string seconds = to_string_signed (word_of_int seconds :: 64 word)"

definition generateVRSeed :: "int \<Rightarrow> cxx_string" where
  "generateVRSeed seconds = seconds_string (seconds - seconds smod CYCLE_DURATION_SECONDS)"

definition cycleStartTimestamp :: "int \<Rightarrow> int" where
  "cycleStartTimestamp seconds = seconds + (CYCLE_DURATION_SECONDS - seconds smod CYCLE_DURATION_SECONDS)"

definition getPreviousCycleTime :: "u64 \<Rightarrow> int run" where
  "getPreviousCycleTime timestamp =
     (let seconds = sint timestamp sdiv 1000000;
          seconds = seconds - seconds smod CYCLE_DURATION_SECONDS - 2 * CYCLE_DURATION_SECONDS in
      if representable seconds then Ret seconds else Undefined)"

subsection \<open>The nodes that package\<close>

text \<open>
  The nodes in step two periods earlier; when they are not known yet they are computed, and when nobody is in
  step all nodes of that period.
\<close>

definition vrf_source :: "vrf_env \<Rightarrow> nat \<Rightarrow> u64 \<Rightarrow> vrf_node \<Rightarrow> (vrf_period option \<times> vrf_node) run" where
  "vrf_source env fuel timestamp s =
     bind_run (getPreviousCycleTime timestamp) (\<lambda>prev.
       let seed = seconds_string prev in
       if period_of seed (newValidatedVRfs s) = [] then
         (case map_of (validatedVRfs s) seed of
            None \<Rightarrow> Ret (None, s)
          | Some _ \<Rightarrow> bind_run (computeMaxHeightWithMinFrequency env fuel seed s) (\<lambda>s.
              Ret (Some (case map_of (newValidatedVRfs s) seed of
                Some p \<Rightarrow> p | None \<Rightarrow> period_of seed (validatedVRfs s)), s)))
       else Ret (Some (period_of seed (newValidatedVRfs s)), s))"

definition extractVRFData ::
    "vrf_env \<Rightarrow> nat \<Rightarrow> u64 \<Rightarrow> vrf_period \<Rightarrow> vrf_node \<Rightarrow> ((bool \<times> vrf_period) \<times> vrf_node) run" where
  "extractVRFData env fuel timestamp dataSource s =
     bind_run (vrf_source env fuel timestamp s) (\<lambda>(found, s).
       case found of None \<Rightarrow> Ret ((False, dataSource), s)
       | Some p \<Rightarrow> Ret ((True, foldl (\<lambda>m (id, v). emplace id v m) dataSource p), s))"

fun take_nodes :: "nat \<Rightarrow> (cxx_string \<times> VRFStructure) list \<Rightarrow> cxx_string list \<Rightarrow> cxx_string list" where
  "take_nodes number [] nodes = nodes"
| "take_nodes number (d # ds) nodes =
     (let nodes = nodes @ [fst d] in if number \<le> length nodes then nodes else take_nodes number ds nodes)"

definition selectRandomNodes :: "vrf_env \<Rightarrow> vrf_period \<Rightarrow> cxx_string list \<Rightarrow> nat \<Rightarrow> cxx_string list" where
  "selectRandomNodes env dataSource nodes number =
     (let sumSeed = concat (map (\<lambda>(_, v). vs_signatureHash v) dataSource); seed = sha256 (ve_chain env) sumSeed in
      take_nodes number (ve_shuffle env dataSource seed) nodes)"

text \<open>
  The highest threshold with enough nodes. The code goes through the nodes sorted by frequency and inserts them into a map by
  name; the nodes are in a map by name already, so the order does not matter.
\<close>

primrec filter_rounds :: "nat \<Rightarrow> nat \<Rightarrow> vrf_period \<Rightarrow> rat \<Rightarrow> vrf_period run" where
  "filter_rounds 0 minNodes dataSource maxValue = Diverge"
| "filter_rounds (Suc fuel) minNodes dataSource maxValue =
     (let filtered = filter (\<lambda>(_, v). maxValue \<le> vs_frequency v) dataSource in
      if length filtered < minNodes then
        let maxValue = lower_threshold maxValue in
        if maxValue < 0 then Ret [] else filter_rounds fuel minNodes dataSource maxValue
      else Ret filtered)"

definition extractPackagerVRFData ::
    "vrf_env \<Rightarrow> nat \<Rightarrow> u64 \<Rightarrow> cxx_string list \<Rightarrow> vrf_node \<Rightarrow> ((bool \<times> cxx_string list) \<times> vrf_node) run" where
  "extractPackagerVRFData env fuel timestamp nodes s =
     bind_run (vrf_source env fuel timestamp s) (\<lambda>(found, s).
       case found of None \<Rightarrow> Ret ((False, nodes), s)
       | Some dataSource \<Rightarrow>
           bind_run (if ve_consensus env = 0 then Ret [] else filter_rounds fuel (ve_consensus env) dataSource 1) (\<lambda>filtered.
             if length dataSource < ve_consensus env then Ret ((False, nodes), s)
             else Ret ((True, selectRandomNodes env filtered nodes (ve_consensus env)), s)))"

subsection \<open>One turn of the thread\<close>

text \<open>
  What is broadcast is the second component. \<open>rd\<close> and \<open>rd2\<close> are the database at the two times it is read.
\<close>

definition vrf_turn ::
    "vrf_env \<Rightarrow> nat \<Rightarrow> int \<Rightarrow> reader \<Rightarrow> reader \<Rightarrow> vrf_node \<Rightarrow> (VRFConsensusInfo option \<times> vrf_node) run" where
  "vrf_turn env fuel currentTime rd rd2 s =
     (let vrfSeed = generateVRSeed (cycleStartTimestamp currentTime) in
      bind_run (generateVRFStructure env rd vrfSeed) (\<lambda>(ret, vrf).
        if ret \<noteq> 0 then Ret (None, s)
        else bind_run (getBlockTop rd2 0) (\<lambda>(_, top_height).
          if MIN_UNSTAKE_HEIGHT (ve_chain env) \<le> top_height \<and> \<not> validate_block_info env vrf (ve_self_addr env) then Ret (None, s)
          else let s = (if MIN_UNSTAKE_HEIGHT (ve_chain env) \<le> top_height
                        then snd (addVRFStructure env vrf (ve_self_addr env) s) else s) in
            bind_run (computeMaxHeightWithMinFrequency env fuel [] s) (\<lambda>s. Ret (Some vrf, s)))))"

end
