(* ===== verification/VrfProps.thy ===== *)
theory VrfProps
  imports VrfSelect
begin

text \<open>
  Properties of the choice of packaging nodes: the tables' invariant, the end of the loops over
  thresholds, what is chosen, and what a signature does not cover.
\<close>

subsection \<open>Thresholds\<close>

text \<open>A threshold is near a whole number of tenths; lowering it takes away one tenth.\<close>

definition near_tenths :: "nat \<Rightarrow> rat \<Rightarrow> bool" where
  "near_tenths k t \<longleftrightarrow> \<bar>t * 10 - of_nat k\<bar> \<le> 1 / 4"

lemma tenth_near: "\<bar>tenth - 1 / 10\<bar> \<le> 1 / 1000" "0 < tenth"
proof -
  have "\<bar>tenth - 1 / 10\<bar> \<le> 1 / 10 * 2 powi (- 53)" unfolding tenth_def by (rule rnd_error) simp
  also have "\<dots> \<le> 1 / 1000" by (simp add: power_int_minus)
  finally show "\<bar>tenth - 1 / 10\<bar> \<le> 1 / 1000" .
  then show "0 < tenth" by linarith
qed

lemma to_tenths_near:
  assumes "near_tenths k t" "k \<le> 10" "0 \<le> t"
  shows "to_tenths t = rnd (of_nat k / 10)"
proof -
  let ?u = "rnd (t * 10)"
  have k: "(of_nat k :: rat) \<le> 10" using assms(2) by (metis of_nat_le_iff of_nat_numeral)
  have t: "\<bar>t * 10 - of_nat k\<bar> \<le> 1 / 4" using assms(1) by (simp add: near_tenths_def)
  have "\<bar>?u - t * 10\<bar> \<le> t * 10 * 2 powi (- 53)" using assms(3) by (intro rnd_error) simp
  also have "\<dots> \<le> 11 * 2 powi (- 53)" by (rule mult_right_mono) (use t k in linarith, simp)
  also have "\<dots> \<le> 1 / 8" by (simp add: power_int_minus)
  finally have u: "\<bar>?u - of_nat k\<bar> \<le> 3 / 8" using t by linarith
  have n: "0 \<le> ?u" using assms(3) by (intro rnd_nonneg) simp
  have i: "(of_int (int k) :: rat) = of_nat k" by simp
  have "\<lfloor>?u + 1 / 2\<rfloor> = int k" by (rule floor_unique; use u i in linarith)
  then show ?thesis using n by (simp add: to_tenths_def std_round_def)
qed

lemma lower_near:
  assumes "near_tenths (Suc k) t" "k < 10" "0 \<le> t"
  shows "near_tenths k (lower_threshold t)" "0 \<le> lower_threshold t" "k = 0 \<Longrightarrow> lower_threshold t = 0"
proof -
  let ?d = "rnd (of_nat (Suc k) / 10)"
  have l: "lower_threshold t = rnd (?d - tenth)" using to_tenths_near [OF assms(1)] assms(2,3) by (simp add: lower_threshold_def)
  have m: "tenth \<le> ?d" unfolding tenth_def by (rule rnd_mono) simp
  show "0 \<le> lower_threshold t" using m unfolding l by (intro rnd_nonneg) simp
  show "lower_threshold t = 0" if "k = 0" using that unfolding l by (simp add: tenth_def)
  have k: "(of_nat (Suc k) :: rat) \<le> 10" using assms(2) by (metis Suc_leI of_nat_le_iff of_nat_numeral)
  have "\<bar>?d - of_nat (Suc k) / 10\<bar> \<le> of_nat (Suc k) / 10 * 2 powi (- 53)" by (rule rnd_error) simp
  also have "\<dots> \<le> 1 * 2 powi (- 53)" using k by (intro mult_right_mono) auto
  also have "\<dots> \<le> 1 / 1000" by (simp add: power_int_minus)
  finally have d: "\<bar>?d - of_nat (Suc k) / 10\<bar> \<le> 1 / 1000" .
  have "(of_nat (Suc k) :: rat) / 10 \<le> 1" using k by simp
  then have d1: "?d - tenth \<le> 2" using d tenth_near by linarith
  have "\<bar>rnd (?d - tenth) - (?d - tenth)\<bar> \<le> (?d - tenth) * 2 powi (- 53)" using m by (intro rnd_error) simp
  also have "\<dots> \<le> 2 * 2 powi (- 53)" using d1 by (rule mult_right_mono) simp
  also have "\<dots> \<le> 1 / 1000" by (simp add: power_int_minus)
  finally have r: "\<bar>rnd (?d - tenth) - (?d - tenth)\<bar> \<le> 1 / 1000" .
  have "of_nat (Suc k) / 10 = (of_nat k / 10 + 1 / 10 :: rat)" by (simp add: add_divide_distrib)
  then have "\<bar>rnd (?d - tenth) - of_nat k / 10\<bar> \<le> 3 / 1000" using d r tenth_near(1) by linarith
  then show "near_tenths k (lower_threshold t)" unfolding l near_tenths_def by linarith
qed

lemma lower_zero: "lower_threshold 0 < 0"
proof -
  have "rnd tenth \<noteq> 0 \<and> 0 \<le> rnd tenth"
    using rnd_error [of tenth] rnd_nonneg [of tenth] tenth_near(2) by (auto simp: power_int_minus abs_le_iff)
  moreover have "\<lfloor>1 / 2 :: rat\<rfloor> = 0" by (rule floor_unique) auto
  then have "std_round 0 = 0" by (simp add: std_round_def)
  ultimately show ?thesis using tenth_near(2) by (auto simp: lower_threshold_def to_tenths_def rnd_def)
qed

lemma near_one: "near_tenths 10 1" by (simp add: near_tenths_def)

lemma qualify_rounds_end:
  "near_tenths k t \<Longrightarrow> k \<le> 10 \<Longrightarrow> 0 \<le> t \<Longrightarrow> 0 < k \<Longrightarrow> k \<le> fuel \<Longrightarrow> \<exists>s'. qualify_rounds fuel seed optimal cs need t s = Ret s'"
proof (induction fuel arbitrary: k t s)
  case (Suc fuel)
  obtain j where k: "k = Suc j" using Suc.prems(4) by (cases k) auto
  have l: "near_tenths j (lower_threshold t)" "0 \<le> lower_threshold t" "j = 0 \<Longrightarrow> lower_threshold t = 0"
    using lower_near [of j t] Suc.prems k by auto
  show ?case
  proof (cases "j = 0")
    case True
    then show ?thesis using l by (simp add: Let_def)
  next
    case False
    then show ?thesis using Suc.IH [OF l(1) _ l(2)] Suc.prems k by (simp add: Let_def)
  qed
qed simp

lemma filter_rounds_end:
  "near_tenths k t \<Longrightarrow> k \<le> 10 \<Longrightarrow> 0 \<le> t \<Longrightarrow> (k = 0 \<Longrightarrow> t = 0) \<Longrightarrow> k < fuel \<Longrightarrow> \<exists>p. filter_rounds fuel minNodes ds t = Ret p"
proof (induction fuel arbitrary: k t)
  case (Suc fuel)
  show ?case
  proof (cases k)
    case 0
    then show ?thesis using lower_zero Suc.prems(4) by (simp add: Let_def)
  next
    case (Suc j)
    then have l: "near_tenths j (lower_threshold t)" "0 \<le> lower_threshold t" "j = 0 \<Longrightarrow> lower_threshold t = 0"
      using lower_near [of j t] Suc.prems by auto
    from Suc.IH [OF l(1) _ l(2,3)] show ?thesis using Suc Suc.prems by (simp add: Let_def)
  qed
qed simp

lemma compute_end: "10 \<le> fuel \<Longrightarrow> \<exists>s'. computeMaxHeightWithMinFrequency env fuel seed s = Ret s'"
  using qualify_rounds_end [OF near_one] by (auto simp: computeMaxHeightWithMinFrequency_def Let_def split: option.splits)

lemma source_end: "10 \<le> fuel \<Longrightarrow> getPreviousCycleTime ts = Ret prev \<Longrightarrow> \<exists>r. vrf_source env fuel ts s = Ret r"
  using compute_end [of fuel env "seconds_string prev" s] by (auto simp: vrf_source_def Let_def split: option.splits)

lemma packager_end:
  assumes "getPreviousCycleTime ts = Ret prev" "11 \<le> fuel"
  shows "\<exists>r. extractPackagerVRFData env fuel ts nodes s = Ret r"
proof -
  obtain found s' where r: "vrf_source env fuel ts s = Ret (found, s')" using source_end assms by fastforce
  have "\<exists>p. filter_rounds fuel (ve_consensus env) ds 1 = Ret p" for ds
    by (rule filter_rounds_end [OF near_one]) (use assms in auto)
  then obtain p where "filter_rounds fuel (ve_consensus env) (the found) 1 = Ret p" by blast
  then show ?thesis using r by (cases found) (auto simp: extractPackagerVRFData_def)
qed

text \<open>
  C21. Looking for the packaging nodes ends whenever the time of the transaction is representable: the
  thresholds are lowered in \<open>double\<close> arithmetic from 1.0 to exactly 0 in ten steps, and once more to below 0.
\<close>

theorem packager_search_ends:
  assumes "getPreviousCycleTime ts = Ret prev" "11 \<le> fuel"
  shows "\<exists>r. extractPackagerVRFData env fuel ts nodes s = Ret r"
  by (rule packager_end [OF assms])

lemma cycle_30: "getPreviousCycleTime 30000000 = Ret 10"
  by (simp add: getPreviousCycleTime_def representable_def CYCLE_DURATION_SECONDS_def Let_def signed_divide_int_def signed_modulo_int_def)

theorem packager_search_ends_witness:
  "\<forall>env nodes s. \<exists>r. extractPackagerVRFData env 11 30000000 nodes s = Ret r"
proof (intro allI)
  fix env nodes s
  from packager_search_ends [OF cycle_30 order_refl] show "\<exists>r. extractPackagerVRFData env 11 30000000 nodes s = Ret r" .
qed

subsection \<open>The tables\<close>

definition period_ok :: "(rat \<Rightarrow> bool) \<Rightarrow> cxx_string \<Rightarrow> vrf_period \<Rightarrow> bool" where
  "period_ok P seed p \<longleftrightarrow> ordered_map p \<and>
     (\<forall>(id, v)\<in>set p. vs_seed v = seed \<and> vs_nodeId v = id \<and> P (vs_frequency v))"

definition in_step :: "rat \<Rightarrow> bool" where "in_step f \<longleftrightarrow> 0 < f \<and> f \<le> 1"

definition seeds_of :: "(cxx_string, vrf_period) std_map \<Rightarrow> cxx_string set" where "seeds_of m = fst ` set m"

definition periods_ok :: "(rat \<Rightarrow> bool) \<Rightarrow> (cxx_string, vrf_period) std_map \<Rightarrow> bool" where
  "periods_ok P m \<longleftrightarrow> ordered_map m \<and> (\<forall>(seed, p)\<in>set m. period_ok P seed p)"

definition vrf_ok :: "vrf_node \<Rightarrow> bool" where
  "vrf_ok s \<longleftrightarrow> periods_ok (\<lambda>f. 0 \<le> f \<and> f \<le> 1) (validatedVRfs s) \<and> periods_ok in_step (newValidatedVRfs s) \<and>
     length (validatedVRfs s) \<le> 11 \<and> card (seeds_of (newValidatedVRfs s) - seeds_of (validatedVRfs s)) \<le> 10"

lemma period_ok_Nil [simp]: "period_ok P seed []" by (simp add: period_ok_def)

lemma periods_ok_of: "periods_ok P m \<Longrightarrow> period_ok P seed (period_of seed m)"
  by (auto simp: periods_ok_def period_of_def split: option.splits dest!: map_of_SomeD)

lemma periods_ok_assign: "periods_ok P m \<Longrightarrow> period_ok P seed p \<Longrightarrow> periods_ok P (map_assign seed p m)"
  by (auto simp: periods_ok_def set_ordered_assign)

lemma period_ok_assign:
  "period_ok P seed p \<Longrightarrow> vs_seed v = seed \<Longrightarrow> vs_nodeId v = n \<Longrightarrow> P (vs_frequency v) \<Longrightarrow> period_ok P seed (map_assign n v p)"
  by (auto simp: period_ok_def set_ordered_assign)

lemma period_ok_emplace:
  "period_ok P seed p \<Longrightarrow> vs_seed v = seed \<Longrightarrow> vs_nodeId v = n \<Longrightarrow> P (vs_frequency v) \<Longrightarrow> period_ok P seed (emplace n v p)"
  by (simp add: emplace_def period_ok_assign)

lemma periods_ok_prune: "periods_ok P m \<Longrightarrow> periods_ok P (prune m)"
  unfolding periods_ok_def prune_def ordered_map_def drop_map [symmetric]
  using sorted_wrt_drop by (fastforce dest: in_set_dropD)

lemma prune_length: "length (prune m) \<le> 10" by (simp add: prune_def MAX_VRFS_SIZE_def)

lemma seeds_of_assign [simp]: "seeds_of (map_assign k p m) = insert k (seeds_of m)"
  by (simp add: seeds_of_def set_keys_assign)

lemma card_seeds: "card (seeds_of m) \<le> length m" unfolding seeds_of_def by (metis card_image_le card_length finite_set le_trans)

lemma finite_seeds [simp]: "finite (seeds_of m)" by (simp add: seeds_of_def)

lemma ordered_length: "ordered_map m \<Longrightarrow> length m = card (fst ` set m)"
  by (metis ordered_map_distinct distinct_card length_map list.set_map)

lemma length_assign: "length (map_assign k v m) \<le> Suc (length m)"
  by (induction k v m rule: map_assign.induct) auto

lemma add_hashes_keep [simp]:
  "vs_seed (foldl (\<lambda>v b. addHashForHeight v (vb_height b) (vb_blockHash b)) v bs) = vs_seed v"
  "vs_nodeId (foldl (\<lambda>v b. addHashForHeight v (vb_height b) (vb_blockHash b)) v bs) = vs_nodeId v"
  "vs_frequency (foldl (\<lambda>v b. addHashForHeight v (vb_height b) (vb_blockHash b)) v bs) = vs_frequency v"
  by (induction bs arbitrary: v) (simp_all add: addHashForHeight_def)

lemma addVRFStructure_ok:
  assumes "vrf_ok s"
  shows "vrf_ok (snd (addVRFStructure env vrf nodeId s))"
proof -
  let ?seed = "vc_vrfSeed vrf"
  let ?v = "foldl (\<lambda>v b. addHashForHeight v (vb_height b) (vb_blockHash b)) (VRFStructure_new env ?seed (sg_sign (vc_sign vrf)) nodeId) (vc_blockinfo vrf)"
  let ?s = "s\<lparr>validatedVRfs := map_assign ?seed (map_assign nodeId ?v (period_of ?seed (validatedVRfs s))) (validatedVRfs s)\<rparr>"
  have "vs_seed ?v = ?seed \<and> vs_nodeId ?v = nodeId \<and> vs_frequency ?v = 0" by (simp add: VRFStructure_new_def)
  then have p: "periods_ok (\<lambda>f. 0 \<le> f \<and> f \<le> 1) (validatedVRfs ?s)"
    using assms by (auto simp: vrf_ok_def intro!: periods_ok_assign period_ok_assign periods_ok_of)
  let ?t = "pruneOldData ?s"
  have new: "newValidatedVRfs ?t = prune (newValidatedVRfs s)" by (simp add: pruneOldData_def)
  have c: "card (seeds_of (prune (newValidatedVRfs s)) - X) \<le> 10" for X
    by (meson card_Diff_subset_Int card_mono card_seeds Diff_subset finite_seeds le_trans prune_length)
  have t: "periods_ok (\<lambda>f. 0 \<le> f \<and> f \<le> 1) (validatedVRfs ?t)" "periods_ok in_step (newValidatedVRfs ?t)" "length (validatedVRfs ?t) \<le> 10"
    using p assms periods_ok_prune prune_length by (auto simp: pruneOldData_def vrf_ok_def)
  have "vrf_ok ?t" using t c by (simp add: vrf_ok_def new)
  moreover have "vrf_ok (?t\<lparr>validatedVRfs := map_assign ?seed [] (validatedVRfs ?t)\<rparr>)"
    using t c length_assign [of ?seed "[]" "validatedVRfs ?t"] by (simp add: vrf_ok_def new periods_ok_assign)
  ultimately show ?thesis using assms by (simp add: addVRFStructure_def Let_def)
qed

lemma receive_ok:
  "vrf_ok s \<Longrightarrow> receiveVRRequest env rd now vrf s = Ret (b, s') \<Longrightarrow> vrf_ok s'"
  using addVRFStructure_ok [of s env vrf "ve_addr env (sg_pub (vc_sign vrf))"]
  by (auto simp: receiveVRRequest_def Let_def run_simps split: if_splits)

lemma ratio_nonneg: "0 \<le> ratio k n" by (simp add: ratio_def rnd_nonneg)

lemma ratio_le_1: "k \<le> n \<Longrightarrow> ratio k n \<le> 1"
proof -
  assume "k \<le> n"
  then have "ratio k n \<le> rnd (of_nat 1)" unfolding ratio_def by (intro rnd_mono) (auto simp: divide_le_eq_1)
  then show ?thesis using rnd_exact [of 1] by simp
qed

lemma qualify_node_ok:
  assumes "vrf_ok s" "seed \<in> seeds_of (validatedVRfs s)" "qualifies_at optimal t e" "0 < t" "snd e \<le> card optimal"
  shows "vrf_ok (qualify_node seed optimal s e) \<and> seed \<in> seeds_of (validatedVRfs (qualify_node seed optimal s e))"
proof (cases "map_of (period_of seed (validatedVRfs s)) (fst e)")
  case None
  then show ?thesis using assms(1,2) by (simp add: qualify_node_def)
next
  case (Some v)
  obtain f where f: "frequency_of optimal (snd e) = Some f" "t \<le> f" using assms(3) by (auto simp: qualifies_at_def split: option.splits)
  then have "f = ratio (snd e) (card optimal)" by (auto simp: frequency_of_def split: if_splits)
  then have g: "in_step f" using ratio_le_1 [OF assms(5)] f(2) assms(4) by (simp add: in_step_def)
  have p: "period_ok (\<lambda>f. 0 \<le> f \<and> f \<le> 1) seed (period_of seed (validatedVRfs s))" using assms(1) by (simp add: vrf_ok_def periods_ok_of)
  then have v: "vs_seed v = seed" "vs_nodeId v = fst e" using Some by (auto simp: period_ok_def dest!: map_of_SomeD)
  let ?s = "qualify_node seed optimal s e"
  let ?v = "v\<lparr>vs_frequency := f\<rparr>"
  have s: "validatedVRfs ?s = map_assign seed (map_assign (fst e) ?v (period_of seed (validatedVRfs s))) (validatedVRfs s)"
    "newValidatedVRfs ?s = map_assign seed (emplace (fst e) ?v (period_of seed (newValidatedVRfs s))) (newValidatedVRfs s)"
    using Some f(1) by (simp_all add: qualify_node_def Let_def)
  have "periods_ok (\<lambda>f. 0 \<le> f \<and> f \<le> 1) (validatedVRfs ?s)" "periods_ok in_step (newValidatedVRfs ?s)"
    unfolding s using assms(1) v g by (auto simp: vrf_ok_def in_step_def intro!: periods_ok_assign period_ok_assign period_ok_emplace periods_ok_of)
  moreover have "length (validatedVRfs ?s) = length (validatedVRfs s)" using assms(1,2) unfolding s
    by (auto simp: vrf_ok_def periods_ok_def seeds_of_def ordered_length set_keys_assign insert_absorb)
  moreover have "seeds_of (newValidatedVRfs ?s) - seeds_of (validatedVRfs ?s) = seeds_of (newValidatedVRfs s) - seeds_of (validatedVRfs s)"
    using assms(2) unfolding s by auto
  ultimately show ?thesis using assms(1,2) by (simp add: vrf_ok_def s(1))
qed

lemma qualify_all_ok:
  "vrf_ok s \<Longrightarrow> seed \<in> seeds_of (validatedVRfs s) \<Longrightarrow> \<forall>e\<in>set es. qualifies_at optimal t e \<and> snd e \<le> card optimal \<Longrightarrow> 0 < t \<Longrightarrow>
   vrf_ok (foldl (qualify_node seed optimal) s es) \<and> seed \<in> seeds_of (validatedVRfs (foldl (qualify_node seed optimal) s es))"
proof (induction es arbitrary: s)
  case (Cons e es)
  then show ?case using qualify_node_ok [OF Cons.prems(1,2), of optimal t e] by simp
qed simp

lemma qualify_rounds_ok:
  "vrf_ok s \<Longrightarrow> seed \<in> seeds_of (validatedVRfs s) \<Longrightarrow> \<forall>e\<in>set counts. snd e \<le> card optimal \<Longrightarrow> 0 < t \<Longrightarrow>
   qualify_rounds fuel seed optimal counts need t s = Ret s' \<Longrightarrow> vrf_ok s'"
proof (induction fuel arbitrary: t s)
  case (Suc fuel)
  then show ?case using qualify_all_ok [of s seed "filter (qualifies_at optimal t) counts" optimal t]
    by (auto simp: Let_def split: if_splits)
qed simp

lemma chosen_seed_in: "chosen_seed s seed = Some k \<Longrightarrow> k \<in> seeds_of (validatedVRfs s)"
proof -
  assume k: "chosen_seed s seed = Some k"
  have "fst (validatedVRfs s ! (length (validatedVRfs s) - 3)) \<in> seeds_of (validatedVRfs s)" if "3 \<le> length (validatedVRfs s)"
    using that by (auto simp: seeds_of_def)
  then show ?thesis using k by (auto simp: chosen_seed_def seeds_of_def map_of_eq_None_iff split: if_splits)
qed

lemma optimal_finite: "finite (optimalHashes env n counts)" by (simp add: optimalHashes_def)

lemma nodeHashCount_le: "\<forall>e\<in>set (nodeHashCount (optimalHashes env n counts) p). snd e \<le> card (optimalHashes env n counts)"
  by (auto simp: nodeHashCount_def intro!: card_mono optimal_finite)

lemma compute_ok: "vrf_ok s \<Longrightarrow> computeMaxHeightWithMinFrequency env fuel seed s = Ret s' \<Longrightarrow> vrf_ok s'"
  using chosen_seed_in [of s seed]
  by (auto simp: computeMaxHeightWithMinFrequency_def Let_def split: option.splits if_splits
    elim!: qualify_rounds_ok [OF _ _ nodeHashCount_le zero_less_one, rotated 2])

lemma source_ok:
  assumes "vrf_ok s" "vrf_source env fuel ts s = Ret (found, s')"
  shows "vrf_ok s'" "found = Some p \<Longrightarrow> \<exists>seed. period_ok (\<lambda>f. 0 \<le> f \<and> f \<le> 1) seed p"
proof -
  obtain prev where g: "getPreviousCycleTime ts = Ret prev" using assms(2) by (auto simp: vrf_source_def run_simps)
  let ?seed = "seconds_string prev"
  have w: "period_ok in_step seed q \<Longrightarrow> period_ok (\<lambda>f. 0 \<le> f \<and> f \<le> 1) seed q" for seed q
    by (auto simp: period_ok_def in_step_def)
  have *: "vrf_ok s' \<and> (\<forall>p. found = Some p \<longrightarrow> (\<exists>seed. period_ok (\<lambda>f. 0 \<le> f \<and> f \<le> 1) seed p))"
  proof (cases "period_of ?seed (newValidatedVRfs s) = []")
    case False
    then have "found = Some (period_of ?seed (newValidatedVRfs s))" "s' = s" using assms(2) g by (auto simp: vrf_source_def)
    moreover have "period_ok in_step ?seed (period_of ?seed (newValidatedVRfs s))"
      using assms(1) by (simp add: vrf_ok_def periods_ok_of)
    ultimately show ?thesis using assms(1) w by blast
  next
    case True
    show ?thesis
    proof (cases "map_of (validatedVRfs s) ?seed")
      case None
      then show ?thesis using assms True g by (auto simp: vrf_source_def)
    next
      case (Some q)
      then obtain s1 where c: "computeMaxHeightWithMinFrequency env fuel ?seed s = Ret s1" "s' = s1"
          "found = Some (case map_of (newValidatedVRfs s1) ?seed of Some p \<Rightarrow> p | None \<Rightarrow> period_of ?seed (validatedVRfs s1))"
        using assms(2) True g by (auto simp: vrf_source_def run_simps Let_def)
      have ok: "vrf_ok s1" by (rule compute_ok [OF assms(1) c(1)])
      then have "period_ok in_step ?seed (period_of ?seed (newValidatedVRfs s1))"
          "period_ok (\<lambda>f. 0 \<le> f \<and> f \<le> 1) ?seed (period_of ?seed (validatedVRfs s1))"
        by (simp_all add: vrf_ok_def periods_ok_of)
      then have "period_ok (\<lambda>f. 0 \<le> f \<and> f \<le> 1) ?seed (the found)" using w c(3) by (auto simp: period_of_def split: option.splits)
      then show ?thesis using ok c by auto
    qed
  qed
  then show "vrf_ok s'" "found = Some p \<Longrightarrow> \<exists>seed. period_ok (\<lambda>f. 0 \<le> f \<and> f \<le> 1) seed p" by auto
qed

text \<open>The states a node gets to by receiving, by its own turns and by looking for packaging nodes.\<close>

inductive vrf_reachable :: "vrf_env \<Rightarrow> nat \<Rightarrow> vrf_node \<Rightarrow> bool" for env fuel where
  start: "vrf_reachable env fuel \<lparr>validatedVRfs = [], newValidatedVRfs = []\<rparr>"
| receive: "vrf_reachable env fuel s \<Longrightarrow> receiveVRRequest env rd now vrf s = Ret (b, s') \<Longrightarrow> vrf_reachable env fuel s'"
| turn: "vrf_reachable env fuel s \<Longrightarrow> vrf_turn env fuel now rd rd2 s = Ret (out, s') \<Longrightarrow> vrf_reachable env fuel s'"
| packagers: "vrf_reachable env fuel s \<Longrightarrow> extractPackagerVRFData env fuel ts nodes s = Ret (r, s') \<Longrightarrow> vrf_reachable env fuel s'"
| data: "vrf_reachable env fuel s \<Longrightarrow> extractVRFData env fuel ts ds s = Ret (r', s') \<Longrightarrow> vrf_reachable env fuel s'"

lemma turn_ok: "vrf_ok s \<Longrightarrow> vrf_turn env fuel now rd rd2 s = Ret (out, s') \<Longrightarrow> vrf_ok s'"
  by (auto simp: vrf_turn_def Let_def run_simps split: if_splits intro: compute_ok addVRFStructure_ok)

lemma packagers_ok: "vrf_ok s \<Longrightarrow> extractPackagerVRFData env fuel ts nodes s = Ret (r, s') \<Longrightarrow> vrf_ok s'"
  by (auto simp: extractPackagerVRFData_def run_simps split: option.splits if_splits dest: source_ok(1))

lemma data_ok: "vrf_ok s \<Longrightarrow> extractVRFData env fuel ts ds s = Ret (r, s') \<Longrightarrow> vrf_ok s'"
  by (auto simp: extractVRFData_def run_simps split: option.splits dest: source_ok(1))

lemma reachable_ok: "vrf_reachable env fuel s \<Longrightarrow> vrf_ok s"
  by (induction rule: vrf_reachable.induct)
    (auto simp: vrf_ok_def [of "\<lparr>validatedVRfs = [], newValidatedVRfs = []\<rparr>"] periods_ok_def seeds_of_def ordered_map_def
      intro: receive_ok turn_ok packagers_ok data_ok)

text \<open>
  C22. However many messages arrive, at most eleven periods are kept and at most 21 of nodes in step; every node in step stands
  under its own name and seed with a share above 0 and not above 1.
\<close>

theorem vrf_tables_bounded:
  assumes "vrf_reachable env fuel s"
  shows "length (validatedVRfs s) \<le> 11 \<and> length (newValidatedVRfs s) \<le> 21 \<and>
    (\<forall>(seed, p)\<in>set (newValidatedVRfs s). \<forall>(id, v)\<in>set p.
       vs_seed v = seed \<and> vs_nodeId v = id \<and> 0 < vs_frequency v \<and> vs_frequency v \<le> 1)"
proof -
  have ok: "vrf_ok s" by (rule reachable_ok [OF assms])
  let ?n = "seeds_of (newValidatedVRfs s)" and ?v = "seeds_of (validatedVRfs s)"
  have "length (newValidatedVRfs s) = card ?n" using ok by (simp add: vrf_ok_def periods_ok_def ordered_length seeds_of_def)
  also have "\<dots> \<le> card (?n - ?v) + card ?v" by (metis card_Un_le card_mono finite_Un finite_seeds Un_Diff_cancel2 Un_upper1 finite_Diff le_trans)
  also have "\<dots> \<le> 21" using ok card_seeds [of "validatedVRfs s"] by (simp add: vrf_ok_def)
  finally show ?thesis using ok by (fastforce simp: vrf_ok_def periods_ok_def period_ok_def in_step_def)
qed

theorem vrf_tables_bounded_witness:
  "\<forall>env fuel. vrf_reachable env fuel \<lparr>validatedVRfs = [], newValidatedVRfs = []\<rparr> \<and>
     length (newValidatedVRfs \<lparr>validatedVRfs = [], newValidatedVRfs = []\<rparr>) \<le> 21"
  using vrf_tables_bounded [OF vrf_reachable.start] vrf_reachable.start by blast

subsection \<open>The chosen nodes\<close>

text \<open>The nodes of a period whose frequency reaches the threshold lowered \<open>n\<close> times.\<close>

definition reaching :: "nat \<Rightarrow> rat \<Rightarrow> vrf_period \<Rightarrow> vrf_period" where
  "reaching n t ds = filter (\<lambda>(_, v). (lower_threshold ^^ n) t \<le> vs_frequency v) ds"

lemma reaching_Suc: "reaching n (lower_threshold t) ds = reaching (Suc n) t ds"
  by (simp add: reaching_def funpow_Suc_right del: funpow.simps)

lemma filter_rounds_result:
  assumes "\<forall>(id, v)\<in>set ds. 0 \<le> vs_frequency v" "m \<le> length ds"
  shows "near_tenths k t \<Longrightarrow> k \<le> 10 \<Longrightarrow> 0 \<le> t \<Longrightarrow> (k = 0 \<Longrightarrow> t = 0) \<Longrightarrow> filter_rounds fuel m ds t = Ret p \<Longrightarrow>
    \<exists>n. p = reaching n t ds \<and> m \<le> length p \<and> (\<forall>j<n. length (reaching j t ds) < m)"
proof (induction fuel arbitrary: k t)
  case (Suc fuel)
  have r0: "filter (\<lambda>(_, v). t \<le> vs_frequency v) ds = reaching 0 t ds" by (simp add: reaching_def)
  show ?case
  proof (cases "length (reaching 0 t ds) < m")
    case False
    then have "p = reaching 0 t ds" using Suc.prems(5) by (simp add: r0 Let_def)
    then show ?thesis using False by (intro exI [of _ 0]) auto
  next
    case True
    have k: "k \<noteq> 0"
    proof
      assume "k = 0"
      then have "reaching 0 t ds = ds" using Suc.prems(4) assms(1) by (auto simp: reaching_def intro!: filter_True)
      then show False using True assms(2) by simp
    qed
    then obtain j where j: "k = Suc j" by (cases k) auto
    then have l: "near_tenths j (lower_threshold t)" "0 \<le> lower_threshold t" "j = 0 \<Longrightarrow> lower_threshold t = 0"
      using lower_near [of j t] Suc.prems by auto
    have "filter_rounds fuel m ds (lower_threshold t) = Ret p" using Suc.prems(5) True l(2) by (simp add: r0 Let_def split: if_splits)
    from Suc.IH [OF l(1) _ l(2,3) this] j Suc.prems(2) obtain n where
      n: "p = reaching n (lower_threshold t) ds" "m \<le> length p" "\<forall>j<n. length (reaching j (lower_threshold t) ds) < m" by auto
    have "\<forall>j<Suc n. length (reaching j t ds) < m" using n(3) True by (auto simp: reaching_Suc less_Suc_eq_0_disj)
    then show ?thesis using n(1,2) by (intro exI [of _ "Suc n"]) (simp add: reaching_Suc)
  qed
qed simp

lemma take_nodes_take: "length nodes < c \<Longrightarrow> take_nodes c ds nodes = nodes @ map fst (take (c - length nodes) ds)"
proof (induction c ds nodes rule: take_nodes.induct)
  case (2 c d ds nodes)
  show ?case
  proof (cases "c \<le> Suc (length nodes)")
    case True
    then have "c - length nodes = Suc 0" using 2(2) by simp
    then show ?thesis using True by simp
  next
    case False
    then have "c - length nodes = Suc (c - Suc (length nodes))" by simp
    then show ?thesis using 2 False by simp
  qed
qed simp

text \<open>
  C23. The packaging nodes are exactly as many as the consensus needs, all different and all of the chosen period; they reach a
  threshold that is as high as possible: fewer nodes than needed reach any of the higher ones.
\<close>

theorem packagers_chosen:
  assumes "vrf_reachable env fuel s" "\<forall>p h. mset (ve_shuffle env p h) = mset p" "0 < ve_consensus env"
    and "extractPackagerVRFData env fuel ts [] s = Ret ((True, nodes), s')"
  shows "\<exists>source n. vrf_source env fuel ts s = Ret (Some source, s') \<and> distinct nodes \<and> length nodes = ve_consensus env \<and>
    set nodes \<subseteq> fst ` set (reaching n 1 source) \<and> (\<forall>k<n. length (reaching k 1 source) < ve_consensus env)"
proof -
  let ?c = "ve_consensus env"
  obtain source p where s: "vrf_source env fuel ts s = Ret (Some source, s')" and p: "filter_rounds fuel ?c source 1 = Ret p"
      and c: "?c \<le> length source" and nodes: "nodes = selectRandomNodes env p [] ?c"
    using assms(3,4) by (auto simp: extractPackagerVRFData_def run_simps split: option.splits if_splits)
  obtain seed where seed: "period_ok (\<lambda>f. 0 \<le> f \<and> f \<le> 1) seed source"
    using source_ok(2) [OF reachable_ok [OF assms(1)] s] by blast
  then have "\<forall>(id, v)\<in>set source. 0 \<le> vs_frequency v" by (auto simp: period_ok_def)
  from filter_rounds_result [OF this c near_one _ _ _ p] obtain n where
    n: "p = reaching n 1 source" "?c \<le> length p" "\<forall>k<n. length (reaching k 1 source) < ?c" by auto
  obtain h where h: "nodes = map fst (take ?c (ve_shuffle env p h))"
    using nodes assms(3) by (auto simp: selectRandomNodes_def Let_def take_nodes_take)
  let ?q = "ve_shuffle env p h"
  have q: "mset ?q = mset p" using assms(2) by blast
  have "distinct (map fst source)" using seed by (simp add: period_ok_def ordered_map_distinct)
  then have "distinct (map fst p)" unfolding n(1) reaching_def by (rule distinct_map_filter)
  then have d: "distinct (map fst ?q)" using q by (metis mset_eq_imp_distinct_iff mset_map)
  have "distinct nodes" unfolding h take_map [symmetric] using d by (rule distinct_take)
  moreover have "length ?q = length p" using q by (metis size_mset)
  then have "length nodes = ?c" using n(2) by (simp add: h)
  moreover have "set ?q = set p" using q by (metis set_mset_mset)
  then have "set nodes \<subseteq> fst ` set p" unfolding h by (auto dest: in_set_takeD)
  ultimately show ?thesis using s n by blast
qed

definition tiny_vrf_env :: vrf_env where
  "tiny_vrf_env = \<lparr>ve_chain = \<lparr>MIN_SYNC_QUAL_NODES = 1, MIN_UNSTAKE_HEIGHT = 10, hashRangeSum = 100, verify_bonus = (\<lambda>_. 0),
     pledge_time = (\<lambda>_. 1), sha256 = (\<lambda>x. x), sum_hash_floor = (\<lambda>x. x), sum_hash_ceiling = (\<lambda>x. x)\<rparr>,
     ve_addr = (\<lambda>x. x), ve_sign = (\<lambda>a d. None), ve_verify_sign = (\<lambda>s d. 0), ve_order = (\<lambda>l. l), ve_shuffle = (\<lambda>p h. p),
     ve_self_addr = ''me'', ve_consensus = 1, ve_log = False\<rparr>"

definition tiny_vrf :: VRFConsensusInfo where
  "tiny_vrf = \<lparr>vc_vrfSeed = ''10'', vc_blockinfo = [], vc_sign = \<lparr>sg_sign = ''s'', sg_pub = ''a''\<rparr>\<rparr>"

definition tiny_reader :: reader where
  "tiny_reader = (\<lambda>k v. Ret (DB_SUCCESS, to_string (7 :: u64)))"

lemma tiny_received:
  "\<exists>v. receiveVRRequest tiny_vrf_env tiny_reader 12 tiny_vrf \<lparr>validatedVRfs = [], newValidatedVRfs = []\<rparr> =
     Ret (True, \<lparr>validatedVRfs = [(''10'', [(''a'', v)])], newValidatedVRfs = []\<rparr>)"
proof -
  have t: "getBlockTop tiny_reader 0 = Ret (DB_SUCCESS, 7)" by (simp add: tiny_reader_def getBlockTop_def read_unsigned_def read_then_def)
  have "stol (to_string_signed (10 :: 64 word)) = Ret 10" by simp
  moreover have "to_string_signed (10 :: 64 word) = ''10''" by code_simp
  ultimately have "stol ''10'' = Ret 10" by simp
  then show ?thesis using t
    by (simp add: receiveVRRequest_def tiny_vrf_def tiny_vrf_env_def addVRFStructure_def period_of_def pruneOldData_def prune_def MAX_VRFS_SIZE_def Let_def)
qed

theorem packagers_chosen_witness:
  "\<exists>s nodes s'. extractPackagerVRFData tiny_vrf_env 11 30000000 [] s = Ret ((True, nodes), s') \<and> length nodes = 1"
proof -
  obtain v where r: "receiveVRRequest tiny_vrf_env tiny_reader 12 tiny_vrf \<lparr>validatedVRfs = [], newValidatedVRfs = []\<rparr> =
     Ret (True, \<lparr>validatedVRfs = [(''10'', [(''a'', v)])], newValidatedVRfs = []\<rparr>)" using tiny_received by blast
  let ?s = "\<lparr>validatedVRfs = [(''10'', [(''a'', v)])], newValidatedVRfs = []\<rparr>"
  have reach: "vrf_reachable tiny_vrf_env 11 ?s" by (rule vrf_reachable.receive [OF vrf_reachable.start r])
  have "seconds_string 10 = ''10''" unfolding seconds_string_def by code_simp
  then have src: "vrf_source tiny_vrf_env 11 30000000 ?s = Ret (Some [(''a'', v)], ?s)"
    by (simp add: vrf_source_def cycle_30 period_of_def computeMaxHeightWithMinFrequency_def chosen_seed_def)
  obtain nodes s' where e: "extractPackagerVRFData tiny_vrf_env 11 30000000 [] ?s = Ret ((True, nodes), s')"
    using packager_end [OF cycle_30 order_refl, of tiny_vrf_env "[]" ?s] src
    by (auto simp: extractPackagerVRFData_def run_simps tiny_vrf_env_def split: if_splits)
  have "\<forall>p h. mset (ve_shuffle tiny_vrf_env p h) = mset p" "0 < ve_consensus tiny_vrf_env" "ve_consensus tiny_vrf_env = 1"
    by (simp_all add: tiny_vrf_env_def)
  then have "length nodes = 1" using packagers_chosen [OF reach _ _ e] by auto
  with e show ?thesis by blast
qed

subsection \<open>What the signature covers\<close>

text \<open>
  A node signs its seed and not the hashes it names: whoever has seen an accepted message can send it with ten other hashes,
  and it is accepted as the node's; the node's own message is then refused.
\<close>

theorem block_list_unsigned:
  assumes "receiveVRRequest env rd now vrf s = Ret (True, s1)" "length infos = 10" "distinct (map vb_blockHash infos)"
  shows "\<exists>s2. receiveVRRequest env rd now (vrf\<lparr>vc_blockinfo := infos\<rparr>) s = Ret (True, s2) \<and>
    (checkVRFExists (vc_vrfSeed vrf) (ve_addr env (sg_pub (vc_sign vrf))) s2 \<longrightarrow>
     receiveVRRequest env rd now vrf s2 = Ret (False, s2))"
  using assms
  by (auto simp: receiveVRRequest_def Let_def run_simps addVRFStructure_def validate_block_info_def checkVRFExists_def period_of_def
    split: if_splits option.splits)

theorem block_list_unsigned_witness:
  "\<exists>s2. receiveVRRequest tiny_vrf_env tiny_reader 12 (tiny_vrf\<lparr>vc_blockinfo := map (\<lambda>n. \<lparr>vb_blockHash = replicate n CHR ''x'', vb_height = 9\<rparr>) [0..<10]\<rparr>)
     \<lparr>validatedVRfs = [], newValidatedVRfs = []\<rparr> = Ret (True, s2)"
proof -
  obtain v where "receiveVRRequest tiny_vrf_env tiny_reader 12 tiny_vrf \<lparr>validatedVRfs = [], newValidatedVRfs = []\<rparr> =
     Ret (True, \<lparr>validatedVRfs = [(''10'', [(''a'', v)])], newValidatedVRfs = []\<rparr>)" using tiny_received by blast
  from block_list_unsigned [OF this, of "map (\<lambda>n. \<lparr>vb_blockHash = replicate n CHR ''x'', vb_height = 9\<rparr>) [0..<10]"]
  show ?thesis by (auto simp: distinct_map inj_on_def o_def)
qed

subsection \<open>Rounding\<close>

lemmas double_value = power_int_def power_divide

lemma double_tenth: "rnd (1 / 10) = 7205759403792794 / 2 ^ 56"
  by (rule trans [OF rnd_value [of "-4" _ 7205759403792794]]) (simp_all add: double_value)

lemma double_steps:
  obtains A B C D where "rnd (1 / 10) = A" "rnd A = A" "rnd (A + A) = B" "rnd (B + A) = C" "rnd (C / 3) = D" "rnd D = D" "A < D"
proof (rule that)
  show "rnd (1 / 10) = 7205759403792794 / 2 ^ 56" by (rule double_tenth)
  show "rnd (7205759403792794 / 2 ^ 56) = 7205759403792794 / 2 ^ 56"
    by (rule trans [OF rnd_value [of "-4" _ 7205759403792794]]) (simp_all add: double_value)
  show "rnd (7205759403792794 / 2 ^ 56 + 7205759403792794 / 2 ^ 56) = 7205759403792794 / 2 ^ 55"
    by (rule trans [OF rnd_value [of "-3" _ 7205759403792794]]) (simp_all add: double_value)
  show "rnd (7205759403792794 / 2 ^ 55 + 7205759403792794 / 2 ^ 56) = 5404319552844596 / 2 ^ 54"
  proof -
    have "exponent (7205759403792794 / 2 ^ 55 + 7205759403792794 / 2 ^ 56) = - 2" by (rule exponentI) (simp_all add: double_value)
    moreover have "\<lfloor>10808639105689191 / 2 :: rat\<rfloor> = 5404319552844595" by (rule floor_unique) simp_all
    ultimately show ?thesis by (simp add: rnd_def rnd_pos_def double_value round_even_def Let_def)
  qed
  show "rnd (5404319552844596 / 2 ^ 54 / 3) = 7205759403792795 / 2 ^ 56"
    by (rule trans [OF rnd_value [of "-4" _ 7205759403792795]]) (simp_all add: double_value)
  show "rnd (7205759403792795 / 2 ^ 56) = 7205759403792795 / 2 ^ 56"
    by (rule trans [OF rnd_value [of "-4" _ 7205759403792795]]) (simp_all add: double_value)
  show "(7205759403792794 / 2 ^ 56 :: rat) < 7205759403792795 / 2 ^ 56" by simp
qed

text \<open>
  When each of ten nodes' votes at the only height goes to one of three hashes with one vote each, the mean share computed in
  doubles, (0.1 + 0.1 + 0.1) / 3, lies above each share: no hash counts as frequent and no node qualifies, though in
  exact arithmetic all three hashes are as frequent as the mean.
\<close>

theorem rounding_empties_optimal:
  "optimalHashes (env\<lparr>ve_order := \<lambda>l. l\<rparr>) 10 [(1, [(a, 1), (b, 1), (c, 1)])] = {} \<and>
   \<not> qualifies_at (optimalHashes (env\<lparr>ve_order := \<lambda>l. l\<rparr>) 10 [(1, [(a, 1), (b, 1), (c, 1)])]) t e"
proof -
  obtain A B C D where d: "rnd (1 / 10) = A" "rnd A = A" "rnd (A + A) = B" "rnd (B + A) = C" "rnd (C / 3) = D" "rnd D = D" "A < D"
    by (rule double_steps)
  have one: "rnd 1 = 1" using rnd_exact [of 1] by simp
  have r: "ratio (Suc 0) 10 = A" using d(1) by (simp add: ratio_def)
  have a: "averageRatio (env\<lparr>ve_order := \<lambda>l. l\<rparr>) 10 [(a, 1), (b, 1), (c, 1)] = D"
    by (simp add: averageRatio_def r d d(3) [folded mult_2])
  have "optimalFrequency (env\<lparr>ve_order := \<lambda>l. l\<rparr>) 10 [(1, [(a, 1), (b, 1), (c, 1)])] = D"
    using a by (simp add: optimalFrequency_def one d Let_def)
  then have "optimalHashes (env\<lparr>ve_order := \<lambda>l. l\<rparr>) 10 [(1, [(a, 1), (b, 1), (c, 1)])] = {}"
    using d(7) by (simp add: optimalHashes_def r)
  then show ?thesis by (simp add: qualifies_at_def frequency_of_def)
qed

end
