(* ===== verification/TxCache.thy ===== *)
theory TxCache
  imports BlockSeek Dispatch
begin

text \<open>
  The pool of checked transactions and the building of blocks from it (\<open>ca/transaction_cache.cpp\<close>,
  \<open>ca/transaction_entity.h\<close>). A thread that is woken every three seconds chooses a height that enough
  nodes have reached, has the hash of the preceding block looked up and builds a block of the whole
  pool. From elsewhere come: the packager for a time, \<open>handleBlock\<close>, the JSON text of the contracts'
  results (\<open>xe_dump\<close>). A future of the lookup is its value, \<open>None\<close> when it is not there in six seconds.
\<close>

subsection \<open>State\<close>

record TransactionEntity =
  tn_tx :: CTransaction
  tn_utxo_height :: u64
  tn_height :: u64

text \<open>What the execution of a contract leaves: the previous transactions of the contracts it touched, and the rest.\<close>

record contract_info =
  ci_preHashes :: "(cxx_string \<times> cxx_string) list"
  ci_storage :: "(cxx_string \<times> cxx_string) list"
  ci_output :: cxx_string
  ci_coinbase :: cxx_string

record tx_cache =
  tc_transactionCache :: "TransactionEntity list"
  tc_contractCache :: "TransactionEntity list"
  tc_buildTxs :: "CTransaction list"
  tc_contractInfoCache :: "(cxx_string, contract_info \<times> u64) std_map"
  tc_preContractBlockHash :: cxx_string
  tc_dirtyContractMap :: "(cxx_string, u64 \<times> cxx_string set) std_map"

definition TransactionCache_new :: tx_cache where
  "TransactionCache_new = \<lparr>tc_transactionCache = [], tc_contractCache = [], tc_buildTxs = [], tc_contractInfoCache = [],
     tc_preContractBlockHash = [], tc_dirtyContractMap = []\<rparr>"

record tx_env =
  xe_chain :: chain_env
  xe_flow :: flow_env
  xe_dump :: "(cxx_string \<times> contract_info \<times> cxx_string set) list \<Rightarrow> cxx_string"
  xe_handleBlock :: "BlockMsg \<Rightarrow> int"
  xe_parses :: "cxx_string \<Rightarrow> bool"
  xe_packer :: "u64 \<Rightarrow> cxx_string option"
  xe_log :: bool

definition is_contract_tx :: "CTransaction \<Rightarrow> bool" where
  "is_contract_tx tx \<longleftrightarrow> tx_txType tx = TX_TYPE_INVOKE_CONTRACT \<or> tx_txType tx = kTransactionTypeDeploy"

subsection \<open>Entry of transactions\<close>

text \<open>Contract transactions wait apart from the others; each is checked against its own list only.\<close>

definition kTXTypeFund :: u32 where "kTXTypeFund = 98"

definition AddCache :: "(cxx_string \<Rightarrow> cxx_string) \<Rightarrow> CTransaction \<Rightarrow> TxMsgReq \<Rightarrow> tx_cache \<Rightarrow> int \<times> tx_cache" where
  "AddCache ga transaction msg c =
     (if is_contract_tx transaction then
        if CheckConflict_cache ga transaction (map tn_tx (tc_contractCache c)) then (-1, c)
        else (0, c\<lparr>tc_contractCache := tc_contractCache c @ [\<lparr>tn_tx = transaction, tn_utxo_height = 0, tn_height = tm_nodeHeight msg\<rparr>]\<rparr>)
      else
        if CheckConflict_cache ga transaction (map tn_tx (tc_transactionCache c)) then (-2, c)
        else (0, c\<lparr>tc_transactionCache := tc_transactionCache c @ [\<lparr>tn_tx = transaction,
             tn_utxo_height = (if tx_txType transaction = kTXTypeFund then tm_nodeHeight msg else tm_txUtxoHeight msg), tn_height = 0\<rparr>]\<rparr>))"

definition getBlockCount :: "tx_cache \<Rightarrow> u64 run" where
  "getBlockCount c = (if tc_transactionCache c = [] then Undefined else Ret (tn_utxo_height (last (tc_transactionCache c))))"

definition addContractInfoToCache :: "cxx_string \<Rightarrow> contract_info \<Rightarrow> u64 \<Rightarrow> tx_cache \<Rightarrow> tx_cache" where
  "addContractInfoToCache transactionHash info txtime c =
     c\<lparr>tc_contractInfoCache := map_assign transactionHash (info, txtime) (tc_contractInfoCache c)\<rparr>"

definition get_contract_info_cache :: "cxx_string \<Rightarrow> tx_cache \<Rightarrow> contract_info option" where
  "get_contract_info_cache transactionHash c = map_option fst (map_of (tc_contractInfoCache c) transactionHash)"

definition hasContractPackingPermission :: "tx_env \<Rightarrow> cxx_string \<Rightarrow> u64 \<Rightarrow> bool" where
  "hasContractPackingPermission env addr time = (xe_packer env time = Some addr)"

definition set_dirty_contract_map :: "u64 \<Rightarrow> cxx_string \<Rightarrow> cxx_string set \<Rightarrow> tx_cache \<Rightarrow> tx_cache" where
  "set_dirty_contract_map now transactionHash dirtyContract c =
     c\<lparr>tc_dirtyContractMap := map_assign transactionHash (now, dirtyContract) (tc_dirtyContractMap c)\<rparr>"

definition get_dirty_contract_map :: "cxx_string \<Rightarrow> tx_cache \<Rightarrow> cxx_string set option" where
  "get_dirty_contract_map transactionHash c = map_option snd (map_of (tc_dirtyContractMap c) transactionHash)"

definition removeExpiredFromDirtyContractMap :: "u64 \<Rightarrow> tx_cache \<Rightarrow> tx_cache" where
  "removeExpiredFromDirtyContractMap nowTime c =
     c\<lparr>tc_dirtyContractMap := filter (\<lambda>(_, t, _). \<not> t + 60 * 1000000 \<le> nowTime) (tc_dirtyContractMap c)\<rparr>"

definition verifyDirtyContractFlag :: "cxx_string \<Rightarrow> cxx_string list \<Rightarrow> tx_cache \<Rightarrow> bool" where
  "verifyDirtyContractFlag transactionHash calledContract c =
     (case map_of (tc_dirtyContractMap c) transactionHash of
        None \<Rightarrow> False
      | Some (_, found) \<Rightarrow> set calledContract - found = {})"

definition addBuildTransaction :: "CTransaction \<Rightarrow> tx_cache \<Rightarrow> tx_cache" where
  "addBuildTransaction transaction c = c\<lparr>tc_buildTxs := tc_buildTxs c @ [transaction]\<rparr>"

definition clearBuiltTransactions :: "tx_cache \<Rightarrow> tx_cache" where
  "clearBuiltTransactions c = c\<lparr>tc_buildTxs := []\<rparr>"

definition removeContractInfoCacheRequest :: "cxx_string set \<Rightarrow> tx_cache \<Rightarrow> tx_cache" where
  "removeContractInfoCacheRequest hashes c =
     c\<lparr>tc_contractInfoCache := filter (\<lambda>e. fst e \<notin> hashes) (tc_contractInfoCache c)\<rparr>"

definition removeContractsCacheRequest :: "cxx_string set \<Rightarrow> tx_cache \<Rightarrow> tx_cache" where
  "removeContractsCacheRequest hashes c =
     c\<lparr>tc_contractCache := filter (\<lambda>e. tx_hash (tn_tx e) \<notin> hashes) (tc_contractCache c)\<rparr>"

definition get_and_update_contract_pre_hash ::
    "reader \<Rightarrow> cxx_string \<Rightarrow> cxx_string \<Rightarrow> (cxx_string, cxx_string) std_map \<Rightarrow> (cxx_string \<times> (cxx_string, cxx_string) std_map) run" where
  "get_and_update_contract_pre_hash rd contractAddress transactionHash cache =
     (case map_of cache contractAddress of
        Some prevTxHash \<Rightarrow> Ret (prevTxHash, map_assign contractAddress transactionHash cache)
      | None \<Rightarrow> bind_run (getLatestUtxoByContractAddr rd contractAddress []) (\<lambda>(ret, prevTxHash).
          if ret \<noteq> DB_SUCCESS then Ret ([], cache)
          else if prevTxHash = [] then Ret ([], cache)
          else Ret (prevTxHash, map_assign contractAddress transactionHash cache)))"

subsection \<open>The height of the block to build\<close>

text \<open>The highest height of a spent output, in an \<open>int\<close>; comparisons with it are unsigned.\<close>

fun max_utxo_height :: "TransactionEntity list \<Rightarrow> 32 word \<Rightarrow> 32 word" where
  "max_utxo_height [] m = m"
| "max_utxo_height (item # items) m =
     max_utxo_height items (if (scast m :: u64) < tn_utxo_height item then ucast (tn_utxo_height item) else m)"

definition satisfied :: "chain_env \<Rightarrow> Node list \<Rightarrow> (cxx_string, u64) std_map" where
  "satisfied env nodes = foldl (\<lambda>m node. map_assign (nd_address node) (ucast (nd_height node)) m) [] (filter (qualifies env) nodes)"

definition add_missing :: "Node list \<Rightarrow> (cxx_string, u64) std_map \<Rightarrow> (cxx_string, u64) std_map" where
  "add_missing nodes m =
     foldl (\<lambda>m node. if map_of m (nd_address node) = None then map_assign (nd_address node) (ucast (nd_height node)) m else m) m nodes"

text \<open>How many nodes have a height or a higher one.\<close>

definition height_count :: "(cxx_string, u64) std_map \<Rightarrow> (u64 \<times> nat) list" where
  "height_count m = (let heightFrequency = tally (map snd m) in
     map (\<lambda>i. (fst (heightFrequency ! i), sum_list (map snd (drop i heightFrequency)))) [0..<length heightFrequency])"

fun pick_height :: "nat \<Rightarrow> u64 \<Rightarrow> (u64 \<times> nat) list \<Rightarrow> int" where
  "pick_height node_sum m [] = -4"
| "pick_height node_sum m ((h, n) # es) =
     (if h < m then -3 else if at_least_times n node_sum d075 then sint (ucast h :: 32 word) else pick_height node_sum m es)"

text \<open>The log line reads the entry of the own height before it is known to exist.\<close>

definition get_build_block_height :: "tx_env \<Rightarrow> reader \<Rightarrow> Node list \<Rightarrow> TransactionEntity list \<Rightarrow> int run" where
  "get_build_block_height env rd nodes txcache =
     (let m = (scast (max_utxo_height txcache 0) :: u64); addrs = satisfied (xe_chain env) nodes;
          few = (length addrs < unat (MIN_SYNC_QUAL_NODES (xe_chain env))) in
      if few \<and> MIN_UNSTAKE_HEIGHT (xe_chain env) \<le> m then Ret (-1)
      else let addrs = (if few then add_missing nodes addrs else addrs); node_sum = length addrs;
               heightCount = height_count addrs in
        if \<not> at_least_times (length (filter (\<lambda>e. m \<le> snd e) addrs)) node_sum d075 then Ret (-2)
        else bind_run (getBlockTop rd 0) (\<lambda>(_, top_height).
          let own = map_of heightCount top_height in
          if m \<le> top_height \<and> own = None \<and> xe_log env then Undefined
          else if m \<le> top_height \<and> (case own of None \<Rightarrow> False | Some n \<Rightarrow> at_least_times n node_sum d075)
          then Ret (sint (ucast top_height :: 32 word))
          else Ret (pick_height node_sum m (rev heightCount))))"

subsection \<open>Building\<close>

text \<open>The transactions with the results of the contracts among them; a missing result or list ends the attempt.\<close>

fun fill_txs ::
    "tx_cache \<Rightarrow> CTransaction list \<Rightarrow> CBlock \<Rightarrow> (cxx_string, contract_info \<times> cxx_string set) std_map \<Rightarrow>
     int \<times> CBlock \<times> (cxx_string, contract_info \<times> cxx_string set) std_map" where
  "fill_txs c [] b storage = (0, b, storage)"
| "fill_txs c (tx # txs) b storage =
     (let b = b\<lparr>bl_txs := bl_txs b @ [tx], bl_time := max (bl_time b) (tx_time tx)\<rparr> in
      if \<not> is_contract_tx tx then fill_txs c txs b storage
      else case get_contract_info_cache (tx_hash tx) c of
        None \<Rightarrow> (-1, b\<lparr>bl_time := 0\<rparr>, storage)
      | Some info \<Rightarrow> (case get_dirty_contract_map (tx_hash tx) c of
          None \<Rightarrow> (-2, b\<lparr>bl_time := 0\<rparr>, storage)
        | Some dirty \<Rightarrow> fill_txs c txs b (map_assign (tx_hash tx) (info, dirty) storage)))"

text \<open>\<open>fut\<close> is what the lookup task of a number returned in time.\<close>

definition CreateBlock ::
    "tx_env \<Rightarrow> (nat \<Rightarrow> (cxx_string \<times> nat) option) \<Rightarrow> block_storage \<Rightarrow> tx_cache \<Rightarrow> CTransaction list \<Rightarrow> u64 \<Rightarrow> int \<times> CBlock" where
  "CreateBlock env fut s c txs blockHeight =
     (let b = CBlock_new\<lparr>bl_version := fe_block_version (xe_flow env), bl_height := blockHeight + 1\<rparr> in
      case fill_txs c txs b [] of (ret, b, storage) \<Rightarrow>
      if ret \<noteq> 0 then (ret, b)
      else let b = b\<lparr>bl_data := xe_dump env storage\<rparr> in
      case GetPrehash blockHeight s of
        None \<Rightarrow> (-2, b)
      | Some task \<Rightarrow> (case fut task of
          None \<Rightarrow> (-3, b)
        | Some (preBlockHash, _) \<Rightarrow>
            if preBlockHash = [] then (-4, b)
            else let b = b\<lparr>bl_prevHash := preBlockHash\<rparr>;
                     b = b\<lparr>bl_merkleRoot := fe_merkle (xe_flow env) b\<rparr>
                 in (0, b\<lparr>bl_hash := fe_sha256 (xe_flow env) (fe_serialize (xe_flow env) b)\<rparr>)))"

text \<open>What is passed to \<open>handleBlock\<close> is collected in the last component.\<close>

definition BuildBlock ::
    "tx_env \<Rightarrow> (nat \<Rightarrow> (cxx_string \<times> nat) option) \<Rightarrow> u64 \<Rightarrow> tx_cache \<Rightarrow> CTransaction list \<Rightarrow> u64 \<Rightarrow> block_storage \<Rightarrow>
     int \<times> block_storage \<times> BlockMsg list" where
  "BuildBlock env fut now c txs blockHeight s =
     (if txs = [] then (-1, s, [])
      else case CreateBlock env fut s c txs blockHeight of (ret, b) \<Rightarrow>
        if ret \<noteq> 0 then
          (ret - 100, if ret = -3 \<or> ret = -4 \<or> ret = -5 then ForceCommitSeekJob (bl_height b - 1) s else s, [])
        else let msg = BlockMsg_new\<lparr>bm_version := fe_node_version (xe_flow env), bm_time := now,
                         bm_block := fe_serialize (xe_flow env) b\<rparr> in
          (if xe_handleBlock env msg \<noteq> 0 then if xe_parses env (bm_block msg) then -6 else -5 else 0, s, [msg]))"

text \<open>One turn of the building thread; \<open>rd\<close> is the database, \<open>nodes\<close> the connected nodes.\<close>

definition build_turn ::
    "tx_env \<Rightarrow> (nat \<Rightarrow> (cxx_string \<times> nat) option) \<Rightarrow> reader \<Rightarrow> Node list \<Rightarrow> u64 \<Rightarrow> tx_cache \<Rightarrow> block_storage \<Rightarrow>
     (tx_cache \<times> block_storage \<times> BlockMsg list) run" where
  "build_turn env fut rd nodes now c s =
     (if tc_transactionCache c = [] then Ret (c, s, [])
      else let c = clearBuiltTransactions c; cleared = c\<lparr>tc_transactionCache := []\<rparr> in
        bind_run (get_build_block_height env rd nodes (tc_transactionCache c)) (\<lambda>buildHeight.
          if buildHeight < 0 then Ret (cleared, s, [])
          else bind_run (commitLookupTask (word_of_int buildHeight) s) (\<lambda>s.
            case BuildBlock env fut now c (map tn_tx (tc_transactionCache c)) (word_of_int buildHeight) s of (ret, s, msgs) \<Rightarrow>
              Ret (if ret = -103 \<or> ret = -104 \<or> ret = -105 then c else cleared, s, msgs))))"

end
