(* ===== verification/TxProps.thy ===== *)
theory TxProps
  imports TxCache SeekProps
begin

text \<open>
  Properties of the pool of transactions: nothing in it conflicts, the height a block is built for, and
  what becomes of the pool in a turn of the building thread.
\<close>

subsection \<open>Heights\<close>

lemma small_height:
  assumes "(h :: u64) < 2 ^ 31"
  shows "(scast (ucast h :: 32 word) :: u64) = h" "sint (ucast h :: 32 word) = uint h"
proof -
  have u: "uint h < 2 ^ 31" using assms by (simp add: word_less_def)
  have v: "uint (ucast h :: 32 word) = uint h" using u by (simp add: unsigned_ucast_eq take_bit_int_eq_self)
  have "sint (ucast h :: 32 word) = signed_take_bit 31 (uint h)" by (simp add: sint_uint v)
  also have "\<dots> = uint h"
  proof (rule signed_take_bit_int_eq_self)
    have "0 \<le> uint h" by simp
    then show "- (2 ^ 31) \<le> uint h" by (rule order_trans [rotated]) simp
  qed (use u in simp)
  finally show 1: "sint (ucast h :: 32 word) = uint h" .
  have "(scast (ucast h :: 32 word) :: u64) = word_of_int (sint (ucast h :: 32 word))" by (rule scast_eq)
  also have "\<dots> = h" unfolding 1 by (rule word_of_int_uint)
  finally show "(scast (ucast h :: 32 word) :: u64) = h" .
qed

lemma max_utxo_height_result:
  assumes "\<forall>e\<in>set items. tn_utxo_height e < 2 ^ 31" "h < 2 ^ 31"
  shows "\<exists>h'. max_utxo_height items (ucast h) = ucast h' \<and> h' < 2 ^ 31 \<and> h \<le> h' \<and> (\<forall>e\<in>set items. tn_utxo_height e \<le> h')"
  using assms
proof (induction items arbitrary: h)
  case (Cons e items)
  let ?h = "if h < tn_utxo_height e then tn_utxo_height e else h"
  have "?h < 2 ^ 31" using Cons.prems by auto
  then obtain h' where h': "max_utxo_height items (ucast ?h) = ucast h'" "h' < 2 ^ 31" "?h \<le> h'" "\<forall>e\<in>set items. tn_utxo_height e \<le> h'"
    using Cons.IH [of ?h] Cons.prems(1) by auto
  moreover have "h \<le> h'" "tn_utxo_height e \<le> h'" using h'(3) by (auto split: if_splits)
  ultimately show ?case using small_height(1) [OF Cons.prems(2)] by (intro exI [of _ h']) (auto split: if_splits)
qed auto

lemma sum_count_filter: "finite A \<Longrightarrow> (\<Sum>x\<in>A. count_list xs x) = length (filter (\<lambda>x. x \<in> A) xs)"
proof (induction xs)
  case (Cons a xs)
  have "(\<Sum>x\<in>A. count_list (a # xs) x) = (\<Sum>x\<in>A. count_list xs x + (if x = a then 1 else 0))" by (rule sum.cong) auto
  then show ?case using Cons by (simp add: sum.distrib)
qed simp

lemma height_count_entry:
  assumes "(h, n) \<in> set (height_count m)"
  shows "n = length (filter (\<lambda>e. h \<le> snd e) m)"
proof -
  let ?f = "tally (map snd m)"
  obtain i where i: "i < length ?f" "h = fst (?f ! i)" "n = sum_list (map snd (drop i ?f))"
    using assms by (auto simp: height_count_def Let_def)
  have o: "ordered_map ?f" by simp
  then have st: "sorted_wrt (<) (map fst ?f)" by (simp add: ordered_map_def)
  then have d: "distinct (map fst (drop i ?f))" by (metis drop_map distinct_drop strict_sorted_iff)
  have "x \<in> fst ` set (drop i ?f) \<longleftrightarrow> x \<in> set (map snd m) \<and> h \<le> x" for x
  proof
    assume "x \<in> fst ` set (drop i ?f)"
    then obtain j where j: "i \<le> j" "j < length ?f" "x = fst (?f ! j)"
      by (auto simp: in_set_conv_nth) (metis add.commute le_add1 less_diff_conv add.commute fst_conv)
    have "(x, snd (?f ! j)) \<in> set ?f" using j by (metis nth_mem prod.collapse)
    moreover have "h \<le> x" using st i j by (cases "i = j") (auto simp: sorted_wrt_iff_nth_less less_imp_le)
    ultimately show "x \<in> set (map snd m) \<and> h \<le> x" by (auto simp: tally_entry)
  next
    assume x: "x \<in> set (map snd m) \<and> h \<le> x"
    then have "(x, count_list (map snd m) x) \<in> set ?f" by (simp add: tally_entry)
    then obtain j where j: "j < length ?f" "?f ! j = (x, count_list (map snd m) x)" by (auto simp: in_set_conv_nth)
    have "fst (?f ! j) = x" using j by simp
    then have "\<not> fst (?f ! j) < fst (?f ! i)" using x i by auto
    then have "\<not> j < i" using st i by (auto simp: sorted_wrt_iff_nth_less)
    then have "drop i ?f ! (j - i) = ?f ! j" "j - i < length (drop i ?f)" using j by auto
    then have "?f ! j \<in> set (drop i ?f)" by (metis nth_mem)
    then show "x \<in> fst ` set (drop i ?f)" using j by force
  qed
  then have A: "fst ` set (drop i ?f) = {x \<in> set (map snd m). h \<le> x}" by auto
  have "n = (\<Sum>e\<in>set (drop i ?f). snd e)" using d i(3) by (simp add: sum_list_distinct_conv_sum_set distinct_map)
  also have "\<dots> = (\<Sum>e\<in>set (drop i ?f). count_list (map snd m) (fst e))"
    by (rule sum.cong) (auto dest!: in_set_dropD simp: tally_entry)
  also have "\<dots> = (\<Sum>x\<in>fst ` set (drop i ?f). count_list (map snd m) x)"
    using d by (simp add: sum.reindex distinct_map)
  also have "\<dots> = length (filter (\<lambda>x. x \<in> {x \<in> set (map snd m). h \<le> x}) (map snd m))" unfolding A by (rule sum_count_filter) simp
  also have "\<dots> = length (filter (\<lambda>x. h \<le> x) (map snd m))" by (rule arg_cong [where f = length]) (rule filter_cong; auto)
  finally show ?thesis by (simp add: filter_map o_def)
qed

lemma pick_height_result:
  "pick_height k m es = r \<Longrightarrow> 0 \<le> r \<Longrightarrow> \<exists>es1 h n es2. es = es1 @ (h, n) # es2 \<and> m \<le> h \<and> at_least_times n k d075 \<and>
     r = sint (ucast h :: 32 word) \<and> (\<forall>e\<in>set es1. \<not> at_least_times (snd e) k d075)"
proof (induction k m es rule: pick_height.induct)
  case (2 k m h n es)
  show ?case
  proof (cases "at_least_times n k d075")
    case True
    then show ?thesis using 2 by (intro exI [of _ "[]"] exI [of _ h] exI [of _ n] exI [of _ es]) (auto split: if_splits)
  next
    case False
    then obtain es1 h' n' es2 where e: "es = es1 @ (h', n') # es2" "m \<le> h'" "at_least_times n' k d075"
        "r = sint (ucast h' :: 32 word)" "\<forall>e\<in>set es1. \<not> at_least_times (snd e) k d075"
      using 2 by (auto split: if_splits)
    then show ?thesis using False by (intro exI [of _ "(h, n) # es1"] exI [of _ h'] exI [of _ n'] exI [of _ es2]) auto
  qed
qed simp

lemma height_count_keys: "map fst (height_count m) = map fst (tally (map snd m))"
  by (rule nth_equalityI) (auto simp: height_count_def Let_def)

text \<open>
  The nodes that are asked, by the code's two rules.
\<close>

definition counted_nodes :: "tx_env \<Rightarrow> Node list \<Rightarrow> (cxx_string, u64) std_map" where
  "counted_nodes env nodes = (let addrs = satisfied (xe_chain env) nodes in
     if length addrs < unat (MIN_SYNC_QUAL_NODES (xe_chain env)) then add_missing nodes addrs else addrs)"

definition reached :: "u64 \<Rightarrow> (cxx_string, u64) std_map \<Rightarrow> nat" where
  "reached h m = length (filter (\<lambda>e. h \<le> snd e) m)"

lemma height_known: "e \<in> set m \<Longrightarrow> (snd e, reached (snd e) m) \<in> set (height_count m)"
proof -
  assume "e \<in> set m"
  then have "(snd e, count_list (map snd m) (snd e)) \<in> set (tally (map snd m))" by (simp add: tally_entry)
  then have "snd e \<in> set (map fst (height_count m))" unfolding height_count_keys by (metis fst_conv image_eqI list.set_map)
  then obtain n where "(snd e, n) \<in> set (height_count m)" by auto
  then show ?thesis using height_count_entry by (simp add: reached_def)
qed

text \<open>
  The height a block is built on is not below the height of any output the pool spends, and at least three of four counted
  nodes have reached it; it is the node's own height or no higher known height is reached by so many. (For
  heights below \<open>2 ^ 31\<close>, as the code keeps them in an \<open>int\<close>.)
\<close>

theorem build_height_sound:
  fixes env nodes
  defines "C \<equiv> counted_nodes env nodes"
  assumes "get_build_block_height env rd nodes cache = Ret r" "0 \<le> r" "getBlockTop rd 0 = Ret (st, own)" "own < 2 ^ 31"
    and "\<forall>e\<in>set cache. tn_utxo_height e < 2 ^ 31" "\<forall>e\<in>set C. snd e < 2 ^ 31" "length C < 2 ^ 40"
  shows "(\<forall>e\<in>set cache. tn_utxo_height e \<le> word_of_int r) \<and> 3 * length C \<le> 4 * reached (word_of_int r) C \<and>
    (word_of_int r = own \<or> (\<forall>e\<in>set C. word_of_int r < snd e \<longrightarrow> 4 * reached (snd e) C < 3 * length C))"
proof -
  obtain m where m: "max_utxo_height cache 0 = ucast m" "m < 2 ^ 31" "\<forall>e\<in>set cache. tn_utxo_height e \<le> m"
    using max_utxo_height_result [OF assms(6), of 0] by auto
  have sm: "scast (max_utxo_height cache 0) = m" using small_height(1) [OF m(2)] m(1) by simp
  have num: "at_least_times n (length C) d075 \<longleftrightarrow> 3 * length C \<le> 4 * n" for n
    using three_quarters.at_least_iff [OF assms(8)] by simp
  let ?hc = "height_count C"
  have e: "n = reached h C" if "(h, n) \<in> set ?hc" for h n using height_count_entry [OF that] by (simp add: reached_def)
  have "(m \<le> own \<and> (case map_of ?hc own of None \<Rightarrow> False | Some n \<Rightarrow> at_least_times n (length C) d075) \<and> r = sint (ucast own :: 32 word)) \<or>
    r = pick_height (length C) m (rev ?hc)"
    using assms(2-4) by (auto simp: get_build_block_height_def Let_def sm C_def [unfolded counted_nodes_def Let_def, symmetric] split: if_splits)
  then consider n where "m \<le> own" "map_of ?hc own = Some n" "at_least_times n (length C) d075" "r = sint (ucast own :: 32 word)"
    | "pick_height (length C) m (rev ?hc) = r" by (auto split: option.splits)
  then show ?thesis
  proof cases
    case 1
    have r: "word_of_int r = own" using 1(4) small_height(2) [OF assms(5)] by simp
    have "n = reached own C" by (rule e) (use 1(2) in \<open>rule map_of_SomeD\<close>)
    then show ?thesis using 1(1,3) m(3) num r by (auto intro: order_trans)
  next
    case 2
    obtain es1 h n es2 where p: "rev ?hc = es1 @ (h, n) # es2" "m \<le> h" "at_least_times n (length C) d075"
        "r = sint (ucast h :: 32 word)" "\<forall>e\<in>set es1. \<not> at_least_times (snd e) (length C) d075"
      using pick_height_result [OF 2 assms(3)] by blast
    have hc: "?hc = rev es2 @ (h, n) # rev es1" using p(1) by (metis append.assoc append_Cons append_Nil rev.simps(2) rev_append rev_rev_ident)
    have "h \<in> fst ` set ?hc" unfolding hc by auto
    then have "h \<in> snd ` set C" unfolding list.set_map [symmetric] height_count_keys by (auto simp: tally_entry)
    then have h: "h < 2 ^ 31" using assms(7) by auto
    have r: "word_of_int r = h" using p(4) small_height(2) [OF h] by simp
    have n: "n = reached h C" by (rule e) (simp add: hc)
    have "4 * reached (snd x) C < 3 * length C" if x: "x \<in> set C" "h < snd x" for x
    proof -
      have "(snd x, reached (snd x) C) \<in> set ?hc" by (rule height_known [OF x(1)])
      moreover have "sorted_wrt (<) (map fst ?hc)" unfolding height_count_keys using ordered_tally by (auto simp: ordered_map_def)
      then have "\<forall>y\<in>set (rev es2). fst y < h" unfolding hc by (simp add: sorted_wrt_append)
      ultimately have "(snd x, reached (snd x) C) \<in> set es1" using x(2) unfolding hc by force
      then show ?thesis using p(5) num by force
    qed
    then show ?thesis using p(2,3) m(3) num r n by (auto intro: order_trans)
  qed
qed

definition small_tx_env :: tx_env where
  "small_tx_env = \<lparr>xe_chain = \<lparr>MIN_SYNC_QUAL_NODES = 1, MIN_UNSTAKE_HEIGHT = 10, hashRangeSum = 100, verify_bonus = (\<lambda>_. 0),
       pledge_time = (\<lambda>_. 1), sha256 = (\<lambda>x. x), sum_hash_floor = (\<lambda>x. x), sum_hash_ceiling = (\<lambda>x. x)\<rparr>,
     xe_flow = \<lparr>fe_parse = (\<lambda>_. CBlock_new), fe_serialize = (\<lambda>b. bl_prevHash b @ concat (map tx_hash (bl_txs b))),
       fe_addr = (\<lambda>x. x), fe_type = (\<lambda>_. 1), fe_timeout = (\<lambda>_. 0), fe_merkle = (\<lambda>_. ''m''), fe_sha256 = (\<lambda>x. x),
       fe_block_version = 1, fe_node_version = ''1'', fe_log = False, kConsensus = 1, KReSend_node_threshold = 1\<rparr>,
     xe_dump = (\<lambda>_. []), xe_handleBlock = (\<lambda>_. 0), xe_parses = (\<lambda>_. True), xe_packer = (\<lambda>_. None), xe_log = True\<rparr>"

definition seven :: reader where "seven = (\<lambda>k v. Ret (DB_SUCCESS, to_string (7 :: u64)))"

definition node_at_seven :: "Node list" where "node_at_seven = [(Node_new ''a'')\<lparr>nd_height := 7\<rparr>]"

definition one_entity :: TransactionEntity where
  "one_entity = \<lparr>tn_tx = \<lparr>tx_time = 3, tx_hash = ''t'', tx_txType = 1, tx_utxos = [], tx_version = 0, tx_identity = [], tx_data = []\<rparr>,
     tn_utxo_height = 5, tn_height = 0\<rparr>"

lemma seven_top: "getBlockTop seven 0 = Ret (DB_SUCCESS, 7)"
  by (simp add: seven_def getBlockTop_def read_unsigned_def read_then_def)

lemma counted_seven: "counted_nodes small_tx_env node_at_seven = [(''a'', 7)]"
  by (simp add: counted_nodes_def satisfied_def small_tx_env_def node_at_seven_def Node_new_def qualifies_def)

lemma at_least_one: "at_least_times 1 1 d075" using three_quarters.at_least_iff [of 1 1] by simp

lemma height_seven: "get_build_block_height small_tx_env seven node_at_seven [one_entity] = Ret 7"
proof -
  have m: "max_utxo_height [one_entity] 0 = 5" by (simp add: one_entity_def)
  have c: "height_count [(''a'', 7 :: u64)] = [(7, 1)]" by (simp add: height_count_def tally_def vote_for_def)
  have a: "satisfied (xe_chain small_tx_env) node_at_seven = [(''a'', 7)]"
    by (simp add: satisfied_def small_tx_env_def node_at_seven_def Node_new_def qualifies_def)
  have f: "MIN_SYNC_QUAL_NODES (xe_chain small_tx_env) = 1" by (simp add: small_tx_env_def)
  show ?thesis using at_least_one by (simp add: get_build_block_height_def m a c f seven_top Let_def del: max_utxo_height.simps)
qed

theorem build_height_sound_witness:
  "get_build_block_height small_tx_env seven node_at_seven [one_entity] = Ret 7 \<and> 3 * length (counted_nodes small_tx_env node_at_seven) \<le>
     4 * reached 7 (counted_nodes small_tx_env node_at_seven)"
  using build_height_sound [OF height_seven _ seven_top] height_seven by (simp add: counted_seven one_entity_def)

subsection \<open>The block that is built\<close>

lemma fill_txs_result:
  "fill_txs c txs b st = (0, b', st') \<Longrightarrow>
   b' = b\<lparr>bl_txs := bl_txs b @ txs, bl_time := foldl max (bl_time b) (map tx_time txs)\<rparr>"
proof (induction c txs b st rule: fill_txs.induct)
  case (2 c tx txs b st)
  then show ?case by (simp add: Let_def split: if_splits option.splits)
qed simp

lemma fill_txs_ret: "fst (fill_txs c txs b st) \<in> {0, -1, -2}"
  by (induction c txs b st rule: fill_txs.induct) (auto simp: Let_def split: option.splits)

lemma CreateBlock_result:
  assumes "CreateBlock env fut s c txs h = (0, b)"
  obtains task p where "GetPrehash h s = Some task" "fut task = Some (bl_prevHash b, p)" "bl_prevHash b \<noteq> []"
    "bl_txs b = txs" "bl_height b = h + 1" "bl_time b = foldl max 0 (map tx_time txs)"
    "bl_hash b = fe_sha256 (xe_flow env) (fe_serialize (xe_flow env) (b\<lparr>bl_hash := []\<rparr>))"
proof -
  let ?b = "CBlock_new\<lparr>bl_version := fe_block_version (xe_flow env), bl_height := h + 1\<rparr>"
  obtain ret b1 st where f: "fill_txs c txs ?b [] = (ret, b1, st)" by (metis prod_cases3)
  have ret: "ret = 0" using assms f by (auto simp: CreateBlock_def split: if_splits)
  note b1 = fill_txs_result [OF f [unfolded ret]]
  let ?b2 = "b1\<lparr>bl_data := xe_dump env st\<rparr>"
  obtain task p where t: "GetPrehash h s = Some task" "fut task = Some (bl_prevHash b, p)" "bl_prevHash b \<noteq> []"
      and b: "b = (let b = ?b2\<lparr>bl_prevHash := bl_prevHash b\<rparr>; b = b\<lparr>bl_merkleRoot := fe_merkle (xe_flow env) b\<rparr> in
        b\<lparr>bl_hash := fe_sha256 (xe_flow env) (fe_serialize (xe_flow env) b)\<rparr>)"
  proof (cases "GetPrehash h s")
    case None
    then show ?thesis using assms by (simp add: CreateBlock_def f ret Let_def)
  next
    case (Some task)
    show ?thesis
    proof (cases "fut task")
      case None
      then show ?thesis using assms Some by (simp add: CreateBlock_def f ret Let_def)
    next
      case q: (Some r)
      obtain pre p where pre: "r = (pre, p)" by (cases r)
      have "pre \<noteq> []" using assms Some q pre by (auto simp: CreateBlock_def f ret Let_def)
      moreover have b: "b = (let b = ?b2\<lparr>bl_prevHash := pre\<rparr>; b = b\<lparr>bl_merkleRoot := fe_merkle (xe_flow env) b\<rparr> in
        b\<lparr>bl_hash := fe_sha256 (xe_flow env) (fe_serialize (xe_flow env) b)\<rparr>)"
        using assms Some q pre by (simp add: CreateBlock_def f ret Let_def split: if_splits)
      moreover have "bl_prevHash b = pre" unfolding b by (simp add: Let_def)
      ultimately show ?thesis using that [of task p] Some q pre by simp
    qed
  qed
  define x where "x = ?b2\<lparr>bl_prevHash := bl_prevHash b, bl_merkleRoot := fe_merkle (xe_flow env) (?b2\<lparr>bl_prevHash := bl_prevHash b\<rparr>)\<rparr>"
  have bx: "b = x\<lparr>bl_hash := fe_sha256 (xe_flow env) (fe_serialize (xe_flow env) x)\<rparr>" using b by (simp add: x_def Let_def)
  have "bl_hash x = []" unfolding x_def b1 by (simp add: CBlock_new_def)
  then have "x\<lparr>bl_hash := []\<rparr> = x" by (cases x) simp
  then have "b\<lparr>bl_hash := []\<rparr> = x" by (subst bx) simp
  then have "bl_hash b = fe_sha256 (xe_flow env) (fe_serialize (xe_flow env) (b\<lparr>bl_hash := []\<rparr>))"
    using arg_cong [OF bx, of bl_hash] by simp
  moreover have "bl_txs b = txs" "bl_height b = h + 1" "bl_time b = foldl max 0 (map tx_time txs)"
    by (subst bx, simp add: x_def b1 CBlock_new_def)+
  ultimately show ?thesis using that t by blast
qed

lemma CreateBlock_waits:
  assumes "CreateBlock env fut s c txs h = (ret, b)" "ret = -3 \<or> ret = -4 \<or> ret = -5"
  obtains task where "GetPrehash h s = Some task" "fut task = None \<or> (\<exists>p. fut task = Some ([], p))"
  using assms fill_txs_ret [of c txs "CBlock_new\<lparr>bl_version := fe_block_version (xe_flow env), bl_height := h + 1\<rparr>" "[]"]
  by (auto simp: CreateBlock_def Let_def split: if_splits option.splits prod.splits)

lemma seek_heights_some: "seek_heights n v m = Ret (h, p) \<Longrightarrow> h \<noteq> [] \<Longrightarrow> p \<noteq> 0"
proof (induction n v m rule: seek_heights.induct)
  case (2 n v height votes m)
  obtain q g where "best_prehash n v (0, []) votes = Ret (q, g)" "(if 70 \<le> q then Ret (g, q) else seek_heights n v m) = Ret (h, p)"
    using 2(2) by (auto simp: run_simps)
  then show ?case using 2 by (auto split: if_splits)
qed simp

lemma BuildBlock_message:
  assumes "BuildBlock env fut now c txs h s = (ret, s', msgs)" "msg \<in> set msgs"
  obtains b where "CreateBlock env fut s c txs h = (0, b)" "bm_block msg = fe_serialize (xe_flow env) b" "msgs = [msg]" "s' = s"
proof -
  obtain rt b where cb: "CreateBlock env fut s c txs h = (rt, b)" by (cases "CreateBlock env fut s c txs h")
  have "rt = 0 \<and> bm_block msg = fe_serialize (xe_flow env) b \<and> msgs = [msg] \<and> s' = s"
    using assms cb by (auto simp: BuildBlock_def Let_def split: if_splits)
  then show ?thesis using that cb by blast
qed

text \<open>
  A block that is handed over contains exactly the given transactions in their order, has the next height and the time of the
  latest of them, and its previous hash is one that at least seven of ten answers to the lookup listed, when the
  lookup's future is the outcome of those answers.
\<close>

theorem built_block:
  assumes "BuildBlock env fut now c txs h s = (ret, s', msgs)" "msg \<in> set msgs"
    and "\<forall>task result. GetPrehash h s = Some task \<longrightarrow> fut task = Some result \<longrightarrow> seek_prehashes acks = Ret result"
    and "acks \<noteq> []" "length acks < 2 ^ 40" "length (concat (map spa_prehashes acks)) < 2 ^ 40"
  shows "\<exists>b. bm_block msg = fe_serialize (xe_flow env) b \<and> bl_txs b = txs \<and> bl_height b = h + 1 \<and>
    bl_time b = foldl max 0 (map tx_time txs) \<and>
    bl_hash b = fe_sha256 (xe_flow env) (fe_serialize (xe_flow env) (b\<lparr>bl_hash := []\<rparr>)) \<and>
    (\<exists>height. wins (length acks) (listed acks height) (bl_prevHash b))"
proof -
  obtain b where b: "CreateBlock env fut s c txs h = (0, b)" "bm_block msg = fe_serialize (xe_flow env) b"
    by (rule BuildBlock_message [OF assms(1,2)])
  obtain task p where t: "GetPrehash h s = Some task" "fut task = Some (bl_prevHash b, p)" "bl_prevHash b \<noteq> []"
    "bl_txs b = txs" "bl_height b = h + 1" "bl_time b = foldl max 0 (map tx_time txs)"
    "bl_hash b = fe_sha256 (xe_flow env) (fe_serialize (xe_flow env) (b\<lparr>bl_hash := []\<rparr>))"
    by (rule CreateBlock_result [OF b(1)])
  have r: "seek_prehashes acks = Ret (bl_prevHash b, p)" using assms(3) t(1,2) by blast
  then have "p \<noteq> 0" using t(3) seek_heights_some by (simp add: seek_prehashes_def)
  then have "\<exists>height. wins (length acks) (listed acks height) (bl_prevHash b)"
    using majority_answered [OF assms(4-6) r] by blast
  then show ?thesis using b(2) t by blast
qed

theorem built_block_witness:
  "\<exists>b :: CBlock. bl_txs b = [tn_tx one_entity] \<and> bl_height b = 8 \<and> (\<exists>height. wins 1 (listed [one_answer] height) (bl_prevHash b))"
proof -
  let ?s = "BlockStorage_new\<lparr>bs_preHashMap := [(7, 0)]\<rparr>"
  let ?fut = "\<lambda>n. Some (''h'', 100 :: nat)"
  let ?r = "BuildBlock small_tx_env ?fut 9 TransactionCache_new [tn_tx one_entity] 7 ?s"
  have "foldl seek_answer [] [one_answer] = [(3, [(''h'', 1)])]" by (simp add: seek_answer_def one_answer_def vote_for_def)
  then have r: "seek_prehashes [one_answer] = Ret (''h'', 100)" using percentage_one by (simp add: seek_prehashes_def Let_def)
  have m: "snd (snd ?r) \<noteq> []"
    by (simp add: BuildBlock_def CreateBlock_def GetPrehash_def is_contract_tx_def one_entity_def TX_TYPE_INVOKE_CONTRACT_def
      kTransactionTypeDeploy_def Let_def)
  obtain ret s' msgs where q: "?r = (ret, s', msgs)" by (metis prod_cases3)
  then obtain msg where "msg \<in> set msgs" using m by (cases msgs) auto
  have a: "length [one_answer] < 2 ^ 40" "length (concat (map spa_prehashes [one_answer])) < 2 ^ 40" "length [one_answer] = 1"
    by (simp_all add: one_answer_def)
  have f: "\<forall>task result. GetPrehash 7 ?s = Some task \<longrightarrow> ?fut task = Some result \<longrightarrow> seek_prehashes [one_answer] = Ret result"
    using r by simp
  obtain b :: CBlock where b: "bl_txs b = [tn_tx one_entity]" "bl_height b = 7 + 1"
      "\<exists>height. wins (length [one_answer]) (listed [one_answer] height) (bl_prevHash b)"
    using built_block [OF q \<open>msg \<in> set msgs\<close> f list.distinct(2) a(1,2)] by blast
  then show ?thesis unfolding a(3) by (intro exI [of _ b]) simp
qed

subsection \<open>A turn of the thread\<close>

text \<open>
  A turn hands over at most one block, of the whole pool, and then the pool is empty; the pool is kept only while the hash of
  the preceding block is not known, and otherwise given up, built or not.
\<close>

theorem turn_outcome:
  assumes "build_turn env fut rd nodes now c s = Ret (c', s', msgs)"
  shows "length msgs \<le> 1 \<and> (msgs \<noteq> [] \<longrightarrow> tc_transactionCache c' = []) \<and>
    (\<forall>msg\<in>set msgs. \<exists>b. bm_block msg = fe_serialize (xe_flow env) b \<and> bl_txs b = map tn_tx (tc_transactionCache c)) \<and>
    tc_contractCache c' = tc_contractCache c \<and>
    (tc_transactionCache c' = [] \<or> tc_transactionCache c' = tc_transactionCache c \<and>
      (\<exists>h s1 task. GetPrehash h s1 = Some task \<and> (fut task = None \<or> (\<exists>p. fut task = Some ([], p)))))"
proof (cases "tc_transactionCache c = []")
  case True
  then show ?thesis using assms by (simp add: build_turn_def)
next
  case False
  let ?c = "clearBuiltTransactions c" and ?txs = "map tn_tx (tc_transactionCache c)"
  have c: "tc_transactionCache ?c = tc_transactionCache c" "tc_contractCache ?c = tc_contractCache c"
    by (simp_all add: clearBuiltTransactions_def)
  obtain h where h: "get_build_block_height env rd nodes (tc_transactionCache c) = Ret h"
    using assms False c by (auto simp: build_turn_def Let_def run_simps)
  show ?thesis
  proof (cases "h < 0")
    case True
    then show ?thesis using assms False c h by (auto simp: build_turn_def Let_def)
  next
    case nn: False
    let ?h = "word_of_int h :: u64"
    obtain s1 where s1: "commitLookupTask ?h s = Ret s1" using assms False c h nn by (auto simp: build_turn_def Let_def run_simps)
    obtain ret s2 ms where b: "BuildBlock env fut now ?c ?txs ?h s1 = (ret, s2, ms)" by (metis prod_cases3)
    have r: "c' = (if ret = -103 \<or> ret = -104 \<or> ret = -105 then ?c else ?c\<lparr>tc_transactionCache := []\<rparr>)" "s' = s2" "msgs = ms"
      using assms False c h nn s1 b by (auto simp: build_turn_def Let_def)
    show ?thesis
    proof (cases "ret = -103 \<or> ret = -104 \<or> ret = -105")
      case True
      obtain rt b' where cb: "CreateBlock env fut s1 ?c ?txs ?h = (rt, b')" by (cases "CreateBlock env fut s1 ?c ?txs ?h")
      have rt: "rt = -3 \<or> rt = -4 \<or> rt = -5" and ms: "ms = []" using b cb True by (auto simp: BuildBlock_def Let_def split: if_splits)
      obtain task where "GetPrehash ?h s1 = Some task" "fut task = None \<or> (\<exists>p. fut task = Some ([], p))"
        by (rule CreateBlock_waits [OF cb rt])
      then show ?thesis using r True ms c by auto
    next
      case over: False
      have "length ms \<le> 1" using b by (auto simp: BuildBlock_def Let_def split: if_splits prod.splits)
      moreover have "\<exists>b. bm_block msg = fe_serialize (xe_flow env) b \<and> bl_txs b = ?txs" if m: "msg \<in> set ms" for msg
      proof -
        obtain x where x: "CreateBlock env fut s1 ?c ?txs ?h = (0, x)" "bm_block msg = fe_serialize (xe_flow env) x"
          by (rule BuildBlock_message [OF b m])
        have "bl_txs x = ?txs" by (rule CreateBlock_result [OF x(1)])
        then show ?thesis using x(2) by blast
      qed
      ultimately show ?thesis using r over c by auto
    qed
  qed
qed

theorem turn_outcome_witness:
  "\<exists>c' s' msgs. build_turn small_tx_env (\<lambda>n. Some (''h'', 100)) seven node_at_seven 9
     (TransactionCache_new\<lparr>tc_transactionCache := [one_entity]\<rparr>) BlockStorage_new = Ret (c', s', msgs) \<and> length msgs \<le> 1"
proof -
  have "\<exists>r. build_turn small_tx_env (\<lambda>n. Some (''h'', 100)) seven node_at_seven 9
     (TransactionCache_new\<lparr>tc_transactionCache := [one_entity]\<rparr>) BlockStorage_new = Ret r"
    by (simp add: build_turn_def clearBuiltTransactions_def height_seven commitLookupTask_def isSeekTask_def BlockStorage_new_def Let_def
      split: prod.split)
  then show ?thesis using turn_outcome by (metis prod_cases3)
qed

end
