(* ===== verification/EvmHost.thy ===== *)
theory EvmHost
  imports TrieStore
begin

text \<open>
  What the virtual machine sees of the node (\<open>ca/evm/evm_host.cpp\<close>, \<open>ca/evm/evm_host_data.hpp\<close>,
  \<open>utils/contract_utils.cpp\<close>): accounts with code and storage, transfers under way, nested calls. A
  bytes32 is a 256-bit word, an address a 160-bit word, code a byte string. Arguments are evmc's
  conversions to and from hexadecimal text, the Keccak hash, the machine itself, the precompiled
  contracts' results, and the balances and root hashes, which files outside the repository compute. The
  callbacks are \<open>noexcept\<close>: an exception ends the process.
\<close>

type_synonym evm_address = "160 word"
type_synonym bytes32 = "256 word"

definition noexcept :: "'a run \<Rightarrow> 'a run" where
  "noexcept r = (case r of Throw _ \<Rightarrow> Exit | _ \<Rightarrow> r)"

subsection \<open>Data\<close>

record StorageValue =
  sv_value :: bytes32
  sv_dirty :: bool
  sv_warm :: bool

definition StorageValue_new :: StorageValue where
  "StorageValue_new = \<lparr>sv_value = 0, sv_dirty = False, sv_warm = False\<rparr>"

text \<open>The trie of an account reads from the container of the transaction's group or, without one, from the database only.\<close>

record StateAccount =
  sa_code :: cxx_string
  sa_codehash :: bytes32
  sa_storage :: "bytes32 \<Rightarrow> StorageValue option"
  sa_storageRoot :: trie
  sa_attached :: bool

definition StateAccount_new :: StateAccount where
  "StateAccount_new = \<lparr>sa_code = [], sa_codehash = 0, sa_storage = Map.empty, sa_storageRoot = Trie_new [], sa_attached = False\<rparr>"

record TransferInfo =
  ti_from :: cxx_string
  ti_to :: cxx_string
  ti_amount :: u64

datatype call_kind = EVMC_CALL | EVMC_DELEGATECALL | EVMC_CALLCODE | EVMC_CREATE | EVMC_CREATE2

record evmc_message =
  em_kind :: call_kind
  em_gas :: "64 word"
  em_recipient :: evm_address
  em_sender :: evm_address
  em_input :: cxx_string
  em_value :: bytes32
  em_create2_salt :: bytes32
  em_code_address :: evm_address

datatype status_code = EVMC_SUCCESS | EVMC_FAILURE | EVMC_REVERT | EVMC_OTHER

record evmc_result =
  er_status :: status_code
  er_gas_left :: "64 word"
  er_output :: cxx_string
  er_create_address :: evm_address

definition make_result :: "status_code \<Rightarrow> 64 word \<Rightarrow> evmc_result" where
  "make_result status gas = \<lparr>er_status = status, er_gas_left = gas, er_output = [], er_create_address = 0\<rparr>"

record evmc_tx_context =
  tx_gas_price :: bytes32
  tx_origin :: evm_address
  block_coinbase :: evm_address
  block_number :: "64 word"
  block_timestamp :: "64 word"
  block_gas_limit :: "64 word"
  block_prev_randao :: bytes32
  chain_id :: bytes32
  block_base_fee :: bytes32

definition tx_context_new :: evmc_tx_context where
  "tx_context_new = \<lparr>tx_gas_price = 0, tx_origin = 0, block_coinbase = 0, block_number = 0, block_timestamp = 0,
     block_gas_limit = 0, block_prev_randao = 0, chain_id = 0, block_base_fee = 0\<rparr>"

record log_record =
  lg_creator :: evm_address
  lg_data :: cxx_string
  lg_topics :: "bytes32 list"

text \<open>\<open>eh_container\<close> tells whether the host was given the container of a group.\<close>

record evm_host =
  eh_accounts :: "evm_address \<Rightarrow> StateAccount option"
  eh_tx_context :: evmc_tx_context
  eh_recorded_blockhashes :: "64 word list"
  eh_recorded_account_accesses :: "evm_address list"
  eh_recorded_calls :: "evmc_message list"
  eh_callInputsRecorded :: "cxx_string list"
  eh_recorded_logs :: "log_record list"
  eh_recorded_selfdestructs :: "(evm_address \<times> evm_address) list"
  eh_code :: cxx_string
  eh_output :: cxx_string
  eh_dbSpendMap :: "(cxx_string, u64) std_map"
  eh_nonceCache :: "64 word"
  eh_createdContract :: "(cxx_string, cxx_string) std_map"
  eh_coinTransfersInProgress :: "TransferInfo list"
  eh_loadContract :: "cxx_string set"
  eh_container :: bool

definition EvmHost_new :: "bool \<Rightarrow> evm_host" where
  "EvmHost_new container = \<lparr>eh_accounts = Map.empty, eh_tx_context = tx_context_new, eh_recorded_blockhashes = [],
     eh_recorded_account_accesses = [], eh_recorded_calls = [], eh_callInputsRecorded = [], eh_recorded_logs = [],
     eh_recorded_selfdestructs = [], eh_code = [], eh_output = [], eh_dbSpendMap = [], eh_nonceCache = 0,
     eh_createdContract = [], eh_coinTransfersInProgress = [], eh_loadContract = {}, eh_container = container\<rparr>"

text \<open>The code's surroundings; \<open>ev_data\<close> is the content of the container, \<open>ev_rd\<close> the database.\<close>

record evm_env =
  ev_hex32 :: "bytes32 \<Rightarrow> cxx_string"
  ev_from_hex32 :: "cxx_string \<Rightarrow> bytes32 option"
  ev_hex20 :: "evm_address \<Rightarrow> cxx_string"
  ev_from_hex20 :: "cxx_string \<Rightarrow> evm_address option"
  ev_hex :: "cxx_string \<Rightarrow> cxx_string"
  ev_from_hex :: "cxx_string \<Rightarrow> cxx_string option"
  ev_keccak :: "cxx_string \<Rightarrow> cxx_string"
  ev_keccak_bytes :: "cxx_string \<Rightarrow> cxx_string"
  ev_GenerateAddr :: "cxx_string \<Rightarrow> cxx_string"
  ev_balance :: "cxx_string \<Rightarrow> cxx_string \<Rightarrow> int \<times> u64"
  ev_ASSET_TYPE_VOTE :: cxx_string
  ev_root :: "cxx_string \<Rightarrow> int \<times> cxx_string"
  ev_precompile :: "evmc_message \<Rightarrow> evmc_result option"
  ev_rd :: reader
  ev_data :: "(cxx_string, cxx_string) std_map"

subsection \<open>Conversions\<close>

definition tolower :: "char \<Rightarrow> char" where
  "tolower c = (let n = of_char c :: nat in if 65 \<le> n \<and> n \<le> 90 then char_of (n + 32) else c)"

definition toupper :: "char \<Rightarrow> char" where
  "toupper c = (let n = of_char c :: nat in if 97 \<le> n \<and> n \<le> 122 then char_of (n - 32) else c)"

text \<open>A digest has 64 characters, more than an address.\<close>

definition ToChecksumAddress :: "(cxx_string \<Rightarrow> cxx_string) \<Rightarrow> cxx_string \<Rightarrow> cxx_string" where
  "ToChecksumAddress keccak address =
     (let addressNoPrefix = map tolower (if take 2 address = ''0x'' then drop 2 address else address);
          hash = map tolower (keccak addressNoPrefix) in
      map (\<lambda>i. let c = addressNoPrefix ! i in
        if i < length hash \<and> 56 \<le> (of_char (hash ! i) :: nat) \<and> (of_char (hash ! i) :: nat) < 128 \<and>
           97 \<le> (of_char c :: nat) \<and> (of_char c :: nat) \<le> 102
        then toupper c else c) [0..<length addressNoPrefix])"

definition evm_addr_to_string :: "evm_env \<Rightarrow> evm_address \<Rightarrow> cxx_string" where
  "evm_addr_to_string env addr = ToChecksumAddress (ev_keccak env) (ev_hex20 env addr)"

definition convertStringToEvmAddress :: "evm_env \<Rightarrow> cxx_string \<Rightarrow> evm_address" where
  "convertStringToEvmAddress env addr = (case ev_from_hex20 env addr of None \<Rightarrow> 0 | Some a \<Rightarrow> a)"

definition convertPubStrToEvmAddr :: "evm_env \<Rightarrow> cxx_string \<Rightarrow> evm_address" where
  "convertPubStrToEvmAddr env pub = (case ev_from_hex20 env (ev_GenerateAddr env pub) of None \<Rightarrow> 0 | Some a \<Rightarrow> a)"

definition GenerateContractAddr :: "evm_env \<Rightarrow> cxx_string \<Rightarrow> cxx_string" where
  "GenerateContractAddr env input = ev_GenerateAddr env input"

definition GetEvmAddr :: "evm_env \<Rightarrow> cxx_string \<Rightarrow> cxx_string" where
  "GetEvmAddr env pub = ''0x'' @ ev_GenerateAddr env pub"

definition StringTobytes :: "evm_env \<Rightarrow> cxx_string \<Rightarrow> cxx_string" where
  "StringTobytes env content = (case ev_from_hex env content of None \<Rightarrow> [] | Some b \<Rightarrow> b)"

definition BytesToString :: "evm_env \<Rightarrow> cxx_string \<Rightarrow> cxx_string" where
  "BytesToString env content = ev_hex env content"

text \<open>Big-endian: the low bytes are the last ones, so the number is the word's.\<close>

definition convertUint32ToEvmcUint256be :: "u32 \<Rightarrow> bytes32" where
  "convertUint32ToEvmcUint256be x = ucast x"

definition evmc_uint256be_to_uint32 :: "bytes32 \<Rightarrow> u32" where
  "evmc_uint256be_to_uint32 value = ucast value"

definition GetContractCode :: "evm_env \<Rightarrow> cxx_string \<Rightarrow> (int \<times> cxx_string) run" where
  "GetContractCode env contractAddress =
     bind_run (getContractCodeByContractAddr (ev_rd env) contractAddress []) (\<lambda>(st, strCode).
       if st \<noteq> DB_SUCCESS then Ret (1, [])
       else let code = StringTobytes env strCode in
         if code = [] then Ret (-4, []) else Ret (0, code))"

subsection \<open>Accounts\<close>

text \<open>\<open>operator[]\<close> of the map of accounts.\<close>

definition account :: "evm_host \<Rightarrow> evm_address \<Rightarrow> StateAccount" where
  "account h addr = (case eh_accounts h addr of None \<Rightarrow> StateAccount_new | Some a \<Rightarrow> a)"

definition put_account :: "evm_address \<Rightarrow> StateAccount \<Rightarrow> evm_host \<Rightarrow> evm_host" where
  "put_account addr a h = h\<lparr>eh_accounts := (eh_accounts h)(addr \<mapsto> a)\<rparr>"

text \<open>The hash is copied over the first bytes of the old one, as far as it reaches.\<close>

fun store_bytes :: "nat \<Rightarrow> cxx_string \<Rightarrow> bytes32 \<Rightarrow> bytes32" where
  "store_bytes i [] w = w"
| "store_bytes i (c # cs) w =
     store_bytes (i + 1) cs (or (and w (not (push_bit (248 - 8 * i) 255))) (push_bit (248 - 8 * i) (of_nat (of_char c))))"

definition set_code :: "evm_env \<Rightarrow> cxx_string \<Rightarrow> StateAccount \<Rightarrow> StateAccount" where
  "set_code env code a = a\<lparr>sa_code := code, sa_codehash := store_bytes 0 (fromHex (ev_keccak env code)) (sa_codehash a)\<rparr>"

definition resolver_of :: "evm_env \<Rightarrow> StateAccount \<Rightarrow> resolver" where
  "resolver_of env a = DescendKey (ev_rd env) (if sa_attached a then Some (map_of (ev_data env)) else None)
     (tr_contractAddr (sa_storageRoot a))"

definition CreateTrie :: "evm_env \<Rightarrow> cxx_string \<Rightarrow> cxx_string \<Rightarrow> bool \<Rightarrow> StateAccount \<Rightarrow> StateAccount run" where
  "CreateTrie env rootHash ContractAddr container a =
     (let a = a\<lparr>sa_attached := container, sa_storageRoot := Trie_new ContractAddr\<rparr> in
      if rootHash = [] then Ret a
      else bind_run (Trie_open (resolver_of env a) rootHash ContractAddr) (\<lambda>t. Ret (a\<lparr>sa_storageRoot := t\<rparr>)))"

definition maxRecordedAccountAccesses :: nat where "maxRecordedAccountAccesses = 200"
definition max_recorded_calls :: nat where "max_recorded_calls = 100"

definition recordAccountAccess :: "evm_env \<Rightarrow> evm_address \<Rightarrow> evm_host \<Rightarrow> evm_host run" where
  "recordAccountAccess env addr h =
     (let h = (if length (eh_recorded_account_accesses h) < maxRecordedAccountAccesses
               then h\<lparr>eh_recorded_account_accesses := eh_recorded_account_accesses h @ [addr]\<rparr> else h) in
      if (case eh_accounts h addr of None \<Rightarrow> False | Some a \<Rightarrow> sa_code a \<noteq> []) then Ret h
      else bind_run (GetContractCode env (evm_addr_to_string env addr)) (\<lambda>(ret, code).
        if ret < 0 then Ret h
        else if code = [] then Ret h
        else Ret (put_account addr (set_code env code (account h addr)) h)))"

definition account_exists :: "evm_env \<Rightarrow> evm_address \<Rightarrow> evm_host \<Rightarrow> (bool \<times> evm_host) run" where
  "account_exists env addr h =
     bind_run (noexcept (recordAccountAccess env addr h)) (\<lambda>h. Ret (eh_accounts h addr \<noteq> None, h))"

subsection \<open>Storage\<close>

definition value_of_hex :: "evm_env \<Rightarrow> cxx_string \<Rightarrow> bytes32" where
  "value_of_hex env s = (case ev_from_hex32 env s of None \<Rightarrow> 0 | Some v \<Rightarrow> v)"

definition get_storage :: "evm_env \<Rightarrow> evm_address \<Rightarrow> bytes32 \<Rightarrow> evm_host \<Rightarrow> (bytes32 \<times> evm_host) run" where
  "get_storage env addr key h = noexcept (
     bind_run (recordAccountAccess env addr h) (\<lambda>h.
       case eh_accounts h addr of
         None \<Rightarrow> Ret (0, h)
       | Some a \<Rightarrow>
           bind_run (Get (resolver_of env a) (sa_storageRoot a) (ev_hex32 env key)) (\<lambda>(mptv, t).
             let h = put_account addr (a\<lparr>sa_storageRoot := t\<rparr>) h in
             if mptv \<noteq> [] then Ret (value_of_hex env mptv, h)
             else case sa_storage a key of
               Some sv \<Rightarrow> Ret (sv_value sv, h)
             | None \<Rightarrow> Ret (0, h))))"

datatype storage_status = EVMC_STORAGE_ASSIGNED | EVMC_STORAGE_ADDED | EVMC_STORAGE_DELETED | EVMC_STORAGE_MODIFIED

text \<open>A value the trie has is only replaced in the trie; the entry of the map keeps the value it had there before.\<close>

definition set_storage ::
    "evm_env \<Rightarrow> evm_address \<Rightarrow> bytes32 \<Rightarrow> bytes32 \<Rightarrow> evm_host \<Rightarrow> (storage_status \<times> evm_host) run" where
  "set_storage env addr key value h = noexcept (
     bind_run (recordAccountAccess env addr h) (\<lambda>h.
       let a = account h addr; rs = resolver_of env a;
           old = (case sa_storage a key of None \<Rightarrow> StorageValue_new | Some sv \<Rightarrow> sv) in
       bind_run (Get rs (sa_storageRoot a) (ev_hex32 env key)) (\<lambda>(mptv, t).
         if mptv \<noteq> [] then
           let old = old\<lparr>sv_value := value_of_hex env mptv\<rparr> in
           bind_run (if sv_value old \<noteq> value then Update rs t (ev_hex32 env key) (ev_hex32 env value) else Ret t) (\<lambda>t.
             Ret (EVMC_STORAGE_ADDED,
               put_account addr (a\<lparr>sa_storageRoot := t, sa_storage := (sa_storage a)(key \<mapsto> old\<lparr>sv_dirty := True\<rparr>)\<rparr>) h))
         else
           bind_run (Update rs t (ev_hex32 env key) (ev_hex32 env value)) (\<lambda>t.
             let put = (\<lambda>sv. put_account addr (a\<lparr>sa_storageRoot := t, sa_storage := (sa_storage a)(key \<mapsto> sv)\<rparr>) h) in
             if sv_value old = value then Ret (EVMC_STORAGE_ASSIGNED, put old)
             else Ret (if sv_dirty old then EVMC_STORAGE_ASSIGNED
                       else if sv_value old = 0 then EVMC_STORAGE_ADDED
                       else if value \<noteq> 0 then EVMC_STORAGE_MODIFIED else EVMC_STORAGE_DELETED,
                       put (old\<lparr>sv_dirty := True, sv_value := value\<rparr>))))))"

definition access_storage :: "evm_address \<Rightarrow> bytes32 \<Rightarrow> evm_host \<Rightarrow> bool \<times> evm_host" where
  "access_storage addr key h =
     (let a = account h addr; sv = (case sa_storage a key of None \<Rightarrow> StorageValue_new | Some sv \<Rightarrow> sv) in
      (sv_warm sv, put_account addr (a\<lparr>sa_storage := (sa_storage a)(key \<mapsto> sv\<lparr>sv_warm := True\<rparr>)\<rparr>) h))"

definition get_transient_storage :: "evm_address \<Rightarrow> bytes32 \<Rightarrow> evm_host \<Rightarrow> bytes32" where
  "get_transient_storage addr key h = 0"

definition set_transient_storage :: "evm_address \<Rightarrow> bytes32 \<Rightarrow> bytes32 \<Rightarrow> evm_host \<Rightarrow> evm_host" where
  "set_transient_storage addr key value h = h"

subsection \<open>Code and records\<close>

definition get_code_size :: "evm_env \<Rightarrow> evm_address \<Rightarrow> evm_host \<Rightarrow> (nat \<times> evm_host) run" where
  "get_code_size env addr h = bind_run (noexcept (recordAccountAccess env addr h)) (\<lambda>h.
     Ret (case eh_accounts h addr of None \<Rightarrow> 0 | Some a \<Rightarrow> length (sa_code a), h))"

definition get_code_hash :: "evm_env \<Rightarrow> evm_address \<Rightarrow> evm_host \<Rightarrow> (bytes32 \<times> evm_host) run" where
  "get_code_hash env addr h = bind_run (noexcept (recordAccountAccess env addr h)) (\<lambda>h.
     Ret (case eh_accounts h addr of None \<Rightarrow> 0 | Some a \<Rightarrow> sa_codehash a, h))"

text \<open>The copied bytes; their number is the answer.\<close>

definition copy_code :: "evm_env \<Rightarrow> evm_address \<Rightarrow> nat \<Rightarrow> nat \<Rightarrow> evm_host \<Rightarrow> (cxx_string \<times> evm_host) run" where
  "copy_code env addr code_offset buffer_size h = bind_run (noexcept (recordAccountAccess env addr h)) (\<lambda>h.
     Ret (case eh_accounts h addr of
         None \<Rightarrow> []
       | Some a \<Rightarrow> if length (sa_code a) \<le> code_offset then []
                  else take (min buffer_size (length (sa_code a) - code_offset)) (drop code_offset (sa_code a)), h))"

definition get_block_hash :: "64 word \<Rightarrow> evm_host \<Rightarrow> bytes32 \<times> evm_host" where
  "get_block_hash block_nr h = (0, h\<lparr>eh_recorded_blockhashes := eh_recorded_blockhashes h @ [block_nr]\<rparr>)"

definition emit_log :: "evm_address \<Rightarrow> cxx_string \<Rightarrow> bytes32 list \<Rightarrow> evm_host \<Rightarrow> evm_host" where
  "emit_log addr data topics h =
     h\<lparr>eh_recorded_logs := eh_recorded_logs h @ [\<lparr>lg_creator = addr, lg_data = data, lg_topics = topics\<rparr>]\<rparr>"

text \<open>\<open>True\<close> is warm.\<close>

definition access_account :: "evm_env \<Rightarrow> evm_address \<Rightarrow> evm_host \<Rightarrow> (bool \<times> evm_host) run" where
  "access_account env addr h =
     (let already_accessed = addr \<in> set (eh_recorded_account_accesses h) in
      bind_run (noexcept (recordAccountAccess env addr h)) (\<lambda>h.
        Ret (if 1 \<le> addr \<and> addr \<le> 9 then True else already_accessed, h)))"

subsection \<open>Transfers\<close>

text \<open>
  A payment is taken from the transfers under way to the payer first. The loop stops when one covers
  the rest; whenever one does not, the rest is charged to the payer's balance at once, also when a later
  transfer covers it. The last entry is added after the loop even for nothing.
\<close>

fun transfer_loop ::
    "evm_env \<Rightarrow> cxx_string \<Rightarrow> cxx_string \<Rightarrow> u64 \<Rightarrow> TransferInfo list \<Rightarrow> (cxx_string, u64) std_map \<Rightarrow> TransferInfo list \<Rightarrow>
     TransferInfo list \<Rightarrow> bool \<times> u64 \<times> TransferInfo list \<times> (cxx_string, u64) std_map \<times> TransferInfo list" where
  "transfer_loop env fromAddr toAddr amount acc spend info [] = (True, amount, acc, spend, info)"
| "transfer_loop env fromAddr toAddr amount acc spend info (iter # iters) =
     (if ti_amount iter = 0 \<or> ti_to iter \<noteq> fromAddr
      then transfer_loop env fromAddr toAddr amount (acc @ [iter]) spend info iters
      else if amount \<le> ti_amount iter then
        (True, 0, acc @ iter\<lparr>ti_amount := ti_amount iter - amount\<rparr> # iters, spend,
         info @ [\<lparr>ti_from = ti_from iter, ti_to = toAddr, ti_amount = amount\<rparr>])
      else
        let info = (if ti_from iter \<noteq> toAddr
                    then info @ [\<lparr>ti_from = ti_from iter, ti_to = toAddr, ti_amount = ti_amount iter\<rparr>] else info);
            amount = amount - ti_amount iter; acc = acc @ [iter\<lparr>ti_amount := 0\<rparr>];
            balance = snd (ev_balance env fromAddr (ev_ASSET_TYPE_VOTE env));
            spent_now = (case map_of spend fromAddr of None \<Rightarrow> 0 | Some v \<Rightarrow> v) + amount;
            spend = map_assign fromAddr spent_now spend in
        if balance < spent_now then (False, amount, acc @ iters, spend, info)
        else transfer_loop env fromAddr toAddr amount acc spend info iters)"

definition getContractTransfer ::
    "evm_env \<Rightarrow> u64 \<Rightarrow> cxx_string \<Rightarrow> cxx_string \<Rightarrow> evm_host \<Rightarrow> int \<times> TransferInfo list \<times> evm_host" where
  "getContractTransfer env amount fromAddr toAddr h =
     (if 0 < amount then
        case transfer_loop env fromAddr toAddr amount [] (eh_dbSpendMap h) [] (eh_coinTransfersInProgress h) of
          (ok, amount, transfers, spend, info) \<Rightarrow>
            (if ok then 0 else -1,
             if ok then info @ [\<lparr>ti_from = fromAddr, ti_to = toAddr, ti_amount = amount\<rparr>] else info,
             h\<lparr>eh_coinTransfersInProgress := transfers, eh_dbSpendMap := spend\<rparr>)
      else (0, [], h))"

definition get_balance :: "evm_env \<Rightarrow> evm_address \<Rightarrow> evm_host \<Rightarrow> (bytes32 \<times> evm_host) run" where
  "get_balance env addr h = bind_run (noexcept (recordAccountAccess env addr h)) (\<lambda>h.
     let Addr = evm_addr_to_string env addr; (ret, amount) = ev_balance env Addr (ev_ASSET_TYPE_VOTE env);
         amount = (if ret \<noteq> 0 then 0 else amount);
         amount = foldl (\<lambda>amount iter. if ti_to iter = Addr then amount + ti_amount iter else amount) amount
           (eh_coinTransfersInProgress h);
         amount = (case map_of (eh_dbSpendMap h) Addr of
           None \<Rightarrow> amount | Some spent \<Rightarrow> if spent \<le> amount then amount - spent else amount)
     in Ret (ucast amount, h))"

fun redirect :: "cxx_string \<Rightarrow> cxx_string \<Rightarrow> u64 \<Rightarrow> TransferInfo list \<Rightarrow> u64 \<times> TransferInfo list" where
  "redirect fromAddr toAddr amount [] = (amount, [])"
| "redirect fromAddr toAddr amount (iter # iters) =
     (if ti_amount iter \<noteq> 0 \<and> ti_to iter = fromAddr then
        let (amount, ts) = redirect fromAddr toAddr (amount - ti_amount iter) iters in (amount, iter\<lparr>ti_to := toAddr\<rparr> # ts)
      else let (amount, ts) = redirect fromAddr toAddr amount iters in (amount, iter # ts))"

definition selfdestruct :: "evm_env \<Rightarrow> evm_address \<Rightarrow> evm_address \<Rightarrow> evm_host \<Rightarrow> (bool \<times> evm_host) run" where
  "selfdestruct env addr beneficiary h =
     bind_run (noexcept (recordAccountAccess env addr h)) (\<lambda>h.
       let h = h\<lparr>eh_recorded_selfdestructs := eh_recorded_selfdestructs h @ [(addr, beneficiary)]\<rparr>;
           fromAddr = evm_addr_to_string env addr; toAddr = evm_addr_to_string env beneficiary in
       bind_run (get_balance env addr h) (\<lambda>(value, h).
         let (amount, ts) = redirect fromAddr toAddr (ucast value) (eh_coinTransfersInProgress h) in
         Ret (True, h\<lparr>eh_coinTransfersInProgress := ts @ [\<lparr>ti_from = fromAddr, ti_to = toAddr, ti_amount = amount\<rparr>]\<rparr>)))"

subsection \<open>Calls\<close>

definition bytes_of :: "nat \<Rightarrow> 'a::len word \<Rightarrow> cxx_string" where
  "bytes_of n w = map (\<lambda>i. char_of (unat (and (drop_bit (8 * (n - 1 - i)) w) 255))) [0..<n]"

definition calculateCreate2Address :: "evm_env \<Rightarrow> evmc_message \<Rightarrow> cxx_string" where
  "calculateCreate2Address env message =
     (let creationSeed = char_of (255 :: nat) # bytes_of 20 (em_sender message) @ bytes_of 32 (em_create2_salt message) @
            ev_keccak_bytes env (em_input message);
          addressBase = ev_keccak_bytes env creationSeed
      in evm_addr_to_string env (foldl (\<lambda>w c. push_bit 8 w + of_nat (of_char c)) 0 (take 20 (drop 12 addressBase))))"

definition record_call :: "evmc_message \<Rightarrow> evm_host \<Rightarrow> evm_host" where
  "record_call m h =
     (if length (eh_recorded_calls h) < max_recorded_calls
      then h\<lparr>eh_recorded_calls := eh_recorded_calls h @ [m],
             eh_callInputsRecorded := (if em_input m \<noteq> [] then eh_callInputsRecorded h @ [em_input m] else eh_callInputsRecorded h)\<rparr>
      else h)"

text \<open>
  Both kinds of calls up to the machine: an answer, or the message and code it is to run. For a new
  contract \<open>create_enter\<close>, and \<open>create_leave\<close> with the machine's answer; for the others \<open>call_enter\<close>.
\<close>

definition create_enter ::
    "evm_env \<Rightarrow> evmc_message \<Rightarrow> u64 \<Rightarrow> cxx_string \<Rightarrow> cxx_string \<Rightarrow> evm_host \<Rightarrow> (evmc_result + evmc_message) \<times> evm_host" where
  "create_enter env m amount fromAddr contractAddress h =
     (case getContractTransfer env amount fromAddr contractAddress h of (ret, info, h) \<Rightarrow>
      if ret \<noteq> 0 then (Inl (make_result EVMC_FAILURE (em_gas m)), h)
      else let h = h\<lparr>eh_coinTransfersInProgress := eh_coinTransfersInProgress h @ info\<rparr>;
               recipient = convertStringToEvmAddress env contractAddress;
               a = (account h recipient)\<lparr>sa_attached := False, sa_storageRoot := Trie_new (evm_addr_to_string env recipient)\<rparr>
           in (Inr (m\<lparr>em_recipient := recipient\<rparr>), put_account recipient a h))"

definition create_leave :: "evm_env \<Rightarrow> evmc_message \<Rightarrow> cxx_string \<Rightarrow> evmc_result \<Rightarrow> evm_host \<Rightarrow> evmc_result \<times> evm_host" where
  "create_leave env m contractAddress re h =
     (if er_status re \<noteq> EVMC_SUCCESS then (make_result EVMC_FAILURE (em_gas m), h)
      else let runtimeCode = ev_hex env (er_output re);
               h = h\<lparr>eh_createdContract := map_assign contractAddress runtimeCode (eh_createdContract h)\<rparr>;
               recipient = convertStringToEvmAddress env contractAddress in
        case ev_from_hex env runtimeCode of
          None \<Rightarrow> (make_result EVMC_FAILURE (em_gas m), h)
        | Some code \<Rightarrow> ((make_result EVMC_SUCCESS (em_gas m))\<lparr>er_create_address := recipient\<rparr>,
            put_account recipient (set_code env code (account h recipient)) h))"

definition is_create :: "evmc_message \<Rightarrow> bool" where
  "is_create m \<longleftrightarrow> em_kind m = EVMC_CREATE \<or> em_kind m = EVMC_CREATE2"

text \<open>The address of a new contract is made from the nonce that was just counted up.\<close>

definition new_address :: "evm_env \<Rightarrow> evmc_message \<Rightarrow> evm_host \<Rightarrow> cxx_string" where
  "new_address env m h =
     (if em_kind m = EVMC_CREATE then ev_GenerateAddr env (evm_addr_to_string env (em_sender m) @ to_string_signed (eh_nonceCache h))
      else calculateCreate2Address env m)"

definition load_account :: "evm_env \<Rightarrow> cxx_string \<Rightarrow> bool \<Rightarrow> evmc_message \<Rightarrow> evm_host \<Rightarrow> (bool \<times> evm_host) run" where
  "load_account env contractAddress new_contract m h =
     (if em_kind m = EVMC_CALL \<and> \<not> new_contract \<and> contractAddress \<notin> eh_loadContract h then
        let (ret, rootHash) = ev_root env contractAddress in
        if ret \<noteq> 0 then Ret (False, h)
        else bind_run (CreateTrie env rootHash contractAddress (eh_container h) (account h (em_recipient m))) (\<lambda>a.
          Ret (True, (put_account (em_recipient m) a h)\<lparr>eh_loadContract := insert contractAddress (eh_loadContract h)\<rparr>))
      else Ret (True, h))"

definition call_enter ::
    "evm_env \<Rightarrow> evmc_message \<Rightarrow> evm_host \<Rightarrow> ((evmc_result + cxx_string) \<times> evm_host) run" where
  "call_enter env m h =
     (let amount = (ucast (em_value m) :: u64); success = make_result EVMC_SUCCESS (em_gas m);
          failure = make_result EVMC_FAILURE (em_gas m);
          fromAddr = evm_addr_to_string env (em_sender m); toAddr = evm_addr_to_string env (em_code_address m) in
      case getContractTransfer env amount fromAddr toAddr h of (ret, info, h) \<Rightarrow>
      if ret \<noteq> 0 then Ret (Inl failure, h)
      else let h = h\<lparr>eh_coinTransfersInProgress := eh_coinTransfersInProgress h @ info\<rparr> in
      if em_input m = [] then Ret (Inl success, h)
      else case ev_precompile env m of
        Some re \<Rightarrow> Ret (Inl re, h)
      | None \<Rightarrow>
          bind_run (case map_of (eh_createdContract h) toAddr of
              Some runtimeCode \<Rightarrow> Ret (0, StringTobytes env runtimeCode)
            | None \<Rightarrow> GetContractCode env toAddr) (\<lambda>(foundResult, code).
            if 0 < foundResult then Ret (Inl success, h)
            else if foundResult < 0 then Ret (Inl failure, h)
            else bind_run (load_account env toAddr (map_of (eh_createdContract h) toAddr \<noteq> None) m h) (\<lambda>(ok, h).
              Ret (if ok then Inr code else Inl failure, h))))"

text \<open>\<open>exec\<close> is the machine, with the callbacks it makes.\<close>

definition call ::
    "evm_env \<Rightarrow> (evm_host \<Rightarrow> evmc_message \<Rightarrow> cxx_string \<Rightarrow> (evmc_result \<times> evm_host) run) \<Rightarrow> evmc_message \<Rightarrow> evm_host \<Rightarrow>
     (evmc_result \<times> evm_host) run" where
  "call env exec m h = noexcept (
     bind_run (recordAccountAccess env (em_recipient m) h) (\<lambda>h.
       let h = record_call m h in
       if em_code_address m \<in> fst ` set (eh_recorded_selfdestructs h) then Ret (make_result EVMC_FAILURE (em_gas m), h)
       else if is_create m then
         let h = h\<lparr>eh_nonceCache := eh_nonceCache h + 1\<rparr>; contractAddress = new_address env m h in
         case create_enter env m (ucast (em_value m)) (evm_addr_to_string env (em_sender m)) contractAddress h of
           (Inl re, h) \<Rightarrow> Ret (re, h)
         | (Inr createMessage, h) \<Rightarrow> bind_run (exec h createMessage (em_input m)) (\<lambda>(re, h).
             Ret (create_leave env m contractAddress re h))
       else bind_run (call_enter env m h) (\<lambda>(r, h).
         case r of Inl re \<Rightarrow> Ret (re, h) | Inr code \<Rightarrow> exec h m code)))"

end
