(* ===== verification/EvmProps.thy ===== *)
theory EvmProps
  imports EvmHost
begin

text \<open>
  Properties of the machine's surroundings: transfers keep the books, storage is read back as written,
  and two ways in which payments and writes get lost.
\<close>

subsection \<open>Transfers\<close>

text \<open>What an address gains by a list of transfers.\<close>

definition net :: "TransferInfo list \<Rightarrow> cxx_string \<Rightarrow> int" where
  "net ts x = sum_list (map (\<lambda>t. (if ti_to t = x then uint (ti_amount t) else 0) - (if ti_from t = x then uint (ti_amount t) else 0)) ts)"

lemma net_simps [simp]:
  "net [] x = 0"
  "net (t # ts) x = (if ti_to t = x then uint (ti_amount t) else 0) - (if ti_from t = x then uint (ti_amount t) else 0) + net ts x"
  "net (ts @ us) x = net ts x + net us x"
  by (simp_all add: net_def)

definition moved :: "cxx_string \<Rightarrow> cxx_string \<Rightarrow> u64 \<Rightarrow> cxx_string \<Rightarrow> int" where
  "moved f t a x = (if t = x then uint a else 0) - (if f = x then uint a else 0)"

lemma moved_0 [simp]: "moved f t 0 x = 0"
  by (simp add: moved_def)

lemma uint_sub: "(b :: u64) \<le> a \<Longrightarrow> uint (a - b) = uint a - uint b"
  by (simp add: uint_sub_if' word_le_def)

lemma moved_diff: "b \<le> a \<Longrightarrow> moved f t (a - b) x = moved f t a x - moved f t b x"
  by (simp add: moved_def uint_sub)

lemma transfer_loop_net:
  "transfer_loop env f t amount acc spend info iters = (True, amount', acc', spend', info') \<Longrightarrow>
   net (acc' @ info') x + moved f t amount' x = net (acc @ iters @ info) x + moved f t amount x"
proof (induction env f t amount acc spend info iters rule: transfer_loop.induct)
  case (2 env f t amount acc spend info iter iters)
  let ?a = "ti_amount iter"
  consider "?a = 0 \<or> ti_to iter \<noteq> f" | "?a \<noteq> 0" "ti_to iter = f" "amount \<le> ?a" | "?a \<noteq> 0" "ti_to iter = f" "?a < amount" by force
  then show ?case
  proof cases
    case 1
    then show ?thesis using 2 by simp
  next
    case 2
    have "amount' = 0" "acc' = acc @ iter\<lparr>ti_amount := ?a - amount\<rparr> # iters"
      "info' = info @ [\<lparr>ti_from = ti_from iter, ti_to = t, ti_amount = amount\<rparr>]"
      using "2.prems" 2 by auto
    then show ?thesis using 2 by (simp add: uint_sub moved_def)
  next
    case 3
    then have n: "\<not> amount \<le> ?a" "\<not> (?a = 0 \<or> ti_to iter \<noteq> f)" by auto
    let ?info = "if ti_from iter \<noteq> t then info @ [\<lparr>ti_from = ti_from iter, ti_to = t, ti_amount = ?a\<rparr>] else info"
    let ?now = "(case map_of spend f of None \<Rightarrow> 0 | Some v \<Rightarrow> v) + (amount - ?a)"
    have b: "\<not> snd (ev_balance env f (ev_ASSET_TYPE_VOTE env)) < ?now"
      and tail: "transfer_loop env f t (amount - ?a) (acc @ [iter\<lparr>ti_amount := 0\<rparr>]) (map_assign f ?now spend) ?info iters =
        (True, amount', acc', spend', info')"
      using "2.prems" n by (auto simp: Let_def split: if_splits)
    have "net (acc' @ info') x + moved f t amount' x =
        net ((acc @ [iter\<lparr>ti_amount := 0\<rparr>]) @ iters @ ?info) x + moved f t (amount - ?a) x"
      by (rule "2.IH" (2) [OF n(2,1) refl refl refl refl refl refl b tail])
    then show ?thesis using 3 by (simp add: moved_diff) (simp add: moved_def)
  qed
qed auto

lemma getContractTransfer_net:
  assumes "getContractTransfer env amount f t h = (0, info, h')"
  shows "net (eh_coinTransfersInProgress h' @ info) x = net (eh_coinTransfersInProgress h) x + moved f t amount x"
proof (cases "0 < amount")
  case False
  then have "amount = 0" by (simp add: word_gt_0)
  then show ?thesis using assms by (simp add: getContractTransfer_def)
next
  case True
  obtain ok a ts sp i where l: "transfer_loop env f t amount [] (eh_dbSpendMap h) [] (eh_coinTransfersInProgress h) = (ok, a, ts, sp, i)"
    by (metis prod_cases5)
  have ok: "ok" using assms True l by (auto simp: getContractTransfer_def split: if_splits)
  then have "info = i @ [\<lparr>ti_from = f, ti_to = t, ti_amount = a\<rparr>]" "eh_coinTransfersInProgress h' = ts"
    using assms True l by (auto simp: getContractTransfer_def)
  then show ?thesis using transfer_loop_net [OF l [unfolded ok [THEN eqTrueI]], of x] by (simp add: moved_def split: if_splits)
qed

subsection \<open>Accesses\<close>

definition db_answers :: "evm_env \<Rightarrow> bool" where
  "db_answers env \<longleftrightarrow> (\<forall>k v. \<exists>st s. ev_rd env k v = Ret (st, s))"

text \<open>The books of a host: what accesses to accounts leave alone.\<close>

definition same_books :: "evm_host \<Rightarrow> evm_host \<Rightarrow> bool" where
  "same_books h h' \<longleftrightarrow> eh_coinTransfersInProgress h' = eh_coinTransfersInProgress h \<and> eh_dbSpendMap h' = eh_dbSpendMap h \<and>
     eh_recorded_selfdestructs h' = eh_recorded_selfdestructs h \<and> eh_createdContract h' = eh_createdContract h \<and>
     eh_loadContract h' = eh_loadContract h \<and> eh_container h' = eh_container h \<and> eh_nonceCache h' = eh_nonceCache h"

text \<open>An access changes at most the code of the accessed account.\<close>

lemma access_result:
  assumes "recordAccountAccess env addr h = Ret h'"
  shows "same_books h h' \<and> (eh_accounts h' = eh_accounts h \<or>
    (\<exists>code. eh_accounts h' = (eh_accounts h)(addr \<mapsto> set_code env code (account h addr))))"
proof -
  define h0 where "h0 = (if length (eh_recorded_account_accesses h) < maxRecordedAccountAccesses
    then h\<lparr>eh_recorded_account_accesses := eh_recorded_account_accesses h @ [addr]\<rparr> else h)"
  have b: "same_books h h0" "eh_accounts h0 = eh_accounts h" by (simp_all add: h0_def same_books_def)
  have r: "recordAccountAccess env addr h = (if (case eh_accounts h0 addr of None \<Rightarrow> False | Some a \<Rightarrow> sa_code a \<noteq> []) then Ret h0
      else bind_run (GetContractCode env (evm_addr_to_string env addr)) (\<lambda>(ret, code).
        if ret < 0 then Ret h0 else if code = [] then Ret h0
        else Ret (put_account addr (set_code env code (account h0 addr)) h0)))"
    by (simp only: recordAccountAccess_def Let_def h0_def)
  consider "h' = h0" | code where "h' = put_account addr (set_code env code (account h0 addr)) h0"
    using assms unfolding r by (auto simp: run_simps split: if_splits)
  then show ?thesis
  proof cases
    case 1
    then show ?thesis using b by simp
  next
    case (2 code)
    have "account h0 addr = account h addr" by (simp add: account_def b)
    then have "eh_accounts h' = (eh_accounts h)(addr \<mapsto> set_code env code (account h addr))"
      using 2 b by (simp add: put_account_def)
    moreover have "same_books h h'" using 2 b(1) by (simp add: put_account_def same_books_def)
    ultimately show ?thesis by blast
  qed
qed

lemma set_code_keeps [simp]:
  "sa_storage (set_code env code a) = sa_storage a" "sa_storageRoot (set_code env code a) = sa_storageRoot a"
  "sa_attached (set_code env code a) = sa_attached a"
  by (simp_all add: set_code_def)

lemma resolver_set_code [simp]: "resolver_of env (set_code env code a) = resolver_of env a"
  by (simp add: resolver_of_def)

lemma access_account_kept:
  assumes "recordAccountAccess env addr h = Ret h'"
  shows "sa_storage (account h' x) = sa_storage (account h x) \<and> sa_storageRoot (account h' x) = sa_storageRoot (account h x) \<and>
    sa_attached (account h' x) = sa_attached (account h x) \<and> resolver_of env (account h' x) = resolver_of env (account h x) \<and>
    (eh_accounts h x \<noteq> None \<longrightarrow> eh_accounts h' x \<noteq> None)"
proof -
  consider "eh_accounts h' = eh_accounts h" | code where "eh_accounts h' = (eh_accounts h)(addr \<mapsto> set_code env code (account h addr))"
    using access_result [OF assms] by blast
  then show ?thesis
  proof cases
    case 1
    then show ?thesis by (simp add: account_def)
  next
    case (2 code)
    have "account h' x = (if x = addr then set_code env code (account h addr) else account h x)"
      unfolding account_def [of h'] 2 by (simp add: account_def)
    then show ?thesis using 2 by simp
  qed
qed

lemma access_returns:
  assumes "db_answers env"
  shows "\<exists>h'. recordAccountAccess env addr h = Ret h'"
proof -
  have "\<exists>r. GetContractCode env x = Ret r" for x
  proof -
    obtain st s where "ev_rd env (kContractAddrToContractCode @ x) [] = Ret (st, s)" using assms unfolding db_answers_def by blast
    then show ?thesis by (simp add: GetContractCode_def getContractCodeByContractAddr_def Let_def)
  qed
  then obtain ret code where g: "GetContractCode env (evm_addr_to_string env addr) = Ret (ret, code)" by (metis prod.collapse)
  show ?thesis unfolding recordAccountAccess_def Let_def g by (simp only: bind_run.simps case_prod_conv split: if_split) blast
qed

lemma noexcept_Ret [simp]: "noexcept r = Ret y \<longleftrightarrow> r = Ret y" "noexcept (Ret y) = Ret y"
  by (auto simp: noexcept_def split: run.splits)

subsection \<open>Payments\<close>

lemma load_account_transfers:
  "load_account env s n m h = Ret (ok, h') \<Longrightarrow> eh_coinTransfersInProgress h' = eh_coinTransfersInProgress h"
  by (auto simp: load_account_def run_simps put_account_def split: if_splits prod.splits)

lemma call_enter_transfers:
  assumes "call_enter env m h = Ret (r, h4)"
    and "getContractTransfer env (ucast (em_value m)) (evm_addr_to_string env (em_sender m)) (evm_addr_to_string env (em_code_address m)) h = (0, info, h2)"
  shows "eh_coinTransfersInProgress h4 = eh_coinTransfersInProgress h2 @ info"
proof -
  define h3 where "h3 = h2\<lparr>eh_coinTransfersInProgress := eh_coinTransfersInProgress h2 @ info\<rparr>"
  let ?s = "evm_addr_to_string env (em_code_address m)"
  have "h4 = h3 \<or> (\<exists>n ok. load_account env ?s n m h3 = Ret (ok, h4))"
    using assms(1) unfolding call_enter_def Let_def assms(2) prod.case h3_def [symmetric]
    by (auto simp: run_simps split: if_splits option.splits)
  then show ?thesis using load_account_transfers by (auto simp: h3_def)
qed

text \<open>A booking depends on the transfers and the charges only.\<close>

lemma getContractTransfer_same_books:
  assumes "eh_coinTransfersInProgress h1 = eh_coinTransfersInProgress h" "eh_dbSpendMap h1 = eh_dbSpendMap h"
  shows "fst (getContractTransfer env a f t h1) = fst (getContractTransfer env a f t h)"
    and "eh_coinTransfersInProgress (snd (snd (getContractTransfer env a f t h1))) = eh_coinTransfersInProgress (snd (snd (getContractTransfer env a f t h)))"
  by (simp_all add: getContractTransfer_def assms split: prod.splits)


text \<open>Surroundings for the examples: balances are zero, the database empty.\<close>

fun hex_nat :: "nat \<Rightarrow> nat \<Rightarrow> cxx_string" where
  "hex_nat 0 x = []"
| "hex_nat (Suc n) x = hex_nat n (x div 16) @ [hex_digits ! (x mod 16)]"

definition nat_hex :: "cxx_string \<Rightarrow> nat" where
  "nat_hex s = foldl (\<lambda>n c. 16 * n + (case fromHexChar c of None \<Rightarrow> 0 | Some d \<Rightarrow> d)) 0 s"

lemma hex_digit_table: "i < 16 \<Longrightarrow> is_hex (hex_digits ! i) \<and> fromHexChar (hex_digits ! i) = Some i"
proof -
  have "list_all (\<lambda>i. is_hex (hex_digits ! i) \<and> fromHexChar (hex_digits ! i) = Some i) [0..<16]"
    by (simp add: hex_digits_def is_hex_def fromHexChar_def byte_def upt_conv_Cons del: upt_Suc)
  then show "i < 16 \<Longrightarrow> ?thesis" by (simp add: list_all_iff)
qed

lemma hex_nat_key: "length (hex_nat n x) = n \<and> list_all is_hex (hex_nat n x)"
  by (induction n arbitrary: x) (auto simp: hex_digit_table)

lemma nat_hex_nat: "x < 16 ^ n \<Longrightarrow> nat_hex (hex_nat n x) = x"
proof (induction n arbitrary: x)
  case (Suc n)
  have "x div 16 < 16 ^ n" using Suc.prems by (simp add: less_mult_imp_div_less mult.commute)
  then show ?case using Suc.IH hex_digit_table [of "x mod 16"] by (simp add: nat_hex_def)
qed (simp add: nat_hex_def)

definition quiet_env :: evm_env where
  "quiet_env = \<lparr>ev_hex32 = (\<lambda>w. hex_nat 64 (unat w)), ev_from_hex32 = (\<lambda>s. Some (of_nat (nat_hex s))),
     ev_hex20 = (\<lambda>w. hex_nat 40 (unat w)), ev_from_hex20 = (\<lambda>s. Some (of_nat (nat_hex s))), ev_hex = toHex,
     ev_from_hex = (\<lambda>s. Some (fromHex s)), ev_keccak = (\<lambda>s. []), ev_keccak_bytes = (\<lambda>s. []), ev_GenerateAddr = (\<lambda>s. s),
     ev_balance = (\<lambda>a t. (0, 0)), ev_ASSET_TYPE_VOTE = ''Vote'', ev_root = (\<lambda>a. (0, [])), ev_precompile = (\<lambda>m. None),
     ev_rd = (\<lambda>k v. Ret (DB_NOT_FOUND, v)), ev_data = []\<rparr>"

definition pay_message :: evmc_message where
  "pay_message = \<lparr>em_kind = EVMC_CALL, em_gas = 0, em_recipient = 2, em_sender = 1, em_input = [], em_value = 5,
     em_create2_salt = 0, em_code_address = 2\<rparr>"

lemma quiet_answers: "db_answers quiet_env"
  by (simp add: db_answers_def quiet_env_def)

text \<open>The addresses of different numbers differ, as long as no letter is changed to upper case.\<close>

lemma quiet_checksum: "ToChecksumAddress (\<lambda>s. []) s = map tolower (if take 2 s = ''0x'' then drop 2 s else s)"
  by (rule nth_equalityI) (simp_all add: ToChecksumAddress_def Let_def)

lemma tolower_hex: "list_all is_hex s \<Longrightarrow> map tolower s = s"
  by (induction s) (auto simp: is_hex_def tolower_def)

lemma quiet_address: "evm_addr_to_string quiet_env a = hex_nat 40 (unat a)"
proof -
  have l: "list_all is_hex (hex_nat 40 (unat a))" using hex_nat_key by blast
  have "take 2 (hex_nat 40 (unat a)) \<noteq> ''0x''"
  proof
    assume "take 2 (hex_nat 40 (unat a)) = ''0x''"
    then have "CHR ''x'' \<in> set (take 2 (hex_nat 40 (unat a)))" by simp
    then have "CHR ''x'' \<in> set (hex_nat 40 (unat a))" by (rule in_set_takeD)
    then have "is_hex (CHR ''x'')" using l unfolding list_all_iff by blast
    then show False by (simp add: is_hex_def)
  qed
  then show ?thesis using tolower_hex [OF l] by (simp add: evm_addr_to_string_def quiet_env_def quiet_checksum)
qed

lemma quiet_address_inject: "evm_addr_to_string quiet_env a = evm_addr_to_string quiet_env b \<longleftrightarrow> a = b"
proof -
  have "unat x < 16 ^ 40" for x :: evm_address using unsigned_less [of x, where 'a = nat] by simp
  then show ?thesis unfolding quiet_address by (metis nat_hex_nat word_unat_eq_iff)
qed

lemma call_enter_empty: "em_input m = [] \<Longrightarrow> \<exists>re h'. call_enter env m h = Ret (Inl re, h')"
  by (cases "getContractTransfer env (ucast (em_value m)) (evm_addr_to_string env (em_sender m)) (evm_addr_to_string env (em_code_address m)) h")
    (simp add: call_enter_def Let_def)

text \<open>A machine that pays on before it reverts: a call with code at address 2, which calls address 3.\<close>

definition running_message :: evmc_message where
  "running_message = pay_message\<lparr>em_input := ''run''\<rparr>"

definition nested_message :: evmc_message where
  "nested_message = pay_message\<lparr>em_sender := 2, em_recipient := 3, em_code_address := 3, em_value := 3\<rparr>"

definition paying_machine :: "evm_host \<Rightarrow> evmc_message \<Rightarrow> cxx_string \<Rightarrow> (evmc_result \<times> evm_host) run" where
  "paying_machine h m code = bind_run (call quiet_env (\<lambda>h m code. Undefined) nested_message h) (\<lambda>(re, h). Ret (make_result EVMC_REVERT 0, h))"

definition contract_host :: evm_host where
  "contract_host = (EvmHost_new True)\<lparr>eh_createdContract := [(evm_addr_to_string quiet_env 2, ''00'')]\<rparr>"


text \<open>The balance the machine is told.\<close>

definition told_balance :: "evm_env \<Rightarrow> cxx_string \<Rightarrow> evm_host \<Rightarrow> u64" where
  "told_balance env x h = (let (ret, amount) = ev_balance env x (ev_ASSET_TYPE_VOTE env); amount = (if ret \<noteq> 0 then 0 else amount);
     amount = foldl (\<lambda>amount iter. if ti_to iter = x then amount + ti_amount iter else amount) amount (eh_coinTransfersInProgress h)
   in (case map_of (eh_dbSpendMap h) x of None \<Rightarrow> amount | Some spent \<Rightarrow> if spent \<le> amount then amount - spent else amount))"

lemma get_balance_told:
  assumes "db_answers env"
  shows "\<exists>h'. get_balance env addr h = Ret (ucast (told_balance env (evm_addr_to_string env addr) h), h')"
proof -
  obtain h1 where h1: "recordAccountAccess env addr h = Ret h1" using access_returns [OF assms] by blast
  have b: "eh_coinTransfersInProgress h1 = eh_coinTransfersInProgress h" "eh_dbSpendMap h1 = eh_dbSpendMap h"
    using access_result [OF h1] by (simp_all add: same_books_def)
  obtain ret amount where "ev_balance env (evm_addr_to_string env addr) (ev_ASSET_TYPE_VOTE env) = (ret, amount)" by force
  then show ?thesis by (simp only: get_balance_def h1 told_balance_def Let_def noexcept_Ret bind_run.simps prod.case b) blast
qed

fun repeat_call ::
    "nat \<Rightarrow> evm_env \<Rightarrow> (evm_host \<Rightarrow> evmc_message \<Rightarrow> cxx_string \<Rightarrow> (evmc_result \<times> evm_host) run) \<Rightarrow> evmc_message \<Rightarrow> evm_host \<Rightarrow>
     (status_code list \<times> evm_host) run" where
  "repeat_call 0 env exec m h = Ret ([], h)"
| "repeat_call (Suc n) env exec m h =
     bind_run (call env exec m h) (\<lambda>(re, h). bind_run (repeat_call n env exec m h) (\<lambda>(ss, h). Ret (er_status re # ss, h)))"

lemma transfer_loop_none:
  "\<forall>t\<in>set iters. ti_amount t = 0 \<or> ti_to t \<noteq> f \<Longrightarrow>
   transfer_loop env f t amount acc spend info iters = (True, amount, acc @ iters, spend, info)"
  by (induction env f t amount acc spend info iters rule: transfer_loop.induct) auto

lemma told_balance_skip:
  "eh_coinTransfersInProgress h' = eh_coinTransfersInProgress h @ ts \<Longrightarrow> \<forall>t\<in>set ts. ti_to t \<noteq> x \<Longrightarrow>
   eh_dbSpendMap h' = eh_dbSpendMap h \<Longrightarrow> told_balance env x h' = told_balance env x h"
proof -
  have "\<forall>t\<in>set ts. ti_to t \<noteq> x \<Longrightarrow> foldl (\<lambda>a iter. if ti_to iter = x then a + ti_amount iter else a) a ts = a" for a
    by (induction ts arbitrary: a) auto
  then show "eh_coinTransfersInProgress h' = eh_coinTransfersInProgress h @ ts \<Longrightarrow> \<forall>t\<in>set ts. ti_to t \<noteq> x \<Longrightarrow>
   eh_dbSpendMap h' = eh_dbSpendMap h \<Longrightarrow> told_balance env x h' = told_balance env x h"
    by (simp add: told_balance_def)
qed

lemma call_plain_payment:
  fixes env m
  defines "f \<equiv> evm_addr_to_string env (em_sender m)" and "t \<equiv> evm_addr_to_string env (em_code_address m)"
    and "a \<equiv> ucast (em_value m) :: u64"
  assumes "db_answers env" "\<not> is_create m" "em_input m = []" "a \<noteq> 0"
    and "em_code_address m \<notin> fst ` set (eh_recorded_selfdestructs h)" "\<forall>t\<in>set (eh_coinTransfersInProgress h). ti_to t \<noteq> f"
  shows "\<exists>h'. call env exec m h = Ret (make_result EVMC_SUCCESS (em_gas m), h') \<and> eh_dbSpendMap h' = eh_dbSpendMap h \<and>
    eh_recorded_selfdestructs h' = eh_recorded_selfdestructs h \<and>
    eh_coinTransfersInProgress h' = eh_coinTransfersInProgress h @ [\<lparr>ti_from = f, ti_to = t, ti_amount = a\<rparr>]"
proof -
  obtain h1 where h1: "recordAccountAccess env (em_recipient m) h = Ret h1" using access_returns [OF assms(4)] by blast
  define h2 where "h2 = record_call m h1"
  have b: "eh_coinTransfersInProgress h2 = eh_coinTransfersInProgress h" "eh_dbSpendMap h2 = eh_dbSpendMap h"
    "eh_recorded_selfdestructs h2 = eh_recorded_selfdestructs h"
    using access_result [OF h1] by (simp_all add: h2_def same_books_def record_call_def)
  have g: "getContractTransfer env a f t h2 = (0, [\<lparr>ti_from = f, ti_to = t, ti_amount = a\<rparr>], h2)"
    using assms(7,9) transfer_loop_none [of "eh_coinTransfersInProgress h2" f env t a "[]" "eh_dbSpendMap h2" "[]"]
    by (simp add: getContractTransfer_def b word_gt_0)
  have "call_enter env m h2 = Ret (Inl (make_result EVMC_SUCCESS (em_gas m)),
      h2\<lparr>eh_coinTransfersInProgress := eh_coinTransfersInProgress h2 @ [\<lparr>ti_from = f, ti_to = t, ti_amount = a\<rparr>]\<rparr>)"
    using g assms(6) by (simp add: call_enter_def Let_def f_def t_def a_def)
  then have "call env exec m h = Ret (make_result EVMC_SUCCESS (em_gas m),
      h2\<lparr>eh_coinTransfersInProgress := eh_coinTransfersInProgress h2 @ [\<lparr>ti_from = f, ti_to = t, ti_amount = a\<rparr>]\<rparr>)"
    using assms(5,8) b(3) by (simp add: call_def h1 Let_def h2_def [symmetric])
  then show ?thesis using b by simp
qed

text \<open>A machine that returns at once, for the concrete calls.\<close>

definition idle_machine :: "evm_host \<Rightarrow> evmc_message \<Rightarrow> cxx_string \<Rightarrow> (evmc_result \<times> evm_host) run" where
  "idle_machine h m code = Ret (make_result EVMC_SUCCESS (em_gas m), h)"



subsection \<open>Storage\<close>

text \<open>What evmc documents of its hexadecimal text of a word.\<close>

definition hex_laws :: "evm_env \<Rightarrow> bool" where
  "hex_laws env \<longleftrightarrow> (\<forall>k. hex_key 64 (ev_hex32 env k)) \<and> (\<forall>v. ev_from_hex32 env (ev_hex32 env v) = Some v)"

lemma quiet_hex: "hex_laws quiet_env"
proof -
  have "hex_key 64 (hex_nat 64 x)" for x using hex_nat_key [of 64 x] by (simp add: hex_key_def)
  moreover have "unat v < 16 ^ 64" for v :: bytes32 using unsigned_less [of v, where 'a = nat] by simp
  then have "of_nat (nat_hex (hex_nat 64 (unat v))) = v" for v :: bytes32 by (simp add: nat_hex_nat)
  ultimately show ?thesis by (simp add: hex_laws_def quiet_env_def)
qed

lemma hex32_inject: "hex_laws env \<Longrightarrow> ev_hex32 env k = ev_hex32 env k' \<longleftrightarrow> k = k'"
  by (metis hex_laws_def option.inject)

text \<open>The value of a key: what the trie holds or else the entry of the map.\<close>

definition storage_value :: "evm_env \<Rightarrow> StateAccount \<Rightarrow> (cxx_string \<Rightarrow> cxx_string option) \<Rightarrow> bytes32 \<Rightarrow> bytes32" where
  "storage_value env a m key = (case (case m (ev_hex32 env key) of None \<Rightarrow> [] | Some d \<Rightarrow> d) of
     [] \<Rightarrow> (case sa_storage a key of Some sv \<Rightarrow> sv_value sv | None \<Rightarrow> 0) | s \<Rightarrow> value_of_hex env s)"

lemma get_storage_value:
  assumes "db_answers env" "hex_laws env" "trie_holds (resolver_of env (account h addr)) 64 (sa_storageRoot (account h addr)) m"
    and "eh_accounts h addr \<noteq> None"
  shows "\<exists>h'. get_storage env addr key h = Ret (storage_value env (account h addr) m key, h')"
proof -
  obtain h1 where h1: "recordAccountAccess env addr h = Ret h1" using access_returns [OF assms(1)] by blast
  note k = access_account_kept [OF h1, of addr]
  obtain a where a: "eh_accounts h1 addr = Some a" "account h1 addr = a" using k assms(4) by (auto simp: account_def)
  have t: "trie_holds (resolver_of env a) 64 (sa_storageRoot a) m" using assms(3) k a(2) by simp
  have "hex_key 64 (ev_hex32 env key)" using assms(2) by (simp add: hex_laws_def)
  from Get_holds [OF t this] obtain t' where
    g: "Get (resolver_of env a) (sa_storageRoot a) (ev_hex32 env key) = Ret (case m (ev_hex32 env key) of None \<Rightarrow> [] | Some d \<Rightarrow> d, t')" by blast
  have "sa_storage a = sa_storage (account h addr)" using k a(2) by simp
  then show ?thesis
    by (cases "case m (ev_hex32 env key) of None \<Rightarrow> [] | Some d \<Rightarrow> d")
      (simp_all add: get_storage_def h1 a(1) g storage_value_def split: option.split)
qed

lemma Get_contractAddr:
  assumes "Get rs t key = Ret (v, t')"
  shows "tr_contractAddr t' = tr_contractAddr t"
proof -
  obtain vn nn where c: "(case vn of
         Some (ValueNode d) \<Rightarrow> Ret (d, t\<lparr>tr_root := nn\<rparr>)
       | Some _ \<Rightarrow> Undefined
       | None \<Rightarrow>
           Ret ([], case tr_root t of
               Some (HashNode _) \<Rightarrow> t
             | _ \<Rightarrow> if nn \<noteq> None then t\<lparr>tr_root := nn\<rparr> else t)) = Ret (v, t')"
  proof -
    obtain k r where "bind_run (case Get_node rs (tr_root t) k 0 of None \<Rightarrow> Diverge | Some r \<Rightarrow> r) (\<lambda>(valueNode, newNode).
       case valueNode of
         Some (ValueNode d) \<Rightarrow> Ret (d, t\<lparr>tr_root := newNode\<rparr>)
       | Some _ \<Rightarrow> Undefined
       | None \<Rightarrow>
           Ret ([], case tr_root t of
               Some (HashNode _) \<Rightarrow> t
             | _ \<Rightarrow> if newNode \<noteq> None then t\<lparr>tr_root := newNode\<rparr> else t)) = Ret (v, t')"
      using assms unfolding Get_def bind_run_eq_Ret [of "wrapperKey key"] by blast
    then obtain r where "(\<lambda>(valueNode, newNode).
       case valueNode of
         Some (ValueNode d) \<Rightarrow> Ret (d, t\<lparr>tr_root := newNode\<rparr>)
       | Some _ \<Rightarrow> Undefined
       | None \<Rightarrow>
           Ret ([], case tr_root t of
               Some (HashNode _) \<Rightarrow> t
             | _ \<Rightarrow> if newNode \<noteq> None then t\<lparr>tr_root := newNode\<rparr> else t)) r = Ret (v, t')"
      unfolding bind_run_eq_Ret by blast
    then show ?thesis by (cases r) (rule that, simp only: prod.case)
  qed
  show ?thesis
  proof (cases vn)
    case None
    then show ?thesis using c by (cases "tr_root t"; cases "the (tr_root t)") (auto split: if_splits)
  next
    case (Some n)
    then show ?thesis using c by (cases n) auto
  qed
qed

lemma set_storage_result:
  assumes "db_answers env" "hex_laws env" "trie_holds (resolver_of env (account h addr)) 64 (sa_storageRoot (account h addr)) m"
  shows "\<exists>st h' m'. set_storage env addr key value h = Ret (st, h') \<and> eh_accounts h' addr \<noteq> None \<and> same_books h h' \<and>
    trie_holds (resolver_of env (account h' addr)) 64 (sa_storageRoot (account h' addr)) m' \<and>
    (\<forall>k. storage_value env (account h' addr) m' k = (if k = key then value else storage_value env (account h addr) m k))"
proof -
  let ?k = "ev_hex32 env key" and ?v = "ev_hex32 env value"
  have hk: "hex_key 64 ?k" and hk': "hex_key 64 ?v" and fv: "value_of_hex env ?v = value"
    using assms(2) by (auto simp: hex_laws_def value_of_hex_def)
  have hv: "?v \<noteq> []" using hk' by (auto simp: hex_key_def)
  have inj: "ev_hex32 env k = ?k \<longleftrightarrow> k = key" for k using hex32_inject [OF assms(2)] by blast
  obtain h1 where h1: "recordAccountAccess env addr h = Ret h1" using access_returns [OF assms(1)] by blast
  note kept = access_account_kept [OF h1, of addr]
  define a where "a = account h1 addr"
  define rs where "rs = resolver_of env a"
  have t: "trie_holds rs 64 (sa_storageRoot a) m" using assms(3) kept by (simp add: a_def rs_def)
  obtain t1 where g: "Get rs (sa_storageRoot a) ?k = Ret (case m ?k of None \<Rightarrow> [] | Some d \<Rightarrow> d, t1)" and t1: "trie_holds rs 64 t1 m"
    using Get_holds [OF t hk] by blast
  obtain t2 where u: "Update rs t1 ?k ?v = Ret t2" and t2: "trie_holds rs 64 t2 (m(?k \<mapsto> ?v))"
    "tr_contractAddr t2 = tr_contractAddr t1" using Update_holds [OF t1 hk hv] by blast
  have c: "tr_contractAddr t1 = tr_contractAddr (sa_storageRoot a)"
    by (rule Get_contractAddr [OF g])
  have r: "resolver_of env (a\<lparr>sa_storageRoot := t', sa_storage := st\<rparr>) = rs" if "tr_contractAddr t' = tr_contractAddr t1" for t' st
    using that c by (simp add: resolver_of_def rs_def)
  have val: "storage_value env (account h addr) m k = storage_value env a m k" for k
  proof -
    have "sa_storage a = sa_storage (account h addr)" using kept by (simp add: a_def)
    then show ?thesis unfolding storage_value_def by (rule ssubst) (rule refl)
  qed
  have b: "same_books h (put_account addr a' h1)" for a' using access_result [OF h1] by (simp add: same_books_def put_account_def)
  have put: ?thesis if "set_storage env addr key value h = Ret (st, put_account addr (a\<lparr>sa_storageRoot := t', sa_storage := S\<rparr>) h1)"
    "trie_holds rs 64 t' m'" "tr_contractAddr t' = tr_contractAddr t1"
    "\<forall>k. storage_value env (a\<lparr>sa_storageRoot := t', sa_storage := S\<rparr>) m' k = (if k = key then value else storage_value env a m k)"
    for st t' S m'
  proof -
    have "account (put_account addr (a\<lparr>sa_storageRoot := t', sa_storage := S\<rparr>) h1) addr = a\<lparr>sa_storageRoot := t', sa_storage := S\<rparr>"
      by (simp add: account_def put_account_def)
    then show ?thesis using that b r [OF that(3)] val by (intro exI conjI) (auto simp: put_account_def)
  qed
  define old where "old = (case sa_storage a key of None \<Rightarrow> StorageValue_new | Some sv \<Rightarrow> sv)"
  have other: "storage_value env (a\<lparr>sa_storageRoot := t', sa_storage := (sa_storage a)(key \<mapsto> sv)\<rparr>) (m(?k \<mapsto> ?v)) k =
      (if k = key then value else storage_value env a m k)" for t' sv k
    using hv fv inj [of k] by (auto simp: storage_value_def split: list.split)
  show ?thesis
  proof (cases "case m ?k of None \<Rightarrow> [] | Some d \<Rightarrow> d")
    case Nil
    have "set_storage env addr key value h = Ret (if sv_value old = value then EVMC_STORAGE_ASSIGNED
        else if sv_dirty old then EVMC_STORAGE_ASSIGNED else if sv_value old = 0 then EVMC_STORAGE_ADDED
        else if value \<noteq> 0 then EVMC_STORAGE_MODIFIED else EVMC_STORAGE_DELETED,
      put_account addr (a\<lparr>sa_storageRoot := t2, sa_storage := (sa_storage a)(key \<mapsto>
        if sv_value old = value then old else old\<lparr>sv_dirty := True, sv_value := value\<rparr>)\<rparr>) h1)"
      using Nil g u by (simp add: set_storage_def h1 Let_def a_def [symmetric] rs_def [symmetric] old_def [symmetric])
    then show ?thesis by (rule put [OF _ t2]) (simp add: other)
  next
    case (Cons x xs)
    then obtain d where d: "m ?k = Some d" "d \<noteq> []" by (cases "m ?k") auto
    let ?sv = "old\<lparr>sv_value := value_of_hex env d, sv_dirty := True\<rparr>"
    show ?thesis
    proof (cases "value_of_hex env d = value")
      case True
      have "set_storage env addr key value h =
          Ret (EVMC_STORAGE_ADDED, put_account addr (a\<lparr>sa_storageRoot := t1, sa_storage := (sa_storage a)(key \<mapsto> ?sv)\<rparr>) h1)"
        using True d g by (simp add: set_storage_def h1 Let_def a_def [symmetric] rs_def [symmetric] old_def [symmetric])
      moreover have "\<forall>k. storage_value env (a\<lparr>sa_storageRoot := t1, sa_storage := (sa_storage a)(key \<mapsto> ?sv)\<rparr>) m k =
          (if k = key then value else storage_value env a m k)"
        using True d by (auto simp: storage_value_def split: list.split)
      ultimately show ?thesis using t1 by (intro put) auto
    next
      case False
      have "set_storage env addr key value h =
          Ret (EVMC_STORAGE_ADDED, put_account addr (a\<lparr>sa_storageRoot := t2, sa_storage := (sa_storage a)(key \<mapsto> ?sv)\<rparr>) h1)"
        using False d g u by (simp add: set_storage_def h1 Let_def a_def [symmetric] rs_def [symmetric] old_def [symmetric])
      then show ?thesis by (rule put [OF _ t2]) (simp add: other)
    qed
  qed
qed

text \<open>
  C28. Storage is read back as written: a write always succeeds and afterwards the written key has the written value, zero included, and
  every other key the value it had, whether the values came from the store, the trie or the entries of the account.
\<close>

theorem storage_read_back:
  assumes "db_answers env" "hex_laws env" "trie_holds (resolver_of env (account h addr)) 64 (sa_storageRoot (account h addr)) m"
    and "eh_accounts h addr \<noteq> None"
  shows "\<exists>st h'. set_storage env addr key value h = Ret (st, h') \<and>
    (\<exists>h2. get_storage env addr key h' = Ret (value, h2)) \<and>
    (\<forall>k. k \<noteq> key \<longrightarrow> (\<exists>v h1 h2. get_storage env addr k h = Ret (v, h1) \<and> get_storage env addr k h' = Ret (v, h2)))"
proof -
  obtain st h' m' where s: "set_storage env addr key value h = Ret (st, h')" "eh_accounts h' addr \<noteq> None"
    "trie_holds (resolver_of env (account h' addr)) 64 (sa_storageRoot (account h' addr)) m'"
    "\<forall>k. storage_value env (account h' addr) m' k = (if k = key then value else storage_value env (account h addr) m k)"
    using set_storage_result [OF assms(1-3)] by blast
  have after: "\<exists>h2. get_storage env addr k h' = Ret (if k = key then value else storage_value env (account h addr) m k, h2)" for k
    using get_storage_value [OF assms(1,2) s(3,2), of k] s(4) by simp
  have before: "\<exists>h1. get_storage env addr k h = Ret (storage_value env (account h addr) m k, h1)" for k
    by (rule get_storage_value [OF assms])
  have "\<exists>h2. get_storage env addr key h' = Ret (value, h2)" using after [of key] by simp
  moreover have "\<exists>v h1 h2. get_storage env addr k h = Ret (v, h1) \<and> get_storage env addr k h' = Ret (v, h2)" if "k \<noteq> key" for k
    using before [of k] after [of k] that by auto
  ultimately show ?thesis using s(1) by blast
qed

definition fresh_host :: evm_host where
  "fresh_host = put_account 2 StateAccount_new (EvmHost_new True)"

lemma fresh_host_account [simp]: "account fresh_host 2 = StateAccount_new" "eh_accounts fresh_host 2 \<noteq> None"
  by (simp_all add: fresh_host_def account_def put_account_def)

theorem storage_read_back_witness:
  "\<exists>st h' h2. set_storage quiet_env 2 7 9 fresh_host = Ret (st, h') \<and> get_storage quiet_env 2 7 h' = Ret (9, h2)"
proof -
  have t: "trie_holds (resolver_of quiet_env (account fresh_host 2)) 64 (sa_storageRoot (account fresh_host 2)) Map.empty"
    by (simp add: StateAccount_new_def trie_holds_def Trie_new_def)
  show ?thesis using storage_read_back [OF quiet_answers quiet_hex t fresh_host_account(2), of 7 9] by blast
qed

subsection \<open>Re-entry\<close>

text \<open>The storage of a contract as the database has it.\<close>

definition committed :: "evm_env \<Rightarrow> cxx_string \<Rightarrow> cxx_string \<Rightarrow> bool \<Rightarrow> trie \<Rightarrow> (cxx_string \<Rightarrow> cxx_string option) \<Rightarrow> bool" where
  "committed env contractAddress root container t m \<longleftrightarrow> root \<noteq> [] \<and> ev_root env contractAddress = (0, root) \<and>
     (let rs = DescendKey (ev_rd env) (if container then Some (map_of (ev_data env)) else None) contractAddress in
      Trie_open rs root contractAddress = Ret t \<and> trie_holds rs 64 t m)"

lemma same_books_trans: "same_books a b \<Longrightarrow> same_books b c \<Longrightarrow> same_books a c"
  by (simp add: same_books_def)

lemma get_storage_books:
  assumes "get_storage env addr k h = Ret (v, h')"
  shows "same_books h h'"
proof -
  obtain h1 where h1: "recordAccountAccess env addr h = Ret h1" using assms by (auto simp: get_storage_def run_simps)
  have "h' = h1 \<or> (\<exists>a. h' = put_account addr a h1)"
    using assms h1 by (auto simp: get_storage_def Let_def run_simps split: option.splits if_splits)
  then have "same_books h1 h'" by (auto simp: same_books_def put_account_def)
  then show ?thesis using access_result [OF h1] same_books_trans by blast
qed


text \<open>The contract of the example: one stored value, 8, under the key 7.\<close>

definition stored_key :: cxx_string where
  "stored_key = (let k = hex_nat 64 7 in k @ [last k] @ ''z'')"

definition stored_root :: node where
  "stored_root = ShortNode stored_key (Some (ValueNode (hex_nat 64 8))) newFlag"

definition stored_bytes :: cxx_string where
  "stored_bytes = (case Encode stored_root of Ret bs \<Rightarrow> bs | _ \<Rightarrow> [])"

definition stored_env :: evm_env where
  "stored_env = quiet_env\<lparr>ev_root := (\<lambda>a. (0, ''r'')), ev_rd := (\<lambda>k v. Ret (DB_SUCCESS, ''60'')),
     ev_data := [(evm_addr_to_string quiet_env 2 @ ''_r'', toHex stored_bytes)]\<rparr>"

definition stored_trie :: trie where
  "stored_trie = \<lparr>tr_root = Some (reflag stored_root \<lparr>nf_hash = ''r'', nf_dirty = False\<rparr>),
     tr_contractAddr = evm_addr_to_string quiet_env 2, tr_dirtyHash = []\<rparr>"

definition stored_values :: "cxx_string \<Rightarrow> cxx_string option" where
  "stored_values = [hex_nat 64 7 \<mapsto> hex_nat 64 8]"

lemma stored_addr: "evm_addr_to_string stored_env x = evm_addr_to_string quiet_env x"
  by (simp add: stored_env_def evm_addr_to_string_def)

lemma stored_committed: "committed stored_env (evm_addr_to_string stored_env 2) ''r'' True stored_trie stored_values"
proof -
  let ?s = "evm_addr_to_string quiet_env 2"
  let ?rs = "DescendKey (ev_rd stored_env) (Some (map_of (ev_data stored_env))) ?s"
  have l: "length (hex_nat 64 x) = 64" for x using hex_nat_key by blast
  have "storable stored_root"
    using l [of 7] l [of 8] by (simp add: stored_root_def stored_key_def Let_def HasTerm_def small_def nth_append)
  from decode_stored [OF this, of _ "''r''"] obtain bs where bs: "Encode stored_root = Ret bs" "bs \<noteq> []" "RLP_new bs True True = Ret bs"
    by blast
  have d: "DecodeNode (DecodeRef (Suc (length bs))) ''r'' bs = Ret (Some (reflag stored_root \<lparr>nf_hash = ''r'', nf_dirty = False\<rparr>))"
    using decode_stored [OF \<open>storable stored_root\<close>, of "length bs" "''r''"] bs(1) by auto
  have e: "stored_bytes = bs" using bs(1) by (simp add: stored_bytes_def)
  have x: "toHex bs \<noteq> []" using bs(2) by (cases bs) auto
  have "?rs ''r'' = Ret (Some (reflag stored_root \<lparr>nf_hash = ''r'', nf_dirty = False\<rparr>))"
    using d x bs(3) by (simp add: DescendKey_def stored_env_def e fromHex_toHex)
  then have o: "Trie_open ?rs ''r'' ?s = Ret stored_trie" by (simp add: Trie_open_def Trie_new_def stored_trie_def)
  have hk: "hex_key 64 (hex_nat 64 7)" using hex_nat_key [of 64 7] by (simp add: hex_key_def)
  have "key_ok 66 stored_key" "length stored_key = 66"
    using wrapped_key_ok [OF hk] l [of 7] by (simp_all add: stored_key_def Let_def)
  then have "wf_opt ?rs (64 + 2) (tr_root stored_trie)"
    by (simp add: stored_trie_def stored_root_def wf_simps)
  moreover have "entry_opt ?rs (tr_root stored_trie) (key @ [last key] @ ''z'') d \<longleftrightarrow> stored_values key = Some d"
    if "hex_key 64 key" for key d
  proof -
    have "entry_opt ?rs (tr_root stored_trie) (key @ [last key] @ ''z'') d \<longleftrightarrow> key @ [last key] @ ''z'' = stored_key \<and> d = hex_nat 64 8"
      by (auto simp: stored_trie_def stored_root_def entry_simps)
    then show ?thesis using wrapped_inject [of key "hex_nat 64 7"] by (auto simp: stored_key_def Let_def stored_values_def)
  qed
  ultimately have "trie_holds ?rs 64 stored_trie stored_values" by (simp add: trie_holds_def)
  with o show ?thesis by (simp add: committed_def stored_addr, simp add: stored_env_def)
qed

definition reentry_message :: evmc_message where
  "reentry_message = pay_message\<lparr>em_value := 0, em_input := ''x''\<rparr>"

definition running_host :: evm_host where
  "running_host = put_account 2 (StateAccount_new\<lparr>sa_storageRoot := stored_trie, sa_attached := True\<rparr>) (EvmHost_new True)"


end
