(* ===== verification/EvmEnv.thy ===== *)
theory EvmEnv
  imports EvmHost DbWriter Conflict "HOL-Library.Signed_Division"
begin

text \<open>
  Setting up the virtual machine (\<open>ca/evm/evmEnvironment.cpp\<close>) and keeping contracts in the database
  (\<open>ca/evm/evm_manager.cpp\<close>). Arguments are the fields of the JSON text in a transaction's data, the
  choice of unspent outputs, the packager of a block and the configured initial account; the chain's
  number is a static variable, passed along.
\<close>

text \<open>\<open>Util\<close>: the exception is the missing value; division truncates.\<close>

definition convertUnsigned64ToSigned64 :: "u64 \<Rightarrow> 64 word option" where
  "convertUnsigned64ToSigned64 u = (if 2 ^ 63 - 1 < u then None else Some u)"

definition integerRound :: "int \<Rightarrow> int" where
  "integerRound n = (let fl = (n sdiv 10) * 10; remainder = n smod 10 in if remainder < 5 then fl else fl + 10)"

subsection \<open>Context\<close>

definition GetChainId :: "reader \<Rightarrow> 64 word \<Rightarrow> (64 word \<times> 64 word) run" where
  "GetChainId rd chainId =
     (if chainId \<noteq> 0 then Ret (chainId, chainId)
      else bind_run (getBlockHashByBlockHeight rd 0 []) (\<lambda>(st, blockHash).
        if st \<noteq> DB_SUCCESS then Ret (-1, chainId)
        else let chainId = StringToNumber (take 8 blockHash) in Ret (chainId, chainId)))"

text \<open>Error, context and the static variable; the context is filled as far as the code gets.\<close>

definition createTxContext ::
    "evm_env \<Rightarrow> cxx_string \<Rightarrow> cxx_string \<Rightarrow> evmc_tx_context \<Rightarrow> 64 word \<Rightarrow> 64 word \<Rightarrow> 64 word \<Rightarrow> 64 word \<Rightarrow>
     (int \<times> evmc_tx_context \<times> 64 word) run" where
  "createTxContext env default_addr from txContext blockTimestamp blockPrevRandao blockNumber chainId =
     (let c = txContext\<lparr>tx_gas_price := convertUint32ToEvmcUint256be 1, tx_origin := convertStringToEvmAddress env from,
         block_coinbase := convertStringToEvmAddress env default_addr, block_timestamp := blockTimestamp,
         block_gas_limit := 2 ^ 63 - 1, block_prev_randao := convertUint32ToEvmcUint256be (ucast blockPrevRandao),
         block_base_fee := convertUint32ToEvmcUint256be 1, block_number := blockNumber\<rparr> in
      bind_run (GetChainId (ev_rd env) chainId) (\<lambda>(ident, chainId).
        if ident <s 0 then Ret (-2, c, chainId)
        else Ret (0, c\<lparr>chain_id := convertUint32ToEvmcUint256be (ucast ident)\<rparr>, chainId)))"

definition GetBlockNumber :: "reader \<Rightarrow> 64 word option run" where
  "GetBlockNumber rd = bind_run (getBlockTop rd 0) (\<lambda>(st, block_top).
     if st \<noteq> DB_SUCCESS then Ret (Some (-1)) else Ret (convertUnsigned64ToSigned64 (block_top + 1)))"

text \<open>The time is rounded to ten seconds.\<close>

definition calculateBlockTimestamp :: "u64 \<Rightarrow> int \<Rightarrow> int" where
  "calculateBlockTimestamp now predictOffset =
     (case convertUnsigned64ToSigned64 now of None \<Rightarrow> -1 | Some nowTime \<Rightarrow> integerRound (sint nowTime sdiv 1000000 + predictOffset))"

text \<open>The number of a deployer's contracts is its nonce.\<close>

definition GetNonce :: "reader \<Rightarrow> cxx_string \<Rightarrow> 64 word run" where
  "GetNonce rd address = bind_run (getContractAddrByDeployerAddr rd address []) (\<lambda>(st, contractAddresses).
     Ret (if st = DB_NOT_FOUND then 0 else if st = DB_SUCCESS then of_nat (length contractAddresses) else -1))"

definition GetNextNonce :: "reader \<Rightarrow> cxx_string \<Rightarrow> 64 word run" where
  "GetNextNonce rd address = bind_run (GetNonce rd address) (\<lambda>nonce. Ret (if nonce <s 0 then -1 else nonce + 1))"

subsection \<open>Host and message\<close>

definition MakeHost ::
    "evm_env \<Rightarrow> cxx_string \<Rightarrow> bool \<Rightarrow> cxx_string \<Rightarrow> cxx_string \<Rightarrow> u64 \<Rightarrow> cxx_string \<Rightarrow> evm_host \<Rightarrow> 64 word \<Rightarrow> 64 word \<Rightarrow> 64 word \<Rightarrow>
     64 word \<Rightarrow> (int \<times> evm_host \<times> 64 word) run" where
  "MakeHost env default_addr deploy sender recipient transferAmount code host blockTimestamp blockPrevRandao blockNumber chainId =
     bind_run (createTxContext env default_addr sender (eh_tx_context host) blockTimestamp blockPrevRandao blockNumber chainId)
       (\<lambda>(result, ctx, chainId).
       let host = host\<lparr>eh_tx_context := ctx\<rparr> in
       if result < 0 then Ret (-1, host, chainId)
       else bind_run (GetNonce (ev_rd env) sender) (\<lambda>nonce.
         if nonce <s 0 then Ret (-2, host, chainId)
         else let host = host\<lparr>eh_nonceCache := nonce, eh_coinTransfersInProgress := eh_coinTransfersInProgress host @
                    [\<lparr>ti_from = sender, ti_to = recipient, ti_amount = transferAmount\<rparr>]\<rparr>;
                  addr = convertStringToEvmAddress env recipient;
                  host = (if deploy then host else put_account addr (set_code env code (account host addr)) host);
                  (result, contractRootHashValue) = (if deploy then (0, []) else ev_root env recipient) in
           if result \<noteq> 0 then Ret (-3, host, chainId)
           else bind_run (CreateTrie env contractRootHashValue recipient (eh_container host) (account host addr)) (\<lambda>a.
             Ret (0, put_account addr a host, chainId))))"

definition make_deploy_host ::
    "evm_env \<Rightarrow> cxx_string \<Rightarrow> cxx_string \<Rightarrow> cxx_string \<Rightarrow> evm_host \<Rightarrow> 64 word \<Rightarrow> 64 word \<Rightarrow> 64 word \<Rightarrow> u64 \<Rightarrow> 64 word \<Rightarrow>
     (int \<times> evm_host \<times> 64 word) run" where
  "make_deploy_host env default_addr sender recipient host blockTimestamp blockPrevRandao blockNumber transferAmount chainId =
     MakeHost env default_addr True sender recipient transferAmount [] host blockTimestamp blockPrevRandao blockNumber chainId"

definition makeCallHostRequest ::
    "evm_env \<Rightarrow> cxx_string \<Rightarrow> cxx_string \<Rightarrow> cxx_string \<Rightarrow> u64 \<Rightarrow> cxx_string \<Rightarrow> evm_host \<Rightarrow> 64 word \<Rightarrow> 64 word \<Rightarrow> 64 word \<Rightarrow> 64 word \<Rightarrow>
     (int \<times> evm_host \<times> 64 word) run" where
  "makeCallHostRequest env default_addr sender recipient transferAmount code host blockTimestamp blockPrevRandao blockNumber chainId =
     MakeHost env default_addr False sender recipient transferAmount code host blockTimestamp blockPrevRandao blockNumber chainId"

definition message_new :: evmc_message where
  "message_new = \<lparr>em_kind = EVMC_CALL, em_gas = 0, em_recipient = 0, em_sender = 0, em_input = [], em_value = 0,
     em_create2_salt = 0, em_code_address = 0\<rparr>"

text \<open>Gas that the initial account and one function of any contract get whatever the balance.\<close>

definition free_gas :: u64 where "free_gas = 111657576591"

definition MakeMessage ::
    "evm_env \<Rightarrow> cxx_string \<Rightarrow> bool \<Rightarrow> evm_address \<Rightarrow> evm_address \<Rightarrow> cxx_string \<Rightarrow> u64 \<Rightarrow> cxx_string \<Rightarrow> evmc_message \<Rightarrow> int \<times> evmc_message" where
  "MakeMessage env init_addr deploy sender recipient input contractTransfer gasType message =
     (let message = message\<lparr>em_sender := sender, em_recipient := recipient\<rparr>;
          inputStr = (if deploy then [] else take 8 (BytesToString env input));
          (ret, balance) = (if inputStr \<noteq> ''6e27d889'' then ev_balance env (evm_addr_to_string env sender) gasType else (0, 0)) in
      if ret \<noteq> 0 then (-1, message)
      else let balance = (if init_addr = evm_addr_to_string env sender \<or> inputStr = ''6e27d889'' then free_gas else balance) in
        case convertUnsigned64ToSigned64 balance of
          None \<Rightarrow> (-2, message)
        | Some signedBalance \<Rightarrow>
            (0, if deploy then message\<lparr>em_gas := signedBalance, em_kind := EVMC_CREATE\<rparr>
                else message\<lparr>em_gas := signedBalance, em_kind := EVMC_CALL, em_input := input,
                  em_value := (if 0 < contractTransfer then ucast contractTransfer else em_value message)\<rparr>))"

definition createDeploymentMessageRequest ::
    "evm_env \<Rightarrow> cxx_string \<Rightarrow> evm_address \<Rightarrow> evm_address \<Rightarrow> cxx_string \<Rightarrow> evmc_message \<Rightarrow> int \<times> evmc_message" where
  "createDeploymentMessageRequest env init_addr sender recipient gasType message =
     MakeMessage env init_addr True sender recipient [] 0 gasType message"

definition MakeCallMessage ::
    "evm_env \<Rightarrow> cxx_string \<Rightarrow> evm_address \<Rightarrow> evm_address \<Rightarrow> cxx_string \<Rightarrow> u64 \<Rightarrow> cxx_string \<Rightarrow> evmc_message \<Rightarrow> int \<times> evmc_message" where
  "MakeCallMessage env init_addr sender recipient input contractTransfer gasType message =
     (let (result, msg) = MakeMessage env init_addr False sender recipient input contractTransfer gasType message_new in
      (result, if result = 0 then msg else message))"

definition createRpcMessage ::
    "bool \<Rightarrow> evm_address \<Rightarrow> evm_address \<Rightarrow> cxx_string \<Rightarrow> u64 \<Rightarrow> evmc_message \<Rightarrow> int \<times> evmc_message" where
  "createRpcMessage deploy sender recipient input contractTransfer message =
     (let message = message\<lparr>em_sender := sender, em_recipient := recipient, em_gas := free_gas\<rparr> in
      (0, if deploy then message\<lparr>em_kind := EVMC_CREATE\<rparr>
          else message\<lparr>em_kind := EVMC_CALL, em_input := input,
            em_value := (if 0 < contractTransfer then ucast contractTransfer else em_value message)\<rparr>))"

definition rpcCallMessage ::
    "evm_address \<Rightarrow> evm_address \<Rightarrow> cxx_string \<Rightarrow> u64 \<Rightarrow> evmc_message \<Rightarrow> int \<times> evmc_message" where
  "rpcCallMessage sender recipient input contractTransfer message =
     (let (result, msg) = createRpcMessage False sender recipient input contractTransfer message_new in
      (result, if result = 0 then msg else message))"

subsection \<open>Fields of a transaction\<close>

text \<open>
  \<open>num\<close> reads a number and \<open>str\<close> a string from the transaction information in the JSON text, nothing
  when the text, the field or its type is wrong.
\<close>

definition GetBlockTimestamp :: "(cxx_string \<Rightarrow> cxx_string \<Rightarrow> 64 word option) \<Rightarrow> CTransaction \<Rightarrow> 64 word" where
  "GetBlockTimestamp num transaction = (case num (tx_data transaction) ''blockTimestamp'' of None \<Rightarrow> -1 | Some t \<Rightarrow> t)"

definition get_block_prev_randao :: "(cxx_string \<Rightarrow> cxx_string \<Rightarrow> 64 word option) \<Rightarrow> CTransaction \<Rightarrow> 64 word" where
  "get_block_prev_randao num transaction = (case num (tx_data transaction) ''blockPrevRandao'' of None \<Rightarrow> -1 | Some t \<Rightarrow> t)"

definition VerifyCoinbase :: "(CBlock \<Rightarrow> cxx_string) \<Rightarrow> CBlock \<Rightarrow> cxx_string \<Rightarrow> bool" where
  "VerifyCoinbase GetPackager block coinbase \<longleftrightarrow> GetPackager block = coinbase"

text \<open>The sum of the characters of the hashes of all spent outputs.\<close>

definition blockPrevRandaoCalculator_tx :: "(cxx_string \<Rightarrow> cxx_string \<Rightarrow> cxx_string option) \<Rightarrow> CTransaction \<Rightarrow> 64 word" where
  "blockPrevRandaoCalculator_tx str transaction =
     (case str (tx_data transaction) ''sender'' of
        None \<Rightarrow> -1
      | Some from \<Rightarrow> StringToNumber (concat (map (\<lambda>utxo. concat (map (\<lambda>vin. concat (map po_hash (vi_prevOut vin))) (ux_vin utxo)))
          (tx_utxos transaction))))"

text \<open>\<open>find_utxo\<close> is \<open>TxHelper::FindUtxo\<close>: an error, and the hashes of the chosen outputs in their order.\<close>

definition blockPrevRandaoCalculator ::
    "(cxx_string \<Rightarrow> cxx_string \<Rightarrow> bool \<Rightarrow> int \<times> cxx_string list) \<Rightarrow> cxx_string \<Rightarrow> cxx_string \<Rightarrow> bool \<Rightarrow> 64 word" where
  "blockPrevRandaoCalculator find_utxo from gasType isFindUtxo =
     (let (result, hashes) = find_utxo from gasType isFindUtxo in if result \<noteq> 0 then -1 else StringToNumber (concat hashes))"

subsection \<open>Contracts in the database\<close>

text \<open>The machine as \<open>executeSynchronouslyWithEvmone\<close> runs it: an error, the output in hexadecimal, the host.\<close>

definition executeSynchronouslyWithEvmone ::
    "evm_env \<Rightarrow> (evm_host \<Rightarrow> evmc_message \<Rightarrow> cxx_string \<Rightarrow> (evmc_result \<times> evm_host) run) option \<Rightarrow> evmc_message \<Rightarrow> cxx_string \<Rightarrow>
     evm_host \<Rightarrow> cxx_string \<Rightarrow> (int \<times> cxx_string \<times> evm_host) run" where
  "executeSynchronouslyWithEvmone env vm msg code host out =
     (case vm of
        None \<Rightarrow> Ret (-1, out, host)
      | Some exec \<Rightarrow> bind_run (exec host msg code) (\<lambda>(result, host).
          if er_status result \<noteq> EVMC_SUCCESS then Ret (-2, out, host) else Ret (0, ev_hex env (er_output result), host)))"

definition latestContractAddress :: "evm_env \<Rightarrow> cxx_string \<Rightarrow> cxx_string option run" where
  "latestContractAddress env from = bind_run (GetNextNonce (ev_rd env) from) (\<lambda>nonce.
     Ret (if nonce <s 0 then None else Some (ev_GenerateAddr env (from @ to_string_signed nonce))))"

definition VerifyContractAddress :: "evm_env \<Rightarrow> cxx_string \<Rightarrow> cxx_string \<Rightarrow> bool run" where
  "VerifyContractAddress env from contractAddress = bind_run (latestContractAddress env from) (\<lambda>result.
     Ret (case result of None \<Rightarrow> False | Some a \<Rightarrow> a = contractAddress))"

text \<open>The only machine is number 0; for another the status of the unmade read is not initialised.\<close>

definition EVM :: int where "EVM = 0"

definition check_then ::
    "int \<Rightarrow> (DBStatus \<times> 't dbrw) run \<Rightarrow> ('t dbrw \<Rightarrow> (int \<times> 't dbrw) run) \<Rightarrow> (int \<times> 't dbrw) run" where
  "check_then err r k = bind_run r (\<lambda>(st, d). if st \<noteq> DB_SUCCESS then Ret (err, d) else k d)"

definition SaveContract ::
    "'t rocks \<Rightarrow> cxx_string \<Rightarrow> cxx_string \<Rightarrow> cxx_string \<Rightarrow> cxx_string \<Rightarrow> 't dbrw \<Rightarrow> int \<Rightarrow> (int \<times> 't dbrw) run" where
  "SaveContract ops deployerAddress deployHash contractAddress contractCode d vmType =
     check_then (-84) (setContractDeployUtxoByContractAddr ops d contractAddress deployHash) (\<lambda>d.
     check_then (-84) (setContractCodeByContractAddr ops d contractAddress contractCode) (\<lambda>d.
     check_then (-90) (setLatestUtxoByContractAddr ops d contractAddress deployHash) (\<lambda>d.
     check_then (-91) (setContractAddrByDeployerAddr ops d deployerAddress contractAddress) (\<lambda>d.
     if vmType \<noteq> EVM then Undefined
     else bind_run (getAllEvmDeployerAddr (DBReadWriter_readData ops d) []) (\<lambda>(ret, deployerAddresses).
       if ret \<noteq> DB_SUCCESS \<and> ret \<noteq> DB_NOT_FOUND then Ret (-92, d)
       else if deployerAddress \<notin> set deployerAddresses
       then check_then (-93) (setEvmDeployerAddr ops d deployerAddress) (\<lambda>d. Ret (0, d))
       else Ret (0, d))))))"

definition DeleteContract ::
    "'t rocks \<Rightarrow> cxx_string \<Rightarrow> cxx_string \<Rightarrow> 't dbrw \<Rightarrow> int \<Rightarrow> (int \<times> 't dbrw) run" where
  "DeleteContract ops deployerAddress contractAddress d vmType =
     check_then (-88) (removeContractDeployUtxoByContractAddr ops d contractAddress) (\<lambda>d.
     check_then (-89) (removeContractCodeByContractAddr ops d contractAddress) (\<lambda>d.
     check_then (-92) (removeLatestUtxoByContractAddr ops d contractAddress) (\<lambda>d.
     check_then (-93) (removeContractAddrByDeployerAddr ops d deployerAddress contractAddress) (\<lambda>d.
     bind_run (getContractAddrByDeployerAddr (DBReadWriter_readData ops d) deployerAddress []) (\<lambda>(ret, deployedUtxos).
       if ret = DB_NOT_FOUND \<or> deployedUtxos = []
       then if vmType = EVM then check_then (-94) (removeEvmDeployerAddr ops d deployerAddress) (\<lambda>d. Ret (0, d)) else Ret (0, d)
       else Ret (0, d))))))"

end
