(* ===== verification/EvmStore.thy ===== *)
theory EvmStore
  imports EvmEnv DbProps
begin

text \<open>
  Properties of the contracts in the database: what saving one records and that removing it undoes this.
\<close>

subsection \<open>The records\<close>

definition contracts_of :: "(cxx_string \<Rightarrow> cxx_string option) \<Rightarrow> cxx_string \<Rightarrow> cxx_string list" where
  "contracts_of m deployer = list_at m (DEPLOYER_ADDR_TO_CONTRACT_ADDR @ deployer)"

definition deployers :: "(cxx_string \<Rightarrow> cxx_string option) \<Rightarrow> cxx_string list" where
  "deployers m = list_at m kEvmAllDeployerAddress"

definition contract_keys :: "cxx_string \<Rightarrow> cxx_string \<Rightarrow> cxx_string set" where
  "contract_keys deployer contract = {K_CONTRACT_ADDR_TO_DEPLOY_UTXO @ contract, kContractAddrToContractCode @ contract,
     kContractAddrToLatestUtxo @ contract, DEPLOYER_ADDR_TO_CONTRACT_ADDR @ deployer, kEvmAllDeployerAddress}"

lemma contract_keys_differ:
  "K_CONTRACT_ADDR_TO_DEPLOY_UTXO @ a \<noteq> kContractAddrToContractCode @ b" "kContractAddrToContractCode @ b \<noteq> K_CONTRACT_ADDR_TO_DEPLOY_UTXO @ a"
  "K_CONTRACT_ADDR_TO_DEPLOY_UTXO @ a \<noteq> kContractAddrToLatestUtxo @ b" "kContractAddrToLatestUtxo @ b \<noteq> K_CONTRACT_ADDR_TO_DEPLOY_UTXO @ a"
  "K_CONTRACT_ADDR_TO_DEPLOY_UTXO @ a \<noteq> DEPLOYER_ADDR_TO_CONTRACT_ADDR @ b" "DEPLOYER_ADDR_TO_CONTRACT_ADDR @ b \<noteq> K_CONTRACT_ADDR_TO_DEPLOY_UTXO @ a"
  "K_CONTRACT_ADDR_TO_DEPLOY_UTXO @ a \<noteq> kEvmAllDeployerAddress" "kEvmAllDeployerAddress \<noteq> K_CONTRACT_ADDR_TO_DEPLOY_UTXO @ a"
  "kContractAddrToContractCode @ a \<noteq> kContractAddrToLatestUtxo @ b" "kContractAddrToLatestUtxo @ b \<noteq> kContractAddrToContractCode @ a"
  "kContractAddrToContractCode @ a \<noteq> DEPLOYER_ADDR_TO_CONTRACT_ADDR @ b" "DEPLOYER_ADDR_TO_CONTRACT_ADDR @ b \<noteq> kContractAddrToContractCode @ a"
  "kContractAddrToContractCode @ a \<noteq> kEvmAllDeployerAddress" "kEvmAllDeployerAddress \<noteq> kContractAddrToContractCode @ a"
  "kContractAddrToLatestUtxo @ a \<noteq> DEPLOYER_ADDR_TO_CONTRACT_ADDR @ b" "DEPLOYER_ADDR_TO_CONTRACT_ADDR @ b \<noteq> kContractAddrToLatestUtxo @ a"
  "kContractAddrToLatestUtxo @ a \<noteq> kEvmAllDeployerAddress" "kEvmAllDeployerAddress \<noteq> kContractAddrToLatestUtxo @ a"
  "K_CONTRACT_ADDR_TO_DEPLOY_UTXO \<noteq> kContractAddrToContractCode" "kContractAddrToContractCode \<noteq> K_CONTRACT_ADDR_TO_DEPLOY_UTXO"
  "K_CONTRACT_ADDR_TO_DEPLOY_UTXO \<noteq> kContractAddrToLatestUtxo" "kContractAddrToLatestUtxo \<noteq> K_CONTRACT_ADDR_TO_DEPLOY_UTXO"
  "kContractAddrToContractCode \<noteq> kContractAddrToLatestUtxo" "kContractAddrToLatestUtxo \<noteq> kContractAddrToContractCode"
  "DEPLOYER_ADDR_TO_CONTRACT_ADDR @ a \<noteq> kEvmAllDeployerAddress" "kEvmAllDeployerAddress \<noteq> DEPLOYER_ADDR_TO_CONTRACT_ADDR @ a"
  by (simp_all add: db_key_defs)

lemma check_then_Ret:
  "check_then err r k = Ret (0, d') \<Longrightarrow> err \<noteq> 0 \<Longrightarrow> \<exists>d1. r = Ret (DB_SUCCESS, d1) \<and> k d1 = Ret (0, d')"
  by (auto simp: check_then_def run_simps split: if_splits)

context rocksdb
begin

lemma save_effect:
  assumes "SaveContract ops dep hash a code d EVM = Ret (0, d')"
  shows "\<exists>M. M = (dview d)(K_CONTRACT_ADDR_TO_DEPLOY_UTXO @ a \<mapsto> hash, kContractAddrToContractCode @ a \<mapsto> code,
      kContractAddrToLatestUtxo @ a \<mapsto> hash,
      DEPLOYER_ADDR_TO_CONTRACT_ADDR @ dep \<mapsto> merged_entry (dview d (DEPLOYER_ADDR_TO_CONTRACT_ADDR @ dep)) a False) \<and> a \<noteq> [] \<and>
    (dep \<in> set (deployers M) \<and> dview d' = M \<or> dep \<notin> set (deployers M) \<and> dep \<noteq> [] \<and>
      dview d' = M(kEvmAllDeployerAddress \<mapsto> merged_entry (M kEvmAllDeployerAddress) dep False))"
proof -
  obtain d1 d2 d3 d4 where
    w: "DBReadWriter_writeData ops d (K_CONTRACT_ADDR_TO_DEPLOY_UTXO @ a) hash = Ret (DB_SUCCESS, d1)"
      "DBReadWriter_writeData ops d1 (kContractAddrToContractCode @ a) code = Ret (DB_SUCCESS, d2)"
      "DBReadWriter_writeData ops d2 (kContractAddrToLatestUtxo @ a) hash = Ret (DB_SUCCESS, d3)"
      "DBReadWriter_mergeValue ops d3 (DEPLOYER_ADDR_TO_CONTRACT_ADDR @ dep) a False = Ret (DB_SUCCESS, d4)"
    and r: "bind_run (getAllEvmDeployerAddr (DBReadWriter_readData ops d4) []) (\<lambda>(ret, deployerAddresses).
       if ret \<noteq> DB_SUCCESS \<and> ret \<noteq> DB_NOT_FOUND then Ret (-92, d4)
       else if dep \<notin> set deployerAddresses
       then check_then (-93) (setEvmDeployerAddr ops d4 dep) (\<lambda>d. Ret (0, d))
       else Ret (0, d4)) = Ret (0, d')"
    using assms unfolding SaveContract_def setContractDeployUtxoByContractAddr_def setContractCodeByContractAddr_def
      setLatestUtxoByContractAddr_def setContractAddrByDeployerAddr_def Let_def
    by (auto dest!: check_then_Ret)
  let ?M = "dview d4"
  have M: "?M = (dview d)(K_CONTRACT_ADDR_TO_DEPLOY_UTXO @ a \<mapsto> hash, kContractAddrToContractCode @ a \<mapsto> code,
      kContractAddrToLatestUtxo @ a \<mapsto> hash,
      DEPLOYER_ADDR_TO_CONTRACT_ADDR @ dep \<mapsto> merged_entry (dview d (DEPLOYER_ADDR_TO_CONTRACT_ADDR @ dep)) a False)"
    unfolding db_mergeValue_effect(1) [OF w(4)] db_writeData_effect(1) [OF w(3)] db_writeData_effect(1) [OF w(2)]
      db_writeData_effect(1) [OF w(1)] by (simp add: contract_keys_differ)
  obtain ret ds where g: "getAllEvmDeployerAddr (DBReadWriter_readData ops d4) [] = Ret (ret, ds)"
    and r': "(if ret \<noteq> DB_SUCCESS \<and> ret \<noteq> DB_NOT_FOUND then Ret (-92, d4)
       else if dep \<notin> set ds then check_then (-93) (setEvmDeployerAddr ops d4 dep) (\<lambda>d. Ret (0, d))
       else Ret (0, d4)) = Ret (0, d')"
    using r unfolding bind_run_eq_Ret by (elim exE conjE) (simp add: case_prod_unfold, metis prod.collapse)
  have ds: "ds = deployers ?M"
  proof (cases "ret = DB_SUCCESS")
    case True
    then show ?thesis using db_writer.read_list_success [OF g [unfolded True getAllEvmDeployerAddr_def]] by (simp add: deployers_def)
  next
    case False
    then have nf: "ret = DB_NOT_FOUND" using r' by (auto split: if_splits)
    show ?thesis using db_writer.read_list_not_found [OF g [unfolded nf getAllEvmDeployerAddr_def]] by (simp add: deployers_def)
  qed
  have "dep \<in> set ds \<and> d' = d4 \<or> dep \<notin> set ds \<and> DBReadWriter_mergeValue ops d4 kEvmAllDeployerAddress dep False = Ret (DB_SUCCESS, d')"
    using r' by (auto simp: setEvmDeployerAddr_def split: if_splits dest!: check_then_Ret)
  then have "dep \<in> set (deployers ?M) \<and> dview d' = ?M \<or> dep \<notin> set (deployers ?M) \<and> dep \<noteq> [] \<and>
      dview d' = ?M(kEvmAllDeployerAddress \<mapsto> merged_entry (?M kEvmAllDeployerAddress) dep False)"
    using ds db_mergeValue_effect by blast
  then show ?thesis using M db_mergeValue_effect(2) [OF w(4)] by blast
qed

lemma delete_effect:
  assumes "DeleteContract ops dep a d EVM = Ret (0, d')" "\<And>t k. fst (rk_get ops t k) \<in> {SOk, SNotFound}"
  shows "\<exists>M. M = (dview d)(K_CONTRACT_ADDR_TO_DEPLOY_UTXO @ a := None, kContractAddrToContractCode @ a := None,
      kContractAddrToLatestUtxo @ a := None,
      DEPLOYER_ADDR_TO_CONTRACT_ADDR @ dep := removed_entry (dview d (DEPLOYER_ADDR_TO_CONTRACT_ADDR @ dep)) a) \<and>
    (contracts_of M dep = [] \<and> dview d' = M(kEvmAllDeployerAddress := removed_entry (M kEvmAllDeployerAddress) dep) \<or>
     contracts_of M dep \<noteq> [] \<and> dview d' = M)"
proof -
  obtain d1 d2 d3 d4 where
    w: "DBReadWriter_deleteData ops d (K_CONTRACT_ADDR_TO_DEPLOY_UTXO @ a) = Ret (DB_SUCCESS, d1)"
      "DBReadWriter_deleteData ops d1 (kContractAddrToContractCode @ a) = Ret (DB_SUCCESS, d2)"
      "DBReadWriter_deleteData ops d2 (kContractAddrToLatestUtxo @ a) = Ret (DB_SUCCESS, d3)"
      "DBReadWriter_removeMergeValue ops d3 (DEPLOYER_ADDR_TO_CONTRACT_ADDR @ dep) a = Ret (DB_SUCCESS, d4)"
    and r: "bind_run (getContractAddrByDeployerAddr (DBReadWriter_readData ops d4) dep []) (\<lambda>(ret, deployedUtxos).
       if ret = DB_NOT_FOUND \<or> deployedUtxos = []
       then if EVM = EVM then check_then (-94) (removeEvmDeployerAddr ops d4 dep) (\<lambda>d. Ret (0, d)) else Ret (0, d4)
       else Ret (0, d4)) = Ret (0, d')"
    using assms unfolding DeleteContract_def removeContractDeployUtxoByContractAddr_def removeContractCodeByContractAddr_def
      removeLatestUtxoByContractAddr_def removeContractAddrByDeployerAddr_def Let_def
    by (auto dest!: check_then_Ret)
  let ?M = "dview d4"
  have M: "?M = (dview d)(K_CONTRACT_ADDR_TO_DEPLOY_UTXO @ a := None, kContractAddrToContractCode @ a := None,
      kContractAddrToLatestUtxo @ a := None,
      DEPLOYER_ADDR_TO_CONTRACT_ADDR @ dep := removed_entry (dview d (DEPLOYER_ADDR_TO_CONTRACT_ADDR @ dep)) a)"
    unfolding db_removeMergeValue_effect [OF w(4)] db_deleteData_effect(1) [OF w(3)] db_deleteData_effect(1) [OF w(2)]
      db_deleteData_effect(1) [OF w(1)] by (simp add: contract_keys_differ)
  obtain ret ds where g: "getContractAddrByDeployerAddr (DBReadWriter_readData ops d4) dep [] = Ret (ret, ds)"
    and r': "(if ret = DB_NOT_FOUND \<or> ds = []
       then check_then (-94) (removeEvmDeployerAddr ops d4 dep) (\<lambda>d. Ret (0, d)) else Ret (0, d4)) = Ret (0, d')"
    using r unfolding bind_run_eq_Ret by (elim exE conjE) (simp add: case_prod_unfold, metis prod.collapse)
  have o: "inited (dbReaderWriter d4) \<and> txn_open (dbReaderWriter d4)"
    using w(4) removeMergeValue_effect [of "dbReaderWriter d3"]
    by (auto simp: DBReadWriter_removeMergeValue_def db_finish_def changes_to_def same_handle_def run_simps split: prod.splits if_splits)
  have rl: "read_list (DBReadWriter_readData ops d4) (DEPLOYER_ADDR_TO_CONTRACT_ADDR @ dep) [] = Ret (ret, ds)"
    using g by (simp add: getContractAddrByDeployerAddr_def Let_def)
  have "ret = DB_SUCCESS \<or> ret = DB_NOT_FOUND"
    using rl o assms(2) [of "rk (dbReaderWriter d4)" "DEPLOYER_ADDR_TO_CONTRACT_ADDR @ dep"]
    by (auto simp: read_list_def read_then_def DBReadWriter_readData_def readData_def db_key_defs run_simps split: prod.splits if_splits)
  then have ds: "ds = contracts_of ?M dep" "ret = DB_NOT_FOUND \<Longrightarrow> ds = []"
    using db_writer.read_list_success [of d4 _ "[]" ds] db_writer.read_list_not_found [of d4 _ "[]" ds] rl
    by (auto simp: contracts_of_def)
  show ?thesis
  proof (cases "ds = []")
    case True
    then have "DBReadWriter_removeMergeValue ops d4 kEvmAllDeployerAddress dep = Ret (DB_SUCCESS, d')"
      using r' by (auto simp: removeEvmDeployerAddr_def dest!: check_then_Ret)
    then show ?thesis using M ds True db_removeMergeValue_effect by blast
  next
    case False
    then have "d' = d4" using r' ds(2) by (auto split: if_splits)
    then show ?thesis using M ds False by blast
  qed
qed

end

lemma list_at_removed:
  "list_at (m(k := removed_entry w v)) k = removeAll v (case w of None \<Rightarrow> [] | Some r \<Rightarrow> tokens (CHR ''_'') r)"
  using removed_entry_Some [of w v] removed_entry_None [of w v]
  by (cases "removed_entry w v") (simp_all add: list_at_def)

lemma list_at_merged:
  "CHR ''_'' \<notin> set v \<Longrightarrow> v \<noteq> [] \<Longrightarrow> v \<notin> set (list_at m k) \<Longrightarrow>
   list_at (m'(k \<mapsto> merged_entry (m k) v False)) k = list_at m k @ [v]"
  by (simp add: merged_entry_tokens list_at_case merge_list_def)

subsection \<open>Saving and removing\<close>

text \<open>
  C30. Saving a contract records its code and, twice, its deploying transaction, and puts it at the end of its deployer's
  list, registering the deployer; removing it again leaves these three records absent, whatever was there before,
  and gives both lists back in their old order. So when the contract had no record before, everything but
  the texts of the two lists is as it was. This holds for a contract that is not in its deployer's list, for a
  deployer that is registered exactly if it has contracts, for names without underscores, and as long as every
  reading succeeds or finds nothing.
\<close>

theorem contract_removal_restores:
  assumes "rocksdb ops view committed" "\<forall>t k. fst (rk_get ops t k) \<in> {SOk, SNotFound}"
    and "SaveContract ops dep hash a code d EVM = Ret (0, d1)" "DeleteContract ops dep a d1 EVM = Ret (0, d2)"
    and "CHR ''_'' \<notin> set a" "CHR ''_'' \<notin> set dep"
    and "a \<notin> set (contracts_of (view (rk (dbReaderWriter d))) dep)"
    and "dep \<in> set (deployers (view (rk (dbReaderWriter d)))) \<longleftrightarrow> contracts_of (view (rk (dbReaderWriter d))) dep \<noteq> []"
  shows "let V = view (rk (dbReaderWriter d)); V1 = view (rk (dbReaderWriter d1)); V2 = view (rk (dbReaderWriter d2)) in
    V1 (kContractAddrToContractCode @ a) = Some code \<and> V1 (K_CONTRACT_ADDR_TO_DEPLOY_UTXO @ a) = Some hash \<and>
    V1 (kContractAddrToLatestUtxo @ a) = Some hash \<and> contracts_of V1 dep = contracts_of V dep @ [a] \<and> dep \<in> set (deployers V1) \<and>
    V2 (kContractAddrToContractCode @ a) = None \<and> V2 (K_CONTRACT_ADDR_TO_DEPLOY_UTXO @ a) = None \<and>
    V2 (kContractAddrToLatestUtxo @ a) = None \<and> contracts_of V2 dep = contracts_of V dep \<and> deployers V2 = deployers V \<and>
    (\<forall>k. k \<notin> {DEPLOYER_ADDR_TO_CONTRACT_ADDR @ dep, kEvmAllDeployerAddress} \<and> (k \<in> contract_keys dep a \<longrightarrow> V k = None) \<longrightarrow> V2 k = V k)"
proof -
  let ?V = "view (rk (dbReaderWriter d))" and ?V1 = "view (rk (dbReaderWriter d1))" and ?V2 = "view (rk (dbReaderWriter d2))"
  let ?D = "DEPLOYER_ADDR_TO_CONTRACT_ADDR @ dep"
  note df = contract_keys_differ
  obtain M where M: "M = ?V(K_CONTRACT_ADDR_TO_DEPLOY_UTXO @ a \<mapsto> hash, kContractAddrToContractCode @ a \<mapsto> code,
      kContractAddrToLatestUtxo @ a \<mapsto> hash, ?D \<mapsto> merged_entry (?V ?D) a False)" "a \<noteq> []"
    and V1: "dep \<in> set (deployers M) \<and> ?V1 = M \<or> dep \<notin> set (deployers M) \<and> dep \<noteq> [] \<and>
      ?V1 = M(kEvmAllDeployerAddress \<mapsto> merged_entry (M kEvmAllDeployerAddress) dep False)"
    using rocksdb.save_effect [OF assms(1,3)] by blast
  have dM: "deployers M = deployers ?V" by (simp add: deployers_def list_at_def M(1) df)
  have cM: "contracts_of M dep = contracts_of ?V dep @ [a]"
    using list_at_merged [OF assms(5) M(2), of ?V ?D] assms(7) by (simp add: contracts_of_def M(1))
  have k1: "?V1 k = M k" if "k \<noteq> kEvmAllDeployerAddress" for k using V1 that by auto
  have c1: "contracts_of ?V1 dep = contracts_of ?V dep @ [a]" using k1 cM by (simp add: contracts_of_def list_at_def df)
  have d1: "dep \<in> set (deployers ?V1)" and rd: "contracts_of ?V dep = [] \<Longrightarrow> deployers ?V1 = deployers ?V @ [dep]"
    and kd: "contracts_of ?V dep \<noteq> [] \<Longrightarrow> deployers ?V1 = deployers ?V"
    using V1 assms(8) dM list_at_merged [OF assms(6), of M kEvmAllDeployerAddress M] by (auto simp: deployers_def)
  obtain N where N: "N = ?V1(K_CONTRACT_ADDR_TO_DEPLOY_UTXO @ a := None, kContractAddrToContractCode @ a := None,
      kContractAddrToLatestUtxo @ a := None, ?D := removed_entry (?V1 ?D) a)"
    and V2: "contracts_of N dep = [] \<and> ?V2 = N(kEvmAllDeployerAddress := removed_entry (N kEvmAllDeployerAddress) dep) \<or>
      contracts_of N dep \<noteq> [] \<and> ?V2 = N"
    using rocksdb.delete_effect [OF assms(1,4)] assms(2) by blast
  have "contracts_of N dep = removeAll a (contracts_of ?V1 dep)"
    by (simp add: contracts_of_def N list_at_removed list_at_case)
  then have cN: "contracts_of N dep = contracts_of ?V dep" using c1 assms(7) by simp
  have k2: "?V2 k = N k" if "k \<noteq> kEvmAllDeployerAddress" for k using V2 that by auto
  have c2: "contracts_of ?V2 dep = contracts_of ?V dep" using k2 cN by (simp add: contracts_of_def list_at_def df)
  have dN: "deployers N = deployers ?V1" by (simp add: deployers_def list_at_def N df)
  have d2: "deployers ?V2 = deployers ?V"
  proof (cases "contracts_of ?V dep = []")
    case True
    have "deployers ?V2 = removeAll dep (deployers N)"
      using V2 cN True by (simp add: deployers_def list_at_removed list_at_case)
    then show ?thesis using dN rd [OF True] assms(8) True by simp
  next
    case False
    then show ?thesis using V2 cN dN kd by simp
  qed
  have o: "?V2 k = ?V k" if "k \<notin> {?D, kEvmAllDeployerAddress}" "k \<in> contract_keys dep a \<longrightarrow> ?V k = None" for k
    using that k1 k2 by (auto simp: contract_keys_def N M(1))
  have s1: "?V1 (kContractAddrToContractCode @ a) = Some code" "?V1 (K_CONTRACT_ADDR_TO_DEPLOY_UTXO @ a) = Some hash"
    "?V1 (kContractAddrToLatestUtxo @ a) = Some hash" by (simp_all add: k1 df M(1))
  have s2: "?V2 (kContractAddrToContractCode @ a) = None" "?V2 (K_CONTRACT_ADDR_TO_DEPLOY_UTXO @ a) = None"
    "?V2 (kContractAddrToLatestUtxo @ a) = None" by (simp_all add: k2 df N)
  show ?thesis unfolding Let_def using c1 d1 c2 d2 o s1 s2 by blast
qed

lemmas contract_ops = setContractDeployUtxoByContractAddr_def setContractCodeByContractAddr_def setLatestUtxoByContractAddr_def
  setContractAddrByDeployerAddr_def setEvmDeployerAddr_def removeContractDeployUtxoByContractAddr_def
  removeContractCodeByContractAddr_def removeLatestUtxoByContractAddr_def removeContractAddrByDeployerAddr_def
  removeEvmDeployerAddr_def getAllEvmDeployerAddr_def getContractAddrByDeployerAddr_def

lemmas object_ops = DBReadWriter_writeData_def DBReadWriter_deleteData_def DBReadWriter_mergeValue_def
  DBReadWriter_removeMergeValue_def DBReadWriter_readData_def db_finish_def check_then_def read_list_def read_then_def

lemma mem_saves: "\<exists>d1. SaveContract mem_rocks ''d'' ''h'' ''c'' ''60'' mem_object EVM = Ret (0, d1)"
  by (simp add: SaveContract_def contract_ops object_ops rw_defs mem_defs db_key_defs)

theorem contract_removal_restores_witness:
  "\<exists>d1 d2. SaveContract mem_rocks ''d'' ''h'' ''c'' ''60'' mem_object EVM = Ret (0, d1) \<and>
     DeleteContract mem_rocks ''d'' ''c'' d1 EVM = Ret (0, d2) \<and> contracts_of (mview d1) ''d'' = [''c''] \<and> deployers (mview d2) = []"
proof -
  have "\<exists>d1 d2. SaveContract mem_rocks ''d'' ''h'' ''c'' ''60'' mem_object EVM = Ret (0, d1) \<and>
     DeleteContract mem_rocks ''d'' ''c'' d1 EVM = Ret (0, d2)"
    by (simp add: SaveContract_def DeleteContract_def contract_ops object_ops rw_defs mem_defs db_key_defs tokens_def)
  then obtain d1 d2 where r: "SaveContract mem_rocks ''d'' ''h'' ''c'' ''60'' mem_object EVM = Ret (0, d1)"
    "DeleteContract mem_rocks ''d'' ''c'' d1 EVM = Ret (0, d2)" by blast
  have e: "contracts_of (mview mem_object) ''d'' = []" "deployers (mview mem_object) = []"
    by (simp_all add: contracts_of_def deployers_def list_at_def)
  have g: "\<forall>t k. fst (rk_get mem_rocks t k) \<in> {SOk, SNotFound}" by (simp add: mem_rocks_def mem_answer_def)
  show ?thesis using contract_removal_restores [OF mem.rocksdb_axioms g r] r e by (auto simp: Let_def)
qed

end
