(* ===== verification/TxContract.thy ===== *)
theory TxContract
  imports TxCache EvmEnv
begin

text \<open>
  The packaging of contract transactions (\<open>ca/transaction_cache.cpp\<close>): the packager checks and executes
  the transactions it is sent, in groups with common contracts, gives up those that fail, and builds a
  block of the rest once its view of the contracts agrees with the other nodes'. Checks and executions
  are tasks of a pool; here each runs when it is given to the pool. Elsewhere are the fields of the JSON
  text, the machine's runs (\<open>DeployContract\<close>, \<open>CallContract\<close>), what is kept of a run (\<open>ContractInfoAdd\<close>,
  \<open>invokedContract\<close>), the check of a transaction (\<open>handleTransaction\<close>, which adds it to the pool).
\<close>

subsection \<open>Executing a contract\<close>

record tx_info =
  if_sender :: cxx_string
  if_vm :: int
  if_input :: cxx_string
  if_CallType :: cxx_string
  if_transmitFlowMessage :: cxx_string
  if_transfer :: u64
  if_recipient :: cxx_string

record exec_env =
  ce_info :: "u32 \<Rightarrow> cxx_string \<Rightarrow> tx_info option"
  ce_num :: "cxx_string \<Rightarrow> cxx_string \<Rightarrow> 64 word option"
  ce_call_from :: "CTransaction \<Rightarrow> int \<times> cxx_string"
  ce_DeployContract :: "evm_env \<Rightarrow> cxx_string \<Rightarrow> evm_host \<Rightarrow> cxx_string \<Rightarrow> 64 word \<Rightarrow> 64 word \<Rightarrow> 64 word \<Rightarrow> cxx_string \<Rightarrow> int \<times> evm_host"
  ce_CallContract :: "evm_env \<Rightarrow> cxx_string \<Rightarrow> cxx_string \<Rightarrow> evm_host \<Rightarrow> u64 \<Rightarrow> cxx_string \<Rightarrow> 64 word \<Rightarrow> 64 word \<Rightarrow> 64 word \<Rightarrow>
     cxx_string \<Rightarrow> int \<times> evm_host"
  ce_ValidateMapping :: "cxx_string \<Rightarrow> cxx_string \<Rightarrow> cxx_string \<Rightarrow> CTransaction \<Rightarrow> evm_host \<Rightarrow> int"
  ce_ContractInfoAdd :: "evm_host \<Rightarrow> cxx_string \<Rightarrow> u32 \<Rightarrow> u32 \<Rightarrow> (cxx_string, cxx_string) std_map \<Rightarrow>
     int \<times> contract_info \<times> (cxx_string, cxx_string) std_map"
  ce_invoked :: "evm_host \<Rightarrow> cxx_string list"
  ce_default_addr :: cxx_string
  ce_evm :: evm_env

text \<open>The container shared by the executions of a group.\<close>

definition container_set :: "(cxx_string \<times> cxx_string) list \<Rightarrow> (cxx_string, cxx_string) std_map \<Rightarrow> (cxx_string, cxx_string) std_map" where
  "container_set jStorage m = foldl (\<lambda>m (k, v). map_assign k v m) m jStorage"

definition container_get :: "cxx_string \<Rightarrow> (cxx_string, cxx_string) std_map \<Rightarrow> cxx_string option" where
  "container_get key m = map_of m key"

text \<open>
  The address and asset that pay the gas: the last output set marked for it, or the first one of a
  flow message; of one kind of call the only output set is passed over.
\<close>

fun gas_trade :: "bool \<Rightarrow> nat \<Rightarrow> bool \<Rightarrow> cxx_string \<times> cxx_string \<Rightarrow> CTxUtxos list \<Rightarrow> cxx_string \<times> cxx_string" where
  "gas_trade mapped sz flag trade [] = trade"
| "gas_trade mapped sz flag trade (utxo # utxos) =
     (if \<not> flag \<and> mapped \<and> length (ux_vout utxo) = 2 \<and> ux_vin utxo = [] \<and> sz = 1 then gas_trade mapped sz True trade utxos
      else if ux_gasUtxo utxo \<noteq> 1 then gas_trade mapped sz flag trade utxos
      else gas_trade mapped sz flag
        (if ux_owner utxo \<noteq> [] \<and> ux_assetType utxo \<noteq> [] then (hd (ux_owner utxo), ux_assetType utxo) else trade) utxos)"

definition gasTrade :: "tx_info \<Rightarrow> CTransaction \<Rightarrow> (cxx_string \<times> cxx_string) run" where
  "gasTrade i transaction =
     (let first = (case tx_utxos transaction of u # _ \<Rightarrow> (case ux_owner u of o1 # _ \<Rightarrow> Ret (o1, ux_assetType u) | [] \<Rightarrow> Undefined)
                   | [] \<Rightarrow> Undefined) in
      bind_run (if if_CallType i = [] \<and> if_transmitFlowMessage i \<noteq> [] then first else Ret ([], [])) (\<lambda>start.
        Ret (gas_trade (if_CallType i \<noteq> []) (length (tx_utxos transaction)) False start (tx_utxos transaction))))"

text \<open>
  The run of the machine: an error or the host after it. The check of a new contract's address answers a
  truth value, which is compared with zero as an error code and never rejects.
\<close>

definition run_contract ::
    "exec_env \<Rightarrow> evm_env \<Rightarrow> tx_info \<Rightarrow> CTransaction \<Rightarrow> cxx_string \<Rightarrow> cxx_string \<Rightarrow> 64 word \<Rightarrow> (int + evm_host) run" where
  "run_contract env ev i transaction fromAddr gas blockNumber =
     (let blockTimestamp = GetBlockTimestamp (ce_num env) transaction; blockPrevRandao = get_block_prev_randao (ce_num env) transaction in
      if tx_txType transaction = kTransactionTypeDeploy then
        bind_run (VerifyContractAddress ev fromAddr (if_recipient i)) (\<lambda>_.
          if if_input i = [] then Ret (Inl (-21))
          else if blockTimestamp <s 0 then Ret (Inl (-5))
          else if blockPrevRandao <s 0 then Ret (Inl (-6))
          else case ce_DeployContract env ev fromAddr ((EvmHost_new True)\<lparr>eh_code := StringTobytes ev (if_input i)\<rparr>)
                 (if_recipient i) blockTimestamp blockPrevRandao blockNumber gas of
            (ret, host) \<Rightarrow> Ret (if ret \<noteq> 0 then Inl (ret - 100) else Inr host))
      else
        bind_run (GetContractCode ev (if_recipient i)) (\<lambda>(ret, contractCode).
          if ret \<noteq> 0 then Ret (Inl (-2))
          else if blockTimestamp <s 0 then Ret (Inl (-5))
          else if blockPrevRandao <s 0 then Ret (Inl (-6))
          else case ce_CallContract env ev fromAddr (if_input i) ((EvmHost_new True)\<lparr>eh_code := contractCode\<rparr>) (if_transfer i)
                 (if_recipient i) blockTimestamp blockPrevRandao blockNumber gas of
            (ret, host) \<Rightarrow> if ret \<noteq> 0 then Ret (Inl (ret - 200))
              else if if_CallType i \<noteq> [] \<and> ce_ValidateMapping env (if_input i) (if_recipient i) (if_sender i) transaction host \<noteq> 0
              then Ret (Inl (-4)) else Ret (Inr host)))"

type_synonym exec_state = "tx_cache \<times> (cxx_string, cxx_string) std_map \<times> (cxx_string, cxx_string) std_map"

text \<open>The state: the pool, the previous transactions of the group's contracts and its container.\<close>

definition addContractInfoCache ::
    "exec_env \<Rightarrow> CTransaction \<Rightarrow> 64 word \<Rightarrow> exec_state \<Rightarrow> (int \<times> exec_state) run" where
  "addContractInfoCache env transaction blockNumber st =
     (case st of (c, preHashCache, data) \<Rightarrow>
      if \<not> is_contract_tx transaction then Ret (0, st)
      else case ce_info env (tx_txType transaction) (tx_data transaction) of
        None \<Rightarrow> Ret (-2, st)
      | Some i \<Rightarrow> bind_run (gasTrade i transaction) (\<lambda>gas.
          let (ret, fromAddr) = ce_call_from env transaction in
          if ret \<noteq> 0 then Ret (-1, st)
          else
            let finish = (\<lambda>info called st.
                  case st of (c, preHashCache, data) \<Rightarrow>
                  if \<not> verifyDirtyContractFlag (tx_hash transaction) called c then Ret (-7, st)
                  else Ret (0, addContractInfoToCache (tx_hash transaction) (info\<lparr>ci_coinbase := ce_default_addr env\<rparr>) (tx_time transaction) c,
                            preHashCache, data)) in
            if if_vm i \<noteq> EVM then finish \<lparr>ci_preHashes = [], ci_storage = [], ci_output = [], ci_coinbase = []\<rparr> [] st
            else if if_sender i \<noteq> fromAddr then Ret (-3, st)
            else bind_run (run_contract env ((ce_evm env)\<lparr>ev_data := data\<rparr>) i transaction fromAddr (snd gas) blockNumber) (\<lambda>r.
              case r of Inl err \<Rightarrow> Ret (err, st)
              | Inr host \<Rightarrow>
                  case ce_ContractInfoAdd env host (tx_hash transaction) (tx_txType transaction) (tx_version transaction) preHashCache of
                    (ret, info, preHashCache) \<Rightarrow>
                    if ret \<noteq> 0 then Ret (-4, c, preHashCache, data)
                    else finish (info\<lparr>ci_output := eh_output host\<rparr>) (ce_invoked env host)
                           (c, preHashCache, container_set (ci_storage info) data))))"

text \<open>A group in the order of its hashes; the first failure ends it. The hash that failed is answered.\<close>

fun execute_txs :: "exec_env \<Rightarrow> 64 word \<Rightarrow> (cxx_string \<times> CTransaction) list \<Rightarrow> exec_state \<Rightarrow> (int \<times> cxx_string \<times> tx_cache) run" where
  "execute_txs env blockNumber [] st = Ret (0, [], fst st)"
| "execute_txs env blockNumber ((h, tx) # txs) st =
     (if \<not> is_contract_tx tx then Ret (-1, tx_hash tx, fst st)
      else bind_run (addContractInfoCache env tx (blockNumber + 1) st) (\<lambda>(ret, st).
        if ret \<noteq> 0 then Ret (-1, tx_hash tx, fst st) else execute_txs env blockNumber txs st))"

definition executeContracts ::
    "exec_env \<Rightarrow> (cxx_string \<times> CTransaction) list \<Rightarrow> 64 word \<Rightarrow> tx_cache \<Rightarrow> (int \<times> cxx_string \<times> tx_cache) run" where
  "executeContracts env txs blockNumber c = execute_txs env blockNumber txs (c, [], [])"

subsection \<open>Agreement about the contracts\<close>

text \<open>The contracts the transactions build on, those left out that build on another transaction of the block.\<close>

fun pre_hashes :: "tx_cache \<Rightarrow> CTransaction list \<Rightarrow> (cxx_string, (cxx_string \<times> cxx_string) list) std_map \<Rightarrow>
    (cxx_string, (cxx_string \<times> cxx_string) list) std_map option" where
  "pre_hashes c [] m = Some m"
| "pre_hashes c (tx # txs) m =
     (if tx_txType tx = kTransactionTypeDeploy then pre_hashes c txs m
      else case get_contract_info_cache (tx_hash tx) c of
        None \<Rightarrow> None
      | Some info \<Rightarrow> pre_hashes c txs
          (if ci_preHashes info = [] then m
           else map_assign (tx_hash tx) ((case map_of m (tx_hash tx) of None \<Rightarrow> [] | Some ps \<Rightarrow> ps) @ ci_preHashes info) m))"

fun check_pairs :: "reader \<Rightarrow> (cxx_string \<Rightarrow> bool) \<Rightarrow> (cxx_string \<times> cxx_string) list \<Rightarrow> (cxx_string \<times> cxx_string) list \<Rightarrow>
    (int \<times> (cxx_string \<times> cxx_string) list) run" where
  "check_pairs rd inside [] acc = Ret (0, acc)"
| "check_pairs rd inside ((addr, pre) # ps) acc =
     (if inside pre then check_pairs rd inside ps acc
      else bind_run (getLatestUtxoByContractAddr rd addr []) (\<lambda>(st, dbContractPreHash).
        if st \<noteq> DB_SUCCESS then Ret (-2, acc)
        else if dbContractPreHash \<noteq> pre then Ret (-3, acc)
        else check_pairs rd inside ps (acc @ [(addr, pre)])))"

definition fetchContractTxPreHash :: "reader \<Rightarrow> tx_cache \<Rightarrow> CTransaction list \<Rightarrow> (int \<times> (cxx_string \<times> cxx_string) list) run" where
  "fetchContractTxPreHash rd c txs =
     (case pre_hashes c txs [] of
        None \<Rightarrow> Ret (-1, [])
      | Some m \<Rightarrow> check_pairs rd (\<lambda>h. map_of m h \<noteq> None) (concat (map snd m)) [])"

record preHashPair =
  pp_ContractAddr :: cxx_string
  pp_RootHash :: cxx_string
  pp_blockRaw :: cxx_string

record newSeekContractPreHashAck =
  spc_msg_id :: cxx_string
  spc_self_node_id :: cxx_string
  spc_seekContractBlock :: "preHashPair list"

fun seek_blocks :: "reader \<Rightarrow> preHashPair list \<Rightarrow> preHashPair list \<Rightarrow> (int \<times> preHashPair list) run" where
  "seek_blocks rd [] acc = Ret (0, acc)"
| "seek_blocks rd (p # ps) acc =
     bind_run (getLatestUtxoByContractAddr rd (pp_ContractAddr p) []) (\<lambda>(st, dbContractPreHash).
       if st \<noteq> DB_SUCCESS then Ret (-3, acc)
       else if dbContractPreHash = pp_RootHash p then seek_blocks rd ps acc
       else bind_run (getBlockHashByTransactionHash rd dbContractPreHash []) (\<lambda>(st, prevBlockHash).
         if st \<noteq> DB_SUCCESS then Ret (-4, acc)
         else bind_run (getBlockByBlockHash rd prevBlockHash []) (\<lambda>(st, blockRaw).
           if st \<noteq> DB_SUCCESS then Ret (-5, acc)
           else seek_blocks rd ps (acc @ [\<lparr>pp_ContractAddr = pp_ContractAddr p, pp_RootHash = prevBlockHash, pp_blockRaw = blockRaw\<rparr>]))))"

text \<open>\<open>node\<close> is the peer behind the descriptor; the answer goes to its address.\<close>

definition handleSeekContractPreHashRequest ::
    "cxx_string \<Rightarrow> cxx_string option \<Rightarrow> reader \<Rightarrow> cxx_string \<Rightarrow> preHashPair list \<Rightarrow> (int \<times> (cxx_string \<times> newSeekContractPreHashAck) option) run" where
  "handleSeekContractPreHashRequest self_id node rd msg_id seekroothash =
     (case node of
        None \<Rightarrow> Ret (-1, None)
      | Some address \<Rightarrow>
          if 200 \<le> length seekroothash then Ret (-2, None)
          else bind_run (seek_blocks rd seekroothash []) (\<lambda>(ret, blocks).
            if ret \<noteq> 0 then Ret (ret, None)
            else Ret (0, Some (address, \<lparr>spc_msg_id = msg_id, spc_self_node_id = self_id, spc_seekContractBlock = blocks\<rparr>))))"

definition handleSeekContractPreHashAcknowledgement ::
    "(newSeekContractPreHashAck \<Rightarrow> cxx_string) \<Rightarrow> newSeekContractPreHashAck \<Rightarrow> cxx_string \<times> cxx_string \<times> cxx_string" where
  "handleSeekContractPreHashAcknowledgement ser msg = (spc_msg_id msg, spc_self_node_id msg, ser msg)"

text \<open>Who sent which block, and how many sent it; the code walks through the counts in the order of a hash table.\<close>

definition block_senders :: "newSeekContractPreHashAck list \<Rightarrow> (cxx_string, cxx_string set) std_map" where
  "block_senders acks = foldl (\<lambda>m ack. foldl (\<lambda>m p. map_assign (spc_self_node_id ack)
     (insert (pp_blockRaw p) (case map_of m (spc_self_node_id ack) of None \<Rightarrow> {} | Some s \<Rightarrow> s)) m) m (spc_seekContractBlock ack)) [] acks"

definition block_counts :: "(cxx_string, cxx_string set) std_map \<Rightarrow> (cxx_string, nat) std_map" where
  "block_counts m = tally (concat (map (\<lambda>(_, s). sorted_list_of_set s) m))"

text \<open>Less than the decimal 0.66 as the nearest double.\<close>

definition below_two_thirds :: "nat \<Rightarrow> nat \<Rightarrow> bool" where
  "below_two_thirds k n \<longleftrightarrow> rnd (of_nat k / of_nat n) < of_nat d066 / 2 ^ 53"

text \<open>The blocks to fetch; each new one is queued together with all before it.\<close>

fun wanted_blocks ::
    "(cxx_string \<Rightarrow> CBlock option) \<Rightarrow> reader \<Rightarrow> nat \<Rightarrow> (cxx_string \<times> nat) list \<Rightarrow> (CBlock \<times> cxx_string) list \<Rightarrow>
     (CBlock \<times> cxx_string) list list \<Rightarrow> ((CBlock \<times> cxx_string) list \<times> (CBlock \<times> cxx_string) list list) run" where
  "wanted_blocks parse rd n [] acc queued = Ret (acc, queued)"
| "wanted_blocks parse rd n ((raw, k) # es) acc queued =
     (if below_two_thirds k n then wanted_blocks parse rd n es acc queued
      else case parse raw of
        None \<Rightarrow> wanted_blocks parse rd n es acc queued
      | Some block \<Rightarrow> bind_run (getBlockByBlockHash rd (bl_hash block) []) (\<lambda>(st, _).
          if st \<noteq> DB_SUCCESS
          then let acc = acc @ [(block, bl_hash block)] in wanted_blocks parse rd n es acc (queued @ [acc])
          else wanted_blocks parse rd n es acc queued))"

text \<open>\<open>rds\<close> are the states of the database whenever it is looked at until the time is over, at least one.\<close>

fun poll_blocks :: "reader list \<Rightarrow> cxx_string list \<Rightarrow> int run" where
  "poll_blocks [] hashes = Ret (-6)"
| "poll_blocks (rd # rds) hashes =
     bind_run (each_run (\<lambda>ok h. if \<not> ok then Ret ok else bind_run (getBlockByBlockHash rd h []) (\<lambda>(st, _). Ret (st = DB_SUCCESS))) True hashes)
       (\<lambda>flag. if flag then Ret 0 else poll_blocks rds hashes)"

definition newSeekContractPreHash ::
    "chain_env \<Rightarrow> (nat \<Rightarrow> nat) \<Rightarrow> reader \<Rightarrow> reader list \<Rightarrow> Node list \<Rightarrow> (cxx_string \<Rightarrow> newSeekContractPreHashAck option) \<Rightarrow>
     (cxx_string \<Rightarrow> CBlock option) \<Rightarrow> wait_round \<Rightarrow> (int \<times> (CBlock \<times> cxx_string) list list) run" where
  "newSeekContractPreHash chain draw rd rds nodes parse_ack parse_block w =
     bind_run (getChainHeight chain rd nodes) (\<lambda>h.
       case h of None \<Rightarrow> Undefined
       | Some chainHeight \<Rightarrow>
         bind_run (get_prehash_find_node chain draw rd nodes (of_nat (length (filter (qualifies chain) nodes))) chainHeight) (\<lambda>(_, node_ids).
           if node_ids = [] then Ret (-2, [])
           else if \<not> wr_created w then Ret (-3, [])
           else if \<not> list_all (wr_added w) node_ids then Ret (-4, [])
           else if \<not> wr_complete w then Ret (-5, [])
           else let senders = block_senders (List.map_filter parse_ack (wr_answers w)) in
             bind_run (wanted_blocks parse_block rd (length senders) (block_counts senders) [] []) (\<lambda>(wanted, queued).
               bind_run (poll_blocks rds (map snd wanted)) (\<lambda>ret. Ret (ret, queued)))))"

subsection \<open>Building the block\<close>

definition expire_and_clear :: "u64 \<Rightarrow> tx_cache \<Rightarrow> tx_cache" where
  "expire_and_clear now c = (removeExpiredFromDirtyContractMap now c)\<lparr>tc_contractCache := [], tc_contractInfoCache := []\<rparr>"

text \<open>\<open>seek\<close> is what \<open>newSeekContractPreHash\<close> answers for the contracts asked about.\<close>

definition ProcessContract ::
    "tx_env \<Rightarrow> (nat \<Rightarrow> (cxx_string \<times> nat) option) \<Rightarrow> reader \<Rightarrow> ((cxx_string \<times> cxx_string) list \<Rightarrow> int) \<Rightarrow> u64 \<Rightarrow> u64 \<Rightarrow> tx_cache \<Rightarrow>
     block_storage \<Rightarrow> (tx_cache \<times> block_storage \<times> BlockMsg list) run" where
  "ProcessContract env fut rd seek now topTransactionHeight c s =
     (let txs = map tn_tx (tc_contractCache c) in
      bind_run (getBlockTop rd 0) (\<lambda>(st, block_top).
        if st \<noteq> DB_SUCCESS then Ret (c, s, [])
        else bind_run (if topTransactionHeight < block_top then commitLookupTask block_top s else Ret s) (\<lambda>s.
          let height = max topTransactionHeight block_top; over = expire_and_clear now c in
          if txs = [] then Ret (c, s, [])
          else bind_run (fetchContractTxPreHash rd c txs) (\<lambda>(ret, pairs).
            if ret \<noteq> 0 then Ret (over, s, [])
            else if pairs \<noteq> [] \<and> seek pairs \<noteq> 0 then Ret (over, s, [])
            else case BuildBlock env fut now c txs height s of (ret, s, msgs) \<Rightarrow> Ret (over, s, msgs)))))"

subsection \<open>A message of contract transactions\<close>

record pack_env =
  pe_parse :: "cxx_string \<Rightarrow> CTransaction option"
  pe_handle :: "TxMsgReq \<Rightarrow> tx_cache \<Rightarrow> int \<times> tx_cache"
  pe_order :: "Hash_Depend \<Rightarrow> deps"

definition Hash_Depend_new :: Hash_Depend where
  "Hash_Depend_new = \<lparr>hd_time = 0, hash_dep = Map.empty, hash_tx = Map.empty\<rparr>"

text \<open>The task that checks one transaction.\<close>

definition check_task :: "tx_env \<Rightarrow> pack_env \<Rightarrow> TxMsgReq \<Rightarrow> CTransaction \<Rightarrow> tx_cache \<Rightarrow> int \<times> tx_cache" where
  "check_task env p txMsg transaction c =
     (if \<not> hasContractPackingPermission env (tx_identity transaction) (tx_time transaction) then (-1, c) else pe_handle p txMsg c)"

record packing =
  pk_top :: u64
  pk_dispatch :: Hash_Depend
  pk_results :: "(cxx_string, int) std_map"
  pk_cache :: tx_cache

definition take_message :: "tx_env \<Rightarrow> pack_env \<Rightarrow> u64 \<Rightarrow> packing \<Rightarrow> TxMsgReq \<Rightarrow> packing" where
  "take_message env p now k txMsg =
     (case pe_parse p (tm_tx txMsg) of
        None \<Rightarrow> k
      | Some transaction \<Rightarrow>
          let c = set_dirty_contract_map now (tx_hash transaction) (set (tm_contractStorageList txMsg)) (pk_cache k);
              (ret, c) = check_task env p txMsg transaction c in
          \<lparr>pk_top = max (pk_top k) (tm_nodeHeight txMsg),
           pk_dispatch = packDispatch_Add (pk_dispatch k) now (tx_hash transaction) (tm_contractStorageList txMsg) transaction,
           pk_results = map_assign (tx_hash transaction) ret (pk_results k), pk_cache = c\<rparr>)"

type_synonym tx_group = "(cxx_string \<times> CTransaction) list"

text \<open>The maps of groups as lists, over the hashes of the message.\<close>

definition group_lists :: "cxx_string list \<Rightarrow> dependent_map \<times> tx_map \<Rightarrow> (nat \<times> tx_group) list \<times> tx_group" where
  "group_lists hashes r =
     (let entries = (\<lambda>f. List.map_filter (\<lambda>h. map_option (Pair h) (f h)) hashes) in
      (filter (\<lambda>g. snd g \<noteq> []) (map (\<lambda>n. (n, entries (fst r n))) [1..<length hashes + 1]), entries (snd r)))"

text \<open>The execution of several groups: for each number its result and failed hash.\<close>

fun execute_groups :: "exec_env \<Rightarrow> 64 word \<Rightarrow> (nat \<times> tx_group) list \<Rightarrow> tx_cache \<Rightarrow> ((nat \<times> int \<times> cxx_string) list \<times> tx_cache) run" where
  "execute_groups env h [] c = Ret ([], c)"
| "execute_groups env h ((n, g) # gs) c =
     bind_run (executeContracts env g h c) (\<lambda>(ret, failed, c).
     bind_run (execute_groups env h gs c) (\<lambda>(rs, c). Ret ((n, ret, failed) # rs, c)))"

text \<open>A transaction that failed its check leaves its group, whose results are forgotten.\<close>

definition drop_failed ::
    "(nat \<times> tx_group) list \<times> nat set \<times> tx_cache \<Rightarrow> cxx_string \<Rightarrow> (nat \<times> tx_group) list \<times> nat set \<times> tx_cache" where
  "drop_failed st hash =
     (case st of (groups, failed, c) \<Rightarrow>
      let hit = filter (\<lambda>g. hash \<in> fst ` set (snd g)) groups in
      (filter (\<lambda>g. snd g \<noteq> []) (map (\<lambda>(n, g). (n, filter (\<lambda>e. fst e \<noteq> hash) g)) groups),
       failed \<union> fst ` set hit,
       foldl (\<lambda>c g. removeContractInfoCacheRequest (fst ` set (snd g)) c) c hit))"

definition forget_alone :: "tx_group \<Rightarrow> cxx_string list \<Rightarrow> tx_cache \<Rightarrow> tx_cache" where
  "forget_alone alone hashes c = removeContractInfoCacheRequest (set hashes \<inter> fst ` set alone) c"

text \<open>A group with a failed execution leaves the pool as a whole, a transaction outside the groups alone.\<close>

definition drop_groups :: "(nat \<times> tx_group) list \<Rightarrow> (nat \<times> int \<times> cxx_string) list \<Rightarrow> tx_cache \<Rightarrow> tx_cache" where
  "drop_groups groups rs c =
     foldl (\<lambda>c (n, ret, failed). if ret = 0 then c
       else foldl (\<lambda>c g. removeContractsCacheRequest (fst ` set (snd g)) c) c (filter (\<lambda>g. failed \<in> fst ` set (snd g)) groups)) c rs"

definition drop_alone :: "(nat \<times> int \<times> cxx_string) list \<Rightarrow> tx_cache \<Rightarrow> tx_cache" where
  "drop_alone rs c = foldl (\<lambda>c (n, ret, failed). if ret = 0 then c else removeContractsCacheRequest {failed} c) c rs"

definition ContractTransaction ::
    "tx_env \<Rightarrow> exec_env \<Rightarrow> pack_env \<Rightarrow> (nat \<Rightarrow> (cxx_string \<times> nat) option) \<Rightarrow> reader \<Rightarrow> ((cxx_string \<times> cxx_string) list \<Rightarrow> int) \<Rightarrow>
     u64 \<Rightarrow> TxMsgReq list \<Rightarrow> tx_cache \<Rightarrow> block_storage \<Rightarrow> (tx_cache \<times> block_storage \<times> BlockMsg list) run" where
  "ContractTransaction env ex p fut rd seek now msgs c s =
     (let k = foldl (take_message env p now) \<lparr>pk_top = 0, pk_dispatch = Hash_Depend_new, pk_results = [], pk_cache = c\<rparr> msgs;
          h = pk_top k in
      bind_run (packDispatch_GetDependentData (pk_dispatch k) (pe_order p (pk_dispatch k)) (\<lambda>_. Map.empty, Map.empty)) (\<lambda>r.
        let (groups, alone) = group_lists (map fst (pk_results k)) r;
            failed = map fst (filter (\<lambda>(_, ret). ret \<noteq> 0) (pk_results k)) in
        bind_run (execute_groups ex h groups (pk_cache k)) (\<lambda>(rs, c).
        bind_run (execute_groups ex h (map (\<lambda>e. (0, [e])) alone) c) (\<lambda>(alone_rs, c).
          let (left, again, c) = foldl drop_failed (groups, {}, c) failed; c = forget_alone alone failed c in
          bind_run (execute_groups ex h (map (\<lambda>n. (n, case map_of left n of None \<Rightarrow> [] | Some g \<Rightarrow> g)) (sorted_list_of_set again)) c)
            (\<lambda>(rs2, c).
            let c = drop_groups left (filter (\<lambda>r. fst r \<notin> again) rs @ rs2) c; c = drop_alone alone_rs c in
            ProcessContract env fut rd seek now h c s)))))"

text \<open>
  The message as a whole: its transactions by the time they were executed for, one time after the other;
  those without a time are left out. (The member function that does this has no \<open>return\<close> at its end; the
  handler that calls it answers 0.) \<open>key_known\<close> and \<open>sign_ok\<close> tell whether the key is read and the signature
  holds, \<open>pack_verifier\<close> is \<open>ContractPackVerifier\<close>.
\<close>

definition msg_txs :: "pack_env \<Rightarrow> TxMsgReq list \<Rightarrow> CTransaction list" where
  "msg_txs p msgs = List.map_filter (\<lambda>m. pe_parse p (tm_tx m)) msgs"

definition group_by_time :: "exec_env \<Rightarrow> pack_env \<Rightarrow> TxMsgReq list \<Rightarrow> (int, TxMsgReq list) std_map" where
  "group_by_time ex p msgs = foldl (\<lambda>m txMsg. case pe_parse p (tm_tx txMsg) of
       None \<Rightarrow> m
     | Some transaction \<Rightarrow> let t = sint (GetBlockTimestamp (ce_num ex) transaction) in
         if t \<le> 0 then m else map_assign t ((case map_of m t of None \<Rightarrow> [] | Some l \<Rightarrow> l) @ [txMsg]) m) [] msgs"

definition handleContractPackagerMessage ::
    "tx_env \<Rightarrow> exec_env \<Rightarrow> pack_env \<Rightarrow> bool \<Rightarrow> bool \<Rightarrow> (cxx_string \<Rightarrow> u64 \<Rightarrow> int) \<Rightarrow> (nat \<Rightarrow> (cxx_string \<times> nat) option) \<Rightarrow> reader \<Rightarrow>
     ((cxx_string \<times> cxx_string) list \<Rightarrow> int) \<Rightarrow> u64 \<Rightarrow> TxMsgReq list \<Rightarrow> tx_cache \<Rightarrow> block_storage \<Rightarrow>
     (tx_cache \<times> block_storage \<times> BlockMsg list) run" where
  "handleContractPackagerMessage env ex p key_known sign_ok pack_verifier fut rd seek now msgs c s =
     (if \<not> key_known then Ret (c, s, [])
      else if \<not> sign_ok then Ret (c, s, [])
      else let input = fe_sha256 (xe_flow env) (concat (map tx_hash (msg_txs p msgs)));
               maxTxTime = foldl max 0 (map tx_time (msg_txs p msgs)) in
        if pack_verifier input maxTxTime \<noteq> 0 then Ret (c, s, [])
        else each_run (\<lambda>(c, s, out) (_, group).
               bind_run (ContractTransaction env ex p fut rd seek now group c s) (\<lambda>(c, s, blocks). Ret (c, s, out @ blocks)))
             (c, s, []) (group_by_time ex p msgs))"

end
