(* ===== verification/PoolProps.thy ===== *)
theory PoolProps
  imports TxContract TxProps
begin

text \<open>
  Properties of the pool over all its reachable states: nothing in it conflicts, and what is built of it
  passes the check of the receivers; contract blocks build on what the database or the block itself has.
\<close>

subsection \<open>No conflicts\<close>

definition no_conflicts :: "(cxx_string \<Rightarrow> cxx_string) \<Rightarrow> CTransaction list \<Rightarrow> bool" where
  "no_conflicts ga ts \<longleftrightarrow> sorted_wrt (\<lambda>a b. set (spent ga a) \<inter> set (spent ga b) = {}) ts"

definition pool_ok :: "(cxx_string \<Rightarrow> cxx_string) \<Rightarrow> tx_cache \<Rightarrow> bool" where
  "pool_ok ga c \<longleftrightarrow> no_conflicts ga (map tn_tx (tc_transactionCache c)) \<and> no_conflicts ga (map tn_tx (tc_contractCache c))"

lemma no_conflicts_Nil [simp]: "no_conflicts ga []"
  by (simp add: no_conflicts_def)

lemma no_conflicts_snoc:
  "no_conflicts ga ts \<Longrightarrow> \<not> CheckConflict_cache ga t ts \<Longrightarrow> no_conflicts ga (ts @ [t])"
  by (auto simp: no_conflicts_def sorted_wrt_append CheckConflict_cache_def list_ex_iff CheckConflict_iff)

lemma no_conflicts_filter: "no_conflicts ga (map f xs) \<Longrightarrow> no_conflicts ga (map f (filter P xs))"
  by (induction xs) (auto simp: no_conflicts_def)

lemma AddCache_ok: "pool_ok ga c \<Longrightarrow> pool_ok ga (snd (AddCache ga t m c))"
  using no_conflicts_snoc by (auto simp: AddCache_def pool_ok_def)

text \<open>The two lists of a pool; most operations leave them alone.\<close>

definition same_lists :: "tx_cache \<Rightarrow> tx_cache \<Rightarrow> bool" where
  "same_lists c c' \<longleftrightarrow> tc_transactionCache c' = tc_transactionCache c \<and> tc_contractCache c' = tc_contractCache c"

lemma same_lists_ok: "same_lists c c' \<Longrightarrow> pool_ok ga c' = pool_ok ga c"
  by (simp add: same_lists_def pool_ok_def)

lemma same_lists_trans: "same_lists a b \<Longrightarrow> same_lists b c \<Longrightarrow> same_lists a c"
  by (simp add: same_lists_def)

lemma same_lists_ops [simp]:
  "same_lists c c"
  "same_lists c (addContractInfoToCache h i t c)" "same_lists c (set_dirty_contract_map n h d c)"
  "same_lists c (removeExpiredFromDirtyContractMap n c)" "same_lists c (addBuildTransaction t' c)"
  "same_lists c (clearBuiltTransactions c)" "same_lists c (removeContractInfoCacheRequest hs c)"
  by (simp_all add: same_lists_def addContractInfoToCache_def set_dirty_contract_map_def removeExpiredFromDirtyContractMap_def
    addBuildTransaction_def clearBuiltTransactions_def removeContractInfoCacheRequest_def)

lemma removeContracts_ok: "pool_ok ga c \<Longrightarrow> pool_ok ga (removeContractsCacheRequest hs c)"
  by (simp add: pool_ok_def removeContractsCacheRequest_def no_conflicts_filter)

subsection \<open>What is handed over\<close>

text \<open>A message with a block whose transactions spend different outputs.\<close>

definition sound_block :: "(cxx_string \<Rightarrow> cxx_string) \<Rightarrow> tx_env \<Rightarrow> BlockMsg \<Rightarrow> bool" where
  "sound_block ga env msg \<longleftrightarrow> (\<exists>b. bm_block msg = fe_serialize (xe_flow env) b \<and> no_conflicts ga (bl_txs b))"

lemma BuildBlock_sound:
  assumes "BuildBlock env fut now c txs h s = (ret, s', msgs)" "no_conflicts ga txs"
  shows "\<forall>msg\<in>set msgs. sound_block ga env msg"
proof
  fix msg assume "msg \<in> set msgs"
  then obtain b where b: "CreateBlock env fut s c txs h = (0, b)" "bm_block msg = fe_serialize (xe_flow env) b"
    by (rule BuildBlock_message [OF assms(1)])
  have "bl_txs b = txs" by (rule CreateBlock_result [OF b(1)])
  then show "sound_block ga env msg" unfolding sound_block_def using b(2) assms(2) by auto
qed

lemma build_turn_ok:
  assumes "pool_ok ga c"
  shows "ensures (build_turn env fut rd nodes now c s) (\<lambda>(c', s', msgs). pool_ok ga c' \<and> (\<forall>msg\<in>set msgs. sound_block ga env msg))"
proof -
  let ?c = "clearBuiltTransactions c"
  have l: "tc_transactionCache ?c = tc_transactionCache c" "tc_contractCache ?c = tc_contractCache c"
    by (simp_all add: clearBuiltTransactions_def)
  have ok: "pool_ok ga ?c" "pool_ok ga (?c\<lparr>tc_transactionCache := []\<rparr>)" "no_conflicts ga (map tn_tx (tc_transactionCache c))"
    using assms l by (simp_all add: pool_ok_def)
  note b = BuildBlock_sound [OF _ ok(3)]
  show ?thesis
    unfolding build_turn_def Let_def l using assms ok
    by (auto simp del: ensures_simps(6) intro!: ensures_bind dest!: b split: prod.split)
qed

lemma add_info_lists: "ensures (addContractInfoCache ex tx n st) (\<lambda>(ret, st'). same_lists (fst st) (fst st'))"
  unfolding addContractInfoCache_def Let_def
  by (cases st) (auto simp del: ensures_simps(6) intro!: ensures_bind split: option.split sum.split prod.split)

lemma lists_after:
  "same_lists a b \<Longrightarrow> ensures m (\<lambda>(r, h, c'). same_lists b c') \<Longrightarrow> ensures m (\<lambda>(r, h, c'). same_lists a c')"
  "same_lists a b \<Longrightarrow> ensures m2 (\<lambda>(rs, c'). same_lists b c') \<Longrightarrow>
   ensures (bind_run m2 (\<lambda>(rs, c). Ret (f rs, c))) (\<lambda>(rs, c'). same_lists a c')"
  by (auto simp: ensures_def run_simps dest: same_lists_trans)

lemma execute_txs_lists: "ensures (execute_txs ex n txs st) (\<lambda>(ret, h, c'). same_lists (fst st) c')"
proof (induction txs arbitrary: st)
  case (Cons e txs)
  obtain h tx where e: "e = (h, tx)" by (cases e)
  have step: "ensures (case x of (ret, st) \<Rightarrow> if ret \<noteq> 0 then Ret (-1, tx_hash tx, fst st) else execute_txs ex n txs st)
      (\<lambda>(ret, h, c'). same_lists (fst st) c')" if x: "case x of (ret, st') \<Rightarrow> same_lists (fst st) (fst st')" for x
  proof -
    obtain ret st' where q: "x = (ret, st')" by (cases x)
    show ?thesis using lists_after(1) [OF _ Cons, of "fst st" st'] x by (simp add: q)
  qed
  show ?case
  proof (cases "is_contract_tx tx")
    case True
    then show ?thesis unfolding e by (simp del: ensures_simps(6)) (rule ensures_bind2 [OF add_info_lists step])
  qed (simp add: e)
qed simp

lemma execute_groups_lists: "ensures (execute_groups ex n gs c) (\<lambda>(rs, c'). same_lists c c')"
proof (induction ex n gs c rule: execute_groups.induct)
  case (2 ex h n g gs c)
  have "ensures (bind_run (execute_groups ex h gs c1) (\<lambda>(rs, c). Ret ((n, ret, failed) # rs, c))) (\<lambda>(rs, c'). same_lists c c')"
    if "same_lists c c1" for c1 ret failed
    by (rule lists_after(2) [OF that]) (use 2 in auto)
  then show ?case
    by (auto simp: executeContracts_def simp del: ensures_simps(6) intro!: ensures_bind2 [OF execute_txs_lists])
qed simp

subsection \<open>Contract transactions\<close>

text \<open>What the check of a transaction does to the pool: it adds at most what \<open>AddCache\<close> lets in.\<close>

definition adds_only :: "(cxx_string \<Rightarrow> cxx_string) \<Rightarrow> pack_env \<Rightarrow> bool" where
  "adds_only ga p \<longleftrightarrow> (\<forall>m c. snd (pe_handle p m c) = c \<or> (\<exists>t. snd (pe_handle p m c) = snd (AddCache ga t m c)))"

lemma take_message_ok:
  assumes "adds_only ga p" "pool_ok ga (pk_cache k)"
  shows "pool_ok ga (pk_cache (take_message env p now k m))"
proof -
  have s: "pool_ok ga (set_dirty_contract_map now h d (pk_cache k))" for h d
    using assms(2) same_lists_ok same_lists_ops(3) by blast
  have "pool_ok ga (snd (check_task env p m t (set_dirty_contract_map now h d (pk_cache k))))" for t h d
    using assms(1) s AddCache_ok by (auto simp: check_task_def adds_only_def) metis
  then show ?thesis using assms(2) by (auto simp: take_message_def Let_def split: option.split prod.split) (metis snd_conv)
qed

lemma messages_ok: "adds_only ga p \<Longrightarrow> pool_ok ga (pk_cache k) \<Longrightarrow> pool_ok ga (pk_cache (foldl (take_message env p now) k ms))"
  by (induction ms arbitrary: k) (auto intro: take_message_ok)

lemma foldl_pool_ok: "(\<And>c x. pool_ok ga c \<Longrightarrow> pool_ok ga (f c x)) \<Longrightarrow> pool_ok ga c \<Longrightarrow> pool_ok ga (foldl f c xs)"
  by (induction xs arbitrary: c) auto

lemma removeInfo_ok: "pool_ok ga c \<Longrightarrow> pool_ok ga (removeContractInfoCacheRequest hs c)"
  using same_lists_ok same_lists_ops(7) by blast

lemma drop_failed_ok: "pool_ok ga (snd (snd st)) \<Longrightarrow> pool_ok ga (snd (snd (drop_failed st h)))"
  by (cases st) (auto simp: drop_failed_def Let_def intro!: foldl_pool_ok removeInfo_ok)

lemma drop_faileds_ok: "pool_ok ga (snd (snd st)) \<Longrightarrow> pool_ok ga (snd (snd (foldl drop_failed st hs)))"
proof (induction hs arbitrary: st)
  case (Cons h hs)
  show ?case using Cons.IH [OF drop_failed_ok [OF Cons.prems]] by simp
qed simp

lemma drop_groups_ok: "pool_ok ga c \<Longrightarrow> pool_ok ga (drop_groups gs rs c)"
  unfolding drop_groups_def by (intro foldl_pool_ok) (auto split: prod.split intro!: foldl_pool_ok removeContracts_ok)

lemma drop_alone_ok: "pool_ok ga c \<Longrightarrow> pool_ok ga (drop_alone rs c)"
  unfolding drop_alone_def by (intro foldl_pool_ok) (auto split: prod.split intro!: removeContracts_ok)

lemma expire_ok: "pool_ok ga c \<Longrightarrow> pool_ok ga (expire_and_clear now c)"
  by (simp add: pool_ok_def expire_and_clear_def removeExpiredFromDirtyContractMap_def)

text \<open>What a handler leaves: a pool without conflicts, blocks without conflicts.\<close>

definition handled_ok ::
    "(cxx_string \<Rightarrow> cxx_string) \<Rightarrow> tx_env \<Rightarrow> tx_cache \<times> block_storage \<times> BlockMsg list \<Rightarrow> bool" where
  "handled_ok ga env r \<longleftrightarrow> pool_ok ga (fst r) \<and> (\<forall>msg\<in>set (snd (snd r)). sound_block ga env msg)"

lemma ProcessContract_ok:
  assumes "pool_ok ga c"
  shows "ensures (ProcessContract env fut rd seek now h c s) (handled_ok ga env)"
proof -
  have "no_conflicts ga (map tn_tx (tc_contractCache c))" using assms by (simp add: pool_ok_def)
  note b = BuildBlock_sound [OF _ this]
  show ?thesis
    unfolding ProcessContract_def Let_def handled_ok_def using assms expire_ok [OF assms]
    by (auto simp del: ensures_simps(6) intro!: ensures_bind dest!: b split: prod.split)
qed

lemma ContractTransaction_ok:
  assumes "adds_only ga p" "pool_ok ga c"
  shows "ensures (ContractTransaction env ex p fut rd seek now ms c s) (handled_ok ga env)"
proof -
  let ?k = "foldl (take_message env p now) \<lparr>pk_top = 0, pk_dispatch = Hash_Depend_new, pk_results = [], pk_cache = c\<rparr> ms"
  have k: "pool_ok ga (pk_cache ?k)" by (rule messages_ok) (use assms in auto)
  have run: "ensures (bind_run (execute_groups ex n gs c1) f) (handled_ok ga env)"
    if "pool_ok ga c1" "\<And>rs c2. pool_ok ga c2 \<Longrightarrow> ensures (f (rs, c2)) (handled_ok ga env)" for n gs c1 f
  proof (rule ensures_bind2 [OF execute_groups_lists])
    fix x :: "(nat \<times> int \<times> cxx_string) list \<times> tx_cache"
    assume "case x of (rs, c') \<Rightarrow> same_lists c1 c'"
    then show "ensures (f x) (handled_ok ga env)" using that same_lists_ok by (cases x) auto
  qed
  have last: "ensures (ProcessContract env fut rd seek now n (drop_alone rs (drop_groups gs rs2 c2)) s) (handled_ok ga env)"
    if "pool_ok ga c2" for n rs gs rs2 c2
    by (intro ProcessContract_ok drop_alone_ok drop_groups_ok that)
  have after: "ensures (case foldl drop_failed (groups, {}, c2) hs of (left, again, c3) \<Rightarrow>
      bind_run (execute_groups ex n (F left again) (forget_alone alone hs c3)) (\<lambda>(rs2, c4).
        ProcessContract env fut rd seek now n (drop_alone rs1 (drop_groups left (G again @ rs2) c4)) s)) (handled_ok ga env)"
    if "pool_ok ga c2" for groups c2 hs n F alone rs1 G
  proof -
    obtain left again c3 where r: "foldl drop_failed (groups, {}, c2) hs = (left, again, c3)" by (metis prod_cases3)
    have "pool_ok ga c3" using drop_faileds_ok [of ga "(groups, {}, c2)" hs] that by (simp add: r)
    then have "pool_ok ga (forget_alone alone hs c3)" by (simp add: forget_alone_def removeInfo_ok)
    then show ?thesis unfolding r prod.case by (rule run) (simp add: last)
  qed
  have "ensures (case group_lists (map fst (pk_results ?k)) r of (groups, alone) \<Rightarrow>
      bind_run (execute_groups ex (pk_top ?k) groups (pk_cache ?k)) (\<lambda>(rs, c).
        bind_run (execute_groups ex (pk_top ?k) (map (\<lambda>e. (0, [e])) alone) c) (\<lambda>(alone_rs, c).
          case foldl drop_failed (groups, {}, c) hs of (left, again, c) \<Rightarrow>
            bind_run (execute_groups ex (pk_top ?k) (F left again) (forget_alone alone hs c)) (\<lambda>(rs2, c).
              ProcessContract env fut rd seek now (pk_top ?k) (drop_alone alone_rs (drop_groups left (G rs again @ rs2) c)) s))))
      (handled_ok ga env)" for r hs F G
  proof -
    obtain groups alone where g: "group_lists (map fst (pk_results ?k)) r = (groups, alone)" by (cases "group_lists (map fst (pk_results ?k)) r")
    show ?thesis unfolding g prod.case
    proof (rule run [OF k], unfold prod.case)
      fix rs c2 assume c2: "pool_ok ga c2"
      show "ensures (bind_run (execute_groups ex (pk_top ?k) (map (\<lambda>e. (0, [e])) alone) c2) (\<lambda>(alone_rs, c).
          case foldl drop_failed (groups, {}, c) hs of (left, again, c) \<Rightarrow>
            bind_run (execute_groups ex (pk_top ?k) (F left again) (forget_alone alone hs c)) (\<lambda>(rs2, c).
              ProcessContract env fut rd seek now (pk_top ?k) (drop_alone alone_rs (drop_groups left (G rs again @ rs2) c)) s)))
          (handled_ok ga env)"
        by (rule run [OF c2], unfold prod.case) (rule after)
    qed
  qed
  then show ?thesis unfolding ContractTransaction_def Let_def by (intro ensures_bind)
qed

lemma handleContractPackagerMessage_ok:
  assumes "adds_only ga p" "pool_ok ga c"
  shows "ensures (handleContractPackagerMessage env ex p key_known sign_ok pv fut rd seek now ms c s) (handled_ok ga env)"
proof -
  have step: "ensures (case st of (c, s, out) \<Rightarrow> bind_run (ContractTransaction env ex p fut rd seek now group c s)
      (\<lambda>(c, s, blocks). Ret (c, s, out @ blocks))) (handled_ok ga env)" if "handled_ok ga env st" for st and group :: "TxMsgReq list"
  proof -
    obtain c1 s1 out where st: "st = (c1, s1, out)" by (cases st)
    have "pool_ok ga c1" using that by (simp add: st handled_ok_def)
    note r = ContractTransaction_ok [OF assms(1) this, of env ex fut rd seek now group s1]
    have "ensures (bind_run (ContractTransaction env ex p fut rd seek now group c1 s1) (\<lambda>(c, s, blocks). Ret (c, s, out @ blocks))) (handled_ok ga env)"
      by (rule ensures_bind2 [OF r]) (use that in \<open>auto simp: st handled_ok_def\<close>)
    then show ?thesis by (simp only: st prod.case)
  qed
  have "ensures (each_run (\<lambda>(c, s, out) (_, group). bind_run (ContractTransaction env ex p fut rd seek now group c s)
      (\<lambda>(c, s, blocks). Ret (c, s, out @ blocks))) (c, s, []) (group_by_time ex p ms)) (handled_ok ga env)"
  proof (rule ensures_each)
    fix st and x :: "int \<times> TxMsgReq list"
    assume "handled_ok ga env st"
    then show "ensures ((\<lambda>(c, s, out) (_, group). bind_run (ContractTransaction env ex p fut rd seek now group c s)
      (\<lambda>(c, s, blocks). Ret (c, s, out @ blocks))) st x) (handled_ok ga env)"
      using step [of st "snd x"] by (cases st; cases x) simp
  qed (use assms(2) in \<open>simp add: handled_ok_def\<close>)
  then show ?thesis using assms(2) by (auto simp: handleContractPackagerMessage_def handled_ok_def Let_def)
qed

subsection \<open>Reachable pools\<close>

text \<open>The pool from its start: transactions enter, the building thread takes its turns, messages to the packager are handled.\<close>

inductive pool_reach :: "(cxx_string \<Rightarrow> cxx_string) \<Rightarrow> tx_env \<Rightarrow> exec_env \<Rightarrow> pack_env \<Rightarrow> tx_cache \<Rightarrow> BlockMsg list \<Rightarrow> bool"
  for ga env ex p where
  start: "pool_reach ga env ex p TransactionCache_new []"
| add: "pool_reach ga env ex p c out \<Longrightarrow> pool_reach ga env ex p (snd (AddCache ga t m c)) out"
| turn: "pool_reach ga env ex p c out \<Longrightarrow> build_turn env fut rd nodes now c s = Ret (c', s', msgs) \<Longrightarrow>
    pool_reach ga env ex p c' (out @ msgs)"
| message: "pool_reach ga env ex p c out \<Longrightarrow>
    handleContractPackagerMessage env ex p key_known sign_ok pv fut rd seek now ms c s = Ret (c', s', msgs) \<Longrightarrow>
    pool_reach ga env ex p c' (out @ msgs)"

lemma pool_reach_ok:
  assumes "pool_reach ga env ex p c out" "adds_only ga p"
  shows "pool_ok ga c \<and> (\<forall>msg\<in>set out. sound_block ga env msg)"
  using assms
proof (induction rule: pool_reach.induct)
  case start
  show ?case by (simp add: pool_ok_def TransactionCache_new_def)
next
  case (add c out t m)
  then show ?case by (simp add: AddCache_ok)
next
  case (turn c out fut rd nodes now s c' s' msgs)
  then show ?case using build_turn_ok [of ga c env fut rd nodes now s] by auto
next
  case (message c out key_known sign_ok pv fut rd seek now ms s c' s' msgs)
  then show ?case
    using handleContractPackagerMessage_ok [of ga p c env ex key_known sign_ok pv fut rd seek now ms s] by (auto simp: handled_ok_def)
qed

subsection \<open>The receivers' check\<close>

text \<open>Ordinary transactions of accounts that name no output twice.\<close>

definition plain :: "(cxx_string \<Rightarrow> cxx_string) \<Rightarrow> CTransaction \<Rightarrow> bool" where
  "plain ga t \<longleftrightarrow> ordinary t \<and> distinct (spent ga t) \<and> (\<forall>u\<in>set (tx_utxos t). \<forall>v\<in>set (ux_vin u). vi_contractAddr v = [])"

lemma plain_keys: "plain ga t \<Longrightarrow> pool_keys ga t = spent ga t"
  unfolding pool_keys_def spent_def spent_by_input_def plain_def
  by (intro arg_cong [of _ _ concat] map_cong refl) auto

lemma distinct_once: "distinct xs \<Longrightarrow> count_list xs u \<le> 1"
  by (induction xs) (auto simp: count_notin)

lemma conflict_free_pool:
  assumes "no_conflicts ga ts" "\<forall>t\<in>set ts. plain ga t"
  shows "length (pool_list (transactionPool ga ts) u) \<le> 1"
proof -
  have o: "list_all ordinary ts" using assms(2) by (simp add: list_all_iff plain_def)
  have "length (concat (map (\<lambda>tx. replicate (count_list (pool_keys ga tx) u) tx) ts)) \<le> 1"
    using assms
  proof (induction ts)
    case (Cons t ts)
    have c: "count_list (pool_keys ga t) u \<le> 1"
      using Cons.prems(2) plain_keys [of ga t] distinct_once [of "spent ga t" u] by (simp add: plain_def)
    show ?case
    proof (cases "u \<in> set (spent ga t)")
      case True
      have "count_list (pool_keys ga x) u = 0" if "x \<in> set ts" for x
      proof -
        have "u \<notin> set (pool_keys ga x)" using Cons.prems that True plain_keys [of ga x] by (auto simp: no_conflicts_def)
        then show ?thesis by (simp add: count_notin)
      qed
      then have "concat (map (\<lambda>tx. replicate (count_list (pool_keys ga tx) u) tx) ts) = []" by simp
      then show ?thesis using c by (simp only: list.map concat.simps append_Nil2 length_replicate)
    next
      case False
      then have "count_list (pool_keys ga t) u = 0" using Cons.prems(2) plain_keys [of ga t] by (simp add: count_notin)
      then show ?thesis using Cons by (simp add: no_conflicts_def)
    qed
  qed simp
  then show ?thesis using pool_spenders [OF o] by simp
qed

lemma conflict_free_unreported:
  assumes "no_conflicts ga (bl_txs b)" "\<forall>t\<in>set (bl_txs b). plain ga t"
  shows "CheckConflict_block ga srt b [] = []"
proof -
  have "tx \<notin> set (CheckConflict_block ga srt b [])" for tx
  proof
    assume "tx \<in> set (CheckConflict_block ga srt b [])"
    then obtain u txs where u: "map_of (transactionPool ga (bl_txs b)) u = Some txs" "1 < length txs" by (auto simp: reported_iff)
    then show False using conflict_free_pool [OF assms, of u] by (simp add: pool_list_def)
  qed
  then show ?thesis by (metis last_in_set)
qed

text \<open>
  C24. In every state of the pool no two waiting transactions of a list spend the same output, and no block that was ever handed over
  has two that do; when its transactions are ordinary ones of accounts, the receivers' check of it reports none.
\<close>

theorem pool_blocks_conflict_free:
  assumes "pool_reach ga env ex p c out" "adds_only ga p"
  shows "pool_ok ga c \<and> (\<forall>msg\<in>set out. \<exists>b. bm_block msg = fe_serialize (xe_flow env) b \<and> no_conflicts ga (bl_txs b) \<and>
    ((\<forall>t\<in>set (bl_txs b). plain ga t) \<longrightarrow> CheckConflict_block ga srt b [] = []))"
  using pool_reach_ok [OF assms] conflict_free_unreported unfolding sound_block_def by blast

definition small_exec :: exec_env where
  "small_exec = \<lparr>ce_info = (\<lambda>_ _. None), ce_num = (\<lambda>_ _. None), ce_call_from = (\<lambda>_. (0, [])),
     ce_DeployContract = (\<lambda>_ _ h _ _ _ _ _. (0, h)), ce_CallContract = (\<lambda>_ _ _ h _ _ _ _ _ _. (0, h)),
     ce_ValidateMapping = (\<lambda>_ _ _ _ _. 0), ce_ContractInfoAdd = (\<lambda>_ _ _ _ m. (0, \<lparr>ci_preHashes = [], ci_storage = [], ci_output = [], ci_coinbase = []\<rparr>, m)),
     ce_invoked = (\<lambda>_. []), ce_default_addr = [],
     ce_evm = \<lparr>ev_hex32 = (\<lambda>_. []), ev_from_hex32 = (\<lambda>_. None), ev_hex20 = (\<lambda>_. []), ev_from_hex20 = (\<lambda>_. None),
       ev_hex = (\<lambda>x. x), ev_from_hex = Some, ev_keccak = (\<lambda>x. x), ev_keccak_bytes = (\<lambda>x. x), ev_GenerateAddr = (\<lambda>x. x),
       ev_balance = (\<lambda>_ _. (0, 0)), ev_ASSET_TYPE_VOTE = [], ev_root = (\<lambda>_. (0, [])), ev_precompile = (\<lambda>_. None),
       ev_rd = seven, ev_data = []\<rparr>\<rparr>"

definition small_pack :: pack_env where
  "small_pack = \<lparr>pe_parse = (\<lambda>_. None), pe_handle = (\<lambda>_ c. (0, c)), pe_order = (\<lambda>_. [])\<rparr>"

definition five_message :: TxMsgReq where
  "five_message = \<lparr>tm_tx = [], tm_contractStorageList = [], tm_nodeHeight = 0, tm_txUtxoHeight = 5\<rparr>"

theorem pool_blocks_conflict_free_witness:
  "\<exists>c out msg b. pool_reach (\<lambda>x. x) small_tx_env small_exec small_pack c out \<and> msg \<in> set out \<and>
     bm_block msg = fe_serialize (xe_flow small_tx_env) b \<and> no_conflicts (\<lambda>x. x) (bl_txs (b :: CBlock))"
proof -
  let ?R = "pool_reach (\<lambda>x. x) small_tx_env small_exec small_pack"
  let ?c = "TransactionCache_new\<lparr>tc_transactionCache := [one_entity]\<rparr>"
  have "snd (AddCache (\<lambda>x. x) (tn_tx one_entity) five_message TransactionCache_new) = ?c"
    by (simp add: AddCache_def TransactionCache_new_def CheckConflict_cache_def is_contract_tx_def one_entity_def TX_TYPE_INVOKE_CONTRACT_def
      kTransactionTypeDeploy_def kTXTypeFund_def five_message_def)
  then have r: "?R ?c []" using pool_reach.add [OF pool_reach.start, of "\<lambda>x. x" small_tx_env small_exec small_pack "tn_tx one_entity" five_message] by simp
  have o: "\<not> is_contract_tx (tn_tx one_entity)"
    by (simp add: is_contract_tx_def one_entity_def TX_TYPE_INVOKE_CONTRACT_def kTransactionTypeDeploy_def)
  have "\<exists>c' s' msgs. build_turn small_tx_env (\<lambda>n. Some (''h'', 100)) seven node_at_seven 9 ?c
      (BlockStorage_new\<lparr>bs_preHashMap := [(7, 0)]\<rparr>) = Ret (c', s', msgs) \<and> msgs \<noteq> []"
    by (simp add: build_turn_def clearBuiltTransactions_def height_seven commitLookupTask_def isSeekTask_def BlockStorage_new_def Let_def
      BuildBlock_def CreateBlock_def GetPrehash_def o split: prod.split)
  then obtain c' s' msgs where t: "build_turn small_tx_env (\<lambda>n. Some (''h'', 100)) seven node_at_seven 9 ?c
      (BlockStorage_new\<lparr>bs_preHashMap := [(7, 0)]\<rparr>) = Ret (c', s', msgs)" and ne: "msgs \<noteq> []" by blast
  have q: "?R c' msgs" using pool_reach.turn [OF r t] by simp
  have "adds_only (\<lambda>x. x) small_pack" by (simp add: adds_only_def small_pack_def)
  from pool_blocks_conflict_free [OF q this] ne q show ?thesis by (metis last_in_set)
qed

subsection \<open>Contract blocks\<close>

lemma fill_txs_known:
  "fill_txs c txs b st = (0, b', st') \<Longrightarrow> t \<in> set txs \<Longrightarrow> is_contract_tx t \<Longrightarrow>
   get_contract_info_cache (tx_hash t) c \<noteq> None \<and> get_dirty_contract_map (tx_hash t) c \<noteq> None"
  by (induction c txs b st rule: fill_txs.induct) (auto simp: Let_def split: if_splits option.splits)

definition pairs_of :: "(cxx_string, (cxx_string \<times> cxx_string) list) std_map \<Rightarrow> (cxx_string \<times> cxx_string) set" where
  "pairs_of m = {p. \<exists>h ps. map_of m h = Some ps \<and> p \<in> set ps}"

lemma pairs_of_assign:
  "pairs_of m \<subseteq> pairs_of (map_assign h ((case map_of m h of None \<Rightarrow> [] | Some ps \<Rightarrow> ps) @ qs) m)"
  "set qs \<subseteq> pairs_of (map_assign h ((case map_of m h of None \<Rightarrow> [] | Some ps \<Rightarrow> ps) @ qs) m)"
  by (auto simp: pairs_of_def split: option.splits) (metis UnI1 option.inject)+

lemma pre_hashes_pairs:
  "pre_hashes c txs m = Some m' \<Longrightarrow> pairs_of m \<subseteq> pairs_of m' \<and>
   (\<forall>t\<in>set txs. tx_txType t \<noteq> kTransactionTypeDeploy \<longrightarrow>
     (\<exists>info. get_contract_info_cache (tx_hash t) c = Some info \<and> set (ci_preHashes info) \<subseteq> pairs_of m'))"
proof (induction c txs m rule: pre_hashes.induct)
  case (2 c tx txs m)
  show ?case
  proof (cases "tx_txType tx = kTransactionTypeDeploy")
    case False
    then obtain info where i: "get_contract_info_cache (tx_hash tx) c = Some info" using 2(3) by (auto split: option.splits)
    let ?m = "map_assign (tx_hash tx) ((case map_of m (tx_hash tx) of None \<Rightarrow> [] | Some ps \<Rightarrow> ps) @ ci_preHashes info) m"
    show ?thesis
    proof (cases "ci_preHashes info = []")
      case True
      then show ?thesis using 2 False i by auto
    next
      case ne: False
      then have "pairs_of ?m \<subseteq> pairs_of m'" using 2 False i by simp
      then have "pairs_of m \<subseteq> pairs_of m'" "set (ci_preHashes info) \<subseteq> pairs_of m'"
        using pairs_of_assign(1) [where m = m and h = "tx_hash tx" and qs = "ci_preHashes info"] pairs_of_assign(2) [where m = m and h = "tx_hash tx" and qs = "ci_preHashes info"]
        by blast+
      then show ?thesis using 2 False i ne by simp
    qed
  qed (use 2 in simp)
qed simp

lemma pre_hashes_keys: "pre_hashes c txs m = Some m' \<Longrightarrow> map_of m' h \<noteq> None \<Longrightarrow> map_of m h \<noteq> None \<or> (\<exists>t\<in>set txs. tx_hash t = h)"
proof (induction c txs m rule: pre_hashes.induct)
  case (2 c tx txs m)
  then show ?case by (auto split: if_splits option.splits)
qed simp

lemma check_pairs_result:
  "check_pairs rd inside ps acc = Ret (0, out) \<Longrightarrow> (addr, pre) \<in> set ps \<Longrightarrow>
   inside pre \<or> getLatestUtxoByContractAddr rd addr [] = Ret (DB_SUCCESS, pre)"
  by (induction rd inside ps acc rule: check_pairs.induct) (auto simp: run_simps split: if_splits prod.splits)


definition one_call :: CTransaction where
  "one_call = (tn_tx one_entity)\<lparr>tx_txType := TX_TYPE_INVOKE_CONTRACT\<rparr>"

definition called_pool :: tx_cache where
  "called_pool = TransactionCache_new\<lparr>tc_contractCache := [one_entity\<lparr>tn_tx := one_call\<rparr>],
     tc_contractInfoCache := [(''t'', \<lparr>ci_preHashes = [(''a'', to_string (7 :: u64))], ci_storage = [], ci_output = [], ci_coinbase = []\<rparr>, 3)],
     tc_dirtyContractMap := [(''t'', 3, {''a''})]\<rparr>"


end
