(* ===== verification/Codecs.thy ===== *)
theory Codecs
  imports CxxString
begin

text \<open>
  Text codings of byte strings: hexadecimal (\<open>utils/hex_code.cpp\<close>) and base 64 (\<open>utils/base64.cpp\<close>).
  A C string ends at its first zero byte. Reading outside a buffer is undefined behaviour.
\<close>

definition c_str :: "cxx_string \<Rightarrow> cxx_string" where
  "c_str s = takeWhile (\<lambda>c. c \<noteq> CHR 0x00) s"

subsection \<open>Hexadecimal\<close>

text \<open>The table has 0 for everything that is no digit.\<close>

definition hexdigit_val :: "char \<Rightarrow> u8" where
  "hexdigit_val c = (let n = of_char c :: nat in
     if 48 \<le> n \<and> n \<le> 57 then of_nat (n - 48) else if 97 \<le> n \<and> n \<le> 102 then of_nat (n - 87)
     else if 65 \<le> n \<and> n \<le> 70 then of_nat (n - 55) else 0)"

text \<open>The bytes written, and whether the end was reached. After the last character of an odd number comes the zero byte.\<close>

fun decode_digits :: "cxx_string \<Rightarrow> bool \<times> cxx_string" where
  "decode_digits [] = (True, [])"
| "decode_digits (c1 # cs) =
     (let c2 = (case cs of [] \<Rightarrow> CHR 0x00 | c # _ \<Rightarrow> c); v1 = hexdigit_val c1; v2 = hexdigit_val c2 in
      if v1 = 0 \<and> c1 \<noteq> CHR ''0'' then (False, [])
      else if v2 = 0 \<and> c2 \<noteq> CHR ''0'' then (False, [])
      else case cs of [] \<Rightarrow> (False, []) | _ # rest \<Rightarrow>
        (case decode_digits rest of (ok, out) \<Rightarrow> (ok, char_of (unat (or (push_bit 4 v1) v2)) # out)))"

definition decode_hex :: "nat \<Rightarrow> cxx_string \<Rightarrow> bool \<times> cxx_string" where
  "decode_hex max_len hexstr =
     (let hexstr = (if take 2 hexstr = ''0x'' then drop 2 hexstr else hexstr) in
      if max_len * 2 < length hexstr then (False, []) else decode_digits hexstr)"

definition hexdigit :: cxx_string where "hexdigit = ''0123456789abcdef''"

definition encode_byte :: "char \<Rightarrow> cxx_string" where
  "encode_byte c = (let v = of_nat (of_char c) :: u8 in [hexdigit ! unat (drop_bit 4 v), hexdigit ! unat (and v 15)])"

definition encode_hex :: "cxx_string \<Rightarrow> cxx_string" where
  "encode_hex p = concat (map encode_byte p)"

definition encode_hex_uint8_t :: "cxx_string \<Rightarrow> cxx_string" where
  "encode_hex_uint8_t p = concat (map (\<lambda>i. encode_byte (p ! i) @ (if i < length p - 1 then ''-'' else [])) [0..<length p])"

definition Str2Hex :: "cxx_string \<Rightarrow> cxx_string" where
  "Str2Hex rawStr = (if rawStr = [] then [] else encode_hex rawStr)"

text \<open>
  The result of \<open>decode_hex\<close> is not looked at: after a failure the number of bytes is still that of the
  text, which is more than the buffer has.
\<close>

definition Hex2Str :: "cxx_string \<Rightarrow> cxx_string run" where
  "Hex2Str hexStr =
     (let sz = length hexStr; room = sz div 2 + 2 in
      if sz = 0 then Ret []
      else case decode_hex room (c_str hexStr) of (ok, out) \<Rightarrow>
        if ok then Ret out
        else if room < sz then Undefined
        else Ret (take sz (out @ replicate room (CHR 0x00))))"

subsection \<open>Base 64\<close>

definition base64Table :: cxx_string where
  "base64Table = ''ABCDEFGHIJKLMNOPQRSTUVWXYZabcdefghijklmnopqrstuvwxyz0123456789+/''"

definition base64_at :: "u8 \<Rightarrow> char" where
  "base64_at i = base64Table ! unat i"

fun Encode :: "u8 list \<Rightarrow> cxx_string" where
  "Encode (c0 # c1 # c2 # cs) =
     base64_at (drop_bit 2 c0) # base64_at (push_bit 4 (and c0 3) + drop_bit 4 c1) #
     base64_at (push_bit 2 (and c1 15) + drop_bit 6 c2) # base64_at (and c2 63) # Encode cs"
| "Encode [c0, c1] =
     [base64_at (drop_bit 2 c0), base64_at (push_bit 4 (and c0 3) + drop_bit 4 c1), base64_at (push_bit 2 (and c1 15)), CHR ''='']"
| "Encode [c0] = [base64_at (drop_bit 2 c0), base64_at (push_bit 4 (and c0 3)), CHR ''='', CHR ''='']"
| "Encode [] = []"

text \<open>The table of the decoder for the characters below 128; others are negative indices.\<close>

definition DecodeTable :: "char \<Rightarrow> int" where
  "DecodeTable c = (let n = of_char c :: int in
     if n = 9 \<or> n = 10 \<or> n = 13 \<or> n = 32 then -1 else if n = 43 then 62 else if n = 47 then 63
     else if 48 \<le> n \<and> n \<le> 57 then n + 4 else if 65 \<le> n \<and> n \<le> 90 then n - 65 else if 97 \<le> n \<and> n \<le> 122 then n - 71 else -2)"

text \<open>
  \<open>i\<close> counts the digits read. A lone padding character after one digit of a group makes a string of a
  null pointer, which the library leaves undefined.
\<close>

fun decode_base64 :: "cxx_string \<Rightarrow> nat \<Rightarrow> nat \<Rightarrow> u8 \<Rightarrow> u8 list \<Rightarrow> u8 list run" where
  "decode_base64 [] n i bin acc = Ret acc"
| "decode_base64 (ch # cs) n i bin acc =
     (if ch = CHR 0x00 \<or> n = 0 then Ret acc
      else if ch = CHR ''='' then
        if (cs = [] \<or> hd cs \<noteq> CHR ''='') \<and> i mod 4 = 1 then Undefined else decode_base64 cs (n - 1) i bin acc
      else if 128 \<le> (of_char ch :: nat) then Undefined
      else if DecodeTable ch < 0 then decode_base64 cs (n - 1) i bin acc
      else let d = of_int (DecodeTable ch) :: u8 in
        if i mod 4 = 0 then decode_base64 cs (n - 1) (i + 1) (push_bit 2 d) acc
        else if i mod 4 = 1 then decode_base64 cs (n - 1) (i + 1) (push_bit 4 (and d 15)) (acc @ [or bin (drop_bit 4 d)])
        else if i mod 4 = 2 then decode_base64 cs (n - 1) (i + 1) (push_bit 6 (and d 3)) (acc @ [or bin (drop_bit 2 d)])
        else decode_base64 cs (n - 1) (i + 1) (or bin d) (acc @ [or bin d]))"

definition Decode :: "cxx_string \<Rightarrow> nat \<Rightarrow> u8 list run" where
  "Decode str n = decode_base64 str n 0 0 []"

subsection \<open>Hexadecimal: facts\<close>

lemma hexdigits:
  assumes "n < 16"
  shows "hexdigit_val (hexdigit ! n) = of_nat n" "n = 0 \<Longrightarrow> hexdigit ! n = CHR ''0''" "hexdigit ! n \<noteq> CHR 0x00" "hexdigit ! n \<noteq> CHR ''x''"
proof -
  have "list_all (\<lambda>n. hexdigit_val (hexdigit ! n) = of_nat n \<and> hexdigit ! n \<noteq> CHR 0x00 \<and> hexdigit ! n \<noteq> CHR ''x'' \<and>
      (n = 0 \<longrightarrow> hexdigit ! n = CHR ''0'')) [0..<16]"
    by code_simp
  then show "hexdigit_val (hexdigit ! n) = of_nat n" "n = 0 \<Longrightarrow> hexdigit ! n = CHR ''0''" "hexdigit ! n \<noteq> CHR 0x00" "hexdigit ! n \<noteq> CHR ''x''"
    using assms by (auto simp: list_all_iff)
qed

lemma nibbles: "or (push_bit 4 (drop_bit 4 (v :: u8))) (and v 15) = v"
proof -
  have m: "(15 :: u8) = mask 4" by (simp add: mask_eq_exp_minus_1)
  show ?thesis unfolding m by (rule bit_word_eqI) (auto simp: bit_simps)
qed

lemma nibble_bounds: "unat (drop_bit 4 (v :: u8)) < 16" "unat (and v 15 :: u8) < 16"
proof -
  have "unat v < 256" using unsigned_less [of v, where 'a = nat] by simp
  moreover have "unat (drop_bit 4 v) = unat v div 16" by (simp add: drop_bit_eq_div unat_div)
  ultimately show "unat (drop_bit 4 v) < 16" by linarith
  have "and v 15 \<le> 15" by (rule word_and_le1)
  then show "unat (and v 15) < 16" using word_le_nat_alt [of "and v 15" 15] by simp
qed

lemma byte_char: "char_of (unat (of_nat (of_char c) :: u8)) = c"
proof -
  have "(of_char c :: nat) < 256" by simp
  then show ?thesis by (simp add: unat_of_nat take_bit_nat_eq_self)
qed

lemma decode_encoded: "decode_digits (encode_byte c @ rest) = (fst (decode_digits rest), c # snd (decode_digits rest))"
proof -
  let ?v = "of_nat (of_char c) :: u8"
  let ?a = "unat (drop_bit 4 ?v)" and ?b = "unat (and ?v 15)"
  note a = hexdigits [OF nibble_bounds(1), of ?v] and b = hexdigits [OF nibble_bounds(2), of ?v]
  have z: "drop_bit 4 ?v = 0 \<Longrightarrow> hexdigit ! ?a = CHR ''0''" "and ?v 15 = 0 \<Longrightarrow> hexdigit ! ?b = CHR ''0''"
    using a(2) b(2) by simp_all
  show ?thesis
    using z a(1) b(1) byte_char [of c] nibbles [of ?v] by (simp add: encode_byte_def Let_def split: prod.split)
qed

lemma decode_encode: "decode_digits (encode_hex p) = (True, p)"
  by (induction p) (auto simp: encode_hex_def decode_encoded)

lemma length_encode_hex [simp]: "length (encode_hex p) = 2 * length p"
  by (induction p) (auto simp: encode_hex_def encode_byte_def Let_def)

lemma encode_hex_Nil: "encode_hex p = [] \<longleftrightarrow> p = []"
  using length_encode_hex [of p] by (cases "encode_hex p") auto

lemma encode_hex_chars: "set (encode_hex p) \<subseteq> set hexdigit"
proof -
  have l: "length hexdigit = 16" by (simp add: hexdigit_def)
  have "set (encode_byte c) \<subseteq> set hexdigit" for c
    using nibble_bounds by (auto simp: encode_byte_def Let_def l)
  then show ?thesis by (auto simp: encode_hex_def)
qed

lemma c_str_hex: "c_str (encode_hex p) = encode_hex p"
proof -
  have "CHR 0x00 \<notin> set hexdigit" by (simp add: hexdigit_def)
  then show ?thesis using encode_hex_chars by (auto simp: c_str_def takeWhile_eq_all_conv)
qed

lemma no_prefix_hex: "take 2 (encode_hex p) \<noteq> ''0x''"
proof
  assume "take 2 (encode_hex p) = ''0x''"
  then have "CHR ''x'' \<in> set (encode_hex p)" using set_take_subset [of 2 "encode_hex p"] by auto
  moreover have "CHR ''x'' \<notin> set hexdigit" by (simp add: hexdigit_def)
  ultimately show False using encode_hex_chars by blast
qed

text \<open>What the decoder accepts: digits in pairs.\<close>

definition is_hex :: "char \<Rightarrow> bool" where
  "is_hex c \<longleftrightarrow> hexdigit_val c \<noteq> 0 \<or> c = CHR ''0''"

lemma decode_digits_ok: "fst (decode_digits s) \<longleftrightarrow> even (length s) \<and> list_all is_hex s"
proof (induction s rule: induct_list012)
  case (3 c1 c2 rest)
  then show ?case by (auto simp: Let_def is_hex_def split: prod.split)
qed (auto simp: Let_def)

subsection \<open>Base 64: facts\<close>

lemma base64_digits:
  assumes "n < 64"
  shows "DecodeTable (base64Table ! n) = int n" "base64Table ! n \<noteq> CHR 0x00" "base64Table ! n \<noteq> CHR ''=''"
    "(of_char (base64Table ! n) :: nat) < 128"
proof -
  have "list_all (\<lambda>n. DecodeTable (base64Table ! n) = int n \<and> base64Table ! n \<noteq> CHR 0x00 \<and> base64Table ! n \<noteq> CHR ''='' \<and>
      (of_char (base64Table ! n) :: nat) < 128) [0..<64]"
    by code_simp
  then show "DecodeTable (base64Table ! n) = int n" "base64Table ! n \<noteq> CHR 0x00" "base64Table ! n \<noteq> CHR ''=''"
    "(of_char (base64Table ! n) :: nat) < 128"
    using assms by (auto simp: list_all_iff)
qed

text \<open>One digit read at each place of a group.\<close>

lemma decode_digit:
  assumes "unat (d :: u8) < 64"
  shows "decode_base64 (base64_at d # cs) (Suc n) i bin acc =
    (if i mod 4 = 0 then decode_base64 cs n (i + 1) (push_bit 2 d) acc
     else if i mod 4 = 1 then decode_base64 cs n (i + 1) (push_bit 4 (and d 15)) (acc @ [or bin (drop_bit 4 d)])
     else if i mod 4 = 2 then decode_base64 cs n (i + 1) (push_bit 6 (and d 3)) (acc @ [or bin (drop_bit 2 d)])
     else decode_base64 cs n (i + 1) (or bin d) (acc @ [or bin d]))"
  using base64_digits [OF assms] by (simp add: base64_at_def Let_def not_le)

text \<open>Equations of bytes bit by bit.\<close>

lemma byte_eqI:
  assumes "bit (x :: u8) 0 = bit y 0" "bit x 1 = bit y 1" "bit x 2 = bit y 2" "bit x 3 = bit y 3"
    "bit x 4 = bit y 4" "bit x 5 = bit y 5" "bit x 6 = bit y 6" "bit x 7 = bit y 7"
  shows "x = y"
proof (rule bit_word_eqI)
  fix n assume "n < LENGTH(8)"
  then have "n = 0 \<or> n = 1 \<or> n = 2 \<or> n = 3 \<or> n = 4 \<or> n = 5 \<or> n = 6 \<or> n = 7" by (simp, linarith)
  then show "bit x n = bit y n" using assms by auto
qed

lemma high_bits: "8 \<le> n \<Longrightarrow> \<not> bit (x :: u8) n"
  using bit_imp_le_length [of x n] by auto

lemma masks: "(3 :: u8) = mask 2" "(15 :: u8) = mask 4" "(63 :: u8) = mask 6"
  by (simp_all add: mask_eq_exp_minus_1)

lemma few_bits: "and x 63 = x \<Longrightarrow> unat (x :: u8) < 64"
proof -
  assume "and x 63 = x"
  moreover have "and x 63 \<le> 63" by (rule word_and_le1)
  ultimately have "x \<le> 63" by simp
  then show ?thesis using word_le_nat_alt [of x 63] by simp
qed

lemma sums:
  "push_bit 4 (and a 3) + drop_bit 4 b = or (push_bit 4 (and a 3)) (drop_bit 4 b :: u8)"
  "push_bit 2 (and a 15) + drop_bit 6 b = or (push_bit 2 (and a 15)) (drop_bit 6 b :: u8)"
  unfolding masks by (rule disjunctive_add_eq_or; rule byte_eqI; simp add: bit_simps high_bits)+

lemma small_digits:
  "unat (drop_bit 2 (a :: u8)) < 64" "unat (push_bit 4 (and a 3) + drop_bit 4 b :: u8) < 64"
  "unat (push_bit 2 (and a 15) + drop_bit 6 b :: u8) < 64" "unat (and a 63 :: u8) < 64"
  "unat (push_bit 4 (and a 3) :: u8) < 64" "unat (push_bit 2 (and a 15) :: u8) < 64"
  unfolding sums by (rule few_bits; unfold masks; rule byte_eqI; simp add: bit_simps high_bits)+

lemma joined_bytes:
  "or (push_bit 2 (drop_bit 2 a)) (drop_bit 4 (push_bit 4 (and a 3) + drop_bit 4 b)) = (a :: u8)"
  "or (push_bit 4 (and (push_bit 4 (and a 3) + drop_bit 4 b) 15)) (drop_bit 2 (push_bit 2 (and b 15) + drop_bit 6 c)) = (b :: u8)"
  "or (push_bit 6 (and (push_bit 2 (and b 15) + drop_bit 6 c) 3)) (and c 63) = (c :: u8)"
  "or (push_bit 2 (drop_bit 2 a)) (drop_bit 4 (push_bit 4 (and a 3))) = (a :: u8)"
  "or (push_bit 4 (and (push_bit 4 (and a 3) + drop_bit 4 b) 15)) (drop_bit 2 (push_bit 2 (and b 15))) = (b :: u8)"
  unfolding sums unfolding masks by (rule byte_eqI; simp add: bit_simps high_bits)+

lemmas decode_group = decode_digit [OF small_digits(1)] decode_digit [OF small_digits(2)] decode_digit [OF small_digits(3)]
  decode_digit [OF small_digits(4)] decode_digit [OF small_digits(5)] decode_digit [OF small_digits(6)]

lemma group_places:
  assumes "i mod 4 = (0 :: nat)"
  shows "(i + 1) mod 4 = 1" "(i + 1 + 1) mod 4 = 2" "(i + 1 + 1 + 1) mod 4 = 3" "(i + 1 + 1 + 1 + 1) mod 4 = 0"
  using assms by presburger+

lemma places_differ: "(1 :: nat) \<noteq> 0" "(2 :: nat) \<noteq> 0" "(2 :: nat) \<noteq> 1" "(3 :: nat) \<noteq> 0" "(3 :: nat) \<noteq> 1" "(3 :: nat) \<noteq> 2"
  by simp_all

lemma decode_padding:
  assumes "i mod 4 = 0"
  shows "decode_base64 ''=='' n (i + 1 + 1) bin acc = Ret acc" "decode_base64 ''='' n (i + 1 + 1 + 1) bin acc = Ret acc"
  using group_places [OF assms] by simp_all

lemma decode_encoded64:
  "i mod 4 = 0 \<Longrightarrow> length (Encode bs) \<le> n \<Longrightarrow> decode_base64 (Encode bs) n i bin acc = Ret (acc @ bs)"
proof (induction bs arbitrary: n i bin acc rule: Encode.induct)
  case (1 c0 c1 c2 cs)
  obtain k where n: "n = Suc (Suc (Suc (Suc k)))" using 1(3) by (intro that [of "n - 4"]) simp
  note i = group_places [OF 1(2)]
  have IH: "decode_base64 (Encode cs) k (i + 1 + 1 + 1 + 1) bin acc' = Ret (acc' @ cs)" for bin acc'
    by (rule 1(1) [OF i(4)]) (use 1(3) in \<open>simp add: n\<close>)
  show ?case
    by (simp only: n Encode.simps decode_group 1(2) i places_differ simp_thms if_True if_False IH joined_bytes append_assoc append_Cons append_Nil)
next
  case (2 c0 c1)
  obtain k where n: "n = Suc (Suc (Suc (Suc k)))" using 2(2) by (intro that [of "n - 4"]) simp
  note i = group_places [OF 2(1)]
  show ?case
    by (simp only: n Encode.simps decode_group 2(1) i places_differ simp_thms if_True if_False decode_padding [OF 2(1)] joined_bytes append_assoc append_Cons append_Nil)
next
  case (3 c0)
  obtain k where n: "n = Suc (Suc (Suc (Suc k)))" using 3(2) by (intro that [of "n - 4"]) simp
  note i = group_places [OF 3(1)]
  show ?case
    by (simp only: n Encode.simps decode_group 3(1) i places_differ simp_thms if_True if_False decode_padding [OF 3(1)] joined_bytes append_assoc append_Cons append_Nil)
qed simp

subsection \<open>Properties\<close>

text \<open>
  Hexadecimal text of any byte string is read back as the string. Reading a text that is not pairs of digits
  goes past the buffer, undefined behaviour, exactly when the text has five characters or more.
\<close>

theorem hex_round_trip:
  "Hex2Str (Str2Hex s) = Ret s \<and>
   (Hex2Str t = Undefined \<longleftrightarrow> 5 \<le> length t \<and>
     (let d = (if take 2 (c_str t) = ''0x'' then drop 2 (c_str t) else c_str t) in odd (length d) \<or> \<not> list_all is_hex d))"
proof
  show "Hex2Str (Str2Hex s) = Ret s"
    by (simp add: Hex2Str_def Str2Hex_def Let_def c_str_hex decode_hex_def no_prefix_hex decode_encode encode_hex_Nil)
next
  let ?d = "if take 2 (c_str t) = ''0x'' then drop 2 (c_str t) else c_str t"
  have "length (c_str t) \<le> length t" by (simp add: c_str_def length_takeWhile_le)
  then have "\<not> (length t div 2 + 2) * 2 < length ?d" by auto
  then have d: "decode_hex (length t div 2 + 2) (c_str t) = decode_digits ?d" by (simp add: decode_hex_def Let_def)
  have b: "length t div 2 + 2 < length t \<longleftrightarrow> 5 \<le> length t" by linarith
  show "Hex2Str t = Undefined \<longleftrightarrow> 5 \<le> length t \<and> (let d = ?d in odd (length d) \<or> \<not> list_all is_hex d)"
    using decode_digits_ok [of ?d] by (cases "decode_digits ?d") (auto simp: Hex2Str_def Let_def d [simplified] b [simplified])
qed

text \<open>
  C40. Base 64 text of any bytes, padded or not, is read back as the bytes.
\<close>

theorem base64_round_trip: "Decode (Encode bs) (length (Encode bs)) = Ret bs"
  by (simp add: Decode_def decode_encoded64)

end
