(* ===== verification/SecureChannel.thy ===== *)
theory SecureChannel
  imports NetBuffers NetQueue PeerTable Doubles
begin

text \<open>
  Encrypted messages between nodes: the parts of \<open>utils/crypto.cpp\<close> that are not calls of OpenSSL,
  \<open>utils/compress.cpp\<close>, the exchange of keys (\<open>net/key_exchange.cpp\<close>), the packing of a message
  (\<open>net/pack.h\<close>) and its sending (\<open>net/api.h\<close>, \<open>net/api.cpp\<close>). OpenSSL, zlib and the generated
  protobuf code are arguments, random bytes too: \<open>None\<close> where the generator fails.
\<close>

unbundle bit_operations_syntax

definition kNetVersion :: cxx_string where "kNetVersion = ''0.0''"

subsection \<open>Compression\<close>

datatype zresult = Z_OK cxx_string | Z_BUF_ERROR nat | Z_OTHER

text \<open>zlib is given the capacity of the buffer; \<open>Z_BUF_ERROR\<close> comes with how much it has written.\<close>

record zlib =
  zl_compress :: "nat \<Rightarrow> cxx_string \<Rightarrow> cxx_string option"
  zl_uncompress :: "nat \<Rightarrow> cxx_string \<Rightarrow> zresult"

definition compress_capacity :: "nat \<Rightarrow> nat" where
  "compress_capacity n = nat \<lfloor>rnd (rnd (of_nat (n + 12) * rnd (1001 / 1000)) + 2)\<rfloor>"

definition compressFunc :: "zlib \<Rightarrow> cxx_string \<Rightarrow> cxx_string" where
  "compressFunc z rawData = (case zl_compress z (compress_capacity (length rawData)) rawData of None \<Rightarrow> [] | Some d \<Rightarrow> d)"

text \<open>Two attempts; after the second one fails for want of room, the new and still empty buffer is the result.\<close>

definition uncompressFunc :: "zlib \<Rightarrow> nat \<Rightarrow> cxx_string \<Rightarrow> cxx_string" where
  "uncompressFunc z capacity compressData =
     (case zl_uncompress z capacity compressData of
        Z_OK d \<Rightarrow> d
      | Z_OTHER \<Rightarrow> []
      | Z_BUF_ERROR n \<Rightarrow>
          (case zl_uncompress z (2 * n) compressData of
             Z_OK d \<Rightarrow> d | Z_OTHER \<Rightarrow> [] | Z_BUF_ERROR n \<Rightarrow> replicate (2 * n) (CHR 0x00)))"

subsection \<open>Cryptography\<close>

definition EC_PUBLIC_KEY_LENGTH :: nat where "EC_PUBLIC_KEY_LENGTH = 65"
definition CRYPTO_SALT_LEN :: nat where "CRYPTO_SALT_LEN = 32"
definition CRYPTO_AES_KEY_LEN :: nat where "CRYPTO_AES_KEY_LEN = 32"
definition CRYPTO_AES_IV_LEN :: nat where "CRYPTO_AES_IV_LEN = 12"
definition AES_TAG_LENGTH :: nat where "AES_TAG_LENGTH = 16"
definition CRYPTO_VERSION :: int where "CRYPTO_VERSION = 1"
definition CRYPTO_KEY_INFO :: cxx_string where "CRYPTO_KEY_INFO = ''ENCRYPTION''"

text \<open>
  The functions of OpenSSL: HMAC, the shared secret of two key pairs, AES-GCM. \<open>os_ecdh\<close> stands for
  \<open>crypto::calculate_ecdh_shared_key\<close> as a whole, for the public key and private key of one side and the public key of
  the other. That function answers \<open>ret == 0\<close>, and \<open>ret\<close> is 0 also after \<open>EC_POINT_oct2point\<close> has refused
  a public key: then it reports success and leaves the secret uninitialised, for which the argument may have any
  value. It is \<open>None\<close> where the setting of the key or the computation fails.
\<close>

record openssl =
  os_hmac :: "cxx_string \<Rightarrow> cxx_string \<Rightarrow> cxx_string"
  os_ecdh :: "cxx_string \<Rightarrow> cxx_string \<Rightarrow> cxx_string \<Rightarrow> cxx_string option"
  os_seal :: "cxx_string \<Rightarrow> cxx_string \<Rightarrow> cxx_string \<Rightarrow> (cxx_string \<times> cxx_string) option"
  os_open :: "cxx_string \<Rightarrow> cxx_string \<Rightarrow> cxx_string \<Rightarrow> cxx_string \<Rightarrow> cxx_string option"

text \<open>The lengths are passed in a byte.\<close>

definition hmac_sha256 :: "openssl \<Rightarrow> cxx_string \<Rightarrow> cxx_string \<Rightarrow> cxx_string" where
  "hmac_sha256 c key data = os_hmac c (take (length key mod 256) key) (take (length data mod 256) data)"

definition bytes_xor :: "cxx_string \<Rightarrow> cxx_string \<Rightarrow> cxx_string option" where
  "bytes_xor data1 data2 =
     (if length data1 \<noteq> length data2 then None else Some (map (\<lambda>(a, b). char_of (byte a XOR byte b)) (zip data1 data2)))"

text \<open>The key is as long as a hash, so there is one round of the expansion.\<close>

definition createHkdfBytes :: "openssl \<Rightarrow> cxx_string \<Rightarrow> cxx_string \<Rightarrow> cxx_string \<Rightarrow> cxx_string" where
  "createHkdfBytes c ecdh_shared_key salt info =
     (let prk = os_hmac c salt ecdh_shared_key in take CRYPTO_AES_KEY_LEN (os_hmac c prk (info @ [CHR 0x01])))"

record ownkey_s =
  ow_ec_pub_key :: cxx_string
  ow_ec_priv_key :: cxx_string
  ow_salt :: cxx_string

record peerkey_s =
  pe_ec_pub_key :: cxx_string
  pe_aes_key :: cxx_string
  pe_salt :: cxx_string

record EcdhKey =
  ek_own_key :: ownkey_s
  ek_peer_key :: peerkey_s

definition key_calculate :: "openssl \<Rightarrow> ownkey_s \<Rightarrow> peerkey_s \<Rightarrow> peerkey_s option" where
  "key_calculate c ownkey peerkey =
     (case bytes_xor (ow_salt ownkey) (pe_salt peerkey) of
        None \<Rightarrow> None
      | Some saltXorValue \<Rightarrow>
          (case os_ecdh c (ow_ec_pub_key ownkey) (ow_ec_priv_key ownkey) (pe_ec_pub_key peerkey) of
             None \<Rightarrow> None
           | Some shared_key \<Rightarrow> Some (peerkey\<lparr>pe_aes_key := createHkdfBytes c shared_key saltXorValue CRYPTO_KEY_INFO\<rparr>)))"

subsection \<open>Messages\<close>

record Token =
  to_salt_3bytes :: cxx_string
  to_hmac_3bytes :: cxx_string

record Ciphertext =
  ci_cipher_version :: int
  ci_aes_iv_12bytes :: cxx_string
  ci_ciphertext_nbytes :: cxx_string
  ci_aes_tag_16bytes :: cxx_string
  ci_token :: Token

record KeyInfo =
  ki_salt_32bytes :: cxx_string
  ki_ec_public_key_65bytes :: cxx_string

text \<open>\<open>KeyExchangeRequest\<close> and \<open>KeyExchangeResponse\<close> have the same fields. Of other messages the type and the bytes.\<close>

record KeyExchange =
  kx_msg_id :: cxx_string
  kx_key_info :: KeyInfo

datatype message = KeyExchangeRequest KeyExchange | KeyExchangeResponse KeyExchange | OtherMessage cxx_string cxx_string

fun message_name :: "message \<Rightarrow> cxx_string" where
  "message_name (KeyExchangeRequest _) = ''KeyExchangeRequest''"
| "message_name (KeyExchangeResponse _) = ''KeyExchangeResponse''"
| "message_name (OtherMessage name _) = name"

record CommonMsg =
  cm_version :: cxx_string
  cm_type :: cxx_string
  cm_encrypt :: int
  cm_compress :: int
  cm_data :: cxx_string

definition CommonMsg_new :: CommonMsg where
  "CommonMsg_new = \<lparr>cm_version = [], cm_type = [], cm_encrypt = 0, cm_compress = 0, cm_data = []\<rparr>"

record protobuf =
  pb_known :: "cxx_string \<Rightarrow> bool"
  pb_ser :: "message \<Rightarrow> cxx_string"
  pb_parse :: "cxx_string \<Rightarrow> cxx_string \<Rightarrow> message option"
  pb_ser_common :: "CommonMsg \<Rightarrow> cxx_string"
  pb_parse_common :: "cxx_string \<Rightarrow> CommonMsg option"
  pb_ser_cipher :: "Ciphertext \<Rightarrow> cxx_string"
  pb_parse_cipher :: "cxx_string \<Rightarrow> Ciphertext option"

record channel =
  ch_z :: zlib
  ch_c :: openssl
  ch_pb :: protobuf

text \<open>A result of another length than the text is a failure.\<close>

definition encrypt_plaintext :: "channel \<Rightarrow> cxx_string option \<Rightarrow> peerkey_s \<Rightarrow> cxx_string \<Rightarrow> (Token \<Rightarrow> Ciphertext) option" where
  "encrypt_plaintext ch rand_iv peerkey str_plaintext =
     (case rand_iv of
        None \<Rightarrow> None
      | Some iv \<Rightarrow>
          (case os_seal (ch_c ch) (pe_aes_key peerkey) iv str_plaintext of
             None \<Rightarrow> None
           | Some (ciphertextStr, aes_tag) \<Rightarrow>
               if length ciphertextStr \<noteq> length str_plaintext then None
               else Some (\<lambda>token. \<lparr>ci_cipher_version = CRYPTO_VERSION, ci_aes_iv_12bytes = iv, ci_ciphertext_nbytes = ciphertextStr,
                 ci_aes_tag_16bytes = aes_tag, ci_token = token\<rparr>)))"

definition decrypt_ciphertext :: "channel \<Rightarrow> peerkey_s \<Rightarrow> Ciphertext \<Rightarrow> cxx_string option" where
  "decrypt_ciphertext ch peerkey ciphertext =
     (case os_open (ch_c ch) (pe_aes_key peerkey) (ci_aes_iv_12bytes ciphertext) (ci_aes_tag_16bytes ciphertext) (ci_ciphertext_nbytes ciphertext) of
        None \<Rightarrow> None
      | Some plaintext \<Rightarrow> if length plaintext = length (ci_ciphertext_nbytes ciphertext) then Some plaintext else None)"

definition generate_token :: "channel \<Rightarrow> cxx_string option \<Rightarrow> cxx_string \<Rightarrow> Token option" where
  "generate_token ch random_digit ecdh_pub_key =
     (case random_digit of None \<Rightarrow> None
      | Some salt \<Rightarrow> Some \<lparr>to_salt_3bytes = salt, to_hmac_3bytes = take 3 (hmac_sha256 (ch_c ch) salt ecdh_pub_key)\<rparr>)"

text \<open>Three bytes are compared, however many the token has; behind the bytes of a string there is one zero byte.\<close>

definition verify_token :: "channel \<Rightarrow> cxx_string \<Rightarrow> Token \<Rightarrow> bool run" where
  "verify_token ch ecdh_pub_key token =
     (let hmac_256 = hmac_sha256 (ch_c ch) (to_salt_3bytes token) ecdh_pub_key in
      if length (to_hmac_3bytes token) < 2 then Undefined
      else Ret (take 3 (to_hmac_3bytes token @ [CHR 0x00]) = take 3 hmac_256))"

subsection \<open>Packing\<close>

definition set_data :: "channel \<Rightarrow> int \<Rightarrow> cxx_string \<Rightarrow> CommonMsg \<Rightarrow> CommonMsg" where
  "set_data ch compress tmp msg =
     (if compress \<noteq> 0
      then let compressData = compressFunc (ch_z ch) tmp in
        if length tmp < length compressData then msg\<lparr>cm_compress := 0, cm_data := tmp\<rparr>
        else msg\<lparr>cm_compress := compress, cm_data := compressData\<rparr>
      else msg\<lparr>cm_compress := 0, cm_data := tmp\<rparr>)"

definition initializeCommonMessageRequest :: "channel \<Rightarrow> message \<Rightarrow> int \<Rightarrow> int \<Rightarrow> CommonMsg" where
  "initializeCommonMessageRequest ch submsg encrypt compress =
     set_data ch compress (pb_ser (ch_pb ch) submsg)
       (CommonMsg_new\<lparr>cm_type := message_name submsg, cm_version := kNetVersion, cm_encrypt := encrypt\<rparr>)"

definition initializeCommonMessageRequest_key ::
    "channel \<Rightarrow> cxx_string option \<Rightarrow> cxx_string option \<Rightarrow> message \<Rightarrow> EcdhKey \<Rightarrow> int \<Rightarrow> int \<Rightarrow> bool \<times> CommonMsg" where
  "initializeCommonMessageRequest_key ch rand_iv random_digit submsg key encrypt compress =
     (let msg = CommonMsg_new\<lparr>cm_type := message_name submsg, cm_version := kNetVersion, cm_encrypt := encrypt\<rparr> in
      case encrypt_plaintext ch rand_iv (ek_peer_key key) (pb_ser (ch_pb ch) submsg) of
        None \<Rightarrow> (False, msg)
      | Some ciphertext \<Rightarrow>
          (case generate_token ch random_digit (ow_ec_pub_key (ek_own_key key)) of
             None \<Rightarrow> (False, msg)
           | Some token \<Rightarrow> (True, set_data ch compress (pb_ser_cipher (ch_pb ch) (ciphertext token)) msg)))"

subsection \<open>Keys\<close>

type_synonym keys = "(int, EcdhKey) std_map"

definition addKey :: "int \<Rightarrow> EcdhKey \<Rightarrow> keys \<Rightarrow> keys" where "addKey fd key m = map_assign fd key m"
definition removeKey :: "int \<Rightarrow> keys \<Rightarrow> keys" where "removeKey fd m = map_erase fd m"
definition hasKey :: "keys \<Rightarrow> int \<Rightarrow> bool" where "hasKey m fd \<longleftrightarrow> map_of m fd \<noteq> None"
definition getKey :: "keys \<Rightarrow> int \<Rightarrow> EcdhKey option" where "getKey m fd = (if hasKey m fd then map_of m fd else None)"

subsection \<open>Sending\<close>

text \<open>What is written into a buffer, and the task for the threads that write.\<close>

type_synonym sent = "(u32 \<times> u16 \<times> cxx_string \<times> MsgData) list"

definition SendOneMessage :: "int \<Rightarrow> u32 \<Rightarrow> u16 \<Rightarrow> NetPack \<Rightarrow> sent run" where
  "SendOneMessage fd ip port pack =
     (case packageToString pack of
        None \<Rightarrow> Undefined
      | Some msg \<Rightarrow> Ret [(ip, port, msg, \<lparr>md_type = E_WRITE, md_fd = fd, md_port = port, md_ip = ip, md_data = [], md_pack = NetPack_default, md_id = []\<rparr>)])"

definition kHighPriorityLevel2 :: "8 word" where "kHighPriorityLevel2 = 15"

text \<open>To a node; whether the message could be encrypted is not looked at.\<close>

definition SendMessage :: "channel \<Rightarrow> keys \<Rightarrow> cxx_string option \<Rightarrow> cxx_string option \<Rightarrow> Node \<Rightarrow> message \<Rightarrow> int \<Rightarrow> 8 word \<Rightarrow> (bool \<times> sent) run" where
  "SendMessage ch keys rand_iv random_digit dest msg isCompress priority =
     (case getKey keys (nd_fd dest) of
        None \<Rightarrow> Ret (False, [])
      | Some key \<Rightarrow>
          let commMsg = snd (initializeCommonMessageRequest_key ch rand_iv random_digit msg key 1 isCompress) in
          bind_run (SendOneMessage (nd_fd dest) (nd_publicIp dest) (ucast (nd_publicPort dest)) (packedCommonMessage (pb_ser_common (ch_pb ch) commMsg) priority))
            (\<lambda>out. Ret (True, out)))"

text \<open>To an address: one that is not in the table has no connection; for the node's own there is no \<open>return\<close>.\<close>

definition SendMessage_id ::
    "channel \<Rightarrow> keys \<Rightarrow> cxx_string option \<Rightarrow> cxx_string option \<Rightarrow> peers \<Rightarrow> cxx_string \<Rightarrow> message \<Rightarrow> int \<Rightarrow> 8 word \<Rightarrow> (bool \<times> sent) run" where
  "SendMessage_id ch keys rand_iv random_digit ps dest msg isCompress priority =
     (case FindNode ps dest of
        Some node \<Rightarrow> SendMessage ch keys rand_iv random_digit node msg isCompress priority
      | None \<Rightarrow>
          if dest \<noteq> nd_address (currNode ps)
          then SendMessage ch keys rand_iv random_digit ((Node_new [])\<lparr>nd_address := dest\<rparr>) msg isCompress priority
          else Undefined)"

text \<open>To where a message came from: encrypted only if a node of the table has the connection.\<close>

definition SendMessage_from ::
    "channel \<Rightarrow> keys \<Rightarrow> cxx_string option \<Rightarrow> cxx_string option \<Rightarrow> peers \<Rightarrow> MsgData \<Rightarrow> message \<Rightarrow> int \<Rightarrow> int \<Rightarrow> 8 word \<Rightarrow> (bool \<times> sent) run" where
  "SendMessage_from ch keys rand_iv random_digit ps from msg isCompress isEncrypt priority =
     (case locateNodeByFd ps (md_fd from) of
        Some node \<Rightarrow> SendMessage ch keys rand_iv random_digit node msg isCompress priority
      | None \<Rightarrow>
          bind_run (SendOneMessage (md_fd from) (md_ip from) (md_port from)
            (packedCommonMessage (pb_ser_common (ch_pb ch) (initializeCommonMessageRequest ch msg isEncrypt isCompress)) priority)) (\<lambda>out. Ret (True, out)))"

definition sendEcdhMessageRequest :: "channel \<Rightarrow> Node \<Rightarrow> KeyExchange \<Rightarrow> (bool \<times> sent) run" where
  "sendEcdhMessageRequest ch dest msg =
     bind_run (SendOneMessage (nd_fd dest) (nd_publicIp dest) (ucast (nd_publicPort dest))
       (packedCommonMessage (pb_ser_common (ch_pb ch) (initializeCommonMessageRequest ch (KeyExchangeRequest msg) 0 0)) kHighPriorityLevel2)) (\<lambda>out. Ret (True, out))"

subsection \<open>The exchange of keys\<close>

text \<open>
  The side that asks, up to the wait and after it. \<open>connectReturn\<close> is what \<open>ConnectNode\<close> returns, which may have
  set the connection of the node; the own pair of keys and the salt are \<open>None\<close> where their generation fails.
\<close>

definition keyExchangeRequest ::
    "channel \<Rightarrow> (cxx_string \<Rightarrow> cxx_string) \<Rightarrow> u64 \<Rightarrow> global_data \<Rightarrow> int \<Rightarrow> Node \<Rightarrow> (cxx_string \<times> cxx_string) option \<Rightarrow> cxx_string option \<Rightarrow>
     (int + ownkey_s \<times> cxx_string \<times> sent) run \<times> global_data" where
  "keyExchangeRequest ch sha256 now g connectReturn dest pair salt =
     (if connectReturn \<noteq> 0 then (Ret (Inl (-1)), g)
      else case pair of None \<Rightarrow> (Ret (Inl (-2)), g) | Some (pub, priv) \<Rightarrow>
        (case salt of None \<Rightarrow> (Ret (Inl (-3)), g) | Some s \<Rightarrow>
           (case CreateWait sha256 now g 3 1 of (created, msg_id, g) \<Rightarrow>
              if \<not> created then (Ret (Inl (-4)), g)
              else case AddResNode g msg_id (to_string (nd_publicIp dest) @ '':'' @ to_string (nd_publicPort dest)) of (added, g) \<Rightarrow>
                if \<not> added then (Ret (Inl (-5)), g)
                else (bind_run (sendEcdhMessageRequest ch dest \<lparr>kx_msg_id = msg_id, kx_key_info = \<lparr>ki_salt_32bytes = s, ki_ec_public_key_65bytes = pub\<rparr>\<rparr>)
                  (\<lambda>(_, out). Ret (Inr (\<lparr>ow_ec_pub_key = pub, ow_ec_priv_key = priv, ow_salt = s\<rparr>, msg_id, out))), g))))"

definition keyExchange_finish ::
    "channel \<Rightarrow> keys \<Rightarrow> Node \<Rightarrow> ownkey_s \<Rightarrow> bool \<times> cxx_string list \<Rightarrow> (int \<times> keys) run" where
  "keyExchange_finish ch m dest own waited =
     (case waited of (ok, ret_datas) \<Rightarrow>
      if \<not> ok \<and> ret_datas = [] then Ret (-6, m)
      else if 1 < length ret_datas then Ret (-7, m)
      else case ret_datas of [] \<Rightarrow> Undefined | data # _ \<Rightarrow>
        (case pb_parse (ch_pb ch) ''KeyExchangeResponse'' data of
           Some (KeyExchangeResponse r) \<Rightarrow>
             if length (ki_salt_32bytes (kx_key_info r)) \<noteq> 32 \<or> length (ki_ec_public_key_65bytes (kx_key_info r)) \<noteq> 65 then Ret (-9, m)
             else (case key_calculate (ch_c ch) own \<lparr>pe_ec_pub_key = ki_ec_public_key_65bytes (kx_key_info r), pe_aes_key = [], pe_salt = ki_salt_32bytes (kx_key_info r)\<rparr> of
                     None \<Rightarrow> Ret (-10, m)
                   | Some peer \<Rightarrow> Ret (0, addKey (nd_fd dest) \<lparr>ek_own_key = own, ek_peer_key = peer\<rparr> m))
         | _ \<Rightarrow> Ret (-8, m)))"

text \<open>
  The side that is asked. Whether its own keys and salt could be generated is not looked at: they are what
  is in the memory. The answer is sent after the key is in the table.
\<close>

definition handleKeyExchangeRequest ::
    "channel \<Rightarrow> keys \<Rightarrow> peers \<Rightarrow> cxx_string option \<Rightarrow> cxx_string option \<Rightarrow> ownkey_s \<Rightarrow> KeyExchange \<Rightarrow> MsgData \<Rightarrow> (int \<times> keys \<times> sent) run" where
  "handleKeyExchangeRequest ch m ps rand_iv random_digit own req from =
     (let info = kx_key_info req in
      if length (ki_ec_public_key_65bytes info) \<noteq> EC_PUBLIC_KEY_LENGTH \<or> length (ki_salt_32bytes info) \<noteq> CRYPTO_SALT_LEN then Ret (-1, m, [])
      else case key_calculate (ch_c ch) own \<lparr>pe_ec_pub_key = ki_ec_public_key_65bytes info, pe_aes_key = [], pe_salt = ki_salt_32bytes info\<rparr> of
        None \<Rightarrow> Ret (-2, m, [])
      | Some peer \<Rightarrow>
          let m = addKey (md_fd from) \<lparr>ek_own_key = own, ek_peer_key = peer\<rparr> m in
          bind_run (SendMessage_from ch m rand_iv random_digit ps from
            (KeyExchangeResponse \<lparr>kx_msg_id = kx_msg_id req, kx_key_info = \<lparr>ki_salt_32bytes = ow_salt own, ki_ec_public_key_65bytes = ow_ec_pub_key own\<rparr>\<rparr>)
            1 0 kHighPriorityLevel2) (\<lambda>(_, out). Ret (0, m, out)))"

definition handleKeyExchangeAcknowledgment :: "channel \<Rightarrow> global_data \<Rightarrow> KeyExchange \<Rightarrow> MsgData \<Rightarrow> global_data" where
  "handleKeyExchangeAcknowledgment ch g ack from =
     fst (snd (waitDataToAdd g (kx_msg_id ack) (to_string (md_ip from) @ '':'' @ to_string (md_port from)) (pb_ser (ch_pb ch) (KeyExchangeResponse ack))))"

end
