(* ===== verification/Dispatcher.thy ===== *)
theory Dispatcher
  imports SecureChannel
begin

text \<open>
  What becomes of a received message (\<open>net/dispatcher.cpp\<close>, \<open>net/dispatcher.h\<close>): it is counted, decompressed,
  decrypted, parsed, and given to the thread pool of the table that has a handler for its type. Handlers
  are named by their function. \<open>RegisterInterface\<close> (\<open>ca/interface.cpp\<close>) fills the tables.
\<close>

subsection \<open>Tables\<close>

datatype pool = CHAIN | NET | BROADCAST | TX | SYNC_BLOCK | SAVE_BLOCK | BLOCK

type_synonym callbacks = "(cxx_string, cxx_string) std_map"

record ProtobufDispatcher =
  chainProtocolCallbacks :: callbacks
  netProtocolCallbacks :: callbacks
  broadcastProtocol :: callbacks
  txProtocolCallbacks :: callbacks
  syncBlockProtocolCallbacks :: callbacks
  saveBlockProtocolCallbacks :: callbacks
  blockProtocolCallbacks :: callbacks

definition ProtobufDispatcher_new :: ProtobufDispatcher where
  "ProtobufDispatcher_new = \<lparr>chainProtocolCallbacks = [], netProtocolCallbacks = [], broadcastProtocol = [],
     txProtocolCallbacks = [], syncBlockProtocolCallbacks = [], saveBlockProtocolCallbacks = [], blockProtocolCallbacks = []\<rparr>"

text \<open>The functions that register and those that unregister, by the table they change.\<close>

fun register_in :: "pool \<Rightarrow> cxx_string \<Rightarrow> cxx_string \<Rightarrow> ProtobufDispatcher \<Rightarrow> ProtobufDispatcher" where
  "register_in CHAIN ty cb d = d\<lparr>chainProtocolCallbacks := map_assign ty cb (chainProtocolCallbacks d)\<rparr>"
| "register_in NET ty cb d = d\<lparr>netProtocolCallbacks := map_assign ty cb (netProtocolCallbacks d)\<rparr>"
| "register_in BROADCAST ty cb d = d\<lparr>broadcastProtocol := map_assign ty cb (broadcastProtocol d)\<rparr>"
| "register_in TX ty cb d = d\<lparr>txProtocolCallbacks := map_assign ty cb (txProtocolCallbacks d)\<rparr>"
| "register_in SYNC_BLOCK ty cb d = d\<lparr>syncBlockProtocolCallbacks := map_assign ty cb (syncBlockProtocolCallbacks d)\<rparr>"
| "register_in SAVE_BLOCK ty cb d = d\<lparr>saveBlockProtocolCallbacks := map_assign ty cb (saveBlockProtocolCallbacks d)\<rparr>"
| "register_in BLOCK ty cb d = d\<lparr>blockProtocolCallbacks := map_assign ty cb (blockProtocolCallbacks d)\<rparr>"

fun unregister_in :: "pool \<Rightarrow> cxx_string \<Rightarrow> ProtobufDispatcher \<Rightarrow> ProtobufDispatcher" where
  "unregister_in CHAIN ty d = d\<lparr>chainProtocolCallbacks := map_erase ty (chainProtocolCallbacks d)\<rparr>"
| "unregister_in NET ty d = d\<lparr>netProtocolCallbacks := map_erase ty (netProtocolCallbacks d)\<rparr>"
| "unregister_in BROADCAST ty d = d\<lparr>broadcastProtocol := map_erase ty (broadcastProtocol d)\<rparr>"
| "unregister_in TX ty d = d\<lparr>txProtocolCallbacks := map_erase ty (txProtocolCallbacks d)\<rparr>"
| "unregister_in SYNC_BLOCK ty d = d\<lparr>syncBlockProtocolCallbacks := map_erase ty (syncBlockProtocolCallbacks d)\<rparr>"
| "unregister_in SAVE_BLOCK ty d = d\<lparr>saveBlockProtocolCallbacks := map_erase ty (saveBlockProtocolCallbacks d)\<rparr>"
| "unregister_in BLOCK ty d = d\<lparr>blockProtocolCallbacks := map_erase ty (blockProtocolCallbacks d)\<rparr>"

definition interface_registrations :: "(pool \<times> cxx_string \<times> cxx_string) list" where
  "interface_registrations = [
     (CHAIN, ''GetBlockReq'', ''handleBlockFetchRequest''),
     (CHAIN, ''GetBalanceReq'', ''getBalanceRequest''),
     (CHAIN, ''GetNodeInfoReq'', ''handleGetNodeInfoRequest''),
     (CHAIN, ''GetStakeListReq'', ''handleGetStakeListRequest''),
     (CHAIN, ''GetDelegateListReq'', ''HandleGetDelegateListReq''),
     (CHAIN, ''GetUtxoReq'', ''handleGetUtxoRequest''),
     (CHAIN, ''GetAllDelegateAddressReq'', ''HandleGetAllDelegatingAddressReq''),
     (CHAIN, ''GetAllStakeNodeListReq'', ''handleGetAllStakeNodeListRequest''),
     (CHAIN, ''GetSignCountListReq'', ''handleGetSignCountListRequest''),
     (CHAIN, ''GetHeightReq'', ''getHeightRequest''),
     (CHAIN, ''GetBonusListReq'', ''processBonusListRequest''),
     (CHAIN, ''GetSDKReq'', ''getSdkAllNeedsRequest''),
     (CHAIN, ''ConfirmTransactionReq'', ''confirmTransactionRequestHandler''),
     (CHAIN, ''CheckVinReq'', ''processCheckVinRequest''),
     (CHAIN, ''CheckVinAck'', ''checkVinAcknowledge''),
     (CHAIN, ''GetRestDelegateAmountReq'', ''HandleGetRestdelegateAmountReq''),
     (CHAIN, ''BlockStatus'', ''blockStatusMessageHandler''),
     (CHAIN, ''CheckContractPreHashReq'', ''processCheckContractPreHashRequest''),
     (CHAIN, ''CheckContractPreHashAck'', ''handleContractPreHashAck''),
     (SYNC_BLOCK, ''FastSyncGetHashReq'', ''processFastSyncGetHashRequest''),
     (SYNC_BLOCK, ''FastSyncGetHashAck'', ''handleFastSyncHashAcknowledge''),
     (SYNC_BLOCK, ''FastSyncGetBlockReq'', ''handleFastSyncBlockRequest''),
     (SYNC_BLOCK, ''FastSyncGetBlockAck'', ''handleFastSyncBlockAcknowledge''),
     (SYNC_BLOCK, ''SyncGetSumHashReq'', ''processSyncSumHashRequest''),
     (SYNC_BLOCK, ''SyncGetSumHashAck'', ''syncGetSumHashAcknowledge''),
     (SYNC_BLOCK, ''SyncGetHeightHashReq'', ''handleSyncGetHeightHashRequest''),
     (SYNC_BLOCK, ''SyncGetHeightHashAck'', ''processSyncHeightHashAcknowledgement''),
     (SYNC_BLOCK, ''SyncGetBlockHeightAndHashReq'', ''syncBlockHeightAndHashRequest''),
     (SYNC_BLOCK, ''SyncGetBlockHeightAndHashAck'', ''syncBlockHeightAndHashAck''),
     (SYNC_BLOCK, ''SyncGetBlockReq'', ''handleSynchronizationBlockRequest''),
     (SYNC_BLOCK, ''SyncGetBlockAck'', ''handleSyncGetBlockAcknowledge''),
     (SYNC_BLOCK, ''SyncFromZeroGetSumHashReq'', ''syncGetSumHashRequest''),
     (SYNC_BLOCK, ''SyncFromZeroGetSumHashAck'', ''zeroSyncSumHashAcknowledge''),
     (SYNC_BLOCK, ''SyncFromZeroGetBlockReq'', ''handleSyncGetBlockRequest''),
     (SYNC_BLOCK, ''SyncFromZeroGetBlockAck'', ''handleZeroSyncBlockAcknowledge''),
     (SYNC_BLOCK, ''SyncNodeHashReq'', ''syncNodeHashRequest''),
     (SYNC_BLOCK, ''SyncNodeHashAck'', ''processSyncNodeHashAcknowledgment''),
     (SYNC_BLOCK, ''GetBlockByUtxoReq'', ''handleBlockByUtxoRequest''),
     (SYNC_BLOCK, ''GetBlockByUtxoAck'', ''handleBlockByUtxoAcknowledgment''),
     (SYNC_BLOCK, ''GetBlockByHashReq'', ''blockByHashRequest''),
     (SYNC_BLOCK, ''GetBlockByHashAck'', ''handleBlockByHashAcknowledgment''),
     (SYNC_BLOCK, ''SeekPreHashByHightReq'', ''handleSeekGetPreHashRequest''),
     (SYNC_BLOCK, ''SeekPreHashByHightAck'', ''preHashAcknowledgment''),
     (SYNC_BLOCK, ''GetCheckSumHashReq'', ''handleGetCheckSumHashRequest''),
     (SYNC_BLOCK, ''GetCheckSumHashAck'', ''handleChecksumHashAcknowledge''),
     (TX, ''TxMsgReq'', ''HandleTx''),
     (TX, ''ContractTxMsgReq'', ''contractTransactionRequest''),
     (TX, ''ContractPackagerMsg'', ''handleContractPackagerMessage''),
     (TX, ''ContractDependencyBroadcastMsg'', ''HandleContractDependencyBroadcastMsg''),
     (TX, ''VRFConsensusInfo'', ''HandleVRFConsensusInfoReq''),
     (SAVE_BLOCK, ''BuildBlockBroadcastMsg'', ''handleBuildBlockBroadcastMessage''),
     (BLOCK, ''BlockMsg'', ''HandleBlock''),
     (BLOCK, ''SendReconnectNodeReq'', ''HandleSendReconnectNodeReq''),
     (BLOCK, ''newSeekContractPreHashReq'', ''handleSeekContractPreHashRequest''),
     (BLOCK, ''newSeekContractPreHashAck'', ''handleSeekContractPreHashAcknowledgement'')]"

definition RegisterInterface :: "ProtobufDispatcher \<Rightarrow> ProtobufDispatcher" where
  "RegisterInterface d = foldl (\<lambda>d (p, ty, cb). register_in p ty cb d) d interface_registrations"

subsection \<open>Dispatch\<close>

text \<open>How many messages of a type have come, and their bytes; the type is what the message says.\<close>

type_synonym request_counts = "(cxx_string, u32 \<times> u64) std_map"

definition count_request :: "cxx_string \<Rightarrow> nat \<Rightarrow> request_counts \<Rightarrow> request_counts" where
  "count_request ty len m =
     (let (n, bytes) = (case map_of m ty of None \<Rightarrow> (0, 0) | Some c \<Rightarrow> c) in map_assign ty (n + 1, bytes + of_nat len) m)"

text \<open>The tasks given to the pools: the table that has the type first; the one for saving blocks does not end the search.\<close>

definition route :: "ProtobufDispatcher \<Rightarrow> cxx_string \<Rightarrow> int \<times> (pool \<times> cxx_string) list" where
  "route d name =
     (case map_of (blockProtocolCallbacks d) name of Some cb \<Rightarrow> (0, [(BLOCK, cb)]) | None \<Rightarrow>
      let save = (case map_of (saveBlockProtocolCallbacks d) name of Some cb \<Rightarrow> [(SAVE_BLOCK, cb)] | None \<Rightarrow> []) in
      case map_of (broadcastProtocol d) name of Some cb \<Rightarrow> (0, save @ [(BROADCAST, cb)]) | None \<Rightarrow>
      case map_of (chainProtocolCallbacks d) name of Some cb \<Rightarrow> (0, save @ [(CHAIN, cb)]) | None \<Rightarrow>
      case map_of (netProtocolCallbacks d) name of Some cb \<Rightarrow> (0, save @ [(NET, cb)]) | None \<Rightarrow>
      case map_of (txProtocolCallbacks d) name of Some cb \<Rightarrow> (0, save @ [(TX, cb)]) | None \<Rightarrow>
      case map_of (syncBlockProtocolCallbacks d) name of Some cb \<Rightarrow> (0, save @ [(SYNC_BLOCK, cb)]) | None \<Rightarrow> (-12, save))"

text \<open>The text of a message that is not one of the exchange of keys.\<close>

definition decrypt_message :: "channel \<Rightarrow> keys \<Rightarrow> int \<Rightarrow> cxx_string \<Rightarrow> (int + cxx_string) run" where
  "decrypt_message ch keys fd subSerializedMessage =
     (case pb_parse_cipher (ch_pb ch) subSerializedMessage of
        None \<Rightarrow> Ret (Inl (-6))
      | Some ciphertext \<Rightarrow>
          if length (ci_aes_iv_12bytes ciphertext) \<noteq> CRYPTO_AES_IV_LEN \<or> length (ci_aes_tag_16bytes ciphertext) \<noteq> AES_TAG_LENGTH then Ret (Inl (-7))
          else case getKey keys fd of
            None \<Rightarrow> Ret (Inl (-8))
          | Some key \<Rightarrow>
              bind_run (verify_token ch (pe_ec_pub_key (ek_peer_key key)) (ci_token ciphertext)) (\<lambda>verified.
                if \<not> verified then Ret (Inl (-9))
                else case decrypt_ciphertext ch (ek_peer_key key) ciphertext of None \<Rightarrow> Ret (Inl (-10)) | Some plaintext \<Rightarrow> Ret (Inr plaintext)))"

text \<open>
  A known type has a prototype in the generated factory, so the code's -5 for a missing one is left out.
\<close>

type_synonym tasks = "(pool \<times> cxx_string \<times> message \<times> MsgData) list"

definition Handle :: "channel \<Rightarrow> keys \<Rightarrow> ProtobufDispatcher \<Rightarrow> request_counts \<Rightarrow> MsgData \<Rightarrow> (int \<times> tasks) run \<times> request_counts" where
  "Handle ch keys d counts data =
     (case pb_parse_common (ch_pb ch) (pk_data (md_pack data)) of
        None \<Rightarrow> (Ret (-1, []), counts)
      | Some commonMsg \<Rightarrow>
          (let ty = cm_type commonMsg in
           if cm_version commonMsg \<noteq> kNetVersion then Ret (-2, [])
           else if ty = [] then Ret (-3, [])
           else if \<not> pb_known (ch_pb ch) ty then Ret (-4, [])
           else let subSerializedMessage = (if cm_compress commonMsg \<noteq> 0
               then uncompressFunc (ch_z ch) (length (cm_data commonMsg) * 10) (cm_data commonMsg) else cm_data commonMsg) in
             bind_run (if ty \<noteq> ''KeyExchangeRequest'' \<and> ty \<noteq> ''KeyExchangeResponse''
                 then decrypt_message ch keys (md_fd data) subSerializedMessage else Ret (Inr subSerializedMessage)) (\<lambda>r.
               case r of Inl err \<Rightarrow> Ret (err, [])
               | Inr str_plaintext \<Rightarrow>
                   (case pb_parse (ch_pb ch) ty str_plaintext of
                      None \<Rightarrow> Ret (-11, [])
                    | Some subMsg \<Rightarrow>
                        (case route d (message_name subMsg) of (ret, found) \<Rightarrow> Ret (ret, map (\<lambda>(p, cb). (p, cb, subMsg, data)) found))))
           , count_request (cm_type commonMsg) (length (cm_data commonMsg)) counts))"

end
