(* ===== verification/ChannelProps.thy ===== *)
theory ChannelProps
  imports Dispatcher
begin

text \<open>
  The encrypted channel end to end: what one node sends is what the other's handler is given, what a task
  of a received message proves, how the exchange of keys pairs two nodes, and when it fails to.
\<close>

subsection \<open>What the libraries promise\<close>

text \<open>
  protobuf parses what it has serialised; AES-GCM opens what it has sealed, which is as long, with a tag of
  sixteen bytes; HMAC-SHA256 has 32 bytes; zlib restores what it has compressed into a buffer that is large
  enough, and fills a smaller one.
\<close>

definition protobuf_laws :: "protobuf \<Rightarrow> bool" where
  "protobuf_laws pb \<longleftrightarrow> (\<forall>m. pb_parse pb (message_name m) (pb_ser pb m) = Some m) \<and>
     (\<forall>c. pb_parse_common pb (pb_ser_common pb c) = Some c) \<and> (\<forall>c. pb_parse_cipher pb (pb_ser_cipher pb c) = Some c)"

definition openssl_laws :: "openssl \<Rightarrow> bool" where
  "openssl_laws c \<longleftrightarrow> (\<forall>k d. length (os_hmac c k d) = 32) \<and>
     (\<forall>k iv p. length iv = 12 \<longrightarrow> (\<exists>t s. os_seal c k iv p = Some (s, t) \<and> length s = length p \<and> length t = 16 \<and> os_open c k iv t s = Some p))"

definition zlib_laws :: "zlib \<Rightarrow> bool" where
  "zlib_laws z \<longleftrightarrow> (\<forall>d. \<exists>s. zl_compress z (compress_capacity (length d)) d = Some s \<and>
     (\<forall>n. zl_uncompress z n s = (if length d \<le> n then Z_OK d else Z_BUF_ERROR n)))"

definition channel_laws :: "channel \<Rightarrow> bool" where
  "channel_laws ch \<longleftrightarrow> protobuf_laws (ch_pb ch) \<and> openssl_laws (ch_c ch) \<and> zlib_laws (ch_z ch)"

subsection \<open>One message\<close>

text \<open>Two nodes whose keys belong together, seen from the one that sends.\<close>

definition paired :: "EcdhKey \<Rightarrow> EcdhKey \<Rightarrow> bool" where
  "paired a b \<longleftrightarrow> pe_aes_key (ek_peer_key a) = pe_aes_key (ek_peer_key b) \<and> ow_ec_pub_key (ek_own_key a) = pe_ec_pub_key (ek_peer_key b)"

text \<open>A message with its random bytes and whether to compress it.\<close>

type_synonym outgoing = "message \<times> cxx_string \<times> cxx_string \<times> int"

text \<open>What is sent of it, as the code makes it.\<close>

fun packed :: "channel \<Rightarrow> EcdhKey \<Rightarrow> outgoing \<Rightarrow> CommonMsg" where
  "packed ch key (m, iv, salt, compress) = snd (initializeCommonMessageRequest_key ch (Some iv) (Some salt) m key 1 compress)"

declare packed.simps [simp del]

text \<open>
  A message that the receiver knows, not one of the exchange of keys, with an initialisation vector of
  twelve bytes, of acceptable size, and not one that compresses to less than a twentieth.
\<close>

fun fit :: "channel \<Rightarrow> EcdhKey \<Rightarrow> outgoing \<Rightarrow> bool" where
  "fit ch key (m, iv, salt, compress) \<longleftrightarrow> message_name m \<notin> {[], ''KeyExchangeRequest'', ''KeyExchangeResponse''} \<and>
     pb_known (ch_pb ch) (message_name m) \<and> length iv = 12 \<and> length (pb_ser_common (ch_pb ch) (packed ch key (m, iv, salt, compress))) + 12 \<le> 100000000 \<and>
     (let text = cm_data (packed ch key (m, iv, salt, 0)) in compress \<noteq> 0 \<longrightarrow> length text \<le> 20 * length (compressFunc (ch_z ch) text))"

lemma uncompress_set_data:
  assumes "zlib_laws (ch_z ch)" "compress \<noteq> 0 \<longrightarrow> length d \<le> 20 * length (compressFunc (ch_z ch) d)"
  shows "(let c = set_data ch compress d msg in
      if cm_compress c \<noteq> 0 then uncompressFunc (ch_z ch) (length (cm_data c) * 10) (cm_data c) else cm_data c) = d"
proof -
  obtain s where s: "zl_compress (ch_z ch) (compress_capacity (length d)) d = Some s"
    "\<And>n. zl_uncompress (ch_z ch) n s = (if length d \<le> n then Z_OK d else Z_BUF_ERROR n)"
    using assms(1) unfolding zlib_laws_def by blast
  then have "compressFunc (ch_z ch) d = s" by (simp add: compressFunc_def)
  with s(2) assms(2) show ?thesis by (auto simp: set_data_def Let_def uncompressFunc_def)
qed

lemma verify_generated:
  assumes "openssl_laws (ch_c ch)" "generate_token ch (Some salt) pub = Some t"
  shows "verify_token ch pub t = Ret True"
proof -
  have "length (hmac_sha256 (ch_c ch) salt pub) = 32" using assms(1) by (simp add: hmac_sha256_def openssl_laws_def)
  moreover have "t = \<lparr>to_salt_3bytes = salt, to_hmac_3bytes = take 3 (hmac_sha256 (ch_c ch) salt pub)\<rparr>"
    using assms(2) by (simp add: generate_token_def)
  ultimately show ?thesis by (simp add: verify_token_def Let_def)
qed

lemma set_data_fields [simp]: "cm_type (set_data ch c d msg) = cm_type msg" "cm_version (set_data ch c d msg) = cm_version msg"
  by (simp_all add: set_data_def Let_def)

lemma packed_text:
  assumes "openssl_laws (ch_c ch)" "length iv = 12" "paired a b"
  obtains c where "\<And>compress. packed ch a (m, iv, salt, compress) = set_data ch compress (pb_ser_cipher (ch_pb ch) c)
      (CommonMsg_new\<lparr>cm_type := message_name m, cm_version := kNetVersion, cm_encrypt := 1\<rparr>)"
    "length (ci_aes_iv_12bytes c) = 12" "length (ci_aes_tag_16bytes c) = 16"
    "verify_token ch (pe_ec_pub_key (ek_peer_key b)) (ci_token c) = Ret True"
    "decrypt_ciphertext ch (ek_peer_key b) c = Some (pb_ser (ch_pb ch) m)"
proof -
  let ?p = "pb_ser (ch_pb ch) m" and ?k = "pe_aes_key (ek_peer_key a)" and ?pub = "ow_ec_pub_key (ek_own_key a)"
  obtain t s where s: "os_seal (ch_c ch) ?k iv ?p = Some (s, t)" "length s = length ?p" "length t = 16" "os_open (ch_c ch) ?k iv t s = Some ?p"
    using assms(1,2) unfolding openssl_laws_def by blast
  obtain tok where tok: "generate_token ch (Some salt) ?pub = Some tok" by (simp add: generate_token_def)
  let ?c = "\<lparr>ci_cipher_version = CRYPTO_VERSION, ci_aes_iv_12bytes = iv, ci_ciphertext_nbytes = s, ci_aes_tag_16bytes = t, ci_token = tok\<rparr>"
  show ?thesis
  proof (rule that [of ?c])
    show "packed ch a (m, iv, salt, compress) = set_data ch compress (pb_ser_cipher (ch_pb ch) ?c)
        (CommonMsg_new\<lparr>cm_type := message_name m, cm_version := kNetVersion, cm_encrypt := 1\<rparr>)" for compress
      using s tok by (simp add: packed.simps initializeCommonMessageRequest_key_def encrypt_plaintext_def Let_def)
    show "verify_token ch (pe_ec_pub_key (ek_peer_key b)) (ci_token ?c) = Ret True"
      using verify_generated [OF assms(1) tok] assms(3) by (simp add: paired_def)
    show "decrypt_ciphertext ch (ek_peer_key b) ?c = Some ?p" using s assms(3) by (simp add: decrypt_ciphertext_def paired_def)
  qed (use assms(2) s in simp_all)
qed

text \<open>What the receiver does with what is packed.\<close>

lemma handle_packed:
  assumes laws: "channel_laws ch" and "getKey keys (md_fd data) = Some b" "paired a b" "fit ch a (m, iv, salt, compress)"
    and data: "pk_data (md_pack data) = pb_ser_common (ch_pb ch) (packed ch a (m, iv, salt, compress))"
  shows "fst (Handle ch keys d counts data) =
    Ret (fst (route d (message_name m)), map (\<lambda>(p, cb). (p, cb, m, data)) (snd (route d (message_name m))))"
proof -
  have l: "protobuf_laws (ch_pb ch)" "openssl_laws (ch_c ch)" "zlib_laws (ch_z ch)" using laws by (simp_all add: channel_laws_def)
  have f: "message_name m \<noteq> []" "message_name m \<noteq> ''KeyExchangeRequest''" "message_name m \<noteq> ''KeyExchangeResponse''"
    "pb_known (ch_pb ch) (message_name m)" "length iv = 12" using assms(4) by auto
  obtain c where c: "\<And>compress. packed ch a (m, iv, salt, compress) = set_data ch compress (pb_ser_cipher (ch_pb ch) c)
      (CommonMsg_new\<lparr>cm_type := message_name m, cm_version := kNetVersion, cm_encrypt := 1\<rparr>)"
    "length (ci_aes_iv_12bytes c) = 12" "length (ci_aes_tag_16bytes c) = 16"
    "verify_token ch (pe_ec_pub_key (ek_peer_key b)) (ci_token c) = Ret True"
    "decrypt_ciphertext ch (ek_peer_key b) c = Some (pb_ser (ch_pb ch) m)"
    using packed_text [OF l(2) f(5) assms(3)] by blast
  have "cm_data (packed ch a (m, iv, salt, 0)) = pb_ser_cipher (ch_pb ch) c" by (simp add: c(1) set_data_def)
  then have z: "compress \<noteq> 0 \<longrightarrow> length (pb_ser_cipher (ch_pb ch) c) \<le> 20 * length (compressFunc (ch_z ch) (pb_ser_cipher (ch_pb ch) c))"
    using assms(4) by (auto simp: Let_def)
  let ?c = "packed ch a (m, iv, salt, compress)"
  have u: "(if cm_compress ?c \<noteq> 0 then uncompressFunc (ch_z ch) (length (cm_data ?c) * 10) (cm_data ?c) else cm_data ?c) = pb_ser_cipher (ch_pb ch) c"
    using uncompress_set_data [OF l(3) z] unfolding c(1) Let_def by blast
  have "decrypt_message ch keys (md_fd data) (pb_ser_cipher (ch_pb ch) c) = Ret (Inr (pb_ser (ch_pb ch) m))"
    using l(1) c assms(2) by (simp add: decrypt_message_def protobuf_laws_def CRYPTO_AES_IV_LEN_def AES_TAG_LENGTH_def)
  moreover have "pb_parse_common (ch_pb ch) (pk_data (md_pack data)) = Some ?c" "pb_parse (ch_pb ch) (message_name m) (pb_ser (ch_pb ch) m) = Some m"
    using l(1) by (simp_all add: data protobuf_laws_def)
  moreover have "cm_type ?c = message_name m" "cm_version ?c = kNetVersion" by (simp_all add: c(1) CommonMsg_new_def)
  ultimately show ?thesis using f u by (simp add: Handle_def Let_def split_beta)
qed

lemma send_packed:
  assumes "getKey keys (nd_fd dest) = Some a" "fit ch a (m, iv, salt, compress)"
  shows "\<exists>md. SendMessage ch keys (Some iv) (Some salt) dest m compress priority =
    Ret (True, [(nd_publicIp dest, ucast (nd_publicPort dest), wire (pb_ser_common (ch_pb ch) (packed ch a (m, iv, salt, compress))) priority, md)])"
  using assms packageToString_wire by (simp add: SendMessage_def SendOneMessage_def Let_def packed.simps)

subsection \<open>A concrete channel\<close>

text \<open>
  Texts are serialised with a mark before every character and one behind the text; compression that does not
  compress, encryption that does not encrypt: enough to see that the laws can hold.
\<close>

definition put_text :: "cxx_string \<Rightarrow> cxx_string" where
  "put_text t = concat (map (\<lambda>c. [CHR 0x01, c]) t) @ [CHR 0x00]"

fun get_texts :: "cxx_string \<Rightarrow> cxx_string \<Rightarrow> cxx_string list" where
  "get_texts [] acc = []"
| "get_texts (mark # rest) acc =
     (if mark = CHR 0x00 then rev acc # get_texts rest [] else case rest of [] \<Rightarrow> [] | c # rest \<Rightarrow> get_texts rest (c # acc))"

definition put_texts :: "cxx_string list \<Rightarrow> cxx_string" where "put_texts ts = concat (map put_text ts)"

lemma get_put_text: "get_texts (put_text t @ rest) acc = (rev acc @ t) # get_texts rest []"
  by (induction t arbitrary: acc) (simp_all add: put_text_def)

lemma get_put [simp]: "get_texts (put_texts ts) [] = ts"
  by (induction ts) (simp_all add: put_texts_def get_put_text)

definition put_int :: "int \<Rightarrow> cxx_string" where "put_int n = (if n < 0 then CHR ''-'' else CHR ''+'') # replicate (nat \<bar>n\<bar>) CHR ''1''"

definition get_int :: "cxx_string \<Rightarrow> int" where "get_int t = (if hd t = CHR ''-'' then - int (length t - 1) else int (length t - 1))"

lemma get_put_int [simp]: "get_int (put_int n) = n"
  by (simp add: put_int_def get_int_def)

fun put_message :: "message \<Rightarrow> cxx_string" where
  "put_message (KeyExchangeRequest r) = put_texts [''Q'', kx_msg_id r, ki_salt_32bytes (kx_key_info r), ki_ec_public_key_65bytes (kx_key_info r)]"
| "put_message (KeyExchangeResponse r) = put_texts [''R'', kx_msg_id r, ki_salt_32bytes (kx_key_info r), ki_ec_public_key_65bytes (kx_key_info r)]"
| "put_message (OtherMessage name t) = put_texts [''O'', name, t]"

definition get_message :: "cxx_string \<Rightarrow> message option" where
  "get_message t = (case get_texts t [] of
     [kind, i, s, p] \<Rightarrow> (let r = \<lparr>kx_msg_id = i, kx_key_info = \<lparr>ki_salt_32bytes = s, ki_ec_public_key_65bytes = p\<rparr>\<rparr> in
       if kind = ''Q'' then Some (KeyExchangeRequest r) else if kind = ''R'' then Some (KeyExchangeResponse r) else None)
   | [kind, name, t] \<Rightarrow> if kind = ''O'' then Some (OtherMessage name t) else None
   | _ \<Rightarrow> None)"

definition plain_protobuf :: protobuf where
  "plain_protobuf = \<lparr>pb_known = (\<lambda>_. True), pb_ser = put_message, pb_parse = (\<lambda>_. get_message),
     pb_ser_common = (\<lambda>m. put_texts [cm_version m, cm_type m, put_int (cm_encrypt m), put_int (cm_compress m), cm_data m]),
     pb_parse_common = (\<lambda>t. case get_texts t [] of [v, ty, e, c, d] \<Rightarrow>
       Some \<lparr>cm_version = v, cm_type = ty, cm_encrypt = get_int e, cm_compress = get_int c, cm_data = d\<rparr> | _ \<Rightarrow> None),
     pb_ser_cipher = (\<lambda>c. put_texts [put_int (ci_cipher_version c), ci_aes_iv_12bytes c, ci_ciphertext_nbytes c, ci_aes_tag_16bytes c,
       to_salt_3bytes (ci_token c), to_hmac_3bytes (ci_token c)]),
     pb_parse_cipher = (\<lambda>t. case get_texts t [] of [v, iv, n, tag, s, h] \<Rightarrow>
       Some \<lparr>ci_cipher_version = get_int v, ci_aes_iv_12bytes = iv, ci_ciphertext_nbytes = n, ci_aes_tag_16bytes = tag,
         ci_token = \<lparr>to_salt_3bytes = s, to_hmac_3bytes = h\<rparr>\<rparr> | _ \<Rightarrow> None)\<rparr>"

lemma get_put_message [simp]: "get_message (put_message m) = Some m"
  by (cases m) (simp_all add: get_message_def Let_def)

definition plain_channel :: channel where
  "plain_channel = \<lparr>ch_z = \<lparr>zl_compress = (\<lambda>_. Some), zl_uncompress = (\<lambda>n s. if length s \<le> n then Z_OK s else Z_BUF_ERROR n)\<rparr>,
     ch_c = \<lparr>os_hmac = (\<lambda>k d. take 32 (d @ replicate 32 CHR ''h'')), os_ecdh = (\<lambda>pub priv pub'. Some (replicate 32 CHR ''k'')),
       os_seal = (\<lambda>k iv p. Some (p, replicate 16 CHR ''t'')), os_open = (\<lambda>k iv t s. Some s)\<rparr>,
     ch_pb = plain_protobuf\<rparr>"

lemma length_put_text [simp]: "length (put_text t) = 2 * length t + 1"
  by (induction t) (simp_all add: put_text_def)

lemma length_put_texts [simp]: "length (put_texts ts) = sum_list (map (\<lambda>t. 2 * length t + 1) ts)"
  by (induction ts) (simp_all add: put_texts_def)

lemma plain_compress: "compressFunc (ch_z plain_channel) d = d"
  by (simp add: compressFunc_def plain_channel_def)

lemma plain_serialisers: "pb_known (ch_pb plain_channel) ty" "pb_ser (ch_pb plain_channel) m = put_message m"
  "pb_ser_common (ch_pb plain_channel) c = put_texts [cm_version c, cm_type c, put_int (cm_encrypt c), put_int (cm_compress c), cm_data c]"
  "pb_ser_cipher (ch_pb plain_channel) ct = put_texts [put_int (ci_cipher_version ct), ci_aes_iv_12bytes ct, ci_ciphertext_nbytes ct,
     ci_aes_tag_16bytes ct, to_salt_3bytes (ci_token ct), to_hmac_3bytes (ci_token ct)]"
  by (simp_all add: plain_channel_def plain_protobuf_def)

lemma plain_openssl: "os_hmac (ch_c plain_channel) k data = take 32 (data @ replicate 32 CHR ''h'')"
  "os_seal (ch_c plain_channel) k iv p = Some (p, replicate 16 CHR ''t'')" "os_ecdh (ch_c plain_channel) pub priv pub' = Some (replicate 32 CHR ''k'')"
  by (simp_all add: plain_channel_def)

lemma plain_channel_laws: "channel_laws plain_channel"
  by (simp add: channel_laws_def plain_channel_def plain_protobuf_def protobuf_laws_def openssl_laws_def zlib_laws_def min_def)

subsection \<open>Delivery\<close>

text \<open>The bytes that a sequence of messages puts on a connection.\<close>

fun transmit :: "channel \<Rightarrow> keys \<Rightarrow> Node \<Rightarrow> 8 word \<Rightarrow> outgoing list \<Rightarrow> cxx_string run" where
  "transmit ch keys dest priority [] = Ret []"
| "transmit ch keys dest priority ((m, iv, salt, compress) # xs) =
     bind_run (SendMessage ch keys (Some iv) (Some salt) dest m compress priority) (\<lambda>(_, out).
       bind_run (transmit ch keys dest priority xs) (\<lambda>rest. Ret (concat (map (\<lambda>(_, _, s, _). s) out) @ rest)))"

lemma transmit_wires:
  assumes "getKey keys (nd_fd dest) = Some a" "\<forall>x\<in>set xs. fit ch a x"
  shows "transmit ch keys dest priority xs = Ret (wires (map (\<lambda>x. (pb_ser_common (ch_pb ch) (packed ch a x), priority)) xs))"
  using assms(2)
proof (induction xs)
  case (Cons x xs)
  obtain m iv salt compress where x: "x = (m, iv, salt, compress)" by (cases x) auto
  from Cons.prems x have f: "fit ch a (m, iv, salt, compress)" by simp
  obtain md where "SendMessage ch keys (Some iv) (Some salt) dest m compress priority =
      Ret (True, [(nd_publicIp dest, ucast (nd_publicPort dest), wire (pb_ser_common (ch_pb ch) (packed ch a (m, iv, salt, compress))) priority, md)])"
    using send_packed [OF assms(1) f] by blast
  with Cons x show ?case by simp
qed simp

text \<open>What the receiver makes of a message.\<close>

definition handled_as :: "channel \<Rightarrow> keys \<Rightarrow> ProtobufDispatcher \<Rightarrow> message \<Rightarrow> MsgData \<Rightarrow> bool" where
  "handled_as ch keys d m data \<longleftrightarrow> (\<forall>counts. fst (Handle ch keys d counts data) =
     Ret (fst (route d (message_name m)), map (\<lambda>(p, cb). (p, cb, m, data)) (snd (route d (message_name m)))))"

text \<open>
  C31. The encrypted channel: whatever messages a node sends one after the other over a connection whose keys
  belong together, and however the network cuts the bytes into reads, the receiver finds exactly these
  messages in this order, and each is decrypted and given to the handlers of its type; so encryption,
  compression, framing, buffering and dispatch undo each other.
\<close>

theorem channel_delivers:
  assumes "channel_laws ch" "getKey keysA (nd_fd dest) = Some a" "getKey keysB (sb_fd buf) = Some b" "paired a b"
    and "\<forall>x\<in>set xs. fit ch a x" "sb_cache buf = []"
  shows "\<exists>stream. transmit ch keysA dest priority xs = Ret stream \<and>
    (\<forall>reads. concat reads = stream \<longrightarrow> list_all (\<lambda>r. r \<noteq> []) reads \<longrightarrow>
      (\<exists>out. receive buf reads = (True, buf, out) \<and> list_all2 (\<lambda>x data. handled_as ch keysB d (fst x) data) xs out))"
proof -
  let ?f = "\<lambda>x. (pb_ser_common (ch_pb ch) (packed ch a x), priority)"
  have s: "list_all sendable (map ?f xs)" using assms(5) by (fastforce simp: list_all_iff sendable_def)
  have t: "transmit ch keysA dest priority xs = Ret (wires (map ?f xs))" using transmit_wires [OF assms(2,5)] .
  have "\<exists>out. receive buf reads = (True, buf, out) \<and> list_all2 (\<lambda>x data. handled_as ch keysB d (fst x) data) xs out"
    if "concat reads = wires (map ?f xs)" "list_all (\<lambda>r. r \<noteq> []) reads" for reads
  proof (intro exI conjI)
    show "receive buf reads = (True, buf, map (sendPacketToMessageQueue buf) (bodies (map ?f xs)))"
      using receive_wires [of buf reads, OF _ s that(2)] that(1) assms(6) by (simp add: incomplete_def)
    have "handled_as ch keysB d (fst x) (sendPacketToMessageQueue buf (body (fst (?f x)) priority))" if "x \<in> set xs" for x
    proof -
      obtain m iv salt compress where x: "x = (m, iv, salt, compress)" by (cases x) auto
      have f: "fit ch a (m, iv, salt, compress)" using assms(5) that x by blast
      then have "snd (apartPackData NetPack_default (body (fst (?f x)) priority)) = packedCommonMessage (fst (?f x)) priority"
        using apart_body [of "fst (?f x)" NetPack_default priority] x by simp
      then show ?thesis unfolding handled_as_def
        using handle_packed [OF assms(1) _ assms(4) f, of keysB "sendPacketToMessageQueue buf (body (fst (?f x)) priority)" d] assms(3) x
        by (simp add: sendPacketToMessageQueue_def packedCommonMessage_def split_beta)
    qed
    then show "list_all2 (\<lambda>x data. handled_as ch keysB d (fst x) data) xs (map (sendPacketToMessageQueue buf) (bodies (map ?f xs)))"
      by (auto simp: list_all2_conv_all_nth bodies_def)
  qed
  with t show ?thesis by blast
qed

theorem channel_delivers_witness:
  "\<exists>stream out. transmit plain_channel [(5, \<lparr>ek_own_key = \<lparr>ow_ec_pub_key = ''A'', ow_ec_priv_key = ''a'', ow_salt = []\<rparr>,
        ek_peer_key = \<lparr>pe_ec_pub_key = ''B'', pe_aes_key = ''k'', pe_salt = []\<rparr>\<rparr>)] ((Node_new ''B'')\<lparr>nd_fd := 5\<rparr>) 14
        [(OtherMessage ''TxMsgReq'' ''tx'', replicate 12 CHR ''i'', ''123'', 1), (OtherMessage ''BlockMsg'' ''b'', replicate 12 CHR ''j'', ''456'', 0)] = Ret stream \<and>
     receive (SocketBuf.make 7 0 [] []) [stream] = (True, SocketBuf.make 7 0 [] [], out) \<and> length out = 2"
proof -
  define a where "a = \<lparr>ek_own_key = \<lparr>ow_ec_pub_key = ''A'', ow_ec_priv_key = ''a'', ow_salt = []\<rparr>,
        ek_peer_key = \<lparr>pe_ec_pub_key = ''B'', pe_aes_key = ''k'', pe_salt = []\<rparr>\<rparr>"
  define b where "b = \<lparr>ek_own_key = \<lparr>ow_ec_pub_key = ''B'', ow_ec_priv_key = ''b'', ow_salt = []\<rparr>,
        ek_peer_key = \<lparr>pe_ec_pub_key = ''A'', pe_aes_key = ''k'', pe_salt = []\<rparr>\<rparr>"
  let ?xs = "[(OtherMessage ''TxMsgReq'' ''tx'', replicate 12 CHR ''i'', ''123'', 1 :: int), (OtherMessage ''BlockMsg'' ''b'', replicate 12 CHR ''j'', ''456'', 0)]"
  let ?dest = "(Node_new ''B'')\<lparr>nd_fd := 5\<rparr>" and ?buf = "SocketBuf.make 7 0 [] []"
  have k: "getKey [(5, a)] (nd_fd ?dest) = Some a" "getKey [(7, b)] (sb_fd ?buf) = Some b" "paired a b"
    by (simp_all add: getKey_def hasKey_def SocketBuf.make_def a_def b_def paired_def)
  have f: "\<forall>x\<in>set ?xs. fit plain_channel a x"
    by (simp add: packed.simps initializeCommonMessageRequest_key_def encrypt_plaintext_def generate_token_def hmac_sha256_def set_data_def
        plain_compress Let_def a_def CommonMsg_new_def plain_serialisers plain_openssl kNetVersion_def put_int_def CRYPTO_VERSION_def)
  obtain stream where s: "transmit plain_channel [(5, a)] ?dest 14 ?xs = Ret stream"
    "\<And>reads. concat reads = stream \<Longrightarrow> list_all (\<lambda>r. r \<noteq> []) reads \<Longrightarrow> \<exists>out. receive ?buf reads = (True, ?buf, out) \<and>
       list_all2 (\<lambda>x data. handled_as plain_channel [(7, b)] (RegisterInterface ProtobufDispatcher_new) (fst x) data) ?xs out"
    using channel_delivers [OF plain_channel_laws k f, of "14" "RegisterInterface ProtobufDispatcher_new"] by (auto simp: SocketBuf.make_def)
  have "stream \<noteq> []" using s(1) transmit_wires [OF k(1) f, of 14] by (auto simp: wire_def body_def bytes_u32_def)
  with s(2) [of "[stream]"] obtain out where "receive ?buf [stream] = (True, ?buf, out)"
    "list_all2 (\<lambda>x data. handled_as plain_channel [(7, b)] (RegisterInterface ProtobufDispatcher_new) (fst x) data) ?xs out" by auto
  with s(1) show ?thesis unfolding a_def by (auto dest: list_all2_lengthD)
qed

subsection \<open>The exchange of keys\<close>

lemma bytes_xor_commute: "bytes_xor x y = bytes_xor y x"
proof -
  have "map (\<lambda>(a, b). char_of (byte a XOR byte b)) (zip x y) = map (\<lambda>(a, b). char_of (byte a XOR byte b)) (zip y x)"
    if "length x = length y" using that by (induction rule: list_induct2) (simp_all add: xor.commute)
  then show ?thesis by (simp add: bytes_xor_def)
qed

lemma key_calculate_agrees:
  assumes "length (ow_salt a) = length (ow_salt b)"
    and "os_ecdh c (ow_ec_pub_key a) (ow_ec_priv_key a) (ow_ec_pub_key b) = Some k"
    and "os_ecdh c (ow_ec_pub_key b) (ow_ec_priv_key b) (ow_ec_pub_key a) = Some k"
  obtains aes where
    "key_calculate c a \<lparr>pe_ec_pub_key = ow_ec_pub_key b, pe_aes_key = [], pe_salt = ow_salt b\<rparr> =
       Some \<lparr>pe_ec_pub_key = ow_ec_pub_key b, pe_aes_key = aes, pe_salt = ow_salt b\<rparr>"
    "key_calculate c b \<lparr>pe_ec_pub_key = ow_ec_pub_key a, pe_aes_key = [], pe_salt = ow_salt a\<rparr> =
       Some \<lparr>pe_ec_pub_key = ow_ec_pub_key a, pe_aes_key = aes, pe_salt = ow_salt a\<rparr>"
proof -
  obtain x where "bytes_xor (ow_salt a) (ow_salt b) = Some x" using assms(1) by (simp add: bytes_xor_def)
  moreover from this have "bytes_xor (ow_salt b) (ow_salt a) = Some x" by (simp add: bytes_xor_commute)
  ultimately show ?thesis using that assms(2,3) by (simp add: key_calculate_def)
qed

text \<open>What the two sides tell each other, and what goes over the wire.\<close>

definition offer :: "ownkey_s \<Rightarrow> cxx_string \<Rightarrow> KeyExchange" where
  "offer own i = \<lparr>kx_msg_id = i, kx_key_info = \<lparr>ki_salt_32bytes = ow_salt own, ki_ec_public_key_65bytes = ow_ec_pub_key own\<rparr>\<rparr>"

definition proper :: "ownkey_s \<Rightarrow> bool" where
  "proper own \<longleftrightarrow> length (ow_ec_pub_key own) = 65 \<and> length (ow_salt own) = 32"

text \<open>
  C32. The exchange of keys: when the connection is new to the node that is asked, its answer goes back
  unencrypted, both sides end with a key for their end of the connection, and the two keys belong together in both
  directions; the keys of the other connections stay as they are.
\<close>

theorem key_exchange_pairs:
  assumes "protobuf_laws (ch_pb ch)" "proper ownA" "proper ownB"
    and "os_ecdh (ch_c ch) (ow_ec_pub_key ownA) (ow_ec_priv_key ownA) (ow_ec_pub_key ownB) = Some k"
    and "os_ecdh (ch_c ch) (ow_ec_pub_key ownB) (ow_ec_priv_key ownB) (ow_ec_pub_key ownA) = Some k"
    and "locateNodeByFd ps (md_fd from) = None"
    and "length (pb_ser_common (ch_pb ch) (initializeCommonMessageRequest ch (KeyExchangeResponse (offer ownB i)) 0 1)) + 16 < 2 ^ 31"
  shows "\<exists>keysA' keysB' out a b.
    handleKeyExchangeRequest ch keysB ps iv salt ownB (offer ownA i) from = Ret (0, keysB', out) \<and>
    map (\<lambda>(ip, port, s, _). (ip, port, s)) out = [(md_ip from, md_port from,
      wire (pb_ser_common (ch_pb ch) (initializeCommonMessageRequest ch (KeyExchangeResponse (offer ownB i)) 0 1)) 15)] \<and>
    keyExchange_finish ch keysA dest ownA (True, [pb_ser (ch_pb ch) (KeyExchangeResponse (offer ownB i))]) = Ret (0, keysA') \<and>
    getKey keysA' (nd_fd dest) = Some a \<and> getKey keysB' (md_fd from) = Some b \<and> paired a b \<and> paired b a \<and>
    (\<forall>fd. fd \<noteq> nd_fd dest \<longrightarrow> getKey keysA' fd = getKey keysA fd) \<and> (\<forall>fd. fd \<noteq> md_fd from \<longrightarrow> getKey keysB' fd = getKey keysB fd)"
proof -
  have l: "length (ow_salt ownA) = length (ow_salt ownB)" using assms(2,3) by (simp add: proper_def)
  obtain aes where aes:
    "key_calculate (ch_c ch) ownA \<lparr>pe_ec_pub_key = ow_ec_pub_key ownB, pe_aes_key = [], pe_salt = ow_salt ownB\<rparr> =
       Some \<lparr>pe_ec_pub_key = ow_ec_pub_key ownB, pe_aes_key = aes, pe_salt = ow_salt ownB\<rparr>"
    "key_calculate (ch_c ch) ownB \<lparr>pe_ec_pub_key = ow_ec_pub_key ownA, pe_aes_key = [], pe_salt = ow_salt ownA\<rparr> =
       Some \<lparr>pe_ec_pub_key = ow_ec_pub_key ownA, pe_aes_key = aes, pe_salt = ow_salt ownA\<rparr>"
    using key_calculate_agrees [OF l assms(4,5)] by blast
  have "pb_parse (ch_pb ch) ''KeyExchangeResponse'' (pb_ser (ch_pb ch) (KeyExchangeResponse (offer ownB i))) = Some (KeyExchangeResponse (offer ownB i))"
    using assms(1) unfolding protobuf_laws_def by (metis message_name.simps(2))
  then have a: "keyExchange_finish ch keysA dest ownA (True, [pb_ser (ch_pb ch) (KeyExchangeResponse (offer ownB i))]) =
      Ret (0, addKey (nd_fd dest) \<lparr>ek_own_key = ownA, ek_peer_key = \<lparr>pe_ec_pub_key = ow_ec_pub_key ownB, pe_aes_key = aes, pe_salt = ow_salt ownB\<rparr>\<rparr> keysA)"
    using assms(3) aes(1) by (simp add: keyExchange_finish_def proper_def) (simp add: offer_def)
  obtain out where b: "handleKeyExchangeRequest ch keysB ps iv salt ownB (offer ownA i) from = Ret (0,
      addKey (md_fd from) \<lparr>ek_own_key = ownB, ek_peer_key = \<lparr>pe_ec_pub_key = ow_ec_pub_key ownA, pe_aes_key = aes, pe_salt = ow_salt ownA\<rparr>\<rparr> keysB, out)"
    "map (\<lambda>(ip, port, s, _). (ip, port, s)) out = [(md_ip from, md_port from,
      wire (pb_ser_common (ch_pb ch) (initializeCommonMessageRequest ch (KeyExchangeResponse (offer ownB i)) 0 1)) 15)]"
    using assms(2,6,7) aes(2) packageToString_wire [OF assms(7), of 15]
    by (simp add: handleKeyExchangeRequest_def Let_def proper_def EC_PUBLIC_KEY_LENGTH_def CRYPTO_SALT_LEN_def SendMessage_from_def SendOneMessage_def
        kHighPriorityLevel2_def offer_def)
  show ?thesis unfolding a b(1) using b(2) by (auto simp: addKey_def getKey_def hasKey_def paired_def)
qed

definition first_keys :: ownkey_s where
  "first_keys = \<lparr>ow_ec_pub_key = replicate 65 CHR ''A'', ow_ec_priv_key = replicate 32 CHR ''a'', ow_salt = replicate 32 CHR ''1''\<rparr>"

definition second_keys :: ownkey_s where
  "second_keys = \<lparr>ow_ec_pub_key = replicate 65 CHR ''B'', ow_ec_priv_key = replicate 32 CHR ''b'', ow_salt = replicate 32 CHR ''2''\<rparr>"

definition no_peers :: peers where
  "no_peers = \<lparr>nodeMap = [], peer_bufs = [], stake_node_list = [], unstakeNodeList = [], closed_fds = [], currNode = Node_new ''self''\<rparr>"

definition arrived_on :: "int \<Rightarrow> MsgData" where
  "arrived_on fd = \<lparr>md_type = E_WORK, md_fd = fd, md_port = 9, md_ip = 8, md_data = [], md_pack = NetPack_default, md_id = []\<rparr>"

lemma proper_keys: "proper first_keys" "proper second_keys"
  by (simp_all add: proper_def first_keys_def second_keys_def)

lemma plain_answer_length:
  "length (pb_ser_common (ch_pb plain_channel) (initializeCommonMessageRequest plain_channel (KeyExchangeResponse (offer second_keys ''m'')) 0 1)) + 16 < 2 ^ 31"
  by (simp add: initializeCommonMessageRequest_def set_data_def plain_compress plain_serialisers Let_def CommonMsg_new_def kNetVersion_def put_int_def
      offer_def second_keys_def)

theorem key_exchange_pairs_witness:
  "\<exists>keysA' keysB' out a b. handleKeyExchangeRequest plain_channel [] no_peers None None second_keys (offer first_keys ''m'') (arrived_on 7) = Ret (0, keysB', out) \<and>
     length out = 1 \<and> keyExchange_finish plain_channel [] ((Node_new ''B'')\<lparr>nd_fd := 5\<rparr>) first_keys
       (True, [pb_ser (ch_pb plain_channel) (KeyExchangeResponse (offer second_keys ''m''))]) = Ret (0, keysA') \<and>
     getKey keysA' 5 = Some a \<and> getKey keysB' 7 = Some b \<and> paired a b \<and> paired b a"
proof -
  have l: "protobuf_laws (ch_pb plain_channel)" using plain_channel_laws by (simp add: channel_laws_def)
  have "locateNodeByFd no_peers (md_fd (arrived_on 7)) = None" by (simp add: locateNodeByFd_def no_peers_def)
  from key_exchange_pairs [OF l proper_keys plain_openssl(3) plain_openssl(3) this plain_answer_length,
      of "[]" None None "[]" "(Node_new ''B'')\<lparr>nd_fd := 5\<rparr>"]
  obtain keysA' keysB' out a b where "handleKeyExchangeRequest plain_channel [] no_peers None None second_keys (offer first_keys ''m'') (arrived_on 7) = Ret (0, keysB', out)"
    "keyExchange_finish plain_channel [] ((Node_new ''B'')\<lparr>nd_fd := 5\<rparr>) first_keys
       (True, [pb_ser (ch_pb plain_channel) (KeyExchangeResponse (offer second_keys ''m''))]) = Ret (0, keysA')"
    "getKey keysA' 5 = Some a" "getKey keysB' 7 = Some b" "paired a b" "paired b a" "length out = 1"
    by (auto simp: arrived_on_def dest: arg_cong [of _ _ length])
  then show ?thesis by blast
qed

text \<open>An answer without a message id changes nothing that is waited for.\<close>

lemma handle_unanswered:
  assumes "pb_parse_common (ch_pb ch) (pk_data (md_pack data)) = Some msg" "cm_type msg = ''KeyExchangeResponse''" "cm_version msg = kNetVersion"
    and "(if cm_compress msg \<noteq> 0 then uncompressFunc (ch_z ch) (length (cm_data msg) * 10) (cm_data msg) else cm_data msg) = pb_ser_cipher (ch_pb ch) c"
    and "pb_known (ch_pb ch) ''KeyExchangeResponse''"
    and "\<forall>c m. pb_parse (ch_pb ch) ''KeyExchangeResponse'' (pb_ser_cipher (ch_pb ch) c) = Some m \<longrightarrow> (\<exists>r. m = KeyExchangeResponse r \<and> kx_msg_id r = [])"
  shows "\<exists>ret tasks. fst (Handle ch keys d counts data) = Ret (ret, tasks) \<and>
    (\<forall>(pool, handler, m, source)\<in>set tasks. \<exists>r. m = KeyExchangeResponse r \<and> (\<forall>g. map_of g [] = None \<longrightarrow> handleKeyExchangeAcknowledgment ch g r source = g))"
proof (cases "pb_parse (ch_pb ch) ''KeyExchangeResponse'' (pb_ser_cipher (ch_pb ch) c)")
  case None
  then have "fst (Handle ch keys d counts data) = Ret (-11, [])" using assms by (simp add: Handle_def Let_def)
  then show ?thesis by simp
next
  case (Some m)
  then obtain r where r: "m = KeyExchangeResponse r" "kx_msg_id r = []" using assms(6) by blast
  have "handleKeyExchangeAcknowledgment ch g r source = g" if "map_of g [] = None" for g source
    using that r(2) by (simp add: handleKeyExchangeAcknowledgment_def waitDataToAdd_def)
  moreover have "fst (Handle ch keys d counts data) = Ret (fst (route d (message_name m)), map (\<lambda>(p, cb). (p, cb, m, data)) (snd (route d (message_name m))))"
    using assms(1-5) Some by (simp add: Handle_def Let_def split_beta)
  ultimately show ?thesis using r(1) by (auto simp: split_beta)
qed

text \<open>
  C33. Exchanging keys again over a connection that works ends it: because the node that is asked knows the
  connection, it encrypts its answer with the new key, while the receiver takes the answer for plain text. A
  ciphertext has nothing where an answer has its message id, so whether it happens to be parsed as an answer
  or is refused, it leads to no task that changes what anybody waits for; the asking side, left without an
  answer, gives up and keeps its old key, the other side has replaced its own.
\<close>

theorem rekeying_breaks_connection:
  assumes "channel_laws ch" "proper ownA" "proper ownB" "length iv = 12"
    and "os_ecdh (ch_c ch) (ow_ec_pub_key ownA) (ow_ec_priv_key ownA) (ow_ec_pub_key ownB) = Some k"
    and "os_ecdh (ch_c ch) (ow_ec_pub_key ownB) (ow_ec_priv_key ownB) (ow_ec_pub_key ownA) = Some k"
    and "locateNodeByFd ps (md_fd from) = Some node" "nd_fd node = md_fd from"
    and known: "pb_known (ch_pb ch) ''KeyExchangeResponse''"
    and other: "\<forall>c m. pb_parse (ch_pb ch) ''KeyExchangeResponse'' (pb_ser_cipher (ch_pb ch) c) = Some m \<longrightarrow> (\<exists>r. m = KeyExchangeResponse r \<and> kx_msg_id r = [])"
    and size: "\<forall>b. length (pb_ser_common (ch_pb ch) (packed ch b (KeyExchangeResponse (offer ownB i), iv, salt, 1))) + 16 < 2 ^ 31"
    and ratio: "\<forall>b. let text = cm_data (packed ch b (KeyExchangeResponse (offer ownB i), iv, salt, 0)) in length text \<le> 20 * length (compressFunc (ch_z ch) text)"
    and fresh: "ow_ec_pub_key (ek_own_key a) \<noteq> ow_ec_pub_key ownA"
  shows "\<exists>keysB' b ser ip port md.
    handleKeyExchangeRequest ch keysB ps (Some iv) (Some salt) ownB (offer ownA i) from = Ret (0, keysB', [(ip, port, wire ser 15, md)]) \<and>
    (\<forall>data keys d counts. pk_data (md_pack data) = ser \<longrightarrow> (\<exists>ret tasks. fst (Handle ch keys d counts data) = Ret (ret, tasks) \<and>
       (\<forall>(pool, handler, m, source)\<in>set tasks. \<exists>r. m = KeyExchangeResponse r \<and>
          (\<forall>g. map_of g [] = None \<longrightarrow> handleKeyExchangeAcknowledgment ch g r source = g)))) \<and>
    keyExchange_finish ch keysA dest ownA (False, []) = Ret (-6, keysA) \<and>
    getKey keysB' (md_fd from) = Some b \<and> \<not> paired a b"
proof -
  have laws: "protobuf_laws (ch_pb ch)" "openssl_laws (ch_c ch)" "zlib_laws (ch_z ch)" using assms(1) by (simp_all add: channel_laws_def)
  have l: "length (ow_salt ownA) = length (ow_salt ownB)" using assms(2,3) by (simp add: proper_def)
  obtain aes where aes: "key_calculate (ch_c ch) ownB \<lparr>pe_ec_pub_key = ow_ec_pub_key ownA, pe_aes_key = [], pe_salt = ow_salt ownA\<rparr> =
       Some \<lparr>pe_ec_pub_key = ow_ec_pub_key ownA, pe_aes_key = aes, pe_salt = ow_salt ownA\<rparr>"
    using key_calculate_agrees [OF l assms(5,6)] by metis
  define b where "b = \<lparr>ek_own_key = ownB, ek_peer_key = \<lparr>pe_ec_pub_key = ow_ec_pub_key ownA, pe_aes_key = aes, pe_salt = ow_salt ownA\<rparr>\<rparr>"
  let ?m = "KeyExchangeResponse (offer ownB i)"
  let ?p = "\<lambda>compress. packed ch b (?m, iv, salt, compress)"
  have pr: "paired b \<lparr>ek_own_key = ownB, ek_peer_key = \<lparr>pe_ec_pub_key = ow_ec_pub_key ownB, pe_aes_key = aes, pe_salt = []\<rparr>\<rparr>"
    by (simp add: paired_def b_def)
  obtain c where c: "\<And>compress. ?p compress = set_data ch compress (pb_ser_cipher (ch_pb ch) c)
      (CommonMsg_new\<lparr>cm_type := message_name ?m, cm_version := kNetVersion, cm_encrypt := 1\<rparr>)"
    using packed_text [OF laws(2) assms(4) pr] by blast
  have "cm_data (?p 0) = pb_ser_cipher (ch_pb ch) c" by (simp add: c set_data_def)
  then have z: "(1 :: int) \<noteq> 0 \<longrightarrow> length (pb_ser_cipher (ch_pb ch) c) \<le> 20 * length (compressFunc (ch_z ch) (pb_ser_cipher (ch_pb ch) c))"
    using ratio [rule_format, of b] by (simp add: Let_def)
  have u: "(if cm_compress (?p 1) \<noteq> 0 then uncompressFunc (ch_z ch) (length (cm_data (?p 1)) * 10) (cm_data (?p 1)) else cm_data (?p 1)) = pb_ser_cipher (ch_pb ch) c"
    using uncompress_set_data [OF laws(3) z] unfolding c Let_def by blast
  have refused: "\<exists>ret tasks. fst (Handle ch keys d counts data) = Ret (ret, tasks) \<and>
      (\<forall>(pool, handler, m, source)\<in>set tasks. \<exists>r. m = KeyExchangeResponse r \<and> (\<forall>g. map_of g [] = None \<longrightarrow> handleKeyExchangeAcknowledgment ch g r source = g))"
    if "pk_data (md_pack data) = pb_ser_common (ch_pb ch) (?p 1)" for data keys d counts
  proof (rule handle_unanswered [OF _ _ _ u known other])
    show "pb_parse_common (ch_pb ch) (pk_data (md_pack data)) = Some (?p 1)" using laws(1) that by (simp add: protobuf_laws_def)
  qed (simp_all add: c CommonMsg_new_def)
  obtain ip port md where "handleKeyExchangeRequest ch keysB ps (Some iv) (Some salt) ownB (offer ownA i) from =
      Ret (0, addKey (md_fd from) b keysB, [(ip, port, wire (pb_ser_common (ch_pb ch) (?p 1)) 15, md)])"
    using assms(2,7,8) aes packageToString_wire [OF size [rule_format, of b], of 15]
    by (simp add: handleKeyExchangeRequest_def Let_def proper_def EC_PUBLIC_KEY_LENGTH_def CRYPTO_SALT_LEN_def SendMessage_from_def SendMessage_def
        SendOneMessage_def kHighPriorityLevel2_def offer_def addKey_def getKey_def hasKey_def b_def [symmetric] packed.simps)
  moreover have "keyExchange_finish ch keysA dest ownA (False, []) = Ret (-6, keysA)" by (simp add: keyExchange_finish_def)
  moreover have "getKey (addKey (md_fd from) b keysB) (md_fd from) = Some b" "\<not> paired a b"
    using fresh by (simp_all add: addKey_def getKey_def hasKey_def paired_def b_def)
  ultimately show ?thesis using refused by blast
qed

lemma plain_response_fits:
  "length (pb_ser_common (ch_pb plain_channel) (packed plain_channel b (KeyExchangeResponse (offer second_keys ''m''), replicate 12 CHR ''i'', ''123'', 1))) + 16 < 2 ^ 31"
  by (simp add: packed.simps initializeCommonMessageRequest_key_def encrypt_plaintext_def generate_token_def hmac_sha256_def set_data_def
      plain_compress Let_def CommonMsg_new_def plain_serialisers plain_openssl kNetVersion_def put_int_def CRYPTO_VERSION_def offer_def second_keys_def)

theorem rekeying_breaks_connection_witness:
  "\<exists>keysB' b out. handleKeyExchangeRequest plain_channel [(7, \<lparr>ek_own_key = second_keys, ek_peer_key = \<lparr>pe_ec_pub_key = ''old'', pe_aes_key = ''k'', pe_salt = []\<rparr>\<rparr>)]
       (no_peers\<lparr>nodeMap := [(''A'', (Node_new ''A'')\<lparr>nd_fd := 7\<rparr>)]\<rparr>) (Some (replicate 12 CHR ''i'')) (Some ''123'') second_keys (offer first_keys ''m'') (arrived_on 7)
       = Ret (0, keysB', out) \<and> getKey keysB' 7 = Some b \<and>
     \<not> paired \<lparr>ek_own_key = first_keys\<lparr>ow_ec_pub_key := ''old''\<rparr>, ek_peer_key = \<lparr>pe_ec_pub_key = ow_ec_pub_key second_keys, pe_aes_key = ''k'', pe_salt = []\<rparr>\<rparr> b"
proof -
  let ?ps = "no_peers\<lparr>nodeMap := [(''A'', (Node_new ''A'')\<lparr>nd_fd := 7\<rparr>)]\<rparr>"
  let ?a = "\<lparr>ek_own_key = first_keys\<lparr>ow_ec_pub_key := ''old''\<rparr>, ek_peer_key = \<lparr>pe_ec_pub_key = ow_ec_pub_key second_keys, pe_aes_key = ''k'', pe_salt = []\<rparr>\<rparr>"
  let ?keysB = "[(7, \<lparr>ek_own_key = second_keys, ek_peer_key = \<lparr>pe_ec_pub_key = ''old'', pe_aes_key = ''k'', pe_salt = []\<rparr>\<rparr>)]"
  have n: "locateNodeByFd ?ps (md_fd (arrived_on 7)) = Some ((Node_new ''A'')\<lparr>nd_fd := 7\<rparr>)" "nd_fd ((Node_new ''A'')\<lparr>nd_fd := 7\<rparr>) = md_fd (arrived_on 7)"
    by (simp_all add: locateNodeByFd_def arrived_on_def)
  have other: "\<forall>c m. pb_parse (ch_pb plain_channel) ''KeyExchangeResponse'' (pb_ser_cipher (ch_pb plain_channel) c) = Some m \<longrightarrow>
      (\<exists>r. m = KeyExchangeResponse r \<and> kx_msg_id r = [])"
    by (simp add: plain_serialisers) (simp add: plain_channel_def plain_protobuf_def get_message_def)
  have ratio: "\<forall>b. let text = cm_data (packed plain_channel b (KeyExchangeResponse (offer second_keys ''m''), replicate 12 CHR ''i'', ''123'', 0))
      in length text \<le> 20 * length (compressFunc (ch_z plain_channel) text)"
    by (simp add: plain_compress Let_def)
  have fresh: "ow_ec_pub_key (ek_own_key ?a) \<noteq> ow_ec_pub_key first_keys" by (simp add: first_keys_def) (auto dest: arg_cong [of _ _ length])
  have size: "\<forall>b. length (pb_ser_common (ch_pb plain_channel) (packed plain_channel b (KeyExchangeResponse (offer second_keys ''m''), replicate 12 CHR ''i'', ''123'', 1))) + 16 < 2 ^ 31"
    using plain_response_fits by blast
  have fd: "md_fd (arrived_on 7) = 7" and iv: "length (replicate 12 CHR ''i'') = 12" by (simp_all add: arrived_on_def)
  from rekeying_breaks_connection [where keysB = ?keysB and keysA = "[]" and dest = "Node_new ''B''",
      OF plain_channel_laws proper_keys iv plain_openssl(3) plain_openssl(3) n plain_serialisers(1) other size ratio fresh]
  show ?thesis unfolding fd by blast
qed

subsection \<open>Handlers\<close>

fun table :: "pool \<Rightarrow> ProtobufDispatcher \<Rightarrow> callbacks" where
  "table CHAIN d = chainProtocolCallbacks d"
| "table NET d = netProtocolCallbacks d"
| "table BROADCAST d = broadcastProtocol d"
| "table TX d = txProtocolCallbacks d"
| "table SYNC_BLOCK d = syncBlockProtocolCallbacks d"
| "table SAVE_BLOCK d = saveBlockProtocolCallbacks d"
| "table BLOCK d = blockProtocolCallbacks d"

lemma table_register: "map_of (table q (register_in p ty cb d)) t = (if q = p \<and> t = ty then Some cb else map_of (table q d) t)"
  by (cases p; cases q) simp_all

lemma table_unregister: "map_of (table q (unregister_in p ty d)) t = (if q = p \<and> t = ty then None else map_of (table q d) t)"
  by (cases p; cases q) simp_all

lemma table_untouched:
  "t \<notin> (\<lambda>(p, ty, cb). ty) ` set regs \<Longrightarrow> map_of (table q (foldl (\<lambda>d (p, ty, cb). register_in p ty cb d) d regs)) t = map_of (table q d) t"
  by (induction regs arbitrary: d) (auto simp: table_register split_beta)

lemma table_registered:
  "distinct (map (\<lambda>(p, ty, cb). ty) regs) \<Longrightarrow> (p, ty, cb) \<in> set regs \<Longrightarrow>
   map_of (table q (foldl (\<lambda>d (p, ty, cb). register_in p ty cb d) d regs)) ty = (if q = p then Some cb else map_of (table q d) ty)"
proof (induction regs arbitrary: d)
  case (Cons r regs)
  show ?case
  proof (cases "r = (p, ty, cb)")
    case True
    with Cons.prems(1) have "ty \<notin> (\<lambda>(p, ty, cb). ty) ` set regs" by simp
    with True show ?thesis by (simp add: table_untouched table_register)
  next
    case False
    with Cons.prems have i: "(p, ty, cb) \<in> set regs" "distinct (map (\<lambda>(p, ty, cb). ty) regs)" by simp_all
    obtain p' ty' cb' where r: "r = (p', ty', cb')" by (cases r) auto
    with Cons.prems(1) i(1) have "ty \<noteq> ty'" by force
    with Cons.IH [OF i(2,1)] show ?thesis by (simp add: r table_register)
  qed
qed simp

lemma interface_distinct: "distinct (map (\<lambda>(p, ty, cb). ty) interface_registrations)"
  unfolding interface_registrations_def by simp

lemma route_registered:
  assumes "(p, ty, cb) \<in> set interface_registrations"
  shows "route (RegisterInterface ProtobufDispatcher_new) ty = (if p = SAVE_BLOCK then -12 else 0, [(p, cb)])"
proof -
  have "map_of (table q (RegisterInterface ProtobufDispatcher_new)) ty = (if q = p then Some cb else None)" for q
    using table_registered [OF interface_distinct assms, of q ProtobufDispatcher_new]
    by (cases q) (simp_all add: RegisterInterface_def ProtobufDispatcher_new_def)
  from this [of CHAIN] this [of NET] this [of BROADCAST] this [of TX] this [of SYNC_BLOCK] this [of SAVE_BLOCK] this [of BLOCK]
  show ?thesis by (cases p) (simp_all add: route_def Let_def)
qed

text \<open>
  C35. Every registered type reaches its handler, and only that: after \<open>RegisterInterface\<close> a message of a
  registered type gives its handler one task in the pool it is registered for; the answer is 0, but that of
  a type nobody handles for the blocks to be saved, although their task has been given.
\<close>

theorem registered_types_reach_handler:
  assumes "(p, ty, cb) \<in> set interface_registrations"
  shows "route (RegisterInterface ProtobufDispatcher_new) ty = (if p = SAVE_BLOCK then -12 else 0, [(p, cb)])"
  using assms by (rule route_registered)

theorem registered_types_reach_handler_witness:
  "route (RegisterInterface ProtobufDispatcher_new) ''BlockMsg'' = (0, [(BLOCK, ''HandleBlock'')]) \<and>
   (SAVE_BLOCK, ''BuildBlockBroadcastMsg'', ''handleBuildBlockBroadcastMessage'') \<in> set interface_registrations"
proof -
  have "(BLOCK, ''BlockMsg'', ''HandleBlock'') \<in> set interface_registrations" by (simp add: interface_registrations_def)
  from registered_types_reach_handler [OF this] show ?thesis by (simp add: interface_registrations_def)
qed

subsection \<open>What a task proves\<close>

lemma decrypted:
  assumes "decrypt_message ch keys fd s = Ret (Inr p)"
  shows "\<exists>key c. getKey keys fd = Some key \<and> pb_parse_cipher (ch_pb ch) s = Some c \<and>
    length (ci_aes_iv_12bytes c) = 12 \<and> length (ci_aes_tag_16bytes c) = 16 \<and>
    verify_token ch (pe_ec_pub_key (ek_peer_key key)) (ci_token c) = Ret True \<and> decrypt_ciphertext ch (ek_peer_key key) c = Some p"
  using assms unfolding decrypt_message_def
  by (auto simp: bind_run_eq_Ret CRYPTO_AES_IV_LEN_def AES_TAG_LENGTH_def split: option.splits if_splits)

text \<open>
  C34. No task without authentication: the tasks that a message leads to are those of its type's tables, on
  what was parsed from its text. Unless the type is one of the exchange of keys, in which case the text is
  parsed as it came, the text is a ciphertext with an initialisation vector of twelve and a tag of sixteen
  bytes, whose token fits the public key of the connection's peer, and what was parsed is this ciphertext
  opened with the key of the connection.
\<close>

theorem tasks_authenticated:
  assumes "fst (Handle ch keys d counts data) = Ret (ret, tasks)" "tasks \<noteq> []"
  shows "\<exists>msg m text p. pb_parse_common (ch_pb ch) (pk_data (md_pack data)) = Some msg \<and> cm_version msg = kNetVersion \<and>
    text = (if cm_compress msg \<noteq> 0 then uncompressFunc (ch_z ch) (length (cm_data msg) * 10) (cm_data msg) else cm_data msg) \<and>
    pb_parse (ch_pb ch) (cm_type msg) p = Some m \<and> tasks = map (\<lambda>(pl, cb). (pl, cb, m, data)) (snd (route d (message_name m))) \<and>
    (if cm_type msg \<in> {''KeyExchangeRequest'', ''KeyExchangeResponse''} then p = text
     else \<exists>key c. getKey keys (md_fd data) = Some key \<and> pb_parse_cipher (ch_pb ch) text = Some c \<and>
       length (ci_aes_iv_12bytes c) = 12 \<and> length (ci_aes_tag_16bytes c) = 16 \<and>
       verify_token ch (pe_ec_pub_key (ek_peer_key key)) (ci_token c) = Ret True \<and> decrypt_ciphertext ch (ek_peer_key key) c = Some p)"
proof -
  obtain msg where msg: "pb_parse_common (ch_pb ch) (pk_data (md_pack data)) = Some msg"
    using assms by (auto simp: Handle_def split: option.splits)
  let ?s = "if cm_compress msg \<noteq> 0 then uncompressFunc (ch_z ch) (length (cm_data msg) * 10) (cm_data msg) else cm_data msg"
  let ?x = "cm_type msg \<in> {''KeyExchangeRequest'', ''KeyExchangeResponse''}"
  have v: "cm_version msg = kNetVersion" using assms msg by (auto simp: Handle_def Let_def split: if_splits)
  have "\<exists>r. (if ?x then Ret (Inr ?s) else decrypt_message ch keys (md_fd data) ?s) = Ret r \<and>
    (case r of Inl err \<Rightarrow> Ret (err, []) | Inr p \<Rightarrow> (case pb_parse (ch_pb ch) (cm_type msg) p of None \<Rightarrow> Ret (-11, [])
       | Some m \<Rightarrow> (case route d (message_name m) of (ret, found) \<Rightarrow> Ret (ret, map (\<lambda>(pl, cb). (pl, cb, m, data)) found)))) = Ret (ret, tasks)"
    using assms msg v by (auto simp: Handle_def Let_def bind_run_eq_Ret split: if_splits)
  then obtain r where r: "(if ?x then Ret (Inr ?s) else decrypt_message ch keys (md_fd data) ?s) = Ret r"
    "(case r of Inl err \<Rightarrow> Ret (err, []) | Inr p \<Rightarrow> (case pb_parse (ch_pb ch) (cm_type msg) p of None \<Rightarrow> Ret (-11, [])
       | Some m \<Rightarrow> (case route d (message_name m) of (ret, found) \<Rightarrow> Ret (ret, map (\<lambda>(pl, cb). (pl, cb, m, data)) found)))) = Ret (ret, tasks)" by blast
  from r(2) assms(2) obtain p m where p: "r = Inr p" "pb_parse (ch_pb ch) (cm_type msg) p = Some m"
    "tasks = map (\<lambda>(pl, cb). (pl, cb, m, data)) (snd (route d (message_name m)))"
    by (auto split: sum.splits option.splits prod.splits)
  have opened: "if ?x then p = ?s else \<exists>key c. getKey keys (md_fd data) = Some key \<and> pb_parse_cipher (ch_pb ch) ?s = Some c \<and>
       length (ci_aes_iv_12bytes c) = 12 \<and> length (ci_aes_tag_16bytes c) = 16 \<and>
       verify_token ch (pe_ec_pub_key (ek_peer_key key)) (ci_token c) = Ret True \<and> decrypt_ciphertext ch (ek_peer_key key) c = Some p"
  proof (cases ?x)
    case True
    then show ?thesis using r(1) p(1) by (simp only: if_True) simp
  next
    case False
    then have "decrypt_message ch keys (md_fd data) ?s = Ret (Inr p)" using r(1) p(1) by (simp only: if_False)
    from decrypted [OF this] False show ?thesis by (simp only: if_False)
  qed
  show ?thesis
    by (rule exI [of _ msg], rule exI [of _ m], rule exI [of _ ?s], rule exI [of _ p]) (use msg v p(2,3) opened in blast)
qed

theorem tasks_authenticated_witness:
  "\<exists>m key. getKey [(7, \<lparr>ek_own_key = second_keys, ek_peer_key = \<lparr>pe_ec_pub_key = ow_ec_pub_key first_keys, pe_aes_key = ''k'', pe_salt = []\<rparr>\<rparr>)] 7 = Some key \<and>
     snd (route (RegisterInterface ProtobufDispatcher_new) (message_name m)) = [(TX, ''HandleTx'')]"
proof -
  let ?keys = "[(7, \<lparr>ek_own_key = second_keys, ek_peer_key = \<lparr>pe_ec_pub_key = ow_ec_pub_key first_keys, pe_aes_key = ''k'', pe_salt = []\<rparr>\<rparr>)]"
  let ?b = "\<lparr>ek_own_key = second_keys, ek_peer_key = \<lparr>pe_ec_pub_key = ow_ec_pub_key first_keys, pe_aes_key = ''k'', pe_salt = []\<rparr>\<rparr>"
  let ?a = "\<lparr>ek_own_key = first_keys, ek_peer_key = \<lparr>pe_ec_pub_key = ow_ec_pub_key second_keys, pe_aes_key = ''k'', pe_salt = []\<rparr>\<rparr>"
  let ?m = "OtherMessage ''TxMsgReq'' ''tx''" and ?d = "RegisterInterface ProtobufDispatcher_new"
  let ?ser = "pb_ser_common (ch_pb plain_channel) (packed plain_channel ?a (?m, replicate 12 CHR ''i'', ''123'', 0))"
  let ?data = "(arrived_on 7)\<lparr>md_pack := NetPack_default\<lparr>pk_data := ?ser\<rparr>\<rparr>"
  have k: "getKey ?keys (md_fd ?data) = Some ?b" "paired ?a ?b" by (simp_all add: getKey_def hasKey_def arrived_on_def paired_def)
  have f: "fit plain_channel ?a (?m, replicate 12 CHR ''i'', ''123'', 0)"
    by (simp add: packed.simps initializeCommonMessageRequest_key_def encrypt_plaintext_def generate_token_def hmac_sha256_def set_data_def
        plain_compress Let_def CommonMsg_new_def plain_serialisers plain_openssl kNetVersion_def put_int_def CRYPTO_VERSION_def)
  have "(TX, ''TxMsgReq'', ''HandleTx'') \<in> set interface_registrations" by (simp add: interface_registrations_def)
  then have r: "route ?d ''TxMsgReq'' = (0, [(TX, ''HandleTx'')])" using route_registered by fastforce
  have h: "fst (Handle plain_channel ?keys ?d [] ?data) = Ret (0, [(TX, ''HandleTx'', ?m, ?data)])"
    using handle_packed [OF plain_channel_laws k f, of ?d "[]"] r by simp
  have "[(TX, ''HandleTx'', ?m, ?data)] \<noteq> []" by simp
  from tasks_authenticated [OF h this] obtain m where "[(TX, ''HandleTx'', ?m, ?data)] = map (\<lambda>(pl, cb). (pl, cb, m, ?data)) (snd (route ?d (message_name m)))"
    by (elim exE conjE) (rule that)
  then have "snd (route ?d (message_name m)) = [(TX, ''HandleTx'')]" by (cases "snd (route ?d (message_name m))") auto
  with k(1) show ?thesis by (auto simp: arrived_on_def)
qed

end
