(* ===== verification/RpcServer.thy ===== *)
theory RpcServer
  imports SyncNodes SecureChannel
begin

text \<open>
  Answering requests: the check of the sender's version (\<open>utils/util.cpp\<close>), the answer that is sent
  whatever happens (\<open>utils/return_ack.h\<close>, the \<open>ON_SCOPE_EXIT\<close> of \<open>ca/interface.cpp\<close>). The answer is
  filled while the handler runs and is sent with what it then has, also when an exception leaves the
  handler: a handler is a state transformer on the answer.
\<close>

subsection \<open>Runs with a state that survives exceptions\<close>

type_synonym ('s, 'a) st = "'s \<Rightarrow> 'a run \<times> 's"

definition ret_st :: "'a \<Rightarrow> ('s, 'a) st" where
  "ret_st x s = (Ret x, s)"

definition lift_st :: "'a run \<Rightarrow> ('s, 'a) st" where
  "lift_st r s = (r, s)"

definition put_st :: "('s \<Rightarrow> 's) \<Rightarrow> ('s, unit) st" where
  "put_st f s = (Ret (), f s)"

definition bind_st :: "('s, 'a) st \<Rightarrow> ('a \<Rightarrow> ('s, 'b) st) \<Rightarrow> ('s, 'b) st" where
  "bind_st m f s = (case m s of (r, s) \<Rightarrow>
     (case r of Ret x \<Rightarrow> f x s | Throw e \<Rightarrow> (Throw e, s) | Exit \<Rightarrow> (Exit, s) | Diverge \<Rightarrow> (Diverge, s) | Undefined \<Rightarrow> (Undefined, s)))"

text \<open>A loop whose body may return from the function.\<close>

fun loop_st :: "('a \<Rightarrow> ('s, 'r option) st) \<Rightarrow> 'a list \<Rightarrow> ('s, 'r option) st" where
  "loop_st act [] s = (Ret None, s)"
| "loop_st act (x # xs) s = bind_st (act x) (\<lambda>r. case r of None \<Rightarrow> loop_st act xs | Some v \<Rightarrow> ret_st (Some v)) s"

definition after_loop :: "('s, 'r option) st \<Rightarrow> ('s, 'r) st \<Rightarrow> ('s, 'r) st" where
  "after_loop l k = bind_st l (\<lambda>r. case r of None \<Rightarrow> k | Some v \<Rightarrow> ret_st v)"

named_theorems st_simps \<open>computing with stateful runs\<close>

lemma st_steps [st_simps]:
  "bind_st (ret_st x) f s = f x s" "bind_st (lift_st (Ret x)) f s = f x s" "bind_st (put_st g) h s = h () (g s)"
  "bind_st (lift_st (Throw e)) f s = (Throw e, s)" "ret_st x s = (Ret x, s)" "put_st g s = (Ret (), g s)"
  "bind_st (bind_st m k) k' s = bind_st m (\<lambda>x. bind_st (k x) k') s"
  by (auto simp: bind_st_def ret_st_def lift_st_def put_st_def split: run.splits prod.splits)

lemmas st_unfold = bind_st_def lift_st_def ret_st_def put_st_def

lemma bind_st_eq_Ret:
  "bind_st m f s = (Ret y, s') \<longleftrightarrow> (\<exists>x s1. m s = (Ret x, s1) \<and> f x s1 = (Ret y, s'))"
  by (auto simp: bind_st_def split: run.splits prod.splits)

lemma lift_st_eq_Ret [simp]: "lift_st r s = (Ret y, s') \<longleftrightarrow> r = Ret y \<and> s' = s"
  by (auto simp: lift_st_def)

subsection \<open>Versions\<close>

datatype BuildType = BUILD_TYPE_PRIMARY | K_BUILD_TYPE_TEST | BUILD_TYPE_DEV

definition kIOSCompatible :: cxx_string where "kIOSCompatible = ''4.0.4''"
definition ANDROID_COMPATIBLE :: cxx_string where "ANDROID_COMPATIBLE = ''3.1.0''"

definition stoi :: "cxx_string \<Rightarrow> int run" where
  "stoi s = bind_run (stox s) (\<lambda>(neg, n).
     let v = (if neg then - int n else int n) in if v < - (2 ^ 31) \<or> 2 ^ 31 \<le> v then Throw OutOfRange else Ret v)"

definition split_at :: "cxx_string \<Rightarrow> cxx_string \<Rightarrow> cxx_string list run" where
  "split_at s delim = run_of_option (SplitString s delim [])"

definition build_letter :: "BuildType \<Rightarrow> cxx_string" where
  "build_letter b = (case b of BUILD_TYPE_PRIMARY \<Rightarrow> ''p'' | K_BUILD_TYPE_TEST \<Rightarrow> ''t'' | BUILD_TYPE_DEV \<Rightarrow> ''d'')"

definition build_error :: "BuildType \<Rightarrow> int" where
  "build_error b = (case b of BUILD_TYPE_PRIMARY \<Rightarrow> -2 | K_BUILD_TYPE_TEST \<Rightarrow> -3 | BUILD_TYPE_DEV \<Rightarrow> -4)"

definition IsLinuxVersionCompatible :: "BuildType \<Rightarrow> cxx_string \<Rightarrow> cxx_string list \<Rightarrow> int run" where
  "IsLinuxVersionCompatible build own vRecvVersion =
     (if length vRecvVersion \<noteq> 3 then Ret (-1)
      else if vRecvVersion ! 2 \<noteq> build_letter build then Ret (build_error build)
      else bind_run (split_at own ''_'') (\<lambda>vOwnerVersion.
        if length vOwnerVersion \<noteq> 3 then Ret (-5)
        else bind_run (split_at (vOwnerVersion ! 1) ''.'') (\<lambda>vOwnerVersionNum.
          if vOwnerVersionNum = [] then Ret (-6)
          else bind_run (split_at (vRecvVersion ! 1) ''.'') (\<lambda>vRecvVersionNum.
            if length vRecvVersionNum \<noteq> length vOwnerVersionNum \<or> length vRecvVersionNum \<noteq> 3 then Ret (-7)
            else if vRecvVersionNum ! 0 \<noteq> vOwnerVersionNum ! 0 then Ret (-8)
            else if vRecvVersionNum ! 1 \<noteq> vOwnerVersionNum ! 1 then Ret (-9)
            else Ret 0))))"

text \<open>The parts of a version are compared as text.\<close>

fun compare_parts :: "cxx_string list \<Rightarrow> cxx_string list \<Rightarrow> int" where
  "compare_parts (r # rs) (o1 # os) = (if r < o1 then -3 else if o1 < r then 0 else compare_parts rs os)"
| "compare_parts _ _ = 0"

definition IsOtherVersionCompatible :: "cxx_string \<Rightarrow> bool \<Rightarrow> int run" where
  "IsOtherVersionCompatible recv bIsAndroid =
     (if recv = [] then Ret (-1)
      else bind_run (split_at recv ''.'') (\<lambda>vRecvVersionNum.
        if length vRecvVersionNum \<noteq> 3 then Ret (-2)
        else bind_run (split_at (if bIsAndroid then ANDROID_COMPATIBLE else kIOSCompatible) ''.'') (\<lambda>vOwnerVersionNum.
          Ret (compare_parts vRecvVersionNum vOwnerVersionNum))))"

definition IsVersionCompatible :: "BuildType \<Rightarrow> cxx_string \<Rightarrow> cxx_string \<Rightarrow> int run" where
  "IsVersionCompatible build own recvVersion =
     (if recvVersion = [] then Ret (-1)
      else bind_run (split_at recvVersion ''_'') (\<lambda>vRecvVersion.
        if length vRecvVersion < 1 \<or> 3 < length vRecvVersion then Ret (-2)
        else if length vRecvVersion = 1 then Ret (if vRecvVersion ! 0 = kNetVersion then 0 else -3)
        else bind_run (stoi (vRecvVersion ! 0)) (\<lambda>versionPrefix.
          if 4 < versionPrefix \<or> versionPrefix < 1 then Ret (-4)
          else if versionPrefix = 1 then bind_run (IsLinuxVersionCompatible build own vRecvVersion) (\<lambda>r. Ret (if r \<noteq> 0 then -5 else 0))
          else if versionPrefix = 2 then Ret (-6)
          else if versionPrefix = 3 then bind_run (IsOtherVersionCompatible (vRecvVersion ! 1) False) (\<lambda>r. Ret (if r \<noteq> 0 then -7 else 0))
          else bind_run (IsOtherVersionCompatible (vRecvVersion ! 1) True) (\<lambda>r. Ret (if r \<noteq> 0 then -8 else 0)))))"

subsection \<open>Answers\<close>

record ack =
  ak_version :: cxx_string
  ak_code :: int
  ak_message :: cxx_string

text \<open>The code and its text replace what the handler has set; a code without a text has the empty one.\<close>

definition returnAcknowledgmentCode ::
    "cxx_string \<Rightarrow> (int \<times> cxx_string) list \<Rightarrow> int \<Rightarrow> cxx_string \<Rightarrow> ('a ack_scheme) \<Rightarrow> 'a ack_scheme" where
  "returnAcknowledgmentCode own errInfo code extraInfo a =
     a\<lparr>ak_version := own, ak_code := code,
       ak_message := (if extraInfo \<noteq> [] then extraInfo else case map_of errInfo code of None \<Rightarrow> [] | Some t \<Rightarrow> t)\<rparr>"

text \<open>
  The common frame of the handlers: what the handler returns, and the answer sent. The variable for the
  code is 0 until the check or the implementation has returned; an error of the latter is shifted.
\<close>

definition handle_request ::
    "BuildType \<Rightarrow> cxx_string \<Rightarrow> (int \<times> cxx_string) list \<Rightarrow> int \<Rightarrow> cxx_string \<Rightarrow> ('a ack_scheme, int) st \<Rightarrow> 'a ack_scheme \<Rightarrow>
     int run \<times> 'a ack_scheme option" where
  "handle_request build own errInfo shift version impl a =
     (case bind_st (lift_st (IsVersionCompatible build own version)) (\<lambda>v.
        if v \<noteq> 0 then ret_st (-1) else bind_st impl (\<lambda>ret. ret_st (if ret \<noteq> 0 then ret - shift else 0))) a of
      (r, a) \<Rightarrow> (r, case r of Ret code \<Rightarrow> Some (returnAcknowledgmentCode own errInfo code [] a)
                   | Throw e \<Rightarrow> Some (returnAcknowledgmentCode own errInfo 0 [] a) | _ \<Rightarrow> None))"

end
