(* ===== verification/RpcReads.thy ===== *)
theory RpcReads
  imports RpcServer BlockFlow
begin

text \<open>
  The requests about the chain's records (\<open>ca/interface.cpp\<close>): blocks, balances, stakes, delegations,
  outputs, nodes. Each \<open>...Impl\<close> fills the answer and returns a code; \<open>handle_request\<close> sends it. From
  elsewhere come the validity of an address, protobuf parsing (whether it succeeds, and what it leaves),
  the JSON text of a transaction, the asset type of stakes, the reward and signature counts of a period.
\<close>

record rpc_env =
  rp_build :: BuildType
  rp_own :: cxx_string
  rp_valid :: "cxx_string \<Rightarrow> bool"
  rp_tx :: "cxx_string \<Rightarrow> bool \<times> CTransaction"
  rp_block :: "cxx_string \<Rightarrow> bool \<times> CBlock"
  rp_sort :: "CBlock list \<Rightarrow> CBlock list"
  rp_addr :: "cxx_string \<Rightarrow> cxx_string"
  rp_asset :: "int \<times> cxx_string"
  rp_target :: cxx_string
  rp_virtual :: cxx_string
  rp_stake_type :: "cxx_string \<Rightarrow> cxx_string run"
  rp_tx_info :: "cxx_string \<Rightarrow> cxx_string run"
  rp_utxos :: "cxx_string \<Rightarrow> int \<times> (cxx_string \<times> u64 \<times> u32) list"
  rp_counts :: "u64 \<Rightarrow> (cxx_string \<times> u64) list"
  rp_bonus :: "u64 \<Rightarrow> cxx_string \<Rightarrow> int \<times> (cxx_string \<times> u64) list"
  rp_pledge_time :: "cxx_string \<Rightarrow> int"
  rp_ip :: "u32 \<Rightarrow> cxx_string"
  rp_default_addr :: cxx_string
  rp_min_unstake :: u64
  kDecimalNum :: u64

definition code_text :: "int \<Rightarrow> cxx_string \<Rightarrow> ('a ack_scheme, unit) st" where
  "code_text c t = put_st (\<lambda>a. a\<lparr>ak_code := c, ak_message := t\<rparr>)"

definition own_version :: "rpc_env \<Rightarrow> ('a ack_scheme, unit) st" where
  "own_version env = put_st (\<lambda>a. a\<lparr>ak_version := rp_own env\<rparr>)"

definition ack_new :: ack where "ack_new = \<lparr>ak_version = [], ak_code = 0, ak_message = []\<rparr>"

subsection \<open>Blocks\<close>

record BlockItem =
  bi_blockhash :: cxx_string
  bi_addr :: "cxx_string list"

record GetBlockAck = ack +
  gb_height :: u64
  gb_timestamp :: u64
  gb_list :: "BlockItem list"

definition GetBlockAck_new :: GetBlockAck where
  "GetBlockAck_new = ack.extend ack_new (GetBlockAck.fields 0 0 [])"

definition fetch_blocks :: "rpc_env \<Rightarrow> reader \<Rightarrow> cxx_string list \<Rightarrow> CBlock list run" where
  "fetch_blocks env rd hashes = each_run (\<lambda>blocks hash. bind_run (getBlockByBlockHash rd hash []) (\<lambda>(_, blockStr).
     Ret (blocks @ [snd (rp_block env blockStr)]))) [] hashes"

text \<open>\<open>None\<close> when a block is not read or not parsed.\<close>

fun parsed_blocks :: "rpc_env \<Rightarrow> reader \<Rightarrow> cxx_string list \<Rightarrow> CBlock list \<Rightarrow> CBlock list option run" where
  "parsed_blocks env rd [] acc = Ret (Some acc)"
| "parsed_blocks env rd (hash # hashes) acc =
     bind_run (getBlockByBlockHash rd hash []) (\<lambda>(st, blockStr).
       if st \<noteq> DB_SUCCESS then Ret None
       else case rp_block env blockStr of (ok, block) \<Rightarrow>
         if \<not> ok then Ret None else parsed_blocks env rd hashes (acc @ [block]))"

text \<open>The failures of the second part return \<open>false\<close>, which is the code of success.\<close>

definition getBlockRequestImplementation :: "rpc_env \<Rightarrow> reader \<Rightarrow> mreader \<Rightarrow> u64 \<Rightarrow> (GetBlockAck, int) st" where
  "getBlockRequestImplementation env rd mrd top_height =
     (let blockHeight = (if rp_min_unstake env \<le> top_height then top_height - 10 else top_height) in
      bind_st (own_version env) (\<lambda>_.
      bind_st (lift_st (getBlockHashsByBlockHeight rd blockHeight [])) (\<lambda>(st, hashes).
        if st \<noteq> DB_SUCCESS then bind_st (code_text (-2) ''Get block hash failed'') (\<lambda>_. ret_st (-2))
        else bind_st (lift_st (fetch_blocks env rd hashes)) (\<lambda>blocks.
          bind_st (put_st (\<lambda>a. a\<lparr>gb_list := gb_list a @ map (\<lambda>block. \<lparr>bi_blockhash = bl_hash block,
              bi_addr = map (\<lambda>s. rp_addr env (sg_pub s)) (bl_sign block)\<rparr>) (rp_sort env blocks)\<rparr>)) (\<lambda>_.
          bind_st (lift_st (getBlockHashesByBlockHeight mrd top_height top_height [])) (\<lambda>(st, blockHashes).
            if st \<noteq> DB_SUCCESS then ret_st 0
            else bind_st (lift_st (parsed_blocks env rd blockHashes [])) (\<lambda>found.
              case found of None \<Rightarrow> ret_st 0
              | Some blocksTime \<Rightarrow>
                  if blocksTime = [] then lift_st (Throw OutOfRange)
                  else bind_st (put_st (\<lambda>a. a\<lparr>gb_timestamp := bl_time (last (rp_sort env blocksTime))\<rparr>)) (\<lambda>_.
                    bind_st (code_text 0 ''success'') (\<lambda>_.
                    bind_st (put_st (\<lambda>a. a\<lparr>gb_height := blockHeight\<rparr>)) (\<lambda>_. ret_st 0))))))))))"

definition requestBlockActionCode :: "(int \<times> cxx_string) list" where
  "requestBlockActionCode = [(-1, ''The version is wrong''), (-12, ''By block height failure'')]"

definition handleBlockFetchRequest :: "rpc_env \<Rightarrow> reader \<Rightarrow> mreader \<Rightarrow> cxx_string \<Rightarrow> u64 \<Rightarrow> int run \<times> GetBlockAck option" where
  "handleBlockFetchRequest env rd mrd version height =
     handle_request (rp_build env) (rp_own env) requestBlockActionCode 10 version (getBlockRequestImplementation env rd mrd height) GetBlockAck_new"

subsection \<open>Balance and node\<close>

record GetBalanceAck = ack +
  ga_address :: cxx_string
  ga_balance :: u64
  ga_height :: u64

definition GetBalanceAck_new :: GetBalanceAck where
  "GetBalanceAck_new = ack.extend ack_new (GetBalanceAck.fields [] 0 0)"

definition paid_to :: "cxx_string \<Rightarrow> CTransaction \<Rightarrow> u64" where
  "paid_to addr tx = sum_list (map vo_value (filter (\<lambda>vout. vo_addr vout = addr) (concat (map ux_vout (tx_utxos tx)))))"

text \<open>An error, or the sum of the outputs of all listed transactions to the address.\<close>

fun sum_outputs :: "rpc_env \<Rightarrow> reader \<Rightarrow> cxx_string \<Rightarrow> cxx_string list \<Rightarrow> u64 \<Rightarrow> (int + u64) run" where
  "sum_outputs env rd addr [] balance = Ret (Inr balance)"
| "sum_outputs env rd addr (utxo_hash # hashes) balance =
     bind_run (getTransactionByHash rd utxo_hash []) (\<lambda>(st, txRaw).
       if st \<noteq> DB_SUCCESS then Ret (Inl (-5))
       else case rp_tx env txRaw of (ok, tx) \<Rightarrow>
         if \<not> ok then Ret (Inl (-6)) else sum_outputs env rd addr hashes (balance + paid_to addr tx))"

definition getBalanceRequestImpl :: "rpc_env \<Rightarrow> reader \<Rightarrow> cxx_string \<Rightarrow> (GetBalanceAck, int) st" where
  "getBalanceRequestImpl env rd addr =
     bind_st (own_version env) (\<lambda>_.
       if addr = [] then ret_st (-1)
       else if \<not> rp_valid env addr then ret_st (-2)
       else bind_st (lift_st (getBlockTop rd 0)) (\<lambda>(_, blockHeight).
         bind_st (lift_st (getUtxoHashsByAddress rd addr [])) (\<lambda>(st, hashes).
           if st \<noteq> DB_SUCCESS then ret_st (if st = DB_NOT_FOUND then -3 else -4)
           else bind_st (lift_st (sum_outputs env rd addr hashes 0)) (\<lambda>r.
             case r of Inl err \<Rightarrow> ret_st err
             | Inr balance \<Rightarrow> bind_st (put_st (\<lambda>a. a\<lparr>ga_address := addr, ga_balance := balance, ga_height := blockHeight\<rparr>)) (\<lambda>_.
                 bind_st (code_text 0 ''success'') (\<lambda>_. ret_st 0))))))"

definition getBalanceRequestCode :: "(int \<times> cxx_string) list" where
  "getBalanceRequestCode = [(0, ''Get Amount Success''), (-1, ''addr is empty''), (-2, '' addr invalid''), (-3, ''search balance not found''),
     (-4, ''get tx failed''), (-5, ''getTransactionByHash failed!''), (-6, ''parse tx failed'')]"

definition getBalanceRequest :: "rpc_env \<Rightarrow> reader \<Rightarrow> cxx_string \<Rightarrow> cxx_string \<Rightarrow> int run \<times> GetBalanceAck option" where
  "getBalanceRequest env rd version address =
     handle_request (rp_build env) (rp_own env) getBalanceRequestCode 10 version (getBalanceRequestImpl env rd address) GetBalanceAck_new"

record GetNodeInfoAck = ack +
  ni_address :: cxx_string
  ni_ip :: cxx_string
  ni_height :: u64
  ni_ver :: cxx_string

definition GetNodeInfoAck_new :: GetNodeInfoAck where
  "GetNodeInfoAck_new = ack.extend ack_new (GetNodeInfoAck.fields [] [] 0 [])"

definition getNodeInfoRequestImplementation :: "rpc_env \<Rightarrow> reader \<Rightarrow> Node \<Rightarrow> (GetNodeInfoAck, int) st" where
  "getNodeInfoRequestImplementation env rd selfNode =
     bind_st (own_version env) (\<lambda>_.
     bind_st (put_st (\<lambda>a. a\<lparr>ni_address := rp_default_addr env, ni_ip := rp_ip env (nd_publicIp selfNode)\<rparr>)) (\<lambda>_.
     bind_st (lift_st (getBlockTop rd 0)) (\<lambda>(st, height).
       if st \<noteq> DB_SUCCESS then ret_st (-1)
       else bind_st (put_st (\<lambda>a. a\<lparr>ni_height := height, ni_ver := rp_own env\<rparr>)) (\<lambda>_.
         bind_st (code_text 0 ''success'') (\<lambda>_. ret_st 0)))))"

definition getNodeInfoRequestCode :: "(int \<times> cxx_string) list" where
  "getNodeInfoRequestCode = [(0, ''Get Node Info Success''), (-1, ''Invalid Version''), (-11, ''Get Top Failed''), (-12, ''Get Gas Failed'')]"

definition handleGetNodeInfoRequest :: "rpc_env \<Rightarrow> reader \<Rightarrow> Node \<Rightarrow> cxx_string \<Rightarrow> int run \<times> GetNodeInfoAck option" where
  "handleGetNodeInfoRequest env rd selfNode version =
     handle_request (rp_build env) (rp_own env) getNodeInfoRequestCode 10 version (getNodeInfoRequestImplementation env rd selfNode) GetNodeInfoAck_new"

end
