(* ===== verification/BonusCache.thy ===== *)
theory BonusCache
  imports RpcServer BlockFlow
begin

text \<open>
  What is delegated to a node (\<open>ca/bonus_addr_cache.cpp\<close>): the total is read from the database once and
  kept until \<open>isDirty\<close>, if it reaches the least amount. From elsewhere come the parsing of a transaction,
  that amount and the address that stands for delegation.
\<close>

subsection \<open>The cache\<close>

record BonusAddrInfo =
  ba_dirty :: bool
  ba_amount :: u64
  ba_utxos :: "cxx_string set"
  ba_time :: u64

definition BonusAddrInfo_new :: BonusAddrInfo where
  "BonusAddrInfo_new = \<lparr>ba_dirty = True, ba_amount = 0, ba_utxos = {}, ba_time = 0\<rparr>"

type_synonym bonus_map = "(cxx_string, BonusAddrInfo) std_map"

record bonus_env =
  be_min :: u64
  be_virtual :: cxx_string
  be_tx :: "cxx_string \<Rightarrow> bool \<times> CTransaction"

text \<open>\<open>operator[]\<close>, which makes an entry, and a change of it.\<close>

definition bonus_entry :: "cxx_string \<Rightarrow> bonus_map \<Rightarrow> BonusAddrInfo" where
  "bonus_entry addr m = (case map_of m addr of None \<Rightarrow> BonusAddrInfo_new | Some i \<Rightarrow> i)"

definition on_entry :: "cxx_string \<Rightarrow> (BonusAddrInfo \<Rightarrow> BonusAddrInfo) \<Rightarrow> bonus_map \<Rightarrow> bonus_map" where
  "on_entry addr f m = map_assign addr (f (bonus_entry addr m)) m"

text \<open>Of every set of outputs the first one to an address.\<close>

definition first_paid :: "cxx_string \<Rightarrow> CTransaction \<Rightarrow> u64" where
  "first_paid addr tx = sum_list (map (\<lambda>utxo. case find (\<lambda>vout. vo_addr vout = addr) (ux_vout utxo) of
     None \<Rightarrow> 0 | Some vout \<Rightarrow> vo_value vout) (tx_utxos tx))"

subsection \<open>Reading the total\<close>

text \<open>
  The transactions of one delegator: an error, or the sum so far and whether the time is still to be set,
  which is that of the transaction with which the sum reaches the least amount.
\<close>

fun scan_utxos ::
    "bonus_env \<Rightarrow> reader \<Rightarrow> cxx_string \<Rightarrow> cxx_string list \<Rightarrow> u64 \<Rightarrow> bool \<Rightarrow> (bonus_map, int + u64 \<times> bool) st" where
  "scan_utxos env rd addr [] acc flag m = (Ret (Inr (acc, flag)), m)"
| "scan_utxos env rd addr (hash # hashes) acc flag m =
     bind_st (lift_st (getTransactionByHash rd hash [])) (\<lambda>(st, strTx).
       if st \<noteq> DB_SUCCESS then ret_st (Inl (-3))
       else bind_st (put_st (on_entry addr (\<lambda>i. i\<lparr>ba_utxos := insert hash (ba_utxos i)\<rparr>))) (\<lambda>_.
         case be_tx env strTx of (ok, tx) \<Rightarrow>
           if \<not> ok then ret_st (Inl (-4))
           else let acc = acc + first_paid (be_virtual env) tx in
             if be_min env \<le> acc \<and> flag
             then bind_st (put_st (on_entry addr (\<lambda>i. i\<lparr>ba_time := tx_time tx\<rparr>))) (\<lambda>_. scan_utxos env rd addr hashes acc False)
             else scan_utxos env rd addr hashes acc flag)) m"

fun scan_delegators ::
    "bonus_env \<Rightarrow> reader \<Rightarrow> cxx_string \<Rightarrow> (cxx_string \<times> cxx_string) list \<Rightarrow> u64 \<Rightarrow> bool \<Rightarrow> (bonus_map, int + u64) st" where
  "scan_delegators env rd addr [] acc flag m = (Ret (Inr acc), m)"
| "scan_delegators env rd addr ((delegating_addr, currency) # rest) acc flag m =
     bind_st (lift_st (getBonusAddrDelegatingAddrUtxoByBonusAddr_asset rd addr delegating_addr currency [])) (\<lambda>(st, utxos).
       if st \<noteq> DB_SUCCESS \<and> st \<noteq> DB_NOT_FOUND then ret_st (Inl (-2))
       else bind_st (scan_utxos env rd addr utxos acc flag) (\<lambda>r. case r of
         Inl err \<Rightarrow> ret_st (Inl err) | Inr (acc, flag) \<Rightarrow> scan_delegators env rd addr rest acc flag)) m"

text \<open>The code and the amount the caller is given; a failure gives what was kept, if it was clean.\<close>

definition getAmount :: "bonus_env \<Rightarrow> reader \<Rightarrow> cxx_string \<Rightarrow> (bonus_map, int \<times> u64) st" where
  "getAmount env rd bonus_addr m =
     (let amount = (if ba_dirty (bonus_entry bonus_addr m) then 0 else ba_amount (bonus_entry bonus_addr m)) in
      bind_st (put_st (on_entry bonus_addr (\<lambda>i. i))) (\<lambda>_.
        if be_min env \<le> amount then ret_st (0, amount)
        else bind_st (put_st (on_entry bonus_addr (\<lambda>i. i\<lparr>ba_utxos := {}\<rparr>))) (\<lambda>_.
          bind_st (lift_st (getDelegatingAddrByBonusAddr_mm rd bonus_addr [])) (\<lambda>(st, delegators).
            if st \<noteq> DB_SUCCESS \<and> st \<noteq> DB_NOT_FOUND then ret_st (-1, amount)
            else if delegators = [] then ret_st (-2, amount)
            else bind_st (scan_delegators env rd bonus_addr delegators 0 True) (\<lambda>r. case r of
              Inl err \<Rightarrow> ret_st (err, amount)
            | Inr acc \<Rightarrow> bind_st (put_st (on_entry bonus_addr (\<lambda>i. i\<lparr>ba_amount := acc, ba_dirty := False\<rparr>))) (\<lambda>_. ret_st (0, acc)))))) m)"

definition getTime :: "cxx_string \<Rightarrow> bonus_map \<Rightarrow> u64" where
  "getTime bonus_addr m = (case map_of m bonus_addr of None \<Rightarrow> 0 | Some i \<Rightarrow> ba_time i)"

definition isDirty :: "cxx_string \<Rightarrow> bool \<Rightarrow> bonus_map \<Rightarrow> bonus_map" where
  "isDirty bonus_addr dirty m = on_entry bonus_addr (\<lambda>i. i\<lparr>ba_dirty := dirty\<rparr>) m"

end
