(* ===== verification/RpcLists.thy ===== *)
theory RpcLists
  imports RpcReads BonusCache
begin

text \<open>
  The requests for lists (\<open>ca/interface.cpp\<close>): stakes and delegations of an address, its outputs, who
  delegates to a node and how much, nodes with a stake, signature counts, heights, rewards, and how much
  may still be delegated.
\<close>

subsection \<open>Stakes and delegations\<close>

text \<open>\<open>StakeItem\<close> and \<open>DelegateItem\<close> have the same fields.\<close>

record ListItem =
  li_blockhash :: cxx_string
  li_blockheight :: u32
  li_utxo :: cxx_string
  li_amount :: u64
  li_time :: u64
  li_fromaddr :: cxx_string
  li_toaddr :: cxx_string
  li_detail :: cxx_string

record ListAck = ack +
  la_list :: "ListItem list"

definition ListAck_new :: ListAck where
  "ListAck_new = ack.extend ack_new (ListAck.fields [])"

text \<open>The receiver is the target if an output goes there; the last output set with one gives the amount.\<close>

definition with_amount :: "cxx_string \<Rightarrow> CTransaction \<Rightarrow> ListItem \<Rightarrow> ListItem" where
  "with_amount target tx item = foldl (\<lambda>item utxo. case find (\<lambda>vout. vo_addr vout = target) (ux_vout utxo) of
     None \<Rightarrow> item | Some txout \<Rightarrow> item\<lparr>li_toaddr := target, li_amount := vo_value txout\<rparr>) item (tx_utxos tx)"

text \<open>What is read for one transaction: nothing, or its block and itself.\<close>

definition listed_tx :: "rpc_env \<Rightarrow> reader \<Rightarrow> cxx_string \<Rightarrow> (CBlock \<times> CTransaction) option run" where
  "listed_tx env rd hash =
     bind_run (getTransactionByHash rd hash []) (\<lambda>(st, serialTxRawData).
       if st \<noteq> DB_SUCCESS then Ret None
       else let tx = snd (rp_tx env serialTxRawData) in
         if tx_hash tx = [] then Ret None
         else bind_run (getBlockHashByTransactionHash rd (tx_hash tx) []) (\<lambda>(st, strBlockHash).
           if st \<noteq> DB_SUCCESS then Ret None
           else bind_run (getBlockByBlockHash rd strBlockHash []) (\<lambda>(st, serBlock).
             if st \<noteq> DB_SUCCESS then Ret None
             else let block = snd (rp_block env serBlock) in
               if bl_hash block = [] then Ret None
               else if concat (map ux_owner (tx_utxos tx)) = [] then Ret None
               else Ret (Some (block, tx)))))"

text \<open>The item is in the answer before its detail is read from the text, which may throw.\<close>

definition add_item :: "rpc_env \<Rightarrow> reader \<Rightarrow> cxx_string \<Rightarrow> (cxx_string \<Rightarrow> cxx_string run) \<Rightarrow> cxx_string \<Rightarrow> (ListAck, int option) st" where
  "add_item env rd target detail hash =
     bind_st (lift_st (listed_tx env rd hash)) (\<lambda>r. case r of None \<Rightarrow> ret_st None
     | Some (block, tx) \<Rightarrow>
         bind_st (put_st (\<lambda>a. a\<lparr>la_list := la_list a @ [with_amount target tx \<lparr>li_blockhash = bl_hash block,
           li_blockheight = ucast (bl_height block), li_utxo = hash, li_amount = 0, li_time = tx_time tx,
           li_fromaddr = hd (concat (map ux_owner (tx_utxos tx))), li_toaddr = [], li_detail = []\<rparr>]\<rparr>)) (\<lambda>_.
         if tx_txType tx \<noteq> 1
         then bind_st (lift_st (detail (tx_data tx))) (\<lambda>t.
           bind_st (put_st (\<lambda>a. a\<lparr>la_list := butlast (la_list a) @ [(last (la_list a))\<lparr>li_detail := t\<rparr>]\<rparr>)) (\<lambda>_. ret_st None))
         else ret_st None))"

definition getStakeListRequestImplementation :: "rpc_env \<Rightarrow> reader \<Rightarrow> cxx_string \<Rightarrow> (ListAck, int) st" where
  "getStakeListRequestImplementation env rd addr =
     bind_st (own_version env) (\<lambda>_.
       if addr = [] then ret_st (-1)
       else if \<not> rp_valid env addr then ret_st (-2)
       else bind_st (lift_st (getStakeAddrUtxo rd addr (snd (rp_asset env)) [])) (\<lambda>(st, utxoes).
         if st \<noteq> DB_SUCCESS then ret_st (-3)
         else if utxoes = [] then ret_st (-4)
         else after_loop (loop_st (add_item env rd (rp_target env) (rp_stake_type env)) (rev utxoes))
           (bind_st (code_text 0 ''success'') (\<lambda>_. ret_st 0))))"

definition getStakeListRequestCode :: "(int \<times> cxx_string) list" where
  "getStakeListRequestCode = [(0, ''Get Stake List Success''), (-1, ''addr is empty !''), (-2, '' addr invalid''),
     (-3, ''Get Stake utxo error''), (-4, ''No stake'')]"

definition handleGetStakeListRequest :: "rpc_env \<Rightarrow> reader \<Rightarrow> cxx_string \<Rightarrow> cxx_string \<Rightarrow> int run \<times> ListAck option" where
  "handleGetStakeListRequest env rd version addr =
     handle_request (rp_build env) (rp_own env) getStakeListRequestCode 10 version (getStakeListRequestImplementation env rd addr) ListAck_new"

text \<open>The list of transactions is declared once for all nodes: the reader appends to it, and it is turned round each time.\<close>

fun delegate_nodes :: "rpc_env \<Rightarrow> reader \<Rightarrow> cxx_string \<Rightarrow> cxx_string list \<Rightarrow> cxx_string list \<Rightarrow> (ListAck, int option) st" where
  "delegate_nodes env rd addr [] utxoes a = (Ret None, a)"
| "delegate_nodes env rd addr (bonusAddr # bonusAddrs) utxoes a =
     bind_st (lift_st (getBonusAddrDelegatingAddrUtxoByBonusAddr rd bonusAddr addr utxoes)) (\<lambda>(st, utxoes).
       if st \<noteq> DB_SUCCESS then ret_st (Some (-4))
       else if utxoes = [] then ret_st (Some (-5))
       else bind_st (loop_st (add_item env rd (rp_virtual env) (rp_tx_info env)) (rev utxoes)) (\<lambda>r.
         case r of Some v \<Rightarrow> ret_st (Some v) | None \<Rightarrow> delegate_nodes env rd addr bonusAddrs (rev utxoes))) a"

definition GetDelegateListReqImpl :: "rpc_env \<Rightarrow> reader \<Rightarrow> cxx_string \<Rightarrow> (ListAck, int) st" where
  "GetDelegateListReqImpl env rd addr =
     bind_st (own_version env) (\<lambda>_.
       if addr = [] then ret_st (-1)
       else if \<not> rp_valid env addr then ret_st (-2)
       else bind_st (lift_st (getBonusAddrByDelegatingAddr rd addr [])) (\<lambda>(st, bonusAddrs).
         if st \<noteq> DB_SUCCESS then ret_st (-3)
         else after_loop (delegate_nodes env rd addr bonusAddrs []) (bind_st (code_text 0 ''success'') (\<lambda>_. ret_st 0))))"

definition GetDelegateListReqCode :: "(int \<times> cxx_string) list" where
  "GetDelegateListReqCode = [(0, ''Get Delegating List Success''), (-1, ''addr is empty !''), (-2, '' addr invalid !''),
     (-3, ''GetBonusAddr failed !''), (-4, ''GetBonusAddrDelegateUtxos failed !''), (-5, ''No Delegating'')]"

definition HandleGetDelegateListReq :: "rpc_env \<Rightarrow> reader \<Rightarrow> cxx_string \<Rightarrow> cxx_string \<Rightarrow> int run \<times> ListAck option" where
  "HandleGetDelegateListReq env rd version addr =
     handle_request (rp_build env) (rp_own env) GetDelegateListReqCode 10 version (GetDelegateListReqImpl env rd addr) ListAck_new"

subsection \<open>Outputs\<close>

record GetUtxoAck = ack +
  gu_address :: cxx_string
  gu_utxos :: "(cxx_string \<times> u64 \<times> u32) list"

definition GetUtxoAck_new :: GetUtxoAck where
  "GetUtxoAck_new = ack.extend ack_new (GetUtxoAck.fields [] [])"

definition getUtxoRequestImpl :: "rpc_env \<Rightarrow> cxx_string \<Rightarrow> (GetUtxoAck, int) st" where
  "getUtxoRequestImpl env address =
     bind_st (own_version env) (\<lambda>_.
       if address = [] \<or> \<not> rp_valid env address then ret_st (-1)
       else bind_st (put_st (\<lambda>a. a\<lparr>gu_address := address\<rparr>)) (\<lambda>_.
         case rp_utxos env address of (ret, utxos) \<Rightarrow>
           if ret \<noteq> 0 then ret_st (ret - 10)
           else bind_st (put_st (\<lambda>a. a\<lparr>gu_utxos := gu_utxos a @ utxos\<rparr>)) (\<lambda>_. bind_st (code_text 0 ''success'') (\<lambda>_. ret_st 0))))"

definition getUtxoRequestCode :: "(int \<times> cxx_string) list" where
  "getUtxoRequestCode = [(0, ''Get Utxo Success''), (-1, ''The addr is empty /  addr invalid''),
     (-12, ''GetUtxos : getUtxoHashsByAddress failed !'')]"

definition handleGetUtxoRequest :: "rpc_env \<Rightarrow> cxx_string \<Rightarrow> cxx_string \<Rightarrow> int run \<times> GetUtxoAck option" where
  "handleGetUtxoRequest env version address =
     handle_request (rp_build env) (rp_own env) getUtxoRequestCode 100 version (getUtxoRequestImpl env address) GetUtxoAck_new"

subsection \<open>Amounts by address\<close>

record AmountsAck = ack +
  am_addr :: cxx_string
  am_list :: "(cxx_string \<times> u64) list"

definition AmountsAck_new :: AmountsAck where
  "AmountsAck_new = ack.extend ack_new (AmountsAck.fields [] [])"

text \<open>All outputs to the address that stands for delegation; a transaction that is not parsed counts for what was read of it.\<close>

fun delegated_by :: "rpc_env \<Rightarrow> reader \<Rightarrow> cxx_string list \<Rightarrow> u64 \<Rightarrow> u64 option run" where
  "delegated_by env rd [] acc = Ret (Some acc)"
| "delegated_by env rd (item # items) acc =
     bind_run (getTransactionByHash rd item []) (\<lambda>(st, txRawData).
       if st \<noteq> DB_SUCCESS then Ret None
       else delegated_by env rd items (acc + paid_to (rp_virtual env) (snd (rp_tx env txRawData))))"

definition add_delegator :: "rpc_env \<Rightarrow> reader \<Rightarrow> cxx_string \<Rightarrow> cxx_string \<Rightarrow> (AmountsAck, int option) st" where
  "add_delegator env rd address addr =
     bind_st (lift_st (getBonusAddrDelegatingAddrUtxoByBonusAddr rd address addr [])) (\<lambda>(st, utxos).
       if st \<noteq> DB_SUCCESS then ret_st (Some (-4))
       else bind_st (lift_st (delegated_by env rd utxos 0)) (\<lambda>r. case r of
         None \<Rightarrow> ret_st (Some (-5))
       | Some amount \<Rightarrow> bind_st (put_st (\<lambda>a. a\<lparr>am_list := am_list a @ [(addr, amount)]\<rparr>)) (\<lambda>_. ret_st None)))"

definition GetAllDelegatingAddressReqImpl :: "rpc_env \<Rightarrow> reader \<Rightarrow> cxx_string \<Rightarrow> (AmountsAck, int) st" where
  "GetAllDelegatingAddressReqImpl env rd address =
     bind_st (own_version env) (\<lambda>_.
       if address = [] \<or> \<not> rp_valid env address then ret_st (-1)
       else bind_st (put_st (\<lambda>a. a\<lparr>am_addr := address\<rparr>)) (\<lambda>_.
         bind_st (lift_st (getDelegatingAddrByBonusAddr rd address [])) (\<lambda>(st, addresses).
           if st \<noteq> DB_SUCCESS then ret_st (-2)
           else if addresses = [] then ret_st (-3)
           else after_loop (loop_st (add_delegator env rd address) addresses) (bind_st (code_text 0 ''success'') (\<lambda>_. ret_st 0)))))"

definition GetAllDelegatingAddressReqCode :: "(int \<times> cxx_string) list" where
  "GetAllDelegatingAddressReqCode = [(0, ''Get AllDelegatingAddress Success''), (-1, ''The addr is empty /  addr invalid''),
     (-2, ''getDelegatingAddrByBonusAddr failed !''), (-3, ''No Delegatinged addrs !''), (-4, ''GetBonusAddrDelegateUtxos failed !''),
     (-5, ''getTransactionByHash failed !'')]"

definition HandleGetAllDelegatingAddressReq :: "rpc_env \<Rightarrow> reader \<Rightarrow> cxx_string \<Rightarrow> cxx_string \<Rightarrow> int run \<times> AmountsAck option" where
  "HandleGetAllDelegatingAddressReq env rd version address =
     handle_request (rp_build env) (rp_own env) GetAllDelegatingAddressReqCode 10 version (GetAllDelegatingAddressReqImpl env rd address) AmountsAck_new"

text \<open>Signature counts are cut to 32 bits.\<close>

definition GetSignCountListRequestImpl :: "rpc_env \<Rightarrow> u64 \<Rightarrow> (AmountsAck, int) st" where
  "GetSignCountListRequestImpl env now =
     bind_st (own_version env) (\<lambda>_.
       if \<not> rp_valid env (rp_default_addr env) then ret_st (-1)
       else bind_st (put_st (\<lambda>a. a\<lparr>am_list := am_list a @ map (\<lambda>(addr, n). (addr, ucast (ucast n :: u32))) (rp_counts env now)\<rparr>)) (\<lambda>_.
         bind_st (code_text 0 ''success'') (\<lambda>_. ret_st 0)))"

definition getSignCountListRequestCode :: "(int \<times> cxx_string) list" where
  "getSignCountListRequestCode = [(0, ''Get SignCountList List Success''), (-1, ''defaultAddr is invalid !''), (-2, ''getBonusAddr failed !''),
     (-3, ''getDelegatingAddrByBonusAddr failed !''), (-4, ''BonusdAddrs < 1 || BonusdAddrs > 999''),
     (-5, ''getBonusAddrDelegatingAddrUtxoByBonusAddr failed !''), (-6, ''getTransactionByHash failed !''), (-7, ''Parse tx failed !''),
     (-8, ''Total amount delegatinged < 5000 !''), (-9, ''GetSignUtxoByAddr failed !'')]"

definition handleGetSignCountListRequest :: "rpc_env \<Rightarrow> u64 \<Rightarrow> cxx_string \<Rightarrow> int run \<times> AmountsAck option" where
  "handleGetSignCountListRequest env now version =
     handle_request (rp_build env) (rp_own env) getSignCountListRequestCode 10 version (GetSignCountListRequestImpl env now) AmountsAck_new"

definition GetBonusListRequestImpl :: "rpc_env \<Rightarrow> u64 \<Rightarrow> cxx_string \<Rightarrow> (AmountsAck, int) st" where
  "GetBonusListRequestImpl env now addr =
     bind_st (own_version env) (\<lambda>_.
       if addr = [] then ret_st (-1)
       else if \<not> rp_valid env addr then ret_st (-2)
       else bind_st (put_st (\<lambda>a. a\<lparr>am_addr := addr\<rparr>)) (\<lambda>_.
         case rp_bonus env now addr of (ret, bonuses) \<Rightarrow>
           if ret \<noteq> 0 then ret_st (-3)
           else bind_st (put_st (\<lambda>a. a\<lparr>am_list := am_list a @ bonuses\<rparr>)) (\<lambda>_. bind_st (code_text 0 ''success'') (\<lambda>_. ret_st 0))))"

text \<open>
  This handler does not use the common frame: the code of the answer stays 0 when the version is refused,
  and is the implementation's when that fails.
\<close>

definition getBonusListRequestCode :: "(int \<times> cxx_string) list" where
  "getBonusListRequestCode = [(0, ''Get Stake List Success !''), (-1, ''addr is empty !''), (-2, ''addr is invalid !''),
     (-11, ''addr is AbnormalSignAddr !''), (-111, ''getDelegatingAddrByBonusAddr failed !''),
     (-112, ''getBonusAddrDelegatingAddrUtxoByBonusAddr failed!''), (-113, ''getTransactionByHash failed !''),
     (-114, ''Parse Transaction failed !''), (-115, ''GetDelegatingAndUndelegatingUtxoByAddr failed !''),
     (-116, ''getTransactionByHash failed !''), (-117, ''Parse Transaction failed !''), (-118, ''Unknown transaction type !''),
     (-119, ''mpDelegatingAddr2Amount is empty !''), (-212, ''GetBonusUtxo failed !''), (-213, ''getTransactionByHash failed !''),
     (-214, ''Parse Transaction failed !''), (-311, ''getTotalDelegatingAmount failed !''), (-312, ''GetAllDelegatingUtxo failed !''),
     (-313, ''getTransactionByHash failed !''), (-314, ''Parse Transaction failed !'')]"

definition processBonusListRequest :: "rpc_env \<Rightarrow> u64 \<Rightarrow> cxx_string \<Rightarrow> cxx_string \<Rightarrow> int run \<times> AmountsAck option" where
  "processBonusListRequest env now version addr =
     (case bind_st (lift_st (IsVersionCompatible (rp_build env) (rp_own env) version)) (\<lambda>v.
        if v \<noteq> 0 then ret_st (-1, 0) else bind_st (GetBonusListRequestImpl env now addr) (\<lambda>ret. ret_st (if ret \<noteq> 0 then -2 else 0, ret)))
        AmountsAck_new of
      (r, a) \<Rightarrow> (bind_run r (\<lambda>(ret, _). Ret ret),
        case r of Ret (_, code) \<Rightarrow> Some (returnAcknowledgmentCode (rp_own env) getBonusListRequestCode code [] a)
        | Throw e \<Rightarrow> Some (returnAcknowledgmentCode (rp_own env) getBonusListRequestCode 0 [] a) | _ \<Rightarrow> None))"

subsection \<open>Nodes and heights\<close>

record StakeNode =
  sk_addr :: cxx_string
  sk_name :: cxx_string
  sk_height :: u64
  sk_identity :: cxx_string
  sk_logo :: cxx_string
  sk_ip :: cxx_string
  sk_version :: cxx_string

record StakeNodesAck = ack +
  sn_list :: "StakeNode list"

definition StakeNodesAck_new :: StakeNodesAck where
  "StakeNodesAck_new = ack.extend ack_new (StakeNodesAck.fields [])"

definition stakeNodeListRequestImpl :: "rpc_env \<Rightarrow> Node list \<Rightarrow> Node \<Rightarrow> (StakeNodesAck, int) st" where
  "stakeNodeListRequestImpl env peers selfNode =
     bind_st (own_version env) (\<lambda>_.
     bind_st (if peers = [] then code_text (-1) ''peerlist is empty'' else ret_st ()) (\<lambda>_.
     bind_st (put_st (\<lambda>a. a\<lparr>sn_list := sn_list a @
       map (\<lambda>node. \<lparr>sk_addr = ''0x'' @ nd_address node, sk_name = nd_name node, sk_height = ucast (nd_height node), sk_identity = nd_identity node,
              sk_logo = nd_logo node, sk_ip = rp_ip env (nd_publicIp node), sk_version = nd_ver node\<rparr>)
         (filter (\<lambda>node. 0 \<le> rp_pledge_time env (nd_address node)) (peers @ [selfNode]))\<rparr>)) (\<lambda>_.
     bind_st (code_text 0 ''success'') (\<lambda>_. ret_st 0))))"

definition getAllStakeNodeListRequestCode :: "(int \<times> cxx_string) list" where
  "getAllStakeNodeListRequestCode = [(0, ''Get GetAllStakeNode List Success''), (-1, ''getStakeAddr failed !''),
     (-12, ''getStakeAddrUtxo failed !''), (-21, ''No failure of the transaction.''), (-24, ''GetBonusAddrDelegateUtxos failed !''),
     (-25, ''getTransactionByHash failed !'')]"

definition handleGetAllStakeNodeListRequest :: "rpc_env \<Rightarrow> Node list \<Rightarrow> Node \<Rightarrow> cxx_string \<Rightarrow> int run \<times> StakeNodesAck option" where
  "handleGetAllStakeNodeListRequest env peers selfNode version =
     handle_request (rp_build env) (rp_own env) getAllStakeNodeListRequestCode 100 version (stakeNodeListRequestImpl env peers selfNode) StakeNodesAck_new"

record HeightAck = ack +
  he_height :: u64

definition HeightAck_new :: HeightAck where
  "HeightAck_new = ack.extend ack_new (HeightAck.fields 0)"

definition getHeightRequestImplementation :: "rpc_env \<Rightarrow> reader \<Rightarrow> (HeightAck, int) st" where
  "getHeightRequestImplementation env rd =
     bind_st (own_version env) (\<lambda>_.
     bind_st (lift_st (getBlockTop rd 0)) (\<lambda>(st, height).
       if st \<noteq> DB_SUCCESS then ret_st (-1) else bind_st (put_st (\<lambda>a. a\<lparr>he_height := height\<rparr>)) (\<lambda>_. ret_st 0)))"

definition getHeightRequestCode :: "(int \<times> cxx_string) list" where
  "getHeightRequestCode = [(0, '' GetHeight Success ''), (-1, '' Get Block Height fail'')]"

definition getHeightRequest :: "rpc_env \<Rightarrow> reader \<Rightarrow> cxx_string \<Rightarrow> int run \<times> HeightAck option" where
  "getHeightRequest env rd version =
     handle_request (rp_build env) (rp_own env) getHeightRequestCode 100 version (getHeightRequestImplementation env rd) HeightAck_new"

subsection \<open>What may still be delegated\<close>

record RestAck = ack +
  re_addr :: cxx_string
  re_amount :: u64

definition RestAck_new :: RestAck where
  "RestAck_new = ack.extend ack_new (RestAck.fields [] 0)"

fun sum_delegated :: "rpc_env \<Rightarrow> reader \<Rightarrow> cxx_string list \<Rightarrow> u64 \<Rightarrow> (int + u64) run" where
  "sum_delegated env rd [] acc = Ret (Inr acc)"
| "sum_delegated env rd (utxo # utxos) acc =
     bind_run (getTransactionByHash rd utxo []) (\<lambda>(st, strTx).
       if st \<noteq> DB_SUCCESS then Ret (Inl (-4))
       else case rp_tx env strTx of (ok, tx) \<Rightarrow>
         if \<not> ok then Ret (Inl (-5)) else sum_delegated env rd utxos (acc + first_paid (rp_virtual env) tx))"

fun sum_delegators :: "rpc_env \<Rightarrow> reader \<Rightarrow> cxx_string \<Rightarrow> cxx_string list \<Rightarrow> u64 \<Rightarrow> (int + u64) run" where
  "sum_delegators env rd bonusAddr [] acc = Ret (Inr acc)"
| "sum_delegators env rd bonusAddr (address # addresses) acc =
     bind_run (getBonusAddrDelegatingAddrUtxoByBonusAddr rd bonusAddr address []) (\<lambda>(st, utxos).
       if st \<noteq> DB_SUCCESS then Ret (Inl (-3))
       else bind_run (sum_delegated env rd utxos acc) (\<lambda>r. case r of
         Inl err \<Rightarrow> Ret (Inl err) | Inr acc \<Rightarrow> sum_delegators env rd bonusAddr addresses acc))"

definition GetRestdelegateAmountReqImpl :: "rpc_env \<Rightarrow> reader \<Rightarrow> cxx_string \<Rightarrow> (RestAck, int) st" where
  "GetRestdelegateAmountReqImpl env rd bonusAddr =
     bind_st (lift_st (getDelegatingAddrByBonusAddr rd bonusAddr [])) (\<lambda>(st, addresses).
       if st \<noteq> DB_SUCCESS \<and> st \<noteq> DB_NOT_FOUND then ret_st (-1)
       else if 999 < length addresses + 1 then ret_st (-2)
       else bind_st (lift_st (sum_delegators env rd bonusAddr addresses 0)) (\<lambda>r. case r of
         Inl err \<Rightarrow> ret_st err
       | Inr acc \<Rightarrow> bind_st (put_st (\<lambda>a. a\<lparr>re_addr := bonusAddr, re_amount := 3500000 * kDecimalNum env - acc\<rparr>)) (\<lambda>_. ret_st 0)))"

definition GetRestdelegateAmountReqCode :: "(int \<times> cxx_string) list" where
  "GetRestdelegateAmountReqCode = [(0, ''success''), (-1, ''Get delegating addrs by node failed!''),
     (-2, ''The account number to be delegatinged have been delegatinged by 999 people!''),
     (-3, ''getBonusAddrDelegatingAddrUtxoByBonusAddr failed!''), (-4, ''getTransactionByHash failed!''),
     (-5, ''Failed to parse transaction body!'')]"

definition HandleGetRestdelegateAmountReq :: "rpc_env \<Rightarrow> reader \<Rightarrow> cxx_string \<Rightarrow> cxx_string \<Rightarrow> int run \<times> RestAck option" where
  "HandleGetRestdelegateAmountReq env rd version bonusAddr =
     handle_request (rp_build env) (rp_own env) GetRestdelegateAmountReqCode 0 version (GetRestdelegateAmountReqImpl env rd bonusAddr) RestAck_new"

end
