(* ===== verification/RpcConfirm.thy ===== *)
theory RpcConfirm
  imports RpcReads Doubles
begin

text \<open>
  Which share of the nodes has a transaction (\<open>sendConfirmationTransactionRequest\<close> of \<open>ca/interface.cpp\<close>):
  all nodes that are high enough are asked, ten of them, drawn at random, for the transaction itself. From
  elsewhere come the random numbers, the clock and the hash function that make the message id, the answers
  that arrive until the wait ends, their parsing, and the order of an unordered map.
\<close>

subsection \<open>Messages\<close>

record ConfirmTransactionReq =
  cr_txhash :: "cxx_string list"
  cr_time :: u64
  cr_height :: u64

record ConfirmTransactionAck = ack +
  ct_time :: u64
  ct_percentage :: "(cxx_string \<times> rat option) list"
  ct_send_size :: u32
  ct_received_size :: u32
  ct_tx :: cxx_string

record CheckTxReq =
  cq_version :: cxx_string
  cq_txhash :: "cxx_string list"
  cq_msg_id :: cxx_string
  cq_isresponse :: u32

record CheckTxAck =
  ca_flaghash :: "(cxx_string \<times> u32) list"
  ca_addr :: cxx_string
  ca_tx :: cxx_string

text \<open>While the handler runs: the answer, what has been sent, the response collector.\<close>

record confirm_run = ConfirmTransactionAck +
  cs_sent :: "(cxx_string \<times> CheckTxReq) list"
  cs_data :: global_data

definition confirm_new :: "global_data \<Rightarrow> confirm_run" where
  "confirm_new g = \<lparr>ak_version = [], ak_code = 0, ak_message = [], ct_time = 0, ct_percentage = [], ct_send_size = 0,
     ct_received_size = 0, ct_tx = [], cs_sent = [], cs_data = g\<rparr>"

record confirm_env =
  cf_sha256 :: "cxx_string \<Rightarrow> cxx_string"
  cf_now :: u64
  cf_draw :: "nat \<Rightarrow> nat"
  cf_arrived :: "(cxx_string \<times> cxx_string \<times> cxx_string) list"
  cf_parse :: "cxx_string \<Rightarrow> CheckTxAck option"
  cf_order :: "cxx_string list \<Rightarrow> cxx_string list"

subsection \<open>Steps\<close>

text \<open>The numbers are drawn below \<open>limit\<close> until there are ten different ones.\<close>

partial_function (option) draw_until :: "(nat \<Rightarrow> nat) \<Rightarrow> nat \<Rightarrow> nat \<Rightarrow> nat list \<Rightarrow> nat list option" where
  "draw_until draw limit k uniqueNumbers =
     (if length uniqueNumbers < 10 then draw_until draw limit (Suc k) (List.insert (draw k mod limit) uniqueNumbers)
      else Some uniqueNumbers)"

definition getRandomNumbers :: "(nat \<Rightarrow> nat) \<Rightarrow> nat \<Rightarrow> nat list run" where
  "getRandomNumbers draw limit = run_of_option (draw_until draw limit 0 [])"

definition findMostFrequentElement :: "(cxx_string list \<Rightarrow> cxx_string list) \<Rightarrow> cxx_string list \<Rightarrow> cxx_string \<times> nat" where
  "findMostFrequentElement order vec =
     foldl (\<lambda>(best, maxOccurrences) e. if maxOccurrences < count_list vec e then (e, count_list vec e) else (best, maxOccurrences))
       ([], 0) (order (remdups vec))"

text \<open>Asking the nodes, of which those with a drawn number are remembered; a node that cannot be waited for ends the request.\<close>

fun ask_for_tx ::
    "CheckTxReq \<Rightarrow> nat list \<Rightarrow> Node list \<Rightarrow> nat \<Rightarrow> cxx_string list \<Rightarrow> ('a confirm_run_scheme, cxx_string list option) st" where
  "ask_for_tx req drawn [] index resourceNodes s = (Ret (Some resourceNodes), s)"
| "ask_for_tx req drawn (node # nodes) index resourceNodes s =
     (let req = req\<lparr>cq_isresponse := (if index \<in> set drawn then 1 else 0)\<rparr>;
          resourceNodes = (if index \<in> set drawn then resourceNodes @ [nd_address node] else resourceNodes) in
      case AddResNode (cs_data s) (cq_msg_id req) (nd_address node) of (added, g) \<Rightarrow>
        if \<not> added then (Ret None, s\<lparr>ak_message := '' AddResNode error''\<rparr>)
        else ask_for_tx req drawn nodes (Suc index) resourceNodes (s\<lparr>cs_data := g, cs_sent := cs_sent s @ [(nd_address node, req)]\<rparr>))"

definition parsed_acks :: "(cxx_string \<Rightarrow> CheckTxAck option) \<Rightarrow> cxx_string list \<Rightarrow> CheckTxAck list" where
  "parsed_acks parse ret_datas = List.map_filter parse ret_datas"

text \<open>The transaction of an answer is taken once for every hash that it reports to be there.\<close>

definition raw_txs :: "cxx_string list \<Rightarrow> CheckTxAck list \<Rightarrow> cxx_string list" where
  "raw_txs resourceNodes acks = concat (map (\<lambda>a. if ca_addr a \<in> set resourceNodes
     then replicate (length (filter (\<lambda>(h, flag). flag = 1) (ca_flaghash a))) (ca_tx a) else []) acks)"

definition success_count :: "CheckTxAck list \<Rightarrow> cxx_string \<Rightarrow> u32" where
  "success_count acks hash = of_nat (length (filter (\<lambda>(h, flag). flag = 1 \<and> h = hash) (concat (map ca_flaghash acks))))"

text \<open>No quotient when nothing was received (not a number).\<close>

definition success_rate :: "u32 \<Rightarrow> nat \<Rightarrow> rat option" where
  "success_rate c n = (if n = 0 then None else Some (rnd (of_nat (unat c) / of_nat n)))"

definition success_hashes :: "cxx_string list \<Rightarrow> cxx_string list" where
  "success_hashes hashes = sort (remdups hashes)"

definition evaluate_acks :: "rpc_env \<Rightarrow> confirm_env \<Rightarrow> ConfirmTransactionReq \<Rightarrow> cxx_string list \<Rightarrow> cxx_string list \<Rightarrow> 'a confirm_run_scheme \<Rightarrow> 'a confirm_run_scheme" where
  "evaluate_acks env cf req resourceNodes ret_datas s =
     (let acks = parsed_acks (cf_parse cf) ret_datas in
      s\<lparr>ct_tx := fst (findMostFrequentElement (cf_order cf) (raw_txs resourceNodes acks)), ak_version := rp_own env, ct_time := cr_time req,
        ct_percentage := map (\<lambda>h. (h, success_rate (success_count acks h) (length ret_datas))) (success_hashes (cr_txhash req)),
        ct_received_size := of_nat (length ret_datas)\<rparr>)"

definition high_nodes :: "u64 \<Rightarrow> Node list \<Rightarrow> Node list" where
  "high_nodes h nodelist = filter (\<lambda>item. h \<le> ucast (nd_height item)) nodelist"

definition sendConfirmationTransactionRequest :: "rpc_env \<Rightarrow> confirm_env \<Rightarrow> Node list \<Rightarrow> ConfirmTransactionReq \<Rightarrow> (confirm_run, int) st" where
  "sendConfirmationTransactionRequest env cf nodelist req =
     (if nodelist = [] then bind_st (put_st (\<lambda>s. s\<lparr>ak_message := ''Nodelist size is empty''\<rparr>)) (\<lambda>_. ret_st (-1))
      else let nodes = high_nodes (cr_height req) nodelist in
        if nodes = [] then bind_st (put_st (\<lambda>s. s\<lparr>ak_message := ''filterHeightNodeList size is empty''\<rparr>)) (\<lambda>_. ret_st (-2))
        else bind_st (put_st (\<lambda>s. s\<lparr>ct_send_size := of_nat (length nodes)\<rparr>)) (\<lambda>_ s.
          case CreateWait (cf_sha256 cf) (cf_now cf) (cs_data s) 10 (of_nat (trunc_times (length nodes) d08)) of (created, msgId, g) \<Rightarrow>
            if \<not> created then (Ret (-3), s\<lparr>ak_message := ''CreateWait error''\<rparr>)
            else bind_st (lift_st (getRandomNumbers (cf_draw cf) (length nodes))) (\<lambda>drawn.
              bind_st (ask_for_tx \<lparr>cq_version = rp_own env, cq_txhash = cr_txhash req, cq_msg_id = msgId, cq_isresponse = 0\<rparr> drawn nodes 0 []) (\<lambda>asked.
                case asked of None \<Rightarrow> ret_st (-4)
                | Some resourceNodes \<Rightarrow> (\<lambda>s.
                    case WaitData_finish (respond (cs_data s) (cf_arrived cf)) msgId of (ok, ret_datas, g) \<Rightarrow>
                      if \<not> ok then (Ret (-5), s\<lparr>cs_data := g, ak_message := '' WaitData error''\<rparr>)
                      else (Ret 0, evaluate_acks env cf req resourceNodes ret_datas (s\<lparr>cs_data := g\<rparr>)))))
              (s\<lparr>cs_data := g\<rparr>)))"

definition getChainRequestId :: "(int \<times> cxx_string) list" where
  "getChainRequestId = [(0, ''Get  List Success''), (-1, ''version unCompatible'')]"

definition confirmTransactionRequestHandler ::
    "rpc_env \<Rightarrow> confirm_env \<Rightarrow> Node list \<Rightarrow> global_data \<Rightarrow> cxx_string \<Rightarrow> ConfirmTransactionReq \<Rightarrow> int run \<times> confirm_run option" where
  "confirmTransactionRequestHandler env cf nodelist g version req =
     handle_request (rp_build env) (rp_own env) getChainRequestId 0 version (sendConfirmationTransactionRequest env cf nodelist req) (confirm_new g)"

end
