(* ===== verification/RpcProps.thy ===== *)
theory RpcProps
  imports RpcLists RpcConfirm
begin

text \<open>
  What the answers about balances and delegations say, that the kept total of a node's delegations is the
  one of the database, and when the request about the spread of a transaction comes to an end.
\<close>

subsection \<open>A small database\<close>

text \<open>A node has one delegator, with one transaction of 7, which is also the only one of the address of the delegations.\<close>

definition one_tx :: CTransaction where
  "one_tx = \<lparr>tx_time = 3, tx_hash = ''t'', tx_txType = 2, tx_utxos = [\<lparr>ux_owner = [''a''], ux_vin = [], ux_assetType = ''s'',
     ux_vout = [\<lparr>vo_value = 7, vo_addr = ''v''\<rparr>], ux_gasUtxo = 0\<rparr>], tx_version = 0, tx_identity = [], tx_data = []\<rparr>"

definition one_delegation :: reader where
  "one_delegation = (\<lambda>k v. if k = kBonusAddr2DelegatingAddrKey @ ''b'' then Ret (DB_SUCCESS, ''a-s_'')
     else if k = kBonusAddrDelegatingAddr2DelegatingAddrUtxo @ ''b_a_s'' then Ret (DB_SUCCESS, ''t_'')
     else if k = ADDRESS_TO_UTXO_KEY @ ''v'' then Ret (DB_SUCCESS, ''t_'')
     else if k = TRANSACTION_HASH_TO_TRANSACTION_RAW_KEY @ ''t'' then Ret (DB_SUCCESS, ''raw'')
     else Ret (DB_NOT_FOUND, []))"

definition small_bonus_env :: bonus_env where
  "small_bonus_env = \<lparr>be_min = 5, be_virtual = ''v'', be_tx = (\<lambda>_. (True, one_tx))\<rparr>"

definition small_rpc_env :: rpc_env where
  "small_rpc_env = \<lparr>rp_build = BUILD_TYPE_DEV, rp_own = ''1_1.0.0_d'', rp_valid = (\<lambda>_. True), rp_tx = (\<lambda>_. (True, one_tx)),
     rp_block = (\<lambda>_. (True, CBlock_new)), rp_sort = (\<lambda>l. l), rp_addr = (\<lambda>x. x), rp_asset = (0, ''s''), rp_target = ''g'', rp_virtual = ''v'',
     rp_stake_type = (\<lambda>_. Ret []), rp_tx_info = (\<lambda>_. Ret []), rp_utxos = (\<lambda>_. (0, [])), rp_counts = (\<lambda>_. []), rp_bonus = (\<lambda>_ _. (0, [])),
     rp_pledge_time = (\<lambda>_. 0), rp_ip = (\<lambda>_. []), rp_default_addr = ''me'', rp_min_unstake = 10, kDecimalNum = 100\<rparr>"

lemma small_version: "IsVersionCompatible (rp_build small_rpc_env) (rp_own small_rpc_env) ''0.0'' = Ret 0"
  by (simp add: IsVersionCompatible_def split_at_def tokens_def kNetVersion_def)

lemmas delegation_keys = kBonusAddr2DelegatingAddrKey_def kBonusAddrDelegatingAddr2DelegatingAddrUtxo_def ADDRESS_TO_UTXO_KEY_def
  TRANSACTION_HASH_TO_TRANSACTION_RAW_KEY_def BLOCK_TOP_KEY_VALUE_def

subsection \<open>The cache of delegations\<close>

text \<open>
  The reference: all delegators, all their transactions, and of every set of outputs the first one to the
  address that stands for delegation.
\<close>

definition reads_tx :: "bonus_env \<Rightarrow> reader \<Rightarrow> cxx_string \<Rightarrow> CTransaction \<Rightarrow> bool" where
  "reads_tx env rd hash tx \<longleftrightarrow> (\<exists>raw. getTransactionByHash rd hash [] = Ret (DB_SUCCESS, raw) \<and> be_tx env raw = (True, tx))"

definition lists_utxos :: "reader \<Rightarrow> cxx_string \<Rightarrow> cxx_string \<times> cxx_string \<Rightarrow> cxx_string list \<Rightarrow> bool" where
  "lists_utxos rd addr dc utxos \<longleftrightarrow> (\<exists>st. getBonusAddrDelegatingAddrUtxoByBonusAddr_asset rd addr (fst dc) (snd dc) [] = Ret (st, utxos) \<and>
     (st = DB_SUCCESS \<or> st = DB_NOT_FOUND))"

definition delegated :: "bonus_env \<Rightarrow> reader \<Rightarrow> cxx_string \<Rightarrow> u64 \<Rightarrow> bool" where
  "delegated env rd addr amount \<longleftrightarrow> (\<exists>st delegators utxos txs. getDelegatingAddrByBonusAddr_mm rd addr [] = Ret (st, delegators) \<and>
     list_all2 (lists_utxos rd addr) delegators utxos \<and> list_all2 (reads_tx env rd) (concat utxos) txs \<and>
     amount = sum_list (map (first_paid (be_virtual env)) txs))"

definition coherent :: "bonus_env \<Rightarrow> reader \<Rightarrow> bonus_map \<Rightarrow> bool" where
  "coherent env rd m \<longleftrightarrow> (\<forall>addr. \<not> ba_dirty (bonus_entry addr m) \<longrightarrow> delegated env rd addr (ba_amount (bonus_entry addr m)))"

text \<open>The parts of the entries that count.\<close>

definition same_amounts :: "bonus_map \<Rightarrow> bonus_map \<Rightarrow> bool" where
  "same_amounts m m' \<longleftrightarrow> (\<forall>a. ba_dirty (bonus_entry a m') = ba_dirty (bonus_entry a m) \<and> ba_amount (bonus_entry a m') = ba_amount (bonus_entry a m))"

lemma entry_on_entry: "bonus_entry a (on_entry addr f m) = (if a = addr then f (bonus_entry addr m) else bonus_entry a m)"
  by (simp add: bonus_entry_def on_entry_def)

lemma same_refl [simp]: "same_amounts m m" by (simp add: same_amounts_def)

lemma same_trans: "same_amounts m m1 \<Longrightarrow> same_amounts m1 m2 \<Longrightarrow> same_amounts m m2" by (simp add: same_amounts_def)

lemma same_on_entry: "(\<And>i. ba_dirty (f i) = ba_dirty i \<and> ba_amount (f i) = ba_amount i) \<Longrightarrow> same_amounts m (on_entry addr f m)"
  by (simp add: same_amounts_def entry_on_entry)

lemma same_coherent: "same_amounts m m' \<Longrightarrow> coherent env rd m \<Longrightarrow> coherent env rd m'"
  by (simp add: same_amounts_def coherent_def)

lemma scan_utxos_sums:
  "scan_utxos env rd addr hashes acc flag m = (r, m') \<Longrightarrow> same_amounts m m' \<and> (\<forall>e. r = Ret (Inl e) \<longrightarrow> e < 0) \<and>
   (\<forall>acc' flag'. r = Ret (Inr (acc', flag')) \<longrightarrow> (\<exists>txs. list_all2 (reads_tx env rd) hashes txs \<and> acc' = acc + sum_list (map (first_paid (be_virtual env)) txs)))"
proof (induction hashes arbitrary: acc flag m)
  case (Cons hash hashes)
  show ?case
  proof (cases "\<exists>raw. getTransactionByHash rd hash [] = Ret (DB_SUCCESS, raw)")
    case False
    with Cons.prems show ?thesis by (auto simp: st_unfold split: run.splits prod.splits if_splits)
  next
    case True
    then obtain raw where raw: "getTransactionByHash rd hash [] = Ret (DB_SUCCESS, raw)" by blast
    obtain ok tx where tx: "be_tx env raw = (ok, tx)" by fastforce
    let ?m = "on_entry addr (\<lambda>i. i\<lparr>ba_utxos := insert hash (ba_utxos i)\<rparr>) m"
    have s: "same_amounts m ?m" by (rule same_on_entry) simp
    show ?thesis
    proof (cases ok)
      case False
      with Cons.prems raw tx s show ?thesis by (auto simp: st_simps)
    next
      case True
      let ?acc = "acc + first_paid (be_virtual env) tx"
      define m1 where "m1 = (if be_min env \<le> ?acc \<and> flag then on_entry addr (\<lambda>i. i\<lparr>ba_time := tx_time tx\<rparr>) ?m else ?m)"
      have s1: "same_amounts m m1" using same_trans [OF s same_on_entry] s by (simp add: m1_def)
      obtain flag1 where "scan_utxos env rd addr hashes ?acc flag1 m1 = (r, m')"
        using Cons.prems raw tx True unfolding m1_def by (auto simp: st_simps Let_def split: if_splits)
      note ih = Cons.IH [OF this]
      have "\<exists>txs. list_all2 (reads_tx env rd) (hash # hashes) txs \<and> acc' = acc + sum_list (map (first_paid (be_virtual env)) txs)"
        if eq: "r = Ret (Inr (acc', flag'))" for acc' flag'
      proof -
        obtain txs where "list_all2 (reads_tx env rd) hashes txs" "acc' = ?acc + sum_list (map (first_paid (be_virtual env)) txs)"
          using ih eq by blast
        moreover have "reads_tx env rd hash tx" using raw tx True by (simp add: reads_tx_def)
        ultimately show ?thesis by (intro exI [of _ "tx # txs"]) (simp add: add.assoc)
      qed
      with ih s1 show ?thesis by (blast intro: same_trans)
    qed
  qed
qed auto

lemma scan_delegators_sums:
  "scan_delegators env rd addr delegators acc flag m = (r, m') \<Longrightarrow> same_amounts m m' \<and> (\<forall>e. r = Ret (Inl e) \<longrightarrow> e < 0) \<and>
   (\<forall>acc'. r = Ret (Inr acc') \<longrightarrow> (\<exists>utxos txs. list_all2 (lists_utxos rd addr) delegators utxos \<and>
      list_all2 (reads_tx env rd) (concat utxos) txs \<and> acc' = acc + sum_list (map (first_paid (be_virtual env)) txs)))"
proof (induction delegators arbitrary: acc flag m)
  case (Cons dc rest)
  obtain d c where dc: "dc = (d, c)" by fastforce
  show ?case
  proof (cases "\<exists>st utxos. getBonusAddrDelegatingAddrUtxoByBonusAddr_asset rd addr d c [] = Ret (st, utxos) \<and> (st = DB_SUCCESS \<or> st = DB_NOT_FOUND)")
    case False
    with Cons.prems dc show ?thesis by (auto simp: st_unfold split: run.splits prod.splits if_splits)
  next
    case True
    then obtain st utxos where u: "getBonusAddrDelegatingAddrUtxoByBonusAddr_asset rd addr d c [] = Ret (st, utxos)" "st = DB_SUCCESS \<or> st = DB_NOT_FOUND" by blast
    obtain r1 m1 where s: "scan_utxos env rd addr utxos acc flag m = (r1, m1)" by fastforce
    note f = scan_utxos_sums [OF s]
    show ?thesis
    proof (cases "\<exists>acc1 flag1. r1 = Ret (Inr (acc1, flag1))")
      case False
      with Cons.prems dc u s f show ?thesis
        by (auto simp: st_unfold split: run.splits sum.splits prod.splits)
    next
      case True
      then obtain acc1 flag1 where r1: "r1 = Ret (Inr (acc1, flag1))" by blast
      with f obtain txs where txs: "list_all2 (reads_tx env rd) utxos txs" "acc1 = acc + sum_list (map (first_paid (be_virtual env)) txs)" by blast
      have "scan_delegators env rd addr rest acc1 flag1 m1 = (r, m')"
        using Cons.prems dc u s r1 by (auto simp: bind_st_def lift_st_def)
      from Cons.IH [OF this] have ih: "same_amounts m1 m'" "\<forall>e. r = Ret (Inl e) \<longrightarrow> e < 0" "\<And>acc'. r = Ret (Inr acc') \<Longrightarrow> \<exists>utxos txs. list_all2 (lists_utxos rd addr) rest utxos \<and>
        list_all2 (reads_tx env rd) (concat utxos) txs \<and> acc' = acc1 + sum_list (map (first_paid (be_virtual env)) txs)" by blast+
      have "\<exists>us ts. list_all2 (lists_utxos rd addr) (dc # rest) us \<and> list_all2 (reads_tx env rd) (concat us) ts \<and>
          acc' = acc + sum_list (map (first_paid (be_virtual env)) ts)" if eq: "r = Ret (Inr acc')" for acc'
      proof -
        obtain us ts where "list_all2 (lists_utxos rd addr) rest us" "list_all2 (reads_tx env rd) (concat us) ts"
          "acc' = acc1 + sum_list (map (first_paid (be_virtual env)) ts)" using ih(3) [OF eq] by blast
        with txs u dc show ?thesis
          by (intro exI [of _ "utxos # us"] exI [of _ "txs @ ts"]) (auto simp: lists_utxos_def add.assoc intro: list_all2_appendI)
      qed
      with f ih(1,2) show ?thesis by (blast intro: same_trans)
    qed
  qed
qed auto

text \<open>
  C36. The kept totals are those of the database: as long as every clean entry of the cache holds what the
  database says, asking for the total of a node keeps it so, whatever happens; and when it reports success the
  amount is the sum over all transactions of all delegators of the node, kept or read just now.
\<close>

theorem delegation_cache_coherent:
  assumes "coherent env rd m" "getAmount env rd addr m = (r, m')" "be_min env \<noteq> 0"
  shows "coherent env rd m' \<and> (\<forall>amount. r = Ret (0, amount) \<longrightarrow> delegated env rd addr amount \<and>
      ba_amount (bonus_entry addr m') = amount \<and> \<not> ba_dirty (bonus_entry addr m'))"
proof -
  let ?kept = "if ba_dirty (bonus_entry addr m) then 0 else ba_amount (bonus_entry addr m)"
  let ?m = "on_entry addr (\<lambda>i. i) m" and ?m1 = "on_entry addr (\<lambda>i. i\<lparr>ba_utxos := {}\<rparr>) (on_entry addr (\<lambda>i. i) m)"
  have s: "same_amounts m ?m" "same_amounts m ?m1" using same_trans [OF same_on_entry same_on_entry] by (auto intro: same_on_entry)
  show ?thesis
  proof (cases "be_min env \<le> ?kept")
    case 2: True
    with assms(3) have "\<not> ba_dirty (bonus_entry addr m)" by (auto split: if_splits simp: word_le_nat_alt unat_eq_0)
    moreover have "r = Ret (0, ba_amount (bonus_entry addr m))" "m' = ?m" using assms(2) 2 calculation by (auto simp: getAmount_def Let_def st_simps)
    ultimately show ?thesis using same_coherent [OF s(1) assms(1)] assms(1) by (auto simp: coherent_def entry_on_entry)
  next
    case 3: False
    show ?thesis
    proof (cases "\<exists>st delegators. getDelegatingAddrByBonusAddr_mm rd addr [] = Ret (st, delegators) \<and> (st = DB_SUCCESS \<or> st = DB_NOT_FOUND) \<and> delegators \<noteq> []")
      case False
      then have "m' = ?m1 \<and> (\<forall>amount. r \<noteq> Ret (0, amount))"
        using assms(2) 3 by (auto simp: getAmount_def Let_def st_unfold split: run.splits prod.splits if_splits)
      then show ?thesis using same_coherent [OF s(2) assms(1)] by blast
    next
      case True
      then obtain st delegators where d: "getDelegatingAddrByBonusAddr_mm rd addr [] = Ret (st, delegators)" "st = DB_SUCCESS \<or> st = DB_NOT_FOUND" "delegators \<noteq> []" by blast
      obtain r1 m1 where sc: "scan_delegators env rd addr delegators 0 True ?m1 = (r1, m1)" by fastforce
      note f = scan_delegators_sums [OF sc]
      have c: "coherent env rd m1" using same_coherent [OF same_trans [OF s(2)] assms(1)] f by blast
      show ?thesis
      proof (cases "\<exists>acc. r1 = Ret (Inr acc)")
        case True
        then obtain acc where acc: "r1 = Ret (Inr acc)" by blast
        with f d(1) have "delegated env rd addr acc" unfolding delegated_def by fastforce
        moreover have "r = Ret (0, acc)" "m' = on_entry addr (\<lambda>i. i\<lparr>ba_amount := acc, ba_dirty := False\<rparr>) m1"
          using assms(2) 3 d sc acc by (auto simp: getAmount_def Let_def st_unfold split: if_splits)
        ultimately show ?thesis using c by (auto simp: coherent_def entry_on_entry)
      next
        case False
        then have "m' = m1" "\<forall>amount. r \<noteq> Ret (0, amount)"
          using assms(2) 3 d sc f by (auto simp: getAmount_def Let_def st_unfold split: if_splits run.splits sum.splits)
        with c show ?thesis by blast
      qed
    qed
  qed
qed

theorem delegation_cache_coherent_witness:
  "\<exists>m'. getAmount small_bonus_env one_delegation ''b'' [] = (Ret (0, 7), m') \<and> coherent small_bonus_env one_delegation m' \<and>
     delegated small_bonus_env one_delegation ''b'' 7"
proof -
  have c: "coherent small_bonus_env one_delegation []" by (simp add: coherent_def bonus_entry_def BonusAddrInfo_new_def)
  have n: "be_min small_bonus_env \<noteq> 0" by (simp add: small_bonus_env_def)
  have d: "getDelegatingAddrByBonusAddr_mm one_delegation ''b'' [] = Ret (DB_SUCCESS, [(''a'', ''s'')])"
    by (simp add: getDelegatingAddrByBonusAddr_mm_def read_multimap_def read_then_def one_delegation_def mm_pieces_def cut_hyphen_def find_from_char)
  have u: "getBonusAddrDelegatingAddrUtxoByBonusAddr_asset one_delegation ''b'' ''a'' ''s'' [] = Ret (DB_SUCCESS, [''t''])"
    by (simp add: getBonusAddrDelegatingAddrUtxoByBonusAddr_asset_def read_list_def read_then_def one_delegation_def tokens_def delegation_keys)
  have t: "getTransactionByHash one_delegation ''t'' [] = Ret (DB_SUCCESS, ''raw'')"
    by (simp add: getTransactionByHash_def one_delegation_def delegation_keys)
  obtain m' where g: "getAmount small_bonus_env one_delegation ''b'' [] = (Ret (0, 7), m')"
    using d u t by (simp add: getAmount_def Let_def st_unfold bonus_entry_def BonusAddrInfo_new_def small_bonus_env_def first_paid_def one_tx_def)
  from delegation_cache_coherent [OF c g n] g show ?thesis by blast
qed

subsection \<open>The frame of the handlers\<close>

lemma handle_request_cases:
  assumes "IsVersionCompatible build own version = Ret 0"
  shows "impl a = (Ret 0, a') \<Longrightarrow> handle_request build own errInfo shift version impl a = (Ret 0, Some (returnAcknowledgmentCode own errInfo 0 [] a'))"
    and "impl a = (Ret c, a') \<Longrightarrow> c \<noteq> 0 \<Longrightarrow>
      handle_request build own errInfo shift version impl a = (Ret (c - shift), Some (returnAcknowledgmentCode own errInfo (c - shift) [] a'))"
    and "impl a = (Throw e, a') \<Longrightarrow> handle_request build own errInfo shift version impl a = (Throw e, Some (returnAcknowledgmentCode own errInfo 0 [] a'))"
    and "impl a = (Diverge, a') \<Longrightarrow> handle_request build own errInfo shift version impl a = (Diverge, None)"
  using assms by (simp_all add: handle_request_def st_unfold)

lemma handle_request_Ret:
  assumes "IsVersionCompatible build own version = Ret 0" "handle_request build own errInfo shift version impl a = (Ret code, Some b)"
  obtains c a' where "impl a = (Ret c, a')" "code = (if c \<noteq> 0 then c - shift else 0)" "b = returnAcknowledgmentCode own errInfo code [] a'"
proof -
  obtain r a' where i: "impl a = (r, a')" by fastforce
  with assms have "\<exists>c. r = Ret c" by (cases r) (auto simp: handle_request_def st_unfold)
  then obtain c where "r = Ret c" by blast
  with i assms that show ?thesis by (cases "c = 0") (auto simp: handle_request_cases)
qed

subsection \<open>Balances\<close>

lemma sum_outputs_Ret:
  "sum_outputs env rd addr hashes acc = Ret r \<Longrightarrow>
   (case r of Inl e \<Rightarrow> e = -5 \<or> e = -6
    | Inr balance \<Rightarrow> \<exists>txs. list_all2 (\<lambda>hash tx. \<exists>raw. getTransactionByHash rd hash [] = Ret (DB_SUCCESS, raw) \<and> rp_tx env raw = (True, tx)) hashes txs \<and>
        balance = acc + sum_list (map (paid_to addr) txs))"
proof (induction hashes arbitrary: acc)
  case (Cons hash hashes)
  from Cons.prems obtain st raw where raw: "getTransactionByHash rd hash [] = Ret (st, raw)" by (auto simp: bind_run_eq_Ret)
  obtain ok tx where tx: "rp_tx env raw = (ok, tx)" by fastforce
  show ?case
  proof (cases "st = DB_SUCCESS \<and> ok")
    case True
    then have "sum_outputs env rd addr hashes (acc + paid_to addr tx) = Ret r" using Cons.prems raw tx by simp
    note ih = Cons.IH [OF this]
    show ?thesis
    proof (cases r)
      case (Inr balance)
      with ih obtain txs where "list_all2 (\<lambda>hash tx. \<exists>raw. getTransactionByHash rd hash [] = Ret (DB_SUCCESS, raw) \<and> rp_tx env raw = (True, tx)) hashes txs"
        "balance = acc + paid_to addr tx + sum_list (map (paid_to addr) txs)" by auto
      with Inr raw tx True show ?thesis by (auto intro!: exI [of _ "tx # txs"] simp: add.assoc)
    qed (use ih in simp)
  next
    case False
    with Cons.prems raw tx show ?thesis by (auto split: if_splits)
  qed
qed auto

lemma new_balance: "ga_balance (GetBalanceAck_new\<lparr>ak_version := v\<rparr>) = 0" and new_balance_plain: "ga_balance GetBalanceAck_new = 0"
  by (simp_all add: GetBalanceAck_new_def ack_new_def ack.defs GetBalanceAck.defs)

lemma balance_impl_Ret:
  assumes "getBalanceRequestImpl env rd addr GetBalanceAck_new = (Ret c, a')"
  shows "(c = 0 \<and> ga_address a' = addr \<and> (\<exists>hashes txs. getUtxoHashsByAddress rd addr [] = Ret (DB_SUCCESS, hashes) \<and>
        list_all2 (\<lambda>hash tx. \<exists>raw. getTransactionByHash rd hash [] = Ret (DB_SUCCESS, raw) \<and> rp_tx env raw = (True, tx)) hashes txs \<and>
        ga_balance a' = sum_list (map (paid_to addr) txs))) \<or> (c \<in> {-6..-1} \<and> ga_balance a' = 0)"
proof (cases "addr = [] \<or> \<not> rp_valid env addr")
  case True
  with assms new_balance show ?thesis by (auto simp: getBalanceRequestImpl_def own_version_def st_simps split: if_splits)
next
  case False
  with assms obtain ts height where t: "getBlockTop rd 0 = Ret (ts, height)"
    by (auto simp: getBalanceRequestImpl_def own_version_def st_simps bind_st_eq_Ret)
  with assms False obtain st hashes where h: "getUtxoHashsByAddress rd addr [] = Ret (st, hashes)"
    by (auto simp: getBalanceRequestImpl_def own_version_def st_simps bind_st_eq_Ret)
  show ?thesis
  proof (cases "st = DB_SUCCESS")
    case False
    with t h assms new_balance \<open>\<not> (addr = [] \<or> \<not> rp_valid env addr)\<close> show ?thesis
      by (auto simp: getBalanceRequestImpl_def own_version_def st_simps split: prod.splits if_splits)
  next
    case True
    with assms False t h obtain r where r: "sum_outputs env rd addr hashes 0 = Ret r"
      by (auto simp: getBalanceRequestImpl_def own_version_def st_simps bind_st_eq_Ret)
    from sum_outputs_Ret [OF r] assms False t h r True new_balance show ?thesis
      by (cases r) (auto simp: getBalanceRequestImpl_def own_version_def code_text_def st_simps split: prod.splits)
  qed
qed

text \<open>The fields are set after everything that can throw.\<close>

lemma balance_impl_Throw:
  assumes "getBalanceRequestImpl env rd addr GetBalanceAck_new = (Throw e, a')"
  shows "ga_balance a' = 0"
  using assms new_balance
  by (auto simp: getBalanceRequestImpl_def own_version_def code_text_def st_unfold split: if_splits run.splits prod.splits sum.splits)

lemma handle_request_refused:
  assumes "IsVersionCompatible build own version = Ret v" "v \<noteq> 0"
  shows "handle_request build own errInfo shift version impl a = (Ret (-1), Some (returnAcknowledgmentCode own errInfo (-1) [] a))"
  using assms by (simp add: handle_request_def st_unfold)

lemma handle_request_unchecked:
  assumes "\<forall>v. IsVersionCompatible build own version \<noteq> Ret v"
  shows "handle_request build own errInfo shift version impl a =
    (case IsVersionCompatible build own version of Throw e \<Rightarrow> (Throw e, Some (returnAcknowledgmentCode own errInfo 0 [] a))
     | Exit \<Rightarrow> (Exit, None) | Diverge \<Rightarrow> (Diverge, None) | _ \<Rightarrow> (Undefined, None))"
  using assms by (cases "IsVersionCompatible build own version") (simp_all add: handle_request_def st_unfold)

lemma handle_request_rest:
  assumes "IsVersionCompatible build own version = Ret 0"
  shows "impl a = (Exit, a') \<Longrightarrow> handle_request build own errInfo shift version impl a = (Exit, None)"
    and "impl a = (Undefined, a') \<Longrightarrow> handle_request build own errInfo shift version impl a = (Undefined, None)"
  using assms by (simp_all add: handle_request_def st_unfold)

text \<open>
  C37. The answer about a balance. A return of 0 comes with the text of success and the sum of all outputs to
  the address of all the transactions that the database lists for it, each of which was read. A version that
  is refused is answered with -1 and the text of an empty address. Any other failure is answered with a code
  between -16 and -11 and an empty text, because the texts belong to other codes. An exception is answered
  with the code 0 and the text of success. In all cases but the first the balance is 0; the answer is left
  out only where the process ends or hangs or its behaviour is undefined.
\<close>

theorem balance_answer:
  "case getBalanceRequest env rd version addr of
     (Ret code, answer) \<Rightarrow> (\<exists>a. answer = Some a \<and> ak_code a = code \<and>
       (if code = 0 then ak_message a = ''Get Amount Success'' \<and> ga_address a = addr \<and>
          (\<exists>hashes txs. getUtxoHashsByAddress rd addr [] = Ret (DB_SUCCESS, hashes) \<and>
             list_all2 (\<lambda>hash tx. \<exists>raw. getTransactionByHash rd hash [] = Ret (DB_SUCCESS, raw) \<and> rp_tx env raw = (True, tx)) hashes txs \<and>
             ga_balance a = sum_list (map (paid_to addr) txs))
        else ga_balance a = 0 \<and>
          (if IsVersionCompatible (rp_build env) (rp_own env) version = Ret 0 then code \<in> {-16..-11} \<and> ak_message a = []
           else code = -1 \<and> ak_message a = ''addr is empty'')))
   | (Throw e, answer) \<Rightarrow> (\<exists>a. answer = Some a \<and> ak_code a = 0 \<and> ak_message a = ''Get Amount Success'' \<and> ga_balance a = 0)
   | (_, answer) \<Rightarrow> answer = None"
proof (cases "IsVersionCompatible (rp_build env) (rp_own env) version")
  case (Ret v)
  show ?thesis
  proof (cases "v = 0")
    case True
    with Ret have ok: "IsVersionCompatible (rp_build env) (rp_own env) version = Ret 0" by simp
    obtain r a' where i: "getBalanceRequestImpl env rd addr GetBalanceAck_new = (r, a')" by fastforce
    show ?thesis
    proof (cases r)
      case (Ret c)
      from i [unfolded Ret] balance_impl_Ret [OF i [unfolded Ret]] show ?thesis
        by (cases "c = 0") (auto simp: getBalanceRequest_def handle_request_cases [OF ok] ok returnAcknowledgmentCode_def getBalanceRequestCode_def)
    next
      case (Throw e)
      from i [unfolded Throw] balance_impl_Throw [OF i [unfolded Throw]] show ?thesis
        by (simp add: getBalanceRequest_def handle_request_cases [OF ok] returnAcknowledgmentCode_def getBalanceRequestCode_def)
    qed (use i in \<open>simp_all add: getBalanceRequest_def handle_request_rest [OF ok] handle_request_cases [OF ok]\<close>)
  next
    case False
    with Ret show ?thesis
      by (simp add: getBalanceRequest_def handle_request_refused returnAcknowledgmentCode_def getBalanceRequestCode_def new_balance_plain)
  qed
qed (simp_all add: getBalanceRequest_def handle_request_unchecked returnAcknowledgmentCode_def getBalanceRequestCode_def new_balance_plain)

theorem balance_answer_witness:
  "\<exists>a. getBalanceRequest small_rpc_env one_delegation ''0.0'' ''v'' = (Ret 0, Some a) \<and> ga_balance a = 7 \<and> ak_message a = ''Get Amount Success''"
proof -
  have h: "getUtxoHashsByAddress one_delegation ''v'' [] = Ret (DB_SUCCESS, [''t''])"
    by (simp add: getUtxoHashsByAddress_def read_list_def read_then_def one_delegation_def tokens_def delegation_keys)
  have t: "getTransactionByHash one_delegation ''t'' [] = Ret (DB_SUCCESS, ''raw'')"
    by (simp add: getTransactionByHash_def one_delegation_def delegation_keys)
  have b: "getBlockTop one_delegation 0 = Ret (DB_NOT_FOUND, 0)"
    by (simp add: getBlockTop_def read_unsigned_def read_then_def one_delegation_def delegation_keys)
  have "\<exists>a'. getBalanceRequestImpl small_rpc_env one_delegation ''v'' GetBalanceAck_new = (Ret 0, a') \<and> ga_balance a' = 7"
    using h t b by (simp add: getBalanceRequestImpl_def own_version_def code_text_def st_unfold small_rpc_env_def paid_to_def one_tx_def)
  then obtain a' where "getBalanceRequestImpl small_rpc_env one_delegation ''v'' GetBalanceAck_new = (Ret 0, a')" "ga_balance a' = 7" by blast
  then have g: "getBalanceRequest small_rpc_env one_delegation ''0.0'' ''v'' =
      (Ret 0, Some (returnAcknowledgmentCode (rp_own small_rpc_env) getBalanceRequestCode 0 [] a'))"
    using handle_request_cases(1) [OF small_version, where impl = "getBalanceRequestImpl small_rpc_env one_delegation ''v''" and a = GetBalanceAck_new]
    by (simp add: getBalanceRequest_def)
  have "ga_balance (returnAcknowledgmentCode (rp_own small_rpc_env) getBalanceRequestCode 0 [] a') = 7"
    using \<open>ga_balance a' = 7\<close> by (simp add: returnAcknowledgmentCode_def)
  with balance_answer [where env = small_rpc_env and rd = one_delegation and version = "''0.0''" and addr = "''v''"] g show ?thesis by auto
qed

subsection \<open>Delegators\<close>

text \<open>
  How the records of delegations look in a database that only the node's own setters have written: the key
  of the transactions names the node, the delegator and the asset, separated by underscores, while the
  list of a node's delegators is of texts without one.
\<close>

definition delegation_records :: "reader \<Rightarrow> bool" where
  "delegation_records rd \<longleftrightarrow> (\<forall>x. \<exists>st v. rd (kBonusAddrDelegatingAddr2DelegatingAddrUtxo @ x) [] = Ret (st, v) \<and>
     (st = DB_SUCCESS \<longrightarrow> 2 \<le> length (filter (\<lambda>c. c = CHR ''_'') x)))"

lemma two_parts_unreadable:
  assumes "delegation_records rd" "CHR ''_'' \<notin> set bonusAddr" "CHR ''_'' \<notin> set address"
  shows "\<exists>st. getBonusAddrDelegatingAddrUtxoByBonusAddr rd bonusAddr address [] = Ret (st, []) \<and> st \<noteq> DB_SUCCESS"
proof -
  have none: "filter (\<lambda>c. c = CHR ''_'') bonusAddr = []" "filter (\<lambda>c. c = CHR ''_'') address = []"
    using assms(2,3) by (auto simp: filter_empty_conv)
  obtain st v where r: "rd (kBonusAddrDelegatingAddr2DelegatingAddrUtxo @ bonusAddr @ ''_'' @ address) [] = Ret (st, v)"
    "st = DB_SUCCESS \<longrightarrow> 2 \<le> length (filter (\<lambda>c. c = CHR ''_'') (bonusAddr @ ''_'' @ address))"
    using assms(1) unfolding delegation_records_def by blast
  then have "st \<noteq> DB_SUCCESS" using none by auto
  with r show ?thesis by (simp add: getBonusAddrDelegatingAddrUtxoByBonusAddr_def read_list_def read_then_def)
qed

text \<open>
  C38. Nobody is told what a node has been delegated: as soon as a node has a delegator on record, the request
  for the amount that may still be delegated to it fails with -3, and the one for its delegators with -14 and
  no text, because both look for the transactions under a key without the asset.
\<close>

theorem delegators_unreadable:
  assumes "IsVersionCompatible (rp_build env) (rp_own env) version = Ret 0" "delegation_records rd"
    and "rd (kBonusAddr2DelegatingAddrKey @ bonusAddr) [] = Ret (DB_SUCCESS, value)" "tokens (CHR ''_'') value \<noteq> []"
    and "length (tokens (CHR ''_'') value) < 999" "CHR ''_'' \<notin> set bonusAddr" "rp_valid env bonusAddr" "bonusAddr \<noteq> []"
  shows "\<exists>a b. HandleGetRestdelegateAmountReq env rd version bonusAddr = (Ret (-3), Some a) \<and> re_amount a = 0 \<and>
      HandleGetAllDelegatingAddressReq env rd version bonusAddr = (Ret (-14), Some b) \<and> am_list b = [] \<and> ak_message b = []"
proof -
  obtain address addresses where t: "tokens (CHR ''_'') value = address # addresses" using assms(4) by (cases "tokens (CHR ''_'') value") auto
  then have "CHR ''_'' \<notin> set address" using tokens_props [of address "CHR ''_''" "value"] by simp
  from two_parts_unreadable [OF assms(2,6) this] obtain st where
    st: "getBonusAddrDelegatingAddrUtxoByBonusAddr rd bonusAddr address [] = Ret (st, [])" "st \<noteq> DB_SUCCESS" by blast
  have l: "getDelegatingAddrByBonusAddr rd bonusAddr [] = Ret (DB_SUCCESS, address # addresses)"
    using assms(3) t by (simp add: getDelegatingAddrByBonusAddr_def read_list_def read_then_def)
  have r: "GetRestdelegateAmountReqImpl env rd bonusAddr RestAck_new = (Ret (-3), RestAck_new)"
    using l st t assms(5) by (simp add: GetRestdelegateAmountReqImpl_def st_simps)
  let ?b = "AmountsAck_new\<lparr>ak_version := rp_own env, am_addr := bonusAddr\<rparr>"
  have d: "GetAllDelegatingAddressReqImpl env rd bonusAddr AmountsAck_new = (Ret (-4), ?b)"
    using l st assms(7,8) by (simp add: GetAllDelegatingAddressReqImpl_def own_version_def after_loop_def add_delegator_def st_unfold)
  show ?thesis
    using handle_request_cases(2) [OF assms(1), where impl = "GetRestdelegateAmountReqImpl env rd bonusAddr" and a = RestAck_new, OF r]
      handle_request_cases(2) [OF assms(1), where impl = "GetAllDelegatingAddressReqImpl env rd bonusAddr" and a = AmountsAck_new, OF d]
    by (simp add: HandleGetRestdelegateAmountReq_def HandleGetAllDelegatingAddressReq_def returnAcknowledgmentCode_def RestAck_new_def AmountsAck_new_def
        ack.defs RestAck.defs AmountsAck.defs ack_new_def GetAllDelegatingAddressReqCode_def)
qed

theorem delegators_unreadable_witness:
  "\<exists>a b. HandleGetRestdelegateAmountReq small_rpc_env one_delegation ''0.0'' ''b'' = (Ret (-3), Some a) \<and>
     HandleGetAllDelegatingAddressReq small_rpc_env one_delegation ''0.0'' ''b'' = (Ret (-14), Some b) \<and> am_list b = []"
proof -
  have r: "delegation_records one_delegation" by (auto simp: delegation_records_def one_delegation_def delegation_keys)
  have v: "one_delegation (kBonusAddr2DelegatingAddrKey @ ''b'') [] = Ret (DB_SUCCESS, ''a-s_'')" by (simp add: one_delegation_def)
  have t: "tokens (CHR ''_'') ''a-s_'' \<noteq> []" "length (tokens (CHR ''_'') ''a-s_'') < 999" by (simp_all add: tokens_def)
  show ?thesis using delegators_unreadable [OF small_version r v t] by (auto simp: small_rpc_env_def)
qed

subsection \<open>Random numbers\<close>

lemma draw_until_result:
  assumes "draw_until draw limit k S = Some R"
  shows "10 \<le> length R \<and> (0 < limit \<and> distinct S \<and> set S \<subseteq> {..<limit} \<and> length S \<le> 10 \<longrightarrow> distinct R \<and> set R \<subseteq> {..<limit} \<and> length R = 10)"
proof (rule draw_until.raw_induct [where P = "\<lambda>draw limit k S R. 10 \<le> length R \<and>
    (0 < limit \<and> distinct S \<and> set S \<subseteq> {..<limit} \<and> length S \<le> 10 \<longrightarrow> distinct R \<and> set R \<subseteq> {..<limit} \<and> length R = 10)", OF _ assms])
  fix f :: "(nat \<Rightarrow> nat) \<Rightarrow> nat \<Rightarrow> nat \<Rightarrow> nat list \<Rightarrow> nat list option" and draw limit k S R
  assume IH: "\<And>draw limit k S R. f draw limit k S = Some R \<Longrightarrow> 10 \<le> length R \<and>
      (0 < limit \<and> distinct S \<and> set S \<subseteq> {..<limit} \<and> length S \<le> 10 \<longrightarrow> distinct R \<and> set R \<subseteq> {..<limit} \<and> length R = 10)"
    and eq: "(if length S < 10 then f draw limit (Suc k) (List.insert (draw k mod limit) S) else Some S) = Some R"
  show "10 \<le> length R \<and> (0 < limit \<and> distinct S \<and> set S \<subseteq> {..<limit} \<and> length S \<le> 10 \<longrightarrow> distinct R \<and> set R \<subseteq> {..<limit} \<and> length R = 10)"
  proof (cases "length S < 10")
    case True
    with eq have "f draw limit (Suc k) (List.insert (draw k mod limit) S) = Some R" by simp
    from IH [OF this] True show ?thesis by (auto simp: List.insert_def)
  qed (use eq in auto)
qed

lemma draw_until_ends:
  assumes "10 \<le> limit" "\<forall>n<limit. \<forall>k. \<exists>j\<ge>k. draw j mod limit = n"
  shows "distinct S \<Longrightarrow> set S \<subseteq> {..<limit} \<Longrightarrow> \<exists>R. draw_until draw limit k S = Some R"
proof (induction "10 - length S" arbitrary: k S)
  case 0
  then show ?case by (subst draw_until.simps) simp
next
  case (Suc d)
  have "\<not> {..<limit} \<subseteq> set S"
  proof
    assume "{..<limit} \<subseteq> set S"
    then have "limit \<le> card (set S)" using card_mono [of "set S" "{..<limit}"] by simp
    with Suc.hyps(2) assms(1) card_length [of S] show False by simp
  qed
  then obtain n where n: "n < limit" "n \<notin> set S" by blast
  then obtain j where j: "k \<le> j" "draw j mod limit = n" using assms(2) by blast
  then show ?case
  proof (induction "j - k" arbitrary: k)
    case 0
    then have "draw k mod limit = n" by simp
    then have "\<exists>R. draw_until draw limit (Suc k) (List.insert (draw k mod limit) S) = Some R"
      using Suc.hyps Suc.prems n by (intro Suc.hyps(1)) (auto simp: List.insert_def)
    with Suc.hyps(2) show ?case by (subst draw_until.simps) simp
  next
    case (Suc e)
    have lt: "0 < limit" using assms(1) by simp
    show ?case
    proof (cases "draw k mod limit \<in> set S")
      case True
      have "\<exists>R. draw_until draw limit (Suc k) S = Some R" using Suc.hyps(2) Suc.prems by (intro Suc.hyps(1)) auto
      with True show ?thesis by (subst draw_until.simps) (auto simp: List.insert_def)
    next
      case False
      have "\<exists>R. draw_until draw limit (Suc k) (List.insert (draw k mod limit) S) = Some R"
        using \<open>Suc d = 10 - length S\<close> \<open>distinct S\<close> \<open>set S \<subseteq> {..<limit}\<close> False lt
        by (intro \<open>\<And>S k. d = 10 - length S \<Longrightarrow> distinct S \<Longrightarrow> set S \<subseteq> {..<limit} \<Longrightarrow> \<exists>R. draw_until draw limit k S = Some R\<close>)
          (auto simp: List.insert_def)
      then show ?thesis by (subst draw_until.simps) auto
    qed
  qed
qed

lemma getRandomNumbers_small: "0 < limit \<Longrightarrow> limit < 10 \<Longrightarrow> getRandomNumbers draw limit = Diverge"
proof (cases "draw_until draw limit 0 []")
  case (Some R)
  assume l: "0 < limit" "limit < 10"
  with draw_until_result [OF Some] have "distinct R" "set R \<subseteq> {..<limit}" "length R = 10" by auto
  then have "10 \<le> limit" using card_mono [of "{..<limit}" "set R"] by (simp add: distinct_card)
  with l show ?thesis by simp
qed (simp add: getRandomNumbers_def)

lemma ask_for_tx_registered:
  "map_of (cs_data s) (cq_msg_id req) \<noteq> None \<Longrightarrow> \<exists>rn s'. ask_for_tx req drawn nodes index resourceNodes s = (Ret (Some rn), s')"
proof (induction nodes arbitrary: index resourceNodes s req)
  case (Cons node nodes)
  then show ?case by (auto simp: AddResNode_def Let_def)
qed simp

text \<open>
  C39. The request about the spread of a transaction needs ten nodes: with fewer that are high enough, but at
  least one, the handler never returns and nothing is answered; with ten or more it returns, provided the
  random numbers keep producing every index, with 0 or the code of a wait that was too short.
\<close>

theorem confirmation_needs_ten_nodes:
  assumes "IsVersionCompatible (rp_build env) (rp_own env) version = Ret 0" "high_nodes (cr_height req) nodelist \<noteq> []"
  shows "if length (high_nodes (cr_height req) nodelist) < 10
    then confirmTransactionRequestHandler env cf nodelist g version req = (Diverge, None)
    else (\<forall>n<length (high_nodes (cr_height req) nodelist). \<forall>k. \<exists>j\<ge>k. cf_draw cf j mod length (high_nodes (cr_height req) nodelist) = n) \<longrightarrow>
      (\<exists>code a. confirmTransactionRequestHandler env cf nodelist g version req = (Ret code, Some a) \<and> code \<in> {0, -5})"
proof -
  let ?nodes = "high_nodes (cr_height req) nodelist"
  let ?s = "(confirm_new g)\<lparr>ct_send_size := of_nat (length ?nodes)\<rparr>"
  have ne: "nodelist \<noteq> []" using assms(2) by (auto simp: high_nodes_def)
  obtain msgId g1 where w: "CreateWait (cf_sha256 cf) (cf_now cf) (cs_data ?s) 10 (of_nat (trunc_times (length ?nodes) d08)) = (True, msgId, g1)"
    "map_of g1 msgId \<noteq> None" by (auto simp: CreateWait_def Let_def)
  let ?rest = "\<lambda>drawn. bind_st (ask_for_tx \<lparr>cq_version = rp_own env, cq_txhash = cr_txhash req, cq_msg_id = msgId, cq_isresponse = 0\<rparr> drawn ?nodes 0 []) (\<lambda>asked.
                case asked of None \<Rightarrow> ret_st (-4)
                | Some resourceNodes \<Rightarrow> (\<lambda>s.
                    case WaitData_finish (respond (cs_data s) (cf_arrived cf)) msgId of (ok, ret_datas, g) \<Rightarrow>
                      if \<not> ok then (Ret (-5), s\<lparr>cs_data := g, ak_message := '' WaitData error''\<rparr>)
                      else (Ret 0, evaluate_acks env cf req resourceNodes ret_datas (s\<lparr>cs_data := g\<rparr>))))"
  have e: "sendConfirmationTransactionRequest env cf nodelist req (confirm_new g) =
      bind_st (lift_st (getRandomNumbers (cf_draw cf) (length ?nodes))) ?rest (?s\<lparr>cs_data := g1\<rparr>)"
    using ne assms(2) w(1) by (simp add: sendConfirmationTransactionRequest_def Let_def st_simps)
  show ?thesis
  proof (cases "length ?nodes < 10")
    case True
    then have "getRandomNumbers (cf_draw cf) (length ?nodes) = Diverge" using getRandomNumbers_small [of "length ?nodes"] assms(2) by simp
    then have "\<exists>a'. sendConfirmationTransactionRequest env cf nodelist req (confirm_new g) = (Diverge, a')" unfolding e by (simp add: st_unfold)
    with True show ?thesis using handle_request_cases(4) [OF assms(1)] by (auto simp: confirmTransactionRequestHandler_def)
  next
    case False
    have "\<exists>code a. confirmTransactionRequestHandler env cf nodelist g version req = (Ret code, Some a) \<and> code \<in> {0, -5}"
      if fair: "\<forall>n<length ?nodes. \<forall>k. \<exists>j\<ge>k. cf_draw cf j mod length ?nodes = n"
    proof -
      from draw_until_ends [OF _ fair, of "[]" 0] False obtain R where "getRandomNumbers (cf_draw cf) (length ?nodes) = Ret R"
        by (auto simp: getRandomNumbers_def)
      moreover obtain rn s' where "ask_for_tx \<lparr>cq_version = rp_own env, cq_txhash = cr_txhash req, cq_msg_id = msgId, cq_isresponse = 0\<rparr> R ?nodes 0 [] (?s\<lparr>cs_data := g1\<rparr>) = (Ret (Some rn), s')"
        using ask_for_tx_registered [of "?s\<lparr>cs_data := g1\<rparr>"] w(2) by fastforce
      moreover obtain ok ret_datas g2 where "WaitData_finish (respond (cs_data s') (cf_arrived cf)) msgId = (ok, ret_datas, g2)" by (metis prod_cases3)
      ultimately obtain c a' where i: "sendConfirmationTransactionRequest env cf nodelist req (confirm_new g) = (Ret c, a')" "c \<in> {0, -5}"
        unfolding e by (cases ok) (auto simp: st_unfold)
      note h = handle_request_cases(1,2) [OF assms(1), where impl = "sendConfirmationTransactionRequest env cf nodelist req" and a = "confirm_new g"]
      show ?thesis
      proof (cases "c = 0")
        case True
        with h(1) i(1) show ?thesis by (auto simp: confirmTransactionRequestHandler_def)
      next
        case False
        with h(2) i show ?thesis by (auto simp: confirmTransactionRequestHandler_def)
      qed
    qed
    with False show ?thesis by simp
  qed
qed

theorem confirmation_needs_ten_nodes_witness:
  "confirmTransactionRequestHandler small_rpc_env \<lparr>cf_sha256 = (\<lambda>x. x), cf_now = 5, cf_draw = (\<lambda>k. k), cf_arrived = [], cf_parse = (\<lambda>_. None), cf_order = (\<lambda>l. l)\<rparr>
     [(Node_new ''a'')\<lparr>nd_height := 7\<rparr>] [] ''0.0'' \<lparr>cr_txhash = [''t''], cr_time = 1, cr_height = 5\<rparr> = (Diverge, None)"
proof -
  have h: "high_nodes 5 [(Node_new ''a'')\<lparr>nd_height := 7\<rparr>] = [(Node_new ''a'')\<lparr>nd_height := 7\<rparr>]" by (simp add: high_nodes_def)
  then have "high_nodes (cr_height \<lparr>cr_txhash = [''t''], cr_time = 1, cr_height = 5\<rparr>) [(Node_new ''a'')\<lparr>nd_height := 7\<rparr>] \<noteq> []" by simp
  from confirmation_needs_ten_nodes [OF small_version this] h show ?thesis by simp
qed

end
