(* ===== verification/Spec2Isabelle.thy ===== *)
theory Spec2Isabelle
  imports DbProps NetProps TrieProps CaProps PeerProps CheckProps SyncProps VoteProps TurnProps HelperProps FlowProps SeekProps VrfProps TxProps EvmProps EvmStore PoolProps Codecs ChannelProps RpcProps
begin

text \<open>
  A verification development for the Moonmesh node, a C++ blockchain node. It covers the layers below
  the protocol handlers, the record store, the network transport and the state trie of contracts, the
  parts of the transaction layer that decide what conflicts, what is grouped and what waits, and the
  synchronization of blocks with other nodes.

  \<^bold>\<open>Parts of the program and where they are modelled.\<close>

  \<^item> The record store (\<open>src/db\<close>). \<open>DBReader\<close> and \<open>DBReadWriter\<close> (\<open>db_api.cpp\<close>) turn
    blocks, balances, outputs, counters and stakes into string keys and values of a RocksDB transaction
    (\<open>rocksdb_read_write.cpp\<close>, \<open>rocksdb_read.cpp\<close>), with lists kept as separator-joined strings
    (\<open>utils/string_util.cpp\<close>). Theories: \<open>CxxString\<close> (string utilities, number parsing and printing),
    \<open>RocksRw\<close> (both RocksDB wrappers), \<open>DbKeys\<close> (key constants), \<open>DbReader\<close> (every getter),
    \<open>DbWriter\<close> (life cycle of the transaction, every setter and remover), \<open>StoreFacts\<close> (what the
    operations do to the stored map), \<open>DbProps\<close>.
  \<^item> The transport (\<open>src/net\<close>, \<open>src/common\<close>). \<open>pack.cpp\<close> frames messages with length, checksum,
    flags and end flag; \<open>socket_buf.cpp\<close> cuts the byte stream of each connection into messages and
    keeps the table of buffers; \<open>msg_queue.h\<close> is the bounded priority queue to the work threads;
    \<open>global_data.cpp\<close> collects the answers of peers to a request. Theories: \<open>NetFrame\<close>,
    \<open>NetBuffers\<close>, \<open>NetQueue\<close>, \<open>NetProps\<close>.
  \<^item> The state trie of contracts (\<open>src/mpt\<close>). \<open>trie.cpp\<close> is a Merkle Patricia trie over RLP
    (\<open>rlp.cpp\<close>, \<open>rlp.h\<close>) and hexadecimal strings (\<open>commondata.cpp\<close>). Theories: \<open>Trie\<close> (nodes,
    \<open>Get\<close>, \<open>Insert\<close>, \<open>Update\<close>), \<open>Rlp\<close>, \<open>TrieStore\<close> (encoding, hashing, \<open>Save\<close>,
    loading), \<open>TrieProps\<close>.

  \<^item> The transaction layer (\<open>src/ca\<close>). \<open>checker.cpp\<close> and \<open>double_spend_cache.cpp\<close> detect double
    spends; \<open>dispatchtx.cpp\<close> and \<open>packager_dispatch.cpp\<close> group contract transactions by the contracts
    they share, hand the groups to packagers and hold back what depends on unconfirmed transactions;
    \<open>contract_transaction_cache.cpp\<close> and \<open>failed_transaction_cache.cpp\<close> keep transactions that wait.
    Theories: \<open>Conflict\<close>, \<open>Dispatch\<close>, \<open>PendingTx\<close>, \<open>CaProps\<close>.
  \<^item> The table of connected nodes (\<open>src/net/peer_node.cpp\<close>) with the buffers and lists it maintains.
    Theories: \<open>PeerTable\<close>, \<open>PeerProps\<close>.
  \<^item> The synchronization of blocks (\<open>src/ca/sync_block.cpp\<close>, \<open>check_blocks.cpp\<close>). A thread compares this
    node's blocks with what other nodes report, height by height, by votes on hashes (fast) or by
    hashes of ranges (from zero); it rolls back what is outvoted and asks for what is missing. A timer
    agrees with the others on a hash of every thousand heights. Theories: \<open>Votes\<close> and \<open>DoubleArith\<close>
    (counting, and the comparisons of counts with decimal shares), \<open>CheckBlocks\<close>, \<open>SyncNodes\<close> (which
    nodes are asked), \<open>SyncReply\<close> (messages, answers, handlers), \<open>SyncVote\<close>, \<open>SyncFast\<close>,
    \<open>SyncLoop\<close> (the runs, one turn of the thread), \<open>CheckProps\<close>, \<open>SyncProps\<close>, \<open>VoteProps\<close>,
    \<open>TurnProps\<close>. What is handed to \<open>BlockHelper\<close> is collected as \<open>helper_call\<close>s there.
  \<^item> The queues of received blocks (\<open>src/ca/block_helper.cpp\<close>). Broadcast, synchronized and requested
    blocks wait in \<open>BlockHelper\<close> for their turn, for a predecessor, an output or a contract's previous
    transaction; a timer saves them to the database or rolls back. Theories: \<open>BlockQueues\<close> (state),
    \<open>BlockEntry\<close> (how blocks come in), \<open>BlockRequest\<close> (requests for what is missing), \<open>BlockSave\<close>,
    \<open>BlockProcess\<close> (the timer), \<open>BlockProps\<close>, \<open>SaveChain\<close>, \<open>HelperProps\<close>.
  \<^item> The flow of a new block (\<open>src/ca/block_stroage.cpp\<close>, \<open>block_monitor.cpp\<close>, \<open>src/utils/vrf.hpp\<close>). The
    packager collects signed copies, broadcasts, counts rejections and builds the block again; the
    hash of a preceding block is asked for by vote. Theories: \<open>BlockFlow\<close>, \<open>BlockSeek\<close>,
    \<open>FlowProps\<close>, \<open>SeekProps\<close>.
  \<^item> The choice of packaging nodes (\<open>src/ca/vrf_consensus.cpp\<close>) by what nodes broadcast every ten seconds,
    in \<open>double\<close>s. Theories: \<open>Doubles\<close> (rational numbers rounded to 53 bits), \<open>VrfConsensus\<close> (sending,
    receiving), \<open>VrfSelect\<close> (nodes in step, the choice, a turn of the thread), \<open>VrfProps\<close>.

  \<^item> The pool of transactions (\<open>src/ca/transaction_cache.cpp\<close>). Checked transactions wait; a thread
    chooses a height and builds a block of them; contract transactions are executed by the packager
    in groups before. Theories: \<open>TxCache\<close> (pool, height, building), \<open>TxContract\<close> (execution,
    agreement about contracts, a packager's message), \<open>TxProps\<close>, \<open>PoolProps\<close>.
  \<^item> The node as the virtual machine sees it (\<open>src/ca/evm\<close>, \<open>src/utils/contract_utils.cpp\<close>): accounts,
    storage in the trie, transfers, nested calls, deployed contracts in the database. Theories:
    \<open>EvmHost\<close> (the callbacks), \<open>EvmEnv\<close> (context, messages, storing contracts), \<open>EvmProps\<close>, \<open>EvmStore\<close>.

  \<^item> The encrypted channel between nodes (\<open>src/net/key_exchange.cpp\<close>, \<open>pack.h\<close>, \<open>api.h\<close>,
    \<open>src/utils/crypto.cpp\<close>, \<open>compress.cpp\<close>) and the dispatch of what arrives (\<open>src/net/dispatcher.cpp\<close>,
    \<open>RegisterInterface\<close>). Theories: \<open>SecureChannel\<close> (compression, keys, tokens, packing, sending, the
    exchange), \<open>Dispatcher\<close> (tables, decryption, the choice of the handler), \<open>ChannelProps\<close>.
  \<^item> The requests about the chain (\<open>src/ca/interface.cpp\<close>), with the check of versions
    (\<open>src/utils/util.cpp\<close>), the answer (\<open>return_ack.h\<close>) and the cache of delegations
    (\<open>src/ca/bonus_addr_cache.cpp\<close>). Theories: \<open>RpcServer\<close>, \<open>BonusCache\<close>, \<open>RpcReads\<close> (blocks, balances,
    the node), \<open>RpcLists\<close> (stakes, delegations, outputs, rewards), \<open>RpcConfirm\<close> (who has a transaction),
    \<open>RpcProps\<close>.
  \<^item> Text codings (\<open>src/utils/hex_code.cpp\<close>, \<open>base64.cpp\<close>). Theory: \<open>Codecs\<close>.

  \<^bold>\<open>How code corresponds to definitions.\<close> A definition carries the name of its C++ function; a second
  overload has a suffix, and a loop body that is a recursion of its own is named after what it does. The
  classes are records (\<open>DBReadWriter\<close>, \<open>SocketBuf\<close>, \<open>NetPack\<close>, \<open>MsgData\<close>, \<open>RLPStream\<close>,
  \<open>trie\<close>), the node objects of the trie the datatype \<open>node\<close>. A method takes the state and answers it
  updated. Results are of the type \<open>'a run\<close> of \<open>Prelude\<close>: a value, a thrown exception, the end of the
  process, a run that does not end, or undefined behaviour; \<open>bind_run\<close> sequences them. Strings and byte
  vectors are lists of characters; \<open>std::map\<close> is an ordered association list (\<open>std_map\<close>); integers
  of a fixed width are words where they can wrap (\<open>u8\<close> to \<open>u64\<close>), and natural numbers where they
  are sizes of data in memory.

  \<^bold>\<open>What is outside and enters as an argument.\<close> RocksDB is the record of operations and the locale of
  its documented laws in \<open>RocksRw\<close>, with an interpretation on an executable map; SHA-256 is a function
  on strings; protobuf serialisation is the string handed to the framing functions, and parsing a
  transaction a partial function; OpenSSL and zlib are records of functions with their documented laws; the virtual machine is a function on the host, evmc's hexadecimal
  text and the Keccak hash are functions on strings. Addresses of keys, signatures, clocks, the choice of packagers and
  the orders in which unordered maps are iterated are arguments of the definitions that use them.
  Hypotheses that come
  from there are named in the statements and each such property has a concrete instance.

  \<^bold>\<open>What the lemmas show.\<close> \<open>StoreFacts\<close> reduces every database call to its effect on a map, from which
  come the refinement of list values to duplicate-free lists, isolation and atomicity of transactions
  and facts about single families of records. \<open>NetFrame\<close> relates the receive loop to a list of
  messages: framing round trip, delivery however the stream is cut, and recovery after damage;
  \<open>NetBuffers\<close> and \<open>NetQueue\<close> have the invariants of the table and the queue. \<open>Trie\<close> has a
  well-formedness relation and an entry relation by which \<open>Get\<close> and \<open>Update\<close> are a map's lookup and
  update; \<open>Rlp\<close> and \<open>TrieStore\<close> show that what is written is read back. \<open>Conflict\<close> and
  \<open>Dispatch\<close> reduce the intersection of sorted vectors, the grouping loop and the dependency lists to
  sets. \<open>DoubleArith\<close> shows that a comparison of a count with a decimal share of another in doubles is
  the comparison of the fractions, for counts below \<open>2 ^ 40\<close>; \<open>VoteProps\<close> reduces the votes to the set
  of nodes that reported a hash, so that what is rolled back, requested and from whom is stated in
  terms of the answers; \<open>TurnProps\<close> bounds the fast turns over all states the thread reaches.
  \<open>BlockProps\<close> and \<open>SaveChain\<close> carry the invariant of the queues through every call, show that a
  saved block's followers are saved after it to the end of their chain, and what of a failed save is in the
  database, with nothing assumed of the save routine of \<open>ca_algorithm\<close>, which is not in the repository; \<open>FlowProps\<close> and \<open>VrfProps\<close> do the same for
  the tables of the block flow and of the packager choice, and relate rounded to exact shares.
  \<open>PoolProps\<close> carries the absence of conflicts through every operation of the pool to the blocks;
  \<open>EvmProps\<close> follows values and transfers through a call, whatever the machine does, and storage down to the trie. \<open>ChannelProps\<close> composes
  encryption, compression, framing and dispatch into delivery; \<open>RpcProps\<close> relates answers to records. The
  conditions \<open>ensures\<close> of \<open>Prelude\<close> say what a call guarantees when it returns. Theorems whose text says
  so state behaviour that looks unintended, as the code has it.

  \<^bold>\<open>Bounds and fuel.\<close> \<open>DecodeRef\<close> takes the length of the data plus one as fuel: an embedded list is
  shorter than the list around it. \<open>Get\<close> and \<open>Insert\<close> of the trie are partial functions, because
  hash nodes of a damaged store can form a cycle; on well-formed tries they are shown to return. Saving
  a block recurses into the blocks that waited for it; 1001 levels are enough because the heights that
  wait are at most 1000 and a chain climbs by one height at a time. The loops over thresholds of the packager choice need ten and eleven rounds. Stored
  short nodes are considered up to 16 MB of key and value, packed messages below 2 GB (the code's int)
  and received ones up to the code's own limit of 100 million bytes.

  \<^bold>\<open>What is not modelled.\<close> Concurrency inside one call (each locked method is one step), logging, clocks,
  sockets and threads; protobuf, OpenSSL, evmone and RocksDB themselves; the other protocol handlers of
  \<open>src/ca\<close>, the HTTP interface and the menu, which are mostly calls into those libraries; of the requests
  \<open>get_sdk_all_need\<close>. Of the synchronization
  \<open>get_sync_sum_hash_node\<close>, \<open>get_sync_block_hash_node\<close> and \<open>get_sync_block_by_sum_hash_node\<close> are
  left out: nothing calls them. The tasks of a pool are run when they are committed; what a contract's
  execution leaves is a record in place of its JSON text.
\<close>

end
